(* ===== verification/XPrelude.thy ===== *)
theory XPrelude
  imports Main "HOL-Library.Word"
begin

text \<open>
  Shared vocabulary of the xmount development: bytes and buffers, the fixed-width unsigned
  arithmetic of C on natural numbers, slices and overwrites of byte lists, little- and
  big-endian encodings, and the return codes every component uses.

  Unsigned C integers are natural numbers with the wrap-around written out (\<open>u32\<close>,
  \<open>u64\<close>, \<open>sub64\<close>); a signed \<open>off_t\<close> takes part in comparisons with
  \<open>uint64_t\<close> values only, where C converts it to unsigned, so it is a natural number
  too.
\<close>

section \<open>Names\<close>

type_synonym u8 = "8 word"
type_synonym bytes = "u8 list"

named_theorems width_simps \<open>fixed-width arithmetic without overflow\<close>
named_theorems slice_simps \<open>slices and overwrites of buffers\<close>

definition C_TRUE :: int where "C_TRUE = 1"
definition C_FALSE :: int where "C_FALSE = 0"

definition ENOENT :: int where "ENOENT = 2"
definition EIO :: int where "EIO = 5"
definition EACCES :: int where "EACCES = 13"

lemma errno_values [simp]: "C_TRUE = 1" "C_FALSE = 0" "EIO = 5" "ENOENT = 2" "EACCES = 13"
  by (simp_all add: C_TRUE_def C_FALSE_def EIO_def ENOENT_def EACCES_def)

section \<open>Fixed-width unsigned arithmetic\<close>

definition u16 :: "nat \<Rightarrow> nat" where "u16 n = n mod 65536"
definition u32 :: "nat \<Rightarrow> nat" where "u32 n = n mod 4294967296"
definition u64 :: "nat \<Rightarrow> nat" where "u64 n = n mod 18446744073709551616"

definition sub32 :: "nat \<Rightarrow> nat \<Rightarrow> nat" where
  "sub32 a b = nat ((int a - int b) mod 4294967296)"

definition sub64 :: "nat \<Rightarrow> nat \<Rightarrow> nat" where
  "sub64 a b = nat ((int a - int b) mod 18446744073709551616)"

text \<open>The conversion of a \<open>size_t\<close> result to the \<open>int\<close> a function returns.\<close>

definition int_of_size :: "nat \<Rightarrow> int" where
  "int_of_size n = (let m = n mod 4294967296 in
     if m < 2147483648 then int m else int m - 4294967296)"

text \<open>The 64 bits of a \<open>uint64_t\<close> read as a signed \<open>off_t\<close>, and an \<open>int\<close> converted to
  \<open>uint64_t\<close>: a negative one becomes a huge value.\<close>

definition int64 :: "nat \<Rightarrow> int" where
  "int64 n = (let m = n mod 18446744073709551616 in
     if m < 9223372036854775808 then int m else int m - 18446744073709551616)"

definition u64_of_int :: "int \<Rightarrow> nat" where
  "u64_of_int i = nat (i mod 18446744073709551616)"

lemma int64_small [width_simps]: "n < 9223372036854775808 \<Longrightarrow> int64 n = int n"
  by (simp add: int64_def)

lemma u64_of_int_small [width_simps]: "n < 18446744073709551616 \<Longrightarrow> u64_of_int (int n) = n"
  by (simp add: u64_of_int_def nat_mod_distrib)

lemma int_of_size_range: "- 2147483648 \<le> int_of_size n" "int_of_size n < 2147483648"
  by (auto simp: int_of_size_def Let_def)

lemma u16_small [width_simps]: "n < 65536 \<Longrightarrow> u16 n = n"
  by (simp add: u16_def)

lemma u32_small [width_simps]: "n < 4294967296 \<Longrightarrow> u32 n = n"
  by (simp add: u32_def)

lemma u64_small [width_simps]: "n < 18446744073709551616 \<Longrightarrow> u64 n = n"
  by (simp add: u64_def)

lemma u32_less [simp]: "u32 n < 4294967296"
  by (simp add: u32_def)

lemma u64_less [simp]: "u64 n < 18446744073709551616"
  by (simp add: u64_def)

lemma u16_less [simp]: "u16 n < 65536"
  by (simp add: u16_def)

lemma u32_le [simp]: "u32 n \<le> n"
  by (simp add: u32_def)

lemma u64_le [simp]: "u64 n \<le> n"
  by (simp add: u64_def)

lemma sub64_small [width_simps]:
  assumes "b \<le> a" "a < 18446744073709551616"
  shows "sub64 a b = a - b"
proof -
  have "(int a - int b) mod 18446744073709551616 = int a - int b"
    using assms by (intro mod_pos_pos_trivial) auto
  then show ?thesis using assms by (simp add: sub64_def)
qed

lemma sub32_small [width_simps]:
  assumes "b \<le> a" "a < 4294967296"
  shows "sub32 a b = a - b"
proof -
  have "(int a - int b) mod 4294967296 = int a - int b"
    using assms by (intro mod_pos_pos_trivial) auto
  then show ?thesis using assms by (simp add: sub32_def)
qed

lemma int_of_size_small [width_simps]: "n < 2147483648 \<Longrightarrow> int_of_size n = int n"
  by (simp add: int_of_size_def)

section \<open>Slices, padding and overwriting\<close>

definition segment :: "nat \<Rightarrow> nat \<Rightarrow> 'a list \<Rightarrow> 'a list" where
  "segment off n xs = take n (drop off xs)"

lemma length_segment [simp]: "length (segment off n xs) = min n (length xs - off)"
  by (simp add: segment_def)

lemma segment_0 [simp]: "segment off 0 xs = []"
  by (simp add: segment_def)

lemma segment_Nil [simp]: "segment off n [] = []"
  by (simp add: segment_def)

lemma segment_all [slice_simps]: "length xs \<le> n \<Longrightarrow> segment 0 n xs = xs"
  by (simp add: segment_def)

lemma segment_join [slice_simps]: "segment off n xs @ segment (off + n) m xs = segment off (n + m) xs"
  by (simp add: segment_def take_add drop_drop add.commute [of off])

lemma segment_split:
  "m \<le> n \<Longrightarrow> segment off n xs = segment off m xs @ segment (off + m) (n - m) xs"
  by (simp add: segment_join)

lemma nth_segment: "i < n \<Longrightarrow> off + i < length xs \<Longrightarrow> segment off n xs ! i = xs ! (off + i)"
  by (simp add: segment_def)

lemma segment_append_right [slice_simps]:
  "length xs \<le> off \<Longrightarrow> segment off n (xs @ ys) = segment (off - length xs) n ys"
  by (simp add: segment_def)

lemma segment_append_left [slice_simps]:
  "off + n \<le> length xs \<Longrightarrow> segment off n (xs @ ys) = segment off n xs"
  by (simp add: segment_def)

lemma segment_segment [slice_simps]:
  "a + m \<le> n \<Longrightarrow> segment a m (segment off n xs) = segment (off + a) m xs"
  by (simp add: segment_def drop_take min_def add.commute)

lemma segment_eqI:
  assumes "length ys = n" "off + n \<le> length xs" "\<And>i. i < n \<Longrightarrow> ys ! i = xs ! (off + i)"
  shows "ys = segment off n xs"
  by (rule nth_equalityI) (use assms in \<open>auto simp: nth_segment\<close>)

lemma segment_append:
  "segment off n (xs @ ys) =
   segment off n xs @ segment (off - length xs) (n - (length xs - off)) ys"
  by (simp add: segment_def)

lemma segment_clip: "segment off (min n (length xs - off)) xs = segment off n xs"
  by (simp add: segment_def min_def)

text \<open>A buffer of \<open>n\<close> bytes into which \<open>b\<close> has been stored: bytes the callee does not
  store are modelled as 0.\<close>

definition pad :: "nat \<Rightarrow> bytes \<Rightarrow> bytes" where
  "pad n b = take n b @ replicate (n - length b) 0"

lemma pad_exact [simp]: "length b = n \<Longrightarrow> pad n b = b"
  by (simp add: pad_def)

lemma length_pad [simp]: "length (pad n b) = n"
  by (simp add: pad_def min_def)

text \<open>Writing \<open>ys\<close> at offset \<open>off\<close> of a file: the file grows if needed, a hole
  reads as 0.\<close>

definition overwrite :: "nat \<Rightarrow> bytes \<Rightarrow> bytes \<Rightarrow> bytes" where
  "overwrite off ys xs =
     take off xs @ replicate (off - length xs) 0 @ ys @ drop (off + length ys) xs"

lemma length_overwrite [simp]:
  "length (overwrite off ys xs) = max (length xs) (off + length ys)"
  by (auto simp: overwrite_def)

lemma overwrite_Nil [simp]: "off \<le> length xs \<Longrightarrow> overwrite off [] xs = xs"
  by (simp add: overwrite_def)

lemma overwrite_end [slice_simps]: "overwrite (length xs) ys xs = xs @ ys"
  by (simp add: overwrite_def)

lemma nth_overwrite:
  assumes "off \<le> length xs" "i < max (length xs) (off + length ys)"
  shows "overwrite off ys xs ! i =
    (if off \<le> i \<and> i < off + length ys then ys ! (i - off) else xs ! i)"
  using assms by (auto simp: overwrite_def nth_append)

lemma segment_overwrite_same [slice_simps]:
  "off \<le> length xs \<Longrightarrow> n = length ys \<Longrightarrow> segment off n (overwrite off ys xs) = ys"
  by (simp add: overwrite_def segment_def)

lemma segment_overwrite_disjoint [slice_simps]:
  assumes "off \<le> length xs" "a + n \<le> off \<or> off + length ys \<le> a" "a + n \<le> length xs"
  shows "segment a n (overwrite off ys xs) = segment a n xs"
proof (rule nth_equalityI)
  show "length (segment a n (overwrite off ys xs)) = length (segment a n xs)"
    using assms by auto
next
  fix i assume "i < length (segment a n (overwrite off ys xs))"
  then have i: "i < n" by simp
  then show "segment a n (overwrite off ys xs) ! i = segment a n xs ! i"
    using assms by (auto simp: nth_segment nth_overwrite)
qed

lemma overwrite_overwrite_adjacent [slice_simps]:
  assumes "off \<le> length xs"
  shows "overwrite (off + length ys) zs (overwrite off ys xs) = overwrite off (ys @ zs) xs"
  using assms by (simp add: overwrite_def ac_simps)

lemma overwrite_append_left:
  "off + length bs \<le> length xs \<Longrightarrow> overwrite off bs (xs @ ys) = overwrite off bs xs @ ys"
  by (simp add: overwrite_def)

lemma overwrite_append_right:
  "length xs \<le> off \<Longrightarrow> overwrite off bs (xs @ ys) = xs @ overwrite (off - length xs) bs ys"
  by (simp add: overwrite_def)

lemma overwrite_append_cross:
  assumes "off + length as = length xs"
  shows "overwrite off (as @ bs) (xs @ ys) = overwrite off as xs @ overwrite 0 bs ys"
proof -
  have "off + (length as + length bs) - length xs = length bs" using assms by simp
  then show ?thesis using assms by (simp add: overwrite_def)
qed

section \<open>Reading a concatenation\<close>

text \<open>An image made of pieces: the read loops take from the current piece what it still
  holds and go on with the next one.\<close>

lemma segment_concat_first:
  assumes "i < length xss" "off < length (xss ! i)"
  shows "segment off n (concat (drop i xss)) =
    segment off (min n (length (xss ! i) - off)) (xss ! i) @
    segment 0 (n - (length (xss ! i) - off)) (concat (drop (Suc i) xss))"
proof -
  have "drop i xss = xss ! i # drop (Suc i) xss"
    using assms(1) by (simp add: Cons_nth_drop_Suc)
  then show ?thesis using assms(2) by (simp add: segment_def min_def)
qed

lemma length_concat_drop:
  assumes "i < length xss"
  shows "length (concat (drop i xss)) = length (xss ! i) + length (concat (drop (Suc i) xss))"
proof -
  have "drop i xss = xss ! i # drop (Suc i) xss"
    using assms by (simp add: Cons_nth_drop_Suc)
  then show ?thesis by simp
qed

lemma length_concat_drop_le: "length (concat (drop i xss)) \<le> length (concat xss)"
proof -
  have "concat xss = concat (take i xss) @ concat (drop i xss)"
    by (metis append_take_drop_id concat_append)
  then have "length (concat xss) = length (concat (take i xss)) + length (concat (drop i xss))"
    by (metis length_append)
  then show ?thesis by simp
qed

lemma drop_concat_blocks:
  assumes "\<And>x. x \<in> set xss \<Longrightarrow> length x = k"
  shows "drop (i * k) (concat xss) = concat (drop i xss)"
  using assms
proof (induction xss arbitrary: i)
  case (Cons x xss)
  then show ?case by (cases i) auto
qed simp

lemma segment_concat_blocks:
  assumes "\<And>x. x \<in> set xss \<Longrightarrow> length x = k"
  shows "segment (i * k + off) n (concat xss) = segment off n (concat (drop i xss))"
  using drop_concat_blocks [OF assms, of xss i, simplified]
  by (metis segment_def drop_drop add.commute)

lemma length_concat_blocks:
  assumes "\<And>x. x \<in> set xss \<Longrightarrow> length x = k"
  shows "length (concat xss) = length xss * k"
  using assms by (induction xss) auto

section \<open>Strings\<close>

definition string_bytes :: "string \<Rightarrow> bytes" where
  "string_bytes s = map of_char s"

lemma length_string_bytes [simp]: "length (string_bytes s) = length s"
  by (simp add: string_bytes_def)

section \<open>Byte encodings of unsigned integers\<close>

text \<open>\<open>le_bytes k v\<close> is the memory image of a \<open>k\<close>-byte unsigned integer on a
  little-endian host, \<open>le_val\<close> reads it back.\<close>

fun le_bytes :: "nat \<Rightarrow> nat \<Rightarrow> bytes" where
  "le_bytes 0 v = []"
| "le_bytes (Suc k) v = word_of_nat (v mod 256) # le_bytes k (v div 256)"

fun le_val :: "bytes \<Rightarrow> nat" where
  "le_val [] = 0"
| "le_val (b # bs) = unat b + 256 * le_val bs"

definition be_bytes :: "nat \<Rightarrow> nat \<Rightarrow> bytes" where
  "be_bytes k v = rev (le_bytes k v)"

definition be_val :: "bytes \<Rightarrow> nat" where
  "be_val bs = le_val (rev bs)"

lemma length_le_bytes [simp]: "length (le_bytes k v) = k"
  by (induction k arbitrary: v) auto

lemma length_be_bytes [simp]: "length (be_bytes k v) = k"
  by (simp add: be_bytes_def)

lemma unat_u8_less: "unat (b :: u8) < 256"
  using unsigned_less [of b] by simp

lemma unat_u8_of_nat: "n < 256 \<Longrightarrow> unat (word_of_nat n :: u8) = n"
  by (simp add: unat_of_nat)

lemma le_val_le_bytes: "le_val (le_bytes k v) = v mod 256 ^ k"
proof (induction k arbitrary: v)
  case 0
  then show ?case by simp
next
  case (Suc k)
  have "unat (word_of_nat (v mod 256) :: u8) = v mod 256"
    by (rule unat_u8_of_nat) simp
  moreover have "v mod (256 * 256 ^ k) = v mod 256 + 256 * (v div 256 mod 256 ^ k)"
    by (simp add: mod_mult2_eq)
  ultimately show ?case using Suc.IH by simp
qed

lemma le_val_less: "le_val bs < 256 ^ length bs"
proof (induction bs)
  case (Cons b bs)
  have "unat b < 256" by (rule unat_u8_less)
  with Cons.IH show ?case by simp
qed simp

lemma le_bytes_le_val: "le_bytes (length bs) (le_val bs) = bs"
proof (induction bs)
  case (Cons b bs)
  have "unat b < 256" by (rule unat_u8_less)
  with Cons.IH show ?case by simp
qed simp

lemma le_val_zeros: "le_val (replicate n 0) = 0"
  by (induction n) simp_all

lemma be_val_be_bytes: "be_val (be_bytes k v) = v mod 256 ^ k"
  by (simp add: be_val_def be_bytes_def le_val_le_bytes)

lemma be_val_less: "be_val bs < 256 ^ length bs"
  using le_val_less [of "rev bs"] by (simp add: be_val_def)

lemma le_bytes_add: "le_bytes (m + n) v = le_bytes m v @ le_bytes n (v div 256 ^ m)"
  by (induction m arbitrary: v) (simp_all add: div_mult2_eq)

lemma le_bytes_mod: "le_bytes k (v mod 256 ^ k) = le_bytes k v"
proof -
  have "le_bytes (length (le_bytes k v)) (le_val (le_bytes k v)) = le_bytes k v"
    by (rule le_bytes_le_val)
  then show ?thesis by (simp add: le_val_le_bytes)
qed

lemma le_bytes_inj: "a < 256 ^ k \<Longrightarrow> b < 256 ^ k \<Longrightarrow> le_bytes k a = le_bytes k b \<Longrightarrow> a = b"
  by (metis le_val_le_bytes mod_less)

text \<open>Reading a \<open>k\<close>-byte field at an offset of a memory image.\<close>

definition le_at :: "nat \<Rightarrow> nat \<Rightarrow> bytes \<Rightarrow> nat" where
  "le_at off k bs = le_val (segment off k bs)"

definition be_at :: "nat \<Rightarrow> nat \<Rightarrow> bytes \<Rightarrow> nat" where
  "be_at off k bs = be_val (segment off k bs)"

lemma le_at_here [simp]: "k = length f \<Longrightarrow> le_at 0 k (f @ rest) = le_val f"
  by (simp add: le_at_def segment_def)

lemma le_at_less: "le_at off k bs < 256 ^ k"
proof -
  have "le_val (segment off k bs) < 256 ^ length (segment off k bs)" by (rule le_val_less)
  also have "\<dots> \<le> 256 ^ k" by (rule power_increasing) auto
  finally show ?thesis by (simp add: le_at_def)
qed

lemma be_at_less: "be_at off k bs < 256 ^ k"
proof -
  have "be_val (segment off k bs) < 256 ^ length (segment off k bs)" by (rule be_val_less)
  also have "\<dots> \<le> 256 ^ k" by (rule power_increasing) auto
  finally show ?thesis by (simp add: be_at_def)
qed

lemma le_at_skip: "length f \<le> off \<Longrightarrow> le_at off k (f @ rest) = le_at (off - length f) k rest"
  by (simp add: le_at_def segment_append_right)

lemma be_at_skip: "length f \<le> off \<Longrightarrow> be_at off k (f @ rest) = be_at (off - length f) k rest"
  by (simp add: be_at_def segment_append_right)

lemma be_at_here: "be_at 0 k (be_bytes k v @ rest) = v mod 256 ^ k"
  by (simp add: be_at_def segment_append_left segment_all be_val_be_bytes)

lemma be_at_zeros:
  assumes "off + k \<le> n"
  shows "be_at off k (replicate n 0) = 0"
proof -
  have "segment off k (replicate n 0) = (replicate k 0 :: bytes)"
    using assms by (simp add: segment_def)
  then show ?thesis by (simp add: be_at_def be_val_def le_val_zeros)
qed

section \<open>Ceiling division\<close>

text \<open>\<open>n / d\<close>, plus one when \<open>n % d\<close> is not 0: the block count computations of the
  headers and of the cache file.\<close>

definition ceil_div :: "nat \<Rightarrow> nat \<Rightarrow> nat" where
  "ceil_div n d = (if n mod d \<noteq> 0 then n div d + 1 else n div d)"

lemma ceil_div_bounds:
  assumes "0 < d"
  shows "n \<le> ceil_div n d * d" "ceil_div n d * d < n + d"
proof -
  define q r where "q = n div d" and "r = n mod d"
  have n: "n = q * d + r" by (simp add: q_def r_def)
  have m: "r < d" using assms by (simp add: r_def)
  have c: "ceil_div n d = (if r \<noteq> 0 then q + 1 else q)"
    by (simp add: ceil_div_def q_def r_def)
  show "n \<le> ceil_div n d * d"
    using n m c by auto
  show "ceil_div n d * d < n + d"
    using n m c assms by auto
qed

lemma ceil_div_block:
  assumes "0 < d" "i < n"
  shows "i div d < ceil_div n d"
proof -
  have "i < ceil_div n d * d" using ceil_div_bounds(1) [OF assms(1)] assms(2) by (rule order.strict_trans2 [rotated])
  then show ?thesis by (simp add: less_mult_imp_div_less)
qed

end
