(* ===== verification/XInterfaces.thy ===== *)
theory XInterfaces
  imports XPrelude
begin

text \<open>
  The function-pointer interfaces between xmount, its input libraries and its morphing
  libraries (\<open>libxmount_input/libxmount_input.h\<close>,
  \<open>libxmount_morphing/libxmount_morphing.h\<close>), and the contracts they promise.

  A \<open>Read\<close> function returns an \<open>int\<close>, stores bytes through \<open>p_buf\<close>, and
  reports through \<open>p_read\<close> (and \<open>p_errno\<close>): a \<open>read_res\<close> holds all four.
  Its type is an option: \<open>None\<close> is a call that has no defined result, because a loop
  does not end or memory outside an object is accessed.
\<close>

section \<open>Results of reads\<close>

record read_res =
  rr_ret :: int
  rr_buf :: bytes
  rr_read :: nat
  rr_errno :: int

definition rd_ok :: "bytes \<Rightarrow> read_res" where
  "rd_ok b = \<lparr>rr_ret = 0, rr_buf = b, rr_read = length b, rr_errno = 0\<rparr>"

definition rd_err :: "int \<Rightarrow> read_res" where
  "rd_err e = \<lparr>rr_ret = e, rr_buf = [], rr_read = 0, rr_errno = 0\<rparr>"

lemma rd_ok_sel [simp]:
  "rr_ret (rd_ok b) = 0" "rr_buf (rd_ok b) = b" "rr_read (rd_ok b) = length b"
  "rr_errno (rd_ok b) = 0"
  by (simp_all add: rd_ok_def)

lemma rd_err_sel [simp]:
  "rr_ret (rd_err e) = e" "rr_buf (rd_err e) = []" "rr_read (rd_err e) = 0"
  "rr_errno (rd_err e) = 0"
  by (simp_all add: rd_err_def)

section \<open>ts_LibXmountMorphingInputFunctions\<close>

text \<open>The three functions xmount hands to a morphing library.\<close>

record morph_input =
  mi_ImageCount :: "int \<times> nat"
  mi_Size :: "nat \<Rightarrow> int \<times> nat"
  mi_Read :: "nat \<Rightarrow> nat \<Rightarrow> nat \<Rightarrow> read_res option"

section \<open>The contract of an opened image\<close>

text \<open>
  What xmount relies on in an input library and in a morphing library alike: \<open>Size\<close>
  reports the length of the contents, and a \<open>Read\<close> of at least one byte (and fewer than
  \<open>2 ^ 32\<close>, the width of the libraries' loop counters) that lies inside the image returns
  0 and exactly these bytes. The handle is described by an invariant and by its contents.
\<close>

locale image_reader =
  fixes rd_inv :: "'h \<Rightarrow> bool"
    and rd_contents :: "'h \<Rightarrow> bytes"
    and rd_size :: "'h \<Rightarrow> int \<times> nat"
    and rd_read :: "'h \<Rightarrow> nat \<Rightarrow> nat \<Rightarrow> read_res option"
  assumes rd_size_law: "rd_inv h \<Longrightarrow> rd_size h = (0, length (rd_contents h))"
    and rd_bound_law: "rd_inv h \<Longrightarrow> length (rd_contents h) < 2 ^ 63"
    and rd_read_law: "rd_inv h \<Longrightarrow> 0 < n \<Longrightarrow> n < 4294967296 \<Longrightarrow>
      off + n \<le> length (rd_contents h) \<Longrightarrow>
      rd_read h off n = Some (rd_ok (segment off n (rd_contents h)))"
begin

lemma rd_read_in_range:
  assumes "rd_inv h" "0 < n" "n < 4294967296" "off + n \<le> length (rd_contents h)"
  obtains r where "rd_read h off n = Some r" "rr_ret r = 0" "rr_read r = n"
    "rr_buf r = segment off n (rd_contents h)"
  using rd_read_law [OF assms] assms(4) by simp

lemma rd_read_two_parts:
  assumes "rd_inv h" "0 < n" "0 < m" "n + m < 4294967296"
    and "off + n + m \<le> length (rd_contents h)"
    and "rd_read h off n = Some r1" "rd_read h (off + n) m = Some r2"
  shows "rd_read h off (n + m) = Some (rd_ok (rr_buf r1 @ rr_buf r2))"
proof -
  have "r1 = rd_ok (segment off n (rd_contents h))"
    using assms rd_read_law [of h n off] by simp
  moreover have "r2 = rd_ok (segment (off + n) m (rd_contents h))"
    using assms rd_read_law [of h m "off + n"] by simp
  ultimately show ?thesis
    using assms rd_read_law [of h "n + m" off] by (simp add: segment_join)
qed

end

section \<open>The contract of the input images of a morphing library\<close>

text \<open>
  What a morphing library relies on in the functions xmount hands it: the image count, the
  size of each image, an error for an image number out of range, and reads that return
  exactly the bytes of the image, or nothing at or behind its end. The provider is described by an invariant, by the record
  of its functions and by the contents of its images.
\<close>

locale input_images =
  fixes in_inv :: "'g \<Rightarrow> bool"
    and in_funs :: "'g \<Rightarrow> morph_input"
    and in_images :: "'g \<Rightarrow> bytes list"
  assumes in_count_law: "in_inv g \<Longrightarrow> mi_ImageCount (in_funs g) = (0, length (in_images g))"
    and in_size_law: "in_inv g \<Longrightarrow> i < length (in_images g) \<Longrightarrow>
      mi_Size (in_funs g) i = (0, length (in_images g ! i))"
    and in_size_err_law: "in_inv g \<Longrightarrow> length (in_images g) \<le> i \<Longrightarrow>
      fst (mi_Size (in_funs g) i) \<noteq> 0"
    and in_read_law: "in_inv g \<Longrightarrow> i < length (in_images g) \<Longrightarrow> 0 < n \<Longrightarrow>
      n < 4294967296 \<Longrightarrow> off + n \<le> length (in_images g ! i) \<Longrightarrow>
      mi_Read (in_funs g) i off n = Some (rd_ok (segment off n (in_images g ! i)))"
    and in_eof_law: "in_inv g \<Longrightarrow> i < length (in_images g) \<Longrightarrow>
      length (in_images g ! i) \<le> off \<Longrightarrow> mi_Read (in_funs g) i off n = Some (rd_ok [])"
    and in_bound_law: "in_inv g \<Longrightarrow> length (concat (in_images g)) < 2 ^ 63"
    and in_count_bound_law: "in_inv g \<Longrightarrow> length (in_images g) < 2 ^ 32"
begin

lemma image_length_le:
  assumes "in_inv g" "i < length (in_images g)"
  shows "length (in_images g ! i) \<le> length (concat (in_images g))"
proof -
  have "length (in_images g ! i) \<in> set (map length (in_images g))"
    using assms(2) by simp
  then show ?thesis by (simp add: length_concat member_le_sum_list)
qed

lemma image_length_bound:
  assumes "in_inv g" "i < length (in_images g)"
  shows "length (in_images g ! i) < 2 ^ 63"
  using image_length_le [OF assms] in_bound_law [OF assms(1)] by linarith

end

section \<open>The contract of an image whose reads change the handle\<close>

text \<open>
  Input libraries with caches or a position of their own change the handle with every read. What
  is left of the contract: a \<open>Read\<close> inside the image that fits the caller's buffer returns 0 and
  stores exactly the bytes of the image, and the handle keeps its invariant and its contents.
\<close>

locale session_reader =
  fixes sr_inv :: "'h \<Rightarrow> bool"
    and sr_contents :: "'h \<Rightarrow> bytes"
    and sr_read :: "'h \<Rightarrow> bytes \<Rightarrow> nat \<Rightarrow> nat \<Rightarrow> (read_res \<times> 'h) option"
  assumes sr_read_law: "sr_inv h \<Longrightarrow> 0 < n \<Longrightarrow> n \<le> length buf \<Longrightarrow> off + n \<le> length (sr_contents h) \<Longrightarrow>
      \<exists>r h'. sr_read h buf off n = Some (r, h') \<and> rr_ret r = 0 \<and> rr_read r = n \<and>
        take n (rr_buf r) = segment off n (sr_contents h) \<and> sr_inv h' \<and> sr_contents h' = sr_contents h"

text \<open>A sequence of reads, each of a whole buffer: the codes and the bytes reported as read.\<close>

fun read_session ::
  "('h \<Rightarrow> bytes \<Rightarrow> nat \<Rightarrow> nat \<Rightarrow> (read_res \<times> 'h) option) \<Rightarrow> 'h \<Rightarrow> (nat \<times> bytes) list \<Rightarrow>
   ((int \<times> bytes) list \<times> 'h) option" where
  "read_session rd h [] = Some ([], h)"
| "read_session rd h ((off, buf) # reqs) =
     (case rd h buf off (length buf) of
        None \<Rightarrow> None
      | Some (r, h1) \<Rightarrow>
          map_option (\<lambda>(out, h2). ((rr_ret r, take (rr_read r) (rr_buf r)) # out, h2)) (read_session rd h1 reqs))"

text \<open>The reads of a sequence lie in the image.\<close>

definition reads_inside :: "(nat \<times> bytes) list \<Rightarrow> nat \<Rightarrow> bool" where
  "reads_inside reqs sz = list_all (\<lambda>(off, buf). buf \<noteq> [] \<and> off + length buf \<le> sz) reqs"

context session_reader
begin

lemma session_reads:
  "sr_inv h \<Longrightarrow> reads_inside reqs (length (sr_contents h)) \<Longrightarrow>
   \<exists>h'. read_session sr_read h reqs = Some (map (\<lambda>(off, buf). (0, segment off (length buf) (sr_contents h))) reqs, h') \<and>
     sr_inv h' \<and> sr_contents h' = sr_contents h"
proof (induction reqs arbitrary: h)
  case (Cons req reqs)
  obtain off buf where req: "req = (off, buf)" by force
  then have "0 < length buf" "off + length buf \<le> length (sr_contents h)" using Cons.prems(2) by (simp_all add: reads_inside_def)
  from sr_read_law [OF Cons.prems(1) this(1) order_refl this(2)]
  obtain r h1 where r: "sr_read h buf off (length buf) = Some (r, h1)" "rr_ret r = 0" "rr_read r = length buf"
    "take (length buf) (rr_buf r) = segment off (length buf) (sr_contents h)" "sr_inv h1" "sr_contents h1 = sr_contents h"
    by blast
  have "reads_inside reqs (length (sr_contents h1))" using Cons.prems(2) r(6) by (simp add: reads_inside_def)
  from Cons.IH [OF r(5) this] show ?case using r req by auto
qed simp

end

end
