(* ===== verification/CStdio.thy ===== *)
theory CStdio
  imports XPrelude
begin

text \<open>
  The part of C's standard library that xmount's file handling uses: a \<open>FILE*\<close> opened
  for update with its contents, its position and the largest size the file system lets it
  grow to (so that \<open>fwrite\<close> can fail), and the seek, tell, read and write calls with one
  item of \<open>n\<close> bytes. \<open>fread\<close> and \<open>fwrite\<close> return the number of complete items;
  with an item size of 0 they return 0.
\<close>

record cfile =
  f_data :: bytes
  f_pos :: nat
  f_limit :: nat

definition fseeko_set :: "nat \<Rightarrow> cfile \<Rightarrow> int \<times> cfile" where
  "fseeko_set off f = (if off < 2 ^ 63 then (0, f\<lparr>f_pos := off\<rparr>) else (-1, f))"

definition fseeko_end :: "cfile \<Rightarrow> int \<times> cfile" where
  "fseeko_end f = (0, f\<lparr>f_pos := length (f_data f)\<rparr>)"

definition ftello :: "cfile \<Rightarrow> nat" where
  "ftello f = f_pos f"

definition fread :: "nat \<Rightarrow> cfile \<Rightarrow> nat \<times> bytes \<times> cfile" where
  "fread n f =
     (if 0 < n \<and> f_pos f + n \<le> length (f_data f)
      then (1, segment (f_pos f) n (f_data f), f\<lparr>f_pos := f_pos f + n\<rparr>)
      else (0, segment (f_pos f) n (f_data f), f\<lparr>f_pos := max (f_pos f) (min (f_pos f + n) (length (f_data f)))\<rparr>))"

definition fwrite :: "bytes \<Rightarrow> cfile \<Rightarrow> nat \<times> cfile" where
  "fwrite bs f =
     (if 0 < length bs \<and> f_pos f + length bs \<le> f_limit f
      then (1, f\<lparr>f_data := overwrite (f_pos f) bs (f_data f), f_pos := f_pos f + length bs\<rparr>)
      else let k = f_limit f - f_pos f in
           (0, f\<lparr>f_data := (if k = 0 \<or> bs = [] then f_data f
                            else overwrite (f_pos f) (take k bs) (f_data f)),
                 f_pos := f_pos f + min k (length bs)\<rparr>))"

lemma fread_ok:
  "0 < n \<Longrightarrow> f_pos f + n \<le> length (f_data f) \<Longrightarrow>
   fread n f = (1, segment (f_pos f) n (f_data f), f\<lparr>f_pos := f_pos f + n\<rparr>)"
  by (simp add: fread_def)

lemma fread_data: "fread n f = (r, b, f') \<Longrightarrow> f_data f' = f_data f \<and> f_limit f' = f_limit f"
  by (auto simp: fread_def split: if_splits)

lemma fwrite_ok:
  "fst (fwrite bs f) = 1 \<Longrightarrow>
   snd (fwrite bs f) =
     f\<lparr>f_data := overwrite (f_pos f) bs (f_data f), f_pos := f_pos f + length bs\<rparr>"
  by (auto simp: fwrite_def Let_def split: if_splits)

lemma fwrite_fits:
  "bs \<noteq> [] \<Longrightarrow> f_pos f + length bs \<le> f_limit f \<Longrightarrow> fst (fwrite bs f) = 1"
  by (simp add: fwrite_def)

end
