(* ===== verification/XState.thy ===== *)
theory XState
  imports XInterfaces CStdio
begin

text \<open>
  The global state \<open>glob_xmount\<close> of \<open>src/src/xmount.h\<close>: one record per struct, with
  the source's field names behind a prefix per struct. Pointers that may be \<open>NULL\<close> are
  options, counted arrays are lists, and a function pointer applied to the handle stored
  beside it is a function. The on-disk structs are given with their packed encodings.
\<close>

section \<open>On-disk structures of the cache file\<close>

definition CACHE_BLOCK_SIZE :: nat where "CACHE_BLOCK_SIZE = 1048576"
definition CACHE_FILE_SIGNATURE :: nat where "CACHE_FILE_SIGNATURE = 0xFFFF746E756F6D78"
definition CUR_CACHE_FILE_VERSION :: nat where "CUR_CACHE_FILE_VERSION = 2"
definition HASH_AMOUNT :: nat where "HASH_AMOUNT = 10485760"
definition sizeof_CacheFileHeader :: nat where "sizeof_CacheFileHeader = 512"
definition sizeof_CacheFileBlockIndex :: nat where "sizeof_CacheFileBlockIndex = 12"
definition sizeof_VdiFileHeader :: nat where "sizeof_VdiFileHeader = 512"
definition sizeof_VhdFileHeader :: nat where "sizeof_VhdFileHeader = 512"

lemma CACHE_BLOCK_SIZE_pos [simp]: "0 < CACHE_BLOCK_SIZE"
  by (simp add: CACHE_BLOCK_SIZE_def)

record cache_blkidx =
  bi_Assigned :: nat
  bi_off_data :: nat

record cache_header =
  ch_FileSignature :: nat
  ch_CacheFileVersion :: nat
  ch_BlockSize :: nat
  ch_BlockCount :: nat
  ch_pBlockIndex :: nat
  ch_VdiFileHeaderCached :: nat
  ch_pVdiFileHeader :: nat
  ch_VmdkFileCached :: nat
  ch_VmdkFileSize :: nat
  ch_pVmdkFile :: nat
  ch_VhdFileHeaderCached :: nat
  ch_pVhdFileHeader :: nat
  ch_HeaderPadding :: bytes

text \<open>The packed memory images on a little-endian host.\<close>

definition enc_blkidx :: "cache_blkidx \<Rightarrow> bytes" where
  "enc_blkidx e = le_bytes 4 (bi_Assigned e) @ le_bytes 8 (bi_off_data e)"

definition dec_blkidx :: "bytes \<Rightarrow> cache_blkidx" where
  "dec_blkidx b = \<lparr>bi_Assigned = le_at 0 4 b, bi_off_data = le_at 4 8 b\<rparr>"

definition enc_cache_header :: "cache_header \<Rightarrow> bytes" where
  "enc_cache_header h =
     le_bytes 8 (ch_FileSignature h) @ le_bytes 4 (ch_CacheFileVersion h) @
     le_bytes 8 (ch_BlockSize h) @ le_bytes 8 (ch_BlockCount h) @
     le_bytes 8 (ch_pBlockIndex h) @ le_bytes 4 (ch_VdiFileHeaderCached h) @
     le_bytes 8 (ch_pVdiFileHeader h) @ le_bytes 4 (ch_VmdkFileCached h) @
     le_bytes 8 (ch_VmdkFileSize h) @ le_bytes 8 (ch_pVmdkFile h) @
     le_bytes 4 (ch_VhdFileHeaderCached h) @ le_bytes 8 (ch_pVhdFileHeader h) @
     pad 432 (ch_HeaderPadding h)"

definition dec_cache_header :: "bytes \<Rightarrow> cache_header" where
  "dec_cache_header b =
     \<lparr>ch_FileSignature = le_at 0 8 b, ch_CacheFileVersion = le_at 8 4 b,
      ch_BlockSize = le_at 12 8 b, ch_BlockCount = le_at 20 8 b,
      ch_pBlockIndex = le_at 28 8 b, ch_VdiFileHeaderCached = le_at 36 4 b,
      ch_pVdiFileHeader = le_at 40 8 b, ch_VmdkFileCached = le_at 48 4 b,
      ch_VmdkFileSize = le_at 52 8 b, ch_pVmdkFile = le_at 60 8 b,
      ch_VhdFileHeaderCached = le_at 68 4 b, ch_pVhdFileHeader = le_at 72 8 b,
      ch_HeaderPadding = pad 432 (segment 80 432 b)\<rparr>"

definition blkidx_wf :: "cache_blkidx \<Rightarrow> bool" where
  "blkidx_wf e \<longleftrightarrow> bi_Assigned e < 2 ^ 32 \<and> bi_off_data e < 2 ^ 64"

definition cache_header_wf :: "cache_header \<Rightarrow> bool" where
  "cache_header_wf h \<longleftrightarrow>
     ch_FileSignature h < 2 ^ 64 \<and> ch_CacheFileVersion h < 2 ^ 32 \<and>
     ch_BlockSize h < 2 ^ 64 \<and> ch_BlockCount h < 2 ^ 64 \<and> ch_pBlockIndex h < 2 ^ 64 \<and>
     ch_VdiFileHeaderCached h < 2 ^ 32 \<and> ch_pVdiFileHeader h < 2 ^ 64 \<and>
     ch_VmdkFileCached h < 2 ^ 32 \<and> ch_VmdkFileSize h < 2 ^ 64 \<and> ch_pVmdkFile h < 2 ^ 64 \<and>
     ch_VhdFileHeaderCached h < 2 ^ 32 \<and> ch_pVhdFileHeader h < 2 ^ 64 \<and>
     length (ch_HeaderPadding h) = 432"

lemma length_enc_blkidx [simp]: "length (enc_blkidx e) = 12"
  by (simp add: enc_blkidx_def)

lemma length_enc_cache_header [simp]: "length (enc_cache_header h) = 512"
  by (simp add: enc_cache_header_def)

lemma dec_enc_blkidx: "blkidx_wf e \<Longrightarrow> dec_blkidx (enc_blkidx e @ rest) = e"
  by (simp add: dec_blkidx_def enc_blkidx_def blkidx_wf_def le_at_skip
      le_val_le_bytes)

lemma dec_enc_cache_header:
  "cache_header_wf h \<Longrightarrow> dec_cache_header (enc_cache_header h @ rest) = h"
  by (simp add: dec_cache_header_def enc_cache_header_def cache_header_wf_def
      le_at_skip le_val_le_bytes segment_def)

section \<open>glob_xmount\<close>

datatype VirtImageType =
    VirtImageType_DD
  | VirtImageType_DMG
  | VirtImageType_VDI
  | VirtImageType_VMDK
  | VirtImageType_VMDKS
  | VirtImageType_VHD

definition is_vmdk :: "VirtImageType \<Rightarrow> bool" where
  "is_vmdk t \<longleftrightarrow> t = VirtImageType_VMDK \<or> t = VirtImageType_VMDKS"

text \<open>\<open>ts_LibXmountOptions\<close>: one key=value pair of \<open>--inopts\<close> or \<open>--morphopts\<close>.\<close>

record lib_option =
  lo_key :: string
  lo_value :: string
  lo_valid :: bool

record input_image =
  ii_type :: string
  ii_files :: "string list"
  ii_Read :: "nat \<Rightarrow> nat \<Rightarrow> read_res option"
  ii_size :: nat

record input_data =
  in_lib_params :: "lib_option list option"
  in_images :: "input_image list"
  in_image_offset :: nat
  in_image_size_limit :: nat
  in_image_hash_lo :: nat
  in_image_hash_hi :: nat

record morphing_data =
  mo_morph_type :: "string option"
  mo_lib_params :: "lib_option list option"
  mo_Size :: "int \<times> nat"
  mo_Read :: "nat \<Rightarrow> nat \<Rightarrow> read_res option"

record cache_data =
  ca_cache_file :: "string option"
  ca_h_cache_file :: "cfile option"
  ca_overwrite_cache :: bool
  ca_header :: cache_header
  ca_blkidx :: "cache_blkidx list"

record vdi_data =
  vdi_header_size :: nat
  vdi_header :: bytes
  vdi_block_map_size :: nat

record vmdk_data =
  vm_virtual_vmdk_path :: "string option"
  vm_vmdk_file :: bytes
  vm_vmdk_file_size :: int
  vm_lockdir1 :: "string option"
  vm_lockdir2 :: "string option"
  vm_lockfile_data :: bytes
  vm_lockfile_size :: int
  vm_lockfile_name :: "string option"

record output_data =
  out_VirtImageType :: VirtImageType
  out_image_size :: nat
  out_writable :: bool
  out_virtual_image_path :: string
  out_info_path :: string
  out_info_file :: "string option"
  out_vdi :: vdi_data
  out_vhd_header :: bytes
  out_vmdk :: vmdk_data

record xmount_data =
  x_input :: input_data
  x_morphing :: morphing_data
  x_cache :: cache_data
  x_output :: output_data
  x_debug :: bool
  x_may_set_fuse_allow_other :: bool
  x_fuse_argv :: "string list"
  x_mountpoint :: "string option"

text \<open>Updates of one struct inside the global.\<close>

definition upd_cache :: "(cache_data \<Rightarrow> cache_data) \<Rightarrow> xmount_data \<Rightarrow> xmount_data" where
  "upd_cache f g = g\<lparr>x_cache := f (x_cache g)\<rparr>"

definition upd_output :: "(output_data \<Rightarrow> output_data) \<Rightarrow> xmount_data \<Rightarrow> xmount_data" where
  "upd_output f g = g\<lparr>x_output := f (x_output g)\<rparr>"

definition upd_vmdk :: "(vmdk_data \<Rightarrow> vmdk_data) \<Rightarrow> xmount_data \<Rightarrow> xmount_data" where
  "upd_vmdk f g = upd_output (\<lambda>od. od\<lparr>out_vmdk := f (out_vmdk od)\<rparr>) g"

lemma upd_cache_sel [simp]:
  "x_cache (upd_cache f g) = f (x_cache g)"
  "x_input (upd_cache f g) = x_input g" "x_morphing (upd_cache f g) = x_morphing g"
  "x_output (upd_cache f g) = x_output g" "x_debug (upd_cache f g) = x_debug g"
  by (simp_all add: upd_cache_def)

lemma upd_output_sel [simp]:
  "x_output (upd_output f g) = f (x_output g)"
  "x_input (upd_output f g) = x_input g" "x_morphing (upd_output f g) = x_morphing g"
  "x_cache (upd_output f g) = x_cache g" "x_debug (upd_output f g) = x_debug g"
  by (simp_all add: upd_output_def)

lemma upd_vmdk_sel [simp]:
  "x_output (upd_vmdk f g) = (x_output g)\<lparr>out_vmdk := f (out_vmdk (x_output g))\<rparr>"
  "x_input (upd_vmdk f g) = x_input g" "x_morphing (upd_vmdk f g) = x_morphing g"
  "x_cache (upd_vmdk f g) = x_cache g"
  by (simp_all add: upd_vmdk_def)

section \<open>InitResources\<close>

definition InitResources :: xmount_data where
  "InitResources =
     \<lparr>x_input = \<lparr>in_lib_params = None, in_images = [], in_image_offset = 0,
        in_image_size_limit = 0, in_image_hash_lo = 0, in_image_hash_hi = 0\<rparr>,
      x_morphing = \<lparr>mo_morph_type = None, mo_lib_params = None,
        mo_Size = (1, 0), mo_Read = (\<lambda>_ _. None)\<rparr>,
      x_cache = \<lparr>ca_cache_file = None, ca_h_cache_file = None, ca_overwrite_cache = False,
        ca_header = dec_cache_header [], ca_blkidx = []\<rparr>,
      x_output = \<lparr>out_VirtImageType = VirtImageType_DD, out_image_size = 0,
        out_writable = False, out_virtual_image_path = [], out_info_path = [],
        out_info_file = None,
        out_vdi = \<lparr>vdi_header_size = 0, vdi_header = [], vdi_block_map_size = 0\<rparr>,
        out_vhd_header = [],
        out_vmdk = \<lparr>vm_virtual_vmdk_path = None, vm_vmdk_file = [], vm_vmdk_file_size = 0,
          vm_lockdir1 = None, vm_lockdir2 = None, vm_lockfile_data = [],
          vm_lockfile_size = 0, vm_lockfile_name = None\<rparr>\<rparr>,
      x_debug = False, x_may_set_fuse_allow_other = False, x_fuse_argv = [],
      x_mountpoint = None\<rparr>"

end
