(* ===== verification/XmountInput.thy ===== *)
theory XmountInput
  imports XState
begin

text \<open>
  Access to the input images in \<open>src/src/xmount.c\<close>: \<open>GetInputImageData\<close>, which clips
  a read at the end of the image and adds the \<open>--offset\<close>, and the three functions
  \<open>LibXmount_Morphing_*\<close> that xmount hands to a morphing library. They keep the contract
  \<open>input_images\<close> whenever the input libraries keep theirs.
\<close>

section \<open>Operations\<close>

definition GetInputImageData ::
  "xmount_data \<Rightarrow> input_image \<Rightarrow> nat \<Rightarrow> nat \<Rightarrow> read_res option" where
  "GetInputImageData g img offset n =
     (if offset \<ge> ii_size img then Some (rd_ok [])
      else let to_read = (if u64 (offset + n) > ii_size img
                          then ii_size img - offset else n) in
      (case ii_Read img (u64 (offset + in_image_offset (x_input g))) to_read of
         None \<Rightarrow> None
       | Some r \<Rightarrow>
           (if rr_ret r \<noteq> 0
            then Some (rd_err (if rr_errno r = 0 then - EIO else rr_errno r * (-1)))
            else Some (r\<lparr>rr_errno := 0\<rparr>))))"

definition LibXmount_Morphing_ImageCount :: "xmount_data \<Rightarrow> int \<times> nat" where
  "LibXmount_Morphing_ImageCount g = (0, length (in_images (x_input g)))"

definition LibXmount_Morphing_Size :: "xmount_data \<Rightarrow> nat \<Rightarrow> int \<times> nat" where
  "LibXmount_Morphing_Size g img =
     (if img \<ge> length (in_images (x_input g)) then (-1, 0)
      else (0, ii_size (in_images (x_input g) ! img)))"

definition LibXmount_Morphing_Read ::
  "xmount_data \<Rightarrow> nat \<Rightarrow> nat \<Rightarrow> nat \<Rightarrow> read_res option" where
  "LibXmount_Morphing_Read g img offset count =
     (if img \<ge> length (in_images (x_input g)) then Some (rd_err (- EIO))
      else GetInputImageData g (in_images (x_input g) ! img) offset count)"

definition input_image_functions :: "xmount_data \<Rightarrow> morph_input" where
  "input_image_functions g =
     \<lparr>mi_ImageCount = LibXmount_Morphing_ImageCount g,
      mi_Size = LibXmount_Morphing_Size g,
      mi_Read = LibXmount_Morphing_Read g\<rparr>"

section \<open>Input images whose library keeps its contract\<close>

text \<open>
  The image as the library sees it has the contents \<open>d\<close>; xmount shows the part of it
  from the \<open>--offset\<close> on, \<open>ii_size\<close> bytes of it.
\<close>

definition lib_image_ok :: "input_image \<Rightarrow> bytes \<Rightarrow> bool" where
  "lib_image_ok img d \<longleftrightarrow> length d < 2 ^ 63 \<and>
     (\<forall>off n. 0 < n \<and> n < 4294967296 \<and> off + n \<le> length d \<longrightarrow>
        ii_Read img off n = Some (rd_ok (segment off n d)))"

definition image_part :: "xmount_data \<Rightarrow> input_image \<Rightarrow> bytes \<Rightarrow> bytes" where
  "image_part g img d = segment (in_image_offset (x_input g)) (ii_size img) d"

definition image_fits :: "xmount_data \<Rightarrow> input_image \<Rightarrow> bytes \<Rightarrow> bool" where
  "image_fits g img d \<longleftrightarrow>
     lib_image_ok img d \<and> in_image_offset (x_input g) + ii_size img \<le> length d"

lemma image_part_length:
  "image_fits g img d \<Longrightarrow> length (image_part g img d) = ii_size img"
  by (auto simp: image_fits_def image_part_def)

lemma GetInputImageData_in_range:
  assumes fits: "image_fits g img d" and n: "0 < n" "n < 4294967296"
    and range: "off + n \<le> ii_size img"
  shows "GetInputImageData g img off n = Some (rd_ok (segment off n (image_part g img d)))"
proof -
  let ?io = "in_image_offset (x_input g)"
  have lib: "ii_Read img o' m = Some (rd_ok (segment o' m d))"
    if "0 < m" "m < 4294967296" "o' + m \<le> length d" for o' m
    using fits that by (simp add: image_fits_def lib_image_ok_def)
  have len: "?io + ii_size img \<le> length d" "length d < 2 ^ 63"
    using fits by (auto simp: image_fits_def lib_image_ok_def)
  have w: "u64 (off + n) = off + n" "u64 (off + ?io) = off + ?io"
    using len range by (auto intro!: u64_small)
  have r: "ii_Read img (off + ?io) n = Some (rd_ok (segment (off + ?io) n d))"
    using lib n len range by simp
  have s: "segment (off + ?io) n d = segment off n (image_part g img d)"
    using range by (simp add: image_part_def segment_segment add.commute)
  show ?thesis
    using n range r by (simp add: GetInputImageData_def w Let_def s rd_ok_def)
qed

text \<open>The clipping at the end of the image: the tail of the image, or nothing behind it.\<close>

lemma GetInputImageData_clips:
  assumes fits: "image_fits g img d" and n: "0 < n" "n < 4294967296"
    and off: "off < ii_size img"
  shows "GetInputImageData g img off n =
           Some (rd_ok (segment off (min n (ii_size img - off)) (image_part g img d)))"
proof (cases "off + n \<le> ii_size img")
  case True
  then show ?thesis using GetInputImageData_in_range [OF fits n True] by (simp add: min_def)
next
  case False
  let ?m = "ii_size img - off"
  have len: "ii_size img \<le> length d" "length d < 2 ^ 63"
    using fits by (auto simp: image_fits_def lib_image_ok_def)
  have "u64 (off + n) = off + n" "u64 (off + ?m) = off + ?m"
    using len off n by (auto intro!: u64_small)
  then have "GetInputImageData g img off n = GetInputImageData g img off ?m"
    using False off by (simp add: GetInputImageData_def Let_def)
  also have "\<dots> = Some (rd_ok (segment off ?m (image_part g img d)))"
    using GetInputImageData_in_range [OF fits, of ?m off] off n False by simp
  finally show ?thesis using False by (simp add: min.absorb2)
qed

section \<open>xmount provides the input_images contract\<close>

type_synonym provider = "xmount_data \<times> bytes list"

definition provider_inv :: "provider \<Rightarrow> bool" where
  "provider_inv p \<longleftrightarrow> (case p of (g, ds) \<Rightarrow>
     list_all2 (image_fits g) (in_images (x_input g)) ds \<and>
     sum_list (map ii_size (in_images (x_input g))) < 2 ^ 63 \<and>
     length (in_images (x_input g)) < 2 ^ 32)"

definition provider_funs :: "provider \<Rightarrow> morph_input" where
  "provider_funs p = input_image_functions (fst p)"

definition provider_images :: "provider \<Rightarrow> bytes list" where
  "provider_images p = map2 (image_part (fst p)) (in_images (x_input (fst p))) (snd p)"

lemma provider_images_length:
  assumes "provider_inv p"
  shows "length (provider_images p) = length (in_images (x_input (fst p)))"
    and "map length (provider_images p) = map ii_size (in_images (x_input (fst p)))"
proof -
  obtain g ds where p: "p = (g, ds)" by (cases p)
  have "list_all2 (image_fits g) (in_images (x_input g)) ds"
    using assms by (simp add: provider_inv_def p)
  then have *: "length (in_images (x_input g)) = length ds"
    "\<forall>i < length ds. image_fits g (in_images (x_input g) ! i) (ds ! i)"
    by (auto simp: list_all2_conv_all_nth)
  show "length (provider_images p) = length (in_images (x_input (fst p)))"
    using * by (simp add: provider_images_def p)
  show "map length (provider_images p) = map ii_size (in_images (x_input (fst p)))"
    using * by (intro nth_equalityI) (auto simp: provider_images_def p image_part_length)
qed

lemma provider_image_nth:
  assumes "provider_inv (g, ds)" "i < length (in_images (x_input g))"
  shows "image_fits g (in_images (x_input g) ! i) (ds ! i)"
    and "provider_images (g, ds) ! i = image_part g (in_images (x_input g) ! i) (ds ! i)"
  using assms by (auto simp: provider_inv_def provider_images_def list_all2_conv_all_nth)

interpretation xin: input_images provider_inv provider_funs provider_images
proof unfold_locales
  fix p :: provider and i n off
  assume inv: "provider_inv p"
  obtain g ds where p: "p = (g, ds)" by (cases p)
  note len = provider_images_length [OF inv]
  show "mi_ImageCount (provider_funs p) = (0, length (provider_images p))"
    using len by (simp add: provider_funs_def input_image_functions_def
        LibXmount_Morphing_ImageCount_def)
  show "length (provider_images p) < 2 ^ 32"
    using len inv by (simp add: provider_inv_def p)
  show "length (concat (provider_images p)) < 2 ^ 63"
    using inv len(2) by (simp add: length_concat provider_inv_def p)
  show "fst (mi_Size (provider_funs p) i) \<noteq> 0" if "length (provider_images p) \<le> i"
    using that len by (simp add: provider_funs_def input_image_functions_def
        LibXmount_Morphing_Size_def)
  assume i: "i < length (provider_images p)"
  then have i': "i < length (in_images (x_input g))" using len p by simp
  note nth = provider_image_nth [OF inv [unfolded p] i']
  have l: "length (provider_images p ! i) = ii_size (in_images (x_input g) ! i)"
    using nth by (simp add: p image_part_length)
  show "mi_Size (provider_funs p) i = (0, length (provider_images p ! i))"
    using i' l by (simp add: provider_funs_def input_image_functions_def
        LibXmount_Morphing_Size_def p)
  show "mi_Read (provider_funs p) i off n = Some (rd_ok [])"
    if "length (provider_images p ! i) \<le> off"
    using that i' l by (simp add: provider_funs_def input_image_functions_def
        LibXmount_Morphing_Read_def GetInputImageData_def p)
  assume n: "0 < n" "n < 4294967296" "off + n \<le> length (provider_images p ! i)"
  show "mi_Read (provider_funs p) i off n = Some (rd_ok (segment off n (provider_images p ! i)))"
    using GetInputImageData_in_range [OF nth(1) n(1,2)] n(3) l i' nth(2)
    by (simp add: provider_funs_def input_image_functions_def LibXmount_Morphing_Read_def p)
qed

text \<open>An image number out of range is refused by both functions.\<close>

lemma LibXmount_Morphing_out_of_range:
  assumes "length (in_images (x_input g)) \<le> i"
  shows "fst (LibXmount_Morphing_Size g i) = -1"
    and "LibXmount_Morphing_Read g i off n = Some (rd_err (-5))"
  using assms by (simp_all add: LibXmount_Morphing_Size_def LibXmount_Morphing_Read_def)

section \<open>A library that keeps the image_reader contract gives a good input image\<close>

definition loaded_image ::
  "string \<Rightarrow> string list \<Rightarrow> int \<times> nat \<Rightarrow> (nat \<Rightarrow> nat \<Rightarrow> read_res option) \<Rightarrow> input_image" where
  "loaded_image ty files sz rd =
     \<lparr>ii_type = ty, ii_files = files, ii_Read = rd, ii_size = snd sz\<rparr>"

context image_reader begin

lemma loaded_image_ok:
  "rd_inv h \<Longrightarrow> lib_image_ok (loaded_image ty files (rd_size h) (rd_read h)) (rd_contents h)"
  using rd_bound_law [of h] rd_read_law [of h]
  by (auto simp: lib_image_ok_def loaded_image_def)

lemma loaded_image_size:
  "rd_inv h \<Longrightarrow>
   ii_size (loaded_image ty files (rd_size h) (rd_read h)) = length (rd_contents h)"
  by (simp add: loaded_image_def rd_size_law)

end

section \<open>Images held in memory\<close>

text \<open>A concrete instance of the input libraries' contract, for the witnesses.\<close>

definition mem_image :: "bytes \<Rightarrow> input_image" where
  "mem_image d = loaded_image ''mem'' [] (0, length d)
     (\<lambda>off n. Some (if off + n \<le> length d then rd_ok (segment off n d) else rd_err 1))"

definition mem_state :: "bytes list \<Rightarrow> xmount_data" where
  "mem_state ds = InitResources\<lparr>x_input :=
     \<lparr>in_lib_params = None, in_images = map mem_image ds, in_image_offset = 0,
      in_image_size_limit = 0, in_image_hash_lo = 0, in_image_hash_hi = 0\<rparr>\<rparr>"

lemma mem_state_input [simp]:
  "in_images (x_input (mem_state ds)) = map mem_image ds"
  "in_image_offset (x_input (mem_state ds)) = 0"
  by (simp_all add: mem_state_def)

lemma ii_size_mem_image [simp]: "ii_size (mem_image d) = length d"
  by (simp add: mem_image_def loaded_image_def)

lemma mem_image_fits: "length d < 2 ^ 63 \<Longrightarrow> image_fits (mem_state ds) (mem_image d) d"
  by (simp add: image_fits_def lib_image_ok_def mem_image_def loaded_image_def)

lemma mem_provider_inv:
  assumes "length (concat ds) < 2 ^ 63" "length ds < 2 ^ 32"
  shows "provider_inv (mem_state ds, ds)"
proof -
  have "length d < 2 ^ 63" if "d \<in> set ds" for d
    using member_le_sum_list [of "length d" "map length ds"] that assms(1)
    by (simp add: length_concat)
  then have "list_all2 (image_fits (mem_state ds)) (map mem_image ds) ds"
    by (auto simp: list_all2_conv_all_nth intro!: mem_image_fits)
  then show ?thesis
    using assms by (simp add: provider_inv_def length_concat comp_def)
qed

lemma mem_provider_images [simp]: "provider_images (mem_state ds, ds) = ds"
  by (auto simp: provider_images_def image_part_def segment_all intro!: nth_equalityI)

section \<open>Properties\<close>

text \<open>A read through \<open>GetInputImageData\<close> returns the bytes of the image from the
  \<open>--offset\<close> on, clipped at the image's end; at or behind the end it returns nothing.\<close>

theorem input_read_clipped:
  assumes "image_fits g img d" "0 < n" "n < 4294967296"
  shows "GetInputImageData g img off n = Some (rd_ok (segment off n (image_part g img d)))"
proof (cases "off < ii_size img")
  case True
  have "segment off (min n (ii_size img - off)) (image_part g img d) =
      segment off n (image_part g img d)"
    using image_part_length [OF assms(1)] by (simp add: segment_def min_def)
  then show ?thesis using GetInputImageData_clips [OF assms True] by simp
next
  case False
  then have "segment off n (image_part g img d) = []"
    using image_part_length [OF assms(1)] by (simp add: segment_def)
  then show ?thesis using False by (simp add: GetInputImageData_def)
qed

lemma input_read_clipped_witness:
  "GetInputImageData (mem_state [[1, 2, 3]]) (mem_image [1, 2, 3]) 1 9 = Some (rd_ok [2, 3])"
  using input_read_clipped [OF mem_image_fits [of "[1, 2, 3]" "[[1, 2, 3]]"], of 9 1]
  by (simp add: image_part_def segment_def)

end
