(* ===== verification/MorphCombine.thy ===== *)
theory MorphCombine
  imports XmountInput
begin

text \<open>
  The morphing library \<open>libxmount_morphing_combine\<close>: the morphed image is the input
  images one after the other. \<open>CombineMorph\<close> adds up the sizes, \<open>CombineRead\<close> looks for
  the first image of a read and then reads piece by piece.
\<close>

section \<open>Operations\<close>

definition COMBINE_OK :: int where "COMBINE_OK = 0"
definition COMBINE_MEMALLOC_FAILED :: int where "COMBINE_MEMALLOC_FAILED = 1"
definition COMBINE_CANNOT_GET_IMAGECOUNT :: int where "COMBINE_CANNOT_GET_IMAGECOUNT = 2"
definition COMBINE_CANNOT_GET_IMAGESIZE :: int where "COMBINE_CANNOT_GET_IMAGESIZE = 3"
definition COMBINE_READ_BEYOND_END_OF_IMAGE :: int where
  "COMBINE_READ_BEYOND_END_OF_IMAGE = 4"
definition COMBINE_CANNOT_READ_DATA :: int where "COMBINE_CANNOT_READ_DATA = 5"

lemmas combine_codes =
  COMBINE_OK_def COMBINE_MEMALLOC_FAILED_def COMBINE_CANNOT_GET_IMAGECOUNT_def
  COMBINE_CANNOT_GET_IMAGESIZE_def COMBINE_READ_BEYOND_END_OF_IMAGE_def
  COMBINE_CANNOT_READ_DATA_def

record combine_handle =
  cb_debug :: bool
  cb_input_images_count :: nat
  cb_input_functions :: "morph_input option"
  cb_morphed_image_size :: nat

definition CombineCreateHandle :: "bool \<Rightarrow> combine_handle" where
  "CombineCreateHandle debug =
     \<lparr>cb_debug = debug, cb_input_images_count = 0, cb_input_functions = None,
      cb_morphed_image_size = 0\<rparr>"

text \<open>The loop over the images \<open>i\<close>, \<open>i + 1\<close>, ... that adds up their sizes;
  \<open>k\<close> images are left.\<close>

fun CombineMorph_loop :: "morph_input \<Rightarrow> nat \<Rightarrow> nat \<Rightarrow> nat \<Rightarrow> int \<times> nat" where
  "CombineMorph_loop m i 0 tot = (COMBINE_OK, tot)"
| "CombineMorph_loop m i (Suc k) tot =
     (case mi_Size m i of (ret, input_image_size) \<Rightarrow>
        if ret \<noteq> 0 then (COMBINE_CANNOT_GET_IMAGESIZE, tot)
        else CombineMorph_loop m (Suc i) k (u64 (tot + input_image_size)))"

definition CombineMorph :: "combine_handle \<Rightarrow> morph_input \<Rightarrow> int \<times> combine_handle" where
  "CombineMorph h m =
     (let h1 = h\<lparr>cb_input_functions := Some m\<rparr> in
      case mi_ImageCount m of (ret, count) \<Rightarrow>
        let h2 = h1\<lparr>cb_input_images_count := count\<rparr> in
        if ret \<noteq> 0 then (COMBINE_CANNOT_GET_IMAGECOUNT, h2)
        else case CombineMorph_loop m 0 count (cb_morphed_image_size h) of (ret, tot) \<Rightarrow>
          (ret, h2\<lparr>cb_morphed_image_size := tot\<rparr>))"

definition CombineSize :: "combine_handle \<Rightarrow> int \<times> nat" where
  "CombineSize h = (COMBINE_OK, cb_morphed_image_size h)"

text \<open>The search for the first image of a read. It has no bound of its own: it ends where
  \<open>Size\<close> fails, so \<open>None\<close> is a search that does not end.\<close>

partial_function (option) CombineRead_seek ::
  "morph_input \<Rightarrow> nat \<Rightarrow> nat \<Rightarrow> (int \<times> nat \<times> nat) option" where
  "CombineRead_seek m cur_input_image cur_offset =
     (case mi_Size m cur_input_image of (ret, cur_input_image_size) \<Rightarrow>
        if ret = 0 \<and> cur_offset \<ge> cur_input_image_size
        then CombineRead_seek m (u64 (cur_input_image + 1)) (cur_offset - cur_input_image_size)
        else Some (ret, cur_input_image, cur_offset))"

function CombineRead_loop ::
  "morph_input \<Rightarrow> nat \<Rightarrow> nat \<Rightarrow> nat \<Rightarrow> nat \<Rightarrow> bytes \<Rightarrow> nat \<Rightarrow> read_res option" where
  "CombineRead_loop m images_count cur_input_image cur_offset count buf nread =
     (if cur_input_image < images_count \<and> count \<noteq> 0 then
        (case mi_Size m cur_input_image of (ret, cur_input_image_size) \<Rightarrow>
          if ret \<noteq> 0 then
            Some \<lparr>rr_ret = COMBINE_CANNOT_GET_IMAGESIZE, rr_buf = buf, rr_read = nread, rr_errno = 0\<rparr>
          else
            let cur_count = (if u64 (cur_offset + count) > cur_input_image_size
                             then sub64 cur_input_image_size cur_offset else count) in
            (case mi_Read m cur_input_image cur_offset cur_count of
               None \<Rightarrow> None
             | Some r \<Rightarrow>
                 if rr_ret r \<noteq> 0 \<or> rr_read r \<noteq> cur_count then
                   Some \<lparr>rr_ret = COMBINE_CANNOT_READ_DATA, rr_buf = buf @ rr_buf r,
                         rr_read = nread, rr_errno = 0\<rparr>
                 else CombineRead_loop m images_count (cur_input_image + 1) 0
                        (sub64 count cur_count) (buf @ pad cur_count (rr_buf r))
                        (u64 (nread + cur_count))))
      else
        Some \<lparr>rr_ret = (if count \<noteq> 0 then COMBINE_CANNOT_READ_DATA else COMBINE_OK),
              rr_buf = buf, rr_read = nread, rr_errno = 0\<rparr>)"
  by pat_completeness auto
termination
  by (relation "measure (\<lambda>(m, images_count, cur_input_image, _). images_count - cur_input_image)") auto

declare CombineRead_loop.simps [simp del]

definition CombineRead :: "combine_handle \<Rightarrow> nat \<Rightarrow> nat \<Rightarrow> read_res option" where
  "CombineRead h offset count =
     (if offset \<ge> cb_morphed_image_size h \<or> u64 (offset + count) > cb_morphed_image_size h
      then Some (rd_err COMBINE_READ_BEYOND_END_OF_IMAGE)
      else case cb_input_functions h of
        None \<Rightarrow> None
      | Some m \<Rightarrow>
          (case CombineRead_seek m 0 offset of
             None \<Rightarrow> None
           | Some (ret, cur_input_image, cur_offset) \<Rightarrow>
               if ret \<noteq> 0 then Some (rd_err COMBINE_CANNOT_GET_IMAGESIZE)
               else CombineRead_loop m (cb_input_images_count h) cur_input_image cur_offset
                      count [] 0))"

section \<open>The library over functions that keep the input_images contract\<close>

context input_images begin

lemma CombineMorph_loop_total:
  assumes g: "in_inv g"
  shows "i + k = length (in_images g) \<Longrightarrow>
     tot + length (concat (drop i (in_images g))) < 2 ^ 63 \<Longrightarrow>
     CombineMorph_loop (in_funs g) i k tot =
       (COMBINE_OK, tot + length (concat (drop i (in_images g))))"
proof (induction k arbitrary: i tot)
  case 0
  then show ?case by simp
next
  case (Suc k)
  have i: "i < length (in_images g)" using Suc.prems by simp
  note l = length_concat_drop [OF i]
  have "u64 (tot + length (in_images g ! i)) = tot + length (in_images g ! i)"
    using Suc.prems l by (intro u64_small) simp
  then show ?case
    using Suc.IH [of "Suc i" "tot + length (in_images g ! i)"] Suc.prems l
    by (simp add: in_size_law [OF g i])
qed

lemma CombineMorph_ok:
  assumes g: "in_inv g"
  shows "CombineMorph (CombineCreateHandle d) (in_funs g) =
     (COMBINE_OK, \<lparr>cb_debug = d, cb_input_images_count = length (in_images g),
       cb_input_functions = Some (in_funs g),
       cb_morphed_image_size = length (concat (in_images g))\<rparr>)"
  using CombineMorph_loop_total [OF g, of 0 "length (in_images g)" 0] in_bound_law [OF g]
  by (simp add: CombineMorph_def CombineCreateHandle_def in_count_law [OF g] combine_codes)

text \<open>The search ends in the image that holds the offset.\<close>

lemma CombineRead_seek_finds:
  assumes g: "in_inv g"
  shows "i \<le> length (in_images g) \<Longrightarrow> off < length (concat (drop i (in_images g))) \<Longrightarrow>
    \<exists>j off'. CombineRead_seek (in_funs g) i off = Some (0, j, off') \<and>
      j < length (in_images g) \<and> off' < length (in_images g ! j) \<and>
      (\<forall>n. segment off n (concat (drop i (in_images g))) =
           segment off' n (concat (drop j (in_images g)))) \<and>
      off' + length (concat (drop i (in_images g))) =
        off + length (concat (drop j (in_images g)))"
proof (induction "length (in_images g) - i" arbitrary: i off)
  case 0
  then show ?case by simp
next
  case (Suc k)
  have i: "i < length (in_images g)" using Suc.hyps(2) by simp
  note l = length_concat_drop [OF i]
  show ?case
  proof (cases "off < length (in_images g ! i)")
    case True
    then show ?thesis using i
      by (subst CombineRead_seek.simps) (auto simp: in_size_law [OF g i])
  next
    case False
    let ?off = "off - length (in_images g ! i)"
    have u: "u64 (Suc i) = Suc i"
      using in_count_bound_law [OF g] i by (simp add: u64_small)
    have step: "CombineRead_seek (in_funs g) i off = CombineRead_seek (in_funs g) (Suc i) ?off"
      using False by (subst CombineRead_seek.simps) (simp add: in_size_law [OF g i] u)
    have seg: "segment off n (concat (drop i (in_images g))) =
      segment ?off n (concat (drop (Suc i) (in_images g)))" for n
      using False i by (simp add: Cons_nth_drop_Suc [symmetric] segment_append_right)
    have "\<exists>j off'. CombineRead_seek (in_funs g) (Suc i) ?off = Some (0, j, off') \<and>
      j < length (in_images g) \<and> off' < length (in_images g ! j) \<and>
      (\<forall>n. segment ?off n (concat (drop (Suc i) (in_images g))) =
           segment off' n (concat (drop j (in_images g)))) \<and>
      off' + length (concat (drop (Suc i) (in_images g))) =
        ?off + length (concat (drop j (in_images g)))"
      using Suc.hyps(2) Suc.prems False l i by (intro Suc.hyps(1)) auto
    then show ?thesis using False l seg step by fastforce
  qed
qed

lemma CombineRead_loop_reads:
  assumes g: "in_inv g"
  shows "i \<le> length (in_images g) \<Longrightarrow>
    (off = 0 \<or> i < length (in_images g) \<and> off < length (in_images g ! i)) \<Longrightarrow>
    n < 4294967296 \<Longrightarrow> nread + n < 2 ^ 63 \<Longrightarrow>
    off + n \<le> length (concat (drop i (in_images g))) \<Longrightarrow>
    CombineRead_loop (in_funs g) (length (in_images g)) i off n buf nread =
      Some \<lparr>rr_ret = COMBINE_OK, rr_buf = buf @ segment off n (concat (drop i (in_images g))),
            rr_read = nread + n, rr_errno = 0\<rparr>"
proof (induction "length (in_images g) - i" arbitrary: i off n buf nread)
  case 0
  then show ?case by (subst CombineRead_loop.simps) simp
next
  case (Suc k)
  have i: "i < length (in_images g)" using Suc.hyps(2) by simp
  let ?img = "in_images g ! i"
  note l = length_concat_drop [OF i]
  note b = image_length_bound [OF g i]
  show ?case
  proof (cases "n = 0")
    case True
    then show ?thesis by (subst CombineRead_loop.simps) simp
  next
    case n: False
    define m where "m = min n (length ?img - off)"
    have off: "off \<le> length ?img" using Suc.prems(2) by auto
    have u: "u64 (off + n) = off + n" "sub64 (length ?img) off = length ?img - off"
      "sub64 n m = n - m" "u64 (nread + m) = nread + m"
      using b off Suc.prems(3,4) by (auto simp: m_def intro!: width_simps)
    have cc: "(if length ?img < off + n then sub64 (length ?img) off else n) = m"
      using off by (auto simp: m_def u)
    have rd: "mi_Read (in_funs g) i off m = Some (rd_ok (segment off m ?img))"
    proof (cases "m = 0")
      case True
      then have "length ?img \<le> off" using n by (auto simp: m_def)
      with True show ?thesis by (simp add: in_eof_law [OF g i])
    next
      case False
      then show ?thesis using Suc.prems(3) off
        by (intro in_read_law [OF g i]) (auto simp: m_def)
    qed
    have lm: "length (segment off m ?img) = m" by (simp add: m_def)
    have step: "CombineRead_loop (in_funs g) (length (in_images g)) i off n buf nread =
      CombineRead_loop (in_funs g) (length (in_images g)) (Suc i) 0 (n - m)
        (buf @ segment off m ?img) (nread + m)"
      using n i lm
      by (subst CombineRead_loop.simps) (simp add: in_size_law [OF g i] cc rd u Let_def)
    also have "\<dots> = Some \<lparr>rr_ret = COMBINE_OK,
       rr_buf = (buf @ segment off m ?img) @ segment 0 (n - m) (concat (drop (Suc i) (in_images g))),
       rr_read = (nread + m) + (n - m), rr_errno = 0\<rparr>"
      using Suc.hyps(2) Suc.prems i l by (intro Suc.hyps(1)) (auto simp: m_def)
    also have "(buf @ segment off m ?img) @ segment 0 (n - m) (concat (drop (Suc i) (in_images g))) =
      buf @ segment off n (concat (drop i (in_images g)))"
    proof (cases "off < length ?img")
      case True
      then have "n - m = n - (length ?img - off)" by (auto simp: m_def)
      then show ?thesis
        by (simp add: segment_concat_first [OF i True] m_def)
    next
      case False
      then have "off = 0" "?img = []" using Suc.prems(2) by auto
      then show ?thesis using i by (simp add: m_def Cons_nth_drop_Suc [symmetric])
    qed
    also have "nread + m + (n - m) = nread + n" by (simp add: m_def)
    finally show ?thesis .
  qed
qed

lemma CombineRead_reads:
  assumes g: "in_inv g"
    and h: "cb_input_functions h = Some (in_funs g)"
      "cb_input_images_count h = length (in_images g)"
      "cb_morphed_image_size h = length (concat (in_images g))"
    and n: "0 < n" "n < 4294967296" and range: "off + n \<le> length (concat (in_images g))"
  shows "CombineRead h off n = Some (rd_ok (segment off n (concat (in_images g))))"
proof -
  have bound: "length (concat (in_images g)) < 2 ^ 63" by (rule in_bound_law [OF g])
  have u: "u64 (off + n) = off + n" using bound range by (simp add: u64_small)
  have "off < length (concat (drop 0 (in_images g)))" using n range by simp
  from CombineRead_seek_finds [OF g _ this]
  obtain j off' where seek: "CombineRead_seek (in_funs g) 0 off = Some (0, j, off')"
    and j: "j < length (in_images g)" "off' < length (in_images g ! j)"
    and seg: "segment off n (concat (in_images g)) = segment off' n (concat (drop j (in_images g)))"
    and len: "off' + length (concat (in_images g)) = off + length (concat (drop j (in_images g)))"
    by auto
  have "CombineRead_loop (in_funs g) (length (in_images g)) j off' n [] 0 =
      Some \<lparr>rr_ret = COMBINE_OK, rr_buf = [] @ segment off' n (concat (drop j (in_images g))),
            rr_read = 0 + n, rr_errno = 0\<rparr>"
    using j len range n by (intro CombineRead_loop_reads [OF g]) auto
  moreover have "off' + n \<le> length (concat (drop j (in_images g)))" using len range by simp
  ultimately show ?thesis
    using range n h seek seg
    by (simp add: CombineRead_def u rd_ok_def combine_codes)
qed

end

section \<open>The library over xmount's own functions\<close>

text \<open>A handle after \<open>CombineMorph\<close>, beside the provider of its input functions.\<close>

definition combine_inv :: "combine_handle \<times> provider \<Rightarrow> bool" where
  "combine_inv hp \<longleftrightarrow> provider_inv (snd hp) \<and>
     (\<exists>d. CombineMorph (CombineCreateHandle d) (provider_funs (snd hp)) = (COMBINE_OK, fst hp))"

definition combine_contents :: "combine_handle \<times> provider \<Rightarrow> bytes" where
  "combine_contents hp = concat (provider_images (snd hp))"

interpretation combine: image_reader combine_inv combine_contents
  "\<lambda>hp. CombineSize (fst hp)" "\<lambda>hp. CombineRead (fst hp)"
proof unfold_locales
  fix hp :: "combine_handle \<times> provider" and off n
  assume inv: "combine_inv hp"
  then have p: "provider_inv (snd hp)" by (simp add: combine_inv_def)
  obtain d where "CombineMorph (CombineCreateHandle d) (provider_funs (snd hp)) =
      (COMBINE_OK, fst hp)"
    using inv by (auto simp: combine_inv_def)
  then have h: "fst hp = \<lparr>cb_debug = d,
      cb_input_images_count = length (provider_images (snd hp)),
      cb_input_functions = Some (provider_funs (snd hp)),
      cb_morphed_image_size = length (concat (provider_images (snd hp)))\<rparr>"
    by (simp add: xin.CombineMorph_ok [OF p])
  show "CombineSize (fst hp) = (0, length (combine_contents hp))"
    by (simp add: CombineSize_def combine_contents_def h combine_codes)
  show "length (combine_contents hp) < 2 ^ 63"
    using xin.in_bound_law [OF p] by (simp add: combine_contents_def)
  assume "0 < n" "n < 4294967296" "off + n \<le> length (combine_contents hp)"
  then show "CombineRead (fst hp) off n = Some (rd_ok (segment off n (combine_contents hp)))"
    unfolding combine_contents_def by (intro xin.CombineRead_reads [OF p]) (simp_all add: h)
qed

section \<open>Properties\<close>

text \<open>C18: after \<open>CombineMorph\<close> the morphed image has the size of all input images
  together, and a read inside it returns the bytes of their concatenation, across the image
  boundaries.\<close>

theorem combine_read_concatenates:
  assumes "provider_inv p" "0 < n" "n < 4294967296"
    and "off + n \<le> length (concat (provider_images p))"
    and "CombineMorph (CombineCreateHandle d) (provider_funs p) = (r, h)"
  shows "r = 0 \<and> CombineSize h = (0, length (concat (provider_images p))) \<and>
    CombineRead h off n = Some (rd_ok (segment off n (concat (provider_images p))))"
proof -
  have r: "r = COMBINE_OK" using assms(5) by (simp add: xin.CombineMorph_ok [OF assms(1)])
  have inv: "combine_inv (h, p)" using assms(1,5) r by (auto simp: combine_inv_def)
  show ?thesis
    using combine.rd_size_law [OF inv] combine.rd_read_law [OF inv assms(2,3)] assms(4) r
    by (simp add: combine_contents_def combine_codes)
qed

lemma combine_read_concatenates_witness:
  "CombineRead (snd (CombineMorph (CombineCreateHandle False)
      (provider_funs (mem_state [[1, 2], [], [3, 4]], [[1, 2], [], [3, 4]])))) 1 3 =
    Some (rd_ok [2, 3, 4])"
  using combine_read_concatenates [OF mem_provider_inv [of "[[1, 2], [], [3, 4]]"], of 3 1]
  by (cases "CombineMorph (CombineCreateHandle False)
      (provider_funs (mem_state [[1, 2], [], [3, 4]], [[1, 2], [], [3, 4]]))")
    (simp add: segment_def)

end
