(* ===== verification/LibXmount.thy ===== *)
theory LibXmount
  imports XState
begin

text \<open>
  \<open>libxmount/libxmount.c\<close> and \<open>libxmount/endianness.h\<close>: the string to integer
  conversions and the byte swaps. The C library functions \<open>strtol\<close>, \<open>strtoul\<close>,
  \<open>strtoll\<close> and \<open>strtoull\<close> with base 0 are modelled on an LP64 host: white space, a
  sign, the prefix that selects the base, the longest run of digits; no digits leave the
  whole string as the tail, a value out of range sets \<open>ERANGE\<close>.
\<close>

section \<open>strtoull with base 0\<close>

definition is_space :: "char \<Rightarrow> bool" where
  "is_space c \<longleftrightarrow> c \<in> {CHR '' '', CHR 0x09, CHR 0x0A, CHR 0x0B, CHR 0x0C, CHR 0x0D}"

definition digit_val :: "char \<Rightarrow> nat" where
  "digit_val c = (let n = of_char c in
     if 48 \<le> n \<and> n \<le> 57 then n - 48
     else if 97 \<le> n \<and> n \<le> 122 then n - 87
     else if 65 \<le> n \<and> n \<le> 90 then n - 55
     else 99)"

fun scan_sign :: "string \<Rightarrow> bool \<times> string" where
  "scan_sign (c # cs) =
     (if c = CHR ''-'' then (True, cs) else if c = CHR ''+'' then (False, cs) else (False, c # cs))"
| "scan_sign [] = (False, [])"

fun scan_base :: "string \<Rightarrow> nat \<times> string" where
  "scan_base (z # x # d # cs) =
     (if z = CHR ''0'' \<and> (x = CHR ''x'' \<or> x = CHR ''X'') \<and> digit_val d < 16
      then (16, d # cs)
      else if z = CHR ''0'' then (8, z # x # d # cs) else (10, z # x # d # cs))"
| "scan_base (z # cs) = (if z = CHR ''0'' then (8, z # cs) else (10, z # cs))"
| "scan_base [] = (10, [])"

definition digits_value :: "nat \<Rightarrow> string \<Rightarrow> nat" where
  "digits_value base ds = foldl (\<lambda>v c. v * base + digit_val c) 0 ds"

text \<open>The sign, the magnitude and the tail of the number at the start of a string.\<close>

definition scan_number :: "string \<Rightarrow> bool \<times> nat \<times> string" where
  "scan_number s =
     (case scan_sign (dropWhile is_space s) of (neg, s1) \<Rightarrow>
      case scan_base s1 of (base, s2) \<Rightarrow>
        let ds = takeWhile (\<lambda>c. digit_val c < base) s2;
            rest = dropWhile (\<lambda>c. digit_val c < base) s2
        in if ds = [] then (False, 0, s) else (neg, digits_value base ds, rest))"

text \<open>The value, the tail and whether \<open>errno\<close> is \<open>ERANGE\<close>.\<close>

definition strtoull :: "string \<Rightarrow> nat \<times> string \<times> bool" where
  "strtoull s = (case scan_number s of (neg, v, rest) \<Rightarrow>
     if v > 18446744073709551615 then (18446744073709551615, rest, True)
     else ((if neg then sub64 0 v else v), rest, False))"

definition strtoll :: "string \<Rightarrow> int \<times> string \<times> bool" where
  "strtoll s = (case scan_number s of (neg, v, rest) \<Rightarrow>
     if neg \<and> v > 9223372036854775808 then (-9223372036854775808, rest, True)
     else if \<not> neg \<and> v > 9223372036854775807 then (9223372036854775807, rest, True)
     else ((if neg then - int v else int v), rest, False))"

section \<open>Conversions\<close>

definition StrToInt32 :: "string \<Rightarrow> int \<times> int" where
  "StrToInt32 p_value = (case strtoll p_value of (num, p_tail, erange) \<Rightarrow>
     if erange \<or> p_tail \<noteq> [] \<or> num < -2147483648 \<or> num > 2147483647 then (0, 0)
     else (num, 1))"

definition StrToUint32 :: "string \<Rightarrow> nat \<times> int" where
  "StrToUint32 p_value = (case strtoull p_value of (num, p_tail, erange) \<Rightarrow>
     if erange \<or> p_tail \<noteq> [] \<or> num > 4294967295 then (0, 0) else (num, 1))"

definition StrToInt64 :: "string \<Rightarrow> int \<times> int" where
  "StrToInt64 p_value = (case strtoll p_value of (num, p_tail, erange) \<Rightarrow>
     if erange \<or> p_tail \<noteq> [] \<or> num < -9223372036854775808 \<or> num > 9223372036854775807
     then (0, 0) else (num, 1))"

definition StrToUint64 :: "string \<Rightarrow> nat \<times> int" where
  "StrToUint64 p_value = (case strtoull p_value of (num, p_tail, erange) \<Rightarrow>
     if erange \<or> p_tail \<noteq> [] \<or> num > 18446744073709551615 then (0, 0) else (num, 1))"

section \<open>Byte swaps\<close>

text \<open>The macros of \<open>endianness.h\<close> for hosts without \<open>byteswap.h\<close>, on the values of
  their unsigned arguments.\<close>

definition bswap_16 :: "nat \<Rightarrow> nat" where
  "bswap_16 v = (v mod 256) * 256 + v div 256"

definition bswap_32 :: "nat \<Rightarrow> nat" where
  "bswap_32 v = bswap_16 (v mod 65536) * 65536 + bswap_16 (v div 65536)"

definition bswap_64 :: "nat \<Rightarrow> nat" where
  "bswap_64 v = bswap_32 (v mod 4294967296) * 4294967296 + bswap_32 (v div 4294967296)"

lemma bswap_16_rev: "v < 256 ^ 2 \<Longrightarrow> le_bytes 2 (bswap_16 v) = be_bytes 2 v"
  by (simp add: bswap_16_def be_bytes_def numeral_2_eq_2)

section \<open>Decimal output\<close>

text \<open>\<open>printf\<close> of an unsigned integer (\<open>PRIu64\<close>).\<close>

fun dec_string :: "nat \<Rightarrow> string" where
  "dec_string n = (if n < 10 then [char_of (48 + n)]
                   else dec_string (n div 10) @ [char_of (48 + n mod 10)])"

declare dec_string.simps [simp del]

lemma length_dec_string: "n < 10 ^ k \<Longrightarrow> 0 < k \<Longrightarrow> length (dec_string n) \<le> k"
proof (induction k arbitrary: n)
  case (Suc k)
  show ?case
  proof (cases "n < 10")
    case True
    then show ?thesis by (simp add: dec_string.simps [of n])
  next
    case False
    then have "k \<noteq> 0" using Suc.prems(1) by (cases k) simp_all
    moreover have "n div 10 < 10 ^ k" using Suc.prems(1) by (simp add: less_mult_imp_div_less mult.commute)
    ultimately show ?thesis using Suc.IH False by (subst dec_string.simps) simp
  qed
qed simp

lemma digit_val_char: "d < 10 \<Longrightarrow> digit_val (char_of (48 + d)) = d"
  by (simp add: digit_val_def Let_def of_char_of)

lemma digits_value_append:
  "digits_value b (xs @ ys) = foldl (\<lambda>v c. v * b + digit_val c) (digits_value b xs) ys"
  by (simp add: digits_value_def)

lemma digits_value_dec: "digits_value 10 (dec_string n) = n"
proof (induction n rule: dec_string.induct)
  case (1 n)
  show ?case
  proof (cases "n < 10")
    case True
    then show ?thesis by (subst dec_string.simps) (simp add: digits_value_def digit_val_char)
  next
    case False
    then show ?thesis using 1
      by (subst dec_string.simps) (simp add: digits_value_append digit_val_char)
  qed
qed

lemma dec_string_digits: "c \<in> set (dec_string n) \<Longrightarrow> digit_val c < 10"
proof (induction n rule: dec_string.induct)
  case (1 n)
  show ?case
  proof (cases "n < 10")
    case True
    then show ?thesis using 1 by (auto simp: dec_string.simps [of n] digit_val_char)
  next
    case False
    then show ?thesis using 1 by (auto simp: dec_string.simps [of n] digit_val_char)
  qed
qed

lemma dec_string_not_Nil [simp]: "dec_string n \<noteq> []"
  by (subst dec_string.simps) simp

lemma dec_string_no_zero: "0 < n \<Longrightarrow> hd (dec_string n) \<noteq> CHR ''0''"
proof (induction n rule: dec_string.induct)
  case (1 n)
  show ?case
  proof (cases "n < 10")
    case True
    have "digit_val (char_of (48 + n)) = n" using True by (rule digit_val_char)
    moreover have "digit_val (CHR ''0'') = 0" by (simp add: digit_val_def)
    ultimately show ?thesis using True 1 by (auto simp: dec_string.simps [of n])
  next
    case False
    then show ?thesis using 1 by (simp add: dec_string.simps [of n])
  qed
qed

lemma digit_val_special:
  "digit_val c < 10 \<Longrightarrow> \<not> is_space c \<and> c \<noteq> CHR ''-'' \<and> c \<noteq> CHR ''+''"
  by (auto simp: is_space_def digit_val_def)

lemma scan_base_dec: "0 < n \<Longrightarrow> scan_base (dec_string n) = (10, dec_string n)"
  using dec_string_no_zero [of n] dec_string_not_Nil [of n]
  by (cases "dec_string n" rule: scan_base.cases) auto

lemma scan_number_dec: "scan_number (dec_string n) = (False, n, [])"
proof (cases "n = 0")
  case True
  then show ?thesis by (simp add: dec_string.simps) code_simp
next
  case False
  obtain c cs where c: "dec_string n = c # cs" using dec_string_not_Nil [of n] by (cases "dec_string n") auto
  have "digit_val c < 10" using dec_string_digits [of c n] by (simp add: c)
  note sp = digit_val_special [OF this]
  have 1: "dropWhile is_space (dec_string n) = dec_string n" using sp by (simp add: c)
  have 2: "scan_sign (dec_string n) = (False, dec_string n)" using sp by (simp add: c)
  have 3: "takeWhile (\<lambda>c. digit_val c < 10) (dec_string n) = dec_string n"
    using dec_string_digits by (simp add: takeWhile_eq_all_conv)
  have 4: "dropWhile (\<lambda>c. digit_val c < 10) (dec_string n) = []"
    using dec_string_digits by (simp add: dropWhile_eq_Nil_conv)
  show ?thesis
    using False unfolding scan_number_def 1 2
    by (simp add: scan_base_dec 3 4 digits_value_dec Let_def)
qed

section \<open>Correctness of the byte swaps\<close>

definition swaps :: "nat \<Rightarrow> (nat \<Rightarrow> nat) \<Rightarrow> bool" where
  "swaps k f \<longleftrightarrow> (\<forall>v < 256 ^ k. f v < 256 ^ k \<and> le_bytes k (f v) = be_bytes k v)"

lemma swaps_double:
  assumes f: "swaps k f"
  shows "swaps (k + k) (\<lambda>v. f (v mod 256 ^ k) * 256 ^ k + f (v div 256 ^ k))"
  unfolding swaps_def
proof (intro allI impI conjI)
  fix v :: nat assume v: "v < 256 ^ (k + k)"
  let ?l = "v mod 256 ^ k" and ?h = "v div 256 ^ k"
  have l: "f ?l < 256 ^ k" "le_bytes k (f ?l) = be_bytes k ?l"
    using f by (auto simp: swaps_def)
  have "?h < 256 ^ k" using v by (simp add: less_mult_imp_div_less power_add)
  then have h: "f ?h < 256 ^ k" "le_bytes k (f ?h) = be_bytes k ?h"
    using f by (auto simp: swaps_def)
  have "f ?l * 256 ^ k + f ?h < (f ?l + 1) * 256 ^ k" using h by simp
  also have "\<dots> \<le> 256 ^ k * 256 ^ k" using l by (intro mult_right_mono) auto
  finally show "f ?l * 256 ^ k + f ?h < 256 ^ (k + k)" by (simp add: power_add)
  have d: "(f ?l * 256 ^ k + f ?h) div 256 ^ k = f ?l" using h by simp
  have m: "(f ?l * 256 ^ k + f ?h) mod 256 ^ k = f ?h" using h by simp
  have "le_bytes k (f ?l * 256 ^ k + f ?h) = le_bytes k (f ?h)"
    by (metis le_bytes_mod m)
  then have "le_bytes (k + k) (f ?l * 256 ^ k + f ?h) = be_bytes k ?h @ be_bytes k ?l"
    by (simp add: le_bytes_add d l h)
  also have "\<dots> = be_bytes (k + k) v"
    by (simp add: be_bytes_def le_bytes_add le_bytes_mod)
  finally show "le_bytes (k + k) (f ?l * 256 ^ k + f ?h) = be_bytes (k + k) v" .
qed

lemma swaps_16: "swaps 2 bswap_16"
  by (auto simp: swaps_def bswap_16_rev) (simp add: bswap_16_def)

lemma swaps_32: "swaps 4 bswap_32"
  using swaps_double [OF swaps_16] by (simp add: bswap_32_def [abs_def])

lemma swaps_64: "swaps 8 bswap_64"
  using swaps_double [OF swaps_32] by (simp add: bswap_64_def [abs_def])

lemma swaps_involution:
  assumes "swaps k f" "v < 256 ^ k"
  shows "f (f v) = v"
proof -
  have 1: "f v < 256 ^ k" "le_bytes k (f v) = rev (le_bytes k v)"
    using assms by (auto simp: swaps_def be_bytes_def)
  have 2: "f (f v) < 256 ^ k" "le_bytes k (f (f v)) = rev (le_bytes k (f v))"
    using assms(1) 1 by (auto simp: swaps_def be_bytes_def)
  show ?thesis
    by (rule le_bytes_inj [OF 2(1) assms(2)]) (simp add: 1 2)
qed

text \<open>Reading a big-endian field through its host-order value.\<close>

lemma swaps_read:
  assumes "swaps k f" "length bs = k"
  shows "f (le_val bs) = be_val bs"
proof -
  have v: "le_val bs < 256 ^ k" using le_val_less [of bs] assms by simp
  have "le_bytes k (f (le_val bs)) = rev (le_bytes k (le_val bs))"
    using assms v by (simp add: swaps_def be_bytes_def)
  also have "\<dots> = rev bs" using le_bytes_le_val [of bs] assms by simp
  finally have "le_val (le_bytes k (f (le_val bs))) = be_val bs" by (simp add: be_val_def)
  moreover have "f (le_val bs) < 256 ^ k" using assms v by (simp add: swaps_def)
  ultimately show ?thesis by (simp add: le_val_le_bytes)
qed

section \<open>Properties\<close>

text \<open>\<open>StrToUint64\<close> and \<open>StrToUint32\<close> read back every decimal number that
  fits their type, and refuse every larger one.\<close>

theorem StrToUint_decimal:
  "StrToUint64 (dec_string n) = (if n < 2 ^ 64 then (n, 1) else (0, 0)) \<and>
   StrToUint32 (dec_string n) = (if n < 2 ^ 32 then (n, 1) else (0, 0))"
  by (simp add: StrToUint64_def StrToUint32_def strtoull_def scan_number_dec)

text \<open>The byte swap macros reverse the bytes of a 16, 32 or 64 bit value in memory, so
  that a big-endian field is read through its host-order value, and they are their own
  inverses.\<close>

theorem bswap_reverses:
  assumes "length b2 = 2" "length b4 = 4" "length b8 = 8"
  shows "bswap_16 (le_val b2) = be_val b2 \<and> bswap_32 (le_val b4) = be_val b4 \<and>
    bswap_64 (le_val b8) = be_val b8 \<and> bswap_64 (bswap_64 (le_val b8)) = le_val b8"
proof -
  have "bswap_64 (bswap_64 (le_val b8)) = le_val b8"
    using swaps_involution [OF swaps_64] le_val_less [of b8] assms(3) by simp
  then show ?thesis
    using swaps_read [OF swaps_16 assms(1)] swaps_read [OF swaps_32 assms(2)]
      swaps_read [OF swaps_64 assms(3)]
    by simp
qed

lemma bswap_reverses_witness:
  "bswap_16 (le_val [1, 2]) = be_val [1, 2] \<and> bswap_32 (le_val [1, 2, 3, 4]) = be_val [1, 2, 3, 4]"
  using bswap_reverses [of "[1, 2]" "[1, 2, 3, 4]" "[1, 2, 3, 4, 5, 6, 7, 8]"] by simp

end
