(* ===== verification/MorphRaid.thy ===== *)
theory MorphRaid
  imports XmountInput LibXmount
begin

text \<open>
  The morphing library \<open>libxmount_morphing_raid\<close>: RAID level 0 over the input images.
  The chunks of the morphed image are spread over the images in turn; every image
  contributes as many whole chunks as the smallest of them holds.
\<close>

section \<open>Operations\<close>

definition RAID_OK :: int where "RAID_OK = 0"
definition RAID_MEMALLOC_FAILED :: int where "RAID_MEMALLOC_FAILED = 1"
definition RAID_CANNOT_GET_IMAGECOUNT :: int where "RAID_CANNOT_GET_IMAGECOUNT = 2"
definition RAID_CANNOT_GET_IMAGESIZE :: int where "RAID_CANNOT_GET_IMAGESIZE = 3"
definition RAID_READ_BEYOND_END_OF_IMAGE :: int where "RAID_READ_BEYOND_END_OF_IMAGE = 4"
definition RAID_CANNOT_READ_DATA :: int where "RAID_CANNOT_READ_DATA = 5"
definition RAID_CANNOT_PARSE_OPTION :: int where "RAID_CANNOT_PARSE_OPTION = 6"

lemmas raid_codes =
  RAID_OK_def RAID_MEMALLOC_FAILED_def RAID_CANNOT_GET_IMAGECOUNT_def
  RAID_CANNOT_GET_IMAGESIZE_def RAID_READ_BEYOND_END_OF_IMAGE_def
  RAID_CANNOT_READ_DATA_def RAID_CANNOT_PARSE_OPTION_def

definition RAID_DEFAULT_CHUNKSIZE :: nat where "RAID_DEFAULT_CHUNKSIZE = 512 * 1024"

record raid_handle =
  ra_debug :: bool
  ra_input_images_count :: nat
  ra_chunk_size :: nat
  ra_chunks_per_image :: nat
  ra_input_functions :: "morph_input option"
  ra_morphed_image_size :: nat

definition RaidCreateHandle :: "bool \<Rightarrow> raid_handle" where
  "RaidCreateHandle debug =
     \<lparr>ra_debug = debug, ra_input_images_count = 0, ra_chunk_size = RAID_DEFAULT_CHUNKSIZE,
      ra_chunks_per_image = 0, ra_input_functions = None, ra_morphed_image_size = 0\<rparr>"

text \<open>The loop that looks for the smallest number of chunks; \<open>k\<close> images are left and
  \<open>cpi\<close> is the smallest number so far, 0 before the first image.\<close>

fun RaidMorph_loop :: "morph_input \<Rightarrow> nat \<Rightarrow> nat \<Rightarrow> nat \<Rightarrow> nat \<Rightarrow> int \<times> nat" where
  "RaidMorph_loop m chunk_size i 0 cpi = (RAID_OK, cpi)"
| "RaidMorph_loop m chunk_size i (Suc k) cpi =
     (case mi_Size m i of (ret, input_image_size) \<Rightarrow>
        if ret \<noteq> 0 then (RAID_CANNOT_GET_IMAGESIZE, cpi)
        else let chunks_per_image = input_image_size div chunk_size in
          RaidMorph_loop m chunk_size (Suc i) k
            (if cpi = 0 then chunks_per_image
             else if chunks_per_image < cpi then chunks_per_image
             else cpi))"

definition RaidMorph :: "raid_handle \<Rightarrow> morph_input \<Rightarrow> int \<times> raid_handle" where
  "RaidMorph h m =
     (let h1 = h\<lparr>ra_input_functions := Some m\<rparr> in
      case mi_ImageCount m of (ret, count) \<Rightarrow>
        let h2 = h1\<lparr>ra_input_images_count := count\<rparr> in
        if ret \<noteq> 0 then (RAID_CANNOT_GET_IMAGECOUNT, h2)
        else case RaidMorph_loop m (ra_chunk_size h) 0 count (ra_chunks_per_image h) of
          (ret, cpi) \<Rightarrow>
            let h3 = h2\<lparr>ra_chunks_per_image := cpi\<rparr> in
            if ret \<noteq> RAID_OK then (ret, h3)
            else (RAID_OK, h3\<lparr>ra_morphed_image_size :=
                    u64 (u64 (cpi * ra_chunk_size h) * count)\<rparr>))"

definition RaidSize :: "raid_handle \<Rightarrow> int \<times> nat" where
  "RaidSize h = (RAID_OK, ra_morphed_image_size h)"

text \<open>The read loop. A chunk size of 0 divides by 0 before the loop is entered, so
  \<open>None\<close> stands for both that trap and a loop that makes no progress.\<close>

partial_function (option) RaidRead_loop ::
  "raid_handle \<Rightarrow> morph_input \<Rightarrow> nat \<Rightarrow> nat \<Rightarrow> nat \<Rightarrow> bytes \<Rightarrow> nat \<Rightarrow> read_res option" where
  "RaidRead_loop h m cur_chunk cur_chunk_offset count buf nread =
     (if count = 0 then
        Some \<lparr>rr_ret = RAID_OK, rr_buf = buf, rr_read = nread, rr_errno = 0\<rparr>
      else if ra_input_images_count h = 0 then None
      else
        let cur_image = cur_chunk mod ra_input_images_count h;
            cur_image_offset = u64 (cur_chunk div ra_input_images_count h * ra_chunk_size h);
            cur_count = (if u64 (cur_chunk_offset + count) > ra_chunk_size h
                         then sub64 (ra_chunk_size h) cur_chunk_offset else count)
        in (case mi_Read m cur_image (u64 (cur_image_offset + cur_chunk_offset)) cur_count of
              None \<Rightarrow> None
            | Some r \<Rightarrow>
                if rr_ret r \<noteq> 0 \<or> rr_read r \<noteq> cur_count then
                  Some \<lparr>rr_ret = RAID_CANNOT_READ_DATA, rr_buf = buf @ rr_buf r,
                        rr_read = nread, rr_errno = 0\<rparr>
                else RaidRead_loop h m (u64 (cur_chunk + 1)) 0 (sub64 count cur_count)
                       (buf @ pad cur_count (rr_buf r)) (u64 (nread + cur_count))))"

definition RaidRead :: "raid_handle \<Rightarrow> nat \<Rightarrow> nat \<Rightarrow> read_res option" where
  "RaidRead h offset count =
     (if offset \<ge> ra_morphed_image_size h \<or> u64 (offset + count) > ra_morphed_image_size h
      then Some (rd_err RAID_READ_BEYOND_END_OF_IMAGE)
      else if ra_chunk_size h = 0 then None
      else case ra_input_functions h of
        None \<Rightarrow> None
      | Some m \<Rightarrow>
          let cur_chunk = offset div ra_chunk_size h;
              cur_chunk_offset = sub64 offset (u64 (cur_chunk * ra_chunk_size h))
          in RaidRead_loop h m cur_chunk cur_chunk_offset count [] 0)"

text \<open>
  The options: the handle, the options with their \<open>valid\<close> marks, and what the caller
  finds in \<open>*pp_error\<close>, which \<open>p_err0\<close> is before the call. The text is allocated by
  \<open>asprintf\<close>, which succeeds.
\<close>

fun RaidOptionsParse ::
  "raid_handle \<Rightarrow> lib_option list \<Rightarrow> string option \<Rightarrow>
   int \<times> raid_handle \<times> lib_option list \<times> string option" where
  "RaidOptionsParse h [] p_err0 = (RAID_OK, h, [], p_err0)"
| "RaidOptionsParse h (opt # opts) p_err0 =
     (if lo_key opt = ''raid_chunksize'' then
        (case StrToUint32 (lo_value opt) of (uint32value, ok) \<Rightarrow>
           if ok = 0 \<or> uint32value = 0 then
             (if p_err0 = None then (RAID_MEMALLOC_FAILED, h, opt # opts, None)
              else (RAID_CANNOT_PARSE_OPTION, h, opt # opts,
                    Some (''Unable to parse value '' @ [CHR 0x27] @ lo_value opt @ [CHR 0x27] @
                          '' of '' @ [CHR 0x27] @ lo_key opt @ [CHR 0x27] @
                          '' as valid 32bit number'')))
           else
             (case RaidOptionsParse (h\<lparr>ra_chunk_size := uint32value\<rparr>) opts p_err0 of
                (ret, h', opts', e) \<Rightarrow> (ret, h', opt\<lparr>lo_valid := True\<rparr> # opts', e)))
      else
        (case RaidOptionsParse h opts p_err0 of
           (ret, h', opts', e) \<Rightarrow> (ret, h', opt # opts', e)))"

definition RaidGetErrorMessage :: "int \<Rightarrow> string" where
  "RaidGetErrorMessage err_num =
     (if err_num = RAID_MEMALLOC_FAILED then ''Unable to allocate memory''
      else if err_num = RAID_CANNOT_GET_IMAGECOUNT then ''Unable to get input image count''
      else if err_num = RAID_CANNOT_GET_IMAGESIZE then ''Unable to get input image size''
      else if err_num = RAID_READ_BEYOND_END_OF_IMAGE then
        ''Unable to read data: Attempt to read past EOF''
      else if err_num = RAID_CANNOT_READ_DATA then ''Unable to read data''
      else if err_num = RAID_CANNOT_PARSE_OPTION then ''Unable to parse library option''
      else ''Unknown error'')"

section \<open>Specification: striping\<close>

definition raid_chunk :: "nat \<Rightarrow> bytes list \<Rightarrow> nat \<Rightarrow> bytes" where
  "raid_chunk cs imgs c = segment (c div length imgs * cs) cs (imgs ! (c mod length imgs))"

definition raid0_contents :: "nat \<Rightarrow> nat \<Rightarrow> bytes list \<Rightarrow> bytes" where
  "raid0_contents cs cpi imgs = concat (map (raid_chunk cs imgs) [0..<cpi * length imgs])"

definition chunks_fit :: "nat \<Rightarrow> nat \<Rightarrow> bytes list \<Rightarrow> bool" where
  "chunks_fit cs cpi imgs \<longleftrightarrow> (\<forall>img \<in> set imgs. cpi * cs \<le> length img)"

lemma raid_chunk_in_image:
  assumes "chunks_fit cs cpi imgs" "c < cpi * length imgs"
  shows "c mod length imgs < length imgs"
    and "c div length imgs * cs + cs \<le> length (imgs ! (c mod length imgs))"
proof -
  have n: "0 < length imgs" using assms(2) by (cases imgs) auto
  then show m: "c mod length imgs < length imgs" by simp
  have "c div length imgs < cpi" using assms(2) n by (simp add: less_mult_imp_div_less)
  then have "c div length imgs + 1 \<le> cpi" by simp
  then have "(c div length imgs + 1) * cs \<le> cpi * cs" by (rule mult_right_mono) simp
  also have "\<dots> \<le> length (imgs ! (c mod length imgs))"
    using assms(1) m by (simp add: chunks_fit_def)
  finally show "c div length imgs * cs + cs \<le> length (imgs ! (c mod length imgs))" by simp
qed

lemma raid_chunk_length:
  assumes "chunks_fit cs cpi imgs" "x \<in> set (map (raid_chunk cs imgs) [0..<cpi * length imgs])"
  shows "length x = cs"
proof -
  obtain c where c: "c < cpi * length imgs" "x = raid_chunk cs imgs c" using assms(2) by auto
  show ?thesis using raid_chunk_in_image(2) [OF assms(1) c(1)] by (simp add: c(2) raid_chunk_def)
qed

lemma raid0_length:
  "chunks_fit cs cpi imgs \<Longrightarrow> length (raid0_contents cs cpi imgs) = cpi * cs * length imgs"
  unfolding raid0_contents_def
  by (subst length_concat_blocks [OF raid_chunk_length]) (auto simp: ac_simps)

lemma chunks_fit_total: "chunks_fit cs cpi imgs \<Longrightarrow> cpi * cs * length imgs \<le> length (concat imgs)"
  by (induction imgs) (auto simp: chunks_fit_def)

lemma fold_min_le:
  "fold min xs (a :: nat) \<le> a \<and> (\<forall>x \<in> set xs. fold min xs a \<le> x) \<and>
   fold min xs a \<in> insert a (set xs)"
proof (induction xs arbitrary: a)
  case (Cons x xs)
  show ?case using Cons.IH [of "min x a"] by (cases "x \<le> a") (auto simp: min.absorb1 min.absorb2)
qed simp

section \<open>The library over functions that keep the input_images contract\<close>

text \<open>The smallest number of chunks, when every image holds at least one.\<close>

context input_images begin

lemma RaidMorph_loop_min:
  assumes g: "in_inv g"
  shows "i + k = length (in_images g) \<Longrightarrow> 0 < cpi \<Longrightarrow>
    \<forall>img \<in> set (in_images g). cs \<le> length img \<Longrightarrow> 0 < cs \<Longrightarrow>
    RaidMorph_loop (in_funs g) cs i k cpi =
      (RAID_OK, fold min (map (\<lambda>img. length img div cs) (drop i (in_images g))) cpi)"
proof (induction k arbitrary: i cpi)
  case 0
  then show ?case by simp
next
  case (Suc k)
  have i: "i < length (in_images g)" using Suc.prems by simp
  have pos: "0 < length (in_images g ! i) div cs"
    using Suc.prems i by (simp add: div_greater_zero_iff)
  have d: "drop i (in_images g) = in_images g ! i # drop (Suc i) (in_images g)"
    using i by (simp add: Cons_nth_drop_Suc)
  have m: "(if length (in_images g ! i) div cs < cpi then length (in_images g ! i) div cs else cpi) =
    min (length (in_images g ! i) div cs) cpi" by auto
  show ?case
    using Suc.IH [of "Suc i" "min (length (in_images g ! i) div cs) cpi"] Suc.prems pos
    by (simp add: in_size_law [OF g i] d m Let_def)
qed

lemma RaidMorph_chunks:
  assumes g: "in_inv g" and ne: "in_images g \<noteq> []"
    and big: "\<forall>img \<in> set (in_images g). cs \<le> length img" and cs: "0 < cs"
  shows "RaidMorph_loop (in_funs g) cs 0 (length (in_images g)) 0 =
    (RAID_OK, Min ((\<lambda>img. length img div cs) ` set (in_images g)))"
proof -
  obtain img imgs where im: "in_images g = img # imgs" using ne by (cases "in_images g") auto
  have s: "mi_Size (in_funs g) 0 = (0, length img)"
    using in_size_law [OF g, of 0] by (simp add: im)
  have pos: "0 < length img div cs" using big cs by (simp add: im div_greater_zero_iff)
  let ?f = "fold min (map (\<lambda>img. length img div cs) imgs) (length img div cs)"
  have "RaidMorph_loop (in_funs g) cs 0 (length (in_images g)) 0 =
      RaidMorph_loop (in_funs g) cs 1 (length imgs) (length img div cs)"
    by (simp add: im s Let_def)
  also have "\<dots> = (RAID_OK, ?f)"
    using RaidMorph_loop_min [OF g, of 1 "length imgs" "length img div cs" cs] pos big cs
    by (simp add: im)
  also have "?f = Min ((\<lambda>img. length img div cs) ` set (in_images g))"
    using fold_min_le [of "map (\<lambda>img. length img div cs) imgs" "length img div cs"]
    by (intro Min_eqI [symmetric]) (auto simp: im)
  finally show ?thesis .
qed

lemma RaidRead_loop_reads:
  assumes g: "in_inv g"
    and h: "ra_input_images_count h = length (in_images g)" "ra_chunk_size h = cs"
    and fit: "chunks_fit cs cpi (in_images g)" and cs: "0 < cs" "cs < 2 ^ 32"
  shows "c \<le> cpi * length (in_images g) \<Longrightarrow> off < cs \<Longrightarrow>
    n < 4294967296 \<Longrightarrow> nread + n < 2 ^ 63 \<Longrightarrow> cpi * cs * length (in_images g) < 2 ^ 63 \<Longrightarrow>
    c * cs + off + n \<le> cpi * cs * length (in_images g) \<Longrightarrow>
    RaidRead_loop h (in_funs g) c off n buf nread =
      Some \<lparr>rr_ret = RAID_OK,
        rr_buf = buf @ segment off n (concat (drop c
          (map (raid_chunk cs (in_images g)) [0..<cpi * length (in_images g)]))),
        rr_read = nread + n, rr_errno = 0\<rparr>"
proof (induction n arbitrary: c off buf nread rule: less_induct)
  case (less n)
  let ?N = "length (in_images g)"
  let ?chunks = "map (raid_chunk cs (in_images g)) [0..<cpi * ?N]"
  show ?case
  proof (cases "n = 0")
    case True
    then show ?thesis by (subst RaidRead_loop.simps) simp
  next
    case n: False
    have c: "c < cpi * ?N"
    proof (rule ccontr)
      assume "\<not> c < cpi * ?N"
      then have "c = cpi * ?N" using less.prems by simp
      then have "cpi * ?N * cs + off + n \<le> cpi * cs * ?N" using less.prems(6) by simp
      then show False using n by (simp add: ac_simps)
    qed
    define m where "m = min n (cs - off)"
    have m: "0 < m" "m \<le> n" "off + m \<le> cs" using n less.prems(2) by (auto simp: m_def)
    let ?i = "c mod ?N" and ?o = "c div ?N * cs"
    note im = raid_chunk_in_image [OF fit c]
    have N0: "?N \<noteq> 0" using c by (cases "in_images g") auto
    have lb: "length (in_images g ! ?i) < 2 ^ 63" by (rule image_length_bound [OF g im(1)])
    have cw: "c + 1 < 18446744073709551616"
    proof -
      have "c \<le> c * cs" using cs by simp
      also have "\<dots> \<le> cpi * cs * ?N" using less.prems(6) by (rule order.trans [rotated]) simp
      finally show ?thesis using less.prems(5) by simp
    qed
    have u: "u64 (c + 1) = Suc c" "u64 ?o = ?o" "u64 (?o + off) = ?o + off"
      "u64 (off + n) = off + n" "sub64 cs off = cs - off"
      "sub64 n m = n - m" "u64 (nread + m) = nread + m"
      using less.prems(2,3,4) cw im(2) lb cs m by (auto intro!: width_simps)
    have cc: "(if cs < off + n then cs - off else n) = m"
      by (auto simp: m_def)
    have rd: "mi_Read (in_funs g) ?i (?o + off) m = Some (rd_ok (segment (?o + off) m (in_images g ! ?i)))"
      using im m less.prems(3) by (intro in_read_law [OF g im(1)]) auto
    have seg: "segment (?o + off) m (in_images g ! ?i) = segment off m (raid_chunk cs (in_images g) c)"
      using m(3) by (simp add: raid_chunk_def segment_segment)
    have lm: "length (segment (?o + off) m (in_images g ! ?i)) = m" using im m by auto
    have step: "RaidRead_loop h (in_funs g) c off n buf nread =
      RaidRead_loop h (in_funs g) (Suc c) 0 (n - m)
        (buf @ segment off m (raid_chunk cs (in_images g) c)) (nread + m)"
      using n N0 lm u(1) unfolding seg [symmetric]
      by (subst RaidRead_loop.simps) (simp add: h u cc rd Let_def cong: if_cong)
    also have "\<dots> = Some \<lparr>rr_ret = RAID_OK,
        rr_buf = (buf @ segment off m (raid_chunk cs (in_images g) c)) @
          segment 0 (n - m) (concat (drop (Suc c) ?chunks)),
        rr_read = (nread + m) + (n - m), rr_errno = 0\<rparr>"
    proof (rule less.IH)
      have "c * cs + off + n \<le> cpi * cs * ?N" by (rule less.prems(6))
      then show "Suc c * cs + 0 + (n - m) \<le> cpi * cs * ?N"
      proof (cases "n \<le> cs - off")
        case True
        then have "n - m = 0" by (simp add: m_def)
        moreover have "Suc c * cs \<le> cpi * ?N * cs" using c by (intro mult_right_mono) auto
        ultimately show ?thesis by (simp add: ac_simps)
      next
        case False
        then show ?thesis using less.prems(2,6) by (simp add: m_def)
      qed
    qed (use m c less.prems cs in auto)
    also have "(buf @ segment off m (raid_chunk cs (in_images g) c)) @
          segment 0 (n - m) (concat (drop (Suc c) ?chunks)) =
        buf @ segment off n (concat (drop c ?chunks))"
    proof -
      have ch: "?chunks ! c = raid_chunk cs (in_images g) c" using c by simp
      have lc: "length (raid_chunk cs (in_images g) c) = cs"
        using im by (simp add: raid_chunk_def)
      have "n - m = n - (cs - off)" by (simp add: m_def)
      then show ?thesis
        using segment_concat_first [of c ?chunks off n] c less.prems(2)
        by (simp add: ch lc m_def)
    qed
    also have "nread + m + (n - m) = nread + n" using m by simp
    finally show ?thesis .
  qed
qed

lemma RaidRead_reads:
  assumes g: "in_inv g"
    and h: "ra_input_functions h = Some (in_funs g)"
      "ra_input_images_count h = length (in_images g)" "ra_chunk_size h = cs"
      "ra_morphed_image_size h = cpi * cs * length (in_images g)"
    and fit: "chunks_fit cs cpi (in_images g)" and cs: "0 < cs" "cs < 2 ^ 32"
    and n: "0 < n" "n < 4294967296"
    and range: "off + n \<le> cpi * cs * length (in_images g)"
    and bound: "cpi * cs * length (in_images g) < 2 ^ 63"
  shows "RaidRead h off n = Some (rd_ok (segment off n (raid0_contents cs cpi (in_images g))))"
proof -
  let ?chunks = "map (raid_chunk cs (in_images g)) [0..<cpi * length (in_images g)]"
  have d: "off div cs * cs + off mod cs = off" by simp
  have u: "u64 (off + n) = off + n" "u64 (off div cs * cs) = off div cs * cs"
    using range bound d by (auto intro!: u64_small intro: order.strict_trans1 [of _ off])
  have s: "sub64 off (off div cs * cs) = off mod cs"
    using range bound by (subst sub64_small) (auto simp: minus_div_mult_eq_mod)
  have "off < cpi * length (in_images g) * cs" using n range by (simp add: ac_simps)
  then have c: "off div cs < cpi * length (in_images g)" by (simp add: less_mult_imp_div_less)
  have "RaidRead_loop h (in_funs g) (off div cs) (off mod cs) n [] 0 =
      Some \<lparr>rr_ret = RAID_OK,
        rr_buf = [] @ segment (off mod cs) n (concat (drop (off div cs) ?chunks)),
        rr_read = 0 + n, rr_errno = 0\<rparr>"
    using c cs n range bound d
    by (intro RaidRead_loop_reads [OF g h(2,3) fit cs]) auto
  also have "segment (off mod cs) n (concat (drop (off div cs) ?chunks)) =
      segment off n (concat ?chunks)"
    using segment_concat_blocks [of ?chunks cs "off div cs" "off mod cs" n]
      raid_chunk_length [OF fit] d by simp
  finally have loop: "RaidRead_loop h (in_funs g) (off div cs) (off mod cs) n [] 0 =
      Some \<lparr>rr_ret = RAID_OK, rr_buf = segment off n (raid0_contents cs cpi (in_images g)),
            rr_read = n, rr_errno = 0\<rparr>"
    by (simp add: raid0_contents_def)
  have "length (segment off n (raid0_contents cs cpi (in_images g))) = n"
    using range by (simp add: raid0_length [OF fit])
  then show ?thesis
    using n range cs loop by (simp add: RaidRead_def h u s rd_ok_def raid_codes Let_def)
qed

lemma RaidMorph_ok:
  assumes g: "in_inv g" and ne: "in_images g \<noteq> []"
    and big: "\<forall>img \<in> set (in_images g). ra_chunk_size h \<le> length img"
    and h: "0 < ra_chunk_size h" "ra_chunks_per_image h = 0"
  defines "cpi \<equiv> Min ((\<lambda>img. length img div ra_chunk_size h) ` set (in_images g))"
  shows "RaidMorph h (in_funs g) = (RAID_OK,
      h\<lparr>ra_input_functions := Some (in_funs g),
        ra_input_images_count := length (in_images g), ra_chunks_per_image := cpi,
        ra_morphed_image_size := cpi * ra_chunk_size h * length (in_images g)\<rparr>)"
    and "chunks_fit (ra_chunk_size h) cpi (in_images g)"
    and "cpi * ra_chunk_size h * length (in_images g) < 2 ^ 63"
proof -
  let ?cs = "ra_chunk_size h" and ?N = "length (in_images g)"
  show fit: "chunks_fit ?cs cpi (in_images g)"
    unfolding chunks_fit_def
  proof
    fix img assume "img \<in> set (in_images g)"
    then have "cpi \<le> length img div ?cs" unfolding cpi_def by (intro Min_le) auto
    then have "cpi * ?cs \<le> length img div ?cs * ?cs" by (rule mult_right_mono) simp
    also have "\<dots> \<le> length img" by simp
    finally show "cpi * ?cs \<le> length img" .
  qed
  have tot: "cpi * ?cs * ?N \<le> length (concat (in_images g))" by (rule chunks_fit_total [OF fit])
  show bound: "cpi * ?cs * ?N < 2 ^ 63" using tot in_bound_law [OF g] by linarith
  have "cpi * ?cs \<le> cpi * ?cs * ?N" using ne by (cases "in_images g") auto
  then have "cpi * ?cs < 2 ^ 63" using bound by (rule order.strict_trans1)
  then have u: "u64 (cpi * ?cs) = cpi * ?cs" "u64 (cpi * ?cs * ?N) = cpi * ?cs * ?N"
    using bound by (auto intro!: u64_small)
  show "RaidMorph h (in_funs g) = (RAID_OK,
      h\<lparr>ra_input_functions := Some (in_funs g), ra_input_images_count := ?N,
        ra_chunks_per_image := cpi, ra_morphed_image_size := cpi * ?cs * ?N\<rparr>)"
    using RaidMorph_chunks [OF g ne big h(1)] h(2)
    by (simp add: RaidMorph_def in_count_law [OF g] cpi_def [symmetric] u raid_codes Let_def)
qed

end

section \<open>The library over xmount's own functions\<close>

text \<open>A handle after \<open>RaidMorph\<close> with chunk size \<open>cs\<close>, beside the provider of its
  input functions; every image holds a chunk at least.\<close>

definition raid_start :: "bool \<Rightarrow> nat \<Rightarrow> raid_handle" where
  "raid_start d cs = RaidCreateHandle d\<lparr>ra_chunk_size := cs\<rparr>"

definition raid_inv :: "raid_handle \<times> provider \<Rightarrow> bool" where
  "raid_inv hp \<longleftrightarrow> provider_inv (snd hp) \<and> provider_images (snd hp) \<noteq> [] \<and>
     0 < ra_chunk_size (fst hp) \<and> ra_chunk_size (fst hp) < 2 ^ 32 \<and>
     (\<forall>img \<in> set (provider_images (snd hp)). ra_chunk_size (fst hp) \<le> length img) \<and>
     RaidMorph (raid_start (ra_debug (fst hp)) (ra_chunk_size (fst hp)))
       (provider_funs (snd hp)) = (RAID_OK, fst hp)"

definition raid_contents :: "raid_handle \<times> provider \<Rightarrow> bytes" where
  "raid_contents hp = raid0_contents (ra_chunk_size (fst hp))
     (Min ((\<lambda>img. length img div ra_chunk_size (fst hp)) ` set (provider_images (snd hp))))
     (provider_images (snd hp))"

interpretation raid: image_reader raid_inv raid_contents
  "\<lambda>hp. RaidSize (fst hp)" "\<lambda>hp. RaidRead (fst hp)"
proof unfold_locales
  fix hp :: "raid_handle \<times> provider" and off n
  assume inv: "raid_inv hp"
  let ?p = "snd hp" and ?cs = "ra_chunk_size (fst hp)"
  let ?cpi = "Min ((\<lambda>img. length img div ?cs) ` set (provider_images ?p))"
  let ?h0 = "raid_start (ra_debug (fst hp)) ?cs"
  have p: "provider_inv ?p" "provider_images ?p \<noteq> []" "0 < ?cs" "?cs < 2 ^ 32"
    "\<forall>img \<in> set (provider_images ?p). ra_chunk_size ?h0 \<le> length img"
    "0 < ra_chunk_size ?h0" "ra_chunks_per_image ?h0 = 0" "ra_chunk_size ?h0 = ?cs"
    and m: "RaidMorph ?h0 (provider_funs ?p) = (RAID_OK, fst hp)"
    using inv by (auto simp: raid_inv_def raid_start_def RaidCreateHandle_def)
  note ok = xin.RaidMorph_ok [OF p(1,2,5,6,7), unfolded p(8)]
  have eq: "fst hp = ?h0\<lparr>ra_input_functions := Some (provider_funs ?p),
      ra_input_images_count := length (provider_images ?p), ra_chunks_per_image := ?cpi,
      ra_morphed_image_size := ?cpi * ?cs * length (provider_images ?p)\<rparr>"
    using ok(1) m by (simp only: prod.inject)
  have h: "ra_input_functions (fst hp) = Some (provider_funs ?p)"
    "ra_input_images_count (fst hp) = length (provider_images ?p)"
    "ra_morphed_image_size (fst hp) = ?cpi * ?cs * length (provider_images ?p)"
    using arg_cong [OF eq, of ra_input_functions] arg_cong [OF eq, of ra_input_images_count]
      arg_cong [OF eq, of ra_morphed_image_size] by simp_all
  have len: "length (raid_contents hp) = ?cpi * ?cs * length (provider_images ?p)"
    by (simp add: raid_contents_def raid0_length [OF ok(2)])
  show "RaidSize (fst hp) = (0, length (raid_contents hp))"
    by (simp add: RaidSize_def len h raid_codes)
  show "length (raid_contents hp) < 2 ^ 63"
    using ok(3) by (simp add: len)
  assume "0 < n" "n < 4294967296" "off + n \<le> length (raid_contents hp)"
  then show "RaidRead (fst hp) off n = Some (rd_ok (segment off n (raid_contents hp)))"
    unfolding raid_contents_def
    by (intro xin.RaidRead_reads [OF p(1) h(1,2) _ h(3) ok(2)])
      (use p ok(3) len in \<open>auto simp: raid_contents_def\<close>)
qed

section \<open>Properties\<close>

lemma RaidOptionsParse_chunksize:
  assumes "0 < cs" "cs < 2 ^ 32"
  shows "RaidOptionsParse h
      [\<lparr>lo_key = ''raid_chunksize'', lo_value = dec_string cs, lo_valid = v\<rparr>] e =
    (RAID_OK, h\<lparr>ra_chunk_size := cs\<rparr>,
      [\<lparr>lo_key = ''raid_chunksize'', lo_value = dec_string cs, lo_valid = True\<rparr>], e)"
  using assms by (simp add: StrToUint32_def strtoull_def scan_number_dec)

text \<open>C19: with the option \<open>raid_chunksize\<close> set to the decimal number \<open>cs\<close>, and every
  image at least one chunk long, the morphed image is the RAID 0 of the images: its size is
  the number of whole chunks of the smallest image times the chunk size times the number of
  images, and a read inside it returns the striped bytes.\<close>

theorem raid_read_stripes:
  assumes "provider_inv p" "provider_images p \<noteq> []" "0 < cs" "cs < 2 ^ 32"
    and "\<forall>img \<in> set (provider_images p). cs \<le> length img"
    and "RaidOptionsParse (RaidCreateHandle d)
      [\<lparr>lo_key = ''raid_chunksize'', lo_value = dec_string cs, lo_valid = v\<rparr>] e =
      (r1, h0, opts, e')"
    and "RaidMorph h0 (provider_funs p) = (r2, h)"
    and "cpi = Min ((\<lambda>img. length img div cs) ` set (provider_images p))"
    and "0 < n" "n < 4294967296" "off + n \<le> cpi * cs * length (provider_images p)"
  shows "r1 = RAID_OK \<and> r2 = RAID_OK \<and>
    RaidSize h = (RAID_OK, cpi * cs * length (provider_images p)) \<and>
    RaidRead h off n = Some (rd_ok (segment off n (raid0_contents cs cpi (provider_images p))))"
proof -
  have h0: "r1 = RAID_OK" "h0 = raid_start d cs"
    using assms(6) RaidOptionsParse_chunksize [OF assms(3,4)] by (simp_all add: raid_start_def)
  note ok = xin.RaidMorph_ok [OF assms(1,2), of h0]
  have h: "r2 = RAID_OK" "ra_debug h = d" "ra_chunk_size h = cs"
    and fit: "chunks_fit cs cpi (provider_images p)"
    using ok assms(3,5,7,8) h0 by (auto simp: raid_start_def RaidCreateHandle_def)
  have inv: "raid_inv (h, p)"
    using assms(1-5,7) h h0 by (simp add: raid_inv_def)
  have c: "raid_contents (h, p) = raid0_contents cs cpi (provider_images p)"
    by (simp add: raid_contents_def h assms(8))
  show ?thesis
    using raid.rd_size_law [OF inv] raid.rd_read_law [OF inv assms(9,10)] assms(11) h0 h c
    by (simp add: raid0_length [OF fit] raid_codes)
qed

lemma raid_read_stripes_witness:
  "fst (snd (RaidOptionsParse (RaidCreateHandle False)
      [\<lparr>lo_key = ''raid_chunksize'', lo_value = dec_string 2, lo_valid = False\<rparr>] None)) =
     raid_start False 2 \<and>
   RaidRead (snd (RaidMorph (raid_start False 2)
      (provider_funs (mem_state [[1, 2, 5], [3, 4]], [[1, 2, 5], [3, 4]])))) 1 3 =
    Some (rd_ok [2, 3, 4])"
proof -
  let ?p = "(mem_state [[1, 2, 5], [3, 4]], [[1, 2, 5], [3, 4]])"
  let ?opt = "\<lambda>v. [\<lparr>lo_key = ''raid_chunksize'', lo_value = dec_string 2, lo_valid = v\<rparr>]"
  have o: "RaidOptionsParse (RaidCreateHandle False) (?opt False) None =
      (RAID_OK, raid_start False 2, ?opt True, None)"
    using RaidOptionsParse_chunksize [of 2 "RaidCreateHandle False" False None]
    by (simp add: raid_start_def)
  have u: "[0..<Suc (Suc 0)] = [0, 1]" by (simp add: upt_rec)
  obtain r h where m: "RaidMorph (raid_start False 2) (provider_funs ?p) = (r, h)"
    by (cases "RaidMorph (raid_start False 2) (provider_funs ?p)")
  have "r = RAID_OK \<and> RaidRead h 1 3 = Some (rd_ok (segment 1 3 (raid0_contents 2 1 [[1, 2, 5], [3, 4]])))"
    using raid_read_stripes [OF mem_provider_inv, of "[[1, 2, 5], [3, 4]]" 2, OF _ _ _ _ _ _ o m,
        of 1 3 1]
    by simp
  then show ?thesis
    using o m by (simp add: raid0_contents_def raid_chunk_def segment_def u numeral_2_eq_2)
qed

text \<open>An image shorter than a chunk before a longer one is forgotten by \<open>RaidMorph\<close>,
  because a chunk count of 0 also means that no image has been seen: the RAID then claims more
  bytes than its images hold, and a read of its first chunk fails.\<close>

theorem raid_short_image_forgotten:
  "\<exists>h. RaidMorph (raid_start False 2)
      (provider_funs (mem_state [[1], [2, 3, 4, 5]], [[1], [2, 3, 4, 5]])) = (RAID_OK, h) \<and>
    RaidSize h = (RAID_OK, 8) \<and> RaidRead h 0 2 = Some (rd_err RAID_CANNOT_READ_DATA\<lparr>rr_buf := [1]\<rparr>)"
  by (simp add: RaidMorph_def raid_start_def RaidCreateHandle_def provider_funs_def
      input_image_functions_def LibXmount_Morphing_ImageCount_def LibXmount_Morphing_Size_def
      RaidSize_def RaidRead_def RaidRead_loop.simps LibXmount_Morphing_Read_def
      GetInputImageData_def mem_image_def loaded_image_def segment_def rd_ok_def rd_err_def
      raid_codes u64_def sub64_def)

end
