(* ===== verification/MorphSwab.thy ===== *)
theory MorphSwab
  imports XmountInput
begin

text \<open>
  The morphing library \<open>libxmount_morphing_swab\<close>: the bytes of every pair are swapped.
  The lemmas show for which reads the library does what it means to do: an even offset
  with an even count. An odd offset or an odd count leaves the read buffer, or returns the
  bytes one position too early.
\<close>

section \<open>Operations\<close>

definition SWAB_OK :: int where "SWAB_OK = 0"
definition SWAB_CANNOT_GET_IMAGECOUNT :: int where "SWAB_CANNOT_GET_IMAGECOUNT = 2"
definition SWAB_CANNOT_GET_IMAGESIZE :: int where "SWAB_CANNOT_GET_IMAGESIZE = 3"
definition SWAB_READ_BEYOND_END_OF_IMAGE :: int where "SWAB_READ_BEYOND_END_OF_IMAGE = 4"
definition SWAB_CANNOT_READ_DATA :: int where "SWAB_CANNOT_READ_DATA = 5"

lemmas swab_codes =
  SWAB_OK_def SWAB_CANNOT_GET_IMAGECOUNT_def SWAB_CANNOT_GET_IMAGESIZE_def
  SWAB_READ_BEYOND_END_OF_IMAGE_def SWAB_CANNOT_READ_DATA_def

record swab_handle =
  sw_debug :: bool
  sw_input_images_count :: nat
  sw_input_functions :: "morph_input option"
  sw_morphed_image_size :: nat

definition SwabCreateHandle :: "bool \<Rightarrow> swab_handle" where
  "SwabCreateHandle debug =
     \<lparr>sw_debug = debug, sw_input_images_count = 0, sw_input_functions = None,
      sw_morphed_image_size = 0\<rparr>"

fun SwabMorph_loop :: "morph_input \<Rightarrow> nat \<Rightarrow> nat \<Rightarrow> nat \<Rightarrow> int \<times> nat" where
  "SwabMorph_loop m i 0 tot = (SWAB_OK, tot)"
| "SwabMorph_loop m i (Suc k) tot =
     (case mi_Size m i of (ret, input_image_size) \<Rightarrow>
        if ret \<noteq> 0 then (SWAB_CANNOT_GET_IMAGESIZE, tot)
        else SwabMorph_loop m (Suc i) k (u64 (tot + input_image_size)))"

definition SwabMorph :: "swab_handle \<Rightarrow> morph_input \<Rightarrow> int \<times> swab_handle" where
  "SwabMorph h m =
     (let h1 = h\<lparr>sw_input_functions := Some m\<rparr> in
      case mi_ImageCount m of (ret, count) \<Rightarrow>
        let h2 = h1\<lparr>sw_input_images_count := count\<rparr> in
        if ret \<noteq> 0 then (SWAB_CANNOT_GET_IMAGECOUNT, h2)
        else case SwabMorph_loop m 0 count (sw_morphed_image_size h) of (ret, tot) \<Rightarrow>
          (ret, h2\<lparr>sw_morphed_image_size := tot\<rparr>))"

definition SwabSize :: "swab_handle \<Rightarrow> int \<times> nat" where
  "SwabSize h = (SWAB_OK, sw_morphed_image_size h)"

text \<open>The swap loop over \<open>data\<close>, \<open>cur_count\<close> bytes long, into the caller's buffer
  \<open>cp\<close> of \<open>count\<close> bytes: \<open>None\<close> where it leaves one of the two.\<close>

function SwabRead_swap :: "bytes \<Rightarrow> nat \<Rightarrow> nat \<Rightarrow> nat \<Rightarrow> bytes \<Rightarrow> bytes option" where
  "SwabRead_swap data cur_count count i cp =
     (if i < cur_count then
        (if i + 1 \<ge> cur_count \<or> i \<ge> count then None
         else let cp1 = cp[i := data ! (i + 1)];
                  cp2 = (if i + 1 < count then cp1[i + 1 := data ! i] else cp1)
              in SwabRead_swap data cur_count count (i + 2) cp2)
      else Some cp)"
  by pat_completeness auto
termination
  by (relation "measure (\<lambda>(data, cur_count, count, i, cp). cur_count - i)") auto

declare SwabRead_swap.simps [simp del]

definition SwabRead :: "swab_handle \<Rightarrow> nat \<Rightarrow> nat \<Rightarrow> read_res option" where
  "SwabRead h offset count =
     (if offset \<ge> sw_morphed_image_size h \<or> u64 (offset + count) > sw_morphed_image_size h
      then Some (rd_err SWAB_READ_BEYOND_END_OF_IMAGE)
      else let cur_offset = (if odd offset then offset - 1 else offset);
               cur_count = (if odd offset then u64 (count + 1) else count)
      in (case sw_input_functions h of None \<Rightarrow> None
          | Some m \<Rightarrow>
            (case mi_Read m 0 cur_offset cur_count of None \<Rightarrow> None
             | Some r \<Rightarrow>
                if rr_ret r \<noteq> 0 \<or> rr_read r \<noteq> cur_count
                then Some (rd_err SWAB_CANNOT_READ_DATA)
                else (case SwabRead_swap (pad cur_count (rr_buf r)) cur_count count 0
                             (replicate count 0) of
                        None \<Rightarrow> None
                      | Some cp \<Rightarrow> Some \<lparr>rr_ret = SWAB_OK, rr_buf = cp, rr_read = count,
                                          rr_errno = 0\<rparr>))))"

section \<open>Specification: swapped pairs\<close>

fun swab_pairs :: "bytes \<Rightarrow> bytes" where
  "swab_pairs (a # b # xs) = b # a # swab_pairs xs"
| "swab_pairs xs = xs"

lemma length_swab_pairs [simp]: "length (swab_pairs xs) = length xs"
  by (induction xs rule: swab_pairs.induct) auto

lemma swab_pairs_involution: "swab_pairs (swab_pairs xs) = xs"
  by (induction xs rule: swab_pairs.induct) auto

lemma drop_swab_pairs: "even k \<Longrightarrow> drop k (swab_pairs xs) = swab_pairs (drop k xs)"
proof (induction xs arbitrary: k rule: swab_pairs.induct)
  case (1 a b xs)
  show ?case
  proof (cases "k = 0")
    case False
    then have k: "k = Suc (Suc (k - 2))" using 1(2) by (cases k; cases "k - 1") auto
    have "even (k - 2)" using 1(2) by simp
    from 1(1) [OF this] show ?thesis by (subst (1 2) k) simp
  qed simp
qed (auto simp: drop_Cons')

lemma take_swab_pairs: "even k \<Longrightarrow> take k (swab_pairs xs) = swab_pairs (take k xs)"
proof (induction xs arbitrary: k rule: swab_pairs.induct)
  case (1 a b xs)
  show ?case
  proof (cases "k = 0")
    case False
    then have k: "k = Suc (Suc (k - 2))" using 1(2) by (cases k; cases "k - 1") auto
    have "even (k - 2)" using 1(2) by simp
    from 1(1) [OF this] show ?thesis by (subst (1 2) k) simp
  qed simp
qed (auto simp: take_Cons')

lemma segment_swab_pairs:
  "even off \<Longrightarrow> even n \<Longrightarrow> segment off n (swab_pairs xs) = swab_pairs (segment off n xs)"
  by (simp add: segment_def drop_swab_pairs take_swab_pairs)

section \<open>The swap loop\<close>

lemma SwabRead_swap_pairs:
  assumes "even cur_count" "length data = cur_count" "count = cur_count \<or> Suc count = cur_count"
  shows "even i \<Longrightarrow> i \<le> cur_count \<Longrightarrow> length cp = count \<Longrightarrow>
    SwabRead_swap data cur_count count i cp =
      Some (take (min i count) cp @ take (count - i) (swab_pairs (drop i data)))"
proof (induction "cur_count - i" arbitrary: i cp rule: less_induct)
  case less
  show ?case
  proof (cases "i = cur_count")
    case True
    then show ?thesis using less.prems assms(3)
      by (subst SwabRead_swap.simps) auto
  next
    case False
    then have i: "i < cur_count" using less.prems by simp
    then have i2: "i + 1 < cur_count" using less.prems(1) assms(1) by presburger
    have ic: "i < count" using i2 assms(3) by auto
    have d: "drop i data = data ! i # data ! (i + 1) # drop (i + 2) data"
      using i2 assms(2) by (metis Cons_nth_drop_Suc Suc_eq_plus1 add_2_eq_Suc' i)
    let ?cp = "cp[i := data ! (i + 1)]"
    let ?cp2 = "if i + 1 < count then ?cp[i + 1 := data ! i] else ?cp"
    have "SwabRead_swap data cur_count count i cp =
        SwabRead_swap data cur_count count (i + 2) ?cp2"
      using i i2 ic by (subst SwabRead_swap.simps) (simp add: Let_def)
    also have "\<dots> = Some (take (min (i + 2) count) ?cp2 @
        take (count - (i + 2)) (swab_pairs (drop (i + 2) data)))"
      using i i2 less.prems by (intro less.hyps) auto
    also have "take (min (i + 2) count) ?cp2 @
        take (count - (i + 2)) (swab_pairs (drop (i + 2) data)) =
      take (min i count) cp @ take (count - i) (swab_pairs (drop i data))"
    proof (cases "i + 1 < count")
      case True
      then have "count - i = Suc (Suc (count - (i + 2)))" by simp
      moreover have "take (i + 2) (?cp[i + 1 := data ! i]) = take i cp @ [data ! (i + 1), data ! i]"
        using True less.prems(3)
        by (simp add: take_Suc_conv_app_nth take_update_cancel)
      ultimately show ?thesis using True by (simp add: d min_def)
    next
      case False
      then have "count = Suc i" using ic by simp
      then have "?cp = take i cp @ [data ! (i + 1)]" using less.prems(3)
        by (simp add: upd_conv_take_nth_drop)
      with \<open>count = Suc i\<close> show ?thesis using less.prems(3)
        by (simp add: d min_def)
    qed
    finally show ?thesis .
  qed
qed

lemma SwabRead_swap_odd_leaves_buffer:
  assumes "odd cur_count"
  shows "even i \<Longrightarrow> i < cur_count \<Longrightarrow> SwabRead_swap data cur_count count i cp = None"
proof (induction "cur_count - i" arbitrary: i cp rule: less_induct)
  case less
  show ?case
  proof (cases "i + 1 \<ge> cur_count \<or> i \<ge> count")
    case True
    then show ?thesis using less.prems by (subst SwabRead_swap.simps) simp
  next
    case False
    then have "i + 2 < cur_count" using less.prems(1) assms by presburger
    then show ?thesis using False less.prems less.hyps [of "i + 2"]
      by (subst SwabRead_swap.simps) (simp add: Let_def)
  qed
qed

section \<open>The library over functions that keep the input_images contract\<close>

context input_images begin

lemma SwabMorph_loop_total:
  assumes g: "in_inv g"
  shows "i + k = length (in_images g) \<Longrightarrow>
     tot + length (concat (drop i (in_images g))) < 2 ^ 63 \<Longrightarrow>
     SwabMorph_loop (in_funs g) i k tot =
       (SWAB_OK, tot + length (concat (drop i (in_images g))))"
proof (induction k arbitrary: i tot)
  case 0
  then show ?case by simp
next
  case (Suc k)
  have i: "i < length (in_images g)" using Suc.prems by simp
  note l = length_concat_drop [OF i]
  have "u64 (tot + length (in_images g ! i)) = tot + length (in_images g ! i)"
    using Suc.prems l by (intro u64_small) simp
  then show ?case
    using Suc.IH [of "Suc i" "tot + length (in_images g ! i)"] Suc.prems l
    by (simp add: in_size_law [OF g i])
qed

lemma SwabMorph_ok:
  assumes g: "in_inv g"
  shows "SwabMorph (SwabCreateHandle d) (in_funs g) =
     (SWAB_OK, \<lparr>sw_debug = d, sw_input_images_count = length (in_images g),
       sw_input_functions = Some (in_funs g),
       sw_morphed_image_size = length (concat (in_images g))\<rparr>)"
  using SwabMorph_loop_total [OF g, of 0 "length (in_images g)" 0] in_bound_law [OF g]
  by (simp add: SwabMorph_def SwabCreateHandle_def in_count_law [OF g] swab_codes)

text \<open>The swapped read, with the range the library really reads.\<close>

lemma SwabRead_even:
  assumes g: "in_inv g" and im: "in_images g = [img]"
    and h: "sw_input_functions h = Some (in_funs g)" "sw_morphed_image_size h = length img"
    and n: "0 < n" "n < 4294967296" and range: "off + n \<le> length img"
    and ev: "even off" "even n"
  shows "SwabRead h off n = Some (rd_ok (segment off n (swab_pairs img)))"
proof -
  have b: "length img < 2 ^ 63" using image_length_bound [OF g, of 0] im by simp
  have u: "u64 (off + n) = off + n" using b range by (simp add: u64_small)
  have rd: "mi_Read (in_funs g) 0 off n = Some (rd_ok (segment off n img))"
    using in_read_law [OF g, of 0 n off] im n range by simp
  have l: "length (segment off n img) = n" using range by simp
  have sw: "SwabRead_swap (segment off n img) n n 0 (replicate n 0) =
      Some (segment off n (swab_pairs img))"
    using SwabRead_swap_pairs [OF ev(2) l, of n 0 "replicate n 0"] l
    by (simp add: segment_swab_pairs [OF ev])
  show ?thesis
    using n range ev l by (simp add: SwabRead_def h u rd sw rd_ok_def swab_codes Let_def)
qed

lemma SwabRead_odd_odd:
  assumes g: "in_inv g" and im: "in_images g = [img]"
    and h: "sw_input_functions h = Some (in_funs g)" "sw_morphed_image_size h = length img"
    and n: "n + 1 < 4294967296" and range: "off + n \<le> length img"
    and od: "odd off" "odd n"
  shows "SwabRead h off n = Some (rd_ok (segment (off - 1) n (swab_pairs img)))"
proof -
  have b: "length img < 2 ^ 63" using image_length_bound [OF g, of 0] im by simp
  obtain k where k: "off = Suc k" "even k" using od(1) by (auto elim: oddE)
  have off: "off = Suc (off - 1)" "even (off - 1)" using k by simp_all
  have n0: "0 < n" "even (n + 1)" using od(2) by (auto elim: oddE)
  have u: "u64 (off + n) = off + n" "u64 (n + 1) = n + 1"
    using b n range by (auto intro!: u64_small)
  have rd: "mi_Read (in_funs g) 0 (off - 1) (n + 1) = Some (rd_ok (segment (off - 1) (n + 1) img))"
    using in_read_law [OF g, of 0 "n + 1" "off - 1"] im n range off by simp
  have l: "length (segment (off - 1) (n + 1) img) = n + 1" using range k by simp
  have "take n (segment (off - 1) (n + 1) (swab_pairs img)) = segment (off - 1) n (swab_pairs img)"
    by (simp add: segment_def min_def)
  then have sw: "SwabRead_swap (segment (off - 1) (n + 1) img) (n + 1) n 0 (replicate n 0) =
      Some (segment (off - 1) n (swab_pairs img))"
    using SwabRead_swap_pairs [OF n0(2) l, of n 0 "replicate n 0"]
      segment_swab_pairs [OF off(2) n0(2), of img, symmetric]
    by simp
  have l2: "length (segment (off - 1) n (swab_pairs img)) = n" using range by simp
  show ?thesis
    using n0 range od l l2 u rd sw by (simp add: SwabRead_def h rd_ok_def swab_codes Let_def)
qed

lemma SwabRead_leaves_buffer:
  assumes g: "in_inv g" and im: "in_images g = [img]"
    and h: "sw_input_functions h = Some (in_funs g)" "sw_morphed_image_size h = length img"
    and n: "0 < n" "n + 1 < 4294967296" and range: "off + n \<le> length img"
    and par: "odd off \<longleftrightarrow> even n"
  shows "SwabRead h off n = None"
proof -
  let ?o = "if odd off then off - 1 else off" and ?c = "if odd off then u64 (n + 1) else n"
  have b: "length img < 2 ^ 63" using image_length_bound [OF g, of 0] im by simp
  have u: "u64 (off + n) = off + n" "u64 (n + 1) = n + 1"
    using b n range by (auto intro!: u64_small)
  have c: "odd ?c" "0 < ?c" "?c < 4294967296" using par n u by (auto simp: u)
  have oc: "?o + ?c \<le> length img"
  proof (cases "odd off")
    case True
    then have "off - 1 + (n + 1) = off + n" by (cases off) auto
    with True range show ?thesis by (simp only: u if_True simp_thms)
  qed (use range in simp)
  have rd: "mi_Read (in_funs g) 0 ?o ?c = Some (rd_ok (segment ?o ?c img))"
    using in_read_law [OF g, of 0 ?c ?o] im c oc by simp
  have l: "length (segment ?o ?c img) = ?c" using oc by simp
  have sw: "SwabRead_swap (segment ?o ?c img) ?c n 0 (replicate n 0) = None"
    using c by (intro SwabRead_swap_odd_leaves_buffer) auto
  show ?thesis
    using n range l unfolding SwabRead_def h
    by (simp add: u(1) rd sw Let_def del: if_split)
qed

end

section \<open>Properties\<close>

text \<open>On a single input image, a read of an even number of bytes at an even offset
  returns the image with the bytes of every pair swapped; swapping the pairs twice gives the
  image back.\<close>

theorem swab_even_read:
  assumes "provider_inv p" "provider_images p = [img]" "0 < n" "n < 4294967296"
    and "off + n \<le> length img" "even off" "even n"
    and "SwabMorph (SwabCreateHandle d) (provider_funs p) = (r, h)"
  shows "r = 0 \<and> SwabSize h = (0, length img) \<and>
    SwabRead h off n = Some (rd_ok (segment off n (swab_pairs img))) \<and>
    swab_pairs (swab_pairs img) = img"
proof -
  have rh: "r = 0" "sw_input_functions h = Some (provider_funs p)"
    "sw_morphed_image_size h = length img"
    using assms(8) by (auto simp: xin.SwabMorph_ok [OF assms(1)] assms(2) swab_codes)
  show ?thesis
    using xin.SwabRead_even [OF assms(1,2) rh(2,3) assms(3-7)] rh
    by (simp add: SwabSize_def swab_codes swab_pairs_involution)
qed

lemma swab_even_read_witness:
  "SwabRead (snd (SwabMorph (SwabCreateHandle False)
      (provider_funs (mem_state [[1, 2, 3, 4]], [[1, 2, 3, 4]])))) 2 2 = Some (rd_ok [4, 3])"
  using swab_even_read [OF mem_provider_inv [of "[[1, 2, 3, 4]]"], of "[1, 2, 3, 4]" 2 2]
  by (cases "SwabMorph (SwabCreateHandle False)
      (provider_funs (mem_state [[1, 2, 3, 4]], [[1, 2, 3, 4]]))")
    (simp add: segment_def)

text \<open>An odd offset with an even count, or an even offset with an odd count, makes
  the swap loop leave its buffer, so that the read has no defined result; an odd offset with an
  odd count returns the swapped bytes from one position too early.\<close>

theorem swab_odd_reads:
  assumes "provider_inv p" "provider_images p = [img]" "0 < n" "n + 1 < 4294967296"
    and "off + n \<le> length img" "odd off \<or> odd n"
    and "SwabMorph (SwabCreateHandle d) (provider_funs p) = (r, h)"
  shows "SwabRead h off n =
    (if odd off \<and> odd n then Some (rd_ok (segment (off - 1) n (swab_pairs img))) else None)"
proof -
  have rh: "r = 0" "sw_input_functions h = Some (provider_funs p)"
    "sw_morphed_image_size h = length img"
    using assms(7) by (auto simp: xin.SwabMorph_ok [OF assms(1)] assms(2) swab_codes)
  show ?thesis
    using xin.SwabRead_odd_odd [OF assms(1,2) rh(2,3) assms(4,5)]
      xin.SwabRead_leaves_buffer [OF assms(1,2) rh(2,3) assms(3,4,5)] assms(6)
    by auto
qed

lemma swab_odd_reads_witness:
  "SwabRead (snd (SwabMorph (SwabCreateHandle False)
      (provider_funs (mem_state [[1, 2, 3, 4]], [[1, 2, 3, 4]])))) 1 1 = Some (rd_ok [2]) \<and>
   SwabRead (snd (SwabMorph (SwabCreateHandle False)
      (provider_funs (mem_state [[1, 2, 3, 4]], [[1, 2, 3, 4]])))) 2 1 = None"
  using swab_odd_reads [OF mem_provider_inv [of "[[1, 2, 3, 4]]"], of "[1, 2, 3, 4]" 1 1]
    swab_odd_reads [OF mem_provider_inv [of "[[1, 2, 3, 4]]"], of "[1, 2, 3, 4]" 1 2]
  by (cases "SwabMorph (SwabCreateHandle False)
      (provider_funs (mem_state [[1, 2, 3, 4]], [[1, 2, 3, 4]]))")
    (simp add: segment_def)

end
