(* ===== verification/XmountCache.thy ===== *)
theory XmountCache
  imports XmountInput
begin

text \<open>
  The morphed image and the cache file of \<open>src/src/xmount.c\<close>: \<open>GetMorphedImageSize\<close>,
  \<open>GetMorphedImageData\<close>, the reads from and writes to the cache file that
  \<open>GetVirtImageData\<close>, \<open>SetVirtImageData\<close> and the two \<open>Set*FileHeaderData\<close>
  functions make, and the layout invariant of the cache file: its regions (index, cached
  blocks, cached VDI header, cached VHD footer) lie inside the file and do not overlap.
  Flushing is not modelled: the file of the model has no buffers.
\<close>

section \<open>The morphed image\<close>

definition GetMorphedImageSize :: "xmount_data \<Rightarrow> int \<times> nat" where
  "GetMorphedImageSize g =
     (case mo_Size (x_morphing g) of (ret, sz) \<Rightarrow> ((if ret \<noteq> 0 then C_FALSE else C_TRUE), sz))"

text \<open>Returns \<open>TRUE\<close> where bytes were read, 0 at or behind the end of the image; the
  number of read bytes is the number of bytes asked for, whatever the library reports.\<close>

definition GetMorphedImageData :: "xmount_data \<Rightarrow> nat \<Rightarrow> nat \<Rightarrow> read_res option" where
  "GetMorphedImageData g offset n =
     (case GetMorphedImageSize g of (ok, image_size) \<Rightarrow>
        if ok \<noteq> C_TRUE then Some (rd_err (- EIO))
        else if offset \<ge> image_size then Some (rd_ok [])
        else
          let to_read = (if u64 (offset + n) > image_size then sub64 image_size offset else n) in
          (case mo_Read (x_morphing g) offset to_read of
             None \<Rightarrow> None
           | Some r \<Rightarrow>
               if rr_ret r \<noteq> 0 then Some (rd_err (- EIO))
               else Some \<lparr>rr_ret = C_TRUE, rr_buf = pad to_read (rr_buf r),
                          rr_read = to_read, rr_errno = 0\<rparr>))"

text \<open>The morphing library in use keeps its contract, with contents \<open>d\<close>. Room is left for
  a header beside the image, so that the size of the virtual image does not wrap.\<close>

definition morphed_ok :: "xmount_data \<Rightarrow> bytes \<Rightarrow> bool" where
  "morphed_ok g d \<longleftrightarrow> length d < 2 ^ 62 \<and> mo_Size (x_morphing g) = (0, length d) \<and>
     (\<forall>off n. 0 < n \<and> n < 4294967296 \<and> off + n \<le> length d \<longrightarrow>
        mo_Read (x_morphing g) off n = Some (rd_ok (segment off n d)))"

lemma GetMorphedImageSize_ok: "morphed_ok g d \<Longrightarrow> GetMorphedImageSize g = (1, length d)"
  by (simp add: morphed_ok_def GetMorphedImageSize_def)

lemma GetMorphedImageData_in_range:
  assumes "morphed_ok g d" "0 < n" "n < 4294967296" "off + n \<le> length d"
  shows "GetMorphedImageData g off n =
    Some \<lparr>rr_ret = 1, rr_buf = segment off n d, rr_read = n, rr_errno = 0\<rparr>"
proof -
  have "u64 (off + n) = off + n" using assms by (intro u64_small) (simp add: morphed_ok_def)
  moreover have "mo_Read (x_morphing g) off n = Some (rd_ok (segment off n d))"
    using assms by (simp add: morphed_ok_def)
  ultimately show ?thesis
    using assms by (simp add: GetMorphedImageData_def GetMorphedImageSize_ok Let_def)
qed

lemma GetMorphedImageData_behind:
  "morphed_ok g d \<Longrightarrow> length d \<le> off \<Longrightarrow> GetMorphedImageData g off n = Some (rd_ok [])"
  by (simp add: GetMorphedImageData_def GetMorphedImageSize_ok)

text \<open>A library handle that keeps the \<open>image_reader\<close> contract is a good morphing library.\<close>

definition loaded_morphing ::
  "string \<Rightarrow> int \<times> nat \<Rightarrow> (nat \<Rightarrow> nat \<Rightarrow> read_res option) \<Rightarrow> morphing_data" where
  "loaded_morphing ty sz rd =
     \<lparr>mo_morph_type = Some ty, mo_lib_params = None, mo_Size = sz, mo_Read = rd\<rparr>"

context image_reader begin

lemma loaded_morphing_ok:
  "rd_inv h \<Longrightarrow> length (rd_contents h) < 2 ^ 62 \<Longrightarrow>
   morphed_ok (g\<lparr>x_morphing := loaded_morphing ty (rd_size h) (rd_read h)\<rparr>) (rd_contents h)"
  by (simp add: morphed_ok_def loaded_morphing_def rd_size_law rd_read_law)

end

section \<open>Access to the cache file\<close>

definition put_file :: "cfile \<Rightarrow> xmount_data \<Rightarrow> xmount_data" where
  "put_file f g = upd_cache (\<lambda>c. c\<lparr>ca_h_cache_file := Some f\<rparr>) g"

definition put_entry :: "nat \<Rightarrow> cache_blkidx \<Rightarrow> xmount_data \<Rightarrow> xmount_data" where
  "put_entry i e g = upd_cache (\<lambda>c. c\<lparr>ca_blkidx := (ca_blkidx c)[i := e]\<rparr>) g"

definition put_header :: "cache_header \<Rightarrow> xmount_data \<Rightarrow> xmount_data" where
  "put_header h g = upd_cache (\<lambda>c. c\<lparr>ca_header := h\<rparr>) g"

lemmas put_defs = put_file_def put_entry_def put_header_def

text \<open>\<open>fseeko\<close> to an offset and \<open>fread\<close> or \<open>fwrite\<close> of one item: 0 or -1.\<close>

definition cache_read :: "nat \<Rightarrow> nat \<Rightarrow> cfile \<Rightarrow> int \<times> bytes \<times> cfile" where
  "cache_read off n f =
     (case fseeko_set off f of (s, f1) \<Rightarrow>
        if s \<noteq> 0 then (-1, [], f1)
        else case fread n f1 of (k, b, f2) \<Rightarrow> ((if k \<noteq> 1 then -1 else 0), b, f2))"

definition cache_write :: "nat \<Rightarrow> bytes \<Rightarrow> cfile \<Rightarrow> int \<times> cfile" where
  "cache_write off bs f =
     (case fseeko_set off f of (s, f1) \<Rightarrow>
        if s \<noteq> 0 then (-1, f1)
        else case fwrite bs f1 of (k, f2) \<Rightarrow> ((if k \<noteq> 1 then -1 else 0), f2))"

definition cache_add :: "bytes \<Rightarrow> cfile \<Rightarrow> int \<times> cfile" where
  "cache_add bs f = (case fwrite bs f of (k, f1) \<Rightarrow> ((if k \<noteq> 1 then -1 else 0), f1))"

text \<open>A file as the operating system lets it be: not larger than its limit, which is a
  positive \<open>off_t\<close>.\<close>

definition file_ok :: "cfile \<Rightarrow> bool" where
  "file_ok f \<longleftrightarrow> length (f_data f) \<le> f_limit f \<and> f_limit f < 2 ^ 63"

lemma cache_read_in_file:
  assumes "file_ok f" "0 < n" "off + n \<le> length (f_data f)"
  shows "cache_read off n f = (0, segment off n (f_data f), f\<lparr>f_pos := off + n\<rparr>)"
  using assms by (simp add: cache_read_def fseeko_set_def file_ok_def fread_ok)

lemma cache_write_in_file:
  assumes "file_ok f" "bs \<noteq> []" "off + length bs \<le> length (f_data f)"
  shows "cache_write off bs f =
    (0, f\<lparr>f_data := overwrite off bs (f_data f), f_pos := off + length bs\<rparr>)"
  using assms by (simp add: cache_write_def fseeko_set_def file_ok_def fwrite_def)

text \<open>A write at the end of the file appends its bytes, or a part of them where it fails.\<close>

lemma cache_add_end:
  assumes "file_ok f" "f_pos f = length (f_data f)" "cache_add bs f = (ret, f')"
  obtains p where "f_data f' = f_data f @ p" "f_pos f' = length (f_data f')" "file_ok f'"
    "f_limit f' = f_limit f" "ret = 0 \<Longrightarrow> p = bs" "ret = 0 \<or> ret = -1"
    "length p \<le> length bs"
    "ret = 0 \<or> bs = [] \<or> f_limit f < f_pos f + length bs"
proof (cases "0 < length bs \<and> f_pos f + length bs \<le> f_limit f")
  case True
  then show ?thesis
    using assms that [of bs] by (auto simp: cache_add_def fwrite_def file_ok_def overwrite_end)
next
  case False
  let ?k = "f_limit f - f_pos f"
  have *: "ret = -1" "f' = snd (fwrite bs f)"
    using False assms(3) by (auto simp: cache_add_def fwrite_def Let_def)
  show ?thesis
  proof (rule that [of "take ?k bs"])
    show "f_data f' = f_data f @ take ?k bs"
      using False assms(1,2) by (auto simp: * fwrite_def Let_def overwrite_end)
    then show "f_pos f' = length (f_data f')"
      using False assms(1,2) by (auto simp: * fwrite_def Let_def)
    then show "file_ok f'"
      using False assms(1,2) by (auto simp: * fwrite_def Let_def file_ok_def)
    show "f_limit f' = f_limit f"
      using False by (auto simp: * fwrite_def Let_def)
    show "ret = 0 \<or> bs = [] \<or> f_limit f < f_pos f + length bs"
      using False by (cases bs) auto
  qed (use * in simp_all)
qed

end
