(* ===== verification/XmountVirt.thy ===== *)
theory XmountVirt
  imports XmountCache
begin

text \<open>
  The virtual image of \<open>src/src/xmount.c\<close>: \<open>GetVirtImageSize\<close>,
  \<open>GetVirtImageData\<close>, \<open>SetVdiFileHeaderData\<close>, \<open>SetVhdFileHeaderData\<close> and
  \<open>SetVirtImageData\<close>, step by step: what stands before the morphed image (a VDI header),
  the blocks of the morphed image with their cached copies, and what stands behind it
  (a VHD footer). The abstract state is one byte list, \<open>virt_contents\<close>: a read returns a
  segment of it, a write overwrites a segment of it.
\<close>

section \<open>Size\<close>

definition GetVirtImageSize :: "xmount_data \<Rightarrow> int \<times> nat \<times> xmount_data" where
  "GetVirtImageSize g =
     (let od = x_output g in
      if out_image_size od \<noteq> 0 then (C_TRUE, out_image_size od, g)
      else case GetMorphedImageSize g of (ok, sz) \<Rightarrow>
        if ok \<noteq> C_TRUE then (C_FALSE, sz, g)
        else
          let sz1 = (case out_VirtImageType od of
                       VirtImageType_VDI \<Rightarrow>
                         u64 (sz + sizeof_VdiFileHeader + vdi_block_map_size (out_vdi od))
                     | VirtImageType_VHD \<Rightarrow> u64 (sz + sizeof_VhdFileHeader)
                     | _ \<Rightarrow> sz)
          in (C_TRUE, sz1, upd_output (\<lambda>x. x\<lparr>out_image_size := sz1\<rparr>) g))"

section \<open>Reading\<close>

text \<open>\<open>n\<close> bytes of a header structure from offset \<open>off\<close> on: from its cached copy at
  \<open>ptr\<close> of the cache file, or from memory.\<close>

definition read_header_data ::
  "bytes \<Rightarrow> bool \<Rightarrow> nat \<Rightarrow> nat \<Rightarrow> nat \<Rightarrow> xmount_data \<Rightarrow> (int \<times> bytes \<times> xmount_data) option" where
  "read_header_data hdr cached ptr off n g =
     (case (ca_h_cache_file (x_cache g), cached) of
        (Some f, True) \<Rightarrow>
          (case cache_read (u64 (ptr + off)) n f of (ret, b, f1) \<Rightarrow>
             Some ((if ret \<noteq> 0 then - EIO else 0), b, put_file f1 g))
      | _ \<Rightarrow> if off + n \<le> length hdr then Some (0, segment off n hdr, g) else None)"

definition read_vdi_header :: "nat \<Rightarrow> nat \<Rightarrow> xmount_data \<Rightarrow> (int \<times> bytes \<times> xmount_data) option" where
  "read_vdi_header off n g =
     (let h = ca_header (x_cache g) in
      read_header_data (vdi_header (out_vdi (x_output g))) (ch_VdiFileHeaderCached h = 1)
        (ch_pVdiFileHeader h) off n g)"

definition read_vhd_footer :: "nat \<Rightarrow> nat \<Rightarrow> xmount_data \<Rightarrow> (int \<times> bytes \<times> xmount_data) option" where
  "read_vhd_footer off n g =
     (let h = ca_header (x_cache g) in
      read_header_data (out_vhd_header (x_output g)) (ch_VhdFileHeaderCached h = 1)
        (ch_pVhdFileHeader h) off n g)"

text \<open>What precedes the morphed image: the result, where the function returns at once, the
  bytes read so far, and the offset in the image and the numbers of bytes to read from it
  and from behind it.\<close>

record virt_split =
  vs_ret :: "int option"
  vs_buf :: bytes
  vs_off :: nat
  vs_now :: nat
  vs_later :: nat

definition GetVirtImageData_head ::
  "xmount_data \<Rightarrow> nat \<Rightarrow> nat \<Rightarrow> nat \<Rightarrow> (virt_split \<times> xmount_data) option" where
  "GetVirtImageData_head g msize file_off to_read =
     (case out_VirtImageType (x_output g) of
        VirtImageType_VDI \<Rightarrow>
          let hs = vdi_header_size (out_vdi (x_output g)) in
          if file_off < hs then
            let cur_to_read = (if u64 (file_off + to_read) > hs then hs - file_off else to_read) in
            (case read_vdi_header file_off cur_to_read g of
               None \<Rightarrow> None
             | Some (ret, b, g1) \<Rightarrow>
                 Some (\<lparr>vs_ret = (if ret \<noteq> 0 then Some ret
                                 else if to_read = cur_to_read then Some (int_of_size to_read)
                                 else None),
                       vs_buf = b, vs_off = 0, vs_now = to_read - cur_to_read, vs_later = 0\<rparr>, g1))
          else Some (\<lparr>vs_ret = None, vs_buf = [], vs_off = file_off - hs, vs_now = to_read,
                      vs_later = 0\<rparr>, g)
      | VirtImageType_VHD \<Rightarrow>
          let later = (if file_off \<ge> msize then to_read
                       else if u64 (file_off + to_read) > msize
                       then sub64 (file_off + to_read) msize else 0) in
          Some (\<lparr>vs_ret = None, vs_buf = [], vs_off = file_off, vs_now = to_read - later,
                 vs_later = later\<rparr>, g)
      | _ \<Rightarrow> Some (\<lparr>vs_ret = None, vs_buf = [], vs_off = file_off, vs_now = to_read,
                    vs_later = 0\<rparr>, g))"

text \<open>One round of the loop: \<open>n\<close> bytes of block \<open>cur_block\<close>.\<close>

definition GetVirtImageData_block ::
  "xmount_data \<Rightarrow> nat \<Rightarrow> nat \<Rightarrow> nat \<Rightarrow> nat \<Rightarrow> (int \<times> bytes \<times> xmount_data) option" where
  "GetVirtImageData_block g cur_block block_off file_off n =
     (let image_data =
        (case GetMorphedImageData g file_off n of
           None \<Rightarrow> None
         | Some r \<Rightarrow> Some ((if rr_ret r \<noteq> C_TRUE \<or> rr_read r \<noteq> n then - EIO else 0), rr_buf r, g))
      in case ca_h_cache_file (x_cache g) of
           None \<Rightarrow> image_data
         | Some f \<Rightarrow>
             if cur_block \<ge> length (ca_blkidx (x_cache g)) then None
             else let e = ca_blkidx (x_cache g) ! cur_block in
               if bi_Assigned e = 1 then
                 (case cache_read (u64 (bi_off_data e + block_off)) n f of (ret, b, f1) \<Rightarrow>
                    Some ((if ret \<noteq> 0 then - EIO else 0), b, put_file f1 g))
               else image_data)"

partial_function (option) GetVirtImageData_loop ::
  "xmount_data \<Rightarrow> nat \<Rightarrow> nat \<Rightarrow> nat \<Rightarrow> nat \<Rightarrow> bytes \<Rightarrow> (int \<times> bytes \<times> nat \<times> xmount_data) option" where
  "GetVirtImageData_loop g cur_block block_off file_off to_read buf =
     (if to_read = 0 then Some (0, buf, file_off, g)
      else
        let cur_to_read = (if u64 (block_off + to_read) > CACHE_BLOCK_SIZE
                           then CACHE_BLOCK_SIZE - block_off else to_read) in
        (case GetVirtImageData_block g cur_block block_off file_off cur_to_read of
           None \<Rightarrow> None
         | Some (ret, b, g1) \<Rightarrow>
             if ret \<noteq> 0 then Some (ret, buf @ b, file_off, g1)
             else GetVirtImageData_loop g1 (u32 (cur_block + 1)) 0 (file_off + cur_to_read)
                    (to_read - cur_to_read) (buf @ b)))"

definition GetVirtImageData ::
  "xmount_data \<Rightarrow> nat \<Rightarrow> nat \<Rightarrow> (int \<times> bytes \<times> xmount_data) option" where
  "GetVirtImageData g offset n =
     (case GetVirtImageSize g of (ok, vsize, g1) \<Rightarrow>
      if ok \<noteq> C_TRUE then Some (- EIO, [], g1)
      else if offset \<ge> vsize then Some (0, [], g1)
      else
        let sz = (if u64 (offset + n) > vsize then vsize - offset else n) in
        case GetMorphedImageSize g1 of (ok, msize) \<Rightarrow>
        if ok \<noteq> C_TRUE then Some (- EIO, [], g1)
        else
        (case GetVirtImageData_head g1 msize offset sz of
           None \<Rightarrow> None
         | Some (vs, g2) \<Rightarrow>
             (case vs_ret vs of
                Some ret \<Rightarrow> Some (ret, vs_buf vs, g2)
              | None \<Rightarrow>
                  (case GetVirtImageData_loop g2 (u32 (vs_off vs div CACHE_BLOCK_SIZE))
                          (vs_off vs mod CACHE_BLOCK_SIZE) (vs_off vs) (vs_now vs) (vs_buf vs) of
                     None \<Rightarrow> None
                   | Some (ret, buf, file_off, g3) \<Rightarrow>
                       if ret \<noteq> 0 then Some (ret, buf, g3)
                       else if vs_later vs \<noteq> 0 \<and> out_VirtImageType (x_output g3) = VirtImageType_VHD
                       then (case read_vhd_footer (file_off - msize) (vs_later vs) g3 of
                               None \<Rightarrow> None
                             | Some (ret, b, g4) \<Rightarrow>
                                 Some ((if ret \<noteq> 0 then ret else int_of_size sz), buf @ b, g4))
                       else Some (int_of_size sz, buf, g3)))))"

section \<open>Writing\<close>

text \<open>A file in the course of several appends: 0 and the file, or -1 and the file.\<close>

fun then_add :: "int \<times> cfile \<Rightarrow> bytes \<Rightarrow> int \<times> cfile" where
  "then_add (ret, f) bs = (if ret \<noteq> 0 then (ret, f) else cache_add bs f)"

text \<open>The common body of \<open>SetVdiFileHeaderData\<close> and \<open>SetVhdFileHeaderData\<close>: the
  structure \<open>hdr\<close>, its size, its cached flag and pointer, and the header update that
  stores a new pointer or sets the flag.\<close>

definition set_header_data ::
  "bytes \<Rightarrow> nat \<Rightarrow> bool \<Rightarrow> nat \<Rightarrow> (nat \<Rightarrow> cache_header \<Rightarrow> cache_header) \<Rightarrow>
   (cache_header \<Rightarrow> cache_header) \<Rightarrow> bytes \<Rightarrow> nat \<Rightarrow> xmount_data \<Rightarrow> (int \<times> xmount_data) option" where
  "set_header_data hdr hsize cached ptr set_ptr set_cached data offset g =
     (case ca_h_cache_file (x_cache g) of
        None \<Rightarrow> None
      | Some f \<Rightarrow>
          if cached then
            (case cache_write (u64 (ptr + offset)) data f of (ret, f1) \<Rightarrow>
               Some ((if ret \<noteq> 0 then -1 else int_of_size (length data)), put_file f1 g))
          else if offset + length data > hsize \<or> hsize > length hdr then None
          else
            let f1 = snd (fseeko_end f);
                h1 = set_ptr (ftello f1) (ca_header (x_cache g));
                g1 = put_header h1 g;
                r2 = (if offset > 0 then cache_add (take offset hdr) f1 else (0, f1));
                r3 = then_add r2 data;
                r4 = (if offset + length data \<noteq> hsize
                      then then_add r3 (segment (offset + length data)
                                          (hsize - (offset + length data)) hdr)
                      else r3)
            in if fst r4 \<noteq> 0 then Some (-1, put_file (snd r4) g1)
               else
                 let h2 = set_cached h1; g2 = put_header h2 g1 in
                 (case cache_write 0 (enc_cache_header h2) (snd r4) of (ret, f5) \<Rightarrow>
                    Some ((if ret \<noteq> 0 then -1 else int_of_size (length data)), put_file f5 g2)))"

definition SetVdiFileHeaderData :: "bytes \<Rightarrow> nat \<Rightarrow> xmount_data \<Rightarrow> (int \<times> xmount_data) option" where
  "SetVdiFileHeaderData buf offset g =
     (let hs = vdi_header_size (out_vdi (x_output g));
          data = (if u64 (offset + length buf) > hs then take (hs - offset) buf else buf);
          h = ca_header (x_cache g)
      in set_header_data (vdi_header (out_vdi (x_output g))) hs
           (ch_VdiFileHeaderCached h = 1) (ch_pVdiFileHeader h)
           (\<lambda>p h. h\<lparr>ch_pVdiFileHeader := p\<rparr>) (\<lambda>h. h\<lparr>ch_VdiFileHeaderCached := 1\<rparr>)
           data offset g)"

definition SetVhdFileHeaderData :: "bytes \<Rightarrow> nat \<Rightarrow> xmount_data \<Rightarrow> (int \<times> xmount_data) option" where
  "SetVhdFileHeaderData buf offset g =
     (let h = ca_header (x_cache g)
      in set_header_data (out_vhd_header (x_output g)) sizeof_VhdFileHeader
           (ch_VhdFileHeaderCached h = 1) (ch_pVhdFileHeader h)
           (\<lambda>p h. h\<lparr>ch_pVhdFileHeader := p\<rparr>) (\<lambda>h. h\<lparr>ch_VhdFileHeaderCached := 1\<rparr>)
           buf offset g)"

text \<open>The parts of a new cache block: the bytes of the image before the written data, and
  those behind it, with zeros behind the end of the image.\<close>

definition cache_prepend :: "xmount_data \<Rightarrow> nat \<Rightarrow> nat \<Rightarrow> cfile \<Rightarrow> (int \<times> cfile) option" where
  "cache_prepend g block_off file_off f =
     (if block_off = 0 then Some (0, f)
      else case GetMorphedImageData g (file_off - block_off) block_off of
             None \<Rightarrow> None
           | Some r \<Rightarrow>
               if rr_ret r \<noteq> C_TRUE \<or> rr_read r \<noteq> block_off then Some (-1, f)
               else Some (cache_add (rr_buf r) f))"

definition cache_append ::
  "xmount_data \<Rightarrow> nat \<Rightarrow> nat \<Rightarrow> nat \<Rightarrow> nat \<Rightarrow> cfile \<Rightarrow> (int \<times> cfile) option" where
  "cache_append g orig_size block_off file_off n f =
     (if block_off + n = CACHE_BLOCK_SIZE then Some (0, f)
      else
        let rest = CACHE_BLOCK_SIZE - (block_off + n);
            want = (if file_off - block_off + CACHE_BLOCK_SIZE > orig_size
                    then sub64 orig_size (file_off + n) else rest) in
        case GetMorphedImageData g (file_off + n) want of
          None \<Rightarrow> None
        | Some r \<Rightarrow>
            if rr_ret r \<noteq> C_TRUE \<or> rr_read r \<noteq> want then Some (-1, f)
            else Some (cache_add (pad rest (rr_buf r)) f))"

definition SetVirtImageData_new_block ::
  "xmount_data \<Rightarrow> cfile \<Rightarrow> nat \<Rightarrow> nat \<Rightarrow> nat \<Rightarrow> nat \<Rightarrow> bytes \<Rightarrow> (int \<times> xmount_data) option" where
  "SetVirtImageData_new_block g f orig_size cur_block block_off file_off data =
     (let f1 = snd (fseeko_end f);
          e1 = (ca_blkidx (x_cache g) ! cur_block)\<lparr>bi_off_data := ftello f1\<rparr>;
          g1 = put_entry cur_block e1 g in
      case cache_prepend g1 block_off file_off f1 of
        None \<Rightarrow> None
      | Some (ret, f2) \<Rightarrow>
          if ret \<noteq> 0 then Some (-1, put_file f2 g1)
          else case cache_add data f2 of (ret, f3) \<Rightarrow>
            if ret \<noteq> 0 then Some (-1, put_file f3 g1)
            else case cache_append g1 orig_size block_off file_off (length data) f3 of
              None \<Rightarrow> None
            | Some (ret, f4) \<Rightarrow>
                if ret \<noteq> 0 then Some (-1, put_file f4 g1)
                else
                  let e2 = e1\<lparr>bi_Assigned := 1\<rparr> in
                  case cache_write (sizeof_CacheFileHeader + cur_block * sizeof_CacheFileBlockIndex)
                         (enc_blkidx e2) f4 of (ret, f5) \<Rightarrow>
                    Some (ret, put_file f5 (put_entry cur_block e2 g1)))"

text \<open>One round of the loop: the bytes \<open>data\<close> into block \<open>cur_block\<close>.\<close>

definition SetVirtImageData_block ::
  "xmount_data \<Rightarrow> nat \<Rightarrow> nat \<Rightarrow> nat \<Rightarrow> nat \<Rightarrow> bytes \<Rightarrow> (int \<times> xmount_data) option" where
  "SetVirtImageData_block g orig_size cur_block block_off file_off data =
     (case ca_h_cache_file (x_cache g) of
        None \<Rightarrow> None
      | Some f \<Rightarrow>
          if cur_block \<ge> length (ca_blkidx (x_cache g)) then None
          else let e = ca_blkidx (x_cache g) ! cur_block in
            if bi_Assigned e = 1 then
              (case cache_write (u64 (bi_off_data e + block_off)) data f of (ret, f1) \<Rightarrow>
                 Some (ret, put_file f1 g))
            else SetVirtImageData_new_block g f orig_size cur_block block_off file_off data)"

text \<open>The loop returns the rest of the buffer and the offset where it ends.\<close>

partial_function (option) SetVirtImageData_loop ::
  "xmount_data \<Rightarrow> nat \<Rightarrow> nat \<Rightarrow> nat \<Rightarrow> nat \<Rightarrow> nat \<Rightarrow> bytes \<Rightarrow>
   (int \<times> bytes \<times> nat \<times> xmount_data) option" where
  "SetVirtImageData_loop g orig_size cur_block block_off file_off to_write buf =
     (if to_write = 0 then Some (0, buf, file_off, g)
      else
        let n = (if u64 (block_off + to_write) > CACHE_BLOCK_SIZE
                 then CACHE_BLOCK_SIZE - block_off else to_write) in
        (case SetVirtImageData_block g orig_size cur_block block_off file_off (take n buf) of
           None \<Rightarrow> None
         | Some (ret, g1) \<Rightarrow>
             if ret \<noteq> 0 then Some (-1, buf, file_off, g1)
             else SetVirtImageData_loop g1 orig_size (u64 (cur_block + 1)) 0 (file_off + n)
                    (to_write - n) (drop n buf)))"

definition size_of_int :: "int \<Rightarrow> nat" where
  "size_of_int r = nat (r mod 18446744073709551616)"

text \<open>What precedes the morphed image; \<open>vs_buf\<close> is the part of the buffer still to write.\<close>

definition SetVirtImageData_head ::
  "xmount_data \<Rightarrow> nat \<Rightarrow> nat \<Rightarrow> bytes \<Rightarrow> (virt_split \<times> xmount_data) option" where
  "SetVirtImageData_head g orig_size file_offset buf =
     (let to_write = length buf in
      case out_VirtImageType (x_output g) of
        VirtImageType_VDI \<Rightarrow>
          if file_offset < vdi_header_size (out_vdi (x_output g)) then
            (case SetVdiFileHeaderData buf file_offset g of
               None \<Rightarrow> None
             | Some (ret, g1) \<Rightarrow>
                 let k = size_of_int ret in
                 Some (\<lparr>vs_ret = (if ret = -1 then Some (-1)
                                 else if k = to_write then Some (int_of_size to_write) else None),
                       vs_buf = drop k buf, vs_off = 0, vs_now = sub64 to_write k,
                       vs_later = 0\<rparr>, g1))
          else Some (\<lparr>vs_ret = None, vs_buf = buf,
                      vs_off = file_offset - vdi_header_size (out_vdi (x_output g)),
                      vs_now = to_write, vs_later = 0\<rparr>, g)
      | VirtImageType_VHD \<Rightarrow>
          let later = (if file_offset \<ge> orig_size then to_write
                       else if u64 (file_offset + to_write) > orig_size
                       then sub64 (file_offset + to_write) orig_size else 0) in
          Some (\<lparr>vs_ret = None, vs_buf = buf, vs_off = file_offset, vs_now = to_write - later,
                 vs_later = later\<rparr>, g)
      | _ \<Rightarrow> Some (\<lparr>vs_ret = None, vs_buf = buf, vs_off = file_offset, vs_now = to_write,
                    vs_later = 0\<rparr>, g))"

definition SetVirtImageData :: "xmount_data \<Rightarrow> bytes \<Rightarrow> nat \<Rightarrow> (int \<times> xmount_data) option" where
  "SetVirtImageData g buf offset =
     (case GetVirtImageSize g of (ok, vsize, g1) \<Rightarrow>
      if ok \<noteq> C_TRUE then Some (-1, g1)
      else if offset \<ge> vsize then Some (-1, g1)
      else
        let data = (if u64 (offset + length buf) > vsize then take (vsize - offset) buf else buf) in
        case GetMorphedImageSize g1 of (ok, orig_size) \<Rightarrow>
        if ok \<noteq> C_TRUE then Some (-1, g1)
        else
        (case SetVirtImageData_head g1 orig_size offset data of
           None \<Rightarrow> None
         | Some (vs, g2) \<Rightarrow>
             (case vs_ret vs of
                Some ret \<Rightarrow> Some (ret, g2)
              | None \<Rightarrow>
                  (case SetVirtImageData_loop g2 orig_size (vs_off vs div CACHE_BLOCK_SIZE)
                          (vs_off vs mod CACHE_BLOCK_SIZE) (vs_off vs) (vs_now vs) (vs_buf vs) of
                     None \<Rightarrow> None
                   | Some (ret, rest, file_off, g3) \<Rightarrow>
                       if ret \<noteq> 0 then Some (-1, g3)
                       else if vs_later vs \<noteq> 0 \<and> out_VirtImageType (x_output g3) = VirtImageType_VHD
                       then (case SetVhdFileHeaderData (take (vs_later vs) rest)
                                    (file_off - orig_size) g3 of
                               None \<Rightarrow> None
                             | Some (ret, g4) \<Rightarrow>
                                 Some ((if ret = -1 then -1 else int_of_size (length data)), g4))
                       else Some (int_of_size (length data), g3)))))"

end
