(* ===== verification/XmountVirtRefine.thy ===== *)
theory XmountVirtRefine
  imports XmountVirt
begin

text \<open>
  The cache file's layout invariant, and the abstraction of the virtual image to one list of
  bytes: the blocks of the morphed image, each replaced by its cached copy where there is one,
  behind the VDI header or before the VHD footer, which may be cached too.
\<close>

section \<open>The layout of the cache file\<close>

datatype cache_region = RIndex | RBlock nat | RVdi | RVhd

fun region_at :: "xmount_data \<Rightarrow> cache_region \<Rightarrow> (nat \<times> nat) option" where
  "region_at g RIndex =
     Some (0, sizeof_CacheFileHeader + sizeof_CacheFileBlockIndex * length (ca_blkidx (x_cache g)))"
| "region_at g (RBlock b) =
     (if b < length (ca_blkidx (x_cache g)) \<and> bi_Assigned (ca_blkidx (x_cache g) ! b) = 1
      then Some (bi_off_data (ca_blkidx (x_cache g) ! b), CACHE_BLOCK_SIZE) else None)"
| "region_at g RVdi =
     (if ch_VdiFileHeaderCached (ca_header (x_cache g)) = 1
      then Some (ch_pVdiFileHeader (ca_header (x_cache g)), vdi_header_size (out_vdi (x_output g)))
      else None)"
| "region_at g RVhd =
     (if ch_VhdFileHeaderCached (ca_header (x_cache g)) = 1
      then Some (ch_pVhdFileHeader (ca_header (x_cache g)), sizeof_VhdFileHeader) else None)"

definition cache_layout :: "xmount_data \<Rightarrow> cfile \<Rightarrow> bool" where
  "cache_layout g f \<longleftrightarrow> ca_h_cache_file (x_cache g) = Some f \<and> file_ok f \<and>
     (\<forall>r s l. region_at g r = Some (s, l) \<longrightarrow> s + l \<le> length (f_data f)) \<and>
     (\<forall>r r' s l s' l'. r \<noteq> r' \<longrightarrow> region_at g r = Some (s, l) \<longrightarrow> region_at g r' = Some (s', l') \<longrightarrow>
        s + l \<le> s' \<or> s' + l' \<le> s)"

definition region_data :: "cfile \<Rightarrow> nat \<times> nat \<Rightarrow> bytes" where
  "region_data f sl = segment (fst sl) (snd sl) (f_data f)"

lemma cache_layoutD:
  assumes "cache_layout g f"
  shows "ca_h_cache_file (x_cache g) = Some f" "file_ok f"
    and "region_at g r = Some (s, l) \<Longrightarrow> s + l \<le> length (f_data f)"
    and "r \<noteq> r' \<Longrightarrow> region_at g r = Some (s, l) \<Longrightarrow> region_at g r' = Some (s', l') \<Longrightarrow>
      s + l \<le> s' \<or> s' + l' \<le> s"
  using assms unfolding cache_layout_def by blast+

text \<open>Every step keeps the layout if the file does not shrink, and if a region that is new,
  the only one that changes, lies behind the old end of the file.\<close>

lemma cache_layout_step:
  assumes lay: "cache_layout g f" and f': "ca_h_cache_file (x_cache g') = Some f'" "file_ok f'"
    and grow: "length (f_data f) \<le> length (f_data f')"
    and regs: "\<And>r. region_at g' r = region_at g r \<or>
      r = n \<and> region_at g' r = Some (length (f_data f), k) \<and>
      length (f_data f) + k \<le> length (f_data f')"
  shows "cache_layout g' f'"
  unfolding cache_layout_def
proof (intro conjI allI impI f')
  fix r s l assume "region_at g' r = Some (s, l)"
  then show "s + l \<le> length (f_data f')"
    using regs [of r] cache_layoutD(3) [OF lay, of r s l] grow by auto
next
  fix r r' s l s' l'
  assume ne: "r \<noteq> r'" and r: "region_at g' r = Some (s, l)" "region_at g' r' = Some (s', l')"
  show "s + l \<le> s' \<or> s' + l' \<le> s"
    using regs [of r] regs [of r'] ne r cache_layoutD(3) [OF lay, of r s l]
      cache_layoutD(3) [OF lay, of r' s' l'] cache_layoutD(4) [OF lay ne, of s l s' l']
    by auto
qed

text \<open>A write inside one region changes that region only.\<close>

lemma segment_overwrite_inside:
  assumes "s + l \<le> length xs" "a + length bs \<le> l"
  shows "segment s l (overwrite (s + a) bs xs) = overwrite a bs (segment s l xs)"
proof (rule nth_equalityI)
  show "length (segment s l (overwrite (s + a) bs xs)) = length (overwrite a bs (segment s l xs))"
    using assms by simp
next
  fix i assume "i < length (segment s l (overwrite (s + a) bs xs))"
  then have "i < l" by simp
  then show "segment s l (overwrite (s + a) bs xs) ! i = overwrite a bs (segment s l xs) ! i"
    using assms by (auto simp: nth_segment nth_overwrite)
qed

lemma region_data_overwrite:
  assumes lay: "cache_layout g f" and r: "region_at g r = Some (s, l)" "a + length bs \<le> l"
    and f': "f_data f' = overwrite (s + a) bs (f_data f)"
  shows "region_data f' (s, l) = overwrite a bs (region_data f (s, l))"
    and "r' \<noteq> r \<Longrightarrow> region_at g r' = Some sl \<Longrightarrow> region_data f' sl = region_data f sl"
    and "length (f_data f') = length (f_data f)"
proof -
  have b: "s + l \<le> length (f_data f)" using cache_layoutD(3) [OF lay r(1)] .
  show "region_data f' (s, l) = overwrite a bs (region_data f (s, l))"
    using b r(2) by (simp add: region_data_def f' segment_overwrite_inside)
  show "length (f_data f') = length (f_data f)"
    using b r(2) by (simp add: f')
  assume "r' \<noteq> r" "region_at g r' = Some sl"
  then have o: "s + l \<le> fst sl \<or> fst sl + snd sl \<le> s" "fst sl + snd sl \<le> length (f_data f)"
    using cache_layoutD(4) [OF lay, of r r' s l "fst sl" "snd sl"] r(1)
      cache_layoutD(3) [OF lay, of r' "fst sl" "snd sl"] by auto
  have "fst sl + snd sl \<le> s + a \<or> s + a + length bs \<le> fst sl"
    using o(1) r(2) by linarith
  with o(2) show "region_data f' sl = region_data f sl"
    unfolding region_data_def f' using b r(2) by (intro segment_overwrite_disjoint) linarith+
qed

lemma region_data_append:
  assumes lay: "cache_layout g f" and r: "region_at g r = Some sl"
    and f': "f_data f' = f_data f @ p"
  shows "region_data f' sl = region_data f sl"
proof -
  have "fst sl + snd sl \<le> length (f_data f)"
    using cache_layoutD(3) [OF lay, of r "fst sl" "snd sl"] r by simp
  then show ?thesis by (simp add: region_data_def f' segment_append_left)
qed

lemma put_cache [simp]:
  "ca_h_cache_file (x_cache (put_file f g)) = Some f"
  "ca_blkidx (x_cache (put_file f g)) = ca_blkidx (x_cache g)"
  "ca_header (x_cache (put_file f g)) = ca_header (x_cache g)"
  "ca_h_cache_file (x_cache (put_entry i e g)) = ca_h_cache_file (x_cache g)"
  "ca_blkidx (x_cache (put_entry i e g)) = (ca_blkidx (x_cache g))[i := e]"
  "ca_header (x_cache (put_entry i e g)) = ca_header (x_cache g)"
  "ca_h_cache_file (x_cache (put_header h g)) = ca_h_cache_file (x_cache g)"
  "ca_blkidx (x_cache (put_header h g)) = ca_blkidx (x_cache g)"
  "ca_header (x_cache (put_header h g)) = h"
  by (simp_all add: put_defs)

lemma put_frame [simp]:
  "x_output (put_file f g) = x_output g" "x_morphing (put_file f g) = x_morphing g"
  "x_input (put_file f g) = x_input g"
  "x_output (put_entry i e g) = x_output g" "x_morphing (put_entry i e g) = x_morphing g"
  "x_input (put_entry i e g) = x_input g"
  "x_output (put_header h g) = x_output g" "x_morphing (put_header h g) = x_morphing g"
  "x_input (put_header h g) = x_input g"
  by (simp_all add: put_defs)

lemma region_at_put_file [simp]: "region_at (put_file f g) r = region_at g r"
  by (cases r) simp_all

section \<open>The contents of the disk\<close>

text \<open>Block \<open>b\<close> of the disk: its cached copy, or the bytes of the image.\<close>

definition disk_block :: "xmount_data \<Rightarrow> bytes \<Rightarrow> nat \<Rightarrow> bytes" where
  "disk_block g d b =
     (case (ca_h_cache_file (x_cache g), region_at g (RBlock b)) of
        (Some f, Some sl) \<Rightarrow> region_data f sl
      | _ \<Rightarrow> pad CACHE_BLOCK_SIZE (segment (b * CACHE_BLOCK_SIZE) CACHE_BLOCK_SIZE d))"

definition disk_contents :: "xmount_data \<Rightarrow> bytes \<Rightarrow> bytes" where
  "disk_contents g d =
     map (\<lambda>i. disk_block g d (i div CACHE_BLOCK_SIZE) ! (i mod CACHE_BLOCK_SIZE)) [0..<length d]"

lemma length_disk_contents [simp]: "length (disk_contents g d) = length d"
  by (simp add: disk_contents_def)

lemma disk_contents_nth:
  assumes "j < CACHE_BLOCK_SIZE" "b * CACHE_BLOCK_SIZE + j < length d"
  shows "disk_contents g d ! (b * CACHE_BLOCK_SIZE + j) = disk_block g d b ! j"
  using assms by (simp add: disk_contents_def)

text \<open>The disk without a cache file is the morphed image.\<close>

lemma disk_contents_plain:
  assumes "\<And>b. region_at g (RBlock b) = None \<or> ca_h_cache_file (x_cache g) = None"
  shows "disk_contents g d = d"
proof (rule nth_equalityI)
  show "length (disk_contents g d) = length d" by simp
next
  fix i assume "i < length (disk_contents g d)"
  then have i: "i < length d" by simp
  let ?b = "i div CACHE_BLOCK_SIZE" and ?j = "i mod CACHE_BLOCK_SIZE"
  have e: "?b * CACHE_BLOCK_SIZE + ?j = i" by simp
  have blk: "disk_block g d ?b = pad CACHE_BLOCK_SIZE (segment (?b * CACHE_BLOCK_SIZE) CACHE_BLOCK_SIZE d)"
    using assms [of ?b] by (auto simp: disk_block_def split: option.splits)
  have "?j < length d - ?b * CACHE_BLOCK_SIZE" using i e by linarith
  then have j: "?j < CACHE_BLOCK_SIZE" "?j < length (segment (?b * CACHE_BLOCK_SIZE) CACHE_BLOCK_SIZE d)"
    by auto
  have "disk_contents g d ! i = disk_block g d ?b ! ?j"
    using i by (simp add: disk_contents_def)
  also have "\<dots> = segment (?b * CACHE_BLOCK_SIZE) CACHE_BLOCK_SIZE d ! ?j"
    using j unfolding blk pad_def by (simp add: nth_append)
  also have "\<dots> = d ! i"
    using j(1) i e by (subst nth_segment) simp_all
  finally show "disk_contents g d ! i = d ! i" .
qed

lemma disk_contents_segment:
  assumes "length (disk_block g d b) = CACHE_BLOCK_SIZE" "a + n \<le> CACHE_BLOCK_SIZE"
    and "b * CACHE_BLOCK_SIZE + a + n \<le> length d"
  shows "segment (b * CACHE_BLOCK_SIZE + a) n (disk_contents g d) = segment a n (disk_block g d b)"
proof (rule nth_equalityI)
  show "length (segment (b * CACHE_BLOCK_SIZE + a) n (disk_contents g d)) =
      length (segment a n (disk_block g d b))"
    using assms by simp
next
  fix i assume "i < length (segment (b * CACHE_BLOCK_SIZE + a) n (disk_contents g d))"
  then have i: "i < n" by simp
  then show "segment (b * CACHE_BLOCK_SIZE + a) n (disk_contents g d) ! i =
      segment a n (disk_block g d b) ! i"
    using assms disk_contents_nth [of "a + i" b d g]
    by (simp add: nth_segment add.assoc)
qed

text \<open>Writing into one block is writing into the disk.\<close>

lemma disk_contents_update:
  assumes len: "length (disk_block g d b) = CACHE_BLOCK_SIZE"
    and same: "\<And>c. c \<noteq> b \<Longrightarrow> disk_block g' d c = disk_block g d c"
    and upd: "disk_block g' d b = overwrite a bs (disk_block g d b)"
    and fit: "a + length bs \<le> CACHE_BLOCK_SIZE" "b * CACHE_BLOCK_SIZE + a + length bs \<le> length d"
  shows "disk_contents g' d = overwrite (b * CACHE_BLOCK_SIZE + a) bs (disk_contents g d)"
proof (rule nth_equalityI)
  show "length (disk_contents g' d) =
      length (overwrite (b * CACHE_BLOCK_SIZE + a) bs (disk_contents g d))"
    using fit by simp
next
  fix i assume "i < length (disk_contents g' d)"
  then have i: "i < length d" by simp
  define c j where "c = i div CACHE_BLOCK_SIZE" and "j = i mod CACHE_BLOCK_SIZE"
  have ij: "i = c * CACHE_BLOCK_SIZE + j" "j < CACHE_BLOCK_SIZE"
    by (simp_all add: c_def j_def)
  have g': "disk_contents g' d ! i = disk_block g' d c ! j"
    and g: "disk_contents g d ! i = disk_block g d c ! j"
    using i ij disk_contents_nth by auto
  show "disk_contents g' d ! i = overwrite (b * CACHE_BLOCK_SIZE + a) bs (disk_contents g d) ! i"
  proof (cases "c = b")
    case True
    have "disk_contents g' d ! i =
        (if a \<le> j \<and> j < a + length bs then bs ! (j - a) else disk_contents g d ! i)"
      using ij(2) fit len by (simp add: g g' True upd nth_overwrite)
    moreover have "overwrite (b * CACHE_BLOCK_SIZE + a) bs (disk_contents g d) ! i =
        (if a \<le> j \<and> j < a + length bs then bs ! (j - a) else disk_contents g d ! i)"
      using i ij(1) fit by (simp add: True nth_overwrite)
    ultimately show ?thesis by simp
  next
    case False
    have "\<not> (b * CACHE_BLOCK_SIZE + a \<le> i \<and> i < b * CACHE_BLOCK_SIZE + a + length bs)"
    proof
      assume *: "b * CACHE_BLOCK_SIZE + a \<le> i \<and> i < b * CACHE_BLOCK_SIZE + a + length bs"
      then have "b * CACHE_BLOCK_SIZE \<le> i" "i < (b + 1) * CACHE_BLOCK_SIZE" using fit by auto
      then have "i div CACHE_BLOCK_SIZE = b"
        by (intro div_nat_eqI) (auto simp: mult.commute)
      then show False using False c_def by simp
    qed
    then have "overwrite (b * CACHE_BLOCK_SIZE + a) bs (disk_contents g d) ! i =
        disk_contents g d ! i"
      using i fit nth_overwrite [of "b * CACHE_BLOCK_SIZE + a" "disk_contents g d" i bs]
      by (simp only: length_disk_contents if_False)
    then show ?thesis by (simp only: g g' same [OF False])
  qed
qed

section \<open>Steps that only move the file position\<close>

definition same_file :: "xmount_data \<Rightarrow> xmount_data \<Rightarrow> bool" where
  "same_file g g' \<longleftrightarrow> x_output g' = x_output g \<and> x_morphing g' = x_morphing g \<and>
     x_input g' = x_input g \<and> ca_header (x_cache g') = ca_header (x_cache g) \<and>
     ca_blkidx (x_cache g') = ca_blkidx (x_cache g) \<and>
     rel_option (\<lambda>f f'. f_data f' = f_data f \<and> f_limit f' = f_limit f)
       (ca_h_cache_file (x_cache g)) (ca_h_cache_file (x_cache g'))"

lemma same_file_refl [simp, intro]: "same_file g g"
  by (cases "ca_h_cache_file (x_cache g)") (simp_all add: same_file_def)

lemma same_file_trans: "same_file g g' \<Longrightarrow> same_file g' g'' \<Longrightarrow> same_file g g''"
  by (cases "ca_h_cache_file (x_cache g)"; cases "ca_h_cache_file (x_cache g')";
      cases "ca_h_cache_file (x_cache g'')") (simp_all add: same_file_def)

lemma same_file_put_pos:
  "ca_h_cache_file (x_cache g) = Some f \<Longrightarrow> same_file g (put_file (f\<lparr>f_pos := p\<rparr>) g)"
  by (simp add: same_file_def)

text \<open>The index in the file agrees with the one in memory: in the assigned entries, and in
  the pointers to cached headers.\<close>

definition entry_agrees :: "cache_blkidx \<Rightarrow> cache_blkidx \<Rightarrow> bool" where
  "entry_agrees e e' \<longleftrightarrow>
     bi_Assigned e' = bi_Assigned e \<and> (bi_Assigned e = 1 \<longrightarrow> bi_off_data e' = bi_off_data e)"

definition norm_header :: "cache_header \<Rightarrow> cache_header" where
  "norm_header h = h\<lparr>ch_pVdiFileHeader := (if ch_VdiFileHeaderCached h = 1 then ch_pVdiFileHeader h else 0),
     ch_pVhdFileHeader := (if ch_VhdFileHeaderCached h = 1 then ch_pVhdFileHeader h else 0)\<rparr>"

definition header_good :: "cache_header \<Rightarrow> bool" where
  "header_good h \<longleftrightarrow> cache_header_wf h \<and> ch_FileSignature h = CACHE_FILE_SIGNATURE \<and>
     ch_CacheFileVersion h = CUR_CACHE_FILE_VERSION \<and> ch_BlockSize h = CACHE_BLOCK_SIZE \<and>
     ch_pBlockIndex h = sizeof_CacheFileHeader"

definition index_synced :: "cache_header \<Rightarrow> cache_blkidx list \<Rightarrow> bytes \<Rightarrow> bool" where
  "index_synced h idx ib \<longleftrightarrow> header_good h \<and>
     norm_header (dec_cache_header (segment 0 sizeof_CacheFileHeader ib)) = norm_header h \<and>
     (\<forall>i < length idx. entry_agrees (idx ! i)
        (dec_blkidx (segment (sizeof_CacheFileHeader + i * sizeof_CacheFileBlockIndex)
           sizeof_CacheFileBlockIndex ib)))"

definition index_data :: "xmount_data \<Rightarrow> cfile \<Rightarrow> bytes" where
  "index_data g f = region_data f (the (region_at g RIndex))"

definition cache_inv :: "xmount_data \<Rightarrow> bytes \<Rightarrow> bool" where
  "cache_inv g d \<longleftrightarrow> (\<forall>f. ca_h_cache_file (x_cache g) = Some f \<longrightarrow>
     cache_layout g f \<and> length (ca_blkidx (x_cache g)) = ceil_div (length d) CACHE_BLOCK_SIZE \<and>
     index_synced (ca_header (x_cache g)) (ca_blkidx (x_cache g)) (index_data g f))"

lemma cache_invD:
  assumes "cache_inv g d" "ca_h_cache_file (x_cache g) = Some f"
  shows "cache_layout g f" "length d \<le> length (ca_blkidx (x_cache g)) * CACHE_BLOCK_SIZE"
    "index_synced (ca_header (x_cache g)) (ca_blkidx (x_cache g)) (index_data g f)"
    "length (ca_blkidx (x_cache g)) = ceil_div (length d) CACHE_BLOCK_SIZE"
  using assms ceil_div_bounds(1) [OF CACHE_BLOCK_SIZE_pos, of "length d"]
  by (simp_all add: cache_inv_def)

lemma same_file_region_at: "same_file g g' \<Longrightarrow> region_at g' r = region_at g r"
  by (cases r) (simp_all add: same_file_def)

lemma same_file_disk_block: "same_file g g' \<Longrightarrow> disk_block g' d b = disk_block g d b"
  by (cases "ca_h_cache_file (x_cache g)"; cases "ca_h_cache_file (x_cache g')")
    (simp_all add: disk_block_def same_file_def region_data_def split: option.splits)

lemma same_file_disk: "same_file g g' \<Longrightarrow> disk_contents g' d = disk_contents g d"
  by (simp add: disk_contents_def same_file_disk_block)

lemma same_file_morphed: "same_file g g' \<Longrightarrow> morphed_ok g' d = morphed_ok g d"
  by (simp add: same_file_def morphed_ok_def)

lemma same_file_cache_inv:
  assumes "same_file g g'" "cache_inv g d"
  shows "cache_inv g' d"
  unfolding cache_inv_def
proof (intro allI impI)
  fix f' assume f': "ca_h_cache_file (x_cache g') = Some f'"
  with assms(1) obtain f where f: "ca_h_cache_file (x_cache g) = Some f"
    and e: "f_data f' = f_data f" "f_limit f' = f_limit f"
    by (cases "ca_h_cache_file (x_cache g)") (auto simp: same_file_def)
  note ci = cache_invD [OF assms(2) f]
  have "cache_layout g' f'"
    by (rule cache_layout_step [OF ci(1) f'])
      (use e cache_layoutD(2) [OF ci(1)] same_file_region_at [OF assms(1)]
        in \<open>auto simp: file_ok_def\<close>)
  moreover have "index_data g' f' = index_data g f"
    using same_file_region_at [OF assms(1), of RIndex] e by (simp del: region_at.simps add: index_data_def region_data_def)
  ultimately show "cache_layout g' f' \<and>
      length (ca_blkidx (x_cache g')) = ceil_div (length d) CACHE_BLOCK_SIZE \<and>
      index_synced (ca_header (x_cache g')) (ca_blkidx (x_cache g')) (index_data g' f')"
    using ci assms(1) by (simp add: same_file_def)
qed

section \<open>Reading the disk\<close>

lemma length_disk_block:
  assumes "cache_inv g d"
  shows "length (disk_block g d b) = CACHE_BLOCK_SIZE"
proof (cases "ca_h_cache_file (x_cache g)")
  case None
  then show ?thesis by (simp add: disk_block_def)
next
  case (Some f)
  then have lay: "cache_layout g f" using assms by (simp add: cache_inv_def)
  show ?thesis
    using Some cache_layoutD(3) [OF lay, of "RBlock b"]
    by (auto simp: disk_block_def region_data_def split: option.splits)
qed

lemma CACHE_BLOCK_SIZE_less: "CACHE_BLOCK_SIZE < 4294967296"
  by (simp add: CACHE_BLOCK_SIZE_def)

lemma uncached_block_segment:
  assumes "region_at g (RBlock b) = None \<or> ca_h_cache_file (x_cache g) = None"
    and "a + n \<le> CACHE_BLOCK_SIZE" "b * CACHE_BLOCK_SIZE + a + n \<le> length d"
  shows "segment a n (disk_block g d b) = segment (b * CACHE_BLOCK_SIZE + a) n d"
proof -
  let ?s = "segment (b * CACHE_BLOCK_SIZE) CACHE_BLOCK_SIZE d"
  have "disk_block g d b = ?s @ replicate (CACHE_BLOCK_SIZE - length ?s) 0"
    using assms(1) by (auto simp: disk_block_def pad_def split: option.splits)
  moreover have "a + n \<le> length ?s" using assms(2,3) by simp
  ultimately show ?thesis
    using assms(2) by (simp add: segment_append_left segment_segment)
qed

lemma block_in_index:
  assumes "length d \<le> k * CACHE_BLOCK_SIZE" "b * CACHE_BLOCK_SIZE + a + n \<le> length d" "0 < n"
  shows "b < k"
proof -
  have "b * CACHE_BLOCK_SIZE < k * CACHE_BLOCK_SIZE" using assms by linarith
  then show ?thesis by simp
qed

lemma GetVirtImageData_block_reads:
  assumes m: "morphed_ok g d" and c: "cache_inv g d" and n: "0 < n" "a + n \<le> CACHE_BLOCK_SIZE"
    and range: "b * CACHE_BLOCK_SIZE + a + n \<le> length d"
  shows "\<exists>g'. GetVirtImageData_block g b a (b * CACHE_BLOCK_SIZE + a) n =
      Some (0, segment (b * CACHE_BLOCK_SIZE + a) n (disk_contents g d), g') \<and> same_file g g'"
proof -
  have n32: "n < 4294967296" using n(2) CACHE_BLOCK_SIZE_less by simp
  note im = GetMorphedImageData_in_range [OF m n(1) n32 range]
  note dc = disk_contents_segment [OF length_disk_block [OF c] n(2) range]
  show ?thesis
  proof (cases "ca_h_cache_file (x_cache g)")
    case None
    then show ?thesis
      using uncached_block_segment [of g b a n d] n(2) range
      by (simp add: GetVirtImageData_block_def im dc)
  next
    case (Some f)
    then have lay: "cache_layout g f"
      and idx: "length d \<le> length (ca_blkidx (x_cache g)) * CACHE_BLOCK_SIZE"
      using cache_invD [OF c] by auto
    note b = block_in_index [OF idx range n(1)]
    show ?thesis
    proof (cases "bi_Assigned (ca_blkidx (x_cache g) ! b) = 1")
      case False
      then show ?thesis
        using uncached_block_segment [of g b a n d] n(2) range b Some
        by (simp add: GetVirtImageData_block_def im dc Let_def)
    next
      case True
      let ?o = "bi_off_data (ca_blkidx (x_cache g) ! b)"
      have r: "region_at g (RBlock b) = Some (?o, CACHE_BLOCK_SIZE)" using b True by simp
      note e = cache_layoutD(3) [OF lay r] and fo = cache_layoutD(2) [OF lay]
      have u: "u64 (?o + a) = ?o + a"
        using e fo n(2) by (intro u64_small) (simp add: file_ok_def)
      have "cache_read (?o + a) n f = (0, segment (?o + a) n (f_data f), f\<lparr>f_pos := ?o + a + n\<rparr>)"
        using e n by (intro cache_read_in_file [OF fo]) auto
      moreover have "segment (?o + a) n (f_data f) = segment a n (disk_block g d b)"
        using Some r n(2) by (simp add: disk_block_def region_data_def segment_segment)
      ultimately show ?thesis
        using b True Some same_file_put_pos [OF Some]
        by (simp add: GetVirtImageData_block_def u dc Let_def)
    qed
  qed
qed

lemma GetVirtImageData_loop_reads:
  shows "morphed_ok g d \<Longrightarrow> cache_inv g d \<Longrightarrow> length d < 2 ^ 52 \<Longrightarrow> a < CACHE_BLOCK_SIZE \<Longrightarrow>
    b * CACHE_BLOCK_SIZE + a + n \<le> length d \<Longrightarrow>
    \<exists>g'. GetVirtImageData_loop g b a (b * CACHE_BLOCK_SIZE + a) n buf =
      Some (0, buf @ segment (b * CACHE_BLOCK_SIZE + a) n (disk_contents g d),
            b * CACHE_BLOCK_SIZE + a + n, g') \<and> same_file g g'"
proof (induction n arbitrary: g b a buf rule: less_induct)
  case (less n)
  note m = less.prems(1) and c = less.prems(2)
  show ?case
  proof (cases "n = 0")
    case True
    then show ?thesis by (subst GetVirtImageData_loop.simps) auto
  next
    case n: False
    define k where "k = min n (CACHE_BLOCK_SIZE - a)"
    have k: "0 < k" "a + k \<le> CACHE_BLOCK_SIZE" "k \<le> n" using n less.prems(4) by (auto simp: k_def)
    have u: "u64 (a + n) = a + n" using less.prems(3,5) by (intro u64_small) simp
    have ck: "(if CACHE_BLOCK_SIZE < a + n then CACHE_BLOCK_SIZE - a else n) = k"
      by (auto simp: k_def)
    let ?f = "b * CACHE_BLOCK_SIZE + a"
    have kr: "?f + k \<le> length d" using less.prems(5) k by simp
    from GetVirtImageData_block_reads [OF m c k(1,2) kr] obtain g1 where
      blk: "GetVirtImageData_block g b a ?f k = Some (0, segment ?f k (disk_contents g d), g1)"
      and s1: "same_file g g1" by auto
    have step: "GetVirtImageData_loop g b a ?f n buf =
        GetVirtImageData_loop g1 (u32 (b + 1)) 0 (?f + k) (n - k)
          (buf @ segment ?f k (disk_contents g d))"
      using n by (subst GetVirtImageData_loop.simps) (simp add: u ck blk Let_def cong: if_cong)
    show ?thesis
    proof (cases "n = k")
      case True
      then show ?thesis
        unfolding step using s1 by (subst GetVirtImageData_loop.simps) auto
    next
      case False
      then have kb: "k = CACHE_BLOCK_SIZE - a" by (auto simp: k_def)
      have next_off: "?f + k = Suc b * CACHE_BLOCK_SIZE + 0" using less.prems(4) by (simp add: kb)
      have "Suc b * CACHE_BLOCK_SIZE < 2 ^ 52" using next_off kr less.prems(3) by linarith
      then have "u32 (b + 1) = Suc b" by (simp add: u32_def CACHE_BLOCK_SIZE_def)
      moreover have "\<exists>g'. GetVirtImageData_loop g1 (Suc b) 0 (Suc b * CACHE_BLOCK_SIZE + 0) (n - k)
          (buf @ segment ?f k (disk_contents g d)) =
        Some (0, (buf @ segment ?f k (disk_contents g d)) @
            segment (Suc b * CACHE_BLOCK_SIZE + 0) (n - k) (disk_contents g1 d),
          Suc b * CACHE_BLOCK_SIZE + 0 + (n - k), g') \<and> same_file g1 g'"
        using less.prems next_off k s1
        by (intro less.IH) (auto simp: same_file_morphed same_file_cache_inv)
      ultimately obtain g' where
        "GetVirtImageData_loop g b a ?f n buf = Some (0, (buf @ segment ?f k (disk_contents g d)) @
            segment (?f + k) (n - k) (disk_contents g1 d), ?f + k + (n - k), g')"
        and s2: "same_file g1 g'"
        unfolding step next_off by auto
      then show ?thesis
        using s1 k same_file_trans [OF s1 s2]
        by (simp add: same_file_disk segment_join)
    qed
  qed
qed

section \<open>The contents of the virtual image\<close>

definition header_contents :: "xmount_data \<Rightarrow> cache_region \<Rightarrow> bytes \<Rightarrow> bytes" where
  "header_contents g r hdr =
     (case (ca_h_cache_file (x_cache g), region_at g r) of
        (Some f, Some sl) \<Rightarrow> region_data f sl | _ \<Rightarrow> hdr)"

definition virt_contents :: "xmount_data \<Rightarrow> bytes \<Rightarrow> bytes" where
  "virt_contents g d =
     (case out_VirtImageType (x_output g) of
        VirtImageType_VDI \<Rightarrow>
          header_contents g RVdi (vdi_header (out_vdi (x_output g))) @ disk_contents g d
      | VirtImageType_VHD \<Rightarrow>
          disk_contents g d @ header_contents g RVhd (out_vhd_header (x_output g))
      | _ \<Rightarrow> disk_contents g d)"

text \<open>The sizes of the header structures, which the functions that build them establish.\<close>

definition headers_ok :: "output_data \<Rightarrow> bool" where
  "headers_ok od \<longleftrightarrow>
     (out_VirtImageType od = VirtImageType_VDI \<longrightarrow>
        vdi_header_size (out_vdi od) = length (vdi_header (out_vdi od)) \<and>
        vdi_header_size (out_vdi od) = sizeof_VdiFileHeader + vdi_block_map_size (out_vdi od) \<and>
        vdi_header_size (out_vdi od) < 4294967296) \<and>
     (out_VirtImageType od = VirtImageType_VHD \<longrightarrow>
        length (out_vhd_header od) = sizeof_VhdFileHeader)"

definition virt_inv :: "xmount_data \<Rightarrow> bytes \<Rightarrow> bool" where
  "virt_inv g d \<longleftrightarrow> morphed_ok g d \<and> cache_inv g d \<and> length d < 2 ^ 52 \<and>
     headers_ok (x_output g) \<and>
     (out_image_size (x_output g) = 0 \<or> out_image_size (x_output g) = length (virt_contents g d))"

lemma virt_invD:
  assumes "virt_inv g d"
  shows "morphed_ok g d" "cache_inv g d" "length d < 2 ^ 52" "headers_ok (x_output g)"
    "out_image_size (x_output g) = 0 \<or> out_image_size (x_output g) = length (virt_contents g d)"
  using assms by (simp_all add: virt_inv_def)

lemma header_regions:
  assumes "headers_ok (x_output g)"
  shows "out_VirtImageType (x_output g) = VirtImageType_VDI \<Longrightarrow>
      region_at g RVdi = (if ch_VdiFileHeaderCached (ca_header (x_cache g)) = 1
        then Some (ch_pVdiFileHeader (ca_header (x_cache g)), length (vdi_header (out_vdi (x_output g))))
        else None)"
    and "out_VirtImageType (x_output g) = VirtImageType_VHD \<Longrightarrow>
      region_at g RVhd = (if ch_VhdFileHeaderCached (ca_header (x_cache g)) = 1
        then Some (ch_pVhdFileHeader (ca_header (x_cache g)), length (out_vhd_header (x_output g)))
        else None)"
  using assms by (simp_all add: headers_ok_def)

lemma length_header_contents:
  assumes "cache_inv g d" "region_at g r = (if cached then Some (ptr, length hdr) else None)"
  shows "length (header_contents g r hdr) = length hdr"
proof (cases "ca_h_cache_file (x_cache g)")
  case None
  then show ?thesis by (simp add: header_contents_def)
next
  case (Some f)
  then have lay: "cache_layout g f" using assms(1) by (simp add: cache_inv_def)
  show ?thesis
    using Some assms(2) cache_layoutD(3) [OF lay, of r ptr "length hdr"]
    by (cases cached) (simp_all add: header_contents_def region_data_def)
qed

lemma same_file_header_contents:
  assumes "same_file g g'"
  shows "header_contents g' r hdr = header_contents g r hdr"
proof -
  have "rel_option (\<lambda>f f'. f_data f' = f_data f \<and> f_limit f' = f_limit f)
      (ca_h_cache_file (x_cache g)) (ca_h_cache_file (x_cache g'))"
    using assms by (simp add: same_file_def)
  then show ?thesis
    by (cases "ca_h_cache_file (x_cache g)"; cases "ca_h_cache_file (x_cache g')")
      (simp_all add: header_contents_def same_file_region_at [OF assms] region_data_def
        split: option.split)
qed

lemma same_file_virt: "same_file g g' \<Longrightarrow> virt_contents g' d = virt_contents g d"
  by (simp add: virt_contents_def same_file_header_contents same_file_disk cong: VirtImageType.case_cong)
    (simp add: same_file_def cong: VirtImageType.case_cong)

lemma same_file_virt_inv: "same_file g g' \<Longrightarrow> virt_inv g d \<Longrightarrow> virt_inv g' d"
  using same_file_morphed [of g g' d] same_file_cache_inv [of g g' d] same_file_virt [of g g' d]
  by (simp add: virt_inv_def) (simp add: same_file_def)

definition header_size :: "output_data \<Rightarrow> nat" where
  "header_size od = (case out_VirtImageType od of
     VirtImageType_VDI \<Rightarrow> vdi_header_size (out_vdi od)
   | VirtImageType_VHD \<Rightarrow> sizeof_VhdFileHeader | _ \<Rightarrow> 0)"

lemma length_virt_parts:
  assumes "headers_ok (x_output g)" "cache_inv g d"
  shows "length (virt_contents g d) = length d + header_size (x_output g)"
  using header_regions [OF assms(1)] length_header_contents [OF assms(2)] assms(1)
  by (auto simp: virt_contents_def headers_ok_def header_size_def split: VirtImageType.splits)

lemma length_virt_contents:
  assumes "virt_inv g d"
  shows "length (virt_contents g d) = length d + header_size (x_output g)"
  using length_virt_parts [OF virt_invD(4,2) [OF assms]] .

lemma header_size_less: "headers_ok od \<Longrightarrow> header_size od < 4294967296"
  by (auto simp: headers_ok_def header_size_def sizeof_VhdFileHeader_def split: VirtImageType.splits)

text \<open>A step that keeps the output data and the cache invariant keeps the invariant.\<close>

lemma virt_inv_step:
  assumes "virt_inv g d" "x_output g' = x_output g" "x_morphing g' = x_morphing g" "cache_inv g' d"
  shows "virt_inv g' d"
proof -
  have "length (virt_contents g' d) = length (virt_contents g d)"
    using length_virt_contents [OF assms(1)] length_virt_parts [of g' d] virt_invD(4) [OF assms(1)]
      assms(2,4) by simp
  then show ?thesis using assms by (simp add: virt_inv_def morphed_ok_def)
qed

text \<open>The size, once asked for, is stored.\<close>

definition set_size :: "nat \<Rightarrow> xmount_data \<Rightarrow> xmount_data" where
  "set_size n g = upd_output (\<lambda>x. x\<lparr>out_image_size := n\<rparr>) g"

lemma set_size_sel [simp]:
  "x_cache (set_size n g) = x_cache g" "x_morphing (set_size n g) = x_morphing g"
  "x_input (set_size n g) = x_input g"
  "out_VirtImageType (x_output (set_size n g)) = out_VirtImageType (x_output g)"
  "out_vdi (x_output (set_size n g)) = out_vdi (x_output g)"
  "out_vhd_header (x_output (set_size n g)) = out_vhd_header (x_output g)"
  "out_image_size (x_output (set_size n g)) = n"
  by (simp_all add: set_size_def)

lemma set_size_region [simp]: "region_at (set_size n g) r = region_at g r"
  by (cases r) simp_all

lemma set_size_virt [simp]: "virt_contents (set_size n g) d = virt_contents g d"
  by (simp add: virt_contents_def header_contents_def disk_contents_def disk_block_def
      del: region_at.simps split: VirtImageType.split)

lemma set_size_inv:
  assumes "virt_inv g d" "n = length (virt_contents g d)"
  shows "virt_inv (set_size n g) d"
  using assms
  by (auto simp: virt_inv_def morphed_ok_def cache_inv_def cache_layout_def headers_ok_def index_data_def)

lemma GetVirtImageSize_ok:
  assumes "virt_inv g d"
  shows "GetVirtImageSize g =
    (1, length (virt_contents g d), set_size (length (virt_contents g d)) g)"
proof (cases "out_image_size (x_output g) = 0")
  case False
  then have "out_image_size (x_output g) = length (virt_contents g d)"
    using virt_invD(5) [OF assms] by simp
  moreover have "set_size (out_image_size (x_output g)) g = g"
    by (simp add: set_size_def upd_output_def)
  ultimately show ?thesis using False by (simp add: GetVirtImageSize_def Let_def)
next
  case True
  let ?n = "length (virt_contents g d)"
  have len: "length d < 2 ^ 52" by (rule virt_invD(3) [OF assms])
  have sz: "(case out_VirtImageType (x_output g) of
       VirtImageType_VDI \<Rightarrow>
         u64 (length d + sizeof_VdiFileHeader + vdi_block_map_size (out_vdi (x_output g)))
     | VirtImageType_VHD \<Rightarrow> u64 (length d + sizeof_VhdFileHeader) | _ \<Rightarrow> length d) = ?n"
    using len virt_invD(4) [OF assms] length_virt_contents [OF assms]
    by (cases "out_VirtImageType (x_output g)")
      (simp_all add: headers_ok_def u64_small sizeof_VhdFileHeader_def header_size_def)
  show ?thesis
    using True sz
    by (simp add: GetVirtImageSize_def GetMorphedImageSize_ok [OF virt_invD(1) [OF assms]]
        set_size_def Let_def)
qed

section \<open>Reading the virtual image\<close>

lemma read_header_data_ok:
  assumes c: "cache_inv g d"
    and r: "region_at g r = (if cached then Some (ptr, length hdr) else None)"
    and n: "0 < n" "off + n \<le> length hdr"
  shows "\<exists>g'. read_header_data hdr cached ptr off n g =
      Some (0, segment off n (header_contents g r hdr), g') \<and> same_file g g'"
proof (cases "ca_h_cache_file (x_cache g)")
  case None
  then show ?thesis using n by (simp add: read_header_data_def header_contents_def)
next
  case (Some f)
  then have lay: "cache_layout g f" using c by (simp add: cache_inv_def)
  show ?thesis
  proof (cases cached)
    case False
    then show ?thesis using n r Some by (simp add: read_header_data_def header_contents_def)
  next
    case True
    note e = cache_layoutD(3) [OF lay, of r ptr "length hdr"] and fo = cache_layoutD(2) [OF lay]
    have e': "ptr + length hdr \<le> length (f_data f)" using e r True by simp
    have u: "u64 (ptr + off) = ptr + off"
      using e' fo n by (intro u64_small) (simp add: file_ok_def)
    have "cache_read (ptr + off) n f =
        (0, segment (ptr + off) n (f_data f), f\<lparr>f_pos := ptr + off + n\<rparr>)"
      using e' n by (intro cache_read_in_file [OF fo]) auto
    moreover have "segment (ptr + off) n (f_data f) = segment off n (header_contents g r hdr)"
      using Some r True n(2) by (simp add: header_contents_def region_data_def segment_segment)
    ultimately show ?thesis
      using True Some same_file_put_pos [OF Some] by (simp add: read_header_data_def u)
  qed
qed

lemma read_vdi_header_ok:
  assumes "virt_inv g d" "out_VirtImageType (x_output g) = VirtImageType_VDI"
    and "0 < n" "off + n \<le> length (vdi_header (out_vdi (x_output g)))"
  shows "\<exists>g'. read_vdi_header off n g =
    Some (0, segment off n (header_contents g RVdi (vdi_header (out_vdi (x_output g)))), g') \<and>
    same_file g g'"
  using read_header_data_ok [OF virt_invD(2) [OF assms(1)]
      header_regions(1) [OF virt_invD(4) [OF assms(1)] assms(2)] assms(3,4)]
  by (simp add: read_vdi_header_def Let_def)

lemma read_vhd_footer_ok:
  assumes "virt_inv g d" "out_VirtImageType (x_output g) = VirtImageType_VHD"
    and "0 < n" "off + n \<le> length (out_vhd_header (x_output g))"
  shows "\<exists>g'. read_vhd_footer off n g =
    Some (0, segment off n (header_contents g RVhd (out_vhd_header (x_output g))), g') \<and>
    same_file g g'"
  using read_header_data_ok [OF virt_invD(2) [OF assms(1)]
      header_regions(2) [OF virt_invD(4) [OF assms(1)] assms(2)] assms(3,4)]
  by (simp add: read_vhd_footer_def Let_def)

end
