(* ===== verification/XmountVirtRead.thy ===== *)
theory XmountVirtRead
  imports XmountVirtRefine
begin

text \<open>
  \<open>GetVirtImageData\<close> refines reading a segment of \<open>virt_contents\<close>.
\<close>

lemma GetVirtImageData_disk:
  assumes "virt_inv g d" "n = 0 \<or> off + n \<le> length d"
  shows "\<exists>g'. GetVirtImageData_loop g (u32 (off div CACHE_BLOCK_SIZE)) (off mod CACHE_BLOCK_SIZE)
      off n buf = Some (0, buf @ segment off n (disk_contents g d), off + n, g') \<and> same_file g g'"
proof (cases "n = 0")
  case True
  then show ?thesis by (subst GetVirtImageData_loop.simps) auto
next
  case False
  let ?b = "off div CACHE_BLOCK_SIZE" and ?a = "off mod CACHE_BLOCK_SIZE"
  have e: "?b * CACHE_BLOCK_SIZE + ?a = off" by simp
  have len: "off + n \<le> length d" "length d < 2 ^ 52"
    using assms(2) False virt_invD(3) [OF assms(1)] by auto
  then have "off < 2 ^ 52" by simp
  then have "?b < 4294967296" by (simp add: CACHE_BLOCK_SIZE_def)
  then have "u32 ?b = ?b" by (rule u32_small)
  then show ?thesis
    using GetVirtImageData_loop_reads [OF virt_invD(1,2) [OF assms(1)] len(2), of ?a ?b n buf] len e
    by simp
qed

text \<open>The three ways to split a read, for a read that ends inside the image.\<close>

lemma GetVirtImageData_head_vdi:
  assumes inv: "virt_inv g d" and t: "out_VirtImageType (x_output g) = VirtImageType_VDI"
    and n: "0 < n" "off + n \<le> length (virt_contents g d)"
  defines "hdr \<equiv> header_contents g RVdi (vdi_header (out_vdi (x_output g)))"
  defines "hs \<equiv> length hdr"
  shows "\<exists>g'. GetVirtImageData_head g m off n =
    Some (\<lparr>vs_ret = (if off < hs \<and> off + n \<le> hs then Some (int_of_size n) else None),
           vs_buf = segment off n hdr, vs_off = off - hs, vs_now = n - (hs - off), vs_later = 0\<rparr>, g')
    \<and> same_file g g'"
proof -
  note h = virt_invD(4) [OF inv]
  have hs: "vdi_header_size (out_vdi (x_output g)) = hs" "length (vdi_header (out_vdi (x_output g))) = hs"
    using h t length_header_contents [OF virt_invD(2) [OF inv] header_regions(1) [OF h t]]
    by (simp_all add: hs_def hdr_def headers_ok_def)
  have "off + n < 2 ^ 53"
    using n(2) length_virt_contents [OF inv] virt_invD(3) [OF inv] h t by (simp add: headers_ok_def header_size_def)
  then have u: "u64 (off + n) = off + n" by (intro u64_small) simp
  show ?thesis
  proof (cases "off < hs")
    case False
    then show ?thesis
      using t by (auto simp: GetVirtImageData_head_def hs Let_def hs_def segment_def)
  next
    case True
    define k where "k = min n (hs - off)"
    have k: "0 < k" "off + k \<le> hs" using n(1) True by (auto simp: k_def)
    have ck: "(if hs < off + n then hs - off else n) = k" by (auto simp: k_def)
    obtain g' where "read_vdi_header off k g = Some (0, segment off k hdr, g')" "same_file g g'"
      using read_vdi_header_ok [OF inv t k(1), of off] k(2) hs(2) by (auto simp: hdr_def)
    moreover have "segment off k hdr = segment off n hdr" by (simp add: k_def hs_def segment_clip)
    ultimately show ?thesis
      using t True by (auto simp: GetVirtImageData_head_def hs u ck Let_def k_def)
  qed
qed

lemma GetVirtImageData_in_range:
  assumes inv: "virt_inv g d" and n: "0 < n" "n < 2147483648"
    and range: "off + n \<le> length (virt_contents g d)"
  shows "\<exists>g'. GetVirtImageData g off n = Some (int n, segment off n (virt_contents g d), g') \<and>
    virt_inv g' d \<and> virt_contents g' d = virt_contents g d"
proof -
  let ?L = "length (virt_contents g d)"
  define g1 where "g1 = set_size ?L g"
  have inv1: "virt_inv g1 d" "virt_contents g1 d = virt_contents g d"
    using set_size_inv [OF inv] by (simp_all add: g1_def)
  have "?L < 2 ^ 53"
    using length_virt_contents [OF inv] virt_invD(3) [OF inv] header_size_less [OF virt_invD(4) [OF inv]]
    by simp
  then have u: "u64 (off + n) = off + n" using range by (intro u64_small) simp
  have i: "int_of_size n = int n" by (rule int_of_size_small [OF n(2)])
  note size = GetVirtImageSize_ok [OF inv, folded g1_def]
    and msize = GetMorphedImageSize_ok [OF virt_invD(1) [OF inv1(1)]]
  have fin: ?thesis if "GetVirtImageData g off n = Some (int n, segment off n (virt_contents g1 d), g')"
    "same_file g1 g'" for g'
    using that inv1 same_file_virt [of g1 g' d] same_file_virt_inv [of g1 g' d] by auto
  have loop: "\<exists>g''. GetVirtImageData_loop g' (u32 (o' div CACHE_BLOCK_SIZE)) (o' mod CACHE_BLOCK_SIZE)
      o' k buf = Some (0, buf @ segment o' k (disk_contents g1 d), o' + k, g'') \<and> same_file g1 g''"
    if "same_file g1 g'" "k = 0 \<or> o' + k \<le> length d" for g' o' k buf
    using GetVirtImageData_disk [OF same_file_virt_inv [OF that(1) inv1(1)] that(2), of buf]
      same_file_disk [OF that(1), of d] same_file_trans [OF that(1)] by auto
  have len1: "off + n \<le> length (virt_contents g1 d)" "?L = length (virt_contents g1 d)"
    using range inv1(2) by auto
  note lv = length_virt_contents [OF inv1(1)]
  consider (vdi) "out_VirtImageType (x_output g1) = VirtImageType_VDI"
    | (vhd) "out_VirtImageType (x_output g1) = VirtImageType_VHD"
    | (plain) "out_VirtImageType (x_output g1) \<noteq> VirtImageType_VDI"
      "out_VirtImageType (x_output g1) \<noteq> VirtImageType_VHD" by blast
  then show ?thesis
  proof cases
    case plain
    have c: "virt_contents g1 d = disk_contents g1 d"
      using plain by (simp add: virt_contents_def split: VirtImageType.splits)
    have head: "GetVirtImageData_head g1 (length d) off n =
        Some (\<lparr>vs_ret = None, vs_buf = [], vs_off = off, vs_now = n, vs_later = 0\<rparr>, g1)"
      using plain by (simp add: GetVirtImageData_head_def split: VirtImageType.splits)
    obtain g' where "GetVirtImageData_loop g1 (u32 (off div CACHE_BLOCK_SIZE))
        (off mod CACHE_BLOCK_SIZE) off n [] = Some (0, segment off n (disk_contents g1 d), off + n, g')"
      "same_file g1 g'"
      using loop [of g1 n off "[]"] len1 c by auto
    then show ?thesis
      using n range by (intro fin) (simp_all add: GetVirtImageData_def size msize u head c i Let_def)
  next
    case vdi
    let ?hdr = "header_contents g1 RVdi (vdi_header (out_vdi (x_output g1)))"
    let ?hs = "length ?hdr"
    have c: "virt_contents g1 d = ?hdr @ disk_contents g1 d"
      using vdi by (simp add: virt_contents_def)
    obtain g2 where head: "GetVirtImageData_head g1 (length d) off n =
      Some (\<lparr>vs_ret = (if off < ?hs \<and> off + n \<le> ?hs then Some (int_of_size n) else None),
        vs_buf = segment off n ?hdr, vs_off = off - ?hs, vs_now = n - (?hs - off), vs_later = 0\<rparr>, g2)"
      and s2: "same_file g1 g2"
      using GetVirtImageData_head_vdi [OF inv1(1) vdi n(1) len1(1)] by blast
    have seg: "segment off n (virt_contents g1 d) =
        segment off n ?hdr @ segment (off - ?hs) (n - (?hs - off)) (disk_contents g1 d)"
      by (simp add: c segment_append)
    show ?thesis
    proof (cases "off < ?hs \<and> off + n \<le> ?hs")
      case True
      then have "n - (?hs - off) = 0" by simp
      then show ?thesis
        using n range True s2 seg
        by (intro fin) (simp_all add: GetVirtImageData_def size msize u head i Let_def)
    next
      case False
      have "n - (?hs - off) = 0 \<or> off - ?hs + (n - (?hs - off)) \<le> length d"
        using len1(1) by (auto simp: c)
      from loop [OF s2 this, of "segment off n ?hdr"] obtain g3 where
        "GetVirtImageData_loop g2 (u32 ((off - ?hs) div CACHE_BLOCK_SIZE))
          ((off - ?hs) mod CACHE_BLOCK_SIZE) (off - ?hs) (n - (?hs - off)) (segment off n ?hdr) =
        Some (0, segment off n ?hdr @ segment (off - ?hs) (n - (?hs - off)) (disk_contents g1 d),
          off - ?hs + (n - (?hs - off)), g3)" "same_file g1 g3" by auto
      then show ?thesis
        using n range False seg
        by (intro fin) (auto simp: GetVirtImageData_def size msize u head i Let_def)
    qed
  next
    case vhd
    let ?ftr = "header_contents g1 RVhd (out_vhd_header (x_output g1))"
    have c: "virt_contents g1 d = disk_contents g1 d @ ?ftr"
      using vhd by (simp add: virt_contents_def)
    define now later where "now = n - (off + n - max off (length d))"
      and "later = off + n - max off (length d)"
    have nl: "n = now + later" "now = 0 \<or> off + now \<le> length d" "now = min n (length d - off)"
      by (auto simp: now_def later_def max_def)
    have sub: "sub64 (off + n) (length d) = off + n - length d" if "length d < off + n"
      using that \<open>?L < 2 ^ 53\<close> range by (intro sub64_small) auto
    have head: "GetVirtImageData_head g1 (length d) off n =
        Some (\<lparr>vs_ret = None, vs_buf = [], vs_off = off, vs_now = now, vs_later = later\<rparr>, g1)"
      using vhd sub by (auto simp: GetVirtImageData_head_def u now_def later_def Let_def)
    obtain g2 where lp: "GetVirtImageData_loop g1 (u32 (off div CACHE_BLOCK_SIZE))
        (off mod CACHE_BLOCK_SIZE) off now [] = Some (0, segment off now (disk_contents g1 d), off + now, g2)"
      and s2: "same_file g1 g2"
      using loop [of g1 now off "[]"] nl(2) by auto
    have seg: "segment off n (virt_contents g1 d) =
        segment off now (disk_contents g1 d) @ segment (off + now - length d) later ?ftr"
    proof -
      have "n - (length d - off) = later" by (auto simp: later_def max_def)
      moreover have "segment off now (disk_contents g1 d) = segment off n (disk_contents g1 d)"
        using segment_clip [of off n "disk_contents g1 d"] nl(3) by simp
      moreover have "later = 0 \<or> off + now - length d = off - length d" using nl by auto
      ultimately show ?thesis by (auto simp: c segment_append)
    qed
    show ?thesis
    proof (cases "later = 0")
      case True
      then show ?thesis
        using n range lp s2 seg
        by (intro fin) (simp_all add: GetVirtImageData_def size msize u head i Let_def)
    next
      case False
      have inv2: "virt_inv g2 d" and o2: "x_output g2 = x_output g1"
        using same_file_virt_inv [OF s2 inv1(1)] s2 by (simp_all add: same_file_def)
      have fl: "length (out_vhd_header (x_output g2)) = sizeof_VhdFileHeader"
        using virt_invD(4) [OF inv2] vhd by (simp add: headers_ok_def o2)
      have "length d \<le> off + now" using False by (simp add: later_def now_def max_def split: if_splits)
      moreover have "off + (now + later) \<le> length d + sizeof_VhdFileHeader"
        using len1(1) unfolding nl(1) [symmetric] by (simp add: lv vhd header_size_def)
      ultimately have "off + now - length d + later \<le> length (out_vhd_header (x_output g2))"
        using fl by linarith
      from read_vhd_footer_ok [OF inv2 _ _ this] obtain g3 where
        "read_vhd_footer (off + now - length d) later g2 =
          Some (0, segment (off + now - length d) later ?ftr, g3)" "same_file g2 g3"
        using vhd False same_file_header_contents [OF s2] by (auto simp: o2)
      then show ?thesis
        using n range lp s2 seg False vhd same_file_trans [OF s2]
        by (intro fin) (simp_all add: GetVirtImageData_def size msize u head i o2 Let_def)
    qed
  qed
qed

end
