(* ===== verification/XmountVirtWrite.thy ===== *)
theory XmountVirtWrite
  imports XmountVirtRefine
begin

text \<open>
  \<open>SetVirtImageData\<close> refines overwriting a segment of \<open>virt_contents\<close>: every step
  keeps the cache invariant, whether it fails or not, and a step that succeeds writes exactly
  its bytes.
\<close>

section \<open>The index in the file\<close>

lemma index_region: "region_at g RIndex = Some (0, sizeof_CacheFileHeader +
    sizeof_CacheFileBlockIndex * length (ca_blkidx (x_cache g)))"
  by simp

lemma length_index_data:
  assumes "cache_layout g f"
  shows "length (index_data g f) =
    sizeof_CacheFileHeader + sizeof_CacheFileBlockIndex * length (ca_blkidx (x_cache g))"
  using cache_layoutD(3) [OF assms index_region]
  by (simp add: index_data_def region_data_def)

lemma dec_enc_entry: "blkidx_wf e \<Longrightarrow> dec_blkidx (enc_blkidx e) = e"
  using dec_enc_blkidx [of e "[]"] by simp

lemma index_synced_entry:
  assumes syn: "index_synced h idx ib" and wf: "blkidx_wf e" and b: "b < length idx"
    and len: "length ib = sizeof_CacheFileHeader + sizeof_CacheFileBlockIndex * length idx"
  shows "index_synced h (idx[b := e])
    (overwrite (sizeof_CacheFileHeader + b * sizeof_CacheFileBlockIndex) (enc_blkidx e) ib)"
proof -
  let ?ib = "overwrite (sizeof_CacheFileHeader + b * sizeof_CacheFileBlockIndex) (enc_blkidx e) ib"
  note c = sizeof_CacheFileHeader_def sizeof_CacheFileBlockIndex_def
  have bb: "b * 12 + 12 \<le> 12 * length idx" using b by simp
  have hd: "segment 0 sizeof_CacheFileHeader ?ib = segment 0 sizeof_CacheFileHeader ib"
    using bb len by (intro segment_overwrite_disjoint) (simp_all add: c)
  have en: "segment (sizeof_CacheFileHeader + i * sizeof_CacheFileBlockIndex)
      sizeof_CacheFileBlockIndex ?ib =
    (if i = b then enc_blkidx e else segment (sizeof_CacheFileHeader + i * sizeof_CacheFileBlockIndex)
      sizeof_CacheFileBlockIndex ib)" if "i < length idx" for i
  proof (cases "i = b")
    case True
    then show ?thesis
      using bb len by (simp add: c segment_overwrite_same)
  next
    case False
    then have "i * 12 + 12 \<le> b * 12 \<or> b * 12 + 12 \<le> i * 12" by linarith
    then show ?thesis
      using bb len False that by (auto simp: c intro!: segment_overwrite_disjoint)
  qed
  show ?thesis
    using syn by (auto simp: index_synced_def hd en nth_list_update dec_enc_entry [OF wf] entry_agrees_def)
qed

lemma index_synced_unassigned:
  assumes "index_synced h idx ib" "bi_Assigned (idx ! b) \<noteq> 1" "b < length idx"
  shows "index_synced h (idx[b := (idx ! b)\<lparr>bi_off_data := v\<rparr>]) ib"
  using assms by (auto simp: index_synced_def entry_agrees_def nth_list_update)

lemma index_synced_header:
  assumes syn: "index_synced h idx ib" and wf: "header_good h'"
    and len: "length ib = sizeof_CacheFileHeader + sizeof_CacheFileBlockIndex * length idx"
  shows "index_synced h' idx (overwrite 0 (enc_cache_header h') ib)"
proof -
  let ?ib = "overwrite 0 (enc_cache_header h') ib"
  note c = sizeof_CacheFileHeader_def sizeof_CacheFileBlockIndex_def
  have hd: "segment 0 sizeof_CacheFileHeader ?ib = enc_cache_header h'"
    using len by (intro segment_overwrite_same) (simp_all add: c)
  have en: "segment (sizeof_CacheFileHeader + i * sizeof_CacheFileBlockIndex)
      sizeof_CacheFileBlockIndex ?ib = segment (sizeof_CacheFileHeader + i * sizeof_CacheFileBlockIndex)
      sizeof_CacheFileBlockIndex ib" if "i < length idx" for i
    using len that by (intro segment_overwrite_disjoint) (simp_all add: c)
  have "dec_cache_header (enc_cache_header h') = h'"
    using dec_enc_cache_header [of h' "[]"] wf by (simp add: header_good_def)
  then show ?thesis using syn wf by (simp add: index_synced_def hd en)
qed

lemma index_synced_pointer:
  assumes "index_synced h idx ib" "header_good h'" "norm_header h' = norm_header h"
  shows "index_synced h' idx ib"
  using assms by (simp add: index_synced_def)

section \<open>A new cache block\<close>

text \<open>The three parts of a block are appended alike, an empty one not at all.\<close>

definition add_part :: "bytes \<Rightarrow> cfile \<Rightarrow> int \<times> cfile" where
  "add_part bs f = (if bs = [] then (0, f) else cache_add bs f)"

definition at_end :: "cfile \<Rightarrow> bool" where
  "at_end f \<longleftrightarrow> file_ok f \<and> f_pos f = length (f_data f)"

lemma add_part_end:
  assumes "at_end f" "add_part bs f = (r, f')"
  shows "\<exists>p. f_data f' = f_data f @ p \<and> at_end f' \<and> f_limit f' = f_limit f \<and>
    length p \<le> length bs \<and>
    (if r = 0 then p = bs else r = -1 \<and> f_limit f < length (f_data f) + length bs)"
proof (cases "bs = []")
  case True
  then show ?thesis using assms by (simp add: add_part_def)
next
  case False
  then have "cache_add bs f = (r, f')" using assms(2) by (simp add: add_part_def)
  then obtain p where p: "f_data f' = f_data f @ p" "f_pos f' = length (f_data f')" "file_ok f'"
    "f_limit f' = f_limit f" "r = 0 \<Longrightarrow> p = bs" "r = 0 \<or> r = -1" "length p \<le> length bs"
    "r = 0 \<or> bs = [] \<or> f_limit f < f_pos f + length bs"
    using cache_add_end [of f bs r f'] assms(1) unfolding at_end_def by metis
  then show ?thesis
    using False assms(1) by (cases "r = 0"; intro exI [of _ p]) (auto simp: at_end_def)
qed

lemma cache_prepend_eq:
  assumes "morphed_ok g d" "a < CACHE_BLOCK_SIZE" "b * CACHE_BLOCK_SIZE + a \<le> length d"
  shows "cache_prepend g a (b * CACHE_BLOCK_SIZE + a) f =
    Some (add_part (segment (b * CACHE_BLOCK_SIZE) a d) f)"
proof (cases "a = 0")
  case False
  then have "GetMorphedImageData g (b * CACHE_BLOCK_SIZE) a =
      Some \<lparr>rr_ret = 1, rr_buf = segment (b * CACHE_BLOCK_SIZE) a d, rr_read = a, rr_errno = 0\<rparr>"
    using assms CACHE_BLOCK_SIZE_less by (intro GetMorphedImageData_in_range) auto
  moreover have "length (segment (b * CACHE_BLOCK_SIZE) a d) = a" using assms(3) by simp
  then have "segment (b * CACHE_BLOCK_SIZE) a d \<noteq> []" using False by (metis list.size(3))
  ultimately show ?thesis using False by (simp add: cache_prepend_def add_part_def)
qed (simp add: cache_prepend_def add_part_def)

lemma drop_pad:
  assumes "e \<le> k"
  shows "pad (k - e) (segment (s + e) (k - e) d) = drop e (pad k (segment s k d))"
  using assms by (auto simp: pad_def segment_def drop_drop drop_take min_def add.commute)

text \<open>The bytes behind the written ones are read up to the end of the image; none are left
  where the write ends exactly there, and then the step fails.\<close>

lemma cache_append_eq:
  assumes m: "morphed_ok g d" and n: "0 < n" "a + n \<le> CACHE_BLOCK_SIZE"
    and range: "b * CACHE_BLOCK_SIZE + a + n \<le> length d"
  shows "cache_append g (length d) a (b * CACHE_BLOCK_SIZE + a) n f =
    Some (if a + n = CACHE_BLOCK_SIZE \<or> b * CACHE_BLOCK_SIZE + a + n < length d then
            add_part (drop (a + n) (pad CACHE_BLOCK_SIZE
              (segment (b * CACHE_BLOCK_SIZE) CACHE_BLOCK_SIZE d))) f
          else (-1, f))"
proof (cases "a + n = CACHE_BLOCK_SIZE")
  case True
  then show ?thesis by (simp add: cache_append_def add_part_def)
next
  case False
  let ?s = "b * CACHE_BLOCK_SIZE" and ?r = "CACHE_BLOCK_SIZE - (a + n)"
  let ?old = "pad CACHE_BLOCK_SIZE (segment ?s CACHE_BLOCK_SIZE d)"
  define want where "want = min (length d - (?s + a + n)) ?r"
  have w: "(if length d < ?s + CACHE_BLOCK_SIZE then sub64 (length d) (?s + a + n) else ?r) = want"
    using range n(2) m by (auto simp: want_def sub64_small morphed_ok_def)
  show ?thesis
  proof (cases "?s + a + n < length d")
    case True
    then have want: "0 < want" "want < 4294967296" "?s + a + n + want \<le> length d"
      using False n(2) CACHE_BLOCK_SIZE_less by (auto simp: want_def)
    note rd = GetMorphedImageData_in_range [OF m want]
    have "segment (?s + a + n) want d = segment (?s + (a + n)) ?r d"
      using segment_clip [of "?s + a + n" ?r d] by (simp add: want_def min.commute add.assoc)
    then have "pad ?r (segment (?s + a + n) want d) = drop (a + n) ?old"
      using drop_pad [OF n(2), of ?s d] by simp
    moreover have "length (drop (a + n) ?old) = ?r" by simp
    then have "drop (a + n) ?old \<noteq> []" using False n(2) by (metis diff_is_0_eq le_antisym list.size(3))
    ultimately show ?thesis
      using False True rd by (simp add: cache_append_def w add_part_def Let_def)
  next
    case at_end: False
    then have e: "length d = ?s + a + n" using range by simp
    have "GetMorphedImageData g (?s + a + n) want = Some (rd_ok [])"
      using GetMorphedImageData_behind [OF m] e by simp
    then show ?thesis
      using False at_end by (simp add: cache_append_def w Let_def)
  qed
qed

text \<open>The outcomes of a new block: it is complete and its entry is written, or the file has
  grown by some bytes and the entry is still free.\<close>

definition new_entry :: "xmount_data \<Rightarrow> cfile \<Rightarrow> nat \<Rightarrow> cache_blkidx" where
  "new_entry g f b = (ca_blkidx (x_cache g) ! b)\<lparr>bi_off_data := length (f_data f)\<rparr>"

definition tail_ok :: "bytes \<Rightarrow> nat \<Rightarrow> nat \<Rightarrow> bool" where
  "tail_ok d b e \<longleftrightarrow> e = CACHE_BLOCK_SIZE \<or> b * CACHE_BLOCK_SIZE + e < length d"

text \<open>The appends of a new block before its entry is written.\<close>

definition add_block :: "bytes \<Rightarrow> nat \<Rightarrow> nat \<Rightarrow> bytes \<Rightarrow> cfile \<Rightarrow> int \<times> cfile" where
  "add_block d b a data f =
     (case add_part (segment (b * CACHE_BLOCK_SIZE) a d) f of (r, f2) \<Rightarrow>
        if r \<noteq> 0 then (r, f2)
        else case add_part data f2 of (r, f3) \<Rightarrow>
          if r \<noteq> 0 then (r, f3)
          else if tail_ok d b (a + length data)
          then add_part (drop (a + length data) (pad CACHE_BLOCK_SIZE
                 (segment (b * CACHE_BLOCK_SIZE) CACHE_BLOCK_SIZE d))) f3
          else (-1, f3))"

lemma new_block_parts:
  assumes "a + length data \<le> CACHE_BLOCK_SIZE" "b * CACHE_BLOCK_SIZE + a \<le> length d"
  shows "segment (b * CACHE_BLOCK_SIZE) a d @ data @ drop (a + length data)
      (pad CACHE_BLOCK_SIZE (segment (b * CACHE_BLOCK_SIZE) CACHE_BLOCK_SIZE d)) =
    overwrite a data (pad CACHE_BLOCK_SIZE (segment (b * CACHE_BLOCK_SIZE) CACHE_BLOCK_SIZE d))"
proof -
  have "a \<le> length d - b * CACHE_BLOCK_SIZE" using assms(2) by linarith
  then have "take a (pad CACHE_BLOCK_SIZE (segment (b * CACHE_BLOCK_SIZE) CACHE_BLOCK_SIZE d)) =
      segment (b * CACHE_BLOCK_SIZE) a d"
    using assms(1) by (simp add: pad_def segment_def min_def)
  then show ?thesis using assms(1) by (simp add: overwrite_def)
qed

lemma add_block_end:
  assumes f: "at_end f" and n: "a + length data \<le> CACHE_BLOCK_SIZE"
    and range: "b * CACHE_BLOCK_SIZE + a \<le> length d" and r: "add_block d b a data f = (r, f')"
  shows "\<exists>p. f_data f' = f_data f @ p \<and> at_end f' \<and> f_limit f' = f_limit f \<and>
    length p \<le> CACHE_BLOCK_SIZE \<and>
    (if r = 0 then tail_ok d b (a + length data) \<and> p = overwrite a data
       (pad CACHE_BLOCK_SIZE (segment (b * CACHE_BLOCK_SIZE) CACHE_BLOCK_SIZE d))
     else r = -1 \<and> (\<not> tail_ok d b (a + length data) \<or>
       f_limit f < length (f_data f) + CACHE_BLOCK_SIZE))"
proof -
  let ?pre = "segment (b * CACHE_BLOCK_SIZE) a d"
  let ?tl = "drop (a + length data) (pad CACHE_BLOCK_SIZE
      (segment (b * CACHE_BLOCK_SIZE) CACHE_BLOCK_SIZE d))"
  have l: "length ?pre = a" "length ?tl = CACHE_BLOCK_SIZE - (a + length data)"
    using range by simp_all
  obtain r2 f2 where 2: "add_part ?pre f = (r2, f2)" by fastforce
  obtain r3 f3 where 3: "add_part data f2 = (r3, f3)" by fastforce
  obtain r4 f4 where 4: "add_part ?tl f3 = (r4, f4)" by fastforce
  from add_part_end [OF f 2] obtain p2 where p2: "f_data f2 = f_data f @ p2" "at_end f2"
    "f_limit f2 = f_limit f" "length p2 \<le> a"
    "if r2 = 0 then p2 = ?pre else r2 = -1 \<and> f_limit f < length (f_data f) + a"
    unfolding l(1) by blast
  from add_part_end [OF p2(2) 3] obtain p3 where p3: "f_data f3 = f_data f2 @ p3" "at_end f3"
    "f_limit f3 = f_limit f2" "length p3 \<le> length data"
    "if r3 = 0 then p3 = data else r3 = -1 \<and> f_limit f2 < length (f_data f2) + length data"
    by blast
  from add_part_end [OF p3(2) 4] obtain p4 where p4: "f_data f4 = f_data f3 @ p4" "at_end f4"
    "f_limit f4 = f_limit f3" "length p4 \<le> CACHE_BLOCK_SIZE - (a + length data)"
    "if r4 = 0 then p4 = ?tl else r4 = -1 \<and>
      f_limit f3 < length (f_data f3) + (CACHE_BLOCK_SIZE - (a + length data))"
    unfolding l(2) by blast
  consider "r2 \<noteq> 0" | "r2 = 0" "r3 \<noteq> 0" | "r2 = 0" "r3 = 0" "\<not> tail_ok d b (a + length data)"
    | "r2 = 0" "r3 = 0" "tail_ok d b (a + length data)" by blast
  then show ?thesis
  proof cases
    case 1
    then have "r = r2" "f' = f2" using r by (simp_all add: add_block_def 2)
    then show ?thesis using 1 p2 n by (intro exI [of _ p2]) simp
  next
    case c: 2
    then have "r = r3" "f' = f3" using r by (simp_all add: add_block_def 2 3)
    then show ?thesis using c p2 p3 n l(1) by (intro exI [of _ "p2 @ p3"]) simp
  next
    case c: 3
    then have "r = -1" "f' = f3" using r by (simp_all add: add_block_def 2 3)
    then show ?thesis using c p2 p3 n l(1) by (intro exI [of _ "p2 @ p3"]) simp
  next
    case c: 4
    then have e: "r = r4" "f' = f4" using r by (simp_all add: add_block_def 2 3 4)
    have d4: "f_data f4 = f_data f @ (?pre @ data @ p4)" "length (?pre @ data @ p4) \<le> CACHE_BLOCK_SIZE"
      using c p2 p3 p4 n l(1) by simp_all
    have lim: "f_limit f < length (f_data f) + CACHE_BLOCK_SIZE" if "r4 \<noteq> 0"
      using that c p2 p3 p4 n l(1) by simp
    show ?thesis
      using e c p2 p3 p4 d4 lim new_block_parts [OF n range]
      by (intro exI [of _ "?pre @ data @ p4"]) (simp split: if_splits)
  qed
qed

lemma SetVirtImageData_new_block_eq:
  fixes f :: cfile
  assumes m: "morphed_ok g d" and n: "data \<noteq> []" "a + length data \<le> CACHE_BLOCK_SIZE"
    and range: "b * CACHE_BLOCK_SIZE + a + length data \<le> length d"
  defines "e1 \<equiv> new_entry g f b"
  defines "e2 \<equiv> e1\<lparr>bi_Assigned := 1\<rparr>"
  shows "SetVirtImageData_new_block g f (length d) b a (b * CACHE_BLOCK_SIZE + a) data =
    (case add_block d b a data (f\<lparr>f_pos := length (f_data f)\<rparr>) of (r, f4) \<Rightarrow>
       if r \<noteq> 0 then Some (-1, put_file f4 (put_entry b e1 g))
       else case cache_write (sizeof_CacheFileHeader + b * sizeof_CacheFileBlockIndex)
              (enc_blkidx e2) f4 of (ret, f5) \<Rightarrow>
                Some (ret, put_file f5 (put_entry b e2 (put_entry b e1 g))))"
proof -
  define f1 where "f1 = f\<lparr>f_pos := length (f_data f)\<rparr>"
  have f1: "snd (fseeko_end f) = f1" "ftello f1 = length (f_data f)"
    by (simp_all add: fseeko_end_def f1_def ftello_def)
  define g1 where "g1 = put_entry b e1 g"
  have m1: "morphed_ok g1 d" using m by (simp add: g1_def morphed_ok_def)
  have n0: "0 < length data" using n(1) by simp
  have a: "a < CACHE_BLOCK_SIZE" "b * CACHE_BLOCK_SIZE + a \<le> length d"
    using n(2) n0 range by linarith+
  have ca: "cache_add data = add_part data" using n(1) by (simp add: add_part_def fun_eq_iff)
  note parts = cache_prepend_eq [OF m1 a] ca cache_append_eq [OF m1 n0 n(2) range]
  show ?thesis
    unfolding SetVirtImageData_new_block_def Let_def f1(1) f1(2) new_entry_def [symmetric]
      e1_def [symmetric] g1_def [symmetric] e2_def [symmetric] f1_def [symmetric] parts
    by (simp add: add_block_def tail_ok_def split: prod.split)
qed

end
