(* ===== verification/XmountVirtBlocks.thy ===== *)
theory XmountVirtBlocks
  imports XmountVirtWrite
begin

text \<open>
  One round of the write loop and the loop: the cache invariant is kept on every path, the
  headers and the other blocks are left alone, and the disk has changed by exactly the bytes
  of the successful rounds.
\<close>

section \<open>What a step on one block leaves alone\<close>

definition keeps_but :: "xmount_data \<Rightarrow> cfile \<Rightarrow> xmount_data \<Rightarrow> cfile \<Rightarrow> nat \<Rightarrow> bool" where
  "keeps_but g f g' f' b \<longleftrightarrow>
     ca_h_cache_file (x_cache g) = Some f \<and> ca_h_cache_file (x_cache g') = Some f' \<and>
     (\<forall>r. r \<noteq> RIndex \<longrightarrow> r \<noteq> RBlock b \<longrightarrow> region_at g' r = region_at g r \<and>
        (\<forall>sl. region_at g r = Some sl \<longrightarrow> region_data f' sl = region_data f sl))"

lemma keeps_but_block: "keeps_but g f g' f' b \<Longrightarrow> c \<noteq> b \<Longrightarrow> disk_block g' d c = disk_block g d c"
  by (auto simp: keeps_but_def disk_block_def simp del: region_at.simps split: option.split)

lemma keeps_but_header:
  "keeps_but g f g' f' b \<Longrightarrow> r = RVdi \<or> r = RVhd \<Longrightarrow>
   header_contents g' r hdr = header_contents g r hdr"
  by (auto simp: keeps_but_def header_contents_def simp del: region_at.simps split: option.split)

definition write_frame :: "xmount_data \<Rightarrow> xmount_data \<Rightarrow> bool" where
  "write_frame g g' \<longleftrightarrow> x_output g' = x_output g \<and> x_morphing g' = x_morphing g \<and>
     x_input g' = x_input g \<and> ca_header (x_cache g') = ca_header (x_cache g) \<and>
     (\<forall>r hdr. r = RVdi \<or> r = RVhd \<longrightarrow> header_contents g' r hdr = header_contents g r hdr)"

lemma write_frame_refl [simp]: "write_frame g g"
  by (simp add: write_frame_def)

lemma write_frame_trans: "write_frame g g' \<Longrightarrow> write_frame g' g'' \<Longrightarrow> write_frame g g''"
  by (simp add: write_frame_def)

text \<open>The result of one round: what holds on every path.\<close>

definition block_step ::
  "xmount_data \<Rightarrow> bytes \<Rightarrow> nat \<Rightarrow> nat \<Rightarrow> bytes \<Rightarrow> int \<Rightarrow> xmount_data \<Rightarrow> bool" where
  "block_step g d b a data ret g' \<longleftrightarrow>
     write_frame g g' \<and> cache_inv g' d \<and> (ret = 0 \<or> ret = -1) \<and>
     (\<forall>c. c \<noteq> b \<longrightarrow> region_at g' (RBlock c) = region_at g (RBlock c)) \<and>
     disk_contents g' d =
       (if ret = 0 then overwrite (b * CACHE_BLOCK_SIZE + a) data (disk_contents g d)
        else disk_contents g d)"

lemma disk_contents_cong: "(\<And>b. disk_block g' d b = disk_block g d b) \<Longrightarrow> disk_contents g' d = disk_contents g d"
  by (simp add: disk_contents_def)

section \<open>A cached block\<close>

lemma write_assigned_step:
  assumes c: "cache_inv g d" and f: "ca_h_cache_file (x_cache g) = Some f"
    and r: "region_at g (RBlock b) = Some (s, CACHE_BLOCK_SIZE)"
    and n: "a + length data \<le> CACHE_BLOCK_SIZE" "b * CACHE_BLOCK_SIZE + a + length data \<le> length d"
    and g': "g' = put_file f' g" and f': "f_data f' = overwrite (s + a) data (f_data f)" "file_ok f'"
  shows "block_step g d b a data 0 g'"
proof -
  note ci = cache_invD [OF c f]
  note rd = region_data_overwrite [OF ci(1) r n(1) f'(1)]
  have keep: "keeps_but g f g' f' b"
    unfolding keeps_but_def using f rd(2) by (auto simp: g' simp del: region_at.simps)
  have ix: "index_data g' f' = index_data g f"
    unfolding index_data_def index_region g'
    using rd(2) [OF _ index_region] by (simp add: index_region del: region_at.simps)
  have "cache_layout g' f'"
    by (rule cache_layout_step [OF ci(1) _ f'(2)]) (use rd(3) in \<open>simp_all add: g'\<close>)
  then have inv: "cache_inv g' d"
    using ci ix by (simp add: cache_inv_def g')
  have blk: "disk_block g' d b = overwrite a data (disk_block g d b)"
    using rd(1) f r by (simp add: disk_block_def g' del: region_at.simps)
  have "disk_contents g' d = overwrite (b * CACHE_BLOCK_SIZE + a) data (disk_contents g d)"
    by (rule disk_contents_update [OF length_disk_block [OF c] keeps_but_block [OF keep] blk n])
  then show ?thesis
    using inv keeps_but_header [OF keep] by (simp add: block_step_def write_frame_def g' del: region_at.simps)
qed

section \<open>An uncached block\<close>

lemma region_at_put_unassigned:
  assumes "bi_Assigned (ca_blkidx (x_cache g) ! b) \<noteq> 1" "bi_Assigned e \<noteq> 1"
    and "b < length (ca_blkidx (x_cache g))"
  shows "region_at (put_entry b e g) r = region_at g r"
  using assms by (cases r) (auto simp: nth_list_update)

lemma new_block_failed_step:
  assumes c: "cache_inv g d" and f: "ca_h_cache_file (x_cache g) = Some f"
    and b: "b < length (ca_blkidx (x_cache g))" "bi_Assigned (ca_blkidx (x_cache g) ! b) \<noteq> 1"
    and g': "g' = put_file f' (put_entry b (new_entry g f b) g)"
    and f': "f_data f' = f_data f @ p" "file_ok f'"
  shows "block_step g d b a data (-1) g'"
proof -
  note ci = cache_invD [OF c f]
  have r: "region_at g' r = region_at g r" for r
    unfolding g' region_at_put_file using b
    by (intro region_at_put_unassigned) (simp_all add: new_entry_def)
  have rd: "region_data f' sl = region_data f sl" if "region_at g r = Some sl" for r sl
    using region_data_append [OF ci(1) that f'(1)] .
  have keep: "keeps_but g f g' f' k" for k
    unfolding keeps_but_def using f r rd by (auto simp: g' simp del: region_at.simps)
  have ix: "index_data g' f' = index_data g f"
    unfolding index_data_def r [of RIndex] using rd [OF index_region] by simp
  have "cache_layout g' f'"
    by (rule cache_layout_step [OF ci(1) _ f'(2)]) (use r f'(1) in \<open>simp_all add: g'\<close>)
  then have inv: "cache_inv g' d"
    using ci ix index_synced_unassigned [OF ci(3) b(2,1)] by (simp add: cache_inv_def g' new_entry_def)
  have "disk_block g' d k = disk_block g d k" for k
    using keeps_but_block [OF keep [of "Suc k"], of k d] by simp
  then have "disk_contents g' d = disk_contents g d" by (rule disk_contents_cong)
  then show ?thesis
    using inv keeps_but_header [OF keep] r
    by (simp add: block_step_def write_frame_def del: region_at.simps) (simp add: g')
qed

lemma new_block_written_step:
  assumes c: "cache_inv g d" and f: "ca_h_cache_file (x_cache g) = Some f"
    and b: "b < length (ca_blkidx (x_cache g))" "bi_Assigned (ca_blkidx (x_cache g) ! b) \<noteq> 1"
    and n: "a + length data \<le> CACHE_BLOCK_SIZE" "b * CACHE_BLOCK_SIZE + a + length data \<le> length d"
    and e: "e = (new_entry g f b)\<lparr>bi_Assigned := 1\<rparr>"
    and g': "g' = put_file f' (put_entry b e (put_entry b (new_entry g f b) g))"
    and blk: "blk = overwrite a data
      (pad CACHE_BLOCK_SIZE (segment (b * CACHE_BLOCK_SIZE) CACHE_BLOCK_SIZE d))"
    and f': "f_data f' = overwrite (sizeof_CacheFileHeader + b * sizeof_CacheFileBlockIndex)
      (enc_blkidx e) (f_data f @ blk)" "file_ok f'"
  shows "block_step g d b a data 0 g'"
proof -
  note ci = cache_invD [OF c f]
  let ?o = "sizeof_CacheFileHeader + b * sizeof_CacheFileBlockIndex"
  let ?ix = "sizeof_CacheFileHeader + sizeof_CacheFileBlockIndex * length (ca_blkidx (x_cache g))"
  have ixl: "?ix \<le> length (f_data f)" using cache_layoutD(3) [OF ci(1) index_region] by simp
  have o: "?o + length (enc_blkidx e) \<le> ?ix"
  proof -
    have "b * 12 + 12 \<le> 12 * length (ca_blkidx (x_cache g))" using b(1) by simp
    then show ?thesis by (simp add: sizeof_CacheFileBlockIndex_def)
  qed
  have lb: "length blk = CACHE_BLOCK_SIZE" using n(1) by (simp add: blk)
  have idx: "ca_blkidx (x_cache g') = (ca_blkidx (x_cache g))[b := e]" by (simp add: g')
  have fd: "f_data f' = overwrite ?o (enc_blkidx e) (f_data f) @ blk"
    using o ixl by (simp add: f'(1) overwrite_def)
  define fo where "fo = f\<lparr>f_data := overwrite ?o (enc_blkidx e) (f_data f)\<rparr>"
  note rdo = region_data_overwrite [OF ci(1) index_region, of ?o "enc_blkidx e" fo]
  have rd: "region_data f' sl = region_data fo sl" if "region_at g r = Some sl" for r sl
  proof -
    have "fst sl + snd sl \<le> length (f_data f)"
      using cache_layoutD(3) [OF ci(1), of r "fst sl" "snd sl"] that by simp
    then show ?thesis using o ixl
      by (simp add: region_data_def fd fo_def segment_append_left)
  qed
  have r: "region_at g' r = (if r = RBlock b then Some (length (f_data f), CACHE_BLOCK_SIZE)
      else region_at g r)" for r
    using b(1) by (cases r) (auto simp: idx nth_list_update e new_entry_def g')
  have keep: "keeps_but g f g' f' b"
    unfolding keeps_but_def using f r rd rdo(2) o
    by (auto simp: g' fo_def simp del: region_at.simps)
  have wf: "blkidx_wf e"
    using cache_layoutD(2) [OF ci(1)] by (simp add: blkidx_wf_def e new_entry_def file_ok_def)
  have rix: "region_at g' RIndex = region_at g RIndex"
    using r [of RIndex] by (simp only: cache_region.distinct if_False)
  have ix: "index_data g' f' = overwrite ?o (enc_blkidx e) (index_data g f)"
    unfolding index_data_def rix using rd [OF index_region] rdo(1) o by (simp add: fo_def)
  have syn: "index_synced (ca_header (x_cache g)) ((ca_blkidx (x_cache g))[b := e])
      (overwrite ?o (enc_blkidx e) (index_data g f))"
    using index_synced_entry [OF ci(3) wf b(1) length_index_data [OF ci(1)]] .
  have grow: "length (f_data f') = length (f_data f) + CACHE_BLOCK_SIZE"
    using o ixl by (simp add: fd lb)
  have rb: "region_at g (RBlock b) = None" using b by simp
  have "cache_layout g' f'"
    by (rule cache_layout_step [OF ci(1) _ f'(2), where n = "RBlock b" and k = CACHE_BLOCK_SIZE])
      (use r grow in \<open>auto simp: g' simp del: region_at.simps\<close>)
  then have inv: "cache_inv g' d"
    using ci syn ix by (simp add: cache_inv_def idx) (simp add: g')
  have "region_data f' (length (f_data f), CACHE_BLOCK_SIZE) = blk"
    using o ixl lb by (simp add: region_data_def fd segment_append_right segment_all)
  then have "disk_block g' d b = blk"
    using r [of "RBlock b"] by (simp add: disk_block_def g' del: region_at.simps)
  then have db: "disk_block g' d b = overwrite a data (disk_block g d b)"
    using rb by (simp add: disk_block_def blk del: region_at.simps split: option.split)
  have "disk_contents g' d = overwrite (b * CACHE_BLOCK_SIZE + a) data (disk_contents g d)"
    by (rule disk_contents_update [OF length_disk_block [OF c] keeps_but_block [OF keep] db n])
  then show ?thesis
    using inv keeps_but_header [OF keep] r
    by (simp add: block_step_def write_frame_def del: region_at.simps) (simp add: g')
qed

section \<open>One round\<close>

lemma enc_blkidx_not_Nil: "enc_blkidx e \<noteq> []"
  using length_enc_blkidx [of e] by (metis list.size(3) zero_neq_numeral)

lemma SetVirtImageData_block_ok:
  assumes m: "morphed_ok g d" and c: "cache_inv g d" and f: "ca_h_cache_file (x_cache g) = Some f"
    and n: "data \<noteq> []" "a + length data \<le> CACHE_BLOCK_SIZE"
    and range: "b * CACHE_BLOCK_SIZE + a + length data \<le> length d"
  defines "fine \<equiv> region_at g (RBlock b) \<noteq> None \<or> tail_ok d b (a + length data)"
  shows "\<exists>ret g' f'. SetVirtImageData_block g (length d) b a (b * CACHE_BLOCK_SIZE + a) data = Some (ret, g') \<and>
    ca_h_cache_file (x_cache g') = Some f' \<and> block_step g d b a data ret g' \<and>
    f_limit f' = f_limit f \<and> length (f_data f') \<le> length (f_data f) + CACHE_BLOCK_SIZE \<and>
    (\<not> fine \<longrightarrow> ret = -1) \<and>
    (fine \<longrightarrow> length (f_data f) + CACHE_BLOCK_SIZE \<le> f_limit f \<longrightarrow> ret = 0)"
proof -
  note ci = cache_invD [OF c f]
  have n0: "0 < length data" using n(1) by simp
  have b: "b < length (ca_blkidx (x_cache g))" by (rule block_in_index [OF ci(2) range n0])
  have rng: "b * CACHE_BLOCK_SIZE + a \<le> length d" using range by simp
  show ?thesis
  proof (cases "bi_Assigned (ca_blkidx (x_cache g) ! b) = 1")
    case True
    let ?s = "bi_off_data (ca_blkidx (x_cache g) ! b)"
    have r: "region_at g (RBlock b) = Some (?s, CACHE_BLOCK_SIZE)" using b True by simp
    note e = cache_layoutD(3) [OF ci(1) r] and fo = cache_layoutD(2) [OF ci(1)]
    define f' where "f' = f\<lparr>f_data := overwrite (?s + a) data (f_data f), f_pos := ?s + a + length data\<rparr>"
    have u: "u64 (?s + a) = ?s + a" using e fo n(2) by (intro u64_small) (simp add: file_ok_def)
    have w: "cache_write (?s + a) data f = (0, f')"
      unfolding f'_def using e n(2) by (intro cache_write_in_file [OF fo n(1)]) simp
    have len: "length (f_data f') = length (f_data f)" using e n(2) by (simp add: f'_def)
    have "file_ok f'" using fo len by (simp add: file_ok_def f'_def)
    then have "block_step g d b a data 0 (put_file f' g)"
      by (intro write_assigned_step [OF c f r n(2) range refl]) (simp_all add: f'_def)
    then show ?thesis
      using f b True w u len r
      by (simp add: SetVirtImageData_block_def fine_def Let_def f'_def)
  next
    case False
    have rb: "region_at g (RBlock b) = None" using False by simp
    have fine: "fine = tail_ok d b (a + length data)" by (simp add: fine_def rb del: region_at.simps)
    let ?f1 = "f\<lparr>f_pos := length (f_data f)\<rparr>"
    let ?e1 = "new_entry g f b"
    let ?e2 = "?e1\<lparr>bi_Assigned := 1\<rparr>"
    have f1: "at_end ?f1" using cache_layoutD(2) [OF ci(1)] by (simp add: at_end_def file_ok_def)
    obtain r f4 where ab: "add_block d b a data ?f1 = (r, f4)" by fastforce
    have sel: "f_limit ?f1 = f_limit f" "f_data ?f1 = f_data f" by simp_all
    from add_block_end [OF f1 n(2) rng ab, unfolded sel at_end_def] obtain p where
      p: "f_data f4 = f_data f @ p" "file_ok f4" "f_limit f4 = f_limit f" "length p \<le> CACHE_BLOCK_SIZE"
      and pr: "if r = 0 then tail_ok d b (a + length data) \<and> p = overwrite a data
         (pad CACHE_BLOCK_SIZE (segment (b * CACHE_BLOCK_SIZE) CACHE_BLOCK_SIZE d))
       else r = -1 \<and> (\<not> tail_ok d b (a + length data) \<or>
         f_limit f < length (f_data f) + CACHE_BLOCK_SIZE)"
      by blast
    have blk: "SetVirtImageData_block g (length d) b a (b * CACHE_BLOCK_SIZE + a) data =
      SetVirtImageData_new_block g f (length d) b a (b * CACHE_BLOCK_SIZE + a) data"
      using f b False by (simp add: SetVirtImageData_block_def Let_def)
    note eq = SetVirtImageData_new_block_eq [OF m n range, of f, unfolded ab]
    show ?thesis
    proof (cases "r = 0")
      case r: False
      have "block_step g d b a data (-1) (put_file f4 (put_entry b ?e1 g))"
        by (rule new_block_failed_step [OF c f b False refl p(1,2)])
      then show ?thesis
        using r p pr fine unfolding blk eq by (simp add: not_le)
    next
      case r: True
      let ?o = "sizeof_CacheFileHeader + b * sizeof_CacheFileBlockIndex"
      have "b * 12 + 12 \<le> 12 * length (ca_blkidx (x_cache g))" using b by simp
      then have o: "?o + length (enc_blkidx ?e2) \<le> length (f_data f4)"
        using cache_layoutD(3) [OF ci(1) index_region] p(1)
        by (simp add: sizeof_CacheFileBlockIndex_def)
      have ne: "enc_blkidx ?e2 \<noteq> []" by (rule enc_blkidx_not_Nil)
      define f5 where "f5 = f4\<lparr>f_data := overwrite ?o (enc_blkidx ?e2) (f_data f4),
        f_pos := ?o + length (enc_blkidx ?e2)\<rparr>"
      have w: "cache_write ?o (enc_blkidx ?e2) f4 = (0, f5)"
        unfolding f5_def by (rule cache_write_in_file [OF p(2) ne o])
      have len: "length (f_data f5) = length (f_data f4)" using o by (simp add: f5_def)
      have "file_ok f5" using p(2) len by (simp add: file_ok_def f5_def)
      then have "block_step g d b a data 0 (put_file f5 (put_entry b ?e2 (put_entry b ?e1 g)))"
        using p(1) pr r
        by (intro new_block_written_step [OF c f b False n(2) range refl refl refl])
          (simp_all add: f5_def)
      then show ?thesis
        using r p pr fine len w unfolding blk eq by (simp add: f5_def)
    qed
  qed
qed

section \<open>The loop\<close>

text \<open>A write that ends at byte \<open>e\<close> of the disk: it can complete its last block.\<close>

definition end_ok :: "xmount_data \<Rightarrow> bytes \<Rightarrow> nat \<Rightarrow> bool" where
  "end_ok g d e \<longleftrightarrow> e < length d \<or> e mod CACHE_BLOCK_SIZE = 0 \<or>
     region_at g (RBlock (e div CACHE_BLOCK_SIZE)) \<noteq> None"

definition loop_post ::
  "xmount_data \<Rightarrow> cfile \<Rightarrow> bytes \<Rightarrow> nat \<Rightarrow> nat \<Rightarrow> nat \<Rightarrow> bytes \<Rightarrow>
   int \<times> bytes \<times> nat \<times> xmount_data \<Rightarrow> bool" where
  "loop_post g f d a off n buf res \<longleftrightarrow> (case res of (ret, rest, off', g') \<Rightarrow>
     \<exists>f' j. ca_h_cache_file (x_cache g') = Some f' \<and> f_limit f' = f_limit f \<and>
       write_frame g g' \<and> cache_inv g' d \<and> j \<le> n \<and>
       disk_contents g' d = overwrite off (take j buf) (disk_contents g d) \<and>
       (if ret = 0 then j = n \<and> rest = drop n buf \<and> off' = off + n else ret = -1) \<and>
       (0 < n \<longrightarrow> \<not> end_ok g d (off + n) \<longrightarrow> ret = -1) \<and>
       (\<forall>k m. a + n \<le> k * CACHE_BLOCK_SIZE \<and>
            length (f_data f) + k * CACHE_BLOCK_SIZE + m \<le> f_limit f \<longrightarrow>
          length (f_data f') + m \<le> f_limit f \<and>
          (n = 0 \<or> end_ok g d (off + n) \<longrightarrow> ret = 0)))"

lemma last_block_end:
  assumes "a < CACHE_BLOCK_SIZE" "0 < n" "a + n \<le> CACHE_BLOCK_SIZE"
  shows "end_ok g d (b * CACHE_BLOCK_SIZE + a + n) =
    (region_at g (RBlock b) \<noteq> None \<or> tail_ok d b (a + n))"
proof (cases "a + n = CACHE_BLOCK_SIZE")
  case True
  then have "b * CACHE_BLOCK_SIZE + a + n = Suc b * CACHE_BLOCK_SIZE" by simp
  then have "(b * CACHE_BLOCK_SIZE + a + n) mod CACHE_BLOCK_SIZE = 0"
    by (simp only: mod_mult_self2_is_0)
  then show ?thesis using True by (simp add: end_ok_def tail_ok_def)
next
  case False
  then have "(b * CACHE_BLOCK_SIZE + (a + n)) div CACHE_BLOCK_SIZE = b"
    "(b * CACHE_BLOCK_SIZE + (a + n)) mod CACHE_BLOCK_SIZE = a + n"
    using assms by auto
  then show ?thesis
    using False assms(2) by (auto simp: end_ok_def tail_ok_def add.assoc simp del: region_at.simps)
qed

lemma SetVirtImageData_loop_ok:
  "morphed_ok g d \<Longrightarrow> cache_inv g d \<Longrightarrow> ca_h_cache_file (x_cache g) = Some f \<Longrightarrow>
   a < CACHE_BLOCK_SIZE \<Longrightarrow> b * CACHE_BLOCK_SIZE + a + n \<le> length d \<Longrightarrow> n \<le> length buf \<Longrightarrow>
   \<exists>res. SetVirtImageData_loop g (length d) b a (b * CACHE_BLOCK_SIZE + a) n buf = Some res \<and>
     loop_post g f d a (b * CACHE_BLOCK_SIZE + a) n buf res"
proof (induction n arbitrary: g f b a buf rule: less_induct)
  case (less n)
  note m = less.prems(1) and c = less.prems(2) and f = less.prems(3)
  let ?f = "b * CACHE_BLOCK_SIZE + a"
  show ?case
  proof (cases "n = 0")
    case True
    then show ?thesis
      using c f less.prems(5)
      by (subst SetVirtImageData_loop.simps) (auto simp: loop_post_def)
  next
    case n: False
    define k where "k = min n (CACHE_BLOCK_SIZE - a)"
    have k: "0 < k" "a + k \<le> CACHE_BLOCK_SIZE" "k \<le> n" using n less.prems(4) by (auto simp: k_def)
    have dl: "length d < 2 ^ 62" using m by (simp add: morphed_ok_def)
    have u: "u64 (a + n) = a + n" using less.prems(5) dl by (intro u64_small) simp
    have ck: "(if CACHE_BLOCK_SIZE < a + n then CACHE_BLOCK_SIZE - a else n) = k"
      by (auto simp: k_def)
    have tk: "take k buf \<noteq> []" "length (take k buf) = k" using k less.prems(6) by auto
    have kr: "?f + k \<le> length d" using less.prems(5) k by simp
    have tr: "a + length (take k buf) \<le> CACHE_BLOCK_SIZE" "?f + length (take k buf) \<le> length d"
      using k(2) kr tk(2) by simp_all
    from SetVirtImageData_block_ok [OF m c f tk(1) tr, unfolded tk(2)] obtain ret g1 f1 where
      blk: "SetVirtImageData_block g (length d) b a ?f (take k buf) = Some (ret, g1)"
      and f1: "ca_h_cache_file (x_cache g1) = Some f1" and bs: "block_step g d b a (take k buf) ret g1"
      and lim: "f_limit f1 = f_limit f" "length (f_data f1) \<le> length (f_data f) + CACHE_BLOCK_SIZE"
      and fine: "\<not> (region_at g (RBlock b) \<noteq> None \<or> tail_ok d b (a + k)) \<longrightarrow> ret = -1"
        "region_at g (RBlock b) \<noteq> None \<or> tail_ok d b (a + k) \<longrightarrow>
          length (f_data f) + CACHE_BLOCK_SIZE \<le> f_limit f \<longrightarrow> ret = 0"
      by blast
    have bs': "write_frame g g1" "cache_inv g1 d" "ret = 0 \<or> ret = -1"
      "\<And>c. c \<noteq> b \<Longrightarrow> region_at g1 (RBlock c) = region_at g (RBlock c)"
      "disk_contents g1 d = (if ret = 0 then overwrite ?f (take k buf) (disk_contents g d)
         else disk_contents g d)"
      using bs unfolding block_step_def by blast+
    have step: "SetVirtImageData_loop g (length d) b a ?f n buf =
        (if ret \<noteq> 0 then Some (-1, buf, ?f, g1)
         else SetVirtImageData_loop g1 (length d) (u64 (b + 1)) 0 (?f + k) (n - k) (drop k buf))"
      using n by (subst SetVirtImageData_loop.simps) (simp add: u ck blk Let_def cong: if_cong)
    have room1: "length (f_data f) + CACHE_BLOCK_SIZE \<le> f_limit f \<and> length (f_data f1) + m' \<le> f_limit f"
      if "a + n \<le> k' * CACHE_BLOCK_SIZE" "length (f_data f) + k' * CACHE_BLOCK_SIZE + m' \<le> f_limit f"
      for k' m'
    proof -
      have "k' \<noteq> 0" using that(1) n by (cases k') auto
      then have "CACHE_BLOCK_SIZE \<le> k' * CACHE_BLOCK_SIZE" by simp
      then show ?thesis using that(2) lim by linarith
    qed
    show ?thesis
    proof (cases "k = n")
      case True
      have le: "end_ok g d (?f + n) = (region_at g (RBlock b) \<noteq> None \<or> tail_ok d b (a + k))"
        using last_block_end [OF less.prems(4), of n g d b] k True by simp
      have end0: "SetVirtImageData_loop g1 (length d) (u64 (b + 1)) 0 (?f + k) (n - k) (drop k buf) =
          Some (0, drop n buf, ?f + n, g1)"
        using True by (subst SetVirtImageData_loop.simps) simp
      have "loop_post g f d a ?f n buf (ret, if ret \<noteq> 0 then buf else drop n buf,
          if ret \<noteq> 0 then ?f else ?f + n, g1)"
        unfolding loop_post_def split_conv
        using f1 lim(1) bs' fine room1 le True n kr
        by (intro exI [of _ f1] exI [of _ "if ret = 0 then n else 0"]) auto
      then show ?thesis
        unfolding step end0 using bs'(3) by auto
    next
      case False
      then have kb: "a + k = CACHE_BLOCK_SIZE" using less.prems(4) by (auto simp: k_def)
      then have fine1: "length (f_data f) + CACHE_BLOCK_SIZE \<le> f_limit f \<longrightarrow> ret = 0"
        using fine(2) by (simp add: tail_ok_def)
      show ?thesis
      proof (cases "ret = 0")
        case ret: False
        have "loop_post g f d a ?f n buf (-1, buf, ?f, g1)"
          unfolding loop_post_def split_conv
          using f1 lim(1) bs' fine1 room1 ret kr
          by (intro exI [of _ f1] exI [of _ 0]) auto
        then show ?thesis unfolding step using ret by simp
      next
        case ret: True
        have nx: "?f + k = Suc b * CACHE_BLOCK_SIZE + 0" using kb by simp
        have "Suc b \<le> Suc b * CACHE_BLOCK_SIZE" by (simp del: mult_Suc add: Suc_leI)
        also have "\<dots> \<le> length d" using kr unfolding nx by simp
        finally have "Suc b < 2 ^ 62" using dl by (rule order.strict_trans1)
        then have ub: "u64 (b + 1) = Suc b" by (simp add: u64_small)
        have "morphed_ok g1 d" using m bs'(1) by (simp add: morphed_ok_def write_frame_def)
        moreover have "n - k < n" "(0::nat) < CACHE_BLOCK_SIZE" "n - k \<le> length (drop k buf)"
          "Suc b * CACHE_BLOCK_SIZE + 0 + (n - k) \<le> length d"
          using k less.prems(5,6) unfolding nx [symmetric] by simp_all
        ultimately obtain res where res: "SetVirtImageData_loop g1 (length d) (Suc b) 0
            (Suc b * CACHE_BLOCK_SIZE + 0) (n - k) (drop k buf) = Some res"
          and post: "loop_post g1 f1 d 0 (?f + k) (n - k) (drop k buf) res"
          unfolding nx using less.IH [of "n - k" g1 f1 0 "Suc b" "drop k buf"] bs'(2) f1 by blast
        obtain ret2 rest off' g2 where r2: "res = (ret2, rest, off', g2)" by (cases res)
        from post obtain f2 j where p2: "ca_h_cache_file (x_cache g2) = Some f2" "f_limit f2 = f_limit f1"
          "write_frame g1 g2" "cache_inv g2 d" "j \<le> n - k"
          "disk_contents g2 d = overwrite (?f + k) (take j (drop k buf)) (disk_contents g1 d)"
          "if ret2 = 0 then j = n - k \<and> rest = drop (n - k) (drop k buf) \<and> off' = ?f + k + (n - k)
           else ret2 = -1"
          "0 < n - k \<longrightarrow> \<not> end_ok g1 d (?f + k + (n - k)) \<longrightarrow> ret2 = -1"
          "\<forall>k' m'. 0 + (n - k) \<le> k' * CACHE_BLOCK_SIZE \<and>
             length (f_data f1) + k' * CACHE_BLOCK_SIZE + m' \<le> f_limit f1 \<longrightarrow>
           length (f_data f2) + m' \<le> f_limit f1 \<and>
           (n - k = 0 \<or> end_ok g1 d (?f + k + (n - k)) \<longrightarrow> ret2 = 0)"
          unfolding loop_post_def r2 split_conv by auto
        have fn: "?f + k + (n - k) = ?f + n" using k by simp
        have eo: "end_ok g1 d (?f + n) = end_ok g d (?f + n)"
        proof -
          have "Suc b * CACHE_BLOCK_SIZE \<le> ?f + n" using nx k by simp
          then have "Suc b \<le> (?f + n) div CACHE_BLOCK_SIZE" by (simp add: less_eq_div_iff_mult_less_eq)
          then have "(?f + n) div CACHE_BLOCK_SIZE \<noteq> b" by simp
          from bs'(4) [OF this] show ?thesis by (simp only: end_ok_def)
        qed
        have dc: "disk_contents g2 d = overwrite ?f (take (k + j) buf) (disk_contents g d)"
        proof -
          have "take (k + j) buf = take k buf @ take j (drop k buf)" by (rule take_add)
          moreover have "?f + k = ?f + length (take k buf)" using tk(2) by simp
          moreover have "?f \<le> length (disk_contents g d)" using kr by simp
          ultimately show ?thesis
            using p2(6) bs'(5) ret by (metis overwrite_overwrite_adjacent)
        qed
        have room2: "length (f_data f2) + m' \<le> f_limit f \<and> (end_ok g d (?f + n) \<longrightarrow> ret2 = 0)"
          if "a + n \<le> k' * CACHE_BLOCK_SIZE" "length (f_data f) + k' * CACHE_BLOCK_SIZE + m' \<le> f_limit f"
          for k' m'
        proof -
          note prem = that
          obtain k2 where k2: "k' = Suc k2" using prem(1) n by (cases k') auto
          have "0 + (n - k) \<le> k2 * CACHE_BLOCK_SIZE" using that(1) kb k by (simp add: k2)
          moreover have "length (f_data f1) + k2 * CACHE_BLOCK_SIZE + m' \<le> f_limit f1"
            using that(2) lim by (simp add: k2)
          ultimately show ?thesis using p2(9) eo fn lim by auto
        qed
        have c1: "f_limit f2 = f_limit f" "k + j \<le> n" using p2(2,5) lim(1) k by simp_all
        have c2: "if ret2 = 0 then k + j = n \<and> rest = drop n buf \<and> off' = ?f + n else ret2 = -1"
          using p2(7) fn k by (cases "ret2 = 0") simp_all
        have c3: "0 < n \<longrightarrow> \<not> end_ok g d (?f + n) \<longrightarrow> ret2 = -1"
          using p2(8) k False unfolding fn eo by linarith
        have c4: "\<forall>k' m'. a + n \<le> k' * CACHE_BLOCK_SIZE \<and>
            length (f_data f) + k' * CACHE_BLOCK_SIZE + m' \<le> f_limit f \<longrightarrow>
          length (f_data f2) + m' \<le> f_limit f \<and> (n = 0 \<or> end_ok g d (?f + n) \<longrightarrow> ret2 = 0)"
          using room2 n by blast
        have "loop_post g f d a ?f n buf res"
          unfolding loop_post_def r2 split_conv
          using p2(1,4) write_frame_trans [OF bs'(1) p2(3)] dc c1 c2 c3 c4
          by (intro exI [of _ f2] exI [of _ "k + j"] conjI)
        then show ?thesis unfolding step ub nx using res ret by simp
      qed
    qed
  qed
qed

end
