(* ===== verification/XmountVirtHeader.thy ===== *)
theory XmountVirtHeader
  imports XmountVirtBlocks
begin

text \<open>
  \<open>SetVdiFileHeaderData\<close> and \<open>SetVhdFileHeaderData\<close>: the first write copies the whole
  structure, with its changed bytes, to the end of the cache file and stores the pointer in the
  cache file's header; later writes change the copy in place.
\<close>

section \<open>Appending several parts\<close>

definition appended :: "cfile \<Rightarrow> bytes \<Rightarrow> int \<times> cfile \<Rightarrow> bool" where
  "appended f xs rf \<longleftrightarrow> (case rf of (r, f') \<Rightarrow>
     \<exists>p. f_data f' = f_data f @ p \<and> at_end f' \<and> f_limit f' = f_limit f \<and> length p \<le> length xs \<and>
       (if r = 0 then p = xs else r = -1 \<and> f_limit f < length (f_data f) + length xs))"

lemma appended_start: "at_end f \<Longrightarrow> appended f [] (0, f)"
  by (simp add: appended_def)

lemma appended_then:
  assumes "appended f xs rf"
  shows "appended f (xs @ bs) (if bs = [] then rf else then_add rf bs)"
proof -
  obtain r f' where rf: "rf = (r, f')" by (cases rf)
  from assms obtain p where p: "f_data f' = f_data f @ p" "at_end f'" "f_limit f' = f_limit f"
    "length p \<le> length xs"
    "if r = 0 then p = xs else r = -1 \<and> f_limit f < length (f_data f) + length xs"
    unfolding appended_def rf split_conv by blast
  show ?thesis
  proof (cases "r = 0 \<and> bs \<noteq> []")
    case False
    then have "(if bs = [] then rf else then_add rf bs) = (r, f')" by (auto simp: rf)
    then show ?thesis
      using p False unfolding appended_def by (intro case_prodI2 exI [of _ p]) (auto split: if_splits)
  next
    case True
    obtain r2 f2 where 2: "add_part bs f' = (r2, f2)" by fastforce
    from add_part_end [OF p(2) 2] obtain q where q: "f_data f2 = f_data f' @ q" "at_end f2"
      "f_limit f2 = f_limit f'" "length q \<le> length bs"
      "if r2 = 0 then q = bs else r2 = -1 \<and> f_limit f' < length (f_data f') + length bs" by blast
    have "(if bs = [] then rf else then_add rf bs) = (r2, f2)"
      using True 2 by (simp add: rf add_part_def)
    moreover have "p = xs" using p(5) True by simp
    ultimately show ?thesis
      using p(1,3) q unfolding appended_def by (intro case_prodI2 exI [of _ "p @ q"]) (auto split: if_splits)
  qed
qed

section \<open>One header structure\<close>

text \<open>What holds after a write to a structure, whether it fails or not.\<close>

definition header_post ::
  "cache_region \<Rightarrow> xmount_data \<Rightarrow> cfile \<Rightarrow> bytes \<Rightarrow> bytes \<Rightarrow> nat \<Rightarrow> bytes \<Rightarrow> int \<Rightarrow> xmount_data \<Rightarrow> bool" where
  "header_post slot g f d hdr off data ret g' \<longleftrightarrow>
     (\<exists>f'. ca_h_cache_file (x_cache g') = Some f' \<and> f_limit f' = f_limit f \<and>
        length (f_data f') \<le> length (f_data f) + length hdr) \<and>
     cache_inv g' d \<and> x_output g' = x_output g \<and> x_morphing g' = x_morphing g \<and>
     x_input g' = x_input g \<and> disk_contents g' d = disk_contents g d \<and>
     (\<forall>b. region_at g' (RBlock b) = region_at g (RBlock b)) \<and>
     (\<forall>r h. r \<noteq> slot \<longrightarrow> r = RVdi \<or> r = RVhd \<longrightarrow> header_contents g' r h = header_contents g r h) \<and>
     (ret = int (length data) \<or> ret = -1) \<and>
     header_contents g' slot hdr =
       (if ret = -1 then header_contents g slot hdr
        else overwrite off data (header_contents g slot hdr)) \<and>
     (length (f_data f) + length hdr \<le> f_limit f \<longrightarrow> ret \<noteq> -1)"

text \<open>The region of the structure, and how its pointer and flag are stored.\<close>

locale header_slot =
  fixes slot :: cache_region
    and cached :: "cache_header \<Rightarrow> bool"
    and ptr :: "cache_header \<Rightarrow> nat"
    and set_ptr :: "nat \<Rightarrow> cache_header \<Rightarrow> cache_header"
    and set_cached :: "cache_header \<Rightarrow> cache_header"
    and hsize :: "xmount_data \<Rightarrow> nat"
  assumes slot_kind: "slot \<noteq> RIndex" "slot \<noteq> RBlock b"
    and slot_at: "region_at g slot =
      (if cached (ca_header (x_cache g)) then Some (ptr (ca_header (x_cache g)), hsize g) else None)"
    and cached_set_cached: "cached (set_cached h)"
    and ptr_set: "ptr (set_cached (set_ptr p h)) = p"
    and cached_set_ptr: "cached (set_ptr p h) = cached h"
    and hsize_put: "hsize (put_header h' g) = hsize g" "hsize (put_file f' g) = hsize g"
    and other_regions: "r \<noteq> slot \<Longrightarrow> ca_header (x_cache g') = set_ptr p (ca_header (x_cache g)) \<or>
      ca_header (x_cache g') = set_cached (set_ptr p (ca_header (x_cache g))) \<Longrightarrow>
      ca_blkidx (x_cache g') = ca_blkidx (x_cache g) \<Longrightarrow> x_output g' = x_output g \<Longrightarrow>
      region_at g' r = region_at g r"
    and header_wf: "header_good h \<Longrightarrow> p < 2 ^ 64 \<Longrightarrow> header_good (set_ptr p h)"
      "header_good h \<Longrightarrow> header_good (set_cached h)"
    and norm_set_ptr: "\<not> cached h \<Longrightarrow> norm_header (set_ptr p h) = norm_header h"
begin

lemma header_update_cached:
  assumes c: "cache_inv g d" and f: "ca_h_cache_file (x_cache g) = Some f"
    and n: "data \<noteq> []" "length data < 2147483648" "off + length data \<le> length hdr"
    and hs: "hsize g = length hdr" and ca: "cached (ca_header (x_cache g))"
  shows "\<exists>ret g'. set_header_data hdr (length hdr) True (ptr (ca_header (x_cache g)))
    set_ptr set_cached data off g = Some (ret, g') \<and> header_post slot g f d hdr off data ret g'"
proof -
  note ci = cache_invD [OF c f]
  let ?p = "ptr (ca_header (x_cache g))"
  have r: "region_at g slot = Some (?p, length hdr)" using slot_at [of g] ca hs by simp
  note e = cache_layoutD(3) [OF ci(1) r] and fo = cache_layoutD(2) [OF ci(1)]
  define f' where "f' = f\<lparr>f_data := overwrite (?p + off) data (f_data f), f_pos := ?p + off + length data\<rparr>"
  have u: "u64 (?p + off) = ?p + off" using e fo n by (intro u64_small) (simp add: file_ok_def)
  have w: "cache_write (?p + off) data f = (0, f')"
    unfolding f'_def using e n by (intro cache_write_in_file [OF fo n(1)]) simp
  have len: "length (f_data f') = length (f_data f)" using e n by (simp add: f'_def)
  have fo': "file_ok f'" using fo len by (simp add: file_ok_def f'_def)
  have fd: "f_data f' = overwrite (?p + off) data (f_data f)" by (simp add: f'_def)
  note rd = region_data_overwrite [OF ci(1) r n(3) fd]
  let ?g' = "put_file f' g"
  have others: "header_contents ?g' r' h = header_contents g r' h" if "r' \<noteq> slot" for r' h
    using rd(2) [OF that] f
    by (simp add: header_contents_def split: option.split del: region_at.simps)
  have blocks: "disk_block ?g' d b = disk_block g d b" for b
    using rd(2) [OF slot_kind(2) [symmetric], of b] f
    by (simp add: disk_block_def split: option.split del: region_at.simps)
  have "cache_layout ?g' f'"
    by (rule cache_layout_step [OF ci(1) _ fo']) (use len in simp_all)
  moreover have "index_data ?g' f' = index_data g f"
    unfolding index_data_def region_at_put_file using rd(2) [OF slot_kind(1) [symmetric] index_region] by simp
  ultimately have inv: "cache_inv ?g' d" using ci by (simp add: cache_inv_def)
  have sl: "header_contents ?g' slot hdr = overwrite off data (header_contents g slot hdr)"
    using rd(1) f r by (simp add: header_contents_def)
  have "header_post slot g f d hdr off data (int (length data)) ?g'"
    unfolding header_post_def
    using inv len others sl disk_contents_cong [of ?g' d g, OF blocks]
    by (simp add: f'_def del: region_at.simps)
  then show ?thesis
    using f w u int_of_size_small [OF n(2)] by (simp add: set_header_data_def)
qed

lemma header_chain:
  assumes "at_end f" "data \<noteq> []" "off + length data \<le> length hdr"
  shows "appended f (overwrite off data hdr)
    (let r2 = (if off > 0 then cache_add (take off hdr) f else (0, f)); r3 = then_add r2 data in
     if off + length data \<noteq> length hdr
     then then_add r3 (segment (off + length data) (length hdr - (off + length data)) hdr) else r3)"
proof -
  let ?sg = "segment (off + length data) (length hdr - (off + length data)) hdr"
  have hdr: "hdr \<noteq> []" using assms(2,3) by (cases hdr) auto
  have e: "overwrite off data hdr = (([] @ take off hdr) @ data) @ ?sg"
    using assms(3) by (simp add: overwrite_def segment_def)
  have sg: "?sg = [] \<longleftrightarrow> off + length data = length hdr"
  proof -
    have "length ?sg = length hdr - (off + length data)" by simp
    then show ?thesis using assms(3) by (metis diff_is_0_eq le_antisym length_0_conv)
  qed
  show ?thesis
    unfolding e using hdr sg assms(2)
      appended_then [OF appended_then [OF appended_then [OF appended_start [OF assms(1)]]],
        of "take off hdr" data ?sg]
    by (cases "off = 0"; cases "off + length data = length hdr") (simp_all add: Let_def)
qed

lemma header_first_eq:
  assumes f: "ca_h_cache_file (x_cache g) = Some f" "file_ok f"
    and n: "data \<noteq> []" "length data < 2147483648" "off + length data \<le> length hdr"
  shows "\<exists>r f4. appended (f\<lparr>f_pos := length (f_data f)\<rparr>) (overwrite off data hdr) (r, f4) \<and>
    set_header_data hdr (length hdr) False ptr0 set_ptr set_cached data off g =
      (let h1 = set_ptr (length (f_data f)) (ca_header (x_cache g)) in
       if r \<noteq> 0 then Some (-1, put_file f4 (put_header h1 g))
       else case cache_write 0 (enc_cache_header (set_cached h1)) f4 of (ret, f5) \<Rightarrow>
         Some ((if ret \<noteq> 0 then -1 else int (length data)),
               put_file f5 (put_header (set_cached h1) (put_header h1 g))))"
proof -
  let ?f1 = "f\<lparr>f_pos := length (f_data f)\<rparr>"
  have f1: "snd (fseeko_end f) = ?f1" "ftello ?f1 = length (f_data f)" "at_end ?f1"
    using f(2) by (simp_all add: fseeko_end_def ftello_def at_end_def file_ok_def)
  note ch = header_chain [OF f1(3) n(1,3)]
  obtain r f4 where rf: "(let r2 = (if off > 0 then cache_add (take off hdr) ?f1 else (0, ?f1));
      r3 = then_add r2 data in if off + length data \<noteq> length hdr
      then then_add r3 (segment (off + length data) (length hdr - (off + length data)) hdr)
      else r3) = (r, f4)" by fastforce
  have ok: "\<not> (off + length data > length hdr \<or> length hdr > length hdr)" using n(3) by simp
  have "set_header_data hdr (length hdr) False ptr0 set_ptr set_cached data off g =
      (let h1 = set_ptr (length (f_data f)) (ca_header (x_cache g)) in
       if r \<noteq> 0 then Some (-1, put_file f4 (put_header h1 g))
       else case cache_write 0 (enc_cache_header (set_cached h1)) f4 of (ret, f5) \<Rightarrow>
         Some ((if ret \<noteq> 0 then -1 else int (length data)),
               put_file f5 (put_header (set_cached h1) (put_header h1 g))))"
    unfolding set_header_data_def f(1) option.case if_not_P [OF ok] Let_def f1(1) f1(2)
      rf [unfolded Let_def] int_of_size_small [OF n(2)]
    by simp
  then show ?thesis using ch rf by (intro exI [of _ r] exI [of _ f4]) simp
qed

lemma header_first_failed:
  assumes c: "cache_inv g d" and f: "ca_h_cache_file (x_cache g) = Some f"
    and ca: "\<not> cached (ca_header (x_cache g))" and f4: "f_data f4 = f_data f @ p" "file_ok f4"
    "f_limit f4 = f_limit f" "length p \<le> length hdr"
    and lim: "f_limit f < length (f_data f) + length hdr"
    and g': "g' = put_file f4 (put_header (set_ptr (length (f_data f)) (ca_header (x_cache g))) g)"
  shows "header_post slot g f d hdr off data (-1) g'"
proof -
  note ci = cache_invD [OF c f]
  have hd: "ca_header (x_cache g') = set_ptr (length (f_data f)) (ca_header (x_cache g))"
    "ca_blkidx (x_cache g') = ca_blkidx (x_cache g)" "x_output g' = x_output g"
    "ca_h_cache_file (x_cache g') = Some f4" "x_morphing g' = x_morphing g" "x_input g' = x_input g"
    by (simp_all add: g')
  have r: "region_at g' r = region_at g r" for r
  proof (cases "r = slot")
    case True
    then show ?thesis using slot_at [of g] slot_at [of g'] hd(1) ca cached_set_ptr by simp
  next
    case False
    then show ?thesis using other_regions [of r g'] hd by blast
  qed
  have rd: "region_data f4 sl = region_data f sl" if "region_at g r = Some sl" for r sl
    using region_data_append [OF ci(1) that f4(1)] .
  have hc: "header_contents g' r h = header_contents g r h" for r h
    using rd f hd(4) r by (simp add: header_contents_def split: option.split del: region_at.simps)
  have db: "disk_block g' d b = disk_block g d b" for b
    using rd f hd(4) r by (simp add: disk_block_def split: option.split del: region_at.simps)
  have ix: "index_data g' f4 = index_data g f"
    unfolding index_data_def r [of RIndex] using rd [OF index_region] by simp
  have wf: "header_good (ca_header (x_cache g'))"
    using ci(3) cache_layoutD(2) [OF ci(1)] unfolding hd(1)
    by (intro header_wf(1)) (auto simp: index_synced_def file_ok_def)
  have "cache_layout g' f4"
    by (rule cache_layout_step [OF ci(1) hd(4) f4(2)]) (use r f4(1) in simp_all)
  moreover have "index_synced (ca_header (x_cache g')) (ca_blkidx (x_cache g')) (index_data g' f4)"
    unfolding ix hd(2) using norm_set_ptr [OF ca] hd(1) wf ci(3)
    by (intro index_synced_pointer [OF ci(3)]) simp_all
  ultimately have inv: "cache_inv g' d" using ci(4) hd by (simp add: cache_inv_def)
  show ?thesis
    unfolding header_post_def using inv hd f4 hc r lim disk_contents_cong [of g' d g, OF db]
    by (simp del: region_at.simps)
qed

lemma header_first_written:
  assumes c: "cache_inv g d" and f: "ca_h_cache_file (x_cache g) = Some f"
    and n: "off + length data \<le> length hdr" and hs: "hsize g = length hdr"
    and ca: "\<not> cached (ca_header (x_cache g))"
    and h2: "h2 = set_cached (set_ptr (length (f_data f)) (ca_header (x_cache g)))"
    and f5: "f_data f5 = overwrite 0 (enc_cache_header h2) (f_data f @ overwrite off data hdr)"
      "file_ok f5" "f_limit f5 = f_limit f"
    and g': "g' = put_file f5 (put_header h2 (put_header h1 g))"
  shows "header_post slot g f d hdr off data (int (length data)) g'"
proof -
  note ci = cache_invD [OF c f]
  let ?new = "overwrite off data hdr"
  have hd: "ca_header (x_cache g') = h2"
    "ca_blkidx (x_cache g') = ca_blkidx (x_cache g)" "x_output g' = x_output g"
    "ca_h_cache_file (x_cache g') = Some f5" "x_morphing g' = x_morphing g" "x_input g' = x_input g"
    by (simp_all add: g')
  have ixl: "length (enc_cache_header h2) \<le> sizeof_CacheFileHeader +
      sizeof_CacheFileBlockIndex * length (ca_blkidx (x_cache g))"
    by (simp add: sizeof_CacheFileHeader_def)
  have ixf: "sizeof_CacheFileHeader + sizeof_CacheFileBlockIndex * length (ca_blkidx (x_cache g))
      \<le> length (f_data f)"
    using cache_layoutD(3) [OF ci(1) index_region] by simp
  have fd: "f_data f5 = overwrite 0 (enc_cache_header h2) (f_data f) @ ?new"
    using ixl ixf by (simp add: f5(1) overwrite_def)
  have ln: "length ?new = length hdr" using n by simp
  define fo where "fo = f\<lparr>f_data := overwrite (0 + 0) (enc_cache_header h2) (f_data f)\<rparr>"
  have fod: "f_data fo = overwrite (0 + 0) (enc_cache_header h2) (f_data f)" by (simp add: fo_def)
  have ixl': "0 + length (enc_cache_header h2) \<le> sizeof_CacheFileHeader +
      sizeof_CacheFileBlockIndex * length (ca_blkidx (x_cache g))" using ixl by simp
  note rdo = region_data_overwrite [OF ci(1) index_region ixl' fod]
  have rd: "region_data f5 sl = region_data fo sl" if "region_at g r = Some sl" for r sl
  proof -
    have "fst sl + snd sl \<le> length (f_data f)"
      using cache_layoutD(3) [OF ci(1), of r "fst sl" "snd sl"] that by simp
    then show ?thesis using ixl ixf
      by (simp add: region_data_def fd fod segment_append_left)
  qed
  have rs: "region_at g slot = None" using slot_at [of g] ca by simp
  have hsz: "hsize g' = length hdr" by (simp add: g' hsize_put hs)
  have rs': "region_at g' slot = Some (length (f_data f), length hdr)"
    using slot_at [of g'] hd(1) hsz by (simp add: h2 cached_set_cached ptr_set)
  have r: "region_at g' r = region_at g r" if "r \<noteq> slot" for r
    using other_regions [of r g'] that hd h2 by blast
  have keep: "region_data f5 sl = region_data f sl" if "region_at g r = Some sl" "r \<noteq> RIndex" for r sl
    using rd [OF that(1)] rdo(2) [OF that(2,1)] by simp
  have hc: "header_contents g' r h = header_contents g r h" if "r \<noteq> slot" "r \<noteq> RIndex" for r h
    using keep [OF _ that(2)] r [OF that(1)] f hd(4)
    by (simp add: header_contents_def split: option.split del: region_at.simps)
  have db: "disk_block g' d b = disk_block g d b" for b
    using keep [of "RBlock b"] r [OF slot_kind(2) [symmetric]] f hd(4)
    by (simp add: disk_block_def split: option.split del: region_at.simps)
  have rix: "region_at g' RIndex = region_at g RIndex" by (rule r [OF slot_kind(1) [symmetric]])
  have ix: "index_data g' f5 = overwrite 0 (enc_cache_header h2) (index_data g f)"
    unfolding index_data_def rix using rd [OF index_region] rdo(1) by simp
  have wf: "header_good h2"
    using ci(3) cache_layoutD(2) [OF ci(1)] unfolding h2
    by (intro header_wf) (auto simp: index_synced_def file_ok_def)
  have syn: "index_synced h2 (ca_blkidx (x_cache g')) (index_data g' f5)"
    unfolding ix hd(2) by (rule index_synced_header [OF ci(3) wf length_index_data [OF ci(1)]])
  have grow: "length (f_data f5) = length (f_data f) + length hdr"
    using ixl ixf ln by (simp add: fd)
  have regs: "region_at g' r = region_at g r \<or> r = slot \<and>
      region_at g' r = Some (length (f_data f), length hdr) \<and>
      length (f_data f) + length hdr \<le> length (f_data f5)" for r
    using r [of r] rs' grow by (cases "r = slot") simp_all
  have "cache_layout g' f5"
    by (rule cache_layout_step [OF ci(1) hd(4) f5(2) _ regs]) (use grow in simp)
  then have inv: "cache_inv g' d" using ci(4) syn hd by (simp add: cache_inv_def)
  have "region_data f5 (length (f_data f), length hdr) = ?new"
    using ixl ixf ln by (simp add: region_data_def fd segment_append_right segment_all)
  then have sl: "header_contents g' slot hdr = overwrite off data (header_contents g slot hdr)"
    using rs rs' hd(4) f by (simp add: header_contents_def)
  have "\<forall>r h. r \<noteq> slot \<longrightarrow> r = RVdi \<or> r = RVhd \<longrightarrow> header_contents g' r h = header_contents g r h"
    using hc by auto
  then show ?thesis
    unfolding header_post_def
    using inv hd f5(3) grow sl r [OF slot_kind(2) [symmetric]] disk_contents_cong [of g' d g, OF db]
    by (simp del: region_at.simps)
qed

lemma header_first:
  assumes c: "cache_inv g d" and f: "ca_h_cache_file (x_cache g) = Some f"
    and n: "data \<noteq> []" "length data < 2147483648" "off + length data \<le> length hdr"
    and hs: "hsize g = length hdr" and ca: "\<not> cached (ca_header (x_cache g))"
  shows "\<exists>ret g'. set_header_data hdr (length hdr) False ptr0
    set_ptr set_cached data off g = Some (ret, g') \<and> header_post slot g f d hdr off data ret g'"
proof -
  note ci = cache_invD [OF c f] and fo = cache_layoutD(2) [OF cache_invD(1) [OF c f]]
  let ?f1 = "f\<lparr>f_pos := length (f_data f)\<rparr>" and ?new = "overwrite off data hdr"
  let ?h1 = "set_ptr (length (f_data f)) (ca_header (x_cache g))"
  have sel: "f_data ?f1 = f_data f" "f_limit ?f1 = f_limit f" by simp_all
  have ln: "length ?new = length hdr" using n(3) by simp
  from header_first_eq [OF f fo n, of ptr0] obtain r f4 where
    ap: "appended ?f1 ?new (r, f4)" and
    eq: "set_header_data hdr (length hdr) False ptr0 set_ptr set_cached data off g =
      (if r \<noteq> 0 then Some (-1, put_file f4 (put_header ?h1 g))
       else case cache_write 0 (enc_cache_header (set_cached ?h1)) f4 of (ret, f5) \<Rightarrow>
         Some ((if ret \<noteq> 0 then -1 else int (length data)),
               put_file f5 (put_header (set_cached ?h1) (put_header ?h1 g))))"
    unfolding Let_def by blast
  from ap obtain p where p: "f_data f4 = f_data f @ p" "at_end f4" "f_limit f4 = f_limit f"
    "length p \<le> length hdr"
    "if r = 0 then p = ?new else r = -1 \<and> f_limit f < length (f_data f) + length hdr"
    unfolding appended_def split_conv sel ln by blast
  have fo4: "file_ok f4" using p(2) by (simp add: at_end_def)
  show ?thesis
  proof (cases "r = 0")
    case False
    then have "header_post slot g f d hdr off data (-1) (put_file f4 (put_header ?h1 g))"
      using p by (intro header_first_failed [OF c f ca p(1) fo4 p(3,4) _ refl]) auto
    then show ?thesis using eq False by simp
  next
    case True
    let ?e = "enc_cache_header (set_cached ?h1)"
    have ixf: "512 \<le> length (f_data f)"
      using cache_layoutD(3) [OF ci(1) index_region] by (simp add: sizeof_CacheFileHeader_def)
    define f5 where "f5 = f4\<lparr>f_data := overwrite 0 ?e (f_data f4), f_pos := 0 + length ?e\<rparr>"
    have ne: "?e \<noteq> []" using length_enc_cache_header [of "set_cached ?h1"]
      by (metis list.size(3) zero_neq_numeral)
    have w: "cache_write 0 ?e f4 = (0, f5)"
      unfolding f5_def using ixf p(1) by (intro cache_write_in_file [OF fo4 ne]) simp
    have "file_ok f5" using fo4 ixf p(1) by (simp add: file_ok_def f5_def)
    then have "header_post slot g f d hdr off data (int (length data))
        (put_file f5 (put_header (set_cached ?h1) (put_header ?h1 g)))"
      using p True by (intro header_first_written [OF c f n(3) hs ca refl _ _ _ refl]) (simp_all add: f5_def)
    then show ?thesis using eq True w by simp
  qed
qed

end

end
