(* ===== verification/XmountVirtSet.thy ===== *)
theory XmountVirtSet
  imports XmountVirtRead XmountVirtHeader
begin

text \<open>
  \<open>SetVirtImageData\<close> as a whole, and the two properties that make the virtual image a
  disk: a read returns a segment of its contents, a write overwrites a segment of them.
\<close>

interpretation vdi_slot: header_slot RVdi "\<lambda>h. ch_VdiFileHeaderCached h = 1" ch_pVdiFileHeader
  "\<lambda>p h. h\<lparr>ch_pVdiFileHeader := p\<rparr>" "\<lambda>h. h\<lparr>ch_VdiFileHeaderCached := 1\<rparr>"
  "\<lambda>g. vdi_header_size (out_vdi (x_output g))"
proof unfold_locales
  fix r p and g g' :: xmount_data
  assume "r \<noteq> RVdi" "ca_header (x_cache g') = (ca_header (x_cache g))\<lparr>ch_pVdiFileHeader := p\<rparr> \<or>
    ca_header (x_cache g') = (ca_header (x_cache g))\<lparr>ch_pVdiFileHeader := p\<rparr>\<lparr>ch_VdiFileHeaderCached := 1\<rparr>"
    "ca_blkidx (x_cache g') = ca_blkidx (x_cache g)" "x_output g' = x_output g"
  then show "region_at g' r = region_at g r" by (cases r) auto
qed (auto simp: header_good_def cache_header_wf_def norm_header_def)

interpretation vhd_slot: header_slot RVhd "\<lambda>h. ch_VhdFileHeaderCached h = 1" ch_pVhdFileHeader
  "\<lambda>p h. h\<lparr>ch_pVhdFileHeader := p\<rparr>" "\<lambda>h. h\<lparr>ch_VhdFileHeaderCached := 1\<rparr>"
  "\<lambda>g. sizeof_VhdFileHeader"
proof unfold_locales
  fix r p and g g' :: xmount_data
  assume "r \<noteq> RVhd" "ca_header (x_cache g') = (ca_header (x_cache g))\<lparr>ch_pVhdFileHeader := p\<rparr> \<or>
    ca_header (x_cache g') = (ca_header (x_cache g))\<lparr>ch_pVhdFileHeader := p\<rparr>\<lparr>ch_VhdFileHeaderCached := 1\<rparr>"
    "ca_blkidx (x_cache g') = ca_blkidx (x_cache g)" "x_output g' = x_output g"
  then show "region_at g' r = region_at g r" by (cases r) auto
qed (auto simp: header_good_def cache_header_wf_def norm_header_def)

lemma SetVdiFileHeaderData_ok:
  assumes inv: "virt_inv g d" and f: "ca_h_cache_file (x_cache g) = Some f"
    and t: "out_VirtImageType (x_output g) = VirtImageType_VDI"
    and n: "buf \<noteq> []" "length buf < 2147483648" "off < vdi_header_size (out_vdi (x_output g))"
  defines "hs \<equiv> vdi_header_size (out_vdi (x_output g))"
  shows "\<exists>ret g'. SetVdiFileHeaderData buf off g = Some (ret, g') \<and>
    header_post RVdi g f d (vdi_header (out_vdi (x_output g))) off (take (hs - off) buf) ret g'"
proof -
  let ?hdr = "vdi_header (out_vdi (x_output g))" and ?h = "ca_header (x_cache g)"
  have hl: "length ?hdr = hs" "hs < 4294967296"
    using virt_invD(4) [OF inv] t by (simp_all add: headers_ok_def hs_def)
  have u: "u64 (off + length buf) = off + length buf"
    using n hl(2) unfolding hs_def by (intro u64_small) linarith
  have d: "(if u64 (off + length buf) > hs then take (hs - off) buf else buf) = take (hs - off) buf"
    using u by auto
  have dn: "take (hs - off) buf \<noteq> []" "length (take (hs - off) buf) < 2147483648"
    "off + length (take (hs - off) buf) \<le> length ?hdr"
    using n hl by (auto simp: hs_def)
  have eq: "SetVdiFileHeaderData buf off g = set_header_data ?hdr (length ?hdr)
      (ch_VdiFileHeaderCached ?h = 1) (ch_pVdiFileHeader ?h)
      (\<lambda>p h. h\<lparr>ch_pVdiFileHeader := p\<rparr>) (\<lambda>h. h\<lparr>ch_VdiFileHeaderCached := 1\<rparr>)
      (take (hs - off) buf) off g"
    unfolding SetVdiFileHeaderData_def Let_def hs_def [symmetric] d hl(1) ..
  show ?thesis
  proof (cases "ch_VdiFileHeaderCached ?h = 1")
    case True
    then show ?thesis
      unfolding eq
      using vdi_slot.header_update_cached [OF virt_invD(2) [OF inv] f dn] hl(1) by (simp add: hs_def)
  next
    case False
    then show ?thesis
      unfolding eq
      using vdi_slot.header_first [OF virt_invD(2) [OF inv] f dn] hl(1) by (simp add: hs_def)
  qed
qed

lemma SetVhdFileHeaderData_ok:
  assumes inv: "virt_inv g d" and f: "ca_h_cache_file (x_cache g) = Some f"
    and t: "out_VirtImageType (x_output g) = VirtImageType_VHD"
    and n: "buf \<noteq> []" "length buf < 2147483648" "off + length buf \<le> sizeof_VhdFileHeader"
  shows "\<exists>ret g'. SetVhdFileHeaderData buf off g = Some (ret, g') \<and>
    header_post RVhd g f d (out_vhd_header (x_output g)) off buf ret g'"
proof -
  let ?hdr = "out_vhd_header (x_output g)" and ?h = "ca_header (x_cache g)"
  have hl: "length ?hdr = sizeof_VhdFileHeader"
    using virt_invD(4) [OF inv] t by (simp add: headers_ok_def)
  note n' = n(1,2) n(3) [folded hl]
  have eq: "SetVhdFileHeaderData buf off g = set_header_data ?hdr (length ?hdr)
      (ch_VhdFileHeaderCached ?h = 1) (ch_pVhdFileHeader ?h)
      (\<lambda>p h. h\<lparr>ch_pVhdFileHeader := p\<rparr>) (\<lambda>h. h\<lparr>ch_VhdFileHeaderCached := 1\<rparr>) buf off g"
    unfolding SetVhdFileHeaderData_def Let_def hl ..
  show ?thesis
  proof (cases "ch_VhdFileHeaderCached ?h = 1")
    case True
    then show ?thesis
      unfolding eq
      using vhd_slot.header_update_cached [OF virt_invD(2) [OF inv] f n'] hl by simp
  next
    case False
    then show ?thesis
      unfolding eq using vhd_slot.header_first [OF virt_invD(2) [OF inv] f n'] hl by simp
  qed
qed

section \<open>The write as a whole\<close>

text \<open>The bytes of the disk that a write of \<open>n\<close> bytes at \<open>off\<close> changes, and whether
  it can complete the last block it touches.\<close>

definition disk_start :: "output_data \<Rightarrow> nat \<Rightarrow> nat" where
  "disk_start od off =
     (if out_VirtImageType od = VirtImageType_VDI then off - vdi_header_size (out_vdi od) else off)"

definition disk_stop :: "output_data \<Rightarrow> bytes \<Rightarrow> nat \<Rightarrow> nat" where
  "disk_stop od d e = min (length d)
     (if out_VirtImageType od = VirtImageType_VDI then e - vdi_header_size (out_vdi od) else e)"

definition write_completes :: "xmount_data \<Rightarrow> bytes \<Rightarrow> nat \<Rightarrow> nat \<Rightarrow> bool" where
  "write_completes g d off n \<longleftrightarrow>
     (let s = disk_start (x_output g) off; e = disk_stop (x_output g) d (off + n) in
      s < e \<longrightarrow> end_ok g d e)"

definition write_room :: "xmount_data \<Rightarrow> nat \<Rightarrow> bool" where
  "write_room g n \<longleftrightarrow> (case ca_h_cache_file (x_cache g) of None \<Rightarrow> False
     | Some f \<Rightarrow> length (f_data f) + (n div CACHE_BLOCK_SIZE + 2) * CACHE_BLOCK_SIZE +
         header_size (x_output g) \<le> f_limit f)"

lemma room_blocks:
  assumes "a < CACHE_BLOCK_SIZE" "k \<le> n"
  shows "a + k \<le> (n div CACHE_BLOCK_SIZE + 2) * CACHE_BLOCK_SIZE"
proof -
  have "n mod CACHE_BLOCK_SIZE < CACHE_BLOCK_SIZE" by simp
  moreover have "n = n div CACHE_BLOCK_SIZE * CACHE_BLOCK_SIZE + n mod CACHE_BLOCK_SIZE" by simp
  ultimately have "n < n div CACHE_BLOCK_SIZE * CACHE_BLOCK_SIZE + CACHE_BLOCK_SIZE" by linarith
  then show ?thesis using assms by simp
qed

definition write_post ::
  "xmount_data \<Rightarrow> bytes \<Rightarrow> nat \<Rightarrow> bytes \<Rightarrow> int \<Rightarrow> xmount_data \<Rightarrow> bool" where
  "write_post g d off bs ret g' \<longleftrightarrow> virt_inv g' d \<and>
     (\<exists>j \<le> length bs. virt_contents g' d = overwrite off (take j bs) (virt_contents g d) \<and>
        (ret = -1 \<or> ret = int (length bs) \<and> j = length bs)) \<and>
     (\<not> write_completes g d off (length bs) \<longrightarrow> ret = -1) \<and>
     (write_completes g d off (length bs) \<and> write_room g (length bs) \<longrightarrow> ret \<noteq> -1)"

lemma write_postI:
  assumes "virt_inv g' d" "j \<le> length bs"
    and "virt_contents g' d = overwrite off (take j bs) (virt_contents g d)"
    and "ret = -1 \<or> ret = int (length bs) \<and> j = length bs"
    and "\<not> write_completes g d off (length bs) \<Longrightarrow> ret = -1"
    and "write_completes g d off (length bs) \<Longrightarrow> write_room g (length bs) \<Longrightarrow> ret \<noteq> -1"
  shows "write_post g d off bs ret g'"
  using assms unfolding write_post_def by blast

text \<open>The loop, from any offset of the disk: what it leaves, and when it succeeds.\<close>

lemma SetVirtImageData_disk:
  assumes inv: "virt_inv g d" and f: "ca_h_cache_file (x_cache g) = Some f"
    and n: "off + n \<le> length d" "n \<le> length buf"
  obtains ret rest off' g' f' j where
    "SetVirtImageData_loop g (length d) (off div CACHE_BLOCK_SIZE) (off mod CACHE_BLOCK_SIZE)
      off n buf = Some (ret, rest, off', g')" "ca_h_cache_file (x_cache g') = Some f'"
    "f_limit f' = f_limit f" "write_frame g g'" "virt_inv g' d" "j \<le> n"
    "disk_contents g' d = overwrite off (take j buf) (disk_contents g d)"
    "if ret = 0 then j = n \<and> rest = drop n buf \<and> off' = off + n else ret = -1"
    "0 < n \<longrightarrow> \<not> end_ok g d (off + n) \<longrightarrow> ret = -1"
    "\<forall>m. length (f_data f) + (n div CACHE_BLOCK_SIZE + 2) * CACHE_BLOCK_SIZE + m \<le> f_limit f \<longrightarrow>
       length (f_data f') + m \<le> f_limit f \<and> (n = 0 \<or> end_ok g d (off + n) \<longrightarrow> ret = 0)"
proof -
  have e: "off div CACHE_BLOCK_SIZE * CACHE_BLOCK_SIZE + off mod CACHE_BLOCK_SIZE = off" by simp
  have a: "off mod CACHE_BLOCK_SIZE < CACHE_BLOCK_SIZE" by simp
  from SetVirtImageData_loop_ok [OF virt_invD(1,2) [OF inv] f a _ n(2),
      of "off div CACHE_BLOCK_SIZE", unfolded e, OF n(1)]
  obtain ret rest off' g' where lp: "SetVirtImageData_loop g (length d) (off div CACHE_BLOCK_SIZE)
      (off mod CACHE_BLOCK_SIZE) off n buf = Some (ret, rest, off', g')"
    and post: "loop_post g f d (off mod CACHE_BLOCK_SIZE) off n buf (ret, rest, off', g')"
    by (metis prod_cases4)
  from post obtain f' j where p: "ca_h_cache_file (x_cache g') = Some f'" "f_limit f' = f_limit f"
    "write_frame g g'" "cache_inv g' d" "j \<le> n"
    "disk_contents g' d = overwrite off (take j buf) (disk_contents g d)"
    "if ret = 0 then j = n \<and> rest = drop n buf \<and> off' = off + n else ret = -1"
    "0 < n \<longrightarrow> \<not> end_ok g d (off + n) \<longrightarrow> ret = -1"
    "\<forall>k m. off mod CACHE_BLOCK_SIZE + n \<le> k * CACHE_BLOCK_SIZE \<and>
        length (f_data f) + k * CACHE_BLOCK_SIZE + m \<le> f_limit f \<longrightarrow>
      length (f_data f') + m \<le> f_limit f \<and> (n = 0 \<or> end_ok g d (off + n) \<longrightarrow> ret = 0)"
    unfolding loop_post_def split_conv by blast
  have "virt_inv g' d" using p(3,4) by (intro virt_inv_step [OF inv]) (simp_all add: write_frame_def)
  moreover have "length (f_data f') + m \<le> f_limit f \<and> (n = 0 \<or> end_ok g d (off + n) \<longrightarrow> ret = 0)"
    if "length (f_data f) + (n div CACHE_BLOCK_SIZE + 2) * CACHE_BLOCK_SIZE + m \<le> f_limit f" for m
    using p(9) room_blocks [OF a, of n n] that by blast
  ultimately show ?thesis using lp p(1,2,3,5,6,7,8) by (intro that [of ret rest off' g' f' j]) blast+
qed

lemma room_mono: "k \<le> n \<Longrightarrow> (k div CACHE_BLOCK_SIZE + 2) * CACHE_BLOCK_SIZE \<le>
    (n div CACHE_BLOCK_SIZE + 2) * CACHE_BLOCK_SIZE"
  by (intro mult_right_mono add_right_mono div_le_mono) simp_all

text \<open>The function behind its size checks, for a write inside the image.\<close>

definition set_rest :: "xmount_data \<Rightarrow> nat \<Rightarrow> bytes \<Rightarrow> nat \<Rightarrow> (int \<times> xmount_data) option" where
  "set_rest g orig_size data offset =
     (case SetVirtImageData_head g orig_size offset data of
        None \<Rightarrow> None
      | Some (vs, g2) \<Rightarrow>
          (case vs_ret vs of
             Some ret \<Rightarrow> Some (ret, g2)
           | None \<Rightarrow>
               (case SetVirtImageData_loop g2 orig_size (vs_off vs div CACHE_BLOCK_SIZE)
                       (vs_off vs mod CACHE_BLOCK_SIZE) (vs_off vs) (vs_now vs) (vs_buf vs) of
                  None \<Rightarrow> None
                | Some (ret, rest, file_off, g3) \<Rightarrow>
                    if ret \<noteq> 0 then Some (-1, g3)
                    else if vs_later vs \<noteq> 0 \<and> out_VirtImageType (x_output g3) = VirtImageType_VHD
                    then (case SetVhdFileHeaderData (take (vs_later vs) rest)
                                 (file_off - orig_size) g3 of
                            None \<Rightarrow> None
                          | Some (ret, g4) \<Rightarrow>
                              Some ((if ret = -1 then -1 else int_of_size (length data)), g4))
                    else Some (int_of_size (length data), g3))))"

lemma SetVirtImageData_rest:
  assumes inv: "virt_inv g d" and range: "off < length (virt_contents g d)"
    and n: "length bs < 2147483648"
  shows "SetVirtImageData g bs off =
    set_rest (set_size (length (virt_contents g d)) g) (length d)
      (take (length (virt_contents g d) - off) bs) off"
proof -
  let ?L = "length (virt_contents g d)"
  have "?L < 2 ^ 53"
    using length_virt_contents [OF inv] virt_invD(3) [OF inv] header_size_less [OF virt_invD(4) [OF inv]]
    by simp
  then have u: "u64 (off + length bs) = off + length bs" using range n by (intro u64_small) simp
  have d: "(if u64 (off + length bs) > ?L then take (?L - off) bs else bs) = take (?L - off) bs"
    using u by auto
  note m = virt_invD(1) [OF set_size_inv [OF inv refl]]
  show ?thesis
    unfolding SetVirtImageData_def GetVirtImageSize_ok [OF inv] split_conv Let_def d
      GetMorphedImageSize_ok [OF m] set_rest_def
    using range by simp
qed

lemma set_rest_plain:
  assumes inv: "virt_inv g d" and f: "ca_h_cache_file (x_cache g) = Some f"
    and t: "out_VirtImageType (x_output g) \<noteq> VirtImageType_VDI"
      "out_VirtImageType (x_output g) \<noteq> VirtImageType_VHD"
    and n: "bs \<noteq> []" "length bs < 2147483648" "off + length bs \<le> length (virt_contents g d)"
  shows "\<exists>ret g'. set_rest g (length d) bs off = Some (ret, g') \<and> write_post g d off bs ret g'"
proof -
  have c: "virt_contents k d = disk_contents k d" if "x_output k = x_output g" for k
    using t that by (simp add: virt_contents_def split: VirtImageType.splits)
  have hs: "header_size (x_output g) = 0"
    using t by (simp add: header_size_def split: VirtImageType.splits)
  have rng: "off + length bs \<le> length d" using n(3) c [of g] by simp
  have head: "SetVirtImageData_head g (length d) off bs =
      Some (\<lparr>vs_ret = None, vs_buf = bs, vs_off = off, vs_now = length bs, vs_later = 0\<rparr>, g)"
    using t by (simp add: SetVirtImageData_head_def Let_def split: VirtImageType.splits)
  obtain ret rest off' g' f' j where
    lp: "SetVirtImageData_loop g (length d) (off div CACHE_BLOCK_SIZE) (off mod CACHE_BLOCK_SIZE)
      off (length bs) bs = Some (ret, rest, off', g')"
    and f': "ca_h_cache_file (x_cache g') = Some f'" "f_limit f' = f_limit f"
    and p: "write_frame g g'" "virt_inv g' d" "j \<le> length bs"
      "disk_contents g' d = overwrite off (take j bs) (disk_contents g d)"
      "if ret = 0 then j = length bs \<and> rest = drop (length bs) bs \<and> off' = off + length bs else ret = -1"
      "0 < length bs \<longrightarrow> \<not> end_ok g d (off + length bs) \<longrightarrow> ret = -1"
      "\<forall>m. length (f_data f) + (length bs div CACHE_BLOCK_SIZE + 2) * CACHE_BLOCK_SIZE + m \<le> f_limit f \<longrightarrow>
         length (f_data f') + m \<le> f_limit f \<and> (length bs = 0 \<or> end_ok g d (off + length bs) \<longrightarrow> ret = 0)"
    by (rule SetVirtImageData_disk [OF inv f rng order.refl])
  define r where "r = (if ret = 0 then int (length bs) else -1)"
  have res: "set_rest g (length d) bs off = Some (r, g')"
    using lp int_of_size_small [OF n(2)] by (simp add: set_rest_def head r_def)
  have wc: "write_completes g d off (length bs) = end_ok g d (off + length bs)"
  proof -
    have "disk_start (x_output g) off = off"
      "disk_stop (x_output g) d (off + length bs) = off + length bs"
      using t rng by (simp_all add: disk_start_def disk_stop_def)
    moreover have "off < off + length bs" using n(1) by simp
    ultimately show ?thesis by (simp only: write_completes_def Let_def simp_thms)
  qed
  have "virt_contents g' d = overwrite off (take j bs) (virt_contents g d)"
    using p(1,4) by (simp add: c write_frame_def)
  moreover have "ret = 0" if "write_room g (length bs)" "end_ok g d (off + length bs)"
    using p(7) [rule_format, of 0] that by (simp add: write_room_def f hs)
  moreover have "ret = -1" if "\<not> end_ok g d (off + length bs)"
    using p(6) that n(1) by simp
  moreover have "r = -1 \<or> r = int (length bs) \<and> j = length bs"
    using p(5) by (cases "ret = 0") (simp_all add: r_def)
  ultimately have "write_post g d off bs r g'"
    using p(2,3) unfolding wc [symmetric] by (intro write_postI) (simp_all add: r_def)
  with res show ?thesis by blast
qed

text \<open>The VDI image: behind the header the disk, before it the header first.\<close>

lemma header_postD:
  assumes "header_post slot g f d hdr off data ret g'" "virt_inv g d"
  shows "\<exists>f'. ca_h_cache_file (x_cache g') = Some f' \<and> f_limit f' = f_limit f \<and>
      length (f_data f') \<le> length (f_data f) + length hdr"
    and "virt_inv g' d" "x_output g' = x_output g" "disk_contents g' d = disk_contents g d"
    and "end_ok g' d e = end_ok g d e" "ret = int (length data) \<or> ret = -1"
    and "header_contents g' slot hdr = (if ret = -1 then header_contents g slot hdr
        else overwrite off data (header_contents g slot hdr))"
    and "length (f_data f) + length hdr \<le> f_limit f \<Longrightarrow> ret \<noteq> -1"
proof -
  note h = assms(1) [unfolded header_post_def]
  show "virt_inv g' d" using h by (intro virt_inv_step [OF assms(2)]) blast+
  show "end_ok g' d e = end_ok g d e" using h unfolding end_ok_def by metis
qed (use assms(1) [unfolded header_post_def] in blast)+

lemma set_rest_vdi_behind:
  assumes inv: "virt_inv g d" and f: "ca_h_cache_file (x_cache g) = Some f"
    and t: "out_VirtImageType (x_output g) = VirtImageType_VDI"
    and n: "bs \<noteq> []" "length bs < 2147483648" "off + length bs \<le> length (virt_contents g d)"
    and hs: "vdi_header_size (out_vdi (x_output g)) \<le> off"
  shows "\<exists>ret g'. set_rest g (length d) bs off = Some (ret, g') \<and> write_post g d off bs ret g'"
proof -
  let ?hs = "vdi_header_size (out_vdi (x_output g))" and ?hdr = "vdi_header (out_vdi (x_output g))"
  have lh: "length (header_contents g RVdi ?hdr) = ?hs"
    using length_header_contents [OF virt_invD(2) [OF inv] header_regions(1) [OF virt_invD(4) [OF inv] t]]
      virt_invD(4) [OF inv] t by (simp add: headers_ok_def)
  have c: "virt_contents k d = header_contents k RVdi ?hdr @ disk_contents k d"
    if "x_output k = x_output g" for k
    using t that by (simp add: virt_contents_def)
  have rng: "off - ?hs + length bs \<le> length d" using n(3) hs lh by (simp add: c)
  have head: "SetVirtImageData_head g (length d) off bs =
      Some (\<lparr>vs_ret = None, vs_buf = bs, vs_off = off - ?hs, vs_now = length bs, vs_later = 0\<rparr>, g)"
    using t hs by (simp add: SetVirtImageData_head_def Let_def)
  obtain ret rest off' g' f' j where
    lp: "SetVirtImageData_loop g (length d) ((off - ?hs) div CACHE_BLOCK_SIZE)
      ((off - ?hs) mod CACHE_BLOCK_SIZE) (off - ?hs) (length bs) bs = Some (ret, rest, off', g')"
    and f': "ca_h_cache_file (x_cache g') = Some f'" "f_limit f' = f_limit f"
    and p: "write_frame g g'" "virt_inv g' d" "j \<le> length bs"
      "disk_contents g' d = overwrite (off - ?hs) (take j bs) (disk_contents g d)"
      "if ret = 0 then j = length bs \<and> rest = drop (length bs) bs \<and> off' = off - ?hs + length bs
       else ret = -1"
      "0 < length bs \<longrightarrow> \<not> end_ok g d (off - ?hs + length bs) \<longrightarrow> ret = -1"
      "\<forall>m. length (f_data f) + (length bs div CACHE_BLOCK_SIZE + 2) * CACHE_BLOCK_SIZE + m \<le> f_limit f \<longrightarrow>
         length (f_data f') + m \<le> f_limit f \<and>
         (length bs = 0 \<or> end_ok g d (off - ?hs + length bs) \<longrightarrow> ret = 0)"
    by (rule SetVirtImageData_disk [OF inv f rng order.refl])
  define r where "r = (if ret = 0 then int (length bs) else -1)"
  have res: "set_rest g (length d) bs off = Some (r, g')"
    using lp int_of_size_small [OF n(2)] by (simp add: set_rest_def head r_def)
  have wc: "write_completes g d off (length bs) = end_ok g d (off - ?hs + length bs)"
  proof -
    have "off + length bs - ?hs = off - ?hs + length bs" using hs by simp
    then have "disk_start (x_output g) off = off - ?hs"
      "disk_stop (x_output g) d (off + length bs) = off - ?hs + length bs"
      using t rng by (simp_all add: disk_start_def disk_stop_def)
    moreover have "off - ?hs < off - ?hs + length bs" using n(1) by simp
    ultimately show ?thesis by (simp only: write_completes_def Let_def simp_thms)
  qed
  have "virt_contents g' d = overwrite off (take j bs) (virt_contents g d)"
    using p(1,4) hs lh by (simp add: c write_frame_def overwrite_append_right)
  moreover have "ret = 0" if "write_room g (length bs)" "end_ok g d (off - ?hs + length bs)"
    using p(7) [rule_format, of 0] that by (simp add: write_room_def f)
  moreover have "ret = -1" if "\<not> end_ok g d (off - ?hs + length bs)"
    using p(6) that n(1) by simp
  moreover have "r = -1 \<or> r = int (length bs) \<and> j = length bs"
    using p(5) by (cases "ret = 0") (simp_all add: r_def)
  ultimately have "write_post g d off bs r g'"
    using p(2,3) unfolding wc [symmetric] by (intro write_postI) (simp_all add: r_def)
  with res show ?thesis by blast
qed

lemma set_rest_vdi_header:
  assumes inv: "virt_inv g d" and f: "ca_h_cache_file (x_cache g) = Some f"
    and t: "out_VirtImageType (x_output g) = VirtImageType_VDI"
    and n: "bs \<noteq> []" "length bs < 2147483648" "off + length bs \<le> length (virt_contents g d)"
    and hs: "off < vdi_header_size (out_vdi (x_output g))"
  shows "\<exists>ret g'. set_rest g (length d) bs off = Some (ret, g') \<and> write_post g d off bs ret g'"
proof -
  let ?hs = "vdi_header_size (out_vdi (x_output g))" and ?hdr = "vdi_header (out_vdi (x_output g))"
  let ?b1 = "take (?hs - off) bs"
  have lh: "length (header_contents g RVdi ?hdr) = ?hs" "length ?hdr = ?hs"
    using length_header_contents [OF virt_invD(2) [OF inv] header_regions(1) [OF virt_invD(4) [OF inv] t]]
      virt_invD(4) [OF inv] t by (simp_all add: headers_ok_def)
  have c: "virt_contents k d = header_contents k RVdi ?hdr @ disk_contents k d"
    if "x_output k = x_output g" for k
    using t that by (simp add: virt_contents_def)
  have rng: "off + length bs \<le> ?hs + length d" using n(3) lh by (simp add: c)
  obtain ret1 g1 where s: "SetVdiFileHeaderData bs off g = Some (ret1, g1)"
    and hp: "header_post RVdi g f d ?hdr off ?b1 ret1 g1"
    using SetVdiFileHeaderData_ok [OF inv f t n(1,2) hs] by blast
  note h1 = header_postD [OF hp inv]
  obtain f1 where f1: "ca_h_cache_file (x_cache g1) = Some f1" "f_limit f1 = f_limit f"
    "length (f_data f1) \<le> length (f_data f) + ?hs"
    using h1(1) unfolding lh(2) by blast
  let ?k = "length ?b1"
  have start: "disk_start (x_output g) off = 0" using t hs by (simp add: disk_start_def)
  have stop: "disk_stop (x_output g) d (off + length bs) = off + length bs - ?hs"
    using t rng by (simp add: disk_stop_def)
  have wc: "write_completes g d off (length bs) =
      (0 < off + length bs - ?hs \<longrightarrow> end_ok g d (off + length bs - ?hs))"
    by (simp only: write_completes_def Let_def start stop)
  have room1: "ret1 \<noteq> -1" if "write_room g (length bs)"
    using that h1(8) t unfolding lh(2) by (simp add: write_room_def f header_size_def)
  have head: "SetVirtImageData_head g (length d) off bs =
      Some (\<lparr>vs_ret = (if ret1 = -1 then Some (-1)
               else if ?k = length bs then Some (int_of_size (length bs)) else None),
             vs_buf = drop (size_of_int ret1) bs, vs_off = 0,
             vs_now = sub64 (length bs) (size_of_int ret1), vs_later = 0\<rparr>, g1)"
    using t hs s h1(6) n(2) by (auto simp: SetVirtImageData_head_def Let_def size_of_int_def nat_mod_as_int)
  consider (failed) "ret1 = -1" | (all) "ret1 = int ?k" "?k = length bs"
    | (part) "ret1 = int ?k" "?k \<noteq> length bs" "ret1 \<noteq> -1" using h1(6) by force
  then show ?thesis
  proof cases
    case failed
    have "write_post g d off bs (-1) g1"
    proof (rule write_postI [where j = 0])
      show "virt_contents g1 d = overwrite off (take 0 bs) (virt_contents g d)"
        using h1(3,4,7) failed hs lh by (simp add: c)
    qed (use h1(2) room1 failed in auto)
    then show ?thesis using failed by (simp add: set_rest_def head)
  next
    case all
    have bs: "?b1 = bs" using all(2) by simp
    have "write_post g d off bs (int (length bs)) g1"
    proof (rule write_postI [where j = "length bs"])
      have "off + length bs \<le> ?hs" using all(2) hs by (simp add: min_def split: if_splits)
      then show "virt_contents g1 d = overwrite off (take (length bs) bs) (virt_contents g d)"
        "\<not> write_completes g d off (length bs) \<Longrightarrow> int (length bs) = -1"
        using h1(3,4,7) all hs lh unfolding bs wc by (simp_all add: c overwrite_append_left)
    qed (use h1(2) in auto)
    then show ?thesis using all int_of_size_small [OF n(2)] by (simp add: set_rest_def head)
  next
    case part
    let ?r = "drop ?k bs" and ?m = "length bs - ?k"
    have k: "?k = ?hs - off" "?hs - off < length bs" using part(2) by (auto simp: min_def split: if_splits)
    have sz: "size_of_int ret1 = ?k" "sub64 (length bs) ?k = ?m"
      using part(1) n(2) by (auto simp: size_of_int_def intro!: sub64_small)
    have m: "0 + ?m \<le> length d" "?m \<le> length ?r" "0 < ?m" "0 + ?m = off + length bs - ?hs"
      using k rng hs by simp_all
    obtain ret rest off' g' f' j where
      lp: "SetVirtImageData_loop g1 (length d) (0 div CACHE_BLOCK_SIZE) (0 mod CACHE_BLOCK_SIZE) 0 ?m ?r =
        Some (ret, rest, off', g')"
      and f': "ca_h_cache_file (x_cache g') = Some f'" "f_limit f' = f_limit f1"
      and p: "write_frame g1 g'" "virt_inv g' d" "j \<le> ?m"
        "disk_contents g' d = overwrite 0 (take j ?r) (disk_contents g1 d)"
        "if ret = 0 then j = ?m \<and> rest = drop ?m ?r \<and> off' = 0 + ?m else ret = -1"
        "0 < ?m \<longrightarrow> \<not> end_ok g1 d (0 + ?m) \<longrightarrow> ret = -1"
        "\<forall>q. length (f_data f1) + (?m div CACHE_BLOCK_SIZE + 2) * CACHE_BLOCK_SIZE + q \<le> f_limit f1 \<longrightarrow>
           length (f_data f') + q \<le> f_limit f1 \<and> (?m = 0 \<or> end_ok g1 d (0 + ?m) \<longrightarrow> ret = 0)"
      by (rule SetVirtImageData_disk [OF h1(2) f1(1) m(1,2)])
    define r where "r = (if ret = 0 then int (length bs) else -1)"
    have head2: "SetVirtImageData_head g (length d) off bs =
        Some (\<lparr>vs_ret = None, vs_buf = ?r, vs_off = 0, vs_now = ?m, vs_later = 0\<rparr>, g1)"
      unfolding head sz using part(2,3) by simp
    have res: "set_rest g (length d) bs off = Some (r, g')"
      unfolding set_rest_def head2 using lp int_of_size_small [OF n(2)] by (simp add: r_def)
    have wc1: "write_completes g d off (length bs) = end_ok g1 d (0 + ?m)"
      unfolding wc h1(5) m(4) [symmetric] using m(3) k by simp
    have "write_post g d off bs r g'"
    proof (rule write_postI [where j = "?k + j"])
      have "take (?k + j) bs = ?b1 @ take j ?r" unfolding take_add using k by simp
      moreover have "off + length ?b1 = length (header_contents g RVdi ?hdr)" using k hs lh by simp
      ultimately show "virt_contents g' d = overwrite off (take (?k + j) bs) (virt_contents g d)"
        using p(1,4) h1(3,4,7) part(3)
        by (simp add: c write_frame_def overwrite_append_cross)
      show "r = -1 \<or> r = int (length bs) \<and> ?k + j = length bs"
        using p(5) k by (cases "ret = 0") (simp_all add: r_def)
      show "r = -1" if "\<not> write_completes g d off (length bs)"
        using that p(6) m(3) unfolding wc1 by (simp add: r_def)
      show "r \<noteq> -1" if "write_completes g d off (length bs)" "write_room g (length bs)"
      proof -
        have "length (f_data f1) + (?m div CACHE_BLOCK_SIZE + 2) * CACHE_BLOCK_SIZE + 0 \<le> f_limit f1"
        proof -
          have "length (f_data f) + (length bs div CACHE_BLOCK_SIZE + 2) * CACHE_BLOCK_SIZE + ?hs \<le> f_limit f"
            using that(2) t by (simp add: write_room_def f header_size_def)
          moreover have "?m \<le> length bs" by simp
          ultimately show ?thesis using room_mono [of ?m "length bs"] f1(2,3) by linarith
        qed
        from p(7) [rule_format, OF this] show ?thesis using that(1) unfolding wc1 by (simp add: r_def)
      qed
    qed (use p(2,3) in auto)
    with res show ?thesis by blast
  qed
qed

text \<open>The VHD image: the disk first, then the footer.\<close>

lemma set_rest_vhd_footer:
  assumes inv: "virt_inv g d" and f: "ca_h_cache_file (x_cache g) = Some f"
    and t: "out_VirtImageType (x_output g) = VirtImageType_VHD"
    and n: "bs \<noteq> []" "length bs < 2147483648" "off + length bs \<le> length (virt_contents g d)"
    and behind: "length d \<le> off"
  shows "\<exists>ret g'. set_rest g (length d) bs off = Some (ret, g') \<and> write_post g d off bs ret g'"
proof -
  let ?ftr = "out_vhd_header (x_output g)"
  have c: "virt_contents k d = disk_contents k d @ header_contents k RVhd ?ftr"
    if "x_output k = x_output g" for k
    using t that by (simp add: virt_contents_def)
  have lf: "length ?ftr = sizeof_VhdFileHeader"
    using virt_invD(4) [OF inv] t by (simp add: headers_ok_def)
  have rng: "off - length d + length bs \<le> sizeof_VhdFileHeader"
    using n(3) behind t by (simp add: length_virt_contents [OF inv] header_size_def)
  have head: "SetVirtImageData_head g (length d) off bs =
      Some (\<lparr>vs_ret = None, vs_buf = bs, vs_off = off, vs_now = 0, vs_later = length bs\<rparr>, g)"
    using t behind by (simp add: SetVirtImageData_head_def Let_def)
  have lp: "SetVirtImageData_loop g (length d) b a off 0 bs = Some (0, bs, off, g)" for a b
    by (subst SetVirtImageData_loop.simps) simp
  obtain ret g' where s: "SetVhdFileHeaderData bs (off - length d) g = Some (ret, g')"
    and hp: "header_post RVhd g f d ?ftr (off - length d) bs ret g'"
    using SetVhdFileHeaderData_ok [OF inv f t n(1,2) rng] by blast
  note h = header_postD [OF hp inv]
  have res: "set_rest g (length d) bs off = Some (ret, g')"
    unfolding set_rest_def head using lp s t n(1) h(6) int_of_size_small [OF n(2)] by auto
  have "write_post g d off bs ret g'"
  proof (rule write_postI [where j = "if ret = -1 then 0 else length bs"])
    show "virt_contents g' d = overwrite off (take (if ret = -1 then 0 else length bs) bs) (virt_contents g d)"
      using h(3,4,7) behind n(3) by (simp add: c overwrite_append_right)
    have wc: "write_completes g d off (length bs)"
      using t behind by (simp add: write_completes_def disk_start_def disk_stop_def)
    show "ret = -1" if "\<not> write_completes g d off (length bs)" using wc that by simp
    show "ret \<noteq> -1" if "write_room g (length bs)"
      using h(8) that t lf by (simp add: write_room_def f header_size_def)
  qed (use h(2,6) in auto)
  with res show ?thesis by blast
qed

lemma set_rest_vhd_disk:
  assumes inv: "virt_inv g d" and f: "ca_h_cache_file (x_cache g) = Some f"
    and t: "out_VirtImageType (x_output g) = VirtImageType_VHD"
    and n: "bs \<noteq> []" "length bs < 2147483648" "off + length bs \<le> length (virt_contents g d)"
    and before: "off < length d"
  shows "\<exists>ret g'. set_rest g (length d) bs off = Some (ret, g') \<and> write_post g d off bs ret g'"
proof -
  let ?ftr = "out_vhd_header (x_output g)"
  have c: "virt_contents k d = disk_contents k d @ header_contents k RVhd ?ftr"
    if "x_output k = x_output g" for k
    using t that by (simp add: virt_contents_def)
  have lf: "length ?ftr = sizeof_VhdFileHeader"
    using virt_invD(4) [OF inv] t by (simp add: headers_ok_def)
  have dl: "length d < 2 ^ 52" by (rule virt_invD(3) [OF inv])
  define now where "now = min (length bs) (length d - off)"
  define later where "later = length bs - now"
  have nl: "off + now \<le> length d" "now \<le> length bs" "0 < now" "now + later = length bs"
    "later \<noteq> 0 \<Longrightarrow> off + now = length d" "later \<le> sizeof_VhdFileHeader"
    using before n(1,3) t by (auto simp: now_def later_def length_virt_contents [OF inv] header_size_def)
  have head: "SetVirtImageData_head g (length d) off bs =
      Some (\<lparr>vs_ret = None, vs_buf = bs, vs_off = off, vs_now = now, vs_later = later\<rparr>, g)"
  proof -
    have "u64 (off + length bs) = off + length bs" using before dl n(2) by (intro u64_small) simp
    moreover have "sub64 (off + length bs) (length d) = off + length bs - length d"
      if "length d < off + length bs" using that before dl n(2) by (intro sub64_small) simp_all
    ultimately show ?thesis
      using t before by (auto simp: SetVirtImageData_head_def Let_def now_def later_def)
  qed
  obtain ret rest off' g1 f1 j where
    lp: "SetVirtImageData_loop g (length d) (off div CACHE_BLOCK_SIZE) (off mod CACHE_BLOCK_SIZE)
      off now bs = Some (ret, rest, off', g1)"
    and f1: "ca_h_cache_file (x_cache g1) = Some f1" "f_limit f1 = f_limit f"
    and p: "write_frame g g1" "virt_inv g1 d" "j \<le> now"
      "disk_contents g1 d = overwrite off (take j bs) (disk_contents g d)"
      "if ret = 0 then j = now \<and> rest = drop now bs \<and> off' = off + now else ret = -1"
      "0 < now \<longrightarrow> \<not> end_ok g d (off + now) \<longrightarrow> ret = -1"
      "\<forall>m. length (f_data f) + (now div CACHE_BLOCK_SIZE + 2) * CACHE_BLOCK_SIZE + m \<le> f_limit f \<longrightarrow>
         length (f_data f1) + m \<le> f_limit f \<and> (now = 0 \<or> end_ok g d (off + now) \<longrightarrow> ret = 0)"
    by (rule SetVirtImageData_disk [OF inv f nl(1,2)])
  have fr: "x_output g1 = x_output g" "header_contents g1 RVhd ?ftr = header_contents g RVhd ?ftr"
    using p(1) by (simp_all add: write_frame_def)
  have wc: "write_completes g d off (length bs) = end_ok g d (off + now)"
  proof -
    have "disk_start (x_output g) off = off" "disk_stop (x_output g) d (off + length bs) = off + now"
      using t before by (auto simp: disk_start_def disk_stop_def now_def)
    moreover have "off < off + now" using nl(3) by simp
    ultimately show ?thesis by (simp only: write_completes_def Let_def simp_thms)
  qed
  have room: "length (f_data f1) + sizeof_VhdFileHeader \<le> f_limit f1 \<and>
      (end_ok g d (off + now) \<longrightarrow> ret = 0)" if "write_room g (length bs)"
  proof -
    have "length (f_data f) + (now div CACHE_BLOCK_SIZE + 2) * CACHE_BLOCK_SIZE + sizeof_VhdFileHeader
        \<le> f_limit f"
    proof -
      have "length (f_data f) + (length bs div CACHE_BLOCK_SIZE + 2) * CACHE_BLOCK_SIZE +
          sizeof_VhdFileHeader \<le> f_limit f"
        using that t by (simp add: write_room_def f header_size_def)
      then show ?thesis using room_mono [OF nl(2)] by linarith
    qed
    from p(7) [rule_format, OF this] show ?thesis using f1(2) by simp
  qed
  have part: "virt_contents g1 d = overwrite off (take j bs) (virt_contents g d)"
    using p(3,4) nl(1,2) fr by (simp add: c overwrite_append_left)
  show ?thesis
  proof (cases "ret = 0")
    case False
    then have "ret = -1" using p(5) by simp
    then have "set_rest g (length d) bs off = Some (-1, g1)"
      unfolding set_rest_def head using lp by simp
    moreover have "write_post g d off bs (-1) g1"
      using p(2,3) nl(2) part room False by (intro write_postI [where j = j]) (auto simp: wc)
    ultimately show ?thesis by blast
  next
    case ret: True
    then have e: "rest = drop now bs" "off' = off + now" "j = now" using p(5) by simp_all
    have eo: "end_ok g d (off + now)" using p(6) nl(3) ret by fastforce
    show ?thesis
    proof (cases "later = 0")
      case True
      then have all: "now = length bs" using nl(4) by simp
      have "set_rest g (length d) bs off = Some (int (length bs), g1)"
        unfolding set_rest_def head using lp ret True int_of_size_small [OF n(2)] by simp
      moreover have "write_post g d off bs (int (length bs)) g1"
        using p(2) part e(3) all eo by (intro write_postI [where j = "length bs"]) (auto simp: wc)
      ultimately show ?thesis by blast
    next
      case False
      note at = nl(5) [OF False]
      have tl: "take later rest = drop now bs" "off' - length d = 0" "length (drop now bs) = later"
        using e nl(4) at by simp_all
      have t1: "out_VirtImageType (x_output g1) = VirtImageType_VHD" using t fr(1) by simp
      have dn: "drop now bs \<noteq> []" "length (drop now bs) < 2147483648"
        "0 + length (drop now bs) \<le> sizeof_VhdFileHeader"
        using tl(3) False nl(6) n(2) by auto
      obtain ret2 g2 where s: "SetVhdFileHeaderData (drop now bs) 0 g1 = Some (ret2, g2)"
        and hp: "header_post RVhd g1 f1 d (out_vhd_header (x_output g1)) 0 (drop now bs) ret2 g2"
        using SetVhdFileHeaderData_ok [OF p(2) f1(1) t1 dn] by blast
      note h = header_postD [OF hp p(2), unfolded fr(1)]
      define r where "r = (if ret2 = -1 then -1 else int (length bs))"
      have "set_rest g (length d) bs off = Some (r, g2)"
        unfolding set_rest_def head using lp ret False t1 tl s int_of_size_small [OF n(2)]
        by (simp add: r_def)
      moreover have "write_post g d off bs r g2"
      proof (rule write_postI [where j = "if ret2 = -1 then now else length bs"])
        show "virt_contents g2 d =
            overwrite off (take (if ret2 = -1 then now else length bs) bs) (virt_contents g d)"
        proof (cases "ret2 = -1")
          case True
          then show ?thesis
            using h(3,4,7) fr(1) part e(3) by (simp add: c)
        next
          case False
          have "virt_contents g2 d = overwrite off (take now bs) (disk_contents g d) @
              overwrite 0 (drop now bs) (header_contents g RVhd ?ftr)"
            using False h(3,4,7) fr p(4) e(3) by (simp add: c)
          also have "\<dots> = overwrite off (take now bs @ drop now bs) (virt_contents g d)"
            unfolding c [OF refl] by (rule overwrite_append_cross [symmetric]) (use at nl(2) in simp)
          finally show ?thesis using False by simp
        qed
        show "r \<noteq> -1" if "write_room g (length bs)"
          using h(8) room [OF that] lf by (simp add: r_def)
      qed (use h(2) nl(2) eo wc in \<open>auto simp: r_def\<close>)
      ultimately show ?thesis by blast
    qed
  qed
qed

lemma set_size_write:
  "header_size (x_output (set_size n g)) = header_size (x_output g)"
  "disk_start (x_output (set_size n g)) = disk_start (x_output g)"
  "disk_stop (x_output (set_size n g)) = disk_stop (x_output g)"
  "end_ok (set_size n g) d e = end_ok g d e"
  by (simp_all add: header_size_def disk_start_def disk_stop_def end_ok_def fun_eq_iff
      cong: VirtImageType.case_cong del: region_at.simps)

lemma set_size_write_post: "write_post (set_size n g) d off data ret g' = write_post g d off data ret g'"
proof -
  have "write_completes (set_size n g) d off k = write_completes g d off k" for k
    unfolding write_completes_def set_size_write ..
  moreover have "write_room (set_size n g) k = write_room g k" for k
    unfolding write_room_def set_size_write by simp
  ultimately show ?thesis by (simp only: write_post_def set_size_virt)
qed

lemma SetVirtImageData_post:
  assumes inv: "virt_inv g d" and f: "ca_h_cache_file (x_cache g) = Some f"
    and n: "bs \<noteq> []" "length bs < 2147483648" "off < length (virt_contents g d)"
  defines "data \<equiv> take (length (virt_contents g d) - off) bs"
  shows "\<exists>ret g'. SetVirtImageData g bs off = Some (ret, g') \<and> write_post g d off data ret g'"
proof -
  let ?L = "length (virt_contents g d)" and ?g = "set_size (length (virt_contents g d)) g"
  have inv1: "virt_inv ?g d" by (rule set_size_inv [OF inv refl])
  have f1: "ca_h_cache_file (x_cache ?g) = Some f" using f by simp
  have dn: "data \<noteq> []" "length data < 2147483648" "off + length data \<le> length (virt_contents ?g d)"
    using n by (auto simp: data_def)
  have "\<exists>ret g'. set_rest ?g (length d) data off = Some (ret, g') \<and> write_post ?g d off data ret g'"
    using set_rest_plain [OF inv1 f1 _ _ dn] set_rest_vdi_behind [OF inv1 f1 _ dn]
      set_rest_vdi_header [OF inv1 f1 _ dn] set_rest_vhd_footer [OF inv1 f1 _ dn]
      set_rest_vhd_disk [OF inv1 f1 _ dn]
    by (cases "out_VirtImageType (x_output ?g) = VirtImageType_VDI";
        cases "out_VirtImageType (x_output ?g) = VirtImageType_VHD") (meson not_le)+
  then show ?thesis
    unfolding SetVirtImageData_rest [OF inv n(3,2)] data_def [symmetric] set_size_write_post .
qed

end
