(* ===== verification/XmountCacheInit.thy ===== *)
theory XmountCacheInit
  imports XmountVirtSet
begin

text \<open>
  \<open>InitCacheFile\<close>: opening a cache file, or creating one. A new file establishes the cache
  invariant with nothing cached; a file left by an earlier run gives back the same disk. The
  results of the two \<open>fopen\<close> calls are arguments: \<open>rb\<close> for mode \<open>rb+\<close>, \<open>wb\<close> for
  mode \<open>wb+\<close>, which gives an empty file.
\<close>

section \<open>Operation\<close>

definition new_cache_header :: "nat \<Rightarrow> cache_header" where
  "new_cache_header needed_blocks =
     \<lparr>ch_FileSignature = CACHE_FILE_SIGNATURE, ch_CacheFileVersion = CUR_CACHE_FILE_VERSION,
      ch_BlockSize = CACHE_BLOCK_SIZE, ch_BlockCount = needed_blocks,
      ch_pBlockIndex = sizeof_CacheFileHeader, ch_VdiFileHeaderCached = 0, ch_pVdiFileHeader = 0,
      ch_VmdkFileCached = 0, ch_VmdkFileSize = 0, ch_pVmdkFile = 0,
      ch_VhdFileHeaderCached = 0, ch_pVhdFileHeader = 0, ch_HeaderPadding = replicate 432 0\<rparr>"

definition put_index :: "cache_header \<Rightarrow> cache_blkidx list \<Rightarrow> xmount_data \<Rightarrow> xmount_data" where
  "put_index h idx g = upd_cache (\<lambda>c. c\<lparr>ca_header := h, ca_blkidx := idx\<rparr>) g"

definition InitCacheFile_load :: "xmount_data \<Rightarrow> cfile \<Rightarrow> nat \<Rightarrow> (int \<times> xmount_data) option" where
  "InitCacheFile_load g f needed_blocks =
     (let hsize = sizeof_CacheFileHeader + needed_blocks * sizeof_CacheFileBlockIndex in
      case fread 8 (snd (fseeko_set 0 f)) of (k, sig, f1) \<Rightarrow>
        if k \<noteq> 1 \<or> le_val sig \<noteq> CACHE_FILE_SIGNATURE then Some (C_FALSE, put_file f1 g)
        else case fread 4 f1 of (k, ver, f2) \<Rightarrow>
          if k \<noteq> 1 then Some (C_FALSE, put_file f2 g)
          else if le_val ver = 1 then Some (C_FALSE, put_file f2 g)
          else if le_val ver \<noteq> CUR_CACHE_FILE_VERSION then Some (C_FALSE, put_file f2 g)
          else case fread hsize (snd (fseeko_set 0 f2)) of (k, buf, f3) \<Rightarrow>
            if k \<noteq> 1 then Some (C_FALSE, put_file f3 g)
            else let h = dec_cache_header buf in
              if ch_BlockSize h \<noteq> CACHE_BLOCK_SIZE then Some (C_FALSE, put_file f3 (put_header h g))
              else if ch_pBlockIndex h + needed_blocks * sizeof_CacheFileBlockIndex > hsize then None
              else Some (C_TRUE, put_file f3 (put_index h
                     (map (\<lambda>i. dec_blkidx (segment (ch_pBlockIndex h + i * sizeof_CacheFileBlockIndex)
                                  sizeof_CacheFileBlockIndex buf)) [0..<needed_blocks]) g)))"

definition InitCacheFile_new :: "xmount_data \<Rightarrow> cfile \<Rightarrow> nat \<Rightarrow> (int \<times> xmount_data) option" where
  "InitCacheFile_new g f needed_blocks =
     (let h = new_cache_header needed_blocks;
          g1 = put_index h (replicate needed_blocks \<lparr>bi_Assigned = 0, bi_off_data = 0\<rparr>) g in
      case fwrite (enc_cache_header h @ replicate (needed_blocks * sizeof_CacheFileBlockIndex) 0) f of
        (k, f1) \<Rightarrow> Some ((if k \<noteq> 1 then C_FALSE else C_TRUE), put_file f1 g1))"

definition InitCacheFile ::
  "cfile option \<Rightarrow> cfile option \<Rightarrow> xmount_data \<Rightarrow> (int \<times> xmount_data) option" where
  "InitCacheFile rb wb g =
     (let h = (if ca_overwrite_cache (x_cache g) then wb
               else case rb of Some f \<Rightarrow> Some f | None \<Rightarrow> wb) in
      case h of
        None \<Rightarrow> Some (C_FALSE, upd_cache (\<lambda>c. c\<lparr>ca_h_cache_file := None\<rparr>) g)
      | Some f \<Rightarrow>
          case GetMorphedImageSize g of (ok, image_size) \<Rightarrow>
            if ok \<noteq> C_TRUE then Some (C_FALSE, put_file f g)
            else
              let needed = u32 (image_size div CACHE_BLOCK_SIZE);
                  needed_blocks = (if image_size mod CACHE_BLOCK_SIZE \<noteq> 0 then u32 (needed + 1)
                                   else needed);
                  f1 = snd (fseeko_end f)
              in if ftello f1 > 0 then InitCacheFile_load g f1 needed_blocks
                 else InitCacheFile_new g f1 needed_blocks)"

section \<open>A new cache file\<close>

lemma needed_blocks_eq:
  assumes "length d < 2 ^ 51"
  shows "(if length d mod CACHE_BLOCK_SIZE \<noteq> 0 then u32 (u32 (length d div CACHE_BLOCK_SIZE) + 1)
     else u32 (length d div CACHE_BLOCK_SIZE)) = ceil_div (length d) CACHE_BLOCK_SIZE"
proof -
  have "length d div CACHE_BLOCK_SIZE < 2 ^ 31"
    using assms by (simp add: CACHE_BLOCK_SIZE_def)
  then show ?thesis by (simp add: ceil_div_def u32_small)
qed

lemma dec_blkidx_zeros:
  assumes "set bs \<subseteq> {0}"
  shows "dec_blkidx bs = \<lparr>bi_Assigned = 0, bi_off_data = 0\<rparr>"
proof -
  have "bs = replicate (length bs) 0" using assms by (intro replicate_eqI) auto
  then have "segment o' k bs = replicate (min k (length bs - o')) 0" for o' k
    by (metis drop_replicate length_replicate segment_def take_replicate)
  then show ?thesis by (simp add: dec_blkidx_def le_at_def le_val_zeros)
qed

lemma put_index_sel [simp]:
  "ca_h_cache_file (x_cache (put_index h idx g)) = ca_h_cache_file (x_cache g)"
  "ca_header (x_cache (put_index h idx g)) = h" "ca_blkidx (x_cache (put_index h idx g)) = idx"
  "x_output (put_index h idx g) = x_output g" "x_morphing (put_index h idx g) = x_morphing g"
  "x_input (put_index h idx g) = x_input g"
  by (simp_all add: put_index_def)

lemma InitCacheFile_new_ok:
  assumes f: "file_ok f" "f_data f = []" "f_pos f = 0"
    and room: "sizeof_CacheFileHeader + k * sizeof_CacheFileBlockIndex \<le> f_limit f"
    and k: "k = ceil_div (length d) CACHE_BLOCK_SIZE" "k < 2 ^ 32"
  shows "\<exists>g' f'. InitCacheFile_new g f k = Some (1, g') \<and> cache_inv g' d \<and>
    ca_h_cache_file (x_cache g') = Some f' \<and> f_limit f' = f_limit f \<and>
    length (f_data f') = sizeof_CacheFileHeader + k * sizeof_CacheFileBlockIndex \<and>
    x_output g' = x_output g \<and> x_morphing g' = x_morphing g \<and>
    (\<forall>r. r \<noteq> RIndex \<longrightarrow> region_at g' r = None)"
proof -
  let ?h = "new_cache_header k" and ?z = "replicate (k * sizeof_CacheFileBlockIndex) 0 :: bytes"
  let ?idx = "replicate k \<lparr>bi_Assigned = 0, bi_off_data = 0\<rparr>"
  note c = sizeof_CacheFileHeader_def sizeof_CacheFileBlockIndex_def
  define f' where "f' = f\<lparr>f_data := enc_cache_header ?h @ ?z, f_pos := 512 + k * 12\<rparr>"
  let ?g' = "put_file f' (put_index ?h ?idx g)"
  have w: "fwrite (enc_cache_header ?h @ ?z) f = (1, f')"
    using f room by (simp add: fwrite_def f'_def overwrite_def c)
  have len: "length (f_data f') = sizeof_CacheFileHeader + k * sizeof_CacheFileBlockIndex"
    by (simp add: f'_def c)
  have fo: "file_ok f'" using f(1) room len by (simp add: file_ok_def f'_def)
  have none: "region_at ?g' r = None" if "r \<noteq> RIndex" for r
    using that by (cases r) (simp_all add: new_cache_header_def)
  have rix: "region_at ?g' RIndex = Some (0, length (f_data f'))"
    by (simp add: len)
  have good: "header_good ?h"
    using k(2) by (simp add: header_good_def cache_header_wf_def new_cache_header_def
        CACHE_FILE_SIGNATURE_def CUR_CACHE_FILE_VERSION_def CACHE_BLOCK_SIZE_def c)
  have "cache_layout ?g' f'"
    unfolding cache_layout_def
  proof (intro conjI allI impI)
    fix r s l assume "region_at ?g' r = Some (s, l)"
    then show "s + l \<le> length (f_data f')" using none [of r] rix by (cases "r = RIndex") simp_all
  next
    fix r r' s l s' l'
    assume "r \<noteq> r'" "region_at ?g' r = Some (s, l)" "region_at ?g' r' = Some (s', l')"
    then show "s + l \<le> s' \<or> s' + l' \<le> s" using none [of r] none [of r'] by (metis option.distinct(1))
  qed (simp_all add: fo)
  moreover have "index_data ?g' f' = enc_cache_header ?h @ ?z"
    unfolding index_data_def rix by (simp add: region_data_def segment_all) (simp add: f'_def)
  moreover have "index_synced ?h ?idx (enc_cache_header ?h @ ?z)"
  proof -
    have "dec_blkidx (segment (sizeof_CacheFileHeader + i * sizeof_CacheFileBlockIndex)
        sizeof_CacheFileBlockIndex (enc_cache_header ?h @ ?z)) = \<lparr>bi_Assigned = 0, bi_off_data = 0\<rparr>" for i
    proof (rule dec_blkidx_zeros)
      have "segment (sizeof_CacheFileHeader + i * sizeof_CacheFileBlockIndex)
          sizeof_CacheFileBlockIndex (enc_cache_header ?h @ ?z) =
        segment (i * sizeof_CacheFileBlockIndex) sizeof_CacheFileBlockIndex ?z"
        by (simp add: segment_append_right c)
      then show "set (segment (sizeof_CacheFileHeader + i * sizeof_CacheFileBlockIndex)
          sizeof_CacheFileBlockIndex (enc_cache_header ?h @ ?z)) \<subseteq> {0}"
        by (auto simp: segment_def dest: in_set_takeD in_set_dropD)
    qed
    moreover have "segment 0 sizeof_CacheFileHeader (enc_cache_header ?h @ ?z) = enc_cache_header ?h"
      by (simp add: segment_append_left segment_all c)
    moreover have "dec_cache_header (enc_cache_header ?h) = ?h"
      using dec_enc_cache_header [of ?h "[]"] good by (simp add: header_good_def)
    ultimately show ?thesis using good by (simp add: index_synced_def entry_agrees_def)
  qed
  ultimately have "cache_inv ?g' d" using k(1) by (simp add: cache_inv_def)
  moreover have "InitCacheFile_new g f k = Some (1, ?g')"
    by (simp add: InitCacheFile_new_def w Let_def)
  moreover have "f_limit f' = f_limit f" by (simp add: f'_def)
  ultimately show ?thesis using none len
    by (intro exI [of _ ?g'] exI [of _ f']) (simp del: region_at.simps)
qed

section \<open>A cache file left by an earlier run\<close>

lemma dec_cache_header_wf: "cache_header_wf (dec_cache_header b)"
  using le_at_less [of _ 8 b] le_at_less [of _ 4 b]
  by (simp add: cache_header_wf_def dec_cache_header_def)

lemma norm_header_eqD:
  assumes "norm_header h' = norm_header h"
  shows "ch_FileSignature h' = ch_FileSignature h" "ch_CacheFileVersion h' = ch_CacheFileVersion h"
    "ch_BlockSize h' = ch_BlockSize h" "ch_pBlockIndex h' = ch_pBlockIndex h"
    "ch_VdiFileHeaderCached h' = ch_VdiFileHeaderCached h"
    "ch_VhdFileHeaderCached h' = ch_VhdFileHeaderCached h"
    "ch_VdiFileHeaderCached h = 1 \<Longrightarrow> ch_pVdiFileHeader h' = ch_pVdiFileHeader h"
    "ch_VhdFileHeaderCached h = 1 \<Longrightarrow> ch_pVhdFileHeader h' = ch_pVhdFileHeader h"
proof -
  note e = assms [unfolded norm_header_def]
  show f: "ch_FileSignature h' = ch_FileSignature h" "ch_CacheFileVersion h' = ch_CacheFileVersion h"
    "ch_BlockSize h' = ch_BlockSize h" "ch_pBlockIndex h' = ch_pBlockIndex h"
    "ch_VdiFileHeaderCached h' = ch_VdiFileHeaderCached h"
    "ch_VhdFileHeaderCached h' = ch_VhdFileHeaderCached h"
    using arg_cong [OF e, of ch_FileSignature] arg_cong [OF e, of ch_CacheFileVersion]
      arg_cong [OF e, of ch_BlockSize] arg_cong [OF e, of ch_pBlockIndex]
      arg_cong [OF e, of ch_VdiFileHeaderCached] arg_cong [OF e, of ch_VhdFileHeaderCached] by simp_all
  show "ch_VdiFileHeaderCached h = 1 \<Longrightarrow> ch_pVdiFileHeader h' = ch_pVdiFileHeader h"
    using arg_cong [OF e, of ch_pVdiFileHeader] f(5) by simp
  show "ch_VhdFileHeaderCached h = 1 \<Longrightarrow> ch_pVhdFileHeader h' = ch_pVhdFileHeader h"
    using arg_cong [OF e, of ch_pVhdFileHeader] f(6) by simp
qed

lemma dec_cache_header_segment:
  "dec_cache_header (segment 0 sizeof_CacheFileHeader b) = dec_cache_header b"
  by (simp add: dec_cache_header_def le_at_def segment_segment sizeof_CacheFileHeader_def)

text \<open>Two states with the same regions and the same bytes in the file show the same disk.\<close>

definition same_regions :: "xmount_data \<Rightarrow> xmount_data \<Rightarrow> bool" where
  "same_regions g g' \<longleftrightarrow> (\<forall>r. region_at g' r = region_at g r) \<and>
     rel_option (\<lambda>f f'. f_data f' = f_data f) (ca_h_cache_file (x_cache g)) (ca_h_cache_file (x_cache g'))"

lemma same_regions_contents:
  assumes "same_regions g g'"
  shows "disk_block g' d b = disk_block g d b" "disk_contents g' d = disk_contents g d"
    "header_contents g' r hdr = header_contents g r hdr"
    "x_output g' = x_output g \<Longrightarrow> virt_contents g' d = virt_contents g d"
proof -
  note s = assms [unfolded same_regions_def]
  show db: "disk_block g' d b = disk_block g d b" for b
    using s by (cases "ca_h_cache_file (x_cache g)"; cases "ca_h_cache_file (x_cache g')")
      (simp_all add: disk_block_def region_data_def del: region_at.simps split: option.splits)
  show dc: "disk_contents g' d = disk_contents g d" by (simp add: disk_contents_def db)
  show hc: "header_contents g' r hdr = header_contents g r hdr" for r hdr
    using s by (cases "ca_h_cache_file (x_cache g)"; cases "ca_h_cache_file (x_cache g')")
      (simp_all add: header_contents_def region_data_def del: region_at.simps split: option.splits)
  assume "x_output g' = x_output g"
  then show "virt_contents g' d = virt_contents g d"
    by (simp add: virt_contents_def dc hc split: VirtImageType.split)
qed

text \<open>Reading the index back: what the three \<open>fread\<close> calls find in the file.\<close>

lemma InitCacheFile_load_reads:
  assumes ib: "ib = segment 0 (sizeof_CacheFileHeader + k * sizeof_CacheFileBlockIndex) (f_data f)"
    and len: "sizeof_CacheFileHeader + k * sizeof_CacheFileBlockIndex \<le> length (f_data f)"
    and h: "ch_FileSignature (dec_cache_header ib) = CACHE_FILE_SIGNATURE"
      "ch_CacheFileVersion (dec_cache_header ib) = CUR_CACHE_FILE_VERSION"
      "ch_BlockSize (dec_cache_header ib) = CACHE_BLOCK_SIZE"
      "ch_pBlockIndex (dec_cache_header ib) = sizeof_CacheFileHeader"
  shows "InitCacheFile_load g f k =
    Some (1, put_file (f\<lparr>f_pos := sizeof_CacheFileHeader + k * sizeof_CacheFileBlockIndex\<rparr>)
      (put_index (dec_cache_header ib)
        (map (\<lambda>i. dec_blkidx (segment (sizeof_CacheFileHeader + i * sizeof_CacheFileBlockIndex)
           sizeof_CacheFileBlockIndex ib)) [0..<k]) g))"
proof -
  note c = sizeof_CacheFileHeader_def sizeof_CacheFileBlockIndex_def
  have l: "512 + k * 12 \<le> length (f_data f)" using len by (simp add: c)
  have ib': "ib = segment 0 (512 + k * 12) (f_data f)" by (simp add: ib c)
  have "le_at 0 8 ib = le_val (segment 0 8 (f_data f))" "le_at 8 4 ib = le_val (segment 8 4 (f_data f))"
    by (simp_all add: ib' le_at_def segment_segment)
  then have sig: "le_val (segment 0 8 (f_data f)) = CACHE_FILE_SIGNATURE"
    and ver: "le_val (segment 8 4 (f_data f)) = CUR_CACHE_FILE_VERSION"
    using h(1,2) by (simp_all add: dec_cache_header_def)
  have r1: "fread 8 (snd (fseeko_set 0 f)) = (1, segment 0 8 (f_data f), f\<lparr>f_pos := 8\<rparr>)"
    using l by (simp add: fseeko_set_def fread_ok)
  have r2: "fread 4 (f\<lparr>f_pos := 8\<rparr>) = (1, segment 8 4 (f_data f), f\<lparr>f_pos := 12\<rparr>)"
    using l by (simp add: fread_ok)
  have r3: "fread (512 + k * 12) (snd (fseeko_set 0 (f\<lparr>f_pos := 12\<rparr>))) =
      (1, ib, f\<lparr>f_pos := 512 + k * 12\<rparr>)"
    using l by (simp add: fseeko_set_def fread_ok ib')
  have v: "CUR_CACHE_FILE_VERSION \<noteq> 1" by (simp add: CUR_CACHE_FILE_VERSION_def)
  show ?thesis
    unfolding InitCacheFile_load_def r1 c Let_def prod.case
    using h(3,4) v by (simp add: sig ver r2 r3 c cong: if_cong)
qed

lemma InitCacheFile_load_ok:
  assumes inv: "cache_inv g0 d" and f0: "ca_h_cache_file (x_cache g0) = Some f0"
    and f: "f_data f = f_data f0" "f_limit f = f_limit f0"
    and out: "vdi_header_size (out_vdi (x_output g)) = vdi_header_size (out_vdi (x_output g0))"
    and k: "k = ceil_div (length d) CACHE_BLOCK_SIZE"
  shows "\<exists>g'. InitCacheFile_load g f k = Some (1, g') \<and> cache_inv g' d \<and> same_regions g0 g' \<and>
    x_output g' = x_output g \<and> x_morphing g' = x_morphing g"
proof -
  note ci = cache_invD [OF inv f0]
  let ?h0 = "ca_header (x_cache g0)" and ?idx0 = "ca_blkidx (x_cache g0)"
  let ?n = "sizeof_CacheFileHeader + k * sizeof_CacheFileBlockIndex"
  define ib where "ib = segment 0 ?n (f_data f)"
  define h where "h = dec_cache_header ib"
  define idx where "idx = map (\<lambda>i. dec_blkidx (segment (sizeof_CacheFileHeader +
    i * sizeof_CacheFileBlockIndex) sizeof_CacheFileBlockIndex ib)) [0..<k]"
  define f' where "f' = f\<lparr>f_pos := ?n\<rparr>"
  define g' where "g' = put_file f' (put_index h idx g)"
  have rix: "region_at g0 RIndex = Some (0, ?n)" using ci(4) k by (simp add: mult.commute)
  have len: "?n \<le> length (f_data f)" using cache_layoutD(3) [OF ci(1) rix] f by simp
  have "index_data g0 f0 = ib" unfolding index_data_def rix by (simp add: region_data_def ib_def f)
  then have sync: "index_synced ?h0 ?idx0 ib" using ci(3) by simp
  then have good: "header_good ?h0" and hn: "norm_header h = norm_header ?h0"
    and ent: "\<And>i. i < k \<Longrightarrow> entry_agrees (?idx0 ! i) (idx ! i)"
    using ci(4) k by (simp_all add: index_synced_def h_def dec_cache_header_segment idx_def)
  note hf = norm_header_eqD [OF hn]
  have load: "InitCacheFile_load g f k = Some (1, g')"
    unfolding g'_def f'_def h_def idx_def
    by (rule InitCacheFile_load_reads [OF ib_def len])
      (use hf good in \<open>simp_all add: h_def [symmetric] header_good_def\<close>)
  have reg: "region_at g' r = region_at g0 r" for r
  proof (cases r)
    case (RBlock b)
    have e: "bi_Assigned (idx ! b) = bi_Assigned (?idx0 ! b) \<and>
        (bi_Assigned (?idx0 ! b) = 1 \<longrightarrow> bi_off_data (idx ! b) = bi_off_data (?idx0 ! b))" if "b < k"
      using ent [OF that] by (auto simp: entry_agrees_def)
    have "length idx = k" "length ?idx0 = k" using ci(4) k by (simp_all add: idx_def)
    then show ?thesis using e RBlock by (auto simp: g'_def)
  next
    case RIndex
    then show ?thesis using ci(4) k by (simp add: g'_def idx_def)
  qed (use hf out in \<open>simp_all add: g'_def\<close>)
  have "cache_layout g' f'"
    by (rule cache_layout_step [OF ci(1)])
      (use cache_layoutD(2) [OF ci(1)] reg f in \<open>auto simp: g'_def f'_def file_ok_def\<close>)
  moreover have "index_data g' f' = ib"
    unfolding index_data_def reg rix by (simp add: region_data_def f'_def ib_def)
  moreover have "index_synced h idx ib"
    using good hf dec_cache_header_wf [of ib]
    by (simp add: index_synced_def header_good_def dec_cache_header_segment)
      (simp add: h_def idx_def entry_agrees_def)
  ultimately have "cache_inv g' d" using k by (simp add: cache_inv_def g'_def idx_def)
  moreover have "same_regions g0 g'"
    using reg f0 f by (simp add: same_regions_def g'_def f'_def)
  moreover have "x_output g' = x_output g" "x_morphing g' = x_morphing g"
    by (simp_all add: g'_def)
  ultimately show ?thesis using load by blast
qed

section \<open>Opening the cache file\<close>

text \<open>The file that \<open>InitCacheFile\<close> works on.\<close>

definition opened_cache :: "cfile option \<Rightarrow> cfile option \<Rightarrow> xmount_data \<Rightarrow> cfile option" where
  "opened_cache rb wb g = (if ca_overwrite_cache (x_cache g) then wb
     else case rb of Some f \<Rightarrow> Some f | None \<Rightarrow> wb)"

lemma InitCacheFile_opened:
  assumes m: "morphed_ok g d" and len: "length d < 2 ^ 51" and f: "opened_cache rb wb g = Some f"
  shows "InitCacheFile rb wb g =
    (let k = ceil_div (length d) CACHE_BLOCK_SIZE; f1 = f\<lparr>f_pos := length (f_data f)\<rparr> in
     if f_data f \<noteq> [] then InitCacheFile_load g f1 k else InitCacheFile_new g f1 k)"
  using f needed_blocks_eq [OF len]
  by (simp add: InitCacheFile_def opened_cache_def [symmetric] GetMorphedImageSize_ok [OF m]
      fseeko_end_def ftello_def Let_def)

end
