(* ===== verification/XmountDisk.thy ===== *)
theory XmountDisk
  imports XmountCacheInit MorphCombine
begin

text \<open>
  What the virtual image promises: reads return its contents, writes change exactly the bytes
  they are given, and the cache file carries the changes from one run of xmount to the next.
\<close>

section \<open>Reads with clipping\<close>

lemma GetVirtImageData_clips:
  assumes inv: "virt_inv g d" and off: "off < length (virt_contents g d)"
    and n: "length (virt_contents g d) < off + n" "n < 2147483648"
  shows "GetVirtImageData g off n = GetVirtImageData g off (length (virt_contents g d) - off)"
proof -
  let ?L = "length (virt_contents g d)"
  have "?L < 2 ^ 53"
    using length_virt_contents [OF inv] virt_invD(3,4) [OF inv] header_size_less by fastforce
  then have "u64 (off + n) = off + n" "u64 (off + (?L - off)) = ?L"
    using off n(2) by (auto intro!: u64_small)
  then show ?thesis
    using off n by (simp add: GetVirtImageData_def GetVirtImageSize_ok [OF inv])
qed

lemma GetVirtImageData_contents:
  assumes inv: "virt_inv g d" and n: "0 < n" "n < 2147483648"
  shows "\<exists>g'. GetVirtImageData g off n =
      Some (int (length (segment off n (virt_contents g d))), segment off n (virt_contents g d), g') \<and>
    virt_inv g' d \<and> virt_contents g' d = virt_contents g d"
proof -
  let ?L = "length (virt_contents g d)"
  consider "?L \<le> off" | "off + n \<le> ?L" | "off < ?L" "?L < off + n" by linarith
  then show ?thesis
  proof cases
    case 1
    then have "segment off n (virt_contents g d) = []" by (simp add: segment_def)
    then show ?thesis
      using 1 set_size_inv [OF inv refl] by (simp add: GetVirtImageData_def GetVirtImageSize_ok [OF inv])
  next
    case 2
    then have "min n (?L - off) = n" by simp
    then show ?thesis using GetVirtImageData_in_range [OF inv n 2] by simp
  next
    case 3
    let ?m = "?L - off"
    have m: "0 < ?m" "?m < 2147483648" "off + ?m \<le> ?L" using 3 n(2) by linarith+
    have "segment off ?m (virt_contents g d) = segment off n (virt_contents g d)"
      using 3 by (simp add: segment_def)
    moreover have "min n ?m = ?m" using 3 by linarith
    ultimately show ?thesis
      using GetVirtImageData_in_range [OF inv m]
      unfolding GetVirtImageData_clips [OF inv 3 n(2)] by simp
  qed
qed

section \<open>Opening a cache file\<close>

lemma InitCacheFile_created:
  assumes "virt_inv g d" "ca_h_cache_file (x_cache g) = None" "length d < 2 ^ 51"
    and "opened_cache rb wb g = Some f" "file_ok f" "f_data f = []" "f_pos f = 0"
    and "sizeof_CacheFileHeader + ceil_div (length d) CACHE_BLOCK_SIZE * sizeof_CacheFileBlockIndex
      \<le> f_limit f"
  shows "\<exists>g' f'. InitCacheFile rb wb g = Some (1, g') \<and> virt_inv g' d \<and>
    virt_contents g' d = virt_contents g d \<and> ca_h_cache_file (x_cache g') = Some f' \<and>
    f_limit f' = f_limit f \<and> x_output g' = x_output g \<and>
    (\<forall>r. r \<noteq> RIndex \<longrightarrow> region_at g' r = None) \<and> length (f_data f') = sizeof_CacheFileHeader +
      ceil_div (length d) CACHE_BLOCK_SIZE * sizeof_CacheFileBlockIndex"
proof -
  let ?k = "ceil_div (length d) CACHE_BLOCK_SIZE"
  have k: "?k < 2 ^ 32"
  proof -
    have "length d div CACHE_BLOCK_SIZE < 2 ^ 31" using assms(3) by (simp add: CACHE_BLOCK_SIZE_def)
    then show ?thesis by (simp add: ceil_div_def)
  qed
  have f0: "f\<lparr>f_pos := length (f_data f)\<rparr> = f" using assms(6,7) by simp
  note o = InitCacheFile_opened [OF virt_invD(1) [OF assms(1)] assms(3,4)]
  obtain g' f' where new: "InitCacheFile_new g f ?k = Some (1, g')" "cache_inv g' d"
    "ca_h_cache_file (x_cache g') = Some f'" "f_limit f' = f_limit f"
    "length (f_data f') = sizeof_CacheFileHeader + ?k * sizeof_CacheFileBlockIndex"
    and fr: "x_output g' = x_output g" "x_morphing g' = x_morphing g"
    and none: "\<And>r. r \<noteq> RIndex \<Longrightarrow> region_at g' r = None"
    using InitCacheFile_new_ok [OF assms(5-8) refl k, of g] by blast
  have "InitCacheFile rb wb g = Some (1, g')"
    using o new(1) assms(6) f0 by simp
  moreover have "disk_contents g' d = d" "disk_contents g d = d"
    using none assms(2) by (auto intro!: disk_contents_plain)
  moreover have "header_contents g' r hdr = hdr" "header_contents g r hdr = hdr" if "r \<noteq> RIndex" for r hdr
    using none [OF that] assms(2) by (simp_all add: header_contents_def split: option.split)
  ultimately show ?thesis
    using new fr virt_inv_step [OF assms(1) fr new(2)] none
    by (intro exI [of _ g'] exI [of _ f'])
      (simp add: virt_contents_def del: region_at.simps split: VirtImageType.split)
qed

lemma InitCacheFile_reopened:
  assumes inv: "virt_inv g d" "ca_h_cache_file (x_cache g) = None" and len: "length d < 2 ^ 51"
    and g0: "virt_inv g0 d" "ca_h_cache_file (x_cache g0) = Some f0"
    and f: "opened_cache rb wb g = Some f" "f_data f = f_data f0" "f_limit f = f_limit f0"
    and out: "vdi_header_size (out_vdi (x_output g)) = vdi_header_size (out_vdi (x_output g0))"
  shows "\<exists>g' f'. InitCacheFile rb wb g = Some (1, g') \<and> virt_inv g' d \<and>
    ca_h_cache_file (x_cache g') = Some f' \<and> disk_contents g' d = disk_contents g0 d \<and>
    (x_output g = x_output g0 \<longrightarrow> virt_contents g' d = virt_contents g0 d)"
proof -
  let ?k = "ceil_div (length d) CACHE_BLOCK_SIZE" and ?f = "f\<lparr>f_pos := length (f_data f)\<rparr>"
  obtain g' where load: "InitCacheFile_load g ?f ?k = Some (1, g')" "cache_inv g' d"
    "same_regions g0 g'" and fr: "x_output g' = x_output g" "x_morphing g' = x_morphing g"
    using InitCacheFile_load_ok [OF virt_invD(2) [OF g0(1)] g0(2), of ?f g] f(2,3) out by auto
  have lay: "cache_layout g0 f0" using cache_invD(1) [OF virt_invD(2) [OF g0(1)] g0(2)] .
  have "f_data f \<noteq> []"
    using cache_layoutD(3) [OF lay, of RIndex] f(2) by (auto simp: sizeof_CacheFileHeader_def)
  then have "InitCacheFile rb wb g = Some (1, g')"
    using InitCacheFile_opened [OF virt_invD(1) [OF inv(1)] len f(1)] load(1) by simp
  moreover have "\<exists>f'. ca_h_cache_file (x_cache g') = Some f'"
    using load(3) g0(2)
    by (cases "ca_h_cache_file (x_cache g')") (auto simp: same_regions_def)
  ultimately show ?thesis
    using same_regions_contents(2,4) [OF load(3), of d] virt_inv_step [OF inv(1) fr load(2)] fr(1)
    by auto
qed

text \<open>The file stays open under every write.\<close>

definition cache_open :: "output_data \<Rightarrow> xmount_data \<Rightarrow> bool" where
  "cache_open od g \<longleftrightarrow> ca_h_cache_file (x_cache g) \<noteq> None \<and>
     (\<exists>n. x_output g = od\<lparr>out_image_size := n\<rparr>)"

lemma cache_open_put [simp]:
  "cache_open od g \<Longrightarrow> cache_open od (put_file f g)"
  "cache_open od g \<Longrightarrow> cache_open od (put_entry i e g)"
  "cache_open od g \<Longrightarrow> cache_open od (put_header h g)"
  by (simp_all add: cache_open_def)

lemma SetVirtImageData_block_open:
  "SetVirtImageData_block g sz b a off bs = Some (r, g') \<Longrightarrow> cache_open od g \<Longrightarrow> cache_open od g'"
  by (auto simp: SetVirtImageData_block_def SetVirtImageData_new_block_def Let_def
      split: option.splits if_splits prod.splits)

lemma SetVirtImageData_loop_open:
  assumes "SetVirtImageData_loop g sz b a off n buf = Some res"
  shows "cache_open od g \<longrightarrow> cache_open od (snd (snd (snd res)))"
proof (rule SetVirtImageData_loop.raw_induct
    [where P = "\<lambda>g sz b a off n buf res. cache_open od g \<longrightarrow> cache_open od (snd (snd (snd res)))", OF _ assms])
  fix loop g and sz b a off n :: nat and buf :: bytes and res
  assume ih: "\<And>g sz b a off n buf res. loop g sz b a off n buf = Some res \<Longrightarrow>
      cache_open od g \<longrightarrow> cache_open od (snd (snd (snd res)))"
    and eq: "(if n = 0 then Some (0, buf, off, g)
      else let k = if u64 (a + n) > CACHE_BLOCK_SIZE then CACHE_BLOCK_SIZE - a else n
           in case SetVirtImageData_block g sz b a off (take k buf) of None \<Rightarrow> None
              | Some (ret, g1) \<Rightarrow>
                  if ret \<noteq> 0 then Some (-1, buf, off, g1)
                  else loop g1 sz (u64 (b + 1)) 0 (off + k) (n - k) (drop k buf)) = Some res"
  show "cache_open od g \<longrightarrow> cache_open od (snd (snd (snd res)))"
  proof (cases "n = 0")
    case True
    then show ?thesis using eq by auto
  next
    case False
    define k where "k = (if u64 (a + n) > CACHE_BLOCK_SIZE then CACHE_BLOCK_SIZE - a else n)"
    obtain ret g1 where blk: "SetVirtImageData_block g sz b a off (take k buf) = Some (ret, g1)"
      using eq False unfolding k_def [symmetric] Let_def by (auto split: option.splits)
    have "res = (-1, buf, off, g1) \<or>
        loop g1 sz (u64 (b + 1)) 0 (off + k) (n - k) (drop k buf) = Some res"
      using eq False blk unfolding k_def [symmetric] Let_def by (auto split: if_splits)
    then show ?thesis
    proof
      assume "res = (-1, buf, off, g1)"
      then show ?thesis using SetVirtImageData_block_open [OF blk, of od] by simp
    next
      assume "loop g1 sz (u64 (b + 1)) 0 (off + k) (n - k) (drop k buf) = Some res"
      then show ?thesis using ih SetVirtImageData_block_open [OF blk, of od] by blast
    qed
  qed
qed

lemma SetVirtImageData_open:
  assumes "SetVirtImageData g bs off = Some (ret, g')" "cache_open od g"
  shows "cache_open od g'"
proof -
  have size: "cache_open od g1" if "GetVirtImageSize g = (ok, n, g1)" for ok n g1
    using that assms(2)
    by (auto simp: GetVirtImageSize_def cache_open_def upd_output_def Let_def split: if_splits prod.splits)
  have hdr: "cache_open od g2" if "set_header_data h s c p sp sc data o' g1 = Some (r, g2)" "cache_open od g1"
    for h s c p sp sc data o' r and g1 g2 :: xmount_data
    using that by (auto simp: set_header_data_def Let_def split: option.splits if_splits prod.splits)
  have head: "cache_open od g2" if "SetVirtImageData_head g1 sz o' data = Some (vs, g2)" "cache_open od g1"
    for sz o' data vs and g1 g2 :: xmount_data
    using that hdr
    by (fastforce simp: SetVirtImageData_head_def SetVdiFileHeaderData_def Let_def
        split: VirtImageType.splits option.splits if_splits)
  have ftr: "cache_open od g2" if "SetVhdFileHeaderData data o' g1 = Some (r, g2)" "cache_open od g1"
    for data o' r and g1 g2 :: xmount_data
    using that hdr by (fastforce simp: SetVhdFileHeaderData_def Let_def)
  show ?thesis
    using assms(1) size head ftr SetVirtImageData_loop_open
    by (fastforce simp: SetVirtImageData_def Let_def
        split: prod.splits option.splits if_splits)
qed

section \<open>Writes\<close>

lemma write_postD:
  assumes "write_post g d off bs ret g'"
  shows "virt_inv g' d" "ret = -1 \<or> ret = int (length bs)"
    "ret \<noteq> -1 \<Longrightarrow> virt_contents g' d = overwrite off bs (virt_contents g d)"
    "\<exists>j \<le> length bs. virt_contents g' d = overwrite off (take j bs) (virt_contents g d)"
    "\<not> write_completes g d off (length bs) \<Longrightarrow> ret = -1"
    "write_completes g d off (length bs) \<Longrightarrow> write_room g (length bs) \<Longrightarrow> ret \<noteq> -1"
  using assms unfolding write_post_def by auto

lemma SetVirtImageData_fits:
  assumes "virt_inv g d" "ca_h_cache_file (x_cache g) = Some f" "bs \<noteq> []" "length bs < 2147483648"
    and "off + length bs \<le> length (virt_contents g d)"
  obtains ret g' where "SetVirtImageData g bs off = Some (ret, g')" "write_post g d off bs ret g'"
    "cache_open (x_output g) g'"
proof -
  have off: "off < length (virt_contents g d)" "take (length (virt_contents g d) - off) bs = bs"
    using assms(3,5) by (cases bs; simp)+
  from SetVirtImageData_post [OF assms(1-4) off(1)] obtain ret g' where
    w: "SetVirtImageData g bs off = Some (ret, g')" "write_post g d off bs ret g'"
    by (auto simp: off(2))
  moreover have "cache_open (x_output g) g'"
    by (rule SetVirtImageData_open [OF w(1)])
      (auto simp: cache_open_def assms(2) intro: exI [of _ "out_image_size (x_output g)"])
  ultimately show ?thesis using that by blast
qed

section \<open>A disk held in memory\<close>

text \<open>One image in memory behind the combine library, with an empty cache file beside it: a
  concrete state in which all the assumptions hold.\<close>

definition mem_combine :: "bytes \<Rightarrow> combine_handle" where
  "mem_combine d = snd (CombineMorph (CombineCreateHandle False) (provider_funs (mem_state [d], [d])))"

definition plain_disk :: "bytes \<Rightarrow> xmount_data" where
  "plain_disk d = (mem_state [d])\<lparr>x_morphing :=
     loaded_morphing ''combine'' (CombineSize (mem_combine d)) (CombineRead (mem_combine d))\<rparr>"

definition empty_file :: cfile where
  "empty_file = \<lparr>f_data = [], f_pos = 0, f_limit = 2 ^ 62\<rparr>"

definition cached_disk :: "bytes \<Rightarrow> xmount_data" where
  "cached_disk d = snd (the (InitCacheFile None (Some empty_file) (plain_disk d)))"

lemma plain_disk_no_cache [simp]:
  "ca_h_cache_file (x_cache (plain_disk d)) = None" "ca_overwrite_cache (x_cache (plain_disk d)) = False"
  "out_VirtImageType (x_output (plain_disk d)) = VirtImageType_DD"
  "out_image_size (x_output (plain_disk d)) = 0"
  by (simp_all add: plain_disk_def mem_state_def InitResources_def)

lemma plain_disk_inv:
  assumes "length d < 2 ^ 51"
  shows "virt_inv (plain_disk d) d" "virt_contents (plain_disk d) d = d"
proof -
  have p: "provider_inv (mem_state [d], [d])" using assms by (intro mem_provider_inv) simp_all
  obtain r h where rh: "CombineMorph (CombineCreateHandle False) (provider_funs (mem_state [d], [d])) = (r, h)"
    by (cases "CombineMorph (CombineCreateHandle False) (provider_funs (mem_state [d], [d]))")
  have "combine_inv (mem_combine d, (mem_state [d], [d]))"
    using p by (auto simp: combine_inv_def mem_combine_def xin.CombineMorph_ok [OF p])
  from image_reader.loaded_morphing_ok [OF combine.image_reader_axioms this, where g = "mem_state [d]" and ty = "''combine''"]
  have "morphed_ok (plain_disk d) d"
    using assms by (simp add: plain_disk_def combine_contents_def)
  then show "virt_inv (plain_disk d) d"
    using assms by (simp add: virt_inv_def cache_inv_def headers_ok_def)
  show "virt_contents (plain_disk d) d = d"
    by (simp add: virt_contents_def disk_contents_plain)
qed

lemma cached_disk_ok:
  assumes "length d < 2 ^ 51"
  obtains f where "virt_inv (cached_disk d) d" "virt_contents (cached_disk d) d = d"
    "ca_h_cache_file (x_cache (cached_disk d)) = Some f" "f_limit f = 2 ^ 62"
    "x_output (cached_disk d) = x_output (plain_disk d)"
    "length (f_data f) = 512 + ceil_div (length d) CACHE_BLOCK_SIZE * 12"
    "\<And>b. region_at (cached_disk d) (RBlock b) = None"
proof -
  have "length d div CACHE_BLOCK_SIZE < 2 ^ 31" using assms by (simp add: CACHE_BLOCK_SIZE_def)
  then have "512 + ceil_div (length d) CACHE_BLOCK_SIZE * 12 \<le> 2 ^ 62"
    by (simp add: ceil_div_def)
  then obtain g f where "InitCacheFile None (Some empty_file) (plain_disk d) = Some (1, g)"
    "virt_inv g d" "virt_contents g d = d" "ca_h_cache_file (x_cache g) = Some f" "f_limit f = 2 ^ 62"
    "x_output g = x_output (plain_disk d)"
    "length (f_data f) = 512 + ceil_div (length d) CACHE_BLOCK_SIZE * 12"
    "\<And>b. region_at g (RBlock b) = None"
    using InitCacheFile_created [OF plain_disk_inv(1) [OF assms] _ assms, of None "Some empty_file" empty_file]
    by (auto simp: plain_disk_inv(2) [OF assms] opened_cache_def empty_file_def file_ok_def
        sizeof_CacheFileHeader_def sizeof_CacheFileBlockIndex_def simp del: region_at.simps)
  then show ?thesis using that by (simp add: cached_disk_def del: region_at.simps)
qed

text \<open>One write to the disk in memory, for the witnesses.\<close>

lemma cached_disk_write:
  obtains f g' where "virt_inv (cached_disk [1, 2, 3]) [1, 2, 3]"
    "virt_contents (cached_disk [1, 2, 3]) [1, 2, 3] = [1, 2, 3]"
    "ca_h_cache_file (x_cache (cached_disk [1, 2, 3])) = Some f"
    "write_completes (cached_disk [1, 2, 3]) [1, 2, 3] 1 1" "write_room (cached_disk [1, 2, 3]) 1"
    "SetVirtImageData (cached_disk [1, 2, 3]) [9] 1 = Some (1, g')" "virt_inv g' [1, 2, 3]"
    "virt_contents g' [1, 2, 3] = [1, 9, 3]" "cache_open (x_output (plain_disk [1, 2, 3])) g'"
proof -
  let ?g = "cached_disk [1, 2, 3]" and ?d = "[1, 2, 3] :: bytes"
  obtain f where c: "virt_inv ?g ?d" "virt_contents ?g ?d = ?d"
    "ca_h_cache_file (x_cache ?g) = Some f" "f_limit f = 2 ^ 62"
    "x_output ?g = x_output (plain_disk ?d)"
    "length (f_data f) = 512 + ceil_div (length ?d) CACHE_BLOCK_SIZE * 12"
    using cached_disk_ok [of ?d] by auto
  have w: "write_completes ?g ?d 1 1" "write_room ?g 1"
    using c(3-6)
    by (simp_all add: write_completes_def disk_start_def disk_stop_def end_ok_def write_room_def
        header_size_def ceil_div_def CACHE_BLOCK_SIZE_def del: region_at.simps)
  obtain ret g' where s: "SetVirtImageData ?g [9] 1 = Some (ret, g')"
    "write_post ?g ?d 1 [9] ret g'" "cache_open (x_output ?g) g'"
    using SetVirtImageData_fits [OF c(1,3), of "[9]" 1] c(2) by auto
  have "ret = 1" using write_postD(2,6) [OF s(2)] w by auto
  then show ?thesis
    using that [OF c(1-3) w, of g'] s write_postD(1,3) [OF s(2)] c(2,5) by (simp add: overwrite_def)
qed

section \<open>Properties\<close>

text \<open>C2: a read of the virtual image returns exactly the bytes of its contents (the cached
  copy of every cached block, the morphed image elsewhere, the header or footer beside them),
  clipped at the end of the image, and changes nothing.\<close>

theorem virt_read_returns_contents:
  assumes "virt_inv g d" "0 < n" "n < 2147483648"
  shows "\<exists>g'. GetVirtImageData g off n =
      Some (int (length (segment off n (virt_contents g d))), segment off n (virt_contents g d), g') \<and>
    virt_inv g' d \<and> virt_contents g' d = virt_contents g d"
  by (rule GetVirtImageData_contents [OF assms])

lemma virt_read_returns_contents_witness:
  "\<exists>g'. GetVirtImageData (plain_disk [1, 2, 3]) 1 9 = Some (2, [2, 3], g')"
  using virt_read_returns_contents [OF plain_disk_inv(1) [of "[1, 2, 3]"], of 9 1]
  by (auto simp: plain_disk_inv(2) segment_def)

text \<open>C13: a new cache file changes nothing in the virtual image, and the state satisfies the
  invariant that later writes rely on.\<close>

theorem cache_file_created:
  assumes "virt_inv g d" "ca_h_cache_file (x_cache g) = None" "length d < 2 ^ 51"
    and "opened_cache rb wb g = Some f" "file_ok f" "f_data f = []" "f_pos f = 0"
    and "sizeof_CacheFileHeader + ceil_div (length d) CACHE_BLOCK_SIZE * sizeof_CacheFileBlockIndex
      \<le> f_limit f"
  shows "\<exists>g' f'. InitCacheFile rb wb g = Some (1, g') \<and> virt_inv g' d \<and>
    virt_contents g' d = virt_contents g d \<and> ca_h_cache_file (x_cache g') = Some f' \<and>
    f_limit f' = f_limit f \<and> length (f_data f') = sizeof_CacheFileHeader +
      ceil_div (length d) CACHE_BLOCK_SIZE * sizeof_CacheFileBlockIndex"
  using InitCacheFile_created [OF assms] by blast

lemma cache_file_created_witness:
  "\<exists>g' f'. InitCacheFile None (Some empty_file) (plain_disk [1, 2, 3]) = Some (1, g') \<and>
     virt_inv g' [1, 2, 3] \<and> virt_contents g' [1, 2, 3] = [1, 2, 3] \<and>
     ca_h_cache_file (x_cache g') = Some f' \<and> length (f_data f') = 524"
  using cache_file_created [OF plain_disk_inv(1) [of "[1, 2, 3]"], of None "Some empty_file" empty_file]
  by (auto simp: plain_disk_inv(2) opened_cache_def empty_file_def file_ok_def ceil_div_def
      sizeof_CacheFileHeader_def sizeof_CacheFileBlockIndex_def CACHE_BLOCK_SIZE_def)

text \<open>C1: a write that fits into the image, with room for its blocks in the cache file: when it
  ends before the last byte of the disk, at a block boundary or in a block that is already cached,
  or does not touch the disk at all, it succeeds in full and the contents of the virtual image are
  the old ones with exactly these bytes replaced, across block, header and footer boundaries. When
  it ends at the end of the disk inside a last, incomplete block that is not cached yet, it
  returns -1, and the contents are the old ones with some prefix of the bytes replaced.\<close>

theorem virt_write_overwrites:
  assumes "virt_inv g d" "ca_h_cache_file (x_cache g) = Some f" "bs \<noteq> []" "length bs < 2147483648"
    and "off + length bs \<le> length (virt_contents g d)" "write_room g (length bs)"
  defines "e \<equiv> disk_stop (x_output g) d (off + length bs)"
  defines "completes \<equiv> e \<le> disk_start (x_output g) off \<or> e < length d \<or>
    e mod CACHE_BLOCK_SIZE = 0 \<or> region_at g (RBlock (e div CACHE_BLOCK_SIZE)) \<noteq> None"
  shows "\<exists>ret g' j. SetVirtImageData g bs off = Some (ret, g') \<and> virt_inv g' d \<and>
    virt_contents g' d = overwrite off (take j bs) (virt_contents g d) \<and>
    (if completes then ret = int (length bs) \<and> j = length bs else ret = -1 \<and> j \<le> length bs)"
proof -
  have c: "completes = write_completes g d off (length bs)"
    by (auto simp: completes_def e_def write_completes_def end_ok_def Let_def)
  obtain ret g' where w: "SetVirtImageData g bs off = Some (ret, g')" "write_post g d off bs ret g'"
    using SetVirtImageData_fits [OF assms(1-5)] by metis
  note p = write_postD [OF w(2)]
  obtain j where j: "j \<le> length bs" "virt_contents g' d = overwrite off (take j bs) (virt_contents g d)"
    using p(4) by blast
  show ?thesis
  proof (cases completes)
    case True
    then have "ret \<noteq> -1" using p(6) c assms(6) by simp
    then have "ret = int (length bs)" "virt_contents g' d = overwrite off (take (length bs) bs) (virt_contents g d)"
      using p(2,3) by auto
    then show ?thesis using True w(1) p(1) by metis
  next
    case False
    then have "ret = -1" using p(5) c by simp
    then show ?thesis using False w(1) p(1) j by metis
  qed
qed

lemma virt_write_overwrites_witness:
  "(\<exists>g'. SetVirtImageData (cached_disk [1, 2, 3]) [9] 1 = Some (1, g') \<and>
     virt_inv g' [1, 2, 3] \<and> virt_contents g' [1, 2, 3] = [1, 9, 3]) \<and>
   (\<exists>g'. SetVirtImageData (cached_disk [1, 2, 3]) [8, 9] 1 = Some (-1, g'))"
proof -
  obtain f where c: "virt_inv (cached_disk [1, 2, 3]) [1, 2, 3]"
    "virt_contents (cached_disk [1, 2, 3]) [1, 2, 3] = [1, 2, 3]"
    "ca_h_cache_file (x_cache (cached_disk [1, 2, 3])) = Some f" "f_limit f = 2 ^ 62"
    "x_output (cached_disk [1, 2, 3]) = x_output (plain_disk [1, 2, 3])"
    "length (f_data f) = 512 + ceil_div (length [1, 2, 3 :: nat]) CACHE_BLOCK_SIZE * 12"
    "\<And>b. region_at (cached_disk [1, 2, 3]) (RBlock b) = None"
    using cached_disk_ok [of "[1, 2, 3]"] by (auto simp del: region_at.simps)
  note w = virt_write_overwrites [OF c(1,3)]
  have room: "write_room (cached_disk [1, 2, 3]) n" if "n \<le> 2" for n
    using c(3-6) that by (simp add: write_room_def header_size_def ceil_div_def CACHE_BLOCK_SIZE_def)
  have "\<exists>g'. SetVirtImageData (cached_disk [1, 2, 3]) [9] 1 = Some (1, g') \<and>
      virt_inv g' [1, 2, 3] \<and> virt_contents g' [1, 2, 3] = [1, 9, 3]"
    using w [of "[9]" 1] c(2,5) room [of 1] by (auto simp: overwrite_def disk_stop_def)
  moreover have "\<exists>g'. SetVirtImageData (cached_disk [1, 2, 3]) [8, 9] 1 = Some (-1, g')"
    using w [of "[8, 9]" 1] c(2,5,7) room [of "Suc (Suc 0)"]
    by (auto simp: disk_stop_def disk_start_def CACHE_BLOCK_SIZE_def simp del: region_at.simps)
  ultimately show ?thesis ..
qed

text \<open>C4: whatever a write returns, it leaves a state that satisfies the invariant, in which
  the contents are the old ones overwritten with a prefix of the data; it reports either all of
  the data or an error, also where it is clipped at the end of the image.\<close>

theorem virt_write_keeps_invariant:
  assumes "virt_inv g d" "ca_h_cache_file (x_cache g) = Some f" "bs \<noteq> []" "length bs < 2147483648"
    and "off < length (virt_contents g d)"
  shows "\<exists>ret g' data j. SetVirtImageData g bs off = Some (ret, g') \<and> virt_inv g' d \<and>
    data = take (length (virt_contents g d) - off) bs \<and> (ret = -1 \<or> ret = int (length data) \<and> j = length data) \<and>
    virt_contents g' d = overwrite off (take j data) (virt_contents g d)"
proof -
  from SetVirtImageData_post [OF assms] obtain ret g' where
    w: "SetVirtImageData g bs off = Some (ret, g')"
    "write_post g d off (take (length (virt_contents g d) - off) bs) ret g'" by blast
  then obtain j where "virt_inv g' d"
    "virt_contents g' d = overwrite off (take j (take (length (virt_contents g d) - off) bs)) (virt_contents g d)"
    "ret = -1 \<or> ret = int (length (take (length (virt_contents g d) - off) bs)) \<and>
      j = length (take (length (virt_contents g d) - off) bs)"
    unfolding write_post_def by blast
  with w(1) show ?thesis by blast
qed

lemma virt_write_keeps_invariant_witness:
  "\<exists>ret g' j. SetVirtImageData (cached_disk [1, 2, 3]) [7, 8, 9] 2 = Some (ret, g') \<and>
     virt_inv g' [1, 2, 3] \<and> virt_contents g' [1, 2, 3] = overwrite 2 (take j [7]) [1, 2, 3]"
proof -
  obtain f where c: "virt_inv (cached_disk [1, 2, 3]) [1, 2, 3]"
    "virt_contents (cached_disk [1, 2, 3]) [1, 2, 3] = [1, 2, 3]"
    "ca_h_cache_file (x_cache (cached_disk [1, 2, 3])) = Some f"
    using cached_disk_ok [of "[1, 2, 3]"] by auto
  show ?thesis
    using virt_write_keeps_invariant [OF c(1,3), of "[7, 8, 9]" 2] c(2) by auto
qed

text \<open>C5: what a successful write has stored, the next read returns; every other byte of the
  image reads as before.\<close>

theorem virt_write_then_read:
  assumes "virt_inv g d" "ca_h_cache_file (x_cache g) = Some f" "bs \<noteq> []" "length bs < 2147483648"
    and "off + length bs \<le> length (virt_contents g d)"
    and "SetVirtImageData g bs off = Some (int (length bs), g')"
  shows "(\<exists>g''. GetVirtImageData g' off (length bs) = Some (int (length bs), bs, g'')) \<and>
    (\<forall>o2 n. 0 < n \<and> n < 2147483648 \<and> o2 + n \<le> length (virt_contents g d) \<and>
        (o2 + n \<le> off \<or> off + length bs \<le> o2) \<longrightarrow>
      (\<exists>g''. GetVirtImageData g' o2 n = Some (int n, segment o2 n (virt_contents g d), g'')))"
proof -
  have p: "write_post g d off bs (int (length bs)) g'"
    using SetVirtImageData_fits [OF assms(1-5)] assms(6) by auto
  have c: "virt_contents g' d = overwrite off bs (virt_contents g d)"
    using write_postD(3) [OF p] by simp
  note rd = GetVirtImageData_contents [OF write_postD(1) [OF p]]
  have "segment off (length bs) (virt_contents g' d) = bs"
    using assms(5) by (simp add: c segment_overwrite_same)
  then have 1: "\<exists>g''. GetVirtImageData g' off (length bs) = Some (int (length bs), bs, g'')"
    using rd [of "length bs" off] assms(3,4) by auto
  have 2: "\<exists>g''. GetVirtImageData g' o2 n = Some (int n, segment o2 n (virt_contents g d), g'')"
    if *: "0 < n" "n < 2147483648" "o2 + n \<le> length (virt_contents g d)"
      "o2 + n \<le> off \<or> off + length bs \<le> o2" for o2 n
  proof -
    have "segment o2 n (virt_contents g' d) = segment o2 n (virt_contents g d)"
      unfolding c using *(3,4) assms(5) by (intro segment_overwrite_disjoint) auto
    moreover have "min n (length (virt_contents g d) - o2) = n" using *(3) by simp
    ultimately show ?thesis using rd [OF *(1,2), of o2] by auto
  qed
  show ?thesis using 1 2 by simp
qed

lemma virt_write_then_read_witness:
  "\<exists>g' g''. SetVirtImageData (cached_disk [1, 2, 3]) [9] 1 = Some (1, g') \<and>
     GetVirtImageData g' 1 1 = Some (1, [9], g'')"
proof -
  obtain f g' where c: "virt_inv (cached_disk [1, 2, 3]) [1, 2, 3]"
    "virt_contents (cached_disk [1, 2, 3]) [1, 2, 3] = [1, 2, 3]"
    "ca_h_cache_file (x_cache (cached_disk [1, 2, 3])) = Some f"
    "SetVirtImageData (cached_disk [1, 2, 3]) [9] 1 = Some (1, g')"
    by (rule cached_disk_write)
  show ?thesis using virt_write_then_read [OF c(1,3), of "[9]" 1 g'] c(2,4) by auto
qed

text \<open>A write up to the very end of a raw image whose last block is incomplete and not
  cached yet fails: the rest of the block is fetched from behind the end of the image, which
  \<open>GetMorphedImageData\<close> answers with 0 where the caller expects \<open>TRUE\<close>.\<close>

theorem virt_write_partial_block_fails:
  assumes "virt_inv g d" "ca_h_cache_file (x_cache g) = Some f" "bs \<noteq> []" "length bs < 2147483648"
    and "out_VirtImageType (x_output g) = VirtImageType_DD" "off + length bs = length d"
    and "length d mod CACHE_BLOCK_SIZE \<noteq> 0"
    and "bi_Assigned (ca_blkidx (x_cache g) ! (length d div CACHE_BLOCK_SIZE)) \<noteq> 1"
  shows "\<exists>g'. SetVirtImageData g bs off = Some (-1, g')"
proof -
  have L: "length (virt_contents g d) = length d" by (simp add: virt_contents_def assms(5))
  have "off < length d" using assms(3,6) by (cases bs) auto
  then have "\<not> write_completes g d off (length bs)"
    using assms(5-8)
    by (auto simp: write_completes_def disk_start_def disk_stop_def end_ok_def)
  then show ?thesis
    using SetVirtImageData_fits [OF assms(1-4)] write_postD(5) assms(6) L by (metis order_refl)
qed

lemma virt_write_partial_block_fails_witness:
  "\<exists>g'. SetVirtImageData (cached_disk [1, 2, 3]) [9] 2 = Some (-1, g')"
proof -
  obtain f where c: "virt_inv (cached_disk [1, 2, 3]) [1, 2, 3]"
    "ca_h_cache_file (x_cache (cached_disk [1, 2, 3])) = Some f"
    "x_output (cached_disk [1, 2, 3]) = x_output (plain_disk [1, 2, 3])"
    "region_at (cached_disk [1, 2, 3]) (RBlock 0) = None"
    using cached_disk_ok [of "[1, 2, 3]"] by (auto simp del: region_at.simps)
  have "bi_Assigned (ca_blkidx (x_cache (cached_disk [1, 2, 3])) ! 0) \<noteq> 1"
    using c(4) cache_invD(4) [OF virt_invD(2) [OF c(1)] c(2)]
    by (simp add: ceil_div_def CACHE_BLOCK_SIZE_def split: if_splits)
  then show ?thesis
    using virt_write_partial_block_fails [OF c(1,2), of "[9]" 2] c(3)
    by (simp add: CACHE_BLOCK_SIZE_def)
qed

text \<open>C10: a cache file that an earlier run left, opened again over the same image, gives back
  the disk of that run, and the state satisfies the invariant.\<close>

theorem cache_file_reopened:
  assumes "virt_inv g d" "ca_h_cache_file (x_cache g) = None" "length d < 2 ^ 51"
    and "virt_inv g0 d" "ca_h_cache_file (x_cache g0) = Some f0"
    and "opened_cache rb wb g = Some f" "f_data f = f_data f0" "f_limit f = f_limit f0"
    and "vdi_header_size (out_vdi (x_output g)) = vdi_header_size (out_vdi (x_output g0))"
  shows "\<exists>g'. InitCacheFile rb wb g = Some (1, g') \<and> virt_inv g' d \<and>
    disk_contents g' d = disk_contents g0 d \<and>
    (x_output g = x_output g0 \<longrightarrow> virt_contents g' d = virt_contents g0 d)"
  using InitCacheFile_reopened [OF assms] by blast

lemma cache_file_reopened_witness:
  "\<exists>g0 f0 g'. SetVirtImageData (cached_disk [1, 2, 3]) [9] 1 = Some (1, g0) \<and>
     ca_h_cache_file (x_cache g0) = Some f0 \<and>
     InitCacheFile (Some f0) None (plain_disk [1, 2, 3]) = Some (1, g') \<and>
     disk_contents g' [1, 2, 3] = disk_contents g0 [1, 2, 3]"
proof -
  obtain g0 where c: "SetVirtImageData (cached_disk [1, 2, 3]) [9] 1 = Some (1, g0)"
    "virt_inv g0 [1, 2, 3]" "cache_open (x_output (plain_disk [1, 2, 3])) g0"
    by (rule cached_disk_write)
  then obtain f0 n where f0: "ca_h_cache_file (x_cache g0) = Some f0"
    and o: "x_output g0 = (x_output (plain_disk [1, 2, 3]))\<lparr>out_image_size := n\<rparr>"
    by (auto simp: cache_open_def)
  show ?thesis
    using cache_file_reopened [OF plain_disk_inv(1) _ _ c(2) f0, of "Some f0" None f0] c(1) f0 o
    by (auto simp: opened_cache_def)
qed

end
