(* ===== verification/UnallocFat.thy ===== *)
theory UnallocFat
  imports XmountInput
begin

text \<open>
  The FAT part of \<open>libxmount_morphing_unallocated\<close> (\<open>fat_functions.c\<close>): reading and
  checking the volume header, reading the file allocation table, and the map of the free
  clusters, compared with the entry types of the FAT specification (\<open>fat_entry_of\<close>). A failing allocation is not modelled. \<open>None\<close> marks what has no defined
  result: a read of the table outside its buffer, or a signed overflow of the table's offset.
\<close>

section \<open>Return values\<close>

definition UNALLOCATED_OK :: int where "UNALLOCATED_OK = 0"
definition UNALLOCATED_MEMALLOC_FAILED :: int where "UNALLOCATED_MEMALLOC_FAILED = 1"
definition UNALLOCATED_NO_SUPPORTED_FS_DETECTED :: int where "UNALLOCATED_NO_SUPPORTED_FS_DETECTED = 2"
definition UNALLOCATED_UNSUPPORTED_FS_SPECIFIED :: int where "UNALLOCATED_UNSUPPORTED_FS_SPECIFIED = 3"
definition UNALLOCATED_INTERNAL_ERROR :: int where "UNALLOCATED_INTERNAL_ERROR = 4"
definition UNALLOCATED_CANNOT_GET_IMAGECOUNT :: int where "UNALLOCATED_CANNOT_GET_IMAGECOUNT = 5"
definition UNALLOCATED_WRONG_INPUT_IMAGE_COUNT :: int where "UNALLOCATED_WRONG_INPUT_IMAGE_COUNT = 6"
definition UNALLOCATED_CANNOT_GET_IMAGESIZE :: int where "UNALLOCATED_CANNOT_GET_IMAGESIZE = 7"
definition UNALLOCATED_READ_BEYOND_END_OF_IMAGE :: int where "UNALLOCATED_READ_BEYOND_END_OF_IMAGE = 8"
definition UNALLOCATED_CANNOT_READ_DATA :: int where "UNALLOCATED_CANNOT_READ_DATA = 9"
definition UNALLOCATED_CANNOT_PARSE_OPTION :: int where "UNALLOCATED_CANNOT_PARSE_OPTION = 10"
definition UNALLOCATED_HFS_CANNOT_READ_HEADER :: int where "UNALLOCATED_HFS_CANNOT_READ_HEADER = 11"
definition UNALLOCATED_HFS_INVALID_HEADER :: int where "UNALLOCATED_HFS_INVALID_HEADER = 12"
definition UNALLOCATED_HFS_CANNOT_READ_ALLOC_FILE :: int where "UNALLOCATED_HFS_CANNOT_READ_ALLOC_FILE = 13"
definition UNALLOCATED_HFS_ALLOC_FILE_HAS_TOO_MUCH_EXTENDS :: int where
  "UNALLOCATED_HFS_ALLOC_FILE_HAS_TOO_MUCH_EXTENDS = 14"
definition UNALLOCATED_FAT_CANNOT_READ_HEADER :: int where "UNALLOCATED_FAT_CANNOT_READ_HEADER = 15"
definition UNALLOCATED_FAT_INVALID_HEADER :: int where "UNALLOCATED_FAT_INVALID_HEADER = 16"
definition UNALLOCATED_FAT_UNSUPPORTED_FS_TYPE :: int where "UNALLOCATED_FAT_UNSUPPORTED_FS_TYPE = 17"
definition UNALLOCATED_FAT_CANNOT_READ_FAT :: int where "UNALLOCATED_FAT_CANNOT_READ_FAT = 18"

lemmas unallocated_codes =
  UNALLOCATED_OK_def UNALLOCATED_MEMALLOC_FAILED_def UNALLOCATED_CANNOT_GET_IMAGESIZE_def
  UNALLOCATED_CANNOT_PARSE_OPTION_def UNALLOCATED_NO_SUPPORTED_FS_DETECTED_def UNALLOCATED_UNSUPPORTED_FS_SPECIFIED_def
  UNALLOCATED_INTERNAL_ERROR_def UNALLOCATED_CANNOT_GET_IMAGECOUNT_def
  UNALLOCATED_WRONG_INPUT_IMAGE_COUNT_def UNALLOCATED_READ_BEYOND_END_OF_IMAGE_def
  UNALLOCATED_CANNOT_READ_DATA_def UNALLOCATED_HFS_CANNOT_READ_HEADER_def
  UNALLOCATED_HFS_INVALID_HEADER_def UNALLOCATED_HFS_CANNOT_READ_ALLOC_FILE_def
  UNALLOCATED_HFS_ALLOC_FILE_HAS_TOO_MUCH_EXTENDS_def UNALLOCATED_FAT_CANNOT_READ_HEADER_def
  UNALLOCATED_FAT_INVALID_HEADER_def UNALLOCATED_FAT_UNSUPPORTED_FS_TYPE_def
  UNALLOCATED_FAT_CANNOT_READ_FAT_def

section \<open>Data\<close>

datatype FatType = FatType_Unknown | FatType_Fat16 | FatType_Fat32

record fat_vh =
  fv_jump_inst :: bytes
  fv_oem_name :: bytes
  fv_bytes_per_sector :: nat
  fv_sectors_per_cluster :: nat
  fv_reserved_sectors :: nat
  fv_fat_count :: nat
  fv_root_entry_count :: nat
  fv_total_sectors_16 :: nat
  fv_media_type :: nat
  fv_fat16_sectors :: nat
  fv_total_sectors_32 :: nat
  fv_fat32_sectors :: nat

definition sizeof_FatVH :: nat where "sizeof_FatVH = 40"

text \<open>The packed header, converted to host byte order.\<close>

definition dec_fat_vh :: "bytes \<Rightarrow> fat_vh" where
  "dec_fat_vh b =
     \<lparr>fv_jump_inst = segment 0 3 b, fv_oem_name = segment 3 8 b,
      fv_bytes_per_sector = le_at 11 2 b, fv_sectors_per_cluster = le_at 13 1 b,
      fv_reserved_sectors = le_at 14 2 b, fv_fat_count = le_at 16 1 b,
      fv_root_entry_count = le_at 17 2 b, fv_total_sectors_16 = le_at 19 2 b,
      fv_media_type = le_at 21 1 b, fv_fat16_sectors = le_at 22 2 b,
      fv_total_sectors_32 = le_at 32 4 b, fv_fat32_sectors = le_at 36 4 b\<rparr>"

record fat_handle =
  fh_fat_type :: FatType
  fh_fat_vh :: "fat_vh option"
  fh_fat :: "nat list option"
  fh_debug :: bool

section \<open>Operations\<close>

definition fat_header_valid :: "fat_vh \<Rightarrow> bool" where
  "fat_header_valid vh \<longleftrightarrow> \<not>
     ((fv_jump_inst vh ! 0 \<noteq> 0xEB \<and> fv_jump_inst vh ! 0 \<noteq> 0xE9) \<or>
      fv_bytes_per_sector vh = 0 \<or> fv_bytes_per_sector vh mod 512 \<noteq> 0 \<or>
      fv_sectors_per_cluster vh = 0 \<or> fv_sectors_per_cluster vh mod 2 \<noteq> 0 \<or>
      fv_reserved_sectors vh = 0 \<or> fv_fat_count vh = 0 \<or>
      (fv_total_sectors_16 vh = 0 \<and> fv_total_sectors_32 vh = 0) \<or>
      (fv_total_sectors_16 vh \<noteq> 0 \<and> fv_total_sectors_32 vh \<noteq> 0))"

definition fat_root_dir_sectors :: "fat_vh \<Rightarrow> nat" where
  "fat_root_dir_sectors vh =
     (fv_root_entry_count vh * 32 + (fv_bytes_per_sector vh - 1)) div fv_bytes_per_sector vh"

definition fat_sectors :: "fat_vh \<Rightarrow> nat" where
  "fat_sectors vh = (if fv_fat16_sectors vh \<noteq> 0 then fv_fat16_sectors vh else fv_fat32_sectors vh)"

definition fat_total_sectors :: "fat_vh \<Rightarrow> nat" where
  "fat_total_sectors vh =
     (if fv_total_sectors_16 vh \<noteq> 0 then fv_total_sectors_16 vh else fv_total_sectors_32 vh)"

definition fat_cluster_count :: "fat_vh \<Rightarrow> nat" where
  "fat_cluster_count vh =
     sub32 (fat_total_sectors vh)
       (u32 (fv_reserved_sectors vh + u32 (fv_fat_count vh * fat_sectors vh) + fat_root_dir_sectors vh))
     div fv_sectors_per_cluster vh"

definition ReadFatHeader :: "morph_input \<Rightarrow> bool \<Rightarrow> (int \<times> fat_handle) option" where
  "ReadFatHeader m debug =
     (let h0 = \<lparr>fh_fat_type = FatType_Unknown, fh_fat_vh = None, fh_fat = None, fh_debug = debug\<rparr> in
      case mi_Read m 0 0 sizeof_FatVH of
        None \<Rightarrow> None
      | Some r \<Rightarrow>
          if rr_ret r \<noteq> 0 \<or> rr_read r \<noteq> sizeof_FatVH
          then Some (UNALLOCATED_FAT_CANNOT_READ_HEADER, h0)
          else
            let vh = dec_fat_vh (pad sizeof_FatVH (rr_buf r)) in
            if \<not> fat_header_valid vh then Some (UNALLOCATED_FAT_INVALID_HEADER, h0)
            else if fat_cluster_count vh < 4085 then Some (UNALLOCATED_FAT_UNSUPPORTED_FS_TYPE, h0)
            else Some (UNALLOCATED_OK,
                   h0\<lparr>fh_fat_type := (if fat_cluster_count vh < 65525 then FatType_Fat16
                                      else FatType_Fat32),
                      fh_fat_vh := Some vh\<rparr>))"

definition FreeFatHeader :: "fat_handle \<Rightarrow> fat_handle" where
  "FreeFatHeader h = h\<lparr>fh_fat_vh := None,
     fh_fat := (if fh_fat_type h = FatType_Unknown then fh_fat h else None)\<rparr>"

text \<open>The entries of a table of \<open>k\<close>-byte entries.\<close>

definition fat_entries :: "nat \<Rightarrow> nat \<Rightarrow> bytes \<Rightarrow> nat list" where
  "fat_entries k fat_size b = map (\<lambda>i. le_at (i * k) k b) [0..<fat_size div k]"

definition ReadFat :: "fat_handle \<Rightarrow> morph_input \<Rightarrow> (int \<times> fat_handle) option" where
  "ReadFat h m =
     (case fh_fat_vh h of
        None \<Rightarrow> None
      | Some vh \<Rightarrow>
          let fat_size = u64 (fat_sectors vh * fv_bytes_per_sector vh);
              fat_offset = fv_reserved_sectors vh * fv_bytes_per_sector vh
          in if fat_offset \<ge> 2 ^ 31 then None
             else case mi_Read m 0 fat_offset fat_size of
               None \<Rightarrow> None
             | Some r \<Rightarrow>
                 if rr_ret r \<noteq> 0 \<or> rr_read r \<noteq> fat_size
                 then Some (UNALLOCATED_FAT_CANNOT_READ_FAT, h\<lparr>fh_fat := None\<rparr>)
                 else Some (UNALLOCATED_OK, h\<lparr>fh_fat := Some
                        (fat_entries (if fh_fat_type h = FatType_Fat32 then 4 else 2) fat_size
                           (pad fat_size (rr_buf r)))\<rparr>))"

text \<open>The two tests for an unallocated cluster: \<open>v & 0x0FFFFFFF\<close> and \<open>v & 0x0FFF\<close>.\<close>

definition fat32_free :: "nat \<Rightarrow> bool" where
  "fat32_free v \<longleftrightarrow> v mod 0x10000000 = 0 \<or> v mod 0x10000000 = 0x0FFFFFF7"

definition fat16_free :: "nat \<Rightarrow> bool" where
  "fat16_free v \<longleftrightarrow> v mod 0x1000 = 0 \<or> v mod 0x1000 = 0x0FF7"

function BuildFatBlockMap_loop ::
  "(nat \<Rightarrow> bool) \<Rightarrow> nat list \<Rightarrow> nat \<Rightarrow> nat \<Rightarrow> nat \<Rightarrow> nat \<Rightarrow> nat list \<Rightarrow> nat list option" where
  "BuildFatBlockMap_loop is_free fat data_offset cluster_size total_clusters cur_cluster fmap =
     (if cur_cluster < total_clusters then
        (if cur_cluster \<ge> length fat then None
         else BuildFatBlockMap_loop is_free fat data_offset cluster_size total_clusters (cur_cluster + 1)
                (if is_free (fat ! cur_cluster)
                 then fmap @ [u64 (data_offset + u64 ((cur_cluster - 2) * cluster_size))]
                 else fmap))
      else Some fmap)"
  by pat_completeness auto
termination
  by (relation "measure (\<lambda>(_, _, _, _, total, cur, _). total - cur)") auto

declare BuildFatBlockMap_loop.simps [simp del]

text \<open>Returns the map, the block size and the handle.\<close>

definition BuildFatBlockMap :: "fat_handle \<Rightarrow> (int \<times> nat list \<times> nat \<times> fat_handle) option" where
  "BuildFatBlockMap h =
     (case (fh_fat_vh h, fh_fat h) of
        (Some vh, Some fat) \<Rightarrow>
          let bps = fv_bytes_per_sector vh;
              data_offset = u64 ((fv_reserved_sectors vh + fat_root_dir_sectors vh +
                (if fv_fat16_sectors vh \<noteq> 0 then fv_fat_count vh * fv_fat16_sectors vh
                 else u32 (fv_fat_count vh * fv_fat32_sectors vh))) * bps);
              total_clusters = u64 (sub64 (fat_total_sectors vh) (data_offset div bps)
                div fv_sectors_per_cluster vh + 2);
              cluster_size = bps * fv_sectors_per_cluster vh
          in (case BuildFatBlockMap_loop
                  (if fh_fat_type h = FatType_Fat32 then fat32_free else fat16_free)
                  fat data_offset cluster_size total_clusters 2 [] of
                None \<Rightarrow> None
              | Some fmap \<Rightarrow> Some (UNALLOCATED_OK, fmap, cluster_size, h\<lparr>fh_fat := None\<rparr>))
      | _ \<Rightarrow> None)"

section \<open>Specification\<close>

text \<open>A header whose areas fit into the volume, without any wrap-around.\<close>

definition fat_data_sector :: "fat_vh \<Rightarrow> nat" where
  "fat_data_sector vh =
     fv_reserved_sectors vh + fat_root_dir_sectors vh + fv_fat_count vh * fat_sectors vh"

definition fat_clusters :: "fat_vh \<Rightarrow> nat" where
  "fat_clusters vh = (fat_total_sectors vh - fat_data_sector vh) div fv_sectors_per_cluster vh"

definition fat_cluster_size :: "fat_vh \<Rightarrow> nat" where
  "fat_cluster_size vh = fv_bytes_per_sector vh * fv_sectors_per_cluster vh"

definition fat_cluster_offset :: "fat_vh \<Rightarrow> nat \<Rightarrow> nat" where
  "fat_cluster_offset vh c = fat_data_sector vh * fv_bytes_per_sector vh + (c - 2) * fat_cluster_size vh"

definition fat_geometry :: "fat_vh \<Rightarrow> bool" where
  "fat_geometry vh \<longleftrightarrow> fat_header_valid vh \<and> fat_data_sector vh \<le> fat_total_sectors vh \<and>
     fat_total_sectors vh < 2 ^ 32 \<and> fv_bytes_per_sector vh < 2 ^ 16"

text \<open>What an entry of the table says of its cluster, in the words of the FAT specification: on
  FAT16 the whole 16-bit entry counts, on FAT32 its lower 28 bits. An entry is free, marks a bad
  cluster, ends a chain or names the next cluster of one.\<close>

datatype fat_entry = Fat_free | Fat_bad | Fat_end | Fat_next nat

definition fat_entry_of :: "FatType \<Rightarrow> nat \<Rightarrow> fat_entry" where
  "fat_entry_of t v =
     (if t = FatType_Fat32
      then let c = v mod 2 ^ 28 in
        if c = 0 then Fat_free else if c = 0x0FFFFFF7 then Fat_bad
        else if 0x0FFFFFF8 \<le> c then Fat_end else Fat_next c
      else if v = 0 then Fat_free else if v = 0xFFF7 then Fat_bad
        else if 0xFFF8 \<le> v then Fat_end else Fat_next v)"

lemma fat32_free_iff: "fat32_free v \<longleftrightarrow> fat_entry_of FatType_Fat32 v \<in> {Fat_free, Fat_bad}"
  by (auto simp: fat32_free_def fat_entry_of_def Let_def)

text \<open>The FAT16 test reads the lower 12 bits only. It lists every free and every bad cluster, and
  with them the clusters of a file whose successor has one of the numbers below.\<close>

definition fat16_misread :: "nat \<Rightarrow> bool" where
  "fat16_misread c \<longleftrightarrow> c \<noteq> 0 \<and> (\<exists>k < 16. c = k * 4096 \<or> k \<noteq> 15 \<and> c = k * 4096 + 4087)"

lemma fat16_free_iff:
  assumes "v < 65536"
  shows "fat16_free v \<longleftrightarrow> fat_entry_of FatType_Fat16 v \<in> {Fat_free, Fat_bad} \<or>
    (\<exists>c. fat_entry_of FatType_Fat16 v = Fat_next c \<and> fat16_misread c)"
proof -
  have v: "v = v div 4096 * 4096 + v mod 4096" "v div 4096 < 16" using assms by simp_all
  have 1: "v = 0 \<or> v = 65527 \<or> v < 65527 \<and> fat16_misread v" if "fat16_free v"
  proof (cases "v mod 4096 = 0")
    case True
    then have "v = v div 4096 * 4096" using v(1) by simp
    then show ?thesis using v(2) by (auto simp: fat16_misread_def)
  next
    case False
    then have "v = v div 4096 * 4096 + 4087" using that v(1) by (simp add: fat16_free_def)
    then show ?thesis using v(2) by (auto simp: fat16_misread_def)
  qed
  have 2: "fat16_free v" if "v = 0 \<or> v = 65527 \<or> fat16_misread v"
    using that by (auto simp: fat16_misread_def fat16_free_def)
  show ?thesis using 1 2 by (auto simp: fat_entry_of_def)
qed

lemma BuildFatBlockMap_loop_ok:
  "cur \<le> tot \<Longrightarrow> tot \<le> length fat \<Longrightarrow>
   BuildFatBlockMap_loop free fat off cs tot cur acc =
     Some (acc @ map (\<lambda>c. u64 (off + u64 ((c - 2) * cs))) (filter (\<lambda>c. free (fat ! c)) [cur..<tot]))"
proof (induction "tot - cur" arbitrary: cur acc)
  case 0
  then show ?case by (subst BuildFatBlockMap_loop.simps) simp
next
  case (Suc n)
  then have c: "cur < tot" "cur < length fat" by simp_all
  have "n = tot - (cur + 1)" "cur + 1 \<le> tot" using Suc.hyps(2) by simp_all
  note ih = Suc.hyps(1) [OF this Suc.prems(2)]
  show ?case
    using c ih [unfolded Suc_eq_plus1 [symmetric]]
    by (subst BuildFatBlockMap_loop.simps) (simp add: upt_conv_Cons)
qed

lemma fat_geometry_bounds:
  assumes "fat_geometry vh" "c \<le> fat_clusters vh + 2" "2 \<le> c"
  shows "0 < fv_bytes_per_sector vh" "0 < fv_sectors_per_cluster vh"
    "fat_cluster_offset vh c \<le> fat_total_sectors vh * fv_bytes_per_sector vh"
    "fat_total_sectors vh * fv_bytes_per_sector vh < 2 ^ 48"
proof -
  show pos: "0 < fv_bytes_per_sector vh" "0 < fv_sectors_per_cluster vh"
    using assms(1) by (auto simp: fat_geometry_def fat_header_valid_def)
  have "(c - 2) * fv_sectors_per_cluster vh \<le> fat_clusters vh * fv_sectors_per_cluster vh"
    using assms(2) by (intro mult_le_mono1) simp
  also have "\<dots> \<le> fat_total_sectors vh - fat_data_sector vh"
    by (simp add: fat_clusters_def)
  finally have "(c - 2) * fv_sectors_per_cluster vh \<le> fat_total_sectors vh - fat_data_sector vh" .
  moreover have "fat_data_sector vh \<le> fat_total_sectors vh" using assms(1) by (simp add: fat_geometry_def)
  ultimately have "fat_data_sector vh + (c - 2) * fv_sectors_per_cluster vh \<le> fat_total_sectors vh"
    by linarith
  then have "(fat_data_sector vh + (c - 2) * fv_sectors_per_cluster vh) * fv_bytes_per_sector vh
      \<le> fat_total_sectors vh * fv_bytes_per_sector vh"
    by (rule mult_le_mono1)
  then show "fat_cluster_offset vh c \<le> fat_total_sectors vh * fv_bytes_per_sector vh"
    by (simp add: fat_cluster_offset_def fat_cluster_size_def algebra_simps)
  have "fat_total_sectors vh * fv_bytes_per_sector vh < 2 ^ 32 * 2 ^ 16"
    using assms(1) pos by (intro mult_strict_mono) (auto simp: fat_geometry_def)
  then show "fat_total_sectors vh * fv_bytes_per_sector vh < 2 ^ 48" by simp
qed

text \<open>Neither the header check nor the map wraps on such a header.\<close>

lemma fat_geometry_no_wrap:
  assumes g: "fat_geometry vh"
  shows "fat_cluster_count vh = fat_clusters vh"
    "u64 ((fv_reserved_sectors vh + fat_root_dir_sectors vh +
        (if fv_fat16_sectors vh \<noteq> 0 then fv_fat_count vh * fv_fat16_sectors vh
         else u32 (fv_fat_count vh * fv_fat32_sectors vh))) * fv_bytes_per_sector vh) =
      fat_cluster_offset vh 2"
    "u64 (sub64 (fat_total_sectors vh) (fat_cluster_offset vh 2 div fv_bytes_per_sector vh)
        div fv_sectors_per_cluster vh + 2) = fat_clusters vh + 2"
proof -
  have le: "fat_data_sector vh \<le> fat_total_sectors vh" and t: "fat_total_sectors vh < 4294967296"
    using g by (simp_all add: fat_geometry_def)
  then have s: "fat_data_sector vh < 4294967296" "fv_fat_count vh * fat_sectors vh < 4294967296"
    by (simp_all add: fat_data_sector_def)
  have "u32 (fv_reserved_sectors vh + u32 (fv_fat_count vh * fat_sectors vh) + fat_root_dir_sectors vh)
      = fat_data_sector vh"
    using s by (simp add: u32_small fat_data_sector_def ac_simps)
  then show "fat_cluster_count vh = fat_clusters vh"
    using le t by (simp add: fat_cluster_count_def fat_clusters_def sub32_small)
  have e: "(if fv_fat16_sectors vh \<noteq> 0 then fv_fat_count vh * fv_fat16_sectors vh
         else u32 (fv_fat_count vh * fv_fat32_sectors vh)) = fv_fat_count vh * fat_sectors vh"
    using s(2) by (auto simp: fat_sectors_def u32_small)
  have b: "fat_cluster_offset vh 2 \<le> fat_total_sectors vh * fv_bytes_per_sector vh"
    "fat_total_sectors vh * fv_bytes_per_sector vh < 2 ^ 48" "0 < fv_bytes_per_sector vh"
    using fat_geometry_bounds [OF g, of 2] by simp_all
  show "u64 ((fv_reserved_sectors vh + fat_root_dir_sectors vh +
        (if fv_fat16_sectors vh \<noteq> 0 then fv_fat_count vh * fv_fat16_sectors vh
         else u32 (fv_fat_count vh * fv_fat32_sectors vh))) * fv_bytes_per_sector vh) =
      fat_cluster_offset vh 2"
  proof -
    have "(fv_reserved_sectors vh + fat_root_dir_sectors vh + fv_fat_count vh * fat_sectors vh) *
        fv_bytes_per_sector vh = fat_cluster_offset vh 2"
      by (simp add: fat_cluster_offset_def fat_data_sector_def)
    then show ?thesis unfolding e using b by (simp add: u64_small)
  qed
  have "fat_cluster_offset vh 2 div fv_bytes_per_sector vh = fat_data_sector vh"
    using b(3) by (simp add: fat_cluster_offset_def)
  moreover have "fat_clusters vh \<le> fat_total_sectors vh"
    unfolding fat_clusters_def by (meson diff_le_self div_le_dividend le_trans)
  ultimately show "u64 (sub64 (fat_total_sectors vh) (fat_cluster_offset vh 2 div fv_bytes_per_sector vh)
        div fv_sectors_per_cluster vh + 2) = fat_clusters vh + 2"
    using le t by (simp add: sub64_small u64_small fat_clusters_def [symmetric])
qed

lemma BuildFatBlockMap_ok:
  assumes g: "fat_geometry vh" and h: "fh_fat_vh h = Some vh" "fh_fat h = Some fat"
    and len: "fat_clusters vh + 2 \<le> length fat"
  defines "is_free \<equiv> (if fh_fat_type h = FatType_Fat32 then fat32_free else fat16_free)"
  shows "BuildFatBlockMap h = Some (UNALLOCATED_OK,
    map (fat_cluster_offset vh) (filter (\<lambda>c. is_free (fat ! c)) [2..<fat_clusters vh + 2]),
    fat_cluster_size vh, h\<lparr>fh_fat := None\<rparr>)"
proof -
  note nw = fat_geometry_no_wrap [OF g]
  have o: "u64 (fat_cluster_offset vh 2 + u64 ((c - 2) * fat_cluster_size vh)) = fat_cluster_offset vh c"
    if "c \<in> set (filter (\<lambda>c. is_free (fat ! c)) [2..<fat_clusters vh + 2])" for c
  proof -
    have e: "fat_cluster_offset vh 2 + (c - 2) * fat_cluster_size vh = fat_cluster_offset vh c"
      by (simp add: fat_cluster_offset_def)
    have "fat_cluster_offset vh c < 2 ^ 48"
      using that fat_geometry_bounds(3,4) [OF g, of c] by (auto simp del: upt_Suc)
    moreover have "(c - 2) * fat_cluster_size vh \<le> fat_cluster_offset vh c" using e by linarith
    ultimately show ?thesis using e by (simp add: u64_small)
  qed
  have "BuildFatBlockMap_loop is_free fat (fat_cluster_offset vh 2) (fat_cluster_size vh)
      (fat_clusters vh + 2) 2 [] = Some (map (fat_cluster_offset vh)
        (filter (\<lambda>c. is_free (fat ! c)) [2..<fat_clusters vh + 2]))"
  proof -
    have "2 \<le> fat_clusters vh + 2" by simp
    note lp = BuildFatBlockMap_loop_ok [OF this len, of is_free "fat_cluster_offset vh 2" "fat_cluster_size vh" "[]"]
    have "map (\<lambda>c. u64 (fat_cluster_offset vh 2 + u64 ((c - 2) * fat_cluster_size vh)))
        (filter (\<lambda>c. is_free (fat ! c)) [2..<fat_clusters vh + 2]) =
      map (fat_cluster_offset vh) (filter (\<lambda>c. is_free (fat ! c)) [2..<fat_clusters vh + 2])"
      by (rule map_cong [OF refl o])
    then show ?thesis using lp by (simp only: append_Nil)
  qed
  then show ?thesis
    unfolding BuildFatBlockMap_def h Let_def prod.case option.case
      is_free_def [symmetric] fat_cluster_size_def [symmetric] nw(2,3) by simp
qed

text \<open>The clusters are disjoint parts of the data area.\<close>

lemma fat_cluster_offset_step:
  "2 \<le> c \<Longrightarrow> fat_cluster_offset vh (Suc c) = fat_cluster_offset vh c + fat_cluster_size vh"
proof -
  assume "2 \<le> c"
  then obtain k where "c = k + 2" by (metis add.commute le_Suc_ex)
  then show ?thesis by (simp add: fat_cluster_offset_def)
qed

lemma fat_cluster_offset_mono:
  assumes "2 \<le> c" "c < c'"
  shows "fat_cluster_offset vh c + fat_cluster_size vh \<le> fat_cluster_offset vh c'"
proof -
  have "(c - 2 + 1) * fat_cluster_size vh \<le> (c' - 2) * fat_cluster_size vh"
    using assms by (intro mult_le_mono1) simp
  then show ?thesis by (simp add: fat_cluster_offset_def)
qed

section \<open>The header\<close>

context input_images begin

lemma ReadFatHeader_image:
  assumes "in_inv g" "in_images g = [d]" "sizeof_FatVH \<le> length d"
  shows "ReadFatHeader (in_funs g) debug =
    (let h0 = \<lparr>fh_fat_type = FatType_Unknown, fh_fat_vh = None, fh_fat = None, fh_debug = debug\<rparr>;
         vh = dec_fat_vh d in
     if \<not> fat_header_valid vh then Some (UNALLOCATED_FAT_INVALID_HEADER, h0)
     else if fat_cluster_count vh < 4085 then Some (UNALLOCATED_FAT_UNSUPPORTED_FS_TYPE, h0)
     else Some (UNALLOCATED_OK,
       h0\<lparr>fh_fat_type := (if fat_cluster_count vh < 65525 then FatType_Fat16 else FatType_Fat32),
          fh_fat_vh := Some vh\<rparr>))"
proof -
  have "dec_fat_vh (segment 0 sizeof_FatVH d) = dec_fat_vh d"
    by (simp add: dec_fat_vh_def le_at_def segment_segment sizeof_FatVH_def)
  moreover have "mi_Read (in_funs g) 0 0 sizeof_FatVH = Some (rd_ok (segment 0 sizeof_FatVH d))"
    using in_read_law [OF assms(1), of 0 sizeof_FatVH 0] assms(2,3) by (simp add: sizeof_FatVH_def)
  moreover have "length (segment 0 sizeof_FatVH d) = sizeof_FatVH" using assms(3) by simp
  ultimately show ?thesis by (simp add: ReadFatHeader_def Let_def)
qed

lemma ReadFat_image:
  assumes "in_inv g" "in_images g = [d]" "fh_fat_vh h = Some vh"
    and "fv_reserved_sectors vh * fv_bytes_per_sector vh < 2 ^ 31"
    and size: "0 < fat_sectors vh * fv_bytes_per_sector vh" "fat_sectors vh * fv_bytes_per_sector vh < 2 ^ 32"
    and "(fv_reserved_sectors vh + fat_sectors vh) * fv_bytes_per_sector vh \<le> length d"
  shows "ReadFat h (in_funs g) = Some (UNALLOCATED_OK, h\<lparr>fh_fat := Some
    (fat_entries (if fh_fat_type h = FatType_Fat32 then 4 else 2) (fat_sectors vh * fv_bytes_per_sector vh)
      (segment (fv_reserved_sectors vh * fv_bytes_per_sector vh)
        (fat_sectors vh * fv_bytes_per_sector vh) d))\<rparr>)"
proof -
  let ?o = "fv_reserved_sectors vh * fv_bytes_per_sector vh" and ?n = "fat_sectors vh * fv_bytes_per_sector vh"
  have r: "?o + ?n \<le> length d" using assms(7) by (simp add: distrib_right)
  have "mi_Read (in_funs g) 0 ?o ?n = Some (rd_ok (segment ?o ?n d))"
    using in_read_law [OF assms(1), of 0 ?n ?o] assms(2) size r by simp
  moreover have "u64 ?n = ?n" using size by (simp add: u64_small)
  moreover have "length (segment ?o ?n d) = ?n" using r by simp
  ultimately show ?thesis using assms(3,4) by (simp add: ReadFat_def Let_def)
qed

end

section \<open>Properties\<close>

text \<open>C28: on a volume whose areas fit into its sectors and whose table covers all clusters,
  the map has one block for every cluster whose entry says free or bad by the FAT specification.
  On FAT32 it has no other; on FAT16 it also has the clusters of files whose next cluster is a
  multiple of \<open>0x1000\<close>, or \<open>0xFF7\<close> more than one, because the test reads
  12 of the 16 bits, and no other beside these. The blocks are in ascending order, disjoint and
  inside the volume.\<close>

theorem fat_block_map_exact:
  assumes "fat_geometry vh" "fh_fat_vh h = Some vh" "fh_fat h = Some fat"
    and "fat_clusters vh + 2 \<le> length fat" "fh_fat_type h \<in> {FatType_Fat16, FatType_Fat32}"
    and "fh_fat_type h = FatType_Fat16 \<longrightarrow> (\<forall>v \<in> set fat. v < 2 ^ 16)"
  shows "\<exists>fmap bs h'. BuildFatBlockMap h = Some (UNALLOCATED_OK, fmap, bs, h') \<and>
    bs = fv_bytes_per_sector vh * fv_sectors_per_cluster vh \<and>
    set fmap = {fat_cluster_offset vh c |c. 2 \<le> c \<and> c < fat_clusters vh + 2 \<and>
      (fat_entry_of (fh_fat_type h) (fat ! c) \<in> {Fat_free, Fat_bad} \<or>
       fh_fat_type h = FatType_Fat16 \<and>
         (\<exists>c'. fat_entry_of FatType_Fat16 (fat ! c) = Fat_next c' \<and> fat16_misread c'))} \<and>
    sorted_wrt (\<lambda>a b. a + bs \<le> b) fmap \<and>
    (\<forall>a \<in> set fmap. fat_data_sector vh * fv_bytes_per_sector vh \<le> a \<and>
      a + bs \<le> fat_total_sectors vh * fv_bytes_per_sector vh)"
proof -
  define is_free where "is_free = (if fh_fat_type h = FatType_Fat32 then fat32_free else fat16_free)"
  define cs where "cs = filter (\<lambda>c. is_free (fat ! c)) [2..<fat_clusters vh + 2]"
  have "sorted_wrt (<) cs" unfolding cs_def by (rule sorted_wrt_filter) (rule sorted_wrt_upt)
  moreover have "2 \<le> c" if "c \<in> set cs" for c using that by (simp add: cs_def del: upt_Suc)
  ultimately have sorted: "sorted_wrt (\<lambda>a b. a + fat_cluster_size vh \<le> b) (map (fat_cluster_offset vh) cs)"
    unfolding sorted_wrt_map
    by (elim sorted_wrt_mono_rel [rotated]) (simp add: fat_cluster_offset_mono)
  have inside: "fat_data_sector vh * fv_bytes_per_sector vh \<le> a \<and>
      a + fat_cluster_size vh \<le> fat_total_sectors vh * fv_bytes_per_sector vh"
    if "a \<in> set (map (fat_cluster_offset vh) cs)" for a
  proof -
    obtain c where c: "a = fat_cluster_offset vh c" "2 \<le> c" "c < fat_clusters vh + 2"
      using \<open>a \<in> _\<close> by (auto simp: cs_def simp del: upt_Suc)
    have "fat_cluster_offset vh (Suc c) \<le> fat_total_sectors vh * fv_bytes_per_sector vh"
      using c by (intro fat_geometry_bounds(3) [OF assms(1)]) simp_all
    then show ?thesis using c by (simp add: fat_cluster_offset_step) (simp add: fat_cluster_offset_def)
  qed
  have free: "is_free (fat ! c) \<longleftrightarrow> fat_entry_of (fh_fat_type h) (fat ! c) \<in> {Fat_free, Fat_bad} \<or>
       fh_fat_type h = FatType_Fat16 \<and>
         (\<exists>c'. fat_entry_of FatType_Fat16 (fat ! c) = Fat_next c' \<and> fat16_misread c')"
    if "c < fat_clusters vh + 2" for c
  proof (cases "fh_fat_type h = FatType_Fat32")
    case False
    then have t: "fh_fat_type h = FatType_Fat16" using assms(5) by simp
    then have "fat ! c < 65536" using assms(4,6) that by simp
    from fat16_free_iff [OF this] show ?thesis by (simp add: is_free_def t)
  qed (simp add: is_free_def fat32_free_iff)
  have members: "set (map (fat_cluster_offset vh) cs) =
      {fat_cluster_offset vh c |c. 2 \<le> c \<and> c < fat_clusters vh + 2 \<and> is_free (fat ! c)}"
    by (auto simp: cs_def simp del: upt_Suc)
  also have "\<dots> = {fat_cluster_offset vh c |c. 2 \<le> c \<and> c < fat_clusters vh + 2 \<and>
      (fat_entry_of (fh_fat_type h) (fat ! c) \<in> {Fat_free, Fat_bad} \<or>
       fh_fat_type h = FatType_Fat16 \<and>
         (\<exists>c'. fat_entry_of FatType_Fat16 (fat ! c) = Fat_next c' \<and> fat16_misread c'))}"
    by (intro Collect_cong ex_cong1 conj_cong refl free)
  finally have members: "set (map (fat_cluster_offset vh) cs) = \<dots>" .
  show ?thesis
    using BuildFatBlockMap_ok [OF assms(1-4)] sorted inside members
    unfolding is_free_def [symmetric] cs_def [symmetric] fat_cluster_size_def [symmetric]
    by (intro exI [of _ "map (fat_cluster_offset vh) cs"] exI conjI ballI) auto
qed

definition small_fat :: fat_vh where
  "small_fat = \<lparr>fv_jump_inst = [0xEB, 0x3C, 0x90], fv_oem_name = [], fv_bytes_per_sector = 512,
     fv_sectors_per_cluster = 2, fv_reserved_sectors = 1, fv_fat_count = 1, fv_root_entry_count = 0,
     fv_total_sectors_16 = 9, fv_media_type = 0xF8, fv_fat16_sectors = 1, fv_total_sectors_32 = 0,
     fv_fat32_sectors = 0\<rparr>"

definition small_fat_handle :: "nat list \<Rightarrow> fat_handle" where
  "small_fat_handle fat = \<lparr>fh_fat_type = FatType_Fat16, fh_fat_vh = Some small_fat,
     fh_fat = Some fat, fh_debug = False\<rparr>"

lemma small_fat_geometry: "fat_geometry small_fat" "fat_clusters small_fat = 3"
  by (simp_all add: fat_geometry_def fat_header_valid_def small_fat_def fat_data_sector_def
      fat_root_dir_sectors_def fat_sectors_def fat_total_sectors_def fat_clusters_def)

lemma fat_block_map_exact_witness:
  "\<exists>fmap h'. BuildFatBlockMap (small_fat_handle [0xFFF8, 0xFFFF, 0x1000, 0xFFFF, 0]) =
     Some (UNALLOCATED_OK, fmap, 1024, h') \<and> set fmap = {1024, 3072}"
proof -
  let ?fat = "[0xFFF8, 0xFFFF, 0x1000, 0xFFFF, 0] :: nat list"
  have e: "fat_entry_of FatType_Fat16 (?fat ! 2) = Fat_next 4096"
    "fat_entry_of FatType_Fat16 (?fat ! 3) = Fat_end" "fat_entry_of FatType_Fat16 (?fat ! 4) = Fat_free"
    by (simp_all add: fat_entry_of_def)
  have m: "fat16_misread 4096" by (auto simp: fat16_misread_def intro: exI [of _ 1])
  have o: "fat_cluster_offset small_fat 2 = 1024" "fat_cluster_offset small_fat 4 = 3072"
    by (simp_all add: fat_cluster_offset_def fat_data_sector_def small_fat_def
        fat_root_dir_sectors_def fat_sectors_def fat_cluster_size_def)
  have "{fat_cluster_offset small_fat c |c. 2 \<le> c \<and> c < 5 \<and>
      (fat_entry_of FatType_Fat16 (?fat ! c) \<in> {Fat_free, Fat_bad} \<or>
       (\<exists>c'. fat_entry_of FatType_Fat16 (?fat ! c) = Fat_next c' \<and> fat16_misread c'))} = {1024, 3072}"
    (is "?S = _")
  proof
    have "x \<in> {1024, 3072}" if "x \<in> ?S" for x
    proof -
      obtain c where c: "x = fat_cluster_offset small_fat c" "2 \<le> c" "c < 5"
        "fat_entry_of FatType_Fat16 (?fat ! c) \<in> {Fat_free, Fat_bad} \<or>
         (\<exists>c'. fat_entry_of FatType_Fat16 (?fat ! c) = Fat_next c' \<and> fat16_misread c')"
        using \<open>x \<in> ?S\<close> by blast
      then have "c = 2 \<or> c = 3 \<or> c = 4" by linarith
      then show ?thesis using c(1,4) e o by auto
    qed
    then show "?S \<subseteq> {1024, 3072}" by blast
    have "1024 \<in> ?S" using e(1) m o(1) by (intro CollectI exI [of _ 2]) auto
    moreover have "3072 \<in> ?S" using e(3) o(2) by (intro CollectI exI [of _ 4]) auto
    ultimately show "{1024, 3072} \<subseteq> ?S" by blast
  qed
  then show ?thesis
    using fat_block_map_exact [OF small_fat_geometry(1), of "small_fat_handle ?fat" ?fat]
    by (auto simp: small_fat_geometry(2) small_fat_handle_def) (auto simp: small_fat_def)
qed

text \<open>The FAT16 test looks at 12 of the 16 bits only: a cluster whose successor is
  cluster \<open>0x1000\<close> belongs to a file and is listed as free all the same.\<close>

theorem fat16_chained_cluster_listed:
  assumes "fat_geometry vh" "fh_fat_vh h = Some vh" "fh_fat h = Some fat"
    and "fat_clusters vh + 2 \<le> length fat" "fh_fat_type h = FatType_Fat16"
    and "2 \<le> c" "c < fat_clusters vh + 2" "fat ! c = 0x1000"
  shows "\<exists>fmap bs h'. BuildFatBlockMap h = Some (UNALLOCATED_OK, fmap, bs, h') \<and>
    fat_cluster_offset vh c \<in> set fmap"
  using BuildFatBlockMap_ok [OF assms(1-4)] assms(5-8) by (simp add: fat16_free_def del: upt_Suc)

lemma fat16_chained_cluster_listed_witness:
  "\<exists>fmap bs h'. BuildFatBlockMap (small_fat_handle [0xFFF8, 0xFFFF, 0x1000, 0xFFFF, 0]) =
     Some (UNALLOCATED_OK, fmap, bs, h') \<and> 1024 \<in> set fmap"
  using fat16_chained_cluster_listed [OF small_fat_geometry(1),
      of "small_fat_handle [0xFFF8, 0xFFFF, 0x1000, 0xFFFF, 0]" "[0xFFF8, 0xFFFF, 0x1000, 0xFFFF, 0]" 2]
  by (simp add: small_fat_geometry(2) small_fat_handle_def)
    (simp add: fat_cluster_offset_def fat_data_sector_def small_fat_def fat_root_dir_sectors_def
      fat_sectors_def)

end
