(* ===== verification/UnallocHfs.thy ===== *)
theory UnallocHfs
  imports UnallocFat
begin

text \<open>
  The HFS+ part of \<open>libxmount_morphing_unallocated\<close> (\<open>hfs_functions.c\<close>): reading and
  checking the volume header, reading the allocation file from its extents, and the map of
  the free blocks. Block numbers times the block size are computed in 32 bits, as in the code.
  \<open>None\<close> marks an access outside a buffer.
\<close>

section \<open>Data\<close>

definition HFS_VH_OFFSET :: nat where "HFS_VH_OFFSET = 1024"
definition HFS_VH_SIGNATURE :: nat where "HFS_VH_SIGNATURE = 0x482B"
definition HFS_VH_VERSION :: nat where "HFS_VH_VERSION = 4"
definition sizeof_HfsVH :: nat where "sizeof_HfsVH = 192"

record hfs_extend =
  he_start_block :: nat
  he_block_count :: nat

record hfs_vh =
  hv_signature :: nat
  hv_version :: nat
  hv_block_size :: nat
  hv_total_blocks :: nat
  hv_free_blocks :: nat
  hv_alloc_file_size :: nat
  hv_alloc_file_clump_size :: nat
  hv_alloc_file_total_blocks :: nat
  hv_alloc_file_extends :: "hfs_extend list"

text \<open>The packed header, converted from big endian to host byte order.\<close>

definition dec_hfs_vh :: "bytes \<Rightarrow> hfs_vh" where
  "dec_hfs_vh b =
     \<lparr>hv_signature = be_at 0 2 b, hv_version = be_at 2 2 b, hv_block_size = be_at 40 4 b,
      hv_total_blocks = be_at 44 4 b, hv_free_blocks = be_at 48 4 b,
      hv_alloc_file_size = be_at 112 8 b, hv_alloc_file_clump_size = be_at 120 4 b,
      hv_alloc_file_total_blocks = be_at 124 4 b,
      hv_alloc_file_extends = map (\<lambda>i. \<lparr>he_start_block = be_at (128 + 8 * i) 4 b,
        he_block_count = be_at (132 + 8 * i) 4 b\<rparr>) [0..<8]\<rparr>"

record hfs_handle =
  hh_hfs_vh :: "hfs_vh option"
  hh_alloc_file :: "bytes option"
  hh_debug :: bool

section \<open>Operations\<close>

definition ReadHfsHeader :: "morph_input \<Rightarrow> bool \<Rightarrow> (int \<times> hfs_handle) option" where
  "ReadHfsHeader m debug =
     (let h0 = \<lparr>hh_hfs_vh = None, hh_alloc_file = None, hh_debug = debug\<rparr> in
      case mi_Read m 0 HFS_VH_OFFSET sizeof_HfsVH of
        None \<Rightarrow> None
      | Some r \<Rightarrow>
          if rr_ret r \<noteq> 0 \<or> rr_read r \<noteq> sizeof_HfsVH
          then Some (UNALLOCATED_HFS_CANNOT_READ_HEADER, h0)
          else
            let vh = dec_hfs_vh (pad sizeof_HfsVH (rr_buf r)) in
            if hv_signature vh \<noteq> HFS_VH_SIGNATURE \<or> hv_version vh \<noteq> HFS_VH_VERSION
            then Some (UNALLOCATED_HFS_INVALID_HEADER, h0)
            else Some (UNALLOCATED_OK, h0\<lparr>hh_hfs_vh := Some vh\<rparr>))"

definition FreeHfsHeader :: "hfs_handle \<Rightarrow> hfs_handle" where
  "FreeHfsHeader h = h\<lparr>hh_hfs_vh := None, hh_alloc_file := None\<rparr>"

text \<open>The \<open>k\<close> blocks of one extent from number \<open>blk\<close> on, appended to \<open>buf\<close>, the
  bytes stored so far in the buffer of \<open>fsize\<close> bytes. A block that does not fit into the
  buffer any more is written behind it.\<close>

fun ReadHfsAllocFile_extend ::
  "morph_input \<Rightarrow> nat \<Rightarrow> nat \<Rightarrow> nat \<Rightarrow> nat \<Rightarrow> bytes \<Rightarrow> (int \<times> bytes) option" where
  "ReadHfsAllocFile_extend m block_size fsize blk 0 buf = Some (UNALLOCATED_OK, buf)"
| "ReadHfsAllocFile_extend m block_size fsize blk (Suc k) buf =
     (if length buf + block_size > fsize then None
      else case mi_Read m 0 (u32 (u32 blk * block_size)) block_size of
        None \<Rightarrow> None
      | Some r \<Rightarrow>
          if rr_ret r \<noteq> 0 \<or> rr_read r \<noteq> block_size
          then Some (UNALLOCATED_HFS_CANNOT_READ_ALLOC_FILE, buf)
          else ReadHfsAllocFile_extend m block_size fsize (blk + 1) k (buf @ pad block_size (rr_buf r)))"

fun ReadHfsAllocFile_loop ::
  "morph_input \<Rightarrow> nat \<Rightarrow> nat \<Rightarrow> hfs_extend list \<Rightarrow> bytes \<Rightarrow> (int \<times> bytes) option" where
  "ReadHfsAllocFile_loop m block_size fsize [] buf = Some (UNALLOCATED_OK, buf)"
| "ReadHfsAllocFile_loop m block_size fsize (e # es) buf =
     (if he_start_block e = 0 \<and> he_block_count e = 0 then Some (UNALLOCATED_OK, buf)
      else case ReadHfsAllocFile_extend m block_size fsize (he_start_block e) (he_block_count e) buf of
        None \<Rightarrow> None
      | Some (ret, buf1) \<Rightarrow>
          if ret \<noteq> UNALLOCATED_OK then Some (ret, buf1)
          else ReadHfsAllocFile_loop m block_size fsize es buf1)"

definition ReadHfsAllocFile :: "hfs_handle \<Rightarrow> morph_input \<Rightarrow> (int \<times> hfs_handle) option" where
  "ReadHfsAllocFile h m =
     (case hh_hfs_vh h of
        None \<Rightarrow> None
      | Some vh \<Rightarrow>
          (case ReadHfsAllocFile_loop m (hv_block_size vh) (hv_alloc_file_size vh)
                  (hv_alloc_file_extends vh) [] of
             None \<Rightarrow> None
           | Some (ret, buf) \<Rightarrow>
               if ret \<noteq> UNALLOCATED_OK then Some (ret, h)
               else if length buf \<noteq> hv_alloc_file_size vh
               then Some (UNALLOCATED_HFS_ALLOC_FILE_HAS_TOO_MUCH_EXTENDS, h)
               else Some (UNALLOCATED_OK, h\<lparr>hh_alloc_file := Some buf\<rparr>)))"

definition hfs_block_free :: "bytes \<Rightarrow> nat \<Rightarrow> bool" where
  "hfs_block_free alloc cur_block \<longleftrightarrow> \<not> bit (alloc ! (cur_block div 8)) (7 - cur_block mod 8)"

function BuildHfsBlockMap_loop :: "bytes \<Rightarrow> nat \<Rightarrow> nat \<Rightarrow> nat \<Rightarrow> nat list \<Rightarrow> nat list option" where
  "BuildHfsBlockMap_loop alloc block_size total_blocks cur_block fmap =
     (if cur_block < total_blocks then
        (if cur_block div 8 \<ge> length alloc then None
         else BuildHfsBlockMap_loop alloc block_size total_blocks (cur_block + 1)
                (if hfs_block_free alloc cur_block then fmap @ [u32 (cur_block * block_size)] else fmap))
      else Some fmap)"
  by pat_completeness auto
termination
  by (relation "measure (\<lambda>(_, _, total_blocks, cur_block, _). total_blocks - cur_block)") auto

declare BuildHfsBlockMap_loop.simps [simp del]

definition BuildHfsBlockMap :: "hfs_handle \<Rightarrow> (int \<times> nat list \<times> nat \<times> hfs_handle) option" where
  "BuildHfsBlockMap h =
     (case (hh_hfs_vh h, hh_alloc_file h) of
        (Some vh, Some alloc) \<Rightarrow>
          (case BuildHfsBlockMap_loop alloc (hv_block_size vh) (hv_total_blocks vh) 0 [] of
             None \<Rightarrow> None
           | Some fmap \<Rightarrow>
               Some (UNALLOCATED_OK, fmap, hv_block_size vh, h\<lparr>hh_alloc_file := None\<rparr>))
      | _ \<Rightarrow> None)"

section \<open>The block map\<close>

lemma BuildHfsBlockMap_loop_ok:
  "cur \<le> n \<Longrightarrow> n \<le> 8 * length alloc \<Longrightarrow>
   BuildHfsBlockMap_loop alloc bs n cur acc =
     Some (acc @ map (\<lambda>b. u32 (b * bs)) (filter (hfs_block_free alloc) [cur..<n]))"
proof (induction "n - cur" arbitrary: cur acc)
  case 0
  then show ?case by (subst BuildHfsBlockMap_loop.simps) simp
next
  case (Suc k)
  then have c: "cur < n" "\<not> length alloc \<le> cur div 8" by auto
  have "k = n - (cur + 1)" "cur + 1 \<le> n" using Suc.hyps(2) by simp_all
  note ih = Suc.hyps(1) [OF this Suc.prems(2)]
  show ?case
    using c ih [unfolded Suc_eq_plus1 [symmetric]]
    by (subst BuildHfsBlockMap_loop.simps) (simp add: upt_conv_Cons)
qed

lemma BuildHfsBlockMap_ok:
  assumes "hh_hfs_vh h = Some vh" "hh_alloc_file h = Some alloc"
    and "hv_total_blocks vh \<le> 8 * length alloc"
  shows "BuildHfsBlockMap h = Some (UNALLOCATED_OK,
    map (\<lambda>b. u32 (b * hv_block_size vh)) (filter (hfs_block_free alloc) [0..<hv_total_blocks vh]),
    hv_block_size vh, h\<lparr>hh_alloc_file := None\<rparr>)"
  using assms BuildHfsBlockMap_loop_ok [of 0 "hv_total_blocks vh" alloc "hv_block_size vh" "[]"]
  by (simp add: BuildHfsBlockMap_def)

text \<open>Free blocks counted: as many entries as there are clear bits.\<close>

lemma length_hfs_block_map:
  "length (map f (filter (hfs_block_free alloc) [0..<n])) = card {b. b < n \<and> hfs_block_free alloc b}"
proof -
  have "set (filter (hfs_block_free alloc) [0..<n]) = {b. b < n \<and> hfs_block_free alloc b}" by auto
  moreover have "distinct (filter (hfs_block_free alloc) [0..<n])" by simp
  ultimately show ?thesis by (metis distinct_card length_map)
qed

section \<open>The allocation file\<close>

definition hfs_block :: "bytes \<Rightarrow> nat \<Rightarrow> nat \<Rightarrow> bytes" where
  "hfs_block d bs b = segment (b * bs) bs d"

definition hfs_extend_data :: "bytes \<Rightarrow> nat \<Rightarrow> hfs_extend \<Rightarrow> bytes" where
  "hfs_extend_data d bs e =
     concat (map (hfs_block d bs) [he_start_block e..<he_start_block e + he_block_count e])"

text \<open>The extents in use: up to the first empty one.\<close>

definition used_extends :: "hfs_extend list \<Rightarrow> hfs_extend list" where
  "used_extends = takeWhile (\<lambda>e. \<not> (he_start_block e = 0 \<and> he_block_count e = 0))"

definition extends_inside :: "bytes \<Rightarrow> nat \<Rightarrow> hfs_extend list \<Rightarrow> bool" where
  "extends_inside d bs es \<longleftrightarrow> length d < 2 ^ 32 \<and>
     (\<forall>e \<in> set es. (he_start_block e + he_block_count e) * bs \<le> length d)"

context input_images begin

lemma ReadHfsAllocFile_extend_ok:
  assumes g: "in_inv g" "in_images g = [d]" and bs: "0 < bs" and d: "length d < 2 ^ 32"
  shows "(blk + k) * bs \<le> length d \<Longrightarrow> length buf + k * bs \<le> fsize \<Longrightarrow>
    ReadHfsAllocFile_extend (in_funs g) bs fsize blk k buf =
      Some (UNALLOCATED_OK, buf @ concat (map (hfs_block d bs) [blk..<blk + k]))"
proof (induction k arbitrary: blk buf)
  case 0
  then show ?case by simp
next
  case (Suc k)
  have r: "blk * bs + bs \<le> length d" using Suc.prems(1) by (simp add: algebra_simps)
  have "blk * 1 \<le> blk * bs" using bs by (intro mult_le_mono2) simp
  moreover have "length d < 4294967296" using d by simp
  ultimately have "blk < 4294967296" "blk * bs < 4294967296" "bs < 4294967296"
    using r by linarith+
  then have u: "u32 (u32 blk * bs) = blk * bs" "bs < 4294967296" by (simp_all add: u32_small)
  have rd: "mi_Read (in_funs g) 0 (blk * bs) bs = Some (rd_ok (hfs_block d bs blk))"
    using in_read_law [OF g(1), of 0 bs "blk * bs"] g(2) bs r u(2) by (simp add: hfs_block_def)
  have l: "length (hfs_block d bs blk) = bs" using r by (simp add: hfs_block_def)
  have "(blk + 1 + k) * bs \<le> length d" "length (buf @ hfs_block d bs blk) + k * bs \<le> fsize"
    using Suc.prems l by (simp_all add: algebra_simps)
  note ih = Suc.IH [OF this]
  have "[blk..<blk + Suc k] = blk # [blk + 1..<blk + 1 + k]"
    by (simp add: upt_conv_Cons del: upt_Suc)
  then show ?case
    using Suc.prems(2) ih by (simp add: u(1) rd l)
qed

lemma ReadHfsAllocFile_loop_ok:
  assumes g: "in_inv g" "in_images g = [d]" and bs: "0 < bs"
  shows "extends_inside d bs (used_extends es) \<Longrightarrow>
    length buf + length (concat (map (hfs_extend_data d bs) (used_extends es))) \<le> fsize \<Longrightarrow>
    ReadHfsAllocFile_loop (in_funs g) bs fsize es buf =
      Some (UNALLOCATED_OK, buf @ concat (map (hfs_extend_data d bs) (used_extends es)))"
proof (induction es arbitrary: buf)
  case Nil
  then show ?case by (simp add: used_extends_def)
next
  case (Cons e es)
  show ?case
  proof (cases "he_start_block e = 0 \<and> he_block_count e = 0")
    case True
    then show ?thesis by (simp add: used_extends_def)
  next
    case False
    then have ue: "used_extends (e # es) = e # used_extends es" by (simp add: used_extends_def)
    have in_d: "length d < 2 ^ 32" "(he_start_block e + he_block_count e) * bs \<le> length d"
      and rest: "extends_inside d bs (used_extends es)"
      using Cons.prems(1) by (auto simp: ue extends_inside_def)
    have "length (hfs_block d bs b) = bs" if "b < he_start_block e + he_block_count e" for b
    proof -
      have "(b + 1) * bs \<le> (he_start_block e + he_block_count e) * bs"
        using that by (intro mult_le_mono1) simp
      then show ?thesis using in_d by (simp add: hfs_block_def)
    qed
    then have "length (hfs_extend_data d bs e) = he_block_count e * bs"
      unfolding hfs_extend_data_def by (subst length_concat_blocks [where k = bs]) auto
    then have "length buf + he_block_count e * bs \<le> fsize"
      and sz: "length (buf @ hfs_extend_data d bs e) +
        length (concat (map (hfs_extend_data d bs) (used_extends es))) \<le> fsize"
      using Cons.prems(2) by (simp_all add: ue)
    from ReadHfsAllocFile_extend_ok [OF g bs in_d this(1)]
    have "ReadHfsAllocFile_extend (in_funs g) bs fsize (he_start_block e) (he_block_count e) buf =
        Some (UNALLOCATED_OK, buf @ hfs_extend_data d bs e)"
      by (simp add: hfs_extend_data_def)
    then show ?thesis using False Cons.IH [OF rest sz] by (auto simp: ue)
  qed
qed

lemma ReadHfsAllocFile_ok:
  assumes "in_inv g" "in_images g = [d]" "hh_hfs_vh h = Some vh" "0 < hv_block_size vh"
    and "extends_inside d (hv_block_size vh) (used_extends (hv_alloc_file_extends vh))"
  defines "file \<equiv> concat (map (hfs_extend_data d (hv_block_size vh)) (used_extends (hv_alloc_file_extends vh)))"
  assumes "length file = hv_alloc_file_size vh"
  shows "ReadHfsAllocFile h (in_funs g) = Some (UNALLOCATED_OK, h\<lparr>hh_alloc_file := Some file\<rparr>)"
  using ReadHfsAllocFile_loop_ok [OF assms(1,2,4,5), of "[]" "hv_alloc_file_size vh"] assms(3,7)
  by (simp add: ReadHfsAllocFile_def file_def)

lemma ReadHfsHeader_image:
  assumes "in_inv g" "in_images g = [d]" "HFS_VH_OFFSET + sizeof_HfsVH \<le> length d"
  shows "ReadHfsHeader (in_funs g) debug =
    (let h0 = \<lparr>hh_hfs_vh = None, hh_alloc_file = None, hh_debug = debug\<rparr>;
         vh = dec_hfs_vh (segment HFS_VH_OFFSET sizeof_HfsVH d) in
     if hv_signature vh \<noteq> HFS_VH_SIGNATURE \<or> hv_version vh \<noteq> HFS_VH_VERSION
     then Some (UNALLOCATED_HFS_INVALID_HEADER, h0)
     else Some (UNALLOCATED_OK, h0\<lparr>hh_hfs_vh := Some vh\<rparr>))"
proof -
  have "mi_Read (in_funs g) 0 HFS_VH_OFFSET sizeof_HfsVH =
      Some (rd_ok (segment HFS_VH_OFFSET sizeof_HfsVH d))"
    using in_read_law [OF assms(1), of 0 sizeof_HfsVH HFS_VH_OFFSET] assms(2,3)
    by (simp add: sizeof_HfsVH_def)
  moreover have "length (segment HFS_VH_OFFSET sizeof_HfsVH d) = sizeof_HfsVH" using assms(3) by simp
  ultimately show ?thesis by (simp add: ReadHfsHeader_def Let_def)
qed

end

section \<open>Properties\<close>

text \<open>C29: on a volume below 4 GiB the map lists the free blocks exactly: one entry per clear
  bit of the allocation file, in ascending order, each at its place in the volume.\<close>

theorem hfs_block_map_exact:
  assumes "hh_hfs_vh h = Some vh" "hh_alloc_file h = Some alloc"
    and "hv_total_blocks vh \<le> 8 * length alloc" "0 < hv_block_size vh"
    and "hv_total_blocks vh * hv_block_size vh \<le> 2 ^ 32"
  shows "\<exists>fmap h'. BuildHfsBlockMap h = Some (UNALLOCATED_OK, fmap, hv_block_size vh, h') \<and>
    set fmap = {b * hv_block_size vh |b. b < hv_total_blocks vh \<and> hfs_block_free alloc b} \<and>
    sorted_wrt (\<lambda>a b. a + hv_block_size vh \<le> b) fmap \<and>
    length fmap = card {b. b < hv_total_blocks vh \<and> hfs_block_free alloc b}"
proof -
  let ?bs = "hv_block_size vh" and ?n = "hv_total_blocks vh"
  let ?free = "filter (hfs_block_free alloc) [0..<?n]"
  have u: "u32 (b * ?bs) = b * ?bs" if "b \<in> set ?free" for b
  proof -
    have "b < ?n" using that by simp
    then have "(b + 1) * ?bs \<le> ?n * ?bs" by (intro mult_le_mono1) simp
    then show ?thesis using assms(4,5) by (intro u32_small) simp
  qed
  have m: "map (\<lambda>b. u32 (b * ?bs)) ?free = map (\<lambda>b. b * ?bs) ?free"
    by (rule map_cong [OF refl u])
  have "sorted_wrt (<) ?free" by (rule sorted_wrt_filter) (rule sorted_wrt_upt)
  then have "sorted_wrt (\<lambda>a b. a * ?bs + ?bs \<le> b * ?bs) ?free"
  proof (rule sorted_wrt_mono_rel [rotated])
    fix a b :: nat
    assume "a < b"
    then have "(a + 1) * ?bs \<le> b * ?bs" by (intro mult_le_mono1) simp
    then show "a * ?bs + ?bs \<le> b * ?bs" by simp
  qed
  then have "sorted_wrt (\<lambda>a b. a + ?bs \<le> b) (map (\<lambda>b. b * ?bs) ?free)"
    by (simp add: sorted_wrt_map)
  moreover have "set (map (\<lambda>b. b * ?bs) ?free) = {b * ?bs |b. b < ?n \<and> hfs_block_free alloc b}"
    by auto
  ultimately show ?thesis
    using BuildHfsBlockMap_ok [OF assms(1-3)] length_hfs_block_map [of "\<lambda>b. b * ?bs" alloc ?n]
    unfolding m by blast
qed

definition small_hfs :: "nat \<Rightarrow> nat \<Rightarrow> hfs_vh" where
  "small_hfs bs n = \<lparr>hv_signature = HFS_VH_SIGNATURE, hv_version = HFS_VH_VERSION,
     hv_block_size = bs, hv_total_blocks = n, hv_free_blocks = 0, hv_alloc_file_size = bs,
     hv_alloc_file_clump_size = bs, hv_alloc_file_total_blocks = 1,
     hv_alloc_file_extends = [\<lparr>he_start_block = 1, he_block_count = 1\<rparr>,
       \<lparr>he_start_block = 0, he_block_count = 0\<rparr>]\<rparr>"

definition small_hfs_handle :: "nat \<Rightarrow> nat \<Rightarrow> bytes option \<Rightarrow> hfs_handle" where
  "small_hfs_handle bs n alloc =
     \<lparr>hh_hfs_vh = Some (small_hfs bs n), hh_alloc_file = alloc, hh_debug = False\<rparr>"

lemma hfs_block_map_exact_witness:
  "\<exists>fmap h'. BuildHfsBlockMap (small_hfs_handle 512 3 (Some [0xA0])) =
     Some (UNALLOCATED_OK, fmap, 512, h') \<and> set fmap = {512}"
proof -
  have "{b * 512 |b. b < (3 :: nat) \<and> hfs_block_free [0xA0] b} = {512}"
    by (auto simp: hfs_block_free_def less_Suc_eq numeral_3_eq_3 bit_simps)
  then show ?thesis
    using hfs_block_map_exact [of "small_hfs_handle 512 3 (Some [0xA0])" "small_hfs 512 3" "[0xA0]"]
    by (auto simp: small_hfs_handle_def small_hfs_def)
qed

text \<open>On a larger volume the 32-bit product of block number and block size wraps: a free
  block behind 4 GiB is listed, but at an offset modulo 4 GiB, and never at its own.\<close>

theorem hfs_block_map_wraps:
  assumes "hh_hfs_vh h = Some vh" "hh_alloc_file h = Some alloc"
    and "hv_total_blocks vh \<le> 8 * length alloc"
    and "b < hv_total_blocks vh" "hfs_block_free alloc b" "2 ^ 32 \<le> b * hv_block_size vh"
  shows "\<exists>fmap bs h'. BuildHfsBlockMap h = Some (UNALLOCATED_OK, fmap, bs, h') \<and>
    (b * hv_block_size vh) mod 2 ^ 32 \<in> set fmap \<and> b * hv_block_size vh \<notin> set fmap"
proof -
  let ?m = "map (\<lambda>b. u32 (b * hv_block_size vh)) (filter (hfs_block_free alloc) [0..<hv_total_blocks vh])"
  have "x < 4294967296" if "x \<in> set ?m" for x using that by auto
  then have "b * hv_block_size vh \<notin> set ?m" using assms(6) by fastforce
  moreover have "(b * hv_block_size vh) mod 2 ^ 32 \<in> set ?m"
    using assms(4,5) by (auto simp: u32_def)
  ultimately show ?thesis using BuildHfsBlockMap_ok [OF assms(1-3)] by blast
qed

lemma hfs_block_map_wraps_witness:
  "\<exists>fmap bs h'. BuildHfsBlockMap (small_hfs_handle 0x80000000 3 (Some [0xC0])) =
     Some (UNALLOCATED_OK, fmap, bs, h') \<and> 0 \<in> set fmap \<and> 0x100000000 \<notin> set fmap"
proof -
  have "hfs_block_free [0xC0] 2" by (simp add: hfs_block_free_def bit_simps)
  then show ?thesis
    using hfs_block_map_wraps [of "small_hfs_handle 0x80000000 3 (Some [0xC0])" "small_hfs 0x80000000 3" "[0xC0]" 2]
    by (simp add: small_hfs_handle_def small_hfs_def)
qed

text \<open>The allocation file is read as the concatenation of the blocks of its extents, up to
  the first empty extent; its length has to be the size the header states.\<close>

theorem hfs_alloc_file_read:
  assumes "provider_inv p" "provider_images p = [d]" "hh_hfs_vh h = Some vh" "0 < hv_block_size vh"
    and "extends_inside d (hv_block_size vh) (used_extends (hv_alloc_file_extends vh))"
    and "length (concat (map (hfs_extend_data d (hv_block_size vh))
      (used_extends (hv_alloc_file_extends vh)))) = hv_alloc_file_size vh"
  shows "ReadHfsAllocFile h (provider_funs p) = Some (UNALLOCATED_OK,
    h\<lparr>hh_alloc_file := Some (concat (map (hfs_extend_data d (hv_block_size vh))
      (used_extends (hv_alloc_file_extends vh))))\<rparr>)"
  by (rule xin.ReadHfsAllocFile_ok [OF assms])

lemma hfs_alloc_file_read_witness:
  "ReadHfsAllocFile (small_hfs_handle 2 3 None) (provider_funs (mem_state [[1, 2, 3, 4, 5, 6]], [[1, 2, 3, 4, 5, 6]])) =
    Some (UNALLOCATED_OK, small_hfs_handle 2 3 (Some [3, 4]))"
  using hfs_alloc_file_read [OF mem_provider_inv [of "[[1, 2, 3, 4, 5, 6]]"], of "[1, 2, 3, 4, 5, 6]"
      "small_hfs_handle 2 3 None" "small_hfs 2 3"]
  by (simp add: small_hfs_handle_def small_hfs_def used_extends_def extends_inside_def
      hfs_extend_data_def hfs_block_def segment_def upt_conv_Cons)

end
