(* ===== verification/MorphUnallocated.thy ===== *)
theory MorphUnallocated
  imports UnallocHfs
begin

text \<open>
  The morphing library \<open>libxmount_morphing_unallocated\<close>: the free blocks of an HFS+ or
  FAT volume, one behind the other. The lemmas show that reads from the start of a free block
  return these blocks, and that reads from the middle of one are shifted, because the code
  adds the offset inside the block twice.
\<close>

section \<open>Data\<close>

datatype UnallocatedFsType = UnallocatedFsType_Unknown | UnallocatedFsType_Hfs | UnallocatedFsType_Fat

text \<open>The union \<open>u_fs\<close>: the member written last.\<close>

datatype fs_union = FsNone | FsHfs hfs_handle | FsFat fat_handle

record unallocated_handle =
  un_debug :: bool
  un_fs_type :: UnallocatedFsType
  un_input_functions :: "morph_input option"
  un_block_size :: nat
  un_free_block_map :: "nat list"
  un_morphed_image_size :: nat
  un_fs :: fs_union

section \<open>Operations\<close>

definition UnallocatedCreateHandle :: "bool \<Rightarrow> unallocated_handle" where
  "UnallocatedCreateHandle debug =
     \<lparr>un_debug = debug, un_fs_type = UnallocatedFsType_Unknown, un_input_functions = None,
      un_block_size = 0, un_free_block_map = [], un_morphed_image_size = 0, un_fs = FsNone\<rparr>"

fun UnallocatedOptionsParse ::
  "unallocated_handle \<Rightarrow> lib_option list \<Rightarrow> int \<times> unallocated_handle \<times> lib_option list" where
  "UnallocatedOptionsParse h [] = (UNALLOCATED_OK, h, [])"
| "UnallocatedOptionsParse h (opt # opts) =
     (if lo_key opt = ''unallocated_fs'' then
        if lo_value opt = ''hfs'' \<or> lo_value opt = ''fat'' then
          (case UnallocatedOptionsParse
                  (h\<lparr>un_fs_type := (if lo_value opt = ''hfs'' then UnallocatedFsType_Hfs
                                   else UnallocatedFsType_Fat)\<rparr>) opts of
             (ret, h1, opts1) \<Rightarrow> (ret, h1, opt\<lparr>lo_valid := True\<rparr> # opts1))
        else (UNALLOCATED_UNSUPPORTED_FS_SPECIFIED, h, opt # opts)
      else (case UnallocatedOptionsParse h opts of (ret, h1, opts1) \<Rightarrow> (ret, h1, opt # opts1)))"

text \<open>Reading the file system header: the result, and the type and header found.\<close>

definition UnallocatedMorph_header ::
  "unallocated_handle \<Rightarrow> morph_input \<Rightarrow> (int \<times> unallocated_handle) option" where
  "UnallocatedMorph_header h m =
     (case un_fs_type h of
        UnallocatedFsType_Hfs \<Rightarrow>
          map_option (\<lambda>(ret, hfs). (ret, h\<lparr>un_fs := FsHfs hfs\<rparr>)) (ReadHfsHeader m (un_debug h))
      | UnallocatedFsType_Fat \<Rightarrow>
          map_option (\<lambda>(ret, fat). (ret, h\<lparr>un_fs := FsFat fat\<rparr>)) (ReadFatHeader m (un_debug h))
      | UnallocatedFsType_Unknown \<Rightarrow>
          (case ReadHfsHeader m (un_debug h) of
             None \<Rightarrow> None
           | Some (ret, hfs) \<Rightarrow>
               if ret = UNALLOCATED_OK
               then Some (UNALLOCATED_OK, h\<lparr>un_fs := FsHfs hfs, un_fs_type := UnallocatedFsType_Hfs\<rparr>)
               else (case ReadFatHeader m (un_debug h) of
                       None \<Rightarrow> None
                     | Some (ret, fat) \<Rightarrow>
                         if ret = UNALLOCATED_OK
                         then Some (UNALLOCATED_OK,
                                h\<lparr>un_fs := FsFat fat, un_fs_type := UnallocatedFsType_Fat\<rparr>)
                         else Some (UNALLOCATED_NO_SUPPORTED_FS_DETECTED, h\<lparr>un_fs := FsFat fat\<rparr>))))"

text \<open>Reading the allocation data and building the map.\<close>

definition UnallocatedMorph_blocks ::
  "unallocated_handle \<Rightarrow> morph_input \<Rightarrow> (int \<times> unallocated_handle) option" where
  "UnallocatedMorph_blocks h m =
     (case un_fs h of
        FsHfs hfs \<Rightarrow>
          (case ReadHfsAllocFile hfs m of
             None \<Rightarrow> None
           | Some (ret, hfs1) \<Rightarrow>
               if ret \<noteq> UNALLOCATED_OK then Some (ret, h\<lparr>un_fs := FsHfs hfs1\<rparr>)
               else case BuildHfsBlockMap hfs1 of
                 None \<Rightarrow> None
               | Some (ret, fmap, bs, hfs2) \<Rightarrow>
                   Some (ret, h\<lparr>un_fs := FsHfs hfs2, un_free_block_map := fmap, un_block_size := bs\<rparr>))
      | FsFat fat \<Rightarrow>
          (case ReadFat fat m of
             None \<Rightarrow> None
           | Some (ret, fat1) \<Rightarrow>
               if ret \<noteq> UNALLOCATED_OK then Some (ret, h\<lparr>un_fs := FsFat fat1\<rparr>)
               else case BuildFatBlockMap fat1 of
                 None \<Rightarrow> None
               | Some (ret, fmap, bs, fat2) \<Rightarrow>
                   Some (ret, h\<lparr>un_fs := FsFat fat2, un_free_block_map := fmap, un_block_size := bs\<rparr>))
      | FsNone \<Rightarrow> Some (UNALLOCATED_INTERNAL_ERROR, h))"

definition UnallocatedMorph ::
  "unallocated_handle \<Rightarrow> morph_input \<Rightarrow> (int \<times> unallocated_handle) option" where
  "UnallocatedMorph h m =
     (let h0 = h\<lparr>un_input_functions := Some m\<rparr> in
      case mi_ImageCount m of (ret, count) \<Rightarrow>
        if ret \<noteq> 0 then Some (UNALLOCATED_CANNOT_GET_IMAGECOUNT, h0)
        else if count = 0 \<or> count > 1 then Some (UNALLOCATED_WRONG_INPUT_IMAGE_COUNT, h0)
        else (case UnallocatedMorph_header h0 m of
                None \<Rightarrow> None
              | Some (ret, h1) \<Rightarrow>
                  if ret \<noteq> UNALLOCATED_OK then Some (ret, h1)
                  else case UnallocatedMorph_blocks h1 m of
                    None \<Rightarrow> None
                  | Some (ret, h2) \<Rightarrow>
                      if ret \<noteq> UNALLOCATED_OK then Some (ret, h2)
                      else Some (UNALLOCATED_OK, h2\<lparr>un_morphed_image_size :=
                             u64 (un_block_size h2 * length (un_free_block_map h2))\<rparr>)))"

definition UnallocatedSize :: "unallocated_handle \<Rightarrow> int \<times> nat" where
  "UnallocatedSize h = (UNALLOCATED_OK, un_morphed_image_size h)"

text \<open>The read loop. The second addition of \<open>cur_block_offset\<close> is the code's.\<close>

partial_function (option) UnallocatedRead_loop ::
  "morph_input \<Rightarrow> nat \<Rightarrow> nat list \<Rightarrow> nat \<Rightarrow> nat \<Rightarrow> nat \<Rightarrow> bytes \<Rightarrow> nat \<Rightarrow> read_res option" where
  "UnallocatedRead_loop m block_size fmap cur_block cur_block_offset count buf nread =
     (if count = 0 then
        Some \<lparr>rr_ret = UNALLOCATED_OK, rr_buf = buf, rr_read = nread, rr_errno = 0\<rparr>
      else if cur_block \<ge> length fmap then None
      else
        let cur_image_offset = u64 (fmap ! cur_block + cur_block_offset);
            cur_count = (if u64 (cur_block_offset + count) > block_size
                         then sub64 block_size cur_block_offset else count) in
        (case mi_Read m 0 (u64 (cur_image_offset + cur_block_offset)) cur_count of
           None \<Rightarrow> None
         | Some r \<Rightarrow>
             if rr_ret r \<noteq> 0 \<or> rr_read r \<noteq> cur_count
             then Some \<lparr>rr_ret = UNALLOCATED_CANNOT_READ_DATA, rr_buf = buf, rr_read = nread,
                        rr_errno = 0\<rparr>
             else UnallocatedRead_loop m block_size fmap (cur_block + 1) 0 (count - cur_count)
                    (buf @ pad cur_count (rr_buf r)) (nread + cur_count)))"

definition UnallocatedRead :: "unallocated_handle \<Rightarrow> nat \<Rightarrow> nat \<Rightarrow> read_res option" where
  "UnallocatedRead h offset count =
     (if offset \<ge> un_morphed_image_size h \<or> u64 (offset + count) > un_morphed_image_size h
      then Some (rd_err UNALLOCATED_READ_BEYOND_END_OF_IMAGE)
      else if un_block_size h = 0 then None
      else let cur_block = offset div un_block_size h in
        case un_input_functions h of
          None \<Rightarrow> None
        | Some m \<Rightarrow> UnallocatedRead_loop m (un_block_size h) (un_free_block_map h) cur_block
                      (offset - cur_block * un_block_size h) count [] 0)"

definition UnallocatedGetErrorMessage :: "int \<Rightarrow> string" where
  "UnallocatedGetErrorMessage err_num =
     (if err_num = UNALLOCATED_MEMALLOC_FAILED then ''Unable to allocate memory''
      else if err_num = UNALLOCATED_NO_SUPPORTED_FS_DETECTED
        then ''Unable to detect a supported file system''
      else if err_num = UNALLOCATED_UNSUPPORTED_FS_SPECIFIED then ''Unsupported fs specified''
      else if err_num = UNALLOCATED_INTERNAL_ERROR then ''Internal error''
      else if err_num = UNALLOCATED_CANNOT_GET_IMAGECOUNT then ''Unable to get input image count''
      else if err_num = UNALLOCATED_WRONG_INPUT_IMAGE_COUNT then ''Only 1 input image is supported''
      else if err_num = UNALLOCATED_CANNOT_GET_IMAGESIZE then ''Unable to get input image size''
      else if err_num = UNALLOCATED_READ_BEYOND_END_OF_IMAGE
        then ''Unable to read data: Attempt to read past EOF''
      else if err_num = UNALLOCATED_CANNOT_READ_DATA then ''Unable to read data''
      else if err_num = UNALLOCATED_CANNOT_PARSE_OPTION then ''Unable to parse library option''
      else if err_num = UNALLOCATED_HFS_CANNOT_READ_HEADER then ''Unable to read HFS volume header''
      else if err_num = UNALLOCATED_HFS_INVALID_HEADER then ''Found invalid HFS volume header''
      else if err_num = UNALLOCATED_HFS_CANNOT_READ_ALLOC_FILE
        then ''Unable to read HFS allocation file''
      else if err_num = UNALLOCATED_HFS_ALLOC_FILE_HAS_TOO_MUCH_EXTENDS
        then ''HFS allocation file has more than 8 extends. This is unsupported''
      else if err_num = UNALLOCATED_FAT_CANNOT_READ_HEADER then ''Unable to read FAT volume header''
      else if err_num = UNALLOCATED_FAT_INVALID_HEADER then ''Found invalid FAT volume header''
      else if err_num = UNALLOCATED_FAT_UNSUPPORTED_FS_TYPE then ''Found unsupported FAT type''
      else if err_num = UNALLOCATED_FAT_CANNOT_READ_FAT then ''Unable to read FAT''
      else ''Unknown error'')"

section \<open>What a handle promises\<close>

text \<open>The free blocks lie inside the image.\<close>

definition blocks_inside :: "nat \<Rightarrow> nat list \<Rightarrow> bytes \<Rightarrow> bool" where
  "blocks_inside bs fmap d \<longleftrightarrow> 0 < bs \<and> (\<forall>a \<in> set fmap. a + bs \<le> length d) \<and>
     bs * length fmap < 2 ^ 63"

definition unallocated_contents :: "nat \<Rightarrow> nat list \<Rightarrow> bytes \<Rightarrow> bytes" where
  "unallocated_contents bs fmap d = concat (map (\<lambda>a. segment a bs d) fmap)"

lemma blocks_insideD:
  assumes "blocks_inside bs fmap d" "i < length fmap"
  shows "fmap ! i + bs \<le> length d"
  using assms nth_mem [of i fmap] by (simp add: blocks_inside_def)

lemma blocks_inside_drop:
  assumes "blocks_inside bs fmap d"
  shows "blocks_inside bs (drop k fmap) d"
proof -
  have "bs * length (drop k fmap) \<le> bs * length fmap" by (intro mult_le_mono2) simp
  also have "\<dots> < 2 ^ 63" using assms by (simp add: blocks_inside_def)
  finally show ?thesis
    using assms unfolding blocks_inside_def by (blast dest: in_set_dropD)
qed

lemma length_unallocated_contents:
  "blocks_inside bs fmap d \<Longrightarrow> length (unallocated_contents bs fmap d) = length fmap * bs"
  unfolding unallocated_contents_def
  by (subst length_concat_blocks [where k = bs]) (auto simp: blocks_inside_def)

context input_images begin

text \<open>The loop from block \<open>b\<close> on. The first piece comes from \<open>2 * bo\<close> behind the start
  of its block; all others are whole blocks, or the start of one.\<close>

lemma UnallocatedRead_loop_ok:
  assumes g: "in_inv g" "in_images g = [d]" and b: "blocks_inside bs fmap d"
  shows "bo < bs \<Longrightarrow> blk * bs + bo + n \<le> length fmap * bs \<Longrightarrow> n < 4294967296 \<Longrightarrow>
    (0 < n \<longrightarrow> fmap ! blk + 2 * bo + min n (bs - bo) \<le> length d) \<Longrightarrow>
    UnallocatedRead_loop (in_funs g) bs fmap blk bo n buf nread =
      Some \<lparr>rr_ret = UNALLOCATED_OK,
        rr_buf = buf @ (if n = 0 then [] else segment (fmap ! blk + 2 * bo) (min n (bs - bo)) d @
          segment 0 (n - min n (bs - bo)) (unallocated_contents bs (drop (Suc blk) fmap) d)),
        rr_read = nread + n, rr_errno = 0\<rparr>"
proof (induction n arbitrary: blk bo buf nread rule: less_induct)
  case (less n)
  show ?case
  proof (cases "n = 0")
    case True
    then show ?thesis by (subst UnallocatedRead_loop.simps) simp
  next
    case n: False
    define k where "k = min n (bs - bo)"
    have k: "0 < k" "k \<le> n" "bo + k \<le> bs" using n less.prems(1) by (auto simp: k_def)
    have bl: "blk < length fmap"
    proof -
      have "blk * bs < length fmap * bs" using less.prems(2) n by linarith
      then show ?thesis by simp
    qed
    have dl: "length d < 2 ^ 63" using image_length_bound [OF g(1), of 0] g(2) by simp
    have fits: "fmap ! blk + 2 * bo + k \<le> length d" using less.prems(4) n by (simp add: k_def)
    have bs: "bs \<le> length d"
      using blocks_insideD [OF b bl] by simp
    have u: "u64 (u64 (fmap ! blk + bo) + bo) = fmap ! blk + 2 * bo" "u64 (bo + n) = bo + n"
      "sub64 bs bo = bs - bo"
      using fits dl bs less.prems(1,3) by (simp_all add: u64_small sub64_small)
    have ck: "(if u64 (bo + n) > bs then sub64 bs bo else n) = k"
      unfolding u by (auto simp: k_def)
    have k32: "k < 4294967296" using k(2) less.prems(3) by simp
    have rd: "mi_Read (in_funs g) 0 (fmap ! blk + 2 * bo) k =
        Some (rd_ok (segment (fmap ! blk + 2 * bo) k d))"
      using in_read_law [OF g(1), of 0 k "fmap ! blk + 2 * bo"] g(2) k(1) k32 fits by simp
    have len: "length (segment (fmap ! blk + 2 * bo) k d) = k" using fits by simp
    have step: "UnallocatedRead_loop (in_funs g) bs fmap blk bo n buf nread =
        UnallocatedRead_loop (in_funs g) bs fmap (Suc blk) 0 (n - k)
          (buf @ segment (fmap ! blk + 2 * bo) k d) (nread + k)"
      using n bl len
      by (subst UnallocatedRead_loop.simps) (simp add: ck u(1) rd Let_def del: length_segment cong: if_cong)
    have more: "fmap ! Suc blk + bs \<le> length d \<and> Suc blk * bs + (n - k) \<le> length fmap * bs" if "n \<noteq> k"
    proof -
      have kb: "k = bs - bo" using that by (auto simp: k_def)
      have "Suc blk * bs + (n - k) \<le> length fmap * bs" using less.prems(1,2) k kb by simp
      moreover from this have "Suc blk * bs < length fmap * bs" using that k(2) by linarith
      then have "Suc blk < length fmap" by (simp only: mult_less_cancel2)
      ultimately show ?thesis using blocks_insideD [OF b] by simp
    qed
    show ?thesis
    proof (cases "n = k")
      case True
      then show ?thesis
        unfolding step k_def [symmetric] using n
        by (subst UnallocatedRead_loop.simps) simp
    next
      case False
      let ?rest = "drop (Suc blk) fmap"
      have sb: "Suc blk < length fmap"
      proof -
        have "Suc blk * bs < length fmap * bs" using more [OF False] False k(2) by linarith
        then show ?thesis by (simp only: mult_less_cancel2)
      qed
      have "UnallocatedRead_loop (in_funs g) bs fmap (Suc blk) 0 (n - k)
          (buf @ segment (fmap ! blk + 2 * bo) k d) (nread + k) =
        Some \<lparr>rr_ret = UNALLOCATED_OK,
          rr_buf = (buf @ segment (fmap ! blk + 2 * bo) k d) @ (if n - k = 0 then [] else
            segment (fmap ! Suc blk + 2 * 0) (min (n - k) (bs - 0)) d @
            segment 0 (n - k - min (n - k) (bs - 0))
              (unallocated_contents bs (drop (Suc (Suc blk)) fmap) d)),
          rr_read = nread + k + (n - k), rr_errno = 0\<rparr>"
        using more [OF False] k less.prems(1,3) False n
        by (intro less.IH) auto
      moreover have "segment 0 (n - k) (unallocated_contents bs ?rest d) =
          segment (fmap ! Suc blk) (min (n - k) bs) d @
          segment 0 (n - k - min (n - k) bs) (unallocated_contents bs (drop (Suc (Suc blk)) fmap) d)"
      proof -
        have "?rest = fmap ! Suc blk # drop (Suc (Suc blk)) fmap" using sb by (simp add: Cons_nth_drop_Suc)
        then have "unallocated_contents bs ?rest d =
            segment (fmap ! Suc blk) bs d @ unallocated_contents bs (drop (Suc (Suc blk)) fmap) d"
          by (simp add: unallocated_contents_def)
        moreover have "length (segment (fmap ! Suc blk) bs d) = bs" using more [OF False] by auto
        ultimately show ?thesis by (simp add: segment_append segment_def min_def)
      qed
      ultimately show ?thesis
        unfolding step using n False k by (simp add: k_def [symmetric])
    qed
  qed
qed

lemma UnallocatedRead_ok:
  assumes g: "in_inv g" "in_images g = [d]" and h: "un_input_functions h = Some (in_funs g)"
    "un_morphed_image_size h = un_block_size h * length (un_free_block_map h)"
    and b: "blocks_inside (un_block_size h) (un_free_block_map h) d"
    and n: "0 < n" "n < 4294967296" "off + n \<le> un_morphed_image_size h"
  defines "bs \<equiv> un_block_size h" and "fmap \<equiv> un_free_block_map h"
  defines "blk \<equiv> off div bs" and "bo \<equiv> off mod bs"
  assumes fits: "fmap ! blk + 2 * bo + min n (bs - bo) \<le> length d"
  shows "UnallocatedRead h off n = Some (rd_ok (segment (fmap ! blk + 2 * bo) (min n (bs - bo)) d @
    segment 0 (n - min n (bs - bo)) (unallocated_contents bs (drop (Suc blk) fmap) d)))"
proof -
  have bs: "0 < bs" "bs * length fmap < 2 ^ 63" using b by (auto simp: blocks_inside_def bs_def fmap_def)
  have o: "off - blk * bs = bo" "bo < bs" "blk * bs + bo = off"
    using bs(1) by (simp_all add: blk_def bo_def minus_div_mult_eq_mod)
  have sz: "un_morphed_image_size h = bs * length fmap" using h(2) by (simp add: bs_def fmap_def)
  have u: "u64 (off + n) = off + n" using n(3) sz bs(2) by (simp add: u64_small)
  have len: "length (segment (fmap ! blk + 2 * bo) (min n (bs - bo)) d @
      segment 0 (n - min n (bs - bo)) (unallocated_contents bs (drop (Suc blk) fmap) d)) = n"
  proof -
    have bi: "blocks_inside bs (drop (Suc blk) fmap) d"
      unfolding bs_def fmap_def by (rule blocks_inside_drop [OF b])
    have "off + n \<le> length fmap * bs" using n(3) sz by (simp add: mult.commute)
    then have "blk * bs + bo + n \<le> length fmap * bs" using o by simp
    then have "n - (bs - bo) \<le> (length fmap - Suc blk) * bs"
      using o(2) by (simp add: diff_mult_distrib)
    then show ?thesis
      using fits length_unallocated_contents [OF bi] by (auto simp: min_def)
  qed
  have "UnallocatedRead_loop (in_funs g) bs fmap blk bo n [] 0 =
      Some \<lparr>rr_ret = UNALLOCATED_OK,
        rr_buf = [] @ (if n = 0 then [] else segment (fmap ! blk + 2 * bo) (min n (bs - bo)) d @
          segment 0 (n - min n (bs - bo)) (unallocated_contents bs (drop (Suc blk) fmap) d)),
        rr_read = 0 + n, rr_errno = 0\<rparr>"
    using o n sz fits
    by (intro UnallocatedRead_loop_ok [OF g b [folded bs_def fmap_def]]) (auto simp: mult.commute)
  then show ?thesis
    using n u o h(1) bs(1) len sz
    by (simp add: UnallocatedRead_def bs_def [symmetric] fmap_def [symmetric] blk_def [symmetric]
        rd_ok_def unallocated_codes del: length_append)
qed

end

section \<open>Properties\<close>

text \<open>What \<open>UnallocatedMorph\<close> leaves where it succeeds.\<close>

lemma UnallocatedMorph_succeeds:
  assumes "UnallocatedMorph h m = Some (UNALLOCATED_OK, h')"
  shows "un_input_functions h' = Some m" "mi_ImageCount m = (0, 1)"
    "un_morphed_image_size h' = u64 (un_block_size h' * length (un_free_block_map h'))"
proof -
  obtain h1 h2 where m: "mi_ImageCount m = (0, 1)"
    and h1: "UnallocatedMorph_header (h\<lparr>un_input_functions := Some m\<rparr>) m = Some (UNALLOCATED_OK, h1)"
    and h2: "UnallocatedMorph_blocks h1 m = Some (UNALLOCATED_OK, h2)"
    and h': "h' = h2\<lparr>un_morphed_image_size := u64 (un_block_size h2 * length (un_free_block_map h2))\<rparr>"
    using assms
    by (auto simp: UnallocatedMorph_def unallocated_codes Let_def
        split: prod.splits if_splits option.splits)
  show "mi_ImageCount m = (0, 1)" by (rule m)
  show "un_morphed_image_size h' = u64 (un_block_size h' * length (un_free_block_map h'))"
    by (simp add: h')
  have "un_input_functions h1 = Some m"
    using h1 by (auto simp: UnallocatedMorph_header_def split: UnallocatedFsType.splits option.splits if_splits)
  then show "un_input_functions h' = Some m"
    using h2 by (auto simp: h' UnallocatedMorph_blocks_def split: fs_union.splits option.splits if_splits)
qed

lemma provider_single_image:
  assumes "provider_inv p" "mi_ImageCount (provider_funs p) = (0, 1)"
  obtains d where "provider_images p = [d]"
proof -
  have "length (provider_images p) = 1" using xin.in_count_law [OF assms(1)] assms(2) by simp
  then show ?thesis using that by (auto simp: length_Suc_conv)
qed

section \<open>A small volume\<close>

text \<open>An HFS+ volume of five blocks of 512 bytes: block 3 is the allocation file, block 4 is
  free.\<close>

definition hfs_header_image :: bytes where
  "hfs_header_image = be_bytes 2 0x482B @ be_bytes 2 4 @ replicate 36 0 @ be_bytes 4 512 @
     be_bytes 4 5 @ be_bytes 4 1 @ replicate 60 0 @ be_bytes 8 512 @ be_bytes 4 512 @ be_bytes 4 1 @
     be_bytes 4 3 @ be_bytes 4 1 @ replicate 56 0"

definition hfs_volume :: bytes where
  "hfs_volume = replicate 1024 0 @ hfs_header_image @ replicate 320 0 @
     (0xF0 # replicate 511 0) @ replicate 150 7 @ replicate 362 8"

lemma length_hfs_header_image [simp]: "length hfs_header_image = 192"
  by (simp add: hfs_header_image_def)

lemma length_hfs_volume [simp]: "length hfs_volume = 2560"
  by (simp add: hfs_volume_def)

lemma dec_hfs_header_image:
  "hv_signature (dec_hfs_vh hfs_header_image) = HFS_VH_SIGNATURE"
  "hv_version (dec_hfs_vh hfs_header_image) = HFS_VH_VERSION"
  "hv_block_size (dec_hfs_vh hfs_header_image) = 512"
  "hv_total_blocks (dec_hfs_vh hfs_header_image) = 5"
  "hv_alloc_file_size (dec_hfs_vh hfs_header_image) = 512"
  "used_extends (hv_alloc_file_extends (dec_hfs_vh hfs_header_image)) =
     [\<lparr>he_start_block = 3, he_block_count = 1\<rparr>]"
  by (simp_all add: dec_hfs_vh_def hfs_header_image_def be_at_skip be_at_here be_at_zeros
      HFS_VH_SIGNATURE_def HFS_VH_VERSION_def used_extends_def upt_conv_Cons)

lemma hfs_volume_provider:
  "provider_inv (mem_state [hfs_volume], [hfs_volume])"
  "provider_images (mem_state [hfs_volume], [hfs_volume]) = [hfs_volume]"
  by (simp_all add: mem_provider_inv)

lemma hfs_volume_alloc: "hfs_extend_data hfs_volume 512 \<lparr>he_start_block = 3, he_block_count = 1\<rparr> =
    0xF0 # replicate 511 0"
  by (simp add: hfs_extend_data_def hfs_block_def hfs_volume_def segment_append_right
      segment_def upt_conv_Cons)

lemma hfs_volume_pieces:
  "segment 2048 4 hfs_volume = [7, 7, 7, 7]" "segment 2248 2 hfs_volume = [8, 8]"
proof -
  have r: "replicate 4 (7 :: u8) = [7, 7, 7, 7]" "replicate 2 (8 :: u8) = [8, 8]"
    by (simp_all add: numeral_eq_Suc)
  show "segment 2048 4 hfs_volume = [7, 7, 7, 7]"
    by (simp add: hfs_volume_def segment_append_right segment_append_left) (simp add: segment_def r)
  show "segment 2248 2 hfs_volume = [8, 8]"
    by (simp add: hfs_volume_def segment_append_right) (simp add: segment_def r)
qed

lemma hfs_volume_free:
  "filter (hfs_block_free (0xF0 # replicate 511 0)) [0..<5] = [4]"
  by (simp add: hfs_block_free_def upt_conv_Cons bit_simps)

lemma UnallocatedMorph_volume:
  obtains h where
    "UnallocatedMorph (UnallocatedCreateHandle False)
       (provider_funs (mem_state [hfs_volume], [hfs_volume])) = Some (UNALLOCATED_OK, h)"
    "un_block_size h = 512" "un_free_block_map h = [2048]"
proof -
  let ?p = "(mem_state [hfs_volume], [hfs_volume])"
  note p = hfs_volume_provider
  let ?vh = "dec_hfs_vh hfs_header_image"
  let ?h = "\<lparr>hh_hfs_vh = Some ?vh, hh_alloc_file = None, hh_debug = False\<rparr>"
  let ?alloc = "0xF0 # replicate 511 0 :: bytes"
  have seg: "segment 1024 192 hfs_volume = hfs_header_image"
    by (simp add: hfs_volume_def segment_append_right segment_append_left segment_all)
  have hdr: "ReadHfsHeader (provider_funs ?p) False = Some (UNALLOCATED_OK, ?h)"
    using xin.ReadHfsHeader_image [OF p, of False]
    by (simp add: seg dec_hfs_header_image HFS_VH_OFFSET_def sizeof_HfsVH_def Let_def)
  have alloc: "ReadHfsAllocFile ?h (provider_funs ?p) =
      Some (UNALLOCATED_OK, ?h\<lparr>hh_alloc_file := Some ?alloc\<rparr>)"
    using xin.ReadHfsAllocFile_ok [OF p, of ?h ?vh]
    by (simp add: dec_hfs_header_image extends_inside_def hfs_volume_alloc [simplified])
  have blocks: "BuildHfsBlockMap (?h\<lparr>hh_alloc_file := Some ?alloc\<rparr>) =
      Some (UNALLOCATED_OK, [2048], 512, ?h)"
    using BuildHfsBlockMap_ok [of "?h\<lparr>hh_alloc_file := Some ?alloc\<rparr>" ?vh ?alloc]
    by (simp add: dec_hfs_header_image hfs_volume_free u32_small)
  have count: "mi_ImageCount (provider_funs ?p) = (0, 1)"
    using xin.in_count_law [OF p(1)] by simp
  obtain h where "UnallocatedMorph (UnallocatedCreateHandle False) (provider_funs ?p) = Some (UNALLOCATED_OK, h)"
    "un_block_size h = 512 \<and> un_free_block_map h = [2048]"
    by (simp add: UnallocatedMorph_def count UnallocatedMorph_header_def
        UnallocatedCreateHandle_def hdr UnallocatedMorph_blocks_def alloc [simplified] blocks [simplified])
  then show ?thesis using that by blast
qed

text \<open>C27: when the morphing has succeeded and the free blocks lie inside the image, the
  morphed image has the size of the free blocks, and a read that starts at a block boundary
  returns the free blocks one behind the other.\<close>

theorem unallocated_read_blocks:
  assumes "provider_inv p" "provider_images p = [d]"
    and "UnallocatedMorph h (provider_funs p) = Some (UNALLOCATED_OK, h')"
    and "blocks_inside (un_block_size h') (un_free_block_map h') d"
    and "0 < n" "n < 4294967296"
    and "off + n \<le> length (unallocated_contents (un_block_size h') (un_free_block_map h') d)"
    and "off mod un_block_size h' = 0"
  shows "UnallocatedSize h' =
      (UNALLOCATED_OK, length (unallocated_contents (un_block_size h') (un_free_block_map h') d)) \<and>
    UnallocatedRead h' off n =
      Some (rd_ok (segment off n (unallocated_contents (un_block_size h') (un_free_block_map h') d)))"
proof -
  let ?bs = "un_block_size h'" and ?map = "un_free_block_map h'"
  let ?blk = "off div ?bs"
  note su = UnallocatedMorph_succeeds [OF assms(3)]
  have bs: "0 < ?bs" "?bs * length ?map < 2 ^ 63" using assms(4) by (auto simp: blocks_inside_def)
  have sz: "un_morphed_image_size h' = ?bs * length ?map" using su(3) bs(2) by (simp add: u64_small)
  have len: "length (unallocated_contents ?bs ?map d) = ?bs * length ?map"
    using length_unallocated_contents [OF assms(4)] by (simp add: mult.commute)
  have off: "?blk * ?bs = off" using assms(8) by auto
  have "?blk * ?bs < length ?map * ?bs" using assms(5,7) len off by (simp add: mult.commute)
  then have blk: "?blk < length ?map" by simp
  note in_d = blocks_insideD [OF assms(4) blk]
  have "UnallocatedRead h' off n = Some (rd_ok (segment (?map ! ?blk) (min n ?bs) d @
      segment 0 (n - min n ?bs) (unallocated_contents ?bs (drop (Suc ?blk) ?map) d)))"
    using xin.UnallocatedRead_ok [OF assms(1,2) su(1) sz assms(4-6), of off] assms(7,8) in_d len sz by simp
  also have "segment (?map ! ?blk) (min n ?bs) d @
      segment 0 (n - min n ?bs) (unallocated_contents ?bs (drop (Suc ?blk) ?map) d) =
    segment off n (unallocated_contents ?bs ?map d)"
  proof -
    let ?parts = "map (\<lambda>a. segment a ?bs d) ?map"
    have pl: "length x = ?bs" if "x \<in> set ?parts" for x
      using that assms(4) by (auto simp: blocks_inside_def)
    have "segment off n (concat ?parts) = segment 0 n (concat (drop ?blk ?parts))"
      using segment_concat_blocks [OF pl, of ?parts ?blk 0 n] off by simp
    also have "\<dots> = segment 0 (min n ?bs) (?parts ! ?blk) @ segment 0 (n - ?bs) (concat (drop (Suc ?blk) ?parts))"
      using segment_concat_first [of ?blk ?parts 0 n] blk bs(1) in_d by simp
    also have "segment 0 (min n ?bs) (?parts ! ?blk) = segment (?map ! ?blk) (min n ?bs) d"
      using blk by (simp add: segment_segment)
    finally show ?thesis by (simp add: unallocated_contents_def drop_map min_def)
  qed
  finally show ?thesis using len sz by (simp add: UnallocatedSize_def)
qed

lemma unallocated_read_blocks_witness:
  "\<exists>h. UnallocatedMorph (UnallocatedCreateHandle False)
       (provider_funs (mem_state [hfs_volume], [hfs_volume])) = Some (UNALLOCATED_OK, h) \<and>
     UnallocatedRead h 0 4 = Some (rd_ok [7, 7, 7, 7])"
proof -
  obtain h where h: "UnallocatedMorph (UnallocatedCreateHandle False)
       (provider_funs (mem_state [hfs_volume], [hfs_volume])) = Some (UNALLOCATED_OK, h)"
    "un_block_size h = 512" "un_free_block_map h = [2048]"
    by (rule UnallocatedMorph_volume)
  have "segment 0 4 (unallocated_contents 512 [2048] hfs_volume) = [7, 7, 7, 7]"
    by (simp add: unallocated_contents_def segment_segment hfs_volume_pieces)
  then show ?thesis
    using unallocated_read_blocks [OF hfs_volume_provider h(1), of 4 0] h
    by (simp add: blocks_inside_def unallocated_contents_def)
qed

text \<open>A read inside one free block that starts \<open>bo\<close> bytes behind the start of the
  block returns the bytes \<open>2 * bo\<close> behind the start: the offset is added twice.\<close>

theorem unallocated_read_shifted:
  assumes "provider_inv p" "provider_images p = [d]"
    and "UnallocatedMorph h (provider_funs p) = Some (UNALLOCATED_OK, h')"
    and "blocks_inside (un_block_size h') (un_free_block_map h') d"
    and "b < length (un_free_block_map h')" "0 < n" "n < 4294967296" "bo + n \<le> un_block_size h'"
    and "un_free_block_map h' ! b + 2 * bo + n \<le> length d"
  shows "UnallocatedRead h' (b * un_block_size h' + bo) n =
    Some (rd_ok (segment (un_free_block_map h' ! b + 2 * bo) n d))"
proof -
  let ?bs = "un_block_size h'" and ?map = "un_free_block_map h'"
  note su = UnallocatedMorph_succeeds [OF assms(3)]
  have bs: "0 < ?bs" "?bs * length ?map < 2 ^ 63" using assms(4) by (auto simp: blocks_inside_def)
  have sz: "un_morphed_image_size h' = ?bs * length ?map" using su(3) bs(2) by (simp add: u64_small)
  have bo: "bo < ?bs" using assms(6,8) by linarith
  have dm: "(b * ?bs + bo) div ?bs = b" "(b * ?bs + bo) mod ?bs = bo" using bo by simp_all
  have "Suc b * ?bs \<le> length ?map * ?bs" using assms(5) by (intro mult_le_mono1) simp
  then have r: "b * ?bs + bo + n \<le> un_morphed_image_size h'"
    using assms(8) sz by (simp add: mult.commute)
  have "min n (?bs - bo) = n" using assms(8) by simp
  then show ?thesis
    using xin.UnallocatedRead_ok [OF assms(1,2) su(1) sz assms(4,6,7) r] assms(9) unfolding dm by simp
qed

lemma unallocated_read_shifted_witness:
  "\<exists>h. UnallocatedMorph (UnallocatedCreateHandle False)
       (provider_funs (mem_state [hfs_volume], [hfs_volume])) = Some (UNALLOCATED_OK, h) \<and>
     UnallocatedRead h 100 2 = Some (rd_ok [8, 8])"
proof -
  obtain h where h: "UnallocatedMorph (UnallocatedCreateHandle False)
       (provider_funs (mem_state [hfs_volume], [hfs_volume])) = Some (UNALLOCATED_OK, h)"
    "un_block_size h = 512" "un_free_block_map h = [2048]"
    by (rule UnallocatedMorph_volume)
  show ?thesis
    using unallocated_read_shifted [OF hfs_volume_provider h(1), of 0 2 100] h
    by (simp add: blocks_inside_def hfs_volume_pieces)
qed

end
