(* ===== verification/InputLoop.thy ===== *)
theory InputLoop
  imports XmountInput
begin

text \<open>
  The \<open>do ... while\<close> loop that the \<open>Read\<close> functions of the input libraries raw, vdi
  and qcow share word for word: an inner function reads up to the end of one piece, block or
  cluster and reports how much it has read; the loop goes on with the rest. The counter is a
  \<open>uint32_t\<close>. The contract \<open>piece_reader\<close> of the inner function is enough for the
  contract \<open>image_reader\<close> of the whole library.
\<close>

section \<open>Disks made of blocks\<close>

text \<open>A disk is a row of blocks of one size, cut at the size of the disk; a piece that does
  not leave its block is a piece of the block.\<close>

definition block_disk :: "nat \<Rightarrow> bytes list \<Rightarrow> bytes" where
  "block_disk disk_size blocks = take disk_size (concat blocks)"

lemma length_block_disk:
  assumes "\<forall>b \<in> set blocks. length b = bs" "disk_size \<le> length blocks * bs"
  shows "length (block_disk disk_size blocks) = disk_size"
  using assms length_concat_blocks [of blocks bs] by (simp add: block_disk_def)

lemma segment_block_disk:
  assumes all: "\<forall>b \<in> set blocks. length b = bs" and i: "i < length blocks"
    and k: "o' + k \<le> bs" "i * bs + o' + k \<le> disk_size"
  shows "segment (i * bs + o') k (block_disk disk_size blocks) = segment o' k (blocks ! i)"
proof -
  have "segment (i * bs + o') k (block_disk disk_size blocks) = segment (i * bs + o') k (concat blocks)"
    using k(2) by (simp add: block_disk_def segment_def drop_take min_def)
  also have "\<dots> = segment o' k (concat (drop i blocks))"
    using all by (intro segment_concat_blocks) auto
  also have "drop i blocks = blocks ! i # drop (Suc i) blocks"
    using i by (simp add: Cons_nth_drop_Suc)
  finally show ?thesis using k(1) all i by (simp add: segment_append_left)
qed

section \<open>The loop\<close>

text \<open>The inner function returns a code and the bytes stored; the loop returns the same.\<close>

type_synonym read0_fun = "nat \<Rightarrow> nat \<Rightarrow> (int \<times> bytes) option"

partial_function (option) input_read_loop :: "read0_fun \<Rightarrow> nat \<Rightarrow> nat \<Rightarrow> bytes \<Rightarrow> (int \<times> bytes) option" where
  "input_read_loop read0 seek remaining buf =
     (case read0 seek remaining of
        None \<Rightarrow> None
      | Some (ret, b) \<Rightarrow>
          if ret \<noteq> 0 then Some (ret, buf)
          else let rest = sub32 remaining (length b) in
            if rest = 0 then Some (0, buf @ b)
            else input_read_loop read0 (u64 (seek + length b)) rest (buf @ b))"

text \<open>The function around the loop: the check of the bounds, with the library's error code,
  and the conversion of the count to 32 bits.\<close>

definition input_read :: "int \<Rightarrow> nat \<Rightarrow> read0_fun \<Rightarrow> nat \<Rightarrow> nat \<Rightarrow> read_res option" where
  "input_read beyond_code total_size read0 seek count =
     (if u64 (seek + count) > total_size then Some (rd_err beyond_code)
      else case input_read_loop read0 seek (u32 count) [] of
        None \<Rightarrow> None
      | Some (ret, buf) \<Rightarrow>
          if ret \<noteq> 0 then Some (rd_err ret)
          else Some \<lparr>rr_ret = 0, rr_buf = buf, rr_read = count, rr_errno = 0\<rparr>)"

locale piece_reader =
  fixes pr_inv :: "'h \<Rightarrow> bool"
    and pr_contents :: "'h \<Rightarrow> bytes"
    and pr_read0 :: "'h \<Rightarrow> read0_fun"
  assumes pr_bound_law: "pr_inv h \<Longrightarrow> length (pr_contents h) < 2 ^ 63"
    and pr_read0_law: "pr_inv h \<Longrightarrow> 0 < n \<Longrightarrow> n < 4294967296 \<Longrightarrow> off + n \<le> length (pr_contents h) \<Longrightarrow>
      \<exists>k. 0 < k \<and> k \<le> n \<and> pr_read0 h off n = Some (0, segment off k (pr_contents h))"
begin

lemma input_read_loop_ok:
  assumes "pr_inv h"
  shows "0 < n \<Longrightarrow> n < 4294967296 \<Longrightarrow> off + n \<le> length (pr_contents h) \<Longrightarrow>
    input_read_loop (pr_read0 h) off n buf = Some (0, buf @ segment off n (pr_contents h))"
proof (induction n arbitrary: off buf rule: less_induct)
  case (less n)
  obtain k where k: "0 < k" "k \<le> n" "pr_read0 h off n = Some (0, segment off k (pr_contents h))"
    using pr_read0_law [OF assms less.prems] by blast
  have len: "length (segment off k (pr_contents h)) = k" using k(2) less.prems(3) by simp
  have s: "sub32 n k = n - k" using k(2) less.prems(2) by (simp add: sub32_small)
  show ?case
  proof (cases "n = k")
    case True
    then show ?thesis using k(3) len s by (subst input_read_loop.simps) simp
  next
    case False
    have u: "u64 (off + k) = off + k"
      using less.prems(3) k(2) pr_bound_law [OF assms] by (intro u64_small) simp
    have "input_read_loop (pr_read0 h) off n buf =
        input_read_loop (pr_read0 h) (off + k) (n - k) (buf @ segment off k (pr_contents h))"
      using k len s u False
      by (subst input_read_loop.simps) (simp del: length_segment add: Let_def)
    also have "\<dots> = Some (0, (buf @ segment off k (pr_contents h)) @ segment (off + k) (n - k) (pr_contents h))"
      using k False less.prems by (intro less.IH) auto
    finally show ?thesis using k(2) by (simp add: segment_join)
  qed
qed

lemma input_read_ok:
  assumes "pr_inv h" "0 < n" "n < 4294967296" "off + n \<le> length (pr_contents h)"
  shows "input_read c (length (pr_contents h)) (pr_read0 h) off n =
    Some (rd_ok (segment off n (pr_contents h)))"
proof -
  have "u64 (off + n) = off + n"
    using assms(4) pr_bound_law [OF assms(1)] by (intro u64_small) simp
  then show ?thesis
    using assms input_read_loop_ok [OF assms, of "[]"]
    by (simp add: input_read_def u32_small rd_ok_def)
qed

lemma input_read_beyond:
  assumes "pr_inv h" "length (pr_contents h) < off + n" "off + n < 2 ^ 64"
  shows "input_read c (length (pr_contents h)) (pr_read0 h) off n = Some (rd_err c)"
  using assms by (simp add: input_read_def u64_small)

end

end
