(* ===== verification/InputRaw.thy ===== *)
theory InputRaw
  imports InputLoop
begin

text \<open>
  The input library \<open>libxmount_input_raw\<close>: an image split over one or more files. The files
  are opened read-only; a file system is a function from names to contents. A position of a
  \<open>FILE*\<close> carries nothing from one read to the next, since every read seeks first, so a
  read leaves the handle as it is.
\<close>

section \<open>Operations\<close>

definition RAW_OK :: int where "RAW_OK = 0"
definition RAW_MEMALLOC_FAILED :: int where "RAW_MEMALLOC_FAILED = 1"
definition RAW_FILE_OPEN_FAILED :: int where "RAW_FILE_OPEN_FAILED = 2"
definition RAW_CANNOT_READ_DATA :: int where "RAW_CANNOT_READ_DATA = 3"
definition RAW_CANNOT_CLOSE_FILE :: int where "RAW_CANNOT_CLOSE_FILE = 4"
definition RAW_CANNOT_SEEK :: int where "RAW_CANNOT_SEEK = 5"
definition RAW_READ_BEYOND_END_OF_IMAGE :: int where "RAW_READ_BEYOND_END_OF_IMAGE = 6"

lemmas raw_codes = RAW_OK_def RAW_MEMALLOC_FAILED_def RAW_FILE_OPEN_FAILED_def
  RAW_CANNOT_READ_DATA_def RAW_CANNOT_CLOSE_FILE_def RAW_CANNOT_SEEK_def RAW_READ_BEYOND_END_OF_IMAGE_def

record raw_piece =
  rp_filename :: string
  rp_file_size :: nat
  rp_file :: cfile

text \<open>The pointer \<open>pPieceArr\<close>: \<open>NULL\<close>, an array, or an array that has been freed.
  \<open>RawClose\<close> frees it and leaves the pointer as it is.\<close>

datatype raw_arr = RawNull | RawPieces "raw_piece list" | RawDangling

record raw_handle =
  rh_piece_arr :: raw_arr
  rh_total_size :: nat

definition RawCreateHandle :: raw_handle where
  "RawCreateHandle = \<lparr>rh_piece_arr = RawNull, rh_total_size = 0\<rparr>"

text \<open>The search for the piece that holds an offset: the piece and the offset in it.\<close>

fun RawRead0_find :: "raw_piece list \<Rightarrow> nat \<Rightarrow> (raw_piece \<times> nat) option" where
  "RawRead0_find [] seek = None"
| "RawRead0_find (p # ps) seek =
     (if seek < rp_file_size p then Some (p, seek) else RawRead0_find ps (seek - rp_file_size p))"

definition RawRead0 :: "raw_handle \<Rightarrow> nat \<Rightarrow> nat \<Rightarrow> (int \<times> bytes) option" where
  "RawRead0 h seek count =
     (case rh_piece_arr h of
        RawDangling \<Rightarrow> None
      | RawNull \<Rightarrow> Some (RAW_READ_BEYOND_END_OF_IMAGE, [])
      | RawPieces ps \<Rightarrow>
          (case RawRead0_find ps seek of
             None \<Rightarrow> Some (RAW_READ_BEYOND_END_OF_IMAGE, [])
           | Some (p, off) \<Rightarrow>
               (case fseeko_set off (rp_file p) of (s, f) \<Rightarrow>
                  if s \<noteq> 0 then Some (RAW_CANNOT_SEEK, [])
                  else case fread (u32 (min count (rp_file_size p - off))) f of (k, b, f1) \<Rightarrow>
                    if k \<noteq> 1 then Some (RAW_CANNOT_READ_DATA, b) else Some (RAW_OK, b))))"

text \<open>\<open>fopen\<close> with mode \<open>r\<close>.\<close>

definition open_r :: "(string \<Rightarrow> bytes option) \<Rightarrow> string \<Rightarrow> cfile option" where
  "open_r fs name = map_option (\<lambda>d. \<lparr>f_data = d, f_pos = 0, f_limit = 0\<rparr>) (fs name)"

definition RawClose :: "raw_handle \<Rightarrow> (int \<times> raw_handle) option" where
  "RawClose h =
     (case rh_piece_arr h of
        RawNull \<Rightarrow> Some (RAW_OK, h)
      | RawPieces ps \<Rightarrow> Some (RAW_OK, h\<lparr>rh_piece_arr := RawDangling\<rparr>)
      | RawDangling \<Rightarrow> None)"

text \<open>The loop over the file names; \<open>ps\<close> are the pieces opened so far.\<close>

fun RawOpen_loop ::
  "(string \<Rightarrow> bytes option) \<Rightarrow> string list \<Rightarrow> raw_piece list \<Rightarrow> raw_handle \<Rightarrow> (int \<times> raw_handle) option" where
  "RawOpen_loop fs [] ps h = Some (RAW_OK, h\<lparr>rh_piece_arr := RawPieces ps\<rparr>)"
| "RawOpen_loop fs (name # names) ps h =
     (case open_r fs name of
        None \<Rightarrow> map_option (\<lambda>(_, h1). (RAW_FILE_OPEN_FAILED, h1))
                  (RawClose (h\<lparr>rh_piece_arr := RawPieces ps\<rparr>))
      | Some f \<Rightarrow>
          let f1 = snd (fseeko_end f) in
          RawOpen_loop fs names
            (ps @ [\<lparr>rp_filename = name, rp_file_size = ftello f1, rp_file = f1\<rparr>])
            (h\<lparr>rh_total_size := u64 (rh_total_size h + ftello f1)\<rparr>))"

definition RawOpen ::
  "(string \<Rightarrow> bytes option) \<Rightarrow> raw_handle \<Rightarrow> string list \<Rightarrow> (int \<times> raw_handle) option" where
  "RawOpen fs h names = RawOpen_loop fs names [] (h\<lparr>rh_total_size := 0\<rparr>)"

definition RawSize :: "raw_handle \<Rightarrow> int \<times> nat" where
  "RawSize h = (RAW_OK, rh_total_size h)"

definition RawRead :: "raw_handle \<Rightarrow> nat \<Rightarrow> nat \<Rightarrow> read_res option" where
  "RawRead h seek count = input_read RAW_READ_BEYOND_END_OF_IMAGE (rh_total_size h) (RawRead0 h) seek count"

definition RawGetErrorMessage :: "int \<Rightarrow> string" where
  "RawGetErrorMessage err_num =
     (if err_num = RAW_MEMALLOC_FAILED then ''Unable to allocate memory''
      else if err_num = RAW_FILE_OPEN_FAILED then ''Unable to open raw file(s)''
      else if err_num = RAW_CANNOT_READ_DATA then ''Unable to read raw data''
      else if err_num = RAW_CANNOT_CLOSE_FILE then ''Unable to close raw file(s)''
      else if err_num = RAW_CANNOT_SEEK then ''Unable to seek into raw data''
      else if err_num = RAW_READ_BEYOND_END_OF_IMAGE
        then ''Unable to read raw data: Attempt to read past EOF''
      else ''Unknown error'')"

section \<open>An opened image is the concatenation of its files\<close>

definition piece_data :: "raw_piece \<Rightarrow> bytes" where
  "piece_data p = f_data (rp_file p)"

definition rh_pieces :: "raw_handle \<Rightarrow> raw_piece list" where
  "rh_pieces h = (case rh_piece_arr h of RawPieces ps \<Rightarrow> ps | _ \<Rightarrow> [])"

definition raw_contents :: "raw_handle \<Rightarrow> bytes" where
  "raw_contents h = concat (map piece_data (rh_pieces h))"

definition pieces_ok :: "raw_piece list \<Rightarrow> bool" where
  "pieces_ok ps \<longleftrightarrow> (\<forall>p \<in> set ps. rp_file_size p = length (piece_data p))"

definition raw_inv :: "raw_handle \<Rightarrow> bool" where
  "raw_inv h \<longleftrightarrow> rh_piece_arr h = RawPieces (rh_pieces h) \<and> pieces_ok (rh_pieces h) \<and>
     rh_total_size h = length (raw_contents h) \<and> length (raw_contents h) < 2 ^ 63"

lemma RawRead0_find_ok:
  "pieces_ok ps \<Longrightarrow> seek < length (concat (map piece_data ps)) \<Longrightarrow>
    \<exists>p off. RawRead0_find ps seek = Some (p, off) \<and> off < length (piece_data p) \<and>
      rp_file_size p = length (piece_data p) \<and> off \<le> seek \<and>
      (\<forall>k. off + k \<le> length (piece_data p) \<longrightarrow>
         segment off k (piece_data p) = segment seek k (concat (map piece_data ps)))"
proof (induction ps arbitrary: seek)
  case (Cons p ps)
  let ?n = "length (piece_data p)"
  have sz: "rp_file_size p = ?n" and ok: "pieces_ok ps" using Cons.prems(1) by (auto simp: pieces_ok_def)
  show ?case
  proof (cases "seek < ?n")
    case True
    then show ?thesis using sz by (auto simp: segment_append_left)
  next
    case False
    then have "seek - ?n < length (concat (map piece_data ps))" using Cons.prems(2) by simp
    from Cons.IH [OF ok this] obtain q off where
      q: "RawRead0_find ps (seek - ?n) = Some (q, off)" "off < length (piece_data q)"
      "rp_file_size q = length (piece_data q)" "off \<le> seek - ?n"
      and seg: "\<forall>k. off + k \<le> length (piece_data q) \<longrightarrow> segment off k (piece_data q) =
        segment (seek - ?n) k (concat (map piece_data ps))" by blast
    have "RawRead0_find (p # ps) seek = Some (q, off)" "off \<le> seek"
      using q(1,4) False sz by simp_all
    moreover have "segment off k (piece_data q) = segment seek k (concat (map piece_data (p # ps)))"
      if "off + k \<le> length (piece_data q)" for k
      using seg that False by (simp add: segment_append_right)
    ultimately show ?thesis using q(2,3) by blast
  qed
qed simp

interpretation raw_pieces: piece_reader raw_inv raw_contents RawRead0
proof unfold_locales
  fix h :: raw_handle and n off :: nat
  assume inv: "raw_inv h"
  show "length (raw_contents h) < 2 ^ 63" using inv by (simp add: raw_inv_def)
  assume n: "0 < n" "n < 4294967296" "off + n \<le> length (raw_contents h)"
  then have off: "off < length (concat (map piece_data (rh_pieces h)))"
    by (simp add: raw_contents_def)
  have "pieces_ok (rh_pieces h)" using inv by (simp add: raw_inv_def)
  from RawRead0_find_ok [OF this off] obtain p o' where
    p: "RawRead0_find (rh_pieces h) off = Some (p, o')" "o' < length (piece_data p)"
    "rp_file_size p = length (piece_data p)" "o' \<le> off"
    and seg: "\<forall>k. o' + k \<le> length (piece_data p) \<longrightarrow>
      segment o' k (piece_data p) = segment off k (raw_contents h)"
    unfolding raw_contents_def by blast
  define k where "k = min n (length (piece_data p) - o')"
  have k: "0 < k" "k \<le> n" "u32 k = k" "o' + k \<le> length (piece_data p)"
    using n p(2) by (auto simp: k_def u32_small)
  have "o' < 2 ^ 63" using p(4) off inv by (simp add: raw_inv_def raw_contents_def)
  then have "fseeko_set o' (rp_file p) = (0, (rp_file p)\<lparr>f_pos := o'\<rparr>)"
    by (simp add: fseeko_set_def)
  moreover have "fread k ((rp_file p)\<lparr>f_pos := o'\<rparr>) =
      (1, segment o' k (piece_data p), (rp_file p)\<lparr>f_pos := o' + k\<rparr>)"
    using k by (simp add: fread_ok piece_data_def)
  ultimately have "RawRead0 h off n = Some (0, segment o' k (piece_data p))"
    using k(3) inv [unfolded raw_inv_def, THEN conjunct1]
    by (simp add: RawRead0_def p(1,3) k_def [symmetric] raw_codes)
  then have "RawRead0 h off n = Some (0, segment off k (raw_contents h))" using seg k(4) by simp
  then show "\<exists>k. 0 < k \<and> k \<le> n \<and> RawRead0 h off n = Some (0, segment off k (raw_contents h))"
    using k by blast
qed

interpretation raw: image_reader raw_inv raw_contents RawSize RawRead
proof unfold_locales
  fix h :: raw_handle and n off :: nat
  assume inv: "raw_inv h"
  then have sz: "rh_total_size h = length (raw_contents h)" by (simp add: raw_inv_def)
  then show "RawSize h = (0, length (raw_contents h))" by (simp add: RawSize_def raw_codes)
  show "length (raw_contents h) < 2 ^ 63" by (rule raw_pieces.pr_bound_law [OF inv])
  assume "0 < n" "n < 4294967296" "off + n \<le> length (raw_contents h)"
  then show "RawRead h off n = Some (rd_ok (segment off n (raw_contents h)))"
    unfolding RawRead_def sz by (rule raw_pieces.input_read_ok [OF inv])
qed

lemma RawOpen_loop_ok:
  assumes "\<forall>name \<in> set names. fs name \<noteq> None"
  shows "pieces_ok ps \<Longrightarrow> rh_total_size h = length (concat (map piece_data ps)) \<Longrightarrow>
    length (concat (map piece_data ps)) + length (concat (map (the \<circ> fs) names)) < 2 ^ 63 \<Longrightarrow>
    \<exists>h'. RawOpen_loop fs names ps h = Some (RAW_OK, h') \<and> raw_inv h' \<and>
      raw_contents h' = concat (map piece_data ps) @ concat (map (the \<circ> fs) names)"
  using assms
proof (induction names arbitrary: h ps)
  case Nil
  then show ?case by (simp add: raw_inv_def rh_pieces_def raw_contents_def)
next
  case (Cons name names)
  obtain d where d: "fs name = Some d" using Cons.prems(4) by auto
  let ?f = "\<lparr>f_data = d, f_pos = length d, f_limit = 0\<rparr>"
  let ?ps = "ps @ [\<lparr>rp_filename = name, rp_file_size = length d, rp_file = ?f\<rparr>]"
  have c: "concat (map piece_data ?ps) = concat (map piece_data ps) @ d" by (simp add: piece_data_def)
  have l: "length (concat (map piece_data ps)) + length d < 2 ^ 63" using Cons.prems(3) d by simp
  have "RawOpen_loop fs (name # names) ps h =
      RawOpen_loop fs names ?ps (h\<lparr>rh_total_size := u64 (rh_total_size h + length d)\<rparr>)"
    by (simp add: d open_r_def fseeko_end_def ftello_def)
  moreover have "pieces_ok ?ps" using Cons.prems(1) by (simp add: pieces_ok_def piece_data_def)
  moreover have "u64 (rh_total_size h + length d) = length (concat (map piece_data ?ps))"
    using l Cons.prems(2) unfolding c by (simp add: u64_small)
  ultimately show ?case
    using Cons.IH [of ?ps "h\<lparr>rh_total_size := u64 (rh_total_size h + length d)\<rparr>"] Cons.prems(3,4) c d
    by (auto simp: add.assoc)
qed

lemma RawOpen_loop_missing:
  "\<exists>name \<in> set names. fs name = None \<Longrightarrow>
    \<exists>h'. RawOpen_loop fs names ps h = Some (RAW_FILE_OPEN_FAILED, h') \<and> rh_piece_arr h' = RawDangling"
  by (induction names arbitrary: h ps) (auto simp: open_r_def RawClose_def Let_def split: option.split)

section \<open>Properties\<close>

text \<open>C22: opening an image split over files that all exist gives their concatenation, in size
  and in every read inside it.\<close>

theorem raw_open_concatenates:
  assumes "\<forall>name \<in> set names. fs name \<noteq> None" "length (concat (map (the \<circ> fs) names)) < 2 ^ 63"
  shows "\<exists>h. RawOpen fs RawCreateHandle names = Some (RAW_OK, h) \<and>
    RawSize h = (RAW_OK, length (concat (map (the \<circ> fs) names))) \<and>
    (\<forall>off n. 0 < n \<and> n < 2 ^ 32 \<and> off + n \<le> length (concat (map (the \<circ> fs) names)) \<longrightarrow>
      RawRead h off n = Some (rd_ok (segment off n (concat (map (the \<circ> fs) names)))))"
proof -
  have "pieces_ok []" by (simp add: pieces_ok_def)
  then obtain h where h: "RawOpen fs RawCreateHandle names = Some (RAW_OK, h)" "raw_inv h"
    "raw_contents h = concat (map (the \<circ> fs) names)"
    using RawOpen_loop_ok [OF assms(1), of "[]" "RawCreateHandle\<lparr>rh_total_size := 0\<rparr>"] assms(2)
    by (auto simp: RawOpen_def)
  show ?thesis
    using raw.rd_size_law [OF h(2)] raw.rd_read_law [OF h(2)] h
    by (intro exI [of _ h]) (simp add: raw_codes)
qed

lemma raw_open_concatenates_witness:
  "\<exists>h. RawOpen [''a'' \<mapsto> [1, 2], ''b'' \<mapsto> [3]] RawCreateHandle [''a'', ''b''] = Some (RAW_OK, h) \<and>
     RawRead h 1 2 = Some (rd_ok [2, 3])"
  using raw_open_concatenates [of "[''a'', ''b'']" "[''a'' \<mapsto> [1, 2], ''b'' \<mapsto> [3]]"]
  by (auto simp: segment_def)

text \<open>Opening an image one of whose files is missing fails and frees the array of pieces,
  but keeps the pointer to it: the \<open>Close\<close> that xmount's \<open>FreeResources\<close> calls next
  frees it a second time.\<close>

theorem raw_failed_open_double_free:
  assumes "\<exists>name \<in> set names. fs name = None"
  shows "\<exists>h. RawOpen fs RawCreateHandle names = Some (RAW_FILE_OPEN_FAILED, h) \<and> RawClose h = None"
  using RawOpen_loop_missing [OF assms, of "[]" "RawCreateHandle\<lparr>rh_total_size := 0\<rparr>"]
  by (auto simp: RawOpen_def RawClose_def)

lemma raw_failed_open_double_free_witness:
  "\<exists>h. RawOpen [''a'' \<mapsto> [1, 2]] RawCreateHandle [''a'', ''b''] = Some (RAW_FILE_OPEN_FAILED, h) \<and>
     RawClose h = None"
  by (rule raw_failed_open_double_free) simp

end
