(* ===== verification/InputQcow.thy ===== *)
theory InputQcow
  imports InputRaw
begin

text \<open>
  The input library \<open>libxmount_input_qcow\<close>: QEMU copy-on-write images of version 2 and
  3, through their two levels of tables, with compressed clusters. zlib is a parameter:
  \<open>inflate data room\<close> is what \<open>inflateInit2\<close> with a window of -12 and \<open>inflate\<close> with
  \<open>Z_FINISH\<close> make of \<open>data\<close> in a buffer of \<open>room\<close> bytes, \<open>None\<close> their error codes.
  A shift by the width of its operand or more is undefined in C and ends the model's
  functions with \<open>None\<close>, as does the use of memory that was never written.
\<close>

unbundle bit_operations_syntax

section \<open>Data\<close>

definition QCOW_OK :: int where "QCOW_OK = 0"
definition QCOW_MEMALLOC_FAILED :: int where "QCOW_MEMALLOC_FAILED = 1"
definition QCOW_FILE_OPEN_FAILED :: int where "QCOW_FILE_OPEN_FAILED = 2"
definition QCOW_CANNOT_READ_DATA :: int where "QCOW_CANNOT_READ_DATA = 3"
definition QCOW_CANNOT_CLOSE_FILE :: int where "QCOW_CANNOT_CLOSE_FILE = 4"
definition QCOW_BAD_MAGIC_HEADER :: int where "QCOW_BAD_MAGIC_HEADER = 6"
definition QCOW_BAD_VERSION :: int where "QCOW_BAD_VERSION = 7"
definition QCOW_UNSUPPORTED_ENCRYPTION :: int where "QCOW_UNSUPPORTED_ENCRYPTION = 8"
definition QCOW_CANNOT_SEEK :: int where "QCOW_CANNOT_SEEK = 9"
definition QCOW_UNABLE_TO_DECOMPRESS_CLUSTER :: int where "QCOW_UNABLE_TO_DECOMPRESS_CLUSTER = 10"
definition QCOW_READ_BEYOND_END_OF_IMAGE :: int where "QCOW_READ_BEYOND_END_OF_IMAGE = 11"
definition QCOW_BAD_L1_OFFSET :: int where "QCOW_BAD_L1_OFFSET = 12"

definition sizeof_t_QcowHeader :: nat where "sizeof_t_QcowHeader = 72"

record t_qcow_header =
  tq_Magic :: bytes
  tq_Version :: nat
  tq_BackingFileOffset :: nat
  tq_BackingFileSize :: nat
  tq_ClusterBits :: nat
  tq_Size :: nat
  tq_CryptMethod :: nat
  tq_L1Size :: nat
  tq_L1TableOffset :: nat
  tq_RefCountTableOffset :: nat
  tq_RefCountTableClusters :: nat
  tq_NbSnapshots :: nat
  tq_SnapshotsOffset :: nat

text \<open>The header after its fields have been brought to host order. The 32-bit
  \<open>BackingFileSize\<close> goes through \<open>be64toh\<close>: its bytes end in the upper half of the
  result, and the assignment keeps the lower one.\<close>

definition dec_t_qcow_header :: "bytes \<Rightarrow> t_qcow_header" where
  "dec_t_qcow_header b =
     \<lparr>tq_Magic = segment 0 4 b, tq_Version = be_at 4 4 b, tq_BackingFileOffset = be_at 8 8 b,
      tq_BackingFileSize = u32 (be_val (segment 16 4 b @ replicate 4 0)),
      tq_ClusterBits = be_at 20 4 b, tq_Size = be_at 24 8 b, tq_CryptMethod = be_at 32 4 b,
      tq_L1Size = be_at 36 4 b, tq_L1TableOffset = be_at 40 8 b,
      tq_RefCountTableOffset = be_at 48 8 b, tq_RefCountTableClusters = be_at 56 4 b,
      tq_NbSnapshots = be_at 60 4 b, tq_SnapshotsOffset = be_at 64 8 b\<rparr>"

text \<open>The table holds the values of its big-endian entries.\<close>

record t_qcow =
  qc_filename :: "string option"
  qc_file :: "cfile option"
  qc_header :: t_qcow_header
  qc_l1 :: "nat list option"
  qc_L2Bits :: nat
  qc_L2Size :: nat
  qc_L1Bits :: nat
  qc_ClusterSize :: nat

section \<open>Operations\<close>

definition QcowClusterOffsetFromAddress :: "t_qcow \<Rightarrow> nat \<Rightarrow> nat" where
  "QcowClusterOffsetFromAddress q a = a AND (qc_ClusterSize q - 1)"

definition QcowL2OffsetFromAddress :: "t_qcow \<Rightarrow> nat \<Rightarrow> nat" where
  "QcowL2OffsetFromAddress q a = drop_bit (tq_ClusterBits (qc_header q)) a AND (qc_L2Size q - 1)"

definition QcowL1OffsetFromAddress :: "t_qcow \<Rightarrow> nat \<Rightarrow> nat" where
  "QcowL1OffsetFromAddress q a = drop_bit (tq_ClusterBits (qc_header q) + qc_L2Bits q) a"

definition QcowUtilFileSeek :: "nat \<Rightarrow> cfile \<Rightarrow> int \<times> cfile" where
  "QcowUtilFileSeek offset f =
     (case fseeko_set offset f of (s, f1) \<Rightarrow> ((if s \<noteq> 0 then QCOW_CANNOT_SEEK else QCOW_OK), f1))"

text \<open>Items of one byte: a short read is filled with zeros. The files of the model have no
  read errors (\<open>ferror\<close>).\<close>

definition QcowUtilFileRead :: "nat \<Rightarrow> cfile \<Rightarrow> int \<times> bytes \<times> cfile" where
  "QcowUtilFileRead n f =
     (QCOW_OK, pad n (segment (f_pos f) n (f_data f)),
      f\<lparr>f_pos := max (f_pos f) (min (f_pos f + n) (length (f_data f)))\<rparr>)"

definition QcowParseHeader :: "t_qcow \<Rightarrow> cfile \<Rightarrow> int \<times> t_qcow" where
  "QcowParseHeader q f =
     (case QcowUtilFileRead sizeof_t_QcowHeader f of (ret, b, f1) \<Rightarrow>
        let h = dec_t_qcow_header b; q1 = q\<lparr>qc_file := Some f1, qc_header := h\<rparr> in
        if ret \<noteq> QCOW_OK then (ret, q1)
        else if tq_Magic h \<noteq> [0x51, 0x46, 0x49, 0xFB] then (QCOW_BAD_MAGIC_HEADER, q1)
        else if tq_Version h \<noteq> 2 \<and> tq_Version h \<noteq> 3 then (QCOW_BAD_VERSION, q1)
        else if tq_CryptMethod h \<noteq> 0 then (QCOW_UNSUPPORTED_ENCRYPTION, q1)
        else (QCOW_OK, q1))"

definition qcow_address_mask :: nat where "qcow_address_mask = 0x00FFFFFFFFFFFE00"

text \<open>The entry of a cluster: a code, whether the cluster is compressed, and
  \<open>ClusterBaseAddress\<close>.\<close>

definition QcowRead0_lookup :: "nat list \<Rightarrow> cfile \<Rightarrow> nat \<Rightarrow> nat \<Rightarrow> int \<times> bool \<times> nat" where
  "QcowRead0_lookup l1 f L1Offset L2Offset =
     (let L2TableAddress = l1 ! L1Offset AND qcow_address_mask in
      if L2TableAddress = 0 then (QCOW_OK, False, 0)
      else case QcowUtilFileSeek (L2TableAddress + L2Offset * 8) f of (s, f1) \<Rightarrow>
        if s \<noteq> QCOW_OK then (s, False, 0)
        else case QcowUtilFileRead 8 f1 of (ret, b, f2) \<Rightarrow>
          if ret \<noteq> QCOW_OK then (ret, False, 0)
          else
            let base = be_val b in
            if bit base 62 then (QCOW_OK, True, base)
            else if bit base 0 then (QCOW_OK, False, 0)
            else (QCOW_OK, False, base AND qcow_address_mask))"

type_synonym zlib_inflate = "bytes \<Rightarrow> nat \<Rightarrow> bytes option"

definition QcowRead0_compressed ::
  "zlib_inflate \<Rightarrow> t_qcow \<Rightarrow> cfile \<Rightarrow> nat \<Rightarrow> nat \<Rightarrow> nat \<Rightarrow> (int \<times> bytes) option" where
  "QcowRead0_compressed inflate q f base ClusterOffset n =
     (let cb = tq_ClusterBits (qc_header q) in
      if cb < 8 \<or> 70 < cb then None
      else
        let AddressBits = 70 - cb;
            CompressedClusterSize = 512 * (1 + (drop_bit AddressBits base AND (2 ^ (cb - 8) - 1))) in
        case QcowUtilFileSeek (base AND (2 ^ AddressBits - 1)) f of (s, f1) \<Rightarrow>
          if s \<noteq> QCOW_OK then Some (s, [])
          else case QcowUtilFileRead CompressedClusterSize f1 of (ret, b, f2) \<Rightarrow>
            if ret \<noteq> QCOW_OK then Some (ret, [])
            else case inflate (take (u32 CompressedClusterSize) b) (u32 (qc_ClusterSize q)) of
                None \<Rightarrow> Some (QCOW_UNABLE_TO_DECOMPRESS_CLUSTER, [])
              | Some out \<Rightarrow>
                  if ClusterOffset + n \<le> length out
                  then Some (QCOW_OK, segment ClusterOffset n out) else None)"

definition QcowRead0 :: "zlib_inflate \<Rightarrow> t_qcow \<Rightarrow> nat \<Rightarrow> nat \<Rightarrow> (int \<times> bytes) option" where
  "QcowRead0 inflate q seek count =
     (if 64 \<le> tq_ClusterBits (qc_header q) + qc_L2Bits q then None
      else
        let L1Offset = QcowL1OffsetFromAddress q seek;
            L2Offset = QcowL2OffsetFromAddress q seek;
            ClusterOffset = QcowClusterOffsetFromAddress q seek;
            n = u32 (min count (qc_ClusterSize q - ClusterOffset)) in
        if L1Offset \<ge> tq_L1Size (qc_header q) then Some (QCOW_BAD_L1_OFFSET, [])
        else case (qc_l1 q, qc_file q) of
          (Some l1, Some f) \<Rightarrow>
            if L1Offset \<ge> length l1 then None
            else (case QcowRead0_lookup l1 f L1Offset L2Offset of (ret, compressed, base) \<Rightarrow>
              if ret \<noteq> QCOW_OK then Some (ret, [])
              else if base = 0 then Some (QCOW_OK, replicate n 0)
              else if compressed then QcowRead0_compressed inflate q f base ClusterOffset n
              else (case QcowUtilFileSeek (base + ClusterOffset) f of (s, f1) \<Rightarrow>
                if s \<noteq> QCOW_OK then Some (s, [])
                else case QcowUtilFileRead n f1 of (ret, b, f2) \<Rightarrow> Some (ret, b)))
        | _ \<Rightarrow> None)"

definition QcowCreateHandle :: t_qcow where
  "QcowCreateHandle =
     \<lparr>qc_filename = None, qc_file = None, qc_header = dec_t_qcow_header (replicate 72 0),
      qc_l1 = None, qc_L2Bits = 0, qc_L2Size = 0, qc_L1Bits = 0, qc_ClusterSize = 0\<rparr>"

definition QcowClose :: "t_qcow \<Rightarrow> int \<times> t_qcow" where
  "QcowClose q = (QCOW_OK, q\<lparr>qc_filename := None, qc_l1 := None, qc_file := None\<rparr>)"

definition qcow_l1_entries :: "nat \<Rightarrow> bytes \<Rightarrow> nat list" where
  "qcow_l1_entries k b = map (\<lambda>i. be_at (8 * i) 8 b) [0..<k]"

text \<open>The geometry and the first level table of a parsed image.\<close>

definition QcowOpen_tables :: "t_qcow \<Rightarrow> (int \<times> t_qcow) option" where
  "QcowOpen_tables q =
     (let h = qc_header q; cb = tq_ClusterBits h; l2 = sub32 cb 3 in
      if 64 \<le> l2 \<or> 64 \<le> cb then None
      else
        let q1 = q\<lparr>qc_L2Bits := l2, qc_L2Size := 2 ^ l2, qc_L1Bits := sub32 (sub32 64 l2) cb,
                   qc_ClusterSize := 2 ^ cb\<rparr> in
        case QcowUtilFileSeek (tq_L1TableOffset h) (the (qc_file q)) of (s, f1) \<Rightarrow>
          if s \<noteq> QCOW_OK then Some (s, q1\<lparr>qc_file := Some f1, qc_l1 := Some []\<rparr>)
          else case QcowUtilFileRead (tq_L1Size h * 8) f1 of (ret, b, f2) \<Rightarrow>
            Some (ret, q1\<lparr>qc_file := Some f2, qc_l1 := Some (qcow_l1_entries (tq_L1Size h) b)\<rparr>))"

definition QcowOpen ::
  "(string \<Rightarrow> bytes option) \<Rightarrow> t_qcow \<Rightarrow> string list \<Rightarrow> (int \<times> t_qcow) option" where
  "QcowOpen fs q names =
     (case names of
        [] \<Rightarrow> Some (QCOW_FILE_OPEN_FAILED, q)
      | name # _ \<Rightarrow>
          (case open_r fs name of
             None \<Rightarrow> Some (QCOW_FILE_OPEN_FAILED,
                           snd (QcowClose (q\<lparr>qc_filename := Some name, qc_file := None\<rparr>)))
           | Some f \<Rightarrow>
               (case QcowParseHeader (q\<lparr>qc_filename := Some name\<rparr>) f of (ret, q1) \<Rightarrow>
                  if ret \<noteq> QCOW_OK then Some (ret, q1) else QcowOpen_tables q1)))"

definition QcowSize :: "t_qcow \<Rightarrow> int \<times> nat" where
  "QcowSize q = (QCOW_OK, tq_Size (qc_header q))"

definition QcowRead :: "zlib_inflate \<Rightarrow> t_qcow \<Rightarrow> nat \<Rightarrow> nat \<Rightarrow> read_res option" where
  "QcowRead inflate q seek count =
     input_read QCOW_READ_BEYOND_END_OF_IMAGE (tq_Size (qc_header q)) (QcowRead0 inflate q) seek count"

definition QcowGetErrorMessage :: "int \<Rightarrow> string" where
  "QcowGetErrorMessage ErrNum =
     (if ErrNum = QCOW_MEMALLOC_FAILED then ''Unable to allocate memory''
      else if ErrNum = QCOW_FILE_OPEN_FAILED then ''Unable to open qcow file''
      else if ErrNum = QCOW_CANNOT_READ_DATA then ''Unable to read qcow data''
      else if ErrNum = QCOW_CANNOT_CLOSE_FILE then ''Unable to close qcow file''
      else if ErrNum = QCOW_BAD_MAGIC_HEADER then ''Unable to verify magic header of qcow file''
      else if ErrNum = QCOW_BAD_L1_OFFSET
        then ''Got an L1 Index that is bigger than the L1 table size''
      else if ErrNum = QCOW_BAD_VERSION then ''Unsupported qcow file version. Only v2 is supported.''
      else if ErrNum = QCOW_CANNOT_SEEK then ''Unable to seek into qcow data''
      else if ErrNum = QCOW_UNABLE_TO_DECOMPRESS_CLUSTER
        then ''Unable to init decompresison or decompress a cluster.''
      else if ErrNum = QCOW_READ_BEYOND_END_OF_IMAGE
        then ''Unable to read qcow data: Attempt to read past EOF''
      else if ErrNum = QCOW_UNSUPPORTED_ENCRYPTION then ''Encrpyted qcow format is not supported''
      else ''Unknown error'')"

section \<open>Addresses\<close>

lemma and_mask_nat: "(a :: nat) AND (2 ^ n - 1) = a mod 2 ^ n"
  using take_bit_eq_mask [of n a] by (simp add: mask_eq_exp_minus_1 take_bit_eq_mod)

lemma and_address_less: "a AND qcow_address_mask < 2 ^ 56"
proof -
  have "take_bit 56 qcow_address_mask = qcow_address_mask"
    by (simp add: qcow_address_mask_def take_bit_eq_mod)
  then have "a AND qcow_address_mask = take_bit 56 (a AND qcow_address_mask)"
    by (metis take_bit_and and.assoc and.commute take_bit_eq_mask)
  then show ?thesis by (metis take_bit_nat_less_exp)
qed

section \<open>The contents of an image\<close>

text \<open>The entry of cluster \<open>i\<close> in the two tables, 0 where there is no second one; the
  address and size of a compressed cluster's data; and the cluster itself.\<close>

definition qcow_entry :: "nat \<Rightarrow> nat list \<Rightarrow> bytes \<Rightarrow> nat \<Rightarrow> nat" where
  "qcow_entry cb l1 d i =
     (let table = l1 ! (i div 2 ^ (cb - 3)) AND qcow_address_mask in
      if table = 0 then 0 else be_val (pad 8 (segment (table + i mod 2 ^ (cb - 3) * 8) 8 d)))"

definition qcow_stream :: "nat \<Rightarrow> bytes \<Rightarrow> nat \<Rightarrow> bytes" where
  "qcow_stream cb d e =
     (let n = 512 * (1 + e div 2 ^ (70 - cb) mod 2 ^ (cb - 8)) in
      pad n (segment (e mod 2 ^ (70 - cb)) n d))"

definition qcow_cluster :: "zlib_inflate \<Rightarrow> nat \<Rightarrow> nat list \<Rightarrow> bytes \<Rightarrow> nat \<Rightarrow> bytes" where
  "qcow_cluster inflate cb l1 d i =
     (let e = qcow_entry cb l1 d i in
      if bit e 62 then (case inflate (qcow_stream cb d e) (2 ^ cb) of Some out \<Rightarrow> out | None \<Rightarrow> [])
      else if bit e 0 \<or> e AND qcow_address_mask = 0 then replicate (2 ^ cb) 0
      else pad (2 ^ cb) (segment (e AND qcow_address_mask) (2 ^ cb) d))"

definition qcow_data_of :: "zlib_inflate \<Rightarrow> t_qcow_header \<Rightarrow> nat list \<Rightarrow> bytes \<Rightarrow> bytes" where
  "qcow_data_of inflate h l1 d = block_disk (tq_Size h)
     (map (qcow_cluster inflate (tq_ClusterBits h) l1 d) [0..<ceil_div (tq_Size h) (2 ^ tq_ClusterBits h)])"

text \<open>Clusters of 256 bytes to 1 GiB, a first table that covers the disk, and compressed
  clusters that inflate to a whole cluster.\<close>

definition qcow_ok :: "zlib_inflate \<Rightarrow> t_qcow_header \<Rightarrow> nat list \<Rightarrow> bytes \<Rightarrow> bool" where
  "qcow_ok inflate h l1 d \<longleftrightarrow> (let cb = tq_ClusterBits h in
     8 \<le> cb \<and> cb \<le> 30 \<and> length l1 = tq_L1Size h \<and> tq_Size h < 2 ^ 63 \<and>
     tq_Size h \<le> tq_L1Size h * 2 ^ (cb - 3) * 2 ^ cb \<and>
     (\<forall>i < ceil_div (tq_Size h) (2 ^ cb). bit (qcow_entry cb l1 d i) 62 \<longrightarrow>
        (\<exists>out. inflate (qcow_stream cb d (qcow_entry cb l1 d i)) (2 ^ cb) = Some out \<and>
               length out = 2 ^ cb)))"

definition qcow_file_data :: "t_qcow \<Rightarrow> bytes" where
  "qcow_file_data q = (case qc_file q of Some f \<Rightarrow> f_data f | None \<Rightarrow> [])"

definition qcow_contents :: "zlib_inflate \<times> t_qcow \<Rightarrow> bytes" where
  "qcow_contents = (\<lambda>(inflate, q). qcow_data_of inflate (qc_header q) (the (qc_l1 q)) (qcow_file_data q))"

definition qcow_inv :: "zlib_inflate \<times> t_qcow \<Rightarrow> bool" where
  "qcow_inv = (\<lambda>(inflate, q). qc_file q \<noteq> None \<and> qc_l1 q \<noteq> None \<and>
     qc_L2Bits q = tq_ClusterBits (qc_header q) - 3 \<and> qc_L2Size q = 2 ^ qc_L2Bits q \<and>
     qc_ClusterSize q = 2 ^ tq_ClusterBits (qc_header q) \<and>
     qcow_ok inflate (qc_header q) (the (qc_l1 q)) (qcow_file_data q))"

lemma segment_pad:
  assumes "o' + k \<le> n"
  shows "segment o' k (pad n (segment p n d)) = pad k (segment (p + o') k d)"
proof (rule nth_equalityI)
  show "length (segment o' k (pad n (segment p n d))) = length (pad k (segment (p + o') k d))"
    using assms by simp
  fix j assume "j < length (segment o' k (pad n (segment p n d)))"
  then have j: "j < k" using assms by simp
  then show "segment o' k (pad n (segment p n d)) ! j = pad k (segment (p + o') k d) ! j"
    using assms by (auto simp: nth_segment pad_def nth_append min_def add.assoc)
qed

lemma length_qcow_cluster:
  assumes "qcow_ok inflate h l1 d" "i < ceil_div (tq_Size h) (2 ^ tq_ClusterBits h)"
  shows "length (qcow_cluster inflate (tq_ClusterBits h) l1 d i) = 2 ^ tq_ClusterBits h"
  using assms by (fastforce simp: qcow_ok_def qcow_cluster_def Let_def)

lemma length_qcow_data_of:
  assumes "qcow_ok inflate h l1 d"
  shows "length (qcow_data_of inflate h l1 d) = tq_Size h"
  using ceil_div_bounds [of "2 ^ tq_ClusterBits h" "tq_Size h"] length_qcow_cluster [OF assms]
  by (auto simp: qcow_data_of_def intro!: length_block_disk)

section \<open>Reading\<close>

lemma QcowUtilFileSeek_ok: "p < 2 ^ 63 \<Longrightarrow> QcowUtilFileSeek p f = (QCOW_OK, f\<lparr>f_pos := p\<rparr>)"
  by (simp add: QcowUtilFileSeek_def fseeko_set_def)

lemma QcowUtilFileRead_at:
  obtains f' where "QcowUtilFileRead n (f\<lparr>f_pos := p\<rparr>) = (QCOW_OK, pad n (segment p n (f_data f)), f')"
  by (simp add: QcowUtilFileRead_def)

lemma QcowRead0_lookup_entry:
  assumes "cb \<le> 30"
  shows "QcowRead0_lookup l1 f (i div 2 ^ (cb - 3)) (i mod 2 ^ (cb - 3)) =
    (let e = qcow_entry cb l1 (f_data f) i in
     (QCOW_OK, bit e 62, if bit e 62 then e else if bit e 0 then 0 else e AND qcow_address_mask))"
proof -
  let ?table = "l1 ! (i div 2 ^ (cb - 3)) AND qcow_address_mask"
  let ?p = "?table + i mod 2 ^ (cb - 3) * 8"
  have "i mod 2 ^ (cb - 3) < 2 ^ (cb - 3)" by simp
  also have "(2 :: nat) ^ (cb - 3) \<le> 2 ^ 27" using assms by (intro power_increasing) auto
  finally have p: "?p < 2 ^ 63" using and_address_less [of "l1 ! (i div 2 ^ (cb - 3))"] by simp
  show ?thesis
  proof (cases "?table = 0")
    case True
    then show ?thesis by (simp add: QcowRead0_lookup_def qcow_entry_def Let_def)
  next
    case False
    obtain f' where r: "QcowUtilFileRead 8 (f\<lparr>f_pos := ?p\<rparr>) =
        (QCOW_OK, pad 8 (segment ?p 8 (f_data f)), f')"
      by (rule QcowUtilFileRead_at)
    have e: "qcow_entry cb l1 (f_data f) i = be_val (pad 8 (segment ?p 8 (f_data f)))"
      using False by (simp add: qcow_entry_def)
    show ?thesis
      using False
      by (simp add: QcowRead0_lookup_def QcowUtilFileSeek_ok [OF p] r e Let_def del: bit_0)
  qed
qed

lemma compressed_size_small:
  assumes "8 \<le> cb" "cb \<le> 30"
  shows "512 * (1 + e mod 2 ^ (cb - 8)) < (4294967296 :: nat)"
proof -
  have "e mod 2 ^ (cb - 8) < (2 :: nat) ^ (cb - 8)" by simp
  also have "(2 :: nat) ^ (cb - 8) \<le> 2 ^ 22" using assms by (intro power_increasing) auto
  finally show ?thesis by simp
qed

lemma QcowRead0_compressed_ok:
  assumes cb: "8 \<le> tq_ClusterBits (qc_header q)" "tq_ClusterBits (qc_header q) \<le> 30"
    and size: "qc_ClusterSize q = 2 ^ tq_ClusterBits (qc_header q)"
    and out: "inflate (qcow_stream (tq_ClusterBits (qc_header q)) (f_data f) e)
      (2 ^ tq_ClusterBits (qc_header q)) = Some out" "o' + n \<le> length out"
  shows "QcowRead0_compressed inflate q f e o' n = Some (QCOW_OK, segment o' n out)"
proof -
  let ?cb = "tq_ClusterBits (qc_header q)"
  let ?a = "e mod 2 ^ (70 - ?cb)" and ?n = "512 * (1 + e div 2 ^ (70 - ?cb) mod 2 ^ (?cb - 8))"
  have "?a < 2 ^ (70 - ?cb)" by simp
  also have "(2 :: nat) ^ (70 - ?cb) \<le> 2 ^ 62" using cb(1) by (intro power_increasing) auto
  finally have a: "?a < 2 ^ 63" by simp
  have n: "?n < 4294967296" by (rule compressed_size_small [OF cb])
  have "(2 :: nat) ^ ?cb \<le> 2 ^ 30" using cb(2) by (intro power_increasing) auto
  then have c: "u32 (2 ^ ?cb) = 2 ^ ?cb" by (intro u32_small) simp
  obtain f' where r: "QcowUtilFileRead ?n (f\<lparr>f_pos := ?a\<rparr>) = (QCOW_OK, pad ?n (segment ?a ?n (f_data f)), f')"
    by (rule QcowUtilFileRead_at)
  have t: "take (u32 ?n) (pad ?n (segment ?a ?n (f_data f))) = qcow_stream ?cb (f_data f) e"
    unfolding u32_small [OF n] qcow_stream_def Let_def by simp
  have "\<not> (?cb < 8 \<or> 70 < ?cb)" using cb by simp
  then show ?thesis
    unfolding QcowRead0_compressed_def Let_def and_mask_nat drop_bit_eq_div QcowUtilFileSeek_ok [OF a]
      prod.case r t size c
    using out by simp
qed

lemma segment_qcow_data:
  assumes ok: "qcow_ok inflate h l1 d" and i: "i < ceil_div (tq_Size h) (2 ^ tq_ClusterBits h)"
    and k: "o' + k \<le> 2 ^ tq_ClusterBits h" "i * 2 ^ tq_ClusterBits h + o' + k \<le> tq_Size h"
  shows "segment (i * 2 ^ tq_ClusterBits h + o') k (qcow_data_of inflate h l1 d) =
    segment o' k (qcow_cluster inflate (tq_ClusterBits h) l1 d i)"
proof -
  let ?blocks = "map (qcow_cluster inflate (tq_ClusterBits h) l1 d)
    [0..<ceil_div (tq_Size h) (2 ^ tq_ClusterBits h)]"
  have "\<forall>b \<in> set ?blocks. length b = 2 ^ tq_ClusterBits h" using length_qcow_cluster [OF ok] by auto
  from segment_block_disk [OF this, of i o' k "tq_Size h"] show ?thesis
    using i k by (simp add: qcow_data_of_def)
qed

text \<open>The three kinds of clusters.\<close>

lemma QcowRead0_cluster:
  assumes inv: "qcow_inv (inflate, q)" and f: "qc_file q = Some f" and l1: "qc_l1 q = Some l1"
    and i: "i < ceil_div (tq_Size (qc_header q)) (2 ^ tq_ClusterBits (qc_header q))"
    and k: "0 < n" "o' < 2 ^ tq_ClusterBits (qc_header q)"
    and l: "i div 2 ^ (tq_ClusterBits (qc_header q) - 3) < length l1"
  shows "QcowRead0 inflate q (i * 2 ^ tq_ClusterBits (qc_header q) + o') n =
    Some (QCOW_OK, segment o' (min n (2 ^ tq_ClusterBits (qc_header q) - o'))
      (qcow_cluster inflate (tq_ClusterBits (qc_header q)) l1 (f_data f) i))"
proof -
  let ?h = "qc_header q"
  let ?cb = "tq_ClusterBits ?h"
  let ?off = "i * 2 ^ ?cb + o'" and ?k = "min n (2 ^ ?cb - o')"
  have q: "qc_L2Bits q = ?cb - 3" "qc_L2Size q = 2 ^ (?cb - 3)" "qc_ClusterSize q = 2 ^ ?cb"
    and ok: "qcow_ok inflate ?h l1 (f_data f)"
    using inv f l1 by (auto simp: qcow_inv_def qcow_file_data_def)
  have cb: "8 \<le> ?cb" "?cb \<le> 30" "length l1 = tq_L1Size ?h" using ok by (simp_all add: qcow_ok_def Let_def)
  have "(2 :: nat) ^ ?cb \<le> 2 ^ 30" using cb(2) by (intro power_increasing) auto
  then have kk: "u32 ?k = ?k" "?k < 2 ^ 62" by (auto intro!: u32_small simp: min_def)
  have b: "\<not> 64 \<le> ?cb + (?cb - 3)" using cb by simp
  have o1: "QcowL1OffsetFromAddress q ?off = i div 2 ^ (?cb - 3)"
    using k(2) by (simp add: QcowL1OffsetFromAddress_def q drop_bit_eq_div power_add div_mult2_eq)
  have o2: "QcowL2OffsetFromAddress q ?off = i mod 2 ^ (?cb - 3)"
    unfolding QcowL2OffsetFromAddress_def q and_mask_nat using k(2) by (simp add: drop_bit_eq_div)
  have o3: "QcowClusterOffsetFromAddress q ?off = o'"
    unfolding QcowClusterOffsetFromAddress_def q and_mask_nat using k(2) by simp
  define e where "e = qcow_entry ?cb l1 (f_data f) i"
  define base where "base = (if bit e 62 then e else if bit e 0 then 0 else e AND qcow_address_mask)"
  have lk: "QcowRead0_lookup l1 f (i div 2 ^ (?cb - 3)) (i mod 2 ^ (?cb - 3)) = (QCOW_OK, bit e 62, base)"
    unfolding QcowRead0_lookup_entry [OF cb(2)] Let_def e_def base_def ..
  have nl: "\<not> tq_L1Size ?h \<le> i div 2 ^ (?cb - 3)" "\<not> length l1 \<le> i div 2 ^ (?cb - 3)"
    using l cb(3) by simp_all
  have eq: "QcowRead0 inflate q ?off n =
      (if base = 0 then Some (QCOW_OK, replicate ?k 0)
       else if bit e 62 then QcowRead0_compressed inflate q f base o' ?k
       else (case QcowUtilFileSeek (base + o') f of (s, f1) \<Rightarrow>
          if s \<noteq> QCOW_OK then Some (s, [])
          else case QcowUtilFileRead ?k f1 of (ret, b, f2) \<Rightarrow> Some (ret, b)))"
    unfolding QcowRead0_def o1 o2 o3 q Let_def lk f l1 option.case prod.case kk(1)
    by (simp only: b nl if_False if_True simp_thms cong: if_cong)
  show ?thesis
  proof (cases "bit e 62")
    case True
    have "e \<noteq> 0"
    proof
      assume "e = 0"
      with True show False by simp
    qed
    then have base: "base = e" "base \<noteq> 0" using True by (simp_all add: base_def)
    obtain out where out: "inflate (qcow_stream ?cb (f_data f) e) (2 ^ ?cb) = Some out" "length out = 2 ^ ?cb"
      using ok i True unfolding qcow_ok_def e_def Let_def by blast
    have "QcowRead0_compressed inflate q f e o' ?k = Some (QCOW_OK, segment o' ?k out)"
      using k(2) out(2)
      by (intro QcowRead0_compressed_ok [where f = f and e = e and q = q and inflate = inflate, OF cb(1,2) q(3) out(1)]) simp
    moreover have "qcow_cluster inflate ?cb l1 (f_data f) i = out"
      using True out(1) by (simp add: qcow_cluster_def e_def Let_def)
    ultimately show ?thesis using True base by (simp only: eq if_False if_True simp_thms)
  next
    case False
    show ?thesis
    proof (cases "base = 0")
      case True
      then have "qcow_cluster inflate ?cb l1 (f_data f) i = replicate (2 ^ ?cb) 0"
        using False by (simp add: qcow_cluster_def e_def [symmetric] base_def Let_def split: if_splits del: bit_0)
      then show ?thesis using True k(2) by (simp add: eq segment_def)
    next
      case nz: False
      then have base: "base = e AND qcow_address_mask" "\<not> bit e 0"
        using False by (auto simp: base_def simp del: bit_0 split: if_splits)
      have p: "base + o' < 2 ^ 63"
        using base(1) and_address_less [of e] k(2) \<open>2 ^ ?cb \<le> 2 ^ 30\<close> by simp
      obtain f' where r: "QcowUtilFileRead ?k (f\<lparr>f_pos := base + o'\<rparr>) =
          (QCOW_OK, pad ?k (segment (base + o') ?k (f_data f)), f')"
        by (rule QcowUtilFileRead_at)
      have "qcow_cluster inflate ?cb l1 (f_data f) i = pad (2 ^ ?cb) (segment base (2 ^ ?cb) (f_data f))"
        using False nz base(2) by (simp add: qcow_cluster_def e_def [symmetric] base(1) Let_def del: bit_0)
      moreover have "segment o' ?k (pad (2 ^ ?cb) (segment base (2 ^ ?cb) (f_data f))) =
          pad ?k (segment (base + o') ?k (f_data f))"
        using k(2) by (intro segment_pad) simp
      ultimately show ?thesis
        using False nz by (simp only: eq QcowUtilFileSeek_ok [OF p] prod.case r if_False if_True simp_thms)
    qed
  qed
qed

lemma qcow_L1_inside:
  assumes "qcow_ok inflate h l1 d" "off < tq_Size h"
  shows "off div 2 ^ tq_ClusterBits h div 2 ^ (tq_ClusterBits h - 3) < length l1"
proof -
  have "off < length l1 * 2 ^ (tq_ClusterBits h - 3) * 2 ^ tq_ClusterBits h"
    using assms by (auto simp: qcow_ok_def Let_def)
  then show ?thesis by (simp add: less_mult_imp_div_less)
qed

interpretation qcow_pieces: piece_reader qcow_inv qcow_contents "\<lambda>(inflate, q). QcowRead0 inflate q"
proof unfold_locales
  fix p :: "zlib_inflate \<times> t_qcow" and n off :: nat
  obtain inflate q where p: "p = (inflate, q)" by (cases p)
  let ?h = "qc_header q"
  let ?cs = "2 ^ tq_ClusterBits ?h :: nat"
  assume inv: "qcow_inv p"
  then obtain f l1 where f: "qc_file q = Some f" and l1: "qc_l1 q = Some l1"
    by (auto simp: qcow_inv_def p)
  have ok: "qcow_ok inflate ?h l1 (f_data f)" using inv by (simp add: qcow_inv_def qcow_file_data_def p f l1)
  have c: "qcow_contents p = qcow_data_of inflate ?h l1 (f_data f)"
    by (simp add: qcow_contents_def qcow_file_data_def p f l1)
  note len = length_qcow_data_of [OF ok, folded c]
  show "length (qcow_contents p) < 2 ^ 63" using ok len by (simp add: qcow_ok_def Let_def)
  assume n: "0 < n" "n < 4294967296" "off + n \<le> length (qcow_contents p)"
  define i o' where "i = off div ?cs" and "o' = off mod ?cs"
  have io: "i * ?cs + o' = off" "o' < ?cs" unfolding i_def o'_def by (rule div_mult_mod_eq) simp
  have lt: "off < tq_Size ?h" using n(1,3) len by simp
  then have i: "i < ceil_div (tq_Size ?h) ?cs" unfolding i_def by (intro ceil_div_block) simp_all
  define k where "k = min n (?cs - o')"
  have k: "0 < k" "k \<le> n" "o' + k \<le> ?cs" using n(1) io(2) by (auto simp: k_def)
  have kd: "i * ?cs + o' + k \<le> tq_Size ?h" using n(3) len io(1) k(2) by simp
  have "QcowRead0 inflate q (i * ?cs + o') n =
      Some (QCOW_OK, segment o' k (qcow_cluster inflate (tq_ClusterBits ?h) l1 (f_data f) i))"
    using qcow_L1_inside [OF ok lt, folded i_def] unfolding k_def
    by (rule QcowRead0_cluster [OF inv [unfolded p] f l1 i n(1) io(2)])
  then have "QcowRead0 inflate q off n = Some (0, segment off k (qcow_contents p))"
    using segment_qcow_data [OF ok i k(3) kd] by (simp add: io(1) c QCOW_OK_def)
  then show "\<exists>k. 0 < k \<and> k \<le> n \<and>
      (case p of (inflate, q) \<Rightarrow> QcowRead0 inflate q) off n = Some (0, segment off k (qcow_contents p))"
    using k(1,2) by (auto simp: p)
qed

interpretation qcow: image_reader qcow_inv qcow_contents "\<lambda>(inflate, q). QcowSize q"
  "\<lambda>(inflate, q). QcowRead inflate q"
proof unfold_locales
  fix p :: "zlib_inflate \<times> t_qcow" and n off :: nat
  obtain inflate q where p: "p = (inflate, q)" by (cases p)
  assume inv: "qcow_inv p"
  then have sz: "tq_Size (qc_header q) = length (qcow_contents p)"
    by (auto simp: qcow_inv_def qcow_contents_def p length_qcow_data_of)
  show "(case p of (inflate, q) \<Rightarrow> QcowSize q) = (0, length (qcow_contents p))"
    by (simp add: p QcowSize_def QCOW_OK_def sz [unfolded p])
  show "length (qcow_contents p) < 2 ^ 63" by (rule qcow_pieces.pr_bound_law [OF inv])
  assume "0 < n" "n < 4294967296" "off + n \<le> length (qcow_contents p)"
  from qcow_pieces.input_read_ok [OF inv this, of QCOW_READ_BEYOND_END_OF_IMAGE]
  show "(case p of (inflate, q) \<Rightarrow> QcowRead inflate q) off n =
      Some (rd_ok (segment off n (qcow_contents p)))"
    by (simp add: p QcowRead_def sz [unfolded p])
qed

section \<open>Opening\<close>

definition qcow_file_header :: "bytes \<Rightarrow> t_qcow_header" where
  "qcow_file_header d = dec_t_qcow_header (pad sizeof_t_QcowHeader (segment 0 sizeof_t_QcowHeader d))"

definition qcow_file_l1 :: "bytes \<Rightarrow> nat list" where
  "qcow_file_l1 d = (let h = qcow_file_header d; n = tq_L1Size h * 8 in
     qcow_l1_entries (tq_L1Size h) (pad n (segment (tq_L1TableOffset h) n d)))"

text \<open>What \<open>QcowOpen\<close> checks, the bounds of the shifts included.\<close>

definition qcow_file_accepted :: "bytes \<Rightarrow> bool" where
  "qcow_file_accepted d \<longleftrightarrow> (let h = qcow_file_header d in
     tq_Magic h = [0x51, 0x46, 0x49, 0xFB] \<and> (tq_Version h = 2 \<or> tq_Version h = 3) \<and>
     tq_CryptMethod h = 0 \<and> 3 \<le> tq_ClusterBits h \<and> tq_ClusterBits h < 64 \<and>
     tq_L1TableOffset h < 2 ^ 63)"

lemma QcowParseHeader_eq:
  assumes "f_data f = d" "f_pos f = 0"
  obtains f1 where "f_data f1 = d" "QcowParseHeader q f =
    ((if tq_Magic (qcow_file_header d) \<noteq> [0x51, 0x46, 0x49, 0xFB] then QCOW_BAD_MAGIC_HEADER
      else if tq_Version (qcow_file_header d) \<noteq> 2 \<and> tq_Version (qcow_file_header d) \<noteq> 3 then QCOW_BAD_VERSION
      else if tq_CryptMethod (qcow_file_header d) \<noteq> 0 then QCOW_UNSUPPORTED_ENCRYPTION else QCOW_OK),
     q\<lparr>qc_file := Some f1, qc_header := qcow_file_header d\<rparr>)"
proof -
  let ?f1 = "f\<lparr>f_pos := max 0 (min sizeof_t_QcowHeader (length d))\<rparr>"
  have "QcowUtilFileRead sizeof_t_QcowHeader f =
      (QCOW_OK, pad sizeof_t_QcowHeader (segment 0 sizeof_t_QcowHeader d), ?f1)"
    using assms by (simp add: QcowUtilFileRead_def)
  then show ?thesis
    using assms(1) by (intro that [of ?f1])
      (simp_all add: QcowParseHeader_def Let_def qcow_file_header_def [symmetric])
qed

lemma QcowOpen_tables_eq:
  assumes h: "qc_header q = qcow_file_header d" and f: "qc_file q = Some f" "f_data f = d"
  shows "QcowOpen_tables q = Some (QCOW_OK, q') \<Longrightarrow> 3 \<le> tq_ClusterBits (qc_header q) \<and>
      tq_ClusterBits (qc_header q) < 64 \<and> tq_L1TableOffset (qc_header q) < 2 ^ 63"
    and "3 \<le> tq_ClusterBits (qc_header q) \<Longrightarrow> tq_ClusterBits (qc_header q) < 64 \<Longrightarrow>
      tq_L1TableOffset (qc_header q) < 2 ^ 63 \<Longrightarrow>
      \<exists>f2 l1b. f_data f2 = d \<and> QcowOpen_tables q = Some (QCOW_OK,
        q\<lparr>qc_file := Some f2, qc_l1 := Some (qcow_file_l1 d),
          qc_L2Bits := tq_ClusterBits (qc_header q) - 3, qc_L2Size := 2 ^ (tq_ClusterBits (qc_header q) - 3),
          qc_L1Bits := l1b, qc_ClusterSize := 2 ^ tq_ClusterBits (qc_header q)\<rparr>)"
proof -
  let ?cb = "tq_ClusterBits (qc_header q)" and ?o = "tq_L1TableOffset (qc_header q)"
  have l2: "3 \<le> ?cb" if "sub32 ?cb 3 < 64"
  proof (rule ccontr)
    assume "\<not> 3 \<le> ?cb"
    then have "?cb = 0 \<or> ?cb = 1 \<or> ?cb = 2" by arith
    then show False using that by (elim disjE) (simp_all add: sub32_def)
  qed
  assume "QcowOpen_tables q = Some (QCOW_OK, q')"
  then have a: "\<not> (64 \<le> sub32 ?cb 3 \<or> 64 \<le> ?cb)" and
    b: "fst (QcowUtilFileSeek ?o f) = QCOW_OK"
    using f by (auto simp: QcowOpen_tables_def Let_def split: if_split_asm prod.split_asm)
  then have "?o < 2 ^ 63"
    by (auto simp: QcowUtilFileSeek_def fseeko_set_def QCOW_OK_def QCOW_CANNOT_SEEK_def split: if_split_asm)
  then show "3 \<le> ?cb \<and> ?cb < 64 \<and> ?o < 2 ^ 63" using a l2 by simp
next
  let ?cb = "tq_ClusterBits (qc_header q)" and ?o = "tq_L1TableOffset (qc_header q)"
  let ?n = "tq_L1Size (qc_header q) * 8"
  assume c: "3 \<le> ?cb" "?cb < 64" "?o < 2 ^ 63"
  have "sub32 ?cb 3 = ?cb - 3" using c by (intro sub32_small) auto
  moreover have "\<not> (64 \<le> ?cb - 3 \<or> 64 \<le> ?cb)" using c by simp
  moreover let ?f2 = "f\<lparr>f_pos := max ?o (min (?o + ?n) (length d))\<rparr>"
  have "QcowUtilFileRead ?n (f\<lparr>f_pos := ?o\<rparr>) = (QCOW_OK, pad ?n (segment ?o ?n d), ?f2)"
    using f by (simp add: QcowUtilFileRead_def)
  ultimately have "QcowOpen_tables q = Some (QCOW_OK,
      q\<lparr>qc_file := Some ?f2, qc_l1 := Some (qcow_file_l1 d), qc_L2Bits := ?cb - 3,
        qc_L2Size := 2 ^ (?cb - 3), qc_L1Bits := sub32 (sub32 64 (?cb - 3)) ?cb, qc_ClusterSize := 2 ^ ?cb\<rparr>)"
    using f QcowUtilFileSeek_ok [OF c(3), of f]
    by (simp add: QcowOpen_tables_def Let_def qcow_file_l1_def h)
  then show "\<exists>f2 l1b. f_data f2 = d \<and> QcowOpen_tables q = Some (QCOW_OK,
        q\<lparr>qc_file := Some f2, qc_l1 := Some (qcow_file_l1 d), qc_L2Bits := ?cb - 3,
          qc_L2Size := 2 ^ (?cb - 3), qc_L1Bits := l1b, qc_ClusterSize := 2 ^ ?cb\<rparr>)"
    using f(2) by (intro exI [of _ ?f2] exI conjI) simp_all
qed

lemma QcowOpen_checks:
  "(\<exists>q. QcowOpen fs q0 (name # names) = Some (QCOW_OK, q)) \<longleftrightarrow>
   (\<exists>d. fs name = Some d \<and> qcow_file_accepted d)"
  and QcowOpen_accepts: "fs name = Some d \<Longrightarrow> qcow_file_accepted d \<Longrightarrow>
   \<exists>q f. QcowOpen fs q0 (name # names) = Some (QCOW_OK, q) \<and> qc_header q = qcow_file_header d \<and>
     qc_file q = Some f \<and> f_data f = d \<and> qc_l1 q = Some (qcow_file_l1 d) \<and>
     qc_L2Bits q = tq_ClusterBits (qc_header q) - 3 \<and> qc_L2Size q = 2 ^ qc_L2Bits q \<and>
     qc_ClusterSize q = 2 ^ tq_ClusterBits (qc_header q)"
proof -
  have open_d: "(\<exists>q. QcowOpen fs q0 (name # names) = Some (QCOW_OK, q)) \<longleftrightarrow> qcow_file_accepted d"
    "qcow_file_accepted d \<Longrightarrow>
     \<exists>q f. QcowOpen fs q0 (name # names) = Some (QCOW_OK, q) \<and> qc_header q = qcow_file_header d \<and>
       qc_file q = Some f \<and> f_data f = d \<and> qc_l1 q = Some (qcow_file_l1 d) \<and>
       qc_L2Bits q = tq_ClusterBits (qc_header q) - 3 \<and> qc_L2Size q = 2 ^ qc_L2Bits q \<and>
       qc_ClusterSize q = 2 ^ tq_ClusterBits (qc_header q)"
    if d: "fs name = Some d" for d
  proof -
    let ?h = "qcow_file_header d"
    let ?f = "\<lparr>f_data = d, f_pos = 0, f_limit = 0\<rparr>"
    let ?ok = "tq_Magic ?h = [0x51, 0x46, 0x49, 0xFB] \<and> (tq_Version h = 2 \<or> tq_Version h = 3)"
    obtain f1 where f1: "f_data f1 = d" and p: "QcowParseHeader (q0\<lparr>qc_filename := Some name\<rparr>) ?f =
      ((if tq_Magic ?h \<noteq> [0x51, 0x46, 0x49, 0xFB] then QCOW_BAD_MAGIC_HEADER
        else if tq_Version ?h \<noteq> 2 \<and> tq_Version ?h \<noteq> 3 then QCOW_BAD_VERSION
        else if tq_CryptMethod ?h \<noteq> 0 then QCOW_UNSUPPORTED_ENCRYPTION else QCOW_OK),
       q0\<lparr>qc_filename := Some name, qc_file := Some f1, qc_header := ?h\<rparr>)"
      using QcowParseHeader_eq [of ?f d "q0\<lparr>qc_filename := Some name\<rparr>"] by auto
    let ?q = "q0\<lparr>qc_filename := Some name, qc_file := Some f1, qc_header := ?h\<rparr>"
    let ?good = "tq_Magic ?h = [0x51, 0x46, 0x49, 0xFB] \<and> (tq_Version ?h = 2 \<or> tq_Version ?h = 3) \<and>
      tq_CryptMethod ?h = 0"
    have o: "QcowOpen fs q0 (name # names) = QcowOpen_tables ?q" if ?good
      using that p by (elim conjE disjE) (simp_all add: QcowOpen_def open_r_def d)
    have bad: "QcowOpen fs q0 (name # names) \<noteq> Some (QCOW_OK, q)" if "\<not> ?good" for q
      using that p
      by (auto simp: QcowOpen_def open_r_def d QCOW_OK_def QCOW_BAD_MAGIC_HEADER_def
          QCOW_BAD_VERSION_def QCOW_UNSUPPORTED_ENCRYPTION_def)
    note tables = QcowOpen_tables_eq [of ?q d f1, simplified, OF f1]
    show 2: "\<exists>q f. QcowOpen fs q0 (name # names) = Some (QCOW_OK, q) \<and> qc_header q = qcow_file_header d \<and>
       qc_file q = Some f \<and> f_data f = d \<and> qc_l1 q = Some (qcow_file_l1 d) \<and>
       qc_L2Bits q = tq_ClusterBits (qc_header q) - 3 \<and> qc_L2Size q = 2 ^ qc_L2Bits q \<and>
       qc_ClusterSize q = 2 ^ tq_ClusterBits (qc_header q)" if "qcow_file_accepted d"
    proof -
      have g: "?good" "3 \<le> tq_ClusterBits ?h" "tq_ClusterBits ?h < 64" "tq_L1TableOffset ?h < 2 ^ 63"
        using that by (auto simp: qcow_file_accepted_def Let_def)
      from tables(2) g(2-4) show ?thesis unfolding o [OF g(1)] by fastforce
    qed
    show "(\<exists>q. QcowOpen fs q0 (name # names) = Some (QCOW_OK, q)) \<longleftrightarrow> qcow_file_accepted d"
    proof
      assume "\<exists>q. QcowOpen fs q0 (name # names) = Some (QCOW_OK, q)"
      then obtain q where q: "QcowOpen fs q0 (name # names) = Some (QCOW_OK, q)" ..
      with bad have g: ?good by blast
      from tables(1) q show "qcow_file_accepted d" unfolding o [OF g]
        using g by (simp add: qcow_file_accepted_def Let_def)
    next
      assume "qcow_file_accepted d"
      then show "\<exists>q. QcowOpen fs q0 (name # names) = Some (QCOW_OK, q)" using 2 by blast
    qed
  qed
  show "(\<exists>q. QcowOpen fs q0 (name # names) = Some (QCOW_OK, q)) \<longleftrightarrow>
    (\<exists>d. fs name = Some d \<and> qcow_file_accepted d)"
  proof (cases "fs name")
    case None
    then show ?thesis by (simp add: QcowOpen_def open_r_def QCOW_OK_def QCOW_FILE_OPEN_FAILED_def)
  next
    case (Some d)
    then show ?thesis using open_d(1) [OF Some] by simp
  qed
  show "\<exists>q f. QcowOpen fs q0 (name # names) = Some (QCOW_OK, q) \<and> qc_header q = qcow_file_header d \<and>
     qc_file q = Some f \<and> f_data f = d \<and> qc_l1 q = Some (qcow_file_l1 d) \<and>
     qc_L2Bits q = tq_ClusterBits (qc_header q) - 3 \<and> qc_L2Size q = 2 ^ qc_L2Bits q \<and>
     qc_ClusterSize q = 2 ^ tq_ClusterBits (qc_header q)"
    if "fs name = Some d" "qcow_file_accepted d"
    using open_d(2) [OF that] .
qed

section \<open>Properties\<close>

text \<open>\<open>QcowOpen\<close> succeeds exactly on files whose header, filled with zeros when the file
  is shorter, has the magic bytes, version 2 or 3, no encryption, and cluster and table
  positions that C can shift and seek to. The length of the file is not checked.\<close>

theorem qcow_open_checks:
  "(\<exists>q. QcowOpen fs QcowCreateHandle (name # names) = Some (QCOW_OK, q)) \<longleftrightarrow>
   (\<exists>d. fs name = Some d \<and> qcow_file_accepted d)"
  by (rule QcowOpen_checks)

text \<open>C21: an accepted image whose first table covers the disk and whose compressed clusters
  inflate to whole clusters reads as its clusters in the order of the two tables: zeros,
  bytes of the file, or inflated data, cut at the disk size.\<close>

theorem qcow_open_reads:
  assumes "fs name = Some d" "qcow_file_accepted d"
    and "qcow_ok inflate (qcow_file_header d) (qcow_file_l1 d) d"
  shows "\<exists>q. QcowOpen fs QcowCreateHandle [name] = Some (QCOW_OK, q) \<and>
    QcowSize q = (QCOW_OK, tq_Size (qcow_file_header d)) \<and>
    (\<forall>off n. 0 < n \<and> n < 2 ^ 32 \<and> off + n \<le> tq_Size (qcow_file_header d) \<longrightarrow>
      QcowRead inflate q off n =
        Some (rd_ok (segment off n (qcow_data_of inflate (qcow_file_header d) (qcow_file_l1 d) d))))"
proof -
  obtain q f where q: "QcowOpen fs QcowCreateHandle [name] = Some (QCOW_OK, q)"
    "qc_header q = qcow_file_header d" "qc_file q = Some f" "f_data f = d" "qc_l1 q = Some (qcow_file_l1 d)"
    "qc_L2Bits q = tq_ClusterBits (qc_header q) - 3" "qc_L2Size q = 2 ^ qc_L2Bits q"
    "qc_ClusterSize q = 2 ^ tq_ClusterBits (qc_header q)"
    using QcowOpen_accepts [where fs = fs and name = name and names = "[]", OF assms(1,2)] by blast
  have inv: "qcow_inv (inflate, q)" using assms(3) q by (simp add: qcow_inv_def qcow_file_data_def)
  have c: "qcow_contents (inflate, q) = qcow_data_of inflate (qcow_file_header d) (qcow_file_l1 d) d"
    using q by (simp add: qcow_contents_def qcow_file_data_def)
  note len = length_qcow_data_of [OF assms(3)]
  show ?thesis
    using q(1,2) qcow.rd_read_law [OF inv] len c
    by (intro exI [of _ q]) (simp add: QcowSize_def)
qed

text \<open>A small image: three clusters of 256 bytes, the first one in the file, which ends
  behind its first four bytes, the second one not allocated, the third one compressed.\<close>

definition qcow_magic :: bytes where
  "qcow_magic = [0x51, 0x46, 0x49, 0xFB]"

lemma length_qcow_magic [simp]: "length qcow_magic = 4"
  by (simp add: qcow_magic_def)

definition qcow_small :: bytes where
  "qcow_small = qcow_magic @ be_bytes 4 2 @ replicate 12 0 @ be_bytes 4 8 @
     be_bytes 8 600 @ be_bytes 4 0 @ be_bytes 4 1 @ be_bytes 8 72 @ replicate 24 0 @
     be_bytes 8 512 @ replicate 432 0 @
     be_bytes 8 1024 @ be_bytes 8 0 @ be_bytes 8 4611686018427388928 @ replicate 488 0 @ [1, 2, 3, 4]"

definition sevens :: zlib_inflate where
  "sevens b room = Some (replicate room 7)"

lemma length_qcow_small: "length qcow_small = 1028"
  by (simp add: qcow_small_def)

lemma qcow_small_head: "segment 0 72 qcow_small = take 72 qcow_small"
  by (simp add: segment_def)

lemma dec_qcow_small:
  "tq_Magic (qcow_file_header qcow_small) = [0x51, 0x46, 0x49, 0xFB]"
  "tq_Version (qcow_file_header qcow_small) = 2"
  "tq_ClusterBits (qcow_file_header qcow_small) = 8" "tq_Size (qcow_file_header qcow_small) = 600"
  "tq_CryptMethod (qcow_file_header qcow_small) = 0" "tq_L1Size (qcow_file_header qcow_small) = 1"
  "tq_L1TableOffset (qcow_file_header qcow_small) = 72"
proof -
  have "pad 72 (segment 0 72 qcow_small) = qcow_magic @ be_bytes 4 2 @ replicate 12 0 @
      be_bytes 4 8 @ be_bytes 8 600 @ be_bytes 4 0 @ be_bytes 4 1 @ be_bytes 8 72 @ replicate 24 0"
    by (simp add: qcow_small_def segment_append_left segment_def)
  then have eq: "qcow_file_header qcow_small = dec_t_qcow_header (qcow_magic @ be_bytes 4 2 @
      replicate 12 0 @ be_bytes 4 8 @ be_bytes 8 600 @ be_bytes 4 0 @ be_bytes 4 1 @ be_bytes 8 72 @
      replicate 24 0)"
    by (simp only: qcow_file_header_def sizeof_t_QcowHeader_def)
  show "tq_Magic (qcow_file_header qcow_small) = [0x51, 0x46, 0x49, 0xFB]"
    by (simp add: eq dec_t_qcow_header_def segment_def qcow_magic_def)
  show "tq_Version (qcow_file_header qcow_small) = 2"
    "tq_ClusterBits (qcow_file_header qcow_small) = 8" "tq_Size (qcow_file_header qcow_small) = 600"
    "tq_L1Size (qcow_file_header qcow_small) = 1" "tq_L1TableOffset (qcow_file_header qcow_small) = 72"
    "tq_CryptMethod (qcow_file_header qcow_small) = 0"
    by (simp_all add: eq dec_t_qcow_header_def be_at_skip be_at_here be_at_zeros)
qed

lemma qcow_small_accepted: "qcow_file_accepted qcow_small"
  by (simp add: qcow_file_accepted_def dec_qcow_small)

lemma qcow_small_l1: "qcow_file_l1 qcow_small = [512]"
proof -
  have "pad 8 (segment 72 8 qcow_small) = be_bytes 8 512"
    by (simp add: qcow_small_def segment_append_right segment_append_left segment_all)
  then show ?thesis
    by (simp add: qcow_file_l1_def dec_qcow_small qcow_l1_entries_def Let_def be_at_def segment_all
        be_val_be_bytes)
qed

lemma qcow_small_entries:
  "qcow_entry 8 [512] qcow_small 0 = 1024" "qcow_entry 8 [512] qcow_small (Suc 0) = 0"
  "qcow_entry 8 [512] qcow_small 2 = 4611686018427388928"
proof -
  have "(512 :: nat) AND qcow_address_mask = 512" by (simp add: qcow_address_mask_def)
  moreover have "pad 8 (segment 512 8 qcow_small) = be_bytes 8 1024"
    "pad 8 (segment 520 8 qcow_small) = be_bytes 8 0"
    "pad 8 (segment 528 8 qcow_small) = be_bytes 8 4611686018427388928"
    by (simp_all add: qcow_small_def segment_append_right segment_append_left segment_all)
  ultimately show "qcow_entry 8 [512] qcow_small 0 = 1024" "qcow_entry 8 [512] qcow_small (Suc 0) = 0"
    "qcow_entry 8 [512] qcow_small 2 = 4611686018427388928"
    by (simp_all add: qcow_entry_def be_val_be_bytes)
qed

lemma qcow_small_ok: "qcow_ok sevens (qcow_file_header qcow_small) (qcow_file_l1 qcow_small) qcow_small"
  by (simp add: qcow_ok_def dec_qcow_small qcow_small_l1 sevens_def)

lemma qcow_small_cluster:
  "qcow_cluster sevens 8 [512] qcow_small (Suc 0) = replicate 256 0"
  "qcow_cluster sevens 8 [512] qcow_small 2 = replicate 256 7"
proof -
  have "bit (4611686018427388928 :: nat) 62" by (simp add: bit_iff_odd)
  then show "qcow_cluster sevens 8 [512] qcow_small (Suc 0) = replicate 256 0"
    "qcow_cluster sevens 8 [512] qcow_small 2 = replicate 256 7"
    by (simp_all add: qcow_cluster_def qcow_small_entries sevens_def Let_def)
qed

theorem qcow_open_reads_witness:
  "\<exists>q. QcowOpen [''a.qcow2'' \<mapsto> qcow_small] QcowCreateHandle [''a.qcow2''] = Some (QCOW_OK, q) \<and>
    QcowSize q = (QCOW_OK, 600) \<and> QcowRead sevens q 510 4 = Some (rd_ok [0, 0, 7, 7])"
proof -
  obtain q where q: "QcowOpen [''a.qcow2'' \<mapsto> qcow_small] QcowCreateHandle [''a.qcow2''] = Some (QCOW_OK, q)"
    "QcowSize q = (QCOW_OK, 600)"
    and r: "QcowRead sevens q 510 4 = Some (rd_ok (segment 510 4
      (qcow_data_of sevens (qcow_file_header qcow_small) [512] qcow_small)))"
    using qcow_open_reads [of "[''a.qcow2'' \<mapsto> qcow_small]" "''a.qcow2''" qcow_small sevens,
        OF _ qcow_small_accepted qcow_small_ok]
    unfolding dec_qcow_small qcow_small_l1 by auto
  have rep: "replicate 2 (b :: u8) = [b, b]" for b by (simp add: numeral_2_eq_2)
  have "ceil_div 600 256 = (3 :: nat)" by (simp add: ceil_div_def)
  moreover have "[0..<3] = [0, 1, 2 :: nat]" by (simp add: upt_conv_Cons)
  moreover have "length (qcow_cluster sevens 8 [512] qcow_small 0) = 256"
    using length_qcow_cluster [OF qcow_small_ok, of 0]
    by (simp add: dec_qcow_small qcow_small_l1 ceil_div_def)
  ultimately have "segment 510 4 (qcow_data_of sevens (qcow_file_header qcow_small) [512] qcow_small) = [0, 0, 7, 7]"
    by (simp add: qcow_data_of_def block_disk_def dec_qcow_small qcow_small_cluster segment_def
        drop_take drop_append rep)
  then show ?thesis using q r by auto
qed

end
