(* ===== verification/InputAaff.thy ===== *)
theory InputAaff
  imports InputRaw LibXmount
begin

text \<open>
  The input library \<open>libxmount_input_aaff\<close>: AFF images written by Guymager, a chain of
  named segments with a header, data and a footer, read without afflib. The handle keeps the
  current page and an array of the file positions of every \<open>Interleave\<close>-th page. zlib's
  \<open>uncompress\<close> is a parameter: it maps the compressed data and the room of the destination
  to its return code and the bytes stored. What \<open>malloc\<close> leaves in fresh memory is a
  parameter too. \<open>None\<close> stands for accesses outside a buffer, divisions by zero, signed
  overflow and the use of bytes that the current segment has not supplied. Log messages are
  left out; options that fail leave the text of the message to the caller. The text for the
  info file is not modelled beyond the part that \<open>AaffOpen\<close> collects.
\<close>

section \<open>Constants\<close>

definition AAFF_OK :: int where "AAFF_OK = 0"
definition AAFF_FOUND :: int where "AAFF_FOUND = 1"
definition AAFF_ERROR_ENOMEM_START :: int where "AAFF_ERROR_ENOMEM_START = 1000"
definition AAFF_MEMALLOC_FAILED :: int where "AAFF_MEMALLOC_FAILED = 1001"
definition AAFF_ERROR_ENOMEM_END :: int where "AAFF_ERROR_ENOMEM_END = 1002"
definition AAFF_ERROR_EINVAL_START :: int where "AAFF_ERROR_EINVAL_START = 2000"
definition AAFF_OPTIONS_ERROR :: int where "AAFF_OPTIONS_ERROR = 2001"
definition AAFF_SPLIT_IMAGES_NOT_SUPPORTED :: int where "AAFF_SPLIT_IMAGES_NOT_SUPPORTED = 2002"
definition AAFF_INVALID_SIGNATURE :: int where "AAFF_INVALID_SIGNATURE = 2003"
definition AAFF_NOT_CREATED_BY_GUYMAGER :: int where "AAFF_NOT_CREATED_BY_GUYMAGER = 2004"
definition AAFF_CANNOT_OPEN_LOGFILE :: int where "AAFF_CANNOT_OPEN_LOGFILE = 2005"
definition AAFF_ERROR_EINVAL_END :: int where "AAFF_ERROR_EINVAL_END = 2006"
definition AAFF_FILE_OPEN_FAILED :: int where "AAFF_FILE_OPEN_FAILED = 3001"
definition AAFF_CANNOT_READ_DATA :: int where "AAFF_CANNOT_READ_DATA = 3002"
definition AAFF_INVALID_HEADER :: int where "AAFF_INVALID_HEADER = 3003"
definition AAFF_INVALID_FOOTER :: int where "AAFF_INVALID_FOOTER = 3004"
definition AAFF_TOO_MANY_HEADER_SEGMENTS :: int where "AAFF_TOO_MANY_HEADER_SEGMENTS = 3005"
definition AAFF_PAGESIZE_NOT_FOUND :: int where "AAFF_PAGESIZE_NOT_FOUND = 3006"
definition AAFF_SECTORSIZE_NOT_FOUND :: int where "AAFF_SECTORSIZE_NOT_FOUND = 3007"
definition AAFF_SECTORCOUNT_NOT_FOUND :: int where "AAFF_SECTORCOUNT_NOT_FOUND = 3008"
definition AAFF_IMAGESIZE_NOT_FOUND :: int where "AAFF_IMAGESIZE_NOT_FOUND = 3009"
definition AAFF_LIBVERSION_NOT_FOUND :: int where "AAFF_LIBVERSION_NOT_FOUND = 3010"
definition AAFF_FILETYPE_NOT_FOUND :: int where "AAFF_FILETYPE_NOT_FOUND = 3011"
definition AAFF_INVALID_PAGE_NUMBER :: int where "AAFF_INVALID_PAGE_NUMBER = 3012"
definition AAFF_UNEXPECTED_PAGE_NUMBER :: int where "AAFF_UNEXPECTED_PAGE_NUMBER = 3013"
definition AAFF_CANNOT_CLOSE_FILE :: int where "AAFF_CANNOT_CLOSE_FILE = 3014"
definition AAFF_CANNOT_SEEK :: int where "AAFF_CANNOT_SEEK = 3015"
definition AAFF_WRONG_SEGMENT :: int where "AAFF_WRONG_SEGMENT = 3016"
definition AAFF_UNCOMPRESS_FAILED :: int where "AAFF_UNCOMPRESS_FAILED = 3017"
definition AAFF_INVALID_PAGE_ARGUMENT :: int where "AAFF_INVALID_PAGE_ARGUMENT = 3018"
definition AAFF_SEEKARR_CORRUPT :: int where "AAFF_SEEKARR_CORRUPT = 3019"
definition AAFF_PAGE_NOT_FOUND :: int where "AAFF_PAGE_NOT_FOUND = 3020"
definition AAFF_READ_BEYOND_IMAGE_LENGTH :: int where "AAFF_READ_BEYOND_IMAGE_LENGTH = 3021"
definition AAFF_READ_BEYOND_LAST_PAGE :: int where "AAFF_READ_BEYOND_LAST_PAGE = 3022"
definition AAFF_PAGE_LENGTH_ZERO :: int where "AAFF_PAGE_LENGTH_ZERO = 3023"
definition AAFF_NEGATIVE_SEEK :: int where "AAFF_NEGATIVE_SEEK = 3024"

lemmas aaff_codes = AAFF_OK_def AAFF_FOUND_def AAFF_ERROR_ENOMEM_START_def AAFF_MEMALLOC_FAILED_def
  AAFF_ERROR_ENOMEM_END_def AAFF_ERROR_EINVAL_START_def AAFF_OPTIONS_ERROR_def
  AAFF_SPLIT_IMAGES_NOT_SUPPORTED_def AAFF_INVALID_SIGNATURE_def AAFF_NOT_CREATED_BY_GUYMAGER_def
  AAFF_CANNOT_OPEN_LOGFILE_def AAFF_ERROR_EINVAL_END_def AAFF_FILE_OPEN_FAILED_def
  AAFF_CANNOT_READ_DATA_def AAFF_INVALID_HEADER_def AAFF_INVALID_FOOTER_def
  AAFF_TOO_MANY_HEADER_SEGMENTS_def AAFF_PAGESIZE_NOT_FOUND_def AAFF_SECTORSIZE_NOT_FOUND_def
  AAFF_SECTORCOUNT_NOT_FOUND_def AAFF_IMAGESIZE_NOT_FOUND_def AAFF_LIBVERSION_NOT_FOUND_def
  AAFF_FILETYPE_NOT_FOUND_def AAFF_INVALID_PAGE_NUMBER_def AAFF_UNEXPECTED_PAGE_NUMBER_def
  AAFF_CANNOT_CLOSE_FILE_def AAFF_CANNOT_SEEK_def AAFF_WRONG_SEGMENT_def AAFF_UNCOMPRESS_FAILED_def
  AAFF_INVALID_PAGE_ARGUMENT_def AAFF_SEEKARR_CORRUPT_def AAFF_PAGE_NOT_FOUND_def
  AAFF_READ_BEYOND_IMAGE_LENGTH_def AAFF_READ_BEYOND_LAST_PAGE_def AAFF_PAGE_LENGTH_ZERO_def
  AAFF_NEGATIVE_SEEK_def

definition AAFF_CURRENTPAGE_NOTSET :: nat where "AAFF_CURRENTPAGE_NOTSET = 18446744073709551615"
definition AAFF_DEFAULT_MAX_PAGE_ARR_MEM :: nat where "AAFF_DEFAULT_MAX_PAGE_ARR_MEM = 10"
definition AaffInfoBuffLen :: nat where "AaffInfoBuffLen = 1048576"

definition AFF_HEADER :: bytes where "AFF_HEADER = string_bytes ''AFF10'' @ [13, 10, 0]"
definition AFF_SEGMENT_HEADER_MAGIC :: bytes where "AFF_SEGMENT_HEADER_MAGIC = string_bytes ''AFF'' @ [0]"
definition AFF_SEGMENT_FOOTER_MAGIC :: bytes where "AFF_SEGMENT_FOOTER_MAGIC = string_bytes ''ATT'' @ [0]"

definition AFF_PAGEFLAGS_UNCOMPRESSED :: nat where "AFF_PAGEFLAGS_UNCOMPRESSED = 0"
definition AFF_PAGEFLAGS_COMPRESSED_ZLIB :: nat where "AFF_PAGEFLAGS_COMPRESSED_ZLIB = 1"
definition AFF_PAGEFLAGS_COMPRESSED_ZERO :: nat where "AFF_PAGEFLAGS_COMPRESSED_ZERO = 0x33"

section \<open>The handle\<close>

record t_aaff =
  af_pFilename :: "string option"
  af_pFile :: "cfile option"
  af_pLibVersion :: "bytes option"
  af_pFileType :: "bytes option"
  af_PageSize :: nat
  af_SectorSize :: nat
  af_Sectors :: nat
  af_ImageSize :: nat
  af_TotalPages :: nat
  af_CurrentPage :: nat
  af_pPageBuff :: bytes
  af_PageBuffDataLen :: nat
  af_pInfoBuffConst :: bytes
  af_pPageSeekArr :: "nat list"
  af_PageSeekArrLen :: nat
  af_Interleave :: nat
  af_pLogFilename :: "string option"
  af_MaxPageArrMem :: nat
  af_LogStdout :: bool

definition aaff_zero :: t_aaff where
  "aaff_zero =
     \<lparr>af_pFilename = None, af_pFile = None, af_pLibVersion = None, af_pFileType = None,
      af_PageSize = 0, af_SectorSize = 0, af_Sectors = 0, af_ImageSize = 0, af_TotalPages = 0,
      af_CurrentPage = 0, af_pPageBuff = [], af_PageBuffDataLen = 0, af_pInfoBuffConst = [],
      af_pPageSeekArr = [], af_PageSeekArrLen = 0, af_Interleave = 0, af_pLogFilename = None,
      af_MaxPageArrMem = 0, af_LogStdout = False\<rparr>"

definition AaffCreateHandle :: "bool \<Rightarrow> t_aaff" where
  "AaffCreateHandle debug =
     aaff_zero\<lparr>af_LogStdout := debug, af_MaxPageArrMem := AAFF_DEFAULT_MAX_PAGE_ARR_MEM\<rparr>"

definition ENOMEM :: int where "ENOMEM = 12"
definition EINVAL :: int where "EINVAL = 22"

definition AaffCheckError :: "int \<Rightarrow> int" where
  "AaffCheckError Ret =
     (if Ret = AAFF_OK then 0
      else if Ret \<ge> AAFF_ERROR_ENOMEM_START \<and> Ret \<le> AAFF_ERROR_ENOMEM_END then ENOMEM
      else if Ret \<ge> AAFF_ERROR_EINVAL_START \<and> Ret \<le> AAFF_ERROR_EINVAL_END then EINVAL
      else EIO)"

section \<open>Internal functions\<close>

text \<open>\<open>char\<close> is signed: a byte of 0x80 or more sets all the bits above it.\<close>

definition aaff_u64_step :: "64 word \<Rightarrow> u8 \<Rightarrow> 64 word" where
  "aaff_u64_step Val b = or (push_bit 8 Val) (signed b)"

definition AaffU64 :: "bytes \<Rightarrow> nat" where
  "AaffU64 pData = unat (foldl aaff_u64_step 0 (segment 4 4 pData @ segment 0 4 pData))"

text \<open>A C string in a buffer: what stands before the first 0.\<close>

definition c_string :: "bytes \<Rightarrow> bytes" where
  "c_string b = takeWhile (\<lambda>x. x \<noteq> 0) b"

text \<open>\<open>strtoull\<close> with base 10.\<close>

definition strtoull_10 :: "string \<Rightarrow> nat \<times> string" where
  "strtoull_10 s =
     (case scan_sign (dropWhile is_space s) of (neg, s1) \<Rightarrow>
        let ds = takeWhile (\<lambda>c. digit_val c < 10) s1;
            rest = dropWhile (\<lambda>c. digit_val c < 10) s1;
            v = digits_value 10 ds
        in if ds = [] then (0, s)
           else if v > 18446744073709551615 then (18446744073709551615, rest)
           else ((if neg then sub64 0 v else v), rest))"

definition AaffPageNumberFromSegmentName :: "bytes \<Rightarrow> int \<times> nat" where
  "AaffPageNumberFromSegmentName pSegmentName =
     (case strtoull_10 (map (\<lambda>b. char_of (unat b)) (drop 4 pSegmentName)) of (n, pTail) \<Rightarrow>
        ((if pTail \<noteq> [] then AAFF_INVALID_PAGE_NUMBER else AAFF_OK), n))"

definition aaff_file :: "t_aaff \<Rightarrow> cfile" where "aaff_file a = the (af_pFile a)"

definition AaffGetCurrentSeekPos :: "t_aaff \<Rightarrow> nat" where
  "AaffGetCurrentSeekPos a = ftello (aaff_file a)"

definition fseeko_cur :: "nat \<Rightarrow> cfile \<Rightarrow> int \<times> cfile" where
  "fseeko_cur off f = fseeko_set (f_pos f + off) f"

definition AaffSeekSet :: "t_aaff \<Rightarrow> nat \<Rightarrow> int \<times> t_aaff" where
  "AaffSeekSet a Val = (case fseeko_set Val (aaff_file a) of (s, f) \<Rightarrow>
     ((if s \<noteq> 0 then AAFF_CANNOT_SEEK else AAFF_OK), a\<lparr>af_pFile := Some f\<rparr>))"

definition AaffSeekCur :: "t_aaff \<Rightarrow> nat \<Rightarrow> int \<times> t_aaff" where
  "AaffSeekCur a Val = (case fseeko_cur Val (aaff_file a) of (s, f) \<Rightarrow>
     ((if s \<noteq> 0 then AAFF_CANNOT_SEEK else AAFF_OK), a\<lparr>af_pFile := Some f\<rparr>))"

definition AaffReadFile :: "t_aaff \<Rightarrow> nat \<Rightarrow> int \<times> bytes \<times> t_aaff" where
  "AaffReadFile a DataLen = (case fread DataLen (aaff_file a) of (k, b, f) \<Rightarrow>
     ((if k \<noteq> 1 then AAFF_CANNOT_READ_DATA else AAFF_OK), b, a\<lparr>af_pFile := Some f\<rparr>))"


record aff_segment_header =
  sh_Magic :: bytes
  sh_NameLen :: nat
  sh_DataLen :: nat
  sh_Argument :: nat

definition dec_aff_segment_header :: "bytes \<Rightarrow> aff_segment_header" where
  "dec_aff_segment_header b =
     \<lparr>sh_Magic = segment 0 4 b, sh_NameLen = be_at 4 4 b, sh_DataLen = be_at 8 4 b,
      sh_Argument = be_at 12 4 b\<rparr>"

text \<open>The start of \<open>AaffReadSegment\<close> and \<open>AaffReadSegmentPage\<close>: the header and the
  name. The buffer of a name of 2^32-1 bytes would have the length 0.\<close>

definition aaff_read_head ::
  "t_aaff \<Rightarrow> (int \<times> aff_segment_header \<times> bytes \<times> t_aaff) option" where
  "aaff_read_head a =
     (case AaffReadFile a 16 of (ret, b, a1) \<Rightarrow>
        let h = dec_aff_segment_header b in
        if ret \<noteq> AAFF_OK then Some (ret, h, [], a1)
        else if sh_Magic h \<noteq> AFF_SEGMENT_HEADER_MAGIC then Some (AAFF_INVALID_HEADER, h, [], a1)
        else if sh_NameLen h = 4294967295 then None
        else case AaffReadFile a1 (sh_NameLen h) of (ret, name, a2) \<Rightarrow>
          Some (ret, h, name, a2))"

definition aaff_read_footer :: "t_aaff \<Rightarrow> int \<times> t_aaff" where
  "aaff_read_footer a =
     (case AaffReadFile a 8 of (ret, b, a1) \<Rightarrow>
        if ret \<noteq> AAFF_OK then (ret, a1)
        else if segment 0 4 b \<noteq> AFF_SEGMENT_FOOTER_MAGIC then (AAFF_INVALID_FOOTER, a1)
        else (AAFF_OK, a1))"

record aff_segment =
  sg_Name :: bytes
  sg_Arg :: nat
  sg_Data :: bytes

definition AaffReadSegment :: "t_aaff \<Rightarrow> (int \<times> aff_segment \<times> t_aaff) option" where
  "AaffReadSegment a =
     (case aaff_read_head a of
        None \<Rightarrow> None
      | Some (ret, h, name, a1) \<Rightarrow>
          let seg = \<lparr>sg_Name = c_string name, sg_Arg = sh_Argument h, sg_Data = []\<rparr> in
          if ret \<noteq> AAFF_OK then Some (ret, seg, a1)
          else if sh_DataLen h = 4294967295 then None
          else case (if sh_DataLen h = 0 then (AAFF_OK, [], a1) else AaffReadFile a1 (sh_DataLen h)) of
            (ret, dat, a2) \<Rightarrow>
              if ret \<noteq> AAFF_OK then Some (ret, seg, a2)
              else case aaff_read_footer a2 of (ret, a3) \<Rightarrow> Some (ret, seg\<lparr>sg_Data := dat\<rparr>, a3))"

type_synonym zlib_uncompress = "bytes \<Rightarrow> nat \<Rightarrow> int \<times> bytes"

definition Z_OK :: int where "Z_OK = 0"

text \<open>Storing bytes at the start of \<open>pPageBuff\<close>.\<close>

definition aaff_store :: "bytes \<Rightarrow> t_aaff \<Rightarrow> t_aaff option" where
  "aaff_store b a =
     (if length b \<le> length (af_pPageBuff a)
      then Some (a\<lparr>af_pPageBuff := b @ drop (length b) (af_pPageBuff a)\<rparr>) else None)"

text \<open>The data of the page that is looked for, by the argument of its segment.\<close>

definition aaff_read_page_data ::
  "zlib_uncompress \<Rightarrow> t_aaff \<Rightarrow> nat \<Rightarrow> nat \<Rightarrow> (int \<times> t_aaff) option" where
  "aaff_read_page_data uncompress a Argument DataLen =
     (if Argument = AFF_PAGEFLAGS_UNCOMPRESSED then
        (case AaffReadFile a DataLen of (ret, b, a1) \<Rightarrow>
           case aaff_store b a1 of
             None \<Rightarrow> None
           | Some a2 \<Rightarrow> Some (ret, if ret \<noteq> AAFF_OK then a2 else a2\<lparr>af_PageBuffDataLen := DataLen\<rparr>))
      else if Argument = AFF_PAGEFLAGS_COMPRESSED_ZERO then
        (case AaffReadFile a 4 of (ret, b, a1) \<Rightarrow>
           if ret \<noteq> AAFF_OK then Some (ret, a1)
           else case aaff_store (replicate (be_val b) 0) a1 of
             None \<Rightarrow> None
           | Some a2 \<Rightarrow> Some (AAFF_OK, a2\<lparr>af_PageBuffDataLen := be_val b\<rparr>))
      else if Argument = AFF_PAGEFLAGS_COMPRESSED_ZLIB then
        (case AaffReadFile a DataLen of (ret, b, a1) \<Rightarrow>
           if ret \<noteq> AAFF_OK then Some (ret, a1)
           else case uncompress b (af_PageSize a1) of (zrc, out) \<Rightarrow>
             case aaff_store out a1 of
               None \<Rightarrow> None
             | Some a2 \<Rightarrow> Some (if zrc \<noteq> Z_OK then AAFF_UNCOMPRESS_FAILED else AAFF_OK,
                               a2\<lparr>af_PageBuffDataLen := u32 (length out)\<rparr>))
      else Some (AAFF_INVALID_PAGE_ARGUMENT, a))"

text \<open>The result: the code, \<open>*pFoundPage\<close> (0 where it has not been set) and the handle.\<close>

definition AaffReadSegmentPage ::
  "zlib_uncompress \<Rightarrow> t_aaff \<Rightarrow> nat \<Rightarrow> (int \<times> nat \<times> t_aaff) option" where
  "AaffReadSegmentPage uncompress a SearchPage =
     (case aaff_read_head a of
        None \<Rightarrow> None
      | Some (ret, h, name, a1) \<Rightarrow>
          if ret \<noteq> AAFF_OK then Some (ret, 0, a1)
          else if take 4 (c_string name) \<noteq> string_bytes ''page'' then Some (AAFF_WRONG_SEGMENT, 0, a1)
          else case AaffPageNumberFromSegmentName (c_string name) of (ret, page) \<Rightarrow>
            if ret \<noteq> AAFF_OK then Some (ret, page, a1)
            else
              (case (if page = SearchPage
                     then map_option (\<lambda>(ret, a2). if ret \<noteq> AAFF_OK then (ret, a2)
                                        else (AAFF_FOUND, a2\<lparr>af_CurrentPage := page\<rparr>))
                            (aaff_read_page_data uncompress a1 (sh_Argument h) (sh_DataLen h))
                     else Some (AaffSeekCur a1 (sh_DataLen h))) of
                 None \<Rightarrow> None
               | Some (rc, a2) \<Rightarrow>
                   if rc \<noteq> AAFF_OK \<and> rc \<noteq> AAFF_FOUND then Some (rc, page, a2)
                   else case aaff_read_footer a2 of (ret, a3) \<Rightarrow>
                     Some (if ret \<noteq> AAFF_OK then ret else rc, page, a3)))"

text \<open>The loop of \<open>AaffReadPage\<close> with the number of segments it may still look at.\<close>

fun AaffReadPage_loop ::
  "zlib_uncompress \<Rightarrow> nat \<Rightarrow> nat \<Rightarrow> t_aaff \<Rightarrow> (int \<times> t_aaff) option" where
  "AaffReadPage_loop uncompress Page 0 a = Some (AAFF_PAGE_NOT_FOUND, a)"
| "AaffReadPage_loop uncompress Page (Suc MaxHops) a =
     (let Seek = AaffGetCurrentSeekPos a in
      case AaffReadSegmentPage uncompress a Page of
        None \<Rightarrow> None
      | Some (rc, FoundPage, a1) \<Rightarrow>
          if rc \<noteq> AAFF_FOUND \<and> rc \<noteq> AAFF_OK then Some (rc, a1)
          else
            let Entry = FoundPage div af_Interleave a1 in
            if af_Interleave a1 = 0 \<or>
               FoundPage mod af_Interleave a1 = 0 \<and> Entry \<ge> length (af_pPageSeekArr a1) then None
            else
              let a2 = (if FoundPage mod af_Interleave a1 = 0
                        then a1\<lparr>af_pPageSeekArr := (af_pPageSeekArr a1)[Entry := Seek]\<rparr> else a1) in
              if rc = AAFF_FOUND then Some (AAFF_OK, a2)
              else AaffReadPage_loop uncompress Page MaxHops a2)"

text \<open>The closest entry at or below \<open>Entry\<close> that is set.\<close>

fun aaff_find_entry :: "nat list \<Rightarrow> nat \<Rightarrow> nat option" where
  "aaff_find_entry arr Entry =
     (if arr ! Entry \<noteq> 0 then Some Entry
      else if Entry = 0 then None else aaff_find_entry arr (Entry - 1))"

declare aaff_find_entry.simps [simp del]

definition AaffReadPage :: "zlib_uncompress \<Rightarrow> t_aaff \<Rightarrow> nat \<Rightarrow> (int \<times> t_aaff) option" where
  "AaffReadPage uncompress a Page =
     (if Page \<ge> af_TotalPages a then Some (AAFF_READ_BEYOND_LAST_PAGE, a)
      else if Page = af_CurrentPage a then Some (AAFF_OK, a)
      else if af_CurrentPage a \<noteq> AAFF_CURRENTPAGE_NOTSET \<and> u64 (af_CurrentPage a + 1) = Page
      then AaffReadPage_loop uncompress Page 1 a
      else if af_Interleave a = 0 \<or> Page div af_Interleave a \<ge> length (af_pPageSeekArr a) then None
      else
        (case aaff_find_entry (af_pPageSeekArr a) (Page div af_Interleave a) of
           None \<Rightarrow> Some (AAFF_SEEKARR_CORRUPT, a)
         | Some Entry \<Rightarrow>
             let a1 = snd (AaffSeekSet a (af_pPageSeekArr a ! Entry));
                 MaxHops = int_of_size (sub64 Page (u64 (Entry * af_Interleave a)) + 1) in
             if MaxHops < 0 then None
             else AaffReadPage_loop uncompress Page (nat MaxHops) a1))"

section \<open>Operations of the library\<close>

definition AaffClose :: "t_aaff \<Rightarrow> int \<times> t_aaff" where
  "AaffClose a =
     (AAFF_OK, a\<lparr>af_pFilename := None, af_pPageSeekArr := [], af_pLibVersion := None,
                 af_pFileType := None, af_pPageBuff := [], af_pInfoBuffConst := [], af_pFile := None\<rparr>)"

definition AaffDestroyHandle :: "t_aaff \<Rightarrow> int \<times> t_aaff option" where
  "AaffDestroyHandle a =
     (case AaffClose a of (ret, a1) \<Rightarrow> if ret \<noteq> AAFF_OK then (ret, Some a1) else (AAFF_OK, None))"

definition AaffSize :: "t_aaff \<Rightarrow> int \<times> nat" where
  "AaffSize a = (AAFF_OK, af_ImageSize a)"


text \<open>The loop of \<open>AaffRead\<close>: \<open>while (Count)\<close>, and nothing in it changes \<open>Count\<close>. It
  ends because the number of the page grows; the result is the code, the bytes stored and the
  handle.\<close>

lemma AaffReadFile_total: "AaffReadFile a n = (ret, b, a') \<Longrightarrow> af_TotalPages a' = af_TotalPages a"
  by (auto simp: AaffReadFile_def split: prod.splits)

lemma aaff_read_head_total:
  "aaff_read_head a = Some (ret, h, name, a') \<Longrightarrow> af_TotalPages a' = af_TotalPages a"
  by (auto simp: aaff_read_head_def Let_def dest!: AaffReadFile_total split: prod.splits if_splits)

lemma aaff_read_footer_total: "aaff_read_footer a = (ret, a') \<Longrightarrow> af_TotalPages a' = af_TotalPages a"
  by (auto simp: aaff_read_footer_def Let_def dest!: AaffReadFile_total split: prod.splits if_splits)

lemma aaff_read_page_data_total:
  "aaff_read_page_data u a arg n = Some (ret, a') \<Longrightarrow> af_TotalPages a' = af_TotalPages a"
  by (auto simp: aaff_read_page_data_def aaff_store_def dest!: AaffReadFile_total
      split: prod.splits if_splits option.splits)

lemma AaffReadSegmentPage_total:
  assumes "AaffReadSegmentPage u a p = Some (ret, q, a')"
  shows "af_TotalPages a' = af_TotalPages a"
  using assms
  by (auto simp: AaffReadSegmentPage_def AaffSeekCur_def Let_def
      dest!: aaff_read_head_total aaff_read_footer_total aaff_read_page_data_total
      split: prod.splits if_splits option.splits)

lemma AaffReadPage_loop_total:
  "AaffReadPage_loop u p n a = Some (ret, a') \<Longrightarrow> af_TotalPages a' = af_TotalPages a"
proof (induction u p n a rule: AaffReadPage_loop.induct)
  case (2 u p n a)
  obtain rc q a1 where r: "AaffReadSegmentPage u a p = Some (rc, q, a1)"
    using "2.prems" by (auto simp: Let_def split: option.splits)
  have t: "af_TotalPages a1 = af_TotalPages a" by (rule AaffReadSegmentPage_total [OF r])
  show ?case
  proof (cases "rc = AAFF_OK")
    case True
    then show ?thesis
      using "2.prems" "2.IH" [OF refl r refl refl] r t by (auto simp: Let_def aaff_codes split: if_splits)
  next
    case False
    then show ?thesis using "2.prems" r t by (auto simp: Let_def split: if_splits)
  qed
qed simp

lemma AaffReadPage_total:
  "AaffReadPage u a p = Some (ret, a') \<Longrightarrow> af_TotalPages a' = af_TotalPages a"
  by (auto simp: AaffReadPage_def Let_def AaffSeekSet_def dest!: AaffReadPage_loop_total
      split: if_splits option.splits prod.splits simp del: AaffReadPage_loop.simps)

function AaffRead_loop ::
  "zlib_uncompress \<Rightarrow> nat \<Rightarrow> t_aaff \<Rightarrow> nat \<Rightarrow> nat \<Rightarrow> nat \<Rightarrow> bytes \<Rightarrow>
   (int \<times> bytes \<times> t_aaff) option" where
  "AaffRead_loop uncompress Count a Page Ofs Remaining pBuf =
     (if Count = 0 then Some (AAFF_OK, pBuf, a)
      else case AaffReadPage uncompress a Page of
        None \<Rightarrow> None
      | Some (Ret, a1) \<Rightarrow>
          if Ret \<noteq> AAFF_OK then Some (Ret, pBuf, a1)
          else if af_PageBuffDataLen a1 = 0 then Some (AAFF_PAGE_LENGTH_ZERO, pBuf, a1)
          else
            let ToCopy = u32 (min (sub32 (af_PageBuffDataLen a1) Ofs) Remaining) in
            if Ofs + ToCopy > length (af_pPageBuff a1) then None
            else AaffRead_loop uncompress Count a1 (Page + 1) 0 (Remaining - ToCopy)
                   (pBuf @ segment Ofs ToCopy (af_pPageBuff a1)))"
  by pat_completeness auto

lemma AaffReadPage_in_range:
  "AaffReadPage u a p = Some (AAFF_OK, a') \<Longrightarrow> p < af_TotalPages a"
  by (auto simp: AaffReadPage_def aaff_codes split: if_splits)

lemma AaffReadPage_step:
  "AaffReadPage u a p = Some (AAFF_OK, a') \<Longrightarrow> af_TotalPages a' - Suc p < af_TotalPages a - p"
  using AaffReadPage_total [of u a p AAFF_OK a'] AaffReadPage_in_range [of u a p a'] by simp

termination AaffRead_loop
  by (relation "measure (\<lambda>(u, c, a, p, _). af_TotalPages a - p)")
    (auto dest!: AaffReadPage_step)

declare AaffRead_loop.simps [simp del]

definition aaff_result :: "int \<times> bytes \<times> t_aaff \<Rightarrow> read_res \<times> t_aaff" where
  "aaff_result r = (case r of (Ret, b, a) \<Rightarrow>
     (\<lparr>rr_ret = Ret, rr_buf = b, rr_read = length b, rr_errno = AaffCheckError Ret\<rparr>, a))"

definition AaffRead ::
  "zlib_uncompress \<Rightarrow> t_aaff \<Rightarrow> int \<Rightarrow> nat \<Rightarrow> (read_res \<times> t_aaff) option" where
  "AaffRead uncompress a Seek Count =
     (if Seek < 0 then Some (aaff_result (AAFF_NEGATIVE_SEEK, [], a))
      else
        let Seek64 = nat Seek in
        if Seek64 \<ge> af_ImageSize a then Some (aaff_result (AAFF_OK, [], a))
        else
          let n = (if u64 (Seek64 + Count) > af_ImageSize a then af_ImageSize a - Seek64 else Count) in
          if af_PageSize a = 0 then None
          else map_option aaff_result
                 (AaffRead_loop uncompress n a (Seek64 div af_PageSize a)
                    (Seek64 mod af_PageSize a) n []))"


section \<open>Opening\<close>

text \<open>The text collected for the info file, as it would be without its limit: \<open>snprintf\<close>
  behind the end of the buffer is undefined.\<close>

definition aaff_info :: "bytes \<Rightarrow> t_aaff \<Rightarrow> t_aaff option" where
  "aaff_info t a =
     (if length (af_pInfoBuffConst a) > AaffInfoBuffLen then None
      else Some (a\<lparr>af_pInfoBuffConst := af_pInfoBuffConst a @ t\<rparr>))"

definition aaff_info_name :: "bytes \<Rightarrow> bytes" where
  "aaff_info_name name = name @ replicate (25 - length name) 32 @ [32]"

definition hex_digit :: "nat \<Rightarrow> u8" where
  "hex_digit n = string_bytes ''0123456789ABCDEF'' ! n"

text \<open>\<open>%02X\<close> of \<open>(unsigned)\<close> a signed \<open>char\<close>.\<close>

definition aaff_hex_byte :: "u8 \<Rightarrow> bytes" where
  "aaff_hex_byte b =
     (if unat b \<ge> 128 then string_bytes ''FFFFFF'' else []) @
     [hex_digit (unat b div 16), hex_digit (unat b mod 16)]"

text \<open>The hexadecimal string in its buffer of 33 characters, of which \<open>snprintf\<close> is told 32
  less the length so far: the difference is unsigned and wraps behind the end.\<close>

fun aaff_hex :: "nat \<Rightarrow> bytes \<Rightarrow> bytes option" where
  "aaff_hex wr [] = Some []"
| "aaff_hex wr (b # bs) =
     (if wr > 32 then None
      else map_option (\<lambda>t. take (31 - wr) (aaff_hex_byte b) @ t)
             (aaff_hex (wr + length (aaff_hex_byte b)) bs))"

definition aaff_is :: "aff_segment \<Rightarrow> string \<Rightarrow> bool" where
  "aaff_is seg name \<longleftrightarrow> sg_Name seg = string_bytes name"

text \<open>One header segment that is not the first page.\<close>

definition aaff_open_segment :: "aff_segment \<Rightarrow> t_aaff \<Rightarrow> t_aaff option" where
  "aaff_open_segment seg a =
     (let d = sg_Data seg in
      if aaff_is seg ''pagesize'' then Some (a\<lparr>af_PageSize := sg_Arg seg\<rparr>)
      else if aaff_is seg ''sectorsize'' then Some (a\<lparr>af_SectorSize := sg_Arg seg\<rparr>)
      else if aaff_is seg ''devicesectors'' then
        if length d < 8 then None else Some (a\<lparr>af_Sectors := AaffU64 d\<rparr>)
      else if aaff_is seg ''imagesize'' then
        if length d < 8 then None else Some (a\<lparr>af_ImageSize := AaffU64 d\<rparr>)
      else if aaff_is seg ''afflib_version'' then Some (a\<lparr>af_pLibVersion := Some (c_string d)\<rparr>)
      else if aaff_is seg ''aff_file_type'' then Some (a\<lparr>af_pFileType := Some (c_string d)\<rparr>)
      else if aaff_is seg ''image_gid'' \<or> aaff_is seg ''badflag'' then
        (case aaff_hex 0 (take 16 d) of
           None \<Rightarrow> None
         | Some t \<Rightarrow>
             (case aaff_info (aaff_info_name (sg_Name seg) @ t) a of
                None \<Rightarrow> None
              | Some a1 \<Rightarrow>
                  (case (if length d > 16 then aaff_info (string_bytes ''...'') a1 else Some a1) of
                     None \<Rightarrow> None
                   | Some a2 \<Rightarrow> aaff_info [10] a2)))
      else if sg_Arg seg = 0 \<and> d \<noteq> [] then
        aaff_info (aaff_info_name (sg_Name seg) @ c_string d @ [10]) a
      else Some a)"

text \<open>A segment whose name starts with \<open>page\<close> ends the header, \<open>pagesize\<close> apart.\<close>

definition aaff_is_page :: "aff_segment \<Rightarrow> bool" where
  "aaff_is_page seg \<longleftrightarrow> take 4 (sg_Name seg) = string_bytes ''page'' \<and> \<not> aaff_is seg ''pagesize''"

text \<open>The loop over at most \<open>n\<close> header segments: the code, the name and the position of the
  first page where there is one, and the handle.\<close>

fun AaffOpen_loop :: "nat \<Rightarrow> t_aaff \<Rightarrow> (int \<times> (bytes \<times> nat) option \<times> t_aaff) option" where
  "AaffOpen_loop 0 a = Some (AAFF_OK, None, a)"
| "AaffOpen_loop (Suc n) a =
     (let Seek = AaffGetCurrentSeekPos a in
      case AaffReadSegment a of
        None \<Rightarrow> None
      | Some (ret, seg, a1) \<Rightarrow>
          if ret \<noteq> AAFF_OK then Some (ret, None, a1)
          else if aaff_is_page seg then Some (AAFF_OK, Some (sg_Name seg, Seek), a1)
          else case aaff_open_segment seg a1 of
            None \<Rightarrow> None
          | Some a2 \<Rightarrow> AaffOpen_loop n a2)"

definition contains_bytes :: "bytes \<Rightarrow> bytes \<Rightarrow> bool" where
  "contains_bytes sub b \<longleftrightarrow> (\<exists>i \<in> set [0..<Suc (length b)]. take (length sub) (drop i b) = sub)"

text \<open>The checks behind the loop, without the one on the version.\<close>

definition aaff_header_check :: "t_aaff \<Rightarrow> int" where
  "aaff_header_check a =
     (if af_PageSize a = 0 then AAFF_PAGESIZE_NOT_FOUND
      else if af_SectorSize a = 0 then AAFF_SECTORSIZE_NOT_FOUND
      else if af_Sectors a = 0 then AAFF_SECTORCOUNT_NOT_FOUND
      else if af_ImageSize a = 0 then AAFF_IMAGESIZE_NOT_FOUND
      else if af_pLibVersion a = None then AAFF_LIBVERSION_NOT_FOUND
      else if af_pFileType a = None then AAFF_FILETYPE_NOT_FOUND
      else AAFF_OK)"

text \<open>The array of page positions. Its size in bytes is an \<open>int\<close>: from 2 GiB on \<open>malloc\<close>
  gets a huge number.\<close>

definition aaff_open_pages :: "(nat \<Rightarrow> u8) \<Rightarrow> t_aaff \<Rightarrow> bytes \<Rightarrow> nat \<Rightarrow> (int \<times> t_aaff) option" where
  "aaff_open_pages fresh a name Seek =
     (let total = (if af_ImageSize a mod af_PageSize a \<noteq> 0
                   then af_ImageSize a div af_PageSize a + 1 else af_ImageSize a div af_PageSize a);
          entries = min (u64 (af_MaxPageArrMem a * 1048576) div 9) total in
      if entries = 0 then None
      else
        let leave = (if total mod entries \<noteq> 0 then total div entries + 1 else total div entries);
            len = total div leave; ArrBytes = u32 (len * 8) in
        if 2147483648 \<le> ArrBytes then None
        else
          let arr = replicate (ArrBytes div 8) 0;
              a1 = a\<lparr>af_TotalPages := total, af_Interleave := leave, af_PageSeekArrLen := len,
                     af_pPageSeekArr := arr\<rparr> in
          case AaffPageNumberFromSegmentName name of (ret, page) \<Rightarrow>
            if ret \<noteq> AAFF_OK then Some (ret, a1\<lparr>af_CurrentPage := page\<rparr>)
            else if page \<noteq> 0
            then Some (AAFF_UNEXPECTED_PAGE_NUMBER, snd (AaffClose (a1\<lparr>af_CurrentPage := page\<rparr>)))
            else if arr = [] then None
            else Some (AAFF_OK, a1\<lparr>af_pPageSeekArr := arr[0 := Seek],
                                   af_pPageBuff := map fresh [0..<af_PageSize a],
                                   af_CurrentPage := AAFF_CURRENTPAGE_NOTSET\<rparr>))"

definition AaffOpen ::
  "(string \<Rightarrow> bytes option) \<Rightarrow> (nat \<Rightarrow> u8) \<Rightarrow> t_aaff \<Rightarrow> string list \<Rightarrow> (int \<times> t_aaff) option" where
  "AaffOpen fs fresh a names =
     (case names of
        [name] \<Rightarrow>
          (case open_r fs name of
             None \<Rightarrow> Some (AAFF_FILE_OPEN_FAILED,
                           snd (AaffClose (a\<lparr>af_pFilename := Some name, af_pFile := None\<rparr>)))
           | Some f \<Rightarrow>
               (case AaffReadFile (a\<lparr>af_pFilename := Some name, af_pFile := Some f\<rparr>) 8 of
                  (ret, sig, a1) \<Rightarrow>
                    if ret \<noteq> AAFF_OK then Some (ret, a1)
                    else if sig \<noteq> AFF_HEADER then Some (AAFF_INVALID_SIGNATURE, snd (AaffClose a1))
                    else case AaffOpen_loop 100 (a1\<lparr>af_pInfoBuffConst := []\<rparr>) of
                      None \<Rightarrow> None
                    | Some (ret, first, a2) \<Rightarrow>
                        if ret \<noteq> AAFF_OK then Some (ret, a2)
                        else case first of
                          None \<Rightarrow> Some (AAFF_TOO_MANY_HEADER_SEGMENTS, snd (AaffClose a2))
                        | Some (page_name, Seek) \<Rightarrow>
                            if aaff_header_check a2 \<noteq> AAFF_OK then Some (aaff_header_check a2, a2)
                            else if \<not> contains_bytes (string_bytes ''Guymager'') (the (af_pLibVersion a2))
                            then Some (AAFF_NOT_CREATED_BY_GUYMAGER, snd (AaffClose a2))
                            else aaff_open_pages fresh a2 page_name Seek))
      | _ \<Rightarrow> Some (AAFF_SPLIT_IMAGES_NOT_SUPPORTED, a))"

section \<open>Options and messages\<close>

text \<open>\<open>log_rc\<close> is the result of the test message for a log file. A bad number ends the loop
  with a text and leaves the code as it is.\<close>

fun AaffOptionsParse ::
  "(string \<Rightarrow> int) \<Rightarrow> t_aaff \<Rightarrow> lib_option list \<Rightarrow> int \<times> t_aaff \<times> lib_option list \<times> string option" where
  "AaffOptionsParse log_rc a [] = (AAFF_OK, a, [], None)"
| "AaffOptionsParse log_rc a (opt # opts) =
     (if lo_key opt = ''aafflog'' then
        let a1 = a\<lparr>af_pLogFilename := Some (lo_value opt)\<rparr>; rc = log_rc (lo_value opt) in
        if rc \<noteq> AAFF_OK then (rc, a1, opt # opts, Some ''Write test to log file failed'')
        else (case AaffOptionsParse log_rc a1 opts of
                (ret, a2, opts', e) \<Rightarrow> (ret, a2, opt\<lparr>lo_valid := True\<rparr> # opts', e))
      else if lo_key opt = ''aaffmaxmem'' then
        (case StrToUint64 (lo_value opt) of (v, ok) \<Rightarrow>
           let a1 = a\<lparr>af_MaxPageArrMem := v\<rparr> in
           if ok = 0 then (AAFF_OK, a1, opt # opts, Some ''Error in option %s: Invalid value'')
           else (case AaffOptionsParse log_rc a1 opts of
                   (ret, a2, opts', e) \<Rightarrow> (ret, a2, opt # opts', e)))
      else (case AaffOptionsParse log_rc a opts of
              (ret, a2, opts', e) \<Rightarrow> (ret, a2, opt # opts', e)))"

definition aaff_messages :: "(int \<times> string) list" where
  "aaff_messages =
     [(AAFF_OK, ''AAFF_OK''), (AAFF_FOUND, ''AAFF_FOUND''),
      (AAFF_MEMALLOC_FAILED, ''AAFF_MEMALLOC_FAILED''), (AAFF_OPTIONS_ERROR, ''AAFF_OPTIONS_ERROR''),
      (AAFF_SPLIT_IMAGES_NOT_SUPPORTED, ''AAFF_SPLIT_IMAGES_NOT_SUPPORTED''),
      (AAFF_INVALID_SIGNATURE, ''AAFF_INVALID_SIGNATURE''),
      (AAFF_NOT_CREATED_BY_GUYMAGER, ''AAFF_NOT_CREATED_BY_GUYMAGER''),
      (AAFF_CANNOT_OPEN_LOGFILE, ''AAFF_CANNOT_OPEN_LOGFILE''),
      (AAFF_FILE_OPEN_FAILED, ''AAFF_FILE_OPEN_FAILED''), (AAFF_CANNOT_READ_DATA, ''AAFF_CANNOT_READ_DATA''),
      (AAFF_INVALID_HEADER, ''AAFF_INVALID_HEADER''), (AAFF_INVALID_FOOTER, ''AAFF_INVALID_FOOTER''),
      (AAFF_TOO_MANY_HEADER_SEGMENTS, ''AAFF_TOO_MANY_HEADER_SEGMENTS''),
      (AAFF_PAGESIZE_NOT_FOUND, ''AAFF_PAGESIZE_NOT_FOUND''),
      (AAFF_SECTORSIZE_NOT_FOUND, ''AAFF_SECTORSIZE_NOT_FOUND''),
      (AAFF_SECTORCOUNT_NOT_FOUND, ''AAFF_SECTORCOUNT_NOT_FOUND''),
      (AAFF_IMAGESIZE_NOT_FOUND, ''AAFF_IMAGESIZE_NOT_FOUND''),
      (AAFF_LIBVERSION_NOT_FOUND, ''AAFF_LIBVERSION_NOT_FOUND''),
      (AAFF_FILETYPE_NOT_FOUND, ''AAFF_FILETYPE_NOT_FOUND''),
      (AAFF_INVALID_PAGE_NUMBER, ''AAFF_INVALID_PAGE_NUMBER''),
      (AAFF_UNEXPECTED_PAGE_NUMBER, ''AAFF_UNEXPECTED_PAGE_NUMBER''),
      (AAFF_CANNOT_CLOSE_FILE, ''AAFF_CANNOT_CLOSE_FILE''), (AAFF_CANNOT_SEEK, ''AAFF_CANNOT_SEEK''),
      (AAFF_WRONG_SEGMENT, ''AAFF_WRONG_SEGMENT''), (AAFF_UNCOMPRESS_FAILED, ''AAFF_UNCOMPRESS_FAILED''),
      (AAFF_INVALID_PAGE_ARGUMENT, ''AAFF_INVALID_PAGE_ARGUMENT''),
      (AAFF_SEEKARR_CORRUPT, ''AAFF_SEEKARR_CORRUPT''), (AAFF_PAGE_NOT_FOUND, ''AAFF_PAGE_NOT_FOUND''),
      (AAFF_READ_BEYOND_IMAGE_LENGTH, ''AAFF_READ_BEYOND_IMAGE_LENGTH''),
      (AAFF_READ_BEYOND_LAST_PAGE, ''AAFF_READ_BEYOND_LAST_PAGE''),
      (AAFF_PAGE_LENGTH_ZERO, ''AAFF_PAGE_LENGTH_ZERO''), (AAFF_NEGATIVE_SEEK, ''AAFF_NEGATIVE_SEEK'')]"

definition AaffGetErrorMessage :: "int \<Rightarrow> string" where
  "AaffGetErrorMessage ErrNum =
     (case map_of aaff_messages ErrNum of Some m \<Rightarrow> m | None \<Rightarrow> ''Unknown error'')"

end
