(* ===== verification/InputAaffRead.thy ===== *)
theory InputAaffRead
  imports InputAaff
begin

text \<open>
  AFF files as Guymager writes them: the signature, header segments, the pages in their order.
  What \<open>AaffOpen\<close> makes of them, the invariant of an opened handle under the caching of
  the current page and of the positions of pages, and what reads return.
\<close>

unbundle bit_operations_syntax

section \<open>Files and positions\<close>

definition aaff_rest :: "t_aaff \<Rightarrow> bytes" where
  "aaff_rest a = drop (f_pos (aaff_file a)) (f_data (aaff_file a))"

definition aaff_skip :: "nat \<Rightarrow> t_aaff \<Rightarrow> t_aaff" where
  "aaff_skip n a = a\<lparr>af_pFile := Some ((aaff_file a)\<lparr>f_pos := f_pos (aaff_file a) + n\<rparr>)\<rparr>"

lemma aaff_skip_sel [simp]:
  "aaff_file (aaff_skip n a) = (aaff_file a)\<lparr>f_pos := f_pos (aaff_file a) + n\<rparr>"
  "af_PageSize (aaff_skip n a) = af_PageSize a" "af_TotalPages (aaff_skip n a) = af_TotalPages a"
  "af_CurrentPage (aaff_skip n a) = af_CurrentPage a" "af_pPageBuff (aaff_skip n a) = af_pPageBuff a"
  "af_PageBuffDataLen (aaff_skip n a) = af_PageBuffDataLen a"
  "af_pPageSeekArr (aaff_skip n a) = af_pPageSeekArr a" "af_Interleave (aaff_skip n a) = af_Interleave a"
  "af_ImageSize (aaff_skip n a) = af_ImageSize a"
  "aaff_rest (aaff_skip n a) = drop n (aaff_rest a)"
  by (simp_all add: aaff_skip_def aaff_file_def aaff_rest_def add.commute)

lemma aaff_skip_skip [simp]: "aaff_skip m (aaff_skip n a) = aaff_skip (n + m) a"
  by (simp add: aaff_skip_def aaff_file_def add.assoc)

lemma AaffReadFile_here:
  assumes "aaff_rest a = b @ r" "n = length b" "b \<noteq> []"
  shows "AaffReadFile a n = (AAFF_OK, b, aaff_skip n a)"
proof -
  let ?f = "aaff_file a"
  have len: "f_pos ?f + n \<le> length (f_data ?f)"
    using arg_cong [OF assms(1), of length] assms(2,3) by (cases b) (auto simp: aaff_rest_def)
  have "segment (f_pos ?f) n (f_data ?f) = b"
    using assms(1,2) by (simp add: segment_def aaff_rest_def)
  then show ?thesis
    using fread_ok [of n ?f] len assms(2,3) by (simp add: AaffReadFile_def aaff_skip_def)
qed

lemma AaffReadFile_short:
  assumes "length (aaff_rest a) < n"
  shows "fst (AaffReadFile a n) = AAFF_CANNOT_READ_DATA"
  using assms by (auto simp: AaffReadFile_def fread_def aaff_rest_def split: prod.split)

lemma AaffSeekCur_here:
  assumes "f_pos (aaff_file a) + n < 2 ^ 63"
  shows "AaffSeekCur a n = (AAFF_OK, aaff_skip n a)"
  using assms by (simp add: AaffSeekCur_def fseeko_cur_def fseeko_set_def aaff_skip_def)

section \<open>Segments\<close>

definition aff_head_bytes :: "bytes \<Rightarrow> nat \<Rightarrow> bytes \<Rightarrow> bytes" where
  "aff_head_bytes name arg d =
     AFF_SEGMENT_HEADER_MAGIC @ be_bytes 4 (length name) @ be_bytes 4 (length d) @ be_bytes 4 arg"

definition aff_foot_bytes :: "bytes \<Rightarrow> bytes \<Rightarrow> bytes" where
  "aff_foot_bytes name d =
     AFF_SEGMENT_FOOTER_MAGIC @ be_bytes 4 (24 + length name + length d)"

definition aff_segment_bytes :: "bytes \<Rightarrow> nat \<Rightarrow> bytes \<Rightarrow> bytes" where
  "aff_segment_bytes name arg d = aff_head_bytes name arg d @ name @ d @ aff_foot_bytes name d"

definition aff_segment_ok :: "bytes \<Rightarrow> nat \<Rightarrow> bytes \<Rightarrow> bool" where
  "aff_segment_ok name arg d \<longleftrightarrow> name \<noteq> [] \<and> 0 \<notin> set name \<and> length name < 4294967295 \<and>
     length d < 4294967295 \<and> arg < 4294967296"

lemma length_magics [simp]:
  "length AFF_SEGMENT_HEADER_MAGIC = 4" "length AFF_SEGMENT_FOOTER_MAGIC = 4"
  by (simp_all add: AFF_SEGMENT_HEADER_MAGIC_def AFF_SEGMENT_FOOTER_MAGIC_def)

lemma length_head_foot [simp]:
  "length (aff_head_bytes name arg d) = 16" "length (aff_foot_bytes name d) = 8"
  by (simp_all add: aff_head_bytes_def aff_foot_bytes_def)

lemma length_aff_segment_bytes [simp]:
  "length (aff_segment_bytes name arg d) = 24 + length name + length d"
  by (simp add: aff_segment_bytes_def)

lemma c_string_name [simp]: "0 \<notin> set name \<Longrightarrow> c_string name = name"
  by (auto simp: c_string_def takeWhile_eq_all_conv)

lemma dec_aff_head:
  assumes "aff_segment_ok name arg d"
  shows "dec_aff_segment_header (aff_head_bytes name arg d) =
    \<lparr>sh_Magic = AFF_SEGMENT_HEADER_MAGIC, sh_NameLen = length name, sh_DataLen = length d,
     sh_Argument = arg\<rparr>"
proof -
  let ?h = "aff_head_bytes name arg d"
  have "segment 0 4 ?h = AFF_SEGMENT_HEADER_MAGIC"
    by (simp add: aff_head_bytes_def segment_append_left segment_all)
  moreover have "be_at 4 4 ?h = length name" "be_at 8 4 ?h = length d"
    using assms unfolding aff_head_bytes_def aff_segment_ok_def
    by (simp_all add: be_at_skip be_at_here)
  moreover have "be_at 12 4 ?h = arg"
    using assms be_at_here [of 4 arg "[]"] unfolding aff_head_bytes_def aff_segment_ok_def
    by (simp add: be_at_skip)
  ultimately show ?thesis by (simp add: dec_aff_segment_header_def)
qed

lemma aaff_read_head_here:
  assumes "aaff_rest a = aff_segment_bytes name arg d @ r" "aff_segment_ok name arg d"
  shows "aaff_read_head a = Some (AAFF_OK,
    \<lparr>sh_Magic = AFF_SEGMENT_HEADER_MAGIC, sh_NameLen = length name, sh_DataLen = length d,
     sh_Argument = arg\<rparr>, name, aaff_skip (16 + length name) a)"
proof -
  let ?t = "d @ aff_foot_bytes name d @ r"
  have 1: "AaffReadFile a 16 = (AAFF_OK, aff_head_bytes name arg d, aaff_skip 16 a)"
  proof (rule AaffReadFile_here)
    show "aaff_rest a = aff_head_bytes name arg d @ name @ ?t"
      using assms(1) by (simp add: aff_segment_bytes_def)
    show "aff_head_bytes name arg d \<noteq> []" by (simp add: aff_head_bytes_def AFF_SEGMENT_HEADER_MAGIC_def)
  qed simp
  have 2: "AaffReadFile (aaff_skip 16 a) (length name) = (AAFF_OK, name, aaff_skip (16 + length name) a)"
  proof -
    have "aaff_rest (aaff_skip 16 a) = name @ ?t"
      using assms(1) by (simp add: aff_segment_bytes_def)
    from AaffReadFile_here [OF this refl] show ?thesis
      using assms(2) by (simp add: aff_segment_ok_def)
  qed
  show ?thesis
    using assms(2) by (simp add: aaff_read_head_def 1 2 dec_aff_head aff_segment_ok_def)
qed

lemma aaff_read_footer_here:
  assumes "aaff_rest a = aff_foot_bytes name d @ r"
  shows "aaff_read_footer a = (AAFF_OK, aaff_skip 8 a)"
proof -
  have ne: "aff_foot_bytes name d \<noteq> []" by (simp add: aff_foot_bytes_def AFF_SEGMENT_FOOTER_MAGIC_def)
  have "AaffReadFile a 8 = (AAFF_OK, aff_foot_bytes name d, aaff_skip 8 a)"
    by (rule AaffReadFile_here [OF assms _ ne]) simp
  moreover have "segment 0 4 (aff_foot_bytes name d) = AFF_SEGMENT_FOOTER_MAGIC"
    by (simp add: aff_foot_bytes_def segment_append_left segment_all)
  ultimately show ?thesis by (simp add: aaff_read_footer_def)
qed

lemma rest_after_head:
  assumes "aaff_rest a = aff_segment_bytes name arg d @ r"
  shows "aaff_rest (aaff_skip (16 + length name) a) = d @ aff_foot_bytes name d @ r"
    "aaff_rest (aaff_skip (16 + length name + length d) a) = aff_foot_bytes name d @ r"
    "aaff_rest (aaff_skip (length (aff_segment_bytes name arg d)) a) = r"
  using assms by (simp_all add: aff_segment_bytes_def)

lemma AaffReadSegment_here:
  assumes r: "aaff_rest a = aff_segment_bytes name arg d @ r" and ok: "aff_segment_ok name arg d"
  shows "AaffReadSegment a = Some (AAFF_OK, \<lparr>sg_Name = name, sg_Arg = arg, sg_Data = d\<rparr>,
    aaff_skip (length (aff_segment_bytes name arg d)) a)"
proof -
  have d: "(if length d = 0 then (AAFF_OK, [], aaff_skip (16 + length name) a)
      else AaffReadFile (aaff_skip (16 + length name) a) (length d)) =
      (AAFF_OK, d, aaff_skip (16 + length name + length d) a)"
    using AaffReadFile_here [OF rest_after_head(1) [OF r] refl] by (cases "d = []") simp_all
  have f: "aaff_read_footer (aaff_skip (16 + length name + length d) a) =
      (AAFF_OK, aaff_skip (24 + length name + length d) a)"
    using aaff_read_footer_here [OF rest_after_head(2) [OF r]] by (simp add: ac_simps)
  have n: "0 \<notin> set name" "length d \<noteq> 4294967295" using ok by (auto simp: aff_segment_ok_def)
  show ?thesis
    unfolding AaffReadSegment_def aaff_read_head_here [OF r ok] Let_def option.case prod.case
      aff_segment_header.simps d f
    using n by simp
qed

section \<open>Pages\<close>

lemma strtoull_10_dec:
  assumes "n < 2 ^ 64"
  shows "strtoull_10 (dec_string n) = (n, [])"
proof -
  obtain c cs where c: "dec_string n = c # cs" using dec_string_not_Nil [of n] by (cases "dec_string n") auto
  have "digit_val c < 10" using dec_string_digits [of c n] by (simp add: c)
  note sp = digit_val_special [OF this]
  have 1: "dropWhile is_space (dec_string n) = dec_string n" using sp by (simp add: c)
  have 2: "scan_sign (dec_string n) = (False, dec_string n)" using sp by (simp add: c)
  have 3: "takeWhile (\<lambda>c. digit_val c < 10) (dec_string n) = dec_string n"
    using dec_string_digits by (simp add: takeWhile_eq_all_conv)
  have 4: "dropWhile (\<lambda>c. digit_val c < 10) (dec_string n) = []"
    using dec_string_digits by (simp add: dropWhile_eq_Nil_conv)
  show ?thesis
    using assms unfolding strtoull_10_def 1 2 prod.case 3 4 Let_def
    by (simp add: digits_value_dec)
qed

definition page_name :: "nat \<Rightarrow> bytes" where
  "page_name i = string_bytes (''page'' @ dec_string i)"

lemma string_bytes_append: "string_bytes (s @ t) = string_bytes s @ string_bytes t"
  by (simp add: string_bytes_def)

lemma unat_of_char: "unat (of_char c :: u8) = of_char c"
  using unat_u8_of_nat [of "of_char c"] by (simp add: of_nat_of_char)

lemma string_bytes_back:
  "map (\<lambda>b. char_of (unat b)) (string_bytes s) = s"
proof -
  have "char_of (unat (of_char c :: u8)) = c" for c
    by (simp add: unat_of_char)
  then show ?thesis by (simp add: string_bytes_def comp_def)
qed


lemma page_name_simps:
  "take 4 (page_name i) = string_bytes ''page''" "page_name i \<noteq> []" "0 \<notin> set (page_name i)"
proof -
  show "take 4 (page_name i) = string_bytes ''page''" "page_name i \<noteq> []"
    by (simp_all add: page_name_def string_bytes_def)
  have "(of_char c :: u8) \<noteq> 0" if "digit_val c < 10" for c
  proof
    assume "(of_char c :: u8) = 0"
    then have "(of_char c :: nat) = 0" using unat_of_char [of c] by simp
    then show False using that by (simp add: digit_val_def)
  qed
  then have "0 \<notin> set (string_bytes (dec_string i))"
    using dec_string_digits by (fastforce simp: string_bytes_def)
  then show "0 \<notin> set (page_name i)"
    unfolding page_name_def string_bytes_append by (simp add: string_bytes_def)
qed

lemma page_number:
  assumes "i < 2 ^ 64"
  shows "AaffPageNumberFromSegmentName (page_name i) = (AAFF_OK, i)"
proof -
  have "drop 4 (page_name i) = string_bytes (dec_string i)"
    by (simp add: page_name_def string_bytes_def)
  then have "map (\<lambda>b. char_of (unat b)) (drop 4 (page_name i)) = dec_string i"
    by (simp only: string_bytes_back)
  then show ?thesis
    unfolding AaffPageNumberFromSegmentName_def by (simp only: strtoull_10_dec [OF assms]) simp
qed

text \<open>A page as it is stored: the argument of its segment and the data.\<close>

type_synonym aff_page = "nat \<times> bytes"

definition page_bytes :: "nat \<Rightarrow> aff_page \<Rightarrow> bytes" where
  "page_bytes i pg = aff_segment_bytes (page_name i) (fst pg) (snd pg)"

definition page_contents :: "zlib_uncompress \<Rightarrow> nat \<Rightarrow> aff_page \<Rightarrow> bytes" where
  "page_contents uncompress ps pg =
     (if fst pg = AFF_PAGEFLAGS_UNCOMPRESSED then snd pg
      else if fst pg = AFF_PAGEFLAGS_COMPRESSED_ZERO then replicate (be_val (snd pg)) 0
      else snd (uncompress (snd pg) ps))"

text \<open>Pages are not empty and fit into the page buffer.\<close>

definition page_ok :: "zlib_uncompress \<Rightarrow> nat \<Rightarrow> aff_page \<Rightarrow> bool" where
  "page_ok uncompress ps pg \<longleftrightarrow> snd pg \<noteq> [] \<and> length (snd pg) < 4294967295 \<and>
     0 < length (page_contents uncompress ps pg) \<and> length (page_contents uncompress ps pg) \<le> ps \<and>
     (fst pg = AFF_PAGEFLAGS_UNCOMPRESSED \<or>
      fst pg = AFF_PAGEFLAGS_COMPRESSED_ZERO \<and> length (snd pg) = 4 \<or>
      fst pg = AFF_PAGEFLAGS_COMPRESSED_ZLIB \<and> fst (uncompress (snd pg) ps) = Z_OK)"

lemma aff_flags [simp]:
  "AFF_PAGEFLAGS_UNCOMPRESSED = 0" "AFF_PAGEFLAGS_COMPRESSED_ZERO = 51" "AFF_PAGEFLAGS_COMPRESSED_ZLIB = 1"
  by (simp_all add: AFF_PAGEFLAGS_UNCOMPRESSED_def AFF_PAGEFLAGS_COMPRESSED_ZERO_def
      AFF_PAGEFLAGS_COMPRESSED_ZLIB_def)

lemma page_segment_ok:
  assumes "page_ok u ps pg" "i < 2 ^ 64"
  shows "aff_segment_ok (page_name i) (fst pg) (snd pg)"
proof -
  have "i < 10 ^ Suc 19" using assms(2) by simp
  then have "length (dec_string i) \<le> 20" using length_dec_string [of i 20] by simp
  then show ?thesis
    using assms(1) page_name_simps(2,3) [of i]
    by (auto simp: aff_segment_ok_def page_ok_def page_name_def)
qed

text \<open>The handle with a page in its buffer.\<close>

definition aaff_loaded :: "nat \<Rightarrow> bytes \<Rightarrow> t_aaff \<Rightarrow> bool" where
  "aaff_loaded i b a \<longleftrightarrow> af_CurrentPage a = i \<and> af_PageBuffDataLen a = length b \<and>
     take (length b) (af_pPageBuff a) = b"

lemma aaff_read_page_data_here:
  assumes ok: "page_ok u ps pg" and a: "af_PageSize a = ps" "length (af_pPageBuff a) = ps" "ps < 2 ^ 32"
    and r: "aaff_rest a = snd pg @ r"
  defines "c \<equiv> page_contents u ps pg"
  shows "aaff_read_page_data u a (fst pg) (length (snd pg)) = Some (AAFF_OK,
    (aaff_skip (length (snd pg)) a)\<lparr>af_pPageBuff := c @ drop (length c) (af_pPageBuff a),
      af_PageBuffDataLen := length c\<rparr>)"
proof -
  obtain arg d where pg: "pg = (arg, d)" by (cases pg)
  have rd: "AaffReadFile a (length d) = (AAFF_OK, d, aaff_skip (length d) a)"
    using AaffReadFile_here [OF r refl] ok by (simp add: page_ok_def pg)
  have c: "length c \<le> ps" using ok by (simp add: page_ok_def c_def)
  have st: "aaff_store c (aaff_skip n a) =
      Some ((aaff_skip n a)\<lparr>af_pPageBuff := c @ drop (length c) (af_pPageBuff a)\<rparr>)" for n
    using c a(2) by (simp add: aaff_store_def)
  consider "arg = 0" "c = d" | "arg = 51" "length d = 4" "c = replicate (be_val d) 0"
    | "arg = 1" "u d ps = (Z_OK, c)"
    using ok by (cases "u d ps") (auto simp: page_ok_def pg c_def page_contents_def)
  then show ?thesis
  proof cases
    case 1
    then show ?thesis using rd st by (simp add: aaff_read_page_data_def pg)
  next
    case 2
    then show ?thesis using rd st [of 4] by (simp add: aaff_read_page_data_def pg)
  next
    case 3
    then show ?thesis using rd st [of "length d"] c a(1,3) by (simp add: aaff_read_page_data_def pg u32_small)
  qed
qed

lemma AaffReadSegmentPage_other:
  assumes ok: "page_ok u ps pg" and i: "i < 2 ^ 64" "i \<noteq> p" and r: "aaff_rest a = page_bytes i pg @ r"
    and len: "length (f_data (aaff_file a)) < 2 ^ 63"
  shows "AaffReadSegmentPage u a p = Some (AAFF_OK, i, aaff_skip (length (page_bytes i pg)) a)"
proof -
  let ?n = "page_name i" and ?d = "snd pg"
  note r' = r [unfolded page_bytes_def] and s = page_segment_ok [OF ok i(1)]
  have "length (aaff_rest a) \<le> length (f_data (aaff_file a)) - f_pos (aaff_file a)"
    by (simp add: aaff_rest_def)
  then have pos: "f_pos (aaff_file a) + (16 + length ?n) + length ?d < 2 ^ 63"
    using arg_cong [OF r', of length] len by simp
  have "AaffSeekCur (aaff_skip (16 + length ?n) a) (length ?d) =
      (AAFF_OK, aaff_skip (16 + length ?n + length ?d) a)"
    using AaffSeekCur_here [of "aaff_skip (16 + length ?n) a" "length ?d"] pos by simp
  moreover have "aaff_read_footer (aaff_skip (16 + length ?n + length ?d) a) =
      (AAFF_OK, aaff_skip (24 + length ?n + length ?d) a)"
    using aaff_read_footer_here [OF rest_after_head(2) [OF r']] by (simp add: ac_simps)
  ultimately show ?thesis
    unfolding AaffReadSegmentPage_def aaff_read_head_here [OF r' s]
    using i page_name_simps [of i] page_number [OF i(1)]
    by (simp add: page_bytes_def)
qed

lemma AaffReadSegmentPage_found:
  assumes ok: "page_ok u ps pg" and i: "i < 2 ^ 64" and r: "aaff_rest a = page_bytes i pg @ r"
    and a: "af_PageSize a = ps" "length (af_pPageBuff a) = ps" "ps < 2 ^ 32"
  defines "c \<equiv> page_contents u ps pg"
  shows "AaffReadSegmentPage u a i = Some (AAFF_FOUND, i,
    (aaff_skip (length (page_bytes i pg)) a)\<lparr>af_pPageBuff := c @ drop (length c) (af_pPageBuff a),
      af_PageBuffDataLen := length c, af_CurrentPage := i\<rparr>)"
proof -
  let ?n = "page_name i" and ?d = "snd pg"
  note r' = r [unfolded page_bytes_def] and s = page_segment_ok [OF ok i]
  let ?a1 = "aaff_skip (16 + length ?n) a"
  let ?upd = "\<lambda>x. x\<lparr>af_pPageBuff := c @ drop (length c) (af_pPageBuff a),
      af_PageBuffDataLen := length c, af_CurrentPage := i\<rparr>"
  have d: "aaff_read_page_data u ?a1 (fst pg) (length ?d) = Some (AAFF_OK,
      (aaff_skip (16 + length ?n + length ?d) a)\<lparr>af_pPageBuff := c @ drop (length c) (af_pPageBuff a),
      af_PageBuffDataLen := length c\<rparr>)"
    using aaff_read_page_data_here [OF ok _ _ a(3) rest_after_head(1) [OF r']] a(1,2) by (simp add: c_def)
  have foot: "aaff_read_footer (?upd (aaff_skip m a)) = (AAFF_OK, ?upd (aaff_skip (8 + m) a))"
    if "aaff_rest (aaff_skip m a) = aff_foot_bytes ?n ?d @ r" for m
  proof -
    have "aaff_rest (?upd (aaff_skip m a)) = aff_foot_bytes ?n ?d @ r"
      using that by (simp add: aaff_rest_def aaff_file_def)
    from aaff_read_footer_here [OF this]
    show ?thesis by (simp add: aaff_skip_def aaff_file_def ac_simps)
  qed
  show ?thesis
    unfolding AaffReadSegmentPage_def aaff_read_head_here [OF r' s]
    using page_name_simps [of i] page_number [OF i] d foot [OF rest_after_head(2) [OF r']]
    by (simp add: page_bytes_def aaff_codes ac_simps)
qed


section \<open>The invariant of an opened handle\<close>

definition pages_bytes :: "aff_page list \<Rightarrow> nat \<Rightarrow> bytes" where
  "pages_bytes pages i = concat (map (\<lambda>k. page_bytes k (pages ! k)) [0..<i])"

definition page_pos :: "bytes \<Rightarrow> aff_page list \<Rightarrow> nat \<Rightarrow> nat" where
  "page_pos pre pages i = length pre + length (pages_bytes pages i)"

lemma page_pos_simps:
  "page_pos pre pages 0 = length pre"
  "page_pos pre pages (Suc i) = page_pos pre pages i + length (page_bytes i (pages ! i))"
  by (simp_all add: page_pos_def pages_bytes_def)

lemma pages_bytes_split:
  assumes "i < n"
  shows "pages_bytes pages n = pages_bytes pages i @ page_bytes i (pages ! i) @
    concat (map (\<lambda>k. page_bytes k (pages ! k)) [Suc i..<n])"
proof -
  have "[0..<n] = [0..<i] @ i # [Suc i..<n]"
    using assms by (metis le_add_same_cancel1 less_imp_le_nat upt_add_eq_append upt_conv_Cons
        le_add_diff_inverse zero_le)
  then show ?thesis by (simp add: pages_bytes_def)
qed

text \<open>The file, the geometry, and the positions that are known: everything but the current
  page.\<close>

definition aaff_core :: "zlib_uncompress \<Rightarrow> bytes \<Rightarrow> aff_page list \<Rightarrow> bytes \<Rightarrow> t_aaff \<Rightarrow> bool" where
  "aaff_core u pre pages post a \<longleftrightarrow>
     f_data (aaff_file a) = pre @ pages_bytes pages (length pages) @ post \<and>
     length (f_data (aaff_file a)) < 2 ^ 63 \<and> pre \<noteq> [] \<and> length pages < 2 ^ 31 \<and>
     (\<forall>pg \<in> set pages. page_ok u (af_PageSize a) pg) \<and> af_PageSize a < 2 ^ 32 \<and>
     length (af_pPageBuff a) = af_PageSize a \<and> af_TotalPages a = length pages \<and>
     0 < af_Interleave a \<and> (length pages - 1) div af_Interleave a < length (af_pPageSeekArr a) \<and>
     (\<forall>e < length (af_pPageSeekArr a). af_pPageSeekArr a ! e = 0 \<or>
        af_pPageSeekArr a ! e = page_pos pre pages (e * af_Interleave a)) \<and>
     af_pPageSeekArr a ! 0 \<noteq> 0"

definition aaff_at :: "zlib_uncompress \<Rightarrow> bytes \<Rightarrow> aff_page list \<Rightarrow> nat \<Rightarrow> t_aaff \<Rightarrow> bool" where
  "aaff_at u pre pages i a \<longleftrightarrow> i < length pages \<and>
     aaff_loaded i (page_contents u (af_PageSize a) (pages ! i)) a \<and>
     f_pos (aaff_file a) = page_pos pre pages (Suc i)"

definition aaff_inv :: "zlib_uncompress \<Rightarrow> bytes \<Rightarrow> aff_page list \<Rightarrow> bytes \<Rightarrow> t_aaff \<Rightarrow> bool" where
  "aaff_inv u pre pages post a \<longleftrightarrow> aaff_core u pre pages post a \<and>
     (af_CurrentPage a = AAFF_CURRENTPAGE_NOTSET \<or> aaff_at u pre pages (af_CurrentPage a) a)"

lemma aaff_coreD:
  assumes "aaff_core u pre pages post a"
  shows "f_data (aaff_file a) = pre @ pages_bytes pages (length pages) @ post"
    "length (f_data (aaff_file a)) < 2 ^ 63" "pre \<noteq> []" "length pages < 2 ^ 31"
    "i < length pages \<Longrightarrow> page_ok u (af_PageSize a) (pages ! i)" "af_PageSize a < 2 ^ 32"
    "length (af_pPageBuff a) = af_PageSize a" "af_TotalPages a = length pages"
    "0 < af_Interleave a" "(length pages - 1) div af_Interleave a < length (af_pPageSeekArr a)"
    "e < length (af_pPageSeekArr a) \<Longrightarrow> af_pPageSeekArr a ! e \<noteq> 0 \<Longrightarrow>
      af_pPageSeekArr a ! e = page_pos pre pages (e * af_Interleave a)"
    "af_pPageSeekArr a ! 0 \<noteq> 0"
  using assms unfolding aaff_core_def by (auto simp: all_set_conv_all_nth)

lemma aaff_entry_bound:
  assumes "aaff_core u pre pages post a" "i < length pages"
  shows "i div af_Interleave a < length (af_pPageSeekArr a)"
proof -
  have "i div af_Interleave a \<le> (length pages - 1) div af_Interleave a"
    using assms(2) by (intro div_le_mono) simp
  then show ?thesis using aaff_coreD(10) [OF assms(1)] by simp
qed

lemma aaff_page_rest:
  assumes "aaff_core u pre pages post a" "i < length pages" "f_pos (aaff_file a) = page_pos pre pages i"
  shows "\<exists>r. aaff_rest a = page_bytes i (pages ! i) @ r"
  using assms(3)
  by (simp add: aaff_rest_def aaff_coreD(1) [OF assms(1)] pages_bytes_split [OF assms(2)] page_pos_def)

text \<open>A handle with the same geometry over the same file, after the position of page \<open>i\<close> may
  have been noted.\<close>

definition aaff_note :: "nat \<Rightarrow> nat \<Rightarrow> t_aaff \<Rightarrow> t_aaff" where
  "aaff_note i Seek a =
     (if i mod af_Interleave a = 0
      then a\<lparr>af_pPageSeekArr := (af_pPageSeekArr a)[i div af_Interleave a := Seek]\<rparr> else a)"

lemma aaff_note_sel [simp]:
  "aaff_file (aaff_note i k a) = aaff_file a" "af_PageSize (aaff_note i k a) = af_PageSize a"
  "af_TotalPages (aaff_note i k a) = af_TotalPages a" "af_CurrentPage (aaff_note i k a) = af_CurrentPage a"
  "af_pPageBuff (aaff_note i k a) = af_pPageBuff a"
  "af_PageBuffDataLen (aaff_note i k a) = af_PageBuffDataLen a"
  "af_Interleave (aaff_note i k a) = af_Interleave a" "af_ImageSize (aaff_note i k a) = af_ImageSize a"
  by (simp_all add: aaff_note_def aaff_file_def)

lemma aaff_core_note:
  assumes c: "aaff_core u pre pages post a" and i: "i < length pages"
    and s: "af_PageSize a' = af_PageSize a" "af_TotalPages a' = af_TotalPages a"
      "af_Interleave a' = af_Interleave a" "af_pPageSeekArr a' = af_pPageSeekArr a"
      "length (af_pPageBuff a') = af_PageSize a" "f_data (aaff_file a') = f_data (aaff_file a)"
  shows "aaff_core u pre pages post (aaff_note i (page_pos pre pages i) a')"
proof (cases "i mod af_Interleave a = 0")
  case False
  then have n: "aaff_note i (page_pos pre pages i) a' = a'" using s by (simp add: aaff_note_def)
  show ?thesis using c unfolding n aaff_core_def s by blast
next
  case True
  let ?I = "af_Interleave a" and ?p = "page_pos pre pages i"
  let ?arr = "(af_pPageSeekArr a)[i div ?I := ?p]"
  have n: "aaff_note i ?p a' = a'\<lparr>af_pPageSeekArr := ?arr\<rparr>" using True s by (simp add: aaff_note_def)
  have pos: "i div ?I * ?I = i" using True by auto
  have "0 < ?p" using aaff_coreD(3) [OF c] by (simp add: page_pos_def)
  moreover have "\<forall>e < length ?arr. ?arr ! e = 0 \<or> ?arr ! e = page_pos pre pages (e * ?I)"
  proof (intro allI impI)
    fix e assume "e < length ?arr"
    then show "?arr ! e = 0 \<or> ?arr ! e = page_pos pre pages (e * ?I)"
      using aaff_coreD(11) [OF c, of e] pos by (cases "e = i div ?I") auto
  qed
  ultimately have arr: "(\<forall>e < length (af_pPageSeekArr a). ?arr ! e = 0 \<or>
      ?arr ! e = page_pos pre pages (e * ?I)) \<and> ?arr ! 0 \<noteq> 0"
    using aaff_coreD(12) [OF c] aaff_entry_bound [OF c i] by (cases "i div ?I = 0") auto
  have e: "aaff_file (a'\<lparr>af_pPageSeekArr := ?arr\<rparr>) = aaff_file a'"
    "af_PageSize (a'\<lparr>af_pPageSeekArr := ?arr\<rparr>) = af_PageSize a"
    "af_TotalPages (a'\<lparr>af_pPageSeekArr := ?arr\<rparr>) = af_TotalPages a"
    "af_Interleave (a'\<lparr>af_pPageSeekArr := ?arr\<rparr>) = ?I"
    "af_pPageSeekArr (a'\<lparr>af_pPageSeekArr := ?arr\<rparr>) = ?arr"
    "af_pPageBuff (a'\<lparr>af_pPageSeekArr := ?arr\<rparr>) = af_pPageBuff a'"
    using s by (simp_all add: aaff_file_def)
  show ?thesis
    using c arr unfolding n aaff_core_def e s(5,6) length_list_update by blast
qed

text \<open>The search from page \<open>q\<close> on.\<close>

lemma AaffReadPage_loop_finds:
  assumes "aaff_core u pre pages post a" "q \<le> p" "p < length pages"
    and "f_pos (aaff_file a) = page_pos pre pages q"
  shows "\<exists>a'. AaffReadPage_loop u p (Suc (p - q)) a = Some (AAFF_OK, a') \<and>
    aaff_core u pre pages post a' \<and> af_CurrentPage a' = p \<and> aaff_at u pre pages p a' \<and>
    af_PageSize a' = af_PageSize a \<and> af_ImageSize a' = af_ImageSize a"
  using assms
proof (induction "p - q" arbitrary: q a)
  case 0
  then have q: "q = p" by simp
  note c = "0.prems"(1) and p = "0.prems"(3)
  let ?pg = "pages ! p"
  define b where "b = page_contents u (af_PageSize a) ?pg"
  have i64: "p < 2 ^ 64" using p aaff_coreD(4) [OF c] by simp
  obtain r where r: "aaff_rest a = page_bytes p ?pg @ r"
    using aaff_page_rest [OF c p] "0.prems"(4) q by auto
  define a1 where "a1 = (aaff_skip (length (page_bytes p ?pg)) a)
    \<lparr>af_pPageBuff := b @ drop (length b) (af_pPageBuff a), af_PageBuffDataLen := length b, af_CurrentPage := p\<rparr>"
  have x: "AaffReadSegmentPage u a p = Some (AAFF_FOUND, p, a1)"
    using AaffReadSegmentPage_found [OF aaff_coreD(5) [OF c p] i64 r refl aaff_coreD(7,6) [OF c]]
    by (simp add: a1_def b_def)
  have b: "length b \<le> af_PageSize a" using aaff_coreD(5) [OF c p] by (simp add: page_ok_def b_def)
  have a1: "af_PageSize a1 = af_PageSize a" "af_TotalPages a1 = af_TotalPages a"
    "af_Interleave a1 = af_Interleave a" "af_pPageSeekArr a1 = af_pPageSeekArr a"
    "length (af_pPageBuff a1) = af_PageSize a" "f_data (aaff_file a1) = f_data (aaff_file a)"
    "af_ImageSize a1 = af_ImageSize a" "f_pos (aaff_file a1) = page_pos pre pages (Suc p)"
    "take (length b) (af_pPageBuff a1) = b" "af_PageBuffDataLen a1 = length b" "af_CurrentPage a1 = p"
    using b aaff_coreD(7) [OF c] "0.prems"(4) q
    by (simp_all add: a1_def aaff_file_def page_pos_simps aaff_skip_def)
  have "AaffReadPage_loop u p (Suc (p - q)) a = Some (AAFF_OK, aaff_note p (page_pos pre pages p) a1)"
    using aaff_entry_bound [OF c p] aaff_coreD(9) [OF c] "0.prems"(4) q
    by (simp add: x a1 aaff_note_def AaffGetCurrentSeekPos_def ftello_def aaff_codes Let_def)
  moreover have "aaff_core u pre pages post (aaff_note p (page_pos pre pages p) a1)"
    by (rule aaff_core_note [OF c p a1(1-6)])
  moreover have "aaff_at u pre pages p (aaff_note p (page_pos pre pages p) a1)"
    using a1 p by (simp add: aaff_at_def aaff_loaded_def b_def)
  ultimately show ?case using a1 by auto
next
  case (Suc k)
  note c = Suc.prems(1)
  have q: "q < p" "q < length pages" using Suc.hyps(2) Suc.prems(3) by simp_all
  have q64: "q < 2 ^ 64" using q aaff_coreD(4) [OF c] by simp
  let ?pg = "pages ! q"
  obtain r where r: "aaff_rest a = page_bytes q ?pg @ r"
    using aaff_page_rest [OF c q(2) Suc.prems(4)] by blast
  define a1 where "a1 = aaff_skip (length (page_bytes q ?pg)) a"
  have x: "AaffReadSegmentPage u a p = Some (AAFF_OK, q, a1)"
    using AaffReadSegmentPage_other [OF aaff_coreD(5) [OF c q(2)] q64 _ r aaff_coreD(2) [OF c]] q(1)
    by (simp add: a1_def)
  define a2 where "a2 = aaff_note q (page_pos pre pages q) a1"
  have c2: "aaff_core u pre pages post a2"
    unfolding a2_def using aaff_coreD(7) [OF c] by (intro aaff_core_note [OF c q(2)]) (simp_all add: a1_def aaff_skip_def aaff_file_def)
  have pos: "f_pos (aaff_file a2) = page_pos pre pages (Suc q)"
    using Suc.prems(4) by (simp add: a2_def a1_def page_pos_simps)
  have "AaffReadPage_loop u p (Suc (p - q)) a = AaffReadPage_loop u p (p - q) a2"
    using aaff_entry_bound [OF c q(2)] aaff_coreD(9) [OF c] Suc.prems(4)
    by (simp add: x a2_def a1_def aaff_note_def AaffGetCurrentSeekPos_def ftello_def aaff_codes Let_def aaff_skip_def)
  moreover have "p - q = Suc (p - Suc q)" using q(1) by simp
  moreover have "af_PageSize a2 = af_PageSize a" "af_ImageSize a2 = af_ImageSize a"
    by (simp_all add: a2_def a1_def)
  ultimately show ?case
    using Suc.hyps(1) [OF _ c2 _ Suc.prems(3) pos] Suc.hyps(2) q(1) by auto
qed


lemma aaff_find_entry_ok:
  "arr ! 0 \<noteq> 0 \<Longrightarrow> \<exists>e' \<le> e. aaff_find_entry arr e = Some e' \<and> arr ! e' \<noteq> 0"
proof (induction e)
  case 0
  then show ?case by (subst aaff_find_entry.simps) simp
next
  case (Suc e)
  then obtain e' where "e' \<le> e" "aaff_find_entry arr e = Some e'" "arr ! e' \<noteq> 0" by blast
  then show ?case by (subst aaff_find_entry.simps) auto
qed

text \<open>\<open>AaffReadPage\<close> loads every page, whatever has been read before.\<close>

lemma AaffReadPage_ok:
  assumes inv: "aaff_inv u pre pages post a" and p: "p < length pages"
  shows "\<exists>a'. AaffReadPage u a p = Some (AAFF_OK, a') \<and> aaff_inv u pre pages post a' \<and>
    af_CurrentPage a' = p \<and> aaff_at u pre pages p a' \<and>
    af_PageSize a' = af_PageSize a \<and> af_ImageSize a' = af_ImageSize a"
proof -
  have c: "aaff_core u pre pages post a" using inv by (simp add: aaff_inv_def)
  note cD = aaff_coreD [OF c]
  have total: "\<not> af_TotalPages a \<le> p" using cD(8) p by simp
  have ns: "p \<noteq> AAFF_CURRENTPAGE_NOTSET" using p cD(4) by (simp add: AAFF_CURRENTPAGE_NOTSET_def)
  have fin: ?thesis if "AaffReadPage u a p = Some (AAFF_OK, a')" "aaff_core u pre pages post a'"
    "af_CurrentPage a' = p" "aaff_at u pre pages p a'" "af_PageSize a' = af_PageSize a"
    "af_ImageSize a' = af_ImageSize a" for a'
    using that by (auto simp: aaff_inv_def)
  consider (same) "af_CurrentPage a = p"
    | (succ) "af_CurrentPage a \<noteq> p" "af_CurrentPage a \<noteq> AAFF_CURRENTPAGE_NOTSET" "u64 (af_CurrentPage a + 1) = p"
    | (seek) "af_CurrentPage a \<noteq> p" "\<not> (af_CurrentPage a \<noteq> AAFF_CURRENTPAGE_NOTSET \<and> u64 (af_CurrentPage a + 1) = p)"
    by blast
  then show ?thesis
  proof cases
    case same
    then have "aaff_at u pre pages p a" using inv ns by (auto simp: aaff_inv_def)
    then show ?thesis using same total c by (intro fin [of a]) (simp_all add: AaffReadPage_def)
  next
    case succ
    then have "aaff_at u pre pages (af_CurrentPage a) a" using inv by (auto simp: aaff_inv_def)
    then have "f_pos (aaff_file a) = page_pos pre pages (Suc (af_CurrentPage a))" "af_CurrentPage a < length pages"
      by (auto simp: aaff_at_def)
    moreover from this(2) have "u64 (af_CurrentPage a + 1) = Suc (af_CurrentPage a)"
      using cD(4) by (simp add: u64_small)
    ultimately have "f_pos (aaff_file a) = page_pos pre pages p" using succ(3) by simp
    from AaffReadPage_loop_finds [OF c order.refl p this] show ?thesis
      using succ total fin by (auto simp: AaffReadPage_def simp del: AaffReadPage_loop.simps)
  next
    case seek
    obtain e where e: "e \<le> p div af_Interleave a" "aaff_find_entry (af_pPageSeekArr a) (p div af_Interleave a) = Some e"
      "af_pPageSeekArr a ! e \<noteq> 0"
      using aaff_find_entry_ok [OF cD(12)] by blast
    let ?q = "e * af_Interleave a"
    have q: "?q \<le> p" using e(1) by (metis div_times_less_eq_dividend mult_le_mono1 order.trans)
    have pos: "af_pPageSeekArr a ! e = page_pos pre pages ?q"
      using cD(11) [of e] e(1,3) aaff_entry_bound [OF c p] by simp
    have "page_pos pre pages ?q \<le> length (f_data (aaff_file a))"
      using q p pages_bytes_split [of ?q "length pages" pages]
      by (simp add: page_pos_def cD(1))
    then have seek63: "page_pos pre pages ?q < 2 ^ 63" using cD(2) by simp
    define a1 where "a1 = a\<lparr>af_pFile := Some ((aaff_file a)\<lparr>f_pos := page_pos pre pages ?q\<rparr>)\<rparr>"
    have s: "snd (AaffSeekSet a (af_pPageSeekArr a ! e)) = a1"
      using seek63 by (simp add: AaffSeekSet_def fseeko_set_def pos a1_def)
    have c1: "aaff_core u pre pages post a1" "f_pos (aaff_file a1) = page_pos pre pages ?q"
    proof -
      have e: "f_data (aaff_file a1) = f_data (aaff_file a)" "af_PageSize a1 = af_PageSize a"
        "af_pPageBuff a1 = af_pPageBuff a" "af_TotalPages a1 = af_TotalPages a"
        "af_Interleave a1 = af_Interleave a" "af_pPageSeekArr a1 = af_pPageSeekArr a"
        by (simp_all add: a1_def aaff_file_def)
      show "aaff_core u pre pages post a1" using c unfolding aaff_core_def e .
      show "f_pos (aaff_file a1) = page_pos pre pages ?q" by (simp add: a1_def aaff_file_def)
    qed
    have u: "u64 ?q = ?q" "sub64 p ?q = p - ?q" using q p cD(4) by (simp_all add: u64_small sub64_small)
    have h: "int_of_size (p - ?q + 1) = int (Suc (p - ?q))" using p cD(4) by (simp add: int_of_size_small)
    have nz: "\<not> (af_Interleave a = 0 \<or> length (af_pPageSeekArr a) \<le> p div af_Interleave a)"
      using cD(9) aaff_entry_bound [OF c p] by simp
    have "AaffReadPage u a p = AaffReadPage_loop u p (Suc (p - ?q)) a1"
      unfolding AaffReadPage_def if_not_P [OF total] if_not_P [OF seek(1) [symmetric]] if_not_P [OF seek(2)]
        if_not_P [OF nz] e(2) option.case s u h Let_def nat_int
      by simp
    moreover have "af_PageSize a1 = af_PageSize a" "af_ImageSize a1 = af_ImageSize a" by (simp_all add: a1_def)
    ultimately show ?thesis
      using AaffReadPage_loop_finds [OF c1(1) q p c1(2)] fin by auto
  qed
qed

section \<open>Reads\<close>

definition aaff_contents :: "zlib_uncompress \<Rightarrow> nat \<Rightarrow> aff_page list \<Rightarrow> bytes" where
  "aaff_contents u ps pages = concat (map (page_contents u ps) pages)"

text \<open>All pages but the last are full, and the image has their length.\<close>

definition pages_full :: "zlib_uncompress \<Rightarrow> nat \<Rightarrow> aff_page list \<Rightarrow> bool" where
  "pages_full u ps pages \<longleftrightarrow>
     (\<forall>i. Suc i < length pages \<longrightarrow> length (page_contents u ps (pages ! i)) = ps)"

text \<open>The loop cannot succeed: with a \<open>Count\<close> that is not 0 it ends with an error.\<close>

lemma AaffRead_loop_fails:
  "AaffRead_loop u n a p o' rem buf = Some (ret, b, a') \<Longrightarrow> 0 < n \<Longrightarrow> ret \<noteq> AAFF_OK"
proof (induction u n a p o' rem buf rule: AaffRead_loop.induct)
  case (1 u n a p o' rem buf)
  obtain r1 a1 where x: "AaffReadPage u a p = Some (r1, a1)"
    using "1.prems" by (subst (asm) AaffRead_loop.simps) (auto split: option.splits)
  show ?case
  proof (cases "r1 = AAFF_OK \<and> af_PageBuffDataLen a1 \<noteq> 0")
    case False
    then show ?thesis
      using "1.prems" x by (subst (asm) AaffRead_loop.simps) (auto simp: aaff_codes split: if_splits)
  next
    case True
    then show ?thesis
      using "1.prems" x "1.IH" [OF _ x refl _ _ refl]
      by (subst (asm) AaffRead_loop.simps) (auto simp: Let_def split: if_splits)
  qed
qed

text \<open>What it has stored by then, in a well-formed file: from page \<open>p\<close> on, \<open>rem\<close> bytes from
  offset \<open>o'\<close> of the page.\<close>

lemma AaffRead_loop_stores:
  assumes "aaff_inv u pre pages post a" "pages_full u (af_PageSize a) pages" "0 < n"
    and "rem + o' \<le> length (concat (map (page_contents u (af_PageSize a)) (drop p pages)))"
    and "o' < af_PageSize a" "rem = 0 \<longrightarrow> o' = 0" "p \<le> length pages"
  shows "\<exists>a'. AaffRead_loop u n a p o' rem buf =
    Some (AAFF_READ_BEYOND_LAST_PAGE,
      buf @ segment o' rem (concat (map (page_contents u (af_PageSize a)) (drop p pages))), a') \<and>
    aaff_inv u pre pages post a' \<and> af_PageSize a' = af_PageSize a \<and> af_ImageSize a' = af_ImageSize a"
  using assms
proof (induction "length pages - p" arbitrary: a p o' rem buf)
  case 0
  then have p: "p = length pages" by simp
  have "AaffReadPage u a p = Some (AAFF_READ_BEYOND_LAST_PAGE, a)"
    using aaff_coreD(8) [of u pre pages post a] "0.prems"(1) p by (simp add: AaffReadPage_def aaff_inv_def)
  then show ?case
    using "0.prems"(1,3,4) p by (subst AaffRead_loop.simps) (simp add: aaff_codes)
next
  case (Suc k)
  have p: "p < length pages" using Suc.hyps(2) by simp
  let ?ps = "af_PageSize a"
  let ?c = "page_contents u ?ps (pages ! p)"
  have c: "aaff_core u pre pages post a" using Suc.prems(1) by (simp add: aaff_inv_def)
  have ok: "0 < length ?c" "length ?c \<le> ?ps" "?ps < 2 ^ 32"
    using aaff_coreD(5) [OF c p] aaff_coreD(6) [OF c] by (auto simp: page_ok_def)
  have dr: "drop p pages = pages ! p # drop (Suc p) pages" using p by (simp add: Cons_nth_drop_Suc)
  let ?rest = "concat (map (page_contents u ?ps) (drop (Suc p) pages))"
  have cc: "concat (map (page_contents u ?ps) (drop p pages)) = ?c @ ?rest" by (simp add: dr)
  have lastp: "length ?c = ?ps \<or> ?rest = []"
    using Suc.prems(2) p by (cases "Suc p < length pages") (auto simp: pages_full_def)
  have o': "o' \<le> length ?c"
  proof (cases "length ?c = ?ps")
    case True
    then show ?thesis using Suc.prems(5) by simp
  next
    case False
    then have "?rest = []" using lastp by blast
    then have "length ?rest = length ([] :: bytes)" by (rule arg_cong)
    then have "length ?rest = 0" by (simp only: list.size)
    then show ?thesis using Suc.prems(4) unfolding cc length_append by linarith
  qed
  obtain a1 where a1: "AaffReadPage u a p = Some (AAFF_OK, a1)" "aaff_inv u pre pages post a1"
    "aaff_at u pre pages p a1" "af_PageSize a1 = ?ps" "af_ImageSize a1 = af_ImageSize a"
    using AaffReadPage_ok [OF Suc.prems(1) p] by blast
  have ld: "af_PageBuffDataLen a1 = length ?c" "take (length ?c) (af_pPageBuff a1) = ?c"
    using a1(3,4) by (auto simp: aaff_at_def aaff_loaded_def)
  define t where "t = min (length ?c - o') rem"
  have t: "u32 (min (sub32 (length ?c) o') rem) = t"
    using o' ok by (simp add: sub32_small u32_small t_def)
  have tl: "t \<le> rem" "o' + t \<le> length ?c" "rem \<noteq> t \<Longrightarrow> o' + t = length ?c"
    using o' by (auto simp: t_def)
  have len: "length (af_pPageBuff a1) = ?ps"
    using a1(2,4) aaff_coreD(7) [of u pre pages post a1] by (simp add: aaff_inv_def)
  have seg: "segment o' t (af_pPageBuff a1) = segment o' t ?c"
    using ld(2) tl(2) by (metis segment_append_left append_take_drop_id)
  have step: "AaffRead_loop u n a p o' rem buf = AaffRead_loop u n a1 (p + 1) 0 (rem - t) (buf @ segment o' t ?c)"
    using Suc.prems(3) a1(1) ld(1) ok tl(2) len
    by (subst AaffRead_loop.simps) (simp add: t seg Let_def)
  have room: "rem - t \<le> length ?rest"
  proof (cases "rem = t")
    case False
    then show ?thesis using tl(3) Suc.prems(4) cc by simp
  qed simp
  have "\<exists>a'. AaffRead_loop u n a1 (p + 1) 0 (rem - t) (buf @ segment o' t ?c) =
      Some (AAFF_READ_BEYOND_LAST_PAGE, (buf @ segment o' t ?c) @ segment 0 (rem - t) ?rest, a') \<and>
    aaff_inv u pre pages post a' \<and> af_PageSize a' = ?ps \<and> af_ImageSize a' = af_ImageSize a"
    using Suc.hyps(1) [of "p + 1" a1 "rem - t" 0 "buf @ segment o' t ?c"] Suc.hyps(2) Suc.prems(2,3,5) a1 p room
    by simp
  moreover have "segment o' t ?c @ segment 0 (rem - t) ?rest = segment o' rem (?c @ ?rest)"
  proof (cases "rem = t")
    case True
    then show ?thesis using tl(2) by (simp add: segment_append_left)
  next
    case False
    then have "o' + t = length ?c" "t \<le> rem" using tl by auto
    then show ?thesis
      using segment_split [of t rem o' "?c @ ?rest"]
      by (simp add: segment_append_left segment_append_right)
  qed
  ultimately show ?case using step cc by simp
qed


lemma length_concat_le:
  "(\<And>x. x \<in> set xss \<Longrightarrow> length x \<le> k) \<Longrightarrow> length (concat xss) \<le> length xss * k"
  by (induction xss) (simp_all add: add_mono)

lemma AaffRead_ok:
  assumes inv: "aaff_inv u pre pages post a" and full: "pages_full u (af_PageSize a) pages"
    and len: "length (aaff_contents u (af_PageSize a) pages) = af_ImageSize a" "af_ImageSize a < 2 ^ 63"
    and n: "0 < n" "off + n \<le> af_ImageSize a"
  shows "\<exists>a'. AaffRead u a (int off) n = Some (\<lparr>rr_ret = AAFF_READ_BEYOND_LAST_PAGE,
      rr_buf = segment off n (aaff_contents u (af_PageSize a) pages), rr_read = n, rr_errno = 5\<rparr>, a') \<and>
    aaff_inv u pre pages post a' \<and> af_PageSize a' = af_PageSize a \<and> af_ImageSize a' = af_ImageSize a"
proof -
  let ?ps = "af_PageSize a" and ?c = "aaff_contents u (af_PageSize a) pages"
  let ?p = "off div ?ps" and ?o = "off mod ?ps"
  have c: "aaff_core u pre pages post a" using inv by (simp add: aaff_inv_def)
  have ok: "\<And>i. i < length pages \<Longrightarrow> length (page_contents u ?ps (pages ! i)) \<le> ?ps"
    using aaff_coreD(5) [OF c] by (simp add: page_ok_def)
  have ne: "pages \<noteq> []" using n len by (auto simp: aaff_contents_def)
  then have "0 < length (page_contents u ?ps (pages ! 0))"
    using aaff_coreD(5) [OF c, of 0] unfolding page_ok_def by blast
  also have "\<dots> \<le> ?ps" using ne by (intro ok) simp
  finally have ps: "0 < ?ps" .
  have tk: "concat (map (page_contents u ?ps) (take p pages)) = take (p * ?ps) ?c \<and>
      concat (map (page_contents u ?ps) (drop p pages)) = drop (p * ?ps) ?c" if "p < length pages" for p
    using that
  proof (induction p)
    case (Suc p)
    let ?x = "page_contents u ?ps (pages ! p)" and ?D = "\<lambda>q. concat (map (page_contents u ?ps) (drop q pages))"
    have x: "length ?x = ?ps" using full Suc.prems by (simp add: pages_full_def)
    have D: "?D p = ?x @ ?D (Suc p)"
      using Suc.prems by (simp add: Cons_nth_drop_Suc [symmetric] Suc_lessD)
    have T: "concat (map (page_contents u ?ps) (take (Suc p) pages)) =
        concat (map (page_contents u ?ps) (take p pages)) @ ?x"
      using Suc.prems by (simp add: take_Suc_conv_app_nth)
    have IH: "concat (map (page_contents u ?ps) (take p pages)) = take (p * ?ps) ?c" "?D p = drop (p * ?ps) ?c"
      using Suc by simp_all
    have e: "Suc p * ?ps = p * ?ps + ?ps" by simp
    have "take (Suc p * ?ps) ?c = take (p * ?ps) ?c @ take ?ps (?D p)"
      unfolding e take_add IH(2) ..
    also have "take ?ps (?D p) = ?x" unfolding D using x by simp
    finally have 1: "take (Suc p * ?ps) ?c = take (p * ?ps) ?c @ ?x" .
    have "drop (Suc p * ?ps) ?c = drop ?ps (?D p)"
      unfolding e IH(2) by (simp add: drop_drop add.commute)
    also have "\<dots> = ?D (Suc p)" unfolding D using x by simp
    finally show ?case using 1 T IH(1) by simp
  qed (simp add: aaff_contents_def)
  have p: "?p < length pages"
  proof (rule ccontr)
    assume "\<not> ?p < length pages"
    then have le: "length pages \<le> ?p" by simp
    have "length ?c \<le> length pages * ?ps"
    proof -
      have "\<forall>pg \<in> set pages. length (page_contents u ?ps pg) \<le> ?ps"
        using ok by (metis in_set_conv_nth)
      then have "length x \<le> ?ps" if "x \<in> set (map (page_contents u ?ps) pages)" for x
        using that by auto
      from length_concat_le [of "map (page_contents u ?ps) pages" ?ps, OF this] show ?thesis
        by (simp add: aaff_contents_def)
    qed
    also have "\<dots> \<le> ?p * ?ps" using le by simp
    also have "\<dots> \<le> off" by simp
    finally show False using n len by simp
  qed
  have d: "drop (?p * ?ps) ?c = concat (map (page_contents u ?ps) (drop ?p pages))"
    using tk [OF p] by simp
  have seg: "segment ?o n (drop (?p * ?ps) ?c) = segment off n ?c"
    by (simp add: segment_def add.commute)
  have u: "u64 (off + n) = off + n" using n len by (intro u64_small) simp
  have "n + ?o \<le> length (drop (?p * ?ps) ?c)"
  proof -
    have "?p * ?ps + ?o = off" by simp
    then show ?thesis using n(2) len(1) unfolding length_drop by linarith
  qed
  from AaffRead_loop_stores [OF inv full n(1), of n ?o ?p "[]", folded d] this p ps n(1)
  obtain a' where "AaffRead_loop u n a ?p ?o n [] =
      Some (AAFF_READ_BEYOND_LAST_PAGE, segment off n ?c, a')" "aaff_inv u pre pages post a'"
      "af_PageSize a' = ?ps" "af_ImageSize a' = af_ImageSize a"
    by (auto simp: seg)
  then show ?thesis
    using n ps len(1) by (auto simp: AaffRead_def u Let_def aaff_result_def AaffCheckError_def aaff_codes)
qed

lemma AaffRead_fails:
  assumes "AaffRead u a Seek Count = Some (r, a')" "0 \<le> Seek" "nat Seek < af_ImageSize a" "0 < Count"
  shows "rr_ret r \<noteq> AAFF_OK"
proof -
  define n where "n = (if u64 (nat Seek + Count) > af_ImageSize a then af_ImageSize a - nat Seek else Count)"
  have "0 < n" using assms(3,4) by (simp add: n_def)
  moreover obtain ret b where "AaffRead_loop u n a (nat Seek div af_PageSize a) (nat Seek mod af_PageSize a) n [] =
      Some (ret, b, a')" "rr_ret r = ret"
    using assms unfolding AaffRead_def Let_def n_def [symmetric]
    by (auto simp: aaff_result_def split: if_splits)
  ultimately show ?thesis using AaffRead_loop_fails by blast
qed


section \<open>64-bit numbers in the header\<close>

definition high_bits :: "nat \<Rightarrow> 64 word \<Rightarrow> bool" where
  "high_bits k v \<longleftrightarrow> (\<forall>n. k \<le> n \<longrightarrow> n < 64 \<longrightarrow> bit v n)"

lemma bit_aaff_u64_step:
  "n < 64 \<Longrightarrow> bit (aaff_u64_step v b) n \<longleftrightarrow>
     (8 \<le> n \<and> bit v (n - 8)) \<or> bit b (min 7 n)"
  by (auto simp: aaff_u64_step_def bit_or_iff bit_push_bit_iff bit_signed_iff)

lemma high_bits_step: "high_bits k v \<Longrightarrow> high_bits (k + 8) (aaff_u64_step v b)"
  by (auto simp: high_bits_def bit_aaff_u64_step)

lemma high_bits_fold: "high_bits k v \<Longrightarrow> high_bits (k + 8 * length bs) (foldl aaff_u64_step v bs)"
proof (induction bs arbitrary: k v)
  case (Cons b bs)
  from Cons.IH [OF high_bits_step [OF Cons.prems, of b]] show ?case by (simp add: ac_simps)
qed simp

lemma bit_7_u8: "bit (b :: u8) 7 \<longleftrightarrow> 128 \<le> unat b"
proof -
  have "bit b 7 \<longleftrightarrow> bit (unat b) 7" by (simp add: bit_unsigned_iff)
  also have "\<dots> \<longleftrightarrow> odd (unat b div 128)" by (simp add: bit_iff_odd)
  also have "\<dots> \<longleftrightarrow> 128 \<le> unat b"
  proof (cases "128 \<le> unat b")
    case True
    have "unat b < 256" by (rule unat_u8_less)
    then have "unat b div 128 = 1" using True by (simp add: div_nat_eqI)
    then show ?thesis using True by simp
  next
    case False
    then show ?thesis by simp
  qed
  finally show ?thesis .
qed

lemma high_bits_new: "128 \<le> unat b \<Longrightarrow> high_bits 7 (aaff_u64_step v b)"
  using bit_7_u8 [of b] by (auto simp: high_bits_def bit_aaff_u64_step dest: le_neq_implies_less)

lemma high_bits_63:
  assumes "high_bits 63 v"
  shows "2 ^ 63 \<le> unat v"
proof -
  have "bit (unat v) 63" using assms by (simp add: high_bits_def bit_unsigned_iff)
  then have "odd (unat v div 2 ^ 63)" by (simp add: bit_iff_odd)
  then show ?thesis by (metis div_less even_zero leI)
qed

lemma aaff_u64_fold_high:
  assumes "length bs = 8" "\<exists>b \<in> set bs. 128 \<le> unat b"
  shows "2 ^ 63 \<le> unat (foldl aaff_u64_step v bs)"
proof -
  obtain b where "b \<in> set bs" "128 \<le> unat b" using assms(2) by blast
  then obtain xs ys where bs: "bs = xs @ b # ys" and b: "128 \<le> unat b" by (auto simp: in_set_conv_decomp)
  have "high_bits (7 + 8 * length ys) (foldl aaff_u64_step v bs)"
    unfolding bs using high_bits_fold [OF high_bits_new [OF b]] by simp
  moreover have "length ys \<le> 7" using assms(1) bs by simp
  ultimately have "high_bits 63 (foldl aaff_u64_step v bs)" by (auto simp: high_bits_def)
  then show ?thesis by (rule high_bits_63)
qed

lemma aaff_u64_step_low:
  assumes "unat b < 128" "unat v < 2 ^ 56"
  shows "unat (aaff_u64_step v b) = unat v * 256 + unat b"
proof -
  have sgn: "\<not> bit b 7" using assms(1) bit_7_u8 [of b] by simp
  have len: "bit b n \<Longrightarrow> n < 8" for n using bit_imp_le_length [of b n] by simp
  have s: "(signed b :: 64 word) = unsigned b"
  proof (rule bit_word_eqI)
    fix n assume "n < LENGTH(64)"
    then show "bit (signed b :: 64 word) n = bit (unsigned b :: 64 word) n"
      using sgn len [of n]
      by (cases "n \<le> 7") (auto simp: bit_signed_iff bit_unsigned_iff)
  qed
  have "unat v * 256 < 2 ^ 64" using assms(2) by simp
  then have p: "unat (push_bit 8 v) = unat v * 256"
    unfolding unsigned_push_bit_eq by (simp add: push_bit_eq_mult take_bit_eq_mod)
  have ub: "unat (unsigned b :: 64 word) = unat b"
    using unat_u8_less [of b] by (simp add: unsigned_ucast_eq take_bit_eq_mod)
  have "push_bit 8 v AND unsigned b = 0"
    by (rule bit_word_eqI) (auto simp: bit_and_iff bit_push_bit_iff bit_unsigned_iff dest: len)
  then have e: "aaff_u64_step v b = push_bit 8 v + unsigned b"
    by (simp add: aaff_u64_step_def s disjunctive_add_eq_or)
  have "unat v * 256 + unat b < 2 ^ 64" using assms by simp
  then show ?thesis unfolding e by (subst unat_add_lem [THEN iffD1]) (simp_all add: p ub)
qed

lemma aaff_u64_fold_low:
  assumes "\<forall>b \<in> set bs. unat b < 128" "length bs \<le> 8"
  shows "unat (foldl aaff_u64_step 0 bs) = be_val bs"
  using assms
proof (induction bs rule: rev_induct)
  case Nil
  then show ?case by (simp add: be_val_def)
next
  case (snoc b bs)
  have "unat (foldl aaff_u64_step 0 bs) = be_val bs" using snoc by simp
  moreover have "be_val bs < 2 ^ 56"
  proof -
    have "be_val bs < 256 ^ length bs" by (rule be_val_less)
    also have "\<dots> \<le> 256 ^ 7" using snoc.prems(2) by (intro power_increasing) auto
    finally show ?thesis by simp
  qed
  ultimately show ?case
    using snoc.prems(1) by (simp add: aaff_u64_step_low be_val_def)
qed

text \<open>The value that the two 32-bit halves of the field stand for.\<close>

definition aff_u64_value :: "bytes \<Rightarrow> nat" where
  "aff_u64_value d = be_val (segment 4 4 d @ segment 0 4 d)"

lemma AaffU64_cases:
  assumes "length d = 8"
  shows "(\<forall>b \<in> set d. unat b < 128) \<Longrightarrow> AaffU64 d = aff_u64_value d"
    "(\<exists>b \<in> set d. 128 \<le> unat b) \<Longrightarrow> 2 ^ 63 \<le> AaffU64 d"
proof -
  let ?bs = "segment 4 4 d @ segment 0 4 d"
  have set: "set ?bs = set d"
  proof -
    have "d = segment 0 4 d @ segment 4 4 d" using assms by (simp add: segment_def)
    then show ?thesis by (metis set_append sup_commute)
  qed
  show "AaffU64 d = aff_u64_value d" if "\<forall>b \<in> set d. unat b < 128"
    using aaff_u64_fold_low [of ?bs] that set assms by (simp add: AaffU64_def aff_u64_value_def)
  show "2 ^ 63 \<le> AaffU64 d" if "\<exists>b \<in> set d. 128 \<le> unat b"
    using aaff_u64_fold_high [of ?bs 0] that set assms by (simp add: AaffU64_def)
qed


section \<open>Opening\<close>

text \<open>A header segment: name, argument and data.\<close>

type_synonym aff_header = "bytes \<times> nat \<times> bytes"

definition header_bytes :: "aff_header \<Rightarrow> bytes" where
  "header_bytes h = (case h of (name, arg, d) \<Rightarrow> aff_segment_bytes name arg d)"

definition header_seg :: "aff_header \<Rightarrow> aff_segment" where
  "header_seg h = (case h of (name, arg, d) \<Rightarrow> \<lparr>sg_Name = name, sg_Arg = arg, sg_Data = d\<rparr>)"

definition header_ok :: "aff_header \<Rightarrow> bool" where
  "header_ok h \<longleftrightarrow> (case h of (name, arg, d) \<Rightarrow> aff_segment_ok name arg d) \<and>
     \<not> aaff_is_page (header_seg h)"

text \<open>What the header segments make of a handle.\<close>

fun aaff_open_segments :: "aff_header list \<Rightarrow> t_aaff \<Rightarrow> t_aaff option" where
  "aaff_open_segments [] a = Some a"
| "aaff_open_segments (h # hs) a =
     (case aaff_open_segment (header_seg h) a of None \<Rightarrow> None | Some a1 \<Rightarrow> aaff_open_segments hs a1)"

definition with_file :: "string \<Rightarrow> cfile \<Rightarrow> t_aaff \<Rightarrow> t_aaff" where
  "with_file name f a = a\<lparr>af_pFilename := Some name, af_pFile := Some f\<rparr>"

lemma aaff_open_segment_file:
  "aaff_open_segment seg (with_file name f a) = map_option (with_file name f) (aaff_open_segment seg a)"
  by (simp add: aaff_open_segment_def aaff_info_def with_file_def Let_def split: option.split)

lemma with_file_skip [simp]: "aaff_skip n (with_file name f a) = with_file name (f\<lparr>f_pos := f_pos f + n\<rparr>) a"
  by (simp add: aaff_skip_def with_file_def aaff_file_def)

lemma with_file_rest [simp]: "aaff_rest (with_file name f a) = drop (f_pos f) (f_data f)"
  by (simp add: aaff_rest_def with_file_def aaff_file_def)

lemma with_file_pos [simp]: "AaffGetCurrentSeekPos (with_file name f a) = f_pos f"
  by (simp add: AaffGetCurrentSeekPos_def with_file_def aaff_file_def ftello_def)

lemma aaff_is_page_name: "aaff_is_page \<lparr>sg_Name = page_name i, sg_Arg = x, sg_Data = d\<rparr>"
proof -
  have "page_name i \<noteq> string_bytes ''pagesize''"
  proof
    assume "page_name i = string_bytes ''pagesize''"
    then have "map (\<lambda>b. char_of (unat b)) (page_name i) = ''pagesize''" by (simp only: string_bytes_back)
    then have "dec_string i = ''size''" unfolding page_name_def string_bytes_back by simp
    moreover have "digit_val CHR ''s'' = 28" by code_simp
    ultimately show False using dec_string_digits [of "CHR ''s''" i] by simp
  qed
  then show ?thesis using page_name_simps(1) [of i] by (simp add: aaff_is_page_def aaff_is_def)
qed

lemma AaffOpen_loop_ok:
  assumes "drop (f_pos f) (f_data f) = concat (map header_bytes hs) @ page_bytes 0 pg @ r"
    and "\<forall>h \<in> set hs. header_ok h" "length hs < n" "page_ok u ps pg"
    and "aaff_open_segments hs a = Some a'"
  shows "AaffOpen_loop n (with_file name f a) = Some (AAFF_OK,
    Some (page_name 0, f_pos f + length (concat (map header_bytes hs))),
    with_file name (f\<lparr>f_pos := f_pos f + length (concat (map header_bytes hs)) + length (page_bytes 0 pg)\<rparr>) a')"
  using assms
proof (induction hs arbitrary: f n a)
  case Nil
  obtain m where n: "n = Suc m" using Nil.prems(3) by (cases n) auto
  have seg: "aaff_rest (with_file name f a) = aff_segment_bytes (page_name 0) (fst pg) (snd pg) @ r"
    using Nil.prems(1) by (simp add: page_bytes_def)
  have "AaffReadSegment (with_file name f a) = Some (AAFF_OK,
      \<lparr>sg_Name = page_name 0, sg_Arg = fst pg, sg_Data = snd pg\<rparr>,
      aaff_skip (length (page_bytes 0 pg)) (with_file name f a))"
    using AaffReadSegment_here [OF seg page_segment_ok [OF Nil.prems(4)]] by (simp add: page_bytes_def)
  then show ?case using Nil.prems(5) by (simp add: n Let_def aaff_is_page_name aaff_codes)
next
  case (Cons h hs)
  obtain nm arg d where h: "h = (nm, arg, d)" by (cases h)
  obtain m where n: "n = Suc m" using Cons.prems(3) by (cases n) auto
  obtain a1 where a1: "aaff_open_segment (header_seg h) a = Some a1" "aaff_open_segments hs a1 = Some a'"
    using Cons.prems(5) by (auto split: option.splits)
  have hb: "header_bytes h = aff_segment_bytes nm arg d" by (simp add: header_bytes_def h)
  have seg: "aaff_rest (with_file name f a) =
      aff_segment_bytes nm arg d @ concat (map header_bytes hs) @ page_bytes 0 pg @ r"
    using Cons.prems(1) by (simp add: hb)
  have ok: "aff_segment_ok nm arg d" "\<not> aaff_is_page (header_seg h)"
    using Cons.prems(2) by (auto simp: header_ok_def h)
  let ?f = "f\<lparr>f_pos := f_pos f + length (header_bytes h)\<rparr>"
  have rd: "AaffReadSegment (with_file name f a) = Some (AAFF_OK, header_seg h, with_file name ?f a)"
    using AaffReadSegment_here [OF seg ok(1)] by (simp add: header_seg_def h header_bytes_def)
  have rest: "drop (f_pos ?f) (f_data ?f) = concat (map header_bytes hs) @ page_bytes 0 pg @ r"
  proof -
    have "drop (length (header_bytes h)) (drop (f_pos f) (f_data f)) =
        concat (map header_bytes hs) @ page_bytes 0 pg @ r"
      unfolding Cons.prems(1) by simp
    then show ?thesis by (simp add: add.commute)
  qed
  have "AaffOpen_loop n (with_file name f a) = AaffOpen_loop m (with_file name ?f a1)"
    using ok(2) a1(1) by (simp add: n rd aaff_open_segment_file Let_def aaff_codes)
  also have "\<dots> = Some (AAFF_OK, Some (page_name 0, f_pos ?f + length (concat (map header_bytes hs))),
      with_file name (?f\<lparr>f_pos := f_pos ?f + length (concat (map header_bytes hs)) + length (page_bytes 0 pg)\<rparr>) a')"
    using Cons.prems(2,3) n by (intro Cons.IH [OF rest _ _ Cons.prems(4) a1(2)]) auto
  finally show ?case by (simp add: ac_simps)
qed

lemma aaff_open_segment_keeps:
  "aaff_open_segment seg a = Some a' \<Longrightarrow> sg_Arg seg < 2 ^ 32 \<Longrightarrow>
   af_MaxPageArrMem a' = af_MaxPageArrMem a \<and> (af_PageSize a < 2 ^ 32 \<longrightarrow> af_PageSize a' < 2 ^ 32)"
  by (auto simp: aaff_open_segment_def aaff_info_def Let_def split: if_splits option.splits)

lemma aaff_open_segments_keep:
  "aaff_open_segments hs a = Some a' \<Longrightarrow> \<forall>h \<in> set hs. header_ok h \<Longrightarrow> af_PageSize a < 2 ^ 32 \<Longrightarrow>
   af_MaxPageArrMem a' = af_MaxPageArrMem a \<and> af_PageSize a' < 2 ^ 32"
proof (induction hs arbitrary: a)
  case (Cons h hs)
  obtain a1 where a1: "aaff_open_segment (header_seg h) a = Some a1" "aaff_open_segments hs a1 = Some a'"
    using Cons.prems(1) by (auto split: option.splits)
  have "sg_Arg (header_seg h) < 2 ^ 32"
    using Cons.prems(2) by (auto simp: header_ok_def header_seg_def aff_segment_ok_def split: prod.splits)
  from aaff_open_segment_keeps [OF a1(1) this] show ?case
    using Cons.IH [OF a1(2)] Cons.prems(2,3) by simp
qed simp


text \<open>The array has an entry for every page where the pages fit into 10 MiB.\<close>

lemma aaff_open_pages_ok:
  assumes "af_MaxPageArrMem a = 10" "0 < af_PageSize a" "pages \<noteq> []" "length pages \<le> 1165084"
    and "ceil_div (af_ImageSize a) (af_PageSize a) = length pages"
  shows "aaff_open_pages fresh a (page_name 0) Seek = Some (AAFF_OK,
    a\<lparr>af_TotalPages := length pages, af_Interleave := 1, af_PageSeekArrLen := length pages,
      af_pPageSeekArr := (replicate (length pages) 0)[0 := Seek],
      af_pPageBuff := map fresh [0..<af_PageSize a], af_CurrentPage := AAFF_CURRENTPAGE_NOTSET\<rparr>)"
proof -
  let ?n = "length pages"
  have t: "(if af_ImageSize a mod af_PageSize a \<noteq> 0 then af_ImageSize a div af_PageSize a + 1
      else af_ImageSize a div af_PageSize a) = ?n"
    using assms(5) by (simp add: ceil_div_def)
  have m: "min (u64 (af_MaxPageArrMem a * 1048576) div 9) ?n = ?n"
    using assms(1,4) by (simp add: u64_small)
  have n: "0 < ?n" using assms(3) by simp
  have b: "u32 (?n * 8) = ?n * 8" using assms(4) by (intro u32_small) simp
  have l: "(if ?n mod ?n \<noteq> 0 then ?n div ?n + 1 else ?n div ?n) = 1" "?n div 1 = ?n" using n by simp_all
  show ?thesis
    unfolding aaff_open_pages_def t m Let_def l b page_number [of 0, simplified] prod.case
    using n assms(4) by (simp add: aaff_codes)
qed

lemma AaffOpen_ok:
  assumes fs: "fs name = Some (AFF_HEADER @ concat (map header_bytes hs) @ pages_bytes pages (length pages) @ post)"
    and len: "length (AFF_HEADER @ concat (map header_bytes hs) @ pages_bytes pages (length pages) @ post) < 2 ^ 63"
    and hs: "\<forall>h \<in> set hs. header_ok h" "length hs < 100"
    and h: "aaff_open_segments hs (AaffCreateHandle debug) = Some h" "aaff_header_check h = AAFF_OK"
      "contains_bytes (string_bytes ''Guymager'') (the (af_pLibVersion h))"
    and pages: "pages \<noteq> []" "length pages \<le> 1165084" "\<forall>pg \<in> set pages. page_ok u (af_PageSize h) pg"
      "ceil_div (af_ImageSize h) (af_PageSize h) = length pages"
  shows "\<exists>a. AaffOpen fs fresh (AaffCreateHandle debug) [name] = Some (AAFF_OK, a) \<and>
    aaff_inv u (AFF_HEADER @ concat (map header_bytes hs)) pages post a \<and>
    af_PageSize a = af_PageSize h \<and> af_ImageSize a = af_ImageSize h"
proof -
  define d where "d = AFF_HEADER @ concat (map header_bytes hs) @ pages_bytes pages (length pages) @ post"
  define f where "f = \<lparr>f_data = d, f_pos = 0, f_limit = 0 :: nat\<rparr>"
  let ?c = "AaffCreateHandle debug" and ?f8 = "f\<lparr>f_pos := 8\<rparr>"
  let ?pos = "8 + length (concat (map header_bytes hs))"
  obtain pg where pg: "pages = pg # tl pages" using pages(1) by (cases pages) auto
  have pb: "pages_bytes pages (length pages) = page_bytes 0 pg @
      concat (map (\<lambda>k. page_bytes k (pages ! k)) [1..<length pages])"
    using pages_bytes_split [of 0 "length pages" pages] pages(1) arg_cong [OF pg, of hd]
    by (simp add: pages_bytes_def hd_conv_nth)
  have hd8: "length AFF_HEADER = 8" by (simp add: AFF_HEADER_def)
  have "AaffReadFile (with_file name f ?c) (length AFF_HEADER) =
      (AAFF_OK, AFF_HEADER, aaff_skip (length AFF_HEADER) (with_file name f ?c))"
    by (rule AaffReadFile_here [OF _ refl]) (simp_all add: f_def d_def AFF_HEADER_def)
  then have sig: "AaffReadFile (with_file name f ?c) 8 = (AAFF_OK, AFF_HEADER, with_file name ?f8 ?c)"
    by (simp add: hd8 f_def)
  have ci: "?c\<lparr>af_pInfoBuffConst := []\<rparr> = ?c" by (simp add: AaffCreateHandle_def aaff_zero_def)
  have wi: "(with_file name g x)\<lparr>af_pInfoBuffConst := []\<rparr> = with_file name g (x\<lparr>af_pInfoBuffConst := []\<rparr>)" for g x
    by (simp add: with_file_def)
  have rest: "drop (f_pos ?f8) (f_data ?f8) = concat (map header_bytes hs) @ page_bytes 0 pg @
      (concat (map (\<lambda>k. page_bytes k (pages ! k)) [1..<length pages]) @ post)"
    by (simp add: f_def d_def pb hd8)
  have pgok: "page_ok u (af_PageSize h) pg" using pages(3) pg by (metis list.set_intros(1))
  define f2 where "f2 = ?f8\<lparr>f_pos := ?pos + length (page_bytes 0 pg)\<rparr>"
  have loop: "AaffOpen_loop 100 (with_file name ?f8 ?c) = Some (AAFF_OK, Some (page_name 0, ?pos), with_file name f2 h)"
    using AaffOpen_loop_ok [OF rest hs(1) hs(2) pgok h(1)] by (simp add: f2_def)
  have kept: "af_MaxPageArrMem h = 10" "af_PageSize h < 2 ^ 32"
    using aaff_open_segments_keep [OF h(1) hs(1)]
    by (simp_all add: AaffCreateHandle_def aaff_zero_def AAFF_DEFAULT_MAX_PAGE_ARR_MEM_def)
  have ps: "0 < af_PageSize h" using h(2) by (auto simp: aaff_header_check_def aaff_codes split: if_splits)
  have chk: "aaff_header_check (with_file name f2 h) = AAFF_OK" "af_pLibVersion (with_file name f2 h) = af_pLibVersion h"
  proof -
    have "aaff_header_check (with_file name f2 h) = aaff_header_check h"
      by (simp add: aaff_header_check_def with_file_def)
    then show "aaff_header_check (with_file name f2 h) = AAFF_OK" using h(2) by simp
  qed (simp add: with_file_def)
  define a where "a = (with_file name f2 h)\<lparr>af_TotalPages := length pages, af_Interleave := 1,
      af_PageSeekArrLen := length pages, af_pPageSeekArr := (replicate (length pages) 0)[0 := ?pos],
      af_pPageBuff := map fresh [0..<af_PageSize h], af_CurrentPage := AAFF_CURRENTPAGE_NOTSET\<rparr>"
  have op: "aaff_open_pages fresh (with_file name f2 h) (page_name 0) ?pos = Some (AAFF_OK, a)"
    using aaff_open_pages_ok [of "with_file name f2 h" pages fresh ?pos] kept(1) ps pages(1,2,4)
    by (simp add: a_def with_file_def)
  have "open_r fs name = Some f" using fs by (simp add: open_r_def f_def d_def)
  then have "AaffOpen fs fresh ?c [name] = Some (AAFF_OK, a)"
    using sig loop chk h(3) op unfolding AaffOpen_def
    by (simp add: with_file_def [symmetric] wi ci)
  moreover have "aaff_inv u (AFF_HEADER @ concat (map header_bytes hs)) pages post a"
  proof -
    have arr: "(\<forall>e < length pages. (replicate (length pages) 0)[0 := ?pos] ! e = 0 \<or>
        (replicate (length pages) 0)[0 := ?pos] ! e =
        page_pos (AFF_HEADER @ concat (map header_bytes hs)) pages (e * 1))"
      using pages(1) by (auto simp: nth_list_update page_pos_simps hd8)
    have sel: "aaff_file a = f2" "af_PageSize a = af_PageSize h" "af_TotalPages a = length pages"
      "af_Interleave a = 1" "af_pPageSeekArr a = (replicate (length pages) 0)[0 := ?pos]"
      "length (af_pPageBuff a) = af_PageSize h" "af_CurrentPage a = AAFF_CURRENTPAGE_NOTSET"
      "f_data f2 = d" "length d < 2 ^ 63"
      using len by (simp_all add: a_def with_file_def aaff_file_def f2_def f_def d_def)
    show ?thesis
      unfolding aaff_inv_def aaff_core_def sel length_list_update length_replicate
      using arr pages kept(2) sel(9) by (auto simp: d_def AFF_HEADER_def)
  qed
  ultimately show ?thesis by (auto simp: a_def with_file_def)
qed


section \<open>Properties\<close>

text \<open>A small AFF file: pages of two bytes, three bytes of image.\<close>

definition small_headers :: "aff_header list" where
  "small_headers =
     [(string_bytes ''pagesize'', 2, []), (string_bytes ''sectorsize'', 1, []),
      (string_bytes ''devicesectors'', 2, [0, 0, 0, 3, 0, 0, 0, 0]),
      (string_bytes ''imagesize'', 2, [0, 0, 0, 3, 0, 0, 0, 0]),
      (string_bytes ''afflib_version'', 0, string_bytes ''Guymager''),
      (string_bytes ''aff_file_type'', 0, string_bytes ''AFF'')]"

definition small_pages :: "aff_page list" where
  "small_pages = [(0, [7, 8]), (51, [0, 0, 0, 1])]"

definition small_aff :: bytes where
  "small_aff = AFF_HEADER @ concat (map header_bytes small_headers) @
     pages_bytes small_pages (length small_pages) @ []"

definition no_zlib :: zlib_uncompress where "no_zlib b n = (-3, [])"

definition small_handle :: t_aaff where
  "small_handle = (AaffCreateHandle False)\<lparr>af_PageSize := 2, af_SectorSize := 1, af_Sectors := 3,
     af_ImageSize := 3, af_pLibVersion := Some (string_bytes ''Guymager''),
     af_pFileType := Some (string_bytes ''AFF'')\<rparr>"

lemma three_u64: "AaffU64 [0, 0, 0, 3, 0, 0, 0, 0] = 3"
  by code_simp

lemma small_c_strings: "c_string (string_bytes ''Guymager'') = string_bytes ''Guymager''"
  "c_string (string_bytes ''AFF'') = string_bytes ''AFF''"
  by (simp_all add: c_string_def string_bytes_def)

lemma small_headers_opened: "aaff_open_segments small_headers (AaffCreateHandle False) = Some small_handle"
proof -
  have n: "\<not> aaff_is \<lparr>sg_Name = string_bytes s, sg_Arg = i, sg_Data = d\<rparr> t"
    if "s \<noteq> t" for s t i d
    using that string_bytes_back by (metis aaff_is_def aff_segment.select_convs(1))
  have y: "aaff_is \<lparr>sg_Name = string_bytes s, sg_Arg = i, sg_Data = d\<rparr> s" for s i d
    by (simp add: aaff_is_def)
  show ?thesis
    by (simp add: small_headers_def small_handle_def header_seg_def aaff_open_segment_def n y
        Let_def three_u64 small_c_strings)
qed

lemma small_headers_ok: "\<forall>h \<in> set small_headers. header_ok h"
  by (simp add: small_headers_def header_ok_def header_seg_def aff_segment_ok_def aaff_is_page_def
      aaff_is_def string_bytes_def)

lemma small_pages_ok: "\<forall>pg \<in> set small_pages. page_ok no_zlib 2 pg"
  by (simp add: small_pages_def page_ok_def page_contents_def be_val_def)

lemma small_handle_ok:
  "aaff_header_check small_handle = AAFF_OK"
  "contains_bytes (string_bytes ''Guymager'') (the (af_pLibVersion small_handle))"
  by (simp_all add: small_handle_def aaff_header_check_def contains_bytes_def upt_rec)

lemma small_aff_length: "length small_aff < 2 ^ 63"
proof -
  have "length (page_name i) = 5" if "i < 10" for i
    using that unfolding page_name_def by (subst dec_string.simps) simp
  then show ?thesis
    by (simp add: small_aff_def small_headers_def small_pages_def header_bytes_def pages_bytes_def
        page_bytes_def AFF_HEADER_def upt_rec)
qed


text \<open>C24: an AFF file with the signature, fewer than 100 complete header segments that name
  Guymager and give sizes, and its pages in their order is opened; the handle satisfies the
  invariant that all later reads rely on.\<close>

theorem aaff_open_establishes:
  assumes "fs name = Some (AFF_HEADER @ concat (map header_bytes hs) @ pages_bytes pages (length pages) @ post)"
    and "length (AFF_HEADER @ concat (map header_bytes hs) @ pages_bytes pages (length pages) @ post) < 2 ^ 63"
    and "\<forall>h \<in> set hs. header_ok h" "length hs < 100"
    and "aaff_open_segments hs (AaffCreateHandle debug) = Some h" "aaff_header_check h = AAFF_OK"
      "contains_bytes (string_bytes ''Guymager'') (the (af_pLibVersion h))"
    and "pages \<noteq> []" "length pages \<le> 1165084" "\<forall>pg \<in> set pages. page_ok u (af_PageSize h) pg"
      "ceil_div (af_ImageSize h) (af_PageSize h) = length pages"
  shows "\<exists>a. AaffOpen fs fresh (AaffCreateHandle debug) [name] = Some (AAFF_OK, a) \<and>
    aaff_inv u (AFF_HEADER @ concat (map header_bytes hs)) pages post a \<and>
    AaffSize a = (0, af_ImageSize h) \<and> af_PageSize a = af_PageSize h"
  using AaffOpen_ok [where fs = fs and name = name, OF assms] by (auto simp: AaffSize_def aaff_codes)

lemma aaff_open_establishes_witness:
  "\<exists>a. AaffOpen (\<lambda>_. Some small_aff) (\<lambda>_. 0) (AaffCreateHandle False) [''x''] = Some (AAFF_OK, a) \<and>
     aaff_inv no_zlib (AFF_HEADER @ concat (map header_bytes small_headers)) small_pages [] a \<and>
     AaffSize a = (0, 3) \<and> af_PageSize a = 2"
proof -
  have h: "ceil_div (af_ImageSize small_handle) (af_PageSize small_handle) = length small_pages"
    "small_pages \<noteq> []" "length small_pages \<le> 1165084" "length small_headers < 100"
    "af_ImageSize small_handle = 3" "af_PageSize small_handle = 2"
    by (simp_all add: small_handle_def small_pages_def small_headers_def ceil_div_def)
  have p: "\<forall>pg \<in> set small_pages. page_ok no_zlib (af_PageSize small_handle) pg"
    using small_pages_ok h(6) by simp
  show ?thesis
    using aaff_open_establishes [where fs = "\<lambda>_. Some small_aff" and name = "''x''" and post = "[]"
        and hs = small_headers and pages = small_pages and fresh = "\<lambda>_. 0",
        OF _ small_aff_length [unfolded small_aff_def] small_headers_ok h(4) small_headers_opened
          small_handle_ok h(2,3) p h(1)]
    unfolding h(5,6) by (simp only: small_aff_def [symmetric] simp_thms)
qed


lemma small_opened:
  "\<exists>a. AaffOpen (\<lambda>_. Some small_aff) (\<lambda>_. 0) (AaffCreateHandle False) [''x''] = Some (AAFF_OK, a) \<and>
     aaff_inv no_zlib (AFF_HEADER @ concat (map header_bytes small_headers)) small_pages [] a \<and>
     af_PageSize a = 2 \<and> af_ImageSize a = 3"
proof -
  have h: "ceil_div (af_ImageSize small_handle) (af_PageSize small_handle) = length small_pages"
    "small_pages \<noteq> []" "length small_pages \<le> 1165084" "length small_headers < 100"
    "af_ImageSize small_handle = 3" "af_PageSize small_handle = 2"
    by (simp_all add: small_handle_def small_pages_def small_headers_def ceil_div_def)
  have p: "\<forall>pg \<in> set small_pages. page_ok no_zlib (af_PageSize small_handle) pg"
    using small_pages_ok h(6) by simp
  show ?thesis
    using AaffOpen_ok [where fs = "\<lambda>_. Some small_aff" and name = "''x''" and post = "[]"
        and hs = small_headers and pages = small_pages and fresh = "\<lambda>_. 0",
        OF _ small_aff_length [unfolded small_aff_def] small_headers_ok h(4) small_headers_opened
          small_handle_ok h(2,3) p h(1)]
    unfolding h(5,6) by (simp only: small_aff_def [symmetric] simp_thms)
qed

text \<open>C25: once an image is open, each read inside it stores exactly its bytes, across pages and
  whatever has been read before, and reports their number; it fails all the same: the loop goes
  on behind the last page that is needed until there are no more pages.\<close>

theorem aaff_read_stores_and_fails:
  assumes "aaff_inv u pre pages post a" "pages_full u (af_PageSize a) pages"
    and "length (aaff_contents u (af_PageSize a) pages) = af_ImageSize a" "af_ImageSize a < 2 ^ 63"
    and "0 < n" "off + n \<le> af_ImageSize a"
  shows "\<exists>a'. AaffRead u a (int off) n = Some (\<lparr>rr_ret = AAFF_READ_BEYOND_LAST_PAGE,
      rr_buf = segment off n (aaff_contents u (af_PageSize a) pages), rr_read = n, rr_errno = EIO\<rparr>, a') \<and>
    aaff_inv u pre pages post a' \<and> af_PageSize a' = af_PageSize a \<and> af_ImageSize a' = af_ImageSize a"
  using AaffRead_ok [OF assms] by (simp add: EIO_def)

lemma aaff_read_stores_and_fails_witness:
  "\<exists>a a'. AaffOpen (\<lambda>_. Some small_aff) (\<lambda>_. 0) (AaffCreateHandle False) [''x''] = Some (AAFF_OK, a) \<and>
     AaffRead no_zlib a 1 2 = Some (\<lparr>rr_ret = AAFF_READ_BEYOND_LAST_PAGE, rr_buf = [8, 0], rr_read = 2,
       rr_errno = EIO\<rparr>, a')"
proof -
  obtain a where o: "AaffOpen (\<lambda>_. Some small_aff) (\<lambda>_. 0) (AaffCreateHandle False) [''x''] = Some (AAFF_OK, a)"
    and i: "aaff_inv no_zlib (AFF_HEADER @ concat (map header_bytes small_headers)) small_pages [] a"
    and g: "af_PageSize a = 2" "af_ImageSize a = 3"
    using small_opened by blast
  have c: "aaff_contents no_zlib 2 small_pages = [7, 8, 0]"
    by (simp add: aaff_contents_def small_pages_def page_contents_def be_val_def)
  have f: "pages_full no_zlib 2 small_pages"
    by (simp add: pages_full_def small_pages_def page_contents_def less_Suc_eq)
  have "\<exists>a'. AaffRead no_zlib a (int 1) 2 = Some (\<lparr>rr_ret = AAFF_READ_BEYOND_LAST_PAGE,
      rr_buf = [8, 0], rr_read = 2, rr_errno = EIO\<rparr>, a')"
    using aaff_read_stores_and_fails [OF i, of 2 1] f by (auto simp: g c segment_def)
  then show ?thesis using o by auto
qed

text \<open>Whatever the handle and the file, a read of at least one byte inside the image that
  returns reports an error.\<close>

theorem aaff_reads_never_succeed:
  assumes "AaffRead u a Seek Count = Some (r, a')" "0 \<le> Seek" "nat Seek < af_ImageSize a" "0 < Count"
  shows "rr_ret r \<noteq> AAFF_OK"
  using AaffRead_fails [OF assms] .

lemma aaff_reads_never_succeed_witness:
  "\<exists>a r a'. AaffRead no_zlib a 1 2 = Some (r, a') \<and> rr_buf r = [8, 0] \<and> rr_ret r \<noteq> AAFF_OK"
proof -
  obtain a where i: "aaff_inv no_zlib (AFF_HEADER @ concat (map header_bytes small_headers)) small_pages [] a"
    and g: "af_PageSize a = 2" "af_ImageSize a = 3"
    using small_opened by blast
  have c: "aaff_contents no_zlib 2 small_pages = [7, 8, 0]"
    by (simp add: aaff_contents_def small_pages_def page_contents_def be_val_def)
  have f: "pages_full no_zlib 2 small_pages"
    by (simp add: pages_full_def small_pages_def page_contents_def less_Suc_eq)
  obtain r a' where r: "AaffRead no_zlib a 1 2 = Some (r, a')" "rr_buf r = [8, 0]"
    using AaffRead_ok [OF i, of 2 1] f by (auto simp: g c segment_def)
  then show ?thesis using aaff_reads_never_succeed [OF r(1)] g by auto
qed

text \<open>\<open>AaffU64\<close> reads a number from two big-endian halves, the lower one first, if all its
  bytes are below 0x80; a larger byte anywhere makes the result 2^63 or more, as \<open>char\<close> is
  signed.\<close>

theorem aaff_u64_signed_bytes:
  assumes "length d = 8"
  shows "if \<forall>b \<in> set d. unat b < 128 then AaffU64 d = be_val (segment 4 4 d @ segment 0 4 d)
    else 2 ^ 63 \<le> AaffU64 d"
  using AaffU64_cases [OF assms] by (auto simp: aff_u64_value_def not_less)

lemma aaff_u64_signed_bytes_witness:
  "AaffU64 [0, 0, 2, 3, 0, 0, 0, 1] = 4294967811 \<and> 2 ^ 63 \<le> AaffU64 [0, 0, 0, 128, 0, 0, 0, 0]"
  using aaff_u64_signed_bytes [of "[0, 0, 2, 3, 0, 0, 0, 1]"]
    aaff_u64_signed_bytes [of "[0, 0, 0, 128, 0, 0, 0, 0]"]
  by (simp add: be_val_def segment_def)

end
