(* ===== verification/Md5.thy ===== *)
theory Md5
  imports XPrelude
begin

text \<open>
  \<open>src/src/md5.c\<close>: the MD5 implementation that hashes the head of the image. The 64
  operations of \<open>md5_process\<close> are four tables and one step, in which the registers change
  their roles; the code writes the steps out. An append in pieces, through the partial block
  in the state, gives the digest that RFC 1321 defines for the whole message, whose block function is
  specified independently of the code (\<open>rfc_block\<close>).
\<close>

unbundle bit_operations_syntax

section \<open>The code\<close>

type_synonym md5_word = "32 word"
type_synonym md5_regs = "md5_word \<times> md5_word \<times> md5_word \<times> md5_word"

record md5_state =
  md_count0 :: md5_word
  md_count1 :: md5_word
  md_abcd :: md5_regs
  md_buf :: bytes

text \<open>Message index, shift and constant of each operation.\<close>

definition md5_round1 :: "(nat \<times> nat \<times> 32 word) list" where
  "md5_round1 =
    [(0, 7, 0xd76aa478), (1, 12, 0xe8c7b756), (2, 17, 0x242070db), (3, 22, 0xc1bdceee),
     (4, 7, 0xf57c0faf), (5, 12, 0x4787c62a), (6, 17, 0xa8304613), (7, 22, 0xfd469501),
     (8, 7, 0x698098d8), (9, 12, 0x8b44f7af), (10, 17, 0xffff5bb1), (11, 22, 0x895cd7be),
     (12, 7, 0x6b901122), (13, 12, 0xfd987193), (14, 17, 0xa679438e), (15, 22, 0x49b40821)]"

definition md5_round2 :: "(nat \<times> nat \<times> 32 word) list" where
  "md5_round2 =
    [(1, 5, 0xf61e2562), (6, 9, 0xc040b340), (11, 14, 0x265e5a51), (0, 20, 0xe9b6c7aa),
     (5, 5, 0xd62f105d), (10, 9, 0x02441453), (15, 14, 0xd8a1e681), (4, 20, 0xe7d3fbc8),
     (9, 5, 0x21e1cde6), (14, 9, 0xc33707d6), (3, 14, 0xf4d50d87), (8, 20, 0x455a14ed),
     (13, 5, 0xa9e3e905), (2, 9, 0xfcefa3f8), (7, 14, 0x676f02d9), (12, 20, 0x8d2a4c8a)]"

definition md5_round3 :: "(nat \<times> nat \<times> 32 word) list" where
  "md5_round3 =
    [(5, 4, 0xfffa3942), (8, 11, 0x8771f681), (11, 16, 0x6d9d6122), (14, 23, 0xfde5380c),
     (1, 4, 0xa4beea44), (4, 11, 0x4bdecfa9), (7, 16, 0xf6bb4b60), (10, 23, 0xbebfbc70),
     (13, 4, 0x289b7ec6), (0, 11, 0xeaa127fa), (3, 16, 0xd4ef3085), (6, 23, 0x04881d05),
     (9, 4, 0xd9d4d039), (12, 11, 0xe6db99e5), (15, 16, 0x1fa27cf8), (2, 23, 0xc4ac5665)]"

definition md5_round4 :: "(nat \<times> nat \<times> 32 word) list" where
  "md5_round4 =
    [(0, 6, 0xf4292244), (7, 10, 0x432aff97), (14, 15, 0xab9423a7), (5, 21, 0xfc93a039),
     (12, 6, 0x655b59c3), (3, 10, 0x8f0ccc92), (10, 15, 0xffeff47d), (1, 21, 0x85845dd1),
     (8, 6, 0x6fa87e4f), (15, 10, 0xfe2ce6e0), (6, 15, 0xa3014314), (13, 21, 0x4e0811a1),
     (4, 6, 0xf7537e82), (11, 10, 0xbd3af235), (2, 15, 0x2ad7d2bb), (9, 21, 0xeb86d391)]"

definition ROTATE_LEFT :: "md5_word \<Rightarrow> nat \<Rightarrow> md5_word" where
  "ROTATE_LEFT x n = push_bit n x OR drop_bit (32 - n) x"

definition md5_F :: "md5_word \<Rightarrow> md5_word \<Rightarrow> md5_word \<Rightarrow> md5_word" where
  "md5_F x y z = (x AND y) OR (NOT x AND z)"
definition md5_G :: "md5_word \<Rightarrow> md5_word \<Rightarrow> md5_word \<Rightarrow> md5_word" where
  "md5_G x y z = (x AND z) OR (y AND NOT z)"
definition md5_H :: "md5_word \<Rightarrow> md5_word \<Rightarrow> md5_word \<Rightarrow> md5_word" where
  "md5_H x y z = x XOR y XOR z"
definition md5_I :: "md5_word \<Rightarrow> md5_word \<Rightarrow> md5_word \<Rightarrow> md5_word" where
  "md5_I x y z = y XOR (x OR NOT z)"

text \<open>\<open>SET(a, b, c, d, k, s, Ti)\<close>; the next operation is \<open>SET(d, a, b, c, \<dots>)\<close>.\<close>

fun md5_SET ::
  "(md5_word \<Rightarrow> md5_word \<Rightarrow> md5_word \<Rightarrow> md5_word) \<Rightarrow> (nat \<Rightarrow> md5_word) \<Rightarrow>
   nat \<times> nat \<times> md5_word \<Rightarrow> md5_regs \<Rightarrow> md5_regs" where
  "md5_SET f X (k, s, Ti) (a, b, c, d) = (d, ROTATE_LEFT (a + f b c d + X k + Ti) s + b, b, c)"

definition md5_X :: "bytes \<Rightarrow> nat \<Rightarrow> md5_word" where
  "md5_X bs i = ucast (bs ! (4 * i)) + push_bit 8 (ucast (bs ! (4 * i + 1))) +
     push_bit 16 (ucast (bs ! (4 * i + 2))) + push_bit 24 (ucast (bs ! (4 * i + 3)))"

text \<open>The new values of the four registers after a block of 64 bytes.\<close>

definition md5_block :: "md5_regs \<Rightarrow> bytes \<Rightarrow> md5_regs" where
  "md5_block regs bs =
     (let X = md5_X bs;
          r1 = fold (md5_SET md5_F X) md5_round1 regs;
          r2 = fold (md5_SET md5_G X) md5_round2 r1;
          r3 = fold (md5_SET md5_H X) md5_round3 r2;
          r4 = fold (md5_SET md5_I X) md5_round4 r3
      in case (regs, r4) of ((a0, b0, c0, d0), (a, b, c, d)) \<Rightarrow> (a0 + a, b0 + b, c0 + c, d0 + d))"

definition md5_process :: "md5_state \<Rightarrow> bytes \<Rightarrow> md5_state" where
  "md5_process st bs = st\<lparr>md_abcd := md5_block (md_abcd st) bs\<rparr>"

text \<open>The buffer keeps what the memory held.\<close>

definition md5_init :: "md5_state \<Rightarrow> md5_state" where
  "md5_init st = st\<lparr>md_count0 := 0, md_count1 := 0,
     md_abcd := (0x67452301, 0xefcdab89, 0x98badcfe, 0x10325476)\<rparr>"

function md5_append_blocks :: "md5_state \<Rightarrow> bytes \<Rightarrow> md5_state" where
  "md5_append_blocks st p =
     (if length p \<ge> 64 then md5_append_blocks (md5_process st (take 64 p)) (drop 64 p)
      else if p \<noteq> [] then st\<lparr>md_buf := overwrite 0 p (md_buf st)\<rparr> else st)"
  by pat_completeness auto
termination
  by (relation "measure (\<lambda>(st, p). length p)") auto

declare md5_append_blocks.simps [simp del]

definition md5_count :: "md5_state \<Rightarrow> nat \<Rightarrow> md5_state" where
  "md5_count st nbytes =
     (let nbits = word_of_nat (nbytes * 8);
          c1 = md_count1 st + word_of_nat (drop_bit 29 nbytes);
          c0 = md_count0 st + nbits
      in st\<lparr>md_count0 := c0, md_count1 := (if c0 < nbits then c1 + 1 else c1)\<rparr>)"

definition md5_append :: "md5_state \<Rightarrow> bytes \<Rightarrow> md5_state" where
  "md5_append st data =
     (let nbytes = length data; offset = unat (drop_bit 3 (md_count0 st) AND 63) in
      if nbytes = 0 then st
      else
        let st1 = md5_count st nbytes in
        if offset \<noteq> 0 then
          let copy = (if offset + nbytes > 64 then 64 - offset else nbytes);
              st2 = st1\<lparr>md_buf := overwrite offset (take copy data) (md_buf st1)\<rparr> in
          if offset + copy < 64 then st2
          else md5_append_blocks (md5_process st2 (md_buf st2)) (drop copy data)
        else md5_append_blocks st1 data)"

text \<open>The bytes of 32-bit words, lowest first.\<close>

definition md5_word_bytes :: "md5_word \<Rightarrow> bytes" where
  "md5_word_bytes w = map (\<lambda>i. ucast (drop_bit (8 * i) w)) [0..<4]"

definition md5_finish :: "md5_state \<Rightarrow> bytes \<times> md5_state" where
  "md5_finish st =
     (let data = md5_word_bytes (md_count0 st) @ md5_word_bytes (md_count1 st);
          n = unat ((55 - drop_bit 3 (md_count0 st)) AND 63) + 1;
          st1 = md5_append st (take n (0x80 # replicate 63 0));
          st2 = md5_append st1 data
      in case md_abcd st2 of (a, b, c, d) \<Rightarrow>
        (concat (map md5_word_bytes [a, b, c, d]), st2))"

section \<open>The digest of a message\<close>

text \<open>RFC 1321, written from the standard and not from the code: the message, a bit 1, zeros up to
  56 bytes modulo 64, the length in bits as 64-bit integer, cut in blocks of 16 words. \<open>rfc_T\<close>
  lists \<open>T[1]\<close> to \<open>T[64]\<close>, the integer parts of 4294967296 times \<open>abs (sin i)\<close>. Operation
  \<open>j\<close> of a block works on the registers in the order ABCD, DABC, CDAB or BCDA and changes the
  first of them; message index and shift are given by formulas, word rotation is the library's.\<close>

definition rfc_T :: "md5_word list" where
  "rfc_T = [
    0xd76aa478, 0xe8c7b756, 0x242070db, 0xc1bdceee, 0xf57c0faf, 0x4787c62a, 0xa8304613, 0xfd469501,
    0x698098d8, 0x8b44f7af, 0xffff5bb1, 0x895cd7be, 0x6b901122, 0xfd987193, 0xa679438e, 0x49b40821,
    0xf61e2562, 0xc040b340, 0x265e5a51, 0xe9b6c7aa, 0xd62f105d, 0x02441453, 0xd8a1e681, 0xe7d3fbc8,
    0x21e1cde6, 0xc33707d6, 0xf4d50d87, 0x455a14ed, 0xa9e3e905, 0xfcefa3f8, 0x676f02d9, 0x8d2a4c8a,
    0xfffa3942, 0x8771f681, 0x6d9d6122, 0xfde5380c, 0xa4beea44, 0x4bdecfa9, 0xf6bb4b60, 0xbebfbc70,
    0x289b7ec6, 0xeaa127fa, 0xd4ef3085, 0x04881d05, 0xd9d4d039, 0xe6db99e5, 0x1fa27cf8, 0xc4ac5665,
    0xf4292244, 0x432aff97, 0xab9423a7, 0xfc93a039, 0x655b59c3, 0x8f0ccc92, 0xffeff47d, 0x85845dd1,
    0x6fa87e4f, 0xfe2ce6e0, 0xa3014314, 0x4e0811a1, 0xf7537e82, 0xbd3af235, 0x2ad7d2bb, 0xeb86d391]"

definition rfc_index :: "nat \<Rightarrow> nat \<Rightarrow> nat" where
  "rfc_index n i = (if n = 1 then i else if n = 2 then (5 * i + 1) mod 16
     else if n = 3 then (3 * i + 5) mod 16 else 7 * i mod 16)"

definition rfc_shift :: "nat \<Rightarrow> nat \<Rightarrow> nat" where
  "rfc_shift n i = (if n = 1 then [7, 12, 17, 22] else if n = 2 then [5, 9, 14, 20]
     else if n = 3 then [4, 11, 16, 23] else [6, 10, 15, 21]) ! (i mod 4)"

definition rfc_fun :: "nat \<Rightarrow> md5_word \<Rightarrow> md5_word \<Rightarrow> md5_word \<Rightarrow> md5_word" where
  "rfc_fun n x y z =
     (if n = 1 then (x AND y) OR (NOT x AND z) else if n = 2 then (x AND z) OR (y AND NOT z)
      else if n = 3 then x XOR y XOR z else y XOR (x OR NOT z))"

text \<open>Word \<open>k\<close> of a block: four bytes, the lowest first.\<close>

definition rfc_word :: "bytes \<Rightarrow> nat \<Rightarrow> md5_word" where
  "rfc_word bs k = word_of_nat (unat (bs ! (4 * k)) + 256 * unat (bs ! (4 * k + 1)) +
     65536 * unat (bs ! (4 * k + 2)) + 16777216 * unat (bs ! (4 * k + 3)))"

definition rfc_register :: "nat \<Rightarrow> nat \<Rightarrow> nat" where
  "rfc_register j p = (p + 4 - j mod 4) mod 4"

definition rfc_operation :: "bytes \<Rightarrow> nat \<Rightarrow> md5_word list \<Rightarrow> md5_word list" where
  "rfc_operation bs j r =
     (let n = j div 16 + 1; i = j mod 16;
          a = r ! rfc_register j 0; b = r ! rfc_register j 1;
          c = r ! rfc_register j 2; d = r ! rfc_register j 3
      in r[rfc_register j 0 := b + word_rotl (rfc_shift n i)
             (a + rfc_fun n b c d + rfc_word bs (rfc_index n i) + rfc_T ! j)])"

definition rfc_block :: "md5_regs \<Rightarrow> bytes \<Rightarrow> md5_regs" where
  "rfc_block v bs =
     (case v of (a, b, c, d) \<Rightarrow>
        let r = fold (rfc_operation bs) [0..<64] [a, b, c, d]
        in (a + r ! 0, b + r ! 1, c + r ! 2, d + r ! 3))"

function md5_absorb :: "md5_regs \<Rightarrow> bytes \<Rightarrow> md5_regs" where
  "md5_absorb regs m =
     (if length m \<ge> 64 then md5_absorb (rfc_block regs (take 64 m)) (drop 64 m) else regs)"
  by pat_completeness auto
termination
  by (relation "measure (\<lambda>(regs, m). length m)") auto

declare md5_absorb.simps [simp del]

definition md5_iv :: md5_regs where
  "md5_iv = (0x67452301, 0xefcdab89, 0x98badcfe, 0x10325476)"

definition md5_padding :: "nat \<Rightarrow> bytes" where
  "md5_padding n = 0x80 # replicate ((119 - n mod 64) mod 64) 0"

definition md5_digest :: "bytes \<Rightarrow> bytes" where
  "md5_digest m =
     (case md5_absorb md5_iv (m @ md5_padding (length m) @ le_bytes 8 (8 * length m)) of
        (a, b, c, d) \<Rightarrow> concat (map md5_word_bytes [a, b, c, d]))"

text \<open>The tables of the code are those of the standard, and its 64 operations, with registers that
  change their roles, are the operations on fixed registers.\<close>

definition rfc_row :: "nat \<Rightarrow> nat \<times> nat \<times> md5_word" where
  "rfc_row j = (rfc_index (j div 16 + 1) (j mod 16), rfc_shift (j div 16 + 1) (j mod 16), rfc_T ! j)"

lemma md5_tables:
  "md5_round1 = map rfc_row [0..<16]" "md5_round2 = map rfc_row [16..<32]"
  "md5_round3 = map rfc_row [32..<48]" "md5_round4 = map rfc_row [48..<64]"
  by code_simp+

lemma md5_functions:
  "md5_F = rfc_fun 1" "md5_G = rfc_fun 2" "md5_H = rfc_fun 3" "md5_I = rfc_fun 4"
  by (simp_all add: fun_eq_iff rfc_fun_def md5_F_def md5_G_def md5_H_def md5_I_def)

lemma ROTATE_LEFT_rotl:
  assumes "0 < n" "n < 32"
  shows "ROTATE_LEFT x n = word_rotl n x"
proof (rule bit_word_eqI)
  fix m
  assume "m < LENGTH(32)"
  then have m: "m < 32" by simp
  have out: "bit x i \<Longrightarrow> i < 32" for i using bit_imp_le_length [of x i] by simp
  have "(m + (32 - n)) mod 32 = (if m < n then m + (32 - n) else m - n)"
  proof (cases "m < n")
    case False
    then have "m + (32 - n) = (m - n) + 32" using assms m by simp
    then show ?thesis using False m by (simp only: mod_add_self2) simp
  qed (use assms m in simp)
  moreover have "bit (word_rotl n x) m \<longleftrightarrow> bit x ((m + (32 - n)) mod 32)"
    using assms m by (simp only: bit_word_rotl_iff) simp
  moreover have "bit (ROTATE_LEFT x n) m \<longleftrightarrow> n \<le> m \<and> bit x (m - n) \<or> bit x (m + (32 - n))"
    using m by (simp add: ROTATE_LEFT_def bit_or_iff bit_push_bit_iff bit_drop_bit_eq add.commute)
  moreover have "\<not> bit x (m + (32 - n))" if "n \<le> m"
    using out [of "m + (32 - n)"] that assms m by linarith
  ultimately show "bit (ROTATE_LEFT x n) m \<longleftrightarrow> bit (word_rotl n x) m"
    by (cases "m < n") auto
qed

lemma rfc_shift_bounds: "0 < rfc_shift n i" "rfc_shift n i < 32"
proof -
  have "i mod 4 \<in> {0, 1, 2, 3}" by auto
  then show "0 < rfc_shift n i" "rfc_shift n i < 32" by (auto simp: rfc_shift_def)
qed

lemma md5_X_word: "md5_X bs k = rfc_word bs k"
  by (simp add: md5_X_def rfc_word_def push_bit_eq_mult mult.commute)

definition md5_view :: "nat \<Rightarrow> md5_word list \<Rightarrow> md5_regs" where
  "md5_view j r = (r ! rfc_register j 0, r ! rfc_register j 1, r ! rfc_register j 2, r ! rfc_register j 3)"

lemma md5_SET_operation:
  assumes "length r = 4"
  shows "md5_SET (rfc_fun (j div 16 + 1)) (md5_X bs) (rfc_row j) (md5_view j r) =
    md5_view (Suc j) (rfc_operation bs j r)"
proof -
  obtain a b c d where r: "r = [a, b, c, d]"
    using assms by (auto simp: length_Suc_conv numeral_eq_Suc)
  have "j mod 4 = 0 \<and> Suc j mod 4 = 1 \<or> j mod 4 = 1 \<and> Suc j mod 4 = 2 \<or>
      j mod 4 = 2 \<and> Suc j mod 4 = 3 \<or> j mod 4 = 3 \<and> Suc j mod 4 = 0"
    by presburger
  then show ?thesis
    unfolding r
    by (auto simp: md5_view_def rfc_operation_def rfc_register_def rfc_row_def Let_def md5_X_word
        ROTATE_LEFT_rotl [OF rfc_shift_bounds] add.commute)
qed

lemma length_rfc_operation [simp]: "length (rfc_operation bs j r) = length r"
  by (simp add: rfc_operation_def Let_def)

lemma length_rfc_operations [simp]: "length (fold (rfc_operation bs) js r) = length r"
  by (induction js arbitrary: r) simp_all

lemma md5_round_operations:
  assumes "length r = 4" "m \<le> 16" "i = 16 * n" "j = i + m" "l = n + 1"
  shows "fold (md5_SET (rfc_fun l) (md5_X bs)) (map rfc_row [i..<j]) (md5_view i r) =
    md5_view j (fold (rfc_operation bs) [i..<j] r)"
  using assms(2) unfolding assms(4)
proof (induction m)
  case (Suc m)
  have "(i + m) div 16 = n" using Suc.prems assms(3) by simp
  then show ?case
    using Suc md5_SET_operation [of "fold (rfc_operation bs) [i..<i + m] r" "i + m" bs] assms(1,5)
    by simp
qed simp

lemma upt_conv_parts: "[0..<64] = [0..<16] @ [16..<32] @ [32..<48] @ [48..<64::nat]"
  using upt_add_eq_append [of 0 48 16] upt_add_eq_append [of 0 32 16] upt_add_eq_append [of 0 16 16]
  by simp

lemma md5_block_rfc: "md5_block v bs = rfc_block v bs"
proof -
  obtain a b c d where v: "v = (a, b, c, d)" by (cases v)
  let ?r = "[a, b, c, d]" and ?op = "rfc_operation bs"
  have start: "v = md5_view 0 ?r" by (simp add: v md5_view_def rfc_register_def)
  have ops:
      "length r = 4 \<Longrightarrow> fold (md5_SET md5_F (md5_X bs)) md5_round1 (md5_view 0 r) = md5_view 16 (fold ?op [0..<16] r)"
      "length r = 4 \<Longrightarrow> fold (md5_SET md5_G (md5_X bs)) md5_round2 (md5_view 16 r) = md5_view 32 (fold ?op [16..<32] r)"
      "length r = 4 \<Longrightarrow> fold (md5_SET md5_H (md5_X bs)) md5_round3 (md5_view 32 r) = md5_view 48 (fold ?op [32..<48] r)"
      "length r = 4 \<Longrightarrow> fold (md5_SET md5_I (md5_X bs)) md5_round4 (md5_view 48 r) = md5_view 64 (fold ?op [48..<64] r)"
    for r
    unfolding md5_tables md5_functions by (rule md5_round_operations; simp)+
  define r where "r = fold ?op [0..<64] ?r"
  have len0: "length ?r = 4" by simp
  have split: "[0..<64] = [0..<16] @ [16..<32] @ [32..<48] @ [48..<64::nat]"
    by (simp only: upt_conv_parts)
  have "fold (md5_SET md5_I (md5_X bs)) md5_round4 (fold (md5_SET md5_H (md5_X bs)) md5_round3
      (fold (md5_SET md5_G (md5_X bs)) md5_round2 (fold (md5_SET md5_F (md5_X bs)) md5_round1 v))) =
    md5_view 64 r"
    unfolding start r_def split fold_append comp_apply
    by (simp only: ops length_rfc_operations len0)
  then show ?thesis
    by (simp add: md5_block_def rfc_block_def Let_def v r_def md5_view_def rfc_register_def)
qed

lemma rfc_block_code [code]: "rfc_block v bs = md5_block v bs"
  by (simp only: md5_block_rfc)

lemma md5_test_abc: "md5_digest [0x61, 0x62, 0x63] = [0x90, 0x01, 0x50, 0x98, 0x3c, 0xd2, 0x4f, 0xb0,
    0xd6, 0x96, 0x3f, 0x7d, 0x28, 0xe1, 0x7f, 0x72]"
  by code_simp

section \<open>The state of an append represents the message so far\<close>

text \<open>The bytes behind the last full block.\<close>

definition md5_rest :: "bytes \<Rightarrow> bytes" where
  "md5_rest m = drop (64 * (length m div 64)) m"

lemma length_md5_rest [simp]: "length (md5_rest m) = length m mod 64"
  by (simp add: md5_rest_def minus_mult_div_eq_mod)

lemma md5_rest_small: "length m < 64 \<Longrightarrow> md5_rest m = m"
  by (simp add: md5_rest_def)

lemma md5_rest_drop: "64 \<le> length m \<Longrightarrow> md5_rest (drop 64 m) = md5_rest m"
  by (simp add: md5_rest_def le_div_geq add.commute)

lemma md5_absorb_small: "length m < 64 \<Longrightarrow> md5_absorb v m = v"
  by (simp add: md5_absorb.simps)

lemma md5_absorb_append: "md5_absorb v (m @ n) = md5_absorb (md5_absorb v m) (md5_rest m @ n)"
proof (induction v m rule: md5_absorb.induct)
  case (1 v m)
  show ?case
  proof (cases "64 \<le> length m")
    case True
    have "md5_absorb v (m @ n) = md5_absorb (rfc_block v (take 64 m)) (drop 64 m @ n)"
      using True by (subst md5_absorb.simps) simp
    also have "\<dots> = md5_absorb (md5_absorb (rfc_block v (take 64 m)) (drop 64 m)) (md5_rest m @ n)"
      using 1 True by (simp add: md5_rest_drop)
    also have "md5_absorb (rfc_block v (take 64 m)) (drop 64 m) = md5_absorb v m"
      using True by (subst (2) md5_absorb.simps) simp
    finally show ?thesis .
  next
    case False
    then show ?thesis by (simp add: md5_absorb_small md5_rest_small)
  qed
qed

lemma md5_rest_append: "md5_rest (m @ n) = md5_rest (md5_rest m @ n)"
proof -
  define q r where "q = length m div 64" and "r = length m mod 64"
  have m: "length m = 64 * q + r" by (simp add: q_def r_def)
  have "(length m + length n) div 64 = q + (r + length n) div 64"
    unfolding m add.assoc by (subst div_mult_self4 [symmetric]) simp_all
  then have "md5_rest (m @ n) = drop (64 * ((r + length n) div 64) + 64 * q) (m @ n)"
    unfolding md5_rest_def by (simp only: length_append add_mult_distrib2 add.commute)
  also have "\<dots> = drop (64 * ((r + length n) div 64)) (drop (64 * q) (m @ n))"
    by (simp only: drop_drop)
  also have "drop (64 * q) (m @ n) = md5_rest m @ n"
    by (simp add: md5_rest_def q_def)
  also have "drop (64 * ((r + length n) div 64)) (md5_rest m @ n) = md5_rest (md5_rest m @ n)"
    by (simp only: md5_rest_def [of "md5_rest m @ n"] length_append length_md5_rest r_def)
  finally show ?thesis .
qed

lemma md5_append_blocks_eq:
  "md5_append_blocks st p = st\<lparr>md_abcd := md5_absorb (md_abcd st) p,
     md_buf := (if md5_rest p = [] then md_buf st else overwrite 0 (md5_rest p) (md_buf st))\<rparr>"
proof (induction st p rule: md5_append_blocks.induct)
  case (1 st p)
  show ?case
  proof (cases "64 \<le> length p")
    case True
    then show ?thesis using 1
      by (subst md5_append_blocks.simps) (simp add: md5_process_def md5_block_rfc md5_rest_drop md5_absorb.simps [of _ p])
  next
    case False
    then show ?thesis
      by (subst md5_append_blocks.simps) (simp add: md5_absorb_small md5_rest_small)
  qed
qed

definition md5_bits :: "md5_state \<Rightarrow> nat" where
  "md5_bits st = unat (md_count0 st) + 4294967296 * unat (md_count1 st)"

definition md5_repr :: "md5_state \<Rightarrow> bytes \<Rightarrow> bool" where
  "md5_repr st m \<longleftrightarrow> length (md_buf st) = 64 \<and> md5_bits st = 8 * length m mod 18446744073709551616 \<and>
     md_abcd st = md5_absorb md5_iv m \<and> take (length m mod 64) (md_buf st) = md5_rest m"

lemma md5_repr_init: "length (md_buf st) = 64 \<Longrightarrow> md5_repr (md5_init st) []"
  by (simp add: md5_repr_def md5_init_def md5_bits_def md5_iv_def md5_absorb_small md5_rest_def)

lemma unat_and_63: "unat (w AND 63 :: md5_word) = unat w mod 64"
proof -
  have "w AND 63 = take_bit 6 w" by (simp add: take_bit_eq_mask mask_eq_exp_minus_1)
  then show ?thesis by (simp only: unsigned_take_bit_eq) (simp add: take_bit_eq_mod)
qed

lemma dvd_word: "(4294967296 :: nat) dvd 18446744073709551616"
  by (rule dvdI [of _ _ 4294967296]) simp

lemma md5_offset:
  assumes "md5_repr st m"
  shows "unat (drop_bit 3 (md_count0 st) AND 63) = length m mod 64"
proof -
  have "unat (md_count0 st) < 4294967296" using unsigned_less [of "md_count0 st"] by simp
  then have "unat (md_count0 st) = md5_bits st mod 4294967296" by (simp add: md5_bits_def)
  also have "\<dots> = 8 * length m mod 4294967296"
    using assms unfolding md5_repr_def by (simp only: mod_mod_cancel [OF dvd_word])
  also have "\<dots> = 8 * (length m mod 536870912)" by (simp only: mult_mod_right) simp
  finally have "unat (md_count0 st) div 8 mod 64 = length m mod 536870912 mod 64" by simp
  also have "\<dots> = length m mod 64" by (rule mod_mod_cancel) simp
  finally show ?thesis unfolding unat_and_63 unat_drop_bit_eq by (simp add: drop_bit_eq_div)
qed

lemma md5_count_bits:
  assumes "n < 268435456"
  shows "md5_bits (md5_count st n) = (md5_bits st + 8 * n) mod 18446744073709551616"
proof -
  let ?a = "unat (md_count0 st)" and ?b = "unat (md_count1 st)"
  have d: "drop_bit 29 n = 0" using assms by (simp add: drop_bit_eq_div)
  have ab: "?a < 4294967296" "?b < 4294967296"
    using unsigned_less [of "md_count0 st"] unsigned_less [of "md_count1 st"] by simp_all
  define w :: md5_word where "w = word_of_nat (n * 8)"
  have nb: "unat w = 8 * n" unfolding w_def using assms by (simp only: unat_of_nat) simp
  have s: "unat (md_count0 st + w) = (?a + 8 * n) mod 4294967296"
    unfolding unat_word_ariths nb by simp
  have b1: "unat (md_count1 st + 1) = (?b + 1) mod 4294967296"
    by (simp add: unat_word_ariths)
  have e: "md5_bits (md5_count st n) = unat (md_count0 st + w) +
      4294967296 * unat (if md_count0 st + w < w then md_count1 st + 1 else md_count1 st)"
    by (simp add: md5_bits_def md5_count_def Let_def d w_def)
  show ?thesis
  proof (cases "?a + 8 * n < 4294967296")
    case True
    then have "\<not> md_count0 st + w < w" unfolding word_less_nat_alt s nb by simp
    then show ?thesis using True ab unfolding e by (simp add: md5_bits_def s)
  next
    case False
    then have m: "(?a + 8 * n) mod 4294967296 = ?a + 8 * n - 4294967296"
      using ab(1) assms by (simp add: mod_if)
    then have "md_count0 st + w < w" unfolding word_less_nat_alt s nb using False ab(1) by simp
    then have "md5_bits (md5_count st n) =
        ?a + 8 * n - 4294967296 + 4294967296 * ((?b + 1) mod 4294967296)"
      unfolding e by (simp add: s m b1)
    then show ?thesis
      using False ab assms
      by (cases "?b = 4294967295") (simp_all add: md5_bits_def mod_if)
  qed
qed

lemma md5_count_sel [simp]:
  "md_abcd (md5_count st n) = md_abcd st" "md_buf (md5_count st n) = md_buf st"
  by (simp_all add: md5_count_def Let_def)


lemma md5_repr_count:
  assumes "md5_repr st m" "length n < 268435456"
  shows "md5_bits (md5_count st (length n)) = 8 * length (m @ n) mod 18446744073709551616"
  using md5_count_bits [OF assms(2), of st] assms(1)
  by (simp add: md5_repr_def mod_add_left_eq add_mult_distrib2)

text \<open>The three ways of an append: nothing, into the partial block, through it.\<close>

lemma md5_append_repr:
  assumes repr: "md5_repr st m" and n: "length n < 268435456"
  shows "md5_repr (md5_append st n) (m @ n)"
proof -
  let ?r = "md5_rest m" and ?st = "md5_count st (length n)"
  have st: "length (md_buf st) = 64" "md_abcd st = md5_absorb md5_iv m"
    "take (length m mod 64) (md_buf st) = ?r"
    using repr by (simp_all add: md5_repr_def)
  note off = md5_offset [OF repr] and bits = md5_repr_count [OF repr n]
  have absorb: "md5_absorb md5_iv (m @ n) = md5_absorb (md_abcd st) (?r @ n)"
    unfolding st(2) by (rule md5_absorb_append)
  have rest: "md5_rest (m @ n) = md5_rest (?r @ n)" by (rule md5_rest_append)
  have bits': "md5_bits (x\<lparr>md_abcd := a, md_buf := b\<rparr>) = md5_bits x" "md5_bits (x\<lparr>md_buf := b\<rparr>) = md5_bits x"
      "md5_bits (x\<lparr>md_abcd := a\<rparr>) = md5_bits x"
    for x a b by (simp_all add: md5_bits_def)
  have filled: "md5_repr (?st\<lparr>md_abcd := md5_absorb md5_iv (m @ n), md_buf := b\<rparr>) (m @ n)"
    if "length b = 64" "take (length (m @ n) mod 64) b = md5_rest (m @ n)" for b
    using that bits unfolding md5_repr_def by (simp add: bits')
  have take_overwrite: "length (overwrite 0 (md5_rest p) b) = 64 \<and>
      take (length p mod 64) (overwrite 0 (md5_rest p) b) = md5_rest p" if "length b = 64" for p b
  proof -
    have "length p mod 64 < 64" by simp
    then show ?thesis using that by (simp add: overwrite_def)
  qed
  have blocks: "md5_repr (md5_append_blocks (?st\<lparr>md_abcd := a, md_buf := b\<rparr>) p) (m @ n)"
    if "md5_absorb a p = md5_absorb md5_iv (m @ n)" "md5_rest p = md5_rest (m @ n)" "length b = 64" for a b p
  proof -
    have l: "length (m @ n) mod 64 = length p mod 64"
      using arg_cong [OF that(2), of length] by simp
    show ?thesis
    proof (cases "md5_rest p = []")
      case True
      then have "length (m @ n) mod 64 = 0" using l by (metis length_md5_rest list.size(3))
      then show ?thesis
        using filled [OF that(3)] True that(1,2) by (simp add: md5_append_blocks_eq)
    next
      case False
      then show ?thesis
        using filled [of "overwrite 0 (md5_rest p) b"] take_overwrite [OF that(3), of p] that(1,2)
        by (simp add: md5_append_blocks_eq l del: length_append)
    qed
  qed
  consider "n = []" | "n \<noteq> []" "length m mod 64 = 0" | "n \<noteq> []" "length m mod 64 \<noteq> 0"
    "length m mod 64 + length n < 64" | "length m mod 64 \<noteq> 0" "64 \<le> length m mod 64 + length n"
    by fastforce
  then show ?thesis
  proof cases
    case 1
    then show ?thesis using repr by (simp add: md5_append_def Let_def)
  next
    case 2
    then have r: "?r = []" by (metis length_md5_rest length_0_conv)
    have "md5_append st n = md5_append_blocks (?st\<lparr>md_abcd := md_abcd st, md_buf := md_buf st\<rparr>) n"
      using 2 off by (simp add: md5_append_def Let_def md5_count_def)
    then show ?thesis using blocks [of "md_abcd st" n "md_buf st"] st(1) absorb rest r by simp
  next
    case 3
    let ?b = "overwrite (length m mod 64) n (md_buf st)"
    have "md5_append st n = ?st\<lparr>md_abcd := md_abcd st, md_buf := ?b\<rparr>"
      using 3 off by (simp add: md5_append_def Let_def md5_count_def)
    moreover have "md5_absorb md5_iv (m @ n) = md_abcd st"
      unfolding absorb using 3 by (simp add: md5_absorb_small)
    moreover have "md5_rest (m @ n) = ?r @ n" unfolding rest using 3 by (intro md5_rest_small) simp
    moreover have "length (m @ n) mod 64 = length m mod 64 + length n"
      using 3 by (metis length_append mod_add_left_eq mod_less)
    moreover have "take (length m mod 64 + length n) ?b = ?r @ n" "length ?b = 64"
      using 3 st by (simp_all add: overwrite_def)
    ultimately show ?thesis using filled [of ?b] by simp
  next
    case 4
    let ?c = "64 - length m mod 64"
    let ?b = "overwrite (length m mod 64) (take ?c n) (md_buf st)"
    have b: "?b = ?r @ take ?c n" using 4 st by (simp add: overwrite_def)
    have tk: "take 64 (?r @ n) = ?b" "drop 64 (?r @ n) = drop ?c n" "64 \<le> length (?r @ n)"
      using 4 by (simp_all add: b)
    have swap: "x\<lparr>md_buf := c, md_abcd := a\<rparr> = x\<lparr>md_abcd := a, md_buf := c\<rparr>" for x :: md5_state and a c
      by (cases x) simp
    have "md5_append st n = md5_append_blocks
        (?st\<lparr>md_buf := ?b, md_abcd := rfc_block (md_abcd st) ?b\<rparr>) (drop ?c n)"
      using 4 off by (auto simp: md5_append_def Let_def md5_process_def md5_block_rfc)
    moreover have "md5_absorb (rfc_block (md_abcd st) ?b) (drop ?c n) = md5_absorb md5_iv (m @ n)"
      unfolding absorb using tk by (subst (2) md5_absorb.simps) simp
    moreover have "md5_rest (drop ?c n) = md5_rest (m @ n)"
      unfolding rest tk(2) [symmetric] using tk(3) by (rule md5_rest_drop)
    moreover have "length ?b = 64" unfolding b using 4 by simp
    ultimately show ?thesis unfolding swap using blocks by metis
  qed
qed


lemma md5_appends_repr:
  assumes "md5_repr st m" "\<forall>n \<in> set ns. length n < 268435456"
  shows "md5_repr (foldl md5_append st ns) (m @ concat ns)"
  using assms
proof (induction ns arbitrary: st m)
  case (Cons n ns)
  then show ?case using Cons.IH [OF md5_append_repr [of st m n]] by simp
qed simp

section \<open>The end of the message\<close>

lemma md5_word_bytes_le: "md5_word_bytes w = le_bytes 4 (unat w)"
proof -
  have b: "ucast (drop_bit n w) = (word_of_nat (unat w div 2 ^ n mod 256) :: u8)" for n
  proof -
    have "unat (ucast (drop_bit n w) :: u8) = unat w div 2 ^ n mod 256"
      by (simp only: unsigned_ucast_eq unat_drop_bit_eq) (simp add: drop_bit_eq_div take_bit_eq_mod)
    from arg_cong [OF this, of "word_of_nat :: nat \<Rightarrow> u8"] show ?thesis by simp
  qed
  have "[0..<4] = [0, 1, 2, 3 :: nat]" by (simp add: upt_conv_Cons)
  moreover have "4 = Suc (Suc (Suc (Suc 0)))" by simp
  then have "le_bytes 4 v = [word_of_nat (v mod 256), word_of_nat (v div 256 mod 256),
      word_of_nat (v div 256 div 256 mod 256), word_of_nat (v div 256 div 256 div 256 mod 256)]" for v
    by (simp only: le_bytes.simps)
  ultimately show ?thesis by (simp add: md5_word_bytes_def b div_mult2_eq [symmetric])
qed

lemma md5_pad_count: "unat (55 - w :: md5_word) mod 64 = (119 - unat w mod 64) mod 64"
proof -
  define q r where "q = unat w div 64" and "r = unat w mod 64"
  have w: "unat w = 64 * q + r" "r < 64" by (simp_all add: q_def r_def)
  have less: "unat w < 4294967296" using unsigned_less [of w] by simp
  have "unat (55 - w) = (if unat w \<le> 55 then 55 - unat w else 4294967351 - unat w)"
    by (simp add: unat_sub_if_size word_size)
  also have "\<dots> mod 64 = (119 - r) mod 64"
  proof (cases "unat w \<le> 55")
    case True
    then have q: "q = 0" "r \<le> 55" using w by simp_all
    have "(119 - r) mod 64 = (55 - r + 64) mod 64" using q by simp
    also have "\<dots> = 55 - r" unfolding mod_add_self2 by simp
    finally show ?thesis using True w q by simp
  next
    case False
    have "q \<le> 67108863" using w less by linarith
    then have "4294967351 - unat w = 64 * (67108863 - q) + (119 - r)" using w by simp
    then show ?thesis using False by (simp only: mod_mult_self4 if_False)
  qed
  finally show ?thesis by (simp add: r_def)
qed

lemma md5_pad_bytes:
  assumes "md5_repr st m"
  shows "take (unat ((55 - drop_bit 3 (md_count0 st)) AND 63) + 1) (0x80 # replicate 63 0) =
    md5_padding (length m)"
proof -
  let ?w = "drop_bit 3 (md_count0 st)"
  have "unat ?w mod 64 = length m mod 64" using md5_offset [OF assms] by (simp only: unat_and_63)
  moreover have "unat ((55 - ?w) AND 63) = (119 - unat ?w mod 64) mod 64"
    unfolding unat_and_63 by (rule md5_pad_count)
  ultimately have n: "unat ((55 - ?w) AND 63) = (119 - length m mod 64) mod 64" by simp
  have "(119 - length m mod 64) mod 64 \<le> 63" by simp
  then show ?thesis unfolding n md5_padding_def by simp
qed

lemma md5_length_bytes:
  assumes "md5_repr st m"
  shows "md5_word_bytes (md_count0 st) @ md5_word_bytes (md_count1 st) = le_bytes 8 (8 * length m)"
proof -
  let ?a = "unat (md_count0 st)" and ?b = "unat (md_count1 st)"
  have a: "?a < 4294967296" using unsigned_less [of "md_count0 st"] by simp
  have "le_bytes 8 (8 * length m) = le_bytes 8 (8 * length m mod 256 ^ 8)" by (simp only: le_bytes_mod)
  also have "8 * length m mod 256 ^ 8 = ?a + 4294967296 * ?b"
    using assms by (simp add: md5_repr_def md5_bits_def)
  also have "le_bytes 8 (?a + 4294967296 * ?b) =
      le_bytes 4 (?a + 4294967296 * ?b) @ le_bytes 4 ((?a + 4294967296 * ?b) div 256 ^ 4)"
    using le_bytes_add [of 4 4] by simp
  also have "le_bytes 4 (?a + 4294967296 * ?b) = le_bytes 4 ((?a + 4294967296 * ?b) mod 256 ^ 4)"
    by (simp only: le_bytes_mod)
  finally show ?thesis using a by (simp add: md5_word_bytes_le)
qed

lemma md5_finish_repr:
  assumes "md5_repr st m"
  shows "fst (md5_finish st) = md5_digest m"
proof -
  let ?pad = "md5_padding (length m)" and ?len = "le_bytes 8 (8 * length m)"
  have "length ?pad < 268435456" "length ?len < 268435456"
    using mod_less_divisor [of 64 "119 - length m mod 64"] by (simp_all add: md5_padding_def)
  then have "md5_repr (md5_append (md5_append st ?pad) ?len) ((m @ ?pad) @ ?len)"
    by (intro md5_append_repr assms)
  then have "md_abcd (md5_append (md5_append st ?pad) ?len) = md5_absorb md5_iv (m @ ?pad @ ?len)"
    by (simp add: md5_repr_def)
  then show ?thesis
    unfolding md5_finish_def Let_def md5_pad_bytes [OF assms] md5_length_bytes [OF assms] md5_digest_def
    by (simp split: prod.split)
qed

section \<open>Property\<close>

text \<open>C26: appending a message to a new state in pieces of less than 256 MiB, whatever their
  lengths, and finishing gives the digest RFC 1321 defines for the whole message.\<close>

theorem md5_pieces_digest:
  assumes "length (md_buf st) = 64" "\<forall>n \<in> set ns. length n < 2 ^ 28"
  shows "fst (md5_finish (foldl md5_append (md5_init st) ns)) = md5_digest (concat ns)"
  using md5_finish_repr [OF md5_appends_repr [OF md5_repr_init [OF assms(1)], of ns]] assms(2) by simp

theorem md5_pieces_digest_witness:
  "fst (md5_finish (foldl md5_append (md5_init
      \<lparr>md_count0 = 7, md_count1 = 7, md_abcd = (0, 0, 0, 0), md_buf = replicate 64 9\<rparr>) [[0x61], [0x62, 0x63]])) =
   [0x90, 0x01, 0x50, 0x98, 0x3c, 0xd2, 0x4f, 0xb0, 0xd6, 0x96, 0x3f, 0x7d, 0x28, 0xe1, 0x7f, 0x72]"
  using md5_pieces_digest [of "\<lparr>md_count0 = 7, md_count1 = 7, md_abcd = (0, 0, 0, 0), md_buf = replicate 64 9\<rparr>"
      "[[0x61], [0x62, 0x63]]"] md5_test_abc by simp

end
