(* ===== verification/XmountHeaders.thy ===== *)
theory XmountHeaders
  imports XmountCache LibXmount Md5
begin

text \<open>
  The structures that surround the disk in the virtual image: the hash of the head of the
  image, which becomes its UUID, the VDI header with its block map, the VHD footer, the VMDK
  descriptor and the text of the info file. Random numbers, the time, and the texts that the
  libraries supply are arguments. Allocation does not fail. Where the code writes behind an
  allocated buffer the functions return \<open>None\<close>.
\<close>

section \<open>Byte orders\<close>

text \<open>\<open>htobe16\<close>, \<open>htobe32\<close> and \<open>htobe64\<close> on a little-endian host.\<close>

definition htobe :: "nat \<Rightarrow> nat \<Rightarrow> nat" where
  "htobe k v = le_val (be_bytes k v)"

lemma le_bytes_htobe [simp]: "le_bytes k (htobe k v) = be_bytes k v"
  using le_bytes_le_val [of "be_bytes k v"] by (simp add: htobe_def)

section \<open>CalculateInputImageHash\<close>

definition CalculateInputImageHash :: "md5_state \<Rightarrow> xmount_data \<Rightarrow> (int \<times> nat \<times> nat) option" where
  "CalculateInputImageHash st g =
     (case GetMorphedImageData g 0 HASH_AMOUNT of
        None \<Rightarrow> None
      | Some r \<Rightarrow>
          if rr_ret r \<noteq> C_TRUE \<or> rr_read r = 0 then Some (C_FALSE, 0, 0)
          else
            let hash = fst (md5_finish (md5_append (md5_init st) (take (rr_read r) (rr_buf r))))
            in Some (C_TRUE, le_val (take 8 hash), le_val (drop 8 hash)))"

section \<open>InitVirtVdiHeader\<close>

definition XMOUNT_VERSION :: string where "XMOUNT_VERSION = ''1.2.1''"
definition VDI_FILE_COMMENT :: string where
  "VDI_FILE_COMMENT = ''<<< This is a virtual VDI image >>>''"
definition VDI_HEADER_COMMENT :: string where
  "VDI_HEADER_COMMENT = ''This VDI was emulated using xmount v'' @ XMOUNT_VERSION"
definition VDI_IMAGE_SIGNATURE :: nat where "VDI_IMAGE_SIGNATURE = 0xBEDA107F"
definition VDI_IMAGE_VERSION :: nat where "VDI_IMAGE_VERSION = 0x00010001"
definition VDI_IMAGE_TYPE_FIXED :: nat where "VDI_IMAGE_TYPE_FIXED = 2"
definition VDI_IMAGE_FLAGS :: nat where "VDI_IMAGE_FLAGS = 0"
definition VDI_IMAGE_BLOCK_SIZE :: nat where "VDI_IMAGE_BLOCK_SIZE = 1024 * 1024"

record vdi_file_header =
  vf_szFileInfo :: bytes
  vf_u32Signature :: nat
  vf_u32Version :: nat
  vf_cbHeader :: nat
  vf_u32Type :: nat
  vf_fFlags :: nat
  vf_szComment :: bytes
  vf_offBlocks :: nat
  vf_offData :: nat
  vf_cCylinders :: nat
  vf_cHeads :: nat
  vf_cSectors :: nat
  vf_cbSector :: nat
  vf_u32Dummy :: nat
  vf_cbDisk :: nat
  vf_cbBlock :: nat
  vf_cbBlockExtra :: nat
  vf_cBlocks :: nat
  vf_cBlocksAllocated :: nat
  vf_uuidCreate_l :: nat
  vf_uuidCreate_h :: nat
  vf_uuidModify_l :: nat
  vf_uuidModify_h :: nat

text \<open>The packed memory image; the linkage UUIDs and the padding are zero.\<close>

definition enc_vdi_file_header :: "vdi_file_header \<Rightarrow> bytes" where
  "enc_vdi_file_header h =
     pad 64 (vf_szFileInfo h) @ le_bytes 4 (vf_u32Signature h) @ le_bytes 4 (vf_u32Version h) @
     le_bytes 4 (vf_cbHeader h) @ le_bytes 4 (vf_u32Type h) @ le_bytes 4 (vf_fFlags h) @
     pad 256 (vf_szComment h) @ le_bytes 4 (vf_offBlocks h) @ le_bytes 4 (vf_offData h) @
     le_bytes 4 (vf_cCylinders h) @ le_bytes 4 (vf_cHeads h) @ le_bytes 4 (vf_cSectors h) @
     le_bytes 4 (vf_cbSector h) @ le_bytes 4 (vf_u32Dummy h) @ le_bytes 8 (vf_cbDisk h) @
     le_bytes 4 (vf_cbBlock h) @ le_bytes 4 (vf_cbBlockExtra h) @ le_bytes 4 (vf_cBlocks h) @
     le_bytes 4 (vf_cBlocksAllocated h) @ le_bytes 8 (vf_uuidCreate_l h) @
     le_bytes 8 (vf_uuidCreate_h h) @ le_bytes 8 (vf_uuidModify_l h) @
     le_bytes 8 (vf_uuidModify_h h) @ replicate 32 0 @ replicate 56 0"

lemma length_enc_vdi_file_header [simp]: "length (enc_vdi_file_header h) = sizeof_VdiFileHeader"
  by (simp add: enc_vdi_file_header_def sizeof_VdiFileHeader_def)

text \<open>The values of \<open>rand()\<close>, in the order of the calls.\<close>

definition rand64 :: "nat \<Rightarrow> nat \<Rightarrow> nat" where
  "rand64 r1 r2 = u32 r1 + 4294967296 * u32 r2"

definition vdi_block_map :: "nat \<Rightarrow> bytes" where
  "vdi_block_map map_size = concat (map (le_bytes 4) [0..<ceil_div map_size 4])"

text \<open>The number of blocks and the header of an image of a given size.\<close>

definition vdi_block_entries :: "nat \<Rightarrow> nat" where
  "vdi_block_entries image_size =
     (let entries = u32 (image_size div VDI_IMAGE_BLOCK_SIZE) in
      if image_size mod VDI_IMAGE_BLOCK_SIZE \<noteq> 0 then u32 (entries + 1) else entries)"

definition vdi_header_fields ::
  "nat \<times> nat \<times> nat \<times> nat \<Rightarrow> nat \<Rightarrow> nat \<Rightarrow> nat \<Rightarrow> nat \<times> nat \<Rightarrow> vdi_file_header" where
  "vdi_header_fields = (\<lambda>(r1, r2, r3, r4) image_size block_entries hsize (hash_lo, hash_hi).
     \<lparr>vf_szFileInfo = string_bytes VDI_FILE_COMMENT @ [0], vf_u32Signature = VDI_IMAGE_SIGNATURE,
      vf_u32Version = VDI_IMAGE_VERSION, vf_cbHeader = 0x180, vf_u32Type = VDI_IMAGE_TYPE_FIXED,
      vf_fFlags = VDI_IMAGE_FLAGS, vf_szComment = string_bytes VDI_HEADER_COMMENT @ [0],
      vf_offBlocks = sizeof_VdiFileHeader, vf_offData = hsize, vf_cCylinders = 0, vf_cHeads = 0,
      vf_cSectors = 0, vf_cbSector = 512, vf_u32Dummy = 0, vf_cbDisk = image_size,
      vf_cbBlock = VDI_IMAGE_BLOCK_SIZE, vf_cbBlockExtra = 0, vf_cBlocks = block_entries,
      vf_cBlocksAllocated = block_entries, vf_uuidCreate_l = hash_lo, vf_uuidCreate_h = hash_hi,
      vf_uuidModify_l = rand64 r1 r2, vf_uuidModify_h = rand64 r3 r4\<rparr>)"

definition InitVirtVdiHeader ::
  "nat \<times> nat \<times> nat \<times> nat \<Rightarrow> xmount_data \<Rightarrow> (int \<times> xmount_data) option" where
  "InitVirtVdiHeader rands g =
     (case GetMorphedImageSize g of (ok, image_size) \<Rightarrow>
       if ok \<noteq> C_TRUE then Some (C_FALSE, g)
       else
         let block_entries = vdi_block_entries image_size;
             map_size = u32 (block_entries * 4);
             hsize = u32 (sizeof_VdiFileHeader + map_size)
         in if hsize < sizeof_VdiFileHeader + map_size then None
            else
              let h = vdi_header_fields rands image_size block_entries hsize
                        (in_image_hash_lo (x_input g), in_image_hash_hi (x_input g))
              in Some (C_TRUE, upd_output (\<lambda>od. od\<lparr>out_vdi :=
                   \<lparr>vdi_header_size = hsize, vdi_header = enc_vdi_file_header h @ vdi_block_map map_size,
                    vdi_block_map_size = map_size\<rparr>\<rparr>) g))"

section \<open>InitVirtVhdHeader\<close>

definition VHD_IMAGE_HVAL_COOKIE :: nat where "VHD_IMAGE_HVAL_COOKIE = 0x78697463656E6F63"
definition VHD_IMAGE_HVAL_FEATURES :: nat where "VHD_IMAGE_HVAL_FEATURES = 0x02000000"
definition VHD_IMAGE_HVAL_FILE_FORMAT_VERSION :: nat where
  "VHD_IMAGE_HVAL_FILE_FORMAT_VERSION = 0x00000100"
definition VHD_IMAGE_HVAL_DATA_OFFSET :: nat where "VHD_IMAGE_HVAL_DATA_OFFSET = 0xFFFFFFFFFFFFFFFF"
definition VHD_IMAGE_HVAL_CREATOR_APPLICATION :: nat where
  "VHD_IMAGE_HVAL_CREATOR_APPLICATION = 0x746E6D78"
definition VHD_IMAGE_HVAL_CREATOR_VERSION :: nat where "VHD_IMAGE_HVAL_CREATOR_VERSION = 0x00000500"
definition VHD_IMAGE_HVAL_CREATOR_HOST_OS :: nat where "VHD_IMAGE_HVAL_CREATOR_HOST_OS = 0x6B326957"
definition VHD_IMAGE_HVAL_DISK_TYPE :: nat where "VHD_IMAGE_HVAL_DISK_TYPE = 0x02000000"
definition VHD_IMAGE_TIME_CONVERSION_OFFSET :: int where
  "VHD_IMAGE_TIME_CONVERSION_OFFSET = 0x386D97E0"

record vhd_file_header =
  vh_cookie :: nat
  vh_features :: nat
  vh_file_format_version :: nat
  vh_data_offset :: nat
  vh_creation_time :: nat
  vh_creator_app :: nat
  vh_creator_ver :: nat
  vh_creator_os :: nat
  vh_size_original :: nat
  vh_size_current :: nat
  vh_disk_geometry_c :: nat
  vh_disk_geometry_h :: nat
  vh_disk_geometry_s :: nat
  vh_disk_type :: nat
  vh_checksum :: nat
  vh_uuid_l :: nat
  vh_uuid_h :: nat
  vh_saved_state :: nat

definition enc_vhd_file_header :: "vhd_file_header \<Rightarrow> bytes" where
  "enc_vhd_file_header h =
     le_bytes 8 (vh_cookie h) @ le_bytes 4 (vh_features h) @ le_bytes 4 (vh_file_format_version h) @
     le_bytes 8 (vh_data_offset h) @ le_bytes 4 (vh_creation_time h) @ le_bytes 4 (vh_creator_app h) @
     le_bytes 4 (vh_creator_ver h) @ le_bytes 4 (vh_creator_os h) @ le_bytes 8 (vh_size_original h) @
     le_bytes 8 (vh_size_current h) @ le_bytes 2 (vh_disk_geometry_c h) @
     le_bytes 1 (vh_disk_geometry_h h) @ le_bytes 1 (vh_disk_geometry_s h) @
     le_bytes 4 (vh_disk_type h) @ le_bytes 4 (vh_checksum h) @ le_bytes 8 (vh_uuid_l h) @
     le_bytes 8 (vh_uuid_h h) @ le_bytes 1 (vh_saved_state h) @ replicate 427 0"

lemma length_enc_vhd_file_header [simp]: "length (enc_vhd_file_header h) = sizeof_VhdFileHeader"
  by (simp add: enc_vhd_file_header_def sizeof_VhdFileHeader_def)

text \<open>Cylinders, heads and sectors; \<open>geom_h\<close> is a \<open>uint8_t\<close>, \<open>geom_c\<close> a
  \<open>uint16_t\<close>.\<close>

definition vhd_total_sectors :: "nat \<Rightarrow> nat" where
  "vhd_total_sectors orig_image_size =
     (if orig_image_size > 136899993600 then 267382800
      else orig_image_size div 512 + (if orig_image_size mod 512 \<noteq> 0 then 1 else 0))"

definition u8mod :: "nat \<Rightarrow> nat" where "u8mod n = n mod 256"

definition vhd_geometry :: "nat \<Rightarrow> nat \<times> nat \<times> nat" where
  "vhd_geometry tot_s =
     (let (s, h, cxh) =
        (if tot_s \<ge> 66059280 then (255, 16, tot_s div 255)
         else
           let cxh = tot_s div 17;
               h0 = u8mod ((cxh + 1023) div 1024);
               h = (if h0 < 4 then 4 else h0);
               (s1, h1, cxh1) = (if cxh \<ge> h * 1024 \<or> h > 16 then (31, 16, tot_s div 31)
                                 else (17, h, cxh))
           in if cxh1 \<ge> h1 * 1024 then (63, 16, tot_s div 63) else (s1, h1, cxh1))
      in (u16 (cxh div h), h, s))"

definition vhd_byte_sum :: "bytes \<Rightarrow> nat" where
  "vhd_byte_sum bs = foldl (\<lambda>c b. u32 (c + unat b)) 0 bs"

text \<open>The fields before the checksum is computed.\<close>

definition vhd_header_fields :: "int \<Rightarrow> nat \<Rightarrow> nat \<times> nat \<times> nat \<Rightarrow> nat \<times> nat \<Rightarrow> vhd_file_header" where
  "vhd_header_fields now orig_image_size = (\<lambda>(geom_c, geom_h, geom_s) (hash_lo, hash_hi).
     \<lparr>vh_cookie = VHD_IMAGE_HVAL_COOKIE, vh_features = VHD_IMAGE_HVAL_FEATURES,
      vh_file_format_version = VHD_IMAGE_HVAL_FILE_FORMAT_VERSION,
      vh_data_offset = VHD_IMAGE_HVAL_DATA_OFFSET,
      vh_creation_time = htobe 4 (nat ((now - VHD_IMAGE_TIME_CONVERSION_OFFSET) mod 4294967296)),
      vh_creator_app = VHD_IMAGE_HVAL_CREATOR_APPLICATION,
      vh_creator_ver = VHD_IMAGE_HVAL_CREATOR_VERSION,
      vh_creator_os = VHD_IMAGE_HVAL_CREATOR_HOST_OS,
      vh_size_original = htobe 8 orig_image_size, vh_size_current = htobe 8 orig_image_size,
      vh_disk_geometry_c = htobe 2 geom_c, vh_disk_geometry_h = geom_h,
      vh_disk_geometry_s = geom_s, vh_disk_type = VHD_IMAGE_HVAL_DISK_TYPE,
      vh_checksum = 0, vh_uuid_l = hash_lo, vh_uuid_h = hash_hi, vh_saved_state = 0\<rparr>)"

definition InitVirtVhdHeader :: "int \<Rightarrow> xmount_data \<Rightarrow> int \<times> xmount_data" where
  "InitVirtVhdHeader now g =
     (case GetMorphedImageSize g of (ok, orig_image_size) \<Rightarrow>
       if ok \<noteq> C_TRUE then (C_FALSE, g)
       else
         let h = vhd_header_fields now orig_image_size (vhd_geometry (vhd_total_sectors orig_image_size))
                   (in_image_hash_lo (x_input g), in_image_hash_hi (x_input g));
             checksum = vhd_byte_sum (enc_vhd_file_header h);
             h1 = h\<lparr>vh_checksum := htobe 4 (4294967295 - checksum)\<rparr>
         in (C_TRUE, upd_output (\<lambda>od. od\<lparr>out_vhd_header := enc_vhd_file_header h1\<rparr>) g))"

section \<open>InitVirtualVmdkFile\<close>

text \<open>A line end.\<close>

abbreviation nl :: string where "nl \<equiv> [CHR 0x0A]"
abbreviation dq :: string where "dq \<equiv> [CHR 0x22]"

definition VMDK_DESC_FILE :: "nat \<Rightarrow> string \<Rightarrow> string \<Rightarrow> string" where
  "VMDK_DESC_FILE blocks path adapter =
     ''# Disk DescriptorFile'' @ nl @ ''version=1'' @ nl @ ''CID=fffffffe'' @ nl @
     ''parentCID=ffffffff'' @ nl @ ''createType='' @ dq @ ''monolithicFlat'' @ dq @ nl @ nl @
     ''# Extent description'' @ nl @
     ''RW '' @ dec_string blocks @ '' FLAT '' @ dq @ path @ dq @ '' 0'' @ nl @ nl @
     ''# The Disk Data Base'' @ nl @ ''#DDB'' @ nl @
     ''ddb.virtualHWVersion = '' @ dq @ ''3'' @ dq @ nl @
     ''ddb.adapterType = '' @ dq @ adapter @ dq @ nl @
     ''ddb.geometry.cylinders = '' @ dq @ ''0'' @ dq @ nl @
     ''ddb.geometry.heads = '' @ dq @ ''0'' @ dq @ nl @
     ''ddb.geometry.sectors = '' @ dq @ ''0'' @ dq @ nl"

text \<open>\<open>sprintf\<close> into \<open>char buf[500]\<close>.\<close>

definition InitVirtualVmdkFile :: "xmount_data \<Rightarrow> (int \<times> xmount_data) option" where
  "InitVirtualVmdkFile g =
     (case GetMorphedImageSize g of (ok, image_size) \<Rightarrow>
       if ok \<noteq> C_TRUE then Some (C_FALSE, g)
       else
         let image_blocks = image_size div 512 + (if image_size mod 512 \<noteq> 0 then 1 else 0);
             t = out_VirtImageType (x_output g) in
         if t = VirtImageType_VMDK \<or> t = VirtImageType_VMDKS then
           let buf = VMDK_DESC_FILE image_blocks (tl (out_virtual_image_path (x_output g)))
                       (if t = VirtImageType_VMDK then ''ide'' else ''scsi'') in
           if length buf + 1 > 500 then None
           else Some (C_TRUE, upd_vmdk (\<lambda>v. v\<lparr>vm_vmdk_file := string_bytes buf,
                                              vm_vmdk_file_size := int_of_size (length buf)\<rparr>) g)
         else Some (C_FALSE, g))"

section \<open>InitVirtImageInfoFile\<close>

definition IMAGE_INFO_INPUT_HEADER :: string where
  "IMAGE_INFO_INPUT_HEADER =
     ''------> The following values are supplied by the used input library(ies) '' @ ''<------'' @ nl"
definition IMAGE_INFO_MORPHING_HEADER :: string where
  "IMAGE_INFO_MORPHING_HEADER =
     nl @ ''------> The following values are supplied by the used morphing library '' @
     ''<------'' @ nl @ nl"

text \<open>The texts of the input libraries, image by image: the code of
  \<open>GetInfofileContent\<close> and the buffer, if any. The text so far is returned on errors
  too.\<close>

fun InitVirtImageInfoFile_loop ::
  "((int \<times> string option) \<times> input_image) list \<Rightarrow> string \<Rightarrow> int \<times> string" where
  "InitVirtImageInfoFile_loop [] text = (C_TRUE, text)"
| "InitVirtImageInfoFile_loop (((ret, buf), i) # is) text =
     (if ret \<noteq> 0 then (C_FALSE, text)
      else InitVirtImageInfoFile_loop is
             (text @ nl @ ''--> '' @ hd (ii_files i) @ '' <--'' @ nl @
              (case buf of Some b \<Rightarrow> b | None \<Rightarrow> ''None'' @ nl)))"

definition InitVirtImageInfoFile ::
  "(int \<times> string option) list \<Rightarrow> int \<times> string option \<Rightarrow> xmount_data \<Rightarrow> int \<times> xmount_data" where
  "InitVirtImageInfoFile infos morph_info g =
     (case InitVirtImageInfoFile_loop (zip infos (in_images (x_input g))) IMAGE_INFO_INPUT_HEADER of
       (ok, text) \<Rightarrow>
         if ok \<noteq> C_TRUE then (C_FALSE, upd_output (\<lambda>od. od\<lparr>out_info_file := Some text\<rparr>) g)
         else case morph_info of (ret, buf) \<Rightarrow>
           let text1 = text @ IMAGE_INFO_MORPHING_HEADER in
           if ret \<noteq> 0 then (C_FALSE, upd_output (\<lambda>od. od\<lparr>out_info_file := Some text1\<rparr>) g)
           else (C_TRUE, upd_output (\<lambda>od. od\<lparr>out_info_file :=
                  Some (text1 @ (case buf of Some b \<Rightarrow> b | None \<Rightarrow> ''None'' @ nl))\<rparr>) g))"


section \<open>The head of the image\<close>

lemma GetMorphedImageData_head:
  assumes "morphed_ok g d" "d \<noteq> []" "0 < n" "n < 4294967296"
  shows "GetMorphedImageData g 0 n =
    Some \<lparr>rr_ret = 1, rr_buf = take n d, rr_read = length (take n d), rr_errno = 0\<rparr>"
proof (cases "n \<le> length d")
  case True
  then show ?thesis using GetMorphedImageData_in_range [OF assms(1,3,4), of 0] by (simp add: segment_def)
next
  case False
  then have "GetMorphedImageData g 0 n = GetMorphedImageData g 0 (length d)"
    using assms by (simp add: GetMorphedImageData_def GetMorphedImageSize_ok u64_small sub64_small)
  also have "\<dots> = Some \<lparr>rr_ret = 1, rr_buf = d, rr_read = length d, rr_errno = 0\<rparr>"
    using GetMorphedImageData_in_range [OF assms(1), of "length d" 0] False assms(2,4)
    by (simp add: segment_all)
  finally show ?thesis using False by simp
qed

section \<open>The VHD footer\<close>

text \<open>The geometry computation of the VHD specification, over unbounded numbers.\<close>

definition vhd_spec_geometry :: "nat \<Rightarrow> nat \<times> nat \<times> nat" where
  "vhd_spec_geometry total_sectors =
     (let n = min total_sectors (65535 * 16 * 255) in
      if n \<ge> 65535 * 16 * 63 then (n div 255 div 16, 16, 255)
      else
        let heads = max 4 ((n div 17 + 1023) div 1024) in
        if n div 17 < heads * 1024 \<and> heads \<le> 16 then (n div 17 div heads, heads, 17)
        else if n div 31 < 16 * 1024 then (n div 31 div 16, 16, 31)
        else (n div 63 div 16, 16, 63))"

lemma vhd_total_sectors_eq: "vhd_total_sectors sz = min (ceil_div sz 512) 267382800"
proof (cases "sz > 136899993600")
  case True
  then have "267382800 \<le> sz div 512" by simp
  then show ?thesis using True by (simp add: vhd_total_sectors_def ceil_div_def)
next
  case False
  then have "ceil_div sz 512 \<le> 267382800"
    using ceil_div_bounds(2) [of 512 sz] by simp
  then show ?thesis using False by (simp add: vhd_total_sectors_def ceil_div_def)
qed

text \<open>A head count that does not fit in 8 bits is discarded whatever its truncation is.\<close>

lemma vhd_heads_truncation:
  fixes cxh :: nat
  defines "h \<equiv> (cxh + 1023) div 1024"
  shows "(if u8mod h < 4 then 4 else u8mod h) * 1024 \<le> cxh \<or> (if u8mod h < 4 then 4 else u8mod h) > 16 \<longleftrightarrow>
    \<not> (cxh < max 4 h * 1024 \<and> max 4 h \<le> 16)"
    and "h \<le> 16 \<Longrightarrow> (if u8mod h < 4 then 4 else u8mod h) = max 4 h"
proof -
  show 2: "(if u8mod h < 4 then 4 else u8mod h) = max 4 h" if "h \<le> 16"
    using that by (simp add: u8mod_def max_def)
  show "(if u8mod h < 4 then 4 else u8mod h) * 1024 \<le> cxh \<or> (if u8mod h < 4 then 4 else u8mod h) > 16 \<longleftrightarrow>
    \<not> (cxh < max 4 h * 1024 \<and> max 4 h \<le> 16)"
  proof (cases "h \<le> 255")
    case True
    then have "(if u8mod h < 4 then 4 else u8mod h) = max 4 h" by (simp add: u8mod_def max_def)
    then show ?thesis by auto
  next
    case False
    have "u8mod h \<le> 255" using mod_less_divisor [of 256 h] unfolding u8mod_def by linarith
    moreover have "261120 \<le> cxh" using False by (simp add: h_def)
    ultimately have "(if u8mod h < 4 then 4 else u8mod h) * 1024 \<le> cxh" by simp
    then show ?thesis using False by simp
  qed
qed

lemma vhd_geometry_eq: "vhd_geometry (min n 267382800) = vhd_spec_geometry n"
proof -
  define m where "m = min n 267382800"
  have m: "m \<le> 267382800" by (simp add: m_def)
  show ?thesis
  proof (cases "m \<ge> 66059280")
    case True
    then have "u16 (m div 255 div 16) = m div 255 div 16" using m by (intro u16_small) simp
    then show ?thesis using True
      by (simp add: vhd_geometry_def vhd_spec_geometry_def Let_def m_def [symmetric])
  next
    case False
    define h where "h = (m div 17 + 1023) div 1024"
    define h' where "h' = (if u8mod h < 4 then 4 else u8mod h)"
    note trunc = vhd_heads_truncation [of "m div 17", folded h_def, folded h'_def]
    show ?thesis
    proof (cases "m div 17 < max 4 h * 1024 \<and> max 4 h \<le> 16")
      case small: True
      then have h': "h' = max 4 h" using trunc(2) by simp
      have "m div 17 div max 4 h < 1024" using small by (simp add: less_mult_imp_div_less mult.commute)
      then have "u16 (m div 17 div max 4 h) = m div 17 div max 4 h" by (intro u16_small) simp
      then show ?thesis using False small
        unfolding vhd_geometry_def vhd_spec_geometry_def Let_def m_def [symmetric] h_def [symmetric]
          h'_def [symmetric] h' by (simp add: m_def [symmetric] h_def [symmetric] less_max_iff_disj not_less)
    next
      case big: False
      then have c: "h' * 1024 \<le> m div 17 \<or> 16 < h'" using trunc(1) by blast
      have "m div 63 div 16 < 65536" using False by simp
      moreover have "m div 31 div 16 < 65536" if "m div 31 < 16384" using that by simp
      ultimately show ?thesis using False big c
        unfolding vhd_geometry_def vhd_spec_geometry_def Let_def m_def [symmetric] h_def [symmetric]
          h'_def [symmetric] by (auto simp: m_def [symmetric] h_def [symmetric] u16_small)
    qed
  qed
qed

lemma vhd_byte_sum_eq:
  assumes "length bs < 2 ^ 24"
  shows "vhd_byte_sum bs = sum_list (map unat bs)"
proof -
  have bound: "sum_list (map unat xs) \<le> 255 * length xs" for xs :: bytes
  proof (induction xs)
    case (Cons x xs)
    then show ?case using unat_u8_less [of x] by simp
  qed simp
  have "foldl (\<lambda>c b. u32 (c + unat b)) k xs = k + sum_list (map unat xs)"
    if "k + 255 * length xs < 4294967296" for k :: nat and xs :: bytes
    using that
  proof (induction xs arbitrary: k)
    case (Cons x xs)
    have "u32 (k + unat x) = k + unat x" using Cons.prems unat_u8_less [of x] by (intro u32_small) simp
    then show ?case using Cons.IH [of "k + unat x"] Cons.prems unat_u8_less [of x] by simp
  qed simp
  from this [of 0 bs] show ?thesis using assms by (simp add: vhd_byte_sum_def)
qed


lemma vhd_spec_geometry_bounds:
  assumes "vhd_spec_geometry n = (c, h, s)"
  shows "c \<le> 65535 \<and> h \<le> 16 \<and> s \<le> 255 \<and> c * h * s \<le> n"
proof -
  define m where "m = min n 267382800"
  have m: "m \<le> 267382800" "m \<le> n" by (simp_all add: m_def)
  have le: "m div a div b * b * a \<le> m" for a b :: nat
    by (metis div_mult2_eq mult.assoc mult.commute div_times_less_eq_dividend)
  let ?h = "max 4 ((m div 17 + 1023) div 1024)"
  have eq: "vhd_spec_geometry n = (if 66059280 \<le> m then (m div 255 div 16, 16, 255)
      else if m div 17 < ?h * 1024 \<and> ?h \<le> 16 then (m div 17 div ?h, ?h, 17)
      else if m div 31 < 16384 then (m div 31 div 16, 16, 31) else (m div 63 div 16, 16, 63))"
  proof -
    have k: "65535 * 16 * 255 = (267382800 :: nat)" "65535 * 16 * 63 = (66059280 :: nat)"
      "16 * 1024 = (16384 :: nat)" by simp_all
    show ?thesis unfolding vhd_spec_geometry_def Let_def k m_def [symmetric] by (rule refl)
  qed
  show ?thesis
  proof (cases "66059280 \<le> m")
    case True
    then show ?thesis using assms m le [of 255 16] unfolding eq by auto
  next
    case large: False
    show ?thesis
    proof (cases "m div 17 < ?h * 1024 \<and> ?h \<le> 16")
      case True
      have "m div 17 div ?h < 1024" using True by (simp add: less_mult_imp_div_less mult.commute)
      moreover have chs: "c = m div 17 div ?h" "h = ?h" "s = 17"
        using assms large True unfolding eq if_not_P [OF large] if_P [OF True] prod.inject by blast+
      ultimately have "c < 1024" "h \<le> 16" "c * h * s \<le> m"
        using True le [of 17 ?h] unfolding chs by blast+
      then show ?thesis using chs(3) m(2) by simp
    next
      case False
      then show ?thesis
        using assms large m(2) le [of 31 16] le [of 63 16] unfolding eq by (cases "m div 31 < 16384") auto
    qed
  qed
qed

lemma vhd_checksum_field:
  "take 64 (enc_vhd_file_header (h\<lparr>vh_checksum := c\<rparr>)) = take 64 (enc_vhd_file_header h)"
  "drop 68 (enc_vhd_file_header (h\<lparr>vh_checksum := c\<rparr>)) = drop 68 (enc_vhd_file_header h)"
  "segment 64 4 (enc_vhd_file_header (h\<lparr>vh_checksum := c\<rparr>)) = le_bytes 4 c"
  by (simp_all add: enc_vhd_file_header_def segment_append_right segment_append_left segment_all
      del: One_nat_def le_bytes.simps)

lemma sum_bytes_split:
  assumes "length b = 512"
  shows "sum_list (map unat b) =
    sum_list (map unat (take 64 b @ drop 68 b)) + sum_list (map unat (segment 64 4 b))"
proof -
  have "b = take 64 b @ segment 64 4 b @ drop 68 b"
    using append_take_drop_id [of 64 b] append_take_drop_id [of 4 "drop 64 b"] by (simp add: segment_def)
  then have "sum_list (map unat b) = sum_list (map unat (take 64 b @ segment 64 4 b @ drop 68 b))" by simp
  then show ?thesis by simp
qed

lemma vhd_checksum_complement:
  fixes h :: vhd_file_header
  defines "h0 \<equiv> h\<lparr>vh_checksum := 0\<rparr>"
  defines "b \<equiv> enc_vhd_file_header (h\<lparr>vh_checksum := htobe 4 (4294967295 - vhd_byte_sum (enc_vhd_file_header h0))\<rparr>)"
  shows "be_at 64 4 b + sum_list (map unat (take 64 b @ drop 68 b)) = 4294967295"
proof -
  let ?b0 = "enc_vhd_file_header h0" and ?rest = "\<lambda>b. sum_list (map unat (take 64 b @ drop 68 b))"
  have "4 = Suc (Suc (Suc (Suc 0)))" by simp
  then have "sum_list (map unat (le_bytes 4 0)) = 0" by (simp only: le_bytes.simps) simp
  then have s0: "sum_list (map unat ?b0) = ?rest ?b0"
    using sum_bytes_split [of ?b0] vhd_checksum_field(3) [where h = h and c = 0] by (simp add: h0_def sizeof_VhdFileHeader_def)
  have r: "?rest b = ?rest ?b0" by (simp add: b_def h0_def vhd_checksum_field(1,2))
  have bound: "sum_list (map unat xs) \<le> 255 * length xs" for xs :: bytes
  proof (induction xs)
    case (Cons x xs)
    then show ?case using unat_u8_less [of x] by simp
  qed simp
  have c: "vhd_byte_sum ?b0 = ?rest ?b0" using vhd_byte_sum_eq [of ?b0] s0 by (simp add: sizeof_VhdFileHeader_def)
  have le: "?rest ?b0 \<le> 130560"
    using bound [of ?b0] by (simp add: s0 sizeof_VhdFileHeader_def)
  have "be_at 64 4 b = 4294967295 - ?rest ?b0"
    using le by (simp add: be_at_def b_def vhd_checksum_field(3) be_val_be_bytes c h0_def [symmetric])
  then show ?thesis using le r by simp
qed

section \<open>The VMDK descriptor\<close>

lemma length_VMDK_DESC_FILE:
  "length (VMDK_DESC_FILE blocks path adapter) = 284 + length (dec_string blocks) + length path + length adapter"
  by (simp add: VMDK_DESC_FILE_def)

section \<open>Property\<close>

text \<open>C34: with its 8-bit and 16-bit variables the code computes the geometry of the VHD
  specification for every image size; it addresses no sector behind the image.\<close>

theorem vhd_geometry_specified:
  "vhd_geometry (vhd_total_sectors image_size) = vhd_spec_geometry (ceil_div image_size 512) \<and>
   (case vhd_geometry (vhd_total_sectors image_size) of (c, h, s) \<Rightarrow>
     c \<le> 65535 \<and> h \<le> 16 \<and> s \<le> 255 \<and> c * h * s \<le> ceil_div image_size 512)"
  using vhd_spec_geometry_bounds [of "ceil_div image_size 512"]
  by (auto simp: vhd_total_sectors_eq vhd_geometry_eq split: prod.split)

end
