(* ===== verification/InputVdi.thy ===== *)
theory InputVdi
  imports InputRaw
begin

text \<open>
  The input library \<open>libxmount_input_vdi\<close>: VirtualBox disk images of version 1.1, through
  their block map. The log file of option \<open>vdilog\<close> is output only; that it can be written,
  and \<open>realpath\<close>, are parameters of the option parser.
\<close>

section \<open>Data\<close>

definition VDI_OK :: int where "VDI_OK = 0"
definition VDI_MEMALLOC_FAILED :: int where "VDI_MEMALLOC_FAILED = 1"
definition VDI_FILE_OPEN_FAILED :: int where "VDI_FILE_OPEN_FAILED = 2"
definition VDI_CANNOT_READ_DATA :: int where "VDI_CANNOT_READ_DATA = 3"
definition VDI_CANNOT_CLOSE_FILE :: int where "VDI_CANNOT_CLOSE_FILE = 4"
definition VDI_BAD_MAGIC_HEADER :: int where "VDI_BAD_MAGIC_HEADER = 6"
definition VDI_BAD_VERSION :: int where "VDI_BAD_VERSION = 7"
definition VDI_UNSUPPORTED_ENCRYPTION :: int where "VDI_UNSUPPORTED_ENCRYPTION = 8"
definition VDI_CANNOT_SEEK :: int where "VDI_CANNOT_SEEK = 9"
definition VDI_READ_BEYOND_END_OF_IMAGE :: int where "VDI_READ_BEYOND_END_OF_IMAGE = 10"
definition VDI_OPTIONS_ERROR :: int where "VDI_OPTIONS_ERROR = 12"
definition VDI_INVALID_BLOCK_SIZE :: int where "VDI_INVALID_BLOCK_SIZE = 13"
definition VDI_BAD_BLOCK_MAP_OFFSET :: int where "VDI_BAD_BLOCK_MAP_OFFSET = 14"

lemmas vdi_codes = VDI_OK_def VDI_MEMALLOC_FAILED_def VDI_FILE_OPEN_FAILED_def
  VDI_CANNOT_READ_DATA_def VDI_CANNOT_CLOSE_FILE_def VDI_BAD_MAGIC_HEADER_def VDI_BAD_VERSION_def
  VDI_UNSUPPORTED_ENCRYPTION_def VDI_CANNOT_SEEK_def VDI_READ_BEYOND_END_OF_IMAGE_def
  VDI_OPTIONS_ERROR_def VDI_INVALID_BLOCK_SIZE_def VDI_BAD_BLOCK_MAP_OFFSET_def

definition VDI_HEADER_SIGNATURE :: nat where "VDI_HEADER_SIGNATURE = 0xBEDA107F"
definition VDI_HEADER_VERSION_1_1 :: nat where "VDI_HEADER_VERSION_1_1 = 0x00010001"
definition VDI_BLOCK_DISCARDED :: nat where "VDI_BLOCK_DISCARDED = 0xFFFFFFFE"
definition VDI_BLOCK_UNALLOCATED :: nat where "VDI_BLOCK_UNALLOCATED = 0xFFFFFFFF"
definition sizeof_t_VdiHeader :: nat where "sizeof_t_VdiHeader = 456"

record t_vdi_header =
  tv_Signature :: nat
  tv_Version :: nat
  tv_HeaderSize :: nat
  tv_ImageType :: nat
  tv_ImageFlags :: nat
  tv_OffsetBmap :: nat
  tv_OffsetData :: nat
  tv_DiskSize :: nat
  tv_BlockSize :: nat
  tv_BlocksInImage :: nat
  tv_BlocksAllocated :: nat

text \<open>The memory image of \<open>t_VdiHeader\<close>; its natural layout has no padding.\<close>

definition dec_t_vdi_header :: "bytes \<Rightarrow> t_vdi_header" where
  "dec_t_vdi_header b =
     \<lparr>tv_Signature = le_at 64 4 b, tv_Version = le_at 68 4 b, tv_HeaderSize = le_at 72 4 b,
      tv_ImageType = le_at 76 4 b, tv_ImageFlags = le_at 80 4 b, tv_OffsetBmap = le_at 340 4 b,
      tv_OffsetData = le_at 344 4 b, tv_DiskSize = le_at 368 8 b, tv_BlockSize = le_at 376 4 b,
      tv_BlocksInImage = le_at 384 4 b, tv_BlocksAllocated = le_at 388 4 b\<rparr>"

record t_vdi =
  vd_filename :: "string option"
  vd_file :: "cfile option"
  vd_header :: t_vdi_header
  vd_bmap :: "nat list option"
  vd_log_path :: "string option"
  vd_log_stdout :: bool

section \<open>Operations\<close>

definition VdiUtilFileSeek :: "nat \<Rightarrow> cfile \<Rightarrow> int \<times> cfile" where
  "VdiUtilFileSeek offset f =
     (case fseeko_set offset f of (s, f1) \<Rightarrow> ((if s \<noteq> 0 then VDI_CANNOT_SEEK else VDI_OK), f1))"

definition VdiUtilFileRead :: "nat \<Rightarrow> cfile \<Rightarrow> int \<times> bytes \<times> cfile" where
  "VdiUtilFileRead n f =
     (case fread n f of (k, b, f1) \<Rightarrow> ((if k \<noteq> 1 then VDI_CANNOT_READ_DATA else VDI_OK), b, f1))"

definition VdiRead0 :: "t_vdi \<Rightarrow> nat \<Rightarrow> nat \<Rightarrow> (int \<times> bytes) option" where
  "VdiRead0 v seek count =
     (let h = vd_header v in
      if tv_BlockSize h = 0 then None
      else
        let SeekBlock = seek div tv_BlockSize h; SeekOffset = seek mod tv_BlockSize h in
        if SeekBlock \<ge> tv_BlocksInImage h then Some (VDI_BAD_BLOCK_MAP_OFFSET, [])
        else case (vd_bmap v, vd_file v) of
          (Some bmap, Some f) \<Rightarrow>
            if SeekBlock \<ge> length bmap then None
            else
              let FileBlock = bmap ! SeekBlock;
                  n = u32 (min count (tv_BlockSize h - SeekOffset)) in
              if FileBlock = VDI_BLOCK_DISCARDED \<or> FileBlock = VDI_BLOCK_UNALLOCATED
              then Some (VDI_OK, replicate n 0)
              else (case VdiUtilFileSeek
                      (u64 (tv_OffsetData h + FileBlock * tv_BlockSize h + SeekOffset)) f of
                      (s, f1) \<Rightarrow>
                        if s \<noteq> VDI_OK then Some (s, [])
                        else case VdiUtilFileRead n f1 of (ret, b, f2) \<Rightarrow> Some (ret, b))
        | _ \<Rightarrow> None)"

definition VdiParseHeader :: "t_vdi \<Rightarrow> cfile \<Rightarrow> int \<times> t_vdi" where
  "VdiParseHeader v f =
     (case VdiUtilFileRead sizeof_t_VdiHeader f of (ret, b, f1) \<Rightarrow>
        let v1 = v\<lparr>vd_file := Some f1\<rparr> in
        if ret \<noteq> VDI_OK then (ret, v1)
        else
          let h = dec_t_vdi_header b; v2 = v1\<lparr>vd_header := h\<rparr> in
          if tv_Signature h \<noteq> VDI_HEADER_SIGNATURE then (VDI_BAD_MAGIC_HEADER, v2)
          else if tv_Version h \<noteq> VDI_HEADER_VERSION_1_1 then (VDI_BAD_VERSION, v2)
          else if tv_BlockSize h = 0 then (VDI_INVALID_BLOCK_SIZE, v2)
          else (VDI_OK, v2))"

definition VdiCreateHandle :: "bool \<Rightarrow> t_vdi" where
  "VdiCreateHandle debug =
     \<lparr>vd_filename = None, vd_file = None, vd_header = dec_t_vdi_header [], vd_bmap = None,
      vd_log_path = None, vd_log_stdout = debug\<rparr>"

definition VdiClose :: "t_vdi \<Rightarrow> int \<times> t_vdi" where
  "VdiClose v = (VDI_OK, v\<lparr>vd_bmap := None\<rparr>)"

text \<open>The block map as an array of \<open>uint32_t\<close>, as far as it has been read.\<close>

definition vdi_bmap_entries :: "nat \<Rightarrow> bytes \<Rightarrow> nat list" where
  "vdi_bmap_entries k b = map (\<lambda>i. le_at (4 * i) 4 b) [0..<k]"

text \<open>Reading the block map of a parsed image.\<close>

definition VdiOpen_bmap :: "t_vdi \<Rightarrow> int \<times> t_vdi" where
  "VdiOpen_bmap v =
     (let h = vd_header v; BmapSize = tv_BlocksInImage h * 4 in
      case VdiUtilFileSeek (tv_OffsetBmap h) (the (vd_file v)) of (s, f1) \<Rightarrow>
        if s \<noteq> VDI_OK then (s, v\<lparr>vd_file := Some f1, vd_bmap := Some []\<rparr>)
        else case VdiUtilFileRead BmapSize f1 of (ret, b, f2) \<Rightarrow>
          (ret, v\<lparr>vd_file := Some f2,
                  vd_bmap := Some (vdi_bmap_entries (length b div 4) b)\<rparr>))"

definition VdiOpen :: "(string \<Rightarrow> bytes option) \<Rightarrow> t_vdi \<Rightarrow> string list \<Rightarrow> int \<times> t_vdi" where
  "VdiOpen fs v names =
     (case names of
        [] \<Rightarrow> (VDI_FILE_OPEN_FAILED, v)
      | name # _ \<Rightarrow>
          (case open_r fs name of
             None \<Rightarrow> (VDI_FILE_OPEN_FAILED,
                       snd (VdiClose (v\<lparr>vd_filename := Some name, vd_file := None\<rparr>)))
           | Some f \<Rightarrow>
               (case VdiParseHeader (v\<lparr>vd_filename := Some name\<rparr>) f of (ret, v1) \<Rightarrow>
                  if ret \<noteq> VDI_OK then (ret, v1) else VdiOpen_bmap v1)))"

definition VdiSize :: "t_vdi \<Rightarrow> int \<times> nat" where
  "VdiSize v = (VDI_OK, tv_DiskSize (vd_header v))"

definition VdiRead :: "t_vdi \<Rightarrow> nat \<Rightarrow> nat \<Rightarrow> read_res option" where
  "VdiRead v seek count =
     input_read VDI_READ_BEYOND_END_OF_IMAGE (tv_DiskSize (vd_header v)) (VdiRead0 v) seek count"

text \<open>The loop over the options: the error text, if any.\<close>

fun VdiOptionsParse_loop ::
  "(string \<Rightarrow> string option) \<Rightarrow> (t_vdi \<Rightarrow> int) \<Rightarrow> t_vdi \<Rightarrow> lib_option list \<Rightarrow>
   string option \<times> t_vdi \<times> lib_option list" where
  "VdiOptionsParse_loop realpath log_rc v [] = (None, v, [])"
| "VdiOptionsParse_loop realpath log_rc v (opt # opts) =
     (if lo_key opt = ''vdilog'' then
        let v1 = v\<lparr>vd_log_path := realpath (lo_value opt)\<rparr> in
        if vd_log_path v1 = None then (Some ''The given log path does not exist'', v1, opt # opts)
        else if log_rc v1 \<noteq> VDI_OK then (Some ''Write test to log file failed'', v1, opt # opts)
        else case VdiOptionsParse_loop realpath log_rc v1 opts of (e, v2, opts1) \<Rightarrow>
          (e, v2, opt\<lparr>lo_valid := True\<rparr> # opts1)
      else case VdiOptionsParse_loop realpath log_rc v opts of (e, v2, opts1) \<Rightarrow>
        (e, v2, opt # opts1))"

definition VdiOptionsParse ::
  "(string \<Rightarrow> string option) \<Rightarrow> (t_vdi \<Rightarrow> int) \<Rightarrow> t_vdi \<Rightarrow> lib_option list \<Rightarrow>
   int \<times> string option \<times> t_vdi \<times> lib_option list" where
  "VdiOptionsParse realpath log_rc v opts =
     (case VdiOptionsParse_loop realpath log_rc v opts of (e, v1, opts1) \<Rightarrow>
        ((if e \<noteq> None then VDI_OPTIONS_ERROR else VDI_OK), e, v1, opts1))"

definition VdiGetErrorMessage :: "int \<Rightarrow> string" where
  "VdiGetErrorMessage ErrNum =
     (if ErrNum = VDI_MEMALLOC_FAILED then ''Unable to allocate memory''
      else if ErrNum = VDI_FILE_OPEN_FAILED then ''Unable to open vdi file''
      else if ErrNum = VDI_CANNOT_READ_DATA then ''Unable to read vdi data''
      else if ErrNum = VDI_CANNOT_CLOSE_FILE then ''Unable to close vdi file''
      else if ErrNum = VDI_BAD_MAGIC_HEADER then ''Unable to verify magic header of vdi file''
      else if ErrNum = VDI_BAD_VERSION then ''Unsupported vdi file version. Only v 1.1 is supported.''
      else if ErrNum = VDI_CANNOT_SEEK then ''Unable to seek into vdi data''
      else if ErrNum = VDI_READ_BEYOND_END_OF_IMAGE
        then ''Unable to read vdi data: Attempt to read past EOF''
      else if ErrNum = VDI_UNSUPPORTED_ENCRYPTION then ''Encrpyted vdi format is not supported''
      else if ErrNum = VDI_INVALID_BLOCK_SIZE then ''Header contained invalid block size''
      else if ErrNum = VDI_BAD_BLOCK_MAP_OFFSET then ''Got an invalid Block Map index''
      else ''Unknown error'')"

section \<open>The contents of an image\<close>

text \<open>Block \<open>i\<close> of the disk: zeros where it is not allocated, its bytes in the file
  otherwise. The last one may end with the disk.\<close>

definition vdi_block :: "t_vdi_header \<Rightarrow> bytes \<Rightarrow> nat \<Rightarrow> bytes" where
  "vdi_block h d b =
     (if b = VDI_BLOCK_DISCARDED \<or> b = VDI_BLOCK_UNALLOCATED then replicate (tv_BlockSize h) 0
      else pad (tv_BlockSize h) (segment (tv_OffsetData h + b * tv_BlockSize h) (tv_BlockSize h) d))"

definition vdi_data_of :: "t_vdi_header \<Rightarrow> nat list \<Rightarrow> bytes \<Rightarrow> bytes" where
  "vdi_data_of h bmap d = block_disk (tv_DiskSize h) (map (vdi_block h d) bmap)"

definition vdi_blocks_ok :: "t_vdi_header \<Rightarrow> nat list \<Rightarrow> bytes \<Rightarrow> bool" where
  "vdi_blocks_ok h bmap d \<longleftrightarrow> 0 < tv_BlockSize h \<and> tv_BlockSize h < 2 ^ 32 \<and>
     length bmap = tv_BlocksInImage h \<and> tv_DiskSize h \<le> tv_BlocksInImage h * tv_BlockSize h \<and>
     tv_DiskSize h < 2 ^ 63 \<and> length d < 2 ^ 63 \<and>
     (\<forall>i < length bmap. bmap ! i \<noteq> VDI_BLOCK_DISCARDED \<and> bmap ! i \<noteq> VDI_BLOCK_UNALLOCATED \<longrightarrow>
        tv_OffsetData h + bmap ! i * tv_BlockSize h +
          min (tv_BlockSize h) (tv_DiskSize h - i * tv_BlockSize h) \<le> length d)"

definition vdi_file_data :: "t_vdi \<Rightarrow> bytes" where
  "vdi_file_data v = (case vd_file v of Some f \<Rightarrow> f_data f | None \<Rightarrow> [])"

definition vdi_contents :: "t_vdi \<Rightarrow> bytes" where
  "vdi_contents v = vdi_data_of (vd_header v) (the (vd_bmap v)) (vdi_file_data v)"

definition vdi_inv :: "t_vdi \<Rightarrow> bool" where
  "vdi_inv v \<longleftrightarrow> vd_file v \<noteq> None \<and> vd_bmap v \<noteq> None \<and>
     vdi_blocks_ok (vd_header v) (the (vd_bmap v)) (vdi_file_data v)"

lemma length_vdi_block [simp]: "length (vdi_block h d b) = tv_BlockSize h"
  by (simp add: vdi_block_def)

lemma length_vdi_data_of:
  assumes "vdi_blocks_ok h bmap d"
  shows "length (vdi_data_of h bmap d) = tv_DiskSize h"
  using assms by (auto simp: vdi_data_of_def vdi_blocks_ok_def intro!: length_block_disk)

lemma segment_vdi_data:
  assumes "i < length bmap"
    and "o' + k \<le> tv_BlockSize h" "i * tv_BlockSize h + o' + k \<le> tv_DiskSize h"
  shows "segment (i * tv_BlockSize h + o') k (vdi_data_of h bmap d) = segment o' k (vdi_block h d (bmap ! i))"
  using assms segment_block_disk [of "map (vdi_block h d) bmap" "tv_BlockSize h" i o' k]
  by (simp add: vdi_data_of_def)

interpretation vdi_pieces: piece_reader vdi_inv vdi_contents VdiRead0
proof unfold_locales
  fix v :: t_vdi and n off :: nat
  let ?h = "vd_header v"
  let ?bs = "tv_BlockSize ?h"
  assume inv: "vdi_inv v"
  then obtain f bmap where f: "vd_file v = Some f" and bm: "vd_bmap v = Some bmap"
    by (auto simp: vdi_inv_def)
  have ok: "vdi_blocks_ok ?h bmap (f_data f)" using inv by (simp add: vdi_inv_def vdi_file_data_def f bm)
  have c: "vdi_contents v = vdi_data_of ?h bmap (f_data f)" by (simp add: vdi_contents_def vdi_file_data_def f bm)
  note len = length_vdi_data_of [OF ok, folded c]
  show "length (vdi_contents v) < 2 ^ 63" using ok len by (simp add: vdi_blocks_ok_def)
  assume n: "0 < n" "n < 4294967296" "off + n \<le> length (vdi_contents v)"
  have bs: "0 < ?bs" "?bs < 4294967296" using ok by (simp_all add: vdi_blocks_ok_def)
  define i o' where "i = off div ?bs" and "o' = off mod ?bs"
  have io: "i * ?bs + o' = off" "o' < ?bs" using bs(1) by (simp_all add: i_def o'_def)
  have "tv_DiskSize ?h \<le> length bmap * ?bs" using ok by (simp add: vdi_blocks_ok_def)
  then have "i * ?bs < length bmap * ?bs" using n(1,3) io(1) len by linarith
  then have i: "i < length bmap" "i < tv_BlocksInImage ?h"
    using ok by (simp_all add: vdi_blocks_ok_def)
  define k where "k = min n (?bs - o')"
  have k: "0 < k" "k \<le> n" "o' + k \<le> ?bs" "u32 k = k"
    using n io(2) bs(2) by (auto simp: k_def u32_small)
  have kd: "i * ?bs + o' + k \<le> tv_DiskSize ?h" using n(3) len io(1) k(2) by simp
  have seg: "segment off k (vdi_contents v) = segment o' k (vdi_block ?h (f_data f) (bmap ! i))"
    using segment_vdi_data [OF i(1) k(3) kd] by (simp only: io(1) c)
  have rd: "VdiRead0 v off n = Some (0, segment off k (vdi_contents v))"
  proof (cases "bmap ! i = VDI_BLOCK_DISCARDED \<or> bmap ! i = VDI_BLOCK_UNALLOCATED")
    case True
    then have "segment o' k (vdi_block ?h (f_data f) (bmap ! i)) = replicate k 0"
      using k(3) by (auto simp: vdi_block_def segment_def)
    then show ?thesis
      using True bs(1) i k(4) seg f bm
      by (simp add: VdiRead0_def i_def [symmetric] o'_def [symmetric] k_def [symmetric] vdi_codes Let_def)
  next
    case False
    let ?p = "tv_OffsetData ?h + bmap ! i * ?bs"
    have in_file: "?p + min ?bs (tv_DiskSize ?h - i * ?bs) \<le> length (f_data f)" "length (f_data f) < 2 ^ 63"
      using ok i False by (auto simp: vdi_blocks_ok_def)
    have pk: "?p + o' + k \<le> length (f_data f)"
      using in_file(1) k(3) kd by (auto simp: min_def split: if_splits)
    have u: "u64 (?p + o') = ?p + o'" "?p + o' < 2 ^ 63"
      using pk in_file(2) by (auto intro!: u64_small)
    have "segment o' k (vdi_block ?h (f_data f) (bmap ! i)) = segment (?p + o') k (f_data f)"
      using False k(3) pk
      by (simp add: vdi_block_def pad_def segment_append_left segment_segment min_def)
    moreover have "VdiUtilFileSeek (?p + o') f = (VDI_OK, f\<lparr>f_pos := ?p + o'\<rparr>)"
      using u(2) by (simp add: VdiUtilFileSeek_def fseeko_set_def)
    moreover have "VdiUtilFileRead k (f\<lparr>f_pos := ?p + o'\<rparr>) =
        (VDI_OK, segment (?p + o') k (f_data f), f\<lparr>f_pos := ?p + o' + k\<rparr>)"
      using k(1) pk by (simp add: VdiUtilFileRead_def fread_ok)
    ultimately show ?thesis
      using False bs(1) i k(4) seg f bm u(1)
      by (simp add: VdiRead0_def i_def [symmetric] o'_def [symmetric] k_def [symmetric] Let_def VDI_OK_def)
  qed
  then show "\<exists>k. 0 < k \<and> k \<le> n \<and> VdiRead0 v off n = Some (0, segment off k (vdi_contents v))"
    using k by blast
qed

interpretation vdi: image_reader vdi_inv vdi_contents VdiSize VdiRead
proof unfold_locales
  fix v :: t_vdi and n off :: nat
  assume inv: "vdi_inv v"
  then have sz: "tv_DiskSize (vd_header v) = length (vdi_contents v)"
    by (simp add: vdi_inv_def vdi_contents_def length_vdi_data_of)
  then show "VdiSize v = (0, length (vdi_contents v))" by (simp add: VdiSize_def vdi_codes)
  show "length (vdi_contents v) < 2 ^ 63" by (rule vdi_pieces.pr_bound_law [OF inv])
  assume "0 < n" "n < 4294967296" "off + n \<le> length (vdi_contents v)"
  then show "VdiRead v off n = Some (rd_ok (segment off n (vdi_contents v)))"
    unfolding VdiRead_def sz by (rule vdi_pieces.input_read_ok [OF inv])
qed

section \<open>Opening\<close>

lemma dec_t_vdi_header_segment:
  "dec_t_vdi_header (segment 0 sizeof_t_VdiHeader d) = dec_t_vdi_header d"
  by (simp add: dec_t_vdi_header_def le_at_def segment_segment sizeof_t_VdiHeader_def)

text \<open>What \<open>VdiOpen\<close> checks.\<close>

definition vdi_file_accepted :: "bytes \<Rightarrow> bool" where
  "vdi_file_accepted d \<longleftrightarrow> (let h = dec_t_vdi_header d in
     sizeof_t_VdiHeader \<le> length d \<and> tv_Signature h = VDI_HEADER_SIGNATURE \<and>
     tv_Version h = VDI_HEADER_VERSION_1_1 \<and> tv_BlockSize h \<noteq> 0 \<and> tv_BlocksInImage h \<noteq> 0 \<and>
     tv_OffsetBmap h + tv_BlocksInImage h * 4 \<le> length d)"

definition vdi_file_bmap :: "bytes \<Rightarrow> nat list" where
  "vdi_file_bmap d = (let h = dec_t_vdi_header d in
     vdi_bmap_entries (tv_BlocksInImage h) (segment (tv_OffsetBmap h) (tv_BlocksInImage h * 4) d))"

lemma length_vdi_file_bmap [simp]: "length (vdi_file_bmap d) = tv_BlocksInImage (dec_t_vdi_header d)"
  by (simp add: vdi_file_bmap_def vdi_bmap_entries_def Let_def)

lemma VdiUtilFileSeek_bmap:
  "VdiUtilFileSeek (tv_OffsetBmap (dec_t_vdi_header d)) f =
    (VDI_OK, f\<lparr>f_pos := tv_OffsetBmap (dec_t_vdi_header d)\<rparr>)"
proof -
  have "tv_OffsetBmap (dec_t_vdi_header d) < 256 ^ 4"
    using le_at_less [of 340 4 d] by (simp add: dec_t_vdi_header_def)
  then show ?thesis by (simp add: VdiUtilFileSeek_def fseeko_set_def)
qed

lemma VdiUtilFileRead_iff:
  "fst (VdiUtilFileRead n f) = VDI_OK \<longleftrightarrow> 0 < n \<and> f_pos f + n \<le> length (f_data f)"
proof -
  have "fst (fread n f) = (if 0 < n \<and> f_pos f + n \<le> length (f_data f) then 1 else 0)"
    unfolding fread_def by (simp only: if_distrib [of fst] fst_conv)
  moreover have "fst (VdiUtilFileRead n f) = (if fst (fread n f) \<noteq> 1 then VDI_CANNOT_READ_DATA else VDI_OK)"
    unfolding VdiUtilFileRead_def by (simp only: case_prod_beta fst_conv)
  ultimately show ?thesis
    by (cases "0 < n \<and> f_pos f + n \<le> length (f_data f)")
      (simp_all only: if_True if_False VDI_OK_def VDI_CANNOT_READ_DATA_def, simp_all)
qed

lemma VdiOpen_bmap_reads:
  assumes "vd_header v = dec_t_vdi_header d" "vd_file v = Some f" "f_data f = d"
  shows "fst (VdiOpen_bmap v) = VDI_OK \<longleftrightarrow> tv_BlocksInImage (dec_t_vdi_header d) \<noteq> 0 \<and>
      tv_OffsetBmap (dec_t_vdi_header d) + tv_BlocksInImage (dec_t_vdi_header d) * 4 \<le> length d"
    and "fst (VdiOpen_bmap v) = VDI_OK \<Longrightarrow> \<exists>f'. f_data f' = d \<and>
      snd (VdiOpen_bmap v) = v\<lparr>vd_file := Some f', vd_bmap := Some (vdi_file_bmap d)\<rparr>"
proof -
  let ?h = "dec_t_vdi_header d"
  let ?n = "tv_BlocksInImage ?h * 4" and ?b = "tv_OffsetBmap ?h"
  let ?f = "f\<lparr>f_pos := ?b\<rparr>"
  note seek = VdiUtilFileSeek_bmap [of d f]
  have eq: "VdiOpen_bmap v = (case VdiUtilFileRead ?n ?f of (ret, b, f2) \<Rightarrow>
      (ret, v\<lparr>vd_file := Some f2, vd_bmap := Some (vdi_bmap_entries (length b div 4) b)\<rparr>))"
    by (simp add: VdiOpen_bmap_def assms(1,2) seek Let_def)
  have iff: "fst (VdiOpen_bmap v) = VDI_OK \<longleftrightarrow> fst (VdiUtilFileRead ?n ?f) = VDI_OK"
    unfolding eq by (cases "VdiUtilFileRead ?n ?f") auto
  show "fst (VdiOpen_bmap v) = VDI_OK \<longleftrightarrow> tv_BlocksInImage ?h \<noteq> 0 \<and> ?b + ?n \<le> length d"
    unfolding iff VdiUtilFileRead_iff using assms(3) by simp
  assume "fst (VdiOpen_bmap v) = VDI_OK"
  then have r: "0 < ?n" "?b + ?n \<le> length d" unfolding iff VdiUtilFileRead_iff using assms(3) by simp_all
  then have "VdiUtilFileRead ?n ?f = (VDI_OK, segment ?b ?n d, f\<lparr>f_pos := ?b + ?n\<rparr>)"
    using assms(3) by (simp add: VdiUtilFileRead_def fread_ok)
  moreover have "length (segment ?b ?n d) div 4 = tv_BlocksInImage ?h" using r(2) by simp
  ultimately show "\<exists>f'. f_data f' = d \<and>
      snd (VdiOpen_bmap v) = v\<lparr>vd_file := Some f', vd_bmap := Some (vdi_file_bmap d)\<rparr>"
    using assms(3) unfolding eq
    by (intro exI [of _ "f\<lparr>f_pos := ?b + ?n\<rparr>"]) (simp add: vdi_file_bmap_def Let_def)
qed

lemma VdiParseHeader_long:
  assumes "f_data f = d" "f_pos f = 0" "sizeof_t_VdiHeader \<le> length d"
  shows "\<exists>f1. f_data f1 = d \<and> VdiParseHeader v f =
    ((if tv_Signature (dec_t_vdi_header d) \<noteq> VDI_HEADER_SIGNATURE then VDI_BAD_MAGIC_HEADER
      else if tv_Version (dec_t_vdi_header d) \<noteq> VDI_HEADER_VERSION_1_1 then VDI_BAD_VERSION
      else if tv_BlockSize (dec_t_vdi_header d) = 0 then VDI_INVALID_BLOCK_SIZE else VDI_OK),
     v\<lparr>vd_file := Some f1, vd_header := dec_t_vdi_header d\<rparr>)"
proof -
  have "0 < sizeof_t_VdiHeader" by (simp add: sizeof_t_VdiHeader_def)
  then have "VdiUtilFileRead sizeof_t_VdiHeader f =
      (VDI_OK, segment 0 sizeof_t_VdiHeader d, f\<lparr>f_pos := sizeof_t_VdiHeader\<rparr>)"
    using assms by (simp add: VdiUtilFileRead_def fread_ok)
  then show ?thesis
    using assms(1)
    by (intro exI [of _ "f\<lparr>f_pos := sizeof_t_VdiHeader\<rparr>"])
      (simp add: VdiParseHeader_def Let_def dec_t_vdi_header_segment)
qed

lemma VdiParseHeader_short:
  assumes "f_data f = d" "f_pos f = 0" "\<not> sizeof_t_VdiHeader \<le> length d"
  shows "fst (VdiParseHeader v f) \<noteq> VDI_OK"
proof -
  have "fst (VdiUtilFileRead sizeof_t_VdiHeader f) \<noteq> VDI_OK"
    unfolding VdiUtilFileRead_iff using assms by simp
  then show ?thesis
    by (cases "VdiUtilFileRead sizeof_t_VdiHeader f") (simp add: VdiParseHeader_def Let_def)
qed

lemma VdiParseHeader_reads:
  assumes "f_data f = d" "f_pos f = 0" "VdiParseHeader v f = (ret, v')"
  shows "ret = VDI_OK \<longleftrightarrow> sizeof_t_VdiHeader \<le> length d \<and>
      tv_Signature (dec_t_vdi_header d) = VDI_HEADER_SIGNATURE \<and>
      tv_Version (dec_t_vdi_header d) = VDI_HEADER_VERSION_1_1 \<and> tv_BlockSize (dec_t_vdi_header d) \<noteq> 0"
    and "ret = VDI_OK \<Longrightarrow> vd_header v' = dec_t_vdi_header d \<and> (\<exists>f'. vd_file v' = Some f' \<and> f_data f' = d)"
proof -
  show 1: "ret = VDI_OK \<longleftrightarrow> sizeof_t_VdiHeader \<le> length d \<and>
      tv_Signature (dec_t_vdi_header d) = VDI_HEADER_SIGNATURE \<and>
      tv_Version (dec_t_vdi_header d) = VDI_HEADER_VERSION_1_1 \<and> tv_BlockSize (dec_t_vdi_header d) \<noteq> 0"
  proof (cases "sizeof_t_VdiHeader \<le> length d")
    case True
    then show ?thesis using VdiParseHeader_long [OF assms(1,2) True, of v] assms(3)
      by (elim exE conjE) (simp split: if_split_asm
          add: VDI_OK_def VDI_BAD_MAGIC_HEADER_def VDI_BAD_VERSION_def VDI_INVALID_BLOCK_SIZE_def)
  next
    case False
    then show ?thesis using VdiParseHeader_short [OF assms(1,2) False, of v] assms(3) by simp
  qed
  assume "ret = VDI_OK"
  then have "sizeof_t_VdiHeader \<le> length d" using 1 by simp
  from VdiParseHeader_long [OF assms(1,2) this, of v] obtain f1 where
    "f_data f1 = d" "v' = v\<lparr>vd_file := Some f1, vd_header := dec_t_vdi_header d\<rparr>"
    using assms(3) by auto
  then show "vd_header v' = dec_t_vdi_header d \<and> (\<exists>f'. vd_file v' = Some f' \<and> f_data f' = d)"
    by simp
qed

lemma VdiOpen_checks:
  "fst (VdiOpen fs v0 (name # names)) = VDI_OK \<longleftrightarrow> (\<exists>d. fs name = Some d \<and> vdi_file_accepted d)"
proof (cases "fs name")
  case None
  then show ?thesis by (simp add: VdiOpen_def open_r_def vdi_codes)
next
  case (Some d)
  let ?f = "\<lparr>f_data = d, f_pos = 0, f_limit = 0\<rparr>"
  obtain ret v where p: "VdiParseHeader (v0\<lparr>vd_filename := Some name\<rparr>) ?f = (ret, v)"
    by (cases "VdiParseHeader (v0\<lparr>vd_filename := Some name\<rparr>) ?f")
  have o: "VdiOpen fs v0 (name # names) = (if ret \<noteq> VDI_OK then (ret, v) else VdiOpen_bmap v)"
    by (simp add: VdiOpen_def open_r_def Some p)
  show ?thesis
  proof (cases "ret = VDI_OK")
    case True
    then obtain f where f: "vd_file v = Some f" "f_data f = d" and h: "vd_header v = dec_t_vdi_header d"
      using VdiParseHeader_reads(2) [OF _ _ p] by auto
    have "fst (VdiOpen_bmap v) = VDI_OK \<longleftrightarrow> vdi_file_accepted d"
      using VdiOpen_bmap_reads(1) [OF h f] VdiParseHeader_reads(1) [OF _ _ p, of d] True
      by (auto simp: vdi_file_accepted_def Let_def)
    then show ?thesis using o True Some by simp
  next
    case False
    then show ?thesis
      using o Some VdiParseHeader_reads(1) [OF _ _ p, of d]
      by (auto simp: vdi_file_accepted_def Let_def)
  qed
qed

lemma VdiOpen_accepts:
  assumes d: "fs name = Some d" and ok: "vdi_file_accepted d"
  obtains v f where "VdiOpen fs v0 (name # names) = (VDI_OK, v)" "vd_header v = dec_t_vdi_header d"
    "vd_bmap v = Some (vdi_file_bmap d)" "vd_file v = Some f" "f_data f = d"
proof -
  let ?f = "\<lparr>f_data = d, f_pos = 0, f_limit = 0\<rparr>"
  obtain ret v where p: "VdiParseHeader (v0\<lparr>vd_filename := Some name\<rparr>) ?f = (ret, v)"
    by (cases "VdiParseHeader (v0\<lparr>vd_filename := Some name\<rparr>) ?f")
  have "fst (VdiOpen fs v0 (name # names)) = VDI_OK" using VdiOpen_checks d ok by blast
  moreover have o: "VdiOpen fs v0 (name # names) = (if ret \<noteq> VDI_OK then (ret, v) else VdiOpen_bmap v)"
    by (simp add: VdiOpen_def open_r_def d p)
  ultimately have ret: "ret = VDI_OK" and b: "fst (VdiOpen_bmap v) = VDI_OK" by (auto split: if_splits)
  obtain f where f: "vd_file v = Some f" "f_data f = d" and h: "vd_header v = dec_t_vdi_header d"
    using VdiParseHeader_reads(2) [OF _ _ p] ret by auto
  obtain f' where "f_data f' = d"
    "snd (VdiOpen_bmap v) = v\<lparr>vd_file := Some f', vd_bmap := Some (vdi_file_bmap d)\<rparr>"
    using VdiOpen_bmap_reads(2) [OF h f b] by blast
  then show ?thesis
    using that [of "snd (VdiOpen_bmap v)" f'] o ret b h by (cases "VdiOpen_bmap v") simp
qed

lemma VdiOpen_reads:
  assumes "fs name = Some d" "vdi_file_accepted d"
    and "vdi_blocks_ok (dec_t_vdi_header d) (vdi_file_bmap d) d"
  shows "\<exists>v. VdiOpen fs (VdiCreateHandle debug) [name] = (VDI_OK, v) \<and>
    VdiSize v = (VDI_OK, tv_DiskSize (dec_t_vdi_header d)) \<and>
    (\<forall>off n. 0 < n \<and> n < 2 ^ 32 \<and> off + n \<le> tv_DiskSize (dec_t_vdi_header d) \<longrightarrow>
      VdiRead v off n =
        Some (rd_ok (segment off n (vdi_data_of (dec_t_vdi_header d) (vdi_file_bmap d) d))))"
proof -
  obtain v f where v: "VdiOpen fs (VdiCreateHandle debug) [name] = (VDI_OK, v)"
    "vd_header v = dec_t_vdi_header d" "vd_bmap v = Some (vdi_file_bmap d)" "vd_file v = Some f"
    "f_data f = d"
    using VdiOpen_accepts [where fs = fs and name = name and names = "[]", OF assms(1,2)] by blast
  have inv: "vdi_inv v" using assms(3) v by (simp add: vdi_inv_def vdi_file_data_def)
  have c: "vdi_contents v = vdi_data_of (dec_t_vdi_header d) (vdi_file_bmap d) d"
    using v by (simp add: vdi_contents_def vdi_file_data_def)
  have len: "length (vdi_contents v) = tv_DiskSize (dec_t_vdi_header d)"
    unfolding c by (rule length_vdi_data_of [OF assms(3)])
  show ?thesis
    using v(1) vdi.rd_size_law [OF inv] vdi.rd_read_law [OF inv] len c
    by (intro exI [of _ v]) (simp add: vdi_codes)
qed

section \<open>Properties\<close>

text \<open>\<open>VdiOpen\<close> succeeds exactly on files with a complete version 1.1 header, a block
  size other than 0 and a complete block map.\<close>

theorem vdi_open_checks:
  "fst (VdiOpen fs (VdiCreateHandle debug) (name # names)) = VDI_OK \<longleftrightarrow>
   (\<exists>d. fs name = Some d \<and> vdi_file_accepted d)"
  by (rule VdiOpen_checks)

text \<open>A small image: two blocks of 4 bytes, the first one unallocated, a disk of 7 bytes.\<close>

definition vdi_small :: bytes where
  "vdi_small = replicate 64 0 @ le_bytes 4 0xBEDA107F @ le_bytes 4 0x00010001 @ replicate 268 0 @
     le_bytes 4 456 @ le_bytes 4 464 @ replicate 20 0 @ le_bytes 8 7 @ le_bytes 4 4 @
     replicate 4 0 @ le_bytes 4 2 @ replicate 68 0 @
     le_bytes 4 0xFFFFFFFF @ le_bytes 4 0 @ [1, 2, 3, 4]"

lemma length_vdi_small: "length vdi_small = 468"
  by (simp add: vdi_small_def)

lemma dec_vdi_small:
  "tv_Signature (dec_t_vdi_header vdi_small) = VDI_HEADER_SIGNATURE"
  "tv_Version (dec_t_vdi_header vdi_small) = VDI_HEADER_VERSION_1_1"
  "tv_OffsetBmap (dec_t_vdi_header vdi_small) = 456" "tv_OffsetData (dec_t_vdi_header vdi_small) = 464"
  "tv_DiskSize (dec_t_vdi_header vdi_small) = 7" "tv_BlockSize (dec_t_vdi_header vdi_small) = 4"
  "tv_BlocksInImage (dec_t_vdi_header vdi_small) = 2"
  by (simp_all add: dec_t_vdi_header_def vdi_small_def le_at_skip le_val_le_bytes
      VDI_HEADER_SIGNATURE_def VDI_HEADER_VERSION_1_1_def)

lemma vdi_small_accepted: "vdi_file_accepted vdi_small"
  by (simp add: vdi_file_accepted_def dec_vdi_small length_vdi_small sizeof_t_VdiHeader_def)

lemma vdi_small_bmap: "vdi_file_bmap vdi_small = [VDI_BLOCK_UNALLOCATED, 0]"
proof -
  have "segment 456 8 vdi_small = le_bytes 4 0xFFFFFFFF @ le_bytes 4 0"
    by (simp add: vdi_small_def segment_append_right segment_append_left segment_def)
  then show ?thesis
    by (simp add: vdi_file_bmap_def vdi_bmap_entries_def dec_vdi_small Let_def upt_conv_Cons
        le_at_skip le_val_le_bytes VDI_BLOCK_UNALLOCATED_def)
      (simp add: le_at_def segment_def le_val_le_bytes)
qed

lemma vdi_small_block: "segment 464 4 vdi_small = [1, 2, 3, 4]"
  by (simp add: vdi_small_def segment_append_right segment_def)

lemma vdi_small_ok: "vdi_blocks_ok (dec_t_vdi_header vdi_small) (vdi_file_bmap vdi_small) vdi_small"
proof -
  have "i = 0 \<or> i = 1" if "i < length (vdi_file_bmap vdi_small)" for i
    using that by (auto simp: vdi_small_bmap)
  then show ?thesis
    unfolding vdi_blocks_ok_def
    by (fastforce simp: dec_vdi_small vdi_small_bmap length_vdi_small
        VDI_BLOCK_DISCARDED_def VDI_BLOCK_UNALLOCATED_def)
qed

lemma vdi_small_data:
  "vdi_data_of (dec_t_vdi_header vdi_small) (vdi_file_bmap vdi_small) vdi_small = [0, 0, 0, 0, 1, 2, 3]"
proof -
  have "replicate 4 (0 :: u8) = [0, 0, 0, 0]" by (simp add: numeral_eq_Suc)
  then show ?thesis
    by (simp add: vdi_data_of_def block_disk_def dec_vdi_small vdi_small_bmap vdi_block_def vdi_small_block
        VDI_BLOCK_DISCARDED_def VDI_BLOCK_UNALLOCATED_def)
qed

text \<open>C20: an accepted image whose blocks lie inside the file reads as its blocks in the order
  of the block map: zeros for a discarded or unallocated block, the bytes of the file
  elsewhere, cut at the disk size.\<close>

theorem vdi_open_reads:
  assumes "fs name = Some d" "vdi_file_accepted d"
    and "vdi_blocks_ok (dec_t_vdi_header d) (vdi_file_bmap d) d"
  shows "\<exists>v. VdiOpen fs (VdiCreateHandle debug) [name] = (VDI_OK, v) \<and>
    VdiSize v = (VDI_OK, tv_DiskSize (dec_t_vdi_header d)) \<and>
    (\<forall>off n. 0 < n \<and> n < 2 ^ 32 \<and> off + n \<le> tv_DiskSize (dec_t_vdi_header d) \<longrightarrow>
      VdiRead v off n =
        Some (rd_ok (segment off n (vdi_data_of (dec_t_vdi_header d) (vdi_file_bmap d) d))))"
  by (rule VdiOpen_reads [where fs = fs and name = name, OF assms])

theorem vdi_open_reads_witness:
  "\<exists>v. VdiOpen [''a.vdi'' \<mapsto> vdi_small] (VdiCreateHandle False) [''a.vdi''] = (VDI_OK, v) \<and>
    VdiSize v = (VDI_OK, 7) \<and> VdiRead v 3 4 = Some (rd_ok [0, 1, 2, 3])"
proof -
  obtain v where v: "VdiOpen [''a.vdi'' \<mapsto> vdi_small] (VdiCreateHandle False) [''a.vdi''] = (VDI_OK, v)"
    "VdiSize v = (VDI_OK, 7)"
    and r: "\<And>off n. 0 < n \<Longrightarrow> n < 2 ^ 32 \<Longrightarrow> off + n \<le> 7 \<Longrightarrow>
      VdiRead v off n = Some (rd_ok (segment off n [0, 0, 0, 0, 1, 2, 3]))"
    using vdi_open_reads [of "[''a.vdi'' \<mapsto> vdi_small]" "''a.vdi''" vdi_small False,
        OF _ vdi_small_accepted vdi_small_ok]
    unfolding dec_vdi_small vdi_small_data by (auto simp del: One_nat_def)
  have "VdiRead v 3 4 = Some (rd_ok [0, 1, 2, 3])" using r [of 4 3] by (simp add: segment_def)
  then show ?thesis using v by blast
qed

end
