(* ===== verification/XmountExport.thy ===== *)
theory XmountExport
  imports XmountDisk XmountHeaders InputVdi
begin

text \<open>
  The virtual image as a file that other programs read: the VDI header establishes the sizes
  that reads and writes rely on, and xmount's own VDI input library opens the virtual VDI
  image and finds the disk in it; the VHD footer and the hash of the image; the buffer of the
  VMDK descriptor.
\<close>

section \<open>The VDI header\<close>

lemma vdi_block_entries_eq:
  assumes "sz < 2 ^ 49"
  shows "vdi_block_entries sz = ceil_div sz VDI_IMAGE_BLOCK_SIZE"
    and "ceil_div sz VDI_IMAGE_BLOCK_SIZE \<le> 2 ^ 29"
proof -
  have "sz div VDI_IMAGE_BLOCK_SIZE < 2 ^ 29" using assms by (simp add: VDI_IMAGE_BLOCK_SIZE_def)
  then show "vdi_block_entries sz = ceil_div sz VDI_IMAGE_BLOCK_SIZE"
    "ceil_div sz VDI_IMAGE_BLOCK_SIZE \<le> 2 ^ 29"
    by (simp_all add: vdi_block_entries_def ceil_div_def u32_small Let_def)
qed

lemma length_vdi_block_map: "length (vdi_block_map (4 * n)) = 4 * n"
  unfolding vdi_block_map_def by (subst length_concat_blocks [where k = 4]) (auto simp: ceil_div_def)

definition vdi_output :: "nat \<times> nat \<times> nat \<times> nat \<Rightarrow> nat \<Rightarrow> nat \<times> nat \<Rightarrow> vdi_data" where
  "vdi_output rands sz hash =
     (let n = ceil_div sz VDI_IMAGE_BLOCK_SIZE; hsize = sizeof_VdiFileHeader + 4 * n in
      \<lparr>vdi_header_size = hsize,
       vdi_header = enc_vdi_file_header (vdi_header_fields rands sz n hsize hash) @ vdi_block_map (4 * n),
       vdi_block_map_size = 4 * n\<rparr>)"

lemma InitVirtVdiHeader_ok:
  assumes "morphed_ok g d" "length d < 2 ^ 49"
  shows "InitVirtVdiHeader rands g = Some (1, upd_output (\<lambda>od. od\<lparr>out_vdi :=
    vdi_output rands (length d) (in_image_hash_lo (x_input g), in_image_hash_hi (x_input g))\<rparr>) g)"
proof -
  note n = vdi_block_entries_eq [OF assms(2)]
  have "u32 (ceil_div (length d) VDI_IMAGE_BLOCK_SIZE * 4) = 4 * ceil_div (length d) VDI_IMAGE_BLOCK_SIZE"
    "u32 (sizeof_VdiFileHeader + 4 * ceil_div (length d) VDI_IMAGE_BLOCK_SIZE) =
      sizeof_VdiFileHeader + 4 * ceil_div (length d) VDI_IMAGE_BLOCK_SIZE"
    using n(2) by (simp_all add: u32_small sizeof_VdiFileHeader_def)
  then show ?thesis
    using GetMorphedImageSize_ok [OF assms(1)]
    by (simp add: InitVirtVdiHeader_def vdi_output_def Let_def n(1))
qed

lemma vdi_output_sizes:
  assumes "sz < 2 ^ 49"
  shows "length (vdi_header (vdi_output rands sz hash)) = vdi_header_size (vdi_output rands sz hash)"
    and "vdi_header_size (vdi_output rands sz hash) =
      sizeof_VdiFileHeader + vdi_block_map_size (vdi_output rands sz hash)"
    and "vdi_header_size (vdi_output rands sz hash) < 4294967296"
  using vdi_block_entries_eq(2) [OF assms]
  by (simp_all add: vdi_output_def Let_def length_vdi_block_map sizeof_VdiFileHeader_def)

text \<open>What the input library finds in the header.\<close>

lemma dec_enc_vdi_header:
  "tv_Signature (dec_t_vdi_header (enc_vdi_file_header h @ rest)) = vf_u32Signature h mod 256 ^ 4"
  "tv_Version (dec_t_vdi_header (enc_vdi_file_header h @ rest)) = vf_u32Version h mod 256 ^ 4"
  "tv_OffsetBmap (dec_t_vdi_header (enc_vdi_file_header h @ rest)) = vf_offBlocks h mod 256 ^ 4"
  "tv_OffsetData (dec_t_vdi_header (enc_vdi_file_header h @ rest)) = vf_offData h mod 256 ^ 4"
  "tv_DiskSize (dec_t_vdi_header (enc_vdi_file_header h @ rest)) = vf_cbDisk h mod 256 ^ 8"
  "tv_BlockSize (dec_t_vdi_header (enc_vdi_file_header h @ rest)) = vf_cbBlock h mod 256 ^ 4"
  "tv_BlocksInImage (dec_t_vdi_header (enc_vdi_file_header h @ rest)) = vf_cBlocks h mod 256 ^ 4"
  by (simp_all add: dec_t_vdi_header_def enc_vdi_file_header_def le_at_skip le_val_le_bytes)

lemma vdi_block_map_entries:
  assumes "n < 4294967296"
  shows "vdi_bmap_entries n (vdi_block_map (4 * n)) = [0..<n]"
proof (rule nth_equalityI)
  show "length (vdi_bmap_entries n (vdi_block_map (4 * n))) = length [0..<n]"
    by (simp add: vdi_bmap_entries_def)
  fix i assume "i < length (vdi_bmap_entries n (vdi_block_map (4 * n)))"
  then have i: "i < n" by (simp add: vdi_bmap_entries_def)
  let ?blocks = "map (le_bytes 4) [0..<n]"
  have m: "vdi_block_map (4 * n) = block_disk (4 * n) ?blocks"
    using length_vdi_block_map [of n] by (simp add: vdi_block_map_def block_disk_def ceil_div_def)
  have "segment (i * 4 + 0) 4 (block_disk (4 * n) ?blocks) = segment 0 4 (?blocks ! i)"
    using i by (intro segment_block_disk [where bs = 4]) auto
  moreover have "4 * i = i * 4 + 0" by simp
  ultimately have "le_at (4 * i) 4 (vdi_block_map (4 * n)) = le_val (le_bytes 4 i)"
    using i unfolding le_at_def m by (simp only: length_map) (simp add: segment_all)
  then show "vdi_bmap_entries n (vdi_block_map (4 * n)) ! i = [0..<n] ! i"
    using i assms by (simp add: vdi_bmap_entries_def le_val_le_bytes)
qed

text \<open>A disk cut in blocks, the last one filled with zeros.\<close>

lemma concat_padded_blocks:
  "concat (map (\<lambda>i. pad bs (segment (i * bs) bs dd)) [0..<n]) = pad (n * bs) (take (n * bs) dd)"
proof (induction n)
  case (Suc n)
  have "pad (n * bs) (take (n * bs) dd) @ pad bs (segment (n * bs) bs dd) =
      pad (Suc n * bs) (take (Suc n * bs) dd)"
  proof (cases "n * bs \<le> length dd")
    case True
    have "take (n * bs + bs) dd = take (n * bs) dd @ segment (n * bs) bs dd"
      by (simp add: segment_def take_add)
    then show ?thesis using True by (simp add: pad_def add.commute)
  next
    case False
    then show ?thesis by (simp add: pad_def segment_def replicate_add [symmetric] add.commute)
  qed
  then show ?case using Suc by simp
qed (simp add: pad_def)

lemma padded_blocks_disk:
  assumes "0 < bs"
  shows "block_disk (length dd)
    (map (\<lambda>i. pad bs (segment (i * bs) bs dd)) [0..<ceil_div (length dd) bs]) = dd"
  using ceil_div_bounds(1) [OF assms, of "length dd"]
  unfolding block_disk_def concat_padded_blocks by (simp add: pad_def)


text \<open>The virtual VDI image is its header and the disk; an input library that is given it as a
  file accepts it and finds the disk.\<close>

lemma dec_vdi_output:
  assumes "sz < 2 ^ 49"
  shows "tv_Signature (dec_t_vdi_header (vdi_header (vdi_output rands sz hash) @ dd)) = VDI_HEADER_SIGNATURE"
    "tv_Version (dec_t_vdi_header (vdi_header (vdi_output rands sz hash) @ dd)) = VDI_HEADER_VERSION_1_1"
    "tv_OffsetBmap (dec_t_vdi_header (vdi_header (vdi_output rands sz hash) @ dd)) = 512"
    "tv_OffsetData (dec_t_vdi_header (vdi_header (vdi_output rands sz hash) @ dd)) =
      512 + 4 * ceil_div sz VDI_IMAGE_BLOCK_SIZE"
    "tv_DiskSize (dec_t_vdi_header (vdi_header (vdi_output rands sz hash) @ dd)) = sz"
    "tv_BlockSize (dec_t_vdi_header (vdi_header (vdi_output rands sz hash) @ dd)) = VDI_IMAGE_BLOCK_SIZE"
    "tv_BlocksInImage (dec_t_vdi_header (vdi_header (vdi_output rands sz hash) @ dd)) =
      ceil_div sz VDI_IMAGE_BLOCK_SIZE"
  using vdi_block_entries_eq(2) [OF assms] assms
  by (cases rands; cases hash;
    simp add: vdi_output_def Let_def dec_enc_vdi_header vdi_header_fields_def VDI_IMAGE_SIGNATURE_def
      VDI_HEADER_SIGNATURE_def VDI_IMAGE_VERSION_def VDI_HEADER_VERSION_1_1_def sizeof_VdiFileHeader_def
      VDI_IMAGE_BLOCK_SIZE_def)+

lemma vdi_output_bmap:
  assumes "sz < 2 ^ 49"
  shows "vdi_file_bmap (vdi_header (vdi_output rands sz hash) @ dd) = [0..<ceil_div sz VDI_IMAGE_BLOCK_SIZE]"
proof -
  let ?n = "ceil_div sz VDI_IMAGE_BLOCK_SIZE"
  have "?n * 4 = 4 * ?n" by simp
  then have "segment 512 (?n * 4) (vdi_header (vdi_output rands sz hash) @ dd) = vdi_block_map (4 * ?n)"
    by (simp only: vdi_output_def Let_def)
      (simp add: segment_append_right segment_append_left segment_all sizeof_VdiFileHeader_def
        length_vdi_block_map)
  then show ?thesis
    using vdi_block_entries_eq(2) [OF assms]
    by (simp add: vdi_file_bmap_def Let_def dec_vdi_output [OF assms] vdi_block_map_entries)
qed

lemma vdi_output_accepted:
  fixes rands :: "nat \<times> nat \<times> nat \<times> nat" and hash :: "nat \<times> nat"
  assumes sz: "sz < 2 ^ 49" "length dd = sz" "0 < sz"
  defines "file \<equiv> vdi_header (vdi_output rands sz hash) @ dd"
  shows "vdi_file_accepted file"
    and "vdi_blocks_ok (dec_t_vdi_header file) (vdi_file_bmap file) file"
    and "vdi_data_of (dec_t_vdi_header file) (vdi_file_bmap file) file = dd"
proof -
  let ?n = "ceil_div sz VDI_IMAGE_BLOCK_SIZE" and ?hs = "512 + 4 * ceil_div sz VDI_IMAGE_BLOCK_SIZE"
  note n = vdi_block_entries_eq(2) [OF sz(1)] and dec = dec_vdi_output [where rands = rands and hash = hash and dd = dd, OF sz(1), folded file_def]
    and bmap = vdi_output_bmap [where rands = rands and hash = hash and dd = dd, OF sz(1), folded file_def]
  have pos: "0 < VDI_IMAGE_BLOCK_SIZE" by (simp add: VDI_IMAGE_BLOCK_SIZE_def)
  have hlen: "length (vdi_header (vdi_output rands sz hash)) = ?hs"
    using vdi_output_sizes(1) [OF sz(1)] by (simp add: vdi_output_def Let_def sizeof_VdiFileHeader_def)
  then have len: "length file = ?hs + sz" by (simp add: file_def sz(2))
  have b: "sz \<le> ?n * VDI_IMAGE_BLOCK_SIZE" by (rule ceil_div_bounds(1) [OF pos])
  then have n0: "0 < ?n" using sz(3) by (cases ?n) auto
  show "vdi_file_accepted file"
    unfolding vdi_file_accepted_def Let_def dec sizeof_t_VdiHeader_def using n0 pos len by simp
  have inside: "512 + 4 * ?n + i * VDI_IMAGE_BLOCK_SIZE +
      min VDI_IMAGE_BLOCK_SIZE (sz - i * VDI_IMAGE_BLOCK_SIZE) \<le> length file" if "i < ?n" for i
  proof -
    have "?n * VDI_IMAGE_BLOCK_SIZE < sz + VDI_IMAGE_BLOCK_SIZE" by (rule ceil_div_bounds(2) [OF pos])
    moreover have "(i + 1) * VDI_IMAGE_BLOCK_SIZE \<le> ?n * VDI_IMAGE_BLOCK_SIZE"
      using that by (intro mult_le_mono1) simp
    ultimately have "i * VDI_IMAGE_BLOCK_SIZE \<le> sz" by (simp add: add_mult_distrib)
    then show ?thesis by (simp add: len)
  qed
  show "vdi_blocks_ok (dec_t_vdi_header file) (vdi_file_bmap file) file"
    unfolding vdi_blocks_ok_def dec bmap using inside b n sz(1) len
    by (auto simp: VDI_IMAGE_BLOCK_SIZE_def)
  have "vdi_block (dec_t_vdi_header file) file i =
      pad VDI_IMAGE_BLOCK_SIZE (segment (i * VDI_IMAGE_BLOCK_SIZE) VDI_IMAGE_BLOCK_SIZE dd)" if "i < ?n" for i
  proof -
    have "i \<noteq> VDI_BLOCK_DISCARDED" "i \<noteq> VDI_BLOCK_UNALLOCATED"
      using that n by (auto simp: VDI_BLOCK_DISCARDED_def VDI_BLOCK_UNALLOCATED_def)
    moreover have "segment (?hs + i * VDI_IMAGE_BLOCK_SIZE) VDI_IMAGE_BLOCK_SIZE file =
        segment (i * VDI_IMAGE_BLOCK_SIZE) VDI_IMAGE_BLOCK_SIZE dd"
      using hlen by (simp add: file_def segment_append_right)
    ultimately show ?thesis by (simp add: vdi_block_def dec)
  qed
  then have "map (vdi_block (dec_t_vdi_header file) file) [0..<?n] =
      map (\<lambda>i. pad VDI_IMAGE_BLOCK_SIZE (segment (i * VDI_IMAGE_BLOCK_SIZE) VDI_IMAGE_BLOCK_SIZE dd)) [0..<?n]"
    by (intro map_cong) auto
  then show "vdi_data_of (dec_t_vdi_header file) (vdi_file_bmap file) file = dd"
    using padded_blocks_disk [OF pos, of dd] by (simp only: vdi_data_of_def dec bmap sz(2))
qed


section \<open>Disks in memory, for the witnesses\<close>

lemma plain_disk_morphed: "length d < 2 ^ 51 \<Longrightarrow> morphed_ok (plain_disk d) d"
  using plain_disk_inv(1) by (rule virt_invD(1))

definition typed_disk :: "VirtImageType \<Rightarrow> bytes \<Rightarrow> xmount_data" where
  "typed_disk t d = upd_output (\<lambda>od. od\<lparr>out_VirtImageType := t, out_virtual_image_path := ''/image''\<rparr>) (plain_disk d)"

lemma typed_disk_morphed: "length d < 2 ^ 51 \<Longrightarrow> morphed_ok (typed_disk t d) d"
  using plain_disk_morphed [of d] by (simp add: typed_disk_def morphed_ok_def)

definition vdi_disk :: "bytes \<Rightarrow> xmount_data" where
  "vdi_disk d = snd (the (InitVirtVdiHeader (5, 6, 7, 8) (typed_disk VirtImageType_VDI d)))"

lemma vdi_disk_ok:
  assumes "length d < 2 ^ 49"
  shows "InitVirtVdiHeader (5, 6, 7, 8) (typed_disk VirtImageType_VDI d) = Some (1, vdi_disk d)"
    and "virt_inv (vdi_disk d) d" "disk_contents (vdi_disk d) d = d"
    and "out_VirtImageType (x_output (vdi_disk d)) = VirtImageType_VDI"
    and "ca_h_cache_file (x_cache (vdi_disk d)) = None"
proof -
  have m: "morphed_ok (typed_disk VirtImageType_VDI d) d" using assms by (intro typed_disk_morphed) simp
  note init = InitVirtVdiHeader_ok [OF m assms, of "(5, 6, 7, 8)"]
  show "InitVirtVdiHeader (5, 6, 7, 8) (typed_disk VirtImageType_VDI d) = Some (1, vdi_disk d)"
    by (simp add: vdi_disk_def init)
  have eq: "vdi_disk d = upd_output (\<lambda>od. od\<lparr>out_vdi := vdi_output (5, 6, 7, 8) (length d)
      (in_image_hash_lo (x_input (typed_disk VirtImageType_VDI d)),
       in_image_hash_hi (x_input (typed_disk VirtImageType_VDI d)))\<rparr>) (typed_disk VirtImageType_VDI d)"
    by (simp add: vdi_disk_def init)
  show t: "out_VirtImageType (x_output (vdi_disk d)) = VirtImageType_VDI"
    and c: "ca_h_cache_file (x_cache (vdi_disk d)) = None"
    by (simp_all add: eq typed_disk_def)
  have "headers_ok (x_output (vdi_disk d))"
    using vdi_output_sizes [OF assms] by (simp add: headers_ok_def eq typed_disk_def)
  moreover have "out_image_size (x_output (vdi_disk d)) = 0" by (simp add: eq typed_disk_def)
  ultimately show "virt_inv (vdi_disk d) d"
    using m c assms by (simp add: virt_inv_def cache_inv_def morphed_ok_def eq)
  show "disk_contents (vdi_disk d) d = d"
    using c by (intro disk_contents_plain) simp_all
qed

section \<open>Properties\<close>

text \<open>C36: on any image below 512 TiB \<open>InitVirtVdiHeader\<close> succeeds and leaves header structures
  of the sizes that the reads and writes of the virtual image rely on: the header, its block
  map with an entry per started MiB, and nothing else is changed.\<close>

theorem vdi_header_well_formed:
  assumes "morphed_ok g d" "length d < 2 ^ 49" "out_VirtImageType (x_output g) = VirtImageType_VDI"
  shows "\<exists>v. InitVirtVdiHeader rands g = Some (C_TRUE, upd_output (\<lambda>od. od\<lparr>out_vdi := v\<rparr>) g) \<and>
    headers_ok ((x_output g)\<lparr>out_vdi := v\<rparr>) \<and>
    vdi_block_map_size v = 4 * ceil_div (length d) VDI_IMAGE_BLOCK_SIZE"
  using InitVirtVdiHeader_ok [OF assms(1,2), of rands] vdi_output_sizes [OF assms(2)] assms(3)
  by (intro exI [of _ "vdi_output rands (length d) (in_image_hash_lo (x_input g), in_image_hash_hi (x_input g))"])
    (simp add: headers_ok_def, simp add: vdi_output_def Let_def)

theorem vdi_header_well_formed_witness:
  "\<exists>v. InitVirtVdiHeader (5, 6, 7, 8) (typed_disk VirtImageType_VDI [1, 2, 3]) =
      Some (C_TRUE, upd_output (\<lambda>od. od\<lparr>out_vdi := v\<rparr>) (typed_disk VirtImageType_VDI [1, 2, 3])) \<and>
    vdi_block_map_size v = 4"
  using vdi_header_well_formed [OF typed_disk_morphed [of "[1, 2, 3]" VirtImageType_VDI], of "(5, 6, 7, 8)"]
  by (auto simp: typed_disk_def ceil_div_def VDI_IMAGE_BLOCK_SIZE_def)

text \<open>C12: xmount's VDI input library reads back what xmount exports as VDI: a file with the
  contents of the virtual VDI image opens, has the size of the disk, and every read returns
  the bytes of the disk, cached changes included.\<close>

theorem vdi_export_import:
  assumes "morphed_ok g0 d" "length d < 2 ^ 49" "d \<noteq> []" "InitVirtVdiHeader rands g0 = Some (C_TRUE, g1)"
    and "virt_inv g d" "out_VirtImageType (x_output g) = VirtImageType_VDI"
    and "out_vdi (x_output g) = out_vdi (x_output g1)"
    and "ca_h_cache_file (x_cache g) = None \<or> ch_VdiFileHeaderCached (ca_header (x_cache g)) \<noteq> 1"
    and "fs name = Some (virt_contents g d)"
  shows "\<exists>v. VdiOpen fs (VdiCreateHandle debug) [name] = (VDI_OK, v) \<and>
    VdiSize v = (VDI_OK, length d) \<and>
    (\<forall>off n. 0 < n \<and> n < 2 ^ 32 \<and> off + n \<le> length d \<longrightarrow>
      VdiRead v off n = Some (rd_ok (segment off n (disk_contents g d))))"
proof -
  obtain hash where v: "out_vdi (x_output g) = vdi_output rands (length d) hash"
    using InitVirtVdiHeader_ok [OF assms(1,2), of rands] assms(4,7) by auto
  have "header_contents g RVdi (vdi_header (out_vdi (x_output g))) = vdi_header (out_vdi (x_output g))"
    using header_regions(1) [OF virt_invD(4) [OF assms(5)] assms(6)] assms(8)
    by (auto simp: header_contents_def split: option.split)
  then have whole: "virt_contents g d = vdi_header (vdi_output rands (length d) hash) @ disk_contents g d"
    by (simp add: virt_contents_def assms(6) v)
  have pos: "0 < length d" using assms(3) by simp
  note acc = vdi_output_accepted [OF assms(2) length_disk_contents pos, of rands hash g, folded whole]
  have sz: "tv_DiskSize (dec_t_vdi_header (virt_contents g d)) = length d"
    unfolding whole by (rule dec_vdi_output(5) [OF assms(2)])
  show ?thesis
    using VdiOpen_reads [where fs = fs and name = name, OF assms(9) acc(1,2), of debug] unfolding acc(3) sz .
qed

theorem vdi_export_import_witness:
  "\<exists>v. VdiOpen [''x'' \<mapsto> virt_contents (vdi_disk [1, 2, 3]) [1, 2, 3]] (VdiCreateHandle False) [''x''] =
      (VDI_OK, v) \<and> VdiSize v = (VDI_OK, 3) \<and> VdiRead v 1 2 = Some (rd_ok [2, 3])"
proof -
  let ?d = "[1, 2, 3] :: bytes"
  have l: "length ?d < 2 ^ 49" by simp
  note ok = vdi_disk_ok [OF l]
  have m: "morphed_ok (typed_disk VirtImageType_VDI ?d) ?d" by (rule typed_disk_morphed) simp
  obtain v where v: "VdiOpen [''x'' \<mapsto> virt_contents (vdi_disk ?d) ?d] (VdiCreateHandle False) [''x''] = (VDI_OK, v)"
    "VdiSize v = (VDI_OK, length ?d)"
    and r: "\<And>off n. 0 < n \<Longrightarrow> n < 2 ^ 32 \<Longrightarrow> off + n \<le> length ?d \<Longrightarrow>
      VdiRead v off n = Some (rd_ok (segment off n ?d))"
    using vdi_export_import [OF m l _ _ ok(2,4) refl, of "(5, 6, 7, 8)" "[''x'' \<mapsto> virt_contents (vdi_disk ?d) ?d]"
        "''x''" False] ok(1,3,5) by auto
  have "VdiRead v 1 2 = Some (rd_ok [2, 3])" using r [of 2 1] by (simp add: segment_def)
  then show ?thesis using v by auto
qed


text \<open>The two halves stored as hash are the little-endian halves of the MD5 digest of the
  first 10 MiB of the morphed image, or of all of it; an empty image has none.\<close>

theorem input_image_hash:
  assumes "morphed_ok g d" "length (md_buf st) = 64"
  shows "CalculateInputImageHash st g =
    Some (if d = [] then (C_FALSE, 0, 0)
      else let hash = md5_digest (take HASH_AMOUNT d) in
        (C_TRUE, le_val (take 8 hash), le_val (drop 8 hash)))"
proof (cases "d = []")
  case True
  then show ?thesis using GetMorphedImageData_behind [OF assms(1), of 0 HASH_AMOUNT]
    by (simp add: CalculateInputImageHash_def rd_ok_def)
next
  case False
  define m where "m = take HASH_AMOUNT d"
  have "GetMorphedImageData g 0 HASH_AMOUNT =
      Some \<lparr>rr_ret = 1, rr_buf = m, rr_read = length m, rr_errno = 0\<rparr>"
    unfolding m_def by (rule GetMorphedImageData_head [OF assms(1) False]) (simp_all add: HASH_AMOUNT_def)
  moreover have "length m < 268435456" by (simp add: m_def HASH_AMOUNT_def)
  moreover have "length m \<noteq> 0" using False by (simp add: m_def HASH_AMOUNT_def)
  ultimately show ?thesis
    using False md5_finish_repr [OF md5_append_repr [OF md5_repr_init [OF assms(2)]], of m]
    by (simp add: CalculateInputImageHash_def Let_def m_def [symmetric])
qed

text \<open>C35: the VHD footer is 512 bytes that start with the cookie, state the size of the disk
  twice and its geometry, all big-endian, and end in a sum: the checksum is the one's
  complement of the sum of all other bytes.\<close>

theorem vhd_footer_valid:
  assumes "morphed_ok g d"
  shows "\<exists>b. InitVirtVhdHeader now g = (C_TRUE, upd_output (\<lambda>od. od\<lparr>out_vhd_header := b\<rparr>) g) \<and>
    length b = 512 \<and> segment 0 8 b = string_bytes ''conectix'' \<and>
    be_at 40 8 b = length d \<and> be_at 48 8 b = length d \<and>
    (be_at 56 2 b, be_at 58 1 b, be_at 59 1 b) = vhd_geometry (vhd_total_sectors (length d)) \<and>
    be_at 64 4 b + sum_list (map unat (take 64 b @ drop 68 b)) = 4294967295"
proof -
  obtain c h s where geo: "vhd_geometry (vhd_total_sectors (length d)) = (c, h, s)"
    by (cases "vhd_geometry (vhd_total_sectors (length d))")
  have chs: "c < 65536" "h < 256" "s < 256"
    using vhd_spec_geometry_bounds [of "ceil_div (length d) 512" c h s] geo
    by (auto simp: vhd_total_sectors_eq vhd_geometry_eq)
  define hd where "hd = vhd_header_fields now (length d) (c, h, s)
    (in_image_hash_lo (x_input g), in_image_hash_hi (x_input g))"
  have hd0: "hd\<lparr>vh_checksum := 0\<rparr> = hd" by (simp add: hd_def vhd_header_fields_def)
  define b where "b = enc_vhd_file_header (hd\<lparr>vh_checksum := htobe 4 (4294967295 -
      vhd_byte_sum (enc_vhd_file_header (hd\<lparr>vh_checksum := 0\<rparr>)))\<rparr>)"
  have init: "InitVirtVhdHeader now g = (C_TRUE, upd_output (\<lambda>od. od\<lparr>out_vhd_header := b\<rparr>) g)"
    using GetMorphedImageSize_ok [OF assms]
    by (simp add: InitVirtVhdHeader_def Let_def geo b_def hd0 hd_def [symmetric])
  have le1: "le_bytes 1 v = be_bytes 1 v" for v by (simp add: be_bytes_def)
  have len: "length d < 18446744073709551616" using assms by (simp add: morphed_ok_def)
  have b: "b = le_bytes 8 VHD_IMAGE_HVAL_COOKIE @ le_bytes 4 (vh_features hd) @
      le_bytes 4 (vh_file_format_version hd) @ le_bytes 8 (vh_data_offset hd) @
      le_bytes 4 (vh_creation_time hd) @ le_bytes 4 (vh_creator_app hd) @
      le_bytes 4 (vh_creator_ver hd) @ le_bytes 4 (vh_creator_os hd) @ be_bytes 8 (length d) @
      be_bytes 8 (length d) @ be_bytes 2 c @ be_bytes 1 h @ be_bytes 1 s @ drop 60 b"
    by (simp add: b_def enc_vhd_file_header_def hd_def vhd_header_fields_def le1 del: One_nat_def le_bytes.simps)
  have "segment 0 8 b = le_bytes 8 VHD_IMAGE_HVAL_COOKIE"
    "be_at 40 8 b = length d" "be_at 48 8 b = length d" "be_at 56 2 b = c" "be_at 58 1 b = h" "be_at 59 1 b = s"
    using len chs by (subst b, simp add: segment_append_left segment_all be_at_skip be_at_here del: One_nat_def le_bytes.simps)+
  moreover have "le_bytes 8 VHD_IMAGE_HVAL_COOKIE = string_bytes ''conectix''"
  proof -
    have "8 = Suc (Suc (Suc (Suc (Suc (Suc (Suc (Suc 0)))))))" by simp
    then show ?thesis by (simp only: le_bytes.simps VHD_IMAGE_HVAL_COOKIE_def) (simp add: string_bytes_def)
  qed
  ultimately show ?thesis
    using vhd_checksum_complement [of hd, folded b_def] init geo
    by (intro exI [of _ b]) (simp add: b_def sizeof_VhdFileHeader_def)
qed

theorem input_image_hash_witness:
  "CalculateInputImageHash \<lparr>md_count0 = 0, md_count1 = 0, md_abcd = (0, 0, 0, 0), md_buf = replicate 64 0\<rparr>
     (plain_disk []) = Some (C_FALSE, 0, 0) \<and>
   CalculateInputImageHash \<lparr>md_count0 = 0, md_count1 = 0, md_abcd = (0, 0, 0, 0), md_buf = replicate 64 0\<rparr>
     (plain_disk [0x61, 0x62, 0x63]) = Some (C_TRUE, 0xb04fd23c98500190, 0x727fe1287d3f96d6)"
  using input_image_hash [OF plain_disk_morphed [of "[]"],
      of "\<lparr>md_count0 = 0, md_count1 = 0, md_abcd = (0, 0, 0, 0), md_buf = replicate 64 0\<rparr>"]
    input_image_hash [OF plain_disk_morphed [of "[0x61, 0x62, 0x63]"],
      of "\<lparr>md_count0 = 0, md_count1 = 0, md_abcd = (0, 0, 0, 0), md_buf = replicate 64 0\<rparr>"]
  by (simp add: HASH_AMOUNT_def md5_test_abc)

theorem vhd_footer_valid_witness:
  "\<exists>b. InitVirtVhdHeader 0 (plain_disk [1, 2, 3]) =
      (C_TRUE, upd_output (\<lambda>od. od\<lparr>out_vhd_header := b\<rparr>) (plain_disk [1, 2, 3])) \<and> be_at 48 8 b = 3"
  using vhd_footer_valid [OF plain_disk_morphed [of "[1, 2, 3]"], of 0] by auto

text \<open>The VMDK descriptor is complete for paths of up to 190 characters; a path of 220 or
  more is written behind the end of the 500-byte buffer.\<close>

theorem vmdk_descriptor_buffer:
  assumes "morphed_ok g d" "is_vmdk (out_VirtImageType (x_output g))"
  shows "(length (tl (out_virtual_image_path (x_output g))) \<le> 190 \<longrightarrow>
      InitVirtualVmdkFile g = Some (C_TRUE, upd_vmdk (\<lambda>v.
        let text = VMDK_DESC_FILE (ceil_div (length d) 512) (tl (out_virtual_image_path (x_output g)))
              (if out_VirtImageType (x_output g) = VirtImageType_VMDK then ''ide'' else ''scsi'')
        in v\<lparr>vm_vmdk_file := string_bytes text, vm_vmdk_file_size := int_of_size (length text)\<rparr>) g)) \<and>
    (220 \<le> length (tl (out_virtual_image_path (x_output g))) \<longrightarrow> InitVirtualVmdkFile g = None)"
proof -
  let ?n = "ceil_div (length d) 512" and ?p = "tl (out_virtual_image_path (x_output g))"
  let ?a = "if out_VirtImageType (x_output g) = VirtImageType_VMDK then ''ide'' else ''scsi''"
  let ?text = "VMDK_DESC_FILE ?n ?p ?a"
  have "length d < 4611686018427387904" using assms(1) by (simp add: morphed_ok_def)
  moreover have "length d div 512 \<le> length d" "?n \<le> length d div 512 + 1" by (simp_all add: ceil_div_def)
  ultimately have "?n < 10 ^ 20" by simp
  then have "length (dec_string ?n) \<le> 20" by (rule length_dec_string) simp
  moreover have "dec_string ?n \<noteq> []" by (rule dec_string_not_Nil)
  then have "1 \<le> length (dec_string ?n)" by (cases "dec_string ?n") simp_all
  moreover have "length ?text = 284 + length (dec_string ?n) + length ?p + length ?a"
    by (rule length_VMDK_DESC_FILE)
  moreover have "3 \<le> length ?a \<and> length ?a \<le> 4" by simp
  ultimately have len: "length ?p \<le> 190 \<Longrightarrow> length ?text + 1 \<le> 500" "220 \<le> length ?p \<Longrightarrow> 500 < length ?text + 1"
    by linarith+
  have eq: "InitVirtualVmdkFile g = (if length ?text + 1 > 500 then None
      else Some (C_TRUE, upd_vmdk (\<lambda>v. v\<lparr>vm_vmdk_file := string_bytes ?text,
                                         vm_vmdk_file_size := int_of_size (length ?text)\<rparr>) g))"
    using assms(2) GetMorphedImageSize_ok [OF assms(1)]
    by (simp add: InitVirtualVmdkFile_def is_vmdk_def Let_def ceil_div_def)
  have "InitVirtualVmdkFile g = Some (C_TRUE, upd_vmdk (\<lambda>v.
        let text = ?text in v\<lparr>vm_vmdk_file := string_bytes text, vm_vmdk_file_size := int_of_size (length text)\<rparr>) g)"
    if "length ?p \<le> 190"
  proof -
    have "\<not> 500 < length ?text + 1" using len(1) [OF that] by simp
    then show ?thesis unfolding eq Let_def by (simp only: if_False)
  qed
  moreover have "InitVirtualVmdkFile g = None" if "220 \<le> length ?p"
    using len(2) [OF that] unfolding eq by (simp only: if_True)
  ultimately show ?thesis by blast
qed

theorem vmdk_descriptor_buffer_witness:
  "(\<exists>g. InitVirtualVmdkFile (typed_disk VirtImageType_VMDK [1, 2, 3]) = Some (C_TRUE, g) \<and>
      vm_vmdk_file (out_vmdk (x_output g)) = string_bytes (VMDK_DESC_FILE 1 ''image'' ''ide'')) \<and>
   InitVirtualVmdkFile (upd_output (\<lambda>od. od\<lparr>out_virtual_image_path := replicate 250 (CHR ''a'')\<rparr>)
     (typed_disk VirtImageType_VMDK [1, 2, 3])) = None"
proof
  let ?g = "typed_disk VirtImageType_VMDK [1, 2, 3]"
  let ?l = "upd_output (\<lambda>od. od\<lparr>out_virtual_image_path := replicate 250 (CHR ''a'')\<rparr>) ?g"
  have m: "morphed_ok ?g [1, 2, 3]" by (rule typed_disk_morphed) simp
  then have l: "morphed_ok ?l [1, 2, 3]" by (simp add: morphed_ok_def)
  have "ceil_div (Suc (Suc (Suc 0))) 512 = Suc 0" by (simp add: ceil_div_def)
  then show "\<exists>g. InitVirtualVmdkFile ?g = Some (C_TRUE, g) \<and>
      vm_vmdk_file (out_vmdk (x_output g)) = string_bytes (VMDK_DESC_FILE 1 ''image'' ''ide'')"
    using vmdk_descriptor_buffer [OF m] by (simp add: is_vmdk_def typed_disk_def Let_def)
  show "InitVirtualVmdkFile ?l = None"
    using vmdk_descriptor_buffer [OF l] by (simp add: is_vmdk_def typed_disk_def)
qed

end
