(* ===== verification/XmountFuse.thy ===== *)
theory XmountFuse
  imports XmountDisk XmountHeaders
begin

text \<open>
  The FUSE operations of \<open>src/src/xmount.c\<close>, from \<open>FuseGetAttr\<close> to
  \<open>FuseWrite\<close>. Paths are C strings without their final 0, a negative result is a negated
  error number, and \<open>None\<close> stands for the accesses through \<open>NULL\<close> or outside a
  string or buffer that some of the operations make. What \<open>malloc\<close> and \<open>realloc\<close> leave in fresh
  memory is a parameter (\<open>fresh\<close>), as are the ids of the process.
\<close>

section \<open>Attributes\<close>

definition S_IFDIR :: nat where "S_IFDIR = 16384"
definition S_IFREG :: nat where "S_IFREG = 32768"

text \<open>The permission bits (octal 444, 666 and 777) are below both, so the sum is the bitwise or.\<close>

record stat_buf =
  st_mode :: nat
  st_nlink :: nat
  st_size :: int
  st_blocks :: int
  st_uid :: nat
  st_gid :: nat

definition stat_zero :: stat_buf where
  "stat_zero = \<lparr>st_mode = 0, st_nlink = 0, st_size = 0, st_blocks = 0, st_uid = 0, st_gid = 0\<rparr>"

definition st_file :: "bool \<Rightarrow> int \<Rightarrow> stat_buf" where
  "st_file writable n =
     stat_zero\<lparr>st_mode := S_IFREG + (if \<not> writable then 292 else 438), st_nlink := 1, st_size := n\<rparr>"

definition st_dir :: stat_buf where
  "st_dir = stat_zero\<lparr>st_mode := S_IFDIR + 511, st_nlink := 2\<rparr>"

text \<open>\<open>st_size/512\<close>, rounded towards 0, and one more unless \<open>st_size%512==0\<close>.\<close>

definition blocks_512 :: "int \<Rightarrow> int" where
  "blocks_512 n = sgn n * (\<bar>n\<bar> div 512) + (if n mod 512 \<noteq> 0 then 1 else 0)"

text \<open>The \<open>int\<close> size of the VMDK file is reported as it is, a negative one too.\<close>

definition FuseGetAttr_vmdk :: "string \<Rightarrow> output_data \<Rightarrow> (int \<times> stat_buf) option" where
  "FuseGetAttr_vmdk path od =
     (let vm = out_vmdk od in
      case vm_virtual_vmdk_path vm of
        None \<Rightarrow> None
      | Some vpath \<Rightarrow> Some (
          if path = vpath then (0, st_file (out_writable od) (if vm_vmdk_file vm \<noteq> [] then vm_vmdk_file_size vm else 0))
          else if vm_lockdir1 vm = Some path then (0, st_dir)
          else if vm_lockdir2 vm = Some path then (0, st_dir)
          else if vm_lockfile_name vm = Some path
          then (0, (st_file True (int64 (length path)))\<lparr>st_nlink := 0\<rparr>)
          else (- ENOENT, stat_zero)))"

definition FuseGetAttr ::
  "nat \<Rightarrow> nat \<Rightarrow> string \<Rightarrow> xmount_data \<Rightarrow> (int \<times> stat_buf \<times> xmount_data) option" where
  "FuseGetAttr uid gid path g =
     (let od = x_output g;
          ids = (\<lambda>(ret :: int, st) g'. (ret, if ret = 0 then st\<lparr>st_uid := uid, st_gid := gid\<rparr> else st, g')) in
      if path = ''/'' then Some (ids (0, st_dir) g)
      else if path = out_virtual_image_path od then
        (case GetVirtImageSize g of (ok, sz, g1) \<Rightarrow>
           let st = st_file (out_writable od) (int64 sz) in
           if ok \<noteq> C_TRUE then Some (- ENOENT, st, g1)
           else Some (ids (0, if out_VirtImageType od = VirtImageType_VHD
                              then st\<lparr>st_blocks := blocks_512 (st_size st)\<rparr> else st) g1))
      else if path = out_info_path od then
        Some (ids (0, st_file False (case out_info_file od of Some s \<Rightarrow> int64 (length s) | None \<Rightarrow> 0)) g)
      else if is_vmdk (out_VirtImageType od) then
        (case FuseGetAttr_vmdk path od of None \<Rightarrow> None | Some r \<Rightarrow> Some (ids r g))
      else Some (- ENOENT, stat_zero, g))"

section \<open>Directories and lock files\<close>

definition FuseMkDir :: "string \<Rightarrow> xmount_data \<Rightarrow> (int \<times> xmount_data) option" where
  "FuseMkDir path g =
     (let vm = out_vmdk (x_output g) in
      if is_vmdk (out_VirtImageType (x_output g)) then
        (case vm_lockdir1 vm of
           None \<Rightarrow>
             (case vm_virtual_vmdk_path vm of
                None \<Rightarrow> None
              | Some vpath \<Rightarrow>
                  if path = vpath @ ''.lck''
                  then Some (0, upd_vmdk (\<lambda>v. v\<lparr>vm_lockdir1 := Some path\<rparr>) g)
                  else Some (-1, g))
         | Some dir1 \<Rightarrow>
             if vm_lockdir2 vm = None \<and> take (length dir1) path = dir1
             then Some (0, upd_vmdk (\<lambda>v. v\<lparr>vm_lockdir2 := Some path\<rparr>) g)
             else Some (-1, g))
      else Some (-1, g))"

definition FuseMkNod :: "string \<Rightarrow> xmount_data \<Rightarrow> int \<times> xmount_data" where
  "FuseMkNod path g =
     (let vm = out_vmdk (x_output g) in
      if is_vmdk (out_VirtImageType (x_output g)) \<and> vm_lockdir1 vm \<noteq> None \<and>
         vm_lockfile_name vm = None
      then (0, upd_vmdk (\<lambda>v. v\<lparr>vm_lockfile_name := Some path\<rparr>) g)
      else (-1, g))"

text \<open>The names handed to \<open>filler\<close>. The name of the lock file is what stands behind the
  lock directory and one more character of its path; a path that is not longer than the
  directory gives a pointer outside the string.\<close>

definition FuseReadDir_root :: "output_data \<Rightarrow> (int \<times> string list) option" where
  "FuseReadDir_root od =
     (let vm = out_vmdk od;
          files = [''.'', ''..'', tl (out_virtual_image_path od), tl (out_info_path od)] in
      if is_vmdk (out_VirtImageType od) then
        (case vm_virtual_vmdk_path vm of
           None \<Rightarrow> None
         | Some vpath \<Rightarrow>
             Some (0, files @ [tl vpath] @ (case vm_lockdir1 vm of Some d \<Rightarrow> [tl d] | None \<Rightarrow> [])))
      else Some (0, files))"

definition FuseReadDir :: "string \<Rightarrow> xmount_data \<Rightarrow> (int \<times> string list) option" where
  "FuseReadDir path g =
     (let od = x_output g; vm = out_vmdk od in
      if path = ''/'' then FuseReadDir_root od
      else if is_vmdk (out_VirtImageType od) then
        (if vm_lockdir1 vm = Some path then
           (case vm_lockfile_name vm of
              None \<Rightarrow> Some (0, [''.'', ''..''])
            | Some f \<Rightarrow>
                if length path + 1 \<le> length f
                then Some (0, [''.'', ''..'', drop (length path + 1) f]) else None)
         else if vm_lockdir2 vm = Some path then Some (0, [''.'', ''..''])
         else Some (- ENOENT, []))
      else Some (- ENOENT, []))"

definition FuseRename :: "string \<Rightarrow> string \<Rightarrow> xmount_data \<Rightarrow> int \<times> xmount_data" where
  "FuseRename path npath g =
     (if is_vmdk (out_VirtImageType (x_output g)) \<and>
         vm_lockfile_name (out_vmdk (x_output g)) = Some path
      then (0, upd_vmdk (\<lambda>v. v\<lparr>vm_lockfile_name := Some npath\<rparr>) g)
      else (- ENOENT, g))"

definition FuseRmDir :: "string \<Rightarrow> xmount_data \<Rightarrow> int \<times> xmount_data" where
  "FuseRmDir path g =
     (let vm = out_vmdk (x_output g) in
      if is_vmdk (out_VirtImageType (x_output g)) then
        if vm_lockdir1 vm = Some path then (0, upd_vmdk (\<lambda>v. v\<lparr>vm_lockdir1 := None\<rparr>) g)
        else if vm_lockdir2 vm = Some path then (0, upd_vmdk (\<lambda>v. v\<lparr>vm_lockdir2 := None\<rparr>) g)
        else (-1, g)
      else (-1, g))"

definition FuseUnlink :: "string \<Rightarrow> xmount_data \<Rightarrow> int \<times> xmount_data" where
  "FuseUnlink path g =
     (if is_vmdk (out_VirtImageType (x_output g)) \<and>
         vm_lockfile_name (out_vmdk (x_output g)) = Some path
      then (0, upd_vmdk (\<lambda>v. v\<lparr>vm_lockfile_name := None, vm_lockfile_data := [],
                               vm_lockfile_size := 0\<rparr>) g)
      else (-1, g))"

section \<open>Opening, reading and writing\<close>

definition CHECK_OPEN_PERMS :: "nat \<Rightarrow> output_data \<Rightarrow> int" where
  "CHECK_OPEN_PERMS flags od = (if \<not> out_writable od \<and> flags mod 4 \<noteq> 0 then - EACCES else 0)"

definition FuseOpen :: "string \<Rightarrow> nat \<Rightarrow> xmount_data \<Rightarrow> int option" where
  "FuseOpen path flags g =
     (let od = x_output g; vm = out_vmdk od in
      if path = out_virtual_image_path od \<or> path = out_info_path od
      then Some (CHECK_OPEN_PERMS flags od)
      else if is_vmdk (out_VirtImageType od) then
        (case vm_virtual_vmdk_path vm of
           None \<Rightarrow> None
         | Some vpath \<Rightarrow>
             if path = vpath \<or> vm_lockfile_name vm = Some path
             then Some (CHECK_OPEN_PERMS flags od) else Some (- ENOENT))
      else Some (- ENOENT))"

text \<open>The macro \<open>READ_MEM_FILE\<close> on a buffer and its recorded size, converted to \<open>uint64_t\<close>.\<close>

definition read_mem_file :: "bytes \<Rightarrow> nat \<Rightarrow> nat \<Rightarrow> nat \<Rightarrow> (int \<times> bytes) option" where
  "read_mem_file buf len n offset =
     (if offset < len then
        let sz = (if u64 (offset + n) > len then len - offset else n) in
        if offset + sz \<le> length buf then Some (int_of_size sz, segment offset sz buf) else None
      else Some (0, []))"

definition FuseRead ::
  "string \<Rightarrow> nat \<Rightarrow> nat \<Rightarrow> xmount_data \<Rightarrow> (int \<times> bytes \<times> xmount_data) option" where
  "FuseRead path n offset g =
     (let od = x_output g; vm = out_vmdk od;
          mem = (\<lambda>buf len. case read_mem_file buf len n offset of
                   None \<Rightarrow> None | Some (ret, b) \<Rightarrow> Some (ret, b, g)) in
      if path = out_virtual_image_path od then GetVirtImageData g offset n
      else if path = out_info_path od then
        (case out_info_file od of
           None \<Rightarrow> None
         | Some s \<Rightarrow> mem (string_bytes s) (length s))
      else
        (case vm_virtual_vmdk_path vm of
           None \<Rightarrow> None
         | Some vpath \<Rightarrow>
             if path = vpath then mem (vm_vmdk_file vm) (u64_of_int (vm_vmdk_file_size vm))
             else if vm_lockfile_name vm = Some path
             then mem (vm_lockfile_data vm) (u64_of_int (vm_lockfile_size vm))
             else Some (- ENOENT, [], g)))"

text \<open>Enlarging a buffer to \<open>alloc\<close> bytes, then \<open>memcpy\<close> into it: the VMDK and the lock
  file. Their recorded sizes are \<open>int\<close>, compared and enlarged as \<open>uint64_t\<close>, and the new size
  is the lower half of the end of the write. \<open>None\<close> is a copy behind the buffer, or the exit
  of the program when it asks for half of the address space or more.\<close>

definition write_mem_file ::
  "(nat \<Rightarrow> u8) \<Rightarrow> bytes \<Rightarrow> int \<Rightarrow> nat \<Rightarrow> bytes \<Rightarrow> nat \<Rightarrow> (bytes \<times> int) option" where
  "write_mem_file fresh buf fsize alloc data offset =
     (let stop = u64 (offset + length data);
          grow = stop > u64_of_int fsize;
          old = (if fsize = 0 then [] else buf);
          buf' = (if grow then take alloc old @ map fresh [length old..<alloc] else buf);
          fsize' = (if grow then int_of_size stop else fsize) in
      if grow \<and> 2 ^ 63 \<le> alloc then None
      else if offset + length data \<le> length buf' then Some (overwrite offset data buf', fsize') else None)"

text \<open>The new buffer of the VMDK file has the size that was computed in 64 bits, that of the lock
  file the size that has been stored before.\<close>

definition write_vmdk_file ::
  "(nat \<Rightarrow> u8) \<Rightarrow> bytes \<Rightarrow> nat \<Rightarrow> vmdk_data \<Rightarrow> vmdk_data option" where
  "write_vmdk_file fresh data offset vm =
     (case write_mem_file fresh (vm_vmdk_file vm) (vm_vmdk_file_size vm) (u64 (offset + length data))
             data offset of
        None \<Rightarrow> None
      | Some (b, n) \<Rightarrow> Some (vm\<lparr>vm_vmdk_file := b, vm_vmdk_file_size := n\<rparr>))"

definition write_lock_file ::
  "(nat \<Rightarrow> u8) \<Rightarrow> bytes \<Rightarrow> nat \<Rightarrow> vmdk_data \<Rightarrow> vmdk_data option" where
  "write_lock_file fresh data offset vm =
     (case write_mem_file fresh (vm_lockfile_data vm) (vm_lockfile_size vm)
             (u64_of_int (int_of_size (u64 (offset + length data)))) data offset of
        None \<Rightarrow> None
      | Some (b, n) \<Rightarrow> Some (vm\<lparr>vm_lockfile_data := b, vm_lockfile_size := n\<rparr>))"

definition FuseWrite_image ::
  "bytes \<Rightarrow> nat \<Rightarrow> xmount_data \<Rightarrow> (int \<times> xmount_data) option" where
  "FuseWrite_image buf offset g =
     (case GetVirtImageSize g of (ok, len, g1) \<Rightarrow>
        if ok \<noteq> C_TRUE then Some (0, g1)
        else if offset < len then
          let data = (if u64 (offset + length buf) > len then take (len - offset) buf else buf) in
          (case SetVirtImageData g1 data offset of
             None \<Rightarrow> None
           | Some (ret, g2) \<Rightarrow>
               if nat (ret mod 18446744073709551616) \<noteq> length data then Some (0, g2)
               else Some (int_of_size (length data), g2))
        else Some (0, g1))"

definition FuseWrite ::
  "(nat \<Rightarrow> u8) \<Rightarrow> string \<Rightarrow> bytes \<Rightarrow> nat \<Rightarrow> xmount_data \<Rightarrow> (int \<times> xmount_data) option" where
  "FuseWrite fresh path buf offset g =
     (let od = x_output g; vm = out_vmdk od in
      if path = out_virtual_image_path od then FuseWrite_image buf offset g
      else
        (case vm_virtual_vmdk_path vm of
           None \<Rightarrow> None
         | Some vpath \<Rightarrow>
             if path = vpath then
               (case write_vmdk_file fresh buf offset vm of
                  None \<Rightarrow> None
                | Some vm' \<Rightarrow> Some (int_of_size (length buf), upd_vmdk (\<lambda>v. vm') g))
             else if vm_lockfile_name vm = Some path then
               (case write_lock_file fresh buf offset vm of
                  None \<Rightarrow> None
                | Some vm' \<Rightarrow> Some (int_of_size (length buf), upd_vmdk (\<lambda>v. vm') g))
             else Some (- ENOENT, g)))"

end
