(* ===== verification/XmountSession.thy ===== *)
theory XmountSession
  imports XmountFuse
begin

text \<open>
  Sessions of the mounted file system: the operations the kernel sends, one after the other
  (the mutexes of the program make each of them atomic), with the files it holds open. The
  abstract specification is a disk (one byte list) with reads and writes; the sessions of
  xmount refine it, whatever happens to the other files.
\<close>

section \<open>Operations, replies, steps\<close>

datatype fuse_op =
    OpGetAttr string
  | OpMkDir string
  | OpMkNod string
  | OpReadDir string
  | OpOpen string nat
  | OpRelease string nat
  | OpRead string nat nat
  | OpRename string string
  | OpRmDir string
  | OpUnlink string
  | OpWrite string bytes nat

datatype fuse_reply =
    ReInt int
  | ReStat int stat_buf
  | ReNames int "string list"
  | ReData int bytes

text \<open>What a call depends on beside its arguments: the ids of the process and the contents of
  fresh memory.\<close>

record fuse_env =
  fe_uid :: nat
  fe_gid :: nat
  fe_fresh :: "nat \<Rightarrow> u8"

fun fuse_exec :: "fuse_env \<Rightarrow> fuse_op \<Rightarrow> xmount_data \<Rightarrow> (fuse_reply \<times> xmount_data) option" where
  "fuse_exec e (OpGetAttr p) g =
     map_option (\<lambda>(ret, st, g'). (ReStat ret st, g')) (FuseGetAttr (fe_uid e) (fe_gid e) p g)"
| "fuse_exec e (OpMkDir p) g = map_option (\<lambda>(ret, g'). (ReInt ret, g')) (FuseMkDir p g)"
| "fuse_exec e (OpMkNod p) g = Some (ReInt (fst (FuseMkNod p g)), snd (FuseMkNod p g))"
| "fuse_exec e (OpReadDir p) g = map_option (\<lambda>(ret, ns). (ReNames ret ns, g)) (FuseReadDir p g)"
| "fuse_exec e (OpOpen p fl) g = map_option (\<lambda>ret. (ReInt ret, g)) (FuseOpen p fl g)"
| "fuse_exec e (OpRelease p fl) g = Some (ReInt 0, g)"
| "fuse_exec e (OpRead p n off) g =
     map_option (\<lambda>(ret, b, g'). (ReData ret b, g')) (FuseRead p n off g)"
| "fuse_exec e (OpRename p q) g = Some (ReInt (fst (FuseRename p q g)), snd (FuseRename p q g))"
| "fuse_exec e (OpRmDir p) g = Some (ReInt (fst (FuseRmDir p g)), snd (FuseRmDir p g))"
| "fuse_exec e (OpUnlink p) g = Some (ReInt (fst (FuseUnlink p g)), snd (FuseUnlink p g))"
| "fuse_exec e (OpWrite p b off) g =
     map_option (\<lambda>(ret, g'). (ReInt ret, g')) (FuseWrite (fe_fresh e) p b off g)"

text \<open>The kernel reads and writes open files only, by the access mode they were opened with,
  at least one byte and less than 2 GiB at a time, below the largest \<open>off_t\<close>.\<close>

record session =
  se_g :: xmount_data
  se_open :: "(string \<times> nat) list"

lemma session_self [simp]: "\<lparr>se_g = se_g s, se_open = se_open s\<rparr> = s"
  by (cases s) simp

fun fuse_enabled :: "session \<Rightarrow> fuse_op \<Rightarrow> bool" where
  "fuse_enabled s (OpRead p n off) \<longleftrightarrow>
     (\<exists>(q, fl) \<in> set (se_open s). q = p) \<and> 0 < n \<and> n < 2147483648 \<and> off < 2 ^ 63"
| "fuse_enabled s (OpWrite p b off) \<longleftrightarrow>
     (\<exists>(q, fl) \<in> set (se_open s). q = p \<and> fl mod 4 \<noteq> 0) \<and> b \<noteq> [] \<and> length b < 2147483648 \<and>
     off + length b < 2 ^ 63"
| "fuse_enabled s (OpRelease p fl) \<longleftrightarrow> (p, fl) \<in> set (se_open s)"
| "fuse_enabled s _ \<longleftrightarrow> True"

fun kernel_open :: "fuse_op \<Rightarrow> fuse_reply \<Rightarrow> (string \<times> nat) list \<Rightarrow> (string \<times> nat) list" where
  "kernel_open (OpOpen p fl) (ReInt ret) hs = (if ret = 0 then (p, fl) # hs else hs)"
| "kernel_open (OpRelease p fl) _ hs = remove1 (p, fl) hs"
| "kernel_open (OpRename p q) (ReInt ret) hs =
     (if ret = 0 then map (\<lambda>(r, fl). (if r = p then q else r, fl)) hs else hs)"
| "kernel_open _ _ hs = hs"

inductive fuse_step :: "session \<Rightarrow> fuse_op \<Rightarrow> fuse_reply \<Rightarrow> session \<Rightarrow> bool" where
  step: "fuse_enabled s op \<Longrightarrow> fuse_exec e op (se_g s) = Some (r, g') \<Longrightarrow>
    fuse_step s op r \<lparr>se_g = g', se_open = kernel_open op r (se_open s)\<rparr>"

inductive fuse_run :: "session \<Rightarrow> (fuse_op \<times> fuse_reply) list \<Rightarrow> session \<Rightarrow> bool" where
  run_nil: "fuse_run s [] s"
| run_cons: "fuse_step s op r s' \<Longrightarrow> fuse_run s' tr s'' \<Longrightarrow> fuse_run s ((op, r) # tr) s''"

inductive_cases fuse_stepE: "fuse_step s op r s'"
inductive_cases fuse_run_NilE: "fuse_run s [] s'"
inductive_cases fuse_run_ConsE: "fuse_run s ((op, r) # tr) s'"

section \<open>The abstract disk\<close>

text \<open>Writes are clipped at the end of the disk. One that reports 0 has failed after a prefix
  of the data.\<close>

fun disk_step :: "string \<Rightarrow> bytes \<Rightarrow> fuse_op \<Rightarrow> fuse_reply \<Rightarrow> bytes \<Rightarrow> bool" where
  "disk_step img c (OpRead p n off) (ReData ret b) c' \<longleftrightarrow>
     c' = c \<and> (p = img \<longrightarrow> b = segment off n c \<and> ret = int (length b))"
| "disk_step img c (OpGetAttr p) (ReStat ret st) c' \<longleftrightarrow>
     c' = c \<and> (p = img \<longrightarrow> ret = 0 \<and> st_size st = int (length c))"
| "disk_step img c (OpWrite p b off) (ReInt ret) c' \<longleftrightarrow>
     (if p \<noteq> img then c' = c
      else if length c \<le> off then c' = c \<and> ret = 0
      else let w = take (length c - off) b in
        (ret = int (length w) \<and> c' = overwrite off w c) \<or>
        (ret = 0 \<and> (\<exists>j \<le> length w. c' = overwrite off (take j w) c)))"
| "disk_step img c _ _ c' \<longleftrightarrow> c' = c"

inductive disk_run :: "string \<Rightarrow> bytes \<Rightarrow> (fuse_op \<times> fuse_reply) list \<Rightarrow> bytes \<Rightarrow> bool" for img where
  disk_nil: "disk_run img c [] c"
| disk_cons: "disk_step img c op r c' \<Longrightarrow> disk_run img c' tr c'' \<Longrightarrow>
    disk_run img c ((op, r) # tr) c''"

section \<open>The invariant of a session\<close>

text \<open>Of the output data: a VMDK output has the path of its descriptor. The files in memory
  have their recorded sizes as long as these fit an \<open>int\<close>.\<close>

definition mem_files_ok :: "output_data \<Rightarrow> bool" where
  "mem_files_ok od \<longleftrightarrow>
     (let vm = out_vmdk od in
      (is_vmdk (out_VirtImageType od) \<longleftrightarrow> vm_virtual_vmdk_path vm \<noteq> None) \<and>
      out_info_file od \<noteq> None \<and> out_virtual_image_path od \<noteq> ''/'')"

definition mem_sizes_ok :: "output_data \<Rightarrow> bool" where
  "mem_sizes_ok od \<longleftrightarrow>
     (let vm = out_vmdk od in
      vm_vmdk_file_size vm = int (length (vm_vmdk_file vm)) \<and> length (vm_vmdk_file vm) < 2147483648 \<and>
      vm_lockfile_size vm = int (length (vm_lockfile_data vm)) \<and> length (vm_lockfile_data vm) < 2147483648)"

text \<open>A write to the VMDK file that ends where the size no longer fits.\<close>

fun op_truncates :: "output_data \<Rightarrow> fuse_op \<Rightarrow> bool" where
  "op_truncates od (OpWrite p b off) \<longleftrightarrow> p \<noteq> out_virtual_image_path od \<and>
     vm_virtual_vmdk_path (out_vmdk od) = Some p \<and> 2147483648 \<le> off + length b"
| "op_truncates od _ \<longleftrightarrow> False"

text \<open>The open files: for writing only where the image is writable, and without a VMDK output
  the image and the info file only.\<close>

definition handles_ok :: "output_data \<Rightarrow> (string \<times> nat) list \<Rightarrow> bool" where
  "handles_ok od hs \<longleftrightarrow> (\<forall>(p, fl) \<in> set hs.
     (fl mod 4 \<noteq> 0 \<longrightarrow> out_writable od) \<and>
     (is_vmdk (out_VirtImageType od) \<or> p = out_virtual_image_path od \<or> p = out_info_path od))"

definition session_inv :: "session \<Rightarrow> bytes \<Rightarrow> bool" where
  "session_inv s d \<longleftrightarrow> virt_inv (se_g s) d \<and> mem_files_ok (x_output (se_g s)) \<and>
     (out_writable (x_output (se_g s)) \<longrightarrow> ca_h_cache_file (x_cache (se_g s)) \<noteq> None) \<and>
     handles_ok (x_output (se_g s)) (se_open s)"

lemma session_invD:
  assumes "session_inv s d"
  shows "virt_inv (se_g s) d" "mem_files_ok (x_output (se_g s))"
    "out_writable (x_output (se_g s)) \<Longrightarrow> \<exists>f. ca_h_cache_file (x_cache (se_g s)) = Some f"
    "handles_ok (x_output (se_g s)) (se_open s)"
  using assms by (auto simp: session_inv_def)

section \<open>Frames\<close>

text \<open>An operation on the image stores its size and keeps the rest of the output data.\<close>

definition out_kept :: "output_data \<Rightarrow> bool \<Rightarrow> xmount_data \<Rightarrow> bool" where
  "out_kept od c g \<longleftrightarrow> (ca_h_cache_file (x_cache g) \<noteq> None) = c \<and>
     (\<exists>n. x_output g = od\<lparr>out_image_size := n\<rparr>)"

lemma out_kept_put_file [simp]:
  "out_kept od c g \<Longrightarrow> ca_h_cache_file (x_cache g) = Some f \<Longrightarrow> out_kept od c (put_file f' g)"
  by (simp add: out_kept_def)

lemma out_kept_self: "out_kept (x_output g) (ca_h_cache_file (x_cache g) \<noteq> None) g"
  by (auto simp: out_kept_def intro: exI [of _ "out_image_size (x_output g)"])

lemma GetVirtImageSize_kept:
  "GetVirtImageSize g = (ok, n, g') \<Longrightarrow> out_kept od c g \<Longrightarrow> out_kept od c g'"
  by (auto simp: GetVirtImageSize_def out_kept_def upd_output_def Let_def split: if_splits prod.splits)

lemma GetVirtImageData_block_kept:
  "GetVirtImageData_block g b a off n = Some (ret, x, g') \<Longrightarrow> out_kept od c g \<Longrightarrow> out_kept od c g'"
  by (auto simp: GetVirtImageData_block_def Let_def split: option.splits if_splits prod.splits)

lemma GetVirtImageData_loop_kept:
  assumes "GetVirtImageData_loop g b a off n buf = Some res"
  shows "out_kept od c g \<longrightarrow> out_kept od c (snd (snd (snd res)))"
proof (rule GetVirtImageData_loop.raw_induct
    [where P = "\<lambda>g b a off n buf res. out_kept od c g \<longrightarrow> out_kept od c (snd (snd (snd res)))", OF _ assms])
  fix loop g and b a off n :: nat and buf :: bytes and res
  assume ih: "\<And>g b a off n buf res. loop g b a off n buf = Some res \<Longrightarrow>
      out_kept od c g \<longrightarrow> out_kept od c (snd (snd (snd res)))"
    and eq: "(if n = 0 then Some (0, buf, off, g)
      else let k = if u64 (a + n) > CACHE_BLOCK_SIZE then CACHE_BLOCK_SIZE - a else n
           in case GetVirtImageData_block g b a off k of None \<Rightarrow> None
              | Some (ret, x, g1) \<Rightarrow>
                  if ret \<noteq> 0 then Some (ret, buf @ x, off, g1)
                  else loop g1 (u32 (b + 1)) 0 (off + k) (n - k) (buf @ x)) = Some res"
  show "out_kept od c g \<longrightarrow> out_kept od c (snd (snd (snd res)))"
  proof (cases "n = 0")
    case True
    then show ?thesis using eq by auto
  next
    case False
    define k where "k = (if u64 (a + n) > CACHE_BLOCK_SIZE then CACHE_BLOCK_SIZE - a else n)"
    obtain ret x g1 where blk: "GetVirtImageData_block g b a off k = Some (ret, x, g1)"
      using eq False unfolding k_def [symmetric] Let_def by (auto split: option.splits)
    have "res = (ret, buf @ x, off, g1) \<or>
        loop g1 (u32 (b + 1)) 0 (off + k) (n - k) (buf @ x) = Some res"
      using eq False blk unfolding k_def [symmetric] Let_def by (auto split: if_splits)
    then show ?thesis
    proof
      assume "res = (ret, buf @ x, off, g1)"
      then show ?thesis using GetVirtImageData_block_kept [OF blk, of od c] by simp
    next
      assume "loop g1 (u32 (b + 1)) 0 (off + k) (n - k) (buf @ x) = Some res"
      then show ?thesis using ih GetVirtImageData_block_kept [OF blk, of od c] by blast
    qed
  qed
qed

lemma GetVirtImageData_kept:
  assumes "GetVirtImageData g off n = Some (ret, b, g')" "out_kept od c g"
  shows "out_kept od c g'"
proof -
  have hdr: "out_kept od c g2" if "read_header_data h s p o' k g1 = Some (r, x, g2)" "out_kept od c g1"
    for h s p o' k r x and g1 g2 :: xmount_data
    using that by (auto simp: read_header_data_def split: option.splits bool.splits if_splits prod.splits)
  have head: "out_kept od c g2" if "GetVirtImageData_head g1 m o' k = Some (vs, g2)" "out_kept od c g1"
    for m o' k vs and g1 g2 :: xmount_data
    using that hdr
    by (fastforce simp: GetVirtImageData_head_def read_vdi_header_def Let_def
        split: VirtImageType.splits option.splits if_splits)
  have ftr: "out_kept od c g2" if "read_vhd_footer o' k g1 = Some (r, x, g2)" "out_kept od c g1"
    for o' k r x and g1 g2 :: xmount_data
    using that hdr by (fastforce simp: read_vhd_footer_def Let_def)
  show ?thesis
    using assms GetVirtImageSize_kept head ftr GetVirtImageData_loop_kept
    by (fastforce simp: GetVirtImageData_def Let_def split: prod.splits option.splits if_splits)
qed

text \<open>The invariant and the contents do not depend on the paths and on the files in memory.\<close>

definition same_image :: "output_data \<Rightarrow> output_data \<Rightarrow> bool" where
  "same_image od od' \<longleftrightarrow> out_VirtImageType od' = out_VirtImageType od \<and> out_vdi od' = out_vdi od \<and>
     out_vhd_header od' = out_vhd_header od \<and> out_image_size od' = out_image_size od"

lemma same_image_virt:
  assumes "same_image (x_output g) (f (x_output g))"
  shows "region_at (upd_output f g) r = region_at g r"
    "virt_contents (upd_output f g) d = virt_contents g d"
    "virt_inv (upd_output f g) d = virt_inv g d"
proof -
  note e = assms [unfolded same_image_def]
  show r: "region_at (upd_output f g) r = region_at g r" for r
    using e by (cases r) simp_all
  show c: "virt_contents (upd_output f g) d = virt_contents g d"
    using e by (simp add: virt_contents_def header_contents_def disk_contents_def disk_block_def r
        del: region_at.simps split: VirtImageType.split)
  show "virt_inv (upd_output f g) d = virt_inv g d"
    using e by (simp add: virt_inv_def morphed_ok_def cache_inv_def cache_layout_def headers_ok_def
        index_data_def r c del: region_at.simps)
qed

lemma upd_vmdk_virt [simp]:
  "virt_contents (upd_vmdk f g) d = virt_contents g d" "virt_inv (upd_vmdk f g) d = virt_inv g d"
  unfolding upd_vmdk_def by (rule same_image_virt; simp add: same_image_def)+

lemma out_kept_output:
  assumes "out_kept (x_output g) c g'"
  shows "out_virtual_image_path (x_output g') = out_virtual_image_path (x_output g)"
    "mem_files_ok (x_output g') = mem_files_ok (x_output g)"
    "mem_sizes_ok (x_output g') = mem_sizes_ok (x_output g)"
    "vm_virtual_vmdk_path (out_vmdk (x_output g')) = vm_virtual_vmdk_path (out_vmdk (x_output g))"
    "handles_ok (x_output g') hs = handles_ok (x_output g) hs"
    "out_writable (x_output g') = out_writable (x_output g)"
    "(ca_h_cache_file (x_cache g') \<noteq> None) = c"
  using assms by (auto simp: out_kept_def mem_files_ok_def mem_sizes_ok_def handles_ok_def)

lemma session_inv_kept:
  assumes "session_inv s d" "virt_inv g' d"
    and "out_kept (x_output (se_g s)) (ca_h_cache_file (x_cache (se_g s)) \<noteq> None) g'"
  shows "session_inv \<lparr>se_g = g', se_open = se_open s\<rparr> d"
  using assms out_kept_output [OF assms(3)] by (simp add: session_inv_def)

lemma session_inv_vmdk:
  assumes "session_inv s d" "mem_files_ok (x_output (upd_vmdk f (se_g s)))"
  shows "session_inv \<lparr>se_g = upd_vmdk f (se_g s), se_open = se_open s\<rparr> d"
  using assms by (simp add: session_inv_def handles_ok_def)

section \<open>Each operation\<close>

definition step_ok :: "session \<Rightarrow> bytes \<Rightarrow> fuse_op \<Rightarrow> fuse_reply \<Rightarrow> xmount_data \<Rightarrow> bool" where
  "step_ok s d op r g' \<longleftrightarrow>
     session_inv \<lparr>se_g = g', se_open = kernel_open op r (se_open s)\<rparr> d \<and>
     out_virtual_image_path (x_output g') = out_virtual_image_path (x_output (se_g s)) \<and>
     out_writable (x_output g') = out_writable (x_output (se_g s)) \<and>
     vm_virtual_vmdk_path (out_vmdk (x_output g')) = vm_virtual_vmdk_path (out_vmdk (x_output (se_g s))) \<and>
     (mem_sizes_ok (x_output (se_g s)) \<and> \<not> op_truncates (x_output (se_g s)) op \<longrightarrow> mem_sizes_ok (x_output g')) \<and>
     disk_step (out_virtual_image_path (x_output (se_g s))) (virt_contents (se_g s) d) op r
       (virt_contents g' d)"

lemma step_ok_getattr:
  assumes inv: "session_inv s d" and x: "fuse_exec e (OpGetAttr p) (se_g s) = Some (r, g')"
  shows "step_ok s d (OpGetAttr p) r g'"
proof -
  let ?g = "se_g s"
  note v = session_invD [OF inv]
  have root: "out_virtual_image_path (x_output ?g) \<noteq> ''/''" using v(2) by (simp add: mem_files_ok_def Let_def)
  have size: "GetVirtImageSize ?g = (1, length (virt_contents ?g d), set_size (length (virt_contents ?g d)) ?g)"
    by (rule GetVirtImageSize_ok [OF v(1)])
  have "length (virt_contents ?g d) < 2 ^ 53"
    using length_virt_contents [OF v(1)] virt_invD(3,4) [OF v(1)] header_size_less by fastforce
  then have i64: "int64 (length (virt_contents ?g d)) = int (length (virt_contents ?g d))"
    by (intro int64_small) simp
  have kept: "session_inv \<lparr>se_g = set_size (length (virt_contents ?g d)) ?g, se_open = se_open s\<rparr> d"
    by (rule session_inv_kept [OF inv set_size_inv [OF v(1) refl]])
      (rule GetVirtImageSize_kept [OF size out_kept_self])
  have path: "out_virtual_image_path (x_output (set_size n g)) = out_virtual_image_path (x_output g)"
    "out_writable (x_output (set_size n g)) = out_writable (x_output g)"
    "out_vmdk (x_output (set_size n g)) = out_vmdk (x_output g)"
    "mem_sizes_ok (x_output (set_size n g)) = mem_sizes_ok (x_output g)" for n g
    by (simp_all add: set_size_def mem_sizes_ok_def)
  show ?thesis
  proof (cases "p = out_virtual_image_path (x_output ?g)")
    case True
    then show ?thesis
      using x kept root by (auto simp: FuseGetAttr_def size step_ok_def path st_file_def i64 Let_def)
  next
    case False
    then have "\<exists>ret st. r = ReStat ret st \<and> g' = ?g"
      using x by (auto simp: FuseGetAttr_def Let_def split: if_splits option.splits)
    then show ?thesis using inv False by (auto simp: step_ok_def)
  qed
qed

lemma handles_ok_simps [simp]:
  "handles_ok od ((p, fl) # hs) \<longleftrightarrow> (fl mod 4 \<noteq> 0 \<longrightarrow> out_writable od) \<and>
     (is_vmdk (out_VirtImageType od) \<or> p = out_virtual_image_path od \<or> p = out_info_path od) \<and>
     handles_ok od hs"
  by (simp add: handles_ok_def)

lemma handles_ok_remove: "handles_ok od hs \<Longrightarrow> handles_ok od (remove1 h hs)"
  using set_remove1_subset [of h hs] by (auto simp: handles_ok_def)

lemma handles_ok_rename:
  assumes "handles_ok od hs" "is_vmdk (out_VirtImageType od)"
  shows "handles_ok od (map (\<lambda>(r, fl). (if r = p then q else r, fl)) hs)"
  using assms by (auto simp: handles_ok_def)

lemma step_ok_same:
  assumes "session_inv s d" "g' = se_g s"
    and "handles_ok (x_output (se_g s)) (kernel_open op r (se_open s))"
    and "disk_step (out_virtual_image_path (x_output (se_g s))) (virt_contents (se_g s) d) op r
      (virt_contents (se_g s) d)"
  shows "step_ok s d op r g'"
  using assms by (simp add: step_ok_def session_inv_def)

lemma step_ok_open:
  assumes inv: "session_inv s d" and x: "fuse_exec e (OpOpen p fl) (se_g s) = Some (r, g')"
  shows "step_ok s d (OpOpen p fl) r g'"
proof (rule step_ok_same [OF inv])
  let ?od = "x_output (se_g s)"
  obtain ret where r: "FuseOpen p fl (se_g s) = Some ret" "r = ReInt ret" and g: "g' = se_g s"
    using x by auto
  show "g' = se_g s" by (rule g)
  have "ret = 0 \<Longrightarrow> (fl mod 4 \<noteq> 0 \<longrightarrow> out_writable ?od) \<and>
      (is_vmdk (out_VirtImageType ?od) \<or> p = out_virtual_image_path ?od \<or> p = out_info_path ?od)"
    using r(1) by (auto simp: FuseOpen_def CHECK_OPEN_PERMS_def Let_def split: if_splits option.splits)
  then show "handles_ok ?od (kernel_open (OpOpen p fl) r (se_open s))"
    using session_invD(4) [OF inv] by (simp add: r(2))
qed simp

lemma step_ok_read:
  assumes inv: "session_inv s d" and en: "fuse_enabled s (OpRead p n off)"
    and x: "fuse_exec e (OpRead p n off) (se_g s) = Some (r, g')"
  shows "step_ok s d (OpRead p n off) r g'"
proof (cases "p = out_virtual_image_path (x_output (se_g s))")
  case True
  note v = session_invD [OF inv]
  have n: "0 < n" "n < 2147483648" using en by auto
  obtain g1 where g1: "GetVirtImageData (se_g s) off n =
      Some (int (length (segment off n (virt_contents (se_g s) d))), segment off n (virt_contents (se_g s) d), g1)"
    "virt_inv g1 d" "virt_contents g1 d = virt_contents (se_g s) d"
    using GetVirtImageData_contents [OF v(1) n] by blast
  have k: "out_kept (x_output (se_g s)) (ca_h_cache_file (x_cache (se_g s)) \<noteq> None) g1"
    by (rule GetVirtImageData_kept [OF g1(1) out_kept_self])
  have "r = ReData (int (length (segment off n (virt_contents (se_g s) d))))
      (segment off n (virt_contents (se_g s) d))" "g' = g1"
    using x True g1(1) by (auto simp: FuseRead_def Let_def)
  then show ?thesis
    using session_inv_kept [OF inv g1(2) k] out_kept_output(1,3,4,6) [OF k] g1(3) by (simp add: step_ok_def)
next
  case False
  then have "\<exists>ret b. r = ReData ret b \<and> g' = se_g s"
    using x by (auto simp: FuseRead_def Let_def split: if_splits option.splits)
  then show ?thesis using inv False by (auto simp: step_ok_def)
qed

lemma step_ok_vmdk:
  assumes "session_inv s d" "g' = upd_vmdk f (se_g s)"
    and "mem_files_ok ((x_output (se_g s))\<lparr>out_vmdk := f (out_vmdk (x_output (se_g s)))\<rparr>)"
    and "vm_virtual_vmdk_path (f (out_vmdk (x_output (se_g s)))) = vm_virtual_vmdk_path (out_vmdk (x_output (se_g s)))"
    and "mem_sizes_ok (x_output (se_g s)) \<and> \<not> op_truncates (x_output (se_g s)) op \<Longrightarrow>
      mem_sizes_ok ((x_output (se_g s))\<lparr>out_vmdk := f (out_vmdk (x_output (se_g s)))\<rparr>)"
    and "kernel_open op r (se_open s) = se_open s"
    and "disk_step (out_virtual_image_path (x_output (se_g s))) (virt_contents (se_g s) d) op r
      (virt_contents (se_g s) d)"
  shows "step_ok s d op r g'"
  using assms session_inv_vmdk [OF assms(1), of f] by (simp add: step_ok_def)

lemma step_ok_dirs:
  assumes inv: "session_inv s d"
  shows "fuse_exec e (OpMkDir p) (se_g s) = Some (r, g') \<Longrightarrow> step_ok s d (OpMkDir p) r g'"
    and "fuse_exec e (OpMkNod p) (se_g s) = Some (r, g') \<Longrightarrow> step_ok s d (OpMkNod p) r g'"
    and "fuse_exec e (OpReadDir p) (se_g s) = Some (r, g') \<Longrightarrow> step_ok s d (OpReadDir p) r g'"
    and "fuse_exec e (OpRmDir p) (se_g s) = Some (r, g') \<Longrightarrow> step_ok s d (OpRmDir p) r g'"
    and "fuse_exec e (OpUnlink p) (se_g s) = Some (r, g') \<Longrightarrow> step_ok s d (OpUnlink p) r g'"
    and "fuse_exec e (OpRelease p fl) (se_g s) = Some (r, g') \<Longrightarrow> step_ok s d (OpRelease p fl) r g'"
  using session_invD(2,4) [OF inv]
  by (auto simp: FuseMkDir_def FuseMkNod_def FuseReadDir_def FuseRmDir_def FuseUnlink_def Let_def
      mem_files_ok_def mem_sizes_ok_def handles_ok_remove
      intro: step_ok_same [OF inv] step_ok_vmdk [OF inv]
      split: if_splits option.splits)


lemma FuseRename_cases:
  obtains "fst (FuseRename p q g) = 0" "snd (FuseRename p q g) = upd_vmdk (\<lambda>v. v\<lparr>vm_lockfile_name := Some q\<rparr>) g"
    "is_vmdk (out_VirtImageType (x_output g))"
  | "fst (FuseRename p q g) = -2" "snd (FuseRename p q g) = g"
proof (cases "is_vmdk (out_VirtImageType (x_output g)) \<and> vm_lockfile_name (out_vmdk (x_output g)) = Some p")
  case True
  then show ?thesis using that(1) by (simp only: FuseRename_def if_True fst_conv snd_conv refl simp_thms)
next
  case False
  then show ?thesis using that(2) unfolding FuseRename_def by (simp only: if_False fst_conv snd_conv errno_values refl simp_thms)
qed

lemma step_ok_rename:
  assumes inv: "session_inv s d" and x: "fuse_exec e (OpRename p q) (se_g s) = Some (r, g')"
  shows "step_ok s d (OpRename p q) r g'"
proof -
  note v = session_invD [OF inv]
  have rg: "r = ReInt (fst (FuseRename p q (se_g s)))" "g' = snd (FuseRename p q (se_g s))" using x by auto
  show ?thesis
  proof (cases rule: FuseRename_cases [of p q "se_g s"])
    case 1
    have "mem_files_ok (x_output g')" using v(2) by (simp add: rg 1 mem_files_ok_def Let_def)
    moreover have "mem_sizes_ok (x_output (se_g s)) \<longrightarrow> mem_sizes_ok (x_output g')"
      by (simp add: rg 1 mem_sizes_ok_def Let_def)
    moreover have "handles_ok (x_output g') (kernel_open (OpRename p q) r (se_open s))"
      using handles_ok_rename [OF v(4) 1(3), of p q] by (simp add: rg 1 handles_ok_def)
    ultimately show ?thesis using v(1,3) by (simp add: step_ok_def session_inv_def rg 1)
  next
    case 2
    then show ?thesis using v(4) by (intro step_ok_same [OF inv]) (simp_all add: rg)
  qed
qed

text \<open>Writes to the files in memory, while the sizes fit: the buffer keeps its recorded size.\<close>

lemma write_mem_file_small:
  assumes "fsize = int (length buf)" "length buf < 2147483648" "off + length b < 2147483648"
  shows "write_mem_file fresh buf fsize (off + length b) b off =
    Some (overwrite off b (buf @ map fresh [length buf..<off + length b]), int (max (length buf) (off + length b)))"
proof -
  have u: "u64 (off + length b) = off + length b" "u64_of_int fsize = length buf"
    "int_of_size (off + length b) = int (off + length b)"
    using assms by (simp_all add: u64_small u64_of_int_small int_of_size_small)
  have old: "(if fsize = 0 then [] else buf) = buf" using assms(1) by simp
  show ?thesis
    unfolding write_mem_file_def Let_def u old
    using assms by (cases "length buf < off + length b") (simp_all add: max_def)
qed

text \<open>Larger ends: the lock file overflows its buffer or ends the program, the VMDK file gets
  a negative or too small size.\<close>

lemma write_lock_file_large:
  assumes "vm_lockfile_size vm = int (length (vm_lockfile_data vm))" "length (vm_lockfile_data vm) < 2147483648"
    and "2147483648 \<le> off + length b" "off + length b < 2 ^ 63"
  shows "write_lock_file fresh b off vm = None"
proof -
  let ?n = "off + length b" and ?buf = "vm_lockfile_data vm"
  define alloc where "alloc = u64_of_int (int_of_size ?n)"
  have u: "u64 ?n = ?n" "u64_of_int (vm_lockfile_size vm) = length ?buf"
    using assms by (simp_all add: u64_small u64_of_int_small)
  have alloc: "alloc < 2147483648 \<or> 2 ^ 63 \<le> alloc"
  proof (cases "int_of_size ?n < 0")
    case True
    have "(int_of_size ?n + 18446744073709551616) mod 18446744073709551616 = int_of_size ?n + 18446744073709551616"
      using True int_of_size_range(1) [of ?n] by (intro mod_pos_pos_trivial) simp_all
    then have "int_of_size ?n mod 18446744073709551616 = int_of_size ?n + 18446744073709551616" by simp
    then show ?thesis
      using int_of_size_range(1) [of ?n] by (simp add: alloc_def u64_of_int_def le_nat_iff)
  next
    case False
    then obtain m where m: "int_of_size ?n = int m" by (metis nonneg_int_cases not_less)
    then have "m < 2147483648" using int_of_size_range(2) [of ?n] by linarith
    then show ?thesis by (simp add: alloc_def m u64_of_int_small)
  qed
  have grow: "length ?buf < ?n" using assms by linarith
  have "write_mem_file fresh ?buf (vm_lockfile_size vm) alloc b off = None"
    unfolding write_mem_file_def Let_def u using grow alloc assms(3) by auto
  then show ?thesis by (simp add: write_lock_file_def u alloc_def)
qed

lemma write_vmdk_file_large:
  assumes "vm_vmdk_file_size vm = int (length (vm_vmdk_file vm))" "length (vm_vmdk_file vm) < 2147483648"
    and "2147483648 \<le> off + length b" "off + length b < 2 ^ 63"
  shows "\<exists>buf. write_vmdk_file fresh b off vm =
      Some (vm\<lparr>vm_vmdk_file := buf, vm_vmdk_file_size := int_of_size (off + length b)\<rparr>) \<and>
    length buf = off + length b \<and> segment off (length b) buf = b"
proof -
  let ?n = "off + length b" and ?buf = "vm_vmdk_file vm"
  have u: "u64 ?n = ?n" "u64_of_int (vm_vmdk_file_size vm) = length ?buf"
    using assms by (simp_all add: u64_small u64_of_int_small)
  have old: "(if vm_vmdk_file_size vm = 0 then [] else ?buf) = ?buf" using assms(1) by simp
  have grow: "length ?buf < ?n" using assms by linarith
  define grown where "grown = take ?n ?buf @ map fresh [length ?buf..<?n]"
  have g: "length grown = ?n" using grow by (simp add: grown_def)
  have "write_mem_file fresh ?buf (vm_vmdk_file_size vm) ?n b off = Some (overwrite off b grown, int_of_size ?n)"
    unfolding write_mem_file_def Let_def u old grown_def [symmetric] using grow assms(4) g by simp
  then show ?thesis
    using g by (intro exI [of _ "overwrite off b grown"]) (simp add: write_vmdk_file_def u segment_overwrite_same)
qed

text \<open>What a write to these files changes.\<close>

lemma write_files_frame:
  assumes "write_vmdk_file fresh b off vm = Some vm' \<or> write_lock_file fresh b off vm = Some vm'"
  shows "vm_virtual_vmdk_path vm' = vm_virtual_vmdk_path vm"
  using assms by (auto simp: write_vmdk_file_def write_lock_file_def split: option.splits)

lemma write_vmdk_file_sizes:
  assumes "mem_sizes_ok od" "off + length b < 2147483648"
  shows "\<exists>vm. write_vmdk_file fresh b off (out_vmdk od) = Some vm \<and> mem_sizes_ok (od\<lparr>out_vmdk := vm\<rparr>)"
  using assms write_mem_file_small [of "vm_vmdk_file_size (out_vmdk od)" "vm_vmdk_file (out_vmdk od)" off b fresh]
  by (auto simp: write_vmdk_file_def mem_sizes_ok_def u64_small Let_def)

lemma write_lock_file_sizes:
  assumes "mem_sizes_ok od" "off + length b < 2147483648"
  shows "\<exists>vm. write_lock_file fresh b off (out_vmdk od) = Some vm \<and> mem_sizes_ok (od\<lparr>out_vmdk := vm\<rparr>)"
proof -
  have alloc: "u64_of_int (int_of_size (u64 (off + length b))) = off + length b"
    using assms(2) by (simp only: u64_small int_of_size_small u64_of_int_small)
  show ?thesis
    using assms write_mem_file_small [of "vm_lockfile_size (out_vmdk od)" "vm_lockfile_data (out_vmdk od)" off b fresh]
    unfolding write_lock_file_def alloc by (auto simp: mem_sizes_ok_def Let_def)
qed

lemma FuseWrite_image_post:
  assumes inv: "virt_inv g d" and f: "ca_h_cache_file (x_cache g) = Some f"
    and b: "b \<noteq> []" "length b < 2147483648" "off < length (virt_contents g d)"
  defines "w \<equiv> take (length (virt_contents g d) - off) b"
  shows "\<exists>ret g'. FuseWrite_image b off g = Some (ret, g') \<and> virt_inv g' d \<and>
    out_kept (x_output g) True g' \<and>
    (ret = int (length w) \<and> virt_contents g' d = overwrite off w (virt_contents g d) \<or>
     ret = 0 \<and> (\<exists>j \<le> length w. virt_contents g' d = overwrite off (take j w) (virt_contents g d)))"
proof -
  let ?L = "length (virt_contents g d)"
  define g1 where "g1 = set_size ?L g"
  have "?L < 2 ^ 53"
    using length_virt_contents [OF inv] virt_invD(3,4) [OF inv] header_size_less by fastforce
  then have u: "u64 (off + length b) = off + length b" using b by (intro u64_small) simp
  have data: "(if off + length b > ?L then take (?L - off) b else b) = w" by (auto simp: w_def)
  have i1: "virt_inv g1 d" "ca_h_cache_file (x_cache g1) = Some f" "virt_contents g1 d = virt_contents g d"
    using set_size_inv [OF inv refl] f by (simp_all add: g1_def)
  have k1: "out_kept (x_output g) True g1"
    using GetVirtImageSize_kept [OF GetVirtImageSize_ok [OF inv] out_kept_self] f by (simp add: g1_def)
  have w: "w \<noteq> []" "length w < 2147483648" "off + length w \<le> length (virt_contents g1 d)"
    using b i1(3) by (auto simp: w_def)
  obtain ret g2 where s: "SetVirtImageData g1 w off = Some (ret, g2)" "write_post g1 d off w ret g2"
    "cache_open (x_output g1) g2"
    by (rule SetVirtImageData_fits [OF i1(1,2) w])
  have k2: "out_kept (x_output g) True g2"
    using s(3) k1 by (auto simp: out_kept_def cache_open_def)
  have x: "FuseWrite_image b off g =
      Some (if nat (ret mod 18446744073709551616) \<noteq> length w then 0 else int_of_size (length w), g2)"
    using b(3) s(1) unfolding FuseWrite_image_def GetVirtImageSize_ok [OF inv] prod.case g1_def [symmetric] u Let_def data
    by simp
  have lw: "0 < length w" "int_of_size (length w) = int (length w)"
    using w(1,2) by (simp_all add: int_of_size_small)
  from write_postD(2) [OF s(2)] show ?thesis
  proof
    assume r: "ret = -1"
    then have "nat (ret mod 18446744073709551616) \<noteq> length w" using w(2) by simp
    then show ?thesis using x write_postD(1,4) [OF s(2)] k2 i1(3) by auto
  next
    assume r: "ret = int (length w)"
    then have "ret \<noteq> -1" "nat (ret mod 18446744073709551616) = length w" using w(2) by simp_all
    then show ?thesis using x write_postD(1,3) [OF s(2)] k2 i1(3) lw by simp
  qed
qed

lemma step_ok_write:
  assumes inv: "session_inv s d" and en: "fuse_enabled s (OpWrite p b off)"
    and x: "fuse_exec e (OpWrite p b off) (se_g s) = Some (r, g')"
  shows "step_ok s d (OpWrite p b off) r g'"
proof -
  let ?g = "se_g s" and ?od = "x_output (se_g s)"
  note v = session_invD [OF inv]
  obtain f where f: "ca_h_cache_file (x_cache ?g) = Some f"
  proof -
    obtain fl where "(p, fl) \<in> set (se_open s)" "fl mod 4 \<noteq> 0" using en by auto
    then have "out_writable ?od" using v(4) unfolding handles_ok_def by blast
    then show ?thesis using v(3) that by blast
  qed
  show ?thesis
  proof (cases "p = out_virtual_image_path ?od")
    case False
    show ?thesis
    proof (cases "g' = ?g")
      case True
      then have "\<exists>ret. r = ReInt ret" using x by auto
      then show ?thesis using True False v(4) by (intro step_ok_same [OF inv]) auto
    next
      case ne: False
      obtain vpath where vp: "vm_virtual_vmdk_path (out_vmdk ?od) = Some vpath" and
        cases: "vpath = p \<or> vm_lockfile_name (out_vmdk ?od) = Some p"
        using x False ne by (auto simp: FuseWrite_def Let_def split: if_splits option.splits)
      obtain ret vm where rg: "r = ReInt ret" "g' = upd_vmdk (\<lambda>v. vm) ?g" and
        vm: "if vpath = p then write_vmdk_file (fe_fresh e) b off (out_vmdk ?od) = Some vm
          else write_lock_file (fe_fresh e) b off (out_vmdk ?od) = Some vm"
        using x False ne vp cases by (auto simp: FuseWrite_def Let_def split: if_splits option.splits)
      have path: "vm_virtual_vmdk_path vm = Some vpath"
        using write_files_frame [of "fe_fresh e" b off "out_vmdk ?od" vm] vm vp by (auto split: if_splits)
      have sizes: "mem_sizes_ok (?od\<lparr>out_vmdk := vm\<rparr>)"
        if "mem_sizes_ok ?od \<and> \<not> op_truncates ?od (OpWrite p b off)"
      proof (cases "vpath = p")
        case True
        then show ?thesis
          using that False vp vm write_vmdk_file_sizes [of ?od off b "fe_fresh e"] by auto
      next
        case lock: False
        have "off + length b < 2147483648"
        proof (rule ccontr)
          assume "\<not> off + length b < 2147483648"
          then show False
            using write_lock_file_large [of "out_vmdk ?od" off b "fe_fresh e"] that vm lock en
            by (simp add: mem_sizes_ok_def Let_def)
        qed
        then show ?thesis using that vm lock write_lock_file_sizes [of ?od off b "fe_fresh e"] by auto
      qed
      have "mem_files_ok (?od\<lparr>out_vmdk := vm\<rparr>)" using v(2) vp path by (simp add: mem_files_ok_def Let_def)
      then show ?thesis
        using False path vp sizes rg by (intro step_ok_vmdk [OF inv rg(2)]) simp_all
    qed
  next
    case True
    have w: "fuse_exec e (OpWrite p b off) ?g = map_option (\<lambda>(ret, g'). (ReInt ret, g')) (FuseWrite_image b off ?g)"
      using True by (simp add: FuseWrite_def Let_def)
    show ?thesis
    proof (cases "length (virt_contents ?g d) \<le> off")
      case behind: True
      have "FuseWrite_image b off ?g = Some (0, set_size (length (virt_contents ?g d)) ?g)"
        using behind by (simp add: FuseWrite_image_def GetVirtImageSize_ok [OF v(1)])
      then have rg: "r = ReInt 0" "g' = set_size (length (virt_contents ?g d)) ?g" using x w by auto
      have k: "out_kept ?od (ca_h_cache_file (x_cache ?g) \<noteq> None) g'"
        using GetVirtImageSize_kept [OF GetVirtImageSize_ok [OF v(1)] out_kept_self] rg(2) by simp
      show ?thesis
        using session_inv_kept [OF inv _ k] set_size_inv [OF v(1) refl] out_kept_output(1,3,4,6) [OF k] behind True rg
        by (simp add: step_ok_def)
    next
      case inside: False
      then obtain ret g1 where g1: "FuseWrite_image b off ?g = Some (ret, g1)" "virt_inv g1 d"
        "out_kept ?od True g1"
        and post: "ret = int (length (take (length (virt_contents ?g d) - off) b)) \<and>
            virt_contents g1 d = overwrite off (take (length (virt_contents ?g d) - off) b) (virt_contents ?g d) \<or>
          ret = 0 \<and> (\<exists>j \<le> length (take (length (virt_contents ?g d) - off) b). virt_contents g1 d =
            overwrite off (take j (take (length (virt_contents ?g d) - off) b)) (virt_contents ?g d))"
        using FuseWrite_image_post [OF v(1) f, of b off] en by auto
      have rg: "r = ReInt ret" "g' = g1" using x w g1(1) by auto
      show ?thesis
        using session_inv_kept [OF inv g1(2)] g1(3) f out_kept_output(1,3,4,6) [OF g1(3)] inside True post rg
        unfolding step_ok_def by (simp add: Let_def)
    qed
  qed
qed

lemma fuse_exec_ok:
  assumes inv: "session_inv s d" and en: "fuse_enabled s op" and x: "fuse_exec e op (se_g s) = Some (r, g')"
  shows "step_ok s d op r g'"
  using inv en x
  by (cases op) (auto intro: step_ok_getattr step_ok_open step_ok_read step_ok_dirs step_ok_rename
      step_ok_write simp del: fuse_exec.simps fuse_enabled.simps)

lemma fuse_run_refines:
  assumes "fuse_run s tr s'" "session_inv s d"
  shows "session_inv s' d \<and>
    out_virtual_image_path (x_output (se_g s')) = out_virtual_image_path (x_output (se_g s)) \<and>
    disk_run (out_virtual_image_path (x_output (se_g s))) (virt_contents (se_g s) d) tr
      (virt_contents (se_g s') d)"
  using assms
proof (induction rule: fuse_run.induct)
  case (run_nil s)
  then show ?case by (simp add: disk_nil)
next
  case (run_cons s op r s' tr s'')
  then obtain e g' where st: "fuse_enabled s op" "fuse_exec e op (se_g s) = Some (r, g')"
    "s' = \<lparr>se_g = g', se_open = kernel_open op r (se_open s)\<rparr>"
    by (auto elim: fuse_stepE)
  then have "step_ok s d op r g'" using fuse_exec_ok [OF run_cons.prems] by blast
  then show ?case using run_cons.IH st(3) by (auto simp: step_ok_def intro: disk_cons)
qed


section \<open>Progress\<close>

text \<open>The three operations that are not defined: a write to the info file of an output that is
  not VMDK (its path is compared with a descriptor path that is \<open>NULL\<close>), a write to the lock
  file that ends at 2 GiB or later (\<open>write_lock_file_large\<close>), and a listing of the lock
  directory while the path of the lock file is not longer than that of the directory.\<close>

fun op_undefined :: "output_data \<Rightarrow> fuse_op \<Rightarrow> bool" where
  "op_undefined od (OpWrite p b off) \<longleftrightarrow> p \<noteq> out_virtual_image_path od \<and>
     (\<not> is_vmdk (out_VirtImageType od) \<or>
      vm_virtual_vmdk_path (out_vmdk od) \<noteq> Some p \<and> vm_lockfile_name (out_vmdk od) = Some p \<and>
      2147483648 \<le> off + length b)"
| "op_undefined od (OpReadDir p) \<longleftrightarrow>
     p \<noteq> ''/'' \<and> is_vmdk (out_VirtImageType od) \<and> vm_lockdir1 (out_vmdk od) = Some p \<and>
     (\<exists>f. vm_lockfile_name (out_vmdk od) = Some f \<and> length f \<le> length p)"
| "op_undefined od _ \<longleftrightarrow> False"

lemma read_mem_file_defined:
  assumes "length buf = len" "0 < n" "n < 2147483648" "off < 2 ^ 63"
  shows "read_mem_file buf len n off = Some (int (length (segment off n buf)), segment off n buf)"
proof (cases "off < len")
  case False
  then show ?thesis using assms(1) by (simp add: read_mem_file_def segment_def)
next
  case True
  define sz where "sz = (if off + n > len then len - off else n)"
  have u: "u64 (off + n) = off + n" using assms(3,4) by (intro u64_small) simp
  have "sz = min n (length buf - off)" using True assms(1) by (auto simp: sz_def)
  moreover from this have "off + sz \<le> length buf" "sz < 2147483648" using True assms(1,3) by simp_all
  ultimately show ?thesis
    using True segment_clip [of off n buf]
    by (simp add: read_mem_file_def u Let_def sz_def [symmetric] int_of_size_small)
qed

text \<open>Writes to the files in memory return.\<close>

lemma write_files_defined:
  assumes "mem_sizes_ok od" "off + length b < 2 ^ 63"
  shows "write_vmdk_file fresh b off (out_vmdk od) \<noteq> None"
    and "off + length b < 2147483648 \<Longrightarrow> write_lock_file fresh b off (out_vmdk od) \<noteq> None"
  using assms write_vmdk_file_sizes [of od off b fresh] write_lock_file_sizes [of od off b fresh]
    write_vmdk_file_large [of "out_vmdk od" off b fresh]
  by (cases "off + length b < 2147483648"; force simp: mem_sizes_ok_def Let_def)+

lemma FuseWrite_image_defined:
  assumes "virt_inv g d" "ca_h_cache_file (x_cache g) = Some f" "b \<noteq> []" "length b < 2147483648"
  shows "FuseWrite_image b off g \<noteq> None"
proof (cases "off < length (virt_contents g d)")
  case True
  then show ?thesis using FuseWrite_image_post [OF assms True] by auto
next
  case False
  then show ?thesis by (simp add: FuseWrite_image_def GetVirtImageSize_ok [OF assms(1)])
qed

lemma session_writable:
  assumes "session_inv s d" "(p, fl) \<in> set (se_open s)" "fl mod 4 \<noteq> 0"
  obtains f where "ca_h_cache_file (x_cache (se_g s)) = Some f" "out_writable (x_output (se_g s))"
proof -
  have "out_writable (x_output (se_g s))"
    using session_invD(4) [OF assms(1)] assms(2,3) unfolding handles_ok_def by blast
  then show ?thesis using session_invD(3) [OF assms(1)] that by blast
qed

lemma session_paths:
  assumes "session_inv s d" "(p, fl) \<in> set (se_open s)"
  shows "is_vmdk (out_VirtImageType (x_output (se_g s))) \<or>
    p = out_virtual_image_path (x_output (se_g s)) \<or> p = out_info_path (x_output (se_g s))"
  using session_invD(4) [OF assms(1)] assms(2) unfolding handles_ok_def by blast

lemma FuseRead_defined:
  assumes inv: "session_inv s d" and sizes: "mem_sizes_ok (x_output (se_g s))"
    and en: "fuse_enabled s (OpRead p n off)"
  shows "FuseRead p n off (se_g s) \<noteq> None"
proof -
  obtain fl where h: "(p, fl) \<in> set (se_open s)" and n: "0 < n" "n < 2147483648" "off < 2 ^ 63"
    using en by auto
  have "length (string_bytes t) = length t" for t by (simp add: string_bytes_def)
  then show ?thesis
    using session_invD(2) [OF inv] session_paths [OF inv h]
      GetVirtImageData_contents [OF session_invD(1) [OF inv] n(1,2), of off] n sizes
    by (auto simp: FuseRead_def Let_def mem_files_ok_def mem_sizes_ok_def read_mem_file_defined u64_of_int_small
        split: option.splits)
qed

lemma FuseWrite_defined:
  assumes inv: "session_inv s d" and sizes: "mem_sizes_ok (x_output (se_g s))"
    and en: "fuse_enabled s (OpWrite p b off)"
    and ok: "\<not> op_undefined (x_output (se_g s)) (OpWrite p b off)"
  shows "FuseWrite fresh p b off (se_g s) \<noteq> None"
proof -
  obtain fl where h: "(p, fl) \<in> set (se_open s)" "fl mod 4 \<noteq> 0"
    and b: "b \<noteq> []" "length b < 2147483648" "off + length b < 2 ^ 63"
    using en by auto
  obtain f where f: "ca_h_cache_file (x_cache (se_g s)) = Some f"
    by (rule session_writable [OF inv h])
  show ?thesis
    using session_invD(2) [OF inv] ok FuseWrite_image_defined [OF session_invD(1) [OF inv] f b(1,2), of off]
      write_files_defined [OF sizes b(3), of fresh]
    by (auto simp: FuseWrite_def Let_def mem_files_ok_def split: option.splits)
qed

lemma fuse_exec_defined:
  assumes inv: "session_inv s d" and sizes: "mem_sizes_ok (x_output (se_g s))" and en: "fuse_enabled s op"
    and ok: "\<not> op_undefined (x_output (se_g s)) op"
  shows "fuse_exec e op (se_g s) \<noteq> None"
proof (cases op)
  case (OpRead p n off)
  then show ?thesis using FuseRead_defined [OF inv sizes, of p n off] en by simp
next
  case (OpWrite p b off)
  then show ?thesis using FuseWrite_defined [OF inv sizes, of p b off] en ok by simp
next
  case (OpGetAttr p)
  then show ?thesis
    using session_invD(2) [OF inv]
    by (auto simp: FuseGetAttr_def FuseGetAttr_vmdk_def mem_files_ok_def Let_def
        split: option.splits prod.splits)
next
  case (OpReadDir p)
  then show ?thesis
    using session_invD(2) [OF inv] ok
    by (auto simp: FuseReadDir_def FuseReadDir_root_def mem_files_ok_def Let_def split: option.splits)
next
  case (OpMkDir p)
  then show ?thesis
    using session_invD(2) [OF inv]
    by (auto simp: FuseMkDir_def mem_files_ok_def Let_def split: option.splits)
next
  case (OpOpen p fl)
  then show ?thesis
    using session_invD(2) [OF inv]
    by (auto simp: FuseOpen_def mem_files_ok_def Let_def split: option.splits)
qed simp_all

lemma fuse_progress:
  assumes "session_inv s d" "mem_sizes_ok (x_output (se_g s))" "fuse_enabled s op"
    and "\<not> op_undefined (x_output (se_g s)) op"
  shows "\<exists>r s'. fuse_step s op r s'"
  proof -
  obtain e :: fuse_env and r g' where "fuse_exec e op (se_g s) = Some (r, g')"
    using fuse_exec_defined [OF assms] by fastforce
  then show ?thesis using fuse_step.intros [OF assms(3)] by blast
qed

text \<open>A session without writes behind 2 GiB to the VMDK file keeps the sizes.\<close>

lemma op_truncates_paths:
  assumes "out_virtual_image_path od' = out_virtual_image_path od"
    and "vm_virtual_vmdk_path (out_vmdk od') = vm_virtual_vmdk_path (out_vmdk od)"
  shows "op_truncates od' op = op_truncates od op"
  using assms by (cases "(od, op)" rule: op_truncates.cases) simp_all

lemma fuse_run_sizes:
  assumes "fuse_run s tr s'" "session_inv s d" "mem_sizes_ok (x_output (se_g s))"
    and "\<forall>(op, r) \<in> set tr. \<not> op_truncates (x_output (se_g s)) op"
  shows "mem_sizes_ok (x_output (se_g s'))"
  using assms
proof (induction rule: fuse_run.induct)
  case (run_cons s op r s' tr s'')
  then obtain e g' where st: "fuse_enabled s op" "fuse_exec e op (se_g s) = Some (r, g')"
    "s' = \<lparr>se_g = g', se_open = kernel_open op r (se_open s)\<rparr>"
    by (auto elim: fuse_stepE)
  then have ok: "step_ok s d op r g'" using fuse_exec_ok [OF run_cons.prems(1)] by blast
  then have t: "op_truncates (x_output (se_g s')) o' = op_truncates (x_output (se_g s)) o'" for o'
    using st(3) by (intro op_truncates_paths) (simp_all add: step_ok_def)
  show ?case
  proof (rule run_cons.IH)
    show "session_inv s' d" "mem_sizes_ok (x_output (se_g s'))"
      using run_cons.prems ok st(3) by (auto simp: step_ok_def)
    show "\<forall>(op, r) \<in> set tr. \<not> op_truncates (x_output (se_g s')) op"
      using run_cons.prems(3) by (auto simp: t)
  qed
qed simp


section \<open>Read-only images\<close>

lemma disk_step_no_write:
  "disk_step img c op r c' \<Longrightarrow> (\<And>p b off. op \<noteq> OpWrite p b off) \<Longrightarrow> c' = c"
  by (cases "(img, c, op, r, c')" rule: disk_step.cases) auto

lemma readonly_step:
  assumes "fuse_step s op r s'" "session_inv s d" "\<not> out_writable (x_output (se_g s))"
  shows "session_inv s' d" "\<not> out_writable (x_output (se_g s'))"
    "virt_contents (se_g s') d = virt_contents (se_g s) d"
    "op \<noteq> OpWrite p b off" "op = OpOpen p fl \<Longrightarrow> fl mod 4 \<noteq> 0 \<Longrightarrow> r \<noteq> ReInt 0"
proof -
  obtain e g' where st: "fuse_enabled s op" "fuse_exec e op (se_g s) = Some (r, g')"
    "s' = \<lparr>se_g = g', se_open = kernel_open op r (se_open s)\<rparr>"
    using assms(1) by (auto elim: fuse_stepE)
  have ok: "step_ok s d op r g'" by (rule fuse_exec_ok [OF assms(2) st(1,2)])
  show inv': "session_inv s' d" "\<not> out_writable (x_output (se_g s'))"
    using ok st(3) assms(3) by (auto simp: step_ok_def)
  show w: "op \<noteq> OpWrite p b off" for p b off
  proof
    assume "op = OpWrite p b off"
    then obtain fl where "(p, fl) \<in> set (se_open s)" "fl mod 4 \<noteq> 0" using st(1) by auto
    then show False using session_writable [OF assms(2)] assms(3) by blast
  qed
  show "virt_contents (se_g s') d = virt_contents (se_g s) d"
    using ok st(3) disk_step_no_write [OF _ w] by (auto simp: step_ok_def)
  assume "op = OpOpen p fl" "fl mod 4 \<noteq> 0"
  then show "r \<noteq> ReInt 0"
    using session_invD(4) [OF inv'(1)] inv'(2) st(3) by auto
qed

lemma readonly_run:
  assumes "fuse_run s tr s'" "session_inv s d" "\<not> out_writable (x_output (se_g s))"
  shows "virt_contents (se_g s') d = virt_contents (se_g s) d \<and>
    (\<forall>p b off r. (OpWrite p b off, r) \<notin> set tr) \<and>
    (\<forall>p fl. fl mod 4 \<noteq> 0 \<longrightarrow> (OpOpen p fl, ReInt 0) \<notin> set tr)"
  using assms
proof (induction rule: fuse_run.induct)
  case (run_cons s op r s' tr s'')
  note st = readonly_step [OF run_cons.hyps(1) run_cons.prems]
  show ?case using run_cons.IH [OF st(1,2)] st(3-5) by auto
qed simp

section \<open>A mounted disk\<close>

definition mount_output :: "VirtImageType \<Rightarrow> bool \<Rightarrow> output_data \<Rightarrow> output_data" where
  "mount_output t w od =
     od\<lparr>out_VirtImageType := t, out_writable := w, out_virtual_image_path := ''/d.dd'',
        out_info_path := ''/d.info'', out_info_file := Some ''info'',
        out_vmdk := (out_vmdk od)\<lparr>vm_virtual_vmdk_path :=
          (if is_vmdk t then Some ''/d.vmdk'' else None)\<rparr>\<rparr>"

text \<open>The in-memory disk with its cache file, mounted as a raw image.\<close>

definition mounted :: "bool \<Rightarrow> bytes \<Rightarrow> session" where
  "mounted w d = \<lparr>se_g = upd_output (mount_output VirtImageType_DD w) (cached_disk d), se_open = []\<rparr>"

lemma mounted_ok:
  assumes "length d < 2 ^ 51"
  shows "session_inv (mounted w d) d" "virt_contents (se_g (mounted w d)) d = d"
    "out_virtual_image_path (x_output (se_g (mounted w d))) = ''/d.dd''"
    "out_info_path (x_output (se_g (mounted w d))) = ''/d.info''"
    "out_writable (x_output (se_g (mounted w d))) = w"
    "out_VirtImageType (x_output (se_g (mounted w d))) = VirtImageType_DD"
    "se_open (mounted w d) = []"
    "mem_sizes_ok (x_output (se_g (mounted w d)))"
proof -
  obtain f where c: "virt_inv (cached_disk d) d" "virt_contents (cached_disk d) d = d"
    "ca_h_cache_file (x_cache (cached_disk d)) = Some f"
    "x_output (cached_disk d) = x_output (plain_disk d)"
    using cached_disk_ok [OF assms] by blast
  have same: "same_image (x_output (cached_disk d)) (mount_output VirtImageType_DD w (x_output (cached_disk d)))"
    by (simp add: same_image_def mount_output_def c(4))
  have out: "mem_files_ok (mount_output VirtImageType_DD w (x_output (cached_disk d)))"
    by (simp add: mem_files_ok_def mount_output_def c(4) plain_disk_def mem_state_def InitResources_def is_vmdk_def)
  show "session_inv (mounted w d) d"
    using c(1,3) out same_image_virt(3) [of "cached_disk d" "mount_output VirtImageType_DD w", OF same]
    by (simp add: session_inv_def mounted_def handles_ok_def)
  show "virt_contents (se_g (mounted w d)) d = d"
    using c(2) same_image_virt(2) [of "cached_disk d" "mount_output VirtImageType_DD w", OF same]
    by (simp add: mounted_def)
  show "mem_sizes_ok (x_output (se_g (mounted w d)))"
    by (simp add: mem_sizes_ok_def mounted_def mount_output_def c(4) plain_disk_def mem_state_def InitResources_def)
qed (simp_all add: mounted_def mount_output_def)


text \<open>The same disk as a VMDK image, whose descriptor is held open for writing.\<close>

definition mounted_vmdk :: "bytes \<Rightarrow> session" where
  "mounted_vmdk d = \<lparr>se_g = upd_output (mount_output VirtImageType_VMDK True) (cached_disk d),
     se_open = [(''/d.vmdk'', 2)]\<rparr>"

lemma mounted_vmdk_ok:
  assumes "length d < 2 ^ 51"
  shows "session_inv (mounted_vmdk d) d" "mem_sizes_ok (x_output (se_g (mounted_vmdk d)))"
    "out_virtual_image_path (x_output (se_g (mounted_vmdk d))) = ''/d.dd''"
    "out_info_path (x_output (se_g (mounted_vmdk d))) = ''/d.info''"
    "vm_virtual_vmdk_path (out_vmdk (x_output (se_g (mounted_vmdk d)))) = Some ''/d.vmdk''"
    "se_open (mounted_vmdk d) = [(''/d.vmdk'', 2)]"
proof -
  obtain f where c: "virt_inv (cached_disk d) d"
    "ca_h_cache_file (x_cache (cached_disk d)) = Some f"
    "x_output (cached_disk d) = x_output (plain_disk d)"
    using cached_disk_ok [OF assms] by blast
  let ?od = "mount_output VirtImageType_VMDK True (x_output (cached_disk d))"
  have dd: "out_VirtImageType (x_output (cached_disk d)) = VirtImageType_DD"
    by (simp add: c(3) plain_disk_def mem_state_def InitResources_def)
  let ?g = "upd_output (mount_output VirtImageType_VMDK True) (cached_disk d)"
  have r: "region_at ?g x = region_at (cached_disk d) x" for x
    by (cases x) (simp_all add: dd mount_output_def)
  have "virt_inv ?g d"
    using c(1) by (simp add: virt_inv_def morphed_ok_def cache_inv_def cache_layout_def headers_ok_def
        index_data_def virt_contents_def header_contents_def disk_contents_def disk_block_def r dd mount_output_def
        del: region_at.simps)
  moreover have "mem_files_ok ?od"
    by (simp add: mem_files_ok_def mount_output_def c(3) plain_disk_def mem_state_def InitResources_def is_vmdk_def)
  moreover have "handles_ok ?od [(''/d.vmdk'', 2)]" by (simp add: handles_ok_def mount_output_def is_vmdk_def)
  ultimately show "session_inv (mounted_vmdk d) d"
    using c(2) by (simp add: session_inv_def mounted_vmdk_def)
  show "mem_sizes_ok (x_output (se_g (mounted_vmdk d)))"
    by (simp add: mem_sizes_ok_def mounted_vmdk_def mount_output_def c(3) plain_disk_def mem_state_def InitResources_def)
qed (simp_all add: mounted_vmdk_def mount_output_def is_vmdk_def)

lemma fuse_run_single: "fuse_step s op r s' \<Longrightarrow> fuse_run s [(op, r)] s'"
  by (rule run_cons [OF _ run_nil])

lemma fuse_run_append:
  "fuse_run s tr s' \<Longrightarrow> fuse_run s' tr' s'' \<Longrightarrow> fuse_run s (tr @ tr') s''"
  by (induction rule: fuse_run.induct) (auto intro: fuse_run.intros)

text \<open>A session on the mounted disk: open it for reading and writing, write a byte, read it all.\<close>

lemma mounted_open:
  "fuse_step (mounted w [1, 2, 3]) (OpOpen ''/d.dd'' fl)
     (ReInt (if \<not> w \<and> fl mod 4 \<noteq> 0 then -13 else 0))
     ((mounted w [1, 2, 3])\<lparr>se_open := (if \<not> w \<and> fl mod 4 \<noteq> 0 then [] else [(''/d.dd'', fl)])\<rparr>)"
proof -
  let ?s = "mounted w [1, 2, 3]" and ?r = "ReInt (if \<not> w \<and> fl mod 4 \<noteq> 0 then -13 else 0)"
  have m: "out_virtual_image_path (x_output (se_g ?s)) = ''/d.dd''" "out_writable (x_output (se_g ?s)) = w"
    "se_open ?s = []"
    by (rule mounted_ok; simp)+
  have "FuseOpen ''/d.dd'' fl (se_g ?s) = Some (if \<not> w \<and> fl mod 4 \<noteq> 0 then -13 else 0)"
    by (simp add: FuseOpen_def m CHECK_OPEN_PERMS_def)
  then have "fuse_exec e (OpOpen ''/d.dd'' fl) (se_g ?s) = Some (?r, se_g ?s)" for e by simp
  then have "fuse_step ?s (OpOpen ''/d.dd'' fl) ?r
      \<lparr>se_g = se_g ?s, se_open = kernel_open (OpOpen ''/d.dd'' fl) ?r (se_open ?s)\<rparr>"
    by (intro fuse_step.intros) simp
  moreover have "kernel_open (OpOpen ''/d.dd'' fl) ?r (se_open ?s) =
      (if \<not> w \<and> fl mod 4 \<noteq> 0 then [] else [(''/d.dd'', fl)])"
    using m(3) by simp
  moreover have "s\<lparr>se_open := hs\<rparr> = \<lparr>se_g = se_g s, se_open = hs\<rparr>" for s :: session and hs
    by (cases s) simp
  ultimately show ?thesis by (simp only: )
qed

section \<open>Properties\<close>

text \<open>C3: every session of the mounted file system refines the abstract disk: each read of the
  virtual image returns a segment of the disk, each write replaces the bytes it reports or fails
  after a prefix, \<open>getattr\<close> gives the length, and no operation on another file, directory or
  lock changes the disk; the invariant holds throughout.\<close>

theorem fuse_sessions_refine_disk:
  assumes "fuse_run s tr s'" "session_inv s d"
  shows "session_inv s' d \<and>
    disk_run (out_virtual_image_path (x_output (se_g s))) (virt_contents (se_g s) d) tr
      (virt_contents (se_g s') d)"
  using fuse_run_refines [OF assms] by blast

lemma fuse_sessions_refine_disk_witness:
  "\<exists>r1 r2 s'. fuse_run (mounted True [1, 2, 3])
      [(OpOpen ''/d.dd'' 2, ReInt 0), (OpWrite ''/d.dd'' [9] 1, ReInt r1), (OpRead ''/d.dd'' 8 0, r2)] s' \<and>
    (r1 = 1 \<longrightarrow> r2 = ReData 3 [1, 9, 3]) \<and> (r1 = 1 \<or> r1 = 0)"
proof -
  let ?s = "mounted True [1, 2, 3]" and ?d = "[1, 2, 3] :: bytes"
  note m = mounted_ok [of ?d True, simplified]
  obtain s1 where s1: "fuse_step ?s (OpOpen ''/d.dd'' 2) (ReInt 0) s1" "se_open s1 = [(''/d.dd'', 2)]"
    "se_g s1 = se_g ?s"
    using mounted_open [of True 2] by auto
  have i1: "session_inv s1 ?d"
    using fuse_run_refines [OF fuse_run_single [OF s1(1)] m(1)] by simp
  have z1: "mem_sizes_ok (x_output (se_g s1))" using m(8) s1(3) by simp
  obtain w s2 where s2: "fuse_step s1 (OpWrite ''/d.dd'' [9] 1) w s2"
    using fuse_progress [OF i1 z1, of "OpWrite ''/d.dd'' [9] 1"] s1 m by auto
  obtain r1 where w: "w = ReInt r1" using s2 by (auto elim!: fuse_stepE)
  have i2: "session_inv s2 ?d" "se_open s2 = [(''/d.dd'', 2)]"
    using fuse_run_refines [OF fuse_run_single [OF s2] i1] s2 s1(2) by (auto elim!: fuse_stepE)
  have z2: "mem_sizes_ok (x_output (se_g s2))"
    using fuse_run_sizes [OF fuse_run_single [OF s2] i1 z1] s1(3) m(3) by simp
  obtain r2 s3 where s3: "fuse_step s2 (OpRead ''/d.dd'' 8 0) r2 s3"
    using fuse_progress [OF i2(1) z2, of "OpRead ''/d.dd'' 8 0"] i2(2) by auto
  have run: "fuse_run ?s [(OpOpen ''/d.dd'' 2, ReInt 0), (OpWrite ''/d.dd'' [9] 1, ReInt r1),
      (OpRead ''/d.dd'' 8 0, r2)] s3"
    using s1(1) s2 s3 w by (auto intro: fuse_run.intros)
  obtain ret b where r2: "r2 = ReData ret b" using s3 by (auto elim!: fuse_stepE)
  have "disk_run ''/d.dd'' ?d [(OpOpen ''/d.dd'' 2, ReInt 0), (OpWrite ''/d.dd'' [9] 1, ReInt r1),
      (OpRead ''/d.dd'' 8 0, ReData ret b)] (virt_contents (se_g s3) ?d)"
    using fuse_sessions_refine_disk [OF run m(1)] m(2,3) r2 by simp
  then have "(r1 = 1 \<longrightarrow> ret = 3 \<and> b = [1, 9, 3]) \<and> (r1 = 1 \<or> r1 = 0)"
    by (auto elim!: disk_run.cases simp: Let_def overwrite_def segment_def)
  then show ?thesis using run r2 by blast
qed

text \<open>C16: in every session whose writes to the VMDK file stay below 2 GiB, each operation that
  the kernel may send returns and leaves a state in which the session can go on, except writes to
  the info file of an output that is not VMDK, writes behind 2 GiB to the lock file, and listings of
  the lock directory beside a short lock file.\<close>

theorem fuse_never_stuck:
  assumes "fuse_run s tr s'" "session_inv s d" "mem_sizes_ok (x_output (se_g s))"
    and "\<forall>(op, r) \<in> set tr. \<not> op_truncates (x_output (se_g s)) op"
    and "fuse_enabled s' op" "\<not> op_undefined (x_output (se_g s')) op"
  shows "\<exists>r s''. fuse_step s' op r s'' \<and> fuse_run s (tr @ [(op, r)]) s'' \<and> session_inv s'' d"
proof -
  have inv: "session_inv s' d" using fuse_run_refines [OF assms(1,2)] by simp
  obtain r s'' where st: "fuse_step s' op r s''"
    using fuse_progress [OF inv fuse_run_sizes [OF assms(1-4)] assms(5,6)] by blast
  have "fuse_run s (tr @ [(op, r)]) s''"
    by (rule fuse_run_append [OF assms(1) fuse_run_single [OF st]])
  then show ?thesis using st fuse_run_refines [OF fuse_run_single [OF st] inv] by blast
qed

lemma fuse_never_stuck_witness:
  "\<exists>r s' s''. fuse_run (mounted True [1, 2, 3]) [(OpOpen ''/d.dd'' 2, ReInt 0)] s' \<and>
     fuse_step s' (OpWrite ''/d.dd'' [9] 1) r s'' \<and> session_inv s'' [1, 2, 3]"
proof -
  note m = mounted_ok [of "[1, 2, 3]" True, simplified]
  obtain s' where s': "fuse_step (mounted True [1, 2, 3]) (OpOpen ''/d.dd'' 2) (ReInt 0) s'"
    "se_open s' = [(''/d.dd'', 2)]" "se_g s' = se_g (mounted True [1, 2, 3])"
    using mounted_open [of True 2] by auto
  have "\<not> op_undefined (x_output (se_g s')) (OpWrite ''/d.dd'' [9] 1)"
    "fuse_enabled s' (OpWrite ''/d.dd'' [9] 1)"
    using s'(2,3) m(3) by simp_all
  then show ?thesis
    using fuse_never_stuck [OF fuse_run_single [OF s'(1)] m(1,8), of "OpWrite ''/d.dd'' [9] 1"]
      fuse_run_single [OF s'(1)] by fastforce
qed

text \<open>C15: the size of the VMDK file is an \<open>int\<close>: a write that ends between 2 and 4 GiB returns
  the number of its bytes, but from then on \<open>getattr\<close> reports a negative size, and a read at the
  end of the data copies from behind the buffer.\<close>

theorem fuse_vmdk_size_wraps:
  assumes "session_inv s d" "mem_sizes_ok (x_output (se_g s))"
    and "vm_virtual_vmdk_path (out_vmdk (x_output (se_g s))) = Some p"
    and "p \<notin> {''/'', out_virtual_image_path (x_output (se_g s)), out_info_path (x_output (se_g s))}"
    and "fuse_enabled s (OpWrite p b off)" "2 ^ 31 \<le> off + length b" "off + length b < 2 ^ 32"
  shows "\<exists>s'. fuse_step s (OpWrite p b off) (ReInt (int (length b))) s' \<and> session_inv s' d \<and>
    fuse_enabled s' (OpRead p 1 (off + length b)) \<and>
    (\<forall>e. fuse_exec e (OpRead p 1 (off + length b)) (se_g s') = None \<and>
      (\<exists>st. fuse_exec e (OpGetAttr p) (se_g s') = Some (ReStat 0 st, se_g s') \<and>
        st_size st = int (off + length b) - 2 ^ 32))"
proof -
  let ?g = "se_g s" and ?n = "off + length b"
  let ?vm = "out_vmdk (x_output ?g)"
  note v = session_invD(2) [OF assms(1)]
  have vmdk: "is_vmdk (out_VirtImageType (x_output ?g))" using v assms(3) by (simp add: mem_files_ok_def Let_def)
  have b: "length b < 2147483648" using assms(5) by simp
  obtain buf where buf: "write_vmdk_file (\<lambda>_. 0) b off ?vm =
      Some (?vm\<lparr>vm_vmdk_file := buf, vm_vmdk_file_size := int_of_size ?n\<rparr>)" "length buf = ?n"
    using write_vmdk_file_large [of ?vm off b "\<lambda>_. 0"] assms(2,6,7) by (auto simp: mem_sizes_ok_def Let_def)
  have n: "int_of_size ?n = int ?n - 4294967296" using assms(6,7) by (simp add: int_of_size_def Let_def)
  define g' where "g' = upd_vmdk (\<lambda>_. ?vm\<lparr>vm_vmdk_file := buf, vm_vmdk_file_size := int_of_size ?n\<rparr>) ?g"
  have "fuse_exec (fuse_env.make 0 0 (\<lambda>_. 0)) (OpWrite p b off) ?g = Some (ReInt (int (length b)), g')"
    using assms(3,4) buf(1) b by (simp add: FuseWrite_def fuse_env.make_def int_of_size_small g'_def)
  from fuse_step.intros [OF assms(5) this]
  have st: "fuse_step s (OpWrite p b off) (ReInt (int (length b))) \<lparr>se_g = g', se_open = se_open s\<rparr>" by simp
  have vm: "vm_vmdk_file (out_vmdk (x_output g')) = buf" "vm_vmdk_file_size (out_vmdk (x_output g')) = int_of_size ?n"
      "vm_virtual_vmdk_path (out_vmdk (x_output g')) = Some p"
      "out_virtual_image_path (x_output g') = out_virtual_image_path (x_output ?g)"
      "out_info_path (x_output g') = out_info_path (x_output ?g)"
      "out_VirtImageType (x_output g') = out_VirtImageType (x_output ?g)"
    by (simp_all add: g'_def assms(3))
  have "(int ?n - 4294967296) mod 18446744073709551616 =
      (int ?n - 4294967296 + 18446744073709551616) mod 18446744073709551616"
    by (simp only: mod_add_self2)
  also have "\<dots> = int ?n - 4294967296 + 18446744073709551616"
    using assms(6,7) by (intro mod_pos_pos_trivial) simp_all
  finally have "(int ?n - 4294967296) mod 18446744073709551616 = int ?n + 18446744069414584320" by simp
  then have len: "u64_of_int (int_of_size ?n) = ?n + 18446744069414584320"
    unfolding u64_of_int_def n by simp
  have "u64 (?n + 1) = ?n + 1" using assms(7) by (intro u64_small) simp
  then have rd: "read_mem_file buf (u64_of_int (int_of_size ?n)) 1 ?n = None"
    using buf(2) by (simp add: read_mem_file_def len)
  have "buf \<noteq> []" using buf(2) assms(5) by auto
  then have "FuseGetAttr_vmdk p (x_output g') = Some (0, st_file (out_writable (x_output g')) (int ?n - 2 ^ 32))"
    by (simp add: FuseGetAttr_vmdk_def vm n Let_def)
  then have attr: "\<exists>st. fuse_exec e (OpGetAttr p) g' = Some (ReStat 0 st, g') \<and> st_size st = int ?n - 2 ^ 32" for e
    using assms(4) vmdk by (simp add: FuseGetAttr_def vm st_file_def Let_def)
  have "fuse_exec e (OpRead p 1 ?n) g' = None" for e
    using assms(4) rd by (simp add: FuseRead_def vm Let_def)
  moreover have "fuse_enabled \<lparr>se_g = g', se_open = se_open s\<rparr> (OpRead p 1 ?n)" using assms(5) by auto
  ultimately show ?thesis
    using st attr fuse_run_refines [OF fuse_run_single [OF st] assms(1)]
    by (intro exI [of _ "\<lparr>se_g = g', se_open = se_open s\<rparr>"]) (simp del: fuse_exec.simps fuse_enabled.simps)
qed

lemma fuse_vmdk_size_wraps_witness:
  "\<exists>s' st. fuse_step (mounted_vmdk [1, 2, 3]) (OpWrite ''/d.vmdk'' [9] 2147483647) (ReInt 1) s' \<and>
    (\<forall>e. fuse_exec e (OpRead ''/d.vmdk'' 1 2147483648) (se_g s') = None)"
  using fuse_vmdk_size_wraps [OF mounted_vmdk_ok(1,2) [of "[1, 2, 3]"], of "''/d.vmdk''" "[9]" 2147483647]
  by (auto simp: mounted_vmdk_ok simp del: fuse_exec.simps)

text \<open>C17: without a writable cache no session opens a file for writing or writes at all, and
  the virtual image stays as it is.\<close>

theorem fuse_readonly_unchanged:
  assumes "fuse_run s tr s'" "session_inv s d" "\<not> out_writable (x_output (se_g s))"
  shows "virt_contents (se_g s') d = virt_contents (se_g s) d \<and>
    (\<forall>p b off r. (OpWrite p b off, r) \<notin> set tr) \<and>
    (\<forall>p fl. fl mod 4 \<noteq> 0 \<longrightarrow> (OpOpen p fl, ReInt 0) \<notin> set tr)"
  by (rule readonly_run [OF assms])

lemma fuse_readonly_unchanged_witness:
  "\<exists>s'. fuse_run (mounted False [1, 2, 3]) [(OpOpen ''/d.dd'' 1, ReInt (-13))] s' \<and>
     virt_contents (se_g s') [1, 2, 3] = [1, 2, 3]"
proof -
  have m: "session_inv (mounted False [1, 2, 3]) [1, 2, 3]"
    "virt_contents (se_g (mounted False [1, 2, 3])) [1, 2, 3] = [1, 2, 3]"
    "\<not> out_writable (x_output (se_g (mounted False [1, 2, 3])))"
    by (simp_all add: mounted_ok)
  obtain s' where run: "fuse_run (mounted False [1, 2, 3]) [(OpOpen ''/d.dd'' 1, ReInt (-13))] s'"
    using fuse_run_single [OF mounted_open [of False 1]] by auto
  then show ?thesis using fuse_readonly_unchanged [OF run m(1,3)] m(2) by auto
qed

text \<open>On a writable image that is not VMDK, opening the info file for writing succeeds,
  and every write the kernel then sends compares its path through a \<open>NULL\<close> pointer.\<close>

theorem fuse_info_write_undefined:
  assumes "session_inv s d" "\<not> is_vmdk (out_VirtImageType (x_output (se_g s)))"
    and "out_writable (x_output (se_g s))"
    and "out_info_path (x_output (se_g s)) \<noteq> out_virtual_image_path (x_output (se_g s))"
    and "b \<noteq> []" "length b < 2147483648" "off + length b < 2 ^ 63"
  shows "\<exists>s'. fuse_step s (OpOpen (out_info_path (x_output (se_g s))) 1) (ReInt 0) s' \<and>
    fuse_enabled s' (OpWrite (out_info_path (x_output (se_g s))) b off) \<and>
    (\<forall>e. fuse_exec e (OpWrite (out_info_path (x_output (se_g s))) b off) (se_g s') = None)"
proof -
  let ?p = "out_info_path (x_output (se_g s))"
  let ?s = "\<lparr>se_g = se_g s, se_open = (?p, 1) # se_open s\<rparr>"
  have "fuse_exec e (OpOpen ?p 1) (se_g s) = Some (ReInt 0, se_g s)" for e
    using assms(3) by (simp add: FuseOpen_def CHECK_OPEN_PERMS_def Let_def)
  then have "fuse_step s (OpOpen ?p 1) (ReInt 0) ?s"
    using fuse_step.intros [of s "OpOpen ?p 1"] by simp
  moreover have "vm_virtual_vmdk_path (out_vmdk (x_output (se_g s))) = None"
    using session_invD(2) [OF assms(1)] assms(2) by (simp add: mem_files_ok_def Let_def)
  ultimately show ?thesis
    using assms(4-7) by (intro exI [of _ ?s]) (simp add: FuseWrite_def Let_def)
qed

lemma fuse_info_write_undefined_witness:
  "\<exists>s'. fuse_step (mounted True [1, 2, 3]) (OpOpen ''/d.info'' 1) (ReInt 0) s' \<and>
     (\<forall>e. fuse_exec e (OpWrite ''/d.info'' [0] 0) (se_g s') = None)"
  using fuse_info_write_undefined [OF mounted_ok(1) [of "[1, 2, 3]" True], of "[0]" 0]
  by (auto simp: mounted_ok is_vmdk_def simp del: fuse_exec.simps)

text \<open>The second undefined operation: the lock directory is created, then a lock file whose
  path is not longer than that of the directory, then the directory is listed.\<close>

lemma fuse_lockdir_listing_undefined:
  assumes "is_vmdk (out_VirtImageType (x_output g))"
    and "vm_virtual_vmdk_path (out_vmdk (x_output g)) = Some v" "v \<noteq> []"
    and "vm_lockdir1 (out_vmdk (x_output g)) = None" "vm_lockfile_name (out_vmdk (x_output g)) = None"
    and "length p \<le> length v + 4"
  shows "\<exists>g1 g2. FuseMkDir (v @ ''.lck'') g = Some (0, g1) \<and> FuseMkNod p g1 = (0, g2) \<and>
    FuseReadDir (v @ ''.lck'') g2 = None"
proof -
  have "v @ ''.lck'' \<noteq> ''/''" using assms(3) by (cases v) auto
  then show ?thesis
    using assms by (simp add: FuseMkDir_def FuseMkNod_def FuseReadDir_def Let_def)
qed

end
