(* ===== verification/XmountCmd.thy ===== *)
theory XmountCmd
  imports XState LibXmount
begin

text \<open>
  The command line in \<open>src/src/xmount.c\<close>: \<open>SplitLibraryParameters\<close>,
  \<open>ParseCmdLine\<close> with the deprecated syntax of \<open>--in\<close>, \<open>ExtractVirtFileNames\<close> and
  the search for libraries (\<open>FindInputLib\<close>, \<open>FindMorphingLib\<close>).

  Arguments are strings without NUL, below 4 GiB as the kernel passes them. The index \<open>i\<close> of
  the parser is the list of the arguments from \<open>pp_argv[i]\<close> on, so that \<open>i+1<argc\<close> is a
  tail that is not empty. \<open>exit(0)\<close> after a help or version text is a result of its own.
  Messages are left out.
\<close>

section \<open>SplitLibraryParameters\<close>

text \<open>The loop: the options behind \<open>opts\<close>, or \<open>None\<close> where an assignment or a value is
  missing.\<close>

function SplitLibraryParameters_loop :: "string \<Rightarrow> lib_option list \<Rightarrow> lib_option list option" where
  "SplitLibraryParameters_loop p_buf opts =
     (if p_buf = [] then Some opts
      else
        let key = takeWhile (\<lambda>c. c \<noteq> CHR ''='') p_buf in
        if key = [] \<or> length key = length p_buf then None
        else
          let buf1 = drop (length key + 1) p_buf;
              val = takeWhile (\<lambda>c. c \<noteq> CHR '','') buf1;
              buf2 = drop (length val) buf1
          in if val = [] then None
             else SplitLibraryParameters_loop (if buf2 \<noteq> [] then tl buf2 else buf2)
                    (opts @ [\<lparr>lo_key = key, lo_value = val, lo_valid = False\<rparr>]))"
  by pat_completeness auto
termination
  by (relation "measure (\<lambda>(b, _). length b)") (auto simp: Let_def)

declare SplitLibraryParameters_loop.simps [simp del]

text \<open>The array stays NULL for an empty string and on errors.\<close>

definition SplitLibraryParameters :: "string \<Rightarrow> int \<times> lib_option list option" where
  "SplitLibraryParameters p_params =
     (if p_params = [] then (C_TRUE, None)
      else case SplitLibraryParameters_loop p_params [] of
        None \<Rightarrow> (C_FALSE, None)
      | Some opts \<Rightarrow> (C_TRUE, Some opts))"

section \<open>ParseCmdLine\<close>

text \<open>The variables of the parser. \<open>cs_old_in\<close> holds the image of a \<open>--in\<close> in the
  deprecated syntax (\<open>use_old_in_syntax\<close>), whose files are still to come.\<close>

record cmd_state =
  cs_g :: xmount_data
  cs_FuseMinusOControl :: bool
  cs_FuseAllowOther :: bool
  cs_old_in :: "input_image option"

definition upd_g :: "(xmount_data \<Rightarrow> xmount_data) \<Rightarrow> cmd_state \<Rightarrow> cmd_state" where
  "upd_g f st = st\<lparr>cs_g := f (cs_g st)\<rparr>"

definition add_fuse_args :: "string list \<Rightarrow> xmount_data \<Rightarrow> xmount_data" where
  "add_fuse_args as g = g\<lparr>x_fuse_argv := x_fuse_argv g @ as\<rparr>"

definition upd_input :: "(input_data \<Rightarrow> input_data) \<Rightarrow> xmount_data \<Rightarrow> xmount_data" where
  "upd_input f g = g\<lparr>x_input := f (x_input g)\<rparr>"

definition upd_morphing :: "(morphing_data \<Rightarrow> morphing_data) \<Rightarrow> xmount_data \<Rightarrow> xmount_data" where
  "upd_morphing f g = g\<lparr>x_morphing := f (x_morphing g)\<rparr>"

text \<open>An input image that no library has opened yet.\<close>

definition new_input_image :: "string \<Rightarrow> string list \<Rightarrow> input_image" where
  "new_input_image ty files =
     \<lparr>ii_type = ty, ii_files = files, ii_Read = (\<lambda>_ _. None), ii_size = 0\<rparr>"

definition add_input_image :: "input_image \<Rightarrow> xmount_data \<Rightarrow> xmount_data" where
  "add_input_image img = upd_input (\<lambda>d. d\<lparr>in_images := in_images d @ [img]\<rparr>)"

text \<open>What an option does: go on with the rest of the arguments, fail, or exit.\<close>

datatype cmd_step = StepGo cmd_state "string list" | StepFail | StepExit

text \<open>Options that begin with one \<open>-\<close>, mostly those of FUSE.\<close>

definition ParseCmdLine_fuse :: "string \<Rightarrow> string list \<Rightarrow> cmd_state \<Rightarrow> cmd_step" where
  "ParseCmdLine_fuse arg rest st =
     (if arg = ''-d''
      then StepGo (upd_g (\<lambda>g. (add_fuse_args [arg] g)\<lparr>x_debug := True\<rparr>) st) rest
      else if arg = ''-h'' then StepExit
      else if arg = ''-o'' then
        (case rest of
           [] \<Rightarrow> StepFail
         | opt # rest' \<Rightarrow>
             if opt \<noteq> ''no_allow_other''
             then StepGo ((upd_g (add_fuse_args [arg, opt]) st)\<lparr>cs_FuseMinusOControl := False\<rparr>) rest'
             else StepGo (st\<lparr>cs_FuseAllowOther := False\<rparr>) rest')
      else if arg = ''-s'' \<or> arg = ''-V'' then StepGo (upd_g (add_fuse_args [arg]) st) rest
      else StepFail)"

text \<open>\<open>--in\<close>: the files of an image end before the next argument that begins with \<open>--\<close>
  and before the last argument.\<close>

definition ParseCmdLine_in :: "string list \<Rightarrow> cmd_state \<Rightarrow> cmd_step" where
  "ParseCmdLine_in rest st =
     (if cs_old_in st \<noteq> None then StepFail
      else case rest of
        ty # next # rest' \<Rightarrow>
          let files = takeWhile (\<lambda>a. take 2 a \<noteq> ''--'') (butlast (next # rest')) in
          if files = [] then StepGo (st\<lparr>cs_old_in := Some (new_input_image ty [])\<rparr>) (next # rest')
          else StepGo (upd_g (add_input_image (new_input_image ty files)) st)
                 (drop (length files) (next # rest'))
      | _ \<Rightarrow> StepFail)"

definition parse_out_type :: "string \<Rightarrow> VirtImageType option" where
  "parse_out_type s =
     (if s = ''raw'' \<or> s = ''dd'' then Some VirtImageType_DD
      else if s = ''dmg'' then Some VirtImageType_DMG
      else if s = ''vdi'' then Some VirtImageType_VDI
      else if s = ''vhd'' then Some VirtImageType_VHD
      else if s = ''vmdk'' then Some VirtImageType_VMDK
      else if s = ''vmdks'' then Some VirtImageType_VMDKS
      else None)"

definition set_cache_file :: "string \<Rightarrow> xmount_data \<Rightarrow> xmount_data" where
  "set_cache_file f = upd_cache (\<lambda>c. c\<lparr>ca_cache_file := Some f\<rparr>)"

definition set_writable :: "xmount_data \<Rightarrow> xmount_data" where
  "set_writable = upd_output (\<lambda>od. od\<lparr>out_writable := True\<rparr>)"

text \<open>The options with one argument: what they do to the state, or \<open>None\<close> on an error.\<close>

definition ParseCmdLine_value :: "string \<Rightarrow> string \<Rightarrow> xmount_data \<Rightarrow> xmount_data option" where
  "ParseCmdLine_value arg v g =
     (if arg = ''--cache'' then Some (set_writable (set_cache_file v g))
      else if arg = ''--inopts'' then
        if in_lib_params (x_input g) \<noteq> None then None
        else case SplitLibraryParameters v of (ok, opts) \<Rightarrow>
          if ok = C_FALSE then None else Some (upd_input (\<lambda>d. d\<lparr>in_lib_params := opts\<rparr>) g)
      else if arg = ''--morph'' then
        if mo_morph_type (x_morphing g) \<noteq> None then None
        else Some (upd_morphing (\<lambda>m. m\<lparr>mo_morph_type := Some v\<rparr>) g)
      else if arg = ''--morphopts'' then
        if mo_lib_params (x_morphing g) \<noteq> None then None
        else case SplitLibraryParameters v of (ok, opts) \<Rightarrow>
          if ok = C_FALSE then None else Some (upd_morphing (\<lambda>m. m\<lparr>mo_lib_params := opts\<rparr>) g)
      else if arg = ''--offset'' then
        (case StrToUint64 v of (n, ok) \<Rightarrow>
           if ok = 0 then None else Some (upd_input (\<lambda>d. d\<lparr>in_image_offset := n\<rparr>) g))
      else if arg = ''--out'' then
        map_option (\<lambda>t. upd_output (\<lambda>od. od\<lparr>out_VirtImageType := t\<rparr>) g) (parse_out_type v)
      else if arg = ''--owcache'' then
        Some (upd_cache (\<lambda>c. c\<lparr>ca_overwrite_cache := True\<rparr>) (set_writable (set_cache_file v g)))
      else if arg = ''--rocache'' then Some (set_cache_file v g)
      else if arg = ''--sizelimit'' then
        (case StrToUint64 v of (n, ok) \<Rightarrow>
           if ok = 0 then None else Some (upd_input (\<lambda>d. d\<lparr>in_image_size_limit := n\<rparr>) g))
      else None)"

definition cmd_value_options :: "string list" where
  "cmd_value_options = [''--cache'', ''--inopts'', ''--morph'', ''--morphopts'', ''--offset'', ''--out'',
     ''--owcache'', ''--rocache'', ''--sizelimit'']"

text \<open>Options that begin with \<open>--\<close>, and a single \<open>-\<close>.\<close>

definition ParseCmdLine_xmount :: "string \<Rightarrow> string list \<Rightarrow> cmd_state \<Rightarrow> cmd_step" where
  "ParseCmdLine_xmount arg rest st =
     (if arg = ''--in'' then ParseCmdLine_in rest st
      else if arg \<in> set cmd_value_options then
        (case rest of
           [] \<Rightarrow> StepFail
         | v # rest' \<Rightarrow>
             (case ParseCmdLine_value arg v (cs_g st) of
                None \<Rightarrow> StepFail
              | Some g \<Rightarrow> StepGo (st\<lparr>cs_g := g\<rparr>) rest'))
      else if arg = ''--version'' \<or> arg = ''--info'' then StepExit
      else StepFail)"

definition ParseCmdLine_step :: "string \<Rightarrow> string list \<Rightarrow> cmd_state \<Rightarrow> cmd_step" where
  "ParseCmdLine_step arg rest st =
     (if length arg > 1 \<and> arg ! 1 \<noteq> CHR ''-'' then ParseCmdLine_fuse arg rest st
      else ParseCmdLine_xmount arg rest st)"

text \<open>No option gives back more arguments than there were.\<close>

lemma ParseCmdLine_step_shorter:
  "ParseCmdLine_step arg rest st = StepGo st' rest' \<Longrightarrow> length rest' \<le> length rest"
  by (auto simp: ParseCmdLine_step_def ParseCmdLine_fuse_def ParseCmdLine_xmount_def ParseCmdLine_in_def
      Let_def split: if_splits list.splits option.splits)

function ParseCmdLine_loop :: "string list \<Rightarrow> cmd_state \<Rightarrow> cmd_step" where
  "ParseCmdLine_loop [] st = StepGo st []"
| "ParseCmdLine_loop (arg # rest) st =
     (if take 1 arg \<noteq> ''-'' then StepGo st (arg # rest)
      else case ParseCmdLine_step arg rest st of
        StepGo st' rest' \<Rightarrow> ParseCmdLine_loop rest' st'
      | StepFail \<Rightarrow> StepFail
      | StepExit \<Rightarrow> StepExit)"
  by pat_completeness auto
termination
  by (relation "measure (\<lambda>(args, _). length args)") (auto dest: ParseCmdLine_step_shorter simp: less_Suc_eq_le)

text \<open>The files of the deprecated syntax: all arguments but the last.\<close>

definition ParseCmdLine_old_in :: "string list \<Rightarrow> cmd_state \<Rightarrow> (cmd_state \<times> string list) option" where
  "ParseCmdLine_old_in args st =
     (case cs_old_in st of
        None \<Rightarrow> Some (st, args)
      | Some img \<Rightarrow>
          if length args > 1
          then Some (upd_g (add_input_image (img\<lparr>ii_files := butlast args\<rparr>)) st, [last args])
          else None)"

text \<open>The options for FUSE where the user has given none.\<close>

definition fuse_fsname :: "(string \<Rightarrow> string option) \<Rightarrow> string \<Rightarrow> string" where
  "fuse_fsname realpath file =
     (let p = (case realpath file of Some p \<Rightarrow> p | None \<Rightarrow> file) in
      '',fsname='' @ [CHR 0x27] @ map (\<lambda>c. if c = CHR 0x27 then CHR ''_'' else c) p @ [CHR 0x27])"

definition ParseCmdLine_options :: "(string \<Rightarrow> string option) \<Rightarrow> cmd_state \<Rightarrow> xmount_data" where
  "ParseCmdLine_options realpath st =
     (let g = cs_g st in
      if cs_FuseMinusOControl st then
        add_fuse_args [''-o'',
          ''subtype=xmount'' @
          (case in_images (x_input g) of [] \<Rightarrow> [] | img # _ \<Rightarrow> fuse_fsname realpath (hd (ii_files img))) @
          (if cs_FuseAllowOther st \<and> x_may_set_fuse_allow_other g then '',allow_other'' else [])] g
      else g)"

datatype cmd_result = CmdTrue xmount_data | CmdFalse | CmdExit

definition ParseCmdLine :: "(string \<Rightarrow> string option) \<Rightarrow> string list \<Rightarrow> xmount_data \<Rightarrow> cmd_result" where
  "ParseCmdLine realpath argv g =
     (case ParseCmdLine_loop (tl argv)
             \<lparr>cs_g = g\<lparr>x_fuse_argv := [hd argv]\<rparr>, cs_FuseMinusOControl = True, cs_FuseAllowOther = True,
              cs_old_in = None\<rparr> of
        StepExit \<Rightarrow> CmdExit
      | StepFail \<Rightarrow> CmdFalse
      | StepGo st args \<Rightarrow>
          (case ParseCmdLine_old_in args st of
             None \<Rightarrow> CmdFalse
           | Some (st1, args1) \<Rightarrow>
               (case args1 of
                  [mnt] \<Rightarrow> CmdTrue (ParseCmdLine_options realpath
                             (upd_g (\<lambda>g. (add_fuse_args [mnt] g)\<lparr>x_mountpoint := Some mnt\<rparr>) st1))
                | _ \<Rightarrow> CmdFalse)))"

section \<open>ExtractVirtFileNames\<close>

text \<open>What follows the last occurrence of \<open>c\<close>, and what precedes it; a string without \<open>c\<close>
  is returned as it is.\<close>

definition behind_last :: "char \<Rightarrow> string \<Rightarrow> string" where
  "behind_last c s = rev (takeWhile (\<lambda>x. x \<noteq> c) (rev s))"

definition before_last :: "char \<Rightarrow> string \<Rightarrow> string" where
  "before_last c s = (if c \<in> set s then rev (tl (dropWhile (\<lambda>x. x \<noteq> c) (rev s))) else s)"

definition virt_extension :: "VirtImageType \<Rightarrow> string" where
  "virt_extension t =
     (case t of VirtImageType_DD \<Rightarrow> ''.dd'' | VirtImageType_DMG \<Rightarrow> ''.dmg'' | VirtImageType_VDI \<Rightarrow> ''.vdi''
      | VirtImageType_VHD \<Rightarrow> ''.vhd'' | VirtImageType_VMDK \<Rightarrow> ''.dd'' | VirtImageType_VMDKS \<Rightarrow> ''.dd'')"

definition ExtractVirtFileNames :: "string \<Rightarrow> xmount_data \<Rightarrow> xmount_data" where
  "ExtractVirtFileNames p_orig_name g =
     (let base = ''/'' @ before_last CHR ''.'' (behind_last CHR ''/'' p_orig_name);
          t = out_VirtImageType (x_output g);
          g1 = upd_output (\<lambda>od. od\<lparr>out_virtual_image_path := base @ virt_extension t,
                                  out_info_path := base @ ''.info''\<rparr>) g
      in if is_vmdk t then upd_vmdk (\<lambda>v. v\<lparr>vm_virtual_vmdk_path := Some (base @ ''.vmdk'')\<rparr>) g1 else g1)"

section \<open>FindInputLib and FindMorphingLib\<close>

text \<open>The names a library supports: strings behind each other, each with its NUL, and an empty
  one at the end. \<open>None\<close> is a search that leaves the buffer.\<close>

function lib_supports :: "string \<Rightarrow> string \<Rightarrow> bool option" where
  "lib_supports p_buf ty =
     (if p_buf = [] then None
      else if hd p_buf = CHR 0x00 then Some False
      else
        let name = takeWhile (\<lambda>c. c \<noteq> CHR 0x00) p_buf in
        if length name = length p_buf then None
        else if name = ty then Some True
        else lib_supports (drop (length name + 1) p_buf) ty)"
  by pat_completeness auto
termination
  by (relation "measure (\<lambda>(b, _). length b)") (auto simp: Let_def)

declare lib_supports.simps [simp del]

text \<open>The first of the loaded libraries that supports the name: \<open>Some None\<close> where there is
  none.\<close>

fun find_lib :: "('l \<Rightarrow> string) \<Rightarrow> string \<Rightarrow> 'l list \<Rightarrow> 'l option option" where
  "find_lib names ty [] = Some None"
| "find_lib names ty (l # ls) =
     (case lib_supports (names l) ty of
        None \<Rightarrow> None
      | Some True \<Rightarrow> Some (Some l)
      | Some False \<Rightarrow> find_lib names ty ls)"

end
