(* ===== verification/XmountMain.thy ===== *)
theory XmountMain
  imports XmountCmd XmountHeaders XmountCacheInit XmountInput
begin

text \<open>
  \<open>main\<close> in \<open>src/src/xmount.c\<close> up to the call of \<open>fuse_main\<close>, and \<open>FreeResources\<close>.

  A loaded library is a record with its table of functions; all input libraries share a type of
  handles, all morphing libraries another. The functions return what the C functions return and
  store; a handle that a call changes is returned. \<open>Read\<close> is a function of the handle that
  \<open>Open\<close> leaves: the libraries modelled this way seek before they read. Initialisation handles
  and the buffers of messages are left out. What \<open>main\<close> asks of the system is a parameter.
\<close>

section \<open>Libraries\<close>

text \<open>\<open>GetInfofileContent\<close> also depends on whether the buffer pointer of the caller is \<open>NULL\<close>:
  some libraries test it before they set it.\<close>

record 'h input_lib =
  il_name :: string
  il_types :: string
  il_is_initialized :: bool
  il_Init :: int
  il_CreateHandle :: "string \<Rightarrow> bool \<Rightarrow> int \<times> 'h"
  il_DestroyHandle :: "'h \<Rightarrow> int option"
  il_Open :: "'h \<Rightarrow> string list \<Rightarrow> (int \<times> 'h) option"
  il_Close :: "'h \<Rightarrow> (int \<times> 'h) option"
  il_Size :: "'h \<Rightarrow> int \<times> nat"
  il_Read :: "'h \<Rightarrow> nat \<Rightarrow> nat \<Rightarrow> read_res option"
  il_OptionsParse :: "'h \<Rightarrow> lib_option list \<Rightarrow> int \<times> 'h \<times> lib_option list"
  il_GetInfofileContent :: "'h \<Rightarrow> bool \<Rightarrow> int \<times> string option"

record 'm morph_lib =
  ml_name :: string
  ml_types :: string
  ml_CreateHandle :: "string \<Rightarrow> bool \<Rightarrow> int \<times> 'm"
  ml_DestroyHandle :: "'m \<Rightarrow> int option"
  ml_Morph :: "'m \<Rightarrow> morph_input \<Rightarrow> (int \<times> 'm) option"
  ml_Size :: "'m \<Rightarrow> int \<times> nat"
  ml_Read :: "'m \<Rightarrow> nat \<Rightarrow> nat \<Rightarrow> read_res option"
  ml_OptionsParse :: "'m \<Rightarrow> lib_option list \<Rightarrow> int \<times> 'm \<times> lib_option list"
  ml_GetInfofileContent :: "'m \<Rightarrow> bool \<Rightarrow> int \<times> string option"

text \<open>The state of \<open>main\<close>: the global, the loaded libraries, the library and handle of each
  input image (none before it has been created) and those of the morphing.\<close>

record ('h, 'm) main_state =
  ms_g :: xmount_data
  ms_ilibs :: "'h input_lib list"
  ms_mlibs :: "'m morph_lib list"
  ms_handles :: "('h input_lib \<times> 'h) option list"
  ms_morph :: "('m morph_lib \<times> 'm) option"

text \<open>A step ends in undefined behaviour, gives up (where \<open>FreeResources\<close> is next and then
  \<open>return 1\<close>), returns at once, or goes on.\<close>

datatype 's main_step = MainUndef | MainFail 's | MainReturn int | MainGo 's

fun main_then :: "'s main_step \<Rightarrow> ('s \<Rightarrow> 's main_step) \<Rightarrow> 's main_step" where
  "main_then (MainGo s) f = f s"
| "main_then (MainFail s) f = MainFail s"
| "main_then (MainReturn r) f = MainReturn r"
| "main_then MainUndef f = MainUndef"

definition FindInputLib :: "'h input_lib list \<Rightarrow> input_image \<Rightarrow> nat option option" where
  "FindInputLib ilibs img =
     map_option (map_option fst) (find_lib snd (ii_type img) (List.enumerate 0 (map il_types ilibs)))"

definition FindMorphingLib :: "('h, 'm) main_state \<Rightarrow> 'm morph_lib option option" where
  "FindMorphingLib ms = find_lib ml_types (the (mo_morph_type (x_morphing (ms_g ms)))) (ms_mlibs ms)"

section \<open>Loading the input images\<close>

definition set_image :: "nat \<Rightarrow> input_image \<Rightarrow> ('h, 'm) main_state \<Rightarrow> ('h, 'm) main_state" where
  "set_image i img ms =
     ms\<lparr>ms_g := upd_input (\<lambda>d. d\<lparr>in_images := (in_images d)[i := img]\<rparr>) (ms_g ms)\<rparr>"

definition set_handle :: "nat \<Rightarrow> 'h input_lib \<Rightarrow> 'h \<Rightarrow> ('h, 'm) main_state \<Rightarrow> ('h, 'm) main_state" where
  "set_handle i lib h ms = ms\<lparr>ms_handles := (ms_handles ms)[i := Some (lib, h)]\<rparr>"

text \<open>\<open>Init\<close> before a library is used for the first time.\<close>

definition main_init_lib :: "nat \<Rightarrow> ('h, 'm) main_state \<Rightarrow> ('h, 'm) main_state main_step" where
  "main_init_lib k ms =
     (let lib = ms_ilibs ms ! k in
      if il_is_initialized lib then MainGo ms
      else if il_Init lib \<noteq> 0 then MainFail ms
      else MainGo (ms\<lparr>ms_ilibs := (ms_ilibs ms)[k := lib\<lparr>il_is_initialized := True\<rparr>]\<rparr>))"

definition main_input_options ::
  "nat \<Rightarrow> 'h input_lib \<Rightarrow> 'h \<Rightarrow> ('h, 'm) main_state \<Rightarrow> (int \<times> 'h \<times> ('h, 'm) main_state)" where
  "main_input_options i lib h ms =
     (case in_lib_params (x_input (ms_g ms)) of
        None \<Rightarrow> (0, h, ms)
      | Some opts \<Rightarrow>
          (case il_OptionsParse lib h opts of (ret, h1, opts1) \<Rightarrow>
             (ret, h1, set_handle i lib h1
               (ms\<lparr>ms_g := upd_input (\<lambda>d. d\<lparr>in_lib_params := Some opts1\<rparr>) (ms_g ms)\<rparr>))))"

text \<open>The size of an image under \<open>--offset\<close> and \<open>--sizelimit\<close>, \<open>None\<close> on an error.\<close>

definition main_image_size :: "nat \<Rightarrow> nat \<Rightarrow> nat \<Rightarrow> nat option" where
  "main_image_size offset limit sz =
     (if offset \<noteq> 0 \<and> offset > sz then None
      else let sz1 = (if offset \<noteq> 0 then sz - offset else sz) in
      if limit \<noteq> 0 \<and> sz1 < limit then None
      else Some (if limit \<noteq> 0 then limit else sz1))"

definition main_open_image ::
  "nat \<Rightarrow> 'h input_lib \<Rightarrow> 'h \<Rightarrow> input_image \<Rightarrow> ('h, 'm) main_state \<Rightarrow> ('h, 'm) main_state main_step" where
  "main_open_image i lib h img ms =
     (case il_Open lib h (ii_files img) of
        None \<Rightarrow> MainUndef
      | Some (ret, h1) \<Rightarrow>
          let ms1 = set_handle i lib h1 ms in
          if ret \<noteq> 0 then MainFail ms1
          else case il_Size lib h1 of (ret, sz) \<Rightarrow>
            if ret \<noteq> 0 then MainFail ms1
            else
              (case main_image_size (in_image_offset (x_input (ms_g ms1)))
                      (in_image_size_limit (x_input (ms_g ms1))) sz of
                 None \<Rightarrow> MainFail ms1
               | Some n \<Rightarrow> MainGo (set_image i (img\<lparr>ii_Read := il_Read lib h1, ii_size := n\<rparr>) ms1)))"

definition main_load_image :: "nat \<Rightarrow> ('h, 'm) main_state \<Rightarrow> ('h, 'm) main_state main_step" where
  "main_load_image i ms =
     (let img = in_images (x_input (ms_g ms)) ! i in
      case FindInputLib (ms_ilibs ms) img of
        None \<Rightarrow> MainUndef
      | Some None \<Rightarrow> MainFail ms
      | Some (Some k) \<Rightarrow>
          main_then (main_init_lib k ms) (\<lambda>ms1.
            let lib = ms_ilibs ms1 ! k in
            case il_CreateHandle lib (ii_type img) (x_debug (ms_g ms1)) of (ret, h) \<Rightarrow>
              if ret \<noteq> 0 then MainFail ms1
              else case main_input_options i lib h (set_handle i lib h ms1) of (ret, h1, ms2) \<Rightarrow>
                if ret \<noteq> 0 then MainFail ms2 else main_open_image i lib h1 img ms2))"

text \<open>The loop over the images from \<open>i\<close> on, \<open>n\<close> of them.\<close>

fun main_load_images :: "nat \<Rightarrow> nat \<Rightarrow> ('h, 'm) main_state \<Rightarrow> ('h, 'm) main_state main_step" where
  "main_load_images i 0 ms = MainGo ms"
| "main_load_images i (Suc n) ms = main_then (main_load_image i ms) (main_load_images (Suc i) n)"

section \<open>Morphing\<close>

definition main_morph_options ::
  "'m morph_lib \<Rightarrow> 'm \<Rightarrow> ('h, 'm) main_state \<Rightarrow> int \<times> 'm \<times> ('h, 'm) main_state" where
  "main_morph_options lib h ms =
     (case mo_lib_params (x_morphing (ms_g ms)) of
        None \<Rightarrow> (0, h, ms)
      | Some opts \<Rightarrow>
          (case ml_OptionsParse lib h opts of (ret, h1, opts1) \<Rightarrow>
             (ret, h1, ms\<lparr>ms_g := upd_morphing (\<lambda>m. m\<lparr>mo_lib_params := Some opts1\<rparr>) (ms_g ms),
                          ms_morph := Some (lib, h1)\<rparr>)))"

definition main_morph :: "('h, 'm) main_state \<Rightarrow> ('h, 'm) main_state main_step" where
  "main_morph ms =
     (case FindMorphingLib ms of
        None \<Rightarrow> MainUndef
      | Some None \<Rightarrow> MainFail ms
      | Some (Some lib) \<Rightarrow>
          (case ml_CreateHandle lib (the (mo_morph_type (x_morphing (ms_g ms)))) (x_debug (ms_g ms)) of (ret, h) \<Rightarrow>
             if ret \<noteq> 0 then MainFail ms
             else case main_morph_options lib h (ms\<lparr>ms_morph := Some (lib, h)\<rparr>) of (ret, h1, ms1) \<Rightarrow>
               if ret \<noteq> 0 then MainFail ms1
               else case ml_Morph lib h1 (input_image_functions (ms_g ms1)) of
                 None \<Rightarrow> MainUndef
               | Some (ret, h2) \<Rightarrow>
                   let ms2 = ms1\<lparr>ms_morph := Some (lib, h2)\<rparr> in
                   if ret \<noteq> 0 then MainFail ms2
                   else MainGo (ms2\<lparr>ms_g := upd_morphing
                          (\<lambda>m. m\<lparr>mo_Size := ml_Size lib h2, mo_Read := ml_Read lib h2\<rparr>) (ms_g ms2)\<rparr>)))"

section \<open>The virtual files\<close>

text \<open>What \<open>main\<close> gets from the system: the result of \<open>stat\<close> on the mount point (whether it is
  a directory), of \<open>realpath\<close>, of \<open>CheckFuseSettings\<close>, the opening of the cache file in the
  modes \<open>rb+\<close> and \<open>wb+\<close>, random numbers, the time, and the contents of fresh memory.\<close>

record main_env =
  me_stat_dir :: "string \<Rightarrow> bool option"
  me_realpath :: "string \<Rightarrow> string option"
  me_may_allow_other :: bool
  me_cache_rb :: "string \<Rightarrow> cfile option"
  me_cache_wb :: "string \<Rightarrow> cfile option"
  me_rands :: "nat \<times> nat \<times> nat \<times> nat"
  me_now :: int
  me_md5 :: md5_state
  me_p_buf_null :: bool

text \<open>A function that returns \<open>TRUE\<close> or \<open>FALSE\<close> and changes the global.\<close>

definition main_call ::
  "(xmount_data \<Rightarrow> (int \<times> xmount_data) option) \<Rightarrow> ('h, 'm) main_state \<Rightarrow> ('h, 'm) main_state main_step" where
  "main_call f ms =
     (case f (ms_g ms) of
        None \<Rightarrow> MainUndef
      | Some (ok, g) \<Rightarrow> if ok = C_FALSE then MainFail (ms\<lparr>ms_g := g\<rparr>) else MainGo (ms\<lparr>ms_g := g\<rparr>))"

text \<open>The hash of the image; where it fails \<open>main\<close> returns without \<open>FreeResources\<close>.\<close>

definition main_hash :: "main_env \<Rightarrow> ('h, 'm) main_state \<Rightarrow> ('h, 'm) main_state main_step" where
  "main_hash env ms =
     (case CalculateInputImageHash (me_md5 env) (ms_g ms) of
        None \<Rightarrow> MainUndef
      | Some (ok, lo, hi) \<Rightarrow>
          if ok = C_FALSE then MainReturn 1
          else MainGo (ms\<lparr>ms_g := upd_input
                 (\<lambda>d. d\<lparr>in_image_hash_lo := lo, in_image_hash_hi := hi\<rparr>) (ms_g ms)\<rparr>))"

definition main_headers :: "main_env \<Rightarrow> xmount_data \<Rightarrow> (int \<times> xmount_data) option" where
  "main_headers env g =
     (case out_VirtImageType (x_output g) of
        VirtImageType_VDI \<Rightarrow> InitVirtVdiHeader (me_rands env) g
      | VirtImageType_VHD \<Rightarrow> Some (InitVirtVhdHeader (me_now env) g)
      | VirtImageType_VMDK \<Rightarrow> InitVirtualVmdkFile g
      | VirtImageType_VMDKS \<Rightarrow> InitVirtualVmdkFile g
      | _ \<Rightarrow> Some (C_TRUE, g))"

definition main_cache :: "main_env \<Rightarrow> xmount_data \<Rightarrow> (int \<times> xmount_data) option" where
  "main_cache env g =
     (case ca_cache_file (x_cache g) of
        None \<Rightarrow> Some (C_TRUE, g)
      | Some f \<Rightarrow> InitCacheFile (me_cache_rb env f) (me_cache_wb env f) g)"

text \<open>The calls of \<open>GetInfofileContent\<close> share the variable \<open>p_buf\<close>, which starts uninitialised
  (\<open>me_p_buf_null\<close>: as \<open>NULL\<close>) and then holds the buffer of the call before. The results behind
  a failing call are not used.\<close>

fun buffer_infos ::
  "bool \<Rightarrow> (bool \<Rightarrow> int \<times> string option) list \<Rightarrow> (int \<times> string option) list \<times> bool" where
  "buffer_infos null [] = ([], null)"
| "buffer_infos null (f # fs) =
     (case f null of (ret, buf) \<Rightarrow>
        (case buffer_infos (buf = None) fs of (infos, null') \<Rightarrow> ((ret, buf) # infos, null')))"

definition handle_info :: "('h input_lib \<times> 'h) option \<Rightarrow> bool \<Rightarrow> int \<times> string option" where
  "handle_info lh null = (case lh of Some (lib, h) \<Rightarrow> il_GetInfofileContent lib h null | None \<Rightarrow> (0, None))"

definition main_infos :: "main_env \<Rightarrow> ('h, 'm) main_state \<Rightarrow> (int \<times> string option) list" where
  "main_infos env ms = fst (buffer_infos (me_p_buf_null env) (map handle_info (ms_handles ms)))"

definition main_morph_info :: "main_env \<Rightarrow> ('h, 'm) main_state \<Rightarrow> int \<times> string option" where
  "main_morph_info env ms =
     (case ms_morph ms of
        Some (lib, h) \<Rightarrow>
          ml_GetInfofileContent lib h (snd (buffer_infos (me_p_buf_null env) (map handle_info (ms_handles ms))))
      | None \<Rightarrow> (0, None))"

definition main_files :: "main_env \<Rightarrow> ('h, 'm) main_state \<Rightarrow> ('h, 'm) main_state main_step" where
  "main_files env ms =
     main_then (main_hash env ms) (\<lambda>ms.
     main_then (main_call (\<lambda>g. Some (C_TRUE, ExtractVirtFileNames (hd (ii_files (hd (in_images (x_input g))))) g)) ms) (\<lambda>ms.
     main_then (main_call (\<lambda>g. Some (InitVirtImageInfoFile (main_infos env ms) (main_morph_info env ms) g)) ms) (\<lambda>ms.
     main_then (main_call (main_headers env) ms)
       (main_call (main_cache env)))))"

section \<open>FreeResources and main\<close>

text \<open>Every image that has a handle is closed, whether or not it has been opened, and its handle is
  destroyed; error codes are only logged. Then everything is as \<open>InitResources\<close> leaves it.\<close>

definition FreeResources_image :: "('h input_lib \<times> 'h) option \<Rightarrow> bool" where
  "FreeResources_image lh =
     (case lh of
        None \<Rightarrow> True
      | Some (lib, h) \<Rightarrow>
          (case il_Close lib h of None \<Rightarrow> False | Some (ret, h1) \<Rightarrow> il_DestroyHandle lib h1 \<noteq> None))"

definition FreeResources :: "('h, 'm) main_state \<Rightarrow> xmount_data option" where
  "FreeResources ms =
     (if (case ms_morph ms of None \<Rightarrow> True | Some (lib, h) \<Rightarrow> ml_DestroyHandle lib h \<noteq> None) \<and>
         list_all FreeResources_image (ms_handles ms)
      then Some InitResources else None)"

text \<open>\<open>main\<close> returns a code or calls \<open>fuse_main\<close> in the given state; \<open>None\<close> is undefined
  behaviour.\<close>

datatype ('h, 'm) main_result = MainReturns int | MainMounts "('h, 'm) main_state"

definition main_finish :: "('h, 'm) main_state main_step \<Rightarrow> ('h, 'm) main_result option" where
  "main_finish s =
     (case s of
        MainUndef \<Rightarrow> None
      | MainReturn r \<Rightarrow> Some (MainReturns r)
      | MainFail ms \<Rightarrow> map_option (\<lambda>_. MainReturns 1) (FreeResources ms)
      | MainGo ms \<Rightarrow> Some (MainMounts ms))"

text \<open>The checks of the options behind \<open>ParseCmdLine\<close>.\<close>

definition main_check :: "main_env \<Rightarrow> ('h, 'm) main_state \<Rightarrow> ('h, 'm) main_state main_step" where
  "main_check env ms =
     (let g = ms_g ms in
      if in_images (x_input g) = [] \<or> length (x_fuse_argv g) < 2 then MainFail ms
      else
        let ms1 = (if mo_morph_type (x_morphing g) = None
                   then ms\<lparr>ms_g := upd_morphing (\<lambda>m. m\<lparr>mo_morph_type := Some ''combine''\<rparr>) g\<rparr> else ms) in
        if me_stat_dir env (the (x_mountpoint g)) \<noteq> Some True then MainFail ms1 else MainGo ms1)"

definition main ::
  "main_env \<Rightarrow> 'h input_lib list \<Rightarrow> 'm morph_lib list \<Rightarrow> string list \<Rightarrow> ('h, 'm) main_result option" where
  "main env ilibs mlibs argv =
     (if ilibs = [] \<or> mlibs = [] then Some (MainReturns 1)
      else case ParseCmdLine (me_realpath env) argv
                  (InitResources\<lparr>x_may_set_fuse_allow_other := me_may_allow_other env\<rparr>) of
        CmdExit \<Rightarrow> Some (MainReturns 0)
      | CmdFalse \<Rightarrow> Some (MainReturns 1)
      | CmdTrue g \<Rightarrow>
          main_finish
            (main_then (main_check env
                \<lparr>ms_g = g, ms_ilibs = ilibs, ms_mlibs = mlibs,
                 ms_handles = replicate (length (in_images (x_input g))) None, ms_morph = None\<rparr>) (\<lambda>ms.
             main_then (main_load_images 0 (length (in_images (x_input (ms_g ms)))) ms) (\<lambda>ms.
             main_then (main_morph ms) (main_files env)))))"

end
