(* ===== verification/XmountLibs.thy ===== *)
theory XmountLibs
  imports XmountMain InputRaw InputVdi InputQcow MorphCombine MorphRaid MorphSwab MorphUnallocated
begin

text \<open>
  The tables of functions that the input libraries raw, vdi and qcow and the morphing libraries
  hand to xmount (\<open>LibXmount_*_GetFunctions\<close>) and the types they support
  (\<open>LibXmount_*_GetSupported*\<close>). A handle is one of a library's own; a library is never
  called with the handle of another. \<open>gib\<close> stands for the format \<open>%0.3f\<close> of a size in GiB; the
  text of the unallocated library is a parameter.
\<close>

section \<open>Input libraries\<close>

datatype input_handle = HRaw raw_handle | HVdi t_vdi | HQcow t_qcow

text \<open>Names behind each other with their NULs, and the empty name.\<close>

definition type_names :: "string list \<Rightarrow> string" where
  "type_names names = concat (map (\<lambda>n. n @ [CHR 0x00]) names) @ [CHR 0x00]"

text \<open>The texts for the info file. The functions test the pointer of the caller (\<open>null\<close>) where
  they mean the buffer that \<open>asprintf\<close> has allocated; the memory is taken to suffice.\<close>

definition RawGetInfofileContent ::
  "(nat \<Rightarrow> string) \<Rightarrow> raw_handle \<Rightarrow> bool \<Rightarrow> int \<times> string option" where
  "RawGetInfofileContent gib h null =
     (if null then (RAW_MEMALLOC_FAILED, None)
      else (RAW_OK, Some (''RAW image assembled of '' @ dec_string (length (rh_pieces h)) @ '' piece(s)'' @ nl @
        dec_string (rh_total_size h) @ '' bytes in total ('' @ gib (rh_total_size h) @ '' GiB)'' @ nl)))"

text \<open>The field \<open>FileSize\<close> is 0 from \<open>VdiCreateHandle\<close> on and never set.\<close>

definition VdiFileSize :: "t_vdi \<Rightarrow> nat" where "VdiFileSize v = 0"

definition VdiGetInfofileContent :: "(nat \<Rightarrow> string) \<Rightarrow> t_vdi \<Rightarrow> bool \<Rightarrow> int \<times> string option" where
  "VdiGetInfofileContent gib v null =
     (if null then (VDI_MEMALLOC_FAILED, None)
      else (VDI_OK, Some (''VDI image assembled of '' @ dec_string (VdiFileSize v) @ '' bytes in total('' @
        gib (VdiFileSize v) @ '' GiB)'' @ nl)))"

definition QcowGetInfofileContent :: "(nat \<Rightarrow> string) \<Rightarrow> t_qcow \<Rightarrow> bool \<Rightarrow> int \<times> string option" where
  "QcowGetInfofileContent gib q null =
     (let hd = qc_header q in
      if null then (QCOW_MEMALLOC_FAILED, None)
      else (QCOW_OK, Some (''Image size               '' @ dec_string (tq_Size hd) @ '' bytes in total ('' @
        gib (tq_Size hd) @ '' GiB)'' @ nl @
        ''QCow Version             '' @ dec_string (tq_Version hd) @ nl @
        ''Cluster Size             '' @ dec_string (qc_ClusterSize q) @ nl @
        ''L1 Table Size            '' @ dec_string (tq_L1Size hd) @ nl @
        ''L2 Table Size            '' @ dec_string (qc_L2Size q) @ nl)))"

definition raw_lib :: "(string \<Rightarrow> bytes option) \<Rightarrow> (nat \<Rightarrow> string) \<Rightarrow> input_handle input_lib" where
  "raw_lib fs gib =
     \<lparr>il_name = ''libxmount_input_raw.so'', il_types = type_names [''raw'', ''dd''],
      il_is_initialized = False, il_Init = RAW_OK,
      il_CreateHandle = (\<lambda>_ _. (RAW_OK, HRaw RawCreateHandle)),
      il_DestroyHandle = (\<lambda>_. Some RAW_OK),
      il_Open = (\<lambda>h names. case h of HRaw r \<Rightarrow> map_option (map_prod id HRaw) (RawOpen fs r names) | _ \<Rightarrow> None),
      il_Close = (\<lambda>h. case h of HRaw r \<Rightarrow> map_option (map_prod id HRaw) (RawClose r) | _ \<Rightarrow> None),
      il_Size = (\<lambda>h. case h of HRaw r \<Rightarrow> RawSize r | _ \<Rightarrow> (-1, 0)),
      il_Read = (\<lambda>h. case h of HRaw r \<Rightarrow> RawRead r | _ \<Rightarrow> (\<lambda>_ _. None)),
      il_OptionsParse = (\<lambda>h opts. (RAW_OK, h, opts)),
      il_GetInfofileContent = (\<lambda>h. case h of HRaw r \<Rightarrow> RawGetInfofileContent gib r | _ \<Rightarrow> (\<lambda>_. (-1, None)))\<rparr>"

definition vdi_lib ::
  "(string \<Rightarrow> bytes option) \<Rightarrow> (string \<Rightarrow> string option) \<Rightarrow> (t_vdi \<Rightarrow> int) \<Rightarrow> (nat \<Rightarrow> string) \<Rightarrow>
   input_handle input_lib" where
  "vdi_lib fs realpath log_rc gib =
     \<lparr>il_name = ''libxmount_input_vdi.so'', il_types = type_names [''vdi''],
      il_is_initialized = False, il_Init = VDI_OK,
      il_CreateHandle = (\<lambda>_ debug. (VDI_OK, HVdi (VdiCreateHandle debug))),
      il_DestroyHandle = (\<lambda>_. Some VDI_OK),
      il_Open = (\<lambda>h names. case h of HVdi v \<Rightarrow> Some (map_prod id HVdi (VdiOpen fs v names)) | _ \<Rightarrow> None),
      il_Close = (\<lambda>h. case h of HVdi v \<Rightarrow> Some (map_prod id HVdi (VdiClose v)) | _ \<Rightarrow> None),
      il_Size = (\<lambda>h. case h of HVdi v \<Rightarrow> VdiSize v | _ \<Rightarrow> (-1, 0)),
      il_Read = (\<lambda>h. case h of HVdi v \<Rightarrow> VdiRead v | _ \<Rightarrow> (\<lambda>_ _. None)),
      il_OptionsParse = (\<lambda>h opts. case h of
          HVdi v \<Rightarrow> (case VdiOptionsParse realpath log_rc v opts of (ret, _, v1, opts1) \<Rightarrow> (ret, HVdi v1, opts1))
        | _ \<Rightarrow> (-1, h, opts)),
      il_GetInfofileContent = (\<lambda>h. case h of HVdi v \<Rightarrow> VdiGetInfofileContent gib v | _ \<Rightarrow> (\<lambda>_. (-1, None)))\<rparr>"

definition qcow_lib ::
  "zlib_inflate \<Rightarrow> (string \<Rightarrow> bytes option) \<Rightarrow> (nat \<Rightarrow> string) \<Rightarrow> input_handle input_lib" where
  "qcow_lib inflate fs gib =
     \<lparr>il_name = ''libxmount_input_qcow.so'', il_types = type_names [''qcow'', ''qcow2'', ''qemu''],
      il_is_initialized = False, il_Init = QCOW_OK,
      il_CreateHandle = (\<lambda>_ _. (QCOW_OK, HQcow QcowCreateHandle)),
      il_DestroyHandle = (\<lambda>_. Some QCOW_OK),
      il_Open = (\<lambda>h names. case h of HQcow q \<Rightarrow> map_option (map_prod id HQcow) (QcowOpen fs q names) | _ \<Rightarrow> None),
      il_Close = (\<lambda>h. case h of HQcow q \<Rightarrow> Some (map_prod id HQcow (QcowClose q)) | _ \<Rightarrow> None),
      il_Size = (\<lambda>h. case h of HQcow q \<Rightarrow> QcowSize q | _ \<Rightarrow> (-1, 0)),
      il_Read = (\<lambda>h. case h of HQcow q \<Rightarrow> QcowRead inflate q | _ \<Rightarrow> (\<lambda>_ _. None)),
      il_OptionsParse = (\<lambda>h opts. (QCOW_OK, h, opts)),
      il_GetInfofileContent = (\<lambda>h. case h of HQcow q \<Rightarrow> QcowGetInfofileContent gib q | _ \<Rightarrow> (\<lambda>_. (-1, None)))\<rparr>"

section \<open>Morphing libraries\<close>

datatype morph_handle =
    HCombine combine_handle | HRaid raid_handle | HSwab swab_handle | HUnallocated unallocated_handle

text \<open>The combine and swab libraries have no text of their own.\<close>

definition combine_lib :: "morph_handle morph_lib" where
  "combine_lib =
     \<lparr>ml_name = ''libxmount_morphing_combine.so'', ml_types = type_names [''combine''],
      ml_CreateHandle = (\<lambda>_ debug. (COMBINE_OK, HCombine (CombineCreateHandle debug))),
      ml_DestroyHandle = (\<lambda>_. Some COMBINE_OK),
      ml_Morph = (\<lambda>h m. case h of HCombine c \<Rightarrow> Some (map_prod id HCombine (CombineMorph c m)) | _ \<Rightarrow> None),
      ml_Size = (\<lambda>h. case h of HCombine c \<Rightarrow> CombineSize c | _ \<Rightarrow> (-1, 0)),
      ml_Read = (\<lambda>h. case h of HCombine c \<Rightarrow> CombineRead c | _ \<Rightarrow> (\<lambda>_ _. None)),
      ml_OptionsParse = (\<lambda>h opts. (COMBINE_OK, h, opts)),
      ml_GetInfofileContent = (\<lambda>_ _. (COMBINE_OK, None))\<rparr>"

definition RaidGetInfofileContent :: "(nat \<Rightarrow> string) \<Rightarrow> raid_handle \<Rightarrow> bool \<Rightarrow> int \<times> string option" where
  "RaidGetInfofileContent gib r null =
     (if null then (RAID_MEMALLOC_FAILED, None)
      else (RAID_OK, Some (''Simulating RAID level 0 over '' @ dec_string (ra_input_images_count r) @ '' disks.'' @ nl @
        ''Chunk size: '' @ dec_string (ra_chunk_size r) @ '' bytes'' @ nl @
        ''Chunks per disk: '' @ dec_string (ra_chunks_per_image r) @ nl @
        ''Total capacity: '' @ dec_string (ra_morphed_image_size r) @ '' bytes ('' @
        gib (ra_morphed_image_size r) @ '' GiB)'' @ nl)))"

definition raid_lib :: "(nat \<Rightarrow> string) \<Rightarrow> morph_handle morph_lib" where
  "raid_lib gib =
     \<lparr>ml_name = ''libxmount_morphing_raid.so'', ml_types = type_names [''raid0''],
      ml_CreateHandle = (\<lambda>_ debug. (RAID_OK, HRaid (RaidCreateHandle debug))),
      ml_DestroyHandle = (\<lambda>_. Some RAID_OK),
      ml_Morph = (\<lambda>h m. case h of HRaid r \<Rightarrow> Some (map_prod id HRaid (RaidMorph r m)) | _ \<Rightarrow> None),
      ml_Size = (\<lambda>h. case h of HRaid r \<Rightarrow> RaidSize r | _ \<Rightarrow> (-1, 0)),
      ml_Read = (\<lambda>h. case h of HRaid r \<Rightarrow> RaidRead r | _ \<Rightarrow> (\<lambda>_ _. None)),
      ml_OptionsParse = (\<lambda>h opts. case h of
          HRaid r \<Rightarrow> (case RaidOptionsParse r opts None of (ret, r1, opts1, _) \<Rightarrow> (ret, HRaid r1, opts1))
        | _ \<Rightarrow> (-1, h, opts)),
      ml_GetInfofileContent = (\<lambda>h. case h of HRaid r \<Rightarrow> RaidGetInfofileContent gib r | _ \<Rightarrow> (\<lambda>_. (-1, None)))\<rparr>"

definition swab_lib :: "morph_handle morph_lib" where
  "swab_lib =
     \<lparr>ml_name = ''libxmount_morphing_swab.so'', ml_types = type_names [''swab''],
      ml_CreateHandle = (\<lambda>_ debug. (SWAB_OK, HSwab (SwabCreateHandle debug))),
      ml_DestroyHandle = (\<lambda>_. Some SWAB_OK),
      ml_Morph = (\<lambda>h m. case h of HSwab s \<Rightarrow> Some (map_prod id HSwab (SwabMorph s m)) | _ \<Rightarrow> None),
      ml_Size = (\<lambda>h. case h of HSwab s \<Rightarrow> SwabSize s | _ \<Rightarrow> (-1, 0)),
      ml_Read = (\<lambda>h. case h of HSwab s \<Rightarrow> SwabRead s | _ \<Rightarrow> (\<lambda>_ _. None)),
      ml_OptionsParse = (\<lambda>h opts. (SWAB_OK, h, opts)),
      ml_GetInfofileContent = (\<lambda>_ _. (SWAB_OK, None))\<rparr>"

definition unallocated_lib :: "(unallocated_handle \<Rightarrow> int \<times> string option) \<Rightarrow> morph_handle morph_lib" where
  "unallocated_lib info =
     \<lparr>ml_name = ''libxmount_morphing_unallocated.so'', ml_types = type_names [''unallocated''],
      ml_CreateHandle = (\<lambda>_ debug. (UNALLOCATED_OK, HUnallocated (UnallocatedCreateHandle debug))),
      ml_DestroyHandle = (\<lambda>_. Some UNALLOCATED_OK),
      ml_Morph = (\<lambda>h m. case h of
          HUnallocated u \<Rightarrow> map_option (map_prod id HUnallocated) (UnallocatedMorph u m) | _ \<Rightarrow> None),
      ml_Size = (\<lambda>h. case h of HUnallocated u \<Rightarrow> UnallocatedSize u | _ \<Rightarrow> (-1, 0)),
      ml_Read = (\<lambda>h. case h of HUnallocated u \<Rightarrow> UnallocatedRead u | _ \<Rightarrow> (\<lambda>_ _. None)),
      ml_OptionsParse = (\<lambda>h opts. case h of
          HUnallocated u \<Rightarrow> (case UnallocatedOptionsParse u opts of (ret, u1, opts1) \<Rightarrow> (ret, HUnallocated u1, opts1))
        | _ \<Rightarrow> (-1, h, opts)),
      ml_GetInfofileContent = (\<lambda>h. case h of HUnallocated u \<Rightarrow> (\<lambda>_. info u) | _ \<Rightarrow> (\<lambda>_. (-1, None)))\<rparr>"

section \<open>The search for a library\<close>

lemma lib_supports_names:
  assumes "\<forall>n \<in> set names. n \<noteq> [] \<and> CHR 0x00 \<notin> set n"
  shows "lib_supports (type_names names) ty = Some (ty \<in> set names)"
  using assms
proof (induction names)
  case Nil
  then show ?case by (simp add: type_names_def lib_supports.simps)
next
  case (Cons n names)
  let ?b = "type_names (n # names)"
  have b: "?b = n @ CHR 0x00 # type_names names" by (simp add: type_names_def)
  have n: "n \<noteq> []" "CHR 0x00 \<notin> set n" using Cons.prems by auto
  have t: "takeWhile (\<lambda>c. c \<noteq> CHR 0x00) ?b = n"
    unfolding b using n(2) by (induction n) auto
  have h: "hd ?b \<noteq> CHR 0x00" unfolding b using n by (cases n) auto
  have "lib_supports ?b ty = (if n = ty then Some True else lib_supports (type_names names) ty)"
    using h by (subst lib_supports.simps) (simp only: t Let_def, simp add: b)
  then show ?case using Cons by auto
qed

text \<open>The library found is the first one that names the type.\<close>

lemma find_lib_first:
  assumes "find_lib types ty ls = Some (Some l)"
  shows "\<exists>us vs. ls = us @ l # vs \<and> lib_supports (types l) ty = Some True \<and>
    (\<forall>u \<in> set us. lib_supports (types u) ty = Some False)"
  using assms
proof (induction ls)
  case (Cons k ls)
  obtain b where b: "lib_supports (types k) ty = Some b" using Cons.prems by (auto split: option.splits)
  show ?case
  proof (cases b)
    case True
    then show ?thesis using Cons.prems b by (intro exI [of _ "[]"] exI [of _ ls]) auto
  next
    case False
    then obtain us vs where "ls = us @ l # vs" "lib_supports (types l) ty = Some True"
      "\<forall>u \<in> set us. lib_supports (types u) ty = Some False"
      using Cons b by auto
    then show ?thesis using b False by (intro exI [of _ "k # us"] exI [of _ vs]) auto
  qed
qed simp

end
