(* ===== verification/XmountCmdSpec.thy ===== *)
theory XmountCmdSpec
  imports XmountCmd
begin

text \<open>
  What the command line functions promise: the strings that \<open>SplitLibraryParameters\<close> accepts
  are exactly the lists of \<open>key=value\<close> pairs; a command line written from a list of options
  is parsed to the state whose fields are read off the list (\<open>cmds_state\<close>); the names of the virtual files are distinct; the library
  found is the first one that names the type.
\<close>

section \<open>Library options\<close>

definition opt_text :: "lib_option \<Rightarrow> string" where
  "opt_text opt = lo_key opt @ ''='' @ lo_value opt"

definition opt_ok :: "lib_option \<Rightarrow> bool" where
  "opt_ok opt \<longleftrightarrow> lo_key opt \<noteq> [] \<and> CHR ''='' \<notin> set (lo_key opt) \<and> lo_value opt \<noteq> [] \<and>
     CHR '','' \<notin> set (lo_value opt) \<and> \<not> lo_valid opt"

fun opts_text :: "lib_option list \<Rightarrow> string" where
  "opts_text [] = []"
| "opts_text [opt] = opt_text opt"
| "opts_text (opt # opts) = opt_text opt @ '','' @ opts_text opts"

lemma takeWhile_stop: "x \<notin> set xs \<Longrightarrow> takeWhile (\<lambda>c. c \<noteq> x) (xs @ x # ys) = xs"
  by (induction xs) auto

lemma takeWhile_stop_or_end:
  "x \<notin> set xs \<Longrightarrow> ys = [] \<or> hd ys = x \<Longrightarrow> takeWhile (\<lambda>c. c \<noteq> x) (xs @ ys) = xs"
  by (cases ys) (auto simp: takeWhile_stop takeWhile_eq_all_conv)

lemma SplitLibraryParameters_loop_opt:
  assumes "opt_ok opt" "tail = [] \<or> hd tail = CHR '',''"
  shows "SplitLibraryParameters_loop (opt_text opt @ tail) acc = SplitLibraryParameters_loop (tl tail) (acc @ [opt])"
proof -
  note ok = assms(1) [unfolded opt_ok_def]
  have k: "takeWhile (\<lambda>c. c \<noteq> CHR ''='') (opt_text opt @ tail) = lo_key opt"
    using takeWhile_stop [of "CHR ''=''" "lo_key opt" "lo_value opt @ tail"] ok by (simp add: opt_text_def)
  have b: "drop (length (lo_key opt) + 1) (opt_text opt @ tail) = lo_value opt @ tail"
    by (simp add: opt_text_def)
  have v: "takeWhile (\<lambda>c. c \<noteq> CHR '','') (lo_value opt @ tail) = lo_value opt"
    using takeWhile_stop_or_end [OF _ assms(2)] ok by simp
  have n: "opt_text opt @ tail \<noteq> []" "length (lo_key opt) \<noteq> length (opt_text opt @ tail)"
    by (simp_all add: opt_text_def)
  have o: "\<lparr>lo_key = lo_key opt, lo_value = lo_value opt, lo_valid = False\<rparr> = opt" using ok by simp
  show ?thesis
    by (subst SplitLibraryParameters_loop.simps)
      (simp only: k Let_def b v n o, use ok in \<open>auto simp: n\<close>)
qed

lemma SplitLibraryParameters_loop_text:
  "\<forall>opt \<in> set opts. opt_ok opt \<Longrightarrow> tail = [] \<or> opts \<noteq> [] \<and> tail = '','' \<Longrightarrow>
   SplitLibraryParameters_loop (opts_text opts @ tail) acc = Some (acc @ opts)"
proof (induction opts arbitrary: acc rule: opts_text.induct)
  case 1
  then show ?case by (simp add: SplitLibraryParameters_loop.simps)
next
  case (2 opt)
  then show ?case
    using SplitLibraryParameters_loop_opt [of opt tail acc]
    by (auto simp: SplitLibraryParameters_loop.simps [of "[]"])
next
  case (3 opt o' opts)
  have "SplitLibraryParameters_loop (opts_text (opt # o' # opts) @ tail) acc =
      SplitLibraryParameters_loop (opts_text (o' # opts) @ tail) (acc @ [opt])"
    using SplitLibraryParameters_loop_opt [of opt "'','' @ opts_text (o' # opts) @ tail" acc] "3.prems"(1)
    by simp
  then show ?case using "3.IH" [of "acc @ [opt]"] "3.prems" by auto
qed

lemma split_at_takeWhile:
  assumes "length (takeWhile (\<lambda>c. c \<noteq> x) s) \<noteq> length s"
  shows "s = takeWhile (\<lambda>c. c \<noteq> x) s @ x # drop (length (takeWhile (\<lambda>c. c \<noteq> x) s) + 1) s"
proof -
  have "dropWhile (\<lambda>c. c \<noteq> x) s \<noteq> []"
    using assms by (metis append_Nil2 takeWhile_dropWhile_id)
  then obtain y ys where d: "dropWhile (\<lambda>c. c \<noteq> x) s = y # ys" by (cases "dropWhile (\<lambda>c. c \<noteq> x) s") auto
  then have "y = x" using hd_dropWhile [of "\<lambda>c. c \<noteq> x" s] by auto
  moreover have "drop (length (takeWhile (\<lambda>c. c \<noteq> x) s)) s = y # ys"
    using d by (simp add: dropWhile_eq_drop)
  then have "drop (length (takeWhile (\<lambda>c. c \<noteq> x) s) + 1) s = ys"
    by (metis drop_drop add.commute drop0 drop_Suc_Cons One_nat_def)
  ultimately show ?thesis using d takeWhile_dropWhile_id [of "\<lambda>c. c \<noteq> x" s] by simp
qed

lemma SplitLibraryParameters_loop_only:
  "SplitLibraryParameters_loop s acc = Some opts \<Longrightarrow>
   \<exists>new tail. opts = acc @ new \<and> (\<forall>opt \<in> set new. opt_ok opt) \<and> s = opts_text new @ tail \<and>
     (tail = [] \<or> new \<noteq> [] \<and> tail = '','')"
proof (induction s acc rule: SplitLibraryParameters_loop.induct)
  case (1 s acc)
  show ?case
  proof (cases "s = []")
    case True
    then show ?thesis using "1.prems"
      by (intro exI [of _ "[]"]) (simp add: SplitLibraryParameters_loop.simps)
  next
    case False
    define key where "key = takeWhile (\<lambda>c. c \<noteq> CHR ''='') s"
    define buf1 where "buf1 = drop (length key + 1) s"
    define val where "val = takeWhile (\<lambda>c. c \<noteq> CHR '','') buf1"
    define buf2 where "buf2 = drop (length val) buf1"
    define opt where "opt = \<lparr>lo_key = key, lo_value = val, lo_valid = False\<rparr>"
    define nxt where "nxt = (if buf2 \<noteq> [] then tl buf2 else buf2)"
    have "SplitLibraryParameters_loop s acc =
        (if key = [] \<or> length key = length s then None
         else if val = [] then None else SplitLibraryParameters_loop nxt (acc @ [opt]))"
      using False unfolding SplitLibraryParameters_loop.simps [of s acc] Let_def key_def [symmetric]
        buf1_def [symmetric] val_def [symmetric] buf2_def [symmetric] opt_def [symmetric] nxt_def [symmetric]
      by (simp only: if_False)
    then have k: "key \<noteq> []" "length key \<noteq> length s" and v: "val \<noteq> []"
      and l: "SplitLibraryParameters_loop nxt (acc @ [opt]) = Some opts"
      using "1.prems" by (auto split: if_splits)
    have "\<exists>new tail. opts = (acc @ [opt]) @ new \<and> (\<forall>opt \<in> set new. opt_ok opt) \<and> nxt = opts_text new @ tail \<and>
        (tail = [] \<or> new \<noteq> [] \<and> tail = '','')"
      using "1.IH" [OF False key_def _ buf1_def val_def buf2_def] k v l
      by (simp add: opt_def nxt_def)
    then obtain new tail where n: "opts = (acc @ [opt]) @ new" "\<forall>opt \<in> set new. opt_ok opt"
      "nxt = opts_text new @ tail" "tail = [] \<or> new \<noteq> [] \<and> tail = '',''" by blast
    have ok: "opt_ok opt"
      using k v set_takeWhileD by (fastforce simp: opt_ok_def opt_def key_def val_def)
    have s: "s = opt_text opt @ buf2"
    proof -
      have "s = key @ CHR ''='' # buf1"
        using split_at_takeWhile [of "CHR ''=''" s] k(2) by (simp add: key_def buf1_def)
      moreover have "buf1 = val @ buf2"
        by (simp add: buf2_def val_def dropWhile_eq_drop [symmetric])
      ultimately show ?thesis by (simp add: opt_text_def opt_def)
    qed
    have b2: "buf2 = [] \<or> buf2 = CHR '','' # nxt"
    proof (cases "buf2 = []")
      case b: False
      then have "length val \<noteq> length buf1" by (auto simp: buf2_def)
      then have "buf1 = val @ CHR '','' # drop (length val + 1) buf1"
        using split_at_takeWhile [of "CHR '',''" buf1] by (simp add: val_def)
      then have "buf2 = CHR '','' # drop (length val + 1) buf1"
        unfolding buf2_def by (metis append_eq_conv_conj)
      then show ?thesis by (simp add: nxt_def)
    qed simp
    have nx: "buf2 = [] \<Longrightarrow> nxt = []" by (simp add: nxt_def)
    show ?thesis
    proof (cases "new = []")
      case True
      then have "nxt = []" using n(3,4) by simp
      then have "s = opts_text [opt] @ buf2" "buf2 = [] \<or> buf2 = '',''" using s b2 by simp_all
      then show ?thesis using n(1) ok True by (intro exI [of _ "[opt]"] exI [of _ buf2]) simp
    next
      case ne: False
      then obtain o1 os where new: "new = o1 # os" by (cases new) auto
      have "opts_text new \<noteq> []" using n(2) by (cases os) (auto simp: new opt_text_def)
      then have "nxt \<noteq> []" using n(3) by simp
      then have "buf2 = CHR '','' # nxt" using b2 nx by blast
      then have "s = opts_text (opt # new) @ tail" using s n(3) by (simp add: new)
      then show ?thesis using n ok ne by (intro exI [of _ "opt # new"] exI [of _ tail]) auto
    qed
  qed
qed

section \<open>Command lines\<close>

text \<open>The options of xmount, with their values.\<close>

datatype cmd_opt =
    CmdIn string "string list"
  | CmdInOpts "lib_option list"
  | CmdMorph string
  | CmdMorphOpts "lib_option list"
  | CmdOffset nat
  | CmdSizeLimit nat
  | CmdOut VirtImageType
  | CmdCache string
  | CmdOwCache string
  | CmdRoCache string

fun out_name :: "VirtImageType \<Rightarrow> string" where
  "out_name VirtImageType_DD = ''raw''"
| "out_name VirtImageType_DMG = ''dmg''"
| "out_name VirtImageType_VDI = ''vdi''"
| "out_name VirtImageType_VHD = ''vhd''"
| "out_name VirtImageType_VMDK = ''vmdk''"
| "out_name VirtImageType_VMDKS = ''vmdks''"

fun cmd_text :: "cmd_opt \<Rightarrow> string list" where
  "cmd_text (CmdIn ty files) = [''--in'', ty] @ files"
| "cmd_text (CmdInOpts opts) = [''--inopts'', opts_text opts]"
| "cmd_text (CmdMorph ty) = [''--morph'', ty]"
| "cmd_text (CmdMorphOpts opts) = [''--morphopts'', opts_text opts]"
| "cmd_text (CmdOffset n) = [''--offset'', dec_string n]"
| "cmd_text (CmdSizeLimit n) = [''--sizelimit'', dec_string n]"
| "cmd_text (CmdOut t) = [''--out'', out_name t]"
| "cmd_text (CmdCache f) = [''--cache'', f]"
| "cmd_text (CmdOwCache f) = [''--owcache'', f]"
| "cmd_text (CmdRoCache f) = [''--rocache'', f]"

text \<open>What an option means.\<close>

fun cmd_effect :: "cmd_opt \<Rightarrow> xmount_data \<Rightarrow> xmount_data" where
  "cmd_effect (CmdIn ty files) g = add_input_image (new_input_image ty files) g"
| "cmd_effect (CmdInOpts opts) g = upd_input (\<lambda>d. d\<lparr>in_lib_params := Some opts\<rparr>) g"
| "cmd_effect (CmdMorph ty) g = upd_morphing (\<lambda>m. m\<lparr>mo_morph_type := Some ty\<rparr>) g"
| "cmd_effect (CmdMorphOpts opts) g = upd_morphing (\<lambda>m. m\<lparr>mo_lib_params := Some opts\<rparr>) g"
| "cmd_effect (CmdOffset n) g = upd_input (\<lambda>d. d\<lparr>in_image_offset := n\<rparr>) g"
| "cmd_effect (CmdSizeLimit n) g = upd_input (\<lambda>d. d\<lparr>in_image_size_limit := n\<rparr>) g"
| "cmd_effect (CmdOut t) g = upd_output (\<lambda>od. od\<lparr>out_VirtImageType := t\<rparr>) g"
| "cmd_effect (CmdCache f) g = set_writable (set_cache_file f g)"
| "cmd_effect (CmdOwCache f) g =
     upd_cache (\<lambda>c. c\<lparr>ca_overwrite_cache := True\<rparr>) (set_writable (set_cache_file f g))"
| "cmd_effect (CmdRoCache f) g = set_cache_file f g"

text \<open>What the parser asks of an option, and of the options before it.\<close>

fun cmd_opt_ok :: "cmd_opt \<Rightarrow> xmount_data \<Rightarrow> bool" where
  "cmd_opt_ok (CmdIn ty files) g \<longleftrightarrow> files \<noteq> [] \<and> (\<forall>f \<in> set files. take 2 f \<noteq> ''--'')"
| "cmd_opt_ok (CmdInOpts opts) g \<longleftrightarrow>
     opts \<noteq> [] \<and> (\<forall>opt \<in> set opts. opt_ok opt) \<and> in_lib_params (x_input g) = None"
| "cmd_opt_ok (CmdMorph ty) g \<longleftrightarrow> mo_morph_type (x_morphing g) = None"
| "cmd_opt_ok (CmdMorphOpts opts) g \<longleftrightarrow>
     opts \<noteq> [] \<and> (\<forall>opt \<in> set opts. opt_ok opt) \<and> mo_lib_params (x_morphing g) = None"
| "cmd_opt_ok (CmdOffset n) g \<longleftrightarrow> n < 2 ^ 64"
| "cmd_opt_ok (CmdSizeLimit n) g \<longleftrightarrow> n < 2 ^ 64"
| "cmd_opt_ok _ g \<longleftrightarrow> True"

fun cmds_ok :: "cmd_opt list \<Rightarrow> xmount_data \<Rightarrow> bool" where
  "cmds_ok [] g \<longleftrightarrow> True"
| "cmds_ok (c # cs) g \<longleftrightarrow> cmd_opt_ok c g \<and> cmds_ok cs (cmd_effect c g)"

lemma StrToUint64_dec: "n < 2 ^ 64 \<Longrightarrow> StrToUint64 (dec_string n) = (n, 1)"
  by (simp add: StrToUint64_def strtoull_def scan_number_dec)

lemma parse_out_name: "parse_out_type (out_name t) = Some t"
  by (cases t) (simp_all add: parse_out_type_def)

lemma SplitLibraryParameters_text:
  assumes "opts \<noteq> []" "\<forall>opt \<in> set opts. opt_ok opt"
  shows "SplitLibraryParameters (opts_text opts) = (C_TRUE, Some opts)"
proof -
  obtain o1 os where new: "opts = o1 # os" using assms(1) by (cases opts) auto
  have "opts_text opts \<noteq> []" using assms(2) by (cases os) (auto simp: new opt_text_def)
  then show ?thesis
    using SplitLibraryParameters_loop_text [OF assms(2), of "[]" "[]"] by (simp add: SplitLibraryParameters_def)
qed

lemma ParseCmdLine_loop_value:
  assumes "arg \<in> set cmd_value_options" "ParseCmdLine_value arg v (cs_g st) = Some g"
  shows "ParseCmdLine_loop (arg # v # rest) st = ParseCmdLine_loop rest (st\<lparr>cs_g := g\<rparr>)"
proof -
  have a: "take 1 arg = ''-''" "length arg > 1" "arg ! 1 = CHR ''-''" "arg \<noteq> ''--in''"
    using assms(1) by (auto simp: cmd_value_options_def)
  have "ParseCmdLine_step arg (v # rest) st = StepGo (st\<lparr>cs_g := g\<rparr>) rest"
    using a assms by (simp add: ParseCmdLine_step_def ParseCmdLine_xmount_def)
  then show ?thesis using a(1) by simp
qed

text \<open>The arguments behind an option: the mount point, or another option.\<close>

definition args_follow :: "string list \<Rightarrow> bool" where
  "args_follow rest \<longleftrightarrow> rest \<noteq> [] \<and> (tl rest = [] \<or> take 2 (hd rest) = ''--'')"

lemma ParseCmdLine_loop_in:
  assumes "cs_old_in st = None" "cmd_opt_ok (CmdIn ty files) (cs_g st)" "args_follow rest"
  shows "ParseCmdLine_loop (''--in'' # ty # files @ rest) st =
    ParseCmdLine_loop rest (upd_g (add_input_image (new_input_image ty files)) st)"
proof -
  have f: "files \<noteq> []" "\<forall>f \<in> set files. take 2 f \<noteq> ''--''" using assms(2) by auto
  have r: "rest \<noteq> []" using assms(3) by (simp add: args_follow_def)
  have "takeWhile (\<lambda>a. take 2 a \<noteq> ''--'') (butlast rest) = []"
    using assms(3) by (cases rest; cases "tl rest") (auto simp: args_follow_def)
  then have t: "takeWhile (\<lambda>a. take 2 a \<noteq> ''--'') (butlast (files @ rest)) = files"
    using f(2) r by (simp add: butlast_append takeWhile_append2)
  obtain n ns where n: "files @ rest = n # ns" using f(1) by (cases files) auto
  have "ParseCmdLine_in (ty # files @ rest) st =
      StepGo (upd_g (add_input_image (new_input_image ty files)) st) rest"
    using assms(1) f(1) t by (simp add: ParseCmdLine_in_def n Let_def) (simp add: n [symmetric])
  then have "ParseCmdLine_step ''--in'' (ty # files @ rest) st =
      StepGo (upd_g (add_input_image (new_input_image ty files)) st) rest"
    by (simp add: ParseCmdLine_step_def ParseCmdLine_xmount_def)
  then show ?thesis by simp
qed

lemma ParseCmdLine_loop_opt:
  assumes "cmd_opt_ok c (cs_g st)" "cs_old_in st = None" "args_follow rest"
  shows "ParseCmdLine_loop (cmd_text c @ rest) st = ParseCmdLine_loop rest (upd_g (cmd_effect c) st)"
proof (cases "\<exists>ty files. c = CmdIn ty files")
  case True
  then obtain ty files where c: "c = CmdIn ty files" by blast
  have e: "cmd_effect (CmdIn ty files) = add_input_image (new_input_image ty files)"
    by (rule ext) simp
  show ?thesis
    unfolding c e using ParseCmdLine_loop_in [OF assms(2) assms(1) [unfolded c] assms(3)] by simp
next
  case False
  then obtain arg v where t: "cmd_text c = [arg, v]" "arg \<in> set cmd_value_options"
    "ParseCmdLine_value arg v (cs_g st) = Some (cmd_effect c (cs_g st))"
    using assms(1)
    by (cases c) (auto simp: ParseCmdLine_value_def cmd_value_options_def SplitLibraryParameters_text
        StrToUint64_dec parse_out_name C_TRUE_def C_FALSE_def)
  show ?thesis using ParseCmdLine_loop_value [OF t(2,3)] by (simp add: t(1) upd_g_def)
qed

lemma cmd_text_follow: "args_follow (concat (map cmd_text cs) @ [mnt])"
proof (cases cs)
  case (Cons c cs')
  then show ?thesis by (cases c) (simp_all add: args_follow_def)
qed (simp add: args_follow_def)

lemma ParseCmdLine_loop_opts:
  assumes "cmds_ok cs (cs_g st)" "cs_old_in st = None" "take 1 mnt \<noteq> ''-''"
  shows "ParseCmdLine_loop (concat (map cmd_text cs) @ [mnt]) st = StepGo (upd_g (fold cmd_effect cs) st) [mnt]"
  using assms
proof (induction cs arbitrary: st)
  case Nil
  then show ?case by (simp add: upd_g_def)
next
  case (Cons c cs)
  have "ParseCmdLine_loop (concat (map cmd_text (c # cs)) @ [mnt]) st =
      ParseCmdLine_loop (concat (map cmd_text cs) @ [mnt]) (upd_g (cmd_effect c) st)"
    using ParseCmdLine_loop_opt [OF _ Cons.prems(2) cmd_text_follow] Cons.prems(1) by simp
  also have "\<dots> = StepGo (upd_g (fold cmd_effect cs) (upd_g (cmd_effect c) st)) [mnt]"
    using Cons.prems by (intro Cons.IH) (simp_all add: upd_g_def)
  finally show ?case by (simp add: upd_g_def)
qed

lemma cmd_effect_misc [simp]:
  "x_fuse_argv (cmd_effect c g) = x_fuse_argv g" "x_mountpoint (cmd_effect c g) = x_mountpoint g"
  "x_may_set_fuse_allow_other (cmd_effect c g) = x_may_set_fuse_allow_other g"
  by (cases c; simp add: add_input_image_def upd_input_def upd_morphing_def upd_output_def upd_cache_def
      set_writable_def set_cache_file_def)+

lemma fold_cmd_effect_misc [simp]:
  "x_fuse_argv (fold cmd_effect cs g) = x_fuse_argv g" "x_mountpoint (fold cmd_effect cs g) = x_mountpoint g"
  "x_may_set_fuse_allow_other (fold cmd_effect cs g) = x_may_set_fuse_allow_other g"
  by (induction cs arbitrary: g) simp_all

lemma cmd_effect_argv: "cmd_effect c (g\<lparr>x_fuse_argv := a\<rparr>) = (cmd_effect c g)\<lparr>x_fuse_argv := a\<rparr>"
  by (cases c) (simp_all add: add_input_image_def upd_input_def upd_morphing_def upd_output_def upd_cache_def
      set_writable_def set_cache_file_def)

lemma fold_cmd_effect_argv:
  "fold cmd_effect cs (g\<lparr>x_fuse_argv := a\<rparr>) = (fold cmd_effect cs g)\<lparr>x_fuse_argv := a\<rparr>"
  by (induction cs arbitrary: g) (simp_all add: cmd_effect_argv)

lemma cmds_ok_argv: "cmds_ok cs (g\<lparr>x_fuse_argv := a\<rparr>) = cmds_ok cs g"
proof (induction cs arbitrary: g)
  case (Cons c cs)
  have "cmd_opt_ok c (g\<lparr>x_fuse_argv := a\<rparr>) = cmd_opt_ok c g" by (cases c) simp_all
  then show ?case using Cons.IH by (simp add: cmd_effect_argv)
qed simp

text \<open>The arguments that FUSE gets.\<close>

definition fuse_args :: "(string \<Rightarrow> string option) \<Rightarrow> string \<Rightarrow> string \<Rightarrow> xmount_data \<Rightarrow> string list" where
  "fuse_args realpath prog mnt g =
     [prog, mnt, ''-o'', ''subtype=xmount'' @
       (case in_images (x_input g) of [] \<Rightarrow> [] | img # _ \<Rightarrow> fuse_fsname realpath (hd (ii_files img))) @
       (if x_may_set_fuse_allow_other g then '',allow_other'' else [])]"

lemma ParseCmdLine_cmds:
  assumes "cmds_ok cs g" "take 1 mnt \<noteq> ''-''"
  shows "ParseCmdLine realpath (prog # concat (map cmd_text cs) @ [mnt]) g =
    CmdTrue ((fold cmd_effect cs g)\<lparr>x_mountpoint := Some mnt,
      x_fuse_argv := fuse_args realpath prog mnt (fold cmd_effect cs g)\<rparr>)"
proof -
  let ?st = "\<lparr>cs_g = g\<lparr>x_fuse_argv := [prog]\<rparr>, cs_FuseMinusOControl = True, cs_FuseAllowOther = True,
      cs_old_in = None\<rparr>"
  have "ParseCmdLine_loop (concat (map cmd_text cs) @ [mnt]) ?st = StepGo (upd_g (fold cmd_effect cs) ?st) [mnt]"
    using assms by (intro ParseCmdLine_loop_opts) (simp_all add: cmds_ok_argv)
  then show ?thesis
    by (simp add: ParseCmdLine_def ParseCmdLine_old_in_def ParseCmdLine_options_def upd_g_def
        fold_cmd_effect_argv add_fuse_args_def fuse_args_def Let_def)
qed

section \<open>The state a command line describes\<close>

text \<open>The state after the options of a command line, each field read off the list of options: the
  images in their order, the last offset, size limit, output format and cache file. The output is
  writable when \<open>--cache\<close> or \<open>--owcache\<close> is given anywhere; \<open>--rocache\<close> does not take
  that back.\<close>

fun opt_image where "opt_image (CmdIn ty files) = Some (ty, files)" | "opt_image _ = None"
fun opt_inopts where "opt_inopts (CmdInOpts opts) = Some opts" | "opt_inopts _ = None"
fun opt_morph where "opt_morph (CmdMorph ty) = Some ty" | "opt_morph _ = None"
fun opt_morphopts where "opt_morphopts (CmdMorphOpts opts) = Some opts" | "opt_morphopts _ = None"
fun opt_offset where "opt_offset (CmdOffset n) = Some n" | "opt_offset _ = None"
fun opt_sizelimit where "opt_sizelimit (CmdSizeLimit n) = Some n" | "opt_sizelimit _ = None"
fun opt_out where "opt_out (CmdOut t) = Some t" | "opt_out _ = None"

fun opt_cache_file where
  "opt_cache_file (CmdCache f) = Some f"
| "opt_cache_file (CmdOwCache f) = Some f"
| "opt_cache_file (CmdRoCache f) = Some f"
| "opt_cache_file _ = None"

abbreviation given :: "(cmd_opt \<Rightarrow> 'a option) \<Rightarrow> cmd_opt list \<Rightarrow> 'a list" where
  "given \<equiv> List.map_filter"

definition last_given :: "(cmd_opt \<Rightarrow> 'a option) \<Rightarrow> cmd_opt list \<Rightarrow> 'a \<Rightarrow> 'a" where
  "last_given f cs old = last (old # given f cs)"

definition last_given_opt :: "(cmd_opt \<Rightarrow> 'a option) \<Rightarrow> cmd_opt list \<Rightarrow> 'a option \<Rightarrow> 'a option" where
  "last_given_opt f cs old = last (old # map Some (given f cs))"

lemma given_simps [simp]:
  "given f [] = []" "given f (c # cs) = (case f c of None \<Rightarrow> given f cs | Some v \<Rightarrow> v # given f cs)"
  by (simp_all add: List.map_filter_def split: option.split)

lemma last_given_simps [simp]:
  "last_given f [] old = old" "last_given_opt g [] old' = old'"
  "last_given f (c # cs) old = last_given f cs (case f c of None \<Rightarrow> old | Some v \<Rightarrow> v)"
  "last_given_opt g (c # cs) old' = last_given_opt g cs (case g c of None \<Rightarrow> old' | Some v \<Rightarrow> Some v)"
  by (simp_all add: last_given_def last_given_opt_def split: option.split)

definition cmds_state :: "cmd_opt list \<Rightarrow> xmount_data \<Rightarrow> xmount_data" where
  "cmds_state cs g = g\<lparr>
     x_input := (x_input g)\<lparr>
       in_lib_params := last_given_opt opt_inopts cs (in_lib_params (x_input g)),
       in_images := in_images (x_input g) @ map (\<lambda>(ty, files).
         \<lparr>ii_type = ty, ii_files = files, ii_Read = (\<lambda>_ _. None), ii_size = 0\<rparr>) (given opt_image cs),
       in_image_offset := last_given opt_offset cs (in_image_offset (x_input g)),
       in_image_size_limit := last_given opt_sizelimit cs (in_image_size_limit (x_input g))\<rparr>,
     x_morphing := (x_morphing g)\<lparr>
       mo_morph_type := last_given_opt opt_morph cs (mo_morph_type (x_morphing g)),
       mo_lib_params := last_given_opt opt_morphopts cs (mo_lib_params (x_morphing g))\<rparr>,
     x_cache := (x_cache g)\<lparr>
       ca_cache_file := last_given_opt opt_cache_file cs (ca_cache_file (x_cache g)),
       ca_overwrite_cache := (ca_overwrite_cache (x_cache g) \<or> (\<exists>f. CmdOwCache f \<in> set cs))\<rparr>,
     x_output := (x_output g)\<lparr>
       out_VirtImageType := last_given opt_out cs (out_VirtImageType (x_output g)),
       out_writable := (out_writable (x_output g) \<or> (\<exists>f. CmdCache f \<in> set cs \<or> CmdOwCache f \<in> set cs))\<rparr>\<rparr>"

lemma cmds_state_fold: "fold cmd_effect cs g = cmds_state cs g"
proof (induction cs arbitrary: g)
  case Nil
  then show ?case by (simp add: cmds_state_def)
next
  case (Cons c cs)
  have "cmds_state (c # cs) g = cmds_state cs (cmd_effect c g)"
    by (cases c) (simp_all add: cmds_state_def add_input_image_def upd_input_def upd_morphing_def
        upd_output_def upd_cache_def set_writable_def set_cache_file_def new_input_image_def ex_disj_distrib)
  then show ?case using Cons.IH by simp
qed

text \<open>The command lines: every option is well written, and each of the options for the libraries
  stands at most once.\<close>

fun opt_written :: "cmd_opt \<Rightarrow> bool" where
  "opt_written (CmdIn ty files) \<longleftrightarrow> files \<noteq> [] \<and> (\<forall>f \<in> set files. take 2 f \<noteq> ''--'')"
| "opt_written (CmdInOpts opts) \<longleftrightarrow> opts \<noteq> [] \<and> (\<forall>opt \<in> set opts. opt_ok opt)"
| "opt_written (CmdMorphOpts opts) \<longleftrightarrow> opts \<noteq> [] \<and> (\<forall>opt \<in> set opts. opt_ok opt)"
| "opt_written (CmdOffset n) \<longleftrightarrow> n < 2 ^ 64"
| "opt_written (CmdSizeLimit n) \<longleftrightarrow> n < 2 ^ 64"
| "opt_written _ \<longleftrightarrow> True"

definition cmds_written :: "cmd_opt list \<Rightarrow> bool" where
  "cmds_written cs \<longleftrightarrow> (\<forall>c \<in> set cs. opt_written c) \<and> length (given opt_inopts cs) \<le> 1 \<and>
     length (given opt_morph cs) \<le> 1 \<and> length (given opt_morphopts cs) \<le> 1"

lemma cmds_ok_written:
  "(\<forall>c \<in> set cs. opt_written c) \<Longrightarrow>
   length (given opt_inopts cs) + (if in_lib_params (x_input g) = None then 0 else 1) \<le> 1 \<Longrightarrow>
   length (given opt_morph cs) + (if mo_morph_type (x_morphing g) = None then 0 else 1) \<le> 1 \<Longrightarrow>
   length (given opt_morphopts cs) + (if mo_lib_params (x_morphing g) = None then 0 else 1) \<le> 1 \<Longrightarrow>
   cmds_ok cs g"
proof (induction cs arbitrary: g)
  case (Cons c cs)
  have "cmd_opt_ok c g" using Cons.prems by (cases c) (auto split: if_splits)
  moreover have "cmds_ok cs (cmd_effect c g)"
    using Cons.prems by (intro Cons.IH; cases c)
      (auto simp: add_input_image_def upd_input_def upd_morphing_def upd_output_def upd_cache_def
        set_writable_def set_cache_file_def split: if_splits)
  ultimately show ?case by simp
qed simp

section \<open>Names of the virtual files\<close>

lemma behind_last_no: "c \<notin> set (behind_last c s)"
  using set_takeWhileD by (fastforce simp: behind_last_def)

lemma before_last_subset: "set (before_last c s) \<subseteq> set s"
proof -
  have "set (tl (dropWhile (\<lambda>x. x \<noteq> c) (rev s))) \<subseteq> set (rev s)"
    using set_dropWhileD by (metis list.set_sel(2) subsetI tl_Nil)
  then show ?thesis by (simp add: before_last_def)
qed

section \<open>Properties\<close>

text \<open>C32: \<open>SplitLibraryParameters\<close> accepts exactly the strings that are a list of
  \<open>key=value\<close> pairs separated by commas, where a comma may follow the last one, and returns
  these pairs in their order.\<close>

theorem split_library_parameters_exact:
  assumes "s \<noteq> []"
  shows "SplitLibraryParameters s = (C_TRUE, Some opts) \<longleftrightarrow>
    opts \<noteq> [] \<and> (\<forall>opt \<in> set opts. opt_ok opt) \<and> (s = opts_text opts \<or> s = opts_text opts @ '','')"
proof
  assume "SplitLibraryParameters s = (C_TRUE, Some opts)"
  then have "SplitLibraryParameters_loop s [] = Some opts"
    using assms by (auto simp: SplitLibraryParameters_def split: option.splits)
  from SplitLibraryParameters_loop_only [OF this] show "opts \<noteq> [] \<and> (\<forall>opt \<in> set opts. opt_ok opt) \<and>
      (s = opts_text opts \<or> s = opts_text opts @ '','')"
    using assms by auto
next
  assume a: "opts \<noteq> [] \<and> (\<forall>opt \<in> set opts. opt_ok opt) \<and> (s = opts_text opts \<or> s = opts_text opts @ '','')"
  then have "SplitLibraryParameters_loop s [] = Some ([] @ opts)"
    using SplitLibraryParameters_loop_text [of opts "[]" "[]"] SplitLibraryParameters_loop_text [of opts "'',''" "[]"]
    by auto
  then show "SplitLibraryParameters s = (C_TRUE, Some opts)" using assms by (simp add: SplitLibraryParameters_def)
qed

lemma split_library_parameters_exact_witness:
  "SplitLibraryParameters ''a=1,b=x=y'' =
     (C_TRUE, Some [\<lparr>lo_key = ''a'', lo_value = ''1'', lo_valid = False\<rparr>,
                    \<lparr>lo_key = ''b'', lo_value = ''x=y'', lo_valid = False\<rparr>])"
  by (subst split_library_parameters_exact) (simp_all add: opt_ok_def opt_text_def)

text \<open>C31: a command line that is written from any list of options (each library option at most
  once), their values and a mount point is parsed to the state whose fields are read off the
  list: the images in their order, the last offset, size limit, format and cache file, and an
  output that is writable exactly when \<open>--cache\<close> or \<open>--owcache\<close> stands in the list, also
  beside a \<open>--rocache\<close>, of which the manual page says that it does not allow further writes; and
  FUSE gets the program, the mount point and the options with the path of the first file.\<close>

theorem parse_cmd_line_options:
  assumes "cmds_written cs" "take 1 mnt \<noteq> ''-''"
    and "g = InitResources\<lparr>x_may_set_fuse_allow_other := allow\<rparr>"
  shows "ParseCmdLine realpath (prog # concat (map cmd_text cs) @ [mnt]) g =
    CmdTrue ((cmds_state cs g)\<lparr>x_mountpoint := Some mnt,
      x_fuse_argv := [prog, mnt, ''-o'', ''subtype=xmount'' @
        (case given opt_image cs of [] \<Rightarrow> []
         | (_, files) # _ \<Rightarrow> fuse_fsname realpath (hd files)) @
        (if allow then '',allow_other'' else [])]\<rparr>)"
proof -
  have ok: "cmds_ok cs g"
    using assms(1,3) by (intro cmds_ok_written) (simp_all add: cmds_written_def InitResources_def)
  show ?thesis
    unfolding ParseCmdLine_cmds [OF ok assms(2)] cmds_state_fold
    by (simp add: fuse_args_def cmds_state_def assms(3) InitResources_def split: list.split prod.split)
qed

lemma parse_cmd_line_options_witness:
  "\<exists>g. ParseCmdLine (\<lambda>_. None) [''xmount'', ''--in'', ''raw'', ''a.dd'', ''b.dd'', ''--out'', ''vdi'', ''--cache'',
      ''c'', ''--rocache'', ''r'', ''/mnt''] InitResources = CmdTrue g \<and>
    map ii_files (in_images (x_input g)) = [[''a.dd'', ''b.dd'']] \<and> out_writable (x_output g) \<and>
    ca_cache_file (x_cache g) = Some ''r'' \<and>
    out_VirtImageType (x_output g) = VirtImageType_VDI \<and> x_mountpoint g = Some ''/mnt''"
  using parse_cmd_line_options [of "[CmdIn ''raw'' [''a.dd'', ''b.dd''], CmdOut VirtImageType_VDI, CmdCache ''c'',
      CmdRoCache ''r'']" "''/mnt''" InitResources False "\<lambda>_. None" "''xmount''"]
  by (simp add: InitResources_def cmds_state_def cmds_written_def)

text \<open>The virtual files get distinct names in the root directory, none of them the
  directory itself, whatever the name of the input file.\<close>

theorem virt_file_names_distinct:
  "let od = x_output (ExtractVirtFileNames name g);
       paths = [out_virtual_image_path od, out_info_path od] @
         (if is_vmdk (out_VirtImageType od) then [the (vm_virtual_vmdk_path (out_vmdk od))] else [])
   in distinct paths \<and> list_all (\<lambda>p. hd p = CHR ''/'' \<and> CHR ''/'' \<notin> set (tl p) \<and> p \<noteq> ''/'') paths \<and>
     (if is_vmdk (out_VirtImageType od) then vm_virtual_vmdk_path (out_vmdk od) \<noteq> None else True)"
proof -
  have "CHR ''/'' \<notin> set (before_last CHR ''.'' (behind_last CHR ''/'' name))"
    using before_last_subset behind_last_no by (metis subsetD)
  then show ?thesis
    by (cases "out_VirtImageType (x_output g)")
      (simp_all add: ExtractVirtFileNames_def Let_def is_vmdk_def virt_extension_def upd_vmdk_def upd_output_def)
qed

lemma virt_file_names_example:
  "out_virtual_image_path (x_output (ExtractVirtFileNames ''/img/disk.e01.raw'' InitResources)) = ''/disk.e01.dd''"
  by (simp add: ExtractVirtFileNames_def InitResources_def behind_last_def before_last_def is_vmdk_def
      virt_extension_def upd_output_def Let_def)

end
