(* ===== verification/XmountMount.thy ===== *)
theory XmountMount
  imports XmountLibs XmountCmdSpec XmountSession XmountExport
begin

text \<open>
  From the command line to the mounted file system: if the libraries open the input images,
  \<open>main\<close> reaches \<open>fuse_main\<close> in a state that satisfies the invariant of the FUSE sessions and
  shows the images under \<open>--offset\<close> and \<open>--sizelimit\<close>, combined, in the output format.
\<close>

section \<open>Loading the input images\<close>

text \<open>The library of an image, the handle after \<open>Open\<close>, and what \<open>main\<close> makes of the image.\<close>

definition image_lib :: "'h input_lib list \<Rightarrow> input_image \<Rightarrow> 'h input_lib" where
  "image_lib ilibs img = ilibs ! the (the (FindInputLib ilibs img))"

definition opened_handle :: "'h input_lib list \<Rightarrow> bool \<Rightarrow> input_image \<Rightarrow> 'h" where
  "opened_handle ilibs debug img =
     (let lib = image_lib ilibs img in
      snd (the (il_Open lib (snd (il_CreateHandle lib (ii_type img) debug)) (ii_files img))))"

definition loaded_input :: "'h input_lib list \<Rightarrow> bool \<Rightarrow> nat \<Rightarrow> nat \<Rightarrow> input_image \<Rightarrow> input_image" where
  "loaded_input ilibs debug off limit img =
     (let lib = image_lib ilibs img; h = opened_handle ilibs debug img in
      img\<lparr>ii_Read := il_Read lib h, ii_size := the (main_image_size off limit (snd (il_Size lib h)))\<rparr>)"

text \<open>A library is found for the image, opens it without options as an image with the contents
  \<open>d\<close>, and the offset and the limit fit.\<close>

definition opens_as :: "'h input_lib list \<Rightarrow> bool \<Rightarrow> nat \<Rightarrow> nat \<Rightarrow> input_image \<Rightarrow> bytes \<Rightarrow> bool" where
  "opens_as ilibs debug off limit img d \<longleftrightarrow>
     (let lib = image_lib ilibs img; h = opened_handle ilibs debug img in
      (\<exists>k. FindInputLib ilibs img = Some (Some k)) \<and> il_Init lib = 0 \<and>
      fst (il_CreateHandle lib (ii_type img) debug) = 0 \<and>
      map_option fst (il_Open lib (snd (il_CreateHandle lib (ii_type img) debug)) (ii_files img)) = Some 0 \<and>
      il_Size lib h = (0, length d) \<and> main_image_size off limit (length d) \<noteq> None \<and>
      lib_image_ok (img\<lparr>ii_Read := il_Read lib h\<rparr>) d)"

text \<open>What its library says of an image.\<close>

definition image_info :: "'h input_lib list \<Rightarrow> bool \<Rightarrow> input_image \<Rightarrow> bool \<Rightarrow> int \<times> string option" where
  "image_info ilibs debug img = il_GetInfofileContent (image_lib ilibs img) (opened_handle ilibs debug img)"

text \<open>The calls that collect the texts succeed, one after the other.\<close>

definition infos_ok :: "bool \<Rightarrow> (bool \<Rightarrow> int \<times> string option) list \<Rightarrow> bool" where
  "infos_ok null fs \<longleftrightarrow> (\<forall>x \<in> set (fst (buffer_infos null fs)). fst x = 0)"

lemma length_buffer_infos [simp]: "length (fst (buffer_infos null fs)) = length fs"
  by (induction fs arbitrary: null) (simp_all split: prod.split, metis fst_conv)

text \<open>Libraries that differ in whether they have been initialised.\<close>

definition libs_alike :: "'h input_lib list \<Rightarrow> 'h input_lib list \<Rightarrow> bool" where
  "libs_alike ls ls' \<longleftrightarrow>
     map (\<lambda>l. l\<lparr>il_is_initialized := False\<rparr>) ls = map (\<lambda>l. l\<lparr>il_is_initialized := False\<rparr>) ls'"

lemma libs_alikeD:
  assumes "libs_alike ls ls'"
  shows "length ls' = length ls" "map il_types ls' = map il_types ls"
    "k < length ls \<Longrightarrow> (ls' ! k)\<lparr>il_is_initialized := False\<rparr> = (ls ! k)\<lparr>il_is_initialized := False\<rparr>"
proof -
  note e = assms [unfolded libs_alike_def]
  show len: "length ls' = length ls" using arg_cong [OF e, of length] by simp
  show nth: "k < length ls \<Longrightarrow> (ls' ! k)\<lparr>il_is_initialized := False\<rparr> = (ls ! k)\<lparr>il_is_initialized := False\<rparr>" for k
    using arg_cong [OF e, of "\<lambda>l. l ! k"] len by simp
  have "map (il_types \<circ> (\<lambda>l. l\<lparr>il_is_initialized := False\<rparr>)) ls' = map (il_types \<circ> (\<lambda>l. l\<lparr>il_is_initialized := False\<rparr>)) ls"
    using arg_cong [OF e, of "map il_types"] by simp
  then show "map il_types ls' = map il_types ls" by (simp add: comp_def)
qed

lemma same_lib:
  assumes "(l' :: 'h input_lib)\<lparr>il_is_initialized := False\<rparr> = l\<lparr>il_is_initialized := False\<rparr>"
  shows "il_Init l' = il_Init l" "il_CreateHandle l' = il_CreateHandle l" "il_Open l' = il_Open l"
    "il_Size l' = il_Size l" "il_Read l' = il_Read l" "il_GetInfofileContent l' = il_GetInfofileContent l"
    "il_OptionsParse l' = il_OptionsParse l" "il_Close l' = il_Close l" "il_DestroyHandle l' = il_DestroyHandle l"
  using assms by (cases l; cases l'; simp)+

lemma find_lib_mem: "find_lib f ty ls = Some (Some l) \<Longrightarrow> l \<in> set ls"
  by (auto dest: find_lib_first)

lemma FindInputLib_less: "FindInputLib ls img = Some (Some k) \<Longrightarrow> k < length ls"
  by (auto simp: FindInputLib_def in_set_enumerate_eq dest!: find_lib_mem)

lemma FindInputLib_alike: "libs_alike ls ls' \<Longrightarrow> FindInputLib ls' img = FindInputLib ls img"
  by (simp add: FindInputLib_def libs_alikeD(2))

lemma opens_as_alike:
  assumes "libs_alike ls ls'" "opens_as ls debug off limit img d"
  shows "opens_as ls' debug off limit img d"
    "loaded_input ls' debug off limit img = loaded_input ls debug off limit img"
    "opened_handle ls' debug img = opened_handle ls debug img"
    "(image_lib ls' img)\<lparr>il_is_initialized := False\<rparr> = (image_lib ls img)\<lparr>il_is_initialized := False\<rparr>"
proof -
  obtain k where k: "FindInputLib ls img = Some (Some k)"
    using assms(2) by (auto simp: opens_as_def Let_def)
  have il: "image_lib ls img = ls ! k" "image_lib ls' img = ls' ! k"
    using k FindInputLib_alike [OF assms(1), of img] by (simp_all add: image_lib_def)
  note s = same_lib [OF libs_alikeD(3) [OF assms(1) FindInputLib_less [OF k]]]
  show h: "opened_handle ls' debug img = opened_handle ls debug img"
    by (simp add: opened_handle_def il Let_def s)
  show "(image_lib ls' img)\<lparr>il_is_initialized := False\<rparr> = (image_lib ls img)\<lparr>il_is_initialized := False\<rparr>"
    using libs_alikeD(3) [OF assms(1) FindInputLib_less [OF k]] by (simp add: il)
  show "opens_as ls' debug off limit img d"
    using assms(2) k FindInputLib_alike [OF assms(1), of img] by (simp add: opens_as_def il h Let_def s)
  show "loaded_input ls' debug off limit img = loaded_input ls debug off limit img"
    by (simp add: loaded_input_def il h Let_def s)
qed

lemma main_init_lib_ok:
  assumes "k < length (ms_ilibs ms)" "il_Init (ms_ilibs ms ! k) = 0"
  shows "\<exists>ls'. main_init_lib k ms = MainGo (ms\<lparr>ms_ilibs := ls'\<rparr>) \<and> libs_alike (ms_ilibs ms) ls'"
proof (cases "il_is_initialized (ms_ilibs ms ! k)")
  case True
  then show ?thesis
    by (intro exI [of _ "ms_ilibs ms"]) (simp add: main_init_lib_def libs_alike_def Let_def)
next
  case False
  let ?ls = "(ms_ilibs ms)[k := (ms_ilibs ms ! k)\<lparr>il_is_initialized := True\<rparr>]"
  have "libs_alike (ms_ilibs ms) ?ls"
    using assms(1) by (auto simp: libs_alike_def map_update intro!: nth_equalityI simp: nth_list_update)
  then show ?thesis using False assms(2) by (intro exI [of _ ?ls]) (simp add: main_init_lib_def Let_def)
qed

text \<open>The library and handle of an image that has been loaded.\<close>

definition handle_of ::
  "'h input_lib list \<Rightarrow> bool \<Rightarrow> input_image \<Rightarrow> ('h input_lib \<times> 'h) option \<Rightarrow> bool" where
  "handle_of ilibs debug img lh \<longleftrightarrow>
     (\<exists>lib. lh = Some (lib, opened_handle ilibs debug img) \<and>
        lib\<lparr>il_is_initialized := False\<rparr> = (image_lib ilibs img)\<lparr>il_is_initialized := False\<rparr>)"

lemma handle_of_info: "handle_of ilibs debug img lh \<Longrightarrow> handle_info lh = image_info ilibs debug img"
  using same_lib by (fastforce simp: handle_of_def handle_info_def image_info_def fun_eq_iff)

lemma handles_of_infos:
  "list_all2 (handle_of ilibs debug) imgs hs \<Longrightarrow> map handle_info hs = map (image_info ilibs debug) imgs"
  by (induction rule: list_all2_induct) (simp_all add: handle_of_info)

lemma main_load_image_ok:
  fixes ms :: "('h, 'm) main_state"
  assumes i: "i < length (in_images (x_input (ms_g ms)))"
    and op: "opens_as (ms_ilibs ms) (x_debug (ms_g ms)) (in_image_offset (x_input (ms_g ms)))
      (in_image_size_limit (x_input (ms_g ms))) (in_images (x_input (ms_g ms)) ! i) d"
    and params: "in_lib_params (x_input (ms_g ms)) = None"
  shows "\<exists>ls' lh. main_load_image i ms = MainGo
      (set_image i (loaded_input (ms_ilibs ms) (x_debug (ms_g ms)) (in_image_offset (x_input (ms_g ms)))
         (in_image_size_limit (x_input (ms_g ms))) (in_images (x_input (ms_g ms)) ! i))
       (ms\<lparr>ms_ilibs := ls', ms_handles := (ms_handles ms)[i := lh]\<rparr>)) \<and>
    libs_alike (ms_ilibs ms) ls' \<and>
    handle_of (ms_ilibs ms) (x_debug (ms_g ms)) (in_images (x_input (ms_g ms)) ! i) lh"
proof -
  let ?g = "ms_g ms" and ?ls = "ms_ilibs ms"
  let ?img = "in_images (x_input ?g) ! i" and ?off = "in_image_offset (x_input ?g)"
  let ?limit = "in_image_size_limit (x_input ?g)" and ?debug = "x_debug ?g"
  obtain k where k: "FindInputLib ?ls ?img = Some (Some k)" using op by (auto simp: opens_as_def Let_def)
  have kl: "k < length ?ls" by (rule FindInputLib_less [OF k])
  have il: "image_lib ?ls ?img = ?ls ! k" using k by (simp add: image_lib_def)
  define lib where "lib = ?ls ! k"
  define h0 where "h0 = snd (il_CreateHandle lib (ii_type ?img) ?debug)"
  define h where "h = opened_handle ?ls ?debug ?img"
  note o = op [unfolded opens_as_def Let_def il, folded lib_def, folded h_def, folded h0_def]
  obtain ls' where ls': "main_init_lib k ms = MainGo (ms\<lparr>ms_ilibs := ls'\<rparr>)" "libs_alike ?ls ls'"
    using main_init_lib_ok [OF kl] o by (auto simp: lib_def)
  define lib' where "lib' = ls' ! k"
  note s = same_lib [OF libs_alikeD(3) [OF ls'(2) kl], folded lib_def lib'_def]
  have open': "il_Open lib h0 (ii_files ?img) = Some (0, h)"
    using o by (auto simp: h_def opened_handle_def il Let_def lib_def [symmetric] h0_def [symmetric])
  have create: "il_CreateHandle lib (ii_type ?img) ?debug = (0, h0)"
    using o by (cases "il_CreateHandle lib (ii_type ?img) ?debug") (simp add: h0_def)
  obtain n where n: "main_image_size ?off ?limit (length d) = Some n" using o by auto
  have li: "loaded_input ?ls ?debug ?off ?limit ?img = ?img\<lparr>ii_Read := il_Read lib h, ii_size := n\<rparr>"
    using o n by (simp add: loaded_input_def il h_def [symmetric] lib_def [symmetric] Let_def)
  let ?hs = "(ms_handles ms)[i := Some (lib', h)]"
  have "main_load_image i ms = MainGo (set_image i (?img\<lparr>ii_Read := il_Read lib h, ii_size := n\<rparr>)
      (ms\<lparr>ms_ilibs := ls', ms_handles := ?hs\<rparr>))"
    using o n
    by (simp add: main_load_image_def k ls'(1) Let_def lib'_def [symmetric] s create main_input_options_def
        set_handle_def params main_open_image_def open' set_image_def)
  moreover have "handle_of ?ls ?debug ?img (Some (lib', h))"
    using libs_alikeD(3) [OF ls'(2) kl] by (simp add: handle_of_def il lib'_def h_def)
  ultimately show ?thesis using ls'(2) by (intro exI [of _ ls'] exI [of _ "Some (lib', h)"]) (simp add: li)
qed

text \<open>The images from \<open>i\<close> on, loaded.\<close>

definition load_from :: "'h input_lib list \<Rightarrow> nat \<Rightarrow> xmount_data \<Rightarrow> xmount_data" where
  "load_from ilibs i g = upd_input (\<lambda>d. d\<lparr>in_images := take i (in_images d) @
     map (loaded_input ilibs (x_debug g) (in_image_offset d) (in_image_size_limit d)) (drop i (in_images d))\<rparr>) g"

definition images_open :: "'h input_lib list \<Rightarrow> xmount_data \<Rightarrow> nat \<Rightarrow> bytes list \<Rightarrow> bool" where
  "images_open ilibs g i ds \<longleftrightarrow> list_all2 (opens_as ilibs (x_debug g) (in_image_offset (x_input g))
     (in_image_size_limit (x_input g))) (drop i (in_images (x_input g))) ds"

lemma main_load_images_ok:
  fixes ms :: "('h, 'm) main_state"
  assumes "i + n = length (in_images (x_input (ms_g ms)))" "images_open (ms_ilibs ms) (ms_g ms) i ds"
    and "in_lib_params (x_input (ms_g ms)) = None"
    and "length (ms_handles ms) = length (in_images (x_input (ms_g ms)))"
  shows "\<exists>ls' hs'. main_load_images i n ms =
      MainGo (ms\<lparr>ms_g := load_from (ms_ilibs ms) i (ms_g ms), ms_ilibs := ls', ms_handles := hs'\<rparr>) \<and>
    length hs' = length (ms_handles ms) \<and> take i hs' = take i (ms_handles ms) \<and>
    list_all2 (handle_of (ms_ilibs ms) (x_debug (ms_g ms))) (drop i (in_images (x_input (ms_g ms)))) (drop i hs')"
  using assms
proof (induction n arbitrary: i ms ds)
  case 0
  then show ?case
    by (intro exI [of _ "ms_ilibs ms"] exI [of _ "ms_handles ms"]) (simp add: load_from_def upd_input_def)
next
  case (Suc n)
  let ?g = "ms_g ms" and ?ls = "ms_ilibs ms"
  let ?load = "loaded_input ?ls (x_debug ?g) (in_image_offset (x_input ?g)) (in_image_size_limit (x_input ?g))"
  let ?imgs = "in_images (x_input ?g)"
  have i: "i < length ?imgs" using Suc.prems(1) by simp
  have dr: "drop i ?imgs = ?imgs ! i # drop (Suc i) ?imgs" using i by (simp add: Cons_nth_drop_Suc)
  obtain d ds' where ds: "ds = d # ds'" "opens_as ?ls (x_debug ?g) (in_image_offset (x_input ?g))
      (in_image_size_limit (x_input ?g)) (?imgs ! i) d"
    "list_all2 (opens_as ?ls (x_debug ?g) (in_image_offset (x_input ?g)) (in_image_size_limit (x_input ?g)))
      (drop (Suc i) ?imgs) ds'"
    using Suc.prems(2) unfolding images_open_def dr by (auto simp: list_all2_Cons1)
  obtain ls1 lh where m1: "main_load_image i ms = MainGo (set_image i (?load (?imgs ! i))
      (ms\<lparr>ms_ilibs := ls1, ms_handles := (ms_handles ms)[i := lh]\<rparr>))" "libs_alike ?ls ls1"
    "handle_of ?ls (x_debug ?g) (?imgs ! i) lh"
    using main_load_image_ok [OF i ds(2) Suc.prems(3)] by blast
  define hs1 where "hs1 = (ms_handles ms)[i := lh]"
  note m1 = m1 [folded hs1_def]
  have hs1: "length hs1 = length (ms_handles ms)" "hs1 ! i = lh" "take i hs1 = take i (ms_handles ms)"
    using i Suc.prems(4) by (simp_all add: hs1_def)
  define ms1 where "ms1 = set_image i (?load (?imgs ! i)) (ms\<lparr>ms_ilibs := ls1, ms_handles := hs1\<rparr>)"
  have sel: "x_input (ms_g ms1) = (x_input ?g)\<lparr>in_images := ?imgs[i := ?load (?imgs ! i)]\<rparr>"
    "ms_g ms1 = ?g\<lparr>x_input := (x_input ?g)\<lparr>in_images := ?imgs[i := ?load (?imgs ! i)]\<rparr>\<rparr>"
    "ms_ilibs ms1 = ls1" "ms_handles ms1 = hs1" "x_debug (ms_g ms1) = x_debug ?g"
    by (simp_all add: ms1_def set_image_def upd_input_def)
  have alike: "loaded_input ls1 (x_debug ?g) (in_image_offset (x_input ?g)) (in_image_size_limit (x_input ?g)) img = ?load img"
    if "img \<in> set (drop (Suc i) ?imgs)" for img
    using opens_as_alike(2) [OF m1(2)] ds(3) that by (auto simp: list_all2_conv_all_nth in_set_conv_nth)
  have "images_open (ms_ilibs ms1) (ms_g ms1) (Suc i) ds'"
    using ds(3) unfolding images_open_def sel
    by (auto simp: list_all2_conv_all_nth intro: opens_as_alike(1) [OF m1(2)])
  then obtain ls' hs' where m2: "main_load_images (Suc i) n ms1 =
      MainGo (ms1\<lparr>ms_g := load_from ls1 (Suc i) (ms_g ms1), ms_ilibs := ls', ms_handles := hs'\<rparr>)"
    "length hs' = length hs1" "take (Suc i) hs' = take (Suc i) hs1"
    "list_all2 (handle_of ls1 (x_debug ?g)) (drop (Suc i) ?imgs) (drop (Suc i) hs')"
    using Suc.IH [of "Suc i" ms1 ds'] Suc.prems(1,3,4) hs1(1) by (auto simp: sel)
  have ih: "i < length hs'" using m2(2) hs1(1) Suc.prems(4) i by simp
  then have ti: "take (Suc i) hs' = take i hs' @ [hs' ! i]" "take (Suc i) hs1 = take i hs1 @ [hs1 ! i]"
    using m2(2) by (simp_all add: take_Suc_conv_app_nth)
  then have "hs' ! i = lh" "take i hs' = take i (ms_handles ms)" using m2(3) hs1(2,3) by simp_all
  moreover have "list_all2 (handle_of ?ls (x_debug ?g)) (drop (Suc i) ?imgs) (drop (Suc i) hs')"
    using m2(4) ds(3) opens_as_alike(3,4) [OF m1(2)]
    by (fastforce simp: list_all2_conv_all_nth handle_of_def)
  ultimately have hs': "take i hs' = take i (ms_handles ms)"
    "list_all2 (handle_of ?ls (x_debug ?g)) (drop i ?imgs) (drop i hs')"
    using m1(3) Cons_nth_drop_Suc [OF ih, symmetric] by (simp_all add: dr)
  have "take (Suc i) (?imgs[i := ?load (?imgs ! i)]) = take i ?imgs @ [?load (?imgs ! i)]"
    using i by (simp add: take_Suc_conv_app_nth)
  moreover have "map (loaded_input ls1 (x_debug ?g) (in_image_offset (x_input ?g)) (in_image_size_limit (x_input ?g)))
      (drop (Suc i) ?imgs) = map ?load (drop (Suc i) ?imgs)"
    using alike by simp
  ultimately have "load_from ls1 (Suc i) (ms_g ms1) = load_from ?ls i ?g"
    by (simp add: load_from_def upd_input_def sel(2) dr)
  then have "main_load_images i (Suc n) ms =
      MainGo (ms\<lparr>ms_g := load_from ?ls i ?g, ms_ilibs := ls', ms_handles := hs'\<rparr>)"
    by (simp add: m1(1) ms1_def [symmetric] m2(1)) (simp add: ms1_def set_image_def)
  then show ?case using m2(2) hs1(1) hs' by auto
qed

text \<open>The part of an image that is shown.\<close>

definition shown_part :: "nat \<Rightarrow> nat \<Rightarrow> bytes \<Rightarrow> bytes" where
  "shown_part off limit d = (if limit = 0 then drop off d else take limit (drop off d))"

lemma main_image_size_shown:
  assumes "main_image_size off limit (length d) = Some n"
  shows "segment off n d = shown_part off limit d" "length (shown_part off limit d) = n" "off + n \<le> length d"
  using assms by (auto simp: main_image_size_def shown_part_def segment_def Let_def split: if_splits)

lemma opens_as_loaded:
  assumes "opens_as ls debug off limit img d"
  shows "lib_image_ok (loaded_input ls debug off limit img) d"
    "ii_size (loaded_input ls debug off limit img) = length (shown_part off limit d)"
    "segment off (ii_size (loaded_input ls debug off limit img)) d = shown_part off limit d"
    "off + length (shown_part off limit d) \<le> length d"
    "ii_files (loaded_input ls debug off limit img) = ii_files img"
  using assms main_image_size_shown [of off limit d]
  by (auto simp: opens_as_def loaded_input_def Let_def lib_image_ok_def)

lemma loaded_provider:
  fixes ls :: "'h input_lib list"
  assumes op: "images_open ls g 0 ds"
  defines "parts \<equiv> map (shown_part (in_image_offset (x_input g)) (in_image_size_limit (x_input g))) ds"
  assumes len: "length (concat parts) < 2 ^ 63" "length ds < 2 ^ 32"
  shows "provider_inv (load_from ls 0 g, ds)" "provider_images (load_from ls 0 g, ds) = parts"
proof -
  let ?g' = "load_from ls 0 g" and ?off = "in_image_offset (x_input g)" and ?limit = "in_image_size_limit (x_input g)"
  let ?load = "loaded_input ls (x_debug g) ?off ?limit"
  let ?imgs = "in_images (x_input g)"
  have o: "list_all2 (opens_as ls (x_debug g) ?off ?limit) ?imgs ds"
    using op by (simp add: images_open_def)
  have sel: "in_images (x_input ?g') = map ?load ?imgs" "in_image_offset (x_input ?g') = ?off"
    by (simp_all add: load_from_def upd_input_def)
  have l: "length ?imgs = length ds" using o by (rule list_all2_lengthD)
  have nth: "opens_as ls (x_debug g) ?off ?limit (?imgs ! i) (ds ! i)" if "i < length ds" for i
    using o that l by (simp add: list_all2_conv_all_nth)
  have fits: "image_fits ?g' (?load (?imgs ! i)) (ds ! i)" if "i < length ds" for i
    using opens_as_loaded [OF nth [OF that]] by (simp add: image_fits_def sel)
  have sizes: "map (ii_size \<circ> ?load) ?imgs = map length parts"
    using l opens_as_loaded(2) [OF nth] by (intro nth_equalityI) (simp_all add: parts_def)
  show "provider_inv (?g', ds)"
    using fits l len sizes by (simp add: provider_inv_def sel list_all2_conv_all_nth length_concat)
  show "provider_images (?g', ds) = parts"
    using l opens_as_loaded(3) [OF nth]
    by (intro nth_equalityI) (simp_all add: provider_images_def sel image_part_def parts_def)
qed

section \<open>Morphing\<close>

lemma main_morph_combine:
  fixes ms :: "('h, morph_handle) main_state"
  assumes lib: "FindMorphingLib ms = Some (Some combine_lib)" and params: "mo_lib_params (x_morphing (ms_g ms)) = None"
    and p: "provider_inv (ms_g ms, ds)" and len: "length (concat (provider_images (ms_g ms, ds))) < 2 ^ 62"
  shows "\<exists>m. main_morph ms = MainGo (ms\<lparr>ms_morph := Some (combine_lib, HCombine m),
      ms_g := upd_morphing (\<lambda>x. x\<lparr>mo_Size := CombineSize m, mo_Read := CombineRead m\<rparr>) (ms_g ms)\<rparr>) \<and>
    (\<forall>g. morphed_ok (upd_morphing (\<lambda>x. x\<lparr>mo_Size := CombineSize m, mo_Read := CombineRead m\<rparr>) g)
       (concat (provider_images (ms_g ms, ds))))"
proof -
  let ?debug = "x_debug (ms_g ms)"
  define m where "m = snd (CombineMorph (CombineCreateHandle ?debug) (provider_funs (ms_g ms, ds)))"
  have mo: "CombineMorph (CombineCreateHandle ?debug) (provider_funs (ms_g ms, ds)) = (COMBINE_OK, m)"
    by (simp add: m_def xin.CombineMorph_ok [OF p])
  then have inv: "combine_inv (m, (ms_g ms, ds))" using p by (auto simp: combine_inv_def)
  have "main_morph ms = MainGo (ms\<lparr>ms_morph := Some (combine_lib, HCombine m),
      ms_g := upd_morphing (\<lambda>x. x\<lparr>mo_Size := CombineSize m, mo_Read := CombineRead m\<rparr>) (ms_g ms)\<rparr>)"
    using mo by (simp add: main_morph_def lib combine_lib_def main_morph_options_def params provider_funs_def
        combine_codes Let_def)
  moreover have "morphed_ok (upd_morphing (\<lambda>x. x\<lparr>mo_Size := CombineSize m, mo_Read := CombineRead m\<rparr>) g)
      (concat (provider_images (ms_g ms, ds)))" for g
    using combine.rd_size_law [OF inv] combine.rd_read_law [OF inv] len
    by (simp add: morphed_ok_def upd_morphing_def combine_contents_def)
  ultimately show ?thesis by blast
qed

section \<open>The virtual files\<close>

text \<open>A state before \<open>main\<close> has built any of them.\<close>

definition unbuilt :: "xmount_data \<Rightarrow> bool" where
  "unbuilt g \<longleftrightarrow> out_image_size (x_output g) = 0 \<and> ca_h_cache_file (x_cache g) = None \<and>
     vm_virtual_vmdk_path (out_vmdk (x_output g)) = None \<and>
     mem_sizes_ok (x_output g) \<and>
     (out_writable (x_output g) \<longrightarrow> ca_cache_file (x_cache g) \<noteq> None)"

lemma unbuilt_cmd: "unbuilt g \<Longrightarrow> unbuilt (cmd_effect c g)"
  by (cases c) (auto simp: unbuilt_def mem_sizes_ok_def add_input_image_def upd_input_def upd_morphing_def
      set_writable_def set_cache_file_def)

lemma unbuilt_cmds: "unbuilt g \<Longrightarrow> unbuilt (fold cmd_effect cs g)"
  by (induction cs arbitrary: g) (simp_all add: unbuilt_cmd)

text \<open>The virtual image without its cache: header, disk and footer.\<close>

definition framed :: "output_data \<Rightarrow> bytes \<Rightarrow> bytes" where
  "framed od d = (if out_VirtImageType od = VirtImageType_VDI then vdi_header (out_vdi od) else []) @ d @
     (if out_VirtImageType od = VirtImageType_VHD then out_vhd_header od else [])"

lemma virt_contents_framed:
  "ca_h_cache_file (x_cache g) = None \<Longrightarrow> virt_contents g d = framed (x_output g) d"
  by (simp add: virt_contents_def framed_def header_contents_def disk_contents_plain split: VirtImageType.split)

lemma InitVirtualVmdkFile_ok:
  assumes "morphed_ok g d" "is_vmdk (out_VirtImageType (x_output g))" "mem_sizes_ok (x_output g)"
    and "length (tl (out_virtual_image_path (x_output g))) \<le> 190"
  shows "\<exists>b n. InitVirtualVmdkFile g = Some (C_TRUE, upd_vmdk (\<lambda>v. v\<lparr>vm_vmdk_file := b, vm_vmdk_file_size := n\<rparr>) g) \<and>
    mem_sizes_ok ((x_output g)\<lparr>out_vmdk := (out_vmdk (x_output g))\<lparr>vm_vmdk_file := b, vm_vmdk_file_size := n\<rparr>\<rparr>)"
proof -
  have some: "InitVirtualVmdkFile g \<noteq> None" using vmdk_descriptor_buffer [OF assms(1,2)] assms(4) by simp
  define t where "t = VMDK_DESC_FILE (length d div 512 + (if length d mod 512 \<noteq> 0 then 1 else 0))
      (tl (out_virtual_image_path (x_output g)))
      (if out_VirtImageType (x_output g) = VirtImageType_VMDK then ''ide'' else ''scsi'')"
  have eq: "InitVirtualVmdkFile g = (if length t + 1 > 500 then None
      else Some (C_TRUE, upd_vmdk (\<lambda>v. v\<lparr>vm_vmdk_file := string_bytes t, vm_vmdk_file_size := int_of_size (length t)\<rparr>) g))"
    using assms(2) GetMorphedImageSize_ok [OF assms(1)]
    by (simp add: InitVirtualVmdkFile_def is_vmdk_def Let_def t_def)
  have l: "length t < 500" using some unfolding eq by (auto split: if_splits)
  then have "int_of_size (length t) = int (length t)" by (intro int_of_size_small) simp
  then show ?thesis
    using assms(3) l unfolding eq
    by (intro exI [of _ "string_bytes t"] exI [of _ "int_of_size (length t)"])
      (simp add: mem_sizes_ok_def string_bytes_def Let_def)
qed

lemma main_headers_ok:
  assumes "morphed_ok g d" "length d < 2 ^ 49" "mem_sizes_ok (x_output g)"
    and "is_vmdk (out_VirtImageType (x_output g)) \<longrightarrow> length (tl (out_virtual_image_path (x_output g))) \<le> 190"
  shows "\<exists>v f m. main_headers env g =
      Some (C_TRUE, upd_output (\<lambda>od. od\<lparr>out_vdi := v, out_vhd_header := f, out_vmdk := m\<rparr>) g) \<and>
    headers_ok ((x_output g)\<lparr>out_vdi := v, out_vhd_header := f, out_vmdk := m\<rparr>) \<and>
    mem_sizes_ok ((x_output g)\<lparr>out_vmdk := m\<rparr>) \<and>
    vm_virtual_vmdk_path m = vm_virtual_vmdk_path (out_vmdk (x_output g))"
proof -
  let ?od = "x_output g"
  show ?thesis
  proof (cases "out_VirtImageType ?od")
    case VirtImageType_VDI
    define v where "v = vdi_output (me_rands env) (length d) (in_image_hash_lo (x_input g), in_image_hash_hi (x_input g))"
    show ?thesis
      using InitVirtVdiHeader_ok [OF assms(1,2), of "me_rands env"] vdi_output_sizes [OF assms(2)] assms(3)
      by (intro exI [of _ v] exI [of _ "out_vhd_header ?od"] exI [of _ "out_vmdk ?od"])
        (simp add: main_headers_def VirtImageType_VDI v_def C_TRUE_def upd_output_def headers_ok_def)
  next
    case VirtImageType_VHD
    obtain h where "InitVirtVhdHeader (me_now env) g =
        (C_TRUE, upd_output (\<lambda>od. od\<lparr>out_vhd_header := enc_vhd_file_header h\<rparr>) g)"
      using GetMorphedImageSize_ok [OF assms(1)] by (auto simp: InitVirtVhdHeader_def C_TRUE_def Let_def)
    then show ?thesis
      using assms(3)
      by (intro exI [of _ "out_vdi ?od"] exI [of _ "enc_vhd_file_header h"] exI [of _ "out_vmdk ?od"])
        (simp add: main_headers_def VirtImageType_VHD upd_output_def headers_ok_def)
  next
    case VirtImageType_VMDK
    then obtain b n where "InitVirtualVmdkFile g =
        Some (C_TRUE, upd_vmdk (\<lambda>v. v\<lparr>vm_vmdk_file := b, vm_vmdk_file_size := n\<rparr>) g)"
      "mem_sizes_ok (?od\<lparr>out_vmdk := (out_vmdk ?od)\<lparr>vm_vmdk_file := b, vm_vmdk_file_size := n\<rparr>\<rparr>)"
      using InitVirtualVmdkFile_ok [OF assms(1) _ assms(3)] assms(4) by (auto simp: is_vmdk_def)
    then show ?thesis
      by (intro exI [of _ "out_vdi ?od"] exI [of _ "out_vhd_header ?od"]
          exI [of _ "(out_vmdk ?od)\<lparr>vm_vmdk_file := b, vm_vmdk_file_size := n\<rparr>"])
        (simp add: main_headers_def VirtImageType_VMDK upd_vmdk_def upd_output_def headers_ok_def)
  next
    case VirtImageType_VMDKS
    then obtain b n where "InitVirtualVmdkFile g =
        Some (C_TRUE, upd_vmdk (\<lambda>v. v\<lparr>vm_vmdk_file := b, vm_vmdk_file_size := n\<rparr>) g)"
      "mem_sizes_ok (?od\<lparr>out_vmdk := (out_vmdk ?od)\<lparr>vm_vmdk_file := b, vm_vmdk_file_size := n\<rparr>\<rparr>)"
      using InitVirtualVmdkFile_ok [OF assms(1) _ assms(3)] assms(4) by (auto simp: is_vmdk_def)
    then show ?thesis
      by (intro exI [of _ "out_vdi ?od"] exI [of _ "out_vhd_header ?od"]
          exI [of _ "(out_vmdk ?od)\<lparr>vm_vmdk_file := b, vm_vmdk_file_size := n\<rparr>"])
        (simp add: main_headers_def VirtImageType_VMDKS upd_vmdk_def upd_output_def headers_ok_def)
  qed (use assms(3) in \<open>auto simp: main_headers_def headers_ok_def upd_output_def
      intro!: exI [of _ "out_vdi ?od"] exI [of _ "out_vhd_header ?od"] exI [of _ "out_vmdk ?od"]\<close>)
qed

text \<open>The cache file, if there is one, can be created and holds the block index.\<close>

definition cache_ready :: "main_env \<Rightarrow> xmount_data \<Rightarrow> bytes \<Rightarrow> bool" where
  "cache_ready env g d \<longleftrightarrow> (case ca_cache_file (x_cache g) of
       None \<Rightarrow> True
     | Some name \<Rightarrow>
         (case opened_cache (me_cache_rb env name) (me_cache_wb env name) g of
            None \<Rightarrow> False
          | Some f \<Rightarrow> file_ok f \<and> f_data f = [] \<and> f_pos f = 0 \<and>
              sizeof_CacheFileHeader + ceil_div (length d) CACHE_BLOCK_SIZE * sizeof_CacheFileBlockIndex \<le> f_limit f))"

lemma cache_ready_same:
  assumes "x_cache g' = x_cache g"
  shows "cache_ready env g' d = cache_ready env g d"
proof -
  have same: "opened_cache rb wb g' = opened_cache rb wb g" for rb wb by (simp add: opened_cache_def assms)
  show ?thesis unfolding cache_ready_def assms same ..
qed

lemma main_cache_ok:
  assumes "virt_inv g d" "ca_h_cache_file (x_cache g) = None" "length d < 2 ^ 51" "cache_ready env g d"
  shows "\<exists>g'. main_cache env g = Some (C_TRUE, g') \<and> virt_inv g' d \<and> virt_contents g' d = virt_contents g d \<and>
    x_output g' = x_output g \<and> (ca_cache_file (x_cache g) \<noteq> None \<longrightarrow> ca_h_cache_file (x_cache g') \<noteq> None)"
proof (cases "ca_cache_file (x_cache g)")
  case None
  then show ?thesis using assms(1) by (simp add: main_cache_def)
next
  case (Some name)
  then obtain f where f: "opened_cache (me_cache_rb env name) (me_cache_wb env name) g = Some f" "file_ok f"
    "f_data f = []" "f_pos f = 0"
    "sizeof_CacheFileHeader + ceil_div (length d) CACHE_BLOCK_SIZE * sizeof_CacheFileBlockIndex \<le> f_limit f"
    using assms(4) by (auto simp: cache_ready_def split: option.splits)
  show ?thesis using InitCacheFile_created [OF assms(1-3) f] Some by (auto simp: main_cache_def C_TRUE_def)
qed

lemma input_hash_true:
  assumes "morphed_ok g d" "d \<noteq> []"
  shows "\<exists>lo hi. CalculateInputImageHash st g = Some (C_TRUE, lo, hi)"
proof -
  have "0 < HASH_AMOUNT" "HASH_AMOUNT < 4294967296" by (simp_all add: HASH_AMOUNT_def)
  then show ?thesis
    using GetMorphedImageData_head [OF assms, of HASH_AMOUNT] assms(2)
    by (simp add: CalculateInputImageHash_def C_TRUE_def Let_def)
qed

lemma InitVirtImageInfoFile_loop_ok:
  "\<forall>x \<in> set xs. fst (fst x) = 0 \<Longrightarrow> fst (InitVirtImageInfoFile_loop xs t) = C_TRUE"
  by (induction xs t rule: InitVirtImageInfoFile_loop.induct) simp_all

lemma InitVirtImageInfoFile_ok:
  assumes "\<forall>x \<in> set infos. fst x = 0" "fst morph_info = 0"
  shows "\<exists>t. InitVirtImageInfoFile infos morph_info g = (C_TRUE, upd_output (\<lambda>od. od\<lparr>out_info_file := Some t\<rparr>) g)"
proof -
  have "\<forall>x \<in> set (zip infos (in_images (x_input g))). fst (fst x) = 0"
    using assms(1) by (fastforce dest: set_zip_leftD)
  from InitVirtImageInfoFile_loop_ok [OF this, of IMAGE_INFO_INPUT_HEADER] show ?thesis
    using assms(2) by (auto simp: InitVirtImageInfoFile_def Let_def split: prod.split)
qed

lemma InitVirtImageInfoFile_loop_fails:
  "\<exists>x \<in> set xs. fst (fst x) \<noteq> 0 \<Longrightarrow> fst (InitVirtImageInfoFile_loop xs t) = C_FALSE"
  by (induction xs t rule: InitVirtImageInfoFile_loop.induct) auto

lemma InitVirtImageInfoFile_fails:
  assumes "\<exists>x \<in> set infos. fst x \<noteq> 0" "length infos = length (in_images (x_input g))"
  shows "fst (InitVirtImageInfoFile infos morph_info g) = C_FALSE"
proof -
  obtain i where i: "i < length infos" "fst (infos ! i) \<noteq> 0" using assms(1) by (auto simp: in_set_conv_nth)
  then have "(infos ! i, in_images (x_input g) ! i) \<in> set (zip infos (in_images (x_input g)))"
    using assms(2) by (auto simp: set_zip)
  with i(2) have "\<exists>x \<in> set (zip infos (in_images (x_input g))). fst (fst x) \<noteq> 0" by force
  from InitVirtImageInfoFile_loop_fails [OF this, of IMAGE_INFO_INPUT_HEADER] show ?thesis
    by (auto simp: InitVirtImageInfoFile_def C_TRUE_def C_FALSE_def split: prod.split)
qed

lemma main_infos_ok:
  "(\<forall>x \<in> set (main_infos env ms). fst x = 0) \<longleftrightarrow> infos_ok (me_p_buf_null env) (map handle_info (ms_handles ms))"
  by (simp add: main_infos_def infos_ok_def)

text \<open>The morphing library succeeds with its text.\<close>

definition morph_info_ok :: "('h, 'm) main_state \<Rightarrow> bool" where
  "morph_info_ok ms \<longleftrightarrow> (\<forall>lib h null. ms_morph ms = Some (lib, h) \<longrightarrow> fst (ml_GetInfofileContent lib h null) = 0)"

lemma main_morph_info_ok: "morph_info_ok ms \<Longrightarrow> fst (main_morph_info env ms) = 0"
  by (auto simp: main_morph_info_def morph_info_ok_def split: option.split)

lemma main_call_go:
  "f (ms_g ms) = Some (C_TRUE, g) \<Longrightarrow> main_call f ms = MainGo (ms\<lparr>ms_g := g\<rparr>)"
  by (simp add: main_call_def C_TRUE_def C_FALSE_def)

text \<open>The descriptor of a VMDK is written into a buffer of 500 bytes, so the file name of the
  first image must not be too long.\<close>

definition descriptor_fits :: "VirtImageType \<Rightarrow> string \<Rightarrow> bool" where
  "descriptor_fits t name \<longleftrightarrow> (is_vmdk t \<longrightarrow> length (behind_last CHR ''/'' name) \<le> 187)"

lemma length_before_last: "length (before_last c s) \<le> length s"
  using length_dropWhile_le [of "\<lambda>x. x \<noteq> c" "rev s"] by (auto simp: before_last_def)

lemma ExtractVirtFileNames_names:
  assumes "descriptor_fits (out_VirtImageType (x_output g)) name"
    and "vm_virtual_vmdk_path (out_vmdk (x_output g)) = None"
  shows "\<exists>p q v. ExtractVirtFileNames name g = upd_output (\<lambda>od. od\<lparr>out_virtual_image_path := p, out_info_path := q,
        out_vmdk := (out_vmdk (x_output g))\<lparr>vm_virtual_vmdk_path := v\<rparr>\<rparr>) g \<and>
    p \<noteq> ''/'' \<and> (is_vmdk (out_VirtImageType (x_output g)) \<longleftrightarrow> v \<noteq> None) \<and>
    (is_vmdk (out_VirtImageType (x_output g)) \<longrightarrow> length (tl p) \<le> 190)"
proof -
  let ?t = "out_VirtImageType (x_output g)"
  define base where "base = before_last CHR ''.'' (behind_last CHR ''/'' name)"
  have b: "is_vmdk ?t \<Longrightarrow> length base \<le> 187"
    using assms(1) length_before_last [of "CHR ''.''" "behind_last CHR ''/'' name"]
    by (simp add: descriptor_fits_def base_def)
  have self: "(out_vmdk (x_output g))\<lparr>vm_virtual_vmdk_path := None\<rparr> = out_vmdk (x_output g)"
    using assms(2) by (cases "out_vmdk (x_output g)") simp
  show ?thesis
    using b
    by (intro exI [of _ "''/'' @ base @ virt_extension ?t"] exI [of _ "''/'' @ base @ ''.info''"]
        exI [of _ "if is_vmdk ?t then Some (''/'' @ base @ ''.vmdk'') else None"])
      (cases ?t; simp add: ExtractVirtFileNames_def Let_def virt_extension_def is_vmdk_def base_def [symmetric] self
        upd_vmdk_def upd_output_def)
qed

lemma main_files_ok:
  fixes ms :: "('h, 'm) main_state"
  assumes m: "morphed_ok (ms_g ms) d" "d \<noteq> []" "length d < 2 ^ 49"
    and t: "descriptor_fits (out_VirtImageType (x_output (ms_g ms))) (hd (ii_files (hd (in_images (x_input (ms_g ms))))))"
    and u: "unbuilt (ms_g ms)" and cache: "cache_ready env (ms_g ms) d" and morph: "morph_info_ok ms"
    and len: "length (ms_handles ms) = length (in_images (x_input (ms_g ms)))"
  shows "if infos_ok (me_p_buf_null env) (map handle_info (ms_handles ms))
    then \<exists>g. main_files env ms = MainGo (ms\<lparr>ms_g := g\<rparr>) \<and>
      session_inv \<lparr>se_g = g, se_open = []\<rparr> d \<and> mem_sizes_ok (x_output g) \<and>
      virt_contents g d = framed (x_output g) d \<and>
      out_VirtImageType (x_output g) = out_VirtImageType (x_output (ms_g ms)) \<and>
      out_writable (x_output g) = out_writable (x_output (ms_g ms))
    else \<exists>g. main_files env ms = MainFail (ms\<lparr>ms_g := g\<rparr>)"
proof -
  let ?g = "ms_g ms"
  note u' = u [unfolded unbuilt_def]
  obtain lo hi where h: "CalculateInputImageHash (me_md5 env) ?g = Some (C_TRUE, lo, hi)"
    using input_hash_true [OF m(1,2)] by blast
  define g1 where "g1 = upd_input (\<lambda>x. x\<lparr>in_image_hash_lo := lo, in_image_hash_hi := hi\<rparr>) ?g"
  have s1: "main_hash env ms = MainGo (ms\<lparr>ms_g := g1\<rparr>)"
    by (simp add: main_hash_def h g1_def C_TRUE_def C_FALSE_def)
  have e1: "x_output g1 = x_output ?g" "x_cache g1 = x_cache ?g" "x_morphing g1 = x_morphing ?g"
    "in_images (x_input g1) = in_images (x_input ?g)"
    by (simp_all add: g1_def upd_input_def)
  define fname where "fname = hd (ii_files (hd (in_images (x_input g1))))"
  obtain p q v1 where pq: "ExtractVirtFileNames fname g1 =
      upd_output (\<lambda>od. od\<lparr>out_virtual_image_path := p, out_info_path := q,
        out_vmdk := (out_vmdk (x_output g1))\<lparr>vm_virtual_vmdk_path := v1\<rparr>\<rparr>) g1" "p \<noteq> ''/''"
    "is_vmdk (out_VirtImageType (x_output g1)) \<longleftrightarrow> v1 \<noteq> None"
    "is_vmdk (out_VirtImageType (x_output g1)) \<longrightarrow> length (tl p) \<le> 190"
    using ExtractVirtFileNames_names [of g1 fname] t u' by (auto simp: e1 fname_def)
  define g2 where "g2 = upd_output (\<lambda>od. od\<lparr>out_virtual_image_path := p, out_info_path := q,
        out_vmdk := (out_vmdk (x_output g1))\<lparr>vm_virtual_vmdk_path := v1\<rparr>\<rparr>) g1"
  have same: "main_infos env (ms\<lparr>ms_g := g'\<rparr>) = main_infos env ms" "main_morph_info env (ms\<lparr>ms_g := g'\<rparr>) = main_morph_info env ms" for g'
    by (simp_all add: main_infos_def main_morph_info_def split: option.split)
  show ?thesis
  proof (cases "infos_ok (me_p_buf_null env) (map handle_info (ms_handles ms))")
    case False
    then have bad: "\<exists>x \<in> set (main_infos env ms). fst x \<noteq> 0" using main_infos_ok [of env ms] by blast
    have "length (main_infos env ms) = length (in_images (x_input g2))"
      using len by (simp add: main_infos_def g2_def e1)
    from InitVirtImageInfoFile_fails [OF bad this, of "main_morph_info env ms"]
    obtain g3 where g3: "InitVirtImageInfoFile (main_infos env ms) (main_morph_info env ms) g2 = (C_FALSE, g3)"
      by (cases "InitVirtImageInfoFile (main_infos env ms) (main_morph_info env ms) g2") simp
    have "main_files env ms = MainFail (ms\<lparr>ms_g := g3\<rparr>)"
      using pq(1) g3
      by (simp add: main_files_def s1 main_call_def same C_TRUE_def C_FALSE_def fname_def [symmetric]
          g2_def [symmetric])
    then show ?thesis using False by auto
  next
    case True
    then have good: "\<forall>x \<in> set (main_infos env ms). fst x = 0" using main_infos_ok [of env ms] by blast
    obtain text' where info: "InitVirtImageInfoFile (main_infos env ms) (main_morph_info env ms) g2 =
        (C_TRUE, upd_output (\<lambda>od. od\<lparr>out_info_file := Some text'\<rparr>) g2)"
      using InitVirtImageInfoFile_ok [OF good main_morph_info_ok [OF morph]] by blast
    define g3 where "g3 = upd_output (\<lambda>od. od\<lparr>out_info_file := Some text'\<rparr>) g2"
    have e3: "x_output g3 = (x_output ?g)\<lparr>out_virtual_image_path := p, out_info_path := q,
        out_vmdk := (out_vmdk (x_output ?g))\<lparr>vm_virtual_vmdk_path := v1\<rparr>, out_info_file := Some text'\<rparr>"
      "x_cache g3 = x_cache ?g" "x_morphing g3 = x_morphing ?g"
      by (simp_all add: g3_def g2_def e1)
    have m3: "morphed_ok g3 d" "mem_sizes_ok (x_output g3)"
      using m(1) u' by (simp_all add: morphed_ok_def mem_sizes_ok_def e3 Let_def)
    obtain v f vm where hd: "main_headers env g3 =
        Some (C_TRUE, upd_output (\<lambda>od. od\<lparr>out_vdi := v, out_vhd_header := f, out_vmdk := vm\<rparr>) g3)"
      "headers_ok ((x_output g3)\<lparr>out_vdi := v, out_vhd_header := f, out_vmdk := vm\<rparr>)"
      "mem_sizes_ok ((x_output g3)\<lparr>out_vmdk := vm\<rparr>)" "vm_virtual_vmdk_path vm = v1"
      using main_headers_ok [OF m3(1) m(3) m3(2), of env] pq(4) by (auto simp: e3 e1)
    define g4 where "g4 = upd_output (\<lambda>od. od\<lparr>out_vdi := v, out_vhd_header := f, out_vmdk := vm\<rparr>) g3"
    have e4: "x_output g4 = (x_output g3)\<lparr>out_vdi := v, out_vhd_header := f, out_vmdk := vm\<rparr>" "x_cache g4 = x_cache ?g"
      "x_morphing g4 = x_morphing ?g"
      by (simp_all add: g4_def e3)
    have v4: "virt_inv g4 d"
      using m hd(2) u' by (simp add: virt_inv_def morphed_ok_def cache_inv_def e4 e3)
    have c4: "ca_h_cache_file (x_cache g4) = None" "length d < 2 ^ 51" "cache_ready env g4 d"
      using u' m(3) cache cache_ready_same [OF e4(2)] by (simp_all add: e4)
    obtain g5 where g5: "main_cache env g4 = Some (C_TRUE, g5)" "virt_inv g5 d" "virt_contents g5 d = virt_contents g4 d"
      "x_output g5 = x_output g4" "ca_cache_file (x_cache ?g) \<noteq> None \<longrightarrow> ca_h_cache_file (x_cache g5) \<noteq> None"
      using main_cache_ok [OF v4 c4] by (auto simp: e4)
    have run: "main_files env ms = MainGo (ms\<lparr>ms_g := g5\<rparr>)"
      using pq(1) info hd(1) g5(1)
      by (simp add: main_files_def s1 main_call_def same C_TRUE_def C_FALSE_def fname_def [symmetric]
          g2_def [symmetric] g3_def [symmetric] g4_def [symmetric])
    have out: "mem_files_ok (x_output g5)" "mem_sizes_ok (x_output g5)"
      using pq(2,3) hd(3,4) by (simp_all add: mem_files_ok_def mem_sizes_ok_def g5(4) e4 e3 e1 Let_def)
    have "session_inv \<lparr>se_g = g5, se_open = []\<rparr> d"
      using g5(2,5) out u' by (simp add: session_inv_def handles_ok_def g5(4) e4 e3)
    moreover have "virt_contents g5 d = framed (x_output g5) d"
      using virt_contents_framed [OF c4(1)] by (simp add: g5(3,4))
    ultimately show ?thesis
      using run True out(2) unfolding if_P [OF True] by (intro exI [of _ g5]) (simp add: g5(4) e4 e3)
  qed
qed

section \<open>main\<close>

text \<open>The state after the command line, before anything is opened.\<close>

definition parsed_state :: "main_env \<Rightarrow> cmd_opt list \<Rightarrow> xmount_data" where
  "parsed_state env cs = fold cmd_effect cs (InitResources\<lparr>x_may_set_fuse_allow_other := me_may_allow_other env\<rparr>)"

lemma unbuilt_parsed: "unbuilt (parsed_state env cs)"
  unfolding parsed_state_def by (rule unbuilt_cmds) (simp add: unbuilt_def mem_sizes_ok_def InitResources_def)

text \<open>What is shown: the parts of the images, one behind the other.\<close>

definition shown_images :: "xmount_data \<Rightarrow> bytes list \<Rightarrow> bytes" where
  "shown_images g ds = concat (map (shown_part (in_image_offset (x_input g)) (in_image_size_limit (x_input g))) ds)"

text \<open>The state in which the images are loaded: the type of morphing has its default.\<close>

definition start_state ::
  "main_env \<Rightarrow> 'h input_lib list \<Rightarrow> 'm morph_lib list \<Rightarrow> string \<Rightarrow> string \<Rightarrow> xmount_data \<Rightarrow> ('h, 'm) main_state" where
  "start_state env ilibs mlibs prog mnt g =
     \<lparr>ms_g = (if mo_morph_type (x_morphing g) = None then upd_morphing (\<lambda>m. m\<lparr>mo_morph_type := Some ''combine''\<rparr>) g else g)
        \<lparr>x_mountpoint := Some mnt, x_fuse_argv := fuse_args (me_realpath env) prog mnt g\<rparr>,
      ms_ilibs = ilibs, ms_mlibs = mlibs, ms_handles = replicate (length (in_images (x_input g))) None, ms_morph = None\<rparr>"

lemma main_start:
  fixes ilibs :: "'h input_lib list" and mlibs :: "'m morph_lib list" and env :: main_env and cs :: "cmd_opt list"
  defines "g \<equiv> parsed_state env cs"
  assumes cmd: "cmds_ok cs (InitResources\<lparr>x_may_set_fuse_allow_other := me_may_allow_other env\<rparr>)" "take 1 mnt \<noteq> ''-''"
    and libs: "ilibs \<noteq> []" "mlibs \<noteq> []"
    and dir: "me_stat_dir env mnt = Some True" and images: "in_images (x_input g) \<noteq> []"
  shows "main env ilibs mlibs (prog # concat (map cmd_text cs) @ [mnt]) =
    main_finish (main_then (main_load_images 0 (length (in_images (x_input g))) (start_state env ilibs mlibs prog mnt g))
      (\<lambda>ms. main_then (main_morph ms) (main_files env)))"
proof -
  define g0 where "g0 = g\<lparr>x_mountpoint := Some mnt, x_fuse_argv := fuse_args (me_realpath env) prog mnt g\<rparr>"
  have parse: "ParseCmdLine (me_realpath env) (prog # concat (map cmd_text cs) @ [mnt])
      (InitResources\<lparr>x_may_set_fuse_allow_other := me_may_allow_other env\<rparr>) = CmdTrue g0"
    using ParseCmdLine_cmds [OF cmd, of "me_realpath env" prog] by (simp add: g0_def g_def parsed_state_def)
  define ms0 :: "('h, 'm) main_state" where
    "ms0 = \<lparr>ms_g = g0, ms_ilibs = ilibs, ms_mlibs = mlibs,
      ms_handles = replicate (length (in_images (x_input g0))) None, ms_morph = None\<rparr>"
  have s: "(if mo_morph_type (x_morphing g0) = None
      then ms0\<lparr>ms_g := upd_morphing (\<lambda>m. m\<lparr>mo_morph_type := Some ''combine''\<rparr>) g0\<rparr> else ms0) =
    start_state env ilibs mlibs prog mnt g"
    by (simp add: start_state_def ms0_def g0_def upd_morphing_def)
  have gm: "ms_g ms0 = g0" "in_images (x_input g0) \<noteq> []" "\<not> length (x_fuse_argv g0) < 2" "x_mountpoint g0 = Some mnt"
    using images by (simp_all add: ms0_def g0_def fuse_args_def)
  have check: "main_check env ms0 = MainGo (start_state env ilibs mlibs prog mnt g)"
    unfolding main_check_def Let_def gm(1) s using gm dir by simp
  have "in_images (x_input (ms_g (start_state env ilibs mlibs prog mnt g))) = in_images (x_input g)"
    by (simp add: start_state_def upd_morphing_def)
  then show ?thesis
    unfolding main_def parse using libs check by (simp add: ms0_def [symmetric])
qed

lemma main_reaches_files:
  fixes ilibs :: "'h input_lib list" and mlibs :: "morph_handle morph_lib list" and env :: main_env
    and cs :: "cmd_opt list" and ds :: "bytes list"
  defines "g \<equiv> parsed_state env cs"
  defines "d \<equiv> shown_images g ds"
  assumes cmd: "cmds_ok cs (InitResources\<lparr>x_may_set_fuse_allow_other := me_may_allow_other env\<rparr>)" "take 1 mnt \<noteq> ''-''"
    and libs: "find_lib ml_types ''combine'' mlibs = Some (Some combine_lib)" "ilibs \<noteq> []"
    and dir: "me_stat_dir env mnt = Some True"
    and opts: "in_lib_params (x_input g) = None" "mo_lib_params (x_morphing g) = None"
      "mo_morph_type (x_morphing g) = None \<or> mo_morph_type (x_morphing g) = Some ''combine''"
    and images: "in_images (x_input g) \<noteq> []" "images_open ilibs g 0 ds" "length ds < 2 ^ 32"
    and d: "length d < 2 ^ 49"
  shows "\<exists>ms m. main env ilibs mlibs (prog # concat (map cmd_text cs) @ [mnt]) = main_finish (main_files env ms) \<and>
    morphed_ok (ms_g ms) d \<and> unbuilt (ms_g ms) \<and> x_output (ms_g ms) = x_output g \<and> x_cache (ms_g ms) = x_cache g \<and>
    ms_morph ms = Some (combine_lib, HCombine m) \<and>
    list_all2 (handle_of ilibs (x_debug g)) (in_images (x_input g)) (ms_handles ms) \<and>
    map ii_files (in_images (x_input (ms_g ms))) = map ii_files (in_images (x_input g))"
proof -
  define ms1 :: "('h, morph_handle) main_state" where "ms1 = start_state env ilibs mlibs prog mnt g"
  define g1 where "g1 = ms_g ms1"
  have e1: "x_input g1 = x_input g" "x_output g1 = x_output g" "x_cache g1 = x_cache g" "x_debug g1 = x_debug g"
    "mo_morph_type (x_morphing g1) = Some ''combine''" "mo_lib_params (x_morphing g1) = None"
    using opts(2,3) by (auto simp: g1_def ms1_def start_state_def upd_morphing_def)
  let ?ms1 = "ms1\<lparr>ms_g := g1\<rparr>"
  have ms1: "?ms1 = ms1" by (simp add: g1_def)
  have op1: "images_open ilibs g1 0 ds" using images(2) by (simp add: images_open_def e1)
  have il1: "ms_ilibs ?ms1 = ilibs" "length (ms_handles ?ms1) = length (in_images (x_input g1))"
    by (simp_all add: ms1_def start_state_def e1)
  obtain ls' hs' where load: "main_load_images 0 (length (in_images (x_input g1))) ?ms1 =
      MainGo (?ms1\<lparr>ms_g := load_from ilibs 0 g1, ms_ilibs := ls', ms_handles := hs'\<rparr>)"
    "list_all2 (handle_of ilibs (x_debug g)) (in_images (x_input g)) hs'"
    using main_load_images_ok [of 0 "length (in_images (x_input g1))" ?ms1 ds] op1 opts(1) il1
    by (auto simp: e1)
  define g2 where "g2 = load_from ilibs 0 g1"
  have e2: "x_output g2 = x_output g" "x_cache g2 = x_cache g" "x_morphing g2 = x_morphing g1"
    "map ii_files (in_images (x_input g2)) = map ii_files (in_images (x_input g))"
    by (simp_all add: g2_def load_from_def upd_input_def e1 loaded_input_def Let_def comp_def)
  let ?ms2 = "?ms1\<lparr>ms_g := g2, ms_ilibs := ls', ms_handles := hs'\<rparr>"
  have dd: "concat (map (shown_part (in_image_offset (x_input g1)) (in_image_size_limit (x_input g1))) ds) = d"
    by (simp add: d_def shown_images_def e1)
  have dl: "length d < 2 ^ 62" using d by simp
  note pr = loaded_provider [OF op1, unfolded dd, folded g2_def]
  have p: "provider_inv (g2, ds)" "concat (provider_images (g2, ds)) = d"
    using pr dl images(3) dd by (auto simp: g2_def)
  have find: "FindMorphingLib ?ms2 = Some (Some combine_lib)"
    using libs(1) by (simp add: FindMorphingLib_def e2 e1 ms1_def start_state_def)
  obtain m where m: "main_morph ?ms2 = MainGo (?ms2\<lparr>ms_morph := Some (combine_lib, HCombine m),
      ms_g := upd_morphing (\<lambda>x. x\<lparr>mo_Size := CombineSize m, mo_Read := CombineRead m\<rparr>) g2\<rparr>)"
    "morphed_ok (upd_morphing (\<lambda>x. x\<lparr>mo_Size := CombineSize m, mo_Read := CombineRead m\<rparr>) g2) d"
    using main_morph_combine [OF find, of ds] p dl e1(6) by (auto simp: e2)
  define g3 where "g3 = upd_morphing (\<lambda>x. x\<lparr>mo_Size := CombineSize m, mo_Read := CombineRead m\<rparr>) g2"
  let ?ms3 = "?ms2\<lparr>ms_morph := Some (combine_lib, HCombine m), ms_g := g3\<rparr>"
  have e3: "x_output g3 = x_output g" "x_cache g3 = x_cache g" "x_input g3 = x_input g2"
    by (simp_all add: g3_def upd_morphing_def e2)
  have ml: "mlibs \<noteq> []" using libs(1) by auto
  have "main env ilibs mlibs (prog # concat (map cmd_text cs) @ [mnt]) = main_finish (main_files env ?ms3)"
    using main_start [of cs env mnt ilibs mlibs prog] cmd libs ml dir images(1) load(1) m(1)
    by (auto simp: g_def [symmetric] e1(1) ms1_def [symmetric] ms1 g2_def [symmetric] g3_def [symmetric])
  moreover have "unbuilt g3" using unbuilt_parsed [of env cs] by (simp add: unbuilt_def e3 g_def)
  ultimately show ?thesis
    using m(2) load(2) e3 e2(4) by (intro exI [of _ ?ms3] exI [of _ m]) (simp add: g3_def [symmetric])
qed

lemma combine_info_ok: "ms_morph ms = Some (combine_lib, h) \<Longrightarrow> morph_info_ok ms"
  by (simp add: morph_info_ok_def combine_lib_def combine_codes)

lemma main_mounts:
  fixes ilibs :: "'h input_lib list" and mlibs :: "morph_handle morph_lib list" and env :: main_env
    and cs :: "cmd_opt list" and ds :: "bytes list"
  defines "g \<equiv> parsed_state env cs"
  defines "d \<equiv> shown_images g ds"
  assumes cmd: "cmds_ok cs (InitResources\<lparr>x_may_set_fuse_allow_other := me_may_allow_other env\<rparr>)" "take 1 mnt \<noteq> ''-''"
    and libs: "find_lib ml_types ''combine'' mlibs = Some (Some combine_lib)" "ilibs \<noteq> []"
    and dir: "me_stat_dir env mnt = Some True"
    and opts: "in_lib_params (x_input g) = None" "mo_lib_params (x_morphing g) = None"
      "mo_morph_type (x_morphing g) = None \<or> mo_morph_type (x_morphing g) = Some ''combine''"
      "descriptor_fits (out_VirtImageType (x_output g)) (hd (ii_files (hd (in_images (x_input g)))))"
    and images: "in_images (x_input g) \<noteq> []" "images_open ilibs g 0 ds" "length ds < 2 ^ 32"
      "infos_ok (me_p_buf_null env) (map (image_info ilibs (x_debug g)) (in_images (x_input g)))"
    and d: "d \<noteq> []" "length d < 2 ^ 49" "cache_ready env g d"
  shows "\<exists>ms. main env ilibs mlibs (prog # concat (map cmd_text cs) @ [mnt]) = Some (MainMounts ms) \<and>
    session_inv \<lparr>se_g = ms_g ms, se_open = []\<rparr> d \<and> mem_sizes_ok (x_output (ms_g ms)) \<and>
    virt_contents (ms_g ms) d = framed (x_output (ms_g ms)) d \<and>
    out_VirtImageType (x_output (ms_g ms)) = out_VirtImageType (x_output g) \<and>
    out_writable (x_output (ms_g ms)) = out_writable (x_output g)"
proof -
  obtain ms m where ms: "main env ilibs mlibs (prog # concat (map cmd_text cs) @ [mnt]) = main_finish (main_files env ms)"
    "morphed_ok (ms_g ms) d" "unbuilt (ms_g ms)" "x_output (ms_g ms) = x_output g" "x_cache (ms_g ms) = x_cache g"
    "ms_morph ms = Some (combine_lib, HCombine m)"
    "list_all2 (handle_of ilibs (x_debug g)) (in_images (x_input g)) (ms_handles ms)"
    "map ii_files (in_images (x_input (ms_g ms))) = map ii_files (in_images (x_input g))"
    using main_reaches_files [of cs env mnt mlibs ilibs ds prog] cmd libs dir opts(1-3) images(1-3) d(2)
    unfolding g_def d_def by blast
  have ne: "in_images (x_input (ms_g ms)) \<noteq> []" using ms(8) images(1) by auto
  then have hd: "ii_files (hd (in_images (x_input (ms_g ms)))) = ii_files (hd (in_images (x_input g)))"
    using ms(8) images(1) by (metis hd_map)
  have len: "length (ms_handles ms) = length (in_images (x_input (ms_g ms)))"
    using list_all2_lengthD [OF ms(7)] arg_cong [OF ms(8), of length] by simp
  have infos: "infos_ok (me_p_buf_null env) (map handle_info (ms_handles ms))"
    using images(4) handles_of_infos [OF ms(7)] by simp
  have fits: "descriptor_fits (out_VirtImageType (x_output (ms_g ms))) (hd (ii_files (hd (in_images (x_input (ms_g ms))))))"
    using opts(4) by (simp add: ms(4) hd)
  have ready: "cache_ready env (ms_g ms) d" using d(3) cache_ready_same [OF ms(5)] by simp
  obtain g' where "main_files env ms = MainGo (ms\<lparr>ms_g := g'\<rparr>)"
    "session_inv \<lparr>se_g = g', se_open = []\<rparr> d" "mem_sizes_ok (x_output g')" "virt_contents g' d = framed (x_output g') d"
    "out_VirtImageType (x_output g') = out_VirtImageType (x_output g)"
    "out_writable (x_output g') = out_writable (x_output g)"
    using main_files_ok [OF ms(2) d(1,2) fits ms(3) ready combine_info_ok [OF ms(6)] len]
    unfolding if_P [OF infos] ms(4) by blast
  then show ?thesis using ms(1) by (intro exI [of _ "ms\<lparr>ms_g := g'\<rparr>"]) (simp add: main_finish_def)
qed

text \<open>If a library refuses its text, the images are closed and the program returns 1.\<close>

definition closes_ok :: "'h input_lib list \<Rightarrow> bool \<Rightarrow> input_image \<Rightarrow> bool" where
  "closes_ok ilibs debug img \<longleftrightarrow>
     (case il_Close (image_lib ilibs img) (opened_handle ilibs debug img) of
        None \<Rightarrow> False | Some (ret, h) \<Rightarrow> il_DestroyHandle (image_lib ilibs img) h \<noteq> None)"

lemma handle_of_closes:
  assumes "handle_of ilibs debug img lh" "closes_ok ilibs debug img"
  shows "FreeResources_image lh"
proof -
  obtain lib where lib: "lh = Some (lib, opened_handle ilibs debug img)"
    "lib\<lparr>il_is_initialized := False\<rparr> = (image_lib ilibs img)\<lparr>il_is_initialized := False\<rparr>"
    using assms(1) unfolding handle_of_def by blast
  then show ?thesis
    using assms(2) same_lib(8,9) [OF lib(2)] by (simp add: closes_ok_def FreeResources_image_def split: option.splits prod.splits)
qed

lemma main_info_fails:
  fixes ilibs :: "'h input_lib list" and mlibs :: "morph_handle morph_lib list" and env :: main_env
    and cs :: "cmd_opt list" and ds :: "bytes list"
  defines "g \<equiv> parsed_state env cs"
  defines "d \<equiv> shown_images g ds"
  assumes cmd: "cmds_ok cs (InitResources\<lparr>x_may_set_fuse_allow_other := me_may_allow_other env\<rparr>)" "take 1 mnt \<noteq> ''-''"
    and libs: "find_lib ml_types ''combine'' mlibs = Some (Some combine_lib)" "ilibs \<noteq> []"
    and dir: "me_stat_dir env mnt = Some True"
    and opts: "in_lib_params (x_input g) = None" "mo_lib_params (x_morphing g) = None"
      "mo_morph_type (x_morphing g) = None \<or> mo_morph_type (x_morphing g) = Some ''combine''"
      "descriptor_fits (out_VirtImageType (x_output g)) (hd (ii_files (hd (in_images (x_input g)))))"
    and images: "in_images (x_input g) \<noteq> []" "images_open ilibs g 0 ds" "length ds < 2 ^ 32"
      "\<not> infos_ok (me_p_buf_null env) (map (image_info ilibs (x_debug g)) (in_images (x_input g)))"
      "\<forall>img \<in> set (in_images (x_input g)). closes_ok ilibs (x_debug g) img"
    and d: "d \<noteq> []" "length d < 2 ^ 49" "cache_ready env g d"
  shows "main env ilibs mlibs (prog # concat (map cmd_text cs) @ [mnt]) = Some (MainReturns 1)"
proof -
  obtain ms m where ms: "main env ilibs mlibs (prog # concat (map cmd_text cs) @ [mnt]) = main_finish (main_files env ms)"
    "morphed_ok (ms_g ms) d" "unbuilt (ms_g ms)" "x_output (ms_g ms) = x_output g" "x_cache (ms_g ms) = x_cache g"
    "ms_morph ms = Some (combine_lib, HCombine m)"
    "list_all2 (handle_of ilibs (x_debug g)) (in_images (x_input g)) (ms_handles ms)"
    "map ii_files (in_images (x_input (ms_g ms))) = map ii_files (in_images (x_input g))"
    using main_reaches_files [of cs env mnt mlibs ilibs ds prog] cmd libs dir opts(1-3) images(1-3) d(2)
    unfolding g_def d_def by blast
  have ne: "in_images (x_input (ms_g ms)) \<noteq> []" using ms(8) images(1) by auto
  then have hd: "ii_files (hd (in_images (x_input (ms_g ms)))) = ii_files (hd (in_images (x_input g)))"
    using ms(8) images(1) by (metis hd_map)
  have len: "length (ms_handles ms) = length (in_images (x_input (ms_g ms)))"
    using list_all2_lengthD [OF ms(7)] arg_cong [OF ms(8), of length] by simp
  have infos: "\<not> infos_ok (me_p_buf_null env) (map handle_info (ms_handles ms))"
    using images(4) handles_of_infos [OF ms(7)] by simp
  have fits: "descriptor_fits (out_VirtImageType (x_output (ms_g ms))) (hd (ii_files (hd (in_images (x_input (ms_g ms))))))"
    using opts(4) by (simp add: ms(4) hd)
  have ready: "cache_ready env (ms_g ms) d" using d(3) cache_ready_same [OF ms(5)] by simp
  obtain g' where fail: "main_files env ms = MainFail (ms\<lparr>ms_g := g'\<rparr>)"
    using main_files_ok [OF ms(2) d(1,2) fits ms(3) ready combine_info_ok [OF ms(6)] len]
    unfolding if_not_P [OF infos] by blast
  have "list_all FreeResources_image (ms_handles ms)"
    using ms(7) images(5) handle_of_closes
    by (fastforce simp: list_all2_conv_all_nth list_all_length)
  then show ?thesis
    by (simp add: ms(1) fail main_finish_def FreeResources_def ms(6) combine_lib_def)
qed

section \<open>Raw images\<close>

text \<open>A raw image whose files exist opens as their contents behind each other.\<close>

lemma raw_opens_as:
  assumes lib: "FindInputLib ilibs img = Some (Some k)" "ilibs ! k = raw_lib fs gib"
    and files: "\<forall>f \<in> set (ii_files img). fs f \<noteq> None"
  defines "d \<equiv> concat (map (the \<circ> fs) (ii_files img))"
  assumes d: "length d < 2 ^ 63" "main_image_size off limit (length d) \<noteq> None"
  shows "opens_as ilibs debug off limit img d" "closes_ok ilibs debug img"
    "(fst (image_info ilibs debug img null) = 0) = (\<not> null)"
proof -
  obtain h where h: "RawOpen fs RawCreateHandle (ii_files img) = Some (RAW_OK, h)" "raw_inv h" "raw_contents h = d"
    using RawOpen_loop_ok [OF files, of "[]" "RawCreateHandle\<lparr>rh_total_size := 0\<rparr>"] d(1)
    by (auto simp: RawOpen_def pieces_ok_def d_def)
  have il: "image_lib ilibs img = raw_lib fs gib" using lib by (simp add: image_lib_def)
  have oh: "opened_handle ilibs debug img = HRaw h"
    by (simp add: opened_handle_def il Let_def raw_lib_def h(1))
  show "opens_as ilibs debug off limit img d"
    using lib(1) h(1) d raw.rd_size_law [OF h(2)] raw.rd_read_law [OF h(2)]
    by (simp add: opens_as_def il oh Let_def raw_lib_def raw_codes lib_image_ok_def h(3))
  show "(fst (image_info ilibs debug img null) = 0) = (\<not> null)"
    by (simp add: image_info_def il oh raw_lib_def RawGetInfofileContent_def raw_codes)
  show "closes_ok ilibs debug img"
  proof -
    obtain ps where "rh_piece_arr h = RawPieces ps" using h(2) unfolding raw_inv_def by blast
    then show ?thesis by (simp add: closes_ok_def il oh raw_lib_def RawClose_def)
  qed
qed

lemma FindInputLib_raw:
  "ii_type img \<in> {''raw'', ''dd''} \<Longrightarrow> FindInputLib (raw_lib fs gib # ilibs) img = Some (Some 0)"
  using lib_supports_names [of "[''raw'', ''dd'']" "ii_type img"]
  by (auto simp: FindInputLib_def raw_lib_def)

lemma find_combine: "find_lib ml_types ''combine'' (combine_lib # mlibs) = Some (Some combine_lib)"
  using lib_supports_names [of "[''combine'']" "''combine''"] by (simp add: combine_lib_def)

text \<open>The options \<open>--in\<close> and \<open>--out\<close>.\<close>

definition raw_cmd :: "string \<Rightarrow> string list \<Rightarrow> VirtImageType \<Rightarrow> cmd_opt list" where
  "raw_cmd ty files t = [CmdIn ty files, CmdOut t]"

lemma raw_cmd_state:
  "x_input (parsed_state env (raw_cmd ty files t)) = (x_input InitResources)\<lparr>in_images := [new_input_image ty files]\<rparr>"
  "x_output (parsed_state env (raw_cmd ty files t)) = (x_output InitResources)\<lparr>out_VirtImageType := t\<rparr>"
  "x_morphing (parsed_state env (raw_cmd ty files t)) = x_morphing InitResources"
  "x_cache (parsed_state env (raw_cmd ty files t)) = x_cache InitResources"
  by (simp_all add: parsed_state_def raw_cmd_def add_input_image_def upd_input_def upd_output_def InitResources_def)

lemma raw_cmds_ok:
  "files \<noteq> [] \<Longrightarrow> \<forall>f \<in> set files. take 2 f \<noteq> ''--'' \<Longrightarrow> cmds_ok (raw_cmd ty files t) g"
  by (simp add: raw_cmd_def)

lemma raw_cmd_text:
  "concat (map cmd_text (raw_cmd ty files t)) @ [mnt] = [''--in'', ty] @ files @ [''--out'', out_name t, mnt]"
  by (simp add: raw_cmd_def)

text \<open>One image, whatever its library: it is enough that the library opens it.\<close>

lemma mounts_one_image:
  fixes ilibs :: "'h input_lib list" and env :: main_env
  assumes libs: "opens_as ilibs False 0 0 (new_input_image ty files) d" "ilibs \<noteq> []"
    and args: "files \<noteq> []" "\<forall>f \<in> set files. take 2 f \<noteq> ''--''" "descriptor_fits t (hd files)" "take 1 mnt \<noteq> ''-''"
    and dir: "me_stat_dir env mnt = Some True" and size: "d \<noteq> []" "length d < 2 ^ 49"
  shows "fst (image_info ilibs False (new_input_image ty files) (me_p_buf_null env)) = 0 \<Longrightarrow>
    \<exists>ms. main env ilibs (combine_lib # mlibs)
      (prog # [''--in'', ty] @ files @ [''--out'', out_name t, mnt]) = Some (MainMounts ms) \<and>
    session_inv \<lparr>se_g = ms_g ms, se_open = []\<rparr> d \<and> mem_sizes_ok (x_output (ms_g ms)) \<and>
    virt_contents (ms_g ms) d = framed (x_output (ms_g ms)) d \<and>
    out_VirtImageType (x_output (ms_g ms)) = t \<and> \<not> out_writable (x_output (ms_g ms))"
    and "fst (image_info ilibs False (new_input_image ty files) (me_p_buf_null env)) \<noteq> 0 \<Longrightarrow>
      closes_ok ilibs False (new_input_image ty files) \<Longrightarrow>
      main env ilibs (combine_lib # mlibs)
        (prog # [''--in'', ty] @ files @ [''--out'', out_name t, mnt]) = Some (MainReturns 1)"
proof -
  let ?cs = "raw_cmd ty files t" and ?img = "new_input_image ty files"
  let ?g = "parsed_state env ?cs"
  note st = raw_cmd_state [of env ty files t]
  have shown: "shown_images ?g [d] = d"
    by (simp add: shown_images_def shown_part_def st InitResources_def)
  have dbg: "x_debug ?g = False"
    by (simp add: parsed_state_def raw_cmd_def add_input_image_def upd_input_def upd_output_def InitResources_def)
  then have op: "images_open ilibs ?g 0 [d]"
    using libs(1) by (simp add: images_open_def st InitResources_def)
  have infos: "infos_ok (me_p_buf_null env) (map (image_info ilibs (x_debug ?g)) (in_images (x_input ?g))) \<longleftrightarrow>
      fst (image_info ilibs False ?img (me_p_buf_null env)) = 0"
    by (simp add: infos_ok_def st dbg split: prod.split)
  have files: "ii_files ?img = files" by (simp add: new_input_image_def)
  show "\<exists>ms. main env ilibs (combine_lib # mlibs)
      (prog # [''--in'', ty] @ files @ [''--out'', out_name t, mnt]) = Some (MainMounts ms) \<and>
    session_inv \<lparr>se_g = ms_g ms, se_open = []\<rparr> d \<and> mem_sizes_ok (x_output (ms_g ms)) \<and>
    virt_contents (ms_g ms) d = framed (x_output (ms_g ms)) d \<and>
    out_VirtImageType (x_output (ms_g ms)) = t \<and> \<not> out_writable (x_output (ms_g ms))"
    if "fst (image_info ilibs False ?img (me_p_buf_null env)) = 0"
    using main_mounts [of ?cs env mnt "combine_lib # mlibs" ilibs "[d]" prog]
      raw_cmds_ok [of files ty t] libs(2) args dir size op find_combine that
    unfolding shown raw_cmd_text infos
    by (simp add: st files InitResources_def cache_ready_def)
  show "main env ilibs (combine_lib # mlibs)
        (prog # [''--in'', ty] @ files @ [''--out'', out_name t, mnt]) = Some (MainReturns 1)"
    if "fst (image_info ilibs False ?img (me_p_buf_null env)) \<noteq> 0" "closes_ok ilibs False ?img"
    using main_info_fails [of ?cs env mnt "combine_lib # mlibs" ilibs "[d]" prog]
      raw_cmds_ok [of files ty t] libs(2) args dir size op find_combine that
    unfolding shown raw_cmd_text infos
    by (simp add: st files dbg InitResources_def cache_ready_def)
qed

text \<open>One raw image: whether the program mounts it depends on the uninitialised pointer.\<close>

lemma mounts_raw:
  fixes ilibs :: "input_handle input_lib list" and env :: main_env and fs :: "string \<Rightarrow> bytes option"
    and files :: "string list"
  defines "d \<equiv> concat (map (the \<circ> fs) files)"
  assumes libs: "ty \<in> {''raw'', ''dd''}"
    and args: "files \<noteq> []" "\<forall>f \<in> set files. take 2 f \<noteq> ''--'' \<and> fs f \<noteq> None" "descriptor_fits t (hd files)"
      "take 1 mnt \<noteq> ''-''"
    and dir: "me_stat_dir env mnt = Some True" and size: "d \<noteq> []" "length d < 2 ^ 49"
  shows "if me_p_buf_null env
    then main env (raw_lib fs gib # ilibs) (combine_lib # mlibs)
      (prog # [''--in'', ty] @ files @ [''--out'', out_name t, mnt]) = Some (MainReturns 1)
    else \<exists>ms. main env (raw_lib fs gib # ilibs) (combine_lib # mlibs)
        (prog # [''--in'', ty] @ files @ [''--out'', out_name t, mnt]) = Some (MainMounts ms) \<and>
      session_inv \<lparr>se_g = ms_g ms, se_open = []\<rparr> d \<and> mem_sizes_ok (x_output (ms_g ms)) \<and>
      virt_contents (ms_g ms) d = framed (x_output (ms_g ms)) d \<and>
      out_VirtImageType (x_output (ms_g ms)) = t \<and> \<not> out_writable (x_output (ms_g ms))"
proof -
  let ?ls = "raw_lib fs gib # ilibs" and ?img = "new_input_image ty files"
  have find: "FindInputLib ?ls ?img = Some (Some 0)"
    using FindInputLib_raw [of ?img fs gib ilibs] libs by (simp add: new_input_image_def)
  have files: "ii_files ?img = files" by (simp add: new_input_image_def)
  have raw: "opens_as ?ls False 0 0 ?img d" "closes_ok ?ls False ?img"
    "(fst (image_info ?ls False ?img null) = 0) = (\<not> null)" for null
    using raw_opens_as(1,2) [OF find, of fs gib 0 0 False] raw_opens_as(3) [OF find, of fs gib 0 0 False null]
      args(2) size(2)
    by (simp_all add: files d_def main_image_size_def)
  have "\<forall>f \<in> set files. take 2 f \<noteq> ''--''" using args(2) by blast
  note one = mounts_one_image [OF raw(1) _ args(1) this args(3,4) dir size, of mlibs prog]
  show ?thesis
  proof (cases "me_p_buf_null env")
    case True
    then show ?thesis using one(2) raw(2,3) by simp
  next
    case False
    then show ?thesis unfolding if_not_P [OF False] using one(1) raw(3) by simp
  qed
qed

section \<open>An image that cannot be closed\<close>

text \<open>If a library's \<open>Open\<close> fails and leaves a handle that must not be closed, the error path of
  \<open>main\<close> closes it all the same.\<close>

lemma main_load_image_close_undefined:
  fixes ms :: "('h, 'm) main_state"
  assumes k: "FindInputLib (ms_ilibs ms) (in_images (x_input (ms_g ms)) ! i) = Some (Some k)"
    and i: "i < length (ms_handles ms)" and params: "in_lib_params (x_input (ms_g ms)) = None"
    and lib: "ms_ilibs ms ! k = L" "\<not> il_is_initialized L" "il_Init L = 0" "\<forall>ty dbg. il_CreateHandle L ty dbg = (0, h0)"
      "il_Open L h0 (ii_files (in_images (x_input (ms_g ms)) ! i)) = Some (ret, h1)" "ret \<noteq> 0" "il_Close L h1 = None"
  shows "main_finish (main_then (main_load_image i ms) cont) = None"
proof -
  define lib' where "lib' = L\<lparr>il_is_initialized := True\<rparr>"
  define ms1 where "ms1 = ms\<lparr>ms_ilibs := (ms_ilibs ms)[k := lib']\<rparr>"
  have kl: "k < length (ms_ilibs ms)" by (rule FindInputLib_less [OF k])
  have init: "main_init_lib k ms = MainGo ms1"
    using lib(2,3) by (simp add: main_init_lib_def lib(1) ms1_def lib'_def)
  have ms1: "ms_ilibs ms1 ! k = lib'" "ms_g ms1 = ms_g ms" "ms_handles ms1 = ms_handles ms"
    using kl by (simp_all add: ms1_def)
  have sel: "il_CreateHandle lib' ty dbg = (0, h0)" "il_Open lib' = il_Open L" "il_Close lib' = il_Close L" for ty dbg
    using lib(4) by (simp_all add: lib'_def)
  define hs where "hs = ((ms_handles ms)[i := Some (lib', h0)])[i := Some (lib', h1)]"
  have load: "main_load_image i ms = MainFail (ms1\<lparr>ms_handles := hs\<rparr>)"
    unfolding main_load_image_def Let_def k option.case init main_then.simps ms1 sel prod.case
    using params lib(5,6)
    by (simp add: main_input_options_def main_open_image_def set_handle_def ms1 sel hs_def Let_def)
  have mem: "Some (lib', h1) \<in> set hs" using i by (auto simp: hs_def set_update_memI)
  have "\<not> FreeResources_image (Some (lib', h1))" using lib(7) by (simp add: FreeResources_image_def sel)
  then have "\<not> list_all FreeResources_image hs" using mem by (auto simp: list_all_iff)
  then show ?thesis by (simp add: load main_finish_def FreeResources_def)
qed

lemma main_close_undefined:
  fixes L :: "'h input_lib" and mlibs :: "'m morph_lib list" and env :: main_env
  assumes find: "FindInputLib (L # ilibs) (new_input_image ty files) = Some (Some 0)" "mlibs \<noteq> []"
    and args: "files \<noteq> []" "\<forall>f \<in> set files. take 2 f \<noteq> ''--''" "take 1 mnt \<noteq> ''-''"
    and dir: "me_stat_dir env mnt = Some True"
    and lib: "\<not> il_is_initialized L" "il_Init L = 0" "\<forall>ty dbg. il_CreateHandle L ty dbg = (0, h0)"
      "il_Open L h0 files = Some (ret, h1)" "ret \<noteq> 0" "il_Close L h1 = None"
  shows "main env (L # ilibs) mlibs (prog # [''--in'', ty] @ files @ [''--out'', out_name t, mnt]) = None"
proof -
  let ?cs = "raw_cmd ty files t"
  let ?g = "parsed_state env ?cs"
  let ?s = "start_state env (L # ilibs) mlibs prog mnt ?g"
  note st = raw_cmd_state [of env ty files t]
  have s: "ms_ilibs ?s = L # ilibs" "in_images (x_input (ms_g ?s)) = [new_input_image ty files]"
    "ms_handles ?s = [None]" "in_lib_params (x_input (ms_g ?s)) = None"
    by (simp_all add: start_state_def upd_morphing_def st InitResources_def)
  have "main_finish (main_then (main_load_image 0 ?s) cont) = None" for cont
    by (rule main_load_image_close_undefined [where k = 0 and L = L and ?h0.0 = h0 and ?h1.0 = h1 and ret = ret])
      (use lib find in \<open>simp_all add: s new_input_image_def\<close>)
  moreover have "main_then (main_then x f) f' = main_then x (\<lambda>y. main_then (f y) f')"
    for x and f f' :: "('h, 'm) main_state \<Rightarrow> ('h, 'm) main_state main_step"
    by (cases x) simp_all
  ultimately show ?thesis
    using main_start [of ?cs env mnt "L # ilibs" mlibs prog] raw_cmds_ok [of files ty t] args find(2) dir
    unfolding raw_cmd_text by (simp add: st numeral_eq_Suc)
qed

text \<open>A raw image one of whose files is missing.\<close>

lemma main_raw_missing:
  fixes ilibs :: "input_handle input_lib list" and mlibs :: "'m morph_lib list" and env :: main_env
  assumes libs: "ty \<in> {''raw'', ''dd''}" "mlibs \<noteq> []"
    and args: "files \<noteq> []" "\<forall>f \<in> set files. take 2 f \<noteq> ''--''" "take 1 mnt \<noteq> ''-''"
    and dir: "me_stat_dir env mnt = Some True" and missing: "\<exists>f \<in> set files. fs f = None"
  shows "main env (raw_lib fs gib # ilibs) mlibs (prog # [''--in'', ty] @ files @ [''--out'', out_name t, mnt]) = None"
proof -
  obtain h where h: "RawOpen fs RawCreateHandle files = Some (RAW_FILE_OPEN_FAILED, h)" "rh_piece_arr h = RawDangling"
    using RawOpen_loop_missing [OF missing] unfolding RawOpen_def by blast
  show ?thesis
  proof (rule main_close_undefined [where ?h0.0 = "HRaw RawCreateHandle" and ?h1.0 = "HRaw h" and ret = RAW_FILE_OPEN_FAILED,
        OF FindInputLib_raw libs(2) args dir])
    show "ii_type (new_input_image ty files) \<in> {''raw'', ''dd''}" using libs(1) by (simp add: new_input_image_def)
  qed (simp_all add: raw_lib_def raw_codes h RawClose_def)
qed

section \<open>Properties\<close>

text \<open>An environment for the examples: the directory \<open>/mnt\<close>, no cache files.\<close>

definition example_env :: main_env where
  "example_env = \<lparr>me_stat_dir = [''/mnt'' \<mapsto> True], me_realpath = (\<lambda>_. None), me_may_allow_other = False,
     me_cache_rb = (\<lambda>_. None), me_cache_wb = (\<lambda>_. None), me_rands = (1, 2, 3, 4), me_now = 0,
     me_md5 = \<lparr>md_count0 = 0, md_count1 = 0, md_abcd = (0, 0, 0, 0), md_buf = []\<rparr>, me_p_buf_null = False\<rparr>"

definition example_fs :: "string \<Rightarrow> bytes option" where
  "example_fs = [''a'' \<mapsto> [1, 2, 3], ''b'' \<mapsto> [4, 5, 6]]"

definition example_libs :: "input_handle input_lib list" where
  "example_libs = [raw_lib example_fs (\<lambda>_. [])]"

definition example_cmd :: "cmd_opt list" where
  "example_cmd = [CmdIn ''raw'' [''a''], CmdIn ''dd'' [''b''], CmdOffset 1, CmdOut VirtImageType_VMDK]"

lemma example_state:
  "in_images (x_input (parsed_state example_env example_cmd)) =
     [new_input_image ''raw'' [''a''], new_input_image ''dd'' [''b'']]"
  "in_image_offset (x_input (parsed_state example_env example_cmd)) = 1"
  "in_image_size_limit (x_input (parsed_state example_env example_cmd)) = 0"
  "in_lib_params (x_input (parsed_state example_env example_cmd)) = None"
  "x_morphing (parsed_state example_env example_cmd) = x_morphing InitResources"
  "x_cache (parsed_state example_env example_cmd) = x_cache InitResources"
  "out_VirtImageType (x_output (parsed_state example_env example_cmd)) = VirtImageType_VMDK"
  by (simp_all add: parsed_state_def example_cmd_def add_input_image_def upd_input_def upd_output_def InitResources_def)

lemma example_system:
  "me_stat_dir example_env ''/mnt'' = Some True" "cache_ready example_env (parsed_state example_env example_cmd) d"
  "me_p_buf_null example_env = False"
  by (simp_all add: cache_ready_def example_state InitResources_def) (simp_all add: example_env_def)

lemma example_opens:
  "images_open example_libs (parsed_state example_env example_cmd) 0 [[1, 2, 3], [4, 5, 6]]"
  "infos_ok False (map (image_info example_libs (x_debug (parsed_state example_env example_cmd)))
     (in_images (x_input (parsed_state example_env example_cmd))))"
proof -
  let ?a = "new_input_image ''raw'' [''a'']" and ?b = "new_input_image ''dd'' [''b'']"
  have find: "FindInputLib example_libs ?a = Some (Some 0)" "FindInputLib example_libs ?b = Some (Some 0)"
    using FindInputLib_raw [of ?a] FindInputLib_raw [of ?b] by (simp_all add: example_libs_def new_input_image_def)
  have lib: "example_libs ! 0 = raw_lib example_fs (\<lambda>_. [])" by (simp add: example_libs_def)
  have files: "ii_files ?a = [''a'']" "ii_files ?b = [''b'']" by (simp_all add: new_input_image_def)
  have "opens_as example_libs debug 1 0 ?a [1, 2, 3]" "opens_as example_libs debug 1 0 ?b [4, 5, 6]" for debug
    using raw_opens_as(1) [OF find(1) lib, of 1 0 debug] raw_opens_as(1) [OF find(2) lib, of 1 0 debug]
    by (simp_all add: files example_fs_def main_image_size_def)
  then show "images_open example_libs (parsed_state example_env example_cmd) 0 [[1, 2, 3], [4, 5, 6]]"
    by (simp add: images_open_def example_state)
  have "image_lib example_libs ?a = raw_lib example_fs (\<lambda>_. [])" "image_lib example_libs ?b = raw_lib example_fs (\<lambda>_. [])"
    using find lib by (simp_all add: image_lib_def)
  then have "\<exists>t. image_info example_libs debug ?a False = (0, Some t)" "\<exists>t. image_info example_libs debug ?b False = (0, Some t)" for debug
    by (simp_all add: image_info_def opened_handle_def Let_def raw_lib_def RawOpen_def files example_fs_def
        RawGetInfofileContent_def raw_codes open_r_def Let_def)
  then obtain t u where "image_info example_libs False ?a False = (0, Some t)" "image_info example_libs False ?b False = (0, Some u)"
    by blast
  moreover have "x_debug (parsed_state example_env example_cmd) = False"
    by (simp add: parsed_state_def example_cmd_def add_input_image_def upd_input_def upd_output_def InitResources_def)
  ultimately show "infos_ok False (map (image_info example_libs (x_debug (parsed_state example_env example_cmd)))
     (in_images (x_input (parsed_state example_env example_cmd))))"
    by (simp add: infos_ok_def example_state)
qed

text \<open>C7: if the libraries open the input images and give their texts for the info file, the
  command line asks for no library or morphing options and for no other morphing than
  \<open>combine\<close>, what is shown of the images is not empty and smaller than 512 TiB, the first file
  name fits the descriptor of a VMDK output, and the cache file, if any, is new and has room for its
  index (\<open>cache_ready\<close>), then \<open>main\<close> reaches \<open>fuse_main\<close> in a state that satisfies the
  invariant of the FUSE sessions and shows the images, cut by \<open>--offset\<close> and \<open>--sizelimit\<close>,
  behind each other in the frame of the output format.\<close>

theorem xmount_mounts_images:
  fixes ilibs :: "'h input_lib list" and mlibs :: "morph_handle morph_lib list" and env :: main_env
    and cs :: "cmd_opt list" and ds :: "bytes list"
  defines "g \<equiv> parsed_state env cs"
  defines "d \<equiv> shown_images g ds"
  assumes "cmds_ok cs (InitResources\<lparr>x_may_set_fuse_allow_other := me_may_allow_other env\<rparr>)" "take 1 mnt \<noteq> ''-''"
    and "find_lib ml_types ''combine'' mlibs = Some (Some combine_lib)" "ilibs \<noteq> []"
    and "me_stat_dir env mnt = Some True"
    and "in_lib_params (x_input g) = None" "mo_lib_params (x_morphing g) = None"
      "mo_morph_type (x_morphing g) = None \<or> mo_morph_type (x_morphing g) = Some ''combine''"
      "descriptor_fits (out_VirtImageType (x_output g)) (hd (ii_files (hd (in_images (x_input g)))))"
    and "in_images (x_input g) \<noteq> []" "images_open ilibs g 0 ds" "length ds < 2 ^ 32"
      "infos_ok (me_p_buf_null env) (map (image_info ilibs (x_debug g)) (in_images (x_input g)))"
    and "d \<noteq> []" "length d < 2 ^ 49" "cache_ready env g d"
  shows "\<exists>ms. main env ilibs mlibs (prog # concat (map cmd_text cs) @ [mnt]) = Some (MainMounts ms) \<and>
    session_inv \<lparr>se_g = ms_g ms, se_open = []\<rparr> d \<and> mem_sizes_ok (x_output (ms_g ms)) \<and>
    virt_contents (ms_g ms) d = framed (x_output (ms_g ms)) d \<and>
    out_VirtImageType (x_output (ms_g ms)) = out_VirtImageType (x_output g) \<and>
    out_writable (x_output (ms_g ms)) = out_writable (x_output g)"
  using assms(3-) unfolding g_def d_def by (rule main_mounts)

lemma xmount_mounts_images_witness:
  "\<exists>ms. main example_env example_libs [combine_lib] [''xmount'', ''--in'', ''raw'', ''a'', ''--in'', ''dd'', ''b'',
       ''--offset'', ''1'', ''--out'', ''vmdk'', ''/mnt''] = Some (MainMounts ms) \<and>
     virt_contents (ms_g ms) [2, 3, 5, 6] = [2, 3, 5, 6]"
proof -
  have shown: "shown_images (parsed_state example_env example_cmd) [[1, 2, 3], [4, 5, 6]] = [2, 3, 5, 6]"
    by (simp add: shown_images_def example_state shown_part_def)
  have ok: "cmds_ok example_cmd g" for g by (simp add: example_cmd_def)
  have text': "concat (map cmd_text example_cmd) @ [''/mnt''] = [''--in'', ''raw'', ''a'', ''--in'', ''dd'', ''b'',
       ''--offset'', ''1'', ''--out'', ''vmdk'', ''/mnt'']"
    by (simp add: example_cmd_def dec_string.simps char_of_def bit_0)
  have fits: "descriptor_fits VirtImageType_VMDK (hd (ii_files (hd [new_input_image ''raw'' [''a''], new_input_image ''dd'' [''b'']])))"
    by (simp add: descriptor_fits_def new_input_image_def behind_last_def)
  show ?thesis
    using xmount_mounts_images [of example_cmd example_env "''/mnt''" "[combine_lib]" example_libs
        "[[1, 2, 3], [4, 5, 6]]" "''xmount''", unfolded shown text', OF ok _ find_combine] example_opens fits
    by (auto simp: example_state example_system example_libs_def InitResources_def framed_def)
qed

text \<open>C37: if one of the files of a raw image does not exist, the behaviour of \<open>main\<close> is
  undefined: \<open>RawOpen\<close> frees its array of pieces, and \<open>FreeResources\<close> closes the image once
  more.\<close>

theorem xmount_missing_raw_file_undefined:
  fixes fs :: "string \<Rightarrow> bytes option"
  assumes "ty \<in> {''raw'', ''dd''}" "mlibs \<noteq> []" "files \<noteq> []" "\<forall>f \<in> set files. take 2 f \<noteq> ''--''"
    and "take 1 mnt \<noteq> ''-''" "me_stat_dir env mnt = Some True" "\<exists>f \<in> set files. fs f = None"
  shows "main env (raw_lib fs gib # ilibs) mlibs (prog # [''--in'', ty] @ files @ [''--out'', out_name t, mnt]) = None"
  using assms by (rule main_raw_missing)

lemma xmount_missing_raw_file_undefined_witness:
  "main example_env example_libs [combine_lib]
     [''xmount'', ''--in'', ''raw'', ''a'', ''c'', ''--out'', ''raw'', ''/mnt''] = None"
  using xmount_missing_raw_file_undefined [of "''raw''" "[combine_lib]" "[''a'', ''c'']" "''/mnt''" example_env example_fs
      "\<lambda>_. []" "[]" "''xmount''" VirtImageType_DD]
  by (simp add: example_system example_libs_def example_fs_def)

end
