(* ===== verification/InputEwf.thy ===== *)
theory InputEwf
  imports InputRaw LibXmount
begin

text \<open>
  The input library \<open>libxmount_input_ewf\<close>: EWF images through libewf, with its version 2
  interface (\<open>HAVE_LIBEWF_V2_API\<close>). libewf is a parameter: the record of the functions that
  the code calls, over an abstract state of the libewf handle; \<open>libewf_contract\<close> is what the
  property relies on. \<open>malloc\<close> and \<open>realloc\<close>
  succeed. \<open>Init\<close>, \<open>DeInit\<close> and the options have no effect.
\<close>

section \<open>Constants\<close>

definition EWF_OK :: int where "EWF_OK = 0"
definition EWF_MEMALLOC_FAILED :: int where "EWF_MEMALLOC_FAILED = 1"
definition EWF_HANDLE_CREATION_FAILED :: int where "EWF_HANDLE_CREATION_FAILED = 2"
definition EWF_HANDLE_DESTRUCTION_FAILED :: int where "EWF_HANDLE_DESTRUCTION_FAILED = 3"
definition EWF_NO_INPUT_FILES :: int where "EWF_NO_INPUT_FILES = 4"
definition EWF_INVALID_INPUT_FILES :: int where "EWF_INVALID_INPUT_FILES = 5"
definition EWF_OPEN_FAILED :: int where "EWF_OPEN_FAILED = 6"
definition EWF_OPEN_FAILED_SEEK :: int where "EWF_OPEN_FAILED_SEEK = 7"
definition EWF_OPEN_FAILED_READ :: int where "EWF_OPEN_FAILED_READ = 8"
definition EWF_HEADER_PARSING_FAILED :: int where "EWF_HEADER_PARSING_FAILED = 9"
definition EWF_CLOSE_FAILED :: int where "EWF_CLOSE_FAILED = 10"
definition EWF_GET_SIZE_FAILED :: int where "EWF_GET_SIZE_FAILED = 11"
definition EWF_SEEK_FAILED :: int where "EWF_SEEK_FAILED = 12"
definition EWF_READ_FAILED :: int where "EWF_READ_FAILED = 13"

lemmas ewf_codes = EWF_OK_def EWF_MEMALLOC_FAILED_def EWF_HANDLE_CREATION_FAILED_def EWF_HANDLE_DESTRUCTION_FAILED_def
  EWF_NO_INPUT_FILES_def EWF_INVALID_INPUT_FILES_def EWF_OPEN_FAILED_def EWF_OPEN_FAILED_SEEK_def
  EWF_OPEN_FAILED_READ_def EWF_HEADER_PARSING_FAILED_def EWF_CLOSE_FAILED_def EWF_GET_SIZE_FAILED_def
  EWF_SEEK_FAILED_def EWF_READ_FAILED_def

section \<open>libewf\<close>

datatype ewf_media =
    LIBEWF_MEDIA_TYPE_REMOVABLE | LIBEWF_MEDIA_TYPE_FIXED | LIBEWF_MEDIA_TYPE_OPTICAL
  | LIBEWF_MEDIA_TYPE_SINGLE_FILES | LIBEWF_MEDIA_TYPE_MEMORY | EwfOtherMedia

text \<open>The results are the codes that libewf returns and what it stores; \<open>lw_read_buffer\<close> gives the
  number of bytes, \<open>-1\<close> on an error, and the bytes stored. \<open>lw_value\<close> stands for the functions
  that store one header or hash value as text, by the end of their names.\<close>

record 'l libewf =
  lw_initialize :: "int \<times> 'l"
  lw_free :: "'l \<Rightarrow> int"
  lw_check_file_signature :: "string \<Rightarrow> int"
  lw_open :: "string list \<Rightarrow> 'l \<Rightarrow> int \<times> 'l"
  lw_close :: "'l \<Rightarrow> int \<times> 'l"
  lw_get_media_size :: "'l \<Rightarrow> int \<times> nat"
  lw_seek_offset :: "nat \<Rightarrow> 'l \<Rightarrow> int \<times> 'l"
  lw_read_buffer :: "nat \<Rightarrow> 'l \<Rightarrow> int \<times> bytes \<times> 'l"
  lw_value :: "string \<Rightarrow> 'l \<Rightarrow> int \<times> string"
  lw_get_media_type :: "'l \<Rightarrow> int \<times> ewf_media"
  lw_get_bytes_per_sector :: "'l \<Rightarrow> int \<times> nat"
  lw_get_number_of_sectors :: "'l \<Rightarrow> int \<times> nat"

section \<open>The library's functions\<close>

text \<open>A handle that libewf could not initialise is not stored.\<close>

definition EwfCreateHandle :: "'l libewf \<Rightarrow> int \<times> 'l option" where
  "EwfCreateHandle lw =
     (case lw_initialize lw of (r, l) \<Rightarrow> if r \<noteq> 1 then (EWF_HANDLE_CREATION_FAILED, None) else (EWF_OK, Some l))"

definition EwfDestroyHandle :: "'l libewf \<Rightarrow> 'l option \<Rightarrow> int" where
  "EwfDestroyHandle lw h =
     (case h of
        None \<Rightarrow> EWF_OK
      | Some l \<Rightarrow> if lw_free lw l \<noteq> 1 then EWF_HANDLE_DESTRUCTION_FAILED else EWF_OK)"

text \<open>The last byte is read because libewf also opens an image some of whose files are missing.\<close>

definition EwfOpen_last_byte :: "'l libewf \<Rightarrow> 'l \<Rightarrow> int \<times> 'l" where
  "EwfOpen_last_byte lw l =
     (case lw_get_media_size lw l of (r, image_size) \<Rightarrow>
        if r \<noteq> 1 then (EWF_GET_SIZE_FAILED, l)
        else if image_size = 0 then (EWF_OK, l)
        else case lw_seek_offset lw (image_size - 1) l of (r, l1) \<Rightarrow>
          if r = -1 then (EWF_OPEN_FAILED_SEEK, l1)
          else case lw_read_buffer lw 1 l1 of (r, _, l2) \<Rightarrow>
            if r \<noteq> 1 then (EWF_OPEN_FAILED_READ, l2) else (EWF_OK, l2))"

definition EwfOpen :: "'l libewf \<Rightarrow> 'l \<Rightarrow> string list \<Rightarrow> int \<times> 'l" where
  "EwfOpen lw l names =
     (if names = [] then (EWF_NO_INPUT_FILES, l)
      else if list_ex (\<lambda>name. lw_check_file_signature lw name \<noteq> 1) names then (EWF_INVALID_INPUT_FILES, l)
      else case lw_open lw names l of (r, l1) \<Rightarrow>
        if r \<noteq> 1 then (EWF_OPEN_FAILED, l1) else EwfOpen_last_byte lw l1)"

definition EwfClose :: "'l libewf \<Rightarrow> 'l \<Rightarrow> int \<times> 'l" where
  "EwfClose lw l =
     (case lw_close lw l of (r, l1) \<Rightarrow> (if r \<noteq> 0 then EWF_CLOSE_FAILED else EWF_OK, l1))"

definition EwfSize :: "'l libewf \<Rightarrow> 'l \<Rightarrow> int \<times> nat" where
  "EwfSize lw l =
     (case lw_get_media_size lw l of (r, n) \<Rightarrow> (if r \<noteq> 1 then EWF_GET_SIZE_FAILED else EWF_OK, n))"

text \<open>The \<open>ssize_t\<close> result is compared as a \<open>size_t\<close>; on an error \<open>p_read\<close> is not
  stored.\<close>

definition ewf_result :: "int \<Rightarrow> bytes \<Rightarrow> nat \<Rightarrow> read_res" where
  "ewf_result rc buf n = \<lparr>rr_ret = rc, rr_buf = buf, rr_read = n, rr_errno = 0\<rparr>"

definition EwfRead :: "'l libewf \<Rightarrow> 'l \<Rightarrow> bytes \<Rightarrow> nat \<Rightarrow> nat \<Rightarrow> (read_res \<times> 'l) option" where
  "EwfRead lw l p_buf offset count =
     (case lw_seek_offset lw offset l of (r, l1) \<Rightarrow>
        if r = -1 then Some (ewf_result EWF_SEEK_FAILED p_buf 0, l1)
        else case lw_read_buffer lw count l1 of (r, b, l2) \<Rightarrow>
          if length b > length p_buf then None
          else if nat (r mod 2 ^ 64) \<noteq> count then Some (ewf_result EWF_READ_FAILED (overwrite 0 b p_buf) 0, l2)
          else Some (ewf_result EWF_OK (overwrite 0 b p_buf) count, l2))"

section \<open>The text of the info file and the messages\<close>

definition ewf_values :: "(string \<times> string) list" where
  "ewf_values =
     [(''header_value_case_number'', ''Case number: ''),
      (''header_value_description'', ''Description: ''),
      (''header_value_examiner_name'', ''Examiner: ''),
      (''header_value_evidence_number'', ''Evidence number: ''),
      (''header_value_notes'', ''Notes: ''),
      (''header_value_acquiry_date'', ''Acquiry date: ''),
      (''header_value_system_date'', ''System date: ''),
      (''header_value_acquiry_operating_system'', ''Acquiry os: ''),
      (''header_value_acquiry_software_version'', ''Acquiry sw version: ''),
      (''header_value_model'', ''Model: ''),
      (''header_value_serial_number'', ''Serial number: ''),
      (''hash_value_md5'', ''MD5 hash: ''),
      (''hash_value_sha1'', ''SHA1 hash: '')]"

definition ewf_append_value :: "string \<Rightarrow> int \<times> string \<Rightarrow> string" where
  "ewf_append_value desc v = (case v of (ret, buf) \<Rightarrow> if ret = 1 then desc @ buf @ ''\<newline>'' else [])"

definition ewf_media_text :: "ewf_media \<Rightarrow> string" where
  "ewf_media_text m =
     (case m of
        LIBEWF_MEDIA_TYPE_REMOVABLE \<Rightarrow> ''removable disk\<newline>''
      | LIBEWF_MEDIA_TYPE_FIXED \<Rightarrow> ''fixed disk\<newline>''
      | LIBEWF_MEDIA_TYPE_OPTICAL \<Rightarrow> ''optical\<newline>''
      | LIBEWF_MEDIA_TYPE_SINGLE_FILES \<Rightarrow> ''single files\<newline>''
      | LIBEWF_MEDIA_TYPE_MEMORY \<Rightarrow> ''memory\<newline>''
      | EwfOtherMedia \<Rightarrow> ''unknown\<newline>'')"

definition EwfGetInfofileContent :: "'l libewf \<Rightarrow> 'l \<Rightarrow> int \<times> string" where
  "EwfGetInfofileContent lw l =
     (EWF_OK,
      ''_Acquiry information_\<newline>'' @
      concat (map (\<lambda>(fun_name, desc). ewf_append_value desc (lw_value lw fun_name l)) ewf_values) @
      ''\<newline>_Media information_\<newline>'' @
      (case lw_get_media_type lw l of (ret, m) \<Rightarrow> if ret = 1 then ''Media type: '' @ ewf_media_text m else []) @
      ewf_append_value ''Bytes per sector: '' (map_prod id dec_string (lw_get_bytes_per_sector lw l)) @
      ewf_append_value ''Number of sectors: '' (map_prod id dec_string (lw_get_number_of_sectors lw l)))"

definition EwfGetErrorMessage :: "int \<Rightarrow> string" where
  "EwfGetErrorMessage err_num =
     (if err_num = EWF_MEMALLOC_FAILED then ''Unable to allocate memory''
      else if err_num = EWF_HANDLE_CREATION_FAILED then ''Unable to create EWF handle''
      else if err_num = EWF_HANDLE_DESTRUCTION_FAILED then ''Unable to destroy EWF handle''
      else if err_num = EWF_NO_INPUT_FILES then ''No input file(s) specified''
      else if err_num = EWF_INVALID_INPUT_FILES then ''The specified input file(s) are not valid EWF files''
      else if err_num = EWF_OPEN_FAILED then ''Unable to open EWF file(s)''
      else if err_num = EWF_OPEN_FAILED_SEEK then ''Unable to seek to end of data! Did you specify all EWF segments?''
      else if err_num = EWF_OPEN_FAILED_READ then ''Unable to read end of data! Did you specify all EWF segments?''
      else if err_num = EWF_HEADER_PARSING_FAILED then ''Unable to parse EWF header values''
      else if err_num = EWF_CLOSE_FAILED then ''Unable to close EWF file(s)''
      else if err_num = EWF_GET_SIZE_FAILED then ''Unable to get EWF data size''
      else if err_num = EWF_SEEK_FAILED then ''Unable to seek into EWF data''
      else if err_num = EWF_READ_FAILED then ''Unable to read EWF data''
      else ''Unknown error'')"

section \<open>The contract\<close>

text \<open>What libewf documents of an open handle: \<open>d\<close> is the data of the media; every call can
  fail. A media size that is returned is the length of \<open>d\<close>; a read after a successful seek
  reports an error or the number of bytes it has stored, which are at most as many as asked for
  and the bytes that stand there. Nothing says that all the data is there: libewf opens an image
  some of whose segment files are missing.\<close>

definition ewf_delivers :: "bytes \<Rightarrow> nat \<Rightarrow> nat \<Rightarrow> int \<Rightarrow> bytes \<Rightarrow> bool" where
  "ewf_delivers d off n r b \<longleftrightarrow> length b \<le> n \<and>
     (r = -1 \<or> r = int (length b) \<and> b = segment off (length b) d \<and> (b = [] \<or> off + length b \<le> length d))"

definition libewf_contract :: "'l libewf \<Rightarrow> ('l \<Rightarrow> bool) \<Rightarrow> bytes \<Rightarrow> bool" where
  "libewf_contract lw opened d \<longleftrightarrow>
     (\<forall>l. opened l \<longrightarrow> (\<forall>n. lw_get_media_size lw l = (1, n) \<longrightarrow> n = length d) \<and>
        (\<forall>off r l1. lw_seek_offset lw off l = (r, l1) \<longrightarrow> opened l1 \<and>
           (r \<noteq> -1 \<longrightarrow> (\<forall>n k b l2. lw_read_buffer lw n l1 = (k, b, l2) \<longrightarrow>
              opened l2 \<and> ewf_delivers d off n k b))))"

lemma libewf_contractD:
  assumes "libewf_contract lw opened d" "opened l"
  shows "lw_get_media_size lw l = (1, n) \<Longrightarrow> n = length d"
    and "lw_seek_offset lw off l = (r, l1) \<Longrightarrow> opened l1"
    and "lw_seek_offset lw off l = (r, l1) \<Longrightarrow> r \<noteq> -1 \<Longrightarrow> lw_read_buffer lw n l1 = (k, b, l2) \<Longrightarrow> opened l2"
    and "lw_seek_offset lw off l = (r, l1) \<Longrightarrow> r \<noteq> -1 \<Longrightarrow> lw_read_buffer lw n l1 = (k, b, l2) \<Longrightarrow>
      ewf_delivers d off n k b"
  using assms unfolding libewf_contract_def by blast+

text \<open>A complete image: no call on it fails, and a read inside it is never short.\<close>

definition libewf_ok :: "'l libewf \<Rightarrow> ('l \<Rightarrow> bool) \<Rightarrow> bytes \<Rightarrow> bool" where
  "libewf_ok lw opened d \<longleftrightarrow> length d < 2 ^ 63 \<and>
     (\<forall>l. opened l \<longrightarrow> lw_get_media_size lw l = (1, length d) \<and>
        (\<forall>off n. 0 < n \<and> off + n \<le> length d \<longrightarrow>
           (\<exists>r l1 l2. lw_seek_offset lw off l = (r, l1) \<and> r \<noteq> -1 \<and>
              lw_read_buffer lw n l1 = (int n, segment off n d, l2) \<and> opened l2)))"

lemma libewf_okE:
  assumes "libewf_ok lw opened d" "opened l" "0 < n" "off + n \<le> length d"
  obtains r l1 l2 where "lw_seek_offset lw off l = (r, l1)" "r \<noteq> -1"
    "lw_read_buffer lw n l1 = (int n, segment off n d, l2)" "opened l2" "n < 2 ^ 63"
  using assms unfolding libewf_ok_def by (metis add_leD2 le_less_trans)

record 'l ewf_session =
  es_lib :: "'l libewf"
  es_opened :: "'l \<Rightarrow> bool"
  es_data :: bytes
  es_handle :: 'l

definition ewf_inv :: "'l ewf_session \<Rightarrow> bool" where
  "ewf_inv h \<longleftrightarrow> libewf_ok (es_lib h) (es_opened h) (es_data h) \<and> es_opened h (es_handle h)"

definition ewf_read :: "'l ewf_session \<Rightarrow> bytes \<Rightarrow> nat \<Rightarrow> nat \<Rightarrow> (read_res \<times> 'l ewf_session) option" where
  "ewf_read h buf off n = map_option (\<lambda>(r, l). (r, h\<lparr>es_handle := l\<rparr>)) (EwfRead (es_lib h) (es_handle h) buf off n)"

interpretation ewf: session_reader ewf_inv es_data ewf_read
proof unfold_locales
  fix h :: "'l ewf_session" and n off :: nat and buf :: bytes
  assume inv: "ewf_inv h" and n: "0 < n" "n \<le> length buf" "off + n \<le> length (es_data h)"
  obtain r l1 l2 where l: "lw_seek_offset (es_lib h) off (es_handle h) = (r, l1)" "r \<noteq> -1"
    "lw_read_buffer (es_lib h) n l1 = (int n, segment off n (es_data h), l2)" "es_opened h l2" "n < 2 ^ 63"
    using inv n libewf_okE unfolding ewf_inv_def by metis
  have "nat (int n mod 2 ^ 64) = n" using l(5) by simp
  then have "EwfRead (es_lib h) (es_handle h) buf off n =
      Some (ewf_result EWF_OK (overwrite 0 (segment off n (es_data h)) buf) n, l2)"
    using l n by (simp add: EwfRead_def)
  moreover have "take n (overwrite 0 (segment off n (es_data h)) buf) = segment off n (es_data h)"
    using n(3) by (simp add: overwrite_def)
  ultimately show "\<exists>r h'. ewf_read h buf off n = Some (r, h') \<and> rr_ret r = 0 \<and> rr_read r = n \<and>
      take n (rr_buf r) = segment off n (es_data h) \<and> ewf_inv h' \<and> es_data h' = es_data h"
    using inv l(4) by (simp add: ewf_read_def ewf_result_def ewf_inv_def EWF_OK_def)
qed

section \<open>Opening and reading\<close>

text \<open>The byte at \<open>off\<close> can be read.\<close>

definition ewf_byte_there :: "'l libewf \<Rightarrow> 'l \<Rightarrow> nat \<Rightarrow> bool" where
  "ewf_byte_there lw l off \<longleftrightarrow> (case lw_seek_offset lw off l of (r, l1) \<Rightarrow>
     r \<noteq> -1 \<and> fst (lw_read_buffer lw 1 l1) = 1)"

lemma EwfOpen_last_byte_opened:
  assumes "libewf_contract lw opened d" "opened l1" "EwfOpen_last_byte lw l1 = (rc, l2)"
  shows "opened l2 \<or> rc \<noteq> EWF_OK"
    and "rc = EWF_OK \<longleftrightarrow> fst (lw_get_media_size lw l1) = 1 \<and> (d = [] \<or> ewf_byte_there lw l1 (length d - 1))"
proof -
  obtain r n where n: "lw_get_media_size lw l1 = (r, n)" by fastforce
  obtain s k where s: "lw_seek_offset lw (n - 1) l1 = (s, k)" by fastforce
  obtain q b m where q: "lw_read_buffer lw 1 k = (q, b, m)" by (cases "lw_read_buffer lw 1 k") auto
  have d: "n = length d" if "r = 1" using libewf_contractD(1) [OF assms(1,2)] n that by simp
  have m: "opened m" if "s \<noteq> -1" using libewf_contractD(3) [OF assms(1,2) s that q] .
  show "opened l2 \<or> rc \<noteq> EWF_OK"
    using assms(2,3) n s q m by (auto simp: EwfOpen_last_byte_def ewf_codes split: if_splits)
  show "rc = EWF_OK \<longleftrightarrow> fst (lw_get_media_size lw l1) = 1 \<and> (d = [] \<or> ewf_byte_there lw l1 (length d - 1))"
  proof (cases "r = 1")
    case True
    then show ?thesis using assms(3) n s q d [OF True]
      by (auto simp: EwfOpen_last_byte_def ewf_byte_there_def ewf_codes split: if_splits)
  qed (use assms(3) n in \<open>auto simp: EwfOpen_last_byte_def ewf_codes\<close>)
qed

lemma EwfRead_delivers:
  assumes "libewf_contract lw opened d" "opened l" "length buf < 2 ^ 63"
  obtains r l' where "EwfRead lw l buf off (length buf) = Some (r, l')" "opened l'"
    "rr_ret r = EWF_OK \<and> rr_read r = length buf \<and> rr_buf r = segment off (length buf) d \<and>
       (buf = [] \<or> off + length buf \<le> length d) \<or>
     rr_ret r \<in> {EWF_SEEK_FAILED, EWF_READ_FAILED} \<and> rr_read r = 0"
proof -
  obtain s k where s: "lw_seek_offset lw off l = (s, k)" by fastforce
  obtain q b m where q: "lw_read_buffer lw (length buf) k = (q, b, m)"
    by (cases "lw_read_buffer lw (length buf) k") auto
  note c = libewf_contractD [OF assms(1,2)]
  show thesis
  proof (cases "s = -1")
    case True
    then show thesis using that [of _ k] c(2) [OF s] s
      by (simp add: EwfRead_def ewf_result_def)
  next
    case False
    have b: "ewf_delivers d off (length buf) q b" and m: "opened m" using c(3,4) [OF s False q] by simp_all
    show thesis
    proof (cases "nat (q mod 2 ^ 64) = length buf")
      case True
      have "q \<noteq> -1" using True assms(3) by auto
      then have b': "length b \<le> length buf" "q = int (length b)" "b = segment off (length b) d"
        "b = [] \<or> off + length b \<le> length d" using b by (auto simp: ewf_delivers_def)
      then have "length b = length buf" using True assms(3) by simp
      moreover from this have "overwrite 0 b buf = b" by (simp add: overwrite_def)
      ultimately show thesis using that [of _ m] m True False s q b'
        by (auto simp: EwfRead_def ewf_result_def)
    next
      case False': False
      have "length b \<le> length buf" using b by (simp add: ewf_delivers_def)
      then show thesis using that [of _ m] m False False' s q
        by (simp add: EwfRead_def ewf_result_def)
    qed
  qed
qed

text \<open>What a read returns: an error and nothing, or exactly the bytes of the image.\<close>

definition ewf_answer :: "bytes \<Rightarrow> nat \<times> bytes \<Rightarrow> int \<times> bytes \<Rightarrow> bool" where
  "ewf_answer d req res \<longleftrightarrow> (case (req, res) of ((off, buf), (ret, data)) \<Rightarrow>
     ret = EWF_OK \<and> data = segment off (length buf) d \<and> (buf = [] \<or> off + length buf \<le> length d) \<or>
     ret \<in> {EWF_SEEK_FAILED, EWF_READ_FAILED} \<and> data = [])"

lemma ewf_session_answers:
  assumes "libewf_contract lw opened d" "\<forall>(off, buf) \<in> set reqs. length buf < 2 ^ 63" "opened l"
  shows "\<exists>out h. read_session ewf_read \<lparr>es_lib = lw, es_opened = opened, es_data = d, es_handle = l\<rparr> reqs =
      Some (out, h) \<and> list_all2 (ewf_answer d) reqs out"
  using assms(2,3)
proof (induction reqs arbitrary: l)
  case (Cons req reqs)
  obtain off buf where req: "req = (off, buf)" by fastforce
  have "length buf < 2 ^ 63" using Cons.prems(1) req by simp
  from EwfRead_delivers [OF assms(1) Cons.prems(2) this]
  obtain r l' where r: "EwfRead lw l buf off (length buf) = Some (r, l')" "opened l'"
    "rr_ret r = EWF_OK \<and> rr_read r = length buf \<and> rr_buf r = segment off (length buf) d \<and>
       (buf = [] \<or> off + length buf \<le> length d) \<or>
     rr_ret r \<in> {EWF_SEEK_FAILED, EWF_READ_FAILED} \<and> rr_read r = 0" by metis
  have "ewf_answer d req (rr_ret r, take (rr_read r) (rr_buf r))"
    using r(3) by (auto simp: ewf_answer_def req segment_def)
  moreover obtain out h where
    "read_session ewf_read \<lparr>es_lib = lw, es_opened = opened, es_data = d, es_handle = l'\<rparr> reqs = Some (out, h)"
    "list_all2 (ewf_answer d) reqs out" using Cons.IH [OF _ r(2)] Cons.prems(1) by auto
  moreover have "ewf_read \<lparr>es_lib = lw, es_opened = opened, es_data = d, es_handle = l\<rparr> buf off (length buf) =
      Some (r, \<lparr>es_lib = lw, es_opened = opened, es_data = d, es_handle = l'\<rparr>)"
    using r(1) by (simp add: ewf_read_def)
  ultimately show ?case by (simp add: req)
qed simp

section \<open>Properties\<close>

text \<open>C30: the library on top of a libewf each of whose calls can fail. \<open>EwfOpen\<close> succeeds exactly
  for a non-empty list of EWF files that libewf opens, with a media size and, unless that is 0, a
  last byte that can be read; where only the last byte is missing, as with missing segment files,
  it is an error. After a successful open the size is the one of the data, or an error, and each
  of any sequence of reads, inside the image or not, returns an error and no data or exactly the
  bytes asked for. Of a complete image every read inside it returns its bytes.\<close>

theorem ewf_opened_image_reads:
  assumes "libewf_contract lw opened d" "\<And>l1. lw_open lw names l = (1, l1) \<Longrightarrow> opened l1"
    and "\<forall>(off, buf) \<in> set reqs. length buf < 2 ^ 63"
  shows "\<exists>rc l2. EwfOpen lw l names = (rc, l2) \<and>
    (rc = EWF_OK \<longleftrightarrow> names \<noteq> [] \<and> (\<forall>name \<in> set names. lw_check_file_signature lw name = 1) \<and>
       (\<exists>l1. lw_open lw names l = (1, l1) \<and> fst (lw_get_media_size lw l1) = 1 \<and>
          (d = [] \<or> ewf_byte_there lw l1 (length d - 1)))) \<and>
    (rc = EWF_OK \<longrightarrow> (EwfSize lw l2 = (EWF_OK, length d) \<or> fst (EwfSize lw l2) = EWF_GET_SIZE_FAILED) \<and>
       (\<exists>out h. read_session ewf_read \<lparr>es_lib = lw, es_opened = opened, es_data = d, es_handle = l2\<rparr> reqs =
            Some (out, h) \<and> list_all2 (ewf_answer d) reqs out \<and>
          (libewf_ok lw opened d \<and> reads_inside reqs (length d) \<longrightarrow>
             out = map (\<lambda>(off, buf). (EWF_OK, segment off (length buf) d)) reqs)))"
proof -
  obtain rc l2 where o: "EwfOpen lw l names = (rc, l2)" by fastforce
  obtain q l1 where q: "lw_open lw names l = (q, l1)" by fastforce
  obtain rc' l2' where b: "EwfOpen_last_byte lw l1 = (rc', l2')" by fastforce
  have sigs: "list_ex (\<lambda>name. lw_check_file_signature lw name \<noteq> 1) names \<longleftrightarrow>
    \<not> (\<forall>name \<in> set names. lw_check_file_signature lw name = 1)" by (auto simp: list_ex_iff)
  have e: "opened l1" "rc' = EWF_OK \<longleftrightarrow> fst (lw_get_media_size lw l1) = 1 \<and> (d = [] \<or> ewf_byte_there lw l1 (length d - 1))"
    "opened l2' \<or> rc' \<noteq> EWF_OK" if "q = 1"
    using EwfOpen_last_byte_opened [OF assms(1) assms(2) b] assms(2) q that by simp_all
  have iff: "rc = EWF_OK \<longleftrightarrow> names \<noteq> [] \<and> (\<forall>name \<in> set names. lw_check_file_signature lw name = 1) \<and>
      q = 1 \<and> rc' = EWF_OK" "rc = EWF_OK \<Longrightarrow> l2 = l2'"
    using o q b unfolding EwfOpen_def sigs by (auto simp: ewf_codes split: if_splits)
  have opened: "opened l2" if "rc = EWF_OK" using iff e that by auto
  have rest: "(EwfSize lw l2 = (EWF_OK, length d) \<or> fst (EwfSize lw l2) = EWF_GET_SIZE_FAILED) \<and>
       (\<exists>out h. read_session ewf_read \<lparr>es_lib = lw, es_opened = opened, es_data = d, es_handle = l2\<rparr> reqs =
            Some (out, h) \<and> list_all2 (ewf_answer d) reqs out \<and>
          (libewf_ok lw opened d \<and> reads_inside reqs (length d) \<longrightarrow>
             out = map (\<lambda>(off, buf). (EWF_OK, segment off (length buf) d)) reqs))" if ok: "rc = EWF_OK"
  proof -
    let ?h = "\<lparr>es_lib = lw, es_opened = opened, es_data = d, es_handle = l2\<rparr>"
    obtain out h where s: "read_session ewf_read ?h reqs = Some (out, h)" "list_all2 (ewf_answer d) reqs out"
      using ewf_session_answers [OF assms(1,3) opened [OF ok]] by auto
    have "out = map (\<lambda>(off, buf). (EWF_OK, segment off (length buf) d)) reqs"
      if "libewf_ok lw opened d" "reads_inside reqs (length d)"
      using ewf.session_reads [of ?h reqs] that opened [OF ok] s(1) by (auto simp: ewf_inv_def EWF_OK_def)
    moreover have "EwfSize lw l2 = (EWF_OK, length d) \<or> fst (EwfSize lw l2) = EWF_GET_SIZE_FAILED"
      using libewf_contractD(1) [OF assms(1) opened [OF ok]]
      by (cases "lw_get_media_size lw l2") (auto simp: EwfSize_def)
    ultimately show ?thesis using s by blast
  qed
  show ?thesis using o q iff(1) e(2) rest by (intro exI [of _ rc] exI [of _ l2]) auto
qed

text \<open>A libewf for the examples: the handle is the position in the data, of which the first
  \<open>k\<close> bytes are in the files that are there.\<close>

definition small_libewf :: "bytes \<Rightarrow> nat \<Rightarrow> nat libewf" where
  "small_libewf d k = \<lparr>lw_initialize = (1, 0), lw_free = (\<lambda>_. 1), lw_check_file_signature = (\<lambda>_. 1),
     lw_open = (\<lambda>_ l. (1, l)), lw_close = (\<lambda>l. (0, l)), lw_get_media_size = (\<lambda>_. (1, length d)),
     lw_seek_offset = (\<lambda>off l. (int off, off)),
     lw_read_buffer = (\<lambda>n l. (int (length (segment l n (take k d))), segment l n (take k d), l + n)),
     lw_value = (\<lambda>_ _. (0, [])), lw_get_media_type = (\<lambda>_. (0, EwfOtherMedia)), lw_get_bytes_per_sector = (\<lambda>_. (1, 512)),
     lw_get_number_of_sectors = (\<lambda>_. (0, 0))\<rparr>"

lemma small_libewf_ok: "length d < 2 ^ 63 \<Longrightarrow> libewf_ok (small_libewf d (length d)) (\<lambda>_. True) d"
  by (auto simp: libewf_ok_def small_libewf_def)

lemma small_libewf_contract: "libewf_contract (small_libewf d k) (\<lambda>_. True) d"
proof -
  have "ewf_delivers d off n (int (length (segment off n (take k d)))) (segment off n (take k d))" for off n
  proof (cases "off < min k (length d)")
    case True
    then show ?thesis by (auto simp: ewf_delivers_def segment_def drop_take min_def)
  qed (auto simp: ewf_delivers_def segment_def)
  then show ?thesis by (auto simp: libewf_contract_def small_libewf_def)
qed

theorem ewf_opened_image_reads_witness:
  "(\<exists>l2 h. EwfOpen (small_libewf [1, 2, 3] 3) 0 [''a''] = (EWF_OK, l2) \<and>
     read_session ewf_read \<lparr>es_lib = small_libewf [1, 2, 3] 3, es_opened = \<lambda>_. True, es_data = [1, 2, 3], es_handle = l2\<rparr>
       [(1, [0, 0])] = Some ([(EWF_OK, [2, 3])], h)) \<and>
   fst (EwfOpen (small_libewf [1, 2, 3] 2) 0 [''a'']) \<noteq> EWF_OK"
proof -
  have s: "segment 1 2 [1, 2, 3] = [2, 3 :: u8]" "length [1, 2, 3 :: u8] = 3" by (simp_all add: segment_def)
  note w = ewf_opened_image_reads [where opened = "\<lambda>_. True" and d = "[1, 2, 3]" and names = "[''a'']" and l = 0]
  have i: "reads_inside [(1, [0, 0 :: u8])] 3" by (simp add: reads_inside_def)
  have k: "libewf_ok (small_libewf [1, 2, 3] 3) (\<lambda>_. True) [1, 2, 3]"
    using small_libewf_ok [of "[1, 2, 3]"] by (simp add: numeral_3_eq_3)
  have b: "ewf_byte_there (small_libewf [1, 2, 3] 3) 0 2" "\<not> ewf_byte_there (small_libewf [1, 2, 3] 2) 0 2"
    by (simp_all add: ewf_byte_there_def small_libewf_def segment_def)
  have o: "lw_open (small_libewf d k) ns l = (1, l)" "lw_check_file_signature (small_libewf d k) a = 1"
    "lw_get_media_size (small_libewf d k) l = (1, length d)" for d k ns l a
    by (simp_all add: small_libewf_def)
  obtain rc l2 out h where 1: "EwfOpen (small_libewf [1, 2, 3] 3) 0 [''a''] = (rc, l2)" "rc = EWF_OK"
    "read_session ewf_read \<lparr>es_lib = small_libewf [1, 2, 3] 3, es_opened = \<lambda>_. True, es_data = [1, 2, 3], es_handle = l2\<rparr>
       [(1, [0, 0])] = Some (out, h)" "out = [(EWF_OK, [2, 3])]"
    using w [OF small_libewf_contract, of 3 "[(1, [0, 0])]"] o b(1) k i s
    by (auto simp del: read_session.simps One_nat_def simp: numeral_2_eq_2 [symmetric])
  have 2: "fst (EwfOpen (small_libewf [1, 2, 3] 2) 0 [''a'']) \<noteq> EWF_OK"
    using w [OF small_libewf_contract, of 2 "[]"] o b(2) s
    by (auto simp del: read_session.simps One_nat_def simp: numeral_2_eq_2 [symmetric])
  show ?thesis using 1 2 by blast
qed

end
