(* ===== verification/InputAff.thy ===== *)
theory InputAff
  imports InputEwf
begin

text \<open>
  The input libraries \<open>libxmount_input_aff\<close> and \<open>libxmount_input_aff4\<close>: AFF images through
  afflib, AFF4 images through libaff4. Both libraries are parameters, records of the functions that
  the code calls. \<open>malloc\<close> succeeds; \<open>Init\<close>, \<open>DeInit\<close> and the options have no effect
  on the image, and there is no info text.
\<close>

section \<open>AFF\<close>

definition AFF_OK :: int where "AFF_OK = 0"
definition AFF_MEMALLOC_FAILED :: int where "AFF_MEMALLOC_FAILED = 1"
definition AFF_NO_INPUT_FILES :: int where "AFF_NO_INPUT_FILES = 2"
definition AFF_TOO_MANY_INPUT_FILES :: int where "AFF_TOO_MANY_INPUT_FILES = 3"
definition AFF_OPEN_FAILED :: int where "AFF_OPEN_FAILED = 4"
definition AFF_CLOSE_FAILED :: int where "AFF_CLOSE_FAILED = 5"
definition AFF_ENCRYPTION_UNSUPPORTED :: int where "AFF_ENCRYPTION_UNSUPPORTED = 6"
definition AFF_SEEK_FAILED :: int where "AFF_SEEK_FAILED = 7"
definition AFF_READ_FAILED :: int where "AFF_READ_FAILED = 8"

lemmas aff_codes = AFF_OK_def AFF_MEMALLOC_FAILED_def AFF_NO_INPUT_FILES_def AFF_TOO_MANY_INPUT_FILES_def
  AFF_OPEN_FAILED_def AFF_CLOSE_FAILED_def AFF_ENCRYPTION_UNSUPPORTED_def AFF_SEEK_FAILED_def AFF_READ_FAILED_def

text \<open>afflib: \<open>af_open\<close> gives a file or NULL; \<open>la_close_null\<close> is \<open>af_close (NULL)\<close>,
  undefined if \<open>None\<close>. \<open>af_seek\<close> gives the new position, or \<open>-1\<close>.\<close>

record 'l libaff =
  la_open :: "string \<Rightarrow> 'l option"
  la_cannot_decrypt :: "'l \<Rightarrow> bool"
  la_close :: "'l \<Rightarrow> int"
  la_close_null :: "int option"
  la_seek_set :: "nat \<Rightarrow> 'l \<Rightarrow> int \<times> 'l"
  la_seek_end :: "'l \<Rightarrow> int \<times> 'l"
  la_read :: "nat \<Rightarrow> 'l \<Rightarrow> int \<times> bytes \<times> 'l"

text \<open>The pointer \<open>h_aff\<close>: NULL, a file, or a file that has been closed.\<close>

datatype 'l h_aff = AffNull | AffFile 'l | AffClosed

definition AffCreateHandle :: "int \<times> 'l h_aff" where
  "AffCreateHandle = (AFF_OK, AffNull)"

definition AffDestroyHandle :: "'l h_aff \<Rightarrow> int" where
  "AffDestroyHandle h = AFF_OK"

definition AffOpen :: "'l libaff \<Rightarrow> 'l h_aff \<Rightarrow> string list \<Rightarrow> int \<times> 'l h_aff" where
  "AffOpen la h names =
     (case names of
        [] \<Rightarrow> (AFF_NO_INPUT_FILES, h)
      | name # names1 \<Rightarrow>
          if names1 \<noteq> [] then (AFF_TOO_MANY_INPUT_FILES, h)
          else
            (case la_open la name of
               None \<Rightarrow> (AFF_OPEN_FAILED, AffNull)
             | Some l \<Rightarrow>
                 if la_cannot_decrypt la l then (AFF_ENCRYPTION_UNSUPPORTED, AffClosed)
                 else (AFF_OK, AffFile l)))"

text \<open>\<open>None\<close>: the file is used after it has been closed.\<close>

definition AffClose :: "'l libaff \<Rightarrow> 'l h_aff \<Rightarrow> (int \<times> 'l h_aff) option" where
  "AffClose la h =
     (case h of
        AffNull \<Rightarrow> map_option (\<lambda>r. (if r \<noteq> 0 then AFF_CLOSE_FAILED else AFF_OK, AffNull)) (la_close_null la)
      | AffFile l \<Rightarrow> Some (if la_close la l \<noteq> 0 then AFF_CLOSE_FAILED else AFF_OK, AffClosed)
      | AffClosed \<Rightarrow> None)"

text \<open>The result of \<open>af_seek\<close> is the size, also when it is an error.\<close>

definition AffSize :: "'l libaff \<Rightarrow> 'l \<Rightarrow> int \<times> nat \<times> 'l" where
  "AffSize la l = (case la_seek_end la l of (r, l1) \<Rightarrow> (AFF_OK, nat (r mod 2 ^ 64), l1))"

definition AffRead :: "'l libaff \<Rightarrow> 'l \<Rightarrow> bytes \<Rightarrow> nat \<Rightarrow> nat \<Rightarrow> (read_res \<times> 'l) option" where
  "AffRead la l p_buf offset count =
     (case la_seek_set la offset l of (r, l1) \<Rightarrow>
        if r \<noteq> int offset then Some (ewf_result AFF_SEEK_FAILED p_buf 0, l1)
        else case la_read la count l1 of (r, b, l2) \<Rightarrow>
          if length b > length p_buf then None
          else if nat (r mod 2 ^ 64) \<noteq> count then Some (ewf_result AFF_READ_FAILED (overwrite 0 b p_buf) 0, l2)
          else Some (ewf_result AFF_OK (overwrite 0 b p_buf) count, l2))"

text \<open>No text.\<close>

definition AffGetInfofileContent :: "int \<times> string option" where
  "AffGetInfofileContent = (AFF_OK, None)"

definition AffGetErrorMessage :: "int \<Rightarrow> string" where
  "AffGetErrorMessage err_num =
     (if err_num = AFF_MEMALLOC_FAILED then ''Unable to allocate memory''
      else if err_num = AFF_NO_INPUT_FILES then ''No input file(s) specified''
      else if err_num = AFF_TOO_MANY_INPUT_FILES then ''Too many input files specified''
      else if err_num = AFF_OPEN_FAILED then ''Unable to open EWF file(s)''
      else if err_num = AFF_CLOSE_FAILED then ''Unable to close EWF file(s)''
      else if err_num = AFF_ENCRYPTION_UNSUPPORTED then ''Encrypted AFF files are currently not supported''
      else if err_num = AFF_SEEK_FAILED then ''Unable to seek into EWF data''
      else if err_num = AFF_READ_FAILED then ''Unable to read EWF data''
      else ''Unknown error'')"

section \<open>AFF4\<close>

definition AFF4_OK :: int where "AFF4_OK = 0"
definition AFF4_MEMALLOC_FAILED :: int where "AFF4_MEMALLOC_FAILED = 1"
definition AFF4_NO_INPUT_FILES :: int where "AFF4_NO_INPUT_FILES = 2"
definition AFF4_TOO_MANY_INPUT_FILES :: int where "AFF4_TOO_MANY_INPUT_FILES = 3"
definition AFF4_OPEN_FAILED :: int where "AFF4_OPEN_FAILED = 4"
definition AFF4_CLOSE_FAILED :: int where "AFF4_CLOSE_FAILED = 5"
definition AFF4_GETSIZE_FAILED :: int where "AFF4_GETSIZE_FAILED = 6"
definition AFF4_READ_FAILED :: int where "AFF4_READ_FAILED = 7"

lemmas aff4_codes = AFF4_OK_def AFF4_MEMALLOC_FAILED_def AFF4_NO_INPUT_FILES_def AFF4_TOO_MANY_INPUT_FILES_def
  AFF4_OPEN_FAILED_def AFF4_CLOSE_FAILED_def AFF4_GETSIZE_FAILED_def AFF4_READ_FAILED_def

text \<open>libaff4 names open images by numbers.\<close>

record libaff4 =
  l4_open :: "string \<Rightarrow> int"
  l4_close :: "int \<Rightarrow> int"
  l4_object_size :: "int \<Rightarrow> int"
  l4_read :: "int \<Rightarrow> nat \<Rightarrow> nat \<Rightarrow> int \<times> bytes"

definition Aff4CreateHandle :: "int \<times> int" where
  "Aff4CreateHandle = (AFF4_OK, -1)"

definition Aff4DestroyHandle :: "int \<Rightarrow> int" where
  "Aff4DestroyHandle h_aff4 = AFF4_OK"

definition Aff4Open :: "libaff4 \<Rightarrow> int \<Rightarrow> string list \<Rightarrow> int \<times> int" where
  "Aff4Open l4 h names =
     (case names of
        [] \<Rightarrow> (AFF4_NO_INPUT_FILES, h)
      | name # names1 \<Rightarrow>
          if names1 \<noteq> [] then (AFF4_TOO_MANY_INPUT_FILES, h)
          else (if l4_open l4 name = -1 then AFF4_OPEN_FAILED else AFF4_OK, l4_open l4 name))"

definition Aff4Close :: "libaff4 \<Rightarrow> int \<Rightarrow> int" where
  "Aff4Close l4 h = (if l4_close l4 h \<noteq> 0 then AFF4_CLOSE_FAILED else AFF4_OK)"

text \<open>The code, and the size if there is one.\<close>

definition Aff4Size :: "libaff4 \<Rightarrow> int \<Rightarrow> int \<times> nat" where
  "Aff4Size l4 h =
     (if l4_object_size l4 h = -1 then (AFF4_GETSIZE_FAILED, 0) else (AFF4_OK, nat (l4_object_size l4 h mod 2 ^ 64)))"

definition Aff4Read :: "libaff4 \<Rightarrow> int \<Rightarrow> bytes \<Rightarrow> nat \<Rightarrow> nat \<Rightarrow> read_res option" where
  "Aff4Read l4 h p_buf offset count =
     (case l4_read l4 h offset count of (r, b) \<Rightarrow>
        if length b > length p_buf then None
        else if nat (r mod 2 ^ 64) \<noteq> count then Some (ewf_result AFF4_READ_FAILED (overwrite 0 b p_buf) 0)
        else Some (ewf_result AFF4_OK (overwrite 0 b p_buf) count))"

definition Aff4GetInfofileContent :: "int \<times> string option" where
  "Aff4GetInfofileContent = (AFF4_OK, None)"

definition Aff4GetErrorMessage :: "int \<Rightarrow> string" where
  "Aff4GetErrorMessage err_num =
     (if err_num = AFF4_MEMALLOC_FAILED then ''Unable to allocate memory''
      else if err_num = AFF4_NO_INPUT_FILES then ''No input file specified''
      else if err_num = AFF4_TOO_MANY_INPUT_FILES then ''Too many input files specified''
      else if err_num = AFF4_OPEN_FAILED then ''Unable to open AFF4 image''
      else if err_num = AFF4_CLOSE_FAILED then ''Unable to close AFF4 image''
      else if err_num = AFF4_GETSIZE_FAILED then ''Unable to get size of AFF4 image''
      else if err_num = AFF4_READ_FAILED then ''Unable to read AFF4 data''
      else ''Unknown error'')"

section \<open>The contracts\<close>

text \<open>The files in \<open>opened\<close> give access to the data \<open>d\<close>.\<close>

definition libaff_ok :: "'l libaff \<Rightarrow> ('l \<Rightarrow> bool) \<Rightarrow> bytes \<Rightarrow> bool" where
  "libaff_ok la opened d \<longleftrightarrow> length d < 2 ^ 63 \<and>
     (\<forall>l. opened l \<longrightarrow>
        (\<exists>l1. la_seek_end la l = (int (length d), l1) \<and> opened l1) \<and>
        (\<forall>off n. 0 < n \<and> off + n \<le> length d \<longrightarrow>
           (\<exists>l1 l2. la_seek_set la off l = (int off, l1) \<and> la_read la n l1 = (int n, segment off n d, l2) \<and> opened l2)))"

definition libaff4_ok :: "libaff4 \<Rightarrow> int \<Rightarrow> bytes \<Rightarrow> bool" where
  "libaff4_ok l4 h d \<longleftrightarrow> length d < 2 ^ 63 \<and> l4_object_size l4 h = int (length d) \<and>
     (\<forall>off n. 0 < n \<and> off + n \<le> length d \<longrightarrow> l4_read l4 h off n = (int n, segment off n d))"

record 'l aff_session =
  fs_lib :: "'l libaff"
  fs_opened :: "'l \<Rightarrow> bool"
  fs_data :: bytes
  fs_handle :: 'l

definition aff_inv :: "'l aff_session \<Rightarrow> bool" where
  "aff_inv h \<longleftrightarrow> libaff_ok (fs_lib h) (fs_opened h) (fs_data h) \<and> fs_opened h (fs_handle h)"

definition aff_read :: "'l aff_session \<Rightarrow> bytes \<Rightarrow> nat \<Rightarrow> nat \<Rightarrow> (read_res \<times> 'l aff_session) option" where
  "aff_read h buf off n = map_option (\<lambda>(r, l). (r, h\<lparr>fs_handle := l\<rparr>)) (AffRead (fs_lib h) (fs_handle h) buf off n)"

lemma take_overwrite_start: "length b = n \<Longrightarrow> take n (overwrite 0 b buf) = b"
  by (simp add: overwrite_def)

interpretation aff: session_reader aff_inv fs_data aff_read
proof unfold_locales
  fix h :: "'l aff_session" and n off :: nat and buf :: bytes
  assume inv: "aff_inv h" and n: "0 < n" "n \<le> length buf" "off + n \<le> length (fs_data h)"
  obtain l1 l2 where l: "la_seek_set (fs_lib h) off (fs_handle h) = (int off, l1)"
    "la_read (fs_lib h) n l1 = (int n, segment off n (fs_data h), l2)" "fs_opened h l2" and d: "length (fs_data h) < 2 ^ 63"
    using inv n unfolding aff_inv_def libaff_ok_def by metis
  have "nat (int n mod 2 ^ 64) = n" using d n(3) by simp
  then have "AffRead (fs_lib h) (fs_handle h) buf off n =
      Some (ewf_result AFF_OK (overwrite 0 (segment off n (fs_data h)) buf) n, l2)"
    using l n by (simp add: AffRead_def)
  then show "\<exists>r h'. aff_read h buf off n = Some (r, h') \<and> rr_ret r = 0 \<and> rr_read r = n \<and>
      take n (rr_buf r) = segment off n (fs_data h) \<and> aff_inv h' \<and> fs_data h' = fs_data h"
    using inv l(3) n(3) by (simp add: aff_read_def ewf_result_def aff_inv_def AFF_OK_def take_overwrite_start)
qed

text \<open>For AFF4 the library, the number of the image and its data are the handle.\<close>

definition aff4_inv :: "libaff4 \<times> int \<times> bytes \<Rightarrow> bool" where
  "aff4_inv h = (case h of (l4, k, d) \<Rightarrow> libaff4_ok l4 k d)"

definition aff4_read :: "libaff4 \<times> int \<times> bytes \<Rightarrow> bytes \<Rightarrow> nat \<Rightarrow> nat \<Rightarrow> (read_res \<times> libaff4 \<times> int \<times> bytes) option" where
  "aff4_read h buf off n = (case h of (l4, k, d) \<Rightarrow> map_option (\<lambda>r. (r, h)) (Aff4Read l4 k buf off n))"

interpretation aff4: session_reader aff4_inv "\<lambda>(l4, k, d). d" aff4_read
proof unfold_locales
  fix h :: "libaff4 \<times> int \<times> bytes" and n off :: nat and buf :: bytes
  assume inv: "aff4_inv h" and n: "0 < n" "n \<le> length buf" "off + n \<le> length (case h of (l4, k, d) \<Rightarrow> d)"
  obtain l4 k d where h: "h = (l4, k, d)" by (cases h)
  have d: "length d < 2 ^ 63" "l4_read l4 k off n = (int n, segment off n d)"
    using inv n by (simp_all add: h aff4_inv_def libaff4_ok_def)
  have "nat (int n mod 2 ^ 64) = n" using d(1) n(3) by (simp add: h)
  then have "Aff4Read l4 k buf off n = Some (ewf_result AFF4_OK (overwrite 0 (segment off n d) buf) n)"
    using d n by (simp add: Aff4Read_def)
  then show "\<exists>r h'. aff4_read h buf off n = Some (r, h') \<and> rr_ret r = 0 \<and> rr_read r = n \<and>
      take n (rr_buf r) = segment off n (case h of (l4, k, d) \<Rightarrow> d) \<and> aff4_inv h' \<and>
      (case h' of (l4, k, d) \<Rightarrow> d) = (case h of (l4, k, d) \<Rightarrow> d)"
    using inv n(3) by (simp add: h aff4_read_def ewf_result_def AFF4_OK_def take_overwrite_start)
qed

text \<open>An opened image: its size, and every sequence of reads.\<close>

theorem aff_opened_image_reads:
  assumes "libaff_ok la opened d" "la_open la name = Some l" "\<not> la_cannot_decrypt la l" "opened l" "reads_inside reqs (length d)"
  shows "\<exists>l1 h. AffOpen la AffNull [name] = (AFF_OK, AffFile l) \<and> AffSize la l = (AFF_OK, length d, l1) \<and>
    read_session aff_read \<lparr>fs_lib = la, fs_opened = opened, fs_data = d, fs_handle = l1\<rparr> reqs =
      Some (map (\<lambda>(off, buf). (0, segment off (length buf) d)) reqs, h)"
proof -
  obtain l1 where l1: "la_seek_end la l = (int (length d), l1)" "opened l1" and d: "length d < 2 ^ 63"
    using assms(1,4) unfolding libaff_ok_def by blast
  let ?h = "\<lparr>fs_lib = la, fs_opened = opened, fs_data = d, fs_handle = l1\<rparr>"
  have "aff_inv ?h" using assms(1) l1(2) by (simp add: aff_inv_def)
  from aff.session_reads [OF this, of reqs] assms(5)
  obtain h where "read_session aff_read ?h reqs = Some (map (\<lambda>(off, buf). (0, segment off (length buf) d)) reqs, h)" by auto
  moreover have "AffSize la l = (AFF_OK, length d, l1)" using l1 d by (simp add: AffSize_def)
  moreover have "AffOpen la AffNull [name] = (AFF_OK, AffFile l)" using assms(2,3) by (simp add: AffOpen_def)
  ultimately show ?thesis by blast
qed

theorem aff4_opened_image_reads:
  assumes "l4_open l4 name = h" "h \<noteq> -1" "libaff4_ok l4 h d" "reads_inside reqs (length d)"
  shows "\<exists>h'. Aff4Open l4 (snd Aff4CreateHandle) [name] = (AFF4_OK, h) \<and> Aff4Size l4 h = (AFF4_OK, length d) \<and>
    read_session aff4_read (l4, h, d) reqs = Some (map (\<lambda>(off, buf). (0, segment off (length buf) d)) reqs, h')"
proof -
  have "aff4_inv (l4, h, d)" using assms(3) by (simp add: aff4_inv_def)
  from aff4.session_reads [OF this, of reqs] assms(4)
  obtain h' where "read_session aff4_read (l4, h, d) reqs = Some (map (\<lambda>(off, buf). (0, segment off (length buf) d)) reqs, h')"
    by auto
  moreover have "Aff4Open l4 (snd Aff4CreateHandle) [name] = (AFF4_OK, h)" using assms(1,2) by (simp add: Aff4Open_def)
  moreover have "Aff4Size l4 h = (AFF4_OK, length d)" using assms(3) by (simp add: Aff4Size_def libaff4_ok_def)
  ultimately show ?thesis by blast
qed

text \<open>A size that afflib cannot tell is reported as 16 EiB less one byte.\<close>

theorem aff_size_of_error:
  "la_seek_end la l = (-1, l1) \<Longrightarrow> AffSize la l = (AFF_OK, 2 ^ 64 - 1, l1)"
  by (simp add: AffSize_def)

end
