(* ===== verification/XmountAff.thy ===== *)
theory XmountAff
  imports XmountMount InputAff
begin

text \<open>
  The AFF input library in xmount: its function table, and what becomes of an encrypted image.
\<close>

section \<open>The function table\<close>

text \<open>\<open>main\<close> reads through the handle that \<open>Open\<close> has left; each read seeks first.\<close>

definition aff_lib :: "'l libaff \<Rightarrow> 'l h_aff input_lib" where
  "aff_lib la =
     \<lparr>il_name = ''libxmount_input_aff.so'', il_types = type_names [''aff'', ''aff3''],
      il_is_initialized = False, il_Init = AFF_OK,
      il_CreateHandle = (\<lambda>_ _. AffCreateHandle),
      il_DestroyHandle = (\<lambda>h. Some (AffDestroyHandle h)),
      il_Open = (\<lambda>h names. Some (AffOpen la h names)),
      il_Close = AffClose la,
      il_Size = (\<lambda>h. case h of AffFile l \<Rightarrow> (case AffSize la l of (ret, n, _) \<Rightarrow> (ret, n)) | _ \<Rightarrow> (-1, 0)),
      il_Read = (\<lambda>h off n. case h of AffFile l \<Rightarrow> map_option fst (AffRead la l (replicate n 0) off n) | _ \<Rightarrow> None),
      il_OptionsParse = (\<lambda>h opts. (AFF_OK, h, opts)),
      il_GetInfofileContent = (\<lambda>_ _. AffGetInfofileContent)\<rparr>"

lemma FindInputLib_aff:
  "ii_type img \<in> {''aff'', ''aff3''} \<Longrightarrow> FindInputLib (aff_lib la # ilibs) img = Some (Some 0)"
  using lib_supports_names [of "[''aff'', ''aff3'']" "ii_type img"]
  by (auto simp: FindInputLib_def aff_lib_def)

section \<open>Properties\<close>

text \<open>If the image is an encrypted AFF file, the behaviour of \<open>main\<close> is undefined:
  \<open>AffOpen\<close> closes the file and keeps the pointer, and \<open>FreeResources\<close> closes it once more.\<close>

theorem xmount_encrypted_aff_undefined:
  fixes la :: "'l libaff" and mlibs :: "'m morph_lib list"
  assumes "ty \<in> {''aff'', ''aff3''}" "mlibs \<noteq> []" "take 2 name \<noteq> ''--''" "take 1 mnt \<noteq> ''-''"
    and "me_stat_dir env mnt = Some True" "la_open la name = Some l" "la_cannot_decrypt la l"
  shows "main env (aff_lib la # ilibs) mlibs [prog, ''--in'', ty, name, ''--out'', out_name t, mnt] = None"
proof -
  have find: "FindInputLib (aff_lib la # ilibs) (new_input_image ty [name]) = Some (Some 0)"
    using assms(1) by (intro FindInputLib_aff) (simp add: new_input_image_def)
  have "main env (aff_lib la # ilibs) mlibs (prog # [''--in'', ty] @ [name] @ [''--out'', out_name t, mnt]) = None"
    by (rule main_close_undefined [where ?h0.0 = AffNull and ?h1.0 = AffClosed and ret = AFF_ENCRYPTION_UNSUPPORTED,
          OF find assms(2) _ _ assms(4,5)])
      (use assms in \<open>simp_all add: aff_lib_def aff_codes AffCreateHandle_def AffOpen_def AffClose_def\<close>)
  then show ?thesis by simp
qed

text \<open>An afflib for the example: every file is encrypted.\<close>

definition locked_libaff :: "unit libaff" where
  "locked_libaff = \<lparr>la_open = (\<lambda>_. Some ()), la_cannot_decrypt = (\<lambda>_. True), la_close = (\<lambda>_. 0), la_close_null = None,
     la_seek_set = (\<lambda>off l. (int off, l)), la_seek_end = (\<lambda>l. (0, l)), la_read = (\<lambda>n l. (0, [], l))\<rparr>"

lemma xmount_encrypted_aff_undefined_witness:
  "main example_env [aff_lib locked_libaff] [combine_lib]
     [''xmount'', ''--in'', ''aff'', ''a'', ''--out'', ''raw'', ''/mnt''] = None"
  using xmount_encrypted_aff_undefined [of "''aff''" "[combine_lib]" "''a''" "''/mnt''" example_env locked_libaff "()" "[]"
      "''xmount''" VirtImageType_DD]
  by (simp add: example_system locked_libaff_def)

end
