(* ===== verification/InputAewfInfo.thy ===== *)
theory InputAewfInfo
  imports InputAaff LibXmount
begin

text \<open>
  The text that the EWF library makes of an image: \<open>CreateInfoData\<close> without the handle. The
  volume section gives its first lines, the header of the image a line for each of its fields, and
  the segments, tables and the stored MD5 hash the rest. Parameters are \<open>wcstombs\<close> (\<open>None\<close>
  where it reads behind the text), the text of a number with \<open>%0.2f\<close>, and of a time in the zone
  of the system (\<open>None\<close> where there is no such time). \<open>None\<close> as a result stands for the use
  of memory behind a text or without contents.
\<close>

definition text_of :: "bytes \<Rightarrow> string" where
  "text_of b = map (\<lambda>c. char_of (unat c)) b"

text \<open>\<open>%02X\<close> and \<open>%02x\<close> of a byte.\<close>

definition hex2 :: "string \<Rightarrow> u8 \<Rightarrow> string" where
  "hex2 digits b = [digits ! (unat b div 16), digits ! (unat b mod 16)]"

section \<open>The volume, the segments and the hash\<close>

definition info_volume :: "(nat \<Rightarrow> string) \<Rightarrow> nat \<Rightarrow> bytes \<Rightarrow> string" where
  "info_volume gib ImageSize v =
     (let num = (\<lambda>off len. dec_string (le_at off len v)); hex = hex2 ''0123456789ABCDEF'' in
      ''Image size               '' @ dec_string ImageSize @ '' ('' @ gib ImageSize @ '' GiB)\<newline>'' @
      ''Bytes per sector         '' @ num 12 4 @ ''\<newline>'' @
      ''Sector count             '' @ num 16 8 @ ''\<newline>'' @
      ''Sectors per chunk        '' @ num 8 4 @ ''\<newline>'' @
      ''Chunk count              '' @ num 4 4 @ ''\<newline>'' @
      ''Error block size         '' @ num 56 4 @ ''\<newline>'' @
      ''Compression level        '' @ num 52 1 @ ''\<newline>'' @
      ''Media type               '' @ hex (v ! 0) @ ''\<newline>'' @
      ''Cylinders/Heads/Sectors  '' @ num 24 4 @ ''/'' @ num 28 4 @ ''/'' @ num 32 4 @ ''\<newline>'' @
      ''Media flags              '' @ hex (v ! 36) @ ''\<newline>'' @
      ''Palm volume start sector '' @ num 40 4 @ ''\<newline>'' @
      ''Smart logs start sector  '' @ num 48 4 @ ''\<newline>'')"

text \<open>Byte 4 of the GUID is printed twice, byte 5 never.\<close>

definition info_guid :: "bytes \<Rightarrow> string" where
  "info_guid v =
     ''AcquirySystemGUID       '' @
     concat (map (\<lambda>i. '' '' @ hex2 ''0123456789ABCDEF'' (v ! (64 + i))) [0, 1, 2, 3, 4, 4, 6, 7, 8, 9, 10, 11, 12, 13, 14, 15]) @
     ''\<newline>''"

definition info_segments :: "string list \<Rightarrow> string" where
  "info_segments names =
     (if length names = 1 then dec_string (length names) @ '' segment file: '' @ hd names @ ''\<newline>''
      else dec_string (length names) @ '' segment files\<newline>   First: '' @ hd names @ ''\<newline>   Last:  '' @ last names @ ''\<newline>'')"

definition info_tables :: "nat \<Rightarrow> string" where
  "info_tables n = dec_string n @ '' tables\<newline>''"

definition info_md5 :: "bytes option \<Rightarrow> string" where
  "info_md5 pMD5 =
     (case pMD5 of
        None \<Rightarrow> ''MD5 stored in image: none''
      | Some h \<Rightarrow> ''MD5 stored in image: '' @ concat (map (hex2 ''0123456789abcdef'') (take 16 h)) @ ''\<newline>'')"

section \<open>The header\<close>

text \<open>The uncompressed header as a C string. With 16-bit characters it is converted in place.\<close>

definition c_text :: "bytes \<Rightarrow> bytes option" where
  "c_text mem = (if 0 \<in> set mem then Some (takeWhile (\<lambda>b. b \<noteq> 0) mem) else None)"

definition header_text :: "(nat list \<Rightarrow> nat \<Rightarrow> bytes option) \<Rightarrow> bool \<Rightarrow> bytes \<Rightarrow> bytes option" where
  "header_text wcstombs wide b =
     (if \<not> wide then c_text b
      else
        let n = length b div 2; pTemp = map (\<lambda>i. le_at (2 * i) 2 b) [0..<n] in
        if n = 0 then None
        else
          (case wcstombs (if hd pTemp = 0xFEFF then tl pTemp else pTemp) n of
             None \<Rightarrow> None
           | Some mb \<Rightarrow> c_text (overwrite 0 mb b)))"

text \<open>What follows the next end of line.\<close>

definition next_line :: "bytes \<Rightarrow> bytes option" where
  "next_line s = (case dropWhile (\<lambda>b. b \<noteq> 10) s of [] \<Rightarrow> None | _ # s' \<Rightarrow> Some s')"

definition first_line :: "bytes \<Rightarrow> bytes" where
  "first_line s = takeWhile (\<lambda>b. b \<noteq> 10) s"

lemma next_line_shorter: "next_line s = Some s' \<Longrightarrow> length s' < length s"
  using length_dropWhile_le [of "\<lambda>b. b \<noteq> 10" s] by (auto simp: next_line_def split: list.splits)

text \<open>Lower case in the C locale.\<close>

definition byte_lower :: "u8 \<Rightarrow> u8" where
  "byte_lower b = (if 65 \<le> b \<and> b \<le> 90 then b + 32 else b)"

text \<open>The line that begins with \<open>main\<close>.\<close>

function header_main :: "bytes \<Rightarrow> bytes option" where
  "header_main s =
     (if map byte_lower (take 4 s) = string_bytes ''main'' then Some s
      else case next_line s of None \<Rightarrow> None | Some s' \<Rightarrow> header_main s')"
  by pat_completeness auto
termination by (relation "measure length") (auto dest: next_line_shorter)

declare header_main.simps [simp del]

text \<open>The line with the names of the fields and the line with their values.\<close>

definition header_lines :: "bytes \<Rightarrow> (bytes \<times> bytes) option" where
  "header_lines s =
     (case header_main s of
        None \<Rightarrow> None
      | Some m \<Rightarrow>
          (case next_line m of
             None \<Rightarrow> None
           | Some pDesc \<Rightarrow>
               (case next_line pDesc of
                  None \<Rightarrow> None
                | Some pData \<Rightarrow> Some (first_line pDesc, first_line pData))))"

text \<open>The names that are printed for the fields; some are left out, others unknown.\<close>

definition info_fields :: "(string \<times> string option) list" where
  "info_fields =
     [(''a'', Some ''Description''), (''c'', Some ''Case''), (''n'', Some ''Evidence''), (''e'', Some ''Examiner''),
      (''t'', Some ''Notes''), (''md'', Some ''Model''), (''sn'', Some ''Serial number''),
      (''av'', Some ''Imager version''), (''ov'', Some ''OS version''), (''m'', Some ''Acquired time''),
      (''u'', Some ''System time''), (''p'', None), (''dc'', None)]"

definition info_field :: "bytes \<Rightarrow> string option" where
  "info_field desc =
     (case map_of (map (map_prod string_bytes id) info_fields) (map byte_lower desc) of
        Some f \<Rightarrow> f
      | None \<Rightarrow> Some ''--'')"

definition info_value :: "(bytes \<Rightarrow> string option) \<Rightarrow> string \<Rightarrow> bytes \<Rightarrow> string option" where
  "info_value strftime pField v =
     (if pField \<in> {''Acquired time'', ''System time''}
      then map_option (\<lambda>s. take 63 (s @ '' (epoch '' @ text_of v @ '')'')) (strftime v)
      else Some (text_of v))"

text \<open>\<open>%-17s %s\<close>\<close>

definition info_line :: "string \<Rightarrow> string \<Rightarrow> string" where
  "info_line pField pValue = pField @ replicate (17 - length pField) CHR '' '' @ '' '' @ pValue @ ''\<newline>''"

definition info_entry :: "(bytes \<Rightarrow> string option) \<Rightarrow> bytes \<Rightarrow> bytes \<Rightarrow> string option" where
  "info_entry strftime d v =
     (case info_field d of
        None \<Rightarrow> Some []
      | Some pField \<Rightarrow> map_option (info_line pField) (info_value strftime pField v))"

text \<open>The loop over the fields; \<open>out\<close> is the text so far, of which \<open>Info3Len\<close> characters have
  room.\<close>

function info_scan :: "(bytes \<Rightarrow> string option) \<Rightarrow> nat \<Rightarrow> bytes \<Rightarrow> bytes \<Rightarrow> string \<Rightarrow> string option" where
  "info_scan strftime Info3Len pCurDesc pCurData out =
     (if pCurDesc = [] \<or> pCurData = [] \<or> length out \<ge> Info3Len then Some out
      else
        let d = takeWhile (\<lambda>b. b \<noteq> 9) pCurDesc; v = takeWhile (\<lambda>b. b \<noteq> 9) pCurData in
        case info_entry strftime d v of
          None \<Rightarrow> None
        | Some l \<Rightarrow>
            if d = pCurDesc \<or> v = pCurData then Some (out @ l)
            else info_scan strftime Info3Len (drop (length d + 1) pCurDesc) (drop (length v + 1) pCurData) (out @ l))"
  by pat_completeness auto
termination by (relation "measure (\<lambda>(_, _, pCurDesc, _, _). length pCurDesc)") auto

declare info_scan.simps [simp del]

text \<open>The text of the header, if there is one. Where no field is printed the text has no contents.\<close>

definition info_header ::
  "(nat list \<Rightarrow> nat \<Rightarrow> bytes option) \<Rightarrow> (bytes \<Rightarrow> string option) \<Rightarrow> bool \<Rightarrow> bytes \<Rightarrow> string option option" where
  "info_header wcstombs strftime wide b =
     (case header_text wcstombs wide b of
        None \<Rightarrow> None
      | Some pText \<Rightarrow>
          (case header_lines pText of
             None \<Rightarrow> Some None
           | Some (pCurDesc, pCurData) \<Rightarrow>
               let Info3Len = length pCurData + 4096 in
               (case info_scan strftime Info3Len pCurDesc pCurData [] of
                  None \<Rightarrow> None
                | Some out \<Rightarrow> if out = [] then None else Some (Some (take (Info3Len - 1) out)))))"

text \<open>All parts.\<close>

definition info_text ::
  "(nat \<Rightarrow> string) \<Rightarrow> nat \<Rightarrow> bytes \<Rightarrow> string option \<Rightarrow> string list \<Rightarrow> nat \<Rightarrow> bytes option \<Rightarrow> string" where
  "info_text gib ImageSize v pInfo3 names tables pMD5 =
     info_volume gib ImageSize v @ info_guid v @
     (case pInfo3 of None \<Rightarrow> [] | Some t \<Rightarrow> ''\<newline>'' @ t @ ''\<newline>'') @
     info_segments names @ info_tables tables @ ''\<newline>'' @ info_md5 pMD5"

section \<open>The lines of a header\<close>

text \<open>Texts separated by tabs, and a header as imaging programs write it: names and values of its
  fields. The specification of the line of a field.\<close>

fun tabbed :: "bytes list \<Rightarrow> bytes" where
  "tabbed [] = []"
| "tabbed [t] = t"
| "tabbed (t # ts) = t @ 9 # tabbed ts"

definition header_of :: "(string \<times> bytes) list \<Rightarrow> bytes" where
  "header_of flds =
     string_bytes ''1'' @ [10] @ string_bytes ''main'' @ [10] @ tabbed (map (string_bytes \<circ> fst) flds) @ [10] @
     tabbed (map snd flds) @ [10]"

definition shown_field :: "(bytes \<Rightarrow> string option) \<Rightarrow> string \<times> bytes \<Rightarrow> string" where
  "shown_field strftime kv =
     (case kv of (k, v) \<Rightarrow>
        (case the (map_of info_fields k) of
           None \<Rightarrow> []
         | Some f \<Rightarrow> info_line f (if k \<in> {''m'', ''u''} then take 63 (the (strftime v) @ '' (epoch '' @ text_of v @ '')'') else text_of v)))"

definition field_ok :: "(bytes \<Rightarrow> string option) \<Rightarrow> string \<times> bytes \<Rightarrow> bool" where
  "field_ok strftime kv \<longleftrightarrow>
     (case kv of (k, v) \<Rightarrow> k \<in> fst ` set info_fields \<and> v \<noteq> [] \<and> set v \<inter> {0, 9, 10} = {} \<and>
        (k \<in> {''m'', ''u''} \<longrightarrow> strftime v \<noteq> None))"

lemma known_field:
  assumes "k \<in> fst ` set info_fields"
  shows "info_field (string_bytes k) = the (map_of info_fields k)" "string_bytes k \<noteq> []"
    "set (string_bytes k) \<inter> {0, 9, 10} = {}"
    "\<forall>f. the (map_of info_fields k) = Some f \<longrightarrow>
       length f \<le> 17 \<and> (f \<in> {''Acquired time'', ''System time''} \<longleftrightarrow> k \<in> {''m'', ''u''})"
  using assms by (auto simp: info_field_def info_fields_def string_bytes_def byte_lower_def)

lemma info_line_not_Nil: "info_line f v \<noteq> []"
  by (simp add: info_line_def)

lemma info_entry_shown:
  assumes "field_ok strftime (k, v)"
  shows "info_entry strftime (string_bytes k) v = Some (shown_field strftime (k, v))"
    "length (shown_field strftime (k, v)) \<le> 82 + length v"
proof -
  have k: "k \<in> fst ` set info_fields" "k \<in> {''m'', ''u''} \<longrightarrow> strftime v \<noteq> None" using assms by (simp_all add: field_ok_def)
  note f = known_field [OF k(1)]
  show "info_entry strftime (string_bytes k) v = Some (shown_field strftime (k, v))"
  proof (cases "the (map_of info_fields k)")
    case None
    then show ?thesis by (simp add: info_entry_def f(1) shown_field_def)
  next
    case (Some g)
    then have "(g = ''Acquired time'' \<or> g = ''System time'') = (k = ''m'' \<or> k = ''u'')" using f(4) by simp
    then show ?thesis using k(2) Some
      by (auto simp: info_entry_def f(1) shown_field_def info_value_def)
  qed
  show "length (shown_field strftime (k, v)) \<le> 82 + length v"
    using f(4) by (auto simp: shown_field_def info_line_def text_of_def split: option.splits)
qed

lemma takeWhile_sep: "c \<notin> set xs \<Longrightarrow> takeWhile (\<lambda>b. b \<noteq> c) (xs @ c # ys) = xs"
  by (induction xs) auto

lemma takeWhile_no_sep: "c \<notin> set xs \<Longrightarrow> takeWhile (\<lambda>b. b \<noteq> c) xs = xs"
  by (induction xs) auto

lemma dropWhile_sep: "c \<notin> set xs \<Longrightarrow> dropWhile (\<lambda>b. b \<noteq> c) (xs @ c # ys) = c # ys"
  by (induction xs) auto

lemma info_scan_fields:
  assumes "flds \<noteq> []" "\<forall>kv \<in> set flds. field_ok strftime kv"
    and "length out + sum_list (map (\<lambda>(k, v). 82 + length v) flds) < n"
  shows "info_scan strftime n (tabbed (map (string_bytes \<circ> fst) flds)) (tabbed (map snd flds)) out =
    Some (out @ concat (map (shown_field strftime) flds))"
  using assms
proof (induction flds arbitrary: out)
  case (Cons kv flds)
  obtain k v where kv: "kv = (k, v)" by force
  have ok: "field_ok strftime (k, v)" using Cons.prems(2) kv by simp
  then have v: "v \<noteq> []" "9 \<notin> set v" "9 \<notin> set (string_bytes k)" "string_bytes k \<noteq> []"
    using known_field [of k] by (auto simp: field_ok_def)
  note e = info_entry_shown [OF ok]
  have o: "length out < n" using Cons.prems(3) by simp
  show ?case
  proof (cases flds)
    case Nil
    then show ?thesis using v o
      by (subst info_scan.simps) (simp add: kv takeWhile_no_sep e(1))
  next
    case (Cons kv' rest)
    have len: "length (out @ shown_field strftime (k, v)) + sum_list (map (\<lambda>(k, v). 82 + length v) flds) < n"
      using Cons.prems(3) e(2) by (simp add: kv)
    have ih: "info_scan strftime n (tabbed (map (string_bytes \<circ> fst) flds)) (tabbed (map snd flds))
        (out @ shown_field strftime (k, v)) = Some ((out @ shown_field strftime (k, v)) @ concat (map (shown_field strftime) flds))"
      by (rule Cons.IH [OF _ _ len]) (use Cons Cons.prems(2) in auto)
    have t: "tabbed (map (string_bytes \<circ> fst) (kv # flds)) = string_bytes k @ 9 # tabbed (map (string_bytes \<circ> fst) flds)"
      "tabbed (map snd (kv # flds)) = v @ 9 # tabbed (map snd flds)"
      by (simp_all add: kv Cons)
    show ?thesis
      unfolding t using v o ih by (subst info_scan.simps) (simp add: kv takeWhile_sep e(1))
  qed
qed simp

lemma tabbed_no: "\<forall>t \<in> set ts. c \<notin> set t \<Longrightarrow> c \<noteq> 9 \<Longrightarrow> c \<notin> set (tabbed ts)"
  by (induction ts rule: tabbed.induct) auto

lemma length_tabbed: "sum_list (map length ts) \<le> length (tabbed ts)"
  by (induction ts rule: tabbed.induct) auto

lemma header_lines_of:
  assumes "10 \<notin> set d" "10 \<notin> set v"
  shows "header_lines (string_bytes ''1'' @ [10] @ string_bytes ''main'' @ [10] @ d @ [10] @ v @ 10 # rest) = Some (d, v)"
proof -
  let ?m = "string_bytes ''main'' @ [10] @ d @ [10] @ v @ 10 # rest"
  have "header_main ?m = Some ?m"
    by (subst header_main.simps) (simp add: string_bytes_def byte_lower_def)
  then have m: "header_main (string_bytes ''1'' @ [10] @ ?m) = Some ?m"
    by (subst header_main.simps) (simp add: string_bytes_def byte_lower_def next_line_def)
  have "next_line ?m = Some (d @ 10 # v @ 10 # rest)" by (simp add: next_line_def string_bytes_def)
  moreover have "next_line (d @ 10 # v @ 10 # rest) = Some (v @ 10 # rest)"
    using assms(1) by (simp add: next_line_def dropWhile_sep)
  ultimately show ?thesis
    using m assms by (simp add: header_lines_def first_line_def takeWhile_sep)
qed

section \<open>Properties\<close>

text \<open>C38: The info text shows the header of an image: of a header with at most 40 known fields that
  have values, it has one line for each field that is printed, with its name and its value, in
  their order, whatever follows the header in memory.\<close>

theorem aewf_info_shows_fields:
  assumes "flds \<noteq> []" "length flds \<le> 40" "\<forall>kv \<in> set flds. field_ok strftime kv"
    and "concat (map (shown_field strftime) flds) \<noteq> []" "0 \<notin> set rest"
  shows "info_header wcstombs strftime False (header_of flds @ rest @ 0 # junk) =
    Some (Some (concat (map (shown_field strftime) flds)))"
proof -
  let ?d = "tabbed (map (string_bytes \<circ> fst) flds)" and ?v = "tabbed (map snd flds)"
  have parts: "set (string_bytes (fst kv)) \<inter> {0, 10} = {}" "set (snd kv) \<inter> {0, 10} = {}" if "kv \<in> set flds" for kv
  proof -
    have "field_ok strftime (fst kv, snd kv)" using assms(3) that by simp
    then have ok: "fst kv \<in> fst ` set info_fields" "set (snd kv) \<inter> {0, 9, 10} = {}"
      unfolding field_ok_def prod.case by blast+
    show "set (string_bytes (fst kv)) \<inter> {0, 10} = {}" "set (snd kv) \<inter> {0, 10} = {}"
      using known_field(3) [OF ok(1)] ok(2) by blast+
  qed
  have set: "c \<notin> set ?d" "c \<notin> set ?v" if "c \<in> {0, 10}" for c
    using that parts by (intro tabbed_no; fastforce)+
  have no0: "0 \<notin> set (header_of flds @ rest)"
    using set [of 0] assms(5) by (auto simp: header_of_def string_bytes_def)
  have whole: "header_text wcstombs False (header_of flds @ rest @ 0 # junk) = Some (header_of flds @ rest)"
    using takeWhile_sep [OF no0, of junk] by (simp add: header_text_def c_text_def)
  have lines: "header_lines (header_of flds @ rest) = Some (?d, ?v)"
    using header_lines_of [of ?d ?v rest] set [of 10] by (simp add: header_of_def)
  have "sum_list (map (\<lambda>(k, v). 82 + length v) flds) = 82 * length flds + sum_list (map length (map snd flds))"
    by (induction flds) auto
  also have "\<dots> < length ?v + 4096 - 1" using assms(2) length_tabbed [of "map snd flds"] by linarith
  finally have sum: "sum_list (map (\<lambda>(k, v). 82 + length v) flds) < length ?v + 4096 - 1" .
  have scan: "info_scan strftime (length ?v + 4096) ?d ?v [] = Some (concat (map (shown_field strftime) flds))"
    using info_scan_fields [OF assms(1,3), of "[]" "length ?v + 4096"] sum by simp
  have "length (concat (map (shown_field strftime) flds)) \<le> sum_list (map (\<lambda>(k, v). 82 + length v) flds)"
    using assms(3) info_entry_shown(2) by (induction flds) (auto simp: add_mono)
  then show ?thesis
    using assms(4) sum by (simp add: info_header_def whole lines Let_def scan)
qed

lemma aewf_info_shows_fields_witness:
  "info_header (\<lambda>_ _. None) (\<lambda>_. Some ''2020'') False (header_of [(''c'', [55]), (''p'', [48]), (''m'', [57])] @ [0]) =
     Some (Some (info_line ''Case'' [char_of (55::nat)] @ info_line ''Acquired time'' (''2020 (epoch '' @ [char_of (57::nat)] @ '')'')))"
  using aewf_info_shows_fields [of "[(''c'', [55]), (''p'', [48]), (''m'', [57])]" "\<lambda>_. Some ''2020''" "[]" "\<lambda>_ _. None" "[]"]
  by (simp add: field_ok_def info_fields_def shown_field_def text_of_def info_line_not_Nil)

text \<open>A header whose first field has no name: nothing is printed, and the text that is
  copied has no contents.\<close>

lemma info_header_no_contents:
  "info_header wcstombs strftime False (string_bytes ''main'' @ [10, 10, 49, 10, 0]) = None"
proof -
  have "header_main (string_bytes ''main'' @ [10, 10, 49, 10]) = Some (string_bytes ''main'' @ [10, 10, 49, 10])"
    by (subst header_main.simps) (simp add: string_bytes_def byte_lower_def)
  then have "header_lines (string_bytes ''main'' @ [10, 10, 49, 10]) = Some ([], [49])"
    by (simp add: header_lines_def next_line_def first_line_def string_bytes_def)
  then show ?thesis
    by (simp add: info_header_def header_text_def c_text_def string_bytes_def info_scan.simps)
qed

end
