(* ===== verification/InputAewf.thy ===== *)
theory InputAewf
  imports InputAewfInfo
begin

text \<open>
  The input library \<open>libxmount_input_aewf\<close>: EWF images read without libewf. An image is a
  list of segment files, each a chain of sections; tables in them give the positions of the chunks
  of the disk, compressed or with a checksum. The handle is a cache: it keeps at most
  \<open>MaxOpenSegments\<close> files open and at most \<open>MaxTableCache\<close> bytes of tables, and closes
  or releases the one used longest ago.

  The environment is a parameter: the files, \<open>realpath\<close>, zlib's \<open>uncompress\<close> and
  \<open>adler32\<close>, the result of the n-th call of \<open>time\<close>, the contents of fresh memory and what
  \<open>InputAewfInfo\<close> needs for the info text. A segment is named by its index. Handles are those that
  \<open>AewfCreateHandle\<close> has made, so \<open>AewfCheckHandle\<close> succeeds. \<open>fclose\<close> and
  \<open>pthread_create\<close> succeed. A thread works on its own structure and its own part of the
  caller's buffer only, so it is run where it is created. Left out: log messages, and the counters
  that only \<open>UpdateStats\<close> prints. \<open>None\<close> stands for accesses outside a buffer, the use of
  an uninitialised variable and a NULL file name.
\<close>

section \<open>Constants and structures\<close>

definition AEWF_OK :: int where "AEWF_OK = 0"
definition AEWF_ERROR_ENOMEM_START :: int where "AEWF_ERROR_ENOMEM_START = 1000"
definition AEWF_MEMALLOC_FAILED :: int where "AEWF_MEMALLOC_FAILED = 1001"
definition AEWF_ERROR_ENOMEM_END :: int where "AEWF_ERROR_ENOMEM_END = 1002"
definition AEWF_ERROR_EINVAL_START :: int where "AEWF_ERROR_EINVAL_START = 2000"
definition AEWF_READ_BEYOND_END_OF_IMAGE :: int where "AEWF_READ_BEYOND_END_OF_IMAGE = 2001"
definition AEWF_OPTIONS_ERROR :: int where "AEWF_OPTIONS_ERROR = 2002"
definition AEWF_CANNOT_OPEN_LOGFILE :: int where "AEWF_CANNOT_OPEN_LOGFILE = 2003"
definition AEWF_ERROR_EINVAL_END :: int where "AEWF_ERROR_EINVAL_END = 2004"
definition AEWF_ERROR_EIO_START :: int where "AEWF_ERROR_EIO_START = 3000"
definition AEWF_MAGIC_BROKEN :: int where "AEWF_MAGIC_BROKEN = 3001"
definition AEWF_HANDLE_IS_NULL :: int where "AEWF_HANDLE_IS_NULL = 3002"
definition AEWF_ALREADY_OPEN :: int where "AEWF_ALREADY_OPEN = 3003"
definition AEWF_NOT_OPEN :: int where "AEWF_NOT_OPEN = 3004"
definition AEWF_FILE_OPEN_FAILED :: int where "AEWF_FILE_OPEN_FAILED = 3005"
definition AEWF_FILE_CLOSE_FAILED :: int where "AEWF_FILE_CLOSE_FAILED = 3006"
definition AEWF_FILE_SEEK_FAILED :: int where "AEWF_FILE_SEEK_FAILED = 3007"
definition AEWF_FILE_READ_FAILED :: int where "AEWF_FILE_READ_FAILED = 3008"
definition AEWF_READFILE_BAD_MEM :: int where "AEWF_READFILE_BAD_MEM = 3009"
definition AEWF_BAD_FILE_SIGNATURE :: int where "AEWF_BAD_FILE_SIGNATURE = 3010"
definition AEWF_MISSING_SEGMENT_NUMBER :: int where "AEWF_MISSING_SEGMENT_NUMBER = 3011"
definition AEWF_DUPLICATE_SEGMENT_NUMBER :: int where "AEWF_DUPLICATE_SEGMENT_NUMBER = 3012"
definition AEWF_WRONG_SEGMENT_FILE_COUNT :: int where "AEWF_WRONG_SEGMENT_FILE_COUNT = 3013"
definition AEWF_VOLUME_MUST_PRECEDE_TABLES :: int where "AEWF_VOLUME_MUST_PRECEDE_TABLES = 3014"
definition AEWF_SECTORS_MUST_PRECEDE_TABLES :: int where "AEWF_SECTORS_MUST_PRECEDE_TABLES = 3015"
definition AEWF_WRONG_CHUNK_COUNT :: int where "AEWF_WRONG_CHUNK_COUNT = 3016"
definition AEWF_CHUNK_NOT_FOUND :: int where "AEWF_CHUNK_NOT_FOUND = 3017"
definition AEWF_VOLUME_MISSING :: int where "AEWF_VOLUME_MISSING = 3018"
definition AEWF_ERROR_EWF_TABLE_NOT_READY :: int where "AEWF_ERROR_EWF_TABLE_NOT_READY = 3019"
definition AEWF_ERROR_EWF_SEGMENT_NOT_READY :: int where "AEWF_ERROR_EWF_SEGMENT_NOT_READY = 3020"
definition AEWF_CHUNK_TOO_BIG :: int where "AEWF_CHUNK_TOO_BIG = 3021"
definition AEWF_UNCOMPRESS_FAILED :: int where "AEWF_UNCOMPRESS_FAILED = 3022"
definition AEWF_BAD_UNCOMPRESSED_LENGTH :: int where "AEWF_BAD_UNCOMPRESSED_LENGTH = 3023"
definition AEWF_CHUNK_CRC_ERROR :: int where "AEWF_CHUNK_CRC_ERROR = 3024"
definition AEWF_ERROR_IN_CHUNK_NUMBER :: int where "AEWF_ERROR_IN_CHUNK_NUMBER = 3025"
definition AEWF_UNCOMPRESS_HEADER_FAILED :: int where "AEWF_UNCOMPRESS_HEADER_FAILED = 3026"
definition AEWF_ASPRINTF_FAILED :: int where "AEWF_ASPRINTF_FAILED = 3027"
definition AEWF_CHUNK_LENGTH_ZERO :: int where "AEWF_CHUNK_LENGTH_ZERO = 3028"
definition AEWF_NEGATIVE_SEEK :: int where "AEWF_NEGATIVE_SEEK = 3029"
definition AEWF_ERROR_EIO_END :: int where "AEWF_ERROR_EIO_END = 3030"
definition AEWF_ERROR_PTHREAD :: int where "AEWF_ERROR_PTHREAD = 3031"
definition AEWF_WRONG_CHUNK_CALCULATION :: int where "AEWF_WRONG_CHUNK_CALCULATION = 3032"
definition AEWF_ZERO_SECTORS :: int where "AEWF_ZERO_SECTORS = 3033"
definition AEWF_INVALID_SECTOR_SIZE :: int where "AEWF_INVALID_SECTOR_SIZE = 3034"
definition AEWF_INVALID_CHUNK_SIZE :: int where "AEWF_INVALID_CHUNK_SIZE = 3035"
definition AEWF_ZERO_IMAGE_SIZE :: int where "AEWF_ZERO_IMAGE_SIZE = 3036"
definition AEWF_NUMBER_OF_TABLES :: int where "AEWF_NUMBER_OF_TABLES = 3037"
definition AEWF_SECTION_STARTPOS_ERROR :: int where "AEWF_SECTION_STARTPOS_ERROR = 3038"
definition AEWF_TOO_MANY_SECTIONS :: int where "AEWF_TOO_MANY_SECTIONS = 3039"
definition AEWF_THREADS_STILL_RUNNING :: int where "AEWF_THREADS_STILL_RUNNING = 3040"
definition AEWF_FILESIZE_CHANGED :: int where "AEWF_FILESIZE_CHANGED = 3041"
definition AEWF_SECTION_SECTORS_WRONG_SIZE :: int where "AEWF_SECTION_SECTORS_WRONG_SIZE = 3042"
definition AEWF_SECTION_TABLE_WRONG_SIZE :: int where "AEWF_SECTION_TABLE_WRONG_SIZE = 3043"
definition AEWF_SECTION_TABLE_BEYOND_EOF :: int where "AEWF_SECTION_TABLE_BEYOND_EOF = 3044"
definition AEWF_SECTION_HEADER_WRONG_SIZE :: int where "AEWF_SECTION_HEADER_WRONG_SIZE = 3045"
definition AEWF_SECTION_VOLUME_WRONG_SIZE :: int where "AEWF_SECTION_VOLUME_WRONG_SIZE = 3046"
definition AEWF_SECTION_HASH_WRONG_SIZE :: int where "AEWF_SECTION_HASH_WRONG_SIZE = 3047"
definition AEWF_SECTION_BEYOND_EOF :: int where "AEWF_SECTION_BEYOND_EOF = 3048"

lemmas aewf_codes = AEWF_OK_def AEWF_ERROR_ENOMEM_START_def AEWF_MEMALLOC_FAILED_def AEWF_ERROR_ENOMEM_END_def
  AEWF_ERROR_EINVAL_START_def AEWF_READ_BEYOND_END_OF_IMAGE_def AEWF_OPTIONS_ERROR_def
  AEWF_CANNOT_OPEN_LOGFILE_def AEWF_ERROR_EINVAL_END_def AEWF_ERROR_EIO_START_def
  AEWF_MAGIC_BROKEN_def AEWF_HANDLE_IS_NULL_def AEWF_ALREADY_OPEN_def AEWF_NOT_OPEN_def
  AEWF_FILE_OPEN_FAILED_def AEWF_FILE_CLOSE_FAILED_def AEWF_FILE_SEEK_FAILED_def
  AEWF_FILE_READ_FAILED_def AEWF_READFILE_BAD_MEM_def AEWF_BAD_FILE_SIGNATURE_def
  AEWF_MISSING_SEGMENT_NUMBER_def AEWF_DUPLICATE_SEGMENT_NUMBER_def
  AEWF_WRONG_SEGMENT_FILE_COUNT_def AEWF_VOLUME_MUST_PRECEDE_TABLES_def
  AEWF_SECTORS_MUST_PRECEDE_TABLES_def AEWF_WRONG_CHUNK_COUNT_def AEWF_CHUNK_NOT_FOUND_def
  AEWF_VOLUME_MISSING_def AEWF_ERROR_EWF_TABLE_NOT_READY_def AEWF_ERROR_EWF_SEGMENT_NOT_READY_def
  AEWF_CHUNK_TOO_BIG_def AEWF_UNCOMPRESS_FAILED_def AEWF_BAD_UNCOMPRESSED_LENGTH_def
  AEWF_CHUNK_CRC_ERROR_def AEWF_ERROR_IN_CHUNK_NUMBER_def AEWF_UNCOMPRESS_HEADER_FAILED_def
  AEWF_ASPRINTF_FAILED_def AEWF_CHUNK_LENGTH_ZERO_def AEWF_NEGATIVE_SEEK_def
  AEWF_ERROR_EIO_END_def AEWF_ERROR_PTHREAD_def AEWF_WRONG_CHUNK_CALCULATION_def
  AEWF_ZERO_SECTORS_def AEWF_INVALID_SECTOR_SIZE_def AEWF_INVALID_CHUNK_SIZE_def
  AEWF_ZERO_IMAGE_SIZE_def AEWF_NUMBER_OF_TABLES_def AEWF_SECTION_STARTPOS_ERROR_def
  AEWF_TOO_MANY_SECTIONS_def AEWF_THREADS_STILL_RUNNING_def AEWF_FILESIZE_CHANGED_def
  AEWF_SECTION_SECTORS_WRONG_SIZE_def AEWF_SECTION_TABLE_WRONG_SIZE_def
  AEWF_SECTION_TABLE_BEYOND_EOF_def AEWF_SECTION_HEADER_WRONG_SIZE_def
  AEWF_SECTION_VOLUME_WRONG_SIZE_def AEWF_SECTION_HASH_WRONG_SIZE_def AEWF_SECTION_BEYOND_EOF_def

definition AEWF_NONE :: nat where "AEWF_NONE = 18446744073709551615"
definition NO_SEEK :: nat where "NO_SEEK = 18446744073709551615"
definition AEWF_MAX_SECTOR_SIZE :: nat where "AEWF_MAX_SECTOR_SIZE = 10485760"
definition AEWF_MAX_CHUNK_SIZE :: nat where "AEWF_MAX_CHUNK_SIZE = 104857600"
definition AEWF_MAX_TABLES :: nat where "AEWF_MAX_TABLES = 10000000"
definition AEWF_MAX_SECTION_COUNT :: nat where "AEWF_MAX_SECTION_COUNT = 10485760"
definition AEWF_MAX_HEADER_LEN :: nat where "AEWF_MAX_HEADER_LEN = 1048576"
definition AEWF_DEFAULT_TABLECACHE :: nat where "AEWF_DEFAULT_TABLECACHE = 10"
definition AEWF_DEFAULT_MAXOPENSEGMENTS :: nat where "AEWF_DEFAULT_MAXOPENSEGMENTS = 10"
definition AEWF_DEFAULT_STATSREFRESH :: nat where "AEWF_DEFAULT_STATSREFRESH = 10"
definition AEWF_COMPRESSED :: nat where "AEWF_COMPRESSED = 0x80000000"

definition AEWF_SIGNATURE :: bytes where
  "AEWF_SIGNATURE = [0x45, 0x56, 0x46, 0x09, 0x0D, 0x0A, 0xFF, 0x00]"

definition sizeof_t_AewfFileHeader :: nat where "sizeof_t_AewfFileHeader = 13"
definition sizeof_t_AewfSection :: nat where "sizeof_t_AewfSection = 76"
definition sizeof_t_AewfSectionVolume :: nat where "sizeof_t_AewfSectionVolume = 1052"
definition sizeof_t_AewfSectionTable :: nat where "sizeof_t_AewfSectionTable = 28"
definition sizeof_t_AewfSectionHash :: nat where "sizeof_t_AewfSectionHash = 36"

text \<open>The structures of the files, little-endian as the host; the fields that the code uses.\<close>

record t_aewf_file_header =
  fh_Signature :: bytes
  fh_SegmentNumber :: nat

definition dec_aewf_file_header :: "bytes \<Rightarrow> t_aewf_file_header" where
  "dec_aewf_file_header b = \<lparr>fh_Signature = segment 0 8 b, fh_SegmentNumber = le_at 9 2 b\<rparr>"

record t_aewf_section =
  se_Type :: bytes
  se_OffsetNextSection :: nat
  se_Size :: nat

definition dec_aewf_section :: "bytes \<Rightarrow> t_aewf_section" where
  "dec_aewf_section b =
     \<lparr>se_Type = segment 0 16 b, se_OffsetNextSection = le_at 16 8 b, se_Size = le_at 24 8 b\<rparr>"

record t_aewf_volume =
  vo_ChunkCount :: nat
  vo_SectorsPerChunk :: nat
  vo_BytesPerSector :: nat
  vo_SectorCount :: nat

definition dec_aewf_volume :: "bytes \<Rightarrow> t_aewf_volume" where
  "dec_aewf_volume b =
     \<lparr>vo_ChunkCount = le_at 4 4 b, vo_SectorsPerChunk = le_at 8 4 b, vo_BytesPerSector = le_at 12 4 b,
      vo_SectorCount = le_at 16 8 b\<rparr>"

text \<open>\<open>t_AewfSectionTable\<close> with its array of offsets.\<close>

definition ewf_ChunkCount :: "bytes \<Rightarrow> nat" where "ewf_ChunkCount b = le_at 0 4 b"
definition ewf_TableBaseOffset :: "bytes \<Rightarrow> nat" where "ewf_TableBaseOffset b = le_at 8 8 b"
definition ewf_OffsetArray :: "bytes \<Rightarrow> nat \<Rightarrow> nat option" where
  "ewf_OffsetArray b k = (if 24 + 4 * k + 4 \<le> length b then Some (le_at (24 + 4 * k) 4 b) else None)"

section \<open>The handle\<close>

record t_segment =
  sg_pName :: string
  sg_Number :: nat
  sg_pFile :: "cfile option"
  sg_FileSize :: nat
  sg_LastUsed :: nat

record t_table =
  tb_ChunkFrom :: nat
  tb_ChunkTo :: nat
  tb_pSegment :: nat
  tb_Offset :: nat
  tb_Size :: nat
  tb_ChunkCount :: nat
  tb_SectionSectorsPos :: nat
  tb_SectionSectorsSize :: nat
  tb_LastUsed :: nat
  tb_pEwfTable :: "bytes option"

record t_aewf_thread =
  th_Launched :: bool
  th_pChunkBuffUncompressed :: bytes
  th_ChunkBuffUncompressedDataLen :: nat
  th_ChunkInBuff :: nat
  th_Len :: nat
  th_ReturnCode :: int

text \<open>\<open>ae_Ticks\<close> counts the calls of \<open>time\<close>.\<close>

record t_aewf =
  ae_Open :: bool
  ae_pSegmentArr :: "t_segment list"
  ae_pTableArr :: "t_table list"
  ae_Chunks :: nat
  ae_TotalTableSize :: nat
  ae_TableCache :: nat
  ae_OpenSegments :: nat
  ae_SectorSize :: nat
  ae_Sectors :: nat
  ae_ChunkSize :: nat
  ae_ImageSize :: nat
  ae_pChunkBuffUncompressed :: bytes
  ae_ChunkBuffUncompressedDataLen :: nat
  ae_ChunkBuffSize :: nat
  ae_ChunkInBuff :: nat
  ae_pInfo :: "string option"
  ae_pThreadArr :: "t_aewf_thread list"
  ae_MaxTableCache :: nat
  ae_MaxOpenSegments :: nat
  ae_pStatsPath :: "string option"
  ae_StatsRefresh :: nat
  ae_pLogPath :: "string option"
  ae_LogStdout :: bool
  ae_Threads :: nat
  ae_Ticks :: nat

record aewf_env =
  ay_fs :: "string \<Rightarrow> bytes option"
  ay_realpath :: "string \<Rightarrow> string option"
  ay_uncompress :: zlib_uncompress
  ay_adler32 :: "bytes \<Rightarrow> nat"
  ay_time :: "nat \<Rightarrow> nat"
  ay_fresh :: "nat \<Rightarrow> u8"
  ay_gib :: "nat \<Rightarrow> string"
  ay_wcstombs :: "nat list \<Rightarrow> nat \<Rightarrow> bytes option"
  ay_strftime :: "bytes \<Rightarrow> string option"

text \<open>Updates of a segment, a table and a thread of the handle.\<close>

definition upd_seg :: "nat \<Rightarrow> (t_segment \<Rightarrow> t_segment) \<Rightarrow> t_aewf \<Rightarrow> t_aewf" where
  "upd_seg i f a = a\<lparr>ae_pSegmentArr := (ae_pSegmentArr a)[i := f (ae_pSegmentArr a ! i)]\<rparr>"

definition upd_table :: "nat \<Rightarrow> (t_table \<Rightarrow> t_table) \<Rightarrow> t_aewf \<Rightarrow> t_aewf" where
  "upd_table i f a = a\<lparr>ae_pTableArr := (ae_pTableArr a)[i := f (ae_pTableArr a ! i)]\<rparr>"

definition upd_thread :: "nat \<Rightarrow> (t_aewf_thread \<Rightarrow> t_aewf_thread) \<Rightarrow> t_aewf \<Rightarrow> t_aewf" where
  "upd_thread i f a = a\<lparr>ae_pThreadArr := (ae_pThreadArr a)[i := f (ae_pThreadArr a ! i)]\<rparr>"

definition AewfInitHandle :: "t_aewf \<Rightarrow> t_aewf" where
  "AewfInitHandle a = a\<lparr>ae_ChunkInBuff := AEWF_NONE, ae_pInfo := None, ae_pThreadArr := []\<rparr>"

definition GetCPUs :: "int \<Rightarrow> nat" where
  "GetCPUs nprocessors = (if nprocessors < 0 then 4 else nat nprocessors)"

definition AewfCreateHandle :: "int \<Rightarrow> bool \<Rightarrow> t_aewf" where
  "AewfCreateHandle nprocessors Debug =
     \<lparr>ae_Open = False, ae_pSegmentArr = [], ae_pTableArr = [], ae_Chunks = 0, ae_TotalTableSize = 0,
      ae_TableCache = 0, ae_OpenSegments = 0, ae_SectorSize = 0, ae_Sectors = 0, ae_ChunkSize = 0,
      ae_ImageSize = 0, ae_pChunkBuffUncompressed = [], ae_ChunkBuffUncompressedDataLen = 0,
      ae_ChunkBuffSize = 0, ae_ChunkInBuff = AEWF_NONE, ae_pInfo = None, ae_pThreadArr = [],
      ae_MaxTableCache = AEWF_DEFAULT_TABLECACHE * 1024 * 1024,
      ae_MaxOpenSegments = AEWF_DEFAULT_MAXOPENSEGMENTS, ae_pStatsPath = None,
      ae_StatsRefresh = AEWF_DEFAULT_STATSREFRESH, ae_pLogPath = None, ae_LogStdout = Debug,
      ae_Threads = GetCPUs nprocessors, ae_Ticks = 0\<rparr>"

definition AewfCheckError :: "int \<Rightarrow> int" where
  "AewfCheckError Ret =
     (if Ret = AEWF_OK then 0
      else if Ret \<ge> AEWF_ERROR_ENOMEM_START \<and> Ret \<le> AEWF_ERROR_ENOMEM_END then ENOMEM
      else if Ret \<ge> AEWF_ERROR_EINVAL_START \<and> Ret \<le> AEWF_ERROR_EINVAL_END then EINVAL
      else EIO)"

section \<open>Files\<close>

definition OpenFile :: "(string \<Rightarrow> bytes option) \<Rightarrow> string \<Rightarrow> int \<times> cfile option \<times> nat" where
  "OpenFile fs pFilename =
     (case open_r fs pFilename of
        None \<Rightarrow> (AEWF_FILE_OPEN_FAILED, None, 0)
      | Some f \<Rightarrow> (AEWF_OK, Some f, length (f_data f)))"

text \<open>The code, the bytes stored, and the file.\<close>

definition ReadFilePos :: "cfile \<Rightarrow> nat \<Rightarrow> nat \<Rightarrow> int \<times> bytes \<times> cfile" where
  "ReadFilePos f Size Pos =
     (if Size = 0 then (AEWF_OK, [], f)
      else case (if Pos \<noteq> NO_SEEK then fseeko_set Pos f else (0, f)) of (s, f1) \<Rightarrow>
        if s \<noteq> 0 then (AEWF_FILE_SEEK_FAILED, [], f1)
        else case fread Size f1 of (k, b, f2) \<Rightarrow>
          (if k \<noteq> 1 then AEWF_FILE_READ_FAILED else AEWF_OK, b, f2))"

text \<open>Bytes stored at the start of memory; \<open>None\<close> where there is no room.\<close>

definition store_at_start :: "bytes \<Rightarrow> bytes \<Rightarrow> bytes option" where
  "store_at_start b mem = (if length b \<le> length mem then Some (b @ drop (length b) mem) else None)"

definition fresh_mem :: "aewf_env \<Rightarrow> nat \<Rightarrow> bytes" where
  "fresh_mem env n = map (ay_fresh env) [0..<n]"

text \<open>The memory is NULL if nothing is to be read, and stays allocated if reading fails.\<close>

definition ReadFileAllocPos ::
  "aewf_env \<Rightarrow> cfile \<Rightarrow> nat \<Rightarrow> nat \<Rightarrow> int \<times> bytes option \<times> cfile" where
  "ReadFileAllocPos env f Size Pos =
     (if Size = 0 then (AEWF_OK, None, f)
      else case ReadFilePos f Size Pos of (rc, b, f1) \<Rightarrow> (rc, store_at_start b (fresh_mem env Size), f1))"

definition ReadFileAlloc :: "aewf_env \<Rightarrow> cfile \<Rightarrow> nat \<Rightarrow> int \<times> bytes option \<times> cfile" where
  "ReadFileAlloc env f Size = ReadFileAllocPos env f Size NO_SEEK"

section \<open>The caches of files and tables\<close>

text \<open>The first of the elements in use with the least time of use; \<open>i\<close> is the index of the first
  element of the list, \<open>best\<close> the choice so far with its time.\<close>

fun oldest :: "('a \<Rightarrow> bool) \<Rightarrow> ('a \<Rightarrow> nat) \<Rightarrow> nat \<Rightarrow> 'a list \<Rightarrow> (nat \<times> nat) option \<Rightarrow> nat option" where
  "oldest in_use last_used i [] best = map_option fst best"
| "oldest in_use last_used i (x # xs) best =
     oldest in_use last_used (i + 1) xs
       (if \<not> in_use x then best
        else case best of
          None \<Rightarrow> Some (i, last_used x)
        | Some (_, t) \<Rightarrow> if last_used x < t then Some (i, last_used x) else best)"

definition oldest_segment :: "t_aewf \<Rightarrow> nat option" where
  "oldest_segment a = oldest (\<lambda>s. sg_pFile s \<noteq> None) sg_LastUsed 0 (ae_pSegmentArr a) None"

definition oldest_table :: "t_aewf \<Rightarrow> nat option" where
  "oldest_table a = oldest (\<lambda>t. tb_pEwfTable t \<noteq> None) tb_LastUsed 0 (ae_pTableArr a) None"

lemma oldest_Some:
  "oldest in_use last_used i xs best = Some k \<Longrightarrow>
   (\<exists>t. best = Some (k, t)) \<or> i \<le> k \<and> k < i + length xs \<and> in_use (xs ! (k - i))"
proof (induction in_use last_used i xs best arbitrary: rule: oldest.induct)
  case (2 in_use last_used i x xs best)
  from 2 consider "\<exists>t. best = Some (k, t)" | "k = i" "in_use x"
    | "i + 1 \<le> k" "k < i + 1 + length xs" "in_use (xs ! (k - (i + 1)))"
    by (auto split: if_splits option.splits prod.splits)
  then show ?case
  proof cases
    case 3
    then have "(x # xs) ! (k - i) = xs ! (k - (i + 1))" by (simp add: Suc_diff_Suc [symmetric] nth_Cons')
    then show ?thesis using 3 by auto
  qed auto
qed auto

lemma oldest_segmentD:
  "oldest_segment a = Some k \<Longrightarrow> k < length (ae_pSegmentArr a) \<and> sg_pFile (ae_pSegmentArr a ! k) \<noteq> None"
  using oldest_Some [of "\<lambda>s. sg_pFile s \<noteq> None" sg_LastUsed 0 "ae_pSegmentArr a" None k]
  by (auto simp: oldest_segment_def)

lemma oldest_tableD:
  "oldest_table a = Some k \<Longrightarrow> k < length (ae_pTableArr a) \<and> tb_pEwfTable (ae_pTableArr a ! k) \<noteq> None"
  using oldest_Some [of "\<lambda>t. tb_pEwfTable t \<noteq> None" tb_LastUsed 0 "ae_pTableArr a" None k]
  by (auto simp: oldest_table_def)

lemma count_update_less:
  "k < length xs \<Longrightarrow> P (xs ! k) \<Longrightarrow> \<not> P y \<Longrightarrow> length (filter P (xs[k := y])) < length (filter P xs)"
proof (induction xs arbitrary: k)
  case (Cons x xs)
  then show ?case by (cases k) auto
qed simp

text \<open>Closing files until one more may be opened, and releasing tables until there is room for
  \<open>Size\<close> bytes.\<close>

function AewfOpenSegment_close :: "t_aewf \<Rightarrow> t_aewf" where
  "AewfOpenSegment_close a =
     (if ae_OpenSegments a \<ge> ae_MaxOpenSegments a then
        (case oldest_segment a of
           None \<Rightarrow> a
         | Some k \<Rightarrow>
             AewfOpenSegment_close ((upd_seg k (\<lambda>s. s\<lparr>sg_pFile := None\<rparr>) a)
               \<lparr>ae_OpenSegments := sub64 (ae_OpenSegments a) 1\<rparr>))
      else a)"
  by pat_completeness auto
termination
  by (relation "measure (\<lambda>a. length (filter (\<lambda>s. sg_pFile s \<noteq> None) (ae_pSegmentArr a)))")
    (auto dest!: oldest_segmentD simp: upd_seg_def intro!: count_update_less)

declare AewfOpenSegment_close.simps [simp del]

function AewfLoadEwfTable_release :: "nat \<Rightarrow> t_aewf \<Rightarrow> t_aewf" where
  "AewfLoadEwfTable_release Size a =
     (if u64 (ae_TableCache a + Size) > ae_MaxTableCache a then
        (case oldest_table a of
           None \<Rightarrow> a
         | Some k \<Rightarrow>
             AewfLoadEwfTable_release Size ((upd_table k (\<lambda>t. t\<lparr>tb_pEwfTable := None\<rparr>) a)
               \<lparr>ae_TableCache := sub64 (ae_TableCache a) (tb_Size (ae_pTableArr a ! k))\<rparr>))
      else a)"
  by pat_completeness auto
termination
  by (relation "measure (\<lambda>(_, a). length (filter (\<lambda>t. tb_pEwfTable t \<noteq> None) (ae_pTableArr a)))")
    (auto dest!: oldest_tableD simp: upd_table_def intro!: count_update_less)

declare AewfLoadEwfTable_release.simps [simp del]

text \<open>A file whose size has changed stays open and is not counted.\<close>

definition AewfOpenSegment :: "aewf_env \<Rightarrow> t_aewf \<Rightarrow> nat \<Rightarrow> int \<times> t_aewf" where
  "AewfOpenSegment env a t =
     (let k = tb_pSegment (ae_pTableArr a ! t) in
      if sg_pFile (ae_pSegmentArr a ! k) \<noteq> None then (AEWF_OK, a)
      else
        let a1 = AewfOpenSegment_close a in
        case OpenFile (ay_fs env) (sg_pName (ae_pSegmentArr a1 ! k)) of (rc, f, FileSize) \<Rightarrow>
          if rc \<noteq> AEWF_OK then (rc, a1)
          else
            let a2 = upd_seg k (\<lambda>s. s\<lparr>sg_pFile := f\<rparr>) a1 in
            if FileSize \<noteq> sg_FileSize (ae_pSegmentArr a2 ! k) then (AEWF_FILESIZE_CHANGED, a2)
            else (AEWF_OK, a2\<lparr>ae_OpenSegments := u64 (ae_OpenSegments a2 + 1)\<rparr>))"

definition AewfLoadEwfTable :: "aewf_env \<Rightarrow> t_aewf \<Rightarrow> nat \<Rightarrow> int \<times> t_aewf" where
  "AewfLoadEwfTable env a t =
     (if tb_pEwfTable (ae_pTableArr a ! t) \<noteq> None then (AEWF_OK, a)
      else
        let tb = ae_pTableArr a ! t; k = tb_pSegment tb in
        case AewfOpenSegment env (AewfLoadEwfTable_release (tb_Size tb) a) t of (rc, a1) \<Rightarrow>
          if rc \<noteq> AEWF_OK then (rc, a1)
          else case ReadFileAllocPos env (the (sg_pFile (ae_pSegmentArr a1 ! k))) (tb_Size tb) (tb_Offset tb) of
            (rc, mem, f) \<Rightarrow>
              let a2 = upd_table t (\<lambda>t. t\<lparr>tb_pEwfTable := mem\<rparr>) (upd_seg k (\<lambda>s. s\<lparr>sg_pFile := Some f\<rparr>) a1) in
              if rc \<noteq> AEWF_OK then (rc, a2)
              else (AEWF_OK, a2\<lparr>ae_TableCache := u64 (ae_TableCache a2 + tb_Size tb)\<rparr>))"

section \<open>The chunk to read\<close>

text \<open>The index of the first element with a property; the list begins with the index \<open>i\<close>.\<close>

fun first_index :: "('a \<Rightarrow> bool) \<Rightarrow> nat \<Rightarrow> 'a list \<Rightarrow> nat option" where
  "first_index P i [] = None"
| "first_index P i (x # xs) = (if P x then Some i else first_index P (i + 1) xs)"

text \<open>The table that holds a chunk.\<close>

definition aewf_find_table :: "t_aewf \<Rightarrow> nat \<Rightarrow> nat option" where
  "aewf_find_table a AbsoluteChunk =
     first_index (\<lambda>t. tb_ChunkFrom t \<le> AbsoluteChunk \<and> AbsoluteChunk \<le> tb_ChunkTo t) 0 (ae_pTableArr a)"

text \<open>The table and its file, made available: the code, the index of the table and the handle.\<close>

definition aewf_prepare :: "aewf_env \<Rightarrow> t_aewf \<Rightarrow> nat \<Rightarrow> int \<times> nat \<times> t_aewf" where
  "aewf_prepare env a AbsoluteChunk =
     (case aewf_find_table a AbsoluteChunk of
        None \<Rightarrow> (AEWF_CHUNK_NOT_FOUND, 0, a)
      | Some t \<Rightarrow>
          let now = ay_time env (ae_Ticks a);
              a1 = upd_table t (\<lambda>tb. tb\<lparr>tb_LastUsed := now\<rparr>) (a\<lparr>ae_Ticks := ae_Ticks a + 1\<rparr>);
              a2 = upd_seg (tb_pSegment (ae_pTableArr a1 ! t)) (\<lambda>s. s\<lparr>sg_LastUsed := now\<rparr>) a1
          in case AewfLoadEwfTable env a2 t of (rc, a3) \<Rightarrow>
            if rc \<noteq> AEWF_OK then (rc, t, a3)
            else case AewfOpenSegment env a3 t of (rc, a4) \<Rightarrow>
              if rc \<noteq> AEWF_OK then (rc, t, a4)
              else if sub64 AbsoluteChunk (tb_ChunkFrom (ae_pTableArr a4 ! t)) > 4294967295
              then (AEWF_ERROR_IN_CHUNK_NUMBER, t, a4)
              else (AEWF_OK, t, a4))"

text \<open>Whether the chunk is compressed, its position in the file and its length there.\<close>

definition aewf_place :: "t_table \<Rightarrow> bytes \<Rightarrow> nat \<Rightarrow> (bool \<times> nat \<times> nat) option" where
  "aewf_place tb ewf TableChunk =
     (case ewf_OffsetArray ewf TableChunk of
        None \<Rightarrow> None
      | Some e \<Rightarrow>
          let Offset = e mod AEWF_COMPRESSED;
              SeekPos = u64 (ewf_TableBaseOffset ewf + Offset);
              compressed = (AEWF_COMPRESSED \<le> e)
          in if TableChunk < sub32 (ewf_ChunkCount ewf) 1
             then (case ewf_OffsetArray ewf (TableChunk + 1) of
                     None \<Rightarrow> None
                   | Some e' \<Rightarrow> Some (compressed, SeekPos, sub32 (e' mod AEWF_COMPRESSED) Offset))
             else Some (compressed, SeekPos,
                    u32 (sub64 (tb_SectionSectorsSize tb) (sub64 SeekPos (tb_SectionSectorsPos tb)))))"

text \<open>The last chunk may be smaller.\<close>

definition aewf_chunk_size :: "t_aewf \<Rightarrow> nat \<Rightarrow> nat" where
  "aewf_chunk_size a AbsoluteChunk =
     (if AbsoluteChunk = sub64 (ae_Chunks a) 1 \<and> ae_ImageSize a mod ae_ChunkSize a \<noteq> 0
      then ae_ImageSize a mod ae_ChunkSize a else ae_ChunkSize a)"

section \<open>Reading with one thread\<close>

definition legacy_done :: "int \<Rightarrow> bytes \<Rightarrow> nat \<Rightarrow> nat \<Rightarrow> t_aewf \<Rightarrow> int \<times> t_aewf" where
  "legacy_done Ret mem AbsoluteChunk ChunkSize a =
     (Ret, a\<lparr>ae_pChunkBuffUncompressed := mem,
             ae_ChunkInBuff := (if Ret = AEWF_OK then AbsoluteChunk else AEWF_NONE),
             ae_ChunkBuffUncompressedDataLen := (if Ret = AEWF_OK then ChunkSize else 0)\<rparr>)"

text \<open>The checksum behind the data of a chunk that is not compressed.\<close>

definition chunk_crc_ok :: "aewf_env \<Rightarrow> nat \<Rightarrow> bytes \<Rightarrow> bool" where
  "chunk_crc_ok env ChunkSize mem \<longleftrightarrow> ay_adler32 env (take ChunkSize mem) = le_at ChunkSize 4 mem"

definition AewfReadChunkLegacy0 ::
  "aewf_env \<Rightarrow> t_aewf \<Rightarrow> nat \<Rightarrow> nat \<Rightarrow> nat \<Rightarrow> (int \<times> t_aewf) option" where
  "AewfReadChunkLegacy0 env a t AbsoluteChunk TableChunk =
     (let tb = ae_pTableArr a ! t; k = tb_pSegment tb in
      case tb_pEwfTable tb of
        None \<Rightarrow> Some (AEWF_ERROR_EWF_TABLE_NOT_READY, a)
      | Some ewf \<Rightarrow>
      (case sg_pFile (ae_pSegmentArr a ! k) of
        None \<Rightarrow> Some (AEWF_ERROR_EWF_SEGMENT_NOT_READY, a)
      | Some f \<Rightarrow>
      (case aewf_place tb ewf TableChunk of
        None \<Rightarrow> None
      | Some (Compressed, SeekPos, ReadLen) \<Rightarrow>
          if ReadLen > ae_ChunkBuffSize a then Some (AEWF_CHUNK_TOO_BIG, a)
          else
            let ChunkSize = aewf_chunk_size a AbsoluteChunk in
            case ReadFilePos f ReadLen SeekPos of (rc, b, f1) \<Rightarrow>
              let a1 = upd_seg k (\<lambda>s. s\<lparr>sg_pFile := Some f1\<rparr>) a in
              if Compressed then
                if rc \<noteq> AEWF_OK then Some (rc, a1)
                else
                  (case ay_uncompress env b (ae_ChunkBuffSize a) of (zrc, out) \<Rightarrow>
                     (case store_at_start out (ae_pChunkBuffUncompressed a) of
                        None \<Rightarrow> None
                      | Some mem \<Rightarrow>
                          Some (legacy_done
                            (if length out \<noteq> ChunkSize then AEWF_BAD_UNCOMPRESSED_LENGTH
                             else if zrc \<noteq> Z_OK then AEWF_UNCOMPRESS_FAILED else AEWF_OK)
                            mem AbsoluteChunk ChunkSize a1)))
              else
                (case store_at_start b (ae_pChunkBuffUncompressed a) of
                   None \<Rightarrow> None
                 | Some mem \<Rightarrow>
                     if rc \<noteq> AEWF_OK then Some (rc, a1\<lparr>ae_pChunkBuffUncompressed := mem\<rparr>)
                     else if ChunkSize + 4 > length mem then None
                     else Some (legacy_done (if chunk_crc_ok env ChunkSize mem then AEWF_OK else AEWF_CHUNK_CRC_ERROR)
                                  mem AbsoluteChunk ChunkSize a1)))))"

text \<open>The code, the length of the chunk in the buffer, and the handle.\<close>

definition AewfReadChunkLegacy :: "aewf_env \<Rightarrow> t_aewf \<Rightarrow> nat \<Rightarrow> (int \<times> nat \<times> t_aewf) option" where
  "AewfReadChunkLegacy env a AbsoluteChunk =
     (if ae_ChunkInBuff a = AbsoluteChunk then Some (AEWF_OK, ae_ChunkBuffUncompressedDataLen a, a)
      else case aewf_prepare env a AbsoluteChunk of (rc, t, a1) \<Rightarrow>
        if rc \<noteq> AEWF_OK then Some (rc, 0, a1)
        else case AewfReadChunkLegacy0 env a1 t AbsoluteChunk
                    (sub64 AbsoluteChunk (tb_ChunkFrom (ae_pTableArr a1 ! t))) of
          None \<Rightarrow> None
        | Some (rc, a2) \<Rightarrow>
            if rc \<noteq> AEWF_OK then Some (rc, 0, a2)
            else Some (AEWF_OK, ae_ChunkBuffUncompressedDataLen a2, a2))"

text \<open>The loop of \<open>AewfReadLegacy\<close>; \<open>pBuf\<close> is the buffer of the caller, \<open>Read\<close> the
  number of bytes stored in it so far.\<close>

partial_function (option) AewfReadLegacy_loop ::
  "aewf_env \<Rightarrow> t_aewf \<Rightarrow> bytes \<Rightarrow> nat \<Rightarrow> nat \<Rightarrow> nat \<Rightarrow> nat \<Rightarrow> (int \<times> bytes \<times> nat \<times> t_aewf) option" where
  "AewfReadLegacy_loop env a pBuf Chunk Ofs Remaining Read =
     (if Remaining = 0 then Some (AEWF_OK, pBuf, Read, a)
      else case AewfReadChunkLegacy env a Chunk of
        None \<Rightarrow> None
      | Some (rc, ChunkLen, a1) \<Rightarrow>
          if rc \<noteq> AEWF_OK then Some (rc, pBuf, Read, a1)
          else if ChunkLen = 0 then Some (AEWF_CHUNK_LENGTH_ZERO, pBuf, Read, a1)
          else
            let ToCopy = min (sub64 ChunkLen Ofs) Remaining; mem = ae_pChunkBuffUncompressed a1 in
            if Ofs + ToCopy > length mem \<or> Read + ToCopy > length pBuf then None
            else AewfReadLegacy_loop env a1 (overwrite Read (segment Ofs ToCopy mem) pBuf)
                   (u64 (Chunk + 1)) 0 (Remaining - ToCopy) (Read + ToCopy))"

definition AewfReadLegacy ::
  "aewf_env \<Rightarrow> t_aewf \<Rightarrow> bytes \<Rightarrow> nat \<Rightarrow> nat \<Rightarrow> (int \<times> bytes \<times> nat \<times> t_aewf) option" where
  "AewfReadLegacy env a pBuf Seek64 Count =
     (if ae_ChunkSize a = 0 then None
      else AewfReadLegacy_loop env a pBuf (Seek64 div ae_ChunkSize a) (Seek64 mod ae_ChunkSize a) Count 0)"

section \<open>Reading with several threads\<close>

text \<open>What a thread does with its structure, and the bytes it copies to the caller's buffer.\<close>

definition thread_copy :: "int \<Rightarrow> nat \<Rightarrow> t_aewf_thread \<Rightarrow> (t_aewf_thread \<times> bytes) option" where
  "thread_copy Ret Ofs th =
     (if Ofs + th_Len th > length (th_pChunkBuffUncompressed th) then None
      else Some (th\<lparr>th_ReturnCode := Ret\<rparr>, segment Ofs (th_Len th) (th_pChunkBuffUncompressed th)))"

definition AewfThreadUncompress ::
  "aewf_env \<Rightarrow> nat \<Rightarrow> bytes \<Rightarrow> nat \<Rightarrow> t_aewf_thread \<Rightarrow> (t_aewf_thread \<times> bytes) option" where
  "AewfThreadUncompress env ChunkBuffSize compressed Ofs th =
     (case ay_uncompress env compressed ChunkBuffSize of (zrc, out) \<Rightarrow>
        (case store_at_start out (th_pChunkBuffUncompressed th) of
           None \<Rightarrow> None
         | Some mem \<Rightarrow>
             let th1 = th\<lparr>th_pChunkBuffUncompressed := mem\<rparr> in
             if zrc \<noteq> Z_OK then Some (th1\<lparr>th_ReturnCode := AEWF_UNCOMPRESS_FAILED\<rparr>, [])
             else if length out \<noteq> th_ChunkBuffUncompressedDataLen th
             then Some (th1\<lparr>th_ReturnCode := AEWF_BAD_UNCOMPRESSED_LENGTH\<rparr>, [])
             else thread_copy AEWF_OK Ofs th1))"

definition AewfThreadCRC :: "aewf_env \<Rightarrow> nat \<Rightarrow> t_aewf_thread \<Rightarrow> (t_aewf_thread \<times> bytes) option" where
  "AewfThreadCRC env Ofs th =
     (let ChunkSize = th_ChunkBuffUncompressedDataLen th; mem = th_pChunkBuffUncompressed th in
      if ChunkSize + 4 > length mem then None
      else thread_copy (if chunk_crc_ok env ChunkSize mem then AEWF_OK else AEWF_CHUNK_CRC_ERROR) Ofs th)"

definition AewfThreadCopy :: "nat \<Rightarrow> t_aewf_thread \<Rightarrow> (t_aewf_thread \<times> bytes) option" where
  "AewfThreadCopy Ofs th = thread_copy AEWF_OK Ofs th"

text \<open>\<open>pthread_create\<close>: the thread with the index \<open>i\<close> has run, at \<open>pos\<close> of the buffer.\<close>

definition thread_launch ::
  "nat \<Rightarrow> nat \<Rightarrow> bytes \<Rightarrow> t_aewf \<Rightarrow> (t_aewf_thread \<times> bytes) option \<Rightarrow> (int \<times> bytes \<times> t_aewf) option" where
  "thread_launch i pos pBuf a r =
     (case r of
        None \<Rightarrow> None
      | Some (th, out) \<Rightarrow>
          if pos + length out > length pBuf then None
          else Some (AEWF_OK, overwrite pos out pBuf, upd_thread i (\<lambda>_. th\<lparr>th_Launched := True\<rparr>) a))"

text \<open>Where no thread is idle nothing is read, and the chunk is not reported as read.\<close>

definition AewfReadChunkMT0 ::
  "aewf_env \<Rightarrow> t_aewf \<Rightarrow> nat \<Rightarrow> nat \<Rightarrow> nat \<Rightarrow> bytes \<Rightarrow> nat \<Rightarrow> nat \<Rightarrow> nat \<Rightarrow> (int \<times> bytes \<times> t_aewf) option" where
  "AewfReadChunkMT0 env a t AbsoluteChunk TableChunk pBuf pos Ofs Len =
     (let tb = ae_pTableArr a ! t; k = tb_pSegment tb in
      case tb_pEwfTable tb of
        None \<Rightarrow> Some (AEWF_ERROR_EWF_TABLE_NOT_READY, pBuf, a)
      | Some ewf \<Rightarrow>
      (case sg_pFile (ae_pSegmentArr a ! k) of
        None \<Rightarrow> Some (AEWF_ERROR_EWF_SEGMENT_NOT_READY, pBuf, a)
      | Some f \<Rightarrow>
      (case aewf_place tb ewf TableChunk of
        None \<Rightarrow> None
      | Some (Compressed, SeekPos, ReadLen) \<Rightarrow>
          if ReadLen > ae_ChunkBuffSize a then Some (AEWF_CHUNK_TOO_BIG, pBuf, a)
          else
            (case first_index (\<lambda>th. \<not> th_Launched th) 0 (ae_pThreadArr a) of
               None \<Rightarrow> Some (AEWF_OK, pBuf, a)
             | Some i \<Rightarrow>
                 let th = (ae_pThreadArr a ! i)\<lparr>th_ChunkBuffUncompressedDataLen := aewf_chunk_size a AbsoluteChunk,
                       th_ChunkInBuff := AbsoluteChunk, th_Len := Len\<rparr> in
                 case ReadFilePos f ReadLen SeekPos of (rc, b, f1) \<Rightarrow>
                   let a1 = upd_thread i (\<lambda>_. th) (upd_seg k (\<lambda>s. s\<lparr>sg_pFile := Some f1\<rparr>) a) in
                   if Compressed then
                     if rc \<noteq> AEWF_OK then Some (rc, pBuf, a1)
                     else thread_launch i pos pBuf a1 (AewfThreadUncompress env (ae_ChunkBuffSize a) b Ofs th)
                   else
                     (case store_at_start b (th_pChunkBuffUncompressed th) of
                        None \<Rightarrow> None
                      | Some mem \<Rightarrow>
                          let th1 = th\<lparr>th_pChunkBuffUncompressed := mem\<rparr> in
                          if rc \<noteq> AEWF_OK then Some (rc, pBuf, upd_thread i (\<lambda>_. th1) a1)
                          else thread_launch i pos pBuf a1 (AewfThreadCRC env Ofs th1))))))"

definition AewfReadChunkMT ::
  "aewf_env \<Rightarrow> t_aewf \<Rightarrow> nat \<Rightarrow> bytes \<Rightarrow> nat \<Rightarrow> nat \<Rightarrow> nat \<Rightarrow> (int \<times> bytes \<times> t_aewf) option" where
  "AewfReadChunkMT env a AbsoluteChunk pBuf pos Ofs Len =
     (case first_index (\<lambda>th. th_ChunkInBuff th = AbsoluteChunk) 0 (ae_pThreadArr a) of
        Some i \<Rightarrow> thread_launch i pos pBuf a (AewfThreadCopy Ofs ((ae_pThreadArr a ! i)\<lparr>th_Len := Len\<rparr>))
      | None \<Rightarrow>
          (case aewf_prepare env a AbsoluteChunk of (rc, t, a1) \<Rightarrow>
             if rc \<noteq> AEWF_OK then Some (rc, pBuf, a1)
             else AewfReadChunkMT0 env a1 t AbsoluteChunk
                    (sub64 AbsoluteChunk (tb_ChunkFrom (ae_pTableArr a1 ! t))) pBuf pos Ofs Len))"

text \<open>The first loop of \<open>AewfReadMT0\<close>: the result is \<open>RcRead\<close>, the buffer and the handle.\<close>

partial_function (option) AewfReadMT0_loop ::
  "aewf_env \<Rightarrow> t_aewf \<Rightarrow> nat \<Rightarrow> bytes \<Rightarrow> nat \<Rightarrow> nat \<Rightarrow> nat \<Rightarrow> (int \<times> bytes \<times> t_aewf) option" where
  "AewfReadMT0_loop env a AbsoluteChunk pBuf pos Ofs Remaining =
     (if Remaining = 0 then Some (AEWF_OK, pBuf, a)
      else
        let Len = min (sub64 (ae_ChunkSize a) Ofs) Remaining in
        case AewfReadChunkMT env a AbsoluteChunk pBuf pos Ofs Len of
          None \<Rightarrow> None
        | Some (rc, pBuf1, a1) \<Rightarrow>
            if rc \<noteq> AEWF_OK then Some (rc, pBuf1, a1)
            else AewfReadMT0_loop env a1 (u64 (AbsoluteChunk + 1)) pBuf1 (pos + Len) 0 (Remaining - Len))"

text \<open>The second loop waits for the threads: the last error code and the number of bytes.\<close>

fun AewfReadMT0_join :: "t_aewf_thread list \<Rightarrow> int \<Rightarrow> nat \<Rightarrow> int \<times> nat" where
  "AewfReadMT0_join [] RcThread Read = (RcThread, Read)"
| "AewfReadMT0_join (th # ths) RcThread Read =
     (if th_Launched th
      then AewfReadMT0_join ths (if th_ReturnCode th \<noteq> 0 then th_ReturnCode th else RcThread) (Read + th_Len th)
      else AewfReadMT0_join ths RcThread Read)"

text \<open>With nothing to read \<open>RcRead\<close> is used without a value.\<close>

definition AewfReadMT0 ::
  "aewf_env \<Rightarrow> t_aewf \<Rightarrow> bytes \<Rightarrow> nat \<Rightarrow> nat \<Rightarrow> nat \<Rightarrow> (int \<times> bytes \<times> nat \<times> t_aewf) option" where
  "AewfReadMT0 env a pBuf pos Seek64 Count =
     (if ae_ChunkSize a = 0 \<or> Count = 0 then None
      else case AewfReadMT0_loop env a (Seek64 div ae_ChunkSize a) pBuf pos (Seek64 mod ae_ChunkSize a) Count of
        None \<Rightarrow> None
      | Some (RcRead, pBuf1, a1) \<Rightarrow>
          (case AewfReadMT0_join (ae_pThreadArr a1) 0 0 of (RcThread, Read) \<Rightarrow>
             let a2 = a1\<lparr>ae_pThreadArr := map (\<lambda>th. th\<lparr>th_Launched := False\<rparr>) (ae_pThreadArr a1)\<rparr> in
             Some (if RcRead \<noteq> AEWF_OK then RcRead else RcThread, pBuf1, Read, a2)))"

partial_function (option) AewfReadMT_loop ::
  "aewf_env \<Rightarrow> t_aewf \<Rightarrow> bytes \<Rightarrow> nat \<Rightarrow> nat \<Rightarrow> nat \<Rightarrow> (int \<times> bytes \<times> nat \<times> t_aewf) option" where
  "AewfReadMT_loop env a pBuf Seek64 Count Read =
     (if Count = 0 then Some (AEWF_OK, pBuf, Read, a)
      else case AewfReadMT0 env a pBuf Read Seek64 (min (u64 (ae_Threads a * ae_ChunkSize a)) Count) of
        None \<Rightarrow> None
      | Some (rc, pBuf1, k, a1) \<Rightarrow>
          if rc \<noteq> AEWF_OK then Some (rc, pBuf1, Read, a1)
          else AewfReadMT_loop env a1 pBuf1 (u64 (Seek64 + k)) (sub64 Count k) (Read + k))"

definition AewfReadMT ::
  "aewf_env \<Rightarrow> t_aewf \<Rightarrow> bytes \<Rightarrow> nat \<Rightarrow> nat \<Rightarrow> (int \<times> bytes \<times> nat \<times> t_aewf) option" where
  "AewfReadMT env a pBuf Seek64 Count = AewfReadMT_loop env a pBuf Seek64 Count 0"

section \<open>Size and Read\<close>

definition AewfSize :: "t_aewf \<Rightarrow> int \<times> nat" where
  "AewfSize a = (AEWF_OK, ae_ImageSize a)"

text \<open>What the reading functions return is replaced by \<open>AEWF_OK\<close>.\<close>

definition AewfRead :: "aewf_env \<Rightarrow> t_aewf \<Rightarrow> bytes \<Rightarrow> nat \<Rightarrow> nat \<Rightarrow> (read_res \<times> t_aewf) option" where
  "AewfRead env a pBuf Seek Count =
     (let result = (\<lambda>rc buf read. \<lparr>rr_ret = rc, rr_buf = buf, rr_read = read, rr_errno = AewfCheckError rc\<rparr>) in
      if Seek \<ge> 2 ^ 63 then Some (result AEWF_NEGATIVE_SEEK pBuf 0, a)
      else if Seek \<ge> ae_ImageSize a then Some (result AEWF_OK pBuf 0, a)
      else
        let Count1 = (if u64 (Seek + Count) > ae_ImageSize a then sub64 (ae_ImageSize a) Seek else Count) in
        case (if ae_Threads a = 1 then AewfReadLegacy env a pBuf Seek Count1
              else AewfReadMT env a pBuf Seek Count1) of
          None \<Rightarrow> None
        | Some (rc, buf, read, a1) \<Rightarrow> Some (result AEWF_OK buf read, a1))"

section \<open>Open\<close>

definition zero_segment :: t_segment where
  "zero_segment = \<lparr>sg_pName = [], sg_Number = 0, sg_pFile = None, sg_FileSize = 0, sg_LastUsed = 0\<rparr>"

text \<open>The array of segments: \<open>segs\<close> are the ones done. A name that \<open>realpath\<close> cannot
  resolve makes \<open>fopen\<close> get NULL.\<close>

fun AewfOpen_segments :: "aewf_env \<Rightarrow> string list \<Rightarrow> t_segment list \<Rightarrow> (int \<times> t_segment list) option" where
  "AewfOpen_segments env [] segs = Some (AEWF_OK, segs)"
| "AewfOpen_segments env (name # names) segs =
     (case ay_realpath env name of
        None \<Rightarrow> None
      | Some pName \<Rightarrow>
          let seg = zero_segment\<lparr>sg_pName := pName\<rparr>; leave = (\<lambda>rc s. Some (rc, segs @ s # replicate (length names) zero_segment)) in
          case OpenFile (ay_fs env) pName of (rc, pFile, FileSize) \<Rightarrow>
            if rc \<noteq> AEWF_OK then leave rc seg
            else case ReadFilePos (the pFile) sizeof_t_AewfFileHeader 0 of (rc, b, _) \<Rightarrow>
              let seg1 = seg\<lparr>sg_FileSize := FileSize\<rparr> in
              if rc \<noteq> AEWF_OK then leave rc seg1
              else if fh_Signature (dec_aewf_file_header b) \<noteq> AEWF_SIGNATURE then leave AEWF_BAD_FILE_SIGNATURE seg1
              else AewfOpen_segments env names
                     (segs @ [seg1\<lparr>sg_Number := fh_SegmentNumber (dec_aewf_file_header b)\<rparr>]))"

text \<open>\<open>qsort\<close>; equal numbers are refused by the check that follows.\<close>

definition AewfOpen_sort :: "t_segment list \<Rightarrow> t_segment list" where
  "AewfOpen_sort segs = sort_key sg_Number segs"

fun AewfOpen_numbers :: "nat \<Rightarrow> nat option \<Rightarrow> t_segment list \<Rightarrow> int" where
  "AewfOpen_numbers i prev [] = AEWF_OK"
| "AewfOpen_numbers i prev (s # segs) =
     (if prev = Some (sg_Number s) then AEWF_DUPLICATE_SEGMENT_NUMBER
      else if sg_Number s \<noteq> i + 1 then AEWF_MISSING_SEGMENT_NUMBER
      else AewfOpen_numbers (i + 1) (Some (sg_Number s)) segs)"

text \<open>What the search for sections keeps besides the handle.\<close>

record aewf_scan =
  sc_pAewf :: t_aewf
  sc_pVolume :: "bytes option"
  sc_pHeader :: "bytes option"
  sc_pHeader2 :: "bytes option"
  sc_pMD5 :: "bytes option"
  sc_SectionSectorsPos :: nat
  sc_SectionSectorsSize :: nat

text \<open>\<open>strcasecmp\<close> of the type with a lower-case name.\<close>

definition type_is :: "t_aewf_section \<Rightarrow> string \<Rightarrow> bool" where
  "type_is se name \<longleftrightarrow> map byte_lower (c_string (se_Type se)) = string_bytes name"

text \<open>The length of a header section's data.\<close>

definition section_header ::
  "aewf_env \<Rightarrow> t_aewf_section \<Rightarrow> bytes option \<Rightarrow> cfile \<Rightarrow> int \<times> bytes option \<times> cfile" where
  "section_header env se hdr f =
     (if se_Size se \<le> sizeof_t_AewfSection then (AEWF_SECTION_HEADER_WRONG_SIZE, hdr, f)
      else if hdr \<noteq> None then (AEWF_OK, hdr, f)
      else if se_Size se - sizeof_t_AewfSection > AEWF_MAX_HEADER_LEN then (AEWF_SECTION_HEADER_WRONG_SIZE, hdr, f)
      else ReadFileAlloc env f (se_Size se - sizeof_t_AewfSection))"

definition section_table ::
  "aewf_env \<Rightarrow> nat \<Rightarrow> nat \<Rightarrow> t_aewf_section \<Rightarrow> cfile \<Rightarrow> aewf_scan \<Rightarrow> int \<times> cfile \<times> aewf_scan" where
  "section_table env i Pos se f sc =
     (if sc_pVolume sc = None then (AEWF_VOLUME_MUST_PRECEDE_TABLES, f, sc)
      else if sc_SectionSectorsSize sc = 0 then (AEWF_SECTORS_MUST_PRECEDE_TABLES, f, sc)
      else if se_Size se < sizeof_t_AewfSection + sizeof_t_AewfSectionTable then (AEWF_SECTION_TABLE_WRONG_SIZE, f, sc)
      else case ReadFileAlloc env f sizeof_t_AewfSectionTable of (rc, mem, f1) \<Rightarrow>
        if rc \<noteq> AEWF_OK then (rc, f1, sc)
        else if ewf_ChunkCount (the mem) = 0 then (AEWF_OK, f1, sc)
        else
          let a = sc_pAewf sc; n = ewf_ChunkCount (the mem); Chunks = u64 (ae_Chunks a + n);
              tb = \<lparr>tb_ChunkFrom = ae_Chunks a, tb_ChunkTo = sub64 Chunks 1, tb_pSegment = i,
                    tb_Offset = u64 (Pos + sizeof_t_AewfSection), tb_Size = se_Size se - sizeof_t_AewfSection,
                    tb_ChunkCount = n, tb_SectionSectorsPos = sc_SectionSectorsPos sc,
                    tb_SectionSectorsSize = u32 (sc_SectionSectorsSize sc), tb_LastUsed = 0, tb_pEwfTable = None\<rparr>;
              a1 = a\<lparr>ae_pTableArr := ae_pTableArr a @ [tb], ae_Chunks := Chunks,
                     ae_TotalTableSize := u64 (ae_TotalTableSize a + tb_Size tb)\<rparr>;
              sc1 = sc\<lparr>sc_pAewf := a1, sc_SectionSectorsPos := 0, sc_SectionSectorsSize := 0\<rparr>
          in if (tb_Size tb - sizeof_t_AewfSectionTable) div 4 < n then (AEWF_SECTION_TABLE_WRONG_SIZE, f1, sc1)
             else if u64 (tb_Offset tb + tb_Size tb) > sg_FileSize (ae_pSegmentArr a ! i)
             then (AEWF_SECTION_TABLE_BEYOND_EOF, f1, sc1)
             else (AEWF_OK, f1, sc1))"

definition section_volume ::
  "aewf_env \<Rightarrow> t_aewf_section \<Rightarrow> cfile \<Rightarrow> aewf_scan \<Rightarrow> int \<times> cfile \<times> aewf_scan" where
  "section_volume env se f sc =
     (if se_Size se < sizeof_t_AewfSection + sizeof_t_AewfSectionVolume then (AEWF_SECTION_VOLUME_WRONG_SIZE, f, sc)
      else case ReadFileAlloc env f sizeof_t_AewfSectionVolume of (rc, mem, f1) \<Rightarrow>
        if rc \<noteq> AEWF_OK then (rc, f1, sc)
        else
          let v = dec_aewf_volume (the mem) in
          (AEWF_OK, f1, sc\<lparr>sc_pVolume := mem, sc_pAewf := (sc_pAewf sc)
             \<lparr>ae_Sectors := vo_SectorCount v, ae_SectorSize := vo_BytesPerSector v,
              ae_ChunkSize := vo_SectorsPerChunk v * vo_BytesPerSector v,
              ae_ImageSize := u64 (vo_SectorCount v * vo_BytesPerSector v)\<rparr>\<rparr>))"

definition section_hash ::
  "aewf_env \<Rightarrow> t_aewf_section \<Rightarrow> cfile \<Rightarrow> aewf_scan \<Rightarrow> int \<times> cfile \<times> aewf_scan" where
  "section_hash env se f sc =
     (if se_Size se < sizeof_t_AewfSection + sizeof_t_AewfSectionHash then (AEWF_SECTION_HASH_WRONG_SIZE, f, sc)
      else case ReadFileAlloc env f sizeof_t_AewfSectionHash of (rc, mem, f1) \<Rightarrow> (rc, f1, sc\<lparr>sc_pMD5 := mem\<rparr>))"

text \<open>One section; those of other types are skipped.\<close>

definition AewfOpen_section ::
  "aewf_env \<Rightarrow> nat \<Rightarrow> nat \<Rightarrow> t_aewf_section \<Rightarrow> cfile \<Rightarrow> aewf_scan \<Rightarrow> int \<times> cfile \<times> aewf_scan" where
  "AewfOpen_section env i Pos se f sc =
     (if type_is se ''header'' then
        (case section_header env se (sc_pHeader sc) f of (rc, h, f1) \<Rightarrow> (rc, f1, sc\<lparr>sc_pHeader := h\<rparr>))
      else if type_is se ''header2'' then
        (case section_header env se (sc_pHeader2 sc) f of (rc, h, f1) \<Rightarrow> (rc, f1, sc\<lparr>sc_pHeader2 := h\<rparr>))
      else if type_is se ''sectors'' then
        if se_Size se < sizeof_t_AewfSection then (AEWF_SECTION_SECTORS_WRONG_SIZE, f, sc)
        else (AEWF_OK, f, sc\<lparr>sc_SectionSectorsPos := Pos, sc_SectionSectorsSize := se_Size se\<rparr>)
      else if type_is se ''table'' then section_table env i Pos se f sc
      else if (type_is se ''volume'' \<or> type_is se ''disk'' \<or> type_is se ''data'') \<and> sc_pVolume sc = None
      then section_volume env se f sc
      else if type_is se ''hash'' then section_hash env se f sc
      else (AEWF_OK, f, sc))"

text \<open>The chain of sections of the segment \<open>i\<close>; \<open>n\<close> counts them.\<close>

function AewfOpen_sections ::
  "aewf_env \<Rightarrow> nat \<Rightarrow> nat \<Rightarrow> nat \<Rightarrow> cfile \<Rightarrow> aewf_scan \<Rightarrow> int \<times> aewf_scan" where
  "AewfOpen_sections env i n Pos f sc =
     (if n + 1 > AEWF_MAX_SECTION_COUNT then (AEWF_TOO_MANY_SECTIONS, sc)
      else case ReadFilePos f sizeof_t_AewfSection Pos of (rc, b, f1) \<Rightarrow>
        if rc \<noteq> AEWF_OK then (rc, sc)
        else
          let se = dec_aewf_section b; nxt = se_OffsetNextSection se in
          if u64 (Pos + se_Size se) > sg_FileSize (ae_pSegmentArr (sc_pAewf sc) ! i) then (AEWF_SECTION_BEYOND_EOF, sc)
          else case AewfOpen_section env i Pos se f1 sc of (rc, f2, sc1) \<Rightarrow>
            if rc \<noteq> AEWF_OK then (rc, sc1)
            else if Pos = nxt \<or> Pos = 0 then (AEWF_OK, sc1)
            else if nxt \<le> Pos \<or> nxt - Pos < se_Size se then (AEWF_SECTION_STARTPOS_ERROR, sc1)
            else AewfOpen_sections env i (n + 1) nxt f2 sc1)"
  by pat_completeness auto
termination
  by (relation "measure (\<lambda>(_, _, n, _). AEWF_MAX_SECTION_COUNT - n)") auto

declare AewfOpen_sections.simps [simp del]

fun AewfOpen_tables :: "aewf_env \<Rightarrow> nat list \<Rightarrow> aewf_scan \<Rightarrow> int \<times> aewf_scan" where
  "AewfOpen_tables env [] sc = (AEWF_OK, sc)"
| "AewfOpen_tables env (i # is) sc =
     (let seg = ae_pSegmentArr (sc_pAewf sc) ! i in
      case OpenFile (ay_fs env) (sg_pName seg) of (rc, pFile, FileSize) \<Rightarrow>
        if rc \<noteq> AEWF_OK then (rc, sc)
        else if FileSize \<noteq> sg_FileSize seg then (AEWF_FILESIZE_CHANGED, sc)
        else case ReadFilePos (the pFile) sizeof_t_AewfFileHeader 0 of (rc, _, f) \<Rightarrow>
          if rc \<noteq> AEWF_OK then (rc, sc)
          else case AewfOpen_sections env i 0 sizeof_t_AewfFileHeader f sc of (rc, sc1) \<Rightarrow>
            if rc \<noteq> AEWF_OK then (rc, sc1) else AewfOpen_tables env is sc1)"

definition AewfOpen_limits :: "aewf_scan \<Rightarrow> int" where
  "AewfOpen_limits sc =
     (let a = sc_pAewf sc in
      case sc_pVolume sc of
        None \<Rightarrow> AEWF_VOLUME_MISSING
      | Some v \<Rightarrow>
          if ae_Chunks a \<noteq> vo_ChunkCount (dec_aewf_volume v) then AEWF_WRONG_CHUNK_COUNT
          else if ae_Sectors a = 0 then AEWF_ZERO_SECTORS
          else if ae_SectorSize a = 0 \<or> ae_SectorSize a > AEWF_MAX_SECTOR_SIZE then AEWF_INVALID_SECTOR_SIZE
          else if ae_ChunkSize a = 0 \<or> ae_ChunkSize a > AEWF_MAX_CHUNK_SIZE then AEWF_INVALID_CHUNK_SIZE
          else if ae_ImageSize a = 0 then AEWF_ZERO_IMAGE_SIZE
          else if ae_pTableArr a = [] \<or> length (ae_pTableArr a) > AEWF_MAX_TABLES then AEWF_NUMBER_OF_TABLES
          else AEWF_OK)"

text \<open>The info text. A second header with 16-bit characters is preferred.\<close>

definition CreateInfoData :: "aewf_env \<Rightarrow> aewf_scan \<Rightarrow> (int \<times> string option) option" where
  "CreateInfoData env sc =
     (let a = sc_pAewf sc;
          done_with = (\<lambda>pInfo3. Some (AEWF_OK, Some (info_text (ay_gib env) (ae_ImageSize a) (the (sc_pVolume sc)) pInfo3
            (map sg_pName (ae_pSegmentArr a)) (length (ae_pTableArr a)) (sc_pMD5 sc)))) in
      case (if sc_pHeader2 sc \<noteq> None then sc_pHeader2 sc else sc_pHeader sc) of
        None \<Rightarrow> done_with None
      | Some pHdr \<Rightarrow>
          (case ay_uncompress env pHdr 65536 of (zrc, pText) \<Rightarrow>
             if zrc \<noteq> Z_OK then Some (AEWF_UNCOMPRESS_HEADER_FAILED, None)
             else
               (case info_header (ay_wcstombs env) (ay_strftime env) (sc_pHeader2 sc \<noteq> None) pText of
                  None \<Rightarrow> None
                | Some pInfo3 \<Rightarrow> done_with pInfo3)))"

definition new_thread :: "aewf_env \<Rightarrow> nat \<Rightarrow> t_aewf_thread" where
  "new_thread env ChunkBuffSize =
     \<lparr>th_Launched = False, th_pChunkBuffUncompressed = fresh_mem env ChunkBuffSize,
      th_ChunkBuffUncompressedDataLen = 0, th_ChunkInBuff = AEWF_NONE, th_Len = 0, th_ReturnCode = 0\<rparr>"

text \<open>The buffers, the info text and the threads.\<close>

definition AewfOpen_finish :: "aewf_env \<Rightarrow> aewf_scan \<Rightarrow> (int \<times> t_aewf) option" where
  "AewfOpen_finish env sc =
     (let a = sc_pAewf sc; size = u32 (ae_ChunkSize a + 4096);
          a1 = a\<lparr>ae_ChunkBuffSize := size, ae_pChunkBuffUncompressed := fresh_mem env size,
                 ae_TableCache := 0, ae_OpenSegments := 0\<rparr> in
      case CreateInfoData env (sc\<lparr>sc_pAewf := a1\<rparr>) of
        None \<Rightarrow> None
      | Some (rc, info) \<Rightarrow>
          if rc \<noteq> AEWF_OK then Some (rc, a1)
          else Some (AEWF_OK, a1\<lparr>ae_pInfo := info,
                 ae_pThreadArr := (if ae_Threads a > 1 then replicate (ae_Threads a) (new_thread env size) else [])\<rparr>))"

definition AewfOpen :: "aewf_env \<Rightarrow> t_aewf \<Rightarrow> string list \<Rightarrow> (int \<times> t_aewf) option" where
  "AewfOpen env a names =
     (if ae_Open a then Some (AEWF_ALREADY_OPEN, a)
      else
        let a1 = (AewfInitHandle a)\<lparr>ae_Open := True\<rparr> in
        case AewfOpen_segments env names [] of
          None \<Rightarrow> None
        | Some (rc, segs) \<Rightarrow>
            if rc \<noteq> AEWF_OK then Some (rc, a1\<lparr>ae_pSegmentArr := segs\<rparr>)
            else
              let segs1 = AewfOpen_sort segs; a2 = a1\<lparr>ae_pSegmentArr := segs1\<rparr>; rc = AewfOpen_numbers 0 None segs1 in
              if rc \<noteq> AEWF_OK then Some (rc, a2)
              else case AewfOpen_tables env [0..<length segs1]
                  \<lparr>sc_pAewf = a2\<lparr>ae_pTableArr := [], ae_Chunks := 0, ae_TotalTableSize := 0\<rparr>, sc_pVolume = None,
                   sc_pHeader = None, sc_pHeader2 = None, sc_pMD5 = None, sc_SectionSectorsPos = 0,
                   sc_SectionSectorsSize = 0\<rparr> of (rc, sc) \<Rightarrow>
                if rc \<noteq> AEWF_OK then Some (rc, sc_pAewf sc)
                else if AewfOpen_limits sc \<noteq> AEWF_OK then Some (AewfOpen_limits sc, sc_pAewf sc)
                else AewfOpen_finish env sc)"

section \<open>Close\<close>

text \<open>A thread that is still running stops the call behind the buffers freed so far.\<close>

fun AewfClose_threads :: "t_aewf_thread list \<Rightarrow> t_aewf_thread list option" where
  "AewfClose_threads [] = None"
| "AewfClose_threads (th # ths) =
     (if th_Launched th then Some (th # ths)
      else map_option (\<lambda>ths'. th\<lparr>th_pChunkBuffUncompressed := []\<rparr> # ths') (AewfClose_threads ths))"

definition AewfClose :: "t_aewf \<Rightarrow> int \<times> t_aewf" where
  "AewfClose a =
     (if \<not> ae_Open a then (AEWF_NOT_OPEN, a)
      else case AewfClose_threads (ae_pThreadArr a) of
        Some ths \<Rightarrow> (AEWF_THREADS_STILL_RUNNING, a\<lparr>ae_pThreadArr := ths\<rparr>)
      | None \<Rightarrow>
          (AEWF_OK, a\<lparr>ae_pThreadArr := [], ae_pTableArr := [], ae_pSegmentArr := [],
                      ae_pChunkBuffUncompressed := [], ae_pInfo := None, ae_Open := False\<rparr>))"

text \<open>The handle is freed; an open image is closed first.\<close>

definition AewfDestroyHandle :: "t_aewf \<Rightarrow> int" where
  "AewfDestroyHandle a = AEWF_OK"

section \<open>Options and messages\<close>

definition aewf_number_option :: "string \<Rightarrow> (nat \<Rightarrow> t_aewf \<Rightarrow> t_aewf) option" where
  "aewf_number_option key =
     (if key = ''aewfmaxfiles'' then Some (\<lambda>v a. a\<lparr>ae_MaxOpenSegments := v\<rparr>)
      else if key = ''aewfmaxmem'' then Some (\<lambda>v a. a\<lparr>ae_MaxTableCache := v\<rparr>)
      else if key = ''aewfrefresh'' then Some (\<lambda>v a. a\<lparr>ae_StatsRefresh := v\<rparr>)
      else if key = ''aewfthreads'' then Some (\<lambda>v a. a\<lparr>ae_Threads := u32 v\<rparr>)
      else None)"

text \<open>\<open>log_rc\<close> is the result of the test message. Numbers are stored but not marked as valid.\<close>

fun AewfOptionsParse ::
  "(string \<Rightarrow> string option) \<Rightarrow> (string \<Rightarrow> int) \<Rightarrow> t_aewf \<Rightarrow> lib_option list \<Rightarrow>
   int \<times> t_aewf \<times> lib_option list \<times> string option" where
  "AewfOptionsParse realpath log_rc a [] = (AEWF_OK, a, [], None)"
| "AewfOptionsParse realpath log_rc a (opt # opts) =
     (let fail = (\<lambda>a' text. (AEWF_OPTIONS_ERROR, a', opt # opts, Some text));
          go = (\<lambda>a' opt'. case AewfOptionsParse realpath log_rc a' opts of
                  (rc, a2, opts', e) \<Rightarrow> (rc, a2, opt' # opts', e)) in
      if lo_key opt = ''aewflog'' then
        (case realpath (lo_value opt) of
           None \<Rightarrow> fail (a\<lparr>ae_pLogPath := None\<rparr>) ''The given log path does not exist''
         | Some p \<Rightarrow>
             if log_rc p \<noteq> AEWF_OK then fail (a\<lparr>ae_pLogPath := Some p\<rparr>) ''Write test to log file failed''
             else go (a\<lparr>ae_pLogPath := Some p\<rparr>) (opt\<lparr>lo_valid := True\<rparr>))
      else if lo_key opt = ''aewfstats'' then
        (case realpath (lo_value opt) of
           None \<Rightarrow> fail (a\<lparr>ae_pStatsPath := None\<rparr>) ''The given stats path does not exist''
         | Some p \<Rightarrow> go (a\<lparr>ae_pStatsPath := Some p\<rparr>) (opt\<lparr>lo_valid := True\<rparr>))
      else
        (case aewf_number_option (lo_key opt) of
           None \<Rightarrow> go a opt
         | Some store \<Rightarrow>
             (case StrToUint64 (lo_value opt) of (v, ok) \<Rightarrow>
                if ok = 0 then fail (store v a) ''Error in option %s: Invalid value'' else go (store v a) opt)))"

text \<open>A copy of the text that \<open>AewfOpen\<close> has left.\<close>

definition AewfGetInfofileContent :: "t_aewf \<Rightarrow> int \<times> string option" where
  "AewfGetInfofileContent a = (AEWF_OK, ae_pInfo a)"

definition aewf_messages :: "(int \<times> string) list" where
  "aewf_messages =
     [(AEWF_OK, ''AEWF_OK''),
      (AEWF_MEMALLOC_FAILED, ''AEWF_MEMALLOC_FAILED''),
      (AEWF_READ_BEYOND_END_OF_IMAGE, ''AEWF_READ_BEYOND_END_OF_IMAGE''),
      (AEWF_OPTIONS_ERROR, ''AEWF_OPTIONS_ERROR''),
      (AEWF_CANNOT_OPEN_LOGFILE, ''AEWF_CANNOT_OPEN_LOGFILE''),
      (AEWF_FILE_OPEN_FAILED, ''AEWF_FILE_OPEN_FAILED''),
      (AEWF_FILE_CLOSE_FAILED, ''AEWF_FILE_CLOSE_FAILED''),
      (AEWF_FILE_SEEK_FAILED, ''AEWF_FILE_SEEK_FAILED''),
      (AEWF_FILE_READ_FAILED, ''AEWF_FILE_READ_FAILED''),
      (AEWF_READFILE_BAD_MEM, ''AEWF_READFILE_BAD_MEM''),
      (AEWF_BAD_FILE_SIGNATURE, ''Bad file signature. The file is not in EWF format.''),
      (AEWF_MISSING_SEGMENT_NUMBER, ''Missing segment number. The list of EWF segment files is incomplete. One or more segment numbers are missing.''),
      (AEWF_DUPLICATE_SEGMENT_NUMBER, ''Duplicate segment number. The list of EWF segment files contains duplicate segment numbers. Maybe you accidentally specified the segment files of more than just one EWF image.''),
      (AEWF_WRONG_SEGMENT_FILE_COUNT, ''AEWF_WRONG_SEGMENT_FILE_COUNT''),
      (AEWF_VOLUME_MUST_PRECEDE_TABLES, ''AEWF_VOLUME_MUST_PRECEDE_TABLES''),
      (AEWF_SECTORS_MUST_PRECEDE_TABLES, ''AEWF_SECTORS_MUST_PRECEDE_TABLES''),
      (AEWF_WRONG_CHUNK_COUNT, ''Wrong chunk count. Some segment files seem to be missing. Perhaps you specified .E01 instead of .E?? or the segment files continue beyond extension .EZZ.''),
      (AEWF_CHUNK_NOT_FOUND, ''AEWF_CHUNK_NOT_FOUND''),
      (AEWF_VOLUME_MISSING, ''AEWF_VOLUME_MISSING''),
      (AEWF_ERROR_EWF_TABLE_NOT_READY, ''AEWF_ERROR_EWF_TABLE_NOT_READY''),
      (AEWF_ERROR_EWF_SEGMENT_NOT_READY, ''AEWF_ERROR_EWF_SEGMENT_NOT_READY''),
      (AEWF_CHUNK_TOO_BIG, ''AEWF_CHUNK_TOO_BIG''),
      (AEWF_UNCOMPRESS_FAILED, ''AEWF_UNCOMPRESS_FAILED''),
      (AEWF_BAD_UNCOMPRESSED_LENGTH, ''AEWF_BAD_UNCOMPRESSED_LENGTH''),
      (AEWF_CHUNK_CRC_ERROR, ''AEWF_CHUNK_CRC_ERROR''),
      (AEWF_ERROR_IN_CHUNK_NUMBER, ''AEWF_ERROR_IN_CHUNK_NUMBER''),
      (AEWF_UNCOMPRESS_HEADER_FAILED, ''AEWF_UNCOMPRESS_HEADER_FAILED''),
      (AEWF_ASPRINTF_FAILED, ''AEWF_ASPRINTF_FAILED''),
      (AEWF_CHUNK_LENGTH_ZERO, ''AEWF_CHUNK_LENGTH_ZERO''),
      (AEWF_NEGATIVE_SEEK, ''AEWF_NEGATIVE_SEEK''),
      (AEWF_ERROR_EIO_END, ''AEWF_ERROR_EIO_END''),
      (AEWF_ERROR_PTHREAD, ''AEWF_ERROR_PTHREAD''),
      (AEWF_WRONG_CHUNK_CALCULATION, ''AEWF_WRONG_CHUNK_CALCULATION''),
      (AEWF_ZERO_SECTORS, ''AEWF_ZERO_SECTORS''),
      (AEWF_INVALID_SECTOR_SIZE, ''AEWF_INVALID_SECTOR_SIZE''),
      (AEWF_INVALID_CHUNK_SIZE, ''AEWF_INVALID_CHUNK_SIZE''),
      (AEWF_ZERO_IMAGE_SIZE, ''AEWF_ZERO_IMAGE_SIZE''),
      (AEWF_NUMBER_OF_TABLES, ''AEWF_NUMBER_OF_TABLES''),
      (AEWF_SECTION_STARTPOS_ERROR, ''AEWF_SECTION_STARTPOS_ERROR''),
      (AEWF_TOO_MANY_SECTIONS, ''AEWF_TOO_MANY_SECTIONS''),
      (AEWF_HANDLE_IS_NULL, ''AEWF_HANDLE_IS_NULL''),
      (AEWF_THREADS_STILL_RUNNING, ''AEWF_THREADS_STILL_RUNNING''),
      (AEWF_FILESIZE_CHANGED, ''AEWF_FILESIZE_CHANGED''),
      (AEWF_SECTION_BEYOND_EOF, ''AEWF_SECTION_BEYOND_EOF''),
      (AEWF_SECTION_SECTORS_WRONG_SIZE, ''AEWF_SECTION_SECTORS_WRONG_SIZE''),
      (AEWF_SECTION_TABLE_WRONG_SIZE, ''AEWF_SECTION_TABLE_WRONG_SIZE''),
      (AEWF_SECTION_TABLE_BEYOND_EOF, ''AEWF_SECTION_TABLE_BEYOND_EOF''),
      (AEWF_SECTION_HEADER_WRONG_SIZE, ''AEWF_SECTION_HEADER_WRONG_SIZE''),
      (AEWF_SECTION_VOLUME_WRONG_SIZE, ''AEWF_SECTION_VOLUME_WRONG_SIZE''),
      (AEWF_SECTION_HASH_WRONG_SIZE, ''AEWF_SECTION_HASH_WRONG_SIZE'')]"

definition AewfGetErrorMessage :: "int \<Rightarrow> string" where
  "AewfGetErrorMessage ErrNum =
     (case map_of aewf_messages ErrNum of Some m \<Rightarrow> m | None \<Rightarrow> ''Unknown error'')"

end
