(* ===== verification/InputAewfCache.thy ===== *)
theory InputAewfCache
  imports InputAewf
begin

text \<open>
  The caches of the EWF library: as long as the files do not change, the search for a chunk's table
  makes the table and its file available, changes nothing else, and keeps the limits that the
  options set: no more files open than allowed, no more bytes of tables than allowed, one of each
  excepted. The counters agree with what is open and loaded.
\<close>

section \<open>What the caches do not change\<close>

definition plain_seg :: "t_segment \<Rightarrow> t_segment" where
  "plain_seg s = s\<lparr>sg_pFile := None, sg_LastUsed := 0\<rparr>"

definition plain_table :: "t_table \<Rightarrow> t_table" where
  "plain_table t = t\<lparr>tb_LastUsed := 0, tb_pEwfTable := None\<rparr>"

text \<open>The handle without its caches.\<close>

definition aewf_plain :: "t_aewf \<Rightarrow> t_aewf" where
  "aewf_plain a = a\<lparr>ae_pSegmentArr := map plain_seg (ae_pSegmentArr a),
     ae_pTableArr := map plain_table (ae_pTableArr a), ae_TableCache := 0, ae_OpenSegments := 0, ae_Ticks := 0\<rparr>"

lemma plain_seg_simps [simp]:
  "sg_pName (plain_seg s) = sg_pName s" "sg_Number (plain_seg s) = sg_Number s" "sg_FileSize (plain_seg s) = sg_FileSize s"
  "plain_seg (s\<lparr>sg_pFile := f\<rparr>) = plain_seg s" "plain_seg (s\<lparr>sg_LastUsed := n\<rparr>) = plain_seg s"
  "plain_seg (plain_seg s) = plain_seg s"
  by (simp_all add: plain_seg_def)

lemma plain_table_simps [simp]:
  "tb_ChunkFrom (plain_table t) = tb_ChunkFrom t" "tb_ChunkTo (plain_table t) = tb_ChunkTo t"
  "tb_pSegment (plain_table t) = tb_pSegment t" "tb_Offset (plain_table t) = tb_Offset t"
  "tb_Size (plain_table t) = tb_Size t" "tb_ChunkCount (plain_table t) = tb_ChunkCount t"
  "tb_SectionSectorsPos (plain_table t) = tb_SectionSectorsPos t"
  "tb_SectionSectorsSize (plain_table t) = tb_SectionSectorsSize t"
  "plain_table (t\<lparr>tb_LastUsed := n\<rparr>) = plain_table t" "plain_table (t\<lparr>tb_pEwfTable := b\<rparr>) = plain_table t"
  "plain_table (plain_table t) = plain_table t"
  by (simp_all add: plain_table_def)

lemma map_update_same: "k < length xs \<Longrightarrow> g (f (xs ! k)) = g (xs ! k) \<Longrightarrow> map g (xs[k := f (xs ! k)]) = map g xs"
  by (metis list_update_id map_update nth_map)

lemma aewf_plain_seg:
  "\<forall>s. plain_seg (f s) = plain_seg s \<Longrightarrow> aewf_plain (upd_seg k f a) = aewf_plain a"
  by (cases "k < length (ae_pSegmentArr a)")
    (simp_all add: aewf_plain_def upd_seg_def map_update_same list_update_beyond)

lemma aewf_plain_table:
  "\<forall>t. plain_table (f t) = plain_table t \<Longrightarrow> aewf_plain (upd_table k f a) = aewf_plain a"
  by (cases "k < length (ae_pTableArr a)")
    (simp_all add: aewf_plain_def upd_table_def map_update_same list_update_beyond)

lemma aewf_plain_simps [simp]:
  "aewf_plain (a\<lparr>ae_OpenSegments := n\<rparr>) = aewf_plain a" "aewf_plain (a\<lparr>ae_TableCache := n\<rparr>) = aewf_plain a"
  "aewf_plain (a\<lparr>ae_Ticks := n\<rparr>) = aewf_plain a"
  by (simp_all add: aewf_plain_def)

text \<open>Equal handles without caches: what can be read off.\<close>

lemma aewf_plainD:
  assumes "aewf_plain a' = aewf_plain a"
  shows "map plain_seg (ae_pSegmentArr a') = map plain_seg (ae_pSegmentArr a)"
    "map plain_table (ae_pTableArr a') = map plain_table (ae_pTableArr a)"
    "length (ae_pSegmentArr a') = length (ae_pSegmentArr a)" "length (ae_pTableArr a') = length (ae_pTableArr a)"
    "ae_Chunks a' = ae_Chunks a" "ae_ChunkSize a' = ae_ChunkSize a" "ae_ImageSize a' = ae_ImageSize a"
    "ae_pChunkBuffUncompressed a' = ae_pChunkBuffUncompressed a"
    "ae_ChunkBuffUncompressedDataLen a' = ae_ChunkBuffUncompressedDataLen a"
    "ae_ChunkBuffSize a' = ae_ChunkBuffSize a" "ae_ChunkInBuff a' = ae_ChunkInBuff a"
    "ae_pThreadArr a' = ae_pThreadArr a" "ae_MaxTableCache a' = ae_MaxTableCache a"
    "ae_MaxOpenSegments a' = ae_MaxOpenSegments a" "ae_Threads a' = ae_Threads a"
proof -
  note e = assms [unfolded aewf_plain_def]
  show seg: "map plain_seg (ae_pSegmentArr a') = map plain_seg (ae_pSegmentArr a)"
    using arg_cong [OF e, of ae_pSegmentArr] by simp
  show tab: "map plain_table (ae_pTableArr a') = map plain_table (ae_pTableArr a)"
    using arg_cong [OF e, of ae_pTableArr] by simp
  show "length (ae_pSegmentArr a') = length (ae_pSegmentArr a)" using arg_cong [OF seg, of length] by simp
  show "length (ae_pTableArr a') = length (ae_pTableArr a)" using arg_cong [OF tab, of length] by simp
  show "ae_Chunks a' = ae_Chunks a" using arg_cong [OF e, of ae_Chunks] by simp
  show "ae_ChunkSize a' = ae_ChunkSize a" using arg_cong [OF e, of ae_ChunkSize] by simp
  show "ae_ImageSize a' = ae_ImageSize a" using arg_cong [OF e, of ae_ImageSize] by simp
  show "ae_pChunkBuffUncompressed a' = ae_pChunkBuffUncompressed a"
    using arg_cong [OF e, of ae_pChunkBuffUncompressed] by simp
  show "ae_ChunkBuffUncompressedDataLen a' = ae_ChunkBuffUncompressedDataLen a"
    using arg_cong [OF e, of ae_ChunkBuffUncompressedDataLen] by simp
  show "ae_ChunkBuffSize a' = ae_ChunkBuffSize a" using arg_cong [OF e, of ae_ChunkBuffSize] by simp
  show "ae_ChunkInBuff a' = ae_ChunkInBuff a" using arg_cong [OF e, of ae_ChunkInBuff] by simp
  show "ae_pThreadArr a' = ae_pThreadArr a" using arg_cong [OF e, of ae_pThreadArr] by simp
  show "ae_MaxTableCache a' = ae_MaxTableCache a" using arg_cong [OF e, of ae_MaxTableCache] by simp
  show "ae_MaxOpenSegments a' = ae_MaxOpenSegments a" using arg_cong [OF e, of ae_MaxOpenSegments] by simp
  show "ae_Threads a' = ae_Threads a" using arg_cong [OF e, of ae_Threads] by simp
qed

lemma nth_map_eq: "map f xs = map f ys \<Longrightarrow> k < length ys \<Longrightarrow> f (xs ! k) = f (ys ! k)"
  by (metis length_map nth_map)

lemma plain_table_nth:
  assumes "aewf_plain a' = aewf_plain a" "k < length (ae_pTableArr a)"
  shows "plain_table (ae_pTableArr a' ! k) = plain_table (ae_pTableArr a ! k)"
  using nth_map_eq [OF aewf_plainD(2) [OF assms(1)] assms(2)] .

lemma plain_seg_nth:
  assumes "aewf_plain a' = aewf_plain a" "k < length (ae_pSegmentArr a)"
  shows "plain_seg (ae_pSegmentArr a' ! k) = plain_seg (ae_pSegmentArr a ! k)"
  using nth_map_eq [OF aewf_plainD(1) [OF assms(1)] assms(2)] .

section \<open>The invariant of the caches\<close>

definition seg_data :: "aewf_env \<Rightarrow> t_segment \<Rightarrow> bytes" where
  "seg_data env s = the (ay_fs env (sg_pName s))"

text \<open>An open file has the contents that the file system has, and the size it had before.\<close>

definition seg_ok :: "aewf_env \<Rightarrow> t_segment \<Rightarrow> bool" where
  "seg_ok env s \<longleftrightarrow> ay_fs env (sg_pName s) \<noteq> None \<and> sg_FileSize s = length (seg_data env s) \<and>
     length (seg_data env s) < 2 ^ 63 \<and>
     (case sg_pFile s of None \<Rightarrow> True | Some f \<Rightarrow> f_data f = seg_data env s)"

text \<open>A table lies in its file and has room for its offsets; a loaded table is what stands there.\<close>

definition table_bytes :: "aewf_env \<Rightarrow> t_aewf \<Rightarrow> t_table \<Rightarrow> bytes" where
  "table_bytes env a t = segment (tb_Offset t) (tb_Size t) (seg_data env (ae_pSegmentArr a ! tb_pSegment t))"

definition table_ok :: "aewf_env \<Rightarrow> t_aewf \<Rightarrow> t_table \<Rightarrow> bool" where
  "table_ok env a t \<longleftrightarrow> tb_pSegment t < length (ae_pSegmentArr a) \<and> 28 \<le> tb_Size t \<and>
     tb_ChunkCount t \<le> (tb_Size t - 28) div 4 \<and> 0 < tb_ChunkCount t \<and> tb_ChunkCount t < 2 ^ 32 \<and>
     tb_ChunkTo t + 1 = tb_ChunkFrom t + tb_ChunkCount t \<and>
     tb_Offset t + tb_Size t \<le> length (seg_data env (ae_pSegmentArr a ! tb_pSegment t)) \<and>
     (case tb_pEwfTable t of None \<Rightarrow> True | Some b \<Rightarrow> b = table_bytes env a t)"

definition seg_open :: "t_segment \<Rightarrow> bool" where "seg_open s \<longleftrightarrow> sg_pFile s \<noteq> None"
definition loaded_size :: "t_table \<Rightarrow> nat" where "loaded_size t = (if tb_pEwfTable t = None then 0 else tb_Size t)"
definition tables_loaded :: "t_aewf \<Rightarrow> nat" where
  "tables_loaded a = length (filter (\<lambda>t. tb_pEwfTable t \<noteq> None) (ae_pTableArr a))"

definition aewf_caches :: "aewf_env \<Rightarrow> t_aewf \<Rightarrow> bool" where
  "aewf_caches env a \<longleftrightarrow>
     (\<forall>s \<in> set (ae_pSegmentArr a). seg_ok env s) \<and> (\<forall>t \<in> set (ae_pTableArr a). table_ok env a t) \<and>
     length (ae_pSegmentArr a) < 2 ^ 16 \<and> sum_list (map tb_Size (ae_pTableArr a)) < 2 ^ 64 \<and>
     ae_OpenSegments a = length (filter seg_open (ae_pSegmentArr a)) \<and>
     ae_TableCache a = sum_list (map loaded_size (ae_pTableArr a))"

text \<open>The limits.\<close>

definition aewf_limits :: "t_aewf \<Rightarrow> bool" where
  "aewf_limits a \<longleftrightarrow> ae_OpenSegments a \<le> max 1 (ae_MaxOpenSegments a) \<and>
     (ae_TableCache a \<le> ae_MaxTableCache a \<or> tables_loaded a \<le> 1)"

lemma seg_data_upd [simp]: "seg_data env (s\<lparr>sg_LastUsed := n\<rparr>) = seg_data env s" "seg_data env (s\<lparr>sg_pFile := f\<rparr>) = seg_data env s"
  by (simp_all add: seg_data_def)

lemma seg_data_plain: "seg_data env (plain_seg s) = seg_data env s"
  by (simp add: seg_data_def)

lemma seg_data_same:
  assumes "aewf_plain a' = aewf_plain a" "k < length (ae_pSegmentArr a)"
  shows "seg_data env (ae_pSegmentArr a' ! k) = seg_data env (ae_pSegmentArr a ! k)"
  using arg_cong [OF plain_seg_nth [OF assms], of "seg_data env"] by (simp add: seg_data_plain)

lemma table_ok_same:
  assumes "aewf_plain a' = aewf_plain a"
  shows "table_ok env a' t = table_ok env a t"
proof (cases "tb_pSegment t < length (ae_pSegmentArr a)")
  case True
  have tb: "table_bytes env a' t = table_bytes env a t" by (simp add: table_bytes_def seg_data_same [OF assms True])
  show ?thesis unfolding table_ok_def tb seg_data_same [OF assms True] aewf_plainD(3) [OF assms] ..
next
  case False
  then show ?thesis by (simp add: table_ok_def aewf_plainD(3) [OF assms])
qed

lemma count_update:
  "k < length xs \<Longrightarrow> length (filter P (xs[k := y])) + (if P (xs ! k) then 1 else 0) =
    length (filter P xs) + (if P y then 1 else 0)"
proof (induction xs arbitrary: k)
  case (Cons x xs)
  then show ?case by (cases k) auto
qed simp

lemma sum_update:
  fixes f :: "'a \<Rightarrow> nat"
  shows "k < length xs \<Longrightarrow> sum_list (map f (xs[k := y])) + f (xs ! k) = sum_list (map f xs) + f y"
proof (induction xs arbitrary: k)
  case (Cons x xs)
  then show ?case by (cases k) auto
qed simp

lemma set_update_ball:
  "\<forall>x \<in> set xs. P x \<Longrightarrow> P y \<Longrightarrow> \<forall>x \<in> set (xs[k := y]). P x"
  using set_update_subset_insert [of xs k y] by auto

lemma loaded_size_le: "sum_list (map loaded_size ts) \<le> sum_list (map tb_Size ts)"
  by (induction ts) (auto simp: loaded_size_def)

lemma oldest_None:
  "oldest in_use last_used i xs best = None \<Longrightarrow> best = None \<and> (\<forall>x \<in> set xs. \<not> in_use x)"
proof (induction xs arbitrary: i best)
  case (Cons x xs)
  from Cons.IH [OF Cons.prems [unfolded oldest.simps]] show ?case
    by (cases "in_use x"; cases best) (simp_all split: prod.splits if_splits)
qed simp

lemma oldest_segment_None: "oldest_segment a = None \<Longrightarrow> filter seg_open (ae_pSegmentArr a) = []"
  using oldest_None [of "\<lambda>s. sg_pFile s \<noteq> None" sg_LastUsed 0 "ae_pSegmentArr a" None]
  by (simp add: oldest_segment_def seg_open_def filter_empty_conv)

lemma oldest_table_None:
  "oldest_table a = None \<Longrightarrow> tables_loaded a = 0 \<and> sum_list (map loaded_size (ae_pTableArr a)) = 0"
  using oldest_None [of "\<lambda>t. tb_pEwfTable t \<noteq> None" tb_LastUsed 0 "ae_pTableArr a" None]
  by (simp add: oldest_table_def tables_loaded_def loaded_size_def filter_empty_conv)

lemma upd_seg_sel [simp]:
  "ae_pTableArr (upd_seg k f a) = ae_pTableArr a" "ae_TableCache (upd_seg k f a) = ae_TableCache a"
  "ae_OpenSegments (upd_seg k f a) = ae_OpenSegments a" "ae_MaxTableCache (upd_seg k f a) = ae_MaxTableCache a"
  "ae_MaxOpenSegments (upd_seg k f a) = ae_MaxOpenSegments a" "ae_Ticks (upd_seg k f a) = ae_Ticks a"
  "length (ae_pSegmentArr (upd_seg k f a)) = length (ae_pSegmentArr a)"
  by (simp_all add: upd_seg_def)

lemma upd_table_sel [simp]:
  "ae_pSegmentArr (upd_table k f a) = ae_pSegmentArr a" "ae_TableCache (upd_table k f a) = ae_TableCache a"
  "ae_OpenSegments (upd_table k f a) = ae_OpenSegments a" "ae_MaxTableCache (upd_table k f a) = ae_MaxTableCache a"
  "ae_MaxOpenSegments (upd_table k f a) = ae_MaxOpenSegments a" "ae_Ticks (upd_table k f a) = ae_Ticks a"
  "length (ae_pTableArr (upd_table k f a)) = length (ae_pTableArr a)"
  by (simp_all add: upd_table_def)

text \<open>Counting under the update of a segment or a table.\<close>

lemma caches_upd_seg:
  assumes c: "aewf_caches env a" and k: "k < length (ae_pSegmentArr a)"
    and f: "\<forall>s. plain_seg (f s) = plain_seg s" "seg_ok env (f (ae_pSegmentArr a ! k))"
    and n: "n + (if seg_open (ae_pSegmentArr a ! k) then 1 else 0) =
      ae_OpenSegments a + (if seg_open (f (ae_pSegmentArr a ! k)) then 1 else 0)"
  shows "aewf_caches env ((upd_seg k f a)\<lparr>ae_OpenSegments := n\<rparr>)"
proof -
  let ?a = "(upd_seg k f a)\<lparr>ae_OpenSegments := n\<rparr>"
  have p: "aewf_plain ?a = aewf_plain a" using aewf_plain_seg [OF f(1)] by simp
  note c' = c [unfolded aewf_caches_def]
  have seg: "ae_pSegmentArr ?a = (ae_pSegmentArr a)[k := f (ae_pSegmentArr a ! k)]" by (simp add: upd_seg_def)
  have 1: "\<forall>s \<in> set (ae_pSegmentArr ?a). seg_ok env s"
    unfolding seg by (rule set_update_ball) (use c' f(2) in simp_all)
  have o: "ae_OpenSegments a = length (filter seg_open (ae_pSegmentArr a))" using c' by (elim conjE)
  have 2: "n = length (filter seg_open (ae_pSegmentArr ?a))"
    using n count_update [OF k, of seg_open "f (ae_pSegmentArr a ! k)"] unfolding seg o by linarith
  show ?thesis
    unfolding aewf_caches_def table_ok_same [OF p]
    using c' 1 2 by simp
qed

lemma caches_upd_table:
  assumes c: "aewf_caches env a" and k: "k < length (ae_pTableArr a)"
    and f: "\<forall>t. plain_table (f t) = plain_table t" "table_ok env a (f (ae_pTableArr a ! k))"
    and n: "n + loaded_size (ae_pTableArr a ! k) = ae_TableCache a + loaded_size (f (ae_pTableArr a ! k))"
  shows "aewf_caches env ((upd_table k f a)\<lparr>ae_TableCache := n\<rparr>)"
proof -
  let ?a = "(upd_table k f a)\<lparr>ae_TableCache := n\<rparr>"
  have p: "aewf_plain ?a = aewf_plain a" using aewf_plain_table [OF f(1)] by simp
  note c' = c [unfolded aewf_caches_def]
  have tab: "ae_pTableArr ?a = (ae_pTableArr a)[k := f (ae_pTableArr a ! k)]" by (simp add: upd_table_def)
  have 1: "\<forall>t \<in> set (ae_pTableArr ?a). table_ok env a t"
    unfolding tab by (rule set_update_ball) (use c' f(2) in simp_all)
  have o: "ae_TableCache a = sum_list (map loaded_size (ae_pTableArr a))" using c' by (elim conjE)
  have 2: "n = sum_list (map loaded_size (ae_pTableArr ?a))"
    using n sum_update [OF k, of loaded_size "f (ae_pTableArr a ! k)"] unfolding tab o by linarith
  have "map tb_Size (map plain_table (ae_pTableArr ?a)) = map tb_Size (map plain_table (ae_pTableArr a))"
    by (simp only: aewf_plainD(2) [OF p])
  then have 3: "map tb_Size (ae_pTableArr ?a) = map tb_Size (ae_pTableArr a)" by (simp add: comp_def)
  show ?thesis
    unfolding aewf_caches_def table_ok_same [OF p] 3
    using c' 1 2 by simp
qed

section \<open>Opening files and loading tables\<close>

lemma AewfOpenSegment_close_ok:
  assumes "aewf_caches env a"
  shows "aewf_caches env (AewfOpenSegment_close a) \<and> aewf_plain (AewfOpenSegment_close a) = aewf_plain a \<and>
    ae_pTableArr (AewfOpenSegment_close a) = ae_pTableArr a \<and>
    ae_TableCache (AewfOpenSegment_close a) = ae_TableCache a \<and>
    (ae_OpenSegments (AewfOpenSegment_close a) < ae_MaxOpenSegments a \<or> ae_OpenSegments (AewfOpenSegment_close a) = 0) \<and>
    (\<forall>k. sg_pFile (ae_pSegmentArr a ! k) = None \<longrightarrow> sg_pFile (ae_pSegmentArr (AewfOpenSegment_close a) ! k) = None)"
  using assms
proof (induction a rule: AewfOpenSegment_close.induct)
  case (1 a)
  show ?case
  proof (cases "ae_MaxOpenSegments a \<le> ae_OpenSegments a \<and> oldest_segment a \<noteq> None")
    case False
    then have "AewfOpenSegment_close a = a" by (subst AewfOpenSegment_close.simps) (auto split: option.split)
    then show ?thesis
      using False 1(2) oldest_segment_None [of a] by (auto simp: aewf_caches_def)
  next
    case True
    then obtain k where k: "oldest_segment a = Some k" by auto
    define a1 where "a1 = (upd_seg k (\<lambda>s. s\<lparr>sg_pFile := None\<rparr>) a)\<lparr>ae_OpenSegments := sub64 (ae_OpenSegments a) 1\<rparr>"
    have rec: "AewfOpenSegment_close a = AewfOpenSegment_close a1"
      using True k by (subst AewfOpenSegment_close.simps) (simp add: a1_def)
    note kk = oldest_segmentD [OF k]
    have open1: "0 < ae_OpenSegments a" "ae_OpenSegments a < 2 ^ 16"
    proof -
      have "ae_pSegmentArr a ! k \<in> set (filter seg_open (ae_pSegmentArr a))" using kk by (simp add: seg_open_def)
      then have "filter seg_open (ae_pSegmentArr a) \<noteq> []" by (metis list.set(1) empty_iff)
      then show "0 < ae_OpenSegments a" using 1(2) by (simp add: aewf_caches_def)
      show "ae_OpenSegments a < 2 ^ 16"
        using 1(2) le_less_trans [OF length_filter_le [of seg_open "ae_pSegmentArr a"], of "2 ^ 16"]
        by (simp add: aewf_caches_def)
    qed
    have s: "sub64 (ae_OpenSegments a) 1 = ae_OpenSegments a - 1" using open1 by (simp add: sub64_small)
    have "seg_ok env (ae_pSegmentArr a ! k)" using 1(2) kk by (simp add: aewf_caches_def)
    then have "seg_ok env ((ae_pSegmentArr a ! k)\<lparr>sg_pFile := None\<rparr>)" by (simp add: seg_ok_def seg_data_def)
    then have c1: "aewf_caches env a1"
      unfolding a1_def by (intro caches_upd_seg [OF 1(2)]) (use kk open1(1) s in \<open>auto simp: seg_open_def\<close>)
    have p1: "aewf_plain a1 = aewf_plain a" by (simp add: a1_def aewf_plain_seg)
    have sel: "ae_pTableArr a1 = ae_pTableArr a" "ae_TableCache a1 = ae_TableCache a"
      "ae_MaxOpenSegments a1 = ae_MaxOpenSegments a"
      by (simp_all add: a1_def)
    have shut: "sg_pFile (ae_pSegmentArr a ! j) = None \<Longrightarrow> sg_pFile (ae_pSegmentArr a1 ! j) = None" for j
      using kk by (cases "j = k") (simp_all add: a1_def upd_seg_def)
    show ?thesis
      using 1(1) [OF _ k] True c1 unfolding rec a1_def [symmetric] by (simp add: p1 sel shut)
  qed
qed

lemma loaded_room:
  assumes "aewf_caches env a" "k < length (ae_pTableArr a)" "tb_pEwfTable (ae_pTableArr a ! k) = None"
  shows "ae_TableCache a + tb_Size (ae_pTableArr a ! k) < 2 ^ 64"
proof -
  let ?tb = "ae_pTableArr a ! k"
  have "sum_list (map loaded_size ((ae_pTableArr a)[k := ?tb\<lparr>tb_pEwfTable := Some []\<rparr>])) =
      sum_list (map loaded_size (ae_pTableArr a)) + tb_Size ?tb"
    using sum_update [OF assms(2), of loaded_size "?tb\<lparr>tb_pEwfTable := Some []\<rparr>"] assms(3)
    by (simp add: loaded_size_def)
  moreover have "sum_list (map tb_Size ((ae_pTableArr a)[k := ?tb\<lparr>tb_pEwfTable := Some []\<rparr>])) =
      sum_list (map tb_Size (ae_pTableArr a))"
    using sum_update [OF assms(2), of tb_Size "?tb\<lparr>tb_pEwfTable := Some []\<rparr>"] by simp
  moreover note loaded_size_le [of "(ae_pTableArr a)[k := ?tb\<lparr>tb_pEwfTable := Some []\<rparr>]"]
  ultimately show ?thesis using assms(1) by (simp add: aewf_caches_def)
qed

lemma AewfLoadEwfTable_release_ok:
  assumes "aewf_caches env a" "Size < 2 ^ 63"
  shows "aewf_caches env (AewfLoadEwfTable_release Size a) \<and>
    aewf_plain (AewfLoadEwfTable_release Size a) = aewf_plain a \<and>
    ae_pSegmentArr (AewfLoadEwfTable_release Size a) = ae_pSegmentArr a \<and>
    ae_OpenSegments (AewfLoadEwfTable_release Size a) = ae_OpenSegments a \<and>
    (u64 (ae_TableCache (AewfLoadEwfTable_release Size a) + Size) \<le> ae_MaxTableCache a \<or>
     tables_loaded (AewfLoadEwfTable_release Size a) = 0) \<and>
    (\<forall>k. tb_pEwfTable (ae_pTableArr a ! k) = None \<longrightarrow>
      tb_pEwfTable (ae_pTableArr (AewfLoadEwfTable_release Size a) ! k) = None)"
  using assms
proof (induction Size a rule: AewfLoadEwfTable_release.induct)
  case (1 Size a)
  show ?case
  proof (cases "u64 (ae_TableCache a + Size) > ae_MaxTableCache a \<and> oldest_table a \<noteq> None")
    case False
    then have "AewfLoadEwfTable_release Size a = a"
      by (subst AewfLoadEwfTable_release.simps) (auto split: option.split)
    then show ?thesis using False 1(2) oldest_table_None [of a] by auto
  next
    case True
    then obtain k where k: "oldest_table a = Some k" by auto
    let ?t = "ae_pTableArr a ! k"
    define a1 where "a1 = (upd_table k (\<lambda>t. t\<lparr>tb_pEwfTable := None\<rparr>) a)
      \<lparr>ae_TableCache := sub64 (ae_TableCache a) (tb_Size ?t)\<rparr>"
    have rec: "AewfLoadEwfTable_release Size a = AewfLoadEwfTable_release Size a1"
      using True k by (subst AewfLoadEwfTable_release.simps) (simp add: a1_def)
    note kk = oldest_tableD [OF k]
    have ld: "loaded_size ?t = tb_Size ?t" using kk by (auto simp: loaded_size_def)
    have "sum_list (map loaded_size (ae_pTableArr a)) \<ge> loaded_size ?t"
      using kk by (intro member_le_sum_list) auto
    then have le: "tb_Size ?t \<le> ae_TableCache a" using 1(2) ld by (simp add: aewf_caches_def)
    have "ae_TableCache a < 2 ^ 64"
      using 1(2) loaded_size_le [of "ae_pTableArr a"] by (simp add: aewf_caches_def)
    then have s: "sub64 (ae_TableCache a) (tb_Size ?t) = ae_TableCache a - tb_Size ?t" using le by (simp add: sub64_small)
    have "table_ok env a ?t" using 1(2) kk by (simp add: aewf_caches_def)
    then have "table_ok env a (?t\<lparr>tb_pEwfTable := None\<rparr>)" by (simp add: table_ok_def)
    then have c1: "aewf_caches env a1"
      unfolding a1_def by (intro caches_upd_table [OF 1(2)]) (use kk ld le s in \<open>auto simp: loaded_size_def\<close>)
    have p1: "aewf_plain a1 = aewf_plain a" by (simp add: a1_def aewf_plain_table)
    have sel: "ae_pSegmentArr a1 = ae_pSegmentArr a" "ae_OpenSegments a1 = ae_OpenSegments a"
      "ae_MaxTableCache a1 = ae_MaxTableCache a"
      by (simp_all add: a1_def)
    have shut: "tb_pEwfTable (ae_pTableArr a ! j) = None \<Longrightarrow> tb_pEwfTable (ae_pTableArr a1 ! j) = None" for j
      using kk by (cases "j = k") (simp_all add: a1_def upd_table_def)
    show ?thesis
      using 1(1) [OF _ k] True c1 1(3) unfolding rec a1_def [symmetric] by (simp add: p1 sel shut)
  qed
qed

text \<open>Opening the file of a table.\<close>

lemma seg_ok_same:
  assumes "aewf_caches env a" "k < length (ae_pSegmentArr a)"
  shows "seg_ok env (ae_pSegmentArr a ! k)"
  using assms by (simp add: aewf_caches_def)

lemma AewfOpenSegment_ok:
  assumes c: "aewf_caches env a" and t: "t < length (ae_pTableArr a)" and l: "ae_OpenSegments a \<le> max 1 (ae_MaxOpenSegments a)"
  defines "k \<equiv> tb_pSegment (ae_pTableArr a ! t)"
  shows "\<exists>a'. AewfOpenSegment env a t = (AEWF_OK, a') \<and> aewf_caches env a' \<and> aewf_plain a' = aewf_plain a \<and>
    ae_pTableArr a' = ae_pTableArr a \<and> ae_TableCache a' = ae_TableCache a \<and>
    sg_pFile (ae_pSegmentArr a' ! k) \<noteq> None \<and> ae_OpenSegments a' \<le> max 1 (ae_MaxOpenSegments a)"
proof (cases "sg_pFile (ae_pSegmentArr a ! k) = None")
  case False
  then show ?thesis using c l by (intro exI [of _ a]) (simp add: AewfOpenSegment_def k_def Let_def)
next
  case True
  let ?a = "AewfOpenSegment_close a"
  note cl = AewfOpenSegment_close_ok [OF c]
  have k: "k < length (ae_pSegmentArr a)" using c t by (simp add: aewf_caches_def table_ok_def k_def)
  have pl: "aewf_plain ?a = aewf_plain a" using cl by simp
  have k1: "k < length (ae_pSegmentArr ?a)" using k aewf_plainD(3) [OF pl] by simp
  let ?s = "ae_pSegmentArr ?a ! k"
  have shut: "sg_pFile ?s = None" using cl True by simp
  have ok: "seg_ok env ?s" using seg_ok_same cl k1 by blast
  let ?f = "\<lparr>f_data = seg_data env ?s, f_pos = 0, f_limit = 0\<rparr>"
  have op: "OpenFile (ay_fs env) (sg_pName ?s) = (AEWF_OK, Some ?f, sg_FileSize ?s)"
    using ok by (auto simp: OpenFile_def open_r_def seg_ok_def seg_data_def)
  define a' where "a' = (upd_seg k (\<lambda>s. s\<lparr>sg_pFile := Some ?f\<rparr>) ?a)\<lparr>ae_OpenSegments := u64 (ae_OpenSegments ?a + 1)\<rparr>"
  have seg: "ae_pSegmentArr (upd_seg k (\<lambda>s. s\<lparr>sg_pFile := Some ?f\<rparr>) ?a) ! k = ?s\<lparr>sg_pFile := Some ?f\<rparr>"
    using k1 by (simp add: upd_seg_def)
  have "AewfOpenSegment env a t = (AEWF_OK, a')"
    unfolding AewfOpenSegment_def Let_def k_def [symmetric]
    using True by (simp add: op seg a'_def)
  moreover have n: "ae_OpenSegments ?a < 2 ^ 16"
    using cl le_less_trans [OF length_filter_le [of seg_open "ae_pSegmentArr ?a"], of "2 ^ 16"]
    by (simp add: aewf_caches_def)
  moreover have "aewf_caches env a'"
    unfolding a'_def
    by (rule caches_upd_seg) (use cl k1 ok shut n in \<open>auto simp: seg_open_def seg_ok_def seg_data_def u64_small\<close>)
  moreover have "aewf_plain a' = aewf_plain a" using cl by (simp add: a'_def aewf_plain_seg)
  moreover have "sg_pFile (ae_pSegmentArr a' ! k) \<noteq> None" using seg by (simp add: a'_def)
  moreover have "ae_OpenSegments a' \<le> max 1 (ae_MaxOpenSegments a)"
    using cl n by (auto simp: a'_def u64_small)
  ultimately show ?thesis using cl by (intro exI [of _ a']) (simp add: a'_def)
qed

text \<open>Loading a table: it is what stands in the file.\<close>

lemma ReadFilePos_ok:
  assumes "0 < n" "pos + n \<le> length (f_data f)" "length (f_data f) < 2 ^ 63"
  shows "ReadFilePos f n pos = (AEWF_OK, segment pos n (f_data f), f\<lparr>f_pos := pos + n\<rparr>)"
  using assms by (simp add: ReadFilePos_def fseeko_set_def fread_def NO_SEEK_def)

lemma ReadFileAllocPos_ok:
  assumes "0 < n" "pos + n \<le> length (f_data f)" "length (f_data f) < 2 ^ 63"
  shows "ReadFileAllocPos env f n pos = (AEWF_OK, Some (segment pos n (f_data f)), f\<lparr>f_pos := pos + n\<rparr>)"
  using assms by (simp add: ReadFileAllocPos_def ReadFilePos_ok store_at_start_def fresh_mem_def)

lemma set_file_ok:
  assumes c: "aewf_caches env a" and k: "k < length (ae_pSegmentArr a)" and "sg_pFile (ae_pSegmentArr a ! k) = Some f0"
    and "f_data f = f_data f0"
  shows "aewf_caches env (upd_seg k (\<lambda>s. s\<lparr>sg_pFile := Some f\<rparr>) a)"
proof -
  let ?s = "ae_pSegmentArr a ! k"
  have "seg_ok env (?s\<lparr>sg_pFile := Some f\<rparr>)" using seg_ok_same [OF c k] assms(3,4) by (simp add: seg_ok_def seg_data_def)
  then have "aewf_caches env ((upd_seg k (\<lambda>s. s\<lparr>sg_pFile := Some f\<rparr>) a)\<lparr>ae_OpenSegments := ae_OpenSegments a\<rparr>)"
    by (intro caches_upd_seg [OF c k]) (use assms(3) in \<open>simp_all add: seg_open_def\<close>)
  then show ?thesis by (simp add: upd_seg_def)
qed

lemma tables_loaded_update:
  assumes "t < length (ae_pTableArr a)" "tables_loaded a = 0"
  shows "tables_loaded (upd_table t f a) \<le> 1"
  using count_update [OF assms(1), of "\<lambda>t. tb_pEwfTable t \<noteq> None" "f (ae_pTableArr a ! t)"] assms(2)
  by (auto simp: tables_loaded_def upd_table_def split: if_splits)

lemma AewfLoadEwfTable_ok:
  assumes c: "aewf_caches env a" and t: "t < length (ae_pTableArr a)" and l: "aewf_limits a"
  defines "k \<equiv> tb_pSegment (ae_pTableArr a ! t)"
  shows "\<exists>a'. AewfLoadEwfTable env a t = (AEWF_OK, a') \<and> aewf_caches env a' \<and> aewf_plain a' = aewf_plain a \<and>
    tb_pEwfTable (ae_pTableArr a' ! t) \<noteq> None \<and> aewf_limits a'"
proof (cases "tb_pEwfTable (ae_pTableArr a ! t) = None")
  case False
  then show ?thesis using c l by (intro exI [of _ a]) (simp add: AewfLoadEwfTable_def)
next
  case True
  let ?tb = "ae_pTableArr a ! t"
  have tok: "table_ok env a ?tb" using c t by (simp add: aewf_caches_def)
  have k: "k < length (ae_pSegmentArr a)" using tok by (simp add: table_ok_def k_def)
  have sz: "0 < tb_Size ?tb" "tb_Offset ?tb + tb_Size ?tb \<le> length (seg_data env (ae_pSegmentArr a ! k))"
    "length (seg_data env (ae_pSegmentArr a ! k)) < 2 ^ 63"
    using tok seg_ok_same [OF c k] by (auto simp: table_ok_def k_def seg_ok_def)
  define a0 where "a0 = AewfLoadEwfTable_release (tb_Size ?tb) a"
  have "tb_Size ?tb < 2 ^ 63" using sz by simp
  note rl = AewfLoadEwfTable_release_ok [OF c this, folded a0_def]
  have p0: "aewf_plain a0 = aewf_plain a" using rl by simp
  have t0: "t < length (ae_pTableArr a0)" using t aewf_plainD(4) [OF p0] by simp
  have tb0: "plain_table (ae_pTableArr a0 ! t) = plain_table ?tb" by (rule plain_table_nth [OF p0 t])
  have f0: "tb_pSegment (ae_pTableArr a0 ! t) = k" "tb_Size (ae_pTableArr a0 ! t) = tb_Size ?tb"
    "tb_Offset (ae_pTableArr a0 ! t) = tb_Offset ?tb"
    using arg_cong [OF tb0, of tb_pSegment] arg_cong [OF tb0, of tb_Size] arg_cong [OF tb0, of tb_Offset]
    by (simp_all add: k_def)
  have un0: "tb_pEwfTable (ae_pTableArr a0 ! t) = None" using rl True by simp
  have "ae_OpenSegments a0 \<le> max 1 (ae_MaxOpenSegments a0)"
    using rl l aewf_plainD(14) [OF p0] by (simp add: aewf_limits_def)
  from AewfOpenSegment_ok [OF _ t0 this, of env] rl obtain a1 where
    a1: "AewfOpenSegment env a0 t = (AEWF_OK, a1)" "aewf_caches env a1" "aewf_plain a1 = aewf_plain a0"
    "ae_pTableArr a1 = ae_pTableArr a0" "ae_TableCache a1 = ae_TableCache a0"
    "sg_pFile (ae_pSegmentArr a1 ! k) \<noteq> None" "ae_OpenSegments a1 \<le> max 1 (ae_MaxOpenSegments a0)"
    by (auto simp: f0)
  have p1: "aewf_plain a1 = aewf_plain a" using a1(3) p0 by simp
  have k1: "k < length (ae_pSegmentArr a1)" using k aewf_plainD(3) [OF p1] by simp
  obtain f where f: "sg_pFile (ae_pSegmentArr a1 ! k) = Some f" using a1(6) by auto
  have fd: "f_data f = seg_data env (ae_pSegmentArr a ! k)"
    using seg_ok_same [OF a1(2) k1] f seg_data_same [OF p1 k] by (simp add: seg_ok_def)
  define f' where "f' = f\<lparr>f_pos := tb_Offset ?tb + tb_Size ?tb\<rparr>"
  have rd: "ReadFileAllocPos env f (tb_Size ?tb) (tb_Offset ?tb) = (AEWF_OK, Some (table_bytes env a ?tb), f')"
    using sz by (simp add: ReadFileAllocPos_ok fd f'_def table_bytes_def k_def)
  define a2 where "a2 = upd_seg k (\<lambda>s. s\<lparr>sg_pFile := Some f'\<rparr>) a1"
  have c2: "aewf_caches env a2" unfolding a2_def by (rule set_file_ok [OF a1(2) k1 f]) (simp add: f'_def)
  have p2: "aewf_plain a2 = aewf_plain a" using p1 by (simp add: a2_def aewf_plain_seg)
  have tab2: "ae_pTableArr a2 = ae_pTableArr a0" "ae_TableCache a2 = ae_TableCache a0" using a1(4,5) by (simp_all add: a2_def)
  have room: "ae_TableCache a0 + tb_Size ?tb < 2 ^ 64" using loaded_room [of env a0 t] rl t0 un0 by (simp add: f0)
  define a3 where "a3 = (upd_table t (\<lambda>x. x\<lparr>tb_pEwfTable := Some (table_bytes env a ?tb)\<rparr>) a2)
    \<lparr>ae_TableCache := u64 (ae_TableCache a2 + tb_Size ?tb)\<rparr>"
  have tok2: "table_ok env a2 (ae_pTableArr a2 ! t)" using c2 t0 tab2 by (simp add: aewf_caches_def)
  have tb2: "table_bytes env a2 (ae_pTableArr a2 ! t) = table_bytes env a ?tb"
    using seg_data_same [OF p2 k] by (simp add: table_bytes_def tab2 f0 k_def [symmetric])
  have "table_ok env a2 ((ae_pTableArr a2 ! t)\<lparr>tb_pEwfTable := Some (table_bytes env a ?tb)\<rparr>)"
    using tok2 tb2 by (simp add: table_ok_def table_bytes_def)
  then have c3: "aewf_caches env a3"
    unfolding a3_def
    by (intro caches_upd_table [OF c2]) (use t0 un0 room in \<open>auto simp: tab2 loaded_size_def f0 u64_small\<close>)
  have p3: "aewf_plain a3 = aewf_plain a" using p2 by (simp add: a3_def aewf_plain_table)
  have run: "AewfLoadEwfTable env a t = (AEWF_OK, a3)"
    using True by (simp add: AewfLoadEwfTable_def Let_def k_def [symmetric] a0_def [symmetric] a1(1) f rd
        a2_def [symmetric] a3_def tab2(2) a1(5))
  have m: "ae_MaxTableCache a3 = ae_MaxTableCache a" "ae_MaxOpenSegments a3 = ae_MaxOpenSegments a"
    "ae_MaxOpenSegments a0 = ae_MaxOpenSegments a"
    using aewf_plainD(13,14) [OF p3] aewf_plainD(14) [OF p0] by simp_all
  have "ae_TableCache a3 \<le> ae_MaxTableCache a \<or> tables_loaded a3 \<le> 1"
  proof (cases "tables_loaded a0 = 0")
    case True
    then have "tables_loaded a2 = 0" by (simp add: tables_loaded_def tab2)
    then have "tables_loaded a3 \<le> 1"
      using tables_loaded_update [of t a2] t0 by (simp add: a3_def tab2 tables_loaded_def)
    then show ?thesis ..
  next
    case False
    then show ?thesis using rl by (simp add: a3_def tab2)
  qed
  then have "aewf_limits a3" using a1(7) m by (simp add: aewf_limits_def a3_def a2_def)
  moreover have "tb_pEwfTable (ae_pTableArr a3 ! t) \<noteq> None" using t0 by (simp add: a3_def upd_table_def tab2)
  ultimately show ?thesis using run c3 p3 by blast
qed

section \<open>Making a chunk's table available\<close>

lemma first_index_Some:
  "first_index P i xs = Some k \<Longrightarrow> i \<le> k \<and> k < i + length xs \<and> P (xs ! (k - i)) \<and> (\<forall>j < k - i. \<not> P (xs ! j))"
proof (induction xs arbitrary: i)
  case (Cons x xs)
  show ?case
  proof (cases "P x")
    case False
    then have k: "i + 1 \<le> k" "k < i + 1 + length xs" "P (xs ! (k - (i + 1)))" "\<forall>j < k - (i + 1). \<not> P (xs ! j)"
      using Cons.IH [of "i + 1"] Cons.prems False by simp_all
    have e: "k - i = Suc (k - (i + 1))" using k(1) by simp
    have "\<not> P ((x # xs) ! j)" if "j < k - i" for j
      using that False k(4) e by (cases j) simp_all
    then show ?thesis using k e by simp
  qed (use Cons.prems in simp)
qed simp

lemma first_index_None: "first_index P i xs = None \<longleftrightarrow> (\<forall>x \<in> set xs. \<not> P x)"
  by (induction xs arbitrary: i) simp_all

lemma first_index_map: "first_index P i (map g xs) = first_index (\<lambda>x. P (g x)) i xs"
  by (induction xs arbitrary: i) simp_all

lemma aewf_find_tableD:
  "aewf_find_table a c = Some t \<Longrightarrow>
   t < length (ae_pTableArr a) \<and> tb_ChunkFrom (ae_pTableArr a ! t) \<le> c \<and> c \<le> tb_ChunkTo (ae_pTableArr a ! t)"
  using first_index_Some [of "\<lambda>t. tb_ChunkFrom t \<le> c \<and> c \<le> tb_ChunkTo t" 0 "ae_pTableArr a" t]
  by (simp add: aewf_find_table_def)

lemma aewf_find_table_same:
  assumes "aewf_plain a' = aewf_plain a"
  shows "aewf_find_table a' c = aewf_find_table a c"
proof -
  let ?P = "\<lambda>t. tb_ChunkFrom t \<le> c \<and> c \<le> tb_ChunkTo t"
  have "aewf_find_table a c = first_index ?P 0 (map plain_table (ae_pTableArr a))" for a
    by (simp add: aewf_find_table_def first_index_map)
  then show ?thesis by (simp add: aewf_plainD(2) [OF assms])
qed

lemma touch_ok:
  fixes a :: t_aewf and t now :: nat
  assumes c: "aewf_caches env a" and t: "t < length (ae_pTableArr a)"
  defines "a1 \<equiv> upd_table t (\<lambda>tb. tb\<lparr>tb_LastUsed := now\<rparr>) (a\<lparr>ae_Ticks := ae_Ticks a + 1\<rparr>)"
  defines "a2 \<equiv> upd_seg (tb_pSegment (ae_pTableArr a1 ! t)) (\<lambda>s. s\<lparr>sg_LastUsed := now\<rparr>) a1"
  shows "aewf_caches env a2 \<and> aewf_plain a2 = aewf_plain a \<and> (aewf_limits a \<longrightarrow> aewf_limits a2)"
proof -
  let ?a = "a\<lparr>ae_Ticks := ae_Ticks a + 1\<rparr>" and ?tb = "ae_pTableArr a ! t"
  have p0: "aewf_plain ?a = aewf_plain a" by simp
  have "table_ok env ?a = table_ok env a" by (rule ext) (rule table_ok_same [OF p0])
  then have c0: "aewf_caches env ?a" using c by (simp add: aewf_caches_def)
  have "table_ok env a ?tb" using c t by (simp add: aewf_caches_def)
  then have tok: "table_ok env ?a (?tb\<lparr>tb_LastUsed := now\<rparr>)"
    by (simp add: table_ok_def table_bytes_def split: option.splits)
  have e1: "a1 = (upd_table t (\<lambda>tb. tb\<lparr>tb_LastUsed := now\<rparr>) ?a)\<lparr>ae_TableCache := ae_TableCache ?a\<rparr>"
    by (simp add: a1_def upd_table_def)
  have c1: "aewf_caches env a1"
    unfolding e1 by (intro caches_upd_table [OF c0]) (use t tok in \<open>simp_all add: loaded_size_def\<close>)
  have p1: "aewf_plain a1 = aewf_plain a" by (simp add: a1_def aewf_plain_table)
  let ?k = "tb_pSegment (ae_pTableArr a1 ! t)"
  have "t < length (ae_pTableArr a1)" using t aewf_plainD(4) [OF p1] by simp
  then have k: "?k < length (ae_pSegmentArr a1)" using c1 by (simp add: aewf_caches_def table_ok_def)
  have "seg_ok env ((ae_pSegmentArr a1 ! ?k)\<lparr>sg_LastUsed := now\<rparr>)"
    using seg_ok_same [OF c1 k] by (simp add: seg_ok_def split: option.splits)
  then have "aewf_caches env ((upd_seg ?k (\<lambda>s. s\<lparr>sg_LastUsed := now\<rparr>) a1)\<lparr>ae_OpenSegments := ae_OpenSegments a1\<rparr>)"
    by (intro caches_upd_seg [OF c1 k]) (simp_all add: seg_open_def)
  then have "aewf_caches env a2" by (simp add: a2_def upd_seg_def)
  moreover have "aewf_plain a2 = aewf_plain a" using p1 by (simp add: a2_def aewf_plain_seg)
  moreover have "tables_loaded a2 = tables_loaded a"
  proof -
    have "ae_pTableArr a2 = (ae_pTableArr a)[t := ?tb\<lparr>tb_LastUsed := now\<rparr>]" by (simp add: a2_def a1_def upd_table_def)
    then show ?thesis
      using count_update [OF t, of "\<lambda>t. tb_pEwfTable t \<noteq> None" "?tb\<lparr>tb_LastUsed := now\<rparr>"]
      by (cases "tb_pEwfTable ?tb = None") (simp_all add: tables_loaded_def)
  qed
  moreover have "ae_OpenSegments a2 = ae_OpenSegments a" "ae_TableCache a2 = ae_TableCache a"
    "ae_MaxOpenSegments a2 = ae_MaxOpenSegments a" "ae_MaxTableCache a2 = ae_MaxTableCache a"
    by (simp_all add: a2_def a1_def)
  ultimately show ?thesis by (simp only: aewf_limits_def simp_thms)
qed

lemma sub64_le: "b \<le> a \<Longrightarrow> sub64 a b \<le> a - b"
proof -
  assume "b \<le> a"
  then have e: "int a - int b = int (a - b)" by simp
  have "sub64 a b = nat (int ((a - b) mod 18446744073709551616))"
    unfolding sub64_def e zmod_int by simp
  then show ?thesis by simp
qed

lemma aewf_prepare_ok:
  assumes c: "aewf_caches env a" and l: "aewf_limits a" and t: "aewf_find_table a chunk = Some t"
  shows "\<exists>a'. aewf_prepare env a chunk = (AEWF_OK, t, a') \<and> aewf_caches env a' \<and> aewf_limits a' \<and>
    aewf_plain a' = aewf_plain a \<and> tb_pEwfTable (ae_pTableArr a' ! t) \<noteq> None \<and>
    sg_pFile (ae_pSegmentArr a' ! tb_pSegment (ae_pTableArr a' ! t)) \<noteq> None"
proof -
  let ?now = "ay_time env (ae_Ticks a)"
  define a1 where "a1 = upd_table t (\<lambda>tb. tb\<lparr>tb_LastUsed := ?now\<rparr>) (a\<lparr>ae_Ticks := ae_Ticks a + 1\<rparr>)"
  define a2 where "a2 = upd_seg (tb_pSegment (ae_pTableArr a1 ! t)) (\<lambda>s. s\<lparr>sg_LastUsed := ?now\<rparr>) a1"
  note tt = aewf_find_tableD [OF t]
  have a2: "aewf_caches env a2" "aewf_plain a2 = aewf_plain a" "aewf_limits a2"
    using touch_ok [OF c, of t ?now] tt l by (simp_all add: a1_def a2_def)
  have t2: "t < length (ae_pTableArr a2)" using tt aewf_plainD(4) [OF a2(2)] by simp
  obtain a3 where a3: "AewfLoadEwfTable env a2 t = (AEWF_OK, a3)" "aewf_caches env a3" "aewf_plain a3 = aewf_plain a2"
    "tb_pEwfTable (ae_pTableArr a3 ! t) \<noteq> None" "aewf_limits a3"
    using AewfLoadEwfTable_ok [OF a2(1) t2 a2(3)] by auto
  have t3: "t < length (ae_pTableArr a3)" using t2 aewf_plainD(4) [OF a3(3)] by simp
  have "ae_OpenSegments a3 \<le> max 1 (ae_MaxOpenSegments a3)" using a3(5) by (simp add: aewf_limits_def)
  from AewfOpenSegment_ok [OF a3(2) t3 this] obtain a4 where
    a4: "AewfOpenSegment env a3 t = (AEWF_OK, a4)" "aewf_caches env a4" "aewf_plain a4 = aewf_plain a3"
    "ae_pTableArr a4 = ae_pTableArr a3" "ae_TableCache a4 = ae_TableCache a3"
    "sg_pFile (ae_pSegmentArr a4 ! tb_pSegment (ae_pTableArr a3 ! t)) \<noteq> None"
    "ae_OpenSegments a4 \<le> max 1 (ae_MaxOpenSegments a3)"
    by auto
  have p4: "aewf_plain a4 = aewf_plain a" using a4(3) a3(3) a2(2) by simp
  have "table_ok env a4 (ae_pTableArr a4 ! t)" using a4(2,4) t3 by (simp add: aewf_caches_def)
  moreover have e: "plain_table (ae_pTableArr a4 ! t) = plain_table (ae_pTableArr a ! t)"
    using plain_table_nth [OF p4] tt by blast
  have "tb_ChunkFrom (ae_pTableArr a4 ! t) \<le> chunk" "chunk \<le> tb_ChunkTo (ae_pTableArr a4 ! t)"
    using arg_cong [OF e, of tb_ChunkFrom] arg_cong [OF e, of tb_ChunkTo] tt by simp_all
  ultimately have b: "tb_ChunkCount (ae_pTableArr a4 ! t) < 4294967296" "tb_ChunkFrom (ae_pTableArr a4 ! t) \<le> chunk"
    "chunk < tb_ChunkFrom (ae_pTableArr a4 ! t) + tb_ChunkCount (ae_pTableArr a4 ! t)"
    by (simp_all add: table_ok_def)
  have "sub64 chunk (tb_ChunkFrom (ae_pTableArr a4 ! t)) \<le> 4294967295"
    using order_trans [OF sub64_le [OF b(2)], of 4294967295] b by simp
  then have run: "aewf_prepare env a chunk = (AEWF_OK, t, a4)"
    unfolding aewf_prepare_def t option.case Let_def a1_def [symmetric] a2_def [symmetric] a3(1) a4(1) prod.case
    by simp
  have "aewf_limits a4"
    using a3(5) a4(4,5,7) aewf_plainD(13,14) [OF a4(3)] by (simp add: aewf_limits_def tables_loaded_def)
  then show ?thesis using run a4(2,4,6) a3(4) p4 by auto
qed

end
