(* ===== verification/InputAewfChunk.thy ===== *)
theory InputAewfChunk
  imports InputAewfCache
begin

text \<open>
  What a chunk of an EWF image is (\<open>aewf_chunk\<close>): the data that its table points to,
  decompressed or checked. Reading a chunk with one thread and with several: it always returns,
  and if the chunk is intact, its bytes arrive, whatever is in the caches.
\<close>

section \<open>The chunks of an image\<close>

definition zlib_ok :: "aewf_env \<Rightarrow> bool" where
  "zlib_ok env \<longleftrightarrow> (\<forall>b n. length (snd (ay_uncompress env b n)) \<le> n)"

text \<open>The data of a chunk of \<open>sz\<close> bytes, from its place in the file.\<close>

definition aewf_decode :: "aewf_env \<Rightarrow> nat \<Rightarrow> nat \<Rightarrow> bool \<times> nat \<times> nat \<Rightarrow> bytes \<Rightarrow> bytes option" where
  "aewf_decode env ChunkBuffSize sz place d =
     (case place of (compressed, pos, len) \<Rightarrow>
        if len = 0 \<or> len > ChunkBuffSize \<or> pos + len > length d then None
        else if compressed then
          (case ay_uncompress env (segment pos len d) ChunkBuffSize of
             (zrc, out) \<Rightarrow> if zrc = Z_OK \<and> length out = sz then Some out else None)
        else if sz + 4 \<le> len \<and> chunk_crc_ok env sz (segment pos len d)
        then Some (take sz (segment pos len d)) else None)"

definition aewf_chunk :: "aewf_env \<Rightarrow> t_aewf \<Rightarrow> nat \<Rightarrow> bytes option" where
  "aewf_chunk env a k =
     (case aewf_find_table a k of
        None \<Rightarrow> None
      | Some t \<Rightarrow>
          let tb = ae_pTableArr a ! t in
          (case aewf_place tb (table_bytes env a tb) (sub64 k (tb_ChunkFrom tb)) of
             None \<Rightarrow> None
           | Some place \<Rightarrow> aewf_decode env (ae_ChunkBuffSize a) (aewf_chunk_size a k) place
                             (seg_data env (ae_pSegmentArr a ! tb_pSegment tb))))"

text \<open>The handle without caches and buffers.\<close>

definition aewf_base :: "t_aewf \<Rightarrow> t_aewf" where
  "aewf_base a = (aewf_plain a)\<lparr>ae_pChunkBuffUncompressed := [], ae_ChunkBuffUncompressedDataLen := 0,
     ae_ChunkInBuff := 0, ae_pThreadArr := []\<rparr>"

lemma aewf_base_plain: "aewf_plain a' = aewf_plain a \<Longrightarrow> aewf_base a' = aewf_base a"
  by (simp add: aewf_base_def)

lemma aewf_baseD:
  assumes "aewf_base a' = aewf_base a"
  shows "map plain_seg (ae_pSegmentArr a') = map plain_seg (ae_pSegmentArr a)"
    "map plain_table (ae_pTableArr a') = map plain_table (ae_pTableArr a)"
    "ae_Chunks a' = ae_Chunks a" "ae_ChunkSize a' = ae_ChunkSize a" "ae_ImageSize a' = ae_ImageSize a"
    "ae_ChunkBuffSize a' = ae_ChunkBuffSize a" "ae_Threads a' = ae_Threads a"
proof -
  note e = assms [unfolded aewf_base_def aewf_plain_def]
  show "map plain_seg (ae_pSegmentArr a') = map plain_seg (ae_pSegmentArr a)"
    using arg_cong [OF e, of ae_pSegmentArr] by simp
  show "map plain_table (ae_pTableArr a') = map plain_table (ae_pTableArr a)"
    using arg_cong [OF e, of ae_pTableArr] by simp
  show "ae_Chunks a' = ae_Chunks a" using arg_cong [OF e, of ae_Chunks] by simp
  show "ae_ChunkSize a' = ae_ChunkSize a" using arg_cong [OF e, of ae_ChunkSize] by simp
  show "ae_ImageSize a' = ae_ImageSize a" using arg_cong [OF e, of ae_ImageSize] by simp
  show "ae_ChunkBuffSize a' = ae_ChunkBuffSize a" using arg_cong [OF e, of ae_ChunkBuffSize] by simp
  show "ae_Threads a' = ae_Threads a" using arg_cong [OF e, of ae_Threads] by simp
qed

lemma aewf_base_upd [simp]:
  "aewf_base (upd_thread i f a) = aewf_base a" "aewf_base (a\<lparr>ae_pThreadArr := ths\<rparr>) = aewf_base a"
  "aewf_base (a\<lparr>ae_pChunkBuffUncompressed := mem\<rparr>) = aewf_base a"
  "aewf_base (a\<lparr>ae_pChunkBuffUncompressed := mem, ae_ChunkBuffUncompressedDataLen := n, ae_ChunkInBuff := k\<rparr>) = aewf_base a"
  by (simp_all add: aewf_base_def aewf_plain_def upd_thread_def)

lemma aewf_find_table_base: "aewf_base a' = aewf_base a \<Longrightarrow> aewf_find_table a' k = aewf_find_table a k"
proof -
  assume e: "aewf_base a' = aewf_base a"
  have f: "aewf_find_table a k = first_index (\<lambda>t. tb_ChunkFrom t \<le> k \<and> k \<le> tb_ChunkTo t) 0
      (map plain_table (ae_pTableArr a))" for a
    by (simp add: aewf_find_table_def first_index_map)
  show ?thesis unfolding f aewf_baseD(2) [OF e] ..
qed

lemma aewf_chunk_size_base:
  assumes "aewf_base a' = aewf_base a"
  shows "aewf_chunk_size a' k = aewf_chunk_size a k"
  unfolding aewf_chunk_size_def aewf_baseD [OF assms] ..

lemma aewf_place_plain: "aewf_place (plain_table tb) ewf k = aewf_place tb ewf k"
  unfolding aewf_place_def plain_table_simps ..

lemma table_in_plain:
  assumes e: "aewf_base a' = aewf_base a" and t: "t < length (ae_pTableArr a)" and c: "table_ok env a (ae_pTableArr a ! t)"
  defines "tb \<equiv> ae_pTableArr a ! t" and "tb' \<equiv> ae_pTableArr a' ! t"
  shows "tb_ChunkFrom tb' = tb_ChunkFrom tb" "aewf_place tb' = aewf_place tb" "tb_pSegment tb' = tb_pSegment tb"
    "seg_data env (ae_pSegmentArr a' ! tb_pSegment tb) = seg_data env (ae_pSegmentArr a ! tb_pSegment tb)"
    "table_bytes env a' tb' = table_bytes env a tb"
proof -
  have p: "plain_table tb' = plain_table tb" unfolding tb_def tb'_def by (rule nth_map_eq [OF aewf_baseD(2) [OF e] t])
  show s: "tb_pSegment tb' = tb_pSegment tb" using arg_cong [OF p, of tb_pSegment] by simp
  show "tb_ChunkFrom tb' = tb_ChunkFrom tb" using arg_cong [OF p, of tb_ChunkFrom] by simp
  show "aewf_place tb' = aewf_place tb"
    using arg_cong [OF p, of aewf_place] by (intro ext) (metis aewf_place_plain)
  have k: "tb_pSegment tb < length (ae_pSegmentArr a)" using c by (simp add: table_ok_def tb_def)
  have "plain_seg (ae_pSegmentArr a' ! tb_pSegment tb) = plain_seg (ae_pSegmentArr a ! tb_pSegment tb)"
    by (rule nth_map_eq [OF aewf_baseD(1) [OF e] k])
  from arg_cong [OF this, of "seg_data env"]
  show d: "seg_data env (ae_pSegmentArr a' ! tb_pSegment tb) = seg_data env (ae_pSegmentArr a ! tb_pSegment tb)"
    by (simp add: seg_data_plain)
  have "tb_Offset tb' = tb_Offset tb" "tb_Size tb' = tb_Size tb"
    using arg_cong [OF p, of tb_Offset] arg_cong [OF p, of tb_Size] by simp_all
  then show "table_bytes env a' tb' = table_bytes env a tb" by (simp add: table_bytes_def s d)
qed

lemma aewf_chunk_base:
  assumes "aewf_caches env a" "aewf_base a' = aewf_base a"
  shows "aewf_chunk env a' k = aewf_chunk env a k"
proof (cases "aewf_find_table a k")
  case None
  then show ?thesis by (simp add: aewf_chunk_def aewf_find_table_base [OF assms(2)])
next
  case (Some t)
  note tt = aewf_find_tableD [OF Some]
  have "table_ok env a (ae_pTableArr a ! t)" using assms(1) tt by (simp add: aewf_caches_def)
  note tb = table_in_plain [OF assms(2) tt [THEN conjunct1] this]
  show ?thesis
    unfolding aewf_chunk_def aewf_find_table_base [OF assms(2)] Some option.case Let_def aewf_chunk_size_base [OF assms(2)]
      aewf_baseD(6) [OF assms(2)] tb ..
qed

lemma aewf_decode_length: "aewf_decode env n sz place d = Some c \<Longrightarrow> length c = sz"
  by (auto simp: aewf_decode_def min_def split: if_splits prod.splits)

lemma aewf_chunk_length: "aewf_chunk env a k = Some c \<Longrightarrow> length c = aewf_chunk_size a k"
  by (auto simp: aewf_chunk_def Let_def aewf_decode_length split: option.splits)

text \<open>The offsets of a chunk lie in its table.\<close>

lemma aewf_place_ok:
  assumes "table_ok env a tb" "k < tb_ChunkCount tb"
  shows "\<exists>p. aewf_place tb (table_bytes env a tb) k = Some p"
proof -
  have len: "length (table_bytes env a tb) = tb_Size tb" using assms(1) by (auto simp: table_ok_def table_bytes_def min_def)
  have "4 * ((tb_Size tb - 28) div 4) \<le> tb_Size tb - 28" by simp
  moreover have "28 \<le> tb_Size tb" "tb_ChunkCount tb \<le> (tb_Size tb - 28) div 4" using assms(1) by (simp_all add: table_ok_def)
  ultimately have sz: "28 + 4 * tb_ChunkCount tb \<le> tb_Size tb" by linarith
  then have "24 + 4 * k + 4 \<le> tb_Size tb" "24 + 4 * (k + 1) + 4 \<le> tb_Size tb" using assms(2) by simp_all
  then show ?thesis by (simp add: aewf_place_def ewf_OffsetArray_def len Let_def)
qed

lemma caches_cong:
  assumes "ae_pSegmentArr a' = ae_pSegmentArr a" "ae_pTableArr a' = ae_pTableArr a"
    "ae_OpenSegments a' = ae_OpenSegments a" "ae_TableCache a' = ae_TableCache a"
  shows "aewf_caches env a' = aewf_caches env a"
proof -
  have tb: "table_bytes env a' x = table_bytes env a x" for x by (simp add: table_bytes_def assms)
  have "table_ok env a' x = table_ok env a x" for x unfolding table_ok_def assms tb ..
  then have "table_ok env a' = table_ok env a" by (rule ext)
  then show ?thesis by (simp add: aewf_caches_def assms)
qed

lemma limits_cong:
  assumes "ae_pTableArr a' = ae_pTableArr a" "ae_OpenSegments a' = ae_OpenSegments a" "ae_TableCache a' = ae_TableCache a"
    "ae_MaxOpenSegments a' = ae_MaxOpenSegments a" "ae_MaxTableCache a' = ae_MaxTableCache a"
  shows "aewf_limits a' = aewf_limits a"
  by (simp add: aewf_limits_def tables_loaded_def assms)

section \<open>The state of a handle that reads\<close>

text \<open>The caches are in order and all buffers have room for a chunk.\<close>

definition aewf_wf :: "aewf_env \<Rightarrow> t_aewf \<Rightarrow> bool" where
  "aewf_wf env a \<longleftrightarrow> aewf_caches env a \<and> aewf_limits a \<and> 0 < ae_ChunkSize a \<and>
     ae_ChunkSize a + 4 \<le> ae_ChunkBuffSize a \<and> ae_ChunkBuffSize a < 2 ^ 32 \<and>
     length (ae_pChunkBuffUncompressed a) = ae_ChunkBuffSize a \<and>
     (ae_ChunkInBuff a \<noteq> AEWF_NONE \<longrightarrow> ae_ChunkBuffUncompressedDataLen a = aewf_chunk_size a (ae_ChunkInBuff a)) \<and>
     (\<forall>th \<in> set (ae_pThreadArr a). length (th_pChunkBuffUncompressed th) = ae_ChunkBuffSize a)"

text \<open>A buffer holds the chunk that it is said to hold.\<close>

definition holds_chunk :: "aewf_env \<Rightarrow> t_aewf \<Rightarrow> nat \<Rightarrow> bytes \<Rightarrow> bool" where
  "holds_chunk env a k mem \<longleftrightarrow>
     k = AEWF_NONE \<or> (\<exists>c. aewf_chunk env a k = Some c \<and> take (length c) mem = c)"

definition thread_ok :: "aewf_env \<Rightarrow> t_aewf \<Rightarrow> t_aewf_thread \<Rightarrow> bool" where
  "thread_ok env a th \<longleftrightarrow> holds_chunk env a (th_ChunkInBuff th) (th_pChunkBuffUncompressed th) \<and>
     (th_Launched th \<longrightarrow> th_ReturnCode th = 0)"

definition aewf_clean :: "aewf_env \<Rightarrow> t_aewf \<Rightarrow> bool" where
  "aewf_clean env a \<longleftrightarrow> holds_chunk env a (ae_ChunkInBuff a) (ae_pChunkBuffUncompressed a) \<and>
     (\<forall>th \<in> set (ae_pThreadArr a). thread_ok env a th)"

lemma wf_plain:
  assumes "aewf_wf env a" "aewf_caches env a'" "aewf_limits a'" "aewf_plain a' = aewf_plain a"
  shows "aewf_wf env a'"
  using assms(1-3) unfolding aewf_wf_def aewf_plainD [OF assms(4)] aewf_chunk_size_base [OF aewf_base_plain [OF assms(4)]]
  by simp

lemma holds_chunk_base:
  assumes "aewf_caches env a" "aewf_base a' = aewf_base a"
  shows "holds_chunk env a' = holds_chunk env a" "thread_ok env a' = thread_ok env a"
proof -
  have "holds_chunk env a' k mem = holds_chunk env a k mem" for k mem
    unfolding holds_chunk_def aewf_chunk_base [OF assms] ..
  then show h: "holds_chunk env a' = holds_chunk env a" by (intro ext)
  show "thread_ok env a' = thread_ok env a" by (intro ext) (simp add: thread_ok_def h)
qed

lemma clean_plain:
  assumes "aewf_caches env a" "aewf_clean env a" "aewf_plain a' = aewf_plain a"
  shows "aewf_clean env a'"
  using assms(2)
  unfolding aewf_clean_def aewf_plainD [OF assms(3)] holds_chunk_base [OF assms(1) aewf_base_plain [OF assms(3)]] .

text \<open>What \<open>aewf_prepare\<close> leaves for the chunk.\<close>

lemma prepared_chunk:
  assumes wf: "aewf_wf env a" and t: "aewf_find_table a k = Some t" and k: "k < 2 ^ 64"
  obtains a' ewf f place where
    "aewf_prepare env a k = (AEWF_OK, t, a')" "aewf_wf env a'" "aewf_plain a' = aewf_plain a"
    "tb_pEwfTable (ae_pTableArr a' ! t) = Some ewf"
    "tb_pSegment (ae_pTableArr a' ! t) < length (ae_pSegmentArr a')"
    "sg_pFile (ae_pSegmentArr a' ! tb_pSegment (ae_pTableArr a' ! t)) = Some f" "length (f_data f) < 2 ^ 63"
    "aewf_place (ae_pTableArr a' ! t) ewf (sub64 k (tb_ChunkFrom (ae_pTableArr a' ! t))) = Some place"
    "aewf_chunk env a k = aewf_decode env (ae_ChunkBuffSize a') (aewf_chunk_size a' k) place (f_data f)"
proof -
  have c: "aewf_caches env a" "aewf_limits a" using wf by (simp_all add: aewf_wf_def)
  obtain a' where a': "aewf_prepare env a k = (AEWF_OK, t, a')" "aewf_caches env a'" "aewf_limits a'"
    "aewf_plain a' = aewf_plain a" "tb_pEwfTable (ae_pTableArr a' ! t) \<noteq> None"
    "sg_pFile (ae_pSegmentArr a' ! tb_pSegment (ae_pTableArr a' ! t)) \<noteq> None"
    using aewf_prepare_ok [OF c t] by blast
  let ?tb = "ae_pTableArr a' ! t"
  have t': "aewf_find_table a' k = Some t" using t aewf_find_table_same [OF a'(4)] by simp
  note tt = aewf_find_tableD [OF t']
  have tok: "table_ok env a' ?tb" using a'(2) tt by (simp add: aewf_caches_def)
  obtain ewf f where ewf: "tb_pEwfTable ?tb = Some ewf" and f: "sg_pFile (ae_pSegmentArr a' ! tb_pSegment ?tb) = Some f"
    using a'(5,6) by auto
  have seg: "tb_pSegment ?tb < length (ae_pSegmentArr a')" using tok by (simp add: table_ok_def)
  have fd: "f_data f = seg_data env (ae_pSegmentArr a' ! tb_pSegment ?tb)" "length (f_data f) < 2 ^ 63"
    using seg_ok_same [OF a'(2) seg] f by (simp_all add: seg_ok_def)
  have e: "ewf = table_bytes env a' ?tb" using tok ewf by (simp add: table_ok_def)
  have s: "sub64 k (tb_ChunkFrom ?tb) = k - tb_ChunkFrom ?tb" using tt k by (simp add: sub64_small)
  have "k - tb_ChunkFrom ?tb < tb_ChunkCount ?tb" using tok tt by (auto simp: table_ok_def)
  then obtain place where place: "aewf_place ?tb ewf (sub64 k (tb_ChunkFrom ?tb)) = Some place"
    using aewf_place_ok [OF tok, of "k - tb_ChunkFrom ?tb"] unfolding e s by blast
  have "aewf_chunk env a k = aewf_chunk env a' k"
    using aewf_chunk_base [OF c(1) aewf_base_plain [OF a'(4)]] by simp
  also have "\<dots> = aewf_decode env (ae_ChunkBuffSize a') (aewf_chunk_size a' k) place (f_data f)"
    unfolding aewf_chunk_def t' option.case Let_def e [symmetric] place fd(1) ..
  finally show thesis
    using that [of a' ewf f place] a' wf_plain [OF wf a'(2,3,4)] ewf f seg fd place by blast
qed

text \<open>What is read of a damaged file, and of an intact chunk.\<close>

lemma ReadFilePos_keeps:
  assumes "ReadFilePos f n pos = (rc, b, f')"
  shows "length b \<le> n \<and> f_data f' = f_data f"
  using assms by (auto simp: ReadFilePos_def fseeko_set_def fread_def split: if_splits)

lemma aewf_decodeD:
  assumes "aewf_decode env n sz (compressed, pos, len) (f_data f) = Some c" "length (f_data f) < 2 ^ 63"
  shows "\<exists>b f'. ReadFilePos f len pos = (AEWF_OK, b, f') \<and> len \<le> n \<and>
    (if compressed then ay_uncompress env b n = (Z_OK, c) else sz + 4 \<le> length b \<and> chunk_crc_ok env sz b \<and> c = take sz b)"
proof -
  have l: "len \<noteq> 0" "\<not> len > n" "\<not> pos + len > length (f_data f)"
    using assms(1) by (auto simp: aewf_decode_def split: if_splits)
  have "ReadFilePos f len pos = (AEWF_OK, segment pos len (f_data f), f\<lparr>f_pos := pos + len\<rparr>)"
    using l assms(2) by (intro ReadFilePos_ok) simp_all
  then show ?thesis
    using assms(1) l by (auto simp: aewf_decode_def split: if_splits prod.splits)
qed

text \<open>A file that has been read, and a thread that has run.\<close>

lemma set_file_wf:
  assumes wf: "aewf_wf env a" and k: "k < length (ae_pSegmentArr a)" and f: "sg_pFile (ae_pSegmentArr a ! k) = Some f0"
    "f_data f = f_data f0"
  defines "a' \<equiv> upd_seg k (\<lambda>s. s\<lparr>sg_pFile := Some f\<rparr>) a"
  shows "aewf_wf env a'" "aewf_plain a' = aewf_plain a" "aewf_clean env a \<Longrightarrow> aewf_clean env a'"
proof -
  have c: "aewf_caches env a" "aewf_limits a" using wf by (simp_all add: aewf_wf_def)
  show p: "aewf_plain a' = aewf_plain a" unfolding a'_def by (rule aewf_plain_seg) simp
  have "aewf_limits a' = aewf_limits a" unfolding a'_def by (rule limits_cong) simp_all
  then show "aewf_wf env a'"
    using wf_plain [OF wf _ _ p] set_file_ok [OF c(1) k f] c(2) unfolding a'_def by blast
  show "aewf_clean env a'" if "aewf_clean env a" by (rule clean_plain [OF c(1) that p])
qed

lemma upd_thread_sel [simp]:
  "ae_pSegmentArr (upd_thread i f a) = ae_pSegmentArr a" "ae_pTableArr (upd_thread i f a) = ae_pTableArr a"
  "ae_OpenSegments (upd_thread i f a) = ae_OpenSegments a" "ae_TableCache (upd_thread i f a) = ae_TableCache a"
  "ae_MaxOpenSegments (upd_thread i f a) = ae_MaxOpenSegments a" "ae_MaxTableCache (upd_thread i f a) = ae_MaxTableCache a"
  "ae_ChunkSize (upd_thread i f a) = ae_ChunkSize a" "ae_ChunkBuffSize (upd_thread i f a) = ae_ChunkBuffSize a"
  "ae_pChunkBuffUncompressed (upd_thread i f a) = ae_pChunkBuffUncompressed a"
  "ae_ChunkInBuff (upd_thread i f a) = ae_ChunkInBuff a"
  "ae_ChunkBuffUncompressedDataLen (upd_thread i f a) = ae_ChunkBuffUncompressedDataLen a"
  "ae_pThreadArr (upd_thread i f a) = (ae_pThreadArr a)[i := f (ae_pThreadArr a ! i)]"
  by (simp_all add: upd_thread_def)

lemma upd_thread_twice [simp]: "upd_thread i (\<lambda>_. y) (upd_thread i (\<lambda>_. x) a) = upd_thread i (\<lambda>_. y) a"
  by (simp add: upd_thread_def)

lemma thread_wf:
  fixes i :: nat
  assumes wf: "aewf_wf env a" and th: "length (th_pChunkBuffUncompressed th) = ae_ChunkBuffSize a"
  defines "a' \<equiv> upd_thread i (\<lambda>_. th) a"
  shows "aewf_wf env a'" "aewf_base a' = aewf_base a" "aewf_clean env a \<and> thread_ok env a th \<Longrightarrow> aewf_clean env a'"
proof -
  show b: "aewf_base a' = aewf_base a" by (simp add: a'_def)
  have c: "aewf_caches env a" "aewf_limits a" using wf by (simp_all add: aewf_wf_def)
  have "aewf_caches env a' = aewf_caches env a" unfolding a'_def by (rule caches_cong) simp_all
  moreover have "aewf_limits a' = aewf_limits a" unfolding a'_def by (rule limits_cong) simp_all
  moreover have "\<forall>th \<in> set (ae_pThreadArr a'). length (th_pChunkBuffUncompressed th) = ae_ChunkBuffSize a"
    unfolding a'_def upd_thread_sel by (rule set_update_ball) (use wf th in \<open>simp_all add: aewf_wf_def\<close>)
  ultimately show "aewf_wf env a'"
    using wf aewf_chunk_size_base [OF b] by (simp add: aewf_wf_def a'_def)
  show "aewf_clean env a'" if *: "aewf_clean env a \<and> thread_ok env a th"
  proof -
    have "\<forall>th \<in> set (ae_pThreadArr a'). thread_ok env a th"
      unfolding a'_def upd_thread_sel by (rule set_update_ball) (use * in \<open>simp_all add: aewf_clean_def\<close>)
    then show ?thesis
      using * unfolding aewf_clean_def holds_chunk_base [OF c(1) b] by (simp add: a'_def)
  qed
qed

section \<open>One chunk with several threads\<close>

text \<open>A thread that has read the chunk \<open>k\<close>; \<open>chunk\<close> is the chunk if it is intact.\<close>

definition thread_ran :: "nat \<Rightarrow> nat \<Rightarrow> nat \<Rightarrow> nat \<Rightarrow> bytes option \<Rightarrow> (t_aewf_thread \<times> bytes) option \<Rightarrow> bool" where
  "thread_ran CBS k Ofs Len chunk r \<longleftrightarrow>
     (\<exists>th out. r = Some (th, out) \<and> length (th_pChunkBuffUncompressed th) = CBS \<and> th_ChunkInBuff th = k \<and>
        th_Len th = Len \<and> length out \<le> Len \<and>
        (\<forall>c. chunk = Some c \<and> Ofs + Len \<le> length c \<longrightarrow>
           th_ReturnCode th = 0 \<and> take (length c) (th_pChunkBuffUncompressed th) = c \<and> out = segment Ofs Len c))"

lemma store_at_start_ok:
  assumes "length b \<le> length mem"
  shows "\<exists>mem'. store_at_start b mem = Some mem' \<and> length mem' = length mem \<and> take (length b) mem' = b"
  using assms by (simp add: store_at_start_def)

lemma segment_take_prefix: "take (length c) mem = c \<Longrightarrow> Ofs + Len \<le> length c \<Longrightarrow> segment Ofs Len mem = segment Ofs Len c"
  by (metis segment_def take_drop take_take min.absorb1 add.commute)

lemma thread_copy_ran:
  assumes "length (th_pChunkBuffUncompressed th) = CBS" "th_ChunkInBuff th = k" "th_Len th = Len" "Ofs + Len \<le> CBS"
    and "\<And>c. chunk = Some c \<Longrightarrow> Ret = 0 \<and> take (length c) (th_pChunkBuffUncompressed th) = c"
  shows "thread_ran CBS k Ofs Len chunk (thread_copy Ret Ofs th)"
  using assms by (auto simp: thread_ran_def thread_copy_def intro!: segment_take_prefix)

lemma uncompress_ran:
  assumes z: "zlib_ok env" and th: "length (th_pChunkBuffUncompressed th) = CBS" "th_ChunkInBuff th = k" "th_Len th = Len"
    and o: "Ofs + Len \<le> CBS"
    and c: "\<And>c. chunk = Some c \<Longrightarrow> ay_uncompress env b CBS = (Z_OK, c) \<and> length c = th_ChunkBuffUncompressedDataLen th"
  shows "thread_ran CBS k Ofs Len chunk (AewfThreadUncompress env CBS b Ofs th)"
proof -
  obtain zrc out where u: "ay_uncompress env b CBS = (zrc, out)" by force
  have "length out \<le> length (th_pChunkBuffUncompressed th)" using z th(1) u by (metis zlib_ok_def snd_conv)
  then obtain mem where m: "store_at_start out (th_pChunkBuffUncompressed th) = Some mem"
    "length mem = length (th_pChunkBuffUncompressed th)" "take (length out) mem = out"
    using store_at_start_ok by blast
  have "thread_ran CBS k Ofs Len chunk (thread_copy AEWF_OK Ofs (th\<lparr>th_pChunkBuffUncompressed := mem\<rparr>))"
    by (rule thread_copy_ran) (use th o m c u in \<open>auto simp: AEWF_OK_def\<close>)
  then show ?thesis
    using th m(2) c u unfolding AewfThreadUncompress_def u prod.case m(1) option.case Let_def
    by (auto simp: thread_ran_def)
qed

lemma crc_ran:
  assumes th: "length (th_pChunkBuffUncompressed th) = CBS" "th_ChunkInBuff th = k" "th_Len th = Len" and o: "Ofs + Len \<le> CBS"
    and sz: "th_ChunkBuffUncompressedDataLen th + 4 \<le> CBS"
    and c: "\<And>c. chunk = Some c \<Longrightarrow> chunk_crc_ok env (th_ChunkBuffUncompressedDataLen th) (th_pChunkBuffUncompressed th) \<and>
      c = take (th_ChunkBuffUncompressedDataLen th) (th_pChunkBuffUncompressed th)"
  shows "thread_ran CBS k Ofs Len chunk (AewfThreadCRC env Ofs th)"
proof -
  let ?Ret = "if chunk_crc_ok env (th_ChunkBuffUncompressedDataLen th) (th_pChunkBuffUncompressed th) then AEWF_OK
    else AEWF_CHUNK_CRC_ERROR"
  have e: "AewfThreadCRC env Ofs th = thread_copy ?Ret Ofs th"
    using sz th(1) unfolding AewfThreadCRC_def Let_def by (subst if_not_P) simp_all
  show ?thesis
    unfolding e by (rule thread_copy_ran) (use th o sz c in \<open>auto simp: AEWF_OK_def min_def\<close>)
qed

text \<open>What one call of \<open>AewfReadChunkMT\<close> does: an idle thread is launched, or there is none.\<close>

definition mt_launched :: "nat \<Rightarrow> nat \<Rightarrow> t_aewf \<Rightarrow> t_aewf \<Rightarrow> bool" where
  "mt_launched k Len a a' \<longleftrightarrow>
     (\<exists>i th. i < length (ae_pThreadArr a) \<and> \<not> th_Launched (ae_pThreadArr a ! i) \<and> th_Launched th \<and>
        th_ChunkInBuff th = k \<and> th_Len th = Len \<and> ae_pThreadArr a' = (ae_pThreadArr a)[i := th])"

definition no_idle :: "t_aewf \<Rightarrow> bool" where
  "no_idle a \<longleftrightarrow> (\<forall>th \<in> set (ae_pThreadArr a). th_Launched th)"

definition mt_step ::
  "aewf_env \<Rightarrow> t_aewf \<Rightarrow> nat \<Rightarrow> bytes \<Rightarrow> nat \<Rightarrow> nat \<Rightarrow> nat \<Rightarrow> int \<Rightarrow> bytes \<Rightarrow> t_aewf \<Rightarrow> bool" where
  "mt_step env a k pBuf pos Ofs Len rc pBuf' a' \<longleftrightarrow>
     aewf_wf env a' \<and> aewf_base a' = aewf_base a \<and> length pBuf' = length pBuf \<and>
     length (ae_pThreadArr a') = length (ae_pThreadArr a) \<and>
     (rc = AEWF_OK \<longrightarrow> mt_launched k Len a a' \<or> no_idle a \<and> ae_pThreadArr a' = ae_pThreadArr a \<and> pBuf' = pBuf) \<and>
     (\<forall>c. aewf_clean env a \<and> aewf_chunk env a k = Some c \<and> Ofs + Len \<le> length c \<longrightarrow>
        rc = AEWF_OK \<and> aewf_clean env a' \<and> (\<not> no_idle a \<longrightarrow> pBuf' = overwrite pos (segment Ofs Len c) pBuf))"

definition clean_chunk :: "aewf_env \<Rightarrow> t_aewf \<Rightarrow> nat \<Rightarrow> bytes option" where
  "clean_chunk env a k = (if aewf_clean env a then aewf_chunk env a k else None)"

lemma idle_not_all: "i < length (ae_pThreadArr a) \<Longrightarrow> \<not> th_Launched (ae_pThreadArr a ! i) \<Longrightarrow> \<not> no_idle a"
  by (auto simp: no_idle_def)

lemma launch_ok:
  assumes wf: "aewf_wf env a1" and b: "aewf_base a1 = aewf_base a" and arr: "ae_pThreadArr a1 = ae_pThreadArr a"
    and cl: "aewf_clean env a \<Longrightarrow> aewf_clean env a1" and i: "i < length (ae_pThreadArr a)" "\<not> th_Launched (ae_pThreadArr a ! i)"
    and ran: "thread_ran (ae_ChunkBuffSize a1) k Ofs Len (clean_chunk env a k) r" and pos: "pos + Len \<le> length pBuf"
    and cc: "aewf_caches env a"
  shows "\<exists>pBuf' a'. thread_launch i pos pBuf (upd_thread i (\<lambda>_. th0) a1) r = Some (AEWF_OK, pBuf', a') \<and>
    mt_step env a k pBuf pos Ofs Len AEWF_OK pBuf' a'"
proof -
  obtain th out where r: "r = Some (th, out)" and th: "length (th_pChunkBuffUncompressed th) = ae_ChunkBuffSize a1"
    "th_ChunkInBuff th = k" "th_Len th = Len" "length out \<le> Len"
    and c: "\<And>c. clean_chunk env a k = Some c \<Longrightarrow> Ofs + Len \<le> length c \<Longrightarrow>
      th_ReturnCode th = 0 \<and> take (length c) (th_pChunkBuffUncompressed th) = c \<and> out = segment Ofs Len c"
    using ran by (auto simp: thread_ran_def)
  define th' where "th' = th\<lparr>th_Launched := True\<rparr>"
  let ?a = "upd_thread i (\<lambda>_. th') a1"
  have run: "thread_launch i pos pBuf (upd_thread i (\<lambda>_. th0) a1) r = Some (AEWF_OK, overwrite pos out pBuf, ?a)"
    using th(4) pos by (simp add: thread_launch_def r th'_def)
  have th': "length (th_pChunkBuffUncompressed th') = ae_ChunkBuffSize a1" using th(1) by (simp add: th'_def)
  note w = thread_wf [OF wf th', of i]
  have l: "mt_launched k Len a ?a"
    unfolding mt_launched_def upd_thread_sel(12) arr
    using i th by (intro exI [of _ i] exI [of _ th']) (simp add: th'_def)
  have clean: "aewf_clean env ?a \<and> overwrite pos out pBuf = overwrite pos (segment Ofs Len c) pBuf"
    if *: "aewf_clean env a \<and> aewf_chunk env a k = Some c \<and> Ofs + Len \<le> length c" for c
  proof -
    note o = c [of c]
    have "thread_ok env a th'"
      using * o th(2) by (auto simp: thread_ok_def holds_chunk_def th'_def clean_chunk_def)
    then show ?thesis using * o cl w(3) holds_chunk_base [OF cc b] by (simp add: clean_chunk_def)
  qed
  have "mt_step env a k pBuf pos Ofs Len AEWF_OK (overwrite pos out pBuf) ?a"
    unfolding mt_step_def using w(1,2) b l clean th(4) pos arr by auto
  then show ?thesis using run by blast
qed

lemma mt_step_same:
  assumes "aewf_wf env a'" "aewf_base a' = aewf_base a" "length (ae_pThreadArr a') = length (ae_pThreadArr a)"
    "rc \<noteq> AEWF_OK" "clean_chunk env a k = None"
  shows "mt_step env a k pBuf pos Ofs Len rc pBuf a'"
  using assms by (auto simp: mt_step_def clean_chunk_def split: if_splits)

lemma aewf_chunk_size_le: "0 < ae_ChunkSize a \<Longrightarrow> aewf_chunk_size a k \<le> ae_ChunkSize a"
  by (simp add: aewf_chunk_size_def less_imp_le)

lemma chunk_crc_prefix:
  assumes "take (length b) mem = b" "sz + 4 \<le> length b"
  shows "chunk_crc_ok env sz mem = chunk_crc_ok env sz b" "take sz mem = take sz b"
proof -
  show t: "take sz mem = take sz b" using arg_cong [OF assms(1), of "take sz"] assms(2) by simp
  have "segment sz 4 mem = segment sz 4 b" by (rule segment_take_prefix [OF assms])
  then show "chunk_crc_ok env sz mem = chunk_crc_ok env sz b" by (simp add: chunk_crc_ok_def le_at_def t)
qed

lemma AewfReadChunkMT0_ok:
  assumes z: "zlib_ok env" and wf: "aewf_wf env a" and tb: "tb_pEwfTable (ae_pTableArr a ! t) = Some ewf"
    and seg: "tb_pSegment (ae_pTableArr a ! t) < length (ae_pSegmentArr a)"
    "sg_pFile (ae_pSegmentArr a ! tb_pSegment (ae_pTableArr a ! t)) = Some f" "length (f_data f) < 2 ^ 63"
    and pl: "aewf_place (ae_pTableArr a ! t) ewf n = Some (compressed, spos, len)"
    and ch: "aewf_chunk env a k = aewf_decode env (ae_ChunkBuffSize a) (aewf_chunk_size a k) (compressed, spos, len) (f_data f)"
    and len: "Ofs + Len \<le> ae_ChunkSize a" "pos + Len \<le> length pBuf"
  shows "\<exists>rc pBuf' a'. AewfReadChunkMT0 env a t k n pBuf pos Ofs Len = Some (rc, pBuf', a') \<and>
    mt_step env a k pBuf pos Ofs Len rc pBuf' a'"
proof -
  let ?CBS = "ae_ChunkBuffSize a" and ?k = "tb_pSegment (ae_pTableArr a ! t)" and ?sz = "aewf_chunk_size a k"
  have cc: "aewf_caches env a" and w: "0 < ae_ChunkSize a" "ae_ChunkSize a + 4 \<le> ?CBS"
    and ths: "\<forall>th \<in> set (ae_pThreadArr a). length (th_pChunkBuffUncompressed th) = ?CBS"
    using wf by (simp_all add: aewf_wf_def)
  have sz: "?sz + 4 \<le> ?CBS" using aewf_chunk_size_le [OF w(1), of k] w(2) by linarith
  note D = aewf_decodeD [of env ?CBS ?sz compressed spos len f, OF _ seg(3)]
  consider "?CBS < len" | "len \<le> ?CBS" "first_index (\<lambda>th. \<not> th_Launched th) 0 (ae_pThreadArr a) = None"
    | i where "len \<le> ?CBS" "first_index (\<lambda>th. \<not> th_Launched th) 0 (ae_pThreadArr a) = Some i"
    using leI by blast
  then show ?thesis
  proof cases
    case 1
    then have "aewf_chunk env a k = None" unfolding ch by (simp add: aewf_decode_def)
    then have "mt_step env a k pBuf pos Ofs Len AEWF_CHUNK_TOO_BIG pBuf a"
      using wf by (intro mt_step_same) (simp_all add: clean_chunk_def aewf_codes)
    then show ?thesis using 1 by (simp add: AewfReadChunkMT0_def tb seg pl)
  next
    case 2
    then have "no_idle a" by (simp add: first_index_None no_idle_def)
    then have "mt_step env a k pBuf pos Ofs Len AEWF_OK pBuf a" using wf by (simp add: mt_step_def)
    then show ?thesis using 2 by (simp add: AewfReadChunkMT0_def tb seg pl)
  next
    case (3 i)
    then have i: "i < length (ae_pThreadArr a)" "\<not> th_Launched (ae_pThreadArr a ! i)"
      using first_index_Some [OF 3(2)] by simp_all
    define th where "th = (ae_pThreadArr a ! i)\<lparr>th_ChunkBuffUncompressedDataLen := ?sz, th_ChunkInBuff := k, th_Len := Len\<rparr>"
    have th: "length (th_pChunkBuffUncompressed th) = ?CBS" "th_ChunkInBuff th = k" "th_Len th = Len"
      "th_ChunkBuffUncompressedDataLen th = ?sz" using ths i(1) by (simp_all add: th_def)
    obtain rc b f1 where r: "ReadFilePos f len spos = (rc, b, f1)" by (metis prod_cases3)
    note rk = ReadFilePos_keeps [OF r]
    define a1 where "a1 = upd_seg ?k (\<lambda>s. s\<lparr>sg_pFile := Some f1\<rparr>) a"
    note s1 = set_file_wf [OF wf seg(1,2), of f1, folded a1_def]
    have w1: "aewf_wf env a1" "aewf_plain a1 = aewf_plain a" "aewf_clean env a \<Longrightarrow> aewf_clean env a1"
      using s1 rk by simp_all
    note b1 = aewf_base_plain [OF w1(2)]
    note d1 = aewf_plainD [OF w1(2)]
    have run: "AewfReadChunkMT0 env a t k n pBuf pos Ofs Len =
      (if compressed then
         if rc \<noteq> AEWF_OK then Some (rc, pBuf, upd_thread i (\<lambda>_. th) a1)
         else thread_launch i pos pBuf (upd_thread i (\<lambda>_. th) a1) (AewfThreadUncompress env ?CBS b Ofs th)
       else
         (case store_at_start b (th_pChunkBuffUncompressed th) of
            None \<Rightarrow> None
          | Some mem \<Rightarrow>
              if rc \<noteq> AEWF_OK then Some (rc, pBuf, upd_thread i (\<lambda>_. th\<lparr>th_pChunkBuffUncompressed := mem\<rparr>) a1)
              else thread_launch i pos pBuf (upd_thread i (\<lambda>_. th) a1)
                     (AewfThreadCRC env Ofs (th\<lparr>th_pChunkBuffUncompressed := mem\<rparr>))))"
      unfolding AewfReadChunkMT0_def Let_def tb seg(2) pl option.case prod.case 3(2) th_def [symmetric] r a1_def [symmetric]
        upd_thread_twice
      using 3(1) by simp
    have bad: "clean_chunk env a k = None" if "rc \<noteq> AEWF_OK"
      using D r that unfolding clean_chunk_def ch by (cases "aewf_decode env ?CBS ?sz (compressed, spos, len) (f_data f)") auto
    have err: "mt_step env a k pBuf pos Ofs Len rc pBuf (upd_thread i (\<lambda>_. th') a1)"
      if "rc \<noteq> AEWF_OK" "length (th_pChunkBuffUncompressed th') = ?CBS" for th'
      using thread_wf [OF w1(1), of th' i] that bad b1 d1 by (intro mt_step_same) simp_all
    have launch: "\<exists>pBuf' a'. thread_launch i pos pBuf (upd_thread i (\<lambda>_. th) a1) r = Some (AEWF_OK, pBuf', a') \<and>
        mt_step env a k pBuf pos Ofs Len AEWF_OK pBuf' a'"
      if "thread_ran ?CBS k Ofs Len (clean_chunk env a k) r" for r
      by (rule launch_ok [OF w1(1) b1 d1(12) w1(3) i _ len(2) cc]) (use that d1(10) in simp_all)
    show ?thesis
    proof (cases compressed)
      case True
      show ?thesis
      proof (cases "rc = AEWF_OK")
        case ok: True
        have "thread_ran ?CBS k Ofs Len (clean_chunk env a k) (AewfThreadUncompress env ?CBS b Ofs th)"
          by (rule uncompress_ran [OF z th(1-3)])
            (use len w D True r ch th(4) aewf_decode_length in \<open>auto simp: clean_chunk_def split: if_splits\<close>)
        from launch [OF this] show ?thesis using run True ok by auto
      qed (use run True err th in auto)
    next
      case False
      have "length b \<le> length (th_pChunkBuffUncompressed th)" using rk 3(1) th(1) by simp
      then obtain mem where m: "store_at_start b (th_pChunkBuffUncompressed th) = Some mem"
        "length mem = ?CBS" "take (length b) mem = b"
        using store_at_start_ok th(1) by metis
      show ?thesis
      proof (cases "rc = AEWF_OK")
        case ok: True
        have "thread_ran ?CBS k Ofs Len (clean_chunk env a k) (AewfThreadCRC env Ofs (th\<lparr>th_pChunkBuffUncompressed := mem\<rparr>))"
        proof (rule crc_ran)
          fix c assume "clean_chunk env a k = Some c"
          then have "?sz + 4 \<le> length b \<and> chunk_crc_ok env ?sz b \<and> c = take ?sz b"
            using D r False unfolding clean_chunk_def ch by (auto split: if_splits)
          then show "chunk_crc_ok env (th_ChunkBuffUncompressedDataLen (th\<lparr>th_pChunkBuffUncompressed := mem\<rparr>))
              (th_pChunkBuffUncompressed (th\<lparr>th_pChunkBuffUncompressed := mem\<rparr>)) \<and>
            c = take (th_ChunkBuffUncompressedDataLen (th\<lparr>th_pChunkBuffUncompressed := mem\<rparr>))
              (th_pChunkBuffUncompressed (th\<lparr>th_pChunkBuffUncompressed := mem\<rparr>))"
            using chunk_crc_prefix [OF m(3)] th(4) by simp
        qed (use w sz len th m in simp_all)
        from launch [OF this] show ?thesis using run False ok m by auto
      qed (use run False err th m in auto)
    qed
  qed
qed

lemma mt_step_from:
  assumes "aewf_caches env a" "aewf_plain a1 = aewf_plain a" "mt_step env a1 k pBuf pos Ofs Len rc pBuf' a'"
  shows "mt_step env a k pBuf pos Ofs Len rc pBuf' a'"
proof -
  note b = aewf_base_plain [OF assms(2)] and arr = aewf_plainD(12) [OF assms(2)]
  have "no_idle a1 = no_idle a" by (simp add: no_idle_def arr)
  moreover have "mt_launched k Len a1 a' = mt_launched k Len a a'" by (simp add: mt_launched_def arr)
  moreover have "aewf_clean env a \<Longrightarrow> aewf_clean env a1" by (rule clean_plain [OF assms(1) _ assms(2)])
  ultimately show ?thesis
    using assms(3) b unfolding mt_step_def aewf_chunk_base [OF assms(1) b] arr by metis
qed

definition launched_below :: "nat \<Rightarrow> t_aewf \<Rightarrow> bool" where
  "launched_below k a \<longleftrightarrow> (\<forall>th \<in> set (ae_pThreadArr a). th_Launched th \<longrightarrow> th_ChunkInBuff th < k)"

lemma AewfReadChunkMT_ok:
  assumes z: "zlib_ok env" and wf: "aewf_wf env a" and k: "k < AEWF_NONE" and below: "launched_below k a"
    and len: "Ofs + Len \<le> ae_ChunkSize a" "pos + Len \<le> length pBuf"
  shows "\<exists>rc pBuf' a'. AewfReadChunkMT env a k pBuf pos Ofs Len = Some (rc, pBuf', a') \<and>
    mt_step env a k pBuf pos Ofs Len rc pBuf' a'"
proof -
  have cc: "aewf_caches env a" and w: "ae_ChunkSize a + 4 \<le> ae_ChunkBuffSize a"
    and ths: "\<forall>th \<in> set (ae_pThreadArr a). length (th_pChunkBuffUncompressed th) = ae_ChunkBuffSize a"
    using wf by (simp_all add: aewf_wf_def)
  show ?thesis
  proof (cases "first_index (\<lambda>th. th_ChunkInBuff th = k) 0 (ae_pThreadArr a)")
    case (Some i)
    then have i: "i < length (ae_pThreadArr a)" "th_ChunkInBuff (ae_pThreadArr a ! i) = k"
      using first_index_Some [OF Some] by simp_all
    then have idle: "\<not> th_Launched (ae_pThreadArr a ! i)" using below by (auto simp: launched_below_def)
    let ?th = "(ae_pThreadArr a ! i)\<lparr>th_Len := Len\<rparr>"
    have same: "upd_thread i (\<lambda>_. ae_pThreadArr a ! i) a = a" by (simp add: upd_thread_def)
    have "thread_ran (ae_ChunkBuffSize a) k Ofs Len (clean_chunk env a k) (AewfThreadCopy Ofs ?th)"
      unfolding AewfThreadCopy_def
    proof (rule thread_copy_ran)
      fix c assume c: "clean_chunk env a k = Some c"
      have "thread_ok env a (ae_pThreadArr a ! i)" using c i(1) by (auto simp: clean_chunk_def aewf_clean_def split: if_splits)
      then show "AEWF_OK = 0 \<and> take (length c) (th_pChunkBuffUncompressed ?th) = c"
        using c i(2) k by (auto simp: thread_ok_def holds_chunk_def clean_chunk_def AEWF_OK_def split: if_splits)
    qed (use ths i len w in simp_all)
    from launch_ok [OF wf refl refl _ i(1) idle this len(2) cc, of "ae_pThreadArr a ! i", unfolded same]
    show ?thesis by (auto simp: AewfReadChunkMT_def Some)
  next
    case miss: None
    show ?thesis
    proof (cases "aewf_find_table a k")
      case None
      have "mt_step env a k pBuf pos Ofs Len AEWF_CHUNK_NOT_FOUND pBuf a"
        by (rule mt_step_same [OF wf refl refl]) (simp_all add: aewf_codes clean_chunk_def aewf_chunk_def None)
      then show ?thesis by (simp add: AewfReadChunkMT_def miss aewf_prepare_def None aewf_codes)
    next
      case (Some t)
      have k': "k < 2 ^ 64" using k by (simp add: AEWF_NONE_def)
      obtain a1 ewf f place where p: "aewf_prepare env a k = (AEWF_OK, t, a1)" "aewf_wf env a1" "aewf_plain a1 = aewf_plain a"
        "tb_pEwfTable (ae_pTableArr a1 ! t) = Some ewf" "tb_pSegment (ae_pTableArr a1 ! t) < length (ae_pSegmentArr a1)"
        "sg_pFile (ae_pSegmentArr a1 ! tb_pSegment (ae_pTableArr a1 ! t)) = Some f" "length (f_data f) < 2 ^ 63"
        "aewf_place (ae_pTableArr a1 ! t) ewf (sub64 k (tb_ChunkFrom (ae_pTableArr a1 ! t))) = Some place"
        "aewf_chunk env a k = aewf_decode env (ae_ChunkBuffSize a1) (aewf_chunk_size a1 k) place (f_data f)"
        using prepared_chunk [OF wf Some k'] by metis
      obtain compressed spos len where place: "place = (compressed, spos, len)" by (cases place)
      note b = aewf_base_plain [OF p(3)]
      have "\<exists>rc pBuf' a'. AewfReadChunkMT0 env a1 t k (sub64 k (tb_ChunkFrom (ae_pTableArr a1 ! t))) pBuf pos Ofs Len =
          Some (rc, pBuf', a') \<and> mt_step env a1 k pBuf pos Ofs Len rc pBuf' a'"
        by (rule AewfReadChunkMT0_ok [OF z p(2,4,5,6,7) p(8) [unfolded place]])
          (use p(9) place aewf_chunk_base [OF cc b] aewf_plainD(6) [OF p(3)] len in simp_all)
      then show ?thesis using mt_step_from [OF cc p(3)] by (auto simp: AewfReadChunkMT_def miss p(1))
    qed
  qed
qed

section \<open>One chunk with one thread\<close>

lemma legacy_wf:
  assumes wf: "aewf_wf env a" and mem: "length mem = ae_ChunkBuffSize a"
  shows "aewf_wf env (a\<lparr>ae_pChunkBuffUncompressed := mem\<rparr>)" "aewf_wf env (snd (legacy_done rc mem k (aewf_chunk_size a k) a))"
    "aewf_base (snd (legacy_done rc mem k sz a)) = aewf_base a"
proof -
  have c: "aewf_caches env a" "aewf_limits a" using wf by (simp_all add: aewf_wf_def)
  have sz: "aewf_chunk_size (a\<lparr>ae_pChunkBuffUncompressed := mem\<rparr>) n = aewf_chunk_size a n"
    "aewf_chunk_size (snd (legacy_done rc mem k (aewf_chunk_size a k) a)) n = aewf_chunk_size a n" for n
    by (simp_all add: aewf_chunk_size_def legacy_done_def)
  have "aewf_caches env (a\<lparr>ae_pChunkBuffUncompressed := mem\<rparr>) = aewf_caches env a"
    "aewf_caches env (snd (legacy_done rc mem k (aewf_chunk_size a k) a)) = aewf_caches env a"
    by (rule caches_cong; simp add: legacy_done_def)+
  moreover have "aewf_limits (a\<lparr>ae_pChunkBuffUncompressed := mem\<rparr>) = aewf_limits a"
    "aewf_limits (snd (legacy_done rc mem k (aewf_chunk_size a k) a)) = aewf_limits a"
    by (rule limits_cong; simp add: legacy_done_def)+
  ultimately show "aewf_wf env (a\<lparr>ae_pChunkBuffUncompressed := mem\<rparr>)"
    "aewf_wf env (snd (legacy_done rc mem k (aewf_chunk_size a k) a))"
    using wf mem sz by (simp_all add: aewf_wf_def, simp_all add: legacy_done_def)
  show "aewf_base (snd (legacy_done rc mem k sz a)) = aewf_base a"
    by (simp add: legacy_done_def aewf_base_def aewf_plain_def)
qed

definition legacy_step :: "aewf_env \<Rightarrow> t_aewf \<Rightarrow> nat \<Rightarrow> int \<Rightarrow> t_aewf \<Rightarrow> bool" where
  "legacy_step env a k rc a' \<longleftrightarrow>
     aewf_wf env a' \<and> aewf_base a' = aewf_base a \<and> ae_pThreadArr a' = ae_pThreadArr a \<and>
     (rc = AEWF_OK \<longrightarrow> ae_ChunkInBuff a' = k) \<and>
     (\<forall>c. aewf_clean env a \<and> aewf_chunk env a k = Some c \<longrightarrow>
        rc = AEWF_OK \<and> aewf_clean env a' \<and> take (length c) (ae_pChunkBuffUncompressed a') = c)"

lemma legacy_done_step:
  assumes wf: "aewf_wf env a1" and cc: "aewf_caches env a" and b: "aewf_base a1 = aewf_base a"
    and arr: "ae_pThreadArr a1 = ae_pThreadArr a" and cl: "aewf_clean env a \<Longrightarrow> aewf_clean env a1"
    and mem: "length mem = ae_ChunkBuffSize a1"
    and c: "\<And>c. clean_chunk env a k = Some c \<Longrightarrow> rc = AEWF_OK \<and> take (length c) mem = c"
  shows "\<exists>a'. legacy_done rc mem k (aewf_chunk_size a k) a1 = (rc, a') \<and> legacy_step env a k rc a'"
proof -
  define a' where "a' = snd (legacy_done rc mem k (aewf_chunk_size a k) a1)"
  have e: "legacy_done rc mem k (aewf_chunk_size a k) a1 = (rc, a')" by (simp add: a'_def legacy_done_def)
  note w = legacy_wf(2) [OF wf mem, of rc k, unfolded aewf_chunk_size_base [OF b], folded a'_def]
  have b': "aewf_base a' = aewf_base a" unfolding a'_def using legacy_wf(3) [OF wf mem] b by simp
  have f: "ae_pThreadArr a' = ae_pThreadArr a" "ae_pChunkBuffUncompressed a' = mem" "rc = AEWF_OK \<longrightarrow> ae_ChunkInBuff a' = k"
    by (simp_all add: a'_def legacy_done_def arr)
  have "aewf_clean env a' \<and> rc = AEWF_OK \<and> take (length c) mem = c" if *: "aewf_clean env a" "aewf_chunk env a k = Some c" for c
  proof -
    have o: "rc = AEWF_OK \<and> take (length c) mem = c" using c [of c] * by (simp add: clean_chunk_def)
    then have "holds_chunk env a k mem" using * by (auto simp: holds_chunk_def)
    then show ?thesis
      using * o f unfolding aewf_clean_def holds_chunk_base [OF cc b'] by (simp add: aewf_clean_def)
  qed
  then have "legacy_step env a k rc a'" using w b' f by (auto simp: legacy_step_def)
  then show ?thesis using e by blast
qed

lemma AewfReadChunkLegacy0_ok:
  assumes z: "zlib_ok env" and wf: "aewf_wf env a" and tb: "tb_pEwfTable (ae_pTableArr a ! t) = Some ewf"
    and seg: "tb_pSegment (ae_pTableArr a ! t) < length (ae_pSegmentArr a)"
    "sg_pFile (ae_pSegmentArr a ! tb_pSegment (ae_pTableArr a ! t)) = Some f" "length (f_data f) < 2 ^ 63"
    and pl: "aewf_place (ae_pTableArr a ! t) ewf n = Some (compressed, spos, len)"
    and ch: "aewf_chunk env a k = aewf_decode env (ae_ChunkBuffSize a) (aewf_chunk_size a k) (compressed, spos, len) (f_data f)"
  shows "\<exists>rc a'. AewfReadChunkLegacy0 env a t k n = Some (rc, a') \<and> legacy_step env a k rc a'"
proof (cases "ae_ChunkBuffSize a < len")
  case True
  then have "aewf_chunk env a k = None" unfolding ch by (simp add: aewf_decode_def)
  then have "legacy_step env a k AEWF_CHUNK_TOO_BIG a" using wf by (simp add: legacy_step_def aewf_codes)
  then show ?thesis using True by (simp add: AewfReadChunkLegacy0_def tb seg pl)
next
  case False
  let ?CBS = "ae_ChunkBuffSize a" and ?k = "tb_pSegment (ae_pTableArr a ! t)" and ?sz = "aewf_chunk_size a k"
  have cc: "aewf_caches env a" and w: "0 < ae_ChunkSize a" "ae_ChunkSize a + 4 \<le> ?CBS"
    and buf: "length (ae_pChunkBuffUncompressed a) = ?CBS"
    using wf by (simp_all add: aewf_wf_def)
  have sz: "?sz + 4 \<le> ?CBS" using aewf_chunk_size_le [OF w(1), of k] w(2) by linarith
  note D = aewf_decodeD [of env ?CBS ?sz compressed spos len f, OF _ seg(3)]
  obtain rc b f1 where r: "ReadFilePos f len spos = (rc, b, f1)" by (metis prod_cases3)
  note rk = ReadFilePos_keeps [OF r]
  define a1 where "a1 = upd_seg ?k (\<lambda>s. s\<lparr>sg_pFile := Some f1\<rparr>) a"
  note s1 = set_file_wf [OF wf seg(1,2), of f1, folded a1_def]
  have w1: "aewf_wf env a1" "aewf_plain a1 = aewf_plain a" "aewf_clean env a \<Longrightarrow> aewf_clean env a1"
    using s1 rk by simp_all
  note b1 = aewf_base_plain [OF w1(2)]
  note d1 = aewf_plainD [OF w1(2)]
  have sz1: "aewf_chunk_size a1 k = ?sz" by (rule aewf_chunk_size_base [OF b1])
  have run: "AewfReadChunkLegacy0 env a t k n =
    (if compressed then
       if rc \<noteq> AEWF_OK then Some (rc, a1)
       else (case ay_uncompress env b ?CBS of (zrc, out) \<Rightarrow>
         (case store_at_start out (ae_pChunkBuffUncompressed a) of
            None \<Rightarrow> None
          | Some mem \<Rightarrow> Some (legacy_done (if length out \<noteq> ?sz then AEWF_BAD_UNCOMPRESSED_LENGTH
                               else if zrc \<noteq> Z_OK then AEWF_UNCOMPRESS_FAILED else AEWF_OK) mem k ?sz a1)))
     else (case store_at_start b (ae_pChunkBuffUncompressed a) of
         None \<Rightarrow> None
       | Some mem \<Rightarrow>
           if rc \<noteq> AEWF_OK then Some (rc, a1\<lparr>ae_pChunkBuffUncompressed := mem\<rparr>)
           else if ?sz + 4 > length mem then None
           else Some (legacy_done (if chunk_crc_ok env ?sz mem then AEWF_OK else AEWF_CHUNK_CRC_ERROR) mem k ?sz a1)))"
    unfolding AewfReadChunkLegacy0_def Let_def tb seg(2) pl option.case prod.case r a1_def [symmetric]
    using False by simp
  have bad: "clean_chunk env a k = None" if "rc \<noteq> AEWF_OK"
    using D r that unfolding clean_chunk_def ch by (cases "aewf_decode env ?CBS ?sz (compressed, spos, len) (f_data f)") auto
  have bad': "\<not> (aewf_clean env a \<and> aewf_chunk env a k = Some c)" if "rc \<noteq> AEWF_OK" for c
    using bad [OF that] by (auto simp: clean_chunk_def)
  have step: "\<exists>a'. legacy_done rc' mem k ?sz a1 = (rc', a') \<and> legacy_step env a k rc' a'"
    if "length mem = ?CBS" "\<And>c. clean_chunk env a k = Some c \<Longrightarrow> rc' = AEWF_OK \<and> take (length c) mem = c" for rc' mem
    by (rule legacy_done_step [OF w1(1) cc b1 d1(12) w1(3)]) (use that d1(10) in simp_all)
  show ?thesis
  proof (cases compressed)
    case True
    obtain zrc out where u: "ay_uncompress env b ?CBS = (zrc, out)" by force
    have "length out \<le> length (ae_pChunkBuffUncompressed a)" using z buf u by (metis zlib_ok_def snd_conv)
    then obtain mem where m: "store_at_start out (ae_pChunkBuffUncompressed a) = Some mem" "length mem = ?CBS"
      "take (length out) mem = out" using store_at_start_ok buf by metis
    show ?thesis
    proof (cases "rc = AEWF_OK")
      case ok: True
      let ?rc = "if length out \<noteq> ?sz then AEWF_BAD_UNCOMPRESSED_LENGTH
        else if zrc \<noteq> Z_OK then AEWF_UNCOMPRESS_FAILED else AEWF_OK"
      have "\<exists>a'. legacy_done ?rc mem k ?sz a1 = (?rc, a') \<and> legacy_step env a k ?rc a'"
      proof (rule step [OF m(2)])
        fix c assume "clean_chunk env a k = Some c"
        then have d: "aewf_decode env ?CBS ?sz (compressed, spos, len) (f_data f) = Some c"
          unfolding clean_chunk_def ch by (simp split: if_splits)
        then have "zrc = Z_OK \<and> out = c" using D [OF d] r u True by simp
        then show "?rc = AEWF_OK \<and> take (length c) mem = c" using aewf_decode_length [OF d] m(3) by simp
      qed
      then show ?thesis using run True ok u m(1) by auto
    next
      case False
      have "legacy_step env a k rc a1" unfolding legacy_step_def using w1(1) b1 d1(12) False bad' by simp
      then show ?thesis using run True False by simp
    qed
  next
    case False
    have lb: "length b \<le> length (ae_pChunkBuffUncompressed a)" using rk \<open>\<not> ?CBS < len\<close> buf by simp
    then obtain mem where m: "store_at_start b (ae_pChunkBuffUncompressed a) = Some mem" "length mem = ?CBS"
      "take (length b) mem = b" using store_at_start_ok buf by metis
    show ?thesis
    proof (cases "rc = AEWF_OK")
      case ok: True
      let ?rc = "if chunk_crc_ok env ?sz mem then AEWF_OK else AEWF_CHUNK_CRC_ERROR"
      have "\<exists>a'. legacy_done ?rc mem k ?sz a1 = (?rc, a') \<and> legacy_step env a k ?rc a'"
      proof (rule step [OF m(2)])
        fix c assume "clean_chunk env a k = Some c"
        then have c: "?sz + 4 \<le> length b \<and> chunk_crc_ok env ?sz b \<and> c = take ?sz b"
          using D r False unfolding clean_chunk_def ch by (auto split: if_splits)
        then show "?rc = AEWF_OK \<and> take (length c) mem = c"
          using chunk_crc_prefix [OF m(3)] by simp
      qed
      then show ?thesis using run False ok m(1,2) sz by auto
    next
      case bd: False
      have "legacy_step env a k rc (a1\<lparr>ae_pChunkBuffUncompressed := mem\<rparr>)"
        unfolding legacy_step_def using legacy_wf(1) [OF w1(1)] m(2) b1 d1(10,12) bd bad' by simp
      then show ?thesis using run False bd m(1) by simp
    qed
  qed
qed

lemma legacy_step_from:
  assumes "aewf_caches env a" "aewf_plain a1 = aewf_plain a" "legacy_step env a1 k rc a'"
  shows "legacy_step env a k rc a'"
proof -
  note b = aewf_base_plain [OF assms(2)] and arr = aewf_plainD(12) [OF assms(2)]
  have "aewf_clean env a \<Longrightarrow> aewf_clean env a1" by (rule clean_plain [OF assms(1) _ assms(2)])
  then show ?thesis
    using assms(3) b unfolding legacy_step_def aewf_chunk_base [OF assms(1) b] arr by metis
qed

lemma AewfReadChunkLegacy_ok:
  assumes z: "zlib_ok env" and wf: "aewf_wf env a" and k: "k < AEWF_NONE"
  shows "\<exists>rc n a'. AewfReadChunkLegacy env a k = Some (rc, n, a') \<and> legacy_step env a k rc a' \<and>
    (rc = AEWF_OK \<longrightarrow> n = aewf_chunk_size a k)"
proof -
  have cc: "aewf_caches env a" using wf by (simp add: aewf_wf_def)
  have size': "ae_ChunkBuffUncompressedDataLen a' = aewf_chunk_size a k"
    if "legacy_step env a k AEWF_OK a'" for a'
    using that k aewf_chunk_size_base [of a' a k] by (auto simp: legacy_step_def aewf_wf_def)
  show ?thesis
  proof (cases "ae_ChunkInBuff a = k")
    case True
    have "legacy_step env a k AEWF_OK a"
      using wf True k by (auto simp: legacy_step_def aewf_clean_def holds_chunk_def)
    then show ?thesis using True size' by (simp add: AewfReadChunkLegacy_def)
  next
    case miss: False
    show ?thesis
    proof (cases "aewf_find_table a k")
      case None
      have "legacy_step env a k AEWF_CHUNK_NOT_FOUND a"
        using wf by (simp add: legacy_step_def aewf_codes aewf_chunk_def None)
      then show ?thesis by (simp add: AewfReadChunkLegacy_def miss aewf_prepare_def None aewf_codes)
    next
      case (Some t)
      have k': "k < 2 ^ 64" using k by (simp add: AEWF_NONE_def)
      obtain a1 ewf f place where p: "aewf_prepare env a k = (AEWF_OK, t, a1)" "aewf_wf env a1" "aewf_plain a1 = aewf_plain a"
        "tb_pEwfTable (ae_pTableArr a1 ! t) = Some ewf" "tb_pSegment (ae_pTableArr a1 ! t) < length (ae_pSegmentArr a1)"
        "sg_pFile (ae_pSegmentArr a1 ! tb_pSegment (ae_pTableArr a1 ! t)) = Some f" "length (f_data f) < 2 ^ 63"
        "aewf_place (ae_pTableArr a1 ! t) ewf (sub64 k (tb_ChunkFrom (ae_pTableArr a1 ! t))) = Some place"
        "aewf_chunk env a k = aewf_decode env (ae_ChunkBuffSize a1) (aewf_chunk_size a1 k) place (f_data f)"
        using prepared_chunk [OF wf Some k'] by metis
      obtain compressed spos len where place: "place = (compressed, spos, len)" by (cases place)
      note b = aewf_base_plain [OF p(3)]
      have "\<exists>rc a'. AewfReadChunkLegacy0 env a1 t k (sub64 k (tb_ChunkFrom (ae_pTableArr a1 ! t))) = Some (rc, a') \<and>
          legacy_step env a1 k rc a'"
        by (rule AewfReadChunkLegacy0_ok [OF z p(2,4,5,6,7) p(8) [unfolded place]])
          (use p(9) place aewf_chunk_base [OF cc b] in simp_all)
      then obtain rc a' where a': "AewfReadChunkLegacy0 env a1 t k (sub64 k (tb_ChunkFrom (ae_pTableArr a1 ! t))) = Some (rc, a')"
        "legacy_step env a k rc a'" using legacy_step_from [OF cc p(3)] by blast
      have "AewfReadChunkLegacy env a k =
          Some (rc, if rc = AEWF_OK then ae_ChunkBuffUncompressedDataLen a' else 0, a')"
        unfolding AewfReadChunkLegacy_def p(1) prod.case a'(1) option.case using miss by simp
      then show ?thesis using a'(2) size' by (cases "rc = AEWF_OK") auto
    qed
  qed
qed

end
