(* ===== verification/InputAewfRead.thy ===== *)
theory InputAewfRead
  imports InputAewfChunk
begin

text \<open>
  Reading from an EWF image: the loops over the chunks, with one thread and with several. Both
  return on every image; if all chunks are intact, both return the bytes of the disk. What the
  loops do with errors: \<open>AewfRead\<close> does not report them.
\<close>

section \<open>The disk\<close>

text \<open>The number of chunks fits the size of the image, and the chunks are intact.\<close>

definition aewf_sizes :: "t_aewf \<Rightarrow> bool" where
  "aewf_sizes a \<longleftrightarrow> 0 < ae_ChunkSize a \<and> ae_ChunkSize a * (ae_Chunks a - 1) < ae_ImageSize a \<and>
     ae_ImageSize a \<le> ae_ChunkSize a * ae_Chunks a \<and> 0 < ae_Chunks a \<and> ae_Chunks a < 2 ^ 64"

definition aewf_intact :: "aewf_env \<Rightarrow> t_aewf \<Rightarrow> bool" where
  "aewf_intact env a \<longleftrightarrow> aewf_sizes a \<and> (\<forall>k < ae_Chunks a. aewf_chunk env a k \<noteq> None)"

definition aewf_disk :: "aewf_env \<Rightarrow> t_aewf \<Rightarrow> bytes" where
  "aewf_disk env a = concat (map (\<lambda>k. the (aewf_chunk env a k)) [0..<ae_Chunks a])"

lemma aewf_sizes_base: "aewf_base a' = aewf_base a \<Longrightarrow> aewf_sizes a' = aewf_sizes a"
  by (simp add: aewf_sizes_def aewf_baseD(3-5) [of a' a])

lemma aewf_intact_base:
  assumes "aewf_caches env a" "aewf_base a' = aewf_base a"
  shows "aewf_intact env a' = aewf_intact env a" "aewf_disk env a' = aewf_disk env a"
  unfolding aewf_intact_def aewf_disk_def aewf_sizes_base [OF assms(2)] aewf_chunk_base [OF assms] aewf_baseD(3) [OF assms(2)]
  by (rule refl)+

text \<open>A piece of the disk that lies in one chunk.\<close>

lemma last_chunk_size:
  assumes "aewf_sizes a"
  shows "(ae_Chunks a - 1) * ae_ChunkSize a + aewf_chunk_size a (ae_Chunks a - 1) = ae_ImageSize a"
proof -
  let ?cs = "ae_ChunkSize a" and ?m = "ae_Chunks a - 1"
  define e where "e = ae_ImageSize a - ?m * ?cs"
  have n: "sub64 (ae_Chunks a) 1 = ?m" using assms by (simp add: aewf_sizes_def sub64_small)
  have "?cs * ae_Chunks a = ?m * ?cs + ?cs" using assms by (cases "ae_Chunks a") (simp_all add: aewf_sizes_def)
  moreover have "?m * ?cs < ae_ImageSize a" "ae_ImageSize a \<le> ?cs * ae_Chunks a"
    using assms by (simp_all add: aewf_sizes_def mult.commute)
  ultimately have e: "ae_ImageSize a = e + ?m * ?cs" "0 < e" "e \<le> ?cs" unfolding e_def by linarith+
  have "ae_ImageSize a mod ?cs = e mod ?cs" unfolding e(1) by simp
  then have "aewf_chunk_size a ?m = e" using e n by (cases "e = ?cs") (simp_all add: aewf_chunk_size_def)
  then show ?thesis using e(1) by simp
qed

lemma chunk_fits:
  assumes s: "aewf_sizes a" and e: "k * ae_ChunkSize a + e \<le> ae_ImageSize a" "0 < e" "e \<le> ae_ChunkSize a"
  shows "k < ae_Chunks a" "e \<le> aewf_chunk_size a k"
proof -
  let ?cs = "ae_ChunkSize a" and ?n = "ae_Chunks a"
  have "ae_ImageSize a \<le> ?cs * ?n" using s by (simp add: aewf_sizes_def)
  then have "?cs * k < ?cs * ?n" using e(1,2) by (simp only: mult.commute [of k])
  then show k: "k < ?n" by simp
  show "e \<le> aewf_chunk_size a k"
  proof (cases "k = ?n - 1")
    case True
    then show ?thesis using last_chunk_size [OF s] e(1) by simp
  next
    case False
    then show ?thesis using e(3) s by (auto simp: aewf_chunk_size_def aewf_sizes_def sub64_small)
  qed
qed

lemma drop_concat_front:
  assumes "i < length xss" "\<And>j. j < i \<Longrightarrow> length (xss ! j) = n"
  shows "drop (i * n) (concat xss) = concat (drop i xss)"
  using assms
proof (induction xss arbitrary: i)
  case (Cons xs xss)
  show ?case
  proof (cases i)
    case (Suc m)
    have "length xs = n" using Cons.prems(2) [of 0] Suc by simp
    moreover have "drop (m * n) (concat xss) = concat (drop m xss)"
      by (rule Cons.IH) (use Cons.prems(1) Cons.prems(2) [of "Suc _"] Suc in auto)
    ultimately show ?thesis using Suc by simp
  qed simp
qed simp

lemma segment_disk:
  assumes i: "aewf_intact env a" and k: "k < ae_Chunks a" and c: "aewf_chunk env a k = Some c" "Ofs + Len \<le> length c"
  shows "segment (k * ae_ChunkSize a + Ofs) Len (aewf_disk env a) = segment Ofs Len c"
proof -
  let ?xss = "map (\<lambda>k. the (aewf_chunk env a k)) [0..<ae_Chunks a]"
  have n: "sub64 (ae_Chunks a) 1 = ae_Chunks a - 1" using i by (simp add: aewf_intact_def aewf_sizes_def sub64_small)
  have "length (?xss ! j) = ae_ChunkSize a" if "j < k" for j
  proof -
    have "aewf_chunk env a j \<noteq> None" using i less_trans [OF that k] by (simp add: aewf_intact_def)
    then obtain c' where c': "aewf_chunk env a j = Some c'" by blast
    have "j \<noteq> ae_Chunks a - 1" using that k by linarith
    then have "aewf_chunk_size a j = ae_ChunkSize a" unfolding aewf_chunk_size_def n by simp
    then show ?thesis using c' aewf_chunk_length [OF c'] that k by simp
  qed
  then have "drop (k * ae_ChunkSize a) (aewf_disk env a) = concat (drop k ?xss)"
    unfolding aewf_disk_def using k by (intro drop_concat_front) auto
  also have "drop k ?xss = c # drop (Suc k) ?xss"
    using k c(1) Cons_nth_drop_Suc [of k ?xss] by simp
  finally have "drop Ofs (drop (k * ae_ChunkSize a) (aewf_disk env a)) = drop Ofs (c @ concat (drop (Suc k) ?xss))" by simp
  then show ?thesis using c(2) by (simp add: segment_def add.commute)
qed

lemma length_aewf_disk:
  assumes "aewf_intact env a"
  shows "length (aewf_disk env a) = ae_ImageSize a"
proof -
  let ?cs = "ae_ChunkSize a" and ?n = "ae_Chunks a" and ?l = "\<lambda>k. length (the (aewf_chunk env a k))"
  have l: "?l k = aewf_chunk_size a k" if "k < ?n" for k
    using assms that aewf_chunk_length by (auto simp: aewf_intact_def)
  have s: "aewf_sizes a" using assms by (simp add: aewf_intact_def)
  have n: "sub64 ?n 1 = ?n - 1" "0 < ?n" using s by (simp_all add: aewf_sizes_def sub64_small)
  have m: "length (concat (map (\<lambda>k. the (aewf_chunk env a k)) [0..<m])) = m * ?cs" if "m \<le> ?n - 1" for m
    using that
  proof (induction m)
    case (Suc m)
    then have "?l m = ?cs" using l [of m] n by (simp add: aewf_chunk_size_def)
    then show ?case using Suc by simp
  qed simp
  have "aewf_disk env a = concat (map (\<lambda>k. the (aewf_chunk env a k)) [0..<Suc (?n - 1)])" using n by (simp add: aewf_disk_def)
  then have "length (aewf_disk env a) = (?n - 1) * ?cs + ?l (?n - 1)" using m [of "?n - 1"] by simp
  also have "?l (?n - 1) = aewf_chunk_size a (?n - 1)" using l n by simp
  also have "(?n - 1) * ?cs + aewf_chunk_size a (?n - 1) = ae_ImageSize a" by (rule last_chunk_size [OF s])
  finally show ?thesis .
qed


section \<open>Several threads: one round\<close>

text \<open>What the threads that have been launched report as read.\<close>

definition launched_sum :: "t_aewf \<Rightarrow> nat" where
  "launched_sum a = sum_list (map (\<lambda>th. if th_Launched th then th_Len th else 0) (ae_pThreadArr a))"

lemma mt_launched_sum:
  assumes "mt_launched k Len a a'"
  shows "launched_sum a' = launched_sum a + Len" "\<not> no_idle a"
proof -
  obtain i th where i: "i < length (ae_pThreadArr a)" "\<not> th_Launched (ae_pThreadArr a ! i)" "th_Launched th" "th_Len th = Len"
    "ae_pThreadArr a' = (ae_pThreadArr a)[i := th]" using assms by (auto simp: mt_launched_def)
  show "\<not> no_idle a" using i(1,2) by (rule idle_not_all)
  show "launched_sum a' = launched_sum a + Len"
    using sum_update [OF i(1), of "\<lambda>th. if th_Launched th then th_Len th else 0" th] i by (simp add: launched_sum_def)
qed

lemma mt_launched_below:
  assumes "mt_launched k Len a a'" "launched_below k a"
  shows "launched_below (k + 1) a'"
proof -
  obtain i th where i: "th_ChunkInBuff th = k" "ae_pThreadArr a' = (ae_pThreadArr a)[i := th]"
    using assms(1) by (auto simp: mt_launched_def)
  show ?thesis
    unfolding launched_below_def i(2)
    by (rule set_update_ball) (use assms(2) i(1) in \<open>auto simp: launched_below_def\<close>)
qed

text \<open>The result of the first loop for \<open>n\<close> bytes from \<open>x\<close> on, stored at \<open>pos\<close>;
  \<open>r\<close> bytes have been given to threads.\<close>

definition mt_round :: "aewf_env \<Rightarrow> t_aewf \<Rightarrow> bytes \<Rightarrow> nat \<Rightarrow> nat \<Rightarrow> nat \<Rightarrow> int \<Rightarrow> bytes \<Rightarrow> t_aewf \<Rightarrow> nat \<Rightarrow> bool" where
  "mt_round env a pBuf pos x n rc pBuf' a' r \<longleftrightarrow>
     aewf_wf env a' \<and> aewf_base a' = aewf_base a \<and> length pBuf' = length pBuf \<and>
     length (ae_pThreadArr a') = length (ae_pThreadArr a) \<and>
     (rc = AEWF_OK \<longrightarrow> r \<le> n \<and> launched_sum a' = launched_sum a + r \<and> (r = 0 \<longleftrightarrow> no_idle a \<or> n = 0)) \<and>
     (aewf_clean env a \<and> aewf_intact env a \<and> x + n \<le> ae_ImageSize a \<longrightarrow>
        rc = AEWF_OK \<and> aewf_clean env a' \<and> pBuf' = overwrite pos (segment x r (aewf_disk env a)) pBuf)"

lemma mt_round_step:
  assumes cc: "aewf_caches env a" and st: "mt_step env a k pBuf pos Ofs Len AEWF_OK pBuf1 a1" and len: "0 < Len" "Len \<le> n"
    and rd: "mt_round env a1 pBuf1 (pos + Len) (x + Len) (n - Len) rc pBuf2 a2 r" and pos: "pos + n \<le> length pBuf"
    and piece: "aewf_intact env a \<Longrightarrow> x + n \<le> ae_ImageSize a \<Longrightarrow>
      \<exists>c. aewf_chunk env a k = Some c \<and> Ofs + Len \<le> length c \<and> segment x Len (aewf_disk env a) = segment Ofs Len c"
  shows "\<exists>r. mt_round env a pBuf pos x n rc pBuf2 a2 r"
proof -
  have b: "aewf_base a1 = aewf_base a" using st by (simp add: mt_step_def)
  note eqs = aewf_intact_base [OF cc b] aewf_baseD(5) [OF b]
  let ?d = "aewf_disk env a" and ?ok = "aewf_clean env a \<and> aewf_intact env a \<and> x + n \<le> ae_ImageSize a"
  have good: "rc = AEWF_OK \<and> aewf_clean env a2 \<and> pBuf2 = overwrite (pos + Len) (segment (x + Len) r ?d) pBuf1 \<and>
      (\<not> no_idle a \<longrightarrow> pBuf1 = overwrite pos (segment x Len ?d) pBuf)" if ok: ?ok
  proof -
    obtain c where c: "aewf_chunk env a k = Some c" "Ofs + Len \<le> length c" "segment x Len ?d = segment Ofs Len c"
      using piece ok by blast
    then have "aewf_clean env a1 \<and> (\<not> no_idle a \<longrightarrow> pBuf1 = overwrite pos (segment x Len ?d) pBuf)"
      using st ok by (simp add: mt_step_def)
    then show ?thesis using rd ok len unfolding mt_round_def eqs by simp
  qed
  have same: "aewf_wf env a2 \<and> aewf_base a2 = aewf_base a \<and> length pBuf2 = length pBuf \<and>
      length (ae_pThreadArr a2) = length (ae_pThreadArr a)"
    using rd st b by (simp add: mt_round_def mt_step_def)
  consider "mt_launched k Len a a1" | "no_idle a" "ae_pThreadArr a1 = ae_pThreadArr a" "pBuf1 = pBuf"
    using st by (auto simp: mt_step_def)
  then show ?thesis
  proof cases
    case 1
    note l = mt_launched_sum [OF 1]
    have "pBuf2 = overwrite pos (segment x (Len + r) ?d) pBuf" if ok: ?ok
    proof -
      have "length (segment x Len ?d) = Len" using ok len(2) length_aewf_disk [of env a] by auto
      then have "pBuf2 = overwrite (pos + length (segment x Len ?d)) (segment (x + Len) r ?d) (overwrite pos (segment x Len ?d) pBuf)"
        using good [OF ok] l(2) by simp
      also have "\<dots> = overwrite pos (segment x Len ?d @ segment (x + Len) r ?d) pBuf"
        using pos len by (intro overwrite_overwrite_adjacent) simp
      finally show ?thesis by (simp add: segment_join)
    qed
    with good have "?ok \<longrightarrow> rc = AEWF_OK \<and> aewf_clean env a2 \<and> pBuf2 = overwrite pos (segment x (Len + r) ?d) pBuf"
      by blast
    moreover have "Len + r \<le> n \<and> launched_sum a2 = launched_sum a + (Len + r) \<and> (Len + r = 0 \<longleftrightarrow> no_idle a \<or> n = 0)"
      if "rc = AEWF_OK"
    proof -
      have "r \<le> n - Len" "launched_sum a2 = launched_sum a1 + r" using rd that by (simp_all add: mt_round_def)
      then show ?thesis using l len by simp
    qed
    ultimately have "mt_round env a pBuf pos x n rc pBuf2 a2 (Len + r)"
      unfolding mt_round_def using same by blast
    then show ?thesis by blast
  next
    case 2
    have "launched_sum a1 = launched_sum a" "no_idle a1" using 2 by (simp_all add: launched_sum_def no_idle_def)
    then have r: "rc = AEWF_OK \<longrightarrow> r = 0 \<and> launched_sum a2 = launched_sum a" using rd by (simp add: mt_round_def)
    have "rc = AEWF_OK \<and> aewf_clean env a2 \<and> pBuf2 = overwrite pos (segment x 0 ?d) pBuf" if ok: ?ok
    proof -
      have "pBuf2 = pBuf" using good [OF ok] r 2(3) pos len by simp
      then show ?thesis using good [OF ok] pos by simp
    qed
    then have "mt_round env a pBuf pos x n rc pBuf2 a2 0"
      unfolding mt_round_def using same r 2(1) by simp
    then show ?thesis by blast
  qed
qed

lemma AewfReadMT0_loop_ok:
  assumes z: "zlib_ok env"
  shows "aewf_wf env a \<Longrightarrow> launched_below k a \<Longrightarrow> Ofs < ae_ChunkSize a \<Longrightarrow> k * ae_ChunkSize a + Ofs + n \<le> AEWF_NONE \<Longrightarrow>
    pos + n \<le> length pBuf \<Longrightarrow>
    \<exists>rc pBuf' a' r. AewfReadMT0_loop env a k pBuf pos Ofs n = Some (rc, pBuf', a') \<and>
      mt_round env a pBuf pos (k * ae_ChunkSize a + Ofs) n rc pBuf' a' r"
proof (induction n arbitrary: a k pBuf pos Ofs rule: less_induct)
  case (less n a k pBuf pos Ofs)
  let ?cs = "ae_ChunkSize a" and ?x = "k * ae_ChunkSize a + Ofs"
  have cc: "aewf_caches env a" and cs: "0 < ?cs" using less.prems(1) by (simp_all add: aewf_wf_def)
  show ?case
  proof (cases "n = 0")
    case True
    have "mt_round env a pBuf pos ?x 0 AEWF_OK pBuf a 0" using less.prems by (simp add: mt_round_def)
    then show ?thesis using True by (subst AewfReadMT0_loop.simps) auto
  next
    case False
    define Len where "Len = min (?cs - Ofs) n"
    have len: "0 < Len" "Len \<le> n" "Ofs + Len \<le> ?cs" using less.prems(3) False by (auto simp: Len_def)
    have "k \<le> k * ?cs" using cs by simp
    then have k: "k < AEWF_NONE" using less.prems(4) False by linarith
    obtain rc pBuf1 a1 where r: "AewfReadChunkMT env a k pBuf pos Ofs Len = Some (rc, pBuf1, a1)"
      and st: "mt_step env a k pBuf pos Ofs Len rc pBuf1 a1"
      using AewfReadChunkMT_ok [OF z less.prems(1) k less.prems(2) len(3), of pos pBuf] less.prems(5) len(2) by auto
    have sub: "min (sub64 ?cs Ofs) n = Len"
      using less.prems(1,3) by (simp add: Len_def aewf_wf_def sub64_small)
    have step: "AewfReadMT0_loop env a k pBuf pos Ofs n =
      (if rc \<noteq> AEWF_OK then Some (rc, pBuf1, a1)
       else AewfReadMT0_loop env a1 (u64 (k + 1)) pBuf1 (pos + Len) 0 (n - Len))"
      by (subst AewfReadMT0_loop.simps) (simp add: False sub r)
    have piece: "\<exists>c. aewf_chunk env a k = Some c \<and> Ofs + Len \<le> length c \<and> segment ?x Len (aewf_disk env a) = segment Ofs Len c"
      if i: "aewf_intact env a" "?x + n \<le> ae_ImageSize a"
    proof -
      have "aewf_sizes a" using i by (simp add: aewf_intact_def)
      from chunk_fits [OF this, of k "Ofs + Len"] have f: "k < ae_Chunks a" "Ofs + Len \<le> aewf_chunk_size a k"
        using i(2) len by simp_all
      then obtain c where c: "aewf_chunk env a k = Some c" using i(1) by (auto simp: aewf_intact_def)
      then show ?thesis using segment_disk [OF i(1) f(1) c] aewf_chunk_length [OF c] f(2) by auto
    qed
    show ?thesis
    proof (cases "rc = AEWF_OK")
      case ok: True
      have b: "aewf_wf env a1" "aewf_base a1 = aewf_base a" "length pBuf1 = length pBuf" using st by (simp_all add: mt_step_def)
      note cs1 = aewf_baseD(4) [OF b(2)]
      have "\<exists>rc2 pBuf2 a2 r2. AewfReadMT0_loop env a1 (u64 (k + 1)) pBuf1 (pos + Len) 0 (n - Len) = Some (rc2, pBuf2, a2) \<and>
          mt_round env a1 pBuf1 (pos + Len) (?x + Len) (n - Len) rc2 pBuf2 a2 r2"
      proof (cases "n = Len")
        case True
        have "mt_round env a1 pBuf1 (pos + Len) (?x + Len) 0 AEWF_OK pBuf1 a1 0"
          using b less.prems(5) True by (simp add: mt_round_def)
        then show ?thesis using True by (subst AewfReadMT0_loop.simps) auto
      next
        case False
        then have l: "Len = ?cs - Ofs" "Len < n" using len(2) by (auto simp: Len_def)
        have x: "?x + Len = (k + 1) * ae_ChunkSize a1 + 0" using l(1) less.prems(3) cs1 by simp
        have u: "u64 (k + 1) = k + 1" using k by (simp add: AEWF_NONE_def u64_small)
        have "launched_below (k + 1) a1"
          using st less.prems(2) mt_launched_below unfolding mt_step_def ok
          by (metis launched_below_def less_SucI Suc_eq_plus1)
        moreover have "(k + 1) * ae_ChunkSize a1 + 0 + (n - Len) \<le> AEWF_NONE" using x l(2) less.prems(4) by linarith
        ultimately show ?thesis
          unfolding u x using less.prems(5) l(2) len(1) b cs1 cs by (intro less.IH) simp_all
      qed
      then obtain rc2 pBuf2 a2 r2 where n: "AewfReadMT0_loop env a k pBuf pos Ofs n = Some (rc2, pBuf2, a2)"
        and rd: "mt_round env a1 pBuf1 (pos + Len) (?x + Len) (n - Len) rc2 pBuf2 a2 r2"
        using step ok by auto
      show ?thesis using mt_round_step [OF cc st [unfolded ok] len(1,2) rd less.prems(5) piece] n by blast
    next
      case False
      have "mt_round env a pBuf pos ?x n rc pBuf1 a1 0"
        using st False piece by (auto simp: mt_round_def mt_step_def)
      then show ?thesis using step False by auto
    qed
  qed
qed

lemma AewfReadMT0_join_eq:
  "AewfReadMT0_join ths rc n = (rc', n') \<Longrightarrow>
   n' = n + sum_list (map (\<lambda>th. if th_Launched th then th_Len th else 0) ths) \<and>
   ((\<forall>th \<in> set ths. th_Launched th \<longrightarrow> th_ReturnCode th = 0) \<longrightarrow> rc' = rc)"
proof (induction ths arbitrary: rc n)
  case (Cons th ths)
  from Cons.IH Cons.prems show ?case by (fastforce split: if_splits)
qed simp

text \<open>Between the rounds no thread runs.\<close>

definition all_idle :: "t_aewf \<Rightarrow> bool" where
  "all_idle a \<longleftrightarrow> (\<forall>th \<in> set (ae_pThreadArr a). \<not> th_Launched th)"

lemma joined_ok:
  fixes a :: t_aewf
  assumes wf: "aewf_wf env a"
  defines "a' \<equiv> a\<lparr>ae_pThreadArr := map (\<lambda>th. th\<lparr>th_Launched := False\<rparr>) (ae_pThreadArr a)\<rparr>"
  shows "aewf_wf env a' \<and> aewf_base a' = aewf_base a \<and> all_idle a' \<and> length (ae_pThreadArr a') = length (ae_pThreadArr a) \<and>
    (aewf_clean env a \<longrightarrow> aewf_clean env a')"
proof -
  have b: "aewf_base a' = aewf_base a" by (simp add: a'_def)
  have c: "aewf_caches env a" "aewf_limits a" using wf by (simp_all add: aewf_wf_def)
  have "aewf_caches env a' = aewf_caches env a" by (rule caches_cong) (simp_all add: a'_def)
  moreover have "aewf_limits a' = aewf_limits a" by (rule limits_cong) (simp_all add: a'_def)
  ultimately have "aewf_wf env a'"
    using wf unfolding aewf_wf_def aewf_chunk_size_base [OF b] by (simp add: a'_def)
  moreover have "aewf_clean env a \<longrightarrow> aewf_clean env a'"
    unfolding aewf_clean_def holds_chunk_base [OF c(1) b] by (simp add: a'_def thread_ok_def)
  ultimately show ?thesis using b by (simp add: a'_def all_idle_def)
qed

text \<open>A round reads at least one byte.\<close>

definition read_result :: "aewf_env \<Rightarrow> t_aewf \<Rightarrow> bytes \<Rightarrow> nat \<Rightarrow> nat \<Rightarrow> nat \<Rightarrow> int \<Rightarrow> bytes \<Rightarrow> nat \<Rightarrow> t_aewf \<Rightarrow> bool" where
  "read_result env a pBuf pos x n rc pBuf' r a' \<longleftrightarrow>
     aewf_wf env a' \<and> aewf_base a' = aewf_base a \<and> length pBuf' = length pBuf \<and> (all_idle a \<longrightarrow> all_idle a') \<and>
     length (ae_pThreadArr a') = length (ae_pThreadArr a) \<and>
     (aewf_clean env a \<and> aewf_intact env a \<and> x + n \<le> ae_ImageSize a \<longrightarrow>
        rc = AEWF_OK \<and> aewf_clean env a' \<and> pBuf' = overwrite pos (segment x r (aewf_disk env a)) pBuf)"

lemma AewfReadMT0_ok:
  assumes z: "zlib_ok env" and wf: "aewf_wf env a" and idle: "all_idle a" "ae_pThreadArr a \<noteq> []"
    and n: "0 < n" "x + n \<le> AEWF_NONE" "pos + n \<le> length pBuf"
  shows "\<exists>rc pBuf' r a'. AewfReadMT0 env a pBuf pos x n = Some (rc, pBuf', r, a') \<and>
    read_result env a pBuf pos x n rc pBuf' r a' \<and> (rc = AEWF_OK \<longrightarrow> 0 < r \<and> r \<le> n)"
proof -
  let ?cs = "ae_ChunkSize a"
  have cs: "0 < ?cs" using wf by (simp add: aewf_wf_def)
  have x: "x div ?cs * ?cs + x mod ?cs = x" by simp
  have below: "launched_below (x div ?cs) a" using idle by (simp add: launched_below_def all_idle_def)
  have l0: "launched_sum a = 0" "\<not> no_idle a"
    using idle by (auto simp: launched_sum_def all_idle_def no_idle_def neq_Nil_conv)
  obtain rc pBuf1 a1 r where run: "AewfReadMT0_loop env a (x div ?cs) pBuf pos (x mod ?cs) n = Some (rc, pBuf1, a1)"
    and rd: "mt_round env a pBuf pos x n rc pBuf1 a1 r"
    using AewfReadMT0_loop_ok [OF z wf below, of "x mod ?cs" n pos pBuf, unfolded x] cs n by auto
  obtain RcThread Read where j: "AewfReadMT0_join (ae_pThreadArr a1) 0 0 = (RcThread, Read)" by force
  note jj = AewfReadMT0_join_eq [OF j]
  define a2 where "a2 = a1\<lparr>ae_pThreadArr := map (\<lambda>th. th\<lparr>th_Launched := False\<rparr>) (ae_pThreadArr a1)\<rparr>"
  have w1: "aewf_wf env a1" using rd by (simp add: mt_round_def)
  note a2 = joined_ok [OF w1, folded a2_def]
  define rc' where "rc' = (if rc \<noteq> AEWF_OK then rc else RcThread)"
  have eq: "AewfReadMT0 env a pBuf pos x n = Some (rc', pBuf1, Read, a2)"
    unfolding AewfReadMT0_def run option.case prod.case j Let_def a2_def [symmetric] rc'_def using cs n by simp
  have r: "Read = r \<and> 0 < r \<and> r \<le> n" if "rc = AEWF_OK"
    using rd that l0 jj n(1) by (simp add: mt_round_def launched_sum_def)
  have good: "rc' = AEWF_OK \<and> aewf_clean env a2 \<and> pBuf1 = overwrite pos (segment x Read (aewf_disk env a)) pBuf"
    if *: "aewf_clean env a \<and> aewf_intact env a \<and> x + n \<le> ae_ImageSize a"
  proof -
    have g: "rc = AEWF_OK" "aewf_clean env a1" "pBuf1 = overwrite pos (segment x r (aewf_disk env a)) pBuf"
      using rd * by (simp_all add: mt_round_def)
    then have "RcThread = 0" using jj by (simp add: aewf_clean_def thread_ok_def)
    then show ?thesis using g r a2 by (simp add: rc'_def AEWF_OK_def)
  qed
  have "read_result env a pBuf pos x n rc' pBuf1 Read a2"
    using a2 rd good by (simp add: read_result_def mt_round_def)
  moreover have "rc' = AEWF_OK \<longrightarrow> 0 < Read \<and> Read \<le> n" using r by (simp add: rc'_def)
  ultimately show ?thesis using eq by blast
qed

section \<open>The loops\<close>

lemma read_result_step:
  assumes cc: "aewf_caches env a" and st: "read_result env a pBuf pos x n1 rc1 pBuf1 r a1" "n1 \<le> n" "r \<le> n1"
    and rd: "read_result env a1 pBuf1 (pos + r) (x + r) (n - r) rc pBuf2 (n - r) a2" and pos: "pos + n \<le> length pBuf"
  shows "read_result env a pBuf pos x n rc pBuf2 n a2"
proof -
  have b: "aewf_base a1 = aewf_base a" using st by (simp add: read_result_def)
  note eqs = aewf_intact_base [OF cc b] aewf_baseD(5) [OF b]
  let ?d = "aewf_disk env a"
  have "rc = AEWF_OK \<and> aewf_clean env a2 \<and> pBuf2 = overwrite pos (segment x n ?d) pBuf"
    if ok: "aewf_clean env a \<and> aewf_intact env a \<and> x + n \<le> ae_ImageSize a"
  proof -
    have 1: "aewf_clean env a1 \<and> pBuf1 = overwrite pos (segment x r ?d) pBuf" using st ok by (simp add: read_result_def)
    have 2: "rc = AEWF_OK \<and> aewf_clean env a2 \<and> pBuf2 = overwrite (pos + r) (segment (x + r) (n - r) ?d) pBuf1"
      using rd ok 1 st(2,3) unfolding read_result_def eqs by simp
    have l: "length (segment x r ?d) = r" using ok st(2,3) length_aewf_disk [of env a] by auto
    have "pBuf2 = overwrite (pos + length (segment x r ?d)) (segment (x + r) (n - r) ?d) (overwrite pos (segment x r ?d) pBuf)"
      using 1 2 l by simp
    also have "\<dots> = overwrite pos (segment x r ?d @ segment (x + r) (n - r) ?d) pBuf"
      using pos by (intro overwrite_overwrite_adjacent) simp
    finally show ?thesis using 2 st(2,3) by (simp add: segment_join)
  qed
  then show ?thesis using st rd b unfolding read_result_def by simp
qed

lemma AewfReadMT_loop_ok:
  assumes z: "zlib_ok env"
  shows "aewf_wf env a \<Longrightarrow> all_idle a \<Longrightarrow> ae_pThreadArr a \<noteq> [] \<Longrightarrow> 0 < u64 (ae_Threads a * ae_ChunkSize a) \<Longrightarrow>
    x + n \<le> AEWF_NONE \<Longrightarrow> pos + n \<le> length pBuf \<Longrightarrow>
    \<exists>rc pBuf' m a'. AewfReadMT_loop env a pBuf x n pos = Some (rc, pBuf', m, a') \<and>
      read_result env a pBuf pos x n rc pBuf' n a' \<and> (rc = AEWF_OK \<longrightarrow> m = pos + n)"
proof (induction n arbitrary: a x pos pBuf rule: less_induct)
  case (less n a x pos pBuf)
  have cc: "aewf_caches env a" using less.prems(1) by (simp add: aewf_wf_def)
  show ?case
  proof (cases "n = 0")
    case True
    have "read_result env a pBuf pos x 0 AEWF_OK pBuf 0 a" using less.prems by (simp add: read_result_def)
    then show ?thesis using True by (subst AewfReadMT_loop.simps) auto
  next
    case False
    define n1 where "n1 = min (u64 (ae_Threads a * ae_ChunkSize a)) n"
    have n1: "0 < n1" "n1 \<le> n" using less.prems(4) False by (auto simp: n1_def)
    obtain rc pBuf1 r a1 where run: "AewfReadMT0 env a pBuf pos x n1 = Some (rc, pBuf1, r, a1)"
      and st: "read_result env a pBuf pos x n1 rc pBuf1 r a1" and r: "rc = AEWF_OK \<longrightarrow> 0 < r \<and> r \<le> n1"
      using AewfReadMT0_ok [OF z less.prems(1-3) n1(1), of x pos pBuf] n1(2) less.prems(5,6) by auto
    show ?thesis
    proof (cases "rc = AEWF_OK")
      case True
      have rr: "0 < r" "r \<le> n1" using r True by simp_all
      have s: "u64 (x + r) = x + r" "sub64 n r = n - r"
        using rr n1 less.prems(5) by (simp_all add: AEWF_NONE_def u64_small sub64_small)
      have step: "AewfReadMT_loop env a pBuf x n pos = AewfReadMT_loop env a1 pBuf1 (x + r) (n - r) (pos + r)"
        by (subst AewfReadMT_loop.simps) (simp add: False n1_def [symmetric] run True s)
      have b: "aewf_base a1 = aewf_base a" "aewf_wf env a1" "all_idle a1" "length (ae_pThreadArr a1) = length (ae_pThreadArr a)"
        "length pBuf1 = length pBuf" using st less.prems(2) by (simp_all add: read_result_def)
      have "ae_pThreadArr a1 \<noteq> []" using b(4) less.prems(3) by auto
      then have "\<exists>rc pBuf' m a'. AewfReadMT_loop env a1 pBuf1 (x + r) (n - r) (pos + r) = Some (rc, pBuf', m, a') \<and>
          read_result env a1 pBuf1 (pos + r) (x + r) (n - r) rc pBuf' (n - r) a' \<and> (rc = AEWF_OK \<longrightarrow> m = pos + r + (n - r))"
        using rr n1 less.prems b aewf_baseD(4,7) [OF b(1)] by (intro less.IH) simp_all
      then obtain rc2 pBuf2 m a2 where "AewfReadMT_loop env a pBuf x n pos = Some (rc2, pBuf2, m, a2)"
        "read_result env a1 pBuf1 (pos + r) (x + r) (n - r) rc2 pBuf2 (n - r) a2"
        "rc2 = AEWF_OK \<longrightarrow> m = pos + n" using step rr(2) n1(2) by auto
      then show ?thesis using read_result_step [OF cc st n1(2) rr(2) _ less.prems(6)] by blast
    next
      case bad: False
      have "read_result env a pBuf pos x n rc pBuf1 n a1" using st bad n1 by (auto simp: read_result_def)
      then show ?thesis
        by (subst AewfReadMT_loop.simps) (use bad in \<open>simp add: False n1_def [symmetric] run\<close>)
    qed
  qed
qed

lemma AewfReadLegacy_loop_ok:
  assumes z: "zlib_ok env"
  shows "aewf_wf env a \<Longrightarrow> aewf_sizes a \<Longrightarrow> Ofs < ae_ChunkSize a \<Longrightarrow> k * ae_ChunkSize a + Ofs + n \<le> ae_ImageSize a \<Longrightarrow>
    ae_ImageSize a \<le> AEWF_NONE \<Longrightarrow> pos + n \<le> length pBuf \<Longrightarrow>
    \<exists>rc pBuf' m a'. AewfReadLegacy_loop env a pBuf k Ofs n pos = Some (rc, pBuf', m, a') \<and>
      read_result env a pBuf pos (k * ae_ChunkSize a + Ofs) n rc pBuf' n a' \<and> (rc = AEWF_OK \<longrightarrow> m = pos + n)"
proof (induction n arbitrary: a k Ofs pos pBuf rule: less_induct)
  case (less n a k Ofs pos pBuf)
  let ?cs = "ae_ChunkSize a" and ?x = "k * ae_ChunkSize a + Ofs"
  have cc: "aewf_caches env a" and cs: "0 < ?cs" "?cs + 4 \<le> ae_ChunkBuffSize a" "ae_ChunkBuffSize a < 2 ^ 32"
    using less.prems(1) by (simp_all add: aewf_wf_def)
  show ?case
  proof (cases "n = 0")
    case True
    have "read_result env a pBuf pos ?x 0 AEWF_OK pBuf 0 a" using less.prems by (simp add: read_result_def)
    then show ?thesis using True by (subst AewfReadLegacy_loop.simps) auto
  next
    case False
    define e where "e = min ?cs (Ofs + n)"
    define ToCopy where "ToCopy = min (?cs - Ofs) n"
    have e: "e = Ofs + ToCopy" "0 < ToCopy" "ToCopy \<le> n" using less.prems(3) False by (auto simp: e_def ToCopy_def)
    have "k * ?cs + e \<le> ae_ImageSize a" "0 < e" "e \<le> ?cs" using less.prems(3,4) False by (auto simp: e_def)
    note fits = chunk_fits [OF less.prems(2) this]
    have "k \<le> k * ?cs" using cs by simp
    then have k: "k < AEWF_NONE" using less.prems(4,5) False by linarith
    obtain rc l a1 where run: "AewfReadChunkLegacy env a k = Some (rc, l, a1)" and st: "legacy_step env a k rc a1"
      and l: "rc = AEWF_OK \<longrightarrow> l = aewf_chunk_size a k"
      using AewfReadChunkLegacy_ok [OF z less.prems(1) k] by blast
    have b: "aewf_wf env a1" "aewf_base a1 = aewf_base a" "ae_pThreadArr a1 = ae_pThreadArr a"
      using st by (simp_all add: legacy_step_def)
    have good: "rc = AEWF_OK \<and> aewf_clean env a1 \<and>
        segment Ofs ToCopy (ae_pChunkBuffUncompressed a1) = segment ?x ToCopy (aewf_disk env a)"
      if *: "aewf_clean env a" "aewf_intact env a"
    proof -
      obtain c where c: "aewf_chunk env a k = Some c" using * fits(1) by (auto simp: aewf_intact_def)
      have lc: "Ofs + ToCopy \<le> length c" using aewf_chunk_length [OF c] fits(2) e(1) by simp
      have g: "rc = AEWF_OK \<and> aewf_clean env a1" "take (length c) (ae_pChunkBuffUncompressed a1) = c"
        using st * c by (simp_all add: legacy_step_def)
      show ?thesis using g(1) segment_disk [OF *(2) fits(1) c lc] segment_take_prefix [OF g(2) lc] by simp
    qed
    show ?thesis
    proof (cases "rc = AEWF_OK")
      case ok: True
      let ?mem = "ae_pChunkBuffUncompressed a1"
      define pBuf1 where "pBuf1 = overwrite pos (segment Ofs ToCopy ?mem) pBuf"
      have sz: "l = aewf_chunk_size a k" "l \<le> ?cs" using l ok aewf_chunk_size_le [OF cs(1), of k] by simp_all
      have tc: "min (sub64 l Ofs) n = ToCopy" "l \<noteq> 0"
        using sz cs e fits(2) less.prems(3) by (auto simp: sub64_small ToCopy_def)
      have room: "\<not> (Ofs + ToCopy > length ?mem \<or> pos + ToCopy > length pBuf)"
        using b(1) fits(2) sz e less.prems(6) cs aewf_baseD(6) [OF b(2)] by (simp add: aewf_wf_def)
      have step: "AewfReadLegacy_loop env a pBuf k Ofs n pos =
          AewfReadLegacy_loop env a1 pBuf1 (u64 (k + 1)) 0 (n - ToCopy) (pos + ToCopy)"
        unfolding pBuf1_def by (subst AewfReadLegacy_loop.simps) (use room in \<open>simp add: False run ok tc Let_def\<close>)
      have len1: "length pBuf1 = length pBuf" using room by (auto simp: pBuf1_def)
      have st1: "read_result env a pBuf pos ?x ToCopy rc pBuf1 ToCopy a1"
        using b good len1 by (simp add: read_result_def all_idle_def pBuf1_def)
      have "\<exists>rc pBuf' m a'. AewfReadLegacy_loop env a1 pBuf1 (u64 (k + 1)) 0 (n - ToCopy) (pos + ToCopy) = Some (rc, pBuf', m, a') \<and>
          read_result env a1 pBuf1 (pos + ToCopy) (?x + ToCopy) (n - ToCopy) rc pBuf' (n - ToCopy) a' \<and>
          (rc = AEWF_OK \<longrightarrow> m = pos + ToCopy + (n - ToCopy))"
      proof (cases "n = ToCopy")
        case True
        have "read_result env a1 pBuf1 (pos + ToCopy) (?x + ToCopy) 0 AEWF_OK pBuf1 0 a1"
          using b less.prems(6) len1 True by (simp add: read_result_def)
        then show ?thesis using True by (subst AewfReadLegacy_loop.simps) auto
      next
        case False
        then have t: "ToCopy = ?cs - Ofs" "ToCopy < n" by (auto simp: ToCopy_def)
        note cs1 = aewf_baseD(4,5) [OF b(2)]
        have x: "?x + ToCopy = (k + 1) * ae_ChunkSize a1 + 0" using t(1) less.prems(3) cs1 by simp
        have u: "u64 (k + 1) = k + 1" using k by (simp add: AEWF_NONE_def u64_small)
        have "(k + 1) * ae_ChunkSize a1 + 0 + (n - ToCopy) \<le> ae_ImageSize a1"
          using x t(2) less.prems(4) cs1 by linarith
        then show ?thesis
          unfolding u x using less.prems t(2) e(2) b cs1 cs len1 aewf_sizes_base [OF b(2)] by (intro less.IH) simp_all
      qed
      then obtain rc2 pBuf2 m a2 where "AewfReadLegacy_loop env a pBuf k Ofs n pos = Some (rc2, pBuf2, m, a2)"
        "read_result env a1 pBuf1 (pos + ToCopy) (?x + ToCopy) (n - ToCopy) rc2 pBuf2 (n - ToCopy) a2"
        "rc2 = AEWF_OK \<longrightarrow> m = pos + n" using step e(3) by auto
      then show ?thesis using read_result_step [OF cc st1 e(3) order_refl _ less.prems(6)] by blast
    next
      case bad: False
      have "read_result env a pBuf pos ?x n rc pBuf n a1"
        using b good bad by (auto simp: read_result_def all_idle_def)
      then show ?thesis
        by (subst AewfReadLegacy_loop.simps) (use bad in \<open>simp add: False run\<close>)
    qed
  qed
qed

section \<open>AewfRead\<close>

text \<open>A handle that is ready to read: no thread runs, and there are as many as the mode needs. With
  one thread the code relies on the number of chunks that fits the image.\<close>

definition aewf_ready :: "aewf_env \<Rightarrow> t_aewf \<Rightarrow> bool" where
  "aewf_ready env a \<longleftrightarrow> aewf_wf env a \<and> all_idle a \<and> ae_ImageSize a \<le> AEWF_NONE \<and>
     (if ae_Threads a = 1 then aewf_sizes a
      else ae_pThreadArr a \<noteq> [] \<and> 0 < u64 (ae_Threads a * ae_ChunkSize a))"

definition aewf_reader ::
  "aewf_env \<Rightarrow> t_aewf \<Rightarrow> bytes \<Rightarrow> nat \<Rightarrow> nat \<Rightarrow> (int \<times> bytes \<times> nat \<times> t_aewf) option" where
  "aewf_reader env a = (if ae_Threads a = 1 then AewfReadLegacy env a else AewfReadMT env a)"

lemma aewf_reader_ok:
  assumes z: "zlib_ok env" and r: "aewf_ready env a" and x: "x + n \<le> ae_ImageSize a" "n \<le> length pBuf"
  shows "\<exists>rc pBuf' m a'. aewf_reader env a pBuf x n = Some (rc, pBuf', m, a') \<and>
    read_result env a pBuf 0 x n rc pBuf' n a' \<and> (rc = AEWF_OK \<longrightarrow> m = n) \<and> aewf_ready env a'"
proof -
  have wf: "aewf_wf env a" "all_idle a" "ae_ImageSize a \<le> AEWF_NONE" "0 < ae_ChunkSize a"
    using r by (simp_all add: aewf_ready_def aewf_wf_def)
  have ready: "aewf_ready env a'" if "read_result env a pBuf 0 x n rc pBuf' n a'" for rc pBuf' a'
  proof -
    have b: "aewf_base a' = aewf_base a" "aewf_wf env a'" "all_idle a'" "length (ae_pThreadArr a') = length (ae_pThreadArr a)"
      using that wf by (simp_all add: read_result_def)
    show ?thesis using r b unfolding aewf_ready_def aewf_sizes_base [OF b(1)] aewf_baseD(4,5,7) [OF b(1)] by auto
  qed
  have "\<exists>rc pBuf' m a'. aewf_reader env a pBuf x n = Some (rc, pBuf', m, a') \<and>
    read_result env a pBuf 0 x n rc pBuf' n a' \<and> (rc = AEWF_OK \<longrightarrow> m = n)"
  proof (cases "ae_Threads a = 1")
    case True
    then have s: "aewf_sizes a" using r by (simp add: aewf_ready_def)
    show ?thesis
      using AewfReadLegacy_loop_ok [OF z wf(1) s, of "x mod ae_ChunkSize a" "x div ae_ChunkSize a" n 0 pBuf] wf x True
      by (simp add: aewf_reader_def AewfReadLegacy_def)
  next
    case False
    then show ?thesis
      using AewfReadMT_loop_ok [OF z wf(1,2), of x n 0 pBuf] r wf x
      by (simp add: aewf_reader_def AewfReadMT_def aewf_ready_def)
  qed
  then show ?thesis using ready by blast
qed

lemma AewfRead_reader:
  assumes "Seek < 2 ^ 63" "Seek < ae_ImageSize a" "ae_ImageSize a \<le> AEWF_NONE" "Seek + Count < 2 ^ 64"
  shows "AewfRead env a pBuf Seek Count =
    (case aewf_reader env a pBuf Seek (min Count (ae_ImageSize a - Seek)) of
       None \<Rightarrow> None
     | Some (rc, buf, read, a1) \<Rightarrow> Some (\<lparr>rr_ret = 0, rr_buf = buf, rr_read = read, rr_errno = 0\<rparr>, a1))"
proof -
  have "(if u64 (Seek + Count) > ae_ImageSize a then sub64 (ae_ImageSize a) Seek else Count) = min Count (ae_ImageSize a - Seek)"
    using assms by (auto simp: u64_small sub64_small AEWF_NONE_def)
  moreover have c: "AewfCheckError 0 = 0" by (simp add: AewfCheckError_def AEWF_OK_def)
  ultimately show ?thesis
    using assms(1,2) unfolding AewfRead_def Let_def aewf_reader_def AEWF_OK_def c by simp
qed

text \<open>What \<open>AewfRead\<close> needs of its arguments.\<close>

definition read_args :: "bytes \<Rightarrow> nat \<Rightarrow> nat \<Rightarrow> bool" where
  "read_args pBuf Seek Count \<longleftrightarrow> Seek < 2 ^ 63 \<and> Count < 2 ^ 63 \<and> Count \<le> length pBuf"

lemma AewfRead_ok:
  assumes z: "zlib_ok env" and r: "aewf_ready env a" and args: "read_args pBuf Seek Count"
  shows "\<exists>buf read a'. AewfRead env a pBuf Seek Count = Some (\<lparr>rr_ret = 0, rr_buf = buf, rr_read = read, rr_errno = 0\<rparr>, a') \<and>
    aewf_ready env a' \<and> aewf_base a' = aewf_base a \<and>
    (aewf_clean env a \<and> aewf_intact env a \<longrightarrow> aewf_clean env a' \<and> read = min Count (ae_ImageSize a - Seek) \<and>
       take read buf = segment Seek Count (aewf_disk env a))"
proof (cases "Seek < ae_ImageSize a")
  case False
  then have "AewfRead env a pBuf Seek Count = Some (\<lparr>rr_ret = 0, rr_buf = pBuf, rr_read = 0, rr_errno = 0\<rparr>, a)"
    using args by (simp add: AewfRead_def read_args_def Let_def AewfCheckError_def AEWF_OK_def)
  then show ?thesis using False r length_aewf_disk [of env a] by (auto simp: segment_def)
next
  case True
  let ?n = "min Count (ae_ImageSize a - Seek)" and ?d = "aewf_disk env a"
  have s: "Seek < 2 ^ 63" "ae_ImageSize a \<le> AEWF_NONE" "Seek + Count < 2 ^ 64" "?n \<le> length pBuf" "Seek + ?n \<le> ae_ImageSize a"
    using args r True by (auto simp: read_args_def aewf_ready_def)
  obtain rc buf m a' where run: "aewf_reader env a pBuf Seek ?n = Some (rc, buf, m, a')"
    and rd: "read_result env a pBuf 0 Seek ?n rc buf ?n a'" "rc = AEWF_OK \<longrightarrow> m = ?n" "aewf_ready env a'"
    using aewf_reader_ok [OF z r s(5,4)] by blast
  have "aewf_clean env a' \<and> m = ?n \<and> take m buf = segment Seek Count ?d" if ok: "aewf_clean env a \<and> aewf_intact env a"
  proof -
    have o: "rc = AEWF_OK \<and> aewf_clean env a' \<and> buf = overwrite 0 (segment Seek ?n ?d) pBuf"
      using rd(1) ok s(5) by (simp add: read_result_def)
    have l: "length ?d = ae_ImageSize a" using ok length_aewf_disk by blast
    then have sl: "length (segment Seek ?n ?d) = ?n" by simp
    then have "take ?n buf = segment Seek ?n ?d" using o by (simp add: overwrite_def)
    also have "\<dots> = segment Seek Count ?d" using segment_clip [of Seek Count ?d] l by simp
    finally show ?thesis using o rd(2) by simp
  qed
  moreover have "AewfRead env a pBuf Seek Count = Some (\<lparr>rr_ret = 0, rr_buf = buf, rr_read = m, rr_errno = 0\<rparr>, a')"
    using AewfRead_reader [OF s(1) True s(2,3), of env pBuf] run by simp
  moreover have "aewf_base a' = aewf_base a" using rd(1) by (simp add: read_result_def)
  ultimately show ?thesis using rd(3) by blast
qed

end
