(* ===== verification/InputAewfOpen.thy ===== *)
theory InputAewfOpen
  imports InputAewfRead
begin

text \<open>
  Opening an EWF image: what \<open>AewfOpen\<close> checks is enough for reading, but for three things: that
  the size of a table is not huge (the end of a section is computed modulo \<open>2 ^ 64\<close>), that there is
  a thread and, for the mode with one thread, that the number of chunks fits the size of the image.
\<close>

section \<open>The segments\<close>

definition files_ok :: "aewf_env \<Rightarrow> bool" where
  "files_ok env \<longleftrightarrow> (\<forall>name d. ay_fs env name = Some d \<longrightarrow> length d < 2 ^ 63)"

definition new_seg_ok :: "aewf_env \<Rightarrow> t_segment \<Rightarrow> bool" where
  "new_seg_ok env s \<longleftrightarrow> seg_ok env s \<and> sg_pFile s = None \<and> sg_Number s < 2 ^ 16"

lemma AewfOpen_segments_ok:
  assumes "AewfOpen_segments env names segs = Some (AEWF_OK, segs')" "files_ok env" "\<forall>s \<in> set segs. new_seg_ok env s"
  shows "\<forall>s \<in> set segs'. new_seg_ok env s"
  using assms
proof (induction env names segs rule: AewfOpen_segments.induct)
  case (2 env name names segs)
  obtain pName where p: "ay_realpath env name = Some pName" using 2(2) by (auto split: option.splits)
  obtain d where d: "ay_fs env pName = Some d"
    using 2(2) by (auto simp: p OpenFile_def open_r_def aewf_codes Let_def split: option.splits)
  let ?f = "\<lparr>f_data = d, f_pos = 0, f_limit = 0\<rparr>"
  obtain rc b f where r: "ReadFilePos ?f sizeof_t_AewfFileHeader 0 = (rc, b, f)" by (metis prod_cases3)
  have o: "OpenFile (ay_fs env) pName = (AEWF_OK, Some ?f, length d)" by (simp add: OpenFile_def open_r_def d)
  let ?seg = "zero_segment\<lparr>sg_pName := pName, sg_FileSize := length d, sg_Number := fh_SegmentNumber (dec_aewf_file_header b)\<rparr>"
  have rc: "rc = AEWF_OK"
    using 2(2) unfolding AewfOpen_segments.simps p option.case Let_def o prod.case option.sel r by (simp split: if_splits)
  have next_segs: "AewfOpen_segments env names (segs @ [?seg]) = Some (AEWF_OK, segs')"
    and sig: "fh_Signature (dec_aewf_file_header b) = AEWF_SIGNATURE"
    using 2(2) unfolding AewfOpen_segments.simps p option.case Let_def o prod.case option.sel r rc
    by (simp_all add: aewf_codes split: if_splits)
  have new: "new_seg_ok env ?seg"
    using 2(3) d le_at_less [of 9 2 b]
    by (simp add: new_seg_ok_def seg_ok_def seg_data_def files_ok_def zero_segment_def dec_aewf_file_header_def)
  show ?case
    by (rule 2(1) [OF p refl refl o [symmetric]]) (use new next_segs 2(3,4) r rc sig in \<open>auto simp: aewf_codes\<close>)
qed simp

lemma AewfOpen_numbers_ok:
  "AewfOpen_numbers i prev segs = AEWF_OK \<Longrightarrow> \<forall>s \<in> set segs. sg_Number s < n \<Longrightarrow> segs \<noteq> [] \<Longrightarrow> i + length segs < n"
proof (induction i prev segs rule: AewfOpen_numbers.induct)
  case (2 i prev s segs)
  then have s: "sg_Number s = i + 1" "AewfOpen_numbers (i + 1) (Some (sg_Number s)) segs = AEWF_OK"
    by (auto simp: aewf_codes split: if_splits)
  show ?case
  proof (cases segs)
    case Nil
    then show ?thesis using s 2(3) by simp
  next
    case (Cons a list)
    have "\<not> Some (i + 1) = prev" "sg_Number s = Suc i" using 2(2) s by (auto simp: aewf_codes split: if_splits)
    then show ?thesis using 2(1) 2(3) s Cons by auto
  qed
qed simp

section \<open>The tables\<close>

text \<open>The handle during the search: the tables found so far hold the chunks so far.\<close>

definition scan_inv :: "aewf_env \<Rightarrow> t_aewf \<Rightarrow> t_aewf \<Rightarrow> bool" where
  "scan_inv env a0 a \<longleftrightarrow>
     ae_pSegmentArr a = ae_pSegmentArr a0 \<and> ae_ChunkInBuff a = ae_ChunkInBuff a0 \<and> ae_Threads a = ae_Threads a0 \<and>
     ae_ImageSize a \<le> AEWF_NONE \<and> (\<forall>t \<in> set (ae_pTableArr a). tb_pEwfTable t = None) \<and>
     (length (ae_pTableArr a) \<le> AEWF_MAX_TABLES \<longrightarrow>
        ae_Chunks a \<le> length (ae_pTableArr a) * 2 ^ 32 \<and>
        (\<forall>t \<in> set (ae_pTableArr a). tb_Size t < 2 ^ 62 \<longrightarrow> table_ok env a t))"

lemma table_ok_cong:
  assumes "ae_pSegmentArr a' = ae_pSegmentArr a"
  shows "table_ok env a' t = table_ok env a t"
proof -
  have tb: "table_bytes env a' t = table_bytes env a t" by (simp add: table_bytes_def assms)
  show ?thesis unfolding table_ok_def tb assms ..
qed

text \<open>Where a section header can be read: the offset that stands for no seek is one of them.\<close>

lemma ReadFilePos_pos:
  assumes "ReadFilePos f n pos = (AEWF_OK, b, f')" "0 < n"
  shows "pos < 2 ^ 63 \<or> pos = AEWF_NONE"
  using assms by (auto simp: ReadFilePos_def fseeko_set_def aewf_codes NO_SEEK_def AEWF_NONE_def split: if_splits)

lemma section_table_inv:
  assumes inv: "scan_inv env a0 (sc_pAewf sc)" and i: "i < length (ae_pSegmentArr a0)" and pos: "Pos < 2 ^ 63 \<or> Pos = AEWF_NONE"
    and segs: "\<forall>s \<in> set (ae_pSegmentArr a0). new_seg_ok env s"
    and run: "section_table env i Pos se f sc = (AEWF_OK, f', sc')"
  shows "scan_inv env a0 (sc_pAewf sc')"
proof -
  obtain rc mem f1 where r: "ReadFileAlloc env f sizeof_t_AewfSectionTable = (rc, mem, f1)" by (metis prod_cases3)
  let ?a = "sc_pAewf sc" and ?n = "ewf_ChunkCount (the mem)"
  have ok: "sc_pVolume sc \<noteq> None" "sc_SectionSectorsSize sc \<noteq> 0" "\<not> se_Size se < sizeof_t_AewfSection + sizeof_t_AewfSectionTable"
    "rc = AEWF_OK"
    using run by (auto simp: section_table_def r aewf_codes split: if_splits)
  show ?thesis
  proof (cases "?n = 0")
    case True
    then have "sc' = sc" using run ok by (simp add: section_table_def r)
    then show ?thesis using inv by simp
  next
    case False
    define tb where "tb = \<lparr>tb_ChunkFrom = ae_Chunks ?a, tb_ChunkTo = sub64 (u64 (ae_Chunks ?a + ?n)) 1, tb_pSegment = i,
      tb_Offset = u64 (Pos + sizeof_t_AewfSection), tb_Size = se_Size se - sizeof_t_AewfSection,
      tb_ChunkCount = ?n, tb_SectionSectorsPos = sc_SectionSectorsPos sc,
      tb_SectionSectorsSize = u32 (sc_SectionSectorsSize sc), tb_LastUsed = 0, tb_pEwfTable = None\<rparr>"
    have chk: "?n \<le> (tb_Size tb - 28) div 4" "u64 (tb_Offset tb + tb_Size tb) \<le> sg_FileSize (ae_pSegmentArr ?a ! i)"
      and sc': "sc_pAewf sc' = ?a\<lparr>ae_pTableArr := ae_pTableArr ?a @ [tb], ae_Chunks := u64 (ae_Chunks ?a + ?n),
        ae_TotalTableSize := u64 (ae_TotalTableSize ?a + tb_Size tb)\<rparr>"
      using run ok False
      unfolding section_table_def r prod.case Let_def tb_def [symmetric]
      by (auto simp: aewf_codes sizeof_t_AewfSectionTable_def split: if_splits)
    have n: "?n < 2 ^ 32" using le_at_less [of 0 4 "the mem"] by (simp add: ewf_ChunkCount_def)
    have "table_ok env ?a tb" if l: "length (ae_pTableArr ?a) + 1 \<le> AEWF_MAX_TABLES" "tb_Size tb < 2 ^ 62"
    proof -
      have "ae_Chunks ?a \<le> length (ae_pTableArr ?a) * 2 ^ 32" using inv l(1) by (simp add: scan_inv_def)
      then have c: "ae_Chunks ?a + ?n < 2 ^ 64" using l(1) n by (simp add: AEWF_MAX_TABLES_def)
      have from_to: "tb_ChunkTo tb + 1 = tb_ChunkFrom tb + tb_ChunkCount tb"
        using c False by (simp add: tb_def u64_small sub64_small)
      have sg: "ae_pSegmentArr ?a = ae_pSegmentArr a0" using inv by (simp add: scan_inv_def)
      have "new_seg_ok env (ae_pSegmentArr a0 ! i)" using segs i by simp
      then have f: "sg_FileSize (ae_pSegmentArr ?a ! i) = length (seg_data env (ae_pSegmentArr ?a ! i))"
        by (simp add: sg new_seg_ok_def seg_ok_def)
      have "tb_Offset tb + tb_Size tb < 2 ^ 64"
        using pos l(2) by (auto simp: tb_def sizeof_t_AewfSection_def u64_def AEWF_NONE_def)
      then have "tb_Offset tb + tb_Size tb \<le> length (seg_data env (ae_pSegmentArr ?a ! i))" using chk(2) f by (simp add: u64_small)
      then show ?thesis
        using from_to chk(1) n False ok(3) i sg
        by (simp add: table_ok_def tb_def sizeof_t_AewfSection_def sizeof_t_AewfSectionTable_def)
    qed
    moreover have "ae_Chunks (sc_pAewf sc') \<le> length (ae_pTableArr (sc_pAewf sc')) * 2 ^ 32"
      if "length (ae_pTableArr ?a) + 1 \<le> AEWF_MAX_TABLES"
    proof -
      have "ae_Chunks ?a + ?n \<le> (length (ae_pTableArr ?a) + 1) * 2 ^ 32" using inv that n by (simp add: scan_inv_def)
      then have "u64 (ae_Chunks ?a + ?n) \<le> (length (ae_pTableArr ?a) + 1) * 2 ^ 32" by (rule order_trans [OF u64_le])
      then show ?thesis by (simp add: sc')
    qed
    moreover have "tb_pEwfTable tb = None" by (simp add: tb_def)
    moreover have "table_ok env (sc_pAewf sc') t = table_ok env ?a t" for t by (rule table_ok_cong) (simp add: sc')
    ultimately show ?thesis using inv unfolding scan_inv_def by (simp add: sc')
  qed
qed

lemma section_volume_inv:
  assumes inv: "scan_inv env a0 (sc_pAewf sc)" and run: "section_volume env se f sc = (AEWF_OK, f', sc')"
  shows "scan_inv env a0 (sc_pAewf sc')"
proof -
  obtain rc mem f1 where r: "ReadFileAlloc env f sizeof_t_AewfSectionVolume = (rc, mem, f1)" by (metis prod_cases3)
  obtain s1 s2 s3 where sc': "sc_pAewf sc' = (sc_pAewf sc)\<lparr>ae_Sectors := s1, ae_SectorSize := s2, ae_ChunkSize := s3,
      ae_ImageSize := u64 (vo_SectorCount (dec_aewf_volume (the mem)) * vo_BytesPerSector (dec_aewf_volume (the mem)))\<rparr>"
    using run by (auto simp: section_volume_def r Let_def aewf_codes split: if_splits)
  have "table_ok env (sc_pAewf sc') t = table_ok env (sc_pAewf sc) t" for t by (rule table_ok_cong) (simp add: sc')
  moreover have "u64 m \<le> AEWF_NONE" for m
    using u64_less [of m, THEN Suc_leI] unfolding AEWF_NONE_def by linarith
  ultimately show ?thesis using inv by (simp add: scan_inv_def sc')
qed

lemma AewfOpen_section_inv:
  assumes inv: "scan_inv env a0 (sc_pAewf sc)" and i: "i < length (ae_pSegmentArr a0)" and pos: "Pos < 2 ^ 63 \<or> Pos = AEWF_NONE"
    and segs: "\<forall>s \<in> set (ae_pSegmentArr a0). new_seg_ok env s"
    and run: "AewfOpen_section env i Pos se f sc = (AEWF_OK, f', sc')"
  shows "scan_inv env a0 (sc_pAewf sc')"
proof -
  note runs = run [unfolded AewfOpen_section_def]
  consider "section_table env i Pos se f sc = (AEWF_OK, f', sc')" | "section_volume env se f sc = (AEWF_OK, f', sc')"
    | "sc_pAewf sc' = sc_pAewf sc"
    using runs by (auto simp: section_hash_def split: if_splits prod.splits)
  then show ?thesis
    by cases (use section_table_inv [OF inv i pos segs] section_volume_inv [OF inv] inv in auto)
qed

lemma AewfOpen_sections_inv:
  assumes "scan_inv env a0 (sc_pAewf sc)" "i < length (ae_pSegmentArr a0)" "\<forall>s \<in> set (ae_pSegmentArr a0). new_seg_ok env s"
    "AewfOpen_sections env i n Pos f sc = (AEWF_OK, sc')"
  shows "scan_inv env a0 (sc_pAewf sc')"
  using assms
proof (induction env i n Pos f sc rule: AewfOpen_sections.induct)
  case (1 env i n Pos f sc)
  obtain rc b f1 where r: "ReadFilePos f sizeof_t_AewfSection Pos = (rc, b, f1)" by (metis prod_cases3)
  obtain rc2 f2 sc1 where s: "AewfOpen_section env i Pos (dec_aewf_section b) f1 sc = (rc2, f2, sc1)" by (metis prod_cases3)
  note run = 1(5) [unfolded AewfOpen_sections.simps [of env i n] r prod.case Let_def s]
  have ok: "rc = AEWF_OK" "rc2 = AEWF_OK" "\<not> n + 1 > AEWF_MAX_SECTION_COUNT"
    "\<not> u64 (Pos + se_Size (dec_aewf_section b)) > sg_FileSize (ae_pSegmentArr (sc_pAewf sc) ! i)"
    using run by (auto simp: aewf_codes split: if_splits)
  have pos: "Pos < 2 ^ 63 \<or> Pos = AEWF_NONE"
    by (rule ReadFilePos_pos [OF r [unfolded ok(1)]]) (simp add: sizeof_t_AewfSection_def)
  note inv = AewfOpen_section_inv [OF 1(2,3) pos 1(4) s [unfolded ok(2)]]
  show ?case
  proof (cases "Pos = se_OffsetNextSection (dec_aewf_section b) \<or> Pos = 0")
    case True
    then show ?thesis using run ok inv by (simp split: if_splits)
  next
    case False
    then have nx: "\<not> (se_OffsetNextSection (dec_aewf_section b) \<le> Pos \<or>
        se_OffsetNextSection (dec_aewf_section b) - Pos < se_Size (dec_aewf_section b))"
      "AewfOpen_sections env i (n + 1) (se_OffsetNextSection (dec_aewf_section b)) f2 sc1 = (AEWF_OK, sc')"
      using run ok by (auto simp: aewf_codes split: if_splits)
    show ?thesis
      by (rule 1(1) [OF ok(3) r [symmetric] refl]) (use ok s False nx inv 1(3,4) in auto)
  qed
qed

lemma AewfOpen_tables_inv:
  assumes "scan_inv env a0 (sc_pAewf sc)" "\<forall>i \<in> set is. i < length (ae_pSegmentArr a0)"
    "\<forall>s \<in> set (ae_pSegmentArr a0). new_seg_ok env s" "AewfOpen_tables env is sc = (AEWF_OK, sc')"
  shows "scan_inv env a0 (sc_pAewf sc')"
  using assms
proof (induction env "is" sc rule: AewfOpen_tables.induct)
  case (2 env i "is" sc)
  let ?seg = "ae_pSegmentArr (sc_pAewf sc) ! i"
  obtain rc pFile FileSize where o: "OpenFile (ay_fs env) (sg_pName ?seg) = (rc, pFile, FileSize)" by (metis prod_cases3)
  obtain rc2 b f where r: "ReadFilePos (the pFile) sizeof_t_AewfFileHeader 0 = (rc2, b, f)" by (metis prod_cases3)
  obtain rc3 sc1 where s: "AewfOpen_sections env i 0 sizeof_t_AewfFileHeader f sc = (rc3, sc1)" by force
  note run = 2(5) [unfolded AewfOpen_tables.simps Let_def o prod.case r s]
  have ok: "rc = AEWF_OK" "rc2 = AEWF_OK" "rc3 = AEWF_OK" "\<not> FileSize \<noteq> sg_FileSize ?seg"
    and more: "AewfOpen_tables env is sc1 = (AEWF_OK, sc')"
    using run by (auto simp: aewf_codes split: if_splits)
  have inv: "scan_inv env a0 (sc_pAewf sc1)"
    by (rule AewfOpen_sections_inv [OF 2(2) _ 2(4) s [unfolded ok(3)]]) (use 2(3) in simp)
  show ?case
    by (rule 2(1) [OF refl o [symmetric] refl _ ok(4) r [symmetric] refl _ s [symmetric] _ inv _ 2(4) more])
      (use ok 2(3) in simp_all)
qed simp

section \<open>The opened handle\<close>

text \<open>The assumptions about the size of the tables, and about the handle before.\<close>

definition tables_fit :: "t_aewf \<Rightarrow> bool" where
  "tables_fit a \<longleftrightarrow> (\<forall>t \<in> set (ae_pTableArr a). tb_Size t < 2 ^ 40)"

lemma sum_list_bound: "\<forall>x \<in> set xs. f x < (b::nat) \<Longrightarrow> sum_list (map f xs) \<le> length xs * b"
  by (induction xs) (auto simp: add_mono less_imp_le)

lemma new_caches:
  assumes segs: "\<forall>s \<in> set (ae_pSegmentArr a). new_seg_ok env s" "length (ae_pSegmentArr a) < 2 ^ 16"
    and tabs: "\<forall>t \<in> set (ae_pTableArr a). tb_pEwfTable t = None \<and> table_ok env a t" "length (ae_pTableArr a) \<le> AEWF_MAX_TABLES"
    and z: "ae_OpenSegments a = 0" "ae_TableCache a = 0" and fit: "tables_fit a"
  shows "aewf_caches env a" "aewf_limits a"
proof -
  have "sum_list (map tb_Size (ae_pTableArr a)) \<le> length (ae_pTableArr a) * 2 ^ 40"
    using fit unfolding tables_fit_def by (rule sum_list_bound)
  also have "\<dots> \<le> AEWF_MAX_TABLES * 2 ^ 40" using tabs(2) by (rule mult_le_mono1)
  also have "\<dots> < 2 ^ 64" by (simp add: AEWF_MAX_TABLES_def)
  finally have sum: "sum_list (map tb_Size (ae_pTableArr a)) < 2 ^ 64" .
  have "filter seg_open (ae_pSegmentArr a) = []" using segs(1) by (simp add: filter_empty_conv new_seg_ok_def seg_open_def)
  moreover have "sum_list (map loaded_size (ae_pTableArr a)) = 0" using tabs(1) by (simp add: loaded_size_def)
  ultimately show "aewf_caches env a" using segs tabs(1) sum z unfolding aewf_caches_def by (simp add: new_seg_ok_def)
  show "aewf_limits a" by (simp add: aewf_limits_def z)
qed

text \<open>The opened handle is ready exactly where the two further conditions hold.\<close>

lemma AewfOpen_finish_ok:
  assumes inv: "scan_inv env a0 (sc_pAewf sc)" and segs: "\<forall>s \<in> set (ae_pSegmentArr a0). new_seg_ok env s"
    "length (ae_pSegmentArr a0) < 2 ^ 16" and lim: "AewfOpen_limits sc = AEWF_OK"
    and a0: "ae_ChunkInBuff a0 = AEWF_NONE" "ae_Threads a0 < 2 ^ 32"
    and run: "AewfOpen_finish env sc = Some (AEWF_OK, a')"
  shows "aewf_clean env a'" "\<forall>s \<in> set (ae_pSegmentArr a'). new_seg_ok env s"
    "\<forall>t \<in> set (ae_pTableArr a'). tb_Size t < 2 ^ 62 \<longrightarrow> table_ok env a' t"
    "tables_fit a' \<Longrightarrow> aewf_ready env a' \<longleftrightarrow> 0 < ae_Threads a0 \<and> (ae_Threads a0 = 1 \<longrightarrow> aewf_sizes a')"
proof -
  let ?a = "sc_pAewf sc" and ?size = "u32 (ae_ChunkSize (sc_pAewf sc) + 4096)"
  obtain info where a': "a' = ?a\<lparr>ae_ChunkBuffSize := ?size, ae_pChunkBuffUncompressed := fresh_mem env ?size, ae_TableCache := 0,
      ae_OpenSegments := 0, ae_pInfo := info,
      ae_pThreadArr := (if ae_Threads ?a > 1 then replicate (ae_Threads ?a) (new_thread env ?size) else [])\<rparr>"
    using run by (auto simp: AewfOpen_finish_def Let_def aewf_codes split: option.splits prod.splits if_splits)
  have sel: "ae_pSegmentArr a' = ae_pSegmentArr a0" "ae_pTableArr a' = ae_pTableArr ?a" "ae_ChunkSize a' = ae_ChunkSize ?a"
    "ae_ChunkBuffSize a' = ?size" "ae_pChunkBuffUncompressed a' = fresh_mem env ?size" "ae_ChunkInBuff a' = AEWF_NONE"
    "ae_OpenSegments a' = 0" "ae_TableCache a' = 0" "ae_Threads a' = ae_Threads a0" "ae_ImageSize a' = ae_ImageSize ?a"
    "ae_pThreadArr a' = (if ae_Threads a0 > 1 then replicate (ae_Threads a0) (new_thread env ?size) else [])"
    using inv a0 by (simp_all add: a' scan_inv_def)
  have cs: "0 < ae_ChunkSize ?a" "ae_ChunkSize ?a \<le> AEWF_MAX_CHUNK_SIZE" and nt: "length (ae_pTableArr ?a) \<le> AEWF_MAX_TABLES"
    using lim by (auto simp: AewfOpen_limits_def Let_def aewf_codes split: option.splits if_splits)
  then have sz: "?size = ae_ChunkSize ?a + 4096" by (simp add: AEWF_MAX_CHUNK_SIZE_def u32_small)
  have mem: "length (fresh_mem env n) = n" for n by (simp add: fresh_mem_def)
  have cong: "table_ok env a' t = table_ok env ?a t" for t by (rule table_ok_cong) (use inv sel in \<open>simp add: scan_inv_def\<close>)
  show tabs62: "\<forall>t \<in> set (ae_pTableArr a'). tb_Size t < 2 ^ 62 \<longrightarrow> table_ok env a' t"
    using inv nt by (auto simp: scan_inv_def cong sel)
  show "\<forall>s \<in> set (ae_pSegmentArr a'). new_seg_ok env s" using segs(1) by (simp add: sel)
  have th: "\<forall>th \<in> set (ae_pThreadArr a'). th = new_thread env ?size" by (simp add: sel)
  show "aewf_clean env a'"
    using th by (auto simp: aewf_clean_def thread_ok_def holds_chunk_def sel new_thread_def)
  assume fit: "tables_fit a'"
  have "\<forall>t \<in> set (ae_pTableArr a'). tb_Size t < 2 ^ 62" using fit by (auto simp: tables_fit_def)
  then have tabs: "\<forall>t \<in> set (ae_pTableArr a'). tb_pEwfTable t = None \<and> table_ok env a' t"
    using inv tabs62 by (auto simp: scan_inv_def sel(2))
  note c = new_caches [of a' env, unfolded sel(1,2,7,8), OF segs tabs [unfolded sel(2)] nt refl refl fit]
  have wf: "aewf_wf env a'"
    using c cs sz th by (auto simp: aewf_wf_def sel mem new_thread_def AEWF_MAX_CHUNK_SIZE_def)
  have "ae_Threads a' * ae_ChunkSize a' \<le> 2 ^ 32 * AEWF_MAX_CHUNK_SIZE"
    by (rule mult_le_mono) (use a0 cs sel in simp_all)
  also have "\<dots> < 2 ^ 64" by (simp add: AEWF_MAX_CHUNK_SIZE_def)
  finally have "u64 (ae_Threads a' * ae_ChunkSize a') = ae_Threads a0 * ae_ChunkSize ?a" by (simp add: u64_small sel)
  moreover have "all_idle a'" using th by (auto simp: all_idle_def sel new_thread_def)
  moreover have "ae_ImageSize a' \<le> AEWF_NONE" using inv by (simp add: sel scan_inv_def)
  ultimately show "aewf_ready env a' \<longleftrightarrow> 0 < ae_Threads a0 \<and> (ae_Threads a0 = 1 \<longrightarrow> aewf_sizes a')"
    using wf cs(1) by (auto simp: aewf_ready_def sel)
qed

lemma AewfOpen_checked:
  assumes run: "AewfOpen env a names = Some (AEWF_OK, a')" and env: "files_ok env"
    and a: "ae_Threads a < 2 ^ 32" "ae_ImageSize a < 2 ^ 64"
  shows "aewf_clean env a'" "\<forall>s \<in> set (ae_pSegmentArr a'). new_seg_ok env s"
    "\<forall>t \<in> set (ae_pTableArr a'). tb_Size t < 2 ^ 62 \<longrightarrow> table_ok env a' t"
    "tables_fit a' \<Longrightarrow> aewf_ready env a' \<longleftrightarrow> 0 < ae_Threads a \<and> (ae_Threads a = 1 \<longrightarrow> aewf_sizes a')"
proof -
  define a1 where "a1 = (AewfInitHandle a)\<lparr>ae_Open := True\<rparr>"
  have op: "\<not> ae_Open a" using run by (auto simp: AewfOpen_def aewf_codes split: if_splits)
  obtain rc segs where s: "AewfOpen_segments env names [] = Some (rc, segs)"
    using run op by (cases "AewfOpen_segments env names []") (auto simp: AewfOpen_def Let_def)
  define a2 where "a2 = a1\<lparr>ae_pSegmentArr := AewfOpen_sort segs, ae_pTableArr := [], ae_Chunks := 0, ae_TotalTableSize := 0\<rparr>"
  obtain rc2 sc where t: "AewfOpen_tables env [0..<length (AewfOpen_sort segs)] \<lparr>sc_pAewf = a2, sc_pVolume = None,
      sc_pHeader = None, sc_pHeader2 = None, sc_pMD5 = None, sc_SectionSectorsPos = 0, sc_SectionSectorsSize = 0\<rparr> = (rc2, sc)"
    by force
  note run' = run [unfolded AewfOpen_def Let_def a1_def [symmetric] s option.case prod.case]
  have ok: "rc = AEWF_OK" "AewfOpen_numbers 0 None (AewfOpen_sort segs) = AEWF_OK" "rc2 = AEWF_OK" "AewfOpen_limits sc = AEWF_OK"
    and fin: "AewfOpen_finish env sc = Some (AEWF_OK, a')"
    using run' op t by (auto simp: a2_def aewf_codes split: if_splits)
  have segs0: "\<forall>s \<in> set segs. new_seg_ok env s"
    using AewfOpen_segments_ok [OF s [unfolded ok(1)] env] by simp
  then have segs: "\<forall>s \<in> set (ae_pSegmentArr a2). new_seg_ok env s" by (simp add: a2_def AewfOpen_sort_def)
  have "length (AewfOpen_sort segs) < 2 ^ 16"
    using AewfOpen_numbers_ok [OF ok(2), of "2 ^ 16"] segs by (cases "AewfOpen_sort segs = []") (auto simp: a2_def new_seg_ok_def)
  then have l: "length (ae_pSegmentArr a2) < 2 ^ 16" by (simp add: a2_def)
  have "scan_inv env a2 a2" using a(2) by (simp add: scan_inv_def a2_def a1_def AewfInitHandle_def AEWF_NONE_def)
  then have inv: "scan_inv env a2 (sc_pAewf sc)"
    by (intro AewfOpen_tables_inv [OF _ _ segs t [unfolded ok(3)]]) (simp_all add: a2_def)
  have a2: "ae_ChunkInBuff a2 = AEWF_NONE" "ae_Threads a2 = ae_Threads a" by (simp_all add: a2_def a1_def AewfInitHandle_def)
  note f = AewfOpen_finish_ok [OF inv segs l ok(4) a2(1) _ fin, unfolded a2(2), OF a(1)]
  show "aewf_clean env a'" "\<forall>s \<in> set (ae_pSegmentArr a'). new_seg_ok env s"
    "\<forall>t \<in> set (ae_pTableArr a'). tb_Size t < 2 ^ 62 \<longrightarrow> table_ok env a' t"
    "tables_fit a' \<Longrightarrow> aewf_ready env a' \<longleftrightarrow> 0 < ae_Threads a \<and> (ae_Threads a = 1 \<longrightarrow> aewf_sizes a')"
    by (rule f; assumption?)+
qed

lemma AewfOpen_ready:
  assumes run: "AewfOpen env a names = Some (AEWF_OK, a')" and env: "files_ok env"
    and a: "0 < ae_Threads a" "ae_Threads a < 2 ^ 32" "ae_ImageSize a < 2 ^ 64"
    and fit: "tables_fit a'" "ae_Threads a = 1 \<longrightarrow> aewf_sizes a'"
  shows "aewf_ready env a' \<and> aewf_clean env a'"
  using AewfOpen_checked [OF run env a(2,3)] a(1) fit by blast

text \<open>Where the files have less than 1 TiB each, it is enough that no table has a size at which the
  sum of position and size wraps.\<close>

lemma AewfOpen_tables_fit:
  assumes run: "AewfOpen env a names = Some (AEWF_OK, a')" and files: "\<forall>name d. ay_fs env name = Some d \<longrightarrow> length d < 2 ^ 40"
    and a: "ae_Threads a < 2 ^ 32" "ae_ImageSize a < 2 ^ 64" and tabs: "\<forall>t \<in> set (ae_pTableArr a'). tb_Size t < 2 ^ 62"
  shows "tables_fit a'"
  unfolding tables_fit_def
proof
  fix t
  assume t: "t \<in> set (ae_pTableArr a')"
  have env: "files_ok env" unfolding files_ok_def
  proof (intro allI impI)
    fix name d
    assume "ay_fs env name = Some d"
    then have "length d < 2 ^ 40" using files by blast
    also have "\<dots> < (2 :: nat) ^ 63" by simp
    finally show "length d < 2 ^ 63" .
  qed
  have "table_ok env a' t" using AewfOpen_checked(3) [OF run env a] t tabs by blast
  then have *: "tb_pSegment t < length (ae_pSegmentArr a')" "tb_Offset t + tb_Size t \<le> length (seg_data env (ae_pSegmentArr a' ! tb_pSegment t))"
    by (simp_all add: table_ok_def)
  then have "new_seg_ok env (ae_pSegmentArr a' ! tb_pSegment t)" using AewfOpen_checked(2) [OF run env a] by simp
  then have "length (seg_data env (ae_pSegmentArr a' ! tb_pSegment t)) < 2 ^ 40"
    using files by (auto simp: new_seg_ok_def seg_ok_def seg_data_def split: option.splits)
  then show "tb_Size t < 2 ^ 40" using *(2) by linarith
qed

end
