(* ===== verification/InputAewfResults.thy ===== *)
theory InputAewfResults
  imports InputAewfOpen
begin

text \<open>
  The results about the EWF library, from opening an image to reading it, and a small image on
  which they are shown to apply: one file, a volume section, two chunks of four bytes (one of them
  compressed) and their table.
\<close>

section \<open>A small image\<close>

definition small_section :: "bytes \<Rightarrow> nat \<Rightarrow> nat \<Rightarrow> bytes" where
  "small_section name nxt sz = name @ replicate (16 - length name) 0 @ le_bytes 8 nxt @ le_bytes 8 sz @ replicate 44 0"

definition ewf_head :: bytes where "ewf_head = AEWF_SIGNATURE @ [1, 1, 0, 0, 0]"
definition ewf_sec_volume :: bytes where "ewf_sec_volume = small_section [118, 111, 108, 117, 109, 101] 1141 1128"
definition ewf_volume :: bytes where
  "ewf_volume = replicate 4 0 @ le_bytes 4 2 @ le_bytes 4 1 @ le_bytes 4 4 @ le_bytes 8 2 @ replicate 1028 0"
definition ewf_sec_sectors :: bytes where "ewf_sec_sectors = small_section [115, 101, 99, 116, 111, 114, 115] 1229 88"
definition ewf_chunks :: bytes where "ewf_chunks = [1, 2, 3, 4, 10, 0, 0, 0, 5, 6, 7, 8]"
definition ewf_sec_table :: bytes where "ewf_sec_table = small_section [116, 97, 98, 108, 101] 1229 112"
definition ewf_table :: bytes where
  "ewf_table = le_bytes 4 2 @ replicate 4 0 @ le_bytes 8 1217 @ replicate 8 0 @ le_bytes 4 0 @ le_bytes 4 0x80000008 @ replicate 4 0"

definition ewf_file :: bytes where
  "ewf_file = ewf_head @ ewf_sec_volume @ ewf_volume @ ewf_sec_sectors @ ewf_chunks @ ewf_sec_table @ ewf_table"

definition small_env :: aewf_env where
  "small_env = \<lparr>ay_fs = (\<lambda>name. if name = ''a'' then Some ewf_file else None), ay_realpath = Some,
     ay_uncompress = (\<lambda>b n. (Z_OK, take n b)), ay_adler32 = (\<lambda>b. sum_list (map unat b)), ay_time = (\<lambda>n. n),
     ay_fresh = (\<lambda>_. 0), ay_gib = (\<lambda>_. ''0.00''), ay_wcstombs = (\<lambda>_ _. None), ay_strftime = (\<lambda>_. None)\<rparr>"

lemma ewf_lengths:
  "length ewf_head = 13" "length ewf_sec_volume = 76" "length ewf_volume = 1052" "length ewf_sec_sectors = 76"
  "length ewf_chunks = 12" "length ewf_sec_table = 76" "length ewf_table = 36" "length ewf_file = 1341"
proof -
  show *: "length ewf_head = 13" "length ewf_sec_volume = 76" "length ewf_volume = 1052" "length ewf_sec_sectors = 76"
    "length ewf_chunks = 12" "length ewf_sec_table = 76" "length ewf_table = 36"
    by (simp_all add: ewf_head_def AEWF_SIGNATURE_def ewf_sec_volume_def small_section_def ewf_volume_def ewf_sec_sectors_def
        ewf_chunks_def ewf_sec_table_def ewf_table_def)
  show "length ewf_file = 1341" by (simp add: ewf_file_def *)
qed

text \<open>The pieces of the file.\<close>

lemma segment_piece: "length xs = n \<Longrightarrow> length ys = m \<Longrightarrow> segment n m (xs @ ys @ zs) = ys"
  by (simp add: segment_def)

lemma ewf_pieces:
  "segment 0 13 ewf_file = ewf_head" "segment 13 76 ewf_file = ewf_sec_volume" "segment 89 1052 ewf_file = ewf_volume"
  "segment 1141 76 ewf_file = ewf_sec_sectors" "segment 1229 76 ewf_file = ewf_sec_table" "segment 1305 36 ewf_file = ewf_table"
  "segment 1305 28 ewf_file = take 28 ewf_table" "segment 1217 12 ewf_file = ewf_chunks"
proof -
  note l = ewf_lengths
  show "segment 0 13 ewf_file = ewf_head" using segment_piece [of "[]" 0 ewf_head 13] by (simp add: ewf_file_def l)
  show "segment 13 76 ewf_file = ewf_sec_volume" using segment_piece [of ewf_head 13 ewf_sec_volume 76] by (simp add: ewf_file_def l)
  show "segment 89 1052 ewf_file = ewf_volume"
    using segment_piece [of "ewf_head @ ewf_sec_volume" 89 ewf_volume 1052] by (simp add: ewf_file_def l)
  show "segment 1141 76 ewf_file = ewf_sec_sectors"
    using segment_piece [of "ewf_head @ ewf_sec_volume @ ewf_volume" 1141 ewf_sec_sectors 76] by (simp add: ewf_file_def l)
  show "segment 1217 12 ewf_file = ewf_chunks"
    using segment_piece [of "ewf_head @ ewf_sec_volume @ ewf_volume @ ewf_sec_sectors" 1217 ewf_chunks 12] by (simp add: ewf_file_def l)
  show "segment 1229 76 ewf_file = ewf_sec_table"
    using segment_piece [of "ewf_head @ ewf_sec_volume @ ewf_volume @ ewf_sec_sectors @ ewf_chunks" 1229 ewf_sec_table 76]
    by (simp add: ewf_file_def l)
  show t: "segment 1305 36 ewf_file = ewf_table"
    using segment_piece [of "ewf_head @ ewf_sec_volume @ ewf_volume @ ewf_sec_sectors @ ewf_chunks @ ewf_sec_table" 1305 ewf_table 36 "[]"]
    by (simp add: ewf_file_def l)
  show "segment 1305 28 ewf_file = take 28 ewf_table" unfolding t [symmetric] by (simp add: segment_def)
qed

text \<open>What the sections say.\<close>

lemma le_at_le_bytes:
  assumes "length xs = n" "v < 256 ^ k"
  shows "le_at n k (xs @ le_bytes k v @ ys) = v"
  using assms by (simp add: le_at_def segment_piece le_val_le_bytes)

lemma dec_small_section:
  assumes "length name \<le> 16" "nxt < 2 ^ 64" "sz < 2 ^ 64"
  shows "dec_aewf_section (small_section name nxt sz) =
    \<lparr>se_Type = name @ replicate (16 - length name) 0, se_OffsetNextSection = nxt, se_Size = sz\<rparr>"
proof -
  let ?t = "name @ replicate (16 - length name) (0 :: u8)"
  have t: "length ?t = 16" using assms(1) by simp
  have 1: "segment 0 16 (small_section name nxt sz) = ?t"
    using segment_piece [of "[]" 0 ?t 16] t by (simp add: small_section_def)
  have 2: "le_at 16 8 (small_section name nxt sz) = nxt"
    using le_at_le_bytes [of ?t 16 nxt 8 "le_bytes 8 sz @ replicate 44 0"] t assms by (simp add: small_section_def)
  have 3: "le_at 24 8 (small_section name nxt sz) = sz"
    using le_at_le_bytes [of "?t @ le_bytes 8 nxt" 24 sz 8 "replicate 44 0"] t assms by (simp add: small_section_def)
  show ?thesis by (simp add: dec_aewf_section_def 1 2 3)
qed

lemma dec_ewf_volume:
  "dec_aewf_volume ewf_volume = \<lparr>vo_ChunkCount = 2, vo_SectorsPerChunk = 1, vo_BytesPerSector = 4, vo_SectorCount = 2\<rparr>"
proof -
  have "le_at 4 4 ewf_volume = 2"
    using le_at_le_bytes [of "replicate 4 0" 4 2 4] by (simp add: ewf_volume_def)
  moreover have "le_at 8 4 ewf_volume = 1"
    using le_at_le_bytes [of "replicate 4 0 @ le_bytes 4 2" 8 1 4] by (simp add: ewf_volume_def)
  moreover have "le_at 12 4 ewf_volume = 4"
    using le_at_le_bytes [of "replicate 4 0 @ le_bytes 4 2 @ le_bytes 4 1" 12 4 4] by (simp add: ewf_volume_def)
  moreover have "le_at 16 8 ewf_volume = 2"
    using le_at_le_bytes [of "replicate 4 0 @ le_bytes 4 2 @ le_bytes 4 1 @ le_bytes 4 4" 16 2 8] by (simp add: ewf_volume_def)
  ultimately show ?thesis by (simp add: dec_aewf_volume_def)
qed

lemma ewf_table_values:
  "ewf_ChunkCount ewf_table = 2" "ewf_ChunkCount (take 28 ewf_table) = 2" "ewf_TableBaseOffset ewf_table = 1217"
  "ewf_OffsetArray ewf_table 0 = Some 0" "ewf_OffsetArray ewf_table 1 = Some (8 + AEWF_COMPRESSED)"
proof -
  let ?h = "le_bytes 4 2 @ replicate 4 0 @ le_bytes 8 1217 @ replicate 8 0"
  show c: "ewf_ChunkCount ewf_table = 2"
    using le_at_le_bytes [of "[]" 0 2 4] by (simp add: ewf_ChunkCount_def ewf_table_def)
  show "ewf_ChunkCount (take 28 ewf_table) = 2" using c by (simp add: ewf_ChunkCount_def le_at_def segment_def)
  show "ewf_TableBaseOffset ewf_table = 1217"
    using le_at_le_bytes [of "le_bytes 4 2 @ replicate 4 0" 8 1217 8] by (simp add: ewf_TableBaseOffset_def ewf_table_def)
  show "ewf_OffsetArray ewf_table 0 = Some 0"
    using le_at_le_bytes [of ?h 24 0 4] by (simp add: ewf_OffsetArray_def ewf_lengths) (simp add: ewf_table_def)
  show "ewf_OffsetArray ewf_table 1 = Some (8 + AEWF_COMPRESSED)"
    using le_at_le_bytes [of "?h @ le_bytes 4 0" 28 "0x80000008" 4]
    by (simp add: ewf_OffsetArray_def ewf_lengths AEWF_COMPRESSED_def) (simp add: ewf_table_def)
qed

lemma small_types:
  "string_bytes ''header'' = [104, 101, 97, 100, 101, 114]" "string_bytes ''header2'' = [104, 101, 97, 100, 101, 114, 50]"
  "string_bytes ''sectors'' = [115, 101, 99, 116, 111, 114, 115]" "string_bytes ''table'' = [116, 97, 98, 108, 101]"
  "string_bytes ''volume'' = [118, 111, 108, 117, 109, 101]"
  by (simp_all add: string_bytes_def)

text \<open>The image is opened.\<close>

abbreviation ewf_at :: "nat \<Rightarrow> cfile" where
  "ewf_at p \<equiv> \<lparr>f_data = ewf_file, f_pos = p, f_limit = 0\<rparr>"

definition small_table :: t_table where
  "small_table = \<lparr>tb_ChunkFrom = 0, tb_ChunkTo = 1, tb_pSegment = 0, tb_Offset = 1305, tb_Size = 36, tb_ChunkCount = 2,
     tb_SectionSectorsPos = 1141, tb_SectionSectorsSize = 88, tb_LastUsed = 0, tb_pEwfTable = None\<rparr>"

definition small_segment :: t_segment where
  "small_segment = \<lparr>sg_pName = ''a'', sg_Number = 1, sg_pFile = None, sg_FileSize = 1341, sg_LastUsed = 0\<rparr>"

definition small_handle :: "nat \<Rightarrow> t_aewf" where
  "small_handle n = (AewfCreateHandle (int n) False)
     \<lparr>ae_Open := True, ae_pSegmentArr := [small_segment], ae_pTableArr := [small_table], ae_Chunks := 2,
      ae_TotalTableSize := 36, ae_SectorSize := 4, ae_Sectors := 2, ae_ChunkSize := 4, ae_ImageSize := 8,
      ae_pChunkBuffUncompressed := fresh_mem small_env 4100, ae_ChunkBuffSize := 4100,
      ae_pInfo := Some (info_text (\<lambda>_. ''0.00'') 8 ewf_volume None [''a''] 1 None),
      ae_pThreadArr := (if n > 1 then replicate n (new_thread small_env 4100) else [])\<rparr>"

lemma small_read:
  assumes "0 < n" "p + n \<le> 1341"
  shows "ReadFilePos (ewf_at q) n p = (AEWF_OK, segment p n ewf_file, ewf_at (p + n))"
    "ReadFileAlloc env (ewf_at p) n = (AEWF_OK, Some (segment p n ewf_file), ewf_at (p + n))"
proof -
  show "ReadFilePos (ewf_at q) n p = (AEWF_OK, segment p n ewf_file, ewf_at (p + n))"
    using ReadFilePos_ok [of n p "ewf_at q"] assms by (simp add: ewf_lengths)
  have "ReadFilePos (ewf_at p) n NO_SEEK = (AEWF_OK, segment p n ewf_file, ewf_at (p + n))"
    using assms by (simp add: ReadFilePos_def fread_def ewf_lengths)
  then show "ReadFileAlloc env (ewf_at p) n = (AEWF_OK, Some (segment p n ewf_file), ewf_at (p + n))"
    using assms by (simp add: ReadFileAlloc_def ReadFileAllocPos_def store_at_start_def fresh_mem_def ewf_lengths)
qed

lemma small_sections:
  "dec_aewf_section ewf_sec_volume = \<lparr>se_Type = [118, 111, 108, 117, 109, 101] @ replicate 10 0, se_OffsetNextSection = 1141, se_Size = 1128\<rparr>"
  "dec_aewf_section ewf_sec_sectors = \<lparr>se_Type = [115, 101, 99, 116, 111, 114, 115] @ replicate 9 0, se_OffsetNextSection = 1229, se_Size = 88\<rparr>"
  "dec_aewf_section ewf_sec_table = \<lparr>se_Type = [116, 97, 98, 108, 101] @ replicate 11 0, se_OffsetNextSection = 1229, se_Size = 112\<rparr>"
  by (simp_all add: ewf_sec_volume_def ewf_sec_sectors_def ewf_sec_table_def dec_small_section)

definition small_scan :: "t_aewf \<Rightarrow> bytes option \<Rightarrow> nat \<Rightarrow> nat \<Rightarrow> aewf_scan" where
  "small_scan a vol pos sz = \<lparr>sc_pAewf = a, sc_pVolume = vol, sc_pHeader = None, sc_pHeader2 = None, sc_pMD5 = None,
     sc_SectionSectorsPos = pos, sc_SectionSectorsSize = sz\<rparr>"

definition small_volume :: "t_aewf \<Rightarrow> t_aewf" where
  "small_volume a = a\<lparr>ae_Sectors := 2, ae_SectorSize := 4, ae_ChunkSize := 4, ae_ImageSize := 8\<rparr>"

lemma small_section_steps:
  "AewfOpen_section small_env 0 13 (dec_aewf_section ewf_sec_volume) (ewf_at 89) (small_scan a None 0 0) =
    (AEWF_OK, ewf_at 1141, small_scan (small_volume a) (Some ewf_volume) 0 0)"
  "AewfOpen_section small_env 0 1141 (dec_aewf_section ewf_sec_sectors) (ewf_at 1217) (small_scan a (Some ewf_volume) 0 0) =
    (AEWF_OK, ewf_at 1217, small_scan a (Some ewf_volume) 1141 88)"
  "ae_Chunks a = 0 \<Longrightarrow> ae_pTableArr a = [] \<Longrightarrow> ae_TotalTableSize a = 0 \<Longrightarrow> ae_pSegmentArr a = [small_segment] \<Longrightarrow>
   AewfOpen_section small_env 0 1229 (dec_aewf_section ewf_sec_table) (ewf_at 1305) (small_scan a (Some ewf_volume) 1141 88) =
    (AEWF_OK, ewf_at 1333, small_scan (a\<lparr>ae_pTableArr := [small_table], ae_Chunks := 2, ae_TotalTableSize := 36\<rparr>) (Some ewf_volume) 0 0)"
  by (simp_all add: AewfOpen_section_def small_sections type_is_def small_types c_string_def byte_lower_def section_volume_def
      section_table_def sizeof_t_AewfSection_def sizeof_t_AewfSectionVolume_def sizeof_t_AewfSectionTable_def small_read
      ewf_pieces small_scan_def small_volume_def dec_ewf_volume aewf_codes u64_small u32_small sub64_small ewf_table_values
      Let_def small_table_def small_segment_def)

lemma small_chain:
  assumes "ae_Chunks a = 0" "ae_pTableArr a = []" "ae_TotalTableSize a = 0" "ae_pSegmentArr a = [small_segment]"
  shows "AewfOpen_sections small_env 0 0 13 (ewf_at 13) (small_scan a None 0 0) =
    (AEWF_OK, small_scan ((small_volume a)\<lparr>ae_pTableArr := [small_table], ae_Chunks := 2, ae_TotalTableSize := 36\<rparr>)
      (Some ewf_volume) 0 0)"
proof -
  let ?b = "small_volume a"
  have b: "ae_Chunks ?b = 0" "ae_pTableArr ?b = []" "ae_TotalTableSize ?b = 0" "ae_pSegmentArr ?b = [small_segment]"
    using assms by (simp_all add: small_volume_def)
  have sc: "sc_pAewf (small_scan c v p q) = c" for c v p q by (simp add: small_scan_def)
  note rd = small_read [of 76] ewf_pieces
  have fields: "se_Size (dec_aewf_section ewf_sec_volume) = 1128" "se_OffsetNextSection (dec_aewf_section ewf_sec_volume) = 1141"
    "se_Size (dec_aewf_section ewf_sec_sectors) = 88" "se_OffsetNextSection (dec_aewf_section ewf_sec_sectors) = 1229"
    "se_Size (dec_aewf_section ewf_sec_table) = 112" "se_OffsetNextSection (dec_aewf_section ewf_sec_table) = 1229"
    by (simp_all add: small_sections)
  have h: "sizeof_t_AewfSection = 76" "sg_FileSize small_segment = 1341" by (simp_all add: sizeof_t_AewfSection_def small_segment_def)
  note steps = small_section_steps fields
  have 3: "AewfOpen_sections small_env 0 2 1229 (ewf_at 1217) (small_scan ?b (Some ewf_volume) 1141 88) =
    (AEWF_OK, small_scan (?b\<lparr>ae_pTableArr := [small_table], ae_Chunks := 2, ae_TotalTableSize := 36\<rparr>) (Some ewf_volume) 0 0)"
    by (subst AewfOpen_sections.simps) (simp add: AEWF_MAX_SECTION_COUNT_def h rd steps b sc u64_small Let_def)
  have 2: "AewfOpen_sections small_env 0 1 1141 (ewf_at 1141) (small_scan ?b (Some ewf_volume) 0 0) =
    AewfOpen_sections small_env 0 2 1229 (ewf_at 1217) (small_scan ?b (Some ewf_volume) 1141 88)"
    by (subst AewfOpen_sections.simps) (simp add: AEWF_MAX_SECTION_COUNT_def h rd steps b sc u64_small Let_def numeral_2_eq_2 [symmetric])
  have 1: "AewfOpen_sections small_env 0 0 13 (ewf_at 13) (small_scan a None 0 0) =
    AewfOpen_sections small_env 0 1 1141 (ewf_at 1141) (small_scan ?b (Some ewf_volume) 0 0)"
    by (subst AewfOpen_sections.simps) (simp add: AEWF_MAX_SECTION_COUNT_def h rd steps assms sc u64_small Let_def)
  show ?thesis unfolding 1 2 3 ..
qed

lemma small_open:
  assumes "0 < n" "n < 2 ^ 31"
  shows "AewfOpen small_env (AewfCreateHandle (int n) False) [''a''] = Some (AEWF_OK, small_handle n)"
proof -
  have fs: "OpenFile (ay_fs small_env) ''a'' = (AEWF_OK, Some (ewf_at 0), 1341)"
    by (simp add: OpenFile_def open_r_def small_env_def ewf_lengths)
  have realpath: "ay_realpath small_env ''a'' = Some ''a''" by (simp add: small_env_def)
  have head: "fh_Signature (dec_aewf_file_header ewf_head) = AEWF_SIGNATURE" "fh_SegmentNumber (dec_aewf_file_header ewf_head) = 1"
    by (simp_all add: dec_aewf_file_header_def ewf_head_def AEWF_SIGNATURE_def segment_def le_at_def)
  have segs: "AewfOpen_segments small_env [''a''] [] = Some (AEWF_OK, [small_segment])"
    using small_read(1) [of 13 0 0] fs head
    by (simp add: sizeof_t_AewfFileHeader_def ewf_pieces zero_segment_def small_segment_def Let_def realpath)
  define a where "a = (AewfInitHandle (AewfCreateHandle (int n) False))\<lparr>ae_Open := True, ae_pSegmentArr := [small_segment],
    ae_pTableArr := [], ae_Chunks := 0, ae_TotalTableSize := 0\<rparr>"
  have a: "ae_Chunks a = 0" "ae_pTableArr a = []" "ae_TotalTableSize a = 0" "ae_pSegmentArr a = [small_segment]"
    by (simp_all add: a_def)
  define sc where "sc = small_scan ((small_volume a)\<lparr>ae_pTableArr := [small_table], ae_Chunks := 2, ae_TotalTableSize := 36\<rparr>)
    (Some ewf_volume) 0 0"
  have tabs: "AewfOpen_tables small_env [0] (small_scan a None 0 0) = (AEWF_OK, sc)"
  proof -
    have "sg_pName small_segment = ''a''" "sg_FileSize small_segment = 1341" "sc_pAewf (small_scan a None 0 0) = a"
      by (simp_all add: small_segment_def small_scan_def)
    then show ?thesis
      using small_read(1) [of 13 0 0] fs small_chain [OF a] a by (simp add: sizeof_t_AewfFileHeader_def sc_def Let_def)
  qed
  have lim: "AewfOpen_limits sc = AEWF_OK"
    by (simp add: AewfOpen_limits_def sc_def small_scan_def dec_ewf_volume small_volume_def aewf_codes AEWF_MAX_SECTOR_SIZE_def
        AEWF_MAX_CHUNK_SIZE_def AEWF_MAX_TABLES_def)
  have fin: "AewfOpen_finish small_env sc = Some (AEWF_OK, small_handle n)"
  proof -
    have info: "CreateInfoData small_env (sc\<lparr>sc_pAewf := b\<rparr>) =
        Some (AEWF_OK, Some (info_text (\<lambda>_. ''0.00'') 8 ewf_volume None [''a''] 1 None))"
      if "ae_ImageSize b = 8" "ae_pSegmentArr b = [small_segment]" "ae_pTableArr b = [small_table]" for b
      using that by (simp add: CreateInfoData_def sc_def small_scan_def small_env_def small_segment_def)
    show ?thesis
      unfolding AewfOpen_finish_def Let_def
      by (subst info) (simp_all add: sc_def small_scan_def small_volume_def a_def small_handle_def AewfInitHandle_def AewfCreateHandle_def
          GetCPUs_def u32_small)
  qed
  have "AewfOpen_sort [small_segment] = [small_segment]" "AewfOpen_numbers 0 None [small_segment] = AEWF_OK"
    by (simp_all add: AewfOpen_sort_def small_segment_def)
  then show ?thesis
    using segs tabs lim fin by (simp add: AewfOpen_def a_def small_scan_def AewfCreateHandle_def)
qed

text \<open>Its chunks are intact.\<close>

lemma small_handle_sel [simp]:
  "ae_pTableArr (small_handle n) = [small_table]" "ae_pSegmentArr (small_handle n) = [small_segment]"
  "ae_Chunks (small_handle n) = 2" "ae_ChunkSize (small_handle n) = 4" "ae_ImageSize (small_handle n) = 8"
  "ae_ChunkBuffSize (small_handle n) = 4100" "ae_Threads (small_handle n) = n" "ae_ChunkInBuff (small_handle n) = AEWF_NONE"
  by (simp_all add: small_handle_def AewfCreateHandle_def GetCPUs_def)

lemma small_chunks:
  "aewf_chunk small_env (small_handle n) 0 = Some [1, 2, 3, 4]" "aewf_chunk small_env (small_handle n) 1 = Some [5, 6, 7, 8]"
proof -
  have t: "tb_ChunkFrom small_table = 0" "tb_ChunkTo small_table = 1" "tb_pSegment small_table = 0" "tb_Offset small_table = 1305"
    "tb_Size small_table = 36" "tb_SectionSectorsPos small_table = 1141" "tb_SectionSectorsSize small_table = 88"
    by (simp_all add: small_table_def)
  have d: "seg_data small_env small_segment = ewf_file" by (simp add: seg_data_def small_env_def small_segment_def)
  have tb: "table_bytes small_env (small_handle n) small_table = ewf_table" by (simp add: table_bytes_def t d ewf_pieces)
  have find: "aewf_find_table (small_handle n) k = Some 0" if "k \<le> 1" for k using that by (simp add: aewf_find_table_def t)
  have sz: "aewf_chunk_size (small_handle n) k = 4" for k by (simp add: aewf_chunk_size_def)
  have "segment 1217 8 ewf_file = segment 0 8 (segment 1217 12 ewf_file)" by (simp add: segment_def)
  also have "\<dots> = [1, 2, 3, 4, 10, 0, 0, 0]" unfolding ewf_pieces by (simp add: ewf_chunks_def segment_def)
  finally have d0: "segment 1217 8 ewf_file = [1, 2, 3, 4, 10, 0, 0, 0]" .
  have "segment 1225 4 ewf_file = segment 8 4 (segment 1217 12 ewf_file)" by (simp add: segment_def drop_take)
  also have "\<dots> = [5, 6, 7, 8]" unfolding ewf_pieces by (simp add: ewf_chunks_def segment_def)
  finally have d1: "segment 1225 4 ewf_file = [5, 6, 7, 8]" .
  have p0: "aewf_place small_table ewf_table 0 = Some (False, 1217, 8)"
    using ewf_table_values by (simp add: aewf_place_def AEWF_COMPRESSED_def u64_small sub32_small)
  have p1: "aewf_place small_table ewf_table 1 = Some (True, 1225, 4)"
    using ewf_table_values
    by (simp add: aewf_place_def AEWF_COMPRESSED_def u64_small sub32_small sub64_small u32_small t)
  have crc: "chunk_crc_ok small_env 4 [1, 2, 3, 4, 10, 0, 0, 0]"
    by (simp add: chunk_crc_ok_def small_env_def le_at_def segment_def)
  show "aewf_chunk small_env (small_handle n) 0 = Some [1, 2, 3, 4]"
    unfolding aewf_chunk_def find [OF zero_le_one] option.case Let_def small_handle_sel nth_Cons_0 tb t sz
    by (simp add: sub64_small p0 aewf_decode_def d d0 ewf_lengths crc)
  show "aewf_chunk small_env (small_handle n) 1 = Some [5, 6, 7, 8]"
    unfolding aewf_chunk_def find [OF order_refl] option.case Let_def small_handle_sel nth_Cons_0 tb t sz
    by (simp add: sub64_small p1 [simplified] aewf_decode_def d d1 ewf_lengths) (simp add: small_env_def)
qed

lemma small_intact: "aewf_intact small_env (small_handle n)" "aewf_disk small_env (small_handle n) = [1, 2, 3, 4, 5, 6, 7, 8]"
proof -
  have "k < 2 \<Longrightarrow> aewf_chunk small_env (small_handle n) k \<noteq> None" for k
    using small_chunks by (cases "k = 0") (auto simp: less_2_cases_iff)
  then show "aewf_intact small_env (small_handle n)" by (simp add: aewf_intact_def aewf_sizes_def)
  show "aewf_disk small_env (small_handle n) = [1, 2, 3, 4, 5, 6, 7, 8]"
    using small_chunks by (simp add: aewf_disk_def numeral_2_eq_2)
qed

lemma small_ok: "zlib_ok small_env" "files_ok small_env" "tables_fit (small_handle n)" "aewf_sizes (small_handle n)"
  by (simp_all add: zlib_ok_def files_ok_def small_env_def ewf_lengths tables_fit_def small_table_def aewf_sizes_def)

lemma small_ready:
  assumes "0 < n" "n < 2 ^ 31"
  shows "aewf_ready small_env (small_handle n) \<and> aewf_clean small_env (small_handle n)"
  by (rule AewfOpen_ready [OF small_open [OF assms] small_ok(2) _ _ _ small_ok(3)])
    (use assms small_ok(4) in \<open>simp_all add: AewfCreateHandle_def GetCPUs_def\<close>)

section \<open>Opening\<close>

text \<open>C11: an image that \<open>AewfOpen\<close> accepts, from files of less than 1 TiB in which no table
  section has a size that wraps (2 ^ 62 or more; the check adds modulo 2 ^ 64): the tables lie in
  their files, the buffers hold no chunk, and the handle is ready to be read (the tables have room for
  their offsets, the tables in a row hold all chunks, the buffers have room for a chunk and its
  checksum, the caches are empty and their counters agree, no thread runs) exactly if the options ask
  for at least one thread and, where they ask for one, the number of chunks fits the size of the
  image. The code checks neither of these two.\<close>

theorem aewf_open_makes_ready:
  assumes "AewfOpen env a names = Some (AEWF_OK, a')"
    and "\<forall>name d. ay_fs env name = Some d \<longrightarrow> length d < 2 ^ 40" "\<forall>t \<in> set (ae_pTableArr a'). tb_Size t < 2 ^ 62"
    and "ae_Threads a < 2 ^ 32" "ae_ImageSize a < 2 ^ 64"
  shows "(\<forall>t \<in> set (ae_pTableArr a'). table_ok env a' t) \<and> aewf_clean env a' \<and>
    (aewf_ready env a' \<longleftrightarrow> 0 < ae_Threads a \<and> (ae_Threads a = 1 \<longrightarrow> aewf_sizes a'))"
proof -
  have env: "files_ok env" unfolding files_ok_def
  proof (intro allI impI)
    fix name d
    assume "ay_fs env name = Some d"
    then have "length d < 2 ^ 40" using assms(2) by blast
    also have "\<dots> < (2 :: nat) ^ 63" by simp
    finally show "length d < 2 ^ 63" .
  qed
  show ?thesis
    using AewfOpen_checked [OF assms(1) env assms(4,5)] AewfOpen_tables_fit [OF assms(1,2,4,5,3)] assms(3) by blast
qed

theorem aewf_open_makes_ready_witness:
  "aewf_ready small_env (small_handle 2) \<and> aewf_clean small_env (small_handle 2) \<and> aewf_ready small_env (small_handle 1)"
proof -
  have fs: "\<forall>name d. ay_fs small_env name = Some d \<longrightarrow> length d < 2 ^ 40" by (simp add: small_env_def ewf_lengths)
  have t: "\<forall>t \<in> set (ae_pTableArr (small_handle n)). tb_Size t < 2 ^ 62" for n by (simp add: small_table_def)
  show ?thesis
    using aewf_open_makes_ready [OF small_open [of 2] fs t] aewf_open_makes_ready [OF small_open [of 1] fs t] small_ok(4) [of 1]
    by (simp add: AewfCreateHandle_def GetCPUs_def)
qed

section \<open>Reading\<close>

text \<open>An opened image whose chunks are intact meets the contract of the input libraries whose handle
  changes with every read.\<close>

definition aewf_inv :: "aewf_env \<times> t_aewf \<Rightarrow> bool" where
  "aewf_inv h \<longleftrightarrow> zlib_ok (fst h) \<and> aewf_ready (fst h) (snd h) \<and> aewf_clean (fst h) (snd h) \<and>
     aewf_intact (fst h) (snd h) \<and> ae_ImageSize (snd h) < 2 ^ 63"

definition aewf_contents :: "aewf_env \<times> t_aewf \<Rightarrow> bytes" where
  "aewf_contents h = aewf_disk (fst h) (snd h)"

definition aewf_read :: "aewf_env \<times> t_aewf \<Rightarrow> bytes \<Rightarrow> nat \<Rightarrow> nat \<Rightarrow> (read_res \<times> aewf_env \<times> t_aewf) option" where
  "aewf_read h buf off n = map_option (\<lambda>(r, a). (r, fst h, a)) (AewfRead (fst h) (snd h) buf off n)"

interpretation aewf: session_reader aewf_inv aewf_contents aewf_read
proof unfold_locales
  fix h :: "aewf_env \<times> t_aewf" and n off :: nat and buf :: bytes
  assume inv: "aewf_inv h" and n: "0 < n" "n \<le> length buf" "off + n \<le> length (aewf_contents h)"
  obtain env a where h: "h = (env, a)" by force
  have i: "zlib_ok env" "aewf_ready env a" "aewf_clean env a" "aewf_intact env a" "ae_ImageSize a < 2 ^ 63"
    using inv by (simp_all add: h aewf_inv_def)
  have l: "length (aewf_disk env a) = ae_ImageSize a" by (rule length_aewf_disk [OF i(4)])
  have o: "off + n \<le> ae_ImageSize a" using n(3) l by (simp add: h aewf_contents_def)
  have "read_args buf off n" using n o i(5) by (simp add: read_args_def)
  from AewfRead_ok [OF i(1,2) this] i(3,4) obtain b a' where
    r: "AewfRead env a buf off n = Some (\<lparr>rr_ret = 0, rr_buf = b, rr_read = min n (ae_ImageSize a - off), rr_errno = 0\<rparr>, a')"
    "aewf_ready env a'" "aewf_base a' = aewf_base a" "aewf_clean env a'"
    "take (min n (ae_ImageSize a - off)) b = segment off n (aewf_disk env a)"
    by blast
  have m: "min n (ae_ImageSize a - off) = n" using o by simp
  have cc: "aewf_caches env a" using i(2) by (simp add: aewf_ready_def aewf_wf_def)
  note same = aewf_intact_base [OF cc r(3)] aewf_baseD(5) [OF r(3)]
  have "aewf_inv (env, a')" using i r(2,4) same by (simp add: aewf_inv_def)
  then show "\<exists>r h'. aewf_read h buf off n = Some (r, h') \<and> rr_ret r = 0 \<and> rr_read r = n \<and>
      take n (rr_buf r) = segment off n (aewf_contents h) \<and> aewf_inv h' \<and> aewf_contents h' = aewf_contents h"
    using r(1,5) m same by (simp add: h aewf_read_def aewf_contents_def)
qed

text \<open>C6: An image that \<open>AewfOpen\<close> accepts and whose chunks are intact, compressed or with a
  checksum, in any number of files: every sequence of reads inside it, with one thread or several
  and whatever the caches hold, returns the bytes of the disk.\<close>

theorem aewf_opened_image_reads:
  assumes "zlib_ok env" "files_ok env" "AewfOpen env a names = Some (AEWF_OK, a1)"
    and "0 < ae_Threads a" "ae_Threads a < 2 ^ 32" "ae_ImageSize a < 2 ^ 64" "tables_fit a1"
    and "aewf_intact env a1" "ae_ImageSize a1 < 2 ^ 63" "reads_inside reqs (ae_ImageSize a1)"
  shows "\<exists>h. read_session aewf_read (env, a1) reqs =
    Some (map (\<lambda>(off, buf). (0, segment off (length buf) (aewf_disk env a1))) reqs, h)"
proof -
  have "aewf_sizes a1" using assms(8) by (simp add: aewf_intact_def)
  then have "aewf_inv (env, a1)" using AewfOpen_ready [OF assms(3,2,4-7)] assms by (simp add: aewf_inv_def)
  from aewf.session_reads [OF this, of reqs] assms(8,10) show ?thesis
    by (auto simp: aewf_contents_def length_aewf_disk)
qed

theorem aewf_opened_image_reads_witness:
  "\<exists>h. read_session aewf_read (small_env, small_handle 2) [(2, [0, 0, 0, 0]), (0, [0, 0, 0])] =
    Some ([(0, [3, 4, 5, 6]), (0, [1, 2, 3])], h)"
  using aewf_opened_image_reads [OF small_ok(1,2) small_open [of 2] _ _ _ small_ok(3) small_intact(1),
      of "[(2, [0, 0, 0, 0]), (0, [0, 0, 0])]"]
  by (simp add: AewfCreateHandle_def GetCPUs_def reads_inside_def small_intact(2) segment_def)

text \<open>The end of the image: what lies behind it is not read, and the number of bytes is reported.\<close>

theorem aewf_read_returns_image:
  assumes "zlib_ok env" "aewf_ready env a" "aewf_clean env a" "aewf_intact env a" "read_args pBuf Seek Count"
  shows "\<exists>buf a'. AewfRead env a pBuf Seek Count =
      Some (\<lparr>rr_ret = 0, rr_buf = buf, rr_read = min Count (ae_ImageSize a - Seek), rr_errno = 0\<rparr>, a') \<and>
    take (min Count (ae_ImageSize a - Seek)) buf = segment Seek Count (aewf_disk env a) \<and>
    aewf_ready env a' \<and> aewf_clean env a' \<and> aewf_disk env a' = aewf_disk env a"
proof -
  obtain buf read a' where r: "AewfRead env a pBuf Seek Count = Some (\<lparr>rr_ret = 0, rr_buf = buf, rr_read = read, rr_errno = 0\<rparr>, a')"
    "aewf_ready env a'" "aewf_base a' = aewf_base a" "aewf_clean env a'" "read = min Count (ae_ImageSize a - Seek)"
    "take read buf = segment Seek Count (aewf_disk env a)"
    using AewfRead_ok [OF assms(1,2,5)] assms(3,4) by blast
  have "aewf_caches env a" using assms(2) by (simp add: aewf_ready_def aewf_wf_def)
  from aewf_intact_base(2) [OF this r(3)] show ?thesis using r by blast
qed

theorem aewf_read_returns_image_witness:
  "\<exists>buf a'. AewfRead small_env (small_handle 2) (replicate 4 0) 2 4 =
      Some (\<lparr>rr_ret = 0, rr_buf = buf, rr_read = 4, rr_errno = 0\<rparr>, a') \<and> take 4 buf = [3, 4, 5, 6]"
  using aewf_read_returns_image [OF small_ok(1) _ _ small_intact(1), of 2 "replicate 4 0" 2 4] small_ready [of 2]
  by (auto simp: read_args_def small_intact(2) segment_def)

text \<open>Whatever the chunks are worth, a session of reads goes on.\<close>

lemma aewf_session_returns:
  assumes "zlib_ok env" "aewf_ready env a" "\<forall>(off, buf) \<in> set reqs. read_args buf off (length buf)"
  shows "\<exists>out a'. read_session aewf_read (env, a) reqs = Some (out, (env, a')) \<and> length out = length reqs \<and>
    (\<forall>(rc, b) \<in> set out. rc = 0) \<and> aewf_ready env a' \<and> aewf_base a' = aewf_base a"
  using assms(2,3)
proof (induction reqs arbitrary: a)
  case (Cons req reqs)
  obtain off buf where req: "req = (off, buf)" by force
  then have "read_args buf off (length buf)" using Cons.prems(2) by simp
  then obtain b n a1 where r: "AewfRead env a buf off (length buf) =
      Some (\<lparr>rr_ret = 0, rr_buf = b, rr_read = n, rr_errno = 0\<rparr>, a1)" "aewf_ready env a1" "aewf_base a1 = aewf_base a"
    using AewfRead_ok [OF assms(1) Cons.prems(1)] by blast
  have "\<forall>(off, buf) \<in> set reqs. read_args buf off (length buf)" using Cons.prems(2) by simp
  from Cons.IH [OF r(2) this] show ?case using r by (auto simp: req aewf_read_def)
qed simp

text \<open>C14: an image that \<open>AewfOpen\<close> accepts, however damaged its chunks are, with at least one
  thread (and, with exactly one, with a number of chunks that fits the size of the image) and no table
  section of 1 TiB or more: every sequence of reads comes back, each with the code for success, and the
  handle stays ready for the next ones. Each chunk that is read brings the loop of the single-threaded code
  forward, each round of the other launches at least one thread with at least one byte, and an
  error ends them.\<close>

theorem aewf_read_returns:
  assumes "zlib_ok env" "files_ok env" "AewfOpen env a names = Some (AEWF_OK, a1)"
    and "0 < ae_Threads a" "ae_Threads a < 2 ^ 32" "ae_Threads a = 1 \<longrightarrow> aewf_sizes a1"
    and "ae_ImageSize a < 2 ^ 64" "tables_fit a1" "\<forall>(off, buf) \<in> set reqs. off < 2 ^ 63 \<and> length buf < 2 ^ 63"
  shows "\<exists>out a'. read_session aewf_read (env, a1) reqs = Some (out, (env, a')) \<and> length out = length reqs \<and>
    (\<forall>(rc, b) \<in> set out. rc = 0) \<and> aewf_ready env a'"
proof -
  have "aewf_ready env a1" using AewfOpen_ready [OF assms(3,2,4,5,7,8,6)] by simp
  moreover have "\<forall>(off, buf) \<in> set reqs. read_args buf off (length buf)" using assms(9) by (auto simp: read_args_def)
  ultimately show ?thesis using aewf_session_returns [OF assms(1)] by blast
qed

theorem aewf_read_returns_witness:
  "\<exists>out a'. read_session aewf_read (small_env, small_handle 3) [(1, replicate 9 0), (7, [0])] = Some (out, (small_env, a')) \<and>
     length out = 2"
  using aewf_read_returns [OF small_ok(1,2) small_open [of 3] _ _ _ _ small_ok(3), of "[(1, replicate 9 0), (7, [0])]"]
  by (auto simp: AewfCreateHandle_def GetCPUs_def)

lemma aewf_base_limits:
  assumes "aewf_base a' = aewf_base a"
  shows "ae_MaxOpenSegments a' = ae_MaxOpenSegments a" "ae_MaxTableCache a' = ae_MaxTableCache a"
  using arg_cong [OF assms, of ae_MaxOpenSegments] arg_cong [OF assms, of ae_MaxTableCache]
  by (simp_all add: aewf_base_def aewf_plain_def)

text \<open>C23: the limits in the handle hold after every read: at most \<open>MaxOpenSegments\<close> files
  (\<open>aewfmaxfiles\<close>) are open, or one if that is zero; the tables in memory have at most
  \<open>MaxTableCache\<close> bytes (the number of \<open>aewfmaxmem\<close>, which the help text gives in MiB), or
  only one table is in memory, of whatever size.\<close>

theorem aewf_read_keeps_limits:
  assumes "zlib_ok env" "aewf_ready env a" "read_args pBuf Seek Count" "AewfRead env a pBuf Seek Count = Some (r, a')"
  shows "length (filter seg_open (ae_pSegmentArr a')) \<le> max 1 (ae_MaxOpenSegments a) \<and>
    (sum_list (map loaded_size (ae_pTableArr a')) \<le> ae_MaxTableCache a \<or> tables_loaded a' \<le> 1)"
proof -
  have a': "aewf_ready env a'" "aewf_base a' = aewf_base a" using AewfRead_ok [OF assms(1-3)] assms(4) by auto
  then have "aewf_caches env a'" "aewf_limits a'" by (simp_all add: aewf_ready_def aewf_wf_def)
  then show ?thesis unfolding aewf_limits_def aewf_caches_def aewf_base_limits [OF a'(2)] by metis
qed

theorem aewf_read_keeps_limits_witness:
  "\<exists>r a'. AewfRead small_env (small_handle 2) (replicate 4 0) 0 4 = Some (r, a') \<and>
    length (filter seg_open (ae_pSegmentArr a')) \<le> 10"
proof -
  have rd: "aewf_ready small_env (small_handle 2)" using small_ready [of 2] by simp
  have args: "read_args (replicate 4 0) 0 4" by (simp add: read_args_def)
  obtain r a' where r: "AewfRead small_env (small_handle 2) (replicate 4 0) 0 4 = Some (r, a')"
    using AewfRead_ok [OF small_ok(1) rd args] by blast
  have "ae_MaxOpenSegments (small_handle 2) = 10"
    by (simp add: small_handle_def AewfCreateHandle_def AEWF_DEFAULT_MAXOPENSEGMENTS_def)
  then show ?thesis using aewf_read_keeps_limits [OF small_ok(1) rd args r] r by auto
qed

section \<open>Errors\<close>

text \<open>C39: Errors while reading are not reported. A chunk that no table holds is an error in both
  modes (\<open>AewfOpen\<close> does not compare the number of chunks with the size of the image);
  \<open>AewfRead\<close> returns success and no error number, with nothing read and the buffer as it was.\<close>

theorem aewf_missing_chunk_is_success:
  assumes a: "aewf_ready env a" and k: "aewf_find_table a (Seek div ae_ChunkSize a) = None" "ae_ChunkInBuff a \<noteq> Seek div ae_ChunkSize a"
    "\<forall>th \<in> set (ae_pThreadArr a). th_ChunkInBuff th \<noteq> Seek div ae_ChunkSize a"
    and s: "Seek < ae_ImageSize a" "0 < Count" "read_args pBuf Seek Count"
  shows "\<exists>a'. AewfRead env a pBuf Seek Count = Some (\<lparr>rr_ret = 0, rr_buf = pBuf, rr_read = 0, rr_errno = 0\<rparr>, a')"
proof -
  let ?n = "min Count (ae_ImageSize a - Seek)" and ?k = "Seek div ae_ChunkSize a"
  have wf: "0 < ae_ChunkSize a" "ae_ImageSize a \<le> AEWF_NONE" using a by (simp_all add: aewf_ready_def aewf_wf_def)
  have n: "0 < ?n" using s by simp
  have "\<exists>a'. aewf_reader env a pBuf Seek ?n = Some (AEWF_CHUNK_NOT_FOUND, pBuf, 0, a')"
  proof (cases "ae_Threads a = 1")
    case True
    have "AewfReadChunkLegacy env a ?k = Some (AEWF_CHUNK_NOT_FOUND, 0, a)"
      using k(1,2) by (simp add: AewfReadChunkLegacy_def aewf_prepare_def aewf_codes)
    then show ?thesis
      using True wf n by (simp add: aewf_reader_def AewfReadLegacy_def AewfReadLegacy_loop.simps aewf_codes)
  next
    case False
    define m where "m = min (u64 (ae_Threads a * ae_ChunkSize a)) ?n"
    have m: "0 < m" using a False n by (simp add: m_def aewf_ready_def)
    have ch: "AewfReadChunkMT env a ?k pBuf 0 o' len = Some (AEWF_CHUNK_NOT_FOUND, pBuf, a)" for o' len
      using k by (simp add: AewfReadChunkMT_def first_index_None [THEN iffD2] aewf_prepare_def aewf_codes)
    have lp: "AewfReadMT0_loop env a ?k pBuf 0 o' m = Some (AEWF_CHUNK_NOT_FOUND, pBuf, a)" for o'
      using m by (subst AewfReadMT0_loop.simps) (simp add: ch aewf_codes)
    obtain rt rd where j: "AewfReadMT0_join (ae_pThreadArr a) 0 0 = (rt, rd)" by force
    have "\<exists>r a'. AewfReadMT0 env a pBuf 0 Seek m = Some (AEWF_CHUNK_NOT_FOUND, pBuf, r, a')"
      using m wf lp j by (simp add: AewfReadMT0_def Let_def aewf_codes)
    then show ?thesis
      using False n by (auto simp: aewf_reader_def AewfReadMT_def AewfReadMT_loop.simps m_def [symmetric] aewf_codes)
  qed
  moreover have "Seek < 2 ^ 63" "Seek + Count < 2 ^ 64" using s(3) by (simp_all add: read_args_def)
  ultimately show ?thesis using AewfRead_reader [OF _ s(1) wf(2)] by fastforce
qed

text \<open>The small image with a volume section that counts three sectors, not two.\<close>

lemma small_longer_ready: "aewf_ready small_env ((small_handle 2)\<lparr>ae_ImageSize := 12\<rparr>)"
proof -
  let ?a = "(small_handle 2)\<lparr>ae_ImageSize := 12\<rparr>"
  have r: "aewf_ready small_env (small_handle 2)" using small_ready [of 2] by simp
  have "aewf_caches small_env ?a = aewf_caches small_env (small_handle 2)" by (rule caches_cong) simp_all
  moreover have "aewf_limits ?a = aewf_limits (small_handle 2)" by (rule limits_cong) simp_all
  ultimately show ?thesis using r by (simp add: aewf_ready_def aewf_wf_def all_idle_def AEWF_NONE_def)
qed

theorem aewf_missing_chunk_is_success_witness:
  "\<exists>a'. AewfRead small_env ((small_handle 2)\<lparr>ae_ImageSize := 12\<rparr>) [9, 9] 8 2 =
     Some (\<lparr>rr_ret = 0, rr_buf = [9, 9], rr_read = 0, rr_errno = 0\<rparr>, a')"
  by (rule aewf_missing_chunk_is_success [OF small_longer_ready])
    (simp_all add: aewf_find_table_def small_table_def AEWF_NONE_def small_handle_def new_thread_def read_args_def AewfCreateHandle_def)

lemma StrToUint64_zero: "StrToUint64 ''0'' = (0, 1)"
  by (simp add: StrToUint64_def strtoull_def scan_number_def is_space_def digit_val_def digits_value_def)

text \<open>C40: The option \<open>aewfthreads=0\<close> is accepted, but every read that follows uses a variable
  without a value: the code with several threads is taken, and its rounds have nothing to read.\<close>

theorem aewf_no_threads_undefined:
  assumes "lo_key opt = ''aewfthreads''" "lo_value opt = ''0''" "Seek < 2 ^ 63" "Seek < ae_ImageSize a" "ae_ImageSize a \<le> AEWF_NONE"
    "0 < Count" "Seek + Count < 2 ^ 64"
  shows "\<exists>a'. AewfOptionsParse realpath log_rc a [opt] = (AEWF_OK, a', [opt], None) \<and> AewfRead env a' pBuf Seek Count = None"
proof -
  let ?a = "a\<lparr>ae_Threads := 0\<rparr>"
  have "AewfOptionsParse realpath log_rc a [opt] = (AEWF_OK, ?a, [opt], None)"
    by (simp add: assms(1,2) aewf_number_option_def StrToUint64_zero Let_def u32_small)
  moreover have "aewf_reader env ?a pBuf Seek (min Count (ae_ImageSize ?a - Seek)) = None"
    using assms by (simp add: aewf_reader_def AewfReadMT_def AewfReadMT_loop.simps AewfReadMT0_def u64_small)
  ultimately show ?thesis using AewfRead_reader [of Seek ?a Count env pBuf] assms by simp
qed

theorem aewf_no_threads_undefined_witness:
  "\<exists>a'. AewfOptionsParse (\<lambda>_. None) (\<lambda>_. 0) (small_handle 2) [\<lparr>lo_key = ''aewfthreads'', lo_value = ''0'', lo_valid = False\<rparr>] =
     (AEWF_OK, a', [\<lparr>lo_key = ''aewfthreads'', lo_value = ''0'', lo_valid = False\<rparr>], None) \<and>
   AewfRead small_env a' [0] 0 1 = None"
  by (rule aewf_no_threads_undefined) (simp_all add: AEWF_NONE_def)

end
