(* ===== verification/XmountAewf.thy ===== *)
theory XmountAewf
  imports XmountMount InputAewfResults
begin

text \<open>
  The EWF input library in xmount: its function table, and the program started on an EWF image.
  The handle changes with every read. The state of the program keeps the handle as \<open>Open\<close> has
  left it, and \<open>seen a off n\<close> is the one that the read at \<open>off\<close> meets: any that reads inside the
  image have made of it (\<open>aewf_history\<close>).
\<close>

section \<open>The function table\<close>

definition aewf_lib ::
  "aewf_env \<Rightarrow> (t_aewf \<Rightarrow> nat \<Rightarrow> nat \<Rightarrow> t_aewf) \<Rightarrow> (string \<Rightarrow> int) \<Rightarrow> int \<Rightarrow> t_aewf input_lib" where
  "aewf_lib ay seen log_rc nprocessors =
     \<lparr>il_name = ''libxmount_input_aewf.so'', il_types = type_names [''aewf''],
      il_is_initialized = False, il_Init = AEWF_OK,
      il_CreateHandle = (\<lambda>_ debug. (AEWF_OK, AewfCreateHandle nprocessors debug)),
      il_DestroyHandle = (\<lambda>a. Some (AewfDestroyHandle a)),
      il_Open = AewfOpen ay,
      il_Close = (\<lambda>a. Some (AewfClose a)),
      il_Size = AewfSize,
      il_Read = (\<lambda>a off n. map_option fst (AewfRead ay (seen a off n) (replicate n 0) off n)),
      il_OptionsParse = (\<lambda>a opts. case AewfOptionsParse (ay_realpath ay) log_rc a opts of
          (rc, a1, opts1, _) \<Rightarrow> (rc, a1, opts1)),
      il_GetInfofileContent = (\<lambda>a _. AewfGetInfofileContent a)\<rparr>"

definition aewf_history :: "aewf_env \<Rightarrow> (t_aewf \<Rightarrow> nat \<Rightarrow> nat \<Rightarrow> t_aewf) \<Rightarrow> bool" where
  "aewf_history ay seen \<longleftrightarrow> (\<forall>a off n. \<exists>reqs out. reads_inside reqs (ae_ImageSize a) \<and>
     read_session aewf_read (ay, a) reqs = Some (out, (ay, seen a off n)))"

lemma FindInputLib_aewf:
  "ii_type img = ''aewf'' \<Longrightarrow> FindInputLib (aewf_lib ay seen log_rc cpus # ilibs) img = Some (Some 0)"
  using lib_supports_names [of "[''aewf'']" "ii_type img"] by (simp add: FindInputLib_def aewf_lib_def)

section \<open>Reads through the table\<close>

lemma AewfRead_inside:
  assumes inv: "aewf_inv (ay, a)" and n: "0 < n" "off + n \<le> ae_ImageSize a"
  shows "map_option fst (AewfRead ay a (replicate n 0) off n) = Some (rd_ok (segment off n (aewf_disk ay a)))"
proof -
  have i: "zlib_ok ay" "aewf_ready ay a" "aewf_clean ay a" "aewf_intact ay a" "ae_ImageSize a < 2 ^ 63"
    using inv by (simp_all add: aewf_inv_def)
  have l: "length (aewf_disk ay a) = ae_ImageSize a" by (rule length_aewf_disk [OF i(4)])
  obtain rc buf m a' where r: "aewf_reader ay a (replicate n 0) off n = Some (rc, buf, m, a')"
    "read_result ay a (replicate n 0) 0 off n rc buf n a'" "rc = AEWF_OK \<longrightarrow> m = n"
    using aewf_reader_ok [OF i(1,2) n(2), of "replicate n 0"] by auto
  have b: "rc = AEWF_OK" "buf = segment off n (aewf_disk ay a)"
    using r(2) i n l by (simp_all add: read_result_def overwrite_def)
  have m: "min n (ae_ImageSize a - off) = n" using n by simp
  have "AewfRead ay a (replicate n 0) off n = Some (rd_ok (segment off n (aewf_disk ay a)), a')"
    using AewfRead_reader [of off a n ay "replicate n 0"] r(1,3) b n l i(5)
    by (simp add: m rd_ok_def AEWF_NONE_def)
  then show ?thesis by simp
qed

lemma aewf_seen:
  assumes inv: "aewf_inv (ay, a)" and h: "aewf_history ay seen"
  shows "aewf_inv (ay, seen a off n)" "aewf_disk ay (seen a off n) = aewf_disk ay a"
    "ae_ImageSize (seen a off n) = ae_ImageSize a"
proof -
  have l: "length (aewf_contents (ay, b)) = ae_ImageSize b" if "aewf_inv (ay, b)" for b
    using that length_aewf_disk by (simp add: aewf_contents_def aewf_inv_def)
  obtain reqs out where r: "reads_inside reqs (ae_ImageSize a)"
    "read_session aewf_read (ay, a) reqs = Some (out, (ay, seen a off n))"
    using h unfolding aewf_history_def by blast
  obtain h' where "read_session aewf_read (ay, a) reqs =
      Some (map (\<lambda>(off, buf). (0, segment off (length buf) (aewf_contents (ay, a)))) reqs, h')"
    "aewf_inv h'" "aewf_contents h' = aewf_contents (ay, a)"
    using aewf.session_reads [OF inv, of reqs] r(1) l [OF inv] by auto
  then have e: "aewf_inv (ay, seen a off n)" "aewf_contents (ay, seen a off n) = aewf_contents (ay, a)"
    using r(2) by simp_all
  then show "aewf_inv (ay, seen a off n)" "aewf_disk ay (seen a off n) = aewf_disk ay a"
    "ae_ImageSize (seen a off n) = ae_ImageSize a"
    using l [OF e(1)] l [OF inv] by (simp_all add: aewf_contents_def)
qed

lemma aewf_opens_as:
  assumes lib: "image_lib ilibs img = aewf_lib ay seen log_rc cpus" "\<exists>k. FindInputLib ilibs img = Some (Some k)"
    and "zlib_ok ay" "files_ok ay" "AewfOpen ay (AewfCreateHandle cpus debug) (ii_files img) = Some (AEWF_OK, a)"
    and "cpus \<noteq> 0" "cpus < 2 ^ 31" "tables_fit a" "aewf_intact ay a" "ae_ImageSize a < 2 ^ 63" "aewf_history ay seen"
    and "main_image_size off limit (ae_ImageSize a) \<noteq> None"
  shows "opens_as ilibs debug off limit img (aewf_disk ay a)" "fst (image_info ilibs debug img null) = 0"
proof -
  have cpus: "0 < ae_Threads (AewfCreateHandle cpus debug)" "ae_Threads (AewfCreateHandle cpus debug) < 2 ^ 32"
    "ae_ImageSize (AewfCreateHandle cpus debug) < 2 ^ 64"
    using assms(6,7) by (auto simp: AewfCreateHandle_def GetCPUs_def)
  have "aewf_sizes a" using assms(9) by (simp add: aewf_intact_def)
  then have inv: "aewf_inv (ay, a)"
    using AewfOpen_ready [OF assms(5,4) cpus assms(8)] assms(3,9,10) by (simp add: aewf_inv_def)
  have l: "length (aewf_disk ay a) = ae_ImageSize a" by (rule length_aewf_disk [OF assms(9)])
  have oh: "opened_handle ilibs debug img = a" by (simp add: opened_handle_def lib(1) Let_def aewf_lib_def assms(5))
  have read: "map_option fst (AewfRead ay (seen a off n) (replicate n 0) off n) = Some (rd_ok (segment off n (aewf_disk ay a)))"
    if "0 < n" "off + n \<le> ae_ImageSize a" for off n
    using AewfRead_inside [OF aewf_seen(1) [OF inv assms(11)] that(1), of off off n] that(2) aewf_seen(2,3) [OF inv assms(11)]
    by simp
  show "opens_as ilibs debug off limit img (aewf_disk ay a)"
    using lib(2) assms(5,10,12) l read
    by (simp add: opens_as_def lib(1) oh Let_def aewf_lib_def lib_image_ok_def AewfSize_def AEWF_OK_def)
  show "fst (image_info ilibs debug img null) = 0"
    by (simp add: image_info_def lib(1) aewf_lib_def AewfGetInfofileContent_def AEWF_OK_def)
qed

section \<open>Properties\<close>

text \<open>C8: \<open>main\<close> with one EWF image, in any number of segment files, and any output format: if
  \<open>AewfOpen\<close> accepts the files (of less than 2 ^ 63 bytes, without table sections of 1 TiB or more) on a
  computer with at least one processor, the chunks are intact and make an image of less than 512 TiB, and
  the first file name fits the descriptor of a VMDK output, xmount shows the disk in the image, not
  writable, in the frame of the output format, whatever earlier reads inside the image have changed in
  the caches of the library.\<close>

theorem xmount_mounts_aewf_image:
  fixes ay :: aewf_env
  assumes "zlib_ok ay" "files_ok ay" "AewfOpen ay (AewfCreateHandle cpus False) files = Some (AEWF_OK, a)"
    and "cpus \<noteq> 0" "cpus < 2 ^ 31" "tables_fit a" "aewf_intact ay a" "ae_ImageSize a < 2 ^ 49" "aewf_history ay seen"
    and "files \<noteq> []" "\<forall>f \<in> set files. take 2 f \<noteq> ''--''" "descriptor_fits t (hd files)" "take 1 mnt \<noteq> ''-''"
    and "me_stat_dir env mnt = Some True"
  shows "\<exists>ms. main env (aewf_lib ay seen log_rc cpus # ilibs) (combine_lib # mlibs)
      (prog # [''--in'', ''aewf''] @ files @ [''--out'', out_name t, mnt]) = Some (MainMounts ms) \<and>
    session_inv \<lparr>se_g = ms_g ms, se_open = []\<rparr> (aewf_disk ay a) \<and> mem_sizes_ok (x_output (ms_g ms)) \<and>
    virt_contents (ms_g ms) (aewf_disk ay a) = framed (x_output (ms_g ms)) (aewf_disk ay a) \<and>
    out_VirtImageType (x_output (ms_g ms)) = t \<and> \<not> out_writable (x_output (ms_g ms))"
proof (rule mounts_one_image(1))
  let ?img = "new_input_image ''aewf'' files" and ?ls = "aewf_lib ay seen log_rc cpus # ilibs"
  have find: "FindInputLib ?ls ?img = Some (Some 0)" by (rule FindInputLib_aewf) (simp add: new_input_image_def)
  then have lib: "image_lib ?ls ?img = aewf_lib ay seen log_rc cpus" "\<exists>k. FindInputLib ?ls ?img = Some (Some k)"
    by (simp_all add: image_lib_def)
  have files: "AewfOpen ay (AewfCreateHandle cpus False) (ii_files ?img) = Some (AEWF_OK, a)" "ae_ImageSize a < 2 ^ 63"
    "main_image_size 0 0 (ae_ImageSize a) \<noteq> None"
    using assms(3,8) by (simp_all add: new_input_image_def main_image_size_def)
  note as = aewf_opens_as [OF lib assms(1,2) files(1) assms(4-7) files(2) assms(9) files(3)]
  show "opens_as ?ls False 0 0 ?img (aewf_disk ay a)" "fst (image_info ?ls False ?img (me_p_buf_null env)) = 0"
    by (rule as)+
  have l: "length (aewf_disk ay a) = ae_ImageSize a" by (rule length_aewf_disk [OF assms(7)])
  moreover have "0 < ae_ImageSize a" using assms(7) by (auto simp: aewf_intact_def aewf_sizes_def)
  ultimately show "aewf_disk ay a \<noteq> []" "length (aewf_disk ay a) < 2 ^ 49" using assms(8) by auto
qed (use assms in simp_all)

text \<open>A history for the example: the first byte has been read before, so a chunk is in a buffer, the
  table in memory and the file open.\<close>

definition small_seen :: "t_aewf \<Rightarrow> nat \<Rightarrow> nat \<Rightarrow> t_aewf" where
  "small_seen a off n =
     (case read_session aewf_read (small_env, a) [(0, [0])] of
        Some (out, env, a') \<Rightarrow> if 0 < ae_ImageSize a then a' else a
      | None \<Rightarrow> a)"

lemma small_history: "aewf_history small_env small_seen"
  unfolding aewf_history_def
proof (intro allI)
  fix a and off n :: nat
  have none: "\<exists>reqs out. reads_inside reqs (ae_ImageSize a) \<and> read_session aewf_read (small_env, a) reqs = Some (out, (small_env, a))"
    by (intro exI [of _ "[]"]) (simp add: reads_inside_def)
  show "\<exists>reqs out. reads_inside reqs (ae_ImageSize a) \<and>
      read_session aewf_read (small_env, a) reqs = Some (out, (small_env, small_seen a off n))"
  proof (cases "AewfRead small_env a [0] 0 1")
    case None
    then show ?thesis using none by (simp add: small_seen_def aewf_read_def)
  next
    case (Some r)
    then obtain res a' where r: "AewfRead small_env a [0] 0 1 = Some (res, a')" by (cases r) simp
    show ?thesis
    proof (cases "0 < ae_ImageSize a")
      case True
      then show ?thesis using r
        by - (rule exI [of _ "[(0, [0])]"], simp add: reads_inside_def small_seen_def aewf_read_def)
    next
      case False
      then show ?thesis using none r by (simp add: small_seen_def aewf_read_def)
    qed
  qed
qed

lemma xmount_mounts_aewf_image_witness:
  "\<exists>ms. main example_env [aewf_lib small_env small_seen (\<lambda>_. 0) 2] [combine_lib]
      [''xmount'', ''--in'', ''aewf'', ''a'', ''--out'', ''vmdk'', ''/mnt''] = Some (MainMounts ms) \<and>
     virt_contents (ms_g ms) [1, 2, 3, 4, 5, 6, 7, 8] = [1, 2, 3, 4, 5, 6, 7, 8]"
proof -
  have fits: "descriptor_fits VirtImageType_VMDK (hd [''a''])" by (simp add: descriptor_fits_def behind_last_def)
  show ?thesis
    using xmount_mounts_aewf_image [OF small_ok(1,2) _ _ _ small_ok(3) small_intact(1) _ small_history,
        of 2 "[''a'']" 2 VirtImageType_VMDK "''/mnt''" example_env "\<lambda>_. 0" "[]" "[]" "''xmount''"] small_open [of 2] fits
    by (auto simp: example_system small_intact(2) framed_def)
qed

end
