(* ===== verification/XmountStart.thy ===== *)
theory XmountStart
  imports XmountMount
begin

text \<open>
  The start of the program: \<open>LoadLibs\<close> loads the libraries of xmount's library directory,
  \<open>CheckFuseSettings\<close> finds out whether other users may be given access, and \<open>main\<close> goes on
  with the command line. The directory, the loaded objects and the users of the system are
  parameters; \<open>dlopen\<close> and \<open>dlsym\<close> fail where there is nothing to load.
\<close>

section \<open>Loading the libraries\<close>

definition LIBXMOUNT_INPUT_API_VERSION :: nat where "LIBXMOUNT_INPUT_API_VERSION = 2"
definition LIBXMOUNT_MORPHING_API_VERSION :: nat where "LIBXMOUNT_MORPHING_API_VERSION = 1"

text \<open>A loaded object: what its three functions return, where it has them. \<open>GetFunctions\<close> stores
  a table; the first component tells which of its pointers are set.\<close>

record 'f so_lib =
  so_ApiVersion :: "nat option"
  so_Supported :: "string option"
  so_Functions :: "((string \<Rightarrow> bool) \<times> 'f) option"

text \<open>The library directory: its path, the names \<open>readdir\<close> lists (\<open>None\<close>: it cannot be
  opened), and the objects that \<open>dlopen\<close> finds under a path.\<close>

record ('h, 'm) lib_dir =
  ld_path :: string
  ld_names :: "string list option"
  ld_input :: "string \<Rightarrow> 'h input_lib so_lib option"
  ld_morphing :: "string \<Rightarrow> 'm morph_lib so_lib option"

definition input_functions :: "string list" where
  "input_functions =
     [''Init'', ''DeInit'', ''CreateHandle'', ''DestroyHandle'', ''Open'', ''Close'', ''Size'', ''Read'',
      ''OptionsHelp'', ''OptionsParse'', ''GetInfofileContent'', ''GetErrorMessage'', ''FreeBuffer'']"

definition morphing_functions :: "string list" where
  "morphing_functions =
     [''CreateHandle'', ''DestroyHandle'', ''Morph'', ''Size'', ''Read'', ''OptionsHelp'', ''OptionsParse'',
      ''GetInfofileContent'', ''GetErrorMessage'', ''FreeBuffer'']"

text \<open>The length of the names up to and with the empty one; \<open>None\<close> if there is no empty one.\<close>

function supported_formats_len :: "string \<Rightarrow> nat option" where
  "supported_formats_len p_buf =
     (if p_buf = [] then None
      else if hd p_buf = CHR 0x00 then Some 1
      else
        let k = length (takeWhile (\<lambda>c. c \<noteq> CHR 0x00) p_buf) in
        if k = length p_buf then None
        else map_option (\<lambda>n. k + 1 + n) (supported_formats_len (drop (k + 1) p_buf)))"
  by pat_completeness auto
termination by (relation "measure length") auto

declare supported_formats_len.simps [simp del]

text \<open>One object: \<open>None\<close> if the names run out of the text, \<open>Some None\<close> if it is skipped, else
  what is kept of it.\<close>

definition LoadLibs_lib :: "nat \<Rightarrow> string list \<Rightarrow> 'f so_lib \<Rightarrow> (string \<times> 'f) option option" where
  "LoadLibs_lib version functions so =
     (if so_ApiVersion so \<noteq> Some version then Some None
      else
        (case so_Supported so of
           None \<Rightarrow> Some None
         | Some p_supported_formats \<Rightarrow>
             (case so_Functions so of
                None \<Rightarrow> Some None
              | Some (is_set, lib_functions) \<Rightarrow>
                  (case supported_formats_len p_supported_formats of
                     None \<Rightarrow> None
                   | Some n \<Rightarrow>
                       if list_all is_set functions then Some (Some (take n p_supported_formats, lib_functions))
                       else Some None))))"

text \<open>The path of a file. The test for a slash at the end looks at the end of the string, so that
  one is always added.\<close>

definition lib_file_path :: "('h, 'm) lib_dir \<Rightarrow> string \<Rightarrow> string" where
  "lib_file_path ld d_name = ld_path ld @ ''/'' @ d_name"

definition LoadLibs_input :: "('h, 'm) lib_dir \<Rightarrow> string \<Rightarrow> 'h input_lib list option" where
  "LoadLibs_input ld d_name =
     (case ld_input ld (lib_file_path ld d_name) of
        None \<Rightarrow> Some []
      | Some so \<Rightarrow>
          (case LoadLibs_lib LIBXMOUNT_INPUT_API_VERSION input_functions so of
             None \<Rightarrow> None
           | Some None \<Rightarrow> Some []
           | Some (Some (types, lib)) \<Rightarrow> Some [lib\<lparr>il_name := d_name, il_types := types, il_is_initialized := False\<rparr>]))"

definition LoadLibs_morphing :: "('h, 'm) lib_dir \<Rightarrow> string \<Rightarrow> 'm morph_lib list option" where
  "LoadLibs_morphing ld d_name =
     (case ld_morphing ld (lib_file_path ld d_name) of
        None \<Rightarrow> Some []
      | Some so \<Rightarrow>
          (case LoadLibs_lib LIBXMOUNT_MORPHING_API_VERSION morphing_functions so of
             None \<Rightarrow> None
           | Some None \<Rightarrow> Some []
           | Some (Some (types, lib)) \<Rightarrow> Some [lib\<lparr>ml_name := d_name, ml_types := types\<rparr>]))"

fun LoadLibs_loop ::
  "('h, 'm) lib_dir \<Rightarrow> string list \<Rightarrow> 'h input_lib list \<Rightarrow> 'm morph_lib list \<Rightarrow>
   ('h input_lib list \<times> 'm morph_lib list) option" where
  "LoadLibs_loop ld [] ilibs mlibs = Some (ilibs, mlibs)"
| "LoadLibs_loop ld (d_name # names) ilibs mlibs =
     (if take 16 d_name = ''libxmount_input_'' then
        (case LoadLibs_input ld d_name of
           None \<Rightarrow> None
         | Some ls \<Rightarrow> LoadLibs_loop ld names (ilibs @ ls) mlibs)
      else if take 19 d_name = ''libxmount_morphing_'' then
        (case LoadLibs_morphing ld d_name of
           None \<Rightarrow> None
         | Some ls \<Rightarrow> LoadLibs_loop ld names ilibs (mlibs @ ls))
      else LoadLibs_loop ld names ilibs mlibs)"

text \<open>Whether there is a library of each kind, and the libraries.\<close>

definition LoadLibs :: "('h, 'm) lib_dir \<Rightarrow> (bool \<times> 'h input_lib list \<times> 'm morph_lib list) option" where
  "LoadLibs ld =
     (case ld_names ld of
        None \<Rightarrow> Some (False, [], [])
      | Some names \<Rightarrow>
          map_option (\<lambda>(ilibs, mlibs). (ilibs \<noteq> [] \<and> mlibs \<noteq> [], ilibs, mlibs)) (LoadLibs_loop ld names [] []))"

section \<open>The settings of FUSE\<close>

text \<open>The user, the members of the group \<open>fuse\<close> if there is one, and \<open>/etc/fuse.conf\<close>.\<close>

record fuse_system =
  fy_euid :: nat
  fy_group :: "string list option"
  fy_user :: "string option"
  fy_conf :: "string option"

text \<open>\<open>fgets\<close> with a buffer of \<open>n\<close> bytes: the line, and what is left of the file.\<close>

definition fgets :: "nat \<Rightarrow> string \<Rightarrow> (string \<times> string) option" where
  "fgets n s =
     (if s = [] then None
      else
        let k = length (takeWhile (\<lambda>c. c \<noteq> CHR 0x0A) (take (n - 1) s)) in
        let m = (if k < length (take (n - 1) s) then k + 1 else k) in
        Some (take m s, drop m s))"

lemma fgets_rest: "fgets n s = Some (l, s') \<Longrightarrow> 1 < n \<Longrightarrow> length s' < length s"
  by (cases s; cases "n - 1") (auto simp: fgets_def Let_def split: if_splits)

function CheckFuseSettings_conf :: "string \<Rightarrow> bool" where
  "CheckFuseSettings_conf h_fuse_conf =
     (case fgets 256 h_fuse_conf of
        None \<Rightarrow> False
      | Some (line, rest) \<Rightarrow>
          if take 16 line = ''user_allow_other'' then True else CheckFuseSettings_conf rest)"
  by pat_completeness auto
termination by (relation "measure length") (auto dest!: fgets_rest)

declare CheckFuseSettings_conf.simps [simp del]

text \<open>The value of \<open>may_set_fuse_allow_other\<close>.\<close>

definition CheckFuseSettings :: "fuse_system \<Rightarrow> bool" where
  "CheckFuseSettings sys =
     (if fy_euid sys = 0 then True
      else if (case fy_group sys of
                 None \<Rightarrow> True
               | Some gr_mem \<Rightarrow>
                   (case fy_user sys of None \<Rightarrow> False | Some pw_name \<Rightarrow> list_ex (\<lambda>m. m = pw_name) gr_mem))
      then (case fy_conf sys of None \<Rightarrow> False | Some h_fuse_conf \<Rightarrow> CheckFuseSettings_conf h_fuse_conf)
      else False)"

section \<open>The program\<close>

definition xmount_program ::
  "('h, 'm) lib_dir \<Rightarrow> fuse_system \<Rightarrow> main_env \<Rightarrow> string list \<Rightarrow> ('h, 'm) main_result option" where
  "xmount_program ld sys env argv =
     (case LoadLibs ld of
        None \<Rightarrow> None
      | Some (ret, ilibs, mlibs) \<Rightarrow>
          if \<not> ret then Some (MainReturns 1)
          else main (env\<lparr>me_may_allow_other := CheckFuseSettings sys\<rparr>) ilibs mlibs argv)"

section \<open>What is loaded\<close>

text \<open>An object that is complete, with names that end where they should. The names behind the empty
  one are not kept.\<close>

definition so_complete :: "nat \<Rightarrow> string list \<Rightarrow> 'f so_lib \<Rightarrow> bool" where
  "so_complete version functions so \<longleftrightarrow> so_ApiVersion so = Some version \<and> so_Supported so \<noteq> None \<and>
     (\<exists>is_set f. so_Functions so = Some (is_set, f) \<and> list_all is_set functions)"

definition so_types_ok :: "'f so_lib \<Rightarrow> bool" where
  "so_types_ok so \<longleftrightarrow> (\<forall>s. so_Supported so = Some s \<longrightarrow>
     (\<exists>names junk. s = type_names names @ junk \<and> (\<forall>n \<in> set names. n \<noteq> [] \<and> CHR 0x00 \<notin> set n)))"

definition so_types :: "'f so_lib \<Rightarrow> string" where
  "so_types so = (let s = the (so_Supported so) in take (the (supported_formats_len s)) s)"

text \<open>The library that a file of the directory gives, if any.\<close>

definition input_lib_of :: "('h, 'm) lib_dir \<Rightarrow> string \<Rightarrow> 'h input_lib option" where
  "input_lib_of ld n =
     (case ld_input ld (lib_file_path ld n) of
        Some so \<Rightarrow>
          if take 16 n = ''libxmount_input_'' \<and> so_complete LIBXMOUNT_INPUT_API_VERSION input_functions so
          then Some ((snd (the (so_Functions so)))\<lparr>il_name := n, il_types := so_types so, il_is_initialized := False\<rparr>)
          else None
      | None \<Rightarrow> None)"

definition morph_lib_of :: "('h, 'm) lib_dir \<Rightarrow> string \<Rightarrow> 'm morph_lib option" where
  "morph_lib_of ld n =
     (case ld_morphing ld (lib_file_path ld n) of
        Some so \<Rightarrow>
          if take 19 n = ''libxmount_morphing_'' \<and> so_complete LIBXMOUNT_MORPHING_API_VERSION morphing_functions so
          then Some ((snd (the (so_Functions so)))\<lparr>ml_name := n, ml_types := so_types so\<rparr>)
          else None
      | None \<Rightarrow> None)"

definition dir_ok :: "('h, 'm) lib_dir \<Rightarrow> bool" where
  "dir_ok ld \<longleftrightarrow> (\<forall>p so. ld_input ld p = Some so \<longrightarrow> so_types_ok so) \<and> (\<forall>p so. ld_morphing ld p = Some so \<longrightarrow> so_types_ok so)"

lemma supported_formats_len_names:
  assumes "\<forall>n \<in> set names. n \<noteq> [] \<and> CHR 0x00 \<notin> set n"
  shows "supported_formats_len (type_names names @ junk) = Some (length (type_names names))"
  using assms
proof (induction names)
  case Nil
  then show ?case by (simp add: type_names_def supported_formats_len.simps)
next
  case (Cons n names)
  have b: "type_names (n # names) @ junk = n @ CHR 0x00 # (type_names names @ junk)" by (simp add: type_names_def)
  have n: "n \<noteq> []" "CHR 0x00 \<notin> set n" using Cons.prems by auto
  have t: "takeWhile (\<lambda>c. c \<noteq> CHR 0x00) (n @ CHR 0x00 # xs) = n" for xs using n(2) by (induction n) auto
  have h: "hd n \<noteq> CHR 0x00" using n by (cases n) auto
  have "supported_formats_len (n @ CHR 0x00 # (type_names names @ junk)) =
      map_option (\<lambda>k. length n + 1 + k) (supported_formats_len (type_names names @ junk))"
    using n(1) h by (subst supported_formats_len.simps) (simp add: t Let_def)
  then show ?case using Cons unfolding b by (simp add: type_names_def)
qed

lemma so_types_names:
  "so_Supported so = Some (type_names names @ junk) \<Longrightarrow> \<forall>n \<in> set names. n \<noteq> [] \<and> CHR 0x00 \<notin> set n \<Longrightarrow>
   so_types so = type_names names"
  using supported_formats_len_names [of names junk] by (simp add: so_types_def Let_def)

lemma LoadLibs_lib_eq:
  assumes "so_types_ok so"
  shows "LoadLibs_lib version functions so =
    Some (if so_complete version functions so then Some (so_types so, snd (the (so_Functions so))) else None)"
proof (cases "so_Supported so")
  case (Some s)
  then obtain n where "supported_formats_len s = Some n"
    using assms supported_formats_len_names unfolding so_types_ok_def by fastforce
  then show ?thesis using Some
    by (auto simp: LoadLibs_lib_def so_complete_def so_types_def split: option.splits prod.splits)
qed (simp add: LoadLibs_lib_def so_complete_def)

lemma not_both_names:
  assumes "take 16 n = ''libxmount_input_''"
  shows "take 19 n \<noteq> ''libxmount_morphing_''"
proof
  assume "take 19 n = ''libxmount_morphing_''"
  then have "take 16 (take 19 n) = take 16 ''libxmount_morphing_''" by simp
  then show False using assms by simp
qed

lemma LoadLibs_loop_eq:
  assumes "dir_ok ld"
  shows "LoadLibs_loop ld names ilibs mlibs =
    Some (ilibs @ List.map_filter (input_lib_of ld) names, mlibs @ List.map_filter (morph_lib_of ld) names)"
proof (induction names arbitrary: ilibs mlibs)
  case (Cons n names)
  have no_both: "take 16 n = ''libxmount_input_'' \<Longrightarrow> take 19 n \<noteq> ''libxmount_morphing_''"
    by (rule not_both_names)
  have i: "LoadLibs_input ld n = Some (case input_lib_of ld n of None \<Rightarrow> [] | Some l \<Rightarrow> [l])"
    if "take 16 n = ''libxmount_input_''"
    using assms that by (auto simp: LoadLibs_input_def input_lib_of_def dir_ok_def LoadLibs_lib_eq split: option.splits)
  have m: "LoadLibs_morphing ld n = Some (case morph_lib_of ld n of None \<Rightarrow> [] | Some l \<Rightarrow> [l])"
    if "take 19 n = ''libxmount_morphing_''"
    using assms that by (auto simp: LoadLibs_morphing_def morph_lib_of_def dir_ok_def LoadLibs_lib_eq split: option.splits)
  have none: "take 16 n \<noteq> ''libxmount_input_'' \<Longrightarrow> input_lib_of ld n = None"
    "take 19 n \<noteq> ''libxmount_morphing_'' \<Longrightarrow> morph_lib_of ld n = None"
    by (auto simp: input_lib_of_def morph_lib_of_def split: option.splits)
  show ?case
    using no_both i m none Cons.IH by (auto simp: List.map_filter_simps split: option.splits)
qed (simp add: List.map_filter_simps)

lemma LoadLibs_eq:
  assumes "dir_ok ld" "ld_names ld = Some names"
  shows "LoadLibs ld = Some (List.map_filter (input_lib_of ld) names \<noteq> [] \<and> List.map_filter (morph_lib_of ld) names \<noteq> [],
    List.map_filter (input_lib_of ld) names, List.map_filter (morph_lib_of ld) names)"
  using LoadLibs_loop_eq [OF assms(1)] assms(2) by (simp add: LoadLibs_def)

section \<open>The lines of the configuration file\<close>

function text_lines :: "string \<Rightarrow> string list" where
  "text_lines s =
     (if s = [] then []
      else takeWhile (\<lambda>c. c \<noteq> CHR 0x0A) s # text_lines (drop (Suc (length (takeWhile (\<lambda>c. c \<noteq> CHR 0x0A) s))) s))"
  by pat_completeness auto
termination by (relation "measure length") auto

declare text_lines.simps [simp del]

lemma fgets_line:
  assumes "length (takeWhile (\<lambda>c. c \<noteq> CHR 0x0A) s) < 255" "s \<noteq> []"
  shows "\<exists>e. fgets 256 s = Some (takeWhile (\<lambda>c. c \<noteq> CHR 0x0A) s @ e, drop (Suc (length (takeWhile (\<lambda>c. c \<noteq> CHR 0x0A) s))) s) \<and>
    e \<in> {[], [CHR 0x0A]}"
proof -
  let ?p = "\<lambda>c. c \<noteq> CHR 0x0A"
  define l r where "l = takeWhile ?p s" and "r = dropWhile ?p s"
  have s: "s = l @ r" "length l < 255" "\<forall>c \<in> set l. ?p c"
    using assms by (auto simp: l_def r_def dest: set_takeWhileD)
  have r: "r = [] \<or> (\<exists>t. r = CHR 0x0A # t)"
    using hd_dropWhile [of ?p s] by (cases r) (auto simp: r_def [symmetric])
  obtain k where k: "255 - length l = Suc k" using s(2) by (metis Suc_diff_Suc)
  have "takeWhile ?p (l @ take (Suc k) r) = l @ takeWhile ?p (take (Suc k) r)"
    by (rule takeWhile_append2) (use s(3) in blast)
  moreover have "takeWhile ?p (take (Suc k) r) = []" using r by (elim disjE exE) simp_all
  ultimately have tw: "takeWhile ?p (take 255 s) = l" using s(1,2) k by simp
  consider "r = []" | t where "r = CHR 0x0A # t" using r by blast
  then show ?thesis
  proof cases
    case 1
    have tl: "takeWhile ?p l = l" using s(3) by (simp add: takeWhile_eq_all_conv)
    from 1 have "fgets 256 s = Some (l, [])"
      using s(1,2) assms(2) by (simp add: fgets_def Let_def tl)
    then show ?thesis unfolding l_def [symmetric] using 1 s(1) by simp
  next
    case 2
    then have "fgets 256 s = Some (l @ [CHR 0x0A], t)"
      using s(1,2) tw assms(2) by (simp add: fgets_def Let_def)
    then show ?thesis unfolding l_def [symmetric] using 2 s(1) by simp
  qed
qed

lemma take_prefix_newline:
  assumes "e \<in> {[], [CHR 0x0A]}" "CHR 0x0A \<notin> set w" "length w = n"
  shows "take n (l @ e) = w \<longleftrightarrow> take n l = w"
proof (cases "n \<le> length l")
  case False
  then have "take n (l @ e) = l @ e" "take n l = l" using assms(1) by auto
  then show ?thesis using assms False by auto
qed simp

text \<open>What the code looks for in a line: \<open>user_allow_other\<close> at its start. A line that does not
  fit into the buffer of \<open>fgets\<close> is read in pieces of 255 characters, each taken for a line.\<close>

definition line_allows :: "string \<Rightarrow> bool" where
  "line_allows l \<longleftrightarrow> (\<exists>k. take 16 (drop (255 * k) l) = ''user_allow_other'')"

lemma line_allows_short:
  assumes "length l < 255"
  shows "line_allows l \<longleftrightarrow> take 16 l = ''user_allow_other''"
proof -
  have "take 16 (drop (255 * k) l) \<noteq> ''user_allow_other''" if "k \<noteq> 0" for k
  proof -
    have "255 \<le> 255 * k" using that by simp
    then have "drop (255 * k) l = []" using assms by simp
    then show ?thesis by simp
  qed
  then show ?thesis unfolding line_allows_def by (metis drop0 mult_0_right)
qed

lemma line_allows_drop: "line_allows l \<longleftrightarrow> take 16 l = ''user_allow_other'' \<or> line_allows (drop 255 l)"
proof
  assume "line_allows l"
  then obtain k where k: "take 16 (drop (255 * k) l) = ''user_allow_other''" by (auto simp: line_allows_def)
  show "take 16 l = ''user_allow_other'' \<or> line_allows (drop 255 l)"
  proof (cases k)
    case (Suc j)
    have "drop (255 * j) (drop 255 l) = drop (255 * k) l" by (simp add: Suc add.commute)
    then have "take 16 (drop (255 * j) (drop 255 l)) = ''user_allow_other''" using k by (simp only:)
    then have "line_allows (drop 255 l)" unfolding line_allows_def by blast
    then show ?thesis ..
  qed (use k in simp)
next
  have "take 16 (drop (255 * Suc j) l) = ''user_allow_other''"
    if "take 16 (drop (255 * j) (drop 255 l)) = ''user_allow_other''" for j
    using that by (simp add: add.commute)
  moreover assume "take 16 l = ''user_allow_other'' \<or> line_allows (drop 255 l)"
  ultimately show "line_allows l" unfolding line_allows_def by (metis drop0 mult_0_right)
qed

lemma CheckFuseSettings_conf_lines:
  "CheckFuseSettings_conf s \<longleftrightarrow> (\<exists>l \<in> set (text_lines s). line_allows l)"
proof (induction s rule: measure_induct_rule [where f = length])
  case (less s)
  show ?case
  proof (cases "s = []")
    case True
    then show ?thesis by (simp add: CheckFuseSettings_conf.simps text_lines.simps fgets_def)
  next
    case False
    define l where "l = takeWhile (\<lambda>c. c \<noteq> CHR 0x0A) s"
    define r where "r = drop (Suc (length l)) s"
    have lines: "text_lines s = l # text_lines r"
      using False unfolding r_def l_def by (subst text_lines.simps) simp
    show ?thesis
    proof (cases "length l < 255")
      case True
      obtain e where g: "fgets 256 s = Some (l @ e, r)" "e \<in> {[], [CHR 0x0A]}"
        using fgets_line [of s] True False unfolding l_def r_def by auto
      have "take 16 (l @ e) = ''user_allow_other'' \<longleftrightarrow> line_allows l"
        unfolding line_allows_short [OF True] by (rule take_prefix_newline [OF g(2)]) simp_all
      moreover have "length r < length s" using False by (simp add: r_def)
      ultimately show ?thesis unfolding lines using less.IH [of r]
        by (subst CheckFuseSettings_conf.simps) (simp add: g(1))
    next
      case long: False
      have s: "s = l @ dropWhile (\<lambda>c. c \<noteq> CHR 0x0A) s" by (simp add: l_def)
      have t: "take 255 s = take 255 l" "drop 255 s = drop 255 l @ dropWhile (\<lambda>c. c \<noteq> CHR 0x0A) s"
        using long by (subst s, simp)+
      have n: "\<forall>c \<in> set l. c \<noteq> CHR 0x0A" using set_takeWhileD by (fastforce simp: l_def)
      have tw: "takeWhile (\<lambda>c. c \<noteq> CHR 0x0A) (take 255 l) = take 255 l"
        using n by (auto simp: takeWhile_eq_all_conv dest: in_set_takeD)
      have "length (take 255 l) = 255" using long by simp
      then have k: "length (takeWhile (\<lambda>c. c \<noteq> CHR 0x0A) (take 255 s)) = 255" unfolding t(1) tw .
      have "length (take 255 s) = 255" unfolding t(1) using long by simp
      then have "fgets 256 s = Some (take 255 s, drop 255 s)" using False k by (simp add: fgets_def Let_def)
      then have g: "fgets 256 s = Some (take 255 l, drop 255 s)" unfolding t(1) .
      have hd: "takeWhile (\<lambda>c. c \<noteq> CHR 0x0A) (drop 255 s) = drop 255 l"
      proof -
        have "takeWhile (\<lambda>c. c \<noteq> CHR 0x0A) (drop 255 l @ dropWhile (\<lambda>c. c \<noteq> CHR 0x0A) s) =
            drop 255 l @ takeWhile (\<lambda>c. c \<noteq> CHR 0x0A) (dropWhile (\<lambda>c. c \<noteq> CHR 0x0A) s)"
          by (rule takeWhile_append2) (use n in_set_dropD in fastforce)
        moreover have "takeWhile (\<lambda>c. c \<noteq> CHR 0x0A) (dropWhile (\<lambda>c. c \<noteq> CHR 0x0A) s) = []"
          using hd_dropWhile [of "\<lambda>c. c \<noteq> CHR 0x0A" s]
          by (metis (mono_tags, lifting) takeWhile_eq_Nil_iff)
        ultimately show ?thesis using t(2) by simp
      qed
      have r: "drop (Suc (length (drop 255 l))) (drop 255 s) = r" using long by (simp add: r_def)
      have "(\<exists>x \<in> set (text_lines (drop 255 s)). line_allows x) \<longleftrightarrow>
          line_allows (drop 255 l) \<or> (\<exists>x \<in> set (text_lines r). line_allows x)"
      proof (cases "drop 255 s = []")
        case True
        then have "r = []" using long by (simp add: r_def)
        moreover have "drop 255 l = []" using hd unfolding True by simp
        ultimately show ?thesis unfolding True by (simp add: text_lines.simps line_allows_def)
      next
        case False
        then have "text_lines (drop 255 s) = drop 255 l # text_lines r"
          by (subst text_lines.simps) (simp only: hd r if_False)
        then show ?thesis by simp
      qed
      moreover have "length (drop 255 s) < length s" using False by simp
      ultimately show ?thesis unfolding lines using less.IH [of "drop 255 s"] line_allows_drop [of l]
        by (subst CheckFuseSettings_conf.simps) (simp add: g)
    qed
  qed
qed

section \<open>Properties\<close>

text \<open>C33: xmount asks FUSE for access by other users exactly when it runs as root, or when
  \<open>/etc/fuse.conf\<close> can be read and allows it and the user belongs to the group \<open>fuse\<close> or no
  such group exists. The file allows it when in some line \<open>user_allow_other\<close> stands at the start,
  or at a multiple of 255 characters behind it; in a line shorter than the buffer of \<open>fgets\<close> that
  is the start alone, but a longer line is read in pieces, and the setting is found inside a
  comment.\<close>

theorem fuse_settings_exact:
  "CheckFuseSettings sys \<longleftrightarrow>
    fy_euid sys = 0 \<or>
    (fy_group sys = None \<or> (\<exists>us u. fy_group sys = Some us \<and> fy_user sys = Some u \<and> u \<in> set us)) \<and>
    (\<exists>conf l k. fy_conf sys = Some conf \<and> l \<in> set (text_lines conf) \<and>
       take 16 (drop (255 * k) l) = ''user_allow_other'' \<and> (k = 0 \<or> 255 < length l))"
proof -
  have k: "k = 0 \<or> 255 < length l" if "take 16 (drop (255 * k) l) = ''user_allow_other''" for k l
  proof (cases "k = 0")
    case False
    then have "255 * k < length l" using that by (intro not_le_imp_less notI) simp
    moreover have "255 \<le> 255 * k" using False by simp
    ultimately show ?thesis by linarith
  qed simp
  then have "(\<exists>k. take 16 (drop (255 * k) l) = ''user_allow_other'' \<and> (k = 0 \<or> 255 < length l)) \<longleftrightarrow>
      line_allows l" for l unfolding line_allows_def by blast
  then show ?thesis
    unfolding CheckFuseSettings_def CheckFuseSettings_conf_lines
    by (auto simp: list_ex_iff split: option.splits)
qed

definition example_system_user :: fuse_system where
  "example_system_user = \<lparr>fy_euid = 1000, fy_group = Some [''root'', ''ann''], fy_user = Some ''ann'',
     fy_conf = Some (''#mount'' @ [CHR 0x0A] @ ''user_allow_other'' @ [CHR 0x0A])\<rparr>"

lemma example_lines:
  "text_lines (''#mount'' @ [CHR 0x0A] @ ''user_allow_other'' @ [CHR 0x0A]) = [''#mount'', ''user_allow_other'']"
  by (simp add: text_lines.simps)

lemma fuse_settings_exact_witness:
  "CheckFuseSettings example_system_user \<and> \<not> CheckFuseSettings (example_system_user\<lparr>fy_user := Some ''bob''\<rparr>)"
proof -
  have "\<exists>conf l k. fy_conf example_system_user = Some conf \<and> l \<in> set (text_lines conf) \<and>
      take 16 (drop (255 * k) l) = ''user_allow_other'' \<and> (k = 0 \<or> 255 < length l)"
    by (rule exI, rule exI [of _ "''user_allow_other''"], rule exI [of _ 0], rule conjI)
      (simp only: example_system_user_def fuse_system.select_convs, simp only: example_lines, simp)
  then have "CheckFuseSettings example_system_user"
    by (intro fuse_settings_exact [THEN iffD2]) (simp add: example_system_user_def)
  moreover have "\<not> CheckFuseSettings (example_system_user\<lparr>fy_user := Some ''bob''\<rparr>)"
    unfolding fuse_settings_exact by (simp add: example_system_user_def)
  ultimately show ?thesis ..
qed

text \<open>A longer line is read in pieces: the setting is found in the middle of a comment.\<close>

lemma fuse_long_comment:
  "CheckFuseSettings_conf (CHR ''#'' # replicate 254 CHR '' '' @ ''user_allow_other'')"
proof -
  have f: "fgets 256 (CHR ''#'' # replicate 254 CHR '' '' @ w) = Some (CHR ''#'' # replicate 254 CHR '' '', w)" for w
    by (simp add: fgets_def Let_def takeWhile_append2)
  have w: "fgets 256 ''user_allow_other'' = Some (''user_allow_other'', [])" by (simp add: fgets_def)
  show ?thesis
    by (subst CheckFuseSettings_conf.simps) (simp add: f w CheckFuseSettings_conf.simps [of "''user_allow_other''"])
qed

text \<open>\<open>LoadLibs\<close> loads, in the order of the directory, exactly the files with the name of an
  input or morphing library that have its three functions, the version of the interface and a table
  without NULL pointers, under the names of the formats; it succeeds if there is one of each kind.\<close>

theorem load_libs_exact:
  assumes "dir_ok ld" "ld_names ld = Some names"
  shows "\<exists>ret ilibs mlibs. LoadLibs ld = Some (ret, ilibs, mlibs) \<and> (ret \<longleftrightarrow> ilibs \<noteq> [] \<and> mlibs \<noteq> []) \<and>
    ilibs = List.map_filter (input_lib_of ld) names \<and> mlibs = List.map_filter (morph_lib_of ld) names \<and>
    map il_name ilibs = filter (\<lambda>n. input_lib_of ld n \<noteq> None) names \<and>
    map ml_name mlibs = filter (\<lambda>n. morph_lib_of ld n \<noteq> None) names"
proof -
  have "map il_name (List.map_filter (input_lib_of ld) ns) = filter (\<lambda>n. input_lib_of ld n \<noteq> None) ns"
    "map ml_name (List.map_filter (morph_lib_of ld) ns) = filter (\<lambda>n. morph_lib_of ld n \<noteq> None) ns" for ns
    by (induction ns) (auto simp: List.map_filter_simps input_lib_of_def morph_lib_of_def split: option.splits if_splits)
  then show ?thesis using LoadLibs_eq [OF assms] by simp
qed

text \<open>A directory with the raw library and the library \<open>combine\<close>, one of an older version, and
  a file that is no library.\<close>

definition so_of :: "nat \<Rightarrow> string \<Rightarrow> 'f \<Rightarrow> 'f so_lib" where
  "so_of version types f = \<lparr>so_ApiVersion = Some version, so_Supported = Some types, so_Functions = Some (\<lambda>_. True, f)\<rparr>"

definition example_dir :: "(input_handle, morph_handle) lib_dir" where
  "example_dir = \<lparr>ld_path = ''/lib/xmount'',
     ld_names = Some [''.'', ''libxmount_input_old.so'', ''libxmount_morphing_combine.so'', ''libxmount_input_raw.so'', ''README''],
     ld_input =
       [''/lib/xmount/libxmount_input_old.so'' \<mapsto> so_of 1 (type_names [''old'']) (hd example_libs),
        ''/lib/xmount/libxmount_input_raw.so'' \<mapsto> so_of 2 (type_names [''raw'', ''dd'']) (hd example_libs)],
     ld_morphing = [''/lib/xmount/libxmount_morphing_combine.so'' \<mapsto> so_of 1 (type_names [''combine'']) combine_lib]\<rparr>"

lemma so_of_ok:
  "\<forall>n \<in> set names. n \<noteq> [] \<and> CHR 0x00 \<notin> set n \<Longrightarrow> so_types_ok (so_of v (type_names names) f)"
  unfolding so_types_ok_def
  by (intro allI impI, rule exI [of _ names], rule exI [of _ "[]"]) (simp add: so_of_def)

lemma so_of_types:
  "\<forall>n \<in> set names. n \<noteq> [] \<and> CHR 0x00 \<notin> set n \<Longrightarrow> so_types (so_of v (type_names names) f) = type_names names"
  using so_types_names [of "so_of v (type_names names) f" names "[]"] by (simp add: so_of_def)

lemma example_dir_ok: "dir_ok example_dir"
  by (auto simp: dir_ok_def example_dir_def intro!: so_of_ok split: if_splits)

lemma so_of_simps:
  "list_all (\<lambda>_. True) fs" "so_complete v' fs (so_of v types f) \<longleftrightarrow> v' = v" "snd (the (so_Functions (so_of v types f))) = f"
  by (auto simp: so_complete_def so_of_def list_all_iff)

lemma example_dir_libs:
  "List.map_filter (input_lib_of example_dir) (the (ld_names example_dir)) = example_libs"
  "List.map_filter (morph_lib_of example_dir) (the (ld_names example_dir)) = [combine_lib]"
  using so_of_types [of "[''raw'', ''dd'']" 2 "hd example_libs"] so_of_types [of "[''combine'']" 1 combine_lib]
  by (simp_all add: example_dir_def input_lib_of_def morph_lib_of_def List.map_filter_simps lib_file_path_def
      so_of_simps LIBXMOUNT_INPUT_API_VERSION_def LIBXMOUNT_MORPHING_API_VERSION_def
      example_libs_def raw_lib_def combine_lib_def)

lemma load_libs_exact_witness:
  "\<exists>ilibs mlibs. LoadLibs example_dir = Some (True, ilibs, mlibs) \<and>
     map il_name ilibs = [''libxmount_input_raw.so''] \<and> map ml_name mlibs = [''libxmount_morphing_combine.so'']"
proof -
  obtain names where n: "ld_names example_dir = Some names" by (simp add: example_dir_def)
  from load_libs_exact [OF example_dir_ok n] show ?thesis
    using example_dir_libs n by (auto simp: example_libs_def raw_lib_def combine_lib_def)
qed

text \<open>C9: the program from its start: where the directory of the libraries gives the raw library and
  the library \<open>combine\<close> first, the command line with one raw image, whose files exist and hold at
  least one byte and less than 512 TiB, mounts the bytes of the files behind each other, not
  writable, in the frame of the output format, if the pointer that \<open>InitVirtImageInfoFile\<close>
  leaves uninitialised happens not to be \<open>NULL\<close>. If it is \<open>NULL\<close>, \<open>RawGetInfofileContent\<close>
  takes it for a failed allocation, and the program gives up with 1.\<close>

theorem xmount_program_mounts_raw:
  fixes ld :: "(input_handle, morph_handle) lib_dir" and fs :: "string \<Rightarrow> bytes option"
  assumes "dir_ok ld" "ld_names ld = Some names"
    and "List.map_filter (input_lib_of ld) names = raw_lib fs gib # ilibs"
    and "List.map_filter (morph_lib_of ld) names = combine_lib # mlibs"
    and "ty \<in> {''raw'', ''dd''}" "files \<noteq> []"
    and "\<forall>f \<in> set files. take 2 f \<noteq> ''--'' \<and> fs f \<noteq> None" "descriptor_fits t (hd files)" "take 1 mnt \<noteq> ''-''"
    and "me_stat_dir env mnt = Some True"
    and "concat (map (the \<circ> fs) files) \<noteq> []" "length (concat (map (the \<circ> fs) files)) < 2 ^ 49"
  shows "if me_p_buf_null env
    then xmount_program ld sys env (prog # [''--in'', ty] @ files @ [''--out'', out_name t, mnt]) = Some (MainReturns 1)
    else \<exists>ms. xmount_program ld sys env (prog # [''--in'', ty] @ files @ [''--out'', out_name t, mnt]) = Some (MainMounts ms) \<and>
      session_inv \<lparr>se_g = ms_g ms, se_open = []\<rparr> (concat (map (the \<circ> fs) files)) \<and>
      mem_sizes_ok (x_output (ms_g ms)) \<and>
      virt_contents (ms_g ms) (concat (map (the \<circ> fs) files)) =
        framed (x_output (ms_g ms)) (concat (map (the \<circ> fs) files)) \<and>
      out_VirtImageType (x_output (ms_g ms)) = t \<and> \<not> out_writable (x_output (ms_g ms))"
proof -
  let ?env = "env\<lparr>me_may_allow_other := CheckFuseSettings sys\<rparr>"
  have "LoadLibs ld = Some (True, raw_lib fs gib # ilibs, combine_lib # mlibs)"
    using LoadLibs_eq [OF assms(1,2)] assms(3,4) by simp
  then have run: "xmount_program ld sys env argv = main ?env (raw_lib fs gib # ilibs) (combine_lib # mlibs) argv" for argv
    by (simp add: xmount_program_def)
  have null: "me_p_buf_null ?env = me_p_buf_null env" by simp
  have dir: "me_stat_dir ?env mnt = Some True" using assms(10) by simp
  show ?thesis
    using mounts_raw [OF assms(5-9) dir assms(11,12), of gib ilibs mlibs prog] unfolding run null .
qed

lemma xmount_program_mounts_raw_witness:
  "\<exists>ms. xmount_program example_dir example_system_user example_env
      [''xmount'', ''--in'', ''raw'', ''a'', ''b'', ''--out'', ''vmdks'', ''/mnt''] = Some (MainMounts ms) \<and>
     virt_contents (ms_g ms) [1, 2, 3, 4, 5, 6] = [1, 2, 3, 4, 5, 6]"
proof -
  obtain names where n: "ld_names example_dir = Some names" by (simp add: example_dir_def)
  have libs: "List.map_filter (input_lib_of example_dir) names = raw_lib example_fs (\<lambda>_. []) # []"
    "List.map_filter (morph_lib_of example_dir) names = combine_lib # []"
    using example_dir_libs n by (simp_all add: example_libs_def)
  have fits: "descriptor_fits VirtImageType_VMDKS (hd [''a'', ''b''])" by (simp add: descriptor_fits_def behind_last_def)
  from xmount_program_mounts_raw [OF example_dir_ok n libs _ _ _ fits, of "''raw''" "''/mnt''" example_env
      example_system_user "''xmount''"]
  show ?thesis by (auto simp: example_system example_fs_def framed_def)
qed

end
