(* ===== verification/Spec2Isabelle.thy ===== *)
theory Spec2Isabelle
  imports MorphCombine MorphRaid MorphSwab XmountDisk MorphUnallocated InputQcow InputAaffRead XmountExport XmountSession
    XmountMount XmountAff XmountAewf XmountStart
begin

text \<open>
  xmount shows disk images in one format as virtual files in another. Its parts, in the order
  in which data flows:

  \<^item> Input libraries (\<open>src/libxmount_input\<close>) open image files and give access to one
    disk each: \<open>Open\<close>, \<open>Size\<close>, \<open>Read\<close>, \<open>Close\<close>.
  \<^item> A morphing library (\<open>src/libxmount_morphing\<close>) makes one image of the input
    images: \<open>Morph\<close>, \<open>Size\<close>, \<open>Read\<close>.
  \<^item> The program (\<open>src/src/xmount.c\<close>) surrounds the morphed image with the headers of the
    output format, keeps changes in a cache file, and serves the result through FUSE.

  The theories and the code they model:

  \<^item> \<open>XPrelude\<close>: fixed-width arithmetic as natural numbers with the wrap-around
    written out (\<open>u16\<close>, \<open>u32\<close>, \<open>u64\<close>, \<open>sub32\<close>, \<open>sub64\<close>), pieces of byte
    strings, byte orders, block counts. \<open>CStdio\<close>: the calls on \<open>FILE*\<close>.
    \<open>XInterfaces\<close>: the contracts \<open>image_reader\<close> (size and reads of an image),
    \<open>session_reader\<close> (reads that change the handle) and \<open>input_images\<close> (the functions
    handed to a morphing library).
  \<^item> \<open>XState\<close>: the global \<open>glob_xmount\<close> of \<open>xmount.h\<close>, one record per struct, and
    the cache file structures. \<open>LibXmount\<close>: \<open>libxmount.c\<close>, \<open>endianness.h\<close>.
  \<^item> \<open>InputLoop\<close>, \<open>InputRaw\<close>, \<open>InputVdi\<close>, \<open>InputQcow\<close>: the input libraries;
    each interprets \<open>image_reader\<close>, through the contract \<open>piece_reader\<close> of the inner
    read function that the loop of \<open>Read\<close> calls. \<open>InputAaff\<close>, \<open>InputAaffRead\<close>: the
    AFF library without afflib; it does not give an \<open>image_reader\<close>, as all its reads fail.
  \<^item> \<open>InputAewf\<close>: the EWF library without libewf, a cache of segment files, offset tables and
    chunks; \<open>InputAewfInfo\<close>: the text it makes of an image. \<open>InputAewfCache\<close>: the caches
    (what is open or loaded agrees with the files, the limits hold); \<open>InputAewfChunk\<close>: one chunk, read by one thread or launched on a thread;
    \<open>InputAewfRead\<close>: the loops over chunks, and the disk they read (\<open>aewf_disk\<close>);
    \<open>InputAewfOpen\<close>: \<open>AewfOpen\<close> establishes the invariant (\<open>aewf_ready\<close>);
    \<open>InputAewfResults\<close>: a small image, the interpretation of \<open>session_reader\<close>, the properties.
  \<^item> \<open>InputEwf\<close>, \<open>InputAff\<close>: the libraries on top of libewf, afflib and libaff4. Each of
    these is a record of its functions, a parameter. Of libewf the properties rely on
    \<open>libewf_contract\<close>, under which every call can fail; \<open>libewf_ok\<close>, \<open>libaff_ok\<close> and
    \<open>libaff4_ok\<close> describe complete images, for which \<open>session_reader\<close> is interpreted.
  \<^item> \<open>XmountInput\<close>: \<open>GetInputImageData\<close> and the functions given to morphing libraries;
    interprets \<open>input_images\<close>. \<open>MorphCombine\<close>, \<open>MorphRaid\<close>, \<open>MorphSwab\<close> and
    \<open>MorphUnallocated\<close> (with \<open>UnallocFat\<close>, \<open>UnallocHfs\<close>): the morphing libraries, proved
    over the contract \<open>input_images\<close>.
  \<^item> \<open>XmountCache\<close>, \<open>XmountVirt\<close>: \<open>GetMorphedImageData\<close>, \<open>GetVirtImageData\<close>,
    \<open>SetVirtImageData\<close> and the functions under them. \<open>XmountVirtRefine\<close> gives the contents
    a state stands for (\<open>virt_contents\<close>) and the invariant (\<open>virt_inv\<close>);
    \<open>XmountVirtRead\<close>, \<open>XmountVirtWrite\<close>, \<open>XmountVirtBlocks\<close>,
    \<open>XmountVirtHeader\<close>, \<open>XmountVirtSet\<close> carry the proofs; \<open>XmountCacheInit\<close>
    models \<open>InitCacheFile\<close>; \<open>XmountDisk\<close> states what reads and writes promise.
  \<^item> \<open>XmountFuse\<close>: the FUSE operations. \<open>XmountSession\<close>: sequences of them as the kernel
    sends them (\<open>fuse_run\<close>), the abstract disk (\<open>disk_run\<close>) they refine, progress, and
    read-only images. The sizes of the VMDK and lock files are \<open>int\<close> values, truncated and
    compared as in the code; \<open>mem_sizes_ok\<close> says that they have not wrapped.
  \<^item> \<open>Md5\<close>: \<open>md5.c\<close>, and the compression function of RFC 1321 written from the RFC
    (\<open>rfc_block\<close>), which the digest of its property uses. \<open>XmountHeaders\<close>: the hash of the image, the VDI header, the VHD
    footer, the VMDK descriptor and the info file; \<open>XmountExport\<close>: their properties, and the
    virtual VDI image read back by the VDI input library.

  \<^item> \<open>XmountCmd\<close>: \<open>ParseCmdLine\<close>, \<open>SplitLibraryParameters\<close>,
    \<open>ExtractVirtFileNames\<close> and the search for a library; \<open>XmountCmdSpec\<close>: what a command line
    means. \<open>XmountMain\<close>: \<open>main\<close> up to the call of \<open>fuse_main\<close>, and
    \<open>FreeResources\<close>; \<open>XmountLibs\<close>: the function tables of the libraries and their texts
    for the info file, with the test of a pointer that the caller leaves uninitialised
    (\<open>me_p_buf_null\<close> says whether it happens to be \<open>NULL\<close>).
    \<open>XmountMount\<close>: \<open>main\<close> reaches a state from which the FUSE sessions of
    \<open>XmountSession\<close> start, and shows the input images. \<open>XmountAff\<close>,
    \<open>XmountAewf\<close>: the AFF and the EWF library in it. \<open>XmountStart\<close>: \<open>LoadLibs\<close>,
    \<open>CheckFuseSettings\<close>, and the program from its start.

  Conventions. A C function that changes the state takes and returns the state; its return code
  is the first component. \<open>None\<close> stands for behaviour that C does not define (access outside
  a buffer, division by zero, shifts by too much, a loop that does not end); loops whose end is
  not structural are \<open>partial_function (option)\<close>, and every functional property shows that
  the result is \<open>Some\<close>. Allocation succeeds. Files have no read errors; writes fail at a
  limit of the file. The host is little-endian. Pointers to buffers that are filled by a call are
  returned byte strings.

  What the properties show: reads of the virtual image return its contents and writes change
  exactly their bytes, for raw, VDI and VHD output, across headers, cached and uncached blocks;
  failing writes keep the invariant; a cache file reopens to the same disk; the morphing and
  input libraries return the bytes that their format defines; the exported headers are well formed
  and xmount's own VDI library reads the exported image back; \<open>main\<close> mounts such a state from a
  command line, for all six output formats. Where the code promises less than its purpose, the
  properties say so: a write that ends in an incomplete last block fails, the map of a FAT16 volume
  has some clusters in use, an image that \<open>AewfOpen\<close> accepts is ready to be read only under two
  conditions that it does not check. Some properties state defects of
  the code where they are: they are listed as findings.

  Bounds: images are below \<open>2 ^ 51\<close> or \<open>2 ^ 52\<close> bytes where block numbers are 32 bits wide
  (2 PiB of 1 MiB blocks), below \<open>2 ^ 49\<close> where the VDI header has to fit in 32 bits; single
  reads and writes are below \<open>2 ^ 31\<close> because the code returns their length as an \<open>int\<close>;
  pieces of a message are below 256 MiB because \<open>md5_append\<close> counts their bits in an \<open>int\<close>.

  Bounds of the EWF library: fewer than \<open>2 ^ 32\<close> threads, tables below \<open>2 ^ 40\<close> bytes
  (\<open>tables_fit\<close>: the test against the end of the file wraps around), images below
  \<open>2 ^ 63\<close> bytes (an \<open>off_t\<close>). Its threads work on buffers of their own and are run where
  they are created.

  Not modelled: output of messages, log files, statistics and help texts; flushing; the branches
  for version 1 of libewf and the test programs in the libraries, which are not compiled in. zlib's
  \<open>inflate\<close>, \<open>uncompress\<close> and \<open>adler32\<close>, \<open>wcstombs\<close> and \<open>strftime\<close> are parameters of the
  libraries that call them, and so is the printing of \<open>%0.3f\<close> in their texts. libewf, afflib and libaff4 are not part of the sources.
\<close>

end
